(* ===== verification/X86_Prelude.thy ===== *)
theory X86_Prelude
  imports Main "HOL-Library.Word" "HOL-Library.Monad_Syntax"
begin

text \<open>
  Shared vocabulary of the x86port verification library: names for the C integer types,
  the named collections the component theories extend, and the generic lemmas on words,
  lists and options they share.

  C integers are words of the declared width.  Operand widths (\<open>int w\<close> in the code, in
  bytes) are natural numbers, so that the code's own check \<open>w == 1 || w == 2 || w == 4\<close>
  stays visible.  A call of \<open>x86p_diagnostic_fatalf\<close> (\<open>src/src/x86port/diagnostic.c\<close>)
  ends in \<open>abort()\<close>: the model's value of such a call is \<open>None\<close>.
\<close>

unbundle bit_operations_syntax

type_synonym u8 = "8 word"
type_synonym u16 = "16 word"
type_synonym u32 = "32 word"
type_synonym u64 = "64 word"

named_theorems x86_const \<open>numeric constants of the headers\<close>
named_theorems flag_simps \<open>what the flag readers return on recorded states\<close>
named_theorems mem_simps \<open>span and byte access of guest memory\<close>

abbreviation abort :: "'a option" where
  "abort \<equiv> None"

abbreviation valid_width :: "nat \<Rightarrow> bool" where
  "valid_width w \<equiv> w = 1 \<or> w = 2 \<or> w = 4"

section \<open>Words\<close>

lemma word_and_pow2_neq_0_iff: "(x AND 2 ^ n) \<noteq> 0 \<longleftrightarrow> bit (x :: 'a::len word) n"
  by (simp add: and_exp_eq_0_iff_not_bit)

lemma take_bit_uint_mod: "uint (take_bit n (x :: 'a::len word)) = uint x mod 2 ^ n"
  by (simp only: unsigned_take_bit_eq) (simp add: take_bit_eq_mod)

lemma word_of_nat_unat: "of_nat (unat (x :: 'a::len word)) = x"
  by simp

lemma unat_lt32: "unat (x :: u32) < 2 ^ 32"
  using unsigned_less [of x, where ?'a = nat] by simp

lemma unat_lt64: "unat (x :: u64) < 2 ^ 64"
  using unsigned_less [of x, where ?'a = nat] by simp

lemma unat_ucast_64: "unat (ucast (x :: u32) :: u64) = unat x"
proof -
  have "unat x < 2 ^ 64" using unat_lt32 [of x] by simp
  then show ?thesis by (simp add: unsigned_ucast_eq take_bit_nat_eq_self)
qed

section \<open>Steps that undo each other\<close>

text \<open>
  Two operations on a state of which one takes back what the other did, on the states an
  invariant describes: the contract of each pair of opposite rotates.
\<close>

locale undoing =
  fixes step_fwd :: "'a \<Rightarrow> 'a" and step_back :: "'a \<Rightarrow> 'a" and inv :: "'a \<Rightarrow> bool"
  assumes keeps: "inv x \<Longrightarrow> inv (step_fwd x)"
    and undoes: "inv x \<Longrightarrow> step_back (step_fwd x) = x"
begin

lemma keeps_funpow: "inv x \<Longrightarrow> inv ((step_fwd ^^ n) x)"
  by (induction n) (simp_all add: keeps)

lemma undoes_funpow: "inv x \<Longrightarrow> (step_back ^^ n) ((step_fwd ^^ n) x) = x"
proof (induction n)
  case (Suc n)
  have "(step_back ^^ Suc n) ((step_fwd ^^ Suc n) x) =
      (step_back ^^ n) (step_back (step_fwd ((step_fwd ^^ n) x)))"
    by (simp add: funpow_swap1)
  then show ?case using Suc undoes [OF keeps_funpow [OF Suc.prems]] by simp
qed simp

end

end
