(* ===== verification/X86_Flags.thy ===== *)
theory X86_Flags
  imports X86_Prelude
begin

text \<open>
  The lazy EFLAGS model of \<open>src/src/x86port/flags.h\<close> and \<open>flags.c\<close>: an operation records
  what it did (kind, operands, result, width) and every flag is derived on demand.  The
  constants, the state record and each reader are the code's; the lemmas at the end give
  the well-formedness invariant the recorder establishes, under which no reader aborts.
\<close>

section \<open>Constants and state (flags.h)\<close>

definition X86P_CF :: u32 where [x86_const]: "X86P_CF = 0x001"
definition X86P_PF :: u32 where [x86_const]: "X86P_PF = 0x004"
definition X86P_AF :: u32 where [x86_const]: "X86P_AF = 0x010"
definition X86P_ZF :: u32 where [x86_const]: "X86P_ZF = 0x040"
definition X86P_SF :: u32 where [x86_const]: "X86P_SF = 0x080"
definition X86P_OF :: u32 where [x86_const]: "X86P_OF = 0x800"
definition X86P_DF :: u32 where [x86_const]: "X86P_DF = 0x400"

definition X86P_EFLAGS_FIXED :: u32 where [x86_const]: "X86P_EFLAGS_FIXED = 0x00000202"

definition X86P_ARITH_FLAGS :: u32 where
  [x86_const]: "X86P_ARITH_FLAGS = X86P_CF OR X86P_PF OR X86P_AF OR X86P_ZF OR X86P_SF OR X86P_OF"

datatype flag_kind =
    kX86pFlagsNone | kX86pFlagsAdd | kX86pFlagsSub | kX86pFlagsLogic | kX86pFlagsInc
  | kX86pFlagsDec | kX86pFlagsShl | kX86pFlagsShr | kX86pFlagsSar | kX86pFlagsExplicit

text \<open>\<open>X86pFlags\<close>.  The width is the number of bytes, and \<open>carry_in\<close> only ever holds 0 or 1.\<close>

record flags =
  fl_a :: u32
  fl_b :: u32
  fl_r :: u32
  fl_kind :: flag_kind
  fl_w :: nat
  fl_carry_in :: bool

text \<open>The state \<open>memset\<close> leaves.\<close>

definition flags_zero :: flags where
  "flags_zero = \<lparr>fl_a = 0, fl_b = 0, fl_r = 0, fl_kind = kX86pFlagsNone, fl_w = 0, fl_carry_in = False\<rparr>"

section \<open>Readers (flags.c)\<close>

definition x86p_width_mask :: "nat \<Rightarrow> u32" where
  "x86p_width_mask w =
     (if w = 1 then 0xFF else if w = 2 then 0xFFFF else if w = 4 then 0xFFFFFFFF else 0)"

definition msb :: "u32 \<Rightarrow> nat \<Rightarrow> bool" where
  "msb v w = (if w < 1 \<or> 4 < w then False else bit v (w * 8 - 1))"

definition x86p_flag_zf :: "flags \<Rightarrow> bool" where
  "x86p_flag_zf f =
     (if fl_kind f = kX86pFlagsNone then False
      else if fl_kind f = kX86pFlagsExplicit then (fl_a f AND X86P_ZF) \<noteq> 0
      else if fl_w f = 4 then fl_r f = 0
      else (fl_r f AND x86p_width_mask (fl_w f)) = 0)"

definition x86p_flag_sf :: "flags \<Rightarrow> bool" where
  "x86p_flag_sf f =
     (if fl_kind f = kX86pFlagsNone then False
      else if fl_kind f = kX86pFlagsExplicit then (fl_a f AND X86P_SF) \<noteq> 0
      else if fl_w f = 4 then bit (fl_r f) 31
      else msb (fl_r f) (fl_w f))"

text \<open>The xor folding of the low byte, shared by the code's three copies of it.\<close>

definition parity_even :: "u32 \<Rightarrow> bool" where
  "parity_even r =
     (let v = r AND 0xFF;
          v = v XOR drop_bit 4 v;
          v = v XOR drop_bit 2 v;
          v = v XOR drop_bit 1 v
      in (NOT v AND 1) \<noteq> 0)"

definition x86p_flag_pf :: "flags \<Rightarrow> bool" where
  "x86p_flag_pf f =
     (if fl_kind f = kX86pFlagsNone then False
      else if fl_kind f = kX86pFlagsExplicit then (fl_a f AND X86P_PF) \<noteq> 0
      else parity_even (fl_r f))"

definition x86p_flags_carry_in_is_live :: "flag_kind \<Rightarrow> bool" where
  "x86p_flags_carry_in_is_live kind \<longleftrightarrow> kind = kX86pFlagsInc \<or> kind = kX86pFlagsDec"

text \<open>
  The shift kinds of \<open>x86p_flag_cf\<close>.  A count of zero cannot be recorded; the code would
  shift by an out-of-range amount there, and the bit the model reads has no meaning.
\<close>

definition shift_cf :: "flags \<Rightarrow> bool" where
  "shift_cf f =
     (let count = unat (fl_b f) in
      if fl_w f * 8 < count then (if fl_kind f = kX86pFlagsSar then msb (fl_a f) (fl_w f) else False)
      else if fl_kind f = kX86pFlagsShl then bit (fl_a f) (fl_w f * 8 - count)
      else bit (fl_a f) (count - 1))"

definition x86p_flag_cf :: "flags \<Rightarrow> bool" where
  "x86p_flag_cf f =
     (case fl_kind f of
        kX86pFlagsSub \<Rightarrow>
          if fl_w f = 4 then fl_a f < fl_b f
          else (fl_a f AND x86p_width_mask (fl_w f)) < (fl_b f AND x86p_width_mask (fl_w f))
      | kX86pFlagsLogic \<Rightarrow> False
      | kX86pFlagsNone \<Rightarrow> False
      | kX86pFlagsAdd \<Rightarrow>
          if fl_w f = 4 then fl_r f < fl_a f
          else (fl_r f AND x86p_width_mask (fl_w f)) < (fl_a f AND x86p_width_mask (fl_w f))
      | kX86pFlagsInc \<Rightarrow> fl_carry_in f
      | kX86pFlagsDec \<Rightarrow> fl_carry_in f
      | kX86pFlagsExplicit \<Rightarrow> (fl_a f AND X86P_CF) \<noteq> 0
      | kX86pFlagsShl \<Rightarrow> shift_cf f
      | kX86pFlagsShr \<Rightarrow> shift_cf f
      | kX86pFlagsSar \<Rightarrow> shift_cf f)"

text \<open>\<open>x86p_flag_of\<close> is the one reader that aborts, on a width outside 1, 2 and 4.\<close>

definition x86p_flag_of :: "flags \<Rightarrow> bool option" where
  "x86p_flag_of f =
     (if fl_kind f = kX86pFlagsNone then Some False
      else if fl_kind f = kX86pFlagsExplicit then Some ((fl_a f AND X86P_OF) \<noteq> 0)
      else if fl_kind f = kX86pFlagsLogic \<or> fl_kind f = kX86pFlagsSar then Some False
      else if \<not> valid_width (fl_w f) then abort
      else
        let sa = (if fl_w f = 4 then bit (fl_a f) 31 else msb (fl_a f) (fl_w f));
            sb = (if fl_w f = 4 then bit (fl_b f) 31 else msb (fl_b f) (fl_w f));
            sr = (if fl_w f = 4 then bit (fl_r f) 31 else msb (fl_r f) (fl_w f));
            m = (if fl_w f = 4 then 0xFFFFFFFF else x86p_width_mask (fl_w f));
            sign_bit = push_bit (fl_w f * 8 - 1) (1 :: u32)
        in Some (case fl_kind f of
            kX86pFlagsAdd \<Rightarrow> sa = sb \<and> sr \<noteq> sa
          | kX86pFlagsSub \<Rightarrow> sa \<noteq> sb \<and> sr \<noteq> sa
          | kX86pFlagsInc \<Rightarrow> (fl_r f AND m) = sign_bit
          | kX86pFlagsDec \<Rightarrow> (fl_a f AND m) = sign_bit
          | kX86pFlagsShl \<Rightarrow> sr \<noteq> x86p_flag_cf f
          | kX86pFlagsShr \<Rightarrow> (if fl_b f = 1 then sa else False)
          | _ \<Rightarrow> False))"

definition x86p_flag_af :: "flags \<Rightarrow> bool" where
  "x86p_flag_af f =
     (case fl_kind f of
        kX86pFlagsNone \<Rightarrow> False
      | kX86pFlagsExplicit \<Rightarrow> (fl_a f AND X86P_AF) \<noteq> 0
      | kX86pFlagsAdd \<Rightarrow> bit (fl_a f XOR fl_b f XOR fl_r f) 4
      | kX86pFlagsSub \<Rightarrow> bit (fl_a f XOR fl_b f XOR fl_r f) 4
      | kX86pFlagsInc \<Rightarrow> bit (fl_a f XOR fl_b f XOR fl_r f) 4
      | kX86pFlagsDec \<Rightarrow> bit (fl_a f XOR fl_b f XOR fl_r f) 4
      | kX86pFlagsLogic \<Rightarrow> False
      | kX86pFlagsShl \<Rightarrow> True
      | kX86pFlagsShr \<Rightarrow> True
      | kX86pFlagsSar \<Rightarrow> True)"

text \<open>\<open>if (c) v |= bit;\<close>\<close>

definition or_if :: "bool \<Rightarrow> u32 \<Rightarrow> u32 \<Rightarrow> u32" where
  "or_if c fb v = (if c then v OR fb else v)"

definition x86p_eflags :: "flags \<Rightarrow> u32 option" where
  "x86p_eflags f =
     (if fl_kind f = kX86pFlagsNone then Some X86P_EFLAGS_FIXED
      else if fl_kind f = kX86pFlagsExplicit then Some ((fl_a f AND X86P_ARITH_FLAGS) OR X86P_EFLAGS_FIXED)
      else if fl_kind f = kX86pFlagsLogic then
        Some (or_if (x86p_flag_pf f) X86P_PF
               (or_if (x86p_flag_sf f) X86P_SF
                 (or_if (x86p_flag_zf f) X86P_ZF X86P_EFLAGS_FIXED)))
      else do {
        ovf \<leftarrow> x86p_flag_of f;
        Some (or_if ovf X86P_OF
               (or_if (x86p_flag_sf f) X86P_SF
                 (or_if (x86p_flag_zf f) X86P_ZF
                   (or_if (x86p_flag_af f) X86P_AF
                     (or_if (x86p_flag_pf f) X86P_PF
                       (or_if (x86p_flag_cf f) X86P_CF X86P_EFLAGS_FIXED))))))
      })"

section \<open>Recording (flags.c)\<close>

definition x86p_flags_set :: "flags \<Rightarrow> flag_kind \<Rightarrow> u32 \<Rightarrow> u32 \<Rightarrow> u32 \<Rightarrow> nat \<Rightarrow> flags option" where
  "x86p_flags_set f kind a b r w =
     (if \<not> valid_width w then abort
      else if (kind = kX86pFlagsShl \<or> kind = kX86pFlagsShr \<or> kind = kX86pFlagsSar) \<and> b = 0 then abort
      else Some \<lparr>fl_a = a, fl_b = b, fl_r = r, fl_kind = kind, fl_w = w,
                 fl_carry_in = x86p_flag_cf f\<rparr>)"

definition x86p_flags_set_explicit :: "flags \<Rightarrow> u32 \<Rightarrow> flags" where
  "x86p_flags_set_explicit f eflags =
     f\<lparr>fl_kind := kX86pFlagsExplicit, fl_a := eflags, fl_b := 0, fl_r := 0, fl_w := 4,
       fl_carry_in := ((eflags AND X86P_CF) \<noteq> 0)\<rparr>"

text \<open>
  \<open>x86p_flags_adc\<close> and \<open>x86p_flags_sbb\<close>: the 64-bit intermediate \<open>full\<close> is kept, so the
  carry is read from its bit \<open>w * 8\<close>.
\<close>

definition x86p_flags_adc :: "u32 \<Rightarrow> u32 \<Rightarrow> u32 \<Rightarrow> u32 \<Rightarrow> nat \<Rightarrow> u32" where
  "x86p_flags_adc a b carry_in r w =
     (let m = x86p_width_mask w;
          carry_in = (if carry_in \<noteq> 0 then 1 else 0 :: u32);
          full = (ucast (a AND m) :: u64) + ucast (b AND m) + ucast carry_in;
          a = a AND m; b = b AND m; r = r AND m;
          v = or_if (bit full (w * 8)) X86P_CF 0;
          v = or_if (r = 0) X86P_ZF v;
          v = or_if (msb r w) X86P_SF v;
          v = or_if (bit (NOT (a XOR b) AND (a XOR r)) (w * 8 - 1)) X86P_OF v;
          v = or_if (bit (a XOR b XOR r) 4) X86P_AF v;
          v = or_if (parity_even r) X86P_PF v
      in v OR X86P_EFLAGS_FIXED)"

definition x86p_flags_sbb :: "u32 \<Rightarrow> u32 \<Rightarrow> u32 \<Rightarrow> u32 \<Rightarrow> nat \<Rightarrow> u32" where
  "x86p_flags_sbb a b carry_in r w =
     (let m = x86p_width_mask w;
          carry_in = (if carry_in \<noteq> 0 then 1 else 0 :: u32);
          full = (ucast (a AND m) :: u64) - ucast (b AND m) - ucast carry_in;
          a = a AND m; b = b AND m; r = r AND m;
          v = or_if (bit full (w * 8)) X86P_CF 0;
          v = or_if (r = 0) X86P_ZF v;
          v = or_if (msb r w) X86P_SF v;
          v = or_if (bit ((a XOR b) AND (a XOR r)) (w * 8 - 1)) X86P_OF v;
          v = or_if (bit (a XOR b XOR r) 4) X86P_AF v;
          v = or_if (parity_even r) X86P_PF v
      in v OR X86P_EFLAGS_FIXED)"


section \<open>Reading single flags of a word\<close>

lemma flag_const_exp:
  "X86P_CF = 2 ^ 0" "X86P_PF = 2 ^ 2" "X86P_AF = 2 ^ 4" "X86P_ZF = 2 ^ 6" "X86P_SF = 2 ^ 7"
  "X86P_OF = 2 ^ 11" "X86P_DF = 2 ^ 10" "X86P_EFLAGS_FIXED = 2 ^ 1 OR 2 ^ 9"
  by (simp_all add: x86_const)

lemma and_flag_iff [flag_simps]:
  "(x AND X86P_CF \<noteq> 0) = bit x 0"
  "(x AND X86P_PF \<noteq> 0) = bit x 2"
  "(x AND X86P_AF \<noteq> 0) = bit x 4"
  "(x AND X86P_ZF \<noteq> 0) = bit x 6"
  "(x AND X86P_SF \<noteq> 0) = bit x 7"
  "(x AND X86P_OF \<noteq> 0) = bit x 11"
  "(x AND X86P_DF \<noteq> 0) = bit x 10"
  unfolding flag_const_exp by (rule word_and_pow2_neq_0_iff)+

lemma bit_flag_const [flag_simps]:
  "bit X86P_CF n = (n = 0)" "bit X86P_PF n = (n = 2)" "bit X86P_AF n = (n = 4)"
  "bit X86P_ZF n = (n = 6)" "bit X86P_SF n = (n = 7)" "bit X86P_OF n = (n = 11)"
  "bit X86P_DF n = (n = 10)"
  unfolding flag_const_exp bit_exp_iff by auto

lemma bit_fixed [flag_simps]: "bit X86P_EFLAGS_FIXED n = (n = 1 \<or> n = 9)"
  unfolding flag_const_exp bit_or_iff bit_exp_iff by auto

lemma bit_arith [flag_simps]:
  "bit X86P_ARITH_FLAGS n = (n = 0 \<or> n = 2 \<or> n = 4 \<or> n = 6 \<or> n = 7 \<or> n = 11)"
  by (auto simp: X86P_ARITH_FLAGS_def bit_or_iff bit_flag_const)

lemma bit_or_if [flag_simps]: "bit (or_if c k v) n = (bit v n \<or> c \<and> bit k n)"
  by (auto simp: or_if_def bit_or_iff)

section \<open>Well-formedness\<close>

text \<open>
  What \<open>x86p_flags_set\<close> and \<open>x86p_flags_set_explicit\<close> establish: a recorded operation has a
  width of 1, 2 or 4 bytes, and a recorded shift a nonzero count.
\<close>

definition flags_ok :: "flags \<Rightarrow> bool" where
  "flags_ok f \<longleftrightarrow>
     (fl_kind f = kX86pFlagsNone \<or> valid_width (fl_w f)) \<and>
     (fl_kind f \<in> {kX86pFlagsShl, kX86pFlagsShr, kX86pFlagsSar} \<longrightarrow> fl_b f \<noteq> 0)"

lemma flags_ok_zero [simp]: "flags_ok flags_zero"
  by (simp add: flags_ok_def flags_zero_def)

lemma flags_ok_set: "x86p_flags_set f k a b r w = Some f' \<Longrightarrow> flags_ok f'"
  by (auto simp: x86p_flags_set_def flags_ok_def split: if_splits)

lemma flags_ok_set_explicit [simp]: "flags_ok (x86p_flags_set_explicit f v)"
  by (simp add: x86p_flags_set_explicit_def flags_ok_def)

lemma flag_of_total: "flags_ok f \<Longrightarrow> \<exists>b. x86p_flag_of f = Some b"
  by (auto simp: flags_ok_def x86p_flag_of_def Let_def)

lemma eflags_total: "flags_ok f \<Longrightarrow> \<exists>v. x86p_eflags f = Some v"
  using flag_of_total [of f] by (auto simp: x86p_eflags_def)

section \<open>The materialised word agrees with the readers\<close>

lemma eflags_total_of: "x86p_flag_of f = Some b \<Longrightarrow> \<exists>v. x86p_eflags f = Some v"
  by (simp add: x86p_eflags_def)

lemma eflags_of:
  "x86p_eflags f = Some v \<Longrightarrow> \<exists>b. x86p_flag_of f = Some b"
  by (auto simp: x86p_eflags_def x86p_flag_of_def Let_def split: if_splits bind_splits)

lemma x86p_eflags_bits:
  assumes "x86p_eflags f = Some v"
  shows "bit v 0 = x86p_flag_cf f" "bit v 2 = x86p_flag_pf f" "bit v 4 = x86p_flag_af f"
    "bit v 6 = x86p_flag_zf f" "bit v 7 = x86p_flag_sf f" "x86p_flag_of f = Some (bit v 11)"
proof -
  consider "fl_kind f = kX86pFlagsNone" | "fl_kind f = kX86pFlagsExplicit"
    | "fl_kind f = kX86pFlagsLogic"
    | "fl_kind f \<notin> {kX86pFlagsNone, kX86pFlagsExplicit, kX86pFlagsLogic}" by blast
  then have "bit v 0 = x86p_flag_cf f \<and> bit v 2 = x86p_flag_pf f \<and> bit v 4 = x86p_flag_af f \<and>
    bit v 6 = x86p_flag_zf f \<and> bit v 7 = x86p_flag_sf f \<and> x86p_flag_of f = Some (bit v 11)"
  proof cases
    case 4
    with assms obtain b where "x86p_flag_of f = Some b"
      and "v = or_if b X86P_OF
               (or_if (x86p_flag_sf f) X86P_SF
                 (or_if (x86p_flag_zf f) X86P_ZF
                   (or_if (x86p_flag_af f) X86P_AF
                     (or_if (x86p_flag_pf f) X86P_PF
                       (or_if (x86p_flag_cf f) X86P_CF X86P_EFLAGS_FIXED)))))"
      by (auto simp: x86p_eflags_def bind_eq_Some_conv)
    then show ?thesis by (simp add: flag_simps)
  qed (use assms in \<open>auto simp: x86p_eflags_def x86p_flag_cf_def x86p_flag_pf_def x86p_flag_af_def
      x86p_flag_zf_def x86p_flag_sf_def x86p_flag_of_def flag_simps bit_or_iff bit_and_iff\<close>)
  then show "bit v 0 = x86p_flag_cf f" "bit v 2 = x86p_flag_pf f" "bit v 4 = x86p_flag_af f"
    "bit v 6 = x86p_flag_zf f" "bit v 7 = x86p_flag_sf f" "x86p_flag_of f = Some (bit v 11)"
    by blast+
qed

text \<open>No other bit of the word depends on the state.\<close>

lemma x86p_eflags_other_bits:
  assumes "x86p_eflags f = Some v" and "n \<notin> {0, 2, 4, 6, 7, 11}"
  shows "bit v n = (n = 1 \<or> n = 9)"
  using assms
  by (auto simp: x86p_eflags_def flag_simps bit_or_iff bit_and_iff bind_eq_Some_conv split: if_splits)

lemma explicit_readers [flag_simps]:
  "x86p_flag_cf (x86p_flags_set_explicit f v) = bit v 0"
  "x86p_flag_pf (x86p_flags_set_explicit f v) = bit v 2"
  "x86p_flag_af (x86p_flags_set_explicit f v) = bit v 4"
  "x86p_flag_zf (x86p_flags_set_explicit f v) = bit v 6"
  "x86p_flag_sf (x86p_flags_set_explicit f v) = bit v 7"
  "x86p_flag_of (x86p_flags_set_explicit f v) = Some (bit v 11)"
  by (simp_all add: x86p_flags_set_explicit_def x86p_flag_cf_def x86p_flag_pf_def x86p_flag_af_def
      x86p_flag_zf_def x86p_flag_sf_def x86p_flag_of_def flag_simps)

lemma explicit_eflags [flag_simps]:
  "x86p_eflags (x86p_flags_set_explicit f v) = Some ((v AND X86P_ARITH_FLAGS) OR X86P_EFLAGS_FIXED)"
  by (simp add: x86p_flags_set_explicit_def x86p_eflags_def)

lemma flags_set_readers:
  assumes "x86p_flags_set f k a b r w = Some f'"
  shows "fl_kind f' = k" "fl_a f' = a" "fl_b f' = b" "fl_r f' = r" "fl_w f' = w"
    "fl_carry_in f' = x86p_flag_cf f" "valid_width w"
  using assms by (auto simp: x86p_flags_set_def split: if_splits)

text \<open>
  A carry-in no reader consults can hold anything: the rule a backend relies on when it
  skips the store.
\<close>

lemma dead_carry_in_readers:
  assumes "\<not> x86p_flags_carry_in_is_live (fl_kind f)"
  shows "x86p_flag_cf (f\<lparr>fl_carry_in := c\<rparr>) = x86p_flag_cf f"
    and "x86p_flag_of (f\<lparr>fl_carry_in := c\<rparr>) = x86p_flag_of f"
    and "x86p_flag_pf (f\<lparr>fl_carry_in := c\<rparr>) = x86p_flag_pf f"
    and "x86p_flag_af (f\<lparr>fl_carry_in := c\<rparr>) = x86p_flag_af f"
    and "x86p_flag_zf (f\<lparr>fl_carry_in := c\<rparr>) = x86p_flag_zf f"
    and "x86p_flag_sf (f\<lparr>fl_carry_in := c\<rparr>) = x86p_flag_sf f"
proof -
  show cf: "x86p_flag_cf (f\<lparr>fl_carry_in := c\<rparr>) = x86p_flag_cf f"
    using assms by (cases "fl_kind f")
      (auto simp: x86p_flag_cf_def x86p_flags_carry_in_is_live_def shift_cf_def)
  show "x86p_flag_of (f\<lparr>fl_carry_in := c\<rparr>) = x86p_flag_of f"
    by (cases "fl_kind f"; simp add: x86p_flag_of_def Let_def cf)
  show "x86p_flag_pf (f\<lparr>fl_carry_in := c\<rparr>) = x86p_flag_pf f"
    "x86p_flag_af (f\<lparr>fl_carry_in := c\<rparr>) = x86p_flag_af f"
    "x86p_flag_zf (f\<lparr>fl_carry_in := c\<rparr>) = x86p_flag_zf f"
    "x86p_flag_sf (f\<lparr>fl_carry_in := c\<rparr>) = x86p_flag_sf f"
    by (cases "fl_kind f"; simp add: x86p_flag_pf_def x86p_flag_af_def x86p_flag_zf_def
        x86p_flag_sf_def)+
qed

lemma dead_carry_in:
  assumes "\<not> x86p_flags_carry_in_is_live (fl_kind f)"
  shows "x86p_eflags (f\<lparr>fl_carry_in := c\<rparr>) = x86p_eflags f"
  by (simp add: x86p_eflags_def dead_carry_in_readers [OF assms])

end
