(* ===== verification/X86_Cond.thy ===== *)
theory X86_Cond
  imports X86_Flags
begin

text \<open>
  The sixteen condition codes of \<open>src/src/x86port/cond.h\<close> and \<open>cond.c\<close>, evaluated on a lazy
  flag state and on a materialised EFLAGS word, and the agreement of the two.
\<close>

datatype cond =
    kX86pCondO | kX86pCondNO | kX86pCondB | kX86pCondNB | kX86pCondZ | kX86pCondNZ
  | kX86pCondBE | kX86pCondA | kX86pCondS | kX86pCondNS | kX86pCondP | kX86pCondNP
  | kX86pCondL | kX86pCondGE | kX86pCondLE | kX86pCondG

definition x86p_cond_eflags :: "cond \<Rightarrow> u32 \<Rightarrow> bool" where
  "x86p_cond_eflags cc eflags =
     (let cf = (eflags AND X86P_CF) \<noteq> 0;
          pf = (eflags AND X86P_PF) \<noteq> 0;
          zf = (eflags AND X86P_ZF) \<noteq> 0;
          sf = (eflags AND X86P_SF) \<noteq> 0;
          ovf = (eflags AND X86P_OF) \<noteq> 0
      in case cc of
           kX86pCondO \<Rightarrow> ovf
         | kX86pCondNO \<Rightarrow> \<not> ovf
         | kX86pCondB \<Rightarrow> cf
         | kX86pCondNB \<Rightarrow> \<not> cf
         | kX86pCondZ \<Rightarrow> zf
         | kX86pCondNZ \<Rightarrow> \<not> zf
         | kX86pCondBE \<Rightarrow> cf \<or> zf
         | kX86pCondA \<Rightarrow> \<not> cf \<and> \<not> zf
         | kX86pCondS \<Rightarrow> sf
         | kX86pCondNS \<Rightarrow> \<not> sf
         | kX86pCondP \<Rightarrow> pf
         | kX86pCondNP \<Rightarrow> \<not> pf
         | kX86pCondL \<Rightarrow> sf \<noteq> ovf
         | kX86pCondGE \<Rightarrow> sf = ovf
         | kX86pCondLE \<Rightarrow> zf \<or> sf \<noteq> ovf
         | kX86pCondG \<Rightarrow> \<not> zf \<and> sf = ovf)"

text \<open>
  \<open>x86p_cond\<close>.  C's \<open>||\<close> and \<open>&&\<close> do not evaluate the second operand once the first decides,
  so for LE and G a set ZF keeps the aborting reader of OF from being called.
\<close>

definition x86p_cond :: "cond \<Rightarrow> flags \<Rightarrow> bool option" where
  "x86p_cond cc f =
     (if fl_kind f = kX86pFlagsNone then Some (x86p_cond_eflags cc X86P_EFLAGS_FIXED)
      else if fl_kind f = kX86pFlagsExplicit then Some (x86p_cond_eflags cc (fl_a f))
      else case cc of
          kX86pCondO \<Rightarrow> x86p_flag_of f
        | kX86pCondNO \<Rightarrow> do { ovf \<leftarrow> x86p_flag_of f; Some (\<not> ovf) }
        | kX86pCondB \<Rightarrow> Some (x86p_flag_cf f)
        | kX86pCondNB \<Rightarrow> Some (\<not> x86p_flag_cf f)
        | kX86pCondZ \<Rightarrow> Some (x86p_flag_zf f)
        | kX86pCondNZ \<Rightarrow> Some (\<not> x86p_flag_zf f)
        | kX86pCondBE \<Rightarrow> Some (x86p_flag_zf f \<or> x86p_flag_cf f)
        | kX86pCondA \<Rightarrow> Some (\<not> x86p_flag_zf f \<and> \<not> x86p_flag_cf f)
        | kX86pCondS \<Rightarrow> Some (x86p_flag_sf f)
        | kX86pCondNS \<Rightarrow> Some (\<not> x86p_flag_sf f)
        | kX86pCondP \<Rightarrow> Some (x86p_flag_pf f)
        | kX86pCondNP \<Rightarrow> Some (\<not> x86p_flag_pf f)
        | kX86pCondL \<Rightarrow> do { ovf \<leftarrow> x86p_flag_of f; Some (x86p_flag_sf f \<noteq> ovf) }
        | kX86pCondGE \<Rightarrow> do { ovf \<leftarrow> x86p_flag_of f; Some (x86p_flag_sf f = ovf) }
        | kX86pCondLE \<Rightarrow>
            if x86p_flag_zf f then Some True
            else do { ovf \<leftarrow> x86p_flag_of f; Some (x86p_flag_sf f \<noteq> ovf) }
        | kX86pCondG \<Rightarrow>
            if x86p_flag_zf f then Some False
            else do { ovf \<leftarrow> x86p_flag_of f; Some (x86p_flag_sf f = ovf) })"

definition x86p_cond_name :: "cond \<Rightarrow> string" where
  "x86p_cond_name cc =
     (case cc of
        kX86pCondO \<Rightarrow> ''O'' | kX86pCondNO \<Rightarrow> ''NO'' | kX86pCondB \<Rightarrow> ''B'' | kX86pCondNB \<Rightarrow> ''NB''
      | kX86pCondZ \<Rightarrow> ''Z'' | kX86pCondNZ \<Rightarrow> ''NZ'' | kX86pCondBE \<Rightarrow> ''BE'' | kX86pCondA \<Rightarrow> ''A''
      | kX86pCondS \<Rightarrow> ''S'' | kX86pCondNS \<Rightarrow> ''NS'' | kX86pCondP \<Rightarrow> ''P'' | kX86pCondNP \<Rightarrow> ''NP''
      | kX86pCondL \<Rightarrow> ''L'' | kX86pCondGE \<Rightarrow> ''GE'' | kX86pCondLE \<Rightarrow> ''LE'' | kX86pCondG \<Rightarrow> ''G'')"

section \<open>Agreement\<close>

text \<open>A condition is a function of the six arithmetic flags alone.\<close>

lemma cond_eflags_cong:
  assumes "bit v 0 = bit v' 0" "bit v 2 = bit v' 2" "bit v 6 = bit v' 6" "bit v 7 = bit v' 7"
    "bit v 11 = bit v' 11"
  shows "x86p_cond_eflags cc v = x86p_cond_eflags cc v'"
  using assms by (simp add: x86p_cond_eflags_def flag_simps)

lemma cond_of_readers:
  assumes "x86p_flag_of f = Some ovf"
  shows "x86p_cond cc f =
    Some (case cc of
           kX86pCondO \<Rightarrow> ovf
         | kX86pCondNO \<Rightarrow> \<not> ovf
         | kX86pCondB \<Rightarrow> x86p_flag_cf f
         | kX86pCondNB \<Rightarrow> \<not> x86p_flag_cf f
         | kX86pCondZ \<Rightarrow> x86p_flag_zf f
         | kX86pCondNZ \<Rightarrow> \<not> x86p_flag_zf f
         | kX86pCondBE \<Rightarrow> x86p_flag_cf f \<or> x86p_flag_zf f
         | kX86pCondA \<Rightarrow> \<not> x86p_flag_cf f \<and> \<not> x86p_flag_zf f
         | kX86pCondS \<Rightarrow> x86p_flag_sf f
         | kX86pCondNS \<Rightarrow> \<not> x86p_flag_sf f
         | kX86pCondP \<Rightarrow> x86p_flag_pf f
         | kX86pCondNP \<Rightarrow> \<not> x86p_flag_pf f
         | kX86pCondL \<Rightarrow> x86p_flag_sf f \<noteq> ovf
         | kX86pCondGE \<Rightarrow> x86p_flag_sf f = ovf
         | kX86pCondLE \<Rightarrow> x86p_flag_zf f \<or> x86p_flag_sf f \<noteq> ovf
         | kX86pCondG \<Rightarrow> \<not> x86p_flag_zf f \<and> x86p_flag_sf f = ovf)"
proof -
  consider "fl_kind f = kX86pFlagsNone" | "fl_kind f = kX86pFlagsExplicit"
    | "fl_kind f \<notin> {kX86pFlagsNone, kX86pFlagsExplicit}" by blast
  then show ?thesis
  proof cases
    case 3
    with assms show ?thesis by (cases cc) (auto simp: x86p_cond_def)
  qed (use assms in \<open>cases cc; auto simp: x86p_cond_def x86p_cond_eflags_def x86p_flag_cf_def
      x86p_flag_pf_def x86p_flag_zf_def x86p_flag_sf_def x86p_flag_of_def flag_simps\<close>)+
qed

lemma cond_as_eflags:
  assumes "x86p_eflags f = Some v"
  shows "x86p_cond cc f = Some (x86p_cond_eflags cc v)"
  unfolding cond_of_readers [OF x86p_eflags_bits(6) [OF assms]]
  by (cases cc) (simp_all add: x86p_cond_eflags_def flag_simps x86p_eflags_bits [OF assms])

lemma dead_carry_in_cond:
  assumes "\<not> x86p_flags_carry_in_is_live (fl_kind f)"
  shows "x86p_cond cc (f\<lparr>fl_carry_in := c\<rparr>) = x86p_cond cc f"
  by (cases cc) (simp_all add: x86p_cond_def dead_carry_in_readers [OF assms])

end
