(* ===== verification/X86_Alu.thy ===== *)
theory X86_Alu
  imports X86_Cond "HOL-Library.Signed_Division"
begin

text \<open>
  The integer ALU of \<open>src/src/x86port/alu.h\<close> and \<open>alu.c\<close>: each operation returns its result
  together with the flag state it leaves.  \<open>None\<close> is the diagnostic abort on an operand width
  outside 1, 2 and 4.  \<open>a\<close> and \<open>b\<close> are \<open>uint32_t\<close>; the bits above the width are ignored on
  input and zero on output.  Signed 64-bit intermediates never overflow in the code and are
  integers here.
\<close>

section \<open>Operations (alu.h)\<close>

datatype alu_op =
    kX86pAluAdd | kX86pAluOr | kX86pAluAdc | kX86pAluSbb | kX86pAluAnd | kX86pAluSub
  | kX86pAluXor | kX86pAluCmp | kX86pAluTest | kX86pAluShl | kX86pAluShr | kX86pAluSar
  | kX86pAluRol | kX86pAluRor | kX86pAluRcl | kX86pAluRcr

datatype alu_un_op = kX86pAluNot | kX86pAluNeg | kX86pAluInc | kX86pAluDec

definition x86p_sign_extend :: "u32 \<Rightarrow> nat \<Rightarrow> u32" where
  "x86p_sign_extend v from_bytes =
     (if from_bytes = 1 then scast (ucast (v AND 0xFF) :: u8)
      else if from_bytes = 2 then scast (ucast (v AND 0xFFFF) :: u16)
      else v)"

definition x86p_alu_is_shift :: "alu_op \<Rightarrow> bool" where
  "x86p_alu_is_shift op \<longleftrightarrow> op = kX86pAluShl \<or> op = kX86pAluShr \<or> op = kX86pAluSar"

definition x86p_alu_name :: "alu_op \<Rightarrow> string" where
  "x86p_alu_name op =
     (case op of
        kX86pAluAdd \<Rightarrow> ''ADD'' | kX86pAluOr \<Rightarrow> ''OR'' | kX86pAluAdc \<Rightarrow> ''ADC'' | kX86pAluSbb \<Rightarrow> ''SBB''
      | kX86pAluAnd \<Rightarrow> ''AND'' | kX86pAluSub \<Rightarrow> ''SUB'' | kX86pAluXor \<Rightarrow> ''XOR'' | kX86pAluCmp \<Rightarrow> ''CMP''
      | kX86pAluTest \<Rightarrow> ''TEST'' | kX86pAluShl \<Rightarrow> ''SHL'' | kX86pAluShr \<Rightarrow> ''SHR'' | kX86pAluSar \<Rightarrow> ''SAR''
      | kX86pAluRol \<Rightarrow> ''ROL'' | kX86pAluRor \<Rightarrow> ''ROR'' | kX86pAluRcl \<Rightarrow> ''RCL'' | kX86pAluRcr \<Rightarrow> ''RCR'')"

definition require_width :: "nat \<Rightarrow> unit option" where
  "require_width w = (if valid_width w then Some () else abort)"

text \<open>The rotates and multiplies replace CF and OF in the materialised word and keep the rest.\<close>

definition set_cf_of_only :: "flags \<Rightarrow> bool \<Rightarrow> bool \<Rightarrow> flags option" where
  "set_cf_of_only f cf ovf = do {
     word \<leftarrow> x86p_eflags f;
     Some (x86p_flags_set_explicit f
       ((word AND NOT (X86P_CF OR X86P_OF)) OR (if cf then X86P_CF else 0) OR (if ovf then X86P_OF else 0)))
   }"

section \<open>Binary operations (alu.c)\<close>

definition alu_add :: "u32 \<Rightarrow> u32 \<Rightarrow> nat \<Rightarrow> flags \<Rightarrow> (u32 \<times> flags) option" where
  "alu_add a b w f = (let m = x86p_width_mask w; r = (a + b) AND m in do {
     f \<leftarrow> x86p_flags_set f kX86pFlagsAdd a b r w; Some (r, f) })"

definition alu_sub :: "u32 \<Rightarrow> u32 \<Rightarrow> nat \<Rightarrow> flags \<Rightarrow> (u32 \<times> flags) option" where
  "alu_sub a b w f = (let m = x86p_width_mask w; r = (a - b) AND m in do {
     f \<leftarrow> x86p_flags_set f kX86pFlagsSub a b r w; Some (r, f) })"

text \<open>OR, AND, TEST and XOR: the bitwise result \<open>r\<close>, recorded as a logic operation.\<close>

definition alu_logic :: "u32 \<Rightarrow> u32 \<Rightarrow> u32 \<Rightarrow> nat \<Rightarrow> flags \<Rightarrow> (u32 \<times> flags) option" where
  "alu_logic r a b w f = (let r = r AND x86p_width_mask w in do {
     f \<leftarrow> x86p_flags_set f kX86pFlagsLogic a b r w; Some (r, f) })"

definition alu_adc :: "u32 \<Rightarrow> u32 \<Rightarrow> nat \<Rightarrow> flags \<Rightarrow> u32 \<times> flags" where
  "alu_adc a b w f =
     (let cin = (if x86p_flag_cf f then 1 else 0);
          r = (a + b + cin) AND x86p_width_mask w
      in (r, x86p_flags_set_explicit f (x86p_flags_adc a b cin r w)))"

definition alu_sbb :: "u32 \<Rightarrow> u32 \<Rightarrow> nat \<Rightarrow> flags \<Rightarrow> u32 \<times> flags" where
  "alu_sbb a b w f =
     (let cin = (if x86p_flag_cf f then 1 else 0);
          r = (a - b - cin) AND x86p_width_mask w
      in (r, x86p_flags_set_explicit f (x86p_flags_sbb a b cin r w)))"

text \<open>SHL, SHR and SAR with the count already masked; a count of zero returns before \<open>f\<close> is touched.\<close>

definition alu_shift :: "alu_op \<Rightarrow> u32 \<Rightarrow> u32 \<Rightarrow> nat \<Rightarrow> flags \<Rightarrow> (u32 \<times> flags) option" where
  "alu_shift op a b w f =
     (let m = x86p_width_mask w; nbits = w * 8; count = b AND 0x1F; n = unat count in
      if count = 0 then Some (a, f)
      else if op = kX86pAluShl then
        let r = (if nbits \<le> n then 0 else push_bit n a AND m) in do {
          f \<leftarrow> x86p_flags_set f kX86pFlagsShl a count r w; Some (r, f) }
      else if op = kX86pAluShr then
        let r = (if nbits \<le> n then 0 else drop_bit n a AND m) in do {
          f \<leftarrow> x86p_flags_set f kX86pFlagsShr a count r w; Some (r, f) }
      else
        let sign = bit a (nbits - 1);
            r = (if nbits \<le> n then (if sign then m else 0)
                 else let r = drop_bit n a AND m
                      in if sign then r OR (push_bit (nbits - n) m AND m) else r) in do {
          f \<leftarrow> x86p_flags_set f kX86pFlagsSar a count r w; Some (r, f) })"

definition alu_rotate :: "alu_op \<Rightarrow> u32 \<Rightarrow> u32 \<Rightarrow> nat \<Rightarrow> flags \<Rightarrow> (u32 \<times> flags) option" where
  "alu_rotate op a b w f =
     (let m = x86p_width_mask w; nbits = w * 8; count = b AND 0x1F in
      if count = 0 then Some (a, f)
      else
        let n = unat count mod nbits;
            r = (if n = 0 then a
                 else if op = kX86pAluRol then (push_bit n a OR drop_bit (nbits - n) a) AND m
                 else (drop_bit n a OR push_bit (nbits - n) a) AND m);
            cf = (if op = kX86pAluRol then bit r 0 else bit r (nbits - 1));
            ovf = (bit r (nbits - 1) \<noteq> (if op = kX86pAluRol then cf else bit r (nbits - 2)))
        in do { f \<leftarrow> set_cf_of_only f cf ovf; Some (r, f) })"

text \<open>The \<open>for (i = 0; i < count; i++)\<close> loops of RCL and RCR, one bit through the carry a turn.\<close>

fun rcl_loop :: "nat \<Rightarrow> nat \<Rightarrow> u32 \<Rightarrow> u32 \<Rightarrow> bool \<Rightarrow> u32 \<times> bool" where
  "rcl_loop 0 nbits m r cf = (r, cf)"
| "rcl_loop (Suc i) nbits m r cf =
     rcl_loop i nbits m ((push_bit 1 r OR of_bool cf) AND m) (bit r (nbits - 1))"

fun rcr_loop :: "nat \<Rightarrow> nat \<Rightarrow> u32 \<Rightarrow> u32 \<Rightarrow> bool \<Rightarrow> u32 \<times> bool" where
  "rcr_loop 0 nbits m r cf = (r, cf)"
| "rcr_loop (Suc i) nbits m r cf =
     rcr_loop i nbits m ((drop_bit 1 r OR push_bit (nbits - 1) (of_bool cf)) AND m) (bit r 0)"

definition alu_rotate_carry :: "alu_op \<Rightarrow> u32 \<Rightarrow> u32 \<Rightarrow> nat \<Rightarrow> flags \<Rightarrow> (u32 \<times> flags) option" where
  "alu_rotate_carry op a b w f =
     (let m = x86p_width_mask w; nbits = w * 8; cf = x86p_flag_cf f; count = b AND 0x1F in
      if count = 0 then Some (a, f)
      else
        let n = unat count mod (nbits + 1);
            (r, cf) = (if op = kX86pAluRcl then rcl_loop n nbits m a cf else rcr_loop n nbits m a cf);
            ovf = (if op = kX86pAluRcl then bit r (nbits - 1) \<noteq> cf
                   else bit r (nbits - 1) \<noteq> bit r (nbits - 2))
        in do { f \<leftarrow> set_cf_of_only f cf ovf; Some (r, f) })"

definition x86p_alu :: "alu_op \<Rightarrow> u32 \<Rightarrow> u32 \<Rightarrow> nat \<Rightarrow> flags \<Rightarrow> (u32 \<times> flags) option" where
  "x86p_alu op a b w f = do {
     require_width w;
     let m = x86p_width_mask w;
     let a = a AND m;
     let b = b AND m;
     (case op of
        kX86pAluAdd \<Rightarrow> alu_add a b w f
      | kX86pAluSub \<Rightarrow> alu_sub a b w f
      | kX86pAluCmp \<Rightarrow> alu_sub a b w f
      | kX86pAluOr \<Rightarrow> alu_logic (a OR b) a b w f
      | kX86pAluAnd \<Rightarrow> alu_logic (a AND b) a b w f
      | kX86pAluTest \<Rightarrow> alu_logic (a AND b) a b w f
      | kX86pAluXor \<Rightarrow> alu_logic (a XOR b) a b w f
      | kX86pAluAdc \<Rightarrow> Some (alu_adc a b w f)
      | kX86pAluSbb \<Rightarrow> Some (alu_sbb a b w f)
      | kX86pAluShl \<Rightarrow> alu_shift op a b w f
      | kX86pAluShr \<Rightarrow> alu_shift op a b w f
      | kX86pAluSar \<Rightarrow> alu_shift op a b w f
      | kX86pAluRol \<Rightarrow> alu_rotate op a b w f
      | kX86pAluRor \<Rightarrow> alu_rotate op a b w f
      | kX86pAluRcl \<Rightarrow> alu_rotate_carry op a b w f
      | kX86pAluRcr \<Rightarrow> alu_rotate_carry op a b w f)
   }"

section \<open>Unary operations (alu.c)\<close>

definition x86p_alu_unary :: "alu_un_op \<Rightarrow> u32 \<Rightarrow> nat \<Rightarrow> flags \<Rightarrow> (u32 \<times> flags) option" where
  "x86p_alu_unary op a w f = do {
     require_width w;
     let m = x86p_width_mask w;
     let a = a AND m;
     (case op of
        kX86pAluNot \<Rightarrow> Some (NOT a AND m, f)
      | kX86pAluNeg \<Rightarrow> let r = (0 - a) AND m in do {
          f \<leftarrow> x86p_flags_set f kX86pFlagsSub 0 a r w; Some (r, f) }
      | kX86pAluInc \<Rightarrow> let r = (a + 1) AND m in do {
          f \<leftarrow> x86p_flags_set f kX86pFlagsInc a 1 r w; Some (r, f) }
      | kX86pAluDec \<Rightarrow> let r = (a - 1) AND m in do {
          f \<leftarrow> x86p_flags_set f kX86pFlagsDec a 1 r w; Some (r, f) })
   }"

section \<open>Multiply and divide (alu.c)\<close>

definition mul_flags :: "flags \<Rightarrow> bool \<Rightarrow> flags option" where
  "mul_flags f overflow = set_cf_of_only f overflow overflow"

text \<open>The low and high halves and the flags.\<close>

definition x86p_alu_mul :: "u32 \<Rightarrow> u32 \<Rightarrow> nat \<Rightarrow> flags \<Rightarrow> (u32 \<times> u32 \<times> flags) option" where
  "x86p_alu_mul a b w f = do {
     require_width w;
     let m = x86p_width_mask w;
     let full = (ucast (a AND m) :: u64) * ucast (b AND m);
     let lo = ucast (full AND ucast m);
     let hi = ucast (drop_bit (w * 8) full AND ucast m);
     f \<leftarrow> mul_flags f (hi \<noteq> 0);
     Some (lo, hi, f)
   }"

text \<open>\<open>(int64_t)(int32_t)((a & m) << (32 - nb)) >> (32 - nb)\<close>\<close>

definition signed_operand :: "u32 \<Rightarrow> nat \<Rightarrow> int" where
  "signed_operand a w =
     drop_bit (32 - w * 8) (sint (push_bit (32 - w * 8) (a AND x86p_width_mask w)))"

definition x86p_alu_imul :: "u32 \<Rightarrow> u32 \<Rightarrow> nat \<Rightarrow> flags \<Rightarrow> (u32 \<times> u32 \<times> flags) option" where
  "x86p_alu_imul a b w f = do {
     require_width w;
     let m = x86p_width_mask w;
     let full = signed_operand a w * signed_operand b w;
     let lo = ucast ((word_of_int full :: u64) AND ucast m);
     let hi = ucast (drop_bit (w * 8) (word_of_int full :: u64) AND ucast m);
     let low_as_signed = signed_operand lo w;
     f \<leftarrow> mul_flags f (low_as_signed \<noteq> full);
     Some (lo, hi, f)
   }"

text \<open>
  The divides: the outer option is the abort, the inner one the guest's divide error, which
  writes nothing.  Neither touches the flags.
\<close>

definition x86p_alu_div :: "u32 \<Rightarrow> u32 \<Rightarrow> u32 \<Rightarrow> nat \<Rightarrow> (u32 \<times> u32) option option" where
  "x86p_alu_div hi lo d w = do {
     require_width w;
     let m = x86p_width_mask w;
     let d = d AND m;
     Some (if d = 0 then None
       else
         let num = push_bit (w * 8) (ucast (hi AND m) :: u64) OR ucast (lo AND m);
             q = num div ucast d
         in if (ucast m :: u64) < q then None
            else Some (ucast q, ucast (num mod ucast d)))
   }"

definition idiv_dividend :: "u32 \<Rightarrow> u32 \<Rightarrow> nat \<Rightarrow> int" where
  "idiv_dividend hi lo w =
     (let m = x86p_width_mask w; nb = w * 8;
          num = sint (push_bit nb (ucast (hi AND m) :: u64) OR ucast (lo AND m))
      in if nb * 2 < 64 \<and> bit num (nb * 2 - 1) then num - 2 ^ (nb * 2) else num)"

definition x86p_alu_idiv :: "u32 \<Rightarrow> u32 \<Rightarrow> u32 \<Rightarrow> nat \<Rightarrow> (u32 \<times> u32) option option" where
  "x86p_alu_idiv hi lo d w = do {
     require_width w;
     let m = x86p_width_mask w;
     let nb = w * 8;
     let sd = signed_operand d w;
     let num = idiv_dividend hi lo w;
     Some (if sd = 0 then None
       else if num = - (2 ^ 63) \<and> sd = -1 then None
       else
         let q = num sdiv sd; r = num smod sd;
             qmin = - (2 ^ (nb - 1)); qmax = 2 ^ (nb - 1) - 1
         in if q < qmin \<or> qmax < q then None
            else Some (ucast ((word_of_int q :: u64) AND ucast m),
                       ucast ((word_of_int r :: u64) AND ucast m)))
   }"

end
