(* ===== verification/X86_Arith.thy ===== *)
theory X86_Arith
  imports X86_Cond
begin

text \<open>
  Operands as integers, and what each flag reader of \<open>src/src/x86port/flags.c\<close> returns on a
  recorded operation, stated over those integers.  The width enters only through the half
  range \<open>M = 2 ^ (8 * w - 1)\<close>, so the facts below are linear arithmetic over an arbitrary
  \<open>M\<close> and hold at every width at once.
\<close>

section \<open>Unsigned and signed values\<close>

definition uval :: "nat \<Rightarrow> u32 \<Rightarrow> int" where
  "uval w a = uint (a AND x86p_width_mask w)"

abbreviation half :: "nat \<Rightarrow> int" where
  "half w \<equiv> 2 ^ (w * 8 - 1)"

abbreviation full :: "nat \<Rightarrow> int" where
  "full w \<equiv> 2 ^ (w * 8)"

definition sval :: "nat \<Rightarrow> u32 \<Rightarrow> int" where
  "sval w a = (if half w \<le> uval w a then uval w a - full w else uval w a)"

definition fits_signed :: "nat \<Rightarrow> int \<Rightarrow> bool" where
  "fits_signed w x \<longleftrightarrow> - half w \<le> x \<and> x < half w"

text \<open>The number of set bits of the low byte.\<close>

definition popcount8 :: "u32 \<Rightarrow> nat" where
  "popcount8 r = length (filter (bit r) [0..<8])"

lemma full_half: "valid_width w \<Longrightarrow> full w = 2 * half w"
  by auto

lemma half_ge: "valid_width w \<Longrightarrow> 128 \<le> half w"
  by auto

lemma width_mask_mask: "valid_width w \<Longrightarrow> x86p_width_mask w = mask (w * 8)"
  by (auto simp: x86p_width_mask_def mask_eq_exp_minus_1)

lemma and_width_mask: "valid_width w \<Longrightarrow> a AND x86p_width_mask w = take_bit (w * 8) a"
  by (simp add: width_mask_mask take_bit_eq_mask)

lemma uval_mod: "valid_width w \<Longrightarrow> uval w a = uint a mod full w"
  by (simp only: uval_def and_width_mask take_bit_uint_mod)

lemma uval_bounds: "valid_width w \<Longrightarrow> 0 \<le> uval w a \<and> uval w a < full w"
  by (simp add: uval_mod)

lemma uval_ge0 [simp]: "0 \<le> uval w a"
  by (simp add: uval_def)

lemma uval_not_neg [simp]: "\<not> uval w a < 0"
  by (simp add: not_less)

lemma uval_masked [simp]: "uval w (a AND x86p_width_mask w) = uval w a"
  by (simp add: uval_def and.assoc)

lemma uval_eq_0_iff: "uval w a = 0 \<longleftrightarrow> a AND x86p_width_mask w = 0"
  by (simp only: uval_def unsigned_eq_0_iff)

lemma uval_of_masked: "a AND x86p_width_mask w = a \<Longrightarrow> uval w a = uint a"
  by (simp add: uval_def)

lemma sval_fits:
  assumes "valid_width w"
  shows "fits_signed w (sval w a)"
proof (cases "half w \<le> uval w a")
  case True
  then have "sval w a = uval w a - full w" by (simp add: sval_def)
  then show ?thesis using True uval_bounds [OF assms, of a] full_half [OF assms] half_ge [OF assms] unfolding fits_signed_def by linarith
next
  case False
  then have "sval w a = uval w a" by (simp add: sval_def)
  then show ?thesis using False uval_bounds [OF assms, of a] full_half [OF assms] half_ge [OF assms] unfolding fits_signed_def by linarith
qed

lemma sval_cong: "valid_width w \<Longrightarrow> sval w a mod full w = uval w a"
  using uval_bounds [of w a] by (auto simp: sval_def)

lemma uint_plus_mod: "valid_width w \<Longrightarrow> uval w (a + b) = (uval w a + uval w b) mod full w"
proof -
  assume w: "valid_width w"
  then have "full w dvd 2 ^ 32" by (auto intro: le_imp_power_dvd)
  then show ?thesis using w
    by (simp add: uval_mod uint_word_ariths mod_mod_cancel mod_simps)
qed

lemma uint_minus_mod: "valid_width w \<Longrightarrow> uval w (a - b) = (uval w a - uval w b) mod full w"
proof -
  assume w: "valid_width w"
  then have "full w dvd 2 ^ 32" by (auto intro: le_imp_power_dvd)
  then show ?thesis using w
    by (simp add: uval_mod uint_word_ariths mod_mod_cancel mod_simps)
qed

lemma bit_as_odd: "bit (x :: 'a::len word) n \<longleftrightarrow> odd (uint x div 2 ^ n)"
proof -
  have "odd (uint x div 2 ^ n) = bit (uint x) n" by (simp only: bit_iff_odd)
  also have "\<dots> = bit x n" using bit_imp_le_length [of x n] by (auto simp: bit_uint_iff)
  finally show ?thesis by simp
qed

lemma top_bit_iff: "valid_width w \<Longrightarrow> bit a (w * 8 - 1) \<longleftrightarrow> half w \<le> uval w a"
proof -
  assume w: "valid_width w"
  have "bit a (w * 8 - 1) = bit (a AND x86p_width_mask w) (w * 8 - 1)"
    using w by (auto simp: and_width_mask bit_take_bit_iff)
  also have "\<dots> = odd (uval w a div half w)"
    by (simp only: bit_as_odd uval_def)
  also have "\<dots> = (half w \<le> uval w a)"
    using uval_bounds [OF w, of a] full_half [OF w]
      div_pos_pos_trivial [of "uval w a" "half w"] div_pos_geq [of "half w" "uval w a"]
      div_pos_pos_trivial [of "uval w a - half w" "half w"]
    by (cases "half w \<le> uval w a") auto
  finally show ?thesis .
qed

lemma top_bit_sval:
  assumes "valid_width w"
  shows "bit a (w * 8 - 1) \<longleftrightarrow> sval w a < 0"
proof (cases "half w \<le> uval w a")
  case True
  then have "sval w a = uval w a - full w" by (simp add: sval_def)
  then show ?thesis using True uval_bounds [OF assms, of a] full_half [OF assms] half_ge [OF assms] top_bit_iff [OF assms, of a] by linarith
next
  case False
  then have "sval w a = uval w a" by (simp add: sval_def)
  then show ?thesis using False uval_bounds [OF assms, of a] full_half [OF assms] half_ge [OF assms] top_bit_iff [OF assms, of a] by linarith
qed

lemma msb_iff: "valid_width w \<Longrightarrow> msb a w = (sval w a < 0)"
  by (auto simp: msb_def top_bit_sval [symmetric])

lemma bit4_uval: "valid_width w \<Longrightarrow> bit a 4 \<longleftrightarrow> odd (uval w a div 16)"
proof -
  assume w: "valid_width w"
  have "bit a 4 = bit (a AND x86p_width_mask w) 4"
    using w by (auto simp: and_width_mask bit_take_bit_iff)
  then show ?thesis by (simp add: bit_as_odd uval_def)
qed

lemma bit_xor_fold: "bit (v XOR drop_bit k v) n = (bit (v :: u32) n \<noteq> bit v (k + n))"
  by (simp add: bit_xor_iff bit_drop_bit_eq)

lemma bit_low_byte: "bit (r AND 0xFF :: u32) n = (n < 8 \<and> bit r n)"
proof -
  have "(r AND 0xFF :: u32) = take_bit 8 r" by (simp add: take_bit_eq_mask mask_eq_exp_minus_1)
  then show ?thesis by (simp add: bit_take_bit_iff)
qed

lemma not_and_1_neq_0: "(NOT v AND 1 :: u32) \<noteq> 0 \<longleftrightarrow> \<not> bit v 0"
  using word_and_pow2_neq_0_iff [of "NOT v" 0] by (simp add: bit_not_iff)

lemma parity_even_popcount: "parity_even r = even (popcount8 r)"
proof -
  have "parity_even r \<longleftrightarrow>
     \<not> (bit r 0 \<noteq> (bit r 1 \<noteq> (bit r 2 \<noteq> (bit r 3 \<noteq> (bit r 4 \<noteq> (bit r 5 \<noteq> (bit r 6 \<noteq> bit r 7)))))))"
    unfolding parity_even_def Let_def not_and_1_neq_0 bit_xor_fold bit_low_byte
    by (simp add: numeral_eq_Suc) argo
  moreover have "[0..<8] = [0,1,2,3,4,5,6,7]" by (simp add: upt_rec)
  ultimately show ?thesis
    by (simp add: popcount8_def)
qed

section \<open>Readers of a recorded operation\<close>

lemma mask4: "x86p_width_mask 4 = -1"
  by (simp add: x86p_width_mask_def)

lemma rec_zf:
  assumes "fl_kind f \<notin> {kX86pFlagsNone, kX86pFlagsExplicit}"
  shows "x86p_flag_zf f = (uval (fl_w f) (fl_r f) = 0)"
  using assms by (auto simp: x86p_flag_zf_def uval_eq_0_iff mask4)

lemma rec_sf:
  assumes "fl_kind f \<notin> {kX86pFlagsNone, kX86pFlagsExplicit}" "valid_width (fl_w f)"
  shows "x86p_flag_sf f = (sval (fl_w f) (fl_r f) < 0)"
proof (cases "fl_w f = 4")
  case True
  with assms top_bit_sval [of 4 "fl_r f"] show ?thesis by (simp add: x86p_flag_sf_def)
next
  case False
  with assms show ?thesis by (simp add: x86p_flag_sf_def msb_iff)
qed

lemma rec_pf:
  assumes "fl_kind f \<notin> {kX86pFlagsNone, kX86pFlagsExplicit}"
  shows "x86p_flag_pf f = even (popcount8 (fl_r f))"
  using assms by (simp add: x86p_flag_pf_def parity_even_popcount)

lemma less_masked: "valid_width w \<Longrightarrow>
    (if w = 4 then a < b else (a AND x86p_width_mask w) < (b AND x86p_width_mask w)) =
    (uval w a < uval w b)"
  by (auto simp: uval_def word_less_def mask4)

lemma rec_cf:
  assumes "valid_width (fl_w f)"
  shows "fl_kind f = kX86pFlagsAdd \<Longrightarrow> x86p_flag_cf f = (uval (fl_w f) (fl_r f) < uval (fl_w f) (fl_a f))"
    and "fl_kind f = kX86pFlagsSub \<Longrightarrow> x86p_flag_cf f = (uval (fl_w f) (fl_a f) < uval (fl_w f) (fl_b f))"
    and "fl_kind f = kX86pFlagsInc \<Longrightarrow> x86p_flag_cf f = fl_carry_in f"
    and "fl_kind f = kX86pFlagsDec \<Longrightarrow> x86p_flag_cf f = fl_carry_in f"
    and "fl_kind f = kX86pFlagsLogic \<Longrightarrow> x86p_flag_cf f = False"
  using less_masked [OF assms] by (simp_all add: x86p_flag_cf_def)

lemma sign_path: "valid_width w \<Longrightarrow> (if w = 4 then bit v 31 else msb v w) = (sval w v < 0)"
  using top_bit_sval [of 4 v] by (cases "w = 4") (simp_all add: msb_iff)

lemma sign_bit_uval: "valid_width w \<Longrightarrow>
    ((v AND (if w = 4 then 0xFFFFFFFF else x86p_width_mask w)) = push_bit (w * 8 - 1) 1) = (uval w v = half w)"
proof -
  assume w: "valid_width w"
  have m: "(if w = 4 then 0xFFFFFFFF else x86p_width_mask w) = x86p_width_mask w"
    by (simp add: x86p_width_mask_def)
  have "uint (push_bit (w * 8 - 1) (1 :: u32)) = half w" using w by auto
  then show ?thesis unfolding m uval_def by (metis word_uint_eq_iff)
qed

lemma rec_of:
  assumes w: "valid_width (fl_w f)"
  shows "fl_kind f = kX86pFlagsAdd \<Longrightarrow> x86p_flag_of f =
      Some (((sval (fl_w f) (fl_a f) < 0) = (sval (fl_w f) (fl_b f) < 0)) \<and>
            (sval (fl_w f) (fl_r f) < 0) \<noteq> (sval (fl_w f) (fl_a f) < 0))"
    and "fl_kind f = kX86pFlagsSub \<Longrightarrow> x86p_flag_of f =
      Some (((sval (fl_w f) (fl_a f) < 0) \<noteq> (sval (fl_w f) (fl_b f) < 0)) \<and>
            (sval (fl_w f) (fl_r f) < 0) \<noteq> (sval (fl_w f) (fl_a f) < 0))"
    and "fl_kind f = kX86pFlagsInc \<Longrightarrow> x86p_flag_of f = Some (uval (fl_w f) (fl_r f) = half (fl_w f))"
    and "fl_kind f = kX86pFlagsDec \<Longrightarrow> x86p_flag_of f = Some (uval (fl_w f) (fl_a f) = half (fl_w f))"
    and "fl_kind f = kX86pFlagsLogic \<Longrightarrow> x86p_flag_of f = Some False"
  unfolding x86p_flag_of_def Let_def sign_path [OF w] sign_bit_uval [OF w]
  using w by simp_all

lemma rec_af:
  assumes "valid_width (fl_w f)"
    and "fl_kind f \<in> {kX86pFlagsAdd, kX86pFlagsSub, kX86pFlagsInc, kX86pFlagsDec}"
  shows "x86p_flag_af f = odd (uval (fl_w f) (fl_a f) div 16 + uval (fl_w f) (fl_b f) div 16
           + uval (fl_w f) (fl_r f) div 16)"
proof -
  have "x86p_flag_af f = bit (fl_a f XOR fl_b f XOR fl_r f) 4"
    using assms(2) by (elim insertE emptyE) (simp_all add: x86p_flag_af_def)
  also have "\<dots> = ((bit (fl_a f) 4 \<noteq> bit (fl_b f) 4) \<noteq> bit (fl_r f) 4)"
    by (simp add: bit_xor_iff) argo
  finally show ?thesis
    unfolding bit4_uval [OF assms(1)] by (simp only: odd_add)
qed

lemmas recorded_readers = rec_zf rec_sf rec_pf rec_cf rec_of rec_af

section \<open>Carries and overflows over the integers\<close>

lemma carry_add_mod:
  fixes A B M :: int
  assumes "0 \<le> A" "A < 2 * M" "0 \<le> B" "B < 2 * M"
  shows "(A + B) mod (2 * M) = (if 2 * M \<le> A + B then A + B - 2 * M else A + B)"
proof (cases "2 * M \<le> A + B")
  case True
  have "(A + B) mod (2 * M) = (A + B - 2 * M) mod (2 * M)" by simp
  also have "\<dots> = A + B - 2 * M" using True assms by (intro mod_pos_pos_trivial) auto
  finally show ?thesis using True by simp
next
  case False
  then show ?thesis using assms by (simp add: mod_pos_pos_trivial)
qed

lemma borrow_sub_mod:
  fixes A B M :: int
  assumes "0 \<le> A" "A < 2 * M" "0 \<le> B" "B < 2 * M"
  shows "(A - B) mod (2 * M) = (if A < B then A - B + 2 * M else A - B)"
proof (cases "A < B")
  case True
  have "(A - B) mod (2 * M) = (A - B + 2 * M) mod (2 * M)" by simp
  also have "\<dots> = A - B + 2 * M" using True assms by (intro mod_pos_pos_trivial) auto
  finally show ?thesis using True by simp
next
  case False
  then show ?thesis using assms by (simp add: mod_pos_pos_trivial)
qed

lemma div16_add:
  fixes A B C :: int
  shows "(A + B + C) div 16 = A div 16 + B div 16 + (A mod 16 + B mod 16 + C) div 16"
    and "(A - B - C) div 16 = A div 16 - B div 16 + (A mod 16 - B mod 16 - C) div 16"
proof -
  obtain a x b y where e: "A = x + a * 16" "A mod 16 = x" "A div 16 = a"
    "B = y + b * 16" "B mod 16 = y" "B div 16 = b"
    using mod_div_mult_eq [of A 16] mod_div_mult_eq [of B 16] by metis
  have "A + B + C = (x + y + C) + (a + b) * 16" "A - B - C = (x - y - C) + (a - b) * 16"
    unfolding e(1) e(4) by (simp_all add: algebra_simps)
  then show "(A + B + C) div 16 = A div 16 + B div 16 + (A mod 16 + B mod 16 + C) div 16"
    "(A - B - C) div 16 = A div 16 - B div 16 + (A mod 16 - B mod 16 - C) div 16"
    unfolding e(2,3,5,6) by simp_all
qed

lemma nibble_carry:
  fixes x y C :: int
  assumes "0 \<le> x" "x < 16" "0 \<le> y" "y < 16" "0 \<le> C" "C \<le> 1"
  shows "(x + y + C) div 16 = of_bool (16 \<le> x + y + C)"
    and "(x - y - C) div 16 = - of_bool (x < y + C)"
  using assms by (cases "16 \<le> x + y + C"; cases "x < y + C"; simp; linarith)+

lemma odd_nibble_carry:
  fixes A B C :: int
  assumes "0 \<le> C" "C \<le> 1"
  shows "odd (A div 16 + B div 16 + (A + B + C) div 16) = (16 \<le> A mod 16 + B mod 16 + C)"
    and "odd (A div 16 + B div 16 + (A - B - C) div 16) = (A mod 16 < B mod 16 + C)"
proof -
  have c: "(A mod 16 + B mod 16 + C) div 16 = of_bool (16 \<le> A mod 16 + B mod 16 + C)"
    "(A mod 16 - B mod 16 - C) div 16 = - of_bool (A mod 16 < B mod 16 + C)"
    using assms by (intro nibble_carry; simp)+
  show "odd (A div 16 + B div 16 + (A + B + C) div 16) = (16 \<le> A mod 16 + B mod 16 + C)"
    unfolding div16_add(1) [of A B C] c by (simp add: even_add)
  show "odd (A div 16 + B div 16 + (A - B - C) div 16) = (A mod 16 < B mod 16 + C)"
    unfolding div16_add(2) [of A B C] c by (simp add: even_add)
qed

lemma odd_div16_mod:
  assumes "valid_width w"
  shows "odd (X mod full w div 16) = odd (X div 16 :: int)"
proof -
  have "bit (take_bit (w * 8) X) 4 = bit X 4"
    using assms by (auto simp: bit_take_bit_iff)
  then show ?thesis by (simp add: bit_iff_odd take_bit_eq_mod)
qed

end
