(* ===== verification/X86_Alu_Spec.thy ===== *)
theory X86_Alu_Spec
  imports X86_Alu X86_Arith
begin

text \<open>
  The arithmetic specification the integer ALU (\<open>X86_Alu\<close>, \<open>src/src/x86port/alu.c\<close>)
  implements: an operation that computes the exact unsigned value \<open>U\<close> and the exact signed
  value \<open>S\<close> leaves the low bits of \<open>U\<close>, CF iff \<open>U\<close> does not fit unsigned, OF iff \<open>S\<close> does
  not fit signed, AF iff the low nibbles carried, and ZF, SF and PF of the result.
\<close>

definition arith_outcome :: "nat \<Rightarrow> int \<Rightarrow> int \<Rightarrow> bool \<Rightarrow> u32 \<Rightarrow> flags \<Rightarrow> bool" where
  "arith_outcome w U S nib r f \<longleftrightarrow>
     uint r = U mod full w \<and>
     x86p_flag_cf f = (U < 0 \<or> full w \<le> U) \<and>
     x86p_flag_of f = Some (\<not> fits_signed w S) \<and>
     x86p_flag_af f = nib \<and>
     x86p_flag_zf f = (U mod full w = 0) \<and>
     x86p_flag_sf f = (half w \<le> U mod full w) \<and>
     x86p_flag_pf f = even (popcount8 r)"

section \<open>Signed overflow over the integers\<close>

lemma signed_overflow_int:
  fixes A B C M :: int
  assumes "0 \<le> A" "A < 2 * M" "0 \<le> B" "B < 2 * M" "0 \<le> C" "C \<le> 1" "1 \<le> M"
  shows "((M \<le> A) = (M \<le> B) \<and> (M \<le> (A + B + C) mod (2 * M)) \<noteq> (M \<le> A)) =
      (\<not> (- M \<le> (if M \<le> A then A - 2 * M else A) + (if M \<le> B then B - 2 * M else B) + C \<and>
          (if M \<le> A then A - 2 * M else A) + (if M \<le> B then B - 2 * M else B) + C < M))"
    and "((M \<le> A) \<noteq> (M \<le> B) \<and> (M \<le> (A - B - C) mod (2 * M)) \<noteq> (M \<le> A)) =
      (\<not> (- M \<le> (if M \<le> A then A - 2 * M else A) - (if M \<le> B then B - 2 * M else B) - C \<and>
          (if M \<le> A then A - 2 * M else A) - (if M \<le> B then B - 2 * M else B) - C < M))"
proof -
  have a: "(A + B + C) mod (2 * M) = (if 2 * M \<le> A + B + C then A + B + C - 2 * M else A + B + C)"
  proof (cases "2 * M \<le> A + B + C")
    case True
    have "(A + B + C) mod (2 * M) = (A + B + C - 2 * M) mod (2 * M)" by simp
    also have "\<dots> = A + B + C - 2 * M" using True assms by (intro mod_pos_pos_trivial) auto
    finally show ?thesis using True by simp
  qed (use assms in \<open>simp add: mod_pos_pos_trivial\<close>)
  have s: "(A - B - C) mod (2 * M) = (if A < B + C then A - B - C + 2 * M else A - B - C)"
  proof (cases "A < B + C")
    case True
    have "(A - B - C) mod (2 * M) = (A - B - C + 2 * M) mod (2 * M)" by simp
    also have "\<dots> = A - B - C + 2 * M" using True assms by (intro mod_pos_pos_trivial) auto
    finally show ?thesis using True by simp
  qed (use assms in \<open>simp add: mod_pos_pos_trivial\<close>)
  show "((M \<le> A) = (M \<le> B) \<and> (M \<le> (A + B + C) mod (2 * M)) \<noteq> (M \<le> A)) =
      (\<not> (- M \<le> (if M \<le> A then A - 2 * M else A) + (if M \<le> B then B - 2 * M else B) + C \<and>
          (if M \<le> A then A - 2 * M else A) + (if M \<le> B then B - 2 * M else B) + C < M))"
    unfolding a using assms by (cases "M \<le> A"; cases "M \<le> B"; cases "2 * M \<le> A + B + C"; simp; linarith)
  show "((M \<le> A) \<noteq> (M \<le> B) \<and> (M \<le> (A - B - C) mod (2 * M)) \<noteq> (M \<le> A)) =
      (\<not> (- M \<le> (if M \<le> A then A - 2 * M else A) - (if M \<le> B then B - 2 * M else B) - C \<and>
          (if M \<le> A then A - 2 * M else A) - (if M \<le> B then B - 2 * M else B) - C < M))"
    unfolding s using assms by (cases "M \<le> A"; cases "M \<le> B"; cases "A < B + C"; simp; linarith)
qed

lemma sval_neg: "valid_width w \<Longrightarrow> (sval w a < 0) = (half w \<le> uval w a)"
  using top_bit_iff top_bit_sval by blast

lemma signed_overflow:
  assumes w: "valid_width w" and c: "0 \<le> C" "C \<le> 1"
  shows "uval w r = (uval w a + uval w b + C) mod full w \<Longrightarrow>
      ((sval w a < 0) = (sval w b < 0) \<and> (sval w r < 0) \<noteq> (sval w a < 0)) =
      (\<not> fits_signed w (sval w a + sval w b + C))"
    and "uval w r = (uval w a - uval w b - C) mod full w \<Longrightarrow>
      ((sval w a < 0) \<noteq> (sval w b < 0) \<and> (sval w r < 0) \<noteq> (sval w a < 0)) =
      (\<not> fits_signed w (sval w a - sval w b - C))"
proof -
  have m: "full w = 2 * half w" "1 \<le> half w"
    using full_half [OF w] half_ge [OF w] by linarith+
  have b: "0 \<le> uval w x" "uval w x < 2 * half w" for x
    using uval_bounds [OF w, of x] unfolding m by auto
  note o = signed_overflow_int [OF b(1) b(2) b(1) b(2) c m(2), of a b]
  show "((sval w a < 0) = (sval w b < 0) \<and> (sval w r < 0) \<noteq> (sval w a < 0)) =
      (\<not> fits_signed w (sval w a + sval w b + C))"
    if "uval w r = (uval w a + uval w b + C) mod full w"
    unfolding sval_neg [OF w] fits_signed_def using o(1) that unfolding sval_def m by metis
  show "((sval w a < 0) \<noteq> (sval w b < 0) \<and> (sval w r < 0) \<noteq> (sval w a < 0)) =
      (\<not> fits_signed w (sval w a - sval w b - C))"
    if "uval w r = (uval w a - uval w b - C) mod full w"
    unfolding sval_neg [OF w] fits_signed_def using o(2) that unfolding sval_def m by metis
qed

section \<open>Recorded additions and subtractions\<close>

lemma masked_uint: "valid_width w \<Longrightarrow> uint (x AND x86p_width_mask w) = uval w x"
  by (simp add: uval_def)

lemma sum_bounds:
  assumes "valid_width w"
  shows "0 \<le> uval w a + uval w b" "uval w a - uval w b < full w"
  using uval_bounds [OF assms, of a] uval_bounds [OF assms, of b] by linarith+

lemma add_recorded:
  assumes w: "valid_width w" and rd: "fl_kind f = kX86pFlagsAdd" "fl_a f = a" "fl_b f = b" "fl_w f = w"
    and r: "fl_r f = (a + b) AND x86p_width_mask w"
  shows "arith_outcome w (uval w a + uval w b) (sval w a + sval w b)
      (16 \<le> uval w a mod 16 + uval w b mod 16) (fl_r f) f"
proof -
  have ur: "uval w (fl_r f) = (uval w a + uval w b) mod full w"
    by (simp add: r uint_plus_mod [OF w])
  have vw: "valid_width (fl_w f)" using w rd by simp
  have m: "full w = 2 * half w" using full_half [OF w] .
  have b: "0 \<le> uval w x" "uval w x < 2 * half w" for x
    using uval_bounds [OF w, of x] unfolding m by auto
  have cf: "((uval w a + uval w b) mod full w < uval w a) = (full w \<le> uval w a + uval w b)"
    unfolding m carry_add_mod [OF b b] using b(1) [of a] b(1) [of b] b(2) [of a] b(2) [of b]
    by (simp split: if_split)
  show ?thesis
    unfolding arith_outcome_def
  proof (intro conjI)
    show "uint (fl_r f) = (uval w a + uval w b) mod full w"
      using ur by (simp add: r masked_uint [OF w])
    show "x86p_flag_cf f = (uval w a + uval w b < 0 \<or> full w \<le> uval w a + uval w b)"
      using rec_cf(1) [OF vw rd(1)] cf sum_bounds(1) [OF w, of a b] unfolding rd ur by linarith
    show "x86p_flag_of f = Some (\<not> fits_signed w (sval w a + sval w b))"
      using rec_of(1) [OF vw rd(1)] signed_overflow(1) [OF w, of 0 "fl_r f" a b] ur unfolding rd by simp
    show "x86p_flag_af f = (16 \<le> uval w a mod 16 + uval w b mod 16)"
      using rec_af [OF vw] odd_nibble_carry(1) [of 0 "uval w a" "uval w b"]
        odd_div16_mod [OF w, of "uval w a + uval w b"]
      unfolding rd ur by (simp add: even_add)
    show "x86p_flag_zf f = ((uval w a + uval w b) mod full w = 0)"
      using rec_zf [of f] unfolding rd ur by simp
    show "x86p_flag_sf f = (half w \<le> (uval w a + uval w b) mod full w)"
      using rec_sf [OF _ vw] unfolding rd sval_neg [OF w] ur by simp
    show "x86p_flag_pf f = even (popcount8 (fl_r f))"
      using rec_pf [of f] unfolding rd by simp
  qed
qed

lemma sub_recorded:
  assumes w: "valid_width w" and rd: "fl_kind f = kX86pFlagsSub" "fl_a f = a" "fl_b f = b" "fl_w f = w"
    and r: "fl_r f = (a - b) AND x86p_width_mask w"
  shows "arith_outcome w (uval w a - uval w b) (sval w a - sval w b)
      (uval w a mod 16 < uval w b mod 16) (fl_r f) f"
proof -
  have ur: "uval w (fl_r f) = (uval w a - uval w b) mod full w"
    by (simp add: r uint_minus_mod [OF w])
  have vw: "valid_width (fl_w f)" using w rd by simp
  show ?thesis
    unfolding arith_outcome_def
  proof (intro conjI)
    show "uint (fl_r f) = (uval w a - uval w b) mod full w"
      using ur by (simp add: r masked_uint [OF w])
    show "x86p_flag_cf f = (uval w a - uval w b < 0 \<or> full w \<le> uval w a - uval w b)"
      using rec_cf(2) [OF vw rd(1)] sum_bounds(2) [OF w, of a b] unfolding rd by linarith
    show "x86p_flag_of f = Some (\<not> fits_signed w (sval w a - sval w b))"
      using rec_of(2) [OF vw rd(1)] signed_overflow(2) [OF w, of 0 "fl_r f" a b] ur unfolding rd by simp
    show "x86p_flag_af f = (uval w a mod 16 < uval w b mod 16)"
      using rec_af [OF vw] odd_nibble_carry(2) [of 0 "uval w a" "uval w b"]
        odd_div16_mod [OF w, of "uval w a - uval w b"]
      unfolding rd ur by (simp add: even_add)
    show "x86p_flag_zf f = ((uval w a - uval w b) mod full w = 0)"
      using rec_zf [of f] unfolding rd ur by simp
    show "x86p_flag_sf f = (half w \<le> (uval w a - uval w b) mod full w)"
      using rec_sf [OF _ vw] unfolding rd sval_neg [OF w] ur by simp
    show "x86p_flag_pf f = even (popcount8 (fl_r f))"
      using rec_pf [of f] unfolding rd by simp
  qed
qed

section \<open>Carry-propagating forms\<close>

lemma sval_masked [simp]: "sval w (a AND x86p_width_mask w) = sval w a"
  by (simp add: sval_def)

lemma zero_le_of_bool: "(0 :: int) \<le> of_bool c"
  by simp

lemma of_bool_le_1: "of_bool c \<le> (1 :: int)"
  by simp

lemma odd_div_range:
  fixes X M :: int
  assumes "0 < M"
  shows "0 \<le> X \<Longrightarrow> X < 2 * M \<Longrightarrow> odd (X div M) = (M \<le> X)"
    and "- M \<le> X \<Longrightarrow> X < M \<Longrightarrow> odd (X div M) = (X < 0)"
proof -
  show "odd (X div M) = (M \<le> X)" if "0 \<le> X" "X < 2 * M"
  proof (cases "M \<le> X")
    case True
    then have "X div M = 1" using that assms by (intro int_div_pos_eq [of _ _ _ "X - M"]) auto
    then show ?thesis using True by simp
  qed (use that assms in \<open>simp add: div_pos_pos_trivial\<close>)
  show "odd (X div M) = (X < 0)" if "- M \<le> X" "X < M"
  proof (cases "X < 0")
    case True
    then have "X div M = -1" using that assms by (intro int_div_pos_eq [of _ _ _ "X + M"]) auto
    then show ?thesis using True by simp
  qed (use that assms in \<open>simp add: div_pos_pos_trivial\<close>)
qed

lemma ucast_masked: "valid_width w \<Longrightarrow> uint (ucast (a AND x86p_width_mask w) :: u64) = uval w a"
  unfolding uval_def by (simp add: unsigned_ucast_eq take_bit_int_eq_self
      order_less_trans [OF uint_bounded])

lemma bit_word_of_int64: "n < 64 \<Longrightarrow> bit (word_of_int X :: u64) n = odd (X div 2 ^ n)"
  by (simp add: bit_word_of_int_iff) (simp add: bit_iff_odd)

lemma adc_carry_out:
  assumes w: "valid_width w"
  shows "bit ((ucast (a AND x86p_width_mask w) :: u64) + ucast (b AND x86p_width_mask w) + of_bool c) (w * 8)
      = (full w \<le> uval w a + uval w b + of_bool c)"
    and "bit ((ucast (a AND x86p_width_mask w) :: u64) - ucast (b AND x86p_width_mask w) - of_bool c) (w * 8)
      = (uval w a - uval w b - of_bool c < 0)"
proof -
  have e: "(ucast (x AND x86p_width_mask w) :: u64) = word_of_int (uval w x)" for x
    using ucast_masked [OF w, of x] by (metis word_of_int_uint)
  have n: "w * 8 < 64" using w by auto
  have c: "of_bool c = (word_of_int (of_bool c) :: u64)" by simp
  have f: "(0 :: int) < full w" by simp
  note B = uval_bounds [OF w, of a] uval_bounds [OF w, of b] zero_le_of_bool [of c] of_bool_le_1 [of c]
  have "odd ((uval w a + uval w b + of_bool c) div full w) = (full w \<le> uval w a + uval w b + of_bool c)"
    by (rule odd_div_range(1) [OF f]) (use B in linarith)+
  then show "bit ((ucast (a AND x86p_width_mask w) :: u64) + ucast (b AND x86p_width_mask w) + of_bool c) (w * 8)
      = (full w \<le> uval w a + uval w b + of_bool c)"
    unfolding e c unfolding wi_hom_add wi_hom_sub bit_word_of_int64 [OF n] .
  have "odd ((uval w a - uval w b - of_bool c) div full w) = (uval w a - uval w b - of_bool c < 0)"
    by (rule odd_div_range(2) [OF f]) (use B in linarith)+
  then show "bit ((ucast (a AND x86p_width_mask w) :: u64) - ucast (b AND x86p_width_mask w) - of_bool c) (w * 8)
      = (uval w a - uval w b - of_bool c < 0)"
    unfolding e c unfolding wi_hom_add wi_hom_sub bit_word_of_int64 [OF n] .
qed

lemma uval_adc:
  assumes w: "valid_width w"
  shows "uval w (a + b + of_bool c) = (uval w a + uval w b + of_bool c) mod full w"
    and "uval w (a - b - of_bool c) = (uval w a - uval w b - of_bool c) mod full w"
proof -
  have o: "uval w (of_bool c) = of_bool c" using w by (cases c) (auto simp: uval_mod)
  show "uval w (a + b + of_bool c) = (uval w a + uval w b + of_bool c) mod full w"
    "uval w (a - b - of_bool c) = (uval w a - uval w b - of_bool c) mod full w"
    by (simp_all add: uint_plus_mod [OF w] uint_minus_mod [OF w] o mod_simps)
qed

lemma top_and_xor:
  assumes w: "valid_width w"
  shows "bit (NOT (a XOR b) AND (a XOR r)) (w * 8 - 1) =
      ((sval w a < 0) = (sval w b < 0) \<and> (sval w r < 0) \<noteq> (sval w a < 0))"
    and "bit ((a XOR b) AND (a XOR r)) (w * 8 - 1) =
      ((sval w a < 0) \<noteq> (sval w b < 0) \<and> (sval w r < 0) \<noteq> (sval w a < 0))"
  using w unfolding top_bit_sval [OF w, symmetric] by (auto simp: bit_simps)

lemma bit4_xor3:
  assumes w: "valid_width w"
  shows "bit (a XOR b XOR r) 4 = odd (uval w a div 16 + uval w b div 16 + uval w r div 16)"
proof -
  have "bit (a XOR b XOR r) 4 = ((bit a 4 \<noteq> bit b 4) \<noteq> bit r 4)"
    by (simp add: bit_xor_iff) argo
  then show ?thesis unfolding bit4_uval [OF w] by (simp only: odd_add)
qed

lemma flags_adc_bits:
  assumes w: "valid_width w" and r: "r = (a + b + of_bool c) AND x86p_width_mask w"
  shows "arith_outcome w (uval w a + uval w b + of_bool c) (sval w a + sval w b + of_bool c)
      (16 \<le> uval w a mod 16 + uval w b mod 16 + of_bool c) r
      (x86p_flags_set_explicit f (x86p_flags_adc a b (of_bool c) r w))"
proof -
  have ur: "uval w r = (uval w a + uval w b + of_bool c) mod full w"
    by (simp add: r uval_adc(1) [OF w])
  have rm: "r AND x86p_width_mask w = r" by (simp add: r and.assoc)
  have cc: "(if of_bool c \<noteq> (0::u32) then 1 else 0 :: u32) = of_bool c"
    "(ucast (of_bool c :: u32) :: u64) = of_bool c" by (cases c; simp)+
  have af: "odd (uval w a div 16 + uval w b div 16 + uval w r div 16) =
      (16 \<le> uval w a mod 16 + uval w b mod 16 + of_bool c)"
    using odd_nibble_carry(1) [of "of_bool c" "uval w a" "uval w b"]
      odd_div16_mod [OF w, of "uval w a + uval w b + of_bool c"] unfolding ur by (simp add: even_add)
  have ovf: "((sval w a < 0) = (sval w b < 0) \<and> (sval w r < 0) \<noteq> (sval w a < 0)) =
      (\<not> fits_signed w (sval w a + sval w b + of_bool c))"
    by (rule signed_overflow(1) [OF w _ _ ur]) simp_all
  have z: "(r = 0) = (uval w r = 0)" using rm by (simp add: uval_eq_0_iff)
  have u: "uval w r = uint r" by (simp add: uval_of_masked rm)
  have ge: "\<not> uval w a + uval w b + of_bool c < 0" using uval_ge0 [of w a] uval_ge0 [of w b] zero_le_of_bool [of c] by linarith
  show ?thesis
    unfolding arith_outcome_def explicit_readers x86p_flags_adc_def Let_def cc rm bit_or_iff bit_or_if
      bit_flag_const bit_fixed adc_carry_out(1) [OF w] top_and_xor(1) [OF w] bit4_xor3 [OF w]
      msb_iff [OF w] parity_even_popcount uval_masked sval_masked af ovf z
    using ge by (simp add: sval_neg [OF w] ur u [symmetric])
qed

lemma flags_sbb_bits:
  assumes w: "valid_width w" and r: "r = (a - b - of_bool c) AND x86p_width_mask w"
  shows "arith_outcome w (uval w a - uval w b - of_bool c) (sval w a - sval w b - of_bool c)
      (uval w a mod 16 < uval w b mod 16 + of_bool c) r
      (x86p_flags_set_explicit f (x86p_flags_sbb a b (of_bool c) r w))"
proof -
  have ur: "uval w r = (uval w a - uval w b - of_bool c) mod full w"
    by (simp add: r uval_adc(2) [OF w])
  have rm: "r AND x86p_width_mask w = r" by (simp add: r and.assoc)
  have cc: "(if of_bool c \<noteq> (0::u32) then 1 else 0 :: u32) = of_bool c"
    "(ucast (of_bool c :: u32) :: u64) = of_bool c" by (cases c; simp)+
  have af: "odd (uval w a div 16 + uval w b div 16 + uval w r div 16) =
      (uval w a mod 16 < uval w b mod 16 + of_bool c)"
    using odd_nibble_carry(2) [of "of_bool c" "uval w a" "uval w b"]
      odd_div16_mod [OF w, of "uval w a - uval w b - of_bool c"] unfolding ur by (simp add: even_add)
  have ovf: "((sval w a < 0) \<noteq> (sval w b < 0) \<and> (sval w r < 0) \<noteq> (sval w a < 0)) =
      (\<not> fits_signed w (sval w a - sval w b - of_bool c))"
    by (rule signed_overflow(2) [OF w _ _ ur]) simp_all
  have z: "(r = 0) = (uval w r = 0)" using rm by (simp add: uval_eq_0_iff)
  have u: "uval w r = uint r" by (simp add: uval_of_masked rm)
  have le: "\<not> full w \<le> uval w a - uval w b - of_bool c"
    using uval_bounds [OF w, of a] uval_ge0 [of w b] zero_le_of_bool [of c] by linarith
  show ?thesis
    unfolding arith_outcome_def explicit_readers x86p_flags_sbb_def Let_def cc rm bit_or_iff bit_or_if
      bit_flag_const bit_fixed adc_carry_out(2) [OF w] top_and_xor(2) [OF w] bit4_xor3 [OF w]
      msb_iff [OF w] parity_even_popcount uval_masked sval_masked af ovf z
    using le by (simp add: sval_neg [OF w] ur u [symmetric])
qed

section \<open>The operations meet the specification\<close>

lemma flags_set_valid:
  assumes "valid_width w" "k \<notin> {kX86pFlagsShl, kX86pFlagsShr, kX86pFlagsSar} \<or> b \<noteq> 0"
  shows "x86p_flags_set f k a b r w = Some \<lparr>fl_a = a, fl_b = b, fl_r = r, fl_kind = k, fl_w = w,
    fl_carry_in = x86p_flag_cf f\<rparr>"
  using assms by (auto simp: x86p_flags_set_def)

lemma require_width_valid [simp]: "valid_width w \<Longrightarrow> require_width w = Some ()"
  by (simp add: require_width_def)

lemma alu_add_outcome:
  assumes "valid_width w"
  shows "\<exists>r f'. x86p_alu kX86pAluAdd a b w f = Some (r, f') \<and>
    arith_outcome w (uval w a + uval w b) (sval w a + sval w b)
      (16 \<le> uval w a mod 16 + uval w b mod 16) r f'"
proof -
  let ?m = "x86p_width_mask w"
  let ?f = "\<lparr>fl_a = a AND ?m, fl_b = b AND ?m, fl_r = (a AND ?m) + (b AND ?m) AND ?m,
    fl_kind = kX86pFlagsAdd, fl_w = w, fl_carry_in = x86p_flag_cf f\<rparr>"
  have "x86p_alu kX86pAluAdd a b w f = Some (fl_r ?f, ?f)"
    using assms by (simp add: x86p_alu_def alu_add_def Let_def flags_set_valid)
  then show ?thesis
    using add_recorded [OF assms, of ?f "a AND ?m" "b AND ?m"] by auto
qed

lemma alu_sub_outcome:
  assumes "valid_width w" "op = kX86pAluSub \<or> op = kX86pAluCmp"
  shows "\<exists>r f'. x86p_alu op a b w f = Some (r, f') \<and>
    arith_outcome w (uval w a - uval w b) (sval w a - sval w b)
      (uval w a mod 16 < uval w b mod 16) r f'"
proof -
  let ?m = "x86p_width_mask w"
  let ?f = "\<lparr>fl_a = a AND ?m, fl_b = b AND ?m, fl_r = (a AND ?m) - (b AND ?m) AND ?m,
    fl_kind = kX86pFlagsSub, fl_w = w, fl_carry_in = x86p_flag_cf f\<rparr>"
  have "x86p_alu op a b w f = Some (fl_r ?f, ?f)"
    using assms by (auto simp: x86p_alu_def alu_sub_def Let_def flags_set_valid)
  then show ?thesis
    using sub_recorded [OF assms(1), of ?f "a AND ?m" "b AND ?m"] by auto
qed

lemma alu_adc_outcome:
  assumes "valid_width w"
  shows "\<exists>r f'. x86p_alu kX86pAluAdc a b w f = Some (r, f') \<and>
    arith_outcome w (uval w a + uval w b + of_bool (x86p_flag_cf f))
      (sval w a + sval w b + of_bool (x86p_flag_cf f))
      (16 \<le> uval w a mod 16 + uval w b mod 16 + of_bool (x86p_flag_cf f)) r f'"
proof -
  let ?m = "x86p_width_mask w" and ?c = "of_bool (x86p_flag_cf f) :: u32"
  let ?r = "((a AND ?m) + (b AND ?m) + ?c) AND ?m"
  have c: "(if x86p_flag_cf f then 1 else 0) = ?c" by simp
  have "x86p_alu kX86pAluAdc a b w f =
      Some (?r, x86p_flags_set_explicit f (x86p_flags_adc (a AND ?m) (b AND ?m) ?c ?r w))"
    unfolding x86p_alu_def alu_adc_def Let_def c using assms by simp
  then show ?thesis
    using flags_adc_bits [OF assms refl, where f = f and a = "a AND ?m" and b = "b AND ?m" and c = "x86p_flag_cf f"]
    unfolding uval_masked sval_masked by blast
qed

lemma alu_sbb_outcome:
  assumes "valid_width w"
  shows "\<exists>r f'. x86p_alu kX86pAluSbb a b w f = Some (r, f') \<and>
    arith_outcome w (uval w a - uval w b - of_bool (x86p_flag_cf f))
      (sval w a - sval w b - of_bool (x86p_flag_cf f))
      (uval w a mod 16 < uval w b mod 16 + of_bool (x86p_flag_cf f)) r f'"
proof -
  let ?m = "x86p_width_mask w" and ?c = "of_bool (x86p_flag_cf f) :: u32"
  let ?r = "((a AND ?m) - (b AND ?m) - ?c) AND ?m"
  have c: "(if x86p_flag_cf f then 1 else 0) = ?c" by simp
  have "x86p_alu kX86pAluSbb a b w f =
      Some (?r, x86p_flags_set_explicit f (x86p_flags_sbb (a AND ?m) (b AND ?m) ?c ?r w))"
    unfolding x86p_alu_def alu_sbb_def Let_def c using assms by simp
  then show ?thesis
    using flags_sbb_bits [OF assms refl, where f = f and a = "a AND ?m" and b = "b AND ?m" and c = "x86p_flag_cf f"]
    unfolding uval_masked sval_masked by blast
qed

lemma arith_outcome_value: "arith_outcome w U S n r f \<Longrightarrow> uint r = U mod full w"
  and arith_outcome_cf: "arith_outcome w U S n r f \<Longrightarrow> x86p_flag_cf f = (U < 0 \<or> full w \<le> U)"
  and arith_outcome_of: "arith_outcome w U S n r f \<Longrightarrow> x86p_flag_of f = Some (\<not> fits_signed w S)"
  and arith_outcome_zf: "arith_outcome w U S n r f \<Longrightarrow> x86p_flag_zf f = (U mod full w = 0)"
  and arith_outcome_sf: "arith_outcome w U S n r f \<Longrightarrow> x86p_flag_sf f = (half w \<le> U mod full w)"
  by (simp_all add: arith_outcome_def)

text \<open>
  After a comparison SF differs from OF exactly when the first operand is the smaller signed
  one.
\<close>

lemma signed_less_int:
  fixes A B M :: int
  assumes "0 \<le> A" "A < 2 * M" "0 \<le> B" "B < 2 * M" "1 \<le> M"
  defines "SA \<equiv> if M \<le> A then A - 2 * M else A" and "SB \<equiv> if M \<le> B then B - 2 * M else B"
  shows "((M \<le> (A - B) mod (2 * M)) \<noteq> (\<not> (- M \<le> SA - SB \<and> SA - SB < M))) = (SA < SB)"
  unfolding borrow_sub_mod [OF assms(1-4)] SA_def SB_def
  using assms(1-5) by (cases "M \<le> A"; cases "M \<le> B"; cases "A < B"; simp; linarith)

lemma borrow_zero:
  fixes A B M :: int
  assumes "0 \<le> A" "A < 2 * M" "0 \<le> B" "B < 2 * M"
  shows "((A - B) mod (2 * M) = 0) = (A = B)"
  unfolding borrow_sub_mod [OF assms] using assms by auto

lemma sub_order:
  assumes w: "valid_width w" and o: "arith_outcome w (uval w a - uval w b) (sval w a - sval w b) n r f"
  shows "x86p_flag_cf f = (uval w a < uval w b)"
    and "x86p_flag_zf f = (uval w a = uval w b)"
    and "x86p_flag_of f = Some ovf \<Longrightarrow> (x86p_flag_sf f \<noteq> ovf) = (sval w a < sval w b)"
proof -
  have m: "full w = 2 * half w" "1 \<le> half w"
    using full_half [OF w] half_ge [OF w] by linarith+
  have b: "0 \<le> uval w x" "uval w x < 2 * half w" for x
    using uval_bounds [OF w, of x] unfolding m by auto
  note ab = b(1) [of a] b(2) [of a] b(1) [of b] b(2) [of b]
  show "x86p_flag_cf f = (uval w a < uval w b)"
    using arith_outcome_cf [OF o] ab unfolding m by linarith
  show "x86p_flag_zf f = (uval w a = uval w b)"
    unfolding arith_outcome_zf [OF o] m by (rule borrow_zero [OF ab])
  show "(x86p_flag_sf f \<noteq> ovf) = (sval w a < sval w b)" if "x86p_flag_of f = Some ovf"
  proof -
    have v: "ovf = (\<not> fits_signed w (sval w a - sval w b))"
      using arith_outcome_of [OF o] that by simp
    show ?thesis
      unfolding v arith_outcome_sf [OF o] fits_signed_def sval_def m by (rule signed_less_int [OF ab m(2)])
  qed
qed

lemma sval_eq_iff:
  assumes w: "valid_width w"
  shows "(sval w a = sval w b) = (uval w a = uval w b)"
  using sval_cong [OF w, of a] sval_cong [OF w, of b] by (auto simp: sval_def)

end
