(* ===== verification/X86_Alu_Shift.thy ===== *)
theory X86_Alu_Shift
  imports X86_Alu_Spec
begin

text \<open>
  The unary, logic, shift and rotate operations of \<open>src/src/x86port/alu.c\<close> as arithmetic on
  the operand's unsigned and signed value, with the flags each of them leaves.
\<close>

section \<open>Unary operations\<close>

lemma step_overflow_int:
  fixes A M :: int
  assumes "0 \<le> A" "A < 2 * M" "1 < M"
  shows "((A + 1) mod (2 * M) = M) =
      (\<not> (- M \<le> (if M \<le> A then A - 2 * M else A) + 1 \<and> (if M \<le> A then A - 2 * M else A) + 1 < M))"
    and "(A = M) =
      (\<not> (- M \<le> (if M \<le> A then A - 2 * M else A) - 1 \<and> (if M \<le> A then A - 2 * M else A) - 1 < M))"
  using assms by (auto simp: carry_add_mod split: if_splits)

lemma unary_inc_outcome:
  assumes w: "valid_width w"
  shows "\<exists>r f'. x86p_alu_unary kX86pAluInc a w f = Some (r, f') \<and>
    uint r = (uval w a + 1) mod full w \<and> x86p_flag_cf f' = x86p_flag_cf f \<and>
    x86p_flag_of f' = Some (\<not> fits_signed w (sval w a + 1)) \<and>
    x86p_flag_zf f' = (r = 0) \<and> x86p_flag_sf f' = (sval w r < 0)"
proof -
  let ?m = "x86p_width_mask w"
  let ?f = "\<lparr>fl_a = a AND ?m, fl_b = 1, fl_r = ((a AND ?m) + 1) AND ?m,
    fl_kind = kX86pFlagsInc, fl_w = w, fl_carry_in = x86p_flag_cf f\<rparr>"
  have e: "x86p_alu_unary kX86pAluInc a w f = Some (fl_r ?f, ?f)"
    using w by (simp add: x86p_alu_unary_def Let_def flags_set_valid)
  have one: "uval w 1 = 1" using w by (auto simp: uval_mod)
  have ur: "uval w (fl_r ?f) = (uval w a + 1) mod full w"
    by (simp add: uint_plus_mod [OF w] one)
  have z: "(fl_r ?f = 0) = (uval w (fl_r ?f) = 0)" by (simp add: uval_eq_0_iff and.assoc)
  have m: "full w = 2 * half w" "1 < half w"
    using full_half [OF w] half_ge [OF w] by linarith+
  have b: "0 \<le> uval w a" "uval w a < 2 * half w"
    using uval_bounds [OF w, of a] unfolding m by auto
  have "((uval w a + 1) mod (2 * half w) = half w) =
      (\<not> (- half w \<le> (if half w \<le> uval w a then uval w a - 2 * half w else uval w a) + 1 \<and>
          (if half w \<le> uval w a then uval w a - 2 * half w else uval w a) + 1 < half w))"
    by (rule step_overflow_int(1) [OF b m(2)])
  then have o: "(uval w (fl_r ?f) = half w) = (\<not> fits_signed w (sval w a + 1))"
    unfolding ur fits_signed_def sval_def m .
  show ?thesis
    unfolding e using w rec_of(3) [of ?f] rec_zf [of ?f] rec_sf [of ?f] ur o z
    by (simp add: rec_cf uval_def and.assoc)
qed

lemma unary_dec_outcome:
  assumes w: "valid_width w"
  shows "\<exists>r f'. x86p_alu_unary kX86pAluDec a w f = Some (r, f') \<and>
    uint r = (uval w a - 1) mod full w \<and> x86p_flag_cf f' = x86p_flag_cf f \<and>
    x86p_flag_of f' = Some (\<not> fits_signed w (sval w a - 1)) \<and>
    x86p_flag_zf f' = (r = 0) \<and> x86p_flag_sf f' = (sval w r < 0)"
proof -
  let ?m = "x86p_width_mask w"
  let ?f = "\<lparr>fl_a = a AND ?m, fl_b = 1, fl_r = ((a AND ?m) - 1) AND ?m,
    fl_kind = kX86pFlagsDec, fl_w = w, fl_carry_in = x86p_flag_cf f\<rparr>"
  have e: "x86p_alu_unary kX86pAluDec a w f = Some (fl_r ?f, ?f)"
    using w by (simp add: x86p_alu_unary_def Let_def flags_set_valid)
  have one: "uval w 1 = 1" using w by (auto simp: uval_mod)
  have ur: "uval w (fl_r ?f) = (uval w a - 1) mod full w"
    by (simp add: uint_minus_mod [OF w] one)
  have z: "(fl_r ?f = 0) = (uval w (fl_r ?f) = 0)" by (simp add: uval_eq_0_iff and.assoc)
  have m: "full w = 2 * half w" "1 < half w"
    using full_half [OF w] half_ge [OF w] by linarith+
  have b: "0 \<le> uval w a" "uval w a < 2 * half w"
    using uval_bounds [OF w, of a] unfolding m by auto
  have "(uval w a = half w) =
      (\<not> (- half w \<le> (if half w \<le> uval w a then uval w a - 2 * half w else uval w a) - 1 \<and>
          (if half w \<le> uval w a then uval w a - 2 * half w else uval w a) - 1 < half w))"
    by (rule step_overflow_int(2) [OF b m(2)])
  then have o: "(uval w (fl_a ?f) = half w) = (\<not> fits_signed w (sval w a - 1))"
    unfolding fits_signed_def sval_def m by simp
  show ?thesis
    unfolding e using w rec_of(4) [of ?f] rec_zf [of ?f] rec_sf [of ?f] ur o z
    by (simp add: rec_cf uval_def and.assoc)
qed

lemma unary_neg_outcome:
  assumes w: "valid_width w"
  shows "\<exists>r f'. x86p_alu_unary kX86pAluNeg a w f = Some (r, f') \<and>
    arith_outcome w (- uval w a) (- sval w a) (uval w a mod 16 \<noteq> 0) r f'"
proof -
  let ?m = "x86p_width_mask w"
  let ?f = "\<lparr>fl_a = 0, fl_b = a AND ?m, fl_r = (0 - (a AND ?m)) AND ?m,
    fl_kind = kX86pFlagsSub, fl_w = w, fl_carry_in = x86p_flag_cf f\<rparr>"
  have e: "x86p_alu_unary kX86pAluNeg a w f = Some (fl_r ?f, ?f)"
    using w by (simp add: x86p_alu_unary_def Let_def flags_set_valid)
  have z: "uval w 0 = 0" "sval w 0 = 0" by (simp_all add: uval_def sval_def)
  have n: "(0 < uval w a mod 16) = (uval w a mod 16 \<noteq> 0)"
    using pos_mod_sign [of 16 "uval w a"] by linarith
  show ?thesis
    using sub_recorded [OF w, of ?f 0 "a AND ?m"] unfolding e by (simp add: z n)
qed

lemma unary_not_outcome:
  assumes w: "valid_width w"
  shows "x86p_alu_unary kX86pAluNot a w f = Some (NOT a AND x86p_width_mask w, f)"
proof -
  have "NOT (a AND x86p_width_mask w) AND x86p_width_mask w = NOT a AND x86p_width_mask w"
    by (rule bit_word_eqI) (auto simp: bit_simps)
  then show ?thesis using w by (simp add: x86p_alu_unary_def Let_def)
qed

section \<open>Logic operations\<close>

definition logic_outcome :: "nat \<Rightarrow> u32 \<Rightarrow> u32 \<Rightarrow> flags \<Rightarrow> bool" where
  "logic_outcome w v r f \<longleftrightarrow>
     r = v AND x86p_width_mask w \<and> \<not> x86p_flag_cf f \<and> x86p_flag_of f = Some False \<and>
     \<not> x86p_flag_af f \<and> x86p_flag_zf f = (r = 0) \<and> x86p_flag_sf f = (sval w r < 0) \<and>
     x86p_flag_pf f = even (popcount8 r)"

lemma alu_logic_outcome:
  assumes w: "valid_width w"
  shows "\<exists>f'. alu_logic v a b w f = Some (v AND x86p_width_mask w, f') \<and>
    logic_outcome w v (v AND x86p_width_mask w) f'"
proof -
  let ?f = "\<lparr>fl_a = a, fl_b = b, fl_r = v AND x86p_width_mask w, fl_kind = kX86pFlagsLogic, fl_w = w,
    fl_carry_in = x86p_flag_cf f\<rparr>"
  have "alu_logic v a b w f = Some (v AND x86p_width_mask w, ?f)"
    using w by (simp add: alu_logic_def Let_def flags_set_valid)
  moreover have "logic_outcome w v (v AND x86p_width_mask w) ?f"
    using w rec_sf [of ?f]
    by (simp add: logic_outcome_def rec_cf rec_of rec_zf rec_pf x86p_flag_af_def uval_eq_0_iff and.assoc)
  ultimately show ?thesis by blast
qed

section \<open>Shifts\<close>

definition shift_count :: "u32 \<Rightarrow> nat" where
  "shift_count b = unat b mod 32"

lemma count_masked:
  assumes "valid_width w"
  shows "(b AND x86p_width_mask w) AND 0x1F = b AND (0x1F :: u32)"
    and "unat (b AND (0x1F :: u32)) = shift_count b"
    and "b AND (0x1F :: u32) = 0 \<longleftrightarrow> shift_count b = 0"
proof -
  have m: "(0x1F :: u32) = mask 5" by (simp add: mask_eq_exp_minus_1)
  show "(b AND x86p_width_mask w) AND 0x1F = b AND (0x1F :: u32)"
    unfolding m width_mask_mask [OF assms] using assms
    by (intro bit_word_eqI) (auto simp: bit_simps)
  show u: "unat (b AND (0x1F :: u32)) = shift_count b"
    unfolding m by (simp add: take_bit_eq_mask [symmetric] unsigned_take_bit_eq take_bit_eq_mod shift_count_def unat_mod)
  show "b AND (0x1F :: u32) = 0 \<longleftrightarrow> shift_count b = 0"
    using u by (metis unat_eq_zero)
qed

lemma shift_count_less: "shift_count b < 32"
  by (simp add: shift_count_def)

lemma sval_signed_take_bit:
  assumes w: "valid_width w"
  shows "sval w a = signed_take_bit (w * 8 - 1) (uint a)"
proof -
  have s: "Suc (w * 8 - 1) = w * 8" using w by auto
  have t: "take_bit (w * 8) (uint a) = uval w a" by (simp add: uval_mod [OF w] take_bit_eq_mod)
  have h: "bit (uint a) (w * 8 - 1) = (half w \<le> uval w a)"
    using top_bit_iff [OF w, of a] bit_imp_le_length [of a "w * 8 - 1"] by (auto simp: bit_uint_iff)
  show ?thesis
    unfolding signed_take_bit_eq_take_bit_minus s t h by (simp add: sval_def)
qed

lemma bit_sval:
  assumes w: "valid_width w"
  shows "bit (sval w a) i = bit a (if i < w * 8 then i else w * 8 - 1)"
proof -
  have "(if i < w * 8 then i else w * 8 - 1) = min i (w * 8 - 1)" using w by auto
  then show ?thesis
    using w bit_imp_le_length [of a "min i (w * 8 - 1)"]
    by (auto simp: sval_signed_take_bit [OF w] bit_signed_take_bit_iff bit_uint_iff min.commute)
qed

lemma bit_uval:
  assumes w: "valid_width w"
  shows "bit (uval w a) i = (i < w * 8 \<and> bit a i)"
  using w unfolding uval_def and_width_mask [OF w] bit_uint_iff bit_take_bit_iff by auto

lemma mul_pow_bits: "X * 2 ^ n = push_bit n (X :: int)"
  by (simp add: push_bit_eq_mult)

lemma shl_value:
  assumes w: "valid_width w" and n: "n < 32"
  shows "uint (if w * 8 \<le> n then 0 else push_bit n (a AND x86p_width_mask w) AND x86p_width_mask w) =
    (uval w a * 2 ^ n) mod full w"
  unfolding mul_pow_bits take_bit_eq_mod [symmetric] using w n
  by (intro bit_eqI) (auto simp: bit_uint_iff and_width_mask [OF w] bit_simps bit_uval [OF w])

lemma shr_value:
  assumes w: "valid_width w"
  shows "uint (if w * 8 \<le> n then 0 else drop_bit n (a AND x86p_width_mask w) AND x86p_width_mask w) =
    uval w a div 2 ^ n"
  unfolding drop_bit_eq_div [symmetric] using w
  by (intro bit_eqI) (auto simp: bit_uint_iff and_width_mask [OF w] bit_simps bit_uval [OF w])

lemma sar_value:
  assumes w: "valid_width w" and n: "n < 32"
    and a': "a' = a AND x86p_width_mask w"
  shows "uint (if w * 8 \<le> n then (if bit a' (w * 8 - 1) then x86p_width_mask w else 0)
      else let r = drop_bit n a' AND x86p_width_mask w
           in if bit a' (w * 8 - 1) then r OR (push_bit (w * 8 - n) (x86p_width_mask w) AND x86p_width_mask w) else r)
    = (sval w a div 2 ^ n) mod full w"
  unfolding drop_bit_eq_div [symmetric] take_bit_eq_mod [symmetric] Let_def a' width_mask_mask [OF w] using w n
  by (intro bit_eqI) (auto simp: bit_uint_iff bit_simps bit_sval [OF w])

lemma shift_carry_value:
  assumes w: "valid_width w" and n: "0 < n" "n < 32"
    and f: "fl_a f = a AND x86p_width_mask w" "unat (fl_b f) = n" "fl_w f = w"
  shows "fl_kind f = kX86pFlagsShl \<Longrightarrow> shift_cf f = odd (uval w a * 2 ^ n div full w)"
    and "fl_kind f = kX86pFlagsShr \<Longrightarrow> shift_cf f = odd (uval w a div 2 ^ (n - 1))"
    and "fl_kind f = kX86pFlagsSar \<Longrightarrow> shift_cf f = odd (sval w a div 2 ^ (n - 1))"
  using w n unfolding shift_cf_def f Let_def mul_pow_bits bit_iff_odd [symmetric]
  by (auto simp: and_width_mask [OF w] bit_simps bit_uval [OF w] bit_sval [OF w] msb_def)

text \<open>
  The value, carry and overflow of each shift by a nonzero count: the result is the product
  or the (rounded-down) quotient by a power of two, and CF is the last bit shifted out.
\<close>

definition shift_spec :: "alu_op \<Rightarrow> nat \<Rightarrow> u32 \<Rightarrow> nat \<Rightarrow> int \<times> bool" where
  "shift_spec op w a n =
     (if op = kX86pAluShl then ((uval w a * 2 ^ n) mod full w, odd (uval w a * 2 ^ n div full w))
      else if op = kX86pAluShr then (uval w a div 2 ^ n, odd (uval w a div 2 ^ (n - 1)))
      else ((sval w a div 2 ^ n) mod full w, odd (sval w a div 2 ^ (n - 1))))"

definition shift_overflow :: "alu_op \<Rightarrow> nat \<Rightarrow> u32 \<Rightarrow> nat \<Rightarrow> u32 \<Rightarrow> bool \<Rightarrow> bool" where
  "shift_overflow op w a n r cf =
     (if op = kX86pAluShl then (sval w r < 0) \<noteq> cf
      else if op = kX86pAluShr then n = 1 \<and> sval w a < 0
      else False)"

definition shift_outcome :: "alu_op \<Rightarrow> nat \<Rightarrow> u32 \<Rightarrow> nat \<Rightarrow> u32 \<Rightarrow> flags \<Rightarrow> bool" where
  "shift_outcome op w a n r f \<longleftrightarrow>
     uint r = fst (shift_spec op w a n) \<and>
     x86p_flag_cf f = snd (shift_spec op w a n) \<and>
     x86p_flag_of f = Some (shift_overflow op w a n r (snd (shift_spec op w a n))) \<and>
     x86p_flag_zf f = (r = 0) \<and> x86p_flag_sf f = (sval w r < 0) \<and>
     x86p_flag_pf f = even (popcount8 r)"

lemma shift_zero_count:
  assumes "valid_width w" "x86p_alu_is_shift op" "shift_count b = 0"
  shows "x86p_alu op a b w f = Some (a AND x86p_width_mask w, f)"
proof -
  have c: "(b AND x86p_width_mask w) AND 0x1F = 0"
    using assms(3) count_masked(3) [OF assms(1)] unfolding count_masked(1) [OF assms(1)] by blast
  have "x86p_alu op a b w f = alu_shift op (a AND x86p_width_mask w) (b AND x86p_width_mask w) w f"
    using assms(1,2) unfolding x86p_alu_is_shift_def by (elim disjE) (simp_all add: x86p_alu_def Let_def)
  then show ?thesis by (simp only: alu_shift_def Let_def c refl if_True)
qed

definition shift_kind :: "alu_op \<Rightarrow> flag_kind" where
  "shift_kind op = (if op = kX86pAluShl then kX86pFlagsShl
     else if op = kX86pAluShr then kX86pFlagsShr else kX86pFlagsSar)"

definition shift_value :: "alu_op \<Rightarrow> nat \<Rightarrow> u32 \<Rightarrow> nat \<Rightarrow> u32" where
  "shift_value op w a n =
     (if op = kX86pAluShl then if w * 8 \<le> n then 0 else push_bit n a AND x86p_width_mask w
      else if op = kX86pAluShr then if w * 8 \<le> n then 0 else drop_bit n a AND x86p_width_mask w
      else if w * 8 \<le> n then (if bit a (w * 8 - 1) then x86p_width_mask w else 0)
      else let r = drop_bit n a AND x86p_width_mask w
           in if bit a (w * 8 - 1) then r OR (push_bit (w * 8 - n) (x86p_width_mask w) AND x86p_width_mask w) else r)"

lemma alu_shift_step:
  assumes w: "valid_width w" and op: "x86p_alu_is_shift op" and n: "shift_count b \<noteq> 0"
    and a': "a' = a AND x86p_width_mask w" and r: "r = shift_value op w a' (shift_count b)"
  shows "x86p_alu op a b w f = Some (r, \<lparr>fl_a = a', fl_b = b AND 0x1F, fl_r = r, fl_kind = shift_kind op,
    fl_w = w, fl_carry_in = x86p_flag_cf f\<rparr>)"
proof -
  have "x86p_alu op a b w f = alu_shift op a' (b AND x86p_width_mask w) w f"
    using w op by (auto simp: x86p_alu_def x86p_alu_is_shift_def Let_def a')
  also have "\<dots> = Some (r, \<lparr>fl_a = a', fl_b = b AND 0x1F, fl_r = r, fl_kind = shift_kind op,
    fl_w = w, fl_carry_in = x86p_flag_cf f\<rparr>)"
    using n unfolding alu_shift_def Let_def count_masked(1,2) [OF w] count_masked(3) [OF w] r
      shift_value_def shift_kind_def
    by (simp add: flags_set_valid [OF w] count_masked(3) [OF w])
  finally show ?thesis .
qed

lemma shift_value_spec:
  assumes w: "valid_width w" and op: "x86p_alu_is_shift op" and n: "n < 32"
  shows "uint (shift_value op w (a AND x86p_width_mask w) n) = fst (shift_spec op w a n)"
  using op unfolding x86p_alu_is_shift_def
  by (elim disjE) (simp_all only: shift_value_def shift_spec_def if_True if_False alu_op.simps fst_conv refl
      shl_value [OF w n] shr_value [OF w] sar_value [OF w n refl])

lemma shift_value_masked:
  assumes w: "valid_width w"
  shows "shift_value op w (a AND x86p_width_mask w) n AND x86p_width_mask w = shift_value op w (a AND x86p_width_mask w) n"
  unfolding shift_value_def Let_def by (simp add: and.assoc bit.conj_disj_distrib2)

lemma alu_shift_outcome:
  assumes w: "valid_width w" and op: "x86p_alu_is_shift op" and n: "shift_count b \<noteq> 0"
  shows "\<exists>r f'. x86p_alu op a b w f = Some (r, f') \<and> shift_outcome op w a (shift_count b) r f'"
proof -
  let ?r = "shift_value op w (a AND x86p_width_mask w) (shift_count b)"
  let ?f = "\<lparr>fl_a = a AND x86p_width_mask w, fl_b = b AND 0x1F, fl_r = ?r, fl_kind = shift_kind op,
    fl_w = w, fl_carry_in = x86p_flag_cf f\<rparr>"
  let ?n = "shift_count b"
  have v: "uint ?r = fst (shift_spec op w a ?n)"
    by (rule shift_value_spec [OF w op shift_count_less])
  have k: "op = kX86pAluShl \<or> op = kX86pAluShr \<or> op = kX86pAluSar"
    using op by (simp add: x86p_alu_is_shift_def)
  have n0: "0 < ?n" using n by simp
  have "x86p_flag_cf ?f = shift_cf ?f"
    using k by (auto simp: x86p_flag_cf_def shift_kind_def)
  also have "\<dots> = snd (shift_spec op w a ?n)"
    using k shift_carry_value [OF w n0 shift_count_less, of ?f a]
    by (auto simp: shift_spec_def shift_kind_def count_masked(2) [OF w])
  finally have cf: "x86p_flag_cf ?f = snd (shift_spec op w a ?n)" .
  have vw: "valid_width (fl_w ?f)" using w by simp
  have b1: "b AND 0x1F = (1 :: u32) \<longleftrightarrow> ?n = 1"
    using count_masked(2) [OF w, of b] by (metis unat_1 word_unat_eq_iff)
  have ovf: "x86p_flag_of ?f = Some (shift_overflow op w a ?n ?r (snd (shift_spec op w a ?n)))"
    unfolding x86p_flag_of_def Let_def sign_path [OF vw] cf shift_overflow_def
    using k w b1 by (elim disjE) (simp_all add: shift_kind_def)
  have nk: "fl_kind ?f \<notin> {kX86pFlagsNone, kX86pFlagsExplicit}" by (simp add: shift_kind_def)
  have "shift_outcome op w a ?n ?r ?f"
    unfolding shift_outcome_def
    using v cf ovf rec_zf [OF nk] rec_sf [OF nk vw] rec_pf [OF nk]
    by (simp add: uval_eq_0_iff shift_value_masked [OF w])
  then show ?thesis using alu_shift_step [OF w op n refl refl] by blast
qed

end
