(* ===== verification/X86_Alu_Rotate.thy ===== *)
theory X86_Alu_Rotate
  imports X86_Alu_Shift
begin

text \<open>
  The rotates of \<open>src/src/x86port/alu.c\<close> bit by bit, with and without the carry in the
  ring, the flags they keep, and that each pair of rotates undoes the other.
\<close>

section \<open>Replacing CF and OF only\<close>

lemma set_cf_of_only_readers:
  assumes "flags_ok f"
  shows "\<exists>f'. set_cf_of_only f c ov = Some f' \<and> flags_ok f' \<and>
    x86p_flag_cf f' = c \<and> x86p_flag_of f' = Some ov \<and>
    x86p_flag_pf f' = x86p_flag_pf f \<and> x86p_flag_af f' = x86p_flag_af f \<and>
    x86p_flag_zf f' = x86p_flag_zf f \<and> x86p_flag_sf f' = x86p_flag_sf f"
proof -
  obtain v where v: "x86p_eflags f = Some v" using eflags_total [OF assms] by blast
  define u where "u = (v AND NOT (X86P_CF OR X86P_OF)) OR (if c then X86P_CF else 0) OR (if ov then X86P_OF else 0)"
  have b: "bit u n = (if n = 0 then c else if n = 11 then ov else bit v n)" for n
    unfolding u_def using bit_imp_le_length [of v n] by (auto simp: bit_simps flag_simps)
  have "set_cf_of_only f c ov = Some (x86p_flags_set_explicit f u)"
    by (simp add: set_cf_of_only_def v u_def)
  then show ?thesis
    by (simp add: explicit_readers b x86p_eflags_bits(1-5) [OF v, symmetric])
qed

section \<open>Rotates within the operand\<close>

definition rol_value :: "nat \<Rightarrow> u32 \<Rightarrow> nat \<Rightarrow> u32" where
  "rol_value w a n = (if n = 0 then a else (push_bit n a OR drop_bit (w * 8 - n) a) AND x86p_width_mask w)"

definition ror_value :: "nat \<Rightarrow> u32 \<Rightarrow> nat \<Rightarrow> u32" where
  "ror_value w a n = (if n = 0 then a else (drop_bit n a OR push_bit (w * 8 - n) a) AND x86p_width_mask w)"

lemma masked_high_bits: "valid_width w \<Longrightarrow> a AND x86p_width_mask w = a \<Longrightarrow> w * 8 \<le> i \<Longrightarrow> \<not> bit a i"
  by (metis and_width_mask bit_take_bit_iff not_le)

lemma rol_value_bit:
  assumes w: "valid_width w" and a: "a AND x86p_width_mask w = a" and n: "n < w * 8" and i: "i < w * 8"
  shows "bit (rol_value w a n) i = bit a (if i < n then i + w * 8 - n else i - n)"
proof -
  have hi: "\<not> bit a (w * 8 - n + i)" if "n \<le> i"
    using masked_high_bits [OF w a] n that by simp
  have "i < 32" using w i by auto
  then show ?thesis
    using w n i hi by (auto simp: rol_value_def and_width_mask [OF w] bit_simps add.commute)
qed

lemma ror_value_bit:
  assumes w: "valid_width w" and a: "a AND x86p_width_mask w = a" and n: "n < w * 8" and i: "i < w * 8"
  shows "bit (ror_value w a n) i = bit a (if i + n < w * 8 then i + n else i + n - w * 8)"
proof -
  have hi: "\<not> bit a (n + i)" if "w * 8 \<le> n + i"
    using masked_high_bits [OF w a] that by simp
  have "i < 32" using w i by auto
  then show ?thesis
    using w n i hi by (auto simp: ror_value_def and_width_mask [OF w] bit_simps add.commute)
qed

lemma rotate_masked:
  "a AND x86p_width_mask w = a \<Longrightarrow> rol_value w a n AND x86p_width_mask w = rol_value w a n"
  "a AND x86p_width_mask w = a \<Longrightarrow> ror_value w a n AND x86p_width_mask w = ror_value w a n"
  by (auto simp: rol_value_def ror_value_def and.assoc)

lemma masked_eqI:
  assumes w: "valid_width w" and "a AND x86p_width_mask w = a" "b AND x86p_width_mask w = b"
    and "\<And>i. i < w * 8 \<Longrightarrow> bit a i = bit b i"
  shows "a = b"
  using assms masked_high_bits [OF w assms(2)] masked_high_bits [OF w assms(3)]
  by (intro bit_word_eqI) (meson not_le)

lemma ror_rol_value:
  assumes w: "valid_width w" and a: "a AND x86p_width_mask w = a" and n: "n < w * 8"
  shows "ror_value w (rol_value w a n) n = a" and "rol_value w (ror_value w a n) n = a"
proof -
  show "ror_value w (rol_value w a n) n = a"
  proof (rule masked_eqI [OF w])
    fix i assume i: "i < w * 8"
    have j: "(if i + n < w * 8 then i + n else i + n - w * 8) < w * 8" using n i by auto
    show "bit (ror_value w (rol_value w a n) n) i = bit a i"
      unfolding ror_value_bit [OF w rotate_masked(1) [OF a] n i] rol_value_bit [OF w a n j]
      using n i by auto
  qed (simp_all add: rotate_masked a)
  show "rol_value w (ror_value w a n) n = a"
  proof (rule masked_eqI [OF w])
    fix i assume i: "i < w * 8"
    have j: "(if i < n then i + w * 8 - n else i - n) < w * 8" using n i by auto
    show "bit (rol_value w (ror_value w a n) n) i = bit a i"
      unfolding rol_value_bit [OF w rotate_masked(2) [OF a] n i] ror_value_bit [OF w a n j]
      using n i by auto
  qed (simp_all add: rotate_masked a)
qed

definition rotate_result :: "alu_op \<Rightarrow> nat \<Rightarrow> u32 \<Rightarrow> nat \<Rightarrow> u32" where
  "rotate_result op w a n = (if op = kX86pAluRol then rol_value w a (n mod (w * 8)) else ror_value w a (n mod (w * 8)))"

lemma alu_rotate_step:
  assumes w: "valid_width w" and op: "op = kX86pAluRol \<or> op = kX86pAluRor" and n: "shift_count b \<noteq> 0"
    and f: "flags_ok f"
    and r_def: "r = rotate_result op w (a AND x86p_width_mask w) (shift_count b)"
    and c_def: "c = (if op = kX86pAluRol then bit r 0 else bit r (w * 8 - 1))"
    and ov_def: "ov = (bit r (w * 8 - 1) \<noteq> (if op = kX86pAluRol then c else bit r (w * 8 - 2)))"
  shows "\<exists>f'. x86p_alu op a b w f = Some (r, f') \<and> flags_ok f' \<and>
    x86p_flag_cf f' = c \<and> x86p_flag_of f' = Some ov \<and>
    x86p_flag_pf f' = x86p_flag_pf f \<and> x86p_flag_af f' = x86p_flag_af f \<and>
    x86p_flag_zf f' = x86p_flag_zf f \<and> x86p_flag_sf f' = x86p_flag_sf f"
proof -
  have "x86p_alu op a b w f = alu_rotate op (a AND x86p_width_mask w) (b AND x86p_width_mask w) w f"
    using w op by (elim disjE) (simp_all add: x86p_alu_def Let_def)
  also have "\<dots> = do { f' \<leftarrow> set_cf_of_only f c ov; Some (r, f') }"
    unfolding alu_rotate_def Let_def count_masked(1,2) [OF w] count_masked(3) [OF w]
    using n op unfolding ov_def c_def r_def rotate_result_def rol_value_def ror_value_def by auto
  finally show ?thesis using set_cf_of_only_readers [OF f, of c ov] by auto
qed

section \<open>Rotates through the carry\<close>

text \<open>One turn of each loop, on the pair of operand and carry.\<close>

definition rcl_step :: "nat \<Rightarrow> u32 \<times> bool \<Rightarrow> u32 \<times> bool" where
  "rcl_step w = (\<lambda>(r, cf). ((push_bit 1 r OR of_bool cf) AND x86p_width_mask w, bit r (w * 8 - 1)))"

definition rcr_step :: "nat \<Rightarrow> u32 \<times> bool \<Rightarrow> u32 \<times> bool" where
  "rcr_step w = (\<lambda>(r, cf). ((drop_bit 1 r OR push_bit (w * 8 - 1) (of_bool cf)) AND x86p_width_mask w, bit r 0))"

lemma rcl_loop_funpow: "rcl_loop n (w * 8) (x86p_width_mask w) r cf = (rcl_step w ^^ n) (r, cf)"
  by (induction n arbitrary: r cf) (simp_all add: rcl_step_def funpow_swap1)

lemma rcr_loop_funpow: "rcr_loop n (w * 8) (x86p_width_mask w) r cf = (rcr_step w ^^ n) (r, cf)"
  by (induction n arbitrary: r cf) (simp_all add: rcr_step_def funpow_swap1)

lemma rc_step_masked:
  "fst (rcl_step w x) AND x86p_width_mask w = fst (rcl_step w x)"
  "fst (rcr_step w x) AND x86p_width_mask w = fst (rcr_step w x)"
  by (cases x; simp add: rcl_step_def rcr_step_def and.assoc)+

lemma bit_of_bool_word: "bit (of_bool c :: u32) i = (c \<and> i = 0)"
  by (cases c) (auto simp: bit_1_iff)

lemma bit_rcl_step:
  assumes "valid_width w"
  shows "bit (fst (rcl_step w (r, c))) i = (i < w * 8 \<and> (if i = 0 then c else bit r (i - 1)))"
proof -
  have "i < 32" if "i < w * 8" using assms that by auto
  then show ?thesis
    unfolding rcl_step_def prod.case fst_conv and_width_mask [OF assms] bit_take_bit_iff bit_or_iff
      bit_push_bit_iff bit_of_bool_word by auto
qed

lemma bit_rcr_step:
  assumes "valid_width w"
  shows "bit (fst (rcr_step w (r, c))) i = (i < w * 8 \<and> (bit r (Suc i) \<or> c \<and> i = w * 8 - 1))"
proof -
  have "i < 32" if "i < w * 8" using assms that by auto
  then show ?thesis
    unfolding rcr_step_def prod.case fst_conv and_width_mask [OF assms] bit_take_bit_iff bit_or_iff
      bit_push_bit_iff bit_of_bool_word bit_drop_bit_eq o_def by auto
qed

lemma snd_rc_step:
  "snd (rcl_step w (r, c)) = bit r (w * 8 - 1)" "snd (rcr_step w (r, c)) = bit r 0"
  by (simp_all add: rcl_step_def rcr_step_def)

lemma rc_steps_cancel:
  assumes w: "valid_width w" and a: "a AND x86p_width_mask w = a"
  shows "rcr_step w (rcl_step w (a, c)) = (a, c)" and "rcl_step w (rcr_step w (a, c)) = (a, c)"
proof -
  note hi = masked_high_bits [OF w a] and bits = bit_rcl_step [OF w] bit_rcr_step [OF w] snd_rc_step
  have w0: "0 < w * 8" using w by auto
  have last: "i = w * 8 - 1" if "i < w * 8" "\<not> Suc i < w * 8" for i using that by linarith
  obtain r1 c1 where s1: "rcl_step w (a, c) = (r1, c1)" by fastforce
  obtain r2 c2 where s2: "rcr_step w (a, c) = (r2, c2)" by fastforce
  have r1: "bit r1 i = (i < w * 8 \<and> (if i = 0 then c else bit a (i - 1)))" "c1 = bit a (w * 8 - 1)" for i
    using bits(1) [of a c i] bits(3) [of w a c] by (simp_all add: s1)
  have r2: "bit r2 i = (i < w * 8 \<and> (bit a (Suc i) \<or> c \<and> i = w * 8 - 1))" "c2 = bit a 0" for i
    using bits(2) [of a c i] bits(4) [of w a c] by (simp_all add: s2)
  have "fst (rcr_step w (r1, c1)) = a"
  proof (rule masked_eqI [OF w _ a])
    fix i assume i: "i < w * 8"
    show "bit (fst (rcr_step w (r1, c1))) i = bit a i"
      unfolding bits r1 using i last [OF i] by auto
  qed (rule rc_step_masked)
  moreover have "snd (rcr_step w (r1, c1)) = c" unfolding bits r1 using w0 by simp
  ultimately show "rcr_step w (rcl_step w (a, c)) = (a, c)" unfolding s1 by (simp add: prod_eq_iff)
  have "fst (rcl_step w (r2, c2)) = a"
  proof (rule masked_eqI [OF w _ a])
    fix i assume i: "i < w * 8"
    show "bit (fst (rcl_step w (r2, c2))) i = bit a i"
      unfolding bits r2 using i by (cases i) auto
  qed (rule rc_step_masked)
  moreover have "snd (rcl_step w (r2, c2)) = c"
    unfolding bits r2 using w0 hi [of "w * 8"] by simp
  ultimately show "rcl_step w (rcr_step w (a, c)) = (a, c)" unfolding s2 by (simp add: prod_eq_iff)
qed

text \<open>The two steps undo each other on masked operands, so \<open>n\<close> turns one way undo \<open>n\<close> turns the other.\<close>

definition rc_masked :: "nat \<Rightarrow> u32 \<times> bool \<Rightarrow> bool" where
  "rc_masked w x \<longleftrightarrow> valid_width w \<and> fst x AND x86p_width_mask w = fst x"

interpretation rcl: undoing "rcl_step w" "rcr_step w" "rc_masked w" for w
  by unfold_locales (auto simp: rc_masked_def rc_step_masked rc_steps_cancel)

interpretation rcr: undoing "rcr_step w" "rcl_step w" "rc_masked w" for w
  by unfold_locales (auto simp: rc_masked_def rc_step_masked rc_steps_cancel)

definition rc_result :: "alu_op \<Rightarrow> nat \<Rightarrow> u32 \<Rightarrow> bool \<Rightarrow> nat \<Rightarrow> u32 \<times> bool" where
  "rc_result op w a c n = ((if op = kX86pAluRcl then rcl_step w else rcr_step w) ^^ (n mod (w * 8 + 1))) (a, c)"

lemma alu_rotate_carry_step:
  assumes w: "valid_width w" and op: "op = kX86pAluRcl \<or> op = kX86pAluRcr" and n: "shift_count b \<noteq> 0"
    and f: "flags_ok f" and r: "rc_result op w (a AND x86p_width_mask w) (x86p_flag_cf f) (shift_count b) = (r, c)"
  shows "\<exists>f'. x86p_alu op a b w f = Some (r, f') \<and> flags_ok f' \<and> x86p_flag_cf f' = c \<and>
    x86p_flag_pf f' = x86p_flag_pf f \<and> x86p_flag_af f' = x86p_flag_af f \<and>
    x86p_flag_zf f' = x86p_flag_zf f \<and> x86p_flag_sf f' = x86p_flag_sf f"
proof -
  let ?ov = "if op = kX86pAluRcl then bit r (w * 8 - 1) \<noteq> c else bit r (w * 8 - 1) \<noteq> bit r (w * 8 - 2)"
  have "x86p_alu op a b w f = alu_rotate_carry op (a AND x86p_width_mask w) (b AND x86p_width_mask w) w f"
    using w op by (elim disjE) (simp_all add: x86p_alu_def Let_def)
  also have "\<dots> = do { f' \<leftarrow> set_cf_of_only f c ?ov; Some (r, f') }"
    unfolding alu_rotate_carry_def Let_def count_masked(1,2) [OF w] count_masked(3) [OF w]
      rcl_loop_funpow rcr_loop_funpow
    using n op r by (auto simp: rc_result_def)
  finally show ?thesis using set_cf_of_only_readers [OF f, of c ?ov] by auto
qed

lemma rotate_zero_count:
  assumes w: "valid_width w" and op: "op \<in> {kX86pAluRol, kX86pAluRor, kX86pAluRcl, kX86pAluRcr}"
    and n: "shift_count b = 0"
  shows "x86p_alu op a b w f = Some (a AND x86p_width_mask w, f)"
proof -
  have c: "(b AND x86p_width_mask w) AND 0x1F = 0"
    using n count_masked(3) [OF w] unfolding count_masked(1) [OF w] by blast
  show ?thesis
    using op w by (auto simp only: insert_iff empty_iff x86p_alu_def Let_def alu_op.simps
        require_width_valid alu_rotate_def alu_rotate_carry_def c refl if_True bind.bind_lunit)
qed

end
