(* ===== verification/X86_Alu_Mul.thy ===== *)
theory X86_Alu_Mul
  imports X86_Alu_Rotate
begin

text \<open>
  Multiplication and division of \<open>src/src/x86port/alu.c\<close>: the double-width product split
  into halves, and the quotient and remainder with the exact condition for a divide error.
\<close>

section \<open>Signed operands\<close>

lemma signed_operand_sval:
  assumes w: "valid_width w"
  shows "signed_operand a w = sval w a"
proof (rule bit_eqI)
  fix i
  have s: "sint (x :: u32) = signed_take_bit 31 (uint x)" for x
    by (simp add: sint_uint)
  have k: "(32 - w * 8) + min i (w * 8 - 1) = min ((32 - w * 8) + i) 31" using w by auto
  have lt: "min i (w * 8 - 1) < w * 8" using w by auto
  have "bit (signed_operand a w) i = bit (push_bit (32 - w * 8) (a AND x86p_width_mask w)) (min ((32 - w * 8) + i) 31)"
    unfolding signed_operand_def s bit_drop_bit_eq o_def bit_signed_take_bit_iff bit_uint_iff
    by (auto simp: min.commute)
  also have "\<dots> = bit a (min i (w * 8 - 1))"
    unfolding k [symmetric] using w lt by (auto simp: bit_push_bit_iff and_width_mask bit_take_bit_iff)
  also have "min i (w * 8 - 1) = (if i < w * 8 then i else w * 8 - 1)" using w by auto
  finally show "bit (signed_operand a w) i = bit (sval w a) i"
    unfolding bit_sval [OF w] .
qed

section \<open>Products\<close>

lemma mul_flags_readers:
  assumes "flags_ok f"
  shows "\<exists>f'. mul_flags f c = Some f' \<and> flags_ok f' \<and>
    x86p_flag_cf f' = c \<and> x86p_flag_of f' = Some c \<and>
    x86p_flag_pf f' = x86p_flag_pf f \<and> x86p_flag_af f' = x86p_flag_af f \<and>
    x86p_flag_zf f' = x86p_flag_zf f \<and> x86p_flag_sf f' = x86p_flag_sf f"
  unfolding mul_flags_def by (rule set_cf_of_only_readers [OF assms])

lemma ucast_mask64: "valid_width w \<Longrightarrow> (ucast (x86p_width_mask w) :: u64) = mask (w * 8)"
  by (auto simp: x86p_width_mask_def mask_eq_exp_minus_1)

lemma low_half:
  assumes w: "valid_width w"
  shows "uint (ucast (x AND ucast (x86p_width_mask w) :: u64) :: u32) = uint x mod full w"
proof -
  have "uint (ucast (x AND ucast (x86p_width_mask w) :: u64) :: u32) = take_bit (w * 8) (uint x)"
    using w by (intro bit_eqI)
      (auto simp: bit_uint_iff ucast_mask64 bit_simps)
  then show ?thesis by (simp add: take_bit_eq_mod)
qed

lemma drop_bit_uint: "uint (drop_bit n (x :: u64)) = uint x div 2 ^ n"
proof -
  have "uint (drop_bit n x) = drop_bit n (uint x)"
    by (intro bit_eqI) (auto simp: bit_uint_iff bit_drop_bit_eq dest: bit_imp_le_length)
  then show ?thesis by (simp only: drop_bit_eq_div)
qed

lemma uint_word_of_int64: "uint (word_of_int X :: u64) = X mod 2 ^ 64"
  by (simp add: unsigned_of_int take_bit_eq_mod)

lemma mul_bound:
  assumes "valid_width w"
  shows "0 \<le> uval w a * uval w b" "uval w a * uval w b < full w * full w"
    "uval w a * uval w b < 2 ^ 64"
proof -
  show "0 \<le> uval w a * uval w b" by simp
  show "uval w a * uval w b < full w * full w"
    using uval_bounds [OF assms, of a] uval_bounds [OF assms, of b]
    by (intro mult_strict_mono') auto
  also have "full w * full w \<le> 2 ^ 64" using assms by auto
  finally show "uval w a * uval w b < 2 ^ 64" .
qed

lemma div_int_less_iff: "0 < c \<Longrightarrow> (a div c < b) = (a < b * c)" for a b c :: int
proof -
  assume c: "0 < c"
  have "(b \<le> a div c) = (b * c \<le> a)"
  proof
    assume "b \<le> a div c"
    then have "b * c \<le> a div c * c" using c by (simp add: mult_right_mono)
    also have "\<dots> \<le> a" using c by (metis div_mult_mod_eq le_add_same_cancel1 pos_mod_sign)
    finally show "b * c \<le> a" .
  next
    assume "b * c \<le> a"
    then have "b * c div c \<le> a div c" using c by (rule zdiv_mono1)
    then show "b \<le> a div c" using c by simp
  qed
  then show "(a div c < b) = (a < b * c)" by (simp add: not_le [symmetric])
qed

lemma alu_mul_step:
  assumes w: "valid_width w" and f: "flags_ok f"
  shows "\<exists>lo hi f'. x86p_alu_mul a b w f = Some (lo, hi, f') \<and> flags_ok f' \<and>
    uint hi * full w + uint lo = uval w a * uval w b \<and> uint lo < full w \<and>
    x86p_flag_cf f' = (full w \<le> uval w a * uval w b) \<and> x86p_flag_of f' = Some (full w \<le> uval w a * uval w b)"
proof -
  let ?p = "(ucast (a AND x86p_width_mask w) :: u64) * ucast (b AND x86p_width_mask w)"
  define lo :: u32 where "lo = ucast (?p AND ucast (x86p_width_mask w))"
  define hi :: u32 where "hi = ucast (drop_bit (w * 8) ?p AND ucast (x86p_width_mask w))"
  have p: "uint ?p = uval w a * uval w b"
    using mul_bound [OF w, of a b]
    by (simp add: uint_word_ariths ucast_masked [OF w])
  have lo: "uint lo = uval w a * uval w b mod full w"
    unfolding lo_def low_half [OF w] p ..
  have q: "uval w a * uval w b div full w < full w" "0 \<le> uval w a * uval w b div full w"
    using mul_bound [OF w, of a b]
    by (simp_all add: pos_imp_zdiv_nonneg_iff div_int_less_iff)
  have hi: "uint hi = uval w a * uval w b div full w"
    unfolding hi_def low_half [OF w] drop_bit_uint p using q by (simp add: mod_pos_pos_trivial)
  have e: "uint hi * full w + uint lo = uval w a * uval w b"
    unfolding lo hi by (rule div_mult_mod_eq)
  have nz: "(hi \<noteq> 0) = (full w \<le> uval w a * uval w b)"
  proof -
    have "(hi = 0) = (uint hi = 0)" by (simp only: unsigned_eq_0_iff)
    also have "\<dots> = (uval w a * uval w b < full w)"
      unfolding hi using div_int_less_iff [of "full w" "uval w a * uval w b" 1] q(2) by auto
    finally show ?thesis by auto
  qed
  have "x86p_alu_mul a b w f = do { f' \<leftarrow> mul_flags f (hi \<noteq> 0); Some (lo, hi, f') }"
    using w unfolding x86p_alu_mul_def Let_def lo_def hi_def by simp
  then show ?thesis
    using mul_flags_readers [OF f, of "hi \<noteq> 0"] e lo nz by auto
qed

lemma sval_bounds: "valid_width w \<Longrightarrow> - half w \<le> sval w a \<and> sval w a < half w"
  using sval_fits [of w a] by (simp add: fits_signed_def)

lemma signed_product_bound:
  fixes A B M :: int
  assumes "- M \<le> A" "A < M" "- M \<le> B" "B < M"
  shows "- (M * M) \<le> A * B" "A * B \<le> M * M"
proof -
  have "\<bar>A\<bar> \<le> M" "\<bar>B\<bar> \<le> M" "0 \<le> M" using assms by auto
  then have "\<bar>A * B\<bar> \<le> M * M" by (simp add: abs_mult mult_mono)
  then show "- (M * M) \<le> A * B" "A * B \<le> M * M" by auto
qed

lemma signed_div_range:
  fixes X M :: int
  assumes "0 < M" "- (M * M) \<le> X" "X \<le> M * M"
  shows "- M \<le> X div (2 * M)" "X div (2 * M) < M"
proof -
  have "- M * (2 * M) \<le> X"
    using assms zero_less_mult_iff [of M M] by (simp add: algebra_simps)
  then have "(- M * (2 * M)) div (2 * M) \<le> X div (2 * M)" using assms by (intro zdiv_mono1) auto
  moreover have "(- M * (2 * M)) div (2 * M) = - M"
    using assms by (intro nonzero_mult_div_cancel_right) auto
  ultimately show "- M \<le> X div (2 * M)" by simp
  have "0 < M * M" using assms(1) by simp
  then have "X < M * (2 * M)" using assms(3) by (simp add: algebra_simps)
  then show "X div (2 * M) < M" using assms by (simp add: div_int_less_iff)
qed

lemma sval_of_value:
  assumes w: "valid_width w" and u: "uval w r = X mod full w" and x: "fits_signed w X"
  shows "sval w r = X"
proof -
  have m: "full w = 2 * half w" "0 < half w"
    using full_half [OF w] half_ge [OF w] by linarith+
  have x: "- half w \<le> X" "X < half w" using x by (simp_all add: fits_signed_def)
  show ?thesis
  proof (cases "0 \<le> X")
    case True
    then have "X mod full w = X" unfolding m(1) using x by (intro mod_pos_pos_trivial) auto
    then show ?thesis using u x by (simp add: sval_def)
  next
    case False
    have "X mod full w = (X + full w) mod full w" by simp
    also have "\<dots> = X + full w" unfolding m(1) using False x by (intro mod_pos_pos_trivial) auto
    finally show ?thesis using u x unfolding sval_def m(1) by simp
  qed
qed

lemma alu_imul_step:
  assumes w: "valid_width w" and f: "flags_ok f"
  shows "\<exists>lo hi f'. x86p_alu_imul a b w f = Some (lo, hi, f') \<and> flags_ok f' \<and>
    sval w hi * full w + uint lo = sval w a * sval w b \<and> uint lo < full w \<and> uint hi < full w \<and>
    x86p_flag_cf f' = (\<not> fits_signed w (sval w a * sval w b)) \<and>
    x86p_flag_of f' = Some (\<not> fits_signed w (sval w a * sval w b))"
proof -
  let ?X = "sval w a * sval w b"
  define lo :: u32 where "lo = ucast ((word_of_int ?X :: u64) AND ucast (x86p_width_mask w))"
  define hi :: u32 where "hi = ucast (drop_bit (w * 8) (word_of_int ?X :: u64) AND ucast (x86p_width_mask w))"
  have m: "full w = 2 * half w" "0 < half w"
    using full_half [OF w] half_ge [OF w] by linarith+
  have d: "full w dvd 2 ^ 64" using w by (auto intro: le_imp_power_dvd)
  have lo: "uint lo = ?X mod full w"
    unfolding lo_def low_half [OF w] uint_word_of_int64 by (rule mod_mod_cancel [OF d])
  have hi: "uint hi = (?X div full w) mod full w"
  proof -
    have "uint hi = take_bit (w * 8) (drop_bit (w * 8) (take_bit 64 ?X))"
      unfolding hi_def low_half [OF w] drop_bit_uint uint_word_of_int64
      by (simp add: take_bit_eq_mod drop_bit_eq_div)
    also have "\<dots> = take_bit (w * 8) (drop_bit (w * 8) ?X)"
      using w by (intro bit_eqI) (auto simp: bit_simps)
    finally show ?thesis by (simp add: take_bit_eq_mod drop_bit_eq_div)
  qed
  have X: "- (half w * half w) \<le> ?X" "?X \<le> half w * half w"
    using signed_product_bound sval_bounds [OF w] by blast+
  have "fits_signed w (?X div full w)"
    unfolding fits_signed_def m(1) using signed_div_range [OF m(2) X] by simp
  moreover have um: "uval w hi = uint hi" "uval w lo = uint lo"
    unfolding uval_mod [OF w] lo hi by simp_all
  ultimately have sh: "sval w hi = ?X div full w"
    using hi by (intro sval_of_value [OF w]) auto
  have e: "sval w hi * full w + uint lo = ?X" unfolding sh lo by (rule div_mult_mod_eq)
  have ov: "(signed_operand lo w \<noteq> ?X) = (\<not> fits_signed w ?X)"
  proof
    assume "signed_operand lo w \<noteq> ?X"
    then show "\<not> fits_signed w ?X"
      using sval_of_value [OF w _, of lo ?X] um lo by (auto simp: signed_operand_sval [OF w])
  next
    assume "\<not> fits_signed w ?X"
    then show "signed_operand lo w \<noteq> ?X"
      using sval_fits [OF w, of lo] by (auto simp: signed_operand_sval [OF w])
  qed
  have "x86p_alu_imul a b w f = do { f' \<leftarrow> mul_flags f (signed_operand lo w \<noteq> ?X); Some (lo, hi, f') }"
    using w unfolding x86p_alu_imul_def Let_def lo_def hi_def
    by (simp add: signed_operand_sval [OF w])
  then show ?thesis
    unfolding ov using mul_flags_readers [OF f, of "\<not> fits_signed w ?X"] e lo hi by auto
qed

section \<open>Division\<close>

text \<open>The double-width dividend of \<open>hi:lo\<close>, unsigned and signed.\<close>

definition dividend :: "nat \<Rightarrow> u32 \<Rightarrow> u32 \<Rightarrow> int" where
  "dividend w hi lo = uval w hi * full w + uval w lo"

definition signed_dividend :: "nat \<Rightarrow> u32 \<Rightarrow> u32 \<Rightarrow> int" where
  "signed_dividend w hi lo = sval w hi * full w + uval w lo"

lemma dividend_word:
  assumes w: "valid_width w"
  shows "uint (push_bit (w * 8) (ucast (hi AND x86p_width_mask w) :: u64) OR ucast (lo AND x86p_width_mask w))
    = dividend w hi lo"
proof -
  have z: "push_bit (w * 8) (uval w hi) AND uval w lo = 0"
    by (intro bit_eqI) (auto simp: bit_simps bit_uval [OF w])
  have "uint (push_bit (w * 8) (ucast (hi AND x86p_width_mask w) :: u64) OR ucast (lo AND x86p_width_mask w))
    = push_bit (w * 8) (uval w hi) OR uval w lo"
    using w by (intro bit_eqI) (auto simp: bit_uint_iff bit_simps bit_uval and_width_mask)
  also have "\<dots> = push_bit (w * 8) (uval w hi) + uval w lo"
    by (rule disjunctive_add_eq_or [OF z, symmetric])
  finally show ?thesis by (simp add: dividend_def push_bit_eq_mult)
qed

lemma dividend_bounds:
  assumes w: "valid_width w"
  shows "0 \<le> dividend w hi lo" "dividend w hi lo < 2 ^ (w * 8 * 2)"
proof -
  show "0 \<le> dividend w hi lo" by (simp add: dividend_def)
  have "dividend w hi lo < uval w hi * full w + full w"
    using uval_bounds [OF w, of lo] by (simp add: dividend_def)
  also have "\<dots> = (uval w hi + 1) * full w" by (simp add: algebra_simps)
  also have "\<dots> \<le> full w * full w"
    using uval_bounds [OF w, of hi] by (intro mult_right_mono) auto
  also have "full w * full w = 2 ^ (w * 8 * 2)" by (simp add: power_add [symmetric] mult_2_right)
  finally show "dividend w hi lo < 2 ^ (w * 8 * 2)" .
qed

lemma ucast_mask_less:
  assumes w: "valid_width w"
  shows "((ucast (x86p_width_mask w) :: u64) < q) = (full w \<le> uint q)"
proof -
  have "uint (ucast (x86p_width_mask w) :: u64) = full w - 1"
    using w by (auto simp: x86p_width_mask_def)
  then show ?thesis by (auto simp: word_less_def)
qed

lemma alu_div_step:
  assumes w: "valid_width w"
  shows "uval w d \<noteq> 0 \<Longrightarrow> dividend w hi lo div uval w d < full w \<Longrightarrow>
      \<exists>q r. x86p_alu_div hi lo d w = Some (Some (q, r)) \<and>
        uint q = dividend w hi lo div uval w d \<and> uint r = dividend w hi lo mod uval w d"
    and "\<not> (uval w d \<noteq> 0 \<and> dividend w hi lo div uval w d < full w) \<Longrightarrow> x86p_alu_div hi lo d w = Some None"
proof -
  let ?m = "x86p_width_mask w"
  define N :: u64 where "N = push_bit (w * 8) (ucast (hi AND ?m)) OR ucast (lo AND ?m)"
  define D :: u64 where "D = ucast (d AND ?m)"
  have N: "uint N = dividend w hi lo" unfolding N_def by (rule dividend_word [OF w])
  have D: "uint D = uval w d" unfolding D_def by (rule ucast_masked [OF w])
  have qr: "uint (N div D) = dividend w hi lo div uval w d" "uint (N mod D) = dividend w hi lo mod uval w d"
    by (simp_all add: uint_div uint_mod N D)
  have c: "uint (ucast x :: u32) = uint x mod 2 ^ 32" for x :: u64
    by (simp add: unsigned_ucast_eq take_bit_eq_mod)
  have f: "full w \<le> 2 ^ 32" using w by auto
  have e: "x86p_alu_div hi lo d w =
      Some (if uval w d \<noteq> 0 \<and> dividend w hi lo div uval w d < full w
            then Some (ucast (N div D), ucast (N mod D)) else None)"
    using w unfolding x86p_alu_div_def Let_def N_def [symmetric] D_def [symmetric]
    by (auto simp: uval_eq_0_iff [symmetric] ucast_mask_less [OF w] qr)
  show "x86p_alu_div hi lo d w = Some None"
    if "\<not> (uval w d \<noteq> 0 \<and> dividend w hi lo div uval w d < full w)"
    unfolding e using that by simp
  assume d: "uval w d \<noteq> 0" and q: "dividend w hi lo div uval w d < full w"
  have d0: "0 < uval w d" using d uval_ge0 [of w d] by linarith
  have "uint (ucast (N div D) :: u32) = dividend w hi lo div uval w d"
    unfolding c qr using d0 q f dividend_bounds(1) [OF w, of hi lo]
    by (intro mod_pos_pos_trivial) (auto simp: pos_imp_zdiv_nonneg_iff)
  moreover have "uint (ucast (N mod D) :: u32) = dividend w hi lo mod uval w d"
  proof -
    have "dividend w hi lo mod uval w d < 2 ^ 32"
      using f uval_bounds [OF w, of d] pos_mod_bound [OF d0, of "dividend w hi lo"] by linarith
    then show ?thesis unfolding c qr using d0 by (intro mod_pos_pos_trivial) auto
  qed
  ultimately show "\<exists>q r. x86p_alu_div hi lo d w = Some (Some (q, r)) \<and>
        uint q = dividend w hi lo div uval w d \<and> uint r = dividend w hi lo mod uval w d"
    unfolding e using d q by simp
qed

lemma sint64: "sint (N :: u64) = (if 2 ^ 63 \<le> uint N then uint N - 2 ^ 64 else uint N)"
proof -
  have "bit (uint N) 63 = (2 ^ 63 \<le> uint N)"
    unfolding bit_iff_odd by (rule odd_div_range(1)) (simp_all add: order_less_le_trans [OF uint_bounded])
  moreover have "take_bit 64 (uint N) = uint N"
    using uint_bounded [of N] by (intro take_bit_int_eq_self) simp_all
  ultimately show ?thesis
    by (simp add: sint_uint signed_take_bit_eq_take_bit_minus)
qed

lemma high_half_le:
  fixes H L F M :: int
  assumes "0 \<le> L" "L < F"
  shows "(M * F \<le> H * F + L) = (M \<le> H)"
proof
  assume "M \<le> H"
  then have "M * F \<le> H * F" using assms by (intro mult_right_mono) auto
  then show "M * F \<le> H * F + L" using assms by linarith
next
  assume le: "M * F \<le> H * F + L"
  show "M \<le> H"
  proof (rule ccontr)
    assume "\<not> M \<le> H"
    then have "(H + 1) * F \<le> M * F" using assms by (intro mult_right_mono) auto
    then show False using le assms by (simp add: algebra_simps)
  qed
qed

lemma idiv_dividend_value:
  assumes w: "valid_width w"
  shows "idiv_dividend hi lo w = signed_dividend w hi lo"
proof -
  define N :: u64 where "N = push_bit (w * 8) (ucast (hi AND x86p_width_mask w)) OR ucast (lo AND x86p_width_mask w)"
  let ?X = "dividend w hi lo"
  have N: "uint N = ?X" unfolding N_def by (rule dividend_word [OF w])
  note B = dividend_bounds [OF w, of hi lo] uval_bounds [OF w, of hi] uval_bounds [OF w, of lo]
  have h: "(2 ^ (w * 8 * 2 - 1) \<le> ?X) = (half w \<le> uval w hi)"
  proof -
    have "2 ^ (w * 8 * 2 - 1) = half w * full w" using w by auto
    then show ?thesis
      unfolding dividend_def using high_half_le [of "uval w lo" "full w" "half w" "uval w hi"]
        uval_bounds [OF w, of lo] by simp
  qed
  have d: "?X - 2 ^ (w * 8 * 2) = (uval w hi - full w) * full w + uval w lo"
    by (simp add: dividend_def algebra_simps power_add [symmetric] mult_2_right)
  have b: "bit ?X (w * 8 * 2 - 1) = (2 ^ (w * 8 * 2 - 1) \<le> ?X)"
    unfolding bit_iff_odd using B(1,2) w by (intro odd_div_range(1)) auto
  have "idiv_dividend hi lo w = (if 2 ^ (w * 8 * 2 - 1) \<le> ?X then ?X - 2 ^ (w * 8 * 2) else ?X)"
  proof (cases "w = 4")
    case True
    have "idiv_dividend hi lo w = sint N"
      unfolding idiv_dividend_def Let_def N_def [symmetric] using True by simp
    then show ?thesis unfolding sint64 N using True by simp
  next
    case False
    then have "sint N = ?X" unfolding sint64 N using B w by auto
    then show ?thesis using False w b
      unfolding idiv_dividend_def Let_def N_def [symmetric] by auto
  qed
  then show ?thesis
    unfolding h d by (simp add: signed_dividend_def sval_def dividend_def)
qed

lemma alu_idiv_step:
  assumes w: "valid_width w" and N_def: "N = signed_dividend w hi lo" and D_def: "D = sval w d"
  shows "D \<noteq> 0 \<Longrightarrow> fits_signed w (N sdiv D) \<Longrightarrow>
      \<exists>q r. x86p_alu_idiv hi lo d w = Some (Some (q, r)) \<and> sval w q = N sdiv D \<and> sval w r = N smod D \<and>
        uint q < full w \<and> uint r < full w"
    and "\<not> (D \<noteq> 0 \<and> fits_signed w (N sdiv D)) \<Longrightarrow> x86p_alu_idiv hi lo d w = Some None"
proof -
  have d: "full w dvd 2 ^ 64" using w by (auto intro: le_imp_power_dvd)
  define q :: u32 where "q = ucast ((word_of_int (N sdiv D) :: u64) AND ucast (x86p_width_mask w))"
  define r :: u32 where "r = ucast ((word_of_int (N smod D) :: u64) AND ucast (x86p_width_mask w))"
  have u: "uint q = (N sdiv D) mod full w" "uint r = (N smod D) mod full w"
    unfolding q_def r_def low_half [OF w] uint_word_of_int64 by (rule mod_mod_cancel [OF d])+
  have uv: "uval w q = (N sdiv D) mod full w" "uval w r = (N smod D) mod full w"
    unfolding uval_mod [OF w] u by simp_all
  have big: "\<not> fits_signed w (- (2 ^ 63) sdiv (-1 :: int))" using w by (auto simp: fits_signed_def)
  have e: "x86p_alu_idiv hi lo d w = Some (if D \<noteq> 0 \<and> fits_signed w (N sdiv D) then Some (q, r) else None)"
    using w big unfolding x86p_alu_idiv_def Let_def signed_operand_sval [OF w] idiv_dividend_value [OF w]
      N_def [symmetric] D_def [symmetric] q_def [symmetric] r_def [symmetric] fits_signed_def
    by (simp only: require_width_valid bind.bind_lunit) (auto simp: not_le)
  show "x86p_alu_idiv hi lo d w = Some None" if "\<not> (D \<noteq> 0 \<and> fits_signed w (N sdiv D))"
    unfolding e using that by simp
  assume D0: "D \<noteq> 0" and f: "fits_signed w (N sdiv D)"
  have "fits_signed w (N smod D)"
    using smod_int_range [OF D0, of N] sval_bounds [OF w, of d] unfolding fits_signed_def D_def by auto
  then have "sval w q = N sdiv D" "sval w r = N smod D"
    using sval_of_value [OF w] uv f by blast+
  then show "\<exists>q r. x86p_alu_idiv hi lo d w = Some (Some (q, r)) \<and> sval w q = N sdiv D \<and> sval w r = N smod D \<and>
        uint q < full w \<and> uint r < full w"
    unfolding e using D0 f u by auto
qed

end
