(* ===== verification/X86_Alu_Properties.thy ===== *)
theory X86_Alu_Properties
  imports X86_Alu_Mul
begin

text \<open>
  The properties of the integer ALU and the lazy flags (\<open>alu.c\<close>, \<open>flags.c\<close>, \<open>cond.c\<close>),
  each over every operand width and every operand, with concrete witnesses.
\<close>

section \<open>Two-operand arithmetic and logic\<close>

definition binary_outcome :: "alu_op \<Rightarrow> u32 \<Rightarrow> u32 \<Rightarrow> nat \<Rightarrow> bool \<Rightarrow> u32 \<Rightarrow> flags \<Rightarrow> bool" where
  "binary_outcome op a b w cin r f =
     (let A = uval w a; B = uval w b; SA = sval w a; SB = sval w b; C = of_bool cin in
      case op of
        kX86pAluAdd \<Rightarrow> arith_outcome w (A + B) (SA + SB) (16 \<le> A mod 16 + B mod 16) r f
      | kX86pAluAdc \<Rightarrow> arith_outcome w (A + B + C) (SA + SB + C) (16 \<le> A mod 16 + B mod 16 + C) r f
      | kX86pAluSub \<Rightarrow> arith_outcome w (A - B) (SA - SB) (A mod 16 < B mod 16) r f
      | kX86pAluCmp \<Rightarrow> arith_outcome w (A - B) (SA - SB) (A mod 16 < B mod 16) r f
      | kX86pAluSbb \<Rightarrow> arith_outcome w (A - B - C) (SA - SB - C) (A mod 16 < B mod 16 + C) r f
      | kX86pAluOr \<Rightarrow> logic_outcome w (a OR b) r f
      | kX86pAluAnd \<Rightarrow> logic_outcome w (a AND b) r f
      | kX86pAluTest \<Rightarrow> logic_outcome w (a AND b) r f
      | kX86pAluXor \<Rightarrow> logic_outcome w (a XOR b) r f
      | _ \<Rightarrow> True)"

lemma logic_masked:
  "(a AND m OR b AND m) AND m = (a OR b) AND (m :: u32)"
  "((a AND m) AND (b AND m)) AND m = (a AND b) AND (m :: u32)"
  "(a AND m XOR b AND m) AND m = (a XOR b) AND (m :: u32)"
  by (rule bit_word_eqI, auto simp: bit_simps)+

lemma logic_outcome_masked:
  "v AND x86p_width_mask w = v' AND x86p_width_mask w \<Longrightarrow> logic_outcome w v r f = logic_outcome w v' r f"
  by (simp add: logic_outcome_def)

lemma alu_logic_ops:
  assumes w: "valid_width w"
  shows "\<exists>r f'. x86p_alu kX86pAluOr a b w f = Some (r, f') \<and> logic_outcome w (a OR b) r f'"
    and "\<exists>r f'. x86p_alu kX86pAluAnd a b w f = Some (r, f') \<and> logic_outcome w (a AND b) r f'"
    and "\<exists>r f'. x86p_alu kX86pAluTest a b w f = Some (r, f') \<and> logic_outcome w (a AND b) r f'"
    and "\<exists>r f'. x86p_alu kX86pAluXor a b w f = Some (r, f') \<and> logic_outcome w (a XOR b) r f'"
proof -
  let ?m = "x86p_width_mask w"
  have red: "x86p_alu kX86pAluOr a b w f = alu_logic (a AND ?m OR b AND ?m) (a AND ?m) (b AND ?m) w f"
    "x86p_alu kX86pAluAnd a b w f = alu_logic ((a AND ?m) AND (b AND ?m)) (a AND ?m) (b AND ?m) w f"
    "x86p_alu kX86pAluTest a b w f = alu_logic ((a AND ?m) AND (b AND ?m)) (a AND ?m) (b AND ?m) w f"
    "x86p_alu kX86pAluXor a b w f = alu_logic (a AND ?m XOR b AND ?m) (a AND ?m) (b AND ?m) w f"
    using w unfolding x86p_alu_def Let_def by simp_all
  have o: "\<exists>r f'. alu_logic v x y w f = Some (r, f') \<and> logic_outcome w v' r f'"
    if "v AND ?m = v' AND ?m" for v v' x y
    using alu_logic_outcome [OF w, of v x y f] logic_outcome_masked [OF that] by blast
  show "\<exists>r f'. x86p_alu kX86pAluOr a b w f = Some (r, f') \<and> logic_outcome w (a OR b) r f'"
    unfolding red by (rule o [OF logic_masked(1)])
  show "\<exists>r f'. x86p_alu kX86pAluAnd a b w f = Some (r, f') \<and> logic_outcome w (a AND b) r f'"
    unfolding red by (rule o [OF logic_masked(2)])
  show "\<exists>r f'. x86p_alu kX86pAluTest a b w f = Some (r, f') \<and> logic_outcome w (a AND b) r f'"
    unfolding red by (rule o [OF logic_masked(2)])
  show "\<exists>r f'. x86p_alu kX86pAluXor a b w f = Some (r, f') \<and> logic_outcome w (a XOR b) r f'"
    unfolding red by (rule o [OF logic_masked(3)])
qed

text \<open>
  C34. At every operand width, ADD, ADC, SUB, CMP and SBB return the exact sum or difference
  reduced to the width; CF says that the unsigned value did not fit, OF that the signed value
  did not fit, AF that the low nibbles carried, and ZF, SF and PF describe the result.  OR,
  AND, TEST and XOR return the masked bitwise value with CF, OF and AF clear.
\<close>

theorem alu_binary_correct:
  assumes "valid_width w"
    and "op \<in> {kX86pAluAdd, kX86pAluAdc, kX86pAluSub, kX86pAluCmp, kX86pAluSbb,
               kX86pAluOr, kX86pAluAnd, kX86pAluTest, kX86pAluXor}"
  shows "\<exists>r f'. x86p_alu op a b w f = Some (r, f') \<and> binary_outcome op a b w (x86p_flag_cf f) r f'"
  using assms(2)
  by (elim insertE emptyE; simp only: binary_outcome_def Let_def alu_op.simps)
    (rule alu_add_outcome [OF assms(1)] alu_adc_outcome [OF assms(1)]
      alu_sub_outcome [OF assms(1) disjI1 [OF refl]] alu_sub_outcome [OF assms(1) disjI2 [OF refl]]
      alu_sbb_outcome [OF assms(1)] alu_logic_ops [OF assms(1)])+

theorem alu_binary_correct_witness:
  "\<exists>r f'. x86p_alu kX86pAluAdd 0x1FF 1 1 flags_zero = Some (r, f') \<and>
     binary_outcome kX86pAluAdd 0x1FF 1 1 False r f'"
  using alu_binary_correct [of 1 kX86pAluAdd "0x1FF" 1 flags_zero]
  by (simp add: x86p_flag_cf_def flags_zero_def)

section \<open>Comparisons\<close>

text \<open>
  After CMP the condition codes decide the order of the operands: B, NB, BE and A the
  unsigned order, L, GE, LE and G the signed order, Z and NZ equality, at every width.
\<close>

theorem cmp_decides_order:
  assumes "valid_width w" and "x86p_alu kX86pAluCmp a b w f = Some (r, f')"
  shows "x86p_cond kX86pCondB f' = Some (uval w a < uval w b) \<and>
    x86p_cond kX86pCondNB f' = Some (uval w b \<le> uval w a) \<and>
    x86p_cond kX86pCondBE f' = Some (uval w a \<le> uval w b) \<and>
    x86p_cond kX86pCondA f' = Some (uval w b < uval w a) \<and>
    x86p_cond kX86pCondZ f' = Some (uval w a = uval w b) \<and>
    x86p_cond kX86pCondNZ f' = Some (uval w a \<noteq> uval w b) \<and>
    x86p_cond kX86pCondL f' = Some (sval w a < sval w b) \<and>
    x86p_cond kX86pCondGE f' = Some (sval w b \<le> sval w a) \<and>
    x86p_cond kX86pCondLE f' = Some (sval w a \<le> sval w b) \<and>
    x86p_cond kX86pCondG f' = Some (sval w b < sval w a)"
proof -
  have o: "arith_outcome w (uval w a - uval w b) (sval w a - sval w b) (uval w a mod 16 < uval w b mod 16) r f'"
    using alu_sub_outcome [OF assms(1), of kX86pAluCmp a b f] assms(2) by auto
  obtain ov where ov: "x86p_flag_of f' = Some ov" using arith_outcome_of [OF o] by blast
  note s = sub_order(1,2) [OF assms(1) o] sub_order(3) [OF assms(1) o ov]
  show ?thesis
    unfolding cond_of_readers [OF ov] using s sval_eq_iff [OF assms(1), of a b] by auto
qed

theorem cmp_decides_order_witness:
  "\<exists>r f'. x86p_alu kX86pAluCmp 0x80 0x7F 1 flags_zero = Some (r, f') \<and>
     x86p_cond kX86pCondL f' = Some True \<and> x86p_cond kX86pCondB f' = Some False"
proof -
  obtain r f' where e: "x86p_alu kX86pAluCmp 0x80 0x7F 1 flags_zero = Some (r, f')"
    using alu_sub_outcome [of 1 kX86pAluCmp] by blast
  have "uval 1 0x80 = 128" "uval 1 0x7F = 127" by (simp_all add: uval_def x86p_width_mask_def)
  then show ?thesis using cmp_decides_order [OF _ e] e by (simp add: sval_def)
qed

section \<open>Multi-word arithmetic\<close>

lemma chain_digit:
  fixes L H F :: int
  shows "(H + L div F) mod F * F + L mod F + F * F * ((H + L div F) div F) = H * F + L"
proof -
  have "(H + L div F) mod F * F + F * F * ((H + L div F) div F)
      = ((H + L div F) div F * F + (H + L div F) mod F) * F"
    by (simp only: algebra_simps)
  also have "\<dots> = (H + L div F) * F" by (simp only: div_mult_mod_eq)
  also have "\<dots> = H * F + L div F * F" by (simp only: algebra_simps)
  finally show ?thesis using div_mult_mod_eq [of L F] by linarith
qed

lemma carry_as_div:
  fixes X F :: int
  assumes "0 < F"
  shows "0 \<le> X \<Longrightarrow> X < 2 * F \<Longrightarrow> X div F = of_bool (X < 0 \<or> F \<le> X)"
    and "- F \<le> X \<Longrightarrow> X < F \<Longrightarrow> X div F = - of_bool (X < 0 \<or> F \<le> X)"
proof -
  show "X div F = of_bool (X < 0 \<or> F \<le> X)" if "0 \<le> X" "X < 2 * F"
    by (cases "F \<le> X") (use that assms in \<open>auto intro: int_div_pos_eq [of _ _ 1 "X - F"] simp: div_pos_pos_trivial\<close>)
  show "X div F = - of_bool (X < 0 \<or> F \<le> X)" if "- F \<le> X" "X < F"
    by (cases "X < 0") (use that assms in \<open>auto intro: int_div_pos_eq [of _ _ "- 1" "X + F"] simp: div_pos_pos_trivial\<close>)
qed

lemma dividend_of_digits:
  assumes w: "valid_width w" and "uint h = H mod full w" "uint l = L mod full w"
  shows "dividend w h l = H mod full w * full w + L mod full w"
  unfolding dividend_def uval_mod [OF w] assms(2,3) by simp

text \<open>
  An ADD of the low halves followed by an ADC of the high halves is the addition of the
  double-width numbers, with the final CF as the carry out; a SUB followed by an SBB is their
  subtraction, with the final CF as the borrow.
\<close>

theorem carry_chain:
  assumes "valid_width w"
    and "x86p_alu kX86pAluAdd a0 b0 w f = Some (r0, f0)" "x86p_alu kX86pAluAdc a1 b1 w f0 = Some (r1, f1)"
    and "x86p_alu kX86pAluSub a0 b0 w g = Some (s0, g0)" "x86p_alu kX86pAluSbb a1 b1 w g0 = Some (s1, g1)"
  shows "dividend w r1 r0 + full w * full w * of_bool (x86p_flag_cf f1) = dividend w a1 a0 + dividend w b1 b0 \<and>
    dividend w s1 s0 - full w * full w * of_bool (x86p_flag_cf g1) = dividend w a1 a0 - dividend w b1 b0"
proof
  note w = assms(1)
  have F: "(0 :: int) < full w" by simp
  note B = uval_bounds [OF w, of a0] uval_bounds [OF w, of b0] uval_bounds [OF w, of a1] uval_bounds [OF w, of b1]
  obtain n where o0: "arith_outcome w (uval w a0 + uval w b0) (sval w a0 + sval w b0) n r0 f0"
    using alu_add_outcome [OF w, of a0 b0 f] assms(2) by auto
  obtain n where o1: "arith_outcome w (uval w a1 + uval w b1 + of_bool (x86p_flag_cf f0))
      (sval w a1 + sval w b1 + of_bool (x86p_flag_cf f0)) n r1 f1"
    using alu_adc_outcome [OF w, of a1 b1 f0] assms(3) by auto
  have c0: "of_bool (x86p_flag_cf f0) = (uval w a0 + uval w b0) div full w"
    unfolding arith_outcome_cf [OF o0] by (rule carry_as_div(1) [OF F, symmetric]) (use B in linarith)+
  have c1: "of_bool (x86p_flag_cf f1) = (uval w a1 + uval w b1 + (uval w a0 + uval w b0) div full w) div full w"
    unfolding arith_outcome_cf [OF o1] c0 [symmetric]
    by (rule carry_as_div(1) [OF F, symmetric]) (use B zero_le_of_bool [of "x86p_flag_cf f0"] of_bool_le_1 [of "x86p_flag_cf f0"] in linarith)+
  show "dividend w r1 r0 + full w * full w * of_bool (x86p_flag_cf f1) = dividend w a1 a0 + dividend w b1 b0"
    unfolding dividend_of_digits [OF w arith_outcome_value [OF o1] arith_outcome_value [OF o0]] c0 c1 chain_digit
    by (simp add: dividend_def algebra_simps)
  obtain n where p0: "arith_outcome w (uval w a0 - uval w b0) (sval w a0 - sval w b0) n s0 g0"
    using alu_sub_outcome [OF w disjI1 [OF refl], of a0 b0 g] assms(4) by auto
  obtain n where p1: "arith_outcome w (uval w a1 - uval w b1 - of_bool (x86p_flag_cf g0))
      (sval w a1 - sval w b1 - of_bool (x86p_flag_cf g0)) n s1 g1"
    using alu_sbb_outcome [OF w, of a1 b1 g0] assms(5) by auto
  have d0: "of_bool (x86p_flag_cf g0) = - ((uval w a0 - uval w b0) div full w)"
    unfolding arith_outcome_cf [OF p0] using carry_as_div(2) [OF F, of "uval w a0 - uval w b0"] B by linarith
  have d1: "of_bool (x86p_flag_cf g1) = - ((uval w a1 - uval w b1 + (uval w a0 - uval w b0) div full w) div full w)"
  proof -
    let ?X = "uval w a1 - uval w b1 - of_bool (x86p_flag_cf g0)"
    have "- full w \<le> ?X" "?X < full w"
      using B zero_le_of_bool [of "x86p_flag_cf g0"] of_bool_le_1 [of "x86p_flag_cf g0"] by linarith+
    then have "of_bool (x86p_flag_cf g1) = - (?X div full w)"
      unfolding arith_outcome_cf [OF p1] using carry_as_div(2) [OF F, of ?X] by linarith
    then show ?thesis unfolding d0 by simp
  qed
  show "dividend w s1 s0 - full w * full w * of_bool (x86p_flag_cf g1) = dividend w a1 a0 - dividend w b1 b0"
    unfolding dividend_of_digits [OF w arith_outcome_value [OF p1] arith_outcome_value [OF p0]] d0 d1
    using chain_digit [of "uval w a1 - uval w b1" "uval w a0 - uval w b0" "full w"]
    by (simp add: dividend_def algebra_simps)
qed

theorem carry_chain_witness:
  "\<exists>r0 f0 r1 f1. x86p_alu kX86pAluAdd 0xFFFFFFFF 1 4 flags_zero = Some (r0, f0) \<and>
     x86p_alu kX86pAluAdc 0 0 4 f0 = Some (r1, f1) \<and>
     dividend 4 r1 r0 + full 4 * full 4 * of_bool (x86p_flag_cf f1) = 2 ^ 32"
proof -
  obtain r0 f0 where 1: "x86p_alu kX86pAluAdd 0xFFFFFFFF 1 4 flags_zero = Some (r0, f0)"
    using alu_add_outcome [of 4] by blast
  obtain r1 f1 where 2: "x86p_alu kX86pAluAdc 0 0 4 f0 = Some (r1, f1)"
    using alu_adc_outcome [of 4] by blast
  obtain s0 g0 where 3: "x86p_alu kX86pAluSub 0xFFFFFFFF 1 4 flags_zero = Some (s0, g0)"
    using alu_sub_outcome [of 4 kX86pAluSub] by blast
  obtain s1 g1 where 4: "x86p_alu kX86pAluSbb 0 0 4 g0 = Some (s1, g1)"
    using alu_sbb_outcome [of 4] by blast
  have "dividend 4 0 0xFFFFFFFF + dividend 4 0 1 = 2 ^ 32"
    by (simp add: dividend_def uval_def x86p_width_mask_def)
  then show ?thesis using carry_chain [OF _ 1 2 3 4] 1 2 by auto
qed

section \<open>One-operand arithmetic\<close>

text \<open>
  NEG is subtraction from zero with all its flags; INC and DEC add and subtract one and
  keep the carry they found, with OF from the signed value; NOT complements and leaves the
  flag state untouched.
\<close>

theorem alu_unary_correct:
  assumes "valid_width w"
  shows "(\<exists>r f'. x86p_alu_unary kX86pAluNeg a w f = Some (r, f') \<and>
      arith_outcome w (- uval w a) (- sval w a) (uval w a mod 16 \<noteq> 0) r f') \<and>
    (\<exists>r f'. x86p_alu_unary kX86pAluInc a w f = Some (r, f') \<and>
      uint r = (uval w a + 1) mod full w \<and> x86p_flag_cf f' = x86p_flag_cf f \<and>
      x86p_flag_of f' = Some (\<not> fits_signed w (sval w a + 1)) \<and>
      x86p_flag_zf f' = (r = 0) \<and> x86p_flag_sf f' = (sval w r < 0)) \<and>
    (\<exists>r f'. x86p_alu_unary kX86pAluDec a w f = Some (r, f') \<and>
      uint r = (uval w a - 1) mod full w \<and> x86p_flag_cf f' = x86p_flag_cf f \<and>
      x86p_flag_of f' = Some (\<not> fits_signed w (sval w a - 1)) \<and>
      x86p_flag_zf f' = (r = 0) \<and> x86p_flag_sf f' = (sval w r < 0)) \<and>
    x86p_alu_unary kX86pAluNot a w f = Some (NOT a AND x86p_width_mask w, f)"
  using unary_neg_outcome [OF assms] unary_inc_outcome [OF assms] unary_dec_outcome [OF assms]
    unary_not_outcome [OF assms] by blast

theorem alu_unary_correct_witness:
  "\<exists>r f'. x86p_alu_unary kX86pAluInc 0x7F 1 flags_zero = Some (r, f') \<and> uint r = 128 \<and>
     x86p_flag_of f' = Some True"
proof -
  have v: "uval (Suc 0) 0x7F = 127" by (simp add: uval_def x86p_width_mask_def)
  show ?thesis
    using alu_unary_correct [of 1 "0x7F" flags_zero] by (auto simp: v sval_def fits_signed_def)
qed

section \<open>Shifts\<close>

text \<open>
  SHL multiplies the unsigned value by a power of two, SHR divides it, and SAR divides the
  signed value rounding towards minus infinity; CF is the last bit shifted out, even for
  counts beyond the operand width, and OF is the documented one.  The count is taken modulo
  32, and a count of zero changes no flag.
\<close>

theorem alu_shift_correct:
  assumes "valid_width w" and "x86p_alu_is_shift op"
  shows "if shift_count b = 0 then x86p_alu op a b w f = Some (a AND x86p_width_mask w, f)
    else \<exists>r f'. x86p_alu op a b w f = Some (r, f') \<and> shift_outcome op w a (shift_count b) r f'"
  using shift_zero_count [OF assms] alu_shift_outcome [OF assms] by simp

theorem alu_shift_correct_witness:
  "\<exists>r f'. x86p_alu kX86pAluSar 0xFD 0x21 1 flags_zero = Some (r, f') \<and> uint r = 254 \<and> x86p_flag_cf f'"
proof -
  have v: "sval (Suc 0) 0xFD = -3" "shift_count 0x21 = 1"
    by (simp_all add: sval_def uval_def x86p_width_mask_def shift_count_def)
  show ?thesis
    using alu_shift_correct [of 1 kX86pAluSar "0x21" "0xFD" flags_zero]
    by (auto simp: v x86p_alu_is_shift_def shift_outcome_def shift_spec_def)
qed

section \<open>Rotates\<close>

definition opposite_rotates :: "(alu_op \<times> alu_op) set" where
  "opposite_rotates = {(kX86pAluRol, kX86pAluRor), (kX86pAluRor, kX86pAluRol),
     (kX86pAluRcl, kX86pAluRcr), (kX86pAluRcr, kX86pAluRcl)}"

lemma rotate_result_undone:
  assumes w: "valid_width w" and a: "a AND x86p_width_mask w = a"
  shows "rotate_result kX86pAluRor w (rotate_result kX86pAluRol w a n) n = a"
    and "rotate_result kX86pAluRol w (rotate_result kX86pAluRor w a n) n = a"
    and "rotate_result op w a n AND x86p_width_mask w = rotate_result op w a n"
proof -
  have "n mod (w * 8) < w * 8" using w by auto
  then show "rotate_result kX86pAluRor w (rotate_result kX86pAluRol w a n) n = a"
    "rotate_result kX86pAluRol w (rotate_result kX86pAluRor w a n) n = a"
    using ror_rol_value [OF w a] by (simp_all add: rotate_result_def)
  show "rotate_result op w a n AND x86p_width_mask w = rotate_result op w a n"
    using rotate_masked [OF a] by (simp add: rotate_result_def)
qed

lemma rc_result_undone:
  assumes w: "valid_width w" and a: "a AND x86p_width_mask w = a"
  shows "rc_result kX86pAluRcl w a c n = (r, c') \<Longrightarrow> rc_result kX86pAluRcr w r c' n = (a, c)"
    and "rc_result kX86pAluRcr w a c n = (r, c') \<Longrightarrow> rc_result kX86pAluRcl w r c' n = (a, c)"
    and "rc_result op w a c n = (r, c') \<Longrightarrow> r AND x86p_width_mask w = r"
proof -
  have i: "rc_masked w (a, c)" using w a by (simp add: rc_masked_def)
  show "rc_result kX86pAluRcr w r c' n = (a, c)" if "rc_result kX86pAluRcl w a c n = (r, c')"
    using that rcl.undoes_funpow [OF i, of "n mod (w * 8 + 1)"] by (simp add: rc_result_def)
  show "rc_result kX86pAluRcl w r c' n = (a, c)" if "rc_result kX86pAluRcr w a c n = (r, c')"
    using that rcr.undoes_funpow [OF i, of "n mod (w * 8 + 1)"] by (simp add: rc_result_def)
  show "r AND x86p_width_mask w = r" if "rc_result op w a c n = (r, c')"
    using that rcl.keeps_funpow [OF i, of "n mod (w * 8 + 1)"] rcr.keeps_funpow [OF i, of "n mod (w * 8 + 1)"]
    by (auto simp: rc_result_def rc_masked_def split: if_splits)
qed

lemma rotate_pair:
  assumes w: "valid_width w" and f: "flags_ok f" and n: "shift_count b \<noteq> 0"
    and op: "(op, op') \<in> {(kX86pAluRol, kX86pAluRor), (kX86pAluRor, kX86pAluRol)}"
  shows "\<exists>r f1 f2. x86p_alu op a b w f = Some (r, f1) \<and> x86p_alu op' r b w f1 = Some (a AND x86p_width_mask w, f2) \<and>
    x86p_flag_pf f2 = x86p_flag_pf f \<and> x86p_flag_af f2 = x86p_flag_af f \<and>
    x86p_flag_zf f2 = x86p_flag_zf f \<and> x86p_flag_sf f2 = x86p_flag_sf f"
proof -
  have o: "op = kX86pAluRol \<or> op = kX86pAluRor" "op' = kX86pAluRol \<or> op' = kX86pAluRor" using op by auto
  let ?a = "a AND x86p_width_mask w"
  have am: "?a AND x86p_width_mask w = ?a" by (simp add: and.assoc)
  obtain f1 where 1: "x86p_alu op a b w f = Some (rotate_result op w ?a (shift_count b), f1)" "flags_ok f1"
    "x86p_flag_pf f1 = x86p_flag_pf f" "x86p_flag_af f1 = x86p_flag_af f"
    "x86p_flag_zf f1 = x86p_flag_zf f" "x86p_flag_sf f1 = x86p_flag_sf f"
    using alu_rotate_step [OF w o(1) n f refl refl refl] by blast
  let ?r = "rotate_result op w ?a (shift_count b)"
  have rm: "?r AND x86p_width_mask w = ?r" by (rule rotate_result_undone(3) [OF w am])
  have undone: "rotate_result op' w (?r AND x86p_width_mask w) (shift_count b) = ?a"
    unfolding rm using op rotate_result_undone(1,2) [OF w am] by auto
  obtain f2 where "x86p_alu op' ?r b w f1 = Some (?a, f2)"
    "x86p_flag_pf f2 = x86p_flag_pf f1" "x86p_flag_af f2 = x86p_flag_af f1"
    "x86p_flag_zf f2 = x86p_flag_zf f1" "x86p_flag_sf f2 = x86p_flag_sf f1"
    using alu_rotate_step [OF w o(2) n 1(2) undone [symmetric] refl refl] by blast
  with 1 show ?thesis by (intro exI [of _ ?r] exI [of _ f1] exI [of _ f2]) simp
qed

lemma rotate_carry_pair:
  assumes w: "valid_width w" and f: "flags_ok f" and n: "shift_count b \<noteq> 0"
    and op: "(op, op') \<in> {(kX86pAluRcl, kX86pAluRcr), (kX86pAluRcr, kX86pAluRcl)}"
  shows "\<exists>r f1 f2. x86p_alu op a b w f = Some (r, f1) \<and> x86p_alu op' r b w f1 = Some (a AND x86p_width_mask w, f2) \<and>
    x86p_flag_cf f2 = x86p_flag_cf f \<and> x86p_flag_pf f2 = x86p_flag_pf f \<and> x86p_flag_af f2 = x86p_flag_af f \<and>
    x86p_flag_zf f2 = x86p_flag_zf f \<and> x86p_flag_sf f2 = x86p_flag_sf f"
proof -
  have o: "op = kX86pAluRcl \<or> op = kX86pAluRcr" "op' = kX86pAluRcl \<or> op' = kX86pAluRcr" using op by auto
  let ?a = "a AND x86p_width_mask w"
  have am: "?a AND x86p_width_mask w = ?a" by (simp add: and.assoc)
  obtain r c where rc: "rc_result op w ?a (x86p_flag_cf f) (shift_count b) = (r, c)" by fastforce
  obtain f1 where 1: "x86p_alu op a b w f = Some (r, f1)" "flags_ok f1" "x86p_flag_cf f1 = c"
    "x86p_flag_pf f1 = x86p_flag_pf f" "x86p_flag_af f1 = x86p_flag_af f"
    "x86p_flag_zf f1 = x86p_flag_zf f" "x86p_flag_sf f1 = x86p_flag_sf f"
    using alu_rotate_carry_step [OF w o(1) n f rc] by blast
  have rm: "r AND x86p_width_mask w = r" by (rule rc_result_undone(3) [OF w am rc])
  have "rc_result op' w r c (shift_count b) = (?a, x86p_flag_cf f)"
    using op
  proof (elim insertE emptyE)
    assume "(op, op') = (kX86pAluRcl, kX86pAluRcr)"
    then show ?thesis using rc_result_undone(1) [OF w am, of "x86p_flag_cf f" _ r c] rc by blast
  next
    assume "(op, op') = (kX86pAluRcr, kX86pAluRcl)"
    then show ?thesis using rc_result_undone(2) [OF w am, of "x86p_flag_cf f" _ r c] rc by blast
  qed
  then have "rc_result op' w (r AND x86p_width_mask w) (x86p_flag_cf f1) (shift_count b) = (?a, x86p_flag_cf f)"
    unfolding rm 1(3) .
  then obtain f2 where "x86p_alu op' r b w f1 = Some (?a, f2)" "x86p_flag_cf f2 = x86p_flag_cf f"
    "x86p_flag_pf f2 = x86p_flag_pf f1" "x86p_flag_af f2 = x86p_flag_af f1"
    "x86p_flag_zf f2 = x86p_flag_zf f1" "x86p_flag_sf f2 = x86p_flag_sf f1"
    using alu_rotate_carry_step [OF w o(2) n 1(2)] by blast
  with 1 show ?thesis by (intro exI [of _ r] exI [of _ f1] exI [of _ f2]) simp
qed

text \<open>
  Opposite rotates by the same count undo each other, through the carry (RCL and RCR, CF
  included) or not (ROL and ROR), and neither touches ZF, SF, PF or AF.
\<close>

theorem rotates_undo:
  assumes "valid_width w" and "flags_ok f" and "(op, op') \<in> opposite_rotates"
  shows "\<exists>r f1 f2. x86p_alu op a b w f = Some (r, f1) \<and>
    x86p_alu op' r b w f1 = Some (a AND x86p_width_mask w, f2) \<and>
    (op \<in> {kX86pAluRcl, kX86pAluRcr} \<longrightarrow> x86p_flag_cf f2 = x86p_flag_cf f) \<and>
    x86p_flag_pf f2 = x86p_flag_pf f \<and> x86p_flag_af f2 = x86p_flag_af f \<and>
    x86p_flag_zf f2 = x86p_flag_zf f \<and> x86p_flag_sf f2 = x86p_flag_sf f"
proof (cases "shift_count b = 0")
  case True
  have am: "(a AND x86p_width_mask w) AND x86p_width_mask w = a AND x86p_width_mask w" by (simp add: and.assoc)
  have o: "op \<in> {kX86pAluRol, kX86pAluRor, kX86pAluRcl, kX86pAluRcr}"
    "op' \<in> {kX86pAluRol, kX86pAluRor, kX86pAluRcl, kX86pAluRcr}"
    using assms(3) by (auto simp: opposite_rotates_def)
  show ?thesis
    using rotate_zero_count [OF assms(1) o(1) True] rotate_zero_count [OF assms(1) o(2) True] am by auto
next
  case False
  from assms(3) consider "(op, op') \<in> {(kX86pAluRol, kX86pAluRor), (kX86pAluRor, kX86pAluRol)}"
    | "(op, op') \<in> {(kX86pAluRcl, kX86pAluRcr), (kX86pAluRcr, kX86pAluRcl)}"
    unfolding opposite_rotates_def by blast
  then show ?thesis
  proof cases
    case 1
    then have "op \<notin> {kX86pAluRcl, kX86pAluRcr}" by auto
    then show ?thesis using rotate_pair [OF assms(1,2) False 1, of a] by blast
  next
    case 2
    then show ?thesis using rotate_carry_pair [OF assms(1,2) False 2, of a] by blast
  qed
qed

theorem rotates_undo_witness:
  "\<exists>r f1 f2. x86p_alu kX86pAluRcl 0x81 3 1 flags_zero = Some (r, f1) \<and>
    x86p_alu kX86pAluRcr r 3 1 f1 = Some (0x81 AND x86p_width_mask 1, f2) \<and> \<not> x86p_flag_cf f2"
proof -
  have "\<not> x86p_flag_cf flags_zero" by (simp add: x86p_flag_cf_def flags_zero_def)
  moreover have "(kX86pAluRcl, kX86pAluRcr) \<in> opposite_rotates" by (simp add: opposite_rotates_def)
  ultimately show ?thesis
    using rotates_undo [of 1 flags_zero kX86pAluRcl kX86pAluRcr "0x81" 3] flags_ok_zero by blast
qed

section \<open>Multiplication and division\<close>

text \<open>
  MUL and IMUL return the exact double-width product, unsigned and signed, in the two
  halves, and set CF and OF together exactly when the low half alone does not hold it.
\<close>

theorem multiply_correct:
  assumes "valid_width w" and "flags_ok f"
  shows "(\<exists>lo hi f'. x86p_alu_mul a b w f = Some (lo, hi, f') \<and>
      uint hi * full w + uint lo = uval w a * uval w b \<and> uint lo < full w \<and>
      x86p_flag_cf f' = (full w \<le> uval w a * uval w b) \<and>
      x86p_flag_of f' = Some (full w \<le> uval w a * uval w b)) \<and>
    (\<exists>lo hi f'. x86p_alu_imul a b w f = Some (lo, hi, f') \<and>
      sval w hi * full w + uint lo = sval w a * sval w b \<and> uint lo < full w \<and>
      x86p_flag_cf f' = (\<not> fits_signed w (sval w a * sval w b)) \<and>
      x86p_flag_of f' = Some (\<not> fits_signed w (sval w a * sval w b)))"
  using alu_mul_step [OF assms] alu_imul_step [OF assms] by blast

theorem multiply_correct_witness:
  "\<exists>lo hi f'. x86p_alu_imul 0x80 0xFF 1 flags_zero = Some (lo, hi, f') \<and>
     sval 1 hi * 256 + uint lo = 128 \<and> x86p_flag_cf f'"
proof -
  have "sval (Suc 0) 0x80 = -128" "sval (Suc 0) 0xFF = -1"
    by (simp_all add: sval_def uval_def x86p_width_mask_def)
  then show ?thesis
    using multiply_correct [of 1 flags_zero "0x80" "0xFF"] by (simp add: fits_signed_def) blast
qed

text \<open>
  C37. DIV and IDIV of the double-width dividend return quotient and remainder (truncated
  towards zero for IDIV), and report the guest's divide error exactly when the divisor is
  zero or the quotient does not fit the operand width.
\<close>

theorem divide_correct:
  assumes "valid_width w"
  shows "(if uval w d \<noteq> 0 \<and> dividend w hi lo div uval w d < full w
      then \<exists>q r. x86p_alu_div hi lo d w = Some (Some (q, r)) \<and>
        uint q = dividend w hi lo div uval w d \<and> uint r = dividend w hi lo mod uval w d
      else x86p_alu_div hi lo d w = Some None) \<and>
    (if sval w d \<noteq> 0 \<and> fits_signed w (signed_dividend w hi lo sdiv sval w d)
      then \<exists>q r. x86p_alu_idiv hi lo d w = Some (Some (q, r)) \<and>
        sval w q = signed_dividend w hi lo sdiv sval w d \<and> sval w r = signed_dividend w hi lo smod sval w d
      else x86p_alu_idiv hi lo d w = Some None)"
  using alu_div_step [OF assms, of d hi lo] alu_idiv_step [OF assms refl refl, of d hi lo] by auto

theorem divide_correct_witness:
  "\<exists>q r. x86p_alu_idiv 0xFF 0xF9 2 1 = Some (Some (q, r)) \<and> sval 1 q = -3 \<and> sval 1 r = -1"
proof -
  have "sval (Suc 0) 2 = 2" "signed_dividend (Suc 0) 0xFF 0xF9 = -7"
    by (simp_all add: signed_dividend_def sval_def uval_def x86p_width_mask_def)
  moreover have "(-7 :: int) sdiv 2 = -3" "(-7 :: int) smod 2 = -1" by (simp_all add: signed_divide_int_def smod_int_alt_def)
  ultimately show ?thesis
    using divide_correct [of 1 2 "0xFF" "0xF9"] by (simp add: fits_signed_def)
qed

section \<open>Lazy and materialised flags\<close>

text \<open>
  C36. Every flag state the recorder can produce materialises to an EFLAGS word without
  aborting, the word holds each lazily derived flag at its architectural bit and nothing
  else but the fixed bits, and all sixteen conditions decide the same on the lazy state and
  on the word.
\<close>

theorem materialised_flags_agree:
  assumes "x86p_flags_set f0 k a b r w = Some f"
  shows "\<exists>v. x86p_eflags f = Some v \<and>
    (\<forall>n. bit v n = (n = 0 \<and> x86p_flag_cf f \<or> n = 1 \<or> n = 2 \<and> x86p_flag_pf f \<or> n = 4 \<and> x86p_flag_af f \<or>
        n = 6 \<and> x86p_flag_zf f \<or> n = 7 \<and> x86p_flag_sf f \<or> n = 9 \<or> n = 11 \<and> x86p_flag_of f = Some True)) \<and>
    (\<forall>cc. x86p_cond cc f = Some (x86p_cond_eflags cc v))"
proof -
  obtain v where v: "x86p_eflags f = Some v" using eflags_total [OF flags_ok_set [OF assms]] by blast
  have "bit v n = (n = 0 \<and> x86p_flag_cf f \<or> n = 1 \<or> n = 2 \<and> x86p_flag_pf f \<or> n = 4 \<and> x86p_flag_af f \<or>
        n = 6 \<and> x86p_flag_zf f \<or> n = 7 \<and> x86p_flag_sf f \<or> n = 9 \<or> n = 11 \<and> x86p_flag_of f = Some True)" for n
    using x86p_eflags_bits [OF v] x86p_eflags_other_bits [OF v, of n]
    by (cases "n \<in> {0, 2, 4, 6, 7, 11}") auto
  then show ?thesis using v cond_as_eflags [OF v] by blast
qed

theorem materialised_flags_agree_witness:
  "\<exists>f v. x86p_flags_set flags_zero kX86pFlagsSub 1 2 0xFF 1 = Some f \<and> x86p_eflags f = Some v \<and>
     x86p_cond kX86pCondB f = Some (x86p_cond_eflags kX86pCondB v)"
proof -
  obtain f where f: "x86p_flags_set flags_zero kX86pFlagsSub 1 2 0xFF 1 = Some f"
    by (simp add: x86p_flags_set_def)
  show ?thesis using materialised_flags_agree [OF f] f by blast
qed

text \<open>
  Whenever \<open>x86p_flags_carry_in_is_live\<close> says no, the stored carry-in influences neither
  the materialised word nor any condition, so a backend may leave anything in it.
\<close>

theorem dead_carry_in_unobservable:
  assumes "\<not> x86p_flags_carry_in_is_live (fl_kind f)"
  shows "x86p_eflags (f\<lparr>fl_carry_in := c\<rparr>) = x86p_eflags f \<and>
    x86p_cond cc (f\<lparr>fl_carry_in := c\<rparr>) = x86p_cond cc f"
proof
  show "x86p_eflags (f\<lparr>fl_carry_in := c\<rparr>) = x86p_eflags f" by (rule dead_carry_in [OF assms])
  show "x86p_cond cc (f\<lparr>fl_carry_in := c\<rparr>) = x86p_cond cc f"
    by (rule dead_carry_in_cond [OF assms])
qed

theorem dead_carry_in_unobservable_witness:
  "x86p_eflags (flags_zero\<lparr>fl_kind := kX86pFlagsAdd, fl_w := 4\<rparr>\<lparr>fl_carry_in := True\<rparr>) =
   x86p_eflags (flags_zero\<lparr>fl_kind := kX86pFlagsAdd, fl_w := 4\<rparr>)"
  using dead_carry_in_unobservable [of "flags_zero\<lparr>fl_kind := kX86pFlagsAdd, fl_w := 4\<rparr>" True]
  by (simp add: x86p_flags_carry_in_is_live_def)

end
