(* ===== verification/X86_Bits.thy ===== *)
theory X86_Bits
  imports X86_Alu_Mul
begin

text \<open>
  Single-bit operations, bit scans and double shifts of \<open>src/src/x86port/bit_ops.h\<close> and
  \<open>bit_ops.c\<close>.  They read and write a materialised EFLAGS word.  \<open>__builtin_clz\<close> and
  \<open>__builtin_ctz\<close> count the leading and trailing zero bits of a nonzero 32-bit value.
\<close>

section \<open>The operations\<close>

datatype bit_op = kX86pBitTest | kX86pBitSet | kX86pBitReset | kX86pBitComp

definition x86p_bit_op_name :: "bit_op \<Rightarrow> string" where
  "x86p_bit_op_name op =
     (case op of kX86pBitTest \<Rightarrow> ''BT'' | kX86pBitSet \<Rightarrow> ''BTS'' | kX86pBitReset \<Rightarrow> ''BTR'' | kX86pBitComp \<Rightarrow> ''BTC'')"

text \<open>The static helper bit_ops.c and bcd.c each define.\<close>

definition set_flag_bit :: "u32 \<Rightarrow> u32 \<Rightarrow> bool \<Rightarrow> u32" where
  "set_flag_bit v fb on = (if on then v OR fb else v AND NOT fb)"

definition bits_width_mask :: "nat \<Rightarrow> u32" where
  "bits_width_mask w = (if 4 \<le> w then 0xFFFFFFFF else push_bit (w * 8) 1 - 1)"

definition x86p_bit_apply :: "bit_op \<Rightarrow> u32 \<Rightarrow> u32 \<Rightarrow> u32 \<Rightarrow> u32 \<times> u32" where
  "x86p_bit_apply op v i eflags =
     (let sel = push_bit (unat (i AND 31)) 1;
          eflags = set_flag_bit eflags X86P_CF ((v AND sel) \<noteq> 0)
      in case op of
           kX86pBitSet \<Rightarrow> (v OR sel, eflags)
         | kX86pBitReset \<Rightarrow> (v AND NOT sel, eflags)
         | kX86pBitComp \<Rightarrow> (v XOR sel, eflags)
         | kX86pBitTest \<Rightarrow> (v, eflags))"

definition builtin_ctz :: "u32 \<Rightarrow> nat" where
  "builtin_ctz v = length (takeWhile (\<lambda>i. \<not> bit v i) [0..<32])"

definition builtin_clz :: "u32 \<Rightarrow> nat" where
  "builtin_clz v = length (takeWhile (\<lambda>i. \<not> bit v (31 - i)) [0..<32])"

definition x86p_bit_scan :: "bool \<Rightarrow> u32 \<Rightarrow> nat \<Rightarrow> u32 \<Rightarrow> u32 \<Rightarrow> u32 \<times> u32" where
  "x86p_bit_scan reverse source w destination eflags =
     (let v = source AND bits_width_mask w;
          eflags = set_flag_bit eflags X86P_ZF (v = 0)
      in if v = 0 then (destination, eflags)
         else (if reverse then 31 - of_nat (builtin_clz v) else of_nat (builtin_ctz v), eflags))"

text \<open>
  \<open>x86p_double_shift\<close>: the returned triple is the code's \<open>*defined\<close> and, when the function
  returns 1, the result and the new flags.
\<close>

definition double_shift_flags :: "u32 \<Rightarrow> u32 \<Rightarrow> bool \<Rightarrow> nat \<Rightarrow> u32 \<Rightarrow> u32" where
  "double_shift_flags r prev cf nbits f =
     (let f = set_flag_bit f X86P_CF cf;
          f = set_flag_bit f X86P_SF (bit r (nbits - 1));
          f = set_flag_bit f X86P_ZF (r = 0);
          f = set_flag_bit f X86P_PF (\<not> foldl (\<lambda>p i. p \<noteq> bit r i) False [0..<8]);
          f = set_flag_bit f X86P_AF True
      in set_flag_bit f X86P_OF (bit (r XOR prev) (nbits - 1)))"

definition x86p_double_shift ::
  "bool \<Rightarrow> u32 \<Rightarrow> u32 \<Rightarrow> u32 \<Rightarrow> nat \<Rightarrow> u32 \<Rightarrow> bool \<times> (u32 \<times> u32) option" where
  "x86p_double_shift left dst src count w eflags =
     (let nbits = w * 8; m = bits_width_mask w; count = unat (count AND 31);
          defined = (count \<le> nbits)
      in if count = 0 then (defined, None)
         else if \<not> defined then (defined, None)
         else
           let dst = dst AND m; src = src AND m;
               r = (if left then push_bit count dst OR drop_bit (nbits - count) src
                    else drop_bit count dst OR push_bit (nbits - count) src);
               prev = (if count = 1 then dst
                       else if left then push_bit (count - 1) dst OR drop_bit (nbits - count + 1) src
                       else drop_bit (count - 1) dst OR push_bit (nbits - count + 1) src);
               cf = (if left then bit dst (nbits - count) else bit dst (count - 1));
               r = r AND m; prev = prev AND m
           in (defined, Some (r, double_shift_flags r prev cf nbits eflags)))"

section \<open>What they compute\<close>

lemma bit_set_flag_bit:
  "bit (set_flag_bit v (2 ^ k) on :: u32) n = (if n = k \<and> k < 32 then on else bit v n)"
  by (auto simp: set_flag_bit_def bit_or_iff bit_and_iff bit_not_iff bit_exp_iff dest: bit_imp_le_length)

lemma bit_set_flag [flag_simps]:
  "bit (set_flag_bit v X86P_CF on) n = (if n = 0 then on else bit v n)"
  "bit (set_flag_bit v X86P_PF on) n = (if n = 2 then on else bit v n)"
  "bit (set_flag_bit v X86P_AF on) n = (if n = 4 then on else bit v n)"
  "bit (set_flag_bit v X86P_ZF on) n = (if n = 6 then on else bit v n)"
  "bit (set_flag_bit v X86P_SF on) n = (if n = 7 then on else bit v n)"
  "bit (set_flag_bit v X86P_OF on) n = (if n = 11 then on else bit v n)"
  unfolding flag_const_exp bit_set_flag_bit by simp_all

lemma bits_width_mask_eq: "valid_width w \<Longrightarrow> bits_width_mask w = x86p_width_mask w"
  by (auto simp: bits_width_mask_def x86p_width_mask_def)

lemma selected_bit: "unat (i AND 31 :: u32) = unat i mod 32" "unat (i AND 31 :: u32) < 32"
  using count_masked(2) [of 4 i] by (simp_all add: shift_count_def)

lemma bit_apply_bits:
  assumes "x86p_bit_apply op v i eflags = (v', eflags')"
  shows "bit eflags' n = (if n = 0 then bit v (unat i mod 32) else bit eflags n)"
    and "bit v' n = (if n = unat i mod 32
       then (case op of kX86pBitTest \<Rightarrow> bit v n | kX86pBitSet \<Rightarrow> True | kX86pBitReset \<Rightarrow> False | kX86pBitComp \<Rightarrow> \<not> bit v n)
       else bit v n)"
proof -
  have sel: "push_bit (unat (i AND 31)) (1 :: u32) = 2 ^ (unat i mod 32)"
    by (simp add: selected_bit push_bit_eq_mult)
  have e: "(v', eflags') = (case op of
           kX86pBitSet \<Rightarrow> (v OR 2 ^ (unat i mod 32), set_flag_bit eflags X86P_CF (bit v (unat i mod 32)))
         | kX86pBitReset \<Rightarrow> (v AND NOT (2 ^ (unat i mod 32)), set_flag_bit eflags X86P_CF (bit v (unat i mod 32)))
         | kX86pBitComp \<Rightarrow> (v XOR 2 ^ (unat i mod 32), set_flag_bit eflags X86P_CF (bit v (unat i mod 32)))
         | kX86pBitTest \<Rightarrow> (v, set_flag_bit eflags X86P_CF (bit v (unat i mod 32))))"
    using assms unfolding x86p_bit_apply_def Let_def sel word_and_pow2_neq_0_iff by simp
  show "bit eflags' n = (if n = 0 then bit v (unat i mod 32) else bit eflags n)"
    using e by (cases op) (simp_all add: bit_set_flag)
  have "unat i mod 32 < 32" by simp
  then show "bit v' n = (if n = unat i mod 32
       then (case op of kX86pBitTest \<Rightarrow> bit v n | kX86pBitSet \<Rightarrow> True | kX86pBitReset \<Rightarrow> False | kX86pBitComp \<Rightarrow> \<not> bit v n)
       else bit v n)"
    using e by (cases op) (auto simp: bit_simps dest: bit_imp_le_length)
qed

lemma takeWhile_upt_first:
  assumes "\<exists>i<n. P i"
  shows "length (takeWhile (\<lambda>i. \<not> P i) [0..<n]) = (LEAST i. P i)"
proof -
  define m where "m = (LEAST i. P i)"
  from assms obtain i where "i < n" "P i" by blast
  then have m: "P m" "m < n" unfolding m_def by (auto intro: LeastI order_le_less_trans [OF Least_le])
  have less: "\<not> P j" if "j < m" for j using that not_less_Least unfolding m_def by blast
  have "[0..<n] = [0..<m] @ m # [Suc m..<n]"
    using m(2) by (metis less_imp_le_nat upt_add_eq_append upt_conv_Cons le_add_diff_inverse zero_le)
  moreover have "takeWhile (\<lambda>i. \<not> P i) ([0..<m] @ m # [Suc m..<n]) = [0..<m] @ takeWhile (\<lambda>i. \<not> P i) (m # [Suc m..<n])"
    using less by (intro takeWhile_append2) auto
  ultimately have "takeWhile (\<lambda>i. \<not> P i) [0..<n] = [0..<m]"
    using m(1) by simp
  then show ?thesis by (simp add: m_def)
qed

lemma builtin_ctz_first:
  assumes "v \<noteq> 0"
  shows "bit v (builtin_ctz v)" "builtin_ctz v < 32" "j < builtin_ctz v \<Longrightarrow> \<not> bit v j"
proof -
  obtain i where i: "bit v i" using assms by (auto simp: bit_eq_iff)
  have "i < 32" using bit_imp_le_length [OF i] by simp
  then have c: "builtin_ctz v = (LEAST i. bit v i)"
    unfolding builtin_ctz_def using i by (intro takeWhile_upt_first) blast
  show b: "bit v (builtin_ctz v)" unfolding c using i by (rule LeastI)
  show "builtin_ctz v < 32" using bit_imp_le_length [OF b] by simp
  show "j < builtin_ctz v \<Longrightarrow> \<not> bit v j" unfolding c using not_less_Least by blast
qed

lemma builtin_clz_last:
  assumes "v \<noteq> 0"
  shows "bit v (31 - builtin_clz v)" "builtin_clz v < 32" "31 - builtin_clz v < j \<Longrightarrow> \<not> bit v j"
proof -
  let ?P = "\<lambda>i. i < 32 \<and> bit v (31 - i)"
  obtain i where i: "bit v i" using assms by (auto simp: bit_eq_iff)
  have i32: "i < 32" using bit_imp_le_length [OF i] by simp
  have "bit v (31 - (31 - i))" using i i32 by simp
  then have w: "?P (31 - i)" by simp
  have "takeWhile (\<lambda>i. \<not> bit v (31 - i)) [0..<32] = takeWhile (\<lambda>i. \<not> ?P i) [0..<32]"
    by (rule takeWhile_cong) auto
  then have c: "builtin_clz v = (LEAST i. ?P i)"
    unfolding builtin_clz_def using w takeWhile_upt_first [of 32 ?P] by (metis (no_types, lifting))
  show "bit v (31 - builtin_clz v)" "builtin_clz v < 32" unfolding c using LeastI [of ?P, OF w] by blast+
  show "\<not> bit v j" if "31 - builtin_clz v < j"
  proof
    assume j: "bit v j"
    have j32: "j < 32" using bit_imp_le_length [OF j] by simp
    have "?P (31 - j)" using j j32 by simp
    then have "builtin_clz v \<le> 31 - j" unfolding c by (rule Least_le)
    then show False using that j32 by linarith
  qed
qed

lemma fold_parity: "foldl (\<lambda>p i. p \<noteq> bit r i) False [0..<8] = odd (popcount8 r)"
proof -
  have "[0..<8] = [0,1,2,3,4,5,6,7]" by (simp add: upt_rec)
  then show ?thesis by (simp add: popcount8_def)
qed

lemma double_shift_value:
  assumes w: "valid_width w" and c: "0 < c" "c \<le> w * 8" "c < 32"
  shows "uint ((push_bit c (d AND x86p_width_mask w) OR drop_bit (w * 8 - c) (s AND x86p_width_mask w)) AND x86p_width_mask w)
      = dividend w d s * 2 ^ c div full w mod full w"
    and "uint ((drop_bit c (d AND x86p_width_mask w) OR push_bit (w * 8 - c) (s AND x86p_width_mask w)) AND x86p_width_mask w)
      = dividend w s d div 2 ^ c mod full w"
proof -
  have o: "dividend w x y = push_bit (w * 8) (uval w x) OR uval w y" for x y
  proof -
    have "push_bit (w * 8) (uval w x) AND uval w y = 0"
      by (intro bit_eqI) (auto simp: bit_simps bit_uval [OF w])
    then show ?thesis by (simp add: dividend_def push_bit_eq_mult disjunctive_add_eq_or)
  qed
  show "uint ((push_bit c (d AND x86p_width_mask w) OR drop_bit (w * 8 - c) (s AND x86p_width_mask w)) AND x86p_width_mask w)
      = dividend w d s * 2 ^ c div full w mod full w"
    unfolding o mul_pow_bits take_bit_eq_mod [symmetric] drop_bit_eq_div [symmetric] and_width_mask [OF w] using w c
    by (intro bit_eqI) (auto simp: bit_uint_iff bit_simps bit_uval [OF w])
  show "uint ((drop_bit c (d AND x86p_width_mask w) OR push_bit (w * 8 - c) (s AND x86p_width_mask w)) AND x86p_width_mask w)
      = dividend w s d div 2 ^ c mod full w"
    unfolding o take_bit_eq_mod [symmetric] drop_bit_eq_div [symmetric] and_width_mask [OF w] using w c
    by (intro bit_eqI) (auto simp: bit_uint_iff bit_simps bit_uval [OF w] add.commute)
qed

lemma bit_scan_bits:
  "\<exists>r e'. x86p_bit_scan reverse s w d e = (r, e') \<and>
      (\<forall>n. bit e' n = (if n = 6 then s AND bits_width_mask w = 0 else bit e n)) \<and>
      (if s AND bits_width_mask w = 0 then r = d
       else bit (s AND bits_width_mask w) (unat r) \<and>
         (\<forall>j. bit (s AND bits_width_mask w) j \<longrightarrow> (if reverse then j \<le> unat r else unat r \<le> j)))"
proof (cases "s AND bits_width_mask w = 0")
  case True
  then show ?thesis by (simp add: x86p_bit_scan_def bit_set_flag)
next
  case False
  define v where "v = s AND bits_width_mask w"
  have nz: "v \<noteq> 0" using False by (simp add: v_def)
  define r :: u32 where "r = (if reverse then 31 - of_nat (builtin_clz v) else of_nat (builtin_ctz v))"
  have e: "x86p_bit_scan reverse s w d e = (r, set_flag_bit e X86P_ZF False)"
    unfolding x86p_bit_scan_def v_def [symmetric] Let_def using nz by (simp add: r_def)
  have u: "unat r = (if reverse then 31 - builtin_clz v else builtin_ctz v)"
    using builtin_clz_last(2) [OF nz] builtin_ctz_first(2) [OF nz]
    by (simp add: r_def unat_of_nat unat_sub word_le_nat_alt)
  have "bit v (unat r)" unfolding u using builtin_clz_last(1) [OF nz] builtin_ctz_first(1) [OF nz] by simp
  moreover have "if reverse then j \<le> unat r else unat r \<le> j" if "bit v j" for j
    unfolding u using that builtin_clz_last(3) [OF nz] builtin_ctz_first(3) [OF nz] by (auto simp: not_less [symmetric])
  ultimately show ?thesis
    using nz e unfolding v_def [symmetric] by (auto simp: bit_set_flag)
qed

section \<open>Properties\<close>

text \<open>
  BT, BTS, BTR and BTC copy the addressed bit (modulo 32) of the old value to CF and
  change exactly that bit of the value; BSF and BSR return the lowest and highest set bit of
  the operand at its width, or leave the destination and set ZF when there is none.
\<close>

theorem bit_operations_correct:
  "(\<exists>v' e'. x86p_bit_apply op v i e = (v', e') \<and>
      (\<forall>n. bit e' n = (if n = 0 then bit v (unat i mod 32) else bit e n)) \<and>
      (\<forall>n. bit v' n = (if n = unat i mod 32
         then (case op of kX86pBitTest \<Rightarrow> bit v n | kX86pBitSet \<Rightarrow> True | kX86pBitReset \<Rightarrow> False | kX86pBitComp \<Rightarrow> \<not> bit v n)
         else bit v n))) \<and>
    (\<exists>r e'. x86p_bit_scan reverse s w d e = (r, e') \<and>
      (\<forall>n. bit e' n = (if n = 6 then s AND bits_width_mask w = 0 else bit e n)) \<and>
      (if s AND bits_width_mask w = 0 then r = d
       else bit (s AND bits_width_mask w) (unat r) \<and>
         (\<forall>j. bit (s AND bits_width_mask w) j \<longrightarrow> (if reverse then j \<le> unat r else unat r \<le> j))))"
proof
  obtain v' e' where b: "x86p_bit_apply op v i e = (v', e')" by fastforce
  show "\<exists>v' e'. x86p_bit_apply op v i e = (v', e') \<and>
      (\<forall>n. bit e' n = (if n = 0 then bit v (unat i mod 32) else bit e n)) \<and>
      (\<forall>n. bit v' n = (if n = unat i mod 32
         then (case op of kX86pBitTest \<Rightarrow> bit v n | kX86pBitSet \<Rightarrow> True | kX86pBitReset \<Rightarrow> False | kX86pBitComp \<Rightarrow> \<not> bit v n)
         else bit v n))"
    by (intro exI [of _ v'] exI [of _ e'] conjI allI b bit_apply_bits(1) [OF b] bit_apply_bits(2) [OF b])
  show "\<exists>r e'. x86p_bit_scan reverse s w d e = (r, e') \<and>
      (\<forall>n. bit e' n = (if n = 6 then s AND bits_width_mask w = 0 else bit e n)) \<and>
      (if s AND bits_width_mask w = 0 then r = d
       else bit (s AND bits_width_mask w) (unat r) \<and>
         (\<forall>j. bit (s AND bits_width_mask w) j \<longrightarrow> (if reverse then j \<le> unat r else unat r \<le> j)))"
    by (rule bit_scan_bits)
qed

theorem bit_operations_correct_witness:
  "x86p_bit_scan True 10 4 7 64 = (3, 0) \<and> bit (10 AND bits_width_mask 4) 3"
proof -
  have e: "x86p_bit_scan True 10 4 7 64 = (3, 0)" by code_simp
  have m: "10 AND bits_width_mask 4 = (10 :: u32)" by code_simp
  show ?thesis using bit_operations_correct [of kX86pBitSet 0 5 64 True 10 4 7] by (simp add: e m)
qed

lemma double_shift_flag_bits:
  "bit (double_shift_flags r prev cf nbits f) n =
    (if n = 0 then cf else if n = 2 then even (popcount8 r) else if n = 4 then True
     else if n = 6 then r = 0 else if n = 7 then bit r (nbits - 1)
     else if n = 11 then bit (r XOR prev) (nbits - 1) else bit f n)"
  unfolding double_shift_flags_def Let_def fold_parity bit_set_flag by simp

text \<open>
  SHLD and SHRD shift the concatenation of the two operands: the result is the window
  of it the count selects, CF the last bit shifted out of the destination, OF (at a count of
  one) the change of sign, the other flags those of the result; a zero count and a count
  beyond the width write nothing, and only the latter is reported as undefined.
\<close>

theorem double_shift_correct:
  assumes "valid_width w" and c: "c = unat count mod 32"
  shows "if c = 0 \<or> w * 8 < c then x86p_double_shift left dst src count w e = (c \<le> w * 8, None)
    else \<exists>r e'. x86p_double_shift left dst src count w e = (True, Some (r, e')) \<and>
      uint r = (if left then dividend w dst src * 2 ^ c div full w mod full w
                else dividend w src dst div 2 ^ c mod full w) \<and>
      bit e' 0 = bit dst (if left then w * 8 - c else c - 1) \<and>
      bit e' 6 = (r = 0) \<and> bit e' 7 = (sval w r < 0) \<and> bit e' 2 = even (popcount8 r) \<and>
      (c = 1 \<longrightarrow> bit e' 11 = ((sval w r < 0) \<noteq> (sval w dst < 0))) \<and>
      (\<forall>n. n \<notin> {0, 2, 4, 6, 7, 11} \<longrightarrow> bit e' n = bit e n)"
proof (cases "c = 0 \<or> w * 8 < c")
  case True
  then show ?thesis by (auto simp: x86p_double_shift_def Let_def selected_bit c)
next
  case False
  note w = assms(1)
  have c32: "0 < c" "c \<le> w * 8" "c < 32" using False c by auto
  let ?m = "x86p_width_mask w"
  define r where "r = (if left then push_bit c (dst AND ?m) OR drop_bit (w * 8 - c) (src AND ?m)
      else drop_bit c (dst AND ?m) OR push_bit (w * 8 - c) (src AND ?m)) AND ?m"
  define prev where "prev = (if c = 1 then dst AND ?m
      else if left then push_bit (c - 1) (dst AND ?m) OR drop_bit (w * 8 - c + 1) (src AND ?m)
      else drop_bit (c - 1) (dst AND ?m) OR push_bit (w * 8 - c + 1) (src AND ?m)) AND ?m"
  define cf where "cf = (if left then bit (dst AND ?m) (w * 8 - c) else bit (dst AND ?m) (c - 1))"
  have e: "x86p_double_shift left dst src count w e = (True, Some (r, double_shift_flags r prev cf (w * 8) e))"
    using False unfolding x86p_double_shift_def Let_def bits_width_mask_eq [OF w] selected_bit(1) c [symmetric]
      r_def prev_def cf_def by simp
  have v: "uint r = (if left then dividend w dst src * 2 ^ c div full w mod full w
                else dividend w src dst div 2 ^ c mod full w)"
    unfolding r_def using double_shift_value [OF w c32] by simp
  have cf: "cf = bit dst (if left then w * 8 - c else c - 1)"
    using w c32 by (auto simp: cf_def and_width_mask [OF w] bit_take_bit_iff)
  have prev1: "bit prev (w * 8 - 1) = bit dst (w * 8 - 1)" if "c = 1"
    using that w by (auto simp: prev_def and_width_mask [OF w] bit_take_bit_iff)
  have "bit (r XOR prev) (w * 8 - 1) = (bit r (w * 8 - 1) \<noteq> bit prev (w * 8 - 1))"
    by (simp add: bit_xor_iff)
  then have b11: "bit (double_shift_flags r prev cf (w * 8) e) 11 = ((sval w r < 0) \<noteq> (sval w dst < 0))" if "c = 1"
    using prev1 [OF that] unfolding double_shift_flag_bits top_bit_sval [OF w] by simp
  have b: "bit (double_shift_flags r prev cf (w * 8) e) 0 = cf"
    "bit (double_shift_flags r prev cf (w * 8) e) 2 = even (popcount8 r)"
    "bit (double_shift_flags r prev cf (w * 8) e) 6 = (r = 0)"
    "bit (double_shift_flags r prev cf (w * 8) e) 7 = (sval w r < 0)"
    "\<forall>n. n \<notin> {0, 2, 4, 6, 7, 11} \<longrightarrow> bit (double_shift_flags r prev cf (w * 8) e) n = bit e n"
    unfolding double_shift_flag_bits top_bit_sval [OF w] by simp_all
  have "\<exists>r e'. x86p_double_shift left dst src count w e = (True, Some (r, e')) \<and>
      uint r = (if left then dividend w dst src * 2 ^ c div full w mod full w
                else dividend w src dst div 2 ^ c mod full w) \<and>
      bit e' 0 = bit dst (if left then w * 8 - c else c - 1) \<and>
      bit e' 6 = (r = 0) \<and> bit e' 7 = (sval w r < 0) \<and> bit e' 2 = even (popcount8 r) \<and>
      (c = 1 \<longrightarrow> bit e' 11 = ((sval w r < 0) \<noteq> (sval w dst < 0))) \<and>
      (\<forall>n. n \<notin> {0, 2, 4, 6, 7, 11} \<longrightarrow> bit e' n = bit e n)"
    using e v b11 b unfolding cf by blast
  then show ?thesis using False by simp
qed

theorem double_shift_correct_witness:
  "\<exists>r e'. x86p_double_shift True 0x8001 0xC000 4 2 0x202 = (True, Some (r, e')) \<and> uint r = 0x1C \<and> \<not> bit e' 0"
proof -
  have d: "dividend 2 0x8001 0xC000 = 0x8001C000" by (simp add: dividend_def uval_def x86p_width_mask_def)
  have b: "\<not> bit (0x8001 :: u32) 12" by simp
  have c: "valid_width 2" "(4 :: nat) = unat (4 :: u32) mod 32" "\<not> ((4 :: nat) = 0 \<or> 2 * 8 < (4 :: nat))" by simp_all
  note P = double_shift_correct [OF c(1,2), where left = True and dst = "0x8001" and src = "0xC000" and e = "0x202",
      unfolded if_not_P [OF c(3)] if_True]
  then obtain r e' where "x86p_double_shift True 0x8001 0xC000 4 2 0x202 = (True, Some (r, e'))"
    "uint r = dividend 2 0x8001 0xC000 * 2 ^ 4 div full 2 mod full 2" "bit e' 0 = bit (0x8001 :: u32) (2 * 8 - 4)"
    by blast
  moreover have "(2147598336 :: int) * 2 ^ 4 div full 2 mod full 2 = 0x1C" by simp
  ultimately show ?thesis unfolding d using b by simp
qed

end
