(* ===== verification/X86_Bcd.thy ===== *)
theory X86_Bcd
  imports X86_Bits
begin

text \<open>
  The decimal adjustments of \<open>src/src/x86port/bcd.h\<close> and \<open>bcd.c\<close>: DAA, DAS, AAA, AAS, AAM and
  AAD on AX and a materialised EFLAGS word.  \<open>None\<close> is the return value 0, AAM's divide
  error.
\<close>

section \<open>The operations\<close>

datatype bcd_op = kX86pBcdDaa | kX86pBcdDas | kX86pBcdAaa | kX86pBcdAas | kX86pBcdAam | kX86pBcdAad

definition x86p_bcd_op_name :: "bcd_op \<Rightarrow> string" where
  "x86p_bcd_op_name op =
     (case op of kX86pBcdDaa \<Rightarrow> ''DAA'' | kX86pBcdDas \<Rightarrow> ''DAS'' | kX86pBcdAaa \<Rightarrow> ''AAA''
      | kX86pBcdAas \<Rightarrow> ''AAS'' | kX86pBcdAam \<Rightarrow> ''AAM'' | kX86pBcdAad \<Rightarrow> ''AAD'')"

record last_adjust =
  la_a :: u8
  la_b :: u8
  la_r :: u8
  la_subtract :: bool
  la_happened :: bool

definition apply_of :: "u32 \<Rightarrow> last_adjust \<Rightarrow> u32" where
  "apply_of v l =
     (if \<not> la_happened l then set_flag_bit v X86P_OF False
      else set_flag_bit v X86P_OF
        (if la_subtract l then ((la_a l XOR la_b l) AND (la_a l XOR la_r l) AND 0x80) \<noteq> 0
         else ((la_a l XOR la_r l) AND (la_b l XOR la_r l) AND 0x80) \<noteq> 0))"

definition set_result_flags :: "u32 \<Rightarrow> u8 \<Rightarrow> u32" where
  "set_result_flags v al =
     (let parity = foldl (\<lambda>p i. p \<noteq> bit al i) False [0..<8];
          v = set_flag_bit v X86P_SF ((al AND 0x80) \<noteq> 0);
          v = set_flag_bit v X86P_ZF (al = 0)
      in set_flag_bit v X86P_PF (\<not> parity))"

text \<open>The first adjustment of DAA and DAS, and the second, with the record of the last one.\<close>

definition daa :: "u8 \<Rightarrow> u32 \<Rightarrow> bool \<Rightarrow> bool \<Rightarrow> u8 \<times> u32" where
  "daa al f cf_in af_in =
     (let old_al = al;
          last = \<lparr>la_a = 0, la_b = 0, la_r = 0, la_subtract = False, la_happened = False\<rparr>;
          (al, f, last) =
            (if 9 < (al AND 0x0F) \<or> af_in then
               let carry = 0xFF < uint al + 6; al' = al + 6 in
               (al', set_flag_bit (set_flag_bit f X86P_CF (cf_in \<or> carry)) X86P_AF True,
                last\<lparr>la_a := al, la_b := 6, la_r := al', la_happened := True\<rparr>)
             else (al, set_flag_bit f X86P_AF False, last));
          (al, f, last) =
            (if 0x99 < old_al \<or> cf_in then
               let al' = al + 0x60 in
               (al', set_flag_bit f X86P_CF True,
                last\<lparr>la_a := al, la_b := 0x60, la_r := al', la_happened := True\<rparr>)
             else (al, set_flag_bit f X86P_CF False, last))
      in (al, apply_of (set_result_flags f al) last))"

definition das :: "u8 \<Rightarrow> u32 \<Rightarrow> bool \<Rightarrow> bool \<Rightarrow> u8 \<times> u32" where
  "das al f cf_in af_in =
     (let old_al = al;
          last = \<lparr>la_a = 0, la_b = 0, la_r = 0, la_subtract = True, la_happened = False\<rparr>;
          (al, f, last) =
            (if 9 < (al AND 0x0F) \<or> af_in then
               let borrow = al < 6; al' = al - 6 in
               (al', set_flag_bit (set_flag_bit f X86P_CF (cf_in \<or> borrow)) X86P_AF True,
                last\<lparr>la_a := al, la_b := 6, la_r := al', la_happened := True\<rparr>)
             else (al, set_flag_bit f X86P_AF False, last));
          (al, f, last) =
            (if 0x99 < old_al \<or> cf_in then
               let al' = al - 0x60 in
               (al', set_flag_bit f X86P_CF True,
                last\<lparr>la_a := al, la_b := 0x60, la_r := al', la_happened := True\<rparr>)
             else (al, f, last))
      in (al, apply_of (set_result_flags f al) last))"

text \<open>\<open>((uint16_t)ah << 8) | al\<close>\<close>

definition pack_ax :: "u8 \<Rightarrow> u8 \<Rightarrow> u16" where
  "pack_ax ah al = push_bit 8 (ucast ah) OR ucast al"

definition aaa_aas :: "bool \<Rightarrow> u8 \<Rightarrow> u8 \<Rightarrow> u32 \<Rightarrow> bool \<Rightarrow> u8 \<times> u8 \<times> u32" where
  "aaa_aas subtract ah al f af_in =
     (let (ah, al, f) =
            (if 9 < (al AND 0x0F) \<or> af_in then
               let ax16 = pack_ax ah al;
                   ax16 = (if subtract then ax16 - 6 else ax16 + 6)
               in (ucast (drop_bit 8 ax16) + (if subtract then 0xFF else 1), ucast (ax16 AND 0xFF),
                   set_flag_bit (set_flag_bit f X86P_AF True) X86P_CF True)
             else (ah, al, set_flag_bit (set_flag_bit f X86P_AF False) X86P_CF False));
          f = set_result_flags f al;
          f = set_flag_bit f X86P_SF ((pack_ax ah al AND 0x8000) \<noteq> 0);
          f = set_flag_bit f X86P_OF False
      in (ah, al AND 0x0F, f))"

definition x86p_bcd_apply :: "bcd_op \<Rightarrow> u16 \<Rightarrow> u32 \<Rightarrow> u8 \<Rightarrow> (u16 \<times> u32) option" where
  "x86p_bcd_apply op ax eflags imm =
     (let al = ucast (ax AND 0xFF); ah = ucast (drop_bit 8 ax); f = eflags;
          cf_in = (f AND X86P_CF) \<noteq> 0; af_in = (f AND X86P_AF) \<noteq> 0
      in case op of
           kX86pBcdDaa \<Rightarrow> let (al, f) = daa al f cf_in af_in in Some (pack_ax ah al, f)
         | kX86pBcdDas \<Rightarrow> let (al, f) = das al f cf_in af_in in Some (pack_ax ah al, f)
         | kX86pBcdAaa \<Rightarrow> let (ah, al, f) = aaa_aas False ah al f af_in in Some (pack_ax ah al, f)
         | kX86pBcdAas \<Rightarrow> let (ah, al, f) = aaa_aas True ah al f af_in in Some (pack_ax ah al, f)
         | kX86pBcdAam \<Rightarrow>
             if imm = 0 then None
             else let ah = al div imm; al = al mod imm; f = set_result_flags f al
                  in Some (pack_ax ah al, f AND NOT (X86P_CF OR X86P_AF OR X86P_OF))
         | kX86pBcdAad \<Rightarrow>
             let addend = uint (ah * imm);
                 sum = uint al + addend;
                 sum8 = (word_of_int sum :: u8);
                 f = set_flag_bit f X86P_CF (0xFF < sum);
                 f = set_flag_bit f X86P_AF (0x0F < uint (al AND 0x0F) + addend mod 16);
                 f = set_flag_bit f X86P_OF (((al XOR sum8) AND (word_of_int addend XOR sum8) AND 0x80) \<noteq> 0);
                 f = set_result_flags f sum8
             in Some (pack_ax 0 sum8, f))"

section \<open>The adjusted byte\<close>

lemma pack_ax_parts: "ucast (pack_ax h l AND 0xFF) = l" "ucast (drop_bit 8 (pack_ax h l)) = h"
proof -
  have m: "(0xFF :: u16) = mask 8" by (simp add: mask_eq_exp_minus_1)
  show "ucast (pack_ax h l AND 0xFF) = l"
    unfolding m pack_ax_def by (intro bit_word_eqI) (auto simp: bit_simps)
  show "ucast (drop_bit 8 (pack_ax h l)) = h"
    unfolding pack_ax_def by (intro bit_word_eqI) (auto simp: bit_simps dest: bit_imp_le_length)
qed

text \<open>The value and carry of DAA and DAS depend on the flags only through the incoming CF and AF.\<close>

definition daa_core :: "u8 \<Rightarrow> bool \<Rightarrow> bool \<Rightarrow> u8 \<times> bool" where
  "daa_core al cf_in af_in =
     (let al' = (if 9 < (al AND 0x0F) \<or> af_in then al + 6 else al)
      in if 0x99 < al \<or> cf_in then (al' + 0x60, True) else (al', False))"

definition das_core :: "u8 \<Rightarrow> bool \<Rightarrow> bool \<Rightarrow> u8 \<times> bool" where
  "das_core al cf_in af_in =
     (let adjust = 9 < (al AND 0x0F) \<or> af_in; al' = (if adjust then al - 6 else al)
      in if 0x99 < al \<or> cf_in then (al' - 0x60, True) else (al', if adjust then cf_in \<or> al < 6 else cf_in))"

lemma result_flags_keep_cf: "bit (set_result_flags f al) 0 = bit f 0"
  by (simp add: set_result_flags_def Let_def bit_set_flag)

lemma apply_of_keeps_cf: "bit (apply_of f l) 0 = bit f 0"
  by (simp add: apply_of_def bit_set_flag)

lemma daa_value: "daa al f (bit f 0) af = (v, f') \<Longrightarrow> (v, bit f' 0) = daa_core al (bit f 0) af"
  unfolding daa_def daa_core_def Let_def
  by (auto simp: result_flags_keep_cf apply_of_keeps_cf bit_set_flag split: if_splits)

lemma das_value: "das al f (bit f 0) af = (v, f') \<Longrightarrow> (v, bit f' 0) = das_core al (bit f 0) af"
  unfolding das_def das_core_def Let_def
  by (auto simp: result_flags_keep_cf apply_of_keeps_cf bit_set_flag split: if_splits)

section \<open>Packed decimal arithmetic\<close>

definition bcd_ok :: "u8 \<Rightarrow> bool" where
  "bcd_ok x \<longleftrightarrow> uint x mod 16 \<le> 9 \<and> uint x div 16 \<le> 9"

definition bcd_val :: "u8 \<Rightarrow> int" where
  "bcd_val x = 10 * (uint x div 16) + uint x mod 16"

text \<open>
  DAA and DAS see two packed bytes only through the sums (differences) \<open>t\<close> and \<open>s\<close> of their
  high and low digits, so 361 cases cover every pair of packed bytes.
\<close>

definition daa_case :: "int \<Rightarrow> int \<Rightarrow> bool" where
  "daa_case t s =
     (let (z, c) = daa_core (word_of_int (16 * t + s)) (256 \<le> 16 * t + s) (16 \<le> s)
      in uint z mod 16 \<le> 9 \<and> uint z div 16 \<le> 9 \<and>
         10 * (uint z div 16) + uint z mod 16 + (if c then 100 else 0) = 10 * t + s)"

definition das_case :: "int \<Rightarrow> int \<Rightarrow> bool" where
  "das_case t s =
     (let (z, c) = das_core (word_of_int (16 * t + s)) (16 * t + s < 0) (s < 0)
      in uint z mod 16 \<le> 9 \<and> uint z div 16 \<le> 9 \<and>
         10 * (uint z div 16) + uint z mod 16 - (if c then 100 else 0) = 10 * t + s)"

lemma daa_cases: "list_all (\<lambda>t. list_all (daa_case t) [0..18]) [0..18]"
  by code_simp

lemma das_cases: "list_all (\<lambda>t. list_all (das_case t) [-9..9]) [-9..9]"
  by code_simp

lemma daa_core_correct:
  assumes "0 \<le> t" "t \<le> 18" "0 \<le> s" "s \<le> 18"
    and "daa_core (word_of_int (16 * t + s)) (256 \<le> 16 * t + s) (16 \<le> s) = (z, c)"
  shows "bcd_ok z" "bcd_val z + 100 * of_bool c = 10 * t + s"
proof -
  have "daa_case t s" using daa_cases assms(1-4) by (simp only: list_all_iff set_upto) simp
  then show "bcd_ok z" "bcd_val z + 100 * of_bool c = 10 * t + s"
    unfolding daa_case_def assms(5) by (cases c; simp add: bcd_ok_def bcd_val_def)+
qed

lemma das_core_correct:
  assumes "-9 \<le> t" "t \<le> 9" "-9 \<le> s" "s \<le> 9"
    and "das_core (word_of_int (16 * t + s)) (16 * t + s < 0) (s < 0) = (z, c)"
  shows "bcd_ok z" "bcd_val z - 100 * of_bool c = 10 * t + s"
proof -
  have "das_case t s" using das_cases assms(1-4) by (simp only: list_all_iff set_upto) simp
  then show "bcd_ok z" "bcd_val z - 100 * of_bool c = 10 * t + s"
    unfolding das_case_def assms(5) by (cases c; simp add: bcd_ok_def bcd_val_def)+
qed

lemma byte_digits: "uint (x :: u8) = 16 * (uint x div 16) + uint x mod 16"
  by simp

lemma uval_byte: "uval 1 (ucast (x :: u8)) = uint x"
proof -
  have "uint x < 256" using uint_bounded [of x] by simp
  then show ?thesis by (simp add: uval_mod unsigned_ucast_eq take_bit_eq_mod)
qed

lemma ucast_byte_value: "uint (r :: u32) = X mod full 1 \<Longrightarrow> (ucast r :: u8) = word_of_int X"
proof -
  assume "uint r = X mod full 1"
  then have "uint (ucast r :: u8) = uint (word_of_int X :: u8)"
    by (simp add: unsigned_ucast_eq take_bit_eq_mod uint_word_of_int)
  then show ?thesis by (simp only: word_uint_eq_iff)
qed

lemma digits_add:
  fixes X Y a b c d :: int
  assumes "X = 16 * a + b" "Y = 16 * c + d"
  shows "X + Y = 16 * (a + c) + (b + d)" "X - Y = 16 * (a - c) + (b - d)"
  unfolding assms by (simp_all add: algebra_simps)

lemma byte_carry:
  "0 \<le> (X :: int) \<Longrightarrow> (X < 0 \<or> full 1 \<le> X) = (256 \<le> X)"
  "X < (256 :: int) \<Longrightarrow> (X < 0 \<or> full 1 \<le> X) = (X < 0)"
  by simp_all

lemma byte_range: "0 \<le> uint (x :: u8) + uint (y :: u8)" "uint x - uint y < 256"
proof -
  have "uint x < 256" using uint_bounded [of x] by simp
  then show "0 \<le> uint x + uint y" "uint x - uint y < 256"
    using uint_ge_0 [of x] uint_ge_0 [of y] by linarith+
qed

lemma bcd_apply_daa:
  assumes "daa_core al (bit e 0) (bit e 4) = (z, c)"
  shows "\<exists>e'. x86p_bcd_apply kX86pBcdDaa (pack_ax ah al) e imm = Some (pack_ax ah z, e') \<and> bit e' 0 = c"
proof -
  obtain v f' where d: "daa al e (bit e 0) (bit e 4) = (v, f')" by fastforce
  then have "v = z" "bit f' 0 = c" using daa_value [OF d] assms by auto
  then show ?thesis using d by (simp add: x86p_bcd_apply_def pack_ax_parts and_flag_iff)
qed

lemma bcd_apply_das:
  assumes "das_core al (bit e 0) (bit e 4) = (z, c)"
  shows "\<exists>e'. x86p_bcd_apply kX86pBcdDas (pack_ax ah al) e imm = Some (pack_ax ah z, e') \<and> bit e' 0 = c"
proof -
  obtain v f' where d: "das al e (bit e 0) (bit e 4) = (v, f')" by fastforce
  then have "v = z" "bit f' 0 = c" using das_value [OF d] assms by auto
  then show ?thesis using d by (simp add: x86p_bcd_apply_def pack_ax_parts and_flag_iff)
qed

lemma arith_outcome_af: "arith_outcome w U S n r f \<Longrightarrow> x86p_flag_af f = n"
  by (simp add: arith_outcome_def)

text \<open>
  C38. DAA after ADD and DAS after SUB of two packed decimal bytes give the packed decimal sum
  and difference modulo 100, with CF the decimal carry or borrow, and leave AH alone.
\<close>

theorem decimal_adjust_correct:
  assumes xy: "bcd_ok x" "bcd_ok y"
    and add: "x86p_alu kX86pAluAdd (ucast x) (ucast y) 1 f0 = Some (r, f)" "x86p_eflags f = Some e"
    and sub: "x86p_alu kX86pAluSub (ucast x) (ucast y) 1 f0 = Some (q, g)" "x86p_eflags g = Some d"
  shows "(\<exists>z e'. x86p_bcd_apply kX86pBcdDaa (pack_ax ah (ucast r)) e imm = Some (pack_ax ah z, e') \<and>
      bcd_ok z \<and> bcd_val z + 100 * of_bool (bit e' 0) = bcd_val x + bcd_val y) \<and>
    (\<exists>z d'. x86p_bcd_apply kX86pBcdDas (pack_ax ah (ucast q)) d imm = Some (pack_ax ah z, d') \<and>
      bcd_ok z \<and> bcd_val z - 100 * of_bool (bit d' 0) = bcd_val x - bcd_val y)"
proof
  let ?a = "uint x div 16" and ?b = "uint x mod 16" and ?c = "uint y div 16" and ?d = "uint y mod 16"
  have dig: "0 \<le> ?a" "?a \<le> 9" "0 \<le> ?b" "?b \<le> 9" "0 \<le> ?c" "?c \<le> 9" "0 \<le> ?d" "?d \<le> 9"
    using xy by (simp_all add: bcd_ok_def pos_imp_zdiv_nonneg_iff)
  note sum = digits_add(1) [OF byte_digits [of x] byte_digits [of y]]
    and diff = digits_add(2) [OF byte_digits [of x] byte_digits [of y]]
  obtain n where o: "arith_outcome 1 (16 * (?a + ?c) + (?b + ?d)) n (16 \<le> ?b + ?d) r f"
    using alu_add_outcome [of 1 "ucast x" "ucast y" f0] add(1) unfolding uval_byte sum by auto
  have fl: "bit e 0 = (256 \<le> 16 * (?a + ?c) + (?b + ?d))" "bit e 4 = (16 \<le> ?b + ?d)"
    using byte_carry(1) [OF byte_range(1) [of x y]]
    unfolding x86p_eflags_bits(1,3) [OF add(2)] arith_outcome_cf [OF o] arith_outcome_af [OF o] sum by blast+
  obtain z c where core: "daa_core (word_of_int (16 * (?a + ?c) + (?b + ?d))) (bit e 0) (bit e 4) = (z, c)" by fastforce
  have "bcd_ok z" "bcd_val z + 100 * of_bool c = 10 * (?a + ?c) + (?b + ?d)"
    using daa_core_correct [of "?a + ?c" "?b + ?d" z c] core dig unfolding fl by simp_all
  moreover have "10 * (?a + ?c) + (?b + ?d) = bcd_val x + bcd_val y" by (simp add: bcd_val_def)
  ultimately show "\<exists>z e'. x86p_bcd_apply kX86pBcdDaa (pack_ax ah (ucast r)) e imm = Some (pack_ax ah z, e') \<and>
      bcd_ok z \<and> bcd_val z + 100 * of_bool (bit e' 0) = bcd_val x + bcd_val y"
    unfolding ucast_byte_value [OF arith_outcome_value [OF o]] using bcd_apply_daa [OF core, of ah imm]
    by (elim exE conjE) (intro exI conjI, assumption+, simp only:)
  obtain n where p: "arith_outcome 1 (16 * (?a - ?c) + (?b - ?d)) n (?b < ?d) q g"
    using alu_sub_outcome [of 1 kX86pAluSub "ucast x" "ucast y" f0] sub(1) unfolding uval_byte diff by auto
  have fl: "bit d 0 = (16 * (?a - ?c) + (?b - ?d) < 0)" "bit d 4 = (?b - ?d < 0)"
    using byte_carry(2) [OF byte_range(2) [of x y]]
    unfolding x86p_eflags_bits(1,3) [OF sub(2)] arith_outcome_cf [OF p] arith_outcome_af [OF p] diff
    by (blast, simp)
  obtain z c where core: "das_core (word_of_int (16 * (?a - ?c) + (?b - ?d))) (bit d 0) (bit d 4) = (z, c)" by fastforce
  have "bcd_ok z" "bcd_val z - 100 * of_bool c = 10 * (?a - ?c) + (?b - ?d)"
    using das_core_correct [of "?a - ?c" "?b - ?d" z c] core dig unfolding fl by simp_all
  moreover have "10 * (?a - ?c) + (?b - ?d) = bcd_val x - bcd_val y" by (simp add: bcd_val_def)
  ultimately show "\<exists>z d'. x86p_bcd_apply kX86pBcdDas (pack_ax ah (ucast q)) d imm = Some (pack_ax ah z, d') \<and>
      bcd_ok z \<and> bcd_val z - 100 * of_bool (bit d' 0) = bcd_val x - bcd_val y"
    unfolding ucast_byte_value [OF arith_outcome_value [OF p]] using bcd_apply_das [OF core, of ah imm]
    by (elim exE conjE) (intro exI conjI, assumption+, simp only:)
qed

theorem decimal_adjust_correct_witness:
  "\<exists>r f e z e'. x86p_alu kX86pAluAdd 0x58 0x67 1 flags_zero = Some (r, f) \<and> x86p_eflags f = Some e \<and>
     x86p_bcd_apply kX86pBcdDaa (pack_ax 0 (ucast r)) e 0 = Some (pack_ax 0 z, e') \<and>
     bcd_val z + 100 * of_bool (bit e' 0) = 125"
proof -
  have ok: "bcd_ok 0x58" "bcd_ok 0x67" "bcd_val 0x58 + bcd_val 0x67 = 125" by (simp_all add: bcd_ok_def bcd_val_def)
  have u: "(ucast (0x58 :: u8) :: u32) = 0x58" "(ucast (0x67 :: u8) :: u32) = 0x67" by simp_all
  obtain r f where 1: "x86p_alu kX86pAluAdd 0x58 0x67 1 flags_zero = Some (r, f)"
    using alu_add_outcome [of 1] by blast
  obtain q g where 2: "x86p_alu kX86pAluSub 0x58 0x67 1 flags_zero = Some (q, g)"
    using alu_sub_outcome [of 1 kX86pAluSub] by blast
  obtain n where "arith_outcome 1 (uval 1 0x58 + uval 1 0x67) (sval 1 0x58 + sval 1 0x67) n r f"
    using alu_add_outcome [of 1 "0x58" "0x67" flags_zero] 1 by auto
  then obtain e where 3: "x86p_eflags f = Some e" using arith_outcome_of eflags_total_of by blast
  obtain n where "arith_outcome 1 (uval 1 0x58 - uval 1 0x67) (sval 1 0x58 - sval 1 0x67) n q g"
    using alu_sub_outcome [of 1 kX86pAluSub "0x58" "0x67" flags_zero] 2 by auto
  then obtain d where 4: "x86p_eflags g = Some d" using arith_outcome_of eflags_total_of by blast
  obtain z e' where "x86p_bcd_apply kX86pBcdDaa (pack_ax 0 (ucast r)) e 0 = Some (pack_ax 0 z, e')"
    "bcd_val z + 100 * of_bool (bit e' 0) = 125"
    using decimal_adjust_correct [OF ok(1,2), unfolded u, OF 1 3 2 4, of 0 0] unfolding ok(3) by blast
  then show ?thesis using 1 3 by blast
qed

lemma set_result_flags_bit: "n \<notin> {2, 6, 7} \<Longrightarrow> bit (set_result_flags f al) n = bit f n"
  by (simp add: set_result_flags_def Let_def bit_set_flag)

text \<open>
  AAM by any nonzero base splits AL into quotient and remainder, AAD with the same base
  puts them back together, so AAD undoes AAM and clears AH; AAM by zero is the divide error.
\<close>

theorem aam_aad_roundtrip:
  "x86p_bcd_apply kX86pBcdAam (pack_ax ah al) e 0 = None \<and>
   (imm \<noteq> 0 \<longrightarrow> (\<exists>e1 e2. x86p_bcd_apply kX86pBcdAam (pack_ax ah al) e imm = Some (pack_ax (al div imm) (al mod imm), e1) \<and>
      x86p_bcd_apply kX86pBcdAad (pack_ax (al div imm) (al mod imm)) e1 imm = Some (pack_ax 0 al, e2)))"
proof (intro conjI impI)
  show "x86p_bcd_apply kX86pBcdAam (pack_ax ah al) e 0 = None" by (simp add: x86p_bcd_apply_def)
  assume "imm \<noteq> 0"
  have "word_of_int (uint (al mod imm) + uint (al div imm * imm)) = al mod imm + al div imm * imm" by simp
  also have "\<dots> = al" by (simp add: mod_div_mult_eq)
  finally show "\<exists>e1 e2. x86p_bcd_apply kX86pBcdAam (pack_ax ah al) e imm = Some (pack_ax (al div imm) (al mod imm), e1) \<and>
      x86p_bcd_apply kX86pBcdAad (pack_ax (al div imm) (al mod imm)) e1 imm = Some (pack_ax 0 al, e2)"
    using \<open>imm \<noteq> 0\<close> by (simp add: x86p_bcd_apply_def pack_ax_parts Let_def)
qed

theorem aam_aad_roundtrip_witness:
  "\<exists>e1 e2. x86p_bcd_apply kX86pBcdAam 0x0063 0x202 10 = Some (pack_ax 9 9, e1) \<and>
     x86p_bcd_apply kX86pBcdAad (pack_ax 9 9) e1 10 = Some (pack_ax 0 0x63, e2)"
  using aam_aad_roundtrip [of 0 "0x63" "0x202" 10] by (simp add: pack_ax_def)

end
