(* ===== verification/X86_Sparse.thy ===== *)
theory X86_Sparse
  imports X86_Prelude
begin

text \<open>
  The sparse guest mapping of \<open>src/src/x86port/memory_sparse.h\<close> and \<open>memory_sparse.c\<close>: an
  ordered table of guest ranges, each borrowed from a host allocation, with its binary
  search, range queries and transactional updates.

  Host pointers are 64-bit addresses (the null pointer is 0) and \<open>size_t\<close> is 64 bits wide;
  \<open>sizeof (Mapping)\<close> is 32.  Whether \<open>realloc\<close> or \<open>malloc\<close> succeeds is the argument
  \<open>heap_ok\<close> of the operations that call it.  A returned \<open>None\<close> is the code's 0, after which the
  table is unchanged.
\<close>

section \<open>State\<close>

record mapping =
  mp_guest :: u32
  mp_size :: u32
  mp_host :: u64
  mp_access :: u32
  mp_allocation :: u64

record sparse =
  sp_mappings :: "mapping list"
  sp_capacity :: nat
  sp_next_allocation :: u64

definition kX86pMemRead :: u32 where "kX86pMemRead = 1"
definition kX86pMemWrite :: u32 where "kX86pMemWrite = 2"

definition x86p_sparse_create :: sparse where
  "x86p_sparse_create = \<lparr>sp_mappings = [], sp_capacity = 0, sp_next_allocation = 0\<rparr>"

definition sizeof_mapping :: nat where "sizeof_mapping = 32"

definition bad_access :: "u32 \<Rightarrow> bool" where
  "bad_access access \<longleftrightarrow> access AND NOT (kX86pMemRead OR kX86pMemWrite) \<noteq> 0"

definition grants :: "u32 \<Rightarrow> u32 \<Rightarrow> bool" where
  "grants have access \<longleftrightarrow> have AND access = access"

section \<open>Binary search\<close>

function upper_bound_loop :: "mapping list \<Rightarrow> u32 \<Rightarrow> nat \<Rightarrow> nat \<Rightarrow> nat" where
  "upper_bound_loop ms guest lo hi =
     (if lo < hi then
        let mid = lo + (hi - lo) div 2 in
        if mp_guest (ms ! mid) \<le> guest then upper_bound_loop ms guest (mid + 1) hi
        else upper_bound_loop ms guest lo mid
      else lo)"
  by pat_completeness auto
termination by (relation "measure (\<lambda>(ms, guest, lo, hi). hi - lo)") auto

declare upper_bound_loop.simps [simp del]

definition upper_bound :: "sparse \<Rightarrow> u32 \<Rightarrow> nat" where
  "upper_bound sp guest = upper_bound_loop (sp_mappings sp) guest 0 (length (sp_mappings sp))"

section \<open>Mapping and unmapping whole ranges\<close>

definition x86p_sparse_range_available :: "sparse \<Rightarrow> u32 \<Rightarrow> u32 \<Rightarrow> bool" where
  "x86p_sparse_range_available sp guest sz =
     (if sz = 0 \<or> 0xFFFFFFFF - (sz - 1) < guest then False
      else let ms = sp_mappings sp; at = upper_bound sp guest in
        \<not> (at \<noteq> 0 \<and> guest - mp_guest (ms ! (at - 1)) < mp_size (ms ! (at - 1))) \<and>
        \<not> (at < length ms \<and> mp_guest (ms ! at) - guest < sz))"

definition x86p_sparse_map_access ::
  "bool \<Rightarrow> sparse \<Rightarrow> u32 \<Rightarrow> u64 \<Rightarrow> u32 \<Rightarrow> u32 \<Rightarrow> sparse option" where
  "x86p_sparse_map_access heap_ok sp guest host sz access =
     (if host = 0 \<or> sz = 0 \<or> bad_access access \<or> sp_next_allocation sp = 0xFFFFFFFFFFFFFFFF \<or>
         0xFFFFFFFF - (sz - 1) < guest \<or> 0xFFFFFFFFFFFFFFFF - (ucast sz - 1) < host then None
      else if \<not> x86p_sparse_range_available sp guest sz then None
      else
        let at = upper_bound sp guest; ms = sp_mappings sp; count = length ms in do {
          sp \<leftarrow> (if count = sp_capacity sp then
                 let capacity = (if sp_capacity sp \<noteq> 0 then (sp_capacity sp * 2) mod 2 ^ 64 else 16) in
                 if capacity < sp_capacity sp \<or> (2 ^ 64 - 1) div sizeof_mapping < capacity then None
                 else if \<not> heap_ok then None
                 else Some (sp\<lparr>sp_capacity := capacity\<rparr>)
               else Some sp);
          let allocation = sp_next_allocation sp + 1;
          Some (sp\<lparr>sp_mappings := take at ms @
                    \<lparr>mp_guest = guest, mp_size = sz, mp_host = host, mp_access = access,
                     mp_allocation = allocation\<rparr> # drop at ms,
                   sp_next_allocation := allocation\<rparr>)
        })"

definition x86p_sparse_map :: "bool \<Rightarrow> sparse \<Rightarrow> u32 \<Rightarrow> u64 \<Rightarrow> u32 \<Rightarrow> sparse option" where
  "x86p_sparse_map heap_ok sp guest host sz =
     x86p_sparse_map_access heap_ok sp guest host sz (kX86pMemRead OR kX86pMemWrite)"

definition x86p_sparse_unmap :: "sparse \<Rightarrow> u32 \<Rightarrow> u32 \<Rightarrow> sparse option" where
  "x86p_sparse_unmap sp guest sz =
     (let at = upper_bound sp guest; ms = sp_mappings sp in
      if at = 0 then None
      else if mp_guest (ms ! (at - 1)) \<noteq> guest \<or> mp_size (ms ! (at - 1)) \<noteq> sz then None
      else Some (sp\<lparr>sp_mappings := take (at - 1) ms @ drop at ms\<rparr>))"

section \<open>Queries\<close>

text \<open>The number of bytes and their host address; \<open>None\<close> is a returned 0.\<close>

definition x86p_sparse_span_access :: "sparse \<Rightarrow> u32 \<Rightarrow> u32 \<Rightarrow> u32 \<Rightarrow> (u32 \<times> u64) option" where
  "x86p_sparse_span_access sp guest limit access =
     (let at = upper_bound sp guest in
      if limit = 0 \<or> at = 0 then None
      else
        let m = sp_mappings sp ! (at - 1); offset = guest - mp_guest m in
        if mp_size m \<le> offset \<or> \<not> grants (mp_access m) access then None
        else
          let available = mp_size m - offset in
          Some (if available < limit then available else limit, mp_host m + ucast offset))"

definition x86p_sparse_span :: "sparse \<Rightarrow> u32 \<Rightarrow> u32 \<Rightarrow> (u32 \<times> u64) option" where
  "x86p_sparse_span sp guest limit = x86p_sparse_span_access sp guest limit kX86pMemRead"

definition maps_back :: "u64 \<Rightarrow> u32 \<Rightarrow> mapping \<Rightarrow> bool" where
  "maps_back address sz m \<longleftrightarrow>
     mp_host m \<le> address \<and> address - mp_host m < ucast (mp_size m) \<and>
     ucast sz \<le> (ucast (mp_size m) :: u64) - (address - mp_host m)"

text \<open>The scan keeps the one match it has seen and refuses on the second.\<close>

fun guest_address_loop :: "mapping list \<Rightarrow> u64 \<Rightarrow> u32 \<Rightarrow> u32 option \<Rightarrow> u32 option" where
  "guest_address_loop [] address sz found = found"
| "guest_address_loop (m # ms) address sz found =
     (if maps_back address sz m then
        (if found \<noteq> None then None
         else guest_address_loop ms address sz (Some (mp_guest m + ucast (address - mp_host m))))
      else guest_address_loop ms address sz found)"

definition x86p_sparse_guest_address :: "sparse \<Rightarrow> u64 \<Rightarrow> u32 \<Rightarrow> u32 option" where
  "x86p_sparse_guest_address sp host sz =
     (if host = 0 \<or> sz = 0 \<or> 0xFFFFFFFFFFFFFFFF - (ucast sz - 1) < host then None
      else guest_address_loop (sp_mappings sp) host sz None)"

text \<open>\<open>x86p_sparse_host_in_use\<close>; \<open>sz\<close> is a \<open>size_t\<close>.\<close>

definition host_overlaps :: "u64 \<Rightarrow> u64 \<Rightarrow> mapping \<Rightarrow> bool" where
  "host_overlaps start sz m =
     (if start \<le> mp_host m then mp_host m - start < sz else start - mp_host m < ucast (mp_size m))"

definition x86p_sparse_host_in_use :: "sparse \<Rightarrow> u64 \<Rightarrow> u64 \<Rightarrow> bool" where
  "x86p_sparse_host_in_use sp host sz =
     (if host = 0 \<or> sz = 0 \<or> 0xFFFFFFFFFFFFFFFF - (sz - 1) < host then False
      else list_ex (host_overlaps host sz) (sp_mappings sp))"

section \<open>Range updates\<close>

text \<open>
  The \<open>uint64_t\<close> cursor and end of \<open>whole_span\<close> never exceed \<open>2 ^ 32\<close>, so they are natural
  numbers here; the loop advances by the nonzero count the span query returned.
\<close>

function whole_span_loop :: "sparse \<Rightarrow> nat \<Rightarrow> nat \<Rightarrow> bool" where
  "whole_span_loop sp cursor end =
     (if cursor < end then
        (case x86p_sparse_span_access sp (of_nat cursor) (of_nat (end - cursor)) 0 of
           None \<Rightarrow> False
         | Some (count, _) \<Rightarrow> if count = 0 then False else whole_span_loop sp (cursor + unat count) end)
      else True)"
  by pat_completeness auto
termination
  by (relation "measure (\<lambda>(sp, cursor, end). end - cursor)") (auto simp: unat_gt_0 diff_less_mono2)

declare whole_span_loop.simps [simp del]

definition whole_span :: "sparse \<Rightarrow> u32 \<Rightarrow> u32 \<Rightarrow> bool" where
  "whole_span sp guest sz =
     (let end = unat guest + unat sz in
      if sz = 0 \<or> 2 ^ 32 < end then False else whole_span_loop sp (unat guest) end)"

text \<open>
  What one mapping becomes under \<open>change_range\<close>: itself when it lies outside the range, else
  its prefix, its middle (with the new access, unless the range is removed) and its suffix.
\<close>

definition change_mapping :: "u32 \<Rightarrow> nat \<Rightarrow> u32 \<Rightarrow> bool \<Rightarrow> mapping \<Rightarrow> mapping list" where
  "change_mapping guest end access remove m =
     (let mend = unat (mp_guest m) + unat (mp_size m) in
      if mend \<le> unat guest \<or> end \<le> unat (mp_guest m) then [m]
      else
        (if mp_guest m < guest then [m\<lparr>mp_size := guest - mp_guest m\<rparr>] else []) @
        (if remove then []
         else let first = (if mp_guest m < guest then guest else mp_guest m) in
           [m\<lparr>mp_guest := first, mp_host := mp_host m + ucast (first - mp_guest m),
              mp_size := of_nat ((if mend < end then mend else end) - unat first), mp_access := access\<rparr>]) @
        (if end < mend then
           [m\<lparr>mp_guest := of_nat end, mp_host := mp_host m + of_nat (end - unat (mp_guest m)),
              mp_size := of_nat (mend - end)\<rparr>]
         else []))"

definition change_range :: "bool \<Rightarrow> sparse \<Rightarrow> u32 \<Rightarrow> u32 \<Rightarrow> u32 \<Rightarrow> bool \<Rightarrow> sparse option" where
  "change_range heap_ok sp guest sz access remove =
     (let end = unat guest + unat sz; ms = sp_mappings sp in
      if bad_access access \<or> sz = 0 \<or> 2 ^ 32 < end \<or>
         (\<not> remove \<and> \<not> whole_span sp guest sz) \<or> (2 ^ 64 - 1) div sizeof_mapping - 2 < length ms then None
      else if \<not> heap_ok then None
      else Some (sp\<lparr>sp_mappings := concat (List.map (change_mapping guest end access remove) ms),
                    sp_capacity := length ms + 2\<rparr>))"

definition x86p_sparse_protect :: "bool \<Rightarrow> sparse \<Rightarrow> u32 \<Rightarrow> u32 \<Rightarrow> u32 \<Rightarrow> sparse option" where
  "x86p_sparse_protect heap_ok sp guest sz access = change_range heap_ok sp guest sz access False"

definition x86p_sparse_unmap_range :: "bool \<Rightarrow> sparse \<Rightarrow> u32 \<Rightarrow> u32 \<Rightarrow> sparse option" where
  "x86p_sparse_unmap_range heap_ok sp guest sz = change_range heap_ok sp guest sz 0 True"

section \<open>Resolving a whole host span\<close>

text \<open>
  The walk of \<open>x86p_sparse_resolve\<close>: \<open>at\<close> is one more than the index of the mapping it looks
  at, and \<open>start\<close> is still unset (0) on the first turn.
\<close>

function resolve_loop ::
  "sparse \<Rightarrow> u32 \<Rightarrow> u64 \<Rightarrow> u32 \<Rightarrow> nat \<Rightarrow> nat \<Rightarrow> nat \<Rightarrow> u64 \<Rightarrow> (nat \<times> u64) option" where
  "resolve_loop sp guest allocation access cursor end at start =
     (if cursor < end \<and> at \<le> length (sp_mappings sp) then
        let m = sp_mappings sp ! (at - 1); offset = of_nat cursor - mp_guest m in
        if cursor < unat (mp_guest m) \<or> mp_size m \<le> offset \<or> mp_allocation m \<noteq> allocation \<or>
           \<not> grants (mp_access m) access then None
        else if start \<noteq> 0 \<and> mp_host m + ucast offset \<noteq> start + of_nat (cursor - unat guest) then None
        else
          let start' = (if start = 0 then mp_host m + ucast offset else start);
              available = mp_size m - offset in
          resolve_loop sp guest allocation access (cursor + min (unat available) (end - cursor)) end (at + 1) start'
      else Some (cursor, start))"
  by pat_completeness auto
termination
  by (relation "measure (\<lambda>(sp, guest, al, access, cursor, end, at, start). length (sp_mappings sp) + 1 - at)") auto

declare resolve_loop.simps [simp del]

definition x86p_sparse_resolve :: "sparse \<Rightarrow> u32 \<Rightarrow> u32 \<Rightarrow> u32 \<Rightarrow> u64 option" where
  "x86p_sparse_resolve sp guest sz access =
     (let end = unat guest + unat sz; at = upper_bound sp guest in
      if sz = 0 \<or> 2 ^ 32 < end \<or> at = 0 then None
      else
        (case resolve_loop sp guest (mp_allocation (sp_mappings sp ! (at - 1))) access (unat guest) end at 0 of
           None \<Rightarrow> None
         | Some (cursor, start) \<Rightarrow> if cursor \<noteq> end then None else Some start))"

section \<open>Invariant and byte view\<close>

abbreviation mg :: "mapping \<Rightarrow> nat" where
  "mg m \<equiv> unat (mp_guest m)"

abbreviation me :: "mapping \<Rightarrow> nat" where
  "me m \<equiv> unat (mp_guest m) + unat (mp_size m)"

text \<open>
  One range: not empty, not wrapping the guest or the host address space, with meaningful
  access bits.  The table: every range well formed, in ascending order without overlap.
\<close>

definition mapping_ok :: "mapping \<Rightarrow> bool" where
  "mapping_ok m \<longleftrightarrow> mp_size m \<noteq> 0 \<and> me m \<le> 2 ^ 32 \<and> mp_host m \<noteq> 0 \<and>
     unat (mp_host m) + unat (mp_size m) \<le> 2 ^ 64 \<and> \<not> bad_access (mp_access m)"

definition sparse_ok :: "sparse \<Rightarrow> bool" where
  "sparse_ok sp \<longleftrightarrow> (\<forall>m \<in> set (sp_mappings sp). mapping_ok m) \<and>
     sorted_wrt (\<lambda>a b. me a \<le> mg b) (sp_mappings sp)"

definition contains :: "mapping \<Rightarrow> u32 \<Rightarrow> bool" where
  "contains m a \<longleftrightarrow> mg m \<le> unat a \<and> unat a < me m"

definition sp_look :: "sparse \<Rightarrow> u32 \<Rightarrow> mapping option" where
  "sp_look sp a = List.find (\<lambda>m. contains m a) (sp_mappings sp)"

text \<open>What the table says of one guest byte: its host address, access bits and allocation.\<close>

definition sp_byte :: "sparse \<Rightarrow> u32 \<Rightarrow> (u64 \<times> u32 \<times> u64) option" where
  "sp_byte sp a =
     (case sp_look sp a of None \<Rightarrow> None
      | Some m \<Rightarrow> Some (mp_host m + ucast (a - mp_guest m), mp_access m, mp_allocation m))"

lemma unat_minus: "g \<le> a \<Longrightarrow> unat (a - g) = unat a - unat (g :: u32)"
  by (simp add: unat_sub)

lemma contains_offset:
  assumes "mapping_ok m"
  shows "(a - mp_guest m < mp_size m) = contains m a"
proof (cases "mp_guest m \<le> a")
  case True
  then have "unat (a - mp_guest m) = unat a - mg m" by (rule unat_minus)
  then show ?thesis using True by (auto simp: contains_def word_less_nat_alt word_le_nat_alt)
next
  case False
  then have lt: "unat a < mg m" by (simp add: word_le_nat_alt)
  have "unat (a - mp_guest m) = 2 ^ 32 + unat a - mg m"
    using lt unat_sub_if_size [of a "mp_guest m"] by (simp add: word_size)
  then have "\<not> a - mp_guest m < mp_size m"
    using assms lt by (auto simp: mapping_ok_def word_less_nat_alt)
  then show ?thesis using lt by (simp add: contains_def)
qed

lemma sorted_nth:
  assumes "sparse_ok sp" "i < j" "j < length (sp_mappings sp)"
  shows "me (sp_mappings sp ! i) \<le> mg (sp_mappings sp ! j)"
  using assms by (auto simp: sparse_ok_def sorted_wrt_iff_nth_less)

lemma nth_ok: "sparse_ok sp \<Longrightarrow> i < length (sp_mappings sp) \<Longrightarrow> mapping_ok (sp_mappings sp ! i)"
  by (simp add: sparse_ok_def)

lemma contains_unique:
  assumes "sparse_ok sp" "m \<in> set (sp_mappings sp)" "m' \<in> set (sp_mappings sp)" "contains m a" "contains m' a"
  shows "m = m'"
proof -
  obtain i j where ij: "i < length (sp_mappings sp)" "m = sp_mappings sp ! i"
    "j < length (sp_mappings sp)" "m' = sp_mappings sp ! j"
    using assms(2,3) by (metis in_set_conv_nth)
  show ?thesis
    using ij assms(4,5) sorted_nth [OF assms(1), of i j] sorted_nth [OF assms(1), of j i]
    by (cases i j rule: linorder_cases) (auto simp: contains_def)
qed

lemma sp_look_iff:
  assumes "sparse_ok sp"
  shows "sp_look sp a = Some m \<longleftrightarrow> m \<in> set (sp_mappings sp) \<and> contains m a"
proof
  assume "sp_look sp a = Some m"
  then show "m \<in> set (sp_mappings sp) \<and> contains m a"
    unfolding sp_look_def by (auto simp: find_Some_iff)
next
  assume m: "m \<in> set (sp_mappings sp) \<and> contains m a"
  then have "sp_look sp a \<noteq> None" unfolding sp_look_def find_None_iff by auto
  then obtain m' where m': "sp_look sp a = Some m'" by auto
  then have "m' \<in> set (sp_mappings sp) \<and> contains m' a"
    unfolding sp_look_def by (auto simp: find_Some_iff)
  then show "sp_look sp a = Some m" using m' m contains_unique [OF assms] by blast
qed

lemma sp_look_None_iff: "sp_look sp a = None \<longleftrightarrow> (\<forall>m \<in> set (sp_mappings sp). \<not> contains m a)"
  by (auto simp: sp_look_def find_None_iff)

section \<open>The binary search finds the range\<close>

lemma upper_bound_loop_spec:
  assumes "\<forall>i < lo. mp_guest (ms ! i) \<le> g" "\<forall>i. hi \<le> i \<and> i < n \<longrightarrow> g < mp_guest (ms ! i)"
    and "lo \<le> hi" "hi \<le> n"
    and mono: "\<And>i j. i < j \<Longrightarrow> j < n \<Longrightarrow> mp_guest (ms ! i) < mp_guest (ms ! j)"
  shows "let k = upper_bound_loop ms g lo hi in k \<le> n \<and> (\<forall>i < k. mp_guest (ms ! i) \<le> g) \<and>
    (\<forall>i. k \<le> i \<and> i < n \<longrightarrow> g < mp_guest (ms ! i))"
  using assms(1-4)
proof (induction "hi - lo" arbitrary: lo hi rule: less_induct)
  case less
  show ?case
  proof (cases "lo < hi")
    case True
    let ?mid = "lo + (hi - lo) div 2"
    have mid: "lo \<le> ?mid" "?mid < hi" using True by auto
    have dec: "hi - (?mid + 1) < hi - lo" "?mid - lo < hi - lo" using mid by linarith+
    show ?thesis
    proof (cases "mp_guest (ms ! ?mid) \<le> g")
      case le: True
      have "\<forall>i < ?mid + 1. mp_guest (ms ! i) \<le> g"
      proof (intro allI impI)
        fix i assume "i < ?mid + 1"
        then have "i = ?mid \<or> i < ?mid" by linarith
        moreover have "?mid < n" using mid less.prems(4) by linarith
        ultimately show "mp_guest (ms ! i) \<le> g" using le mono [of i ?mid] by auto
      qed
      then show ?thesis
        using less.hyps [OF dec(1)] less.prems mid True le upper_bound_loop.simps [of ms g lo hi]
        by (simp add: Let_def)
    next
      case gt: False
      have "\<forall>i. ?mid \<le> i \<and> i < n \<longrightarrow> g < mp_guest (ms ! i)"
      proof (intro allI impI)
        fix i assume i: "?mid \<le> i \<and> i < n"
        then have "i = ?mid \<or> ?mid < i" by linarith
        then show "g < mp_guest (ms ! i)" using gt mono [of ?mid i] i by auto
      qed
      then show ?thesis
        using less.hyps [OF dec(2)] less.prems mid True gt upper_bound_loop.simps [of ms g lo hi]
        by (simp add: Let_def)
    qed
  next
    case False
    then show ?thesis using less.prems upper_bound_loop.simps [of ms g lo hi] by (simp add: Let_def)
  qed
qed

lemma upper_bound_spec:
  assumes "sparse_ok sp"
  shows "upper_bound sp g \<le> length (sp_mappings sp)"
    and "i < upper_bound sp g \<Longrightarrow> mp_guest (sp_mappings sp ! i) \<le> g"
    and "upper_bound sp g \<le> i \<Longrightarrow> i < length (sp_mappings sp) \<Longrightarrow> g < mp_guest (sp_mappings sp ! i)"
proof -
  let ?ms = "sp_mappings sp"
  have mono: "mp_guest (?ms ! i) < mp_guest (?ms ! j)" if "i < j" "j < length ?ms" for i j
  proof -
    have "mp_size (?ms ! i) \<noteq> 0" using nth_ok [OF assms, of i] that by (simp add: mapping_ok_def)
    then show ?thesis
      using sorted_nth [OF assms that] by (simp add: word_less_nat_alt unat_gt_0 [symmetric] del: unat_gt_0)
  qed
  have "let k = upper_bound sp g in k \<le> length ?ms \<and> (\<forall>i < k. mp_guest (?ms ! i) \<le> g) \<and>
    (\<forall>i. k \<le> i \<and> i < length ?ms \<longrightarrow> g < mp_guest (?ms ! i))"
    unfolding upper_bound_def by (rule upper_bound_loop_spec [OF _ _ _ _ mono]) auto
  then show "upper_bound sp g \<le> length (sp_mappings sp)"
    and "i < upper_bound sp g \<Longrightarrow> mp_guest (sp_mappings sp ! i) \<le> g"
    and "upper_bound sp g \<le> i \<Longrightarrow> i < length (sp_mappings sp) \<Longrightarrow> g < mp_guest (sp_mappings sp ! i)"
    by (auto simp: Let_def)
qed

lemma look_by_upper_bound:
  assumes "sparse_ok sp"
  shows "sp_look sp a = (if upper_bound sp a = 0 then None
    else let m = sp_mappings sp ! (upper_bound sp a - 1) in if contains m a then Some m else None)"
proof -
  let ?k = "upper_bound sp a" and ?ms = "sp_mappings sp"
  note ub = upper_bound_spec [OF assms, where g = a]
  have only: "i = ?k - 1 \<and> ?k \<noteq> 0" if "i < length ?ms" "contains (?ms ! i) a" for i
  proof -
    have "mp_guest (?ms ! i) \<le> a" using that(2) by (simp add: contains_def word_le_nat_alt)
    then have ik: "i < ?k" using ub(3) [of i] that(1) by (meson leD not_le_imp_less)
    have "\<not> i < ?k - 1"
    proof
      assume lt: "i < ?k - 1"
      then have "me (?ms ! i) \<le> mg (?ms ! (?k - 1))" using sorted_nth [OF assms lt] ub(1) by simp
      moreover have "mg (?ms ! (?k - 1)) \<le> unat a" using ub(2) [of "?k - 1"] ik by (simp add: word_le_nat_alt)
      ultimately show False using that(2) by (simp add: contains_def)
    qed
    then show ?thesis using ik by simp
  qed
  show ?thesis
  proof (cases "?k \<noteq> 0 \<and> contains (?ms ! (?k - 1)) a")
    case True
    then have "?ms ! (?k - 1) \<in> set ?ms" using ub(1) by (intro nth_mem) linarith
    then show ?thesis using True by (simp add: sp_look_iff [OF assms] Let_def)
  next
    case False
    then have "sp_look sp a = None"
      unfolding sp_look_None_iff using only by (metis in_set_conv_nth)
    then show ?thesis using False by (auto simp: Let_def)
  qed
qed

section \<open>Span queries\<close>

lemma span_access_look:
  assumes ok: "sparse_ok sp"
  shows "x86p_sparse_span_access sp g lim access =
    (if lim = 0 then None
     else case sp_look sp g of None \<Rightarrow> None
       | Some m \<Rightarrow> if grants (mp_access m) access
           then Some (min (mp_size m - (g - mp_guest m)) lim, mp_host m + ucast (g - mp_guest m)) else None)"
proof -
  let ?k = "upper_bound sp g"
  have c: "(mp_size (sp_mappings sp ! (?k - 1)) \<le> g - mp_guest (sp_mappings sp ! (?k - 1))) =
      (\<not> contains (sp_mappings sp ! (?k - 1)) g)" if "?k \<noteq> 0"
    using contains_offset [OF nth_ok [OF ok], of "?k - 1" g] upper_bound_spec(1) [OF ok, of g] that
    by (simp add: not_less [symmetric])
  show ?thesis
    unfolding x86p_sparse_span_access_def look_by_upper_bound [OF ok, of g] Let_def using c
    by (auto simp: min_def not_less)
qed

lemma add_of_nat_offset:
  assumes "mp_guest m \<le> a"
  shows "(a + i) - mp_guest m = (a - mp_guest m) + (i :: u32)"
  by simp

lemma ucast_add_small:
  assumes "unat (x :: u32) + unat (y :: u32) < 2 ^ 32"
  shows "(ucast (x + y) :: u64) = ucast x + ucast y"
proof (rule word_unat_eq_iff [THEN iffD2])
  have "unat (x + y) = unat x + unat y" using assms by (simp add: unat_add_lem [symmetric])
  then show "unat (ucast (x + y) :: u64) = unat (ucast x + ucast y :: u64)"
    using assms by (simp add: unat_word_ariths unsigned_ucast_eq take_bit_nat_eq_self)
qed

lemma contains_add:
  assumes m: "mapping_ok m" "contains m g" and i: "i < mp_size m - (g - mp_guest m)"
  shows "contains m (g + i)" "mp_host m + ucast (g + i - mp_guest m) = mp_host m + ucast (g - mp_guest m) + ucast i"
    and "unat (g + i) = unat g + unat i"
proof -
  have le: "mp_guest m \<le> g" using m(2) by (simp add: contains_def word_le_nat_alt)
  have off: "unat (g - mp_guest m) = unat g - mg m" using le by (rule unat_minus)
  have offle: "g - mp_guest m \<le> mp_size m"
    using m(2) off unfolding contains_def word_le_nat_alt by linarith
  have lt: "unat i < unat (mp_size m) - (unat g - mg m)"
    using i unat_minus [OF offle] off by (simp add: word_less_nat_alt)
  have b: "unat g + unat i < 2 ^ 32" "unat g + unat i < me m"
    using lt m by (auto simp: contains_def mapping_ok_def)
  show u: "unat (g + i) = unat g + unat i"
    using b(1) by (simp add: unat_add_lem [symmetric])
  then show "contains m (g + i)" using b(2) m(2) by (simp add: contains_def)
  have "unat (g - mp_guest m) + unat i < 2 ^ 32" using off b(1) by linarith
  then show "mp_host m + ucast (g + i - mp_guest m) = mp_host m + ucast (g - mp_guest m) + ucast i"
    using ucast_add_small [of "g - mp_guest m" i] by (simp add: algebra_simps)
qed

lemma span_access_bytes:
  assumes ok: "sparse_ok sp" and s: "x86p_sparse_span_access sp g lim access = Some (n, h)"
  shows "n \<noteq> 0" "n \<le> lim" "unat g + unat n \<le> 2 ^ 32"
    and "i < n \<Longrightarrow> \<exists>have al. sp_byte sp (g + i) = Some (h + ucast i, have, al) \<and> grants have access"
proof -
  from s obtain m where m: "sp_look sp g = Some m" "grants (mp_access m) access" "lim \<noteq> 0"
    "n = min (mp_size m - (g - mp_guest m)) lim" "h = mp_host m + ucast (g - mp_guest m)"
    unfolding span_access_look [OF ok] by (auto split: if_splits option.splits)
  have mm: "m \<in> set (sp_mappings sp)" "contains m g" using m(1) by (simp_all add: sp_look_iff [OF ok])
  have mok: "mapping_ok m" using ok mm by (simp add: sparse_ok_def)
  have lt: "g - mp_guest m < mp_size m" using contains_offset [OF mok] mm by simp
  show "n \<noteq> 0" unfolding m(4) using lt m(3) by (auto simp: min_def)
  show "n \<le> lim" unfolding m(4) by simp
  have le: "mp_guest m \<le> g" using mm by (simp add: contains_def word_le_nat_alt)
  have "unat n \<le> unat (mp_size m - (g - mp_guest m))" unfolding m(4) by (auto simp: min_def word_le_nat_alt)
  also have "\<dots> = unat (mp_size m) - (unat g - mg m)"
    using lt by (simp add: unat_minus unat_minus [OF le])
  finally show "unat g + unat n \<le> 2 ^ 32" using mm mok by (auto simp: contains_def mapping_ok_def)
  show "\<exists>have al. sp_byte sp (g + i) = Some (h + ucast i, have, al) \<and> grants have access" if "i < n"
  proof -
    have i: "i < mp_size m - (g - mp_guest m)" using that unfolding m(4) by simp
    have "sp_look sp (g + i) = Some m"
      using contains_add(1) [OF mok mm(2) i] mm by (simp add: sp_look_iff [OF ok])
    then show ?thesis
      using contains_add(2) [OF mok mm(2) i] m by (simp add: sp_byte_def)
  qed
qed

lemma span_access_None_iff:
  assumes ok: "sparse_ok sp"
  shows "x86p_sparse_span_access sp g lim access = None \<longleftrightarrow>
    lim = 0 \<or> \<not> (\<exists>h have al. sp_byte sp g = Some (h, have, al) \<and> grants have access)"
  unfolding span_access_look [OF ok] sp_byte_def by (auto split: option.splits)

section \<open>Mapping a range\<close>

definition in_range :: "u32 \<Rightarrow> u32 \<Rightarrow> u32 \<Rightarrow> bool" where
  "in_range g sz a \<longleftrightarrow> unat g \<le> unat a \<and> unat a < unat g + unat sz"

lemma all_ones_minus: "unat (0xFFFFFFFF - (x :: u32)) = 2 ^ 32 - 1 - unat x"
proof -
  have "x \<le> 0xFFFFFFFF" using unat_lt32 [of x] by (simp add: word_le_nat_alt)
  then show ?thesis by (simp add: unat_minus)
qed

lemma no_wrap: "sz \<noteq> 0 \<Longrightarrow> (0xFFFFFFFF - (sz - 1) < g) = (2 ^ 32 < unat g + unat (sz :: u32))"
proof -
  assume "sz \<noteq> 0"
  then have "unat (sz - 1) = unat sz - 1" "0 < unat sz" by (simp_all add: unat_minus_one unat_gt_0)
  then show ?thesis
    unfolding word_less_nat_alt all_ones_minus using unat_lt32 [of sz] by auto
qed

lemma no_wrap64:
  assumes "sz \<noteq> 0"
  shows "(0xFFFFFFFFFFFFFFFF - (ucast (sz :: u32) - 1) < h) = (2 ^ 64 < unat (h :: u64) + unat sz)"
proof -
  note u = unat_ucast_64 [of sz]
  have nz: "(ucast sz :: u64) \<noteq> 0" using assms u by (metis unat_eq_zero)
  have le: "ucast sz - 1 \<le> (0xFFFFFFFFFFFFFFFF :: u64)"
    using unat_lt64 [of "ucast sz - 1"] by (simp add: word_le_nat_alt)
  have "unat (0xFFFFFFFFFFFFFFFF - (ucast sz - 1) :: u64) = 2 ^ 64 - 1 - (unat sz - 1)"
    unfolding unat_sub [OF le] unat_minus_one [OF nz] u by simp
  moreover have "0 < unat sz" using assms by (simp add: unat_gt_0)
  ultimately show ?thesis
    unfolding word_less_nat_alt using unat_lt32 [of sz] by auto
qed

lemma range_available_split:
  assumes ok: "sparse_ok sp"
  shows "x86p_sparse_range_available sp g sz \<longleftrightarrow> sz \<noteq> 0 \<and> unat g + unat sz \<le> 2 ^ 32 \<and>
    (\<forall>i < upper_bound sp g. me (sp_mappings sp ! i) \<le> unat g) \<and>
    (\<forall>i. upper_bound sp g \<le> i \<and> i < length (sp_mappings sp) \<longrightarrow> unat g + unat sz \<le> mg (sp_mappings sp ! i))"
proof (cases "sz = 0 \<or> 2 ^ 32 < unat g + unat sz")
  case True
  then show ?thesis using no_wrap [of sz g] by (auto simp: x86p_sparse_range_available_def)
next
  case False
  let ?k = "upper_bound sp g" and ?ms = "sp_mappings sp"
  note ub = upper_bound_spec [OF ok, where g = g]
  have before: "(?k \<noteq> 0 \<and> g - mp_guest (?ms ! (?k - 1)) < mp_size (?ms ! (?k - 1))) =
      (\<not> (\<forall>i < ?k. me (?ms ! i) \<le> unat g))"
  proof (cases "?k = 0")
    case k: False
    have last: "mapping_ok (?ms ! (?k - 1))" using nth_ok [OF ok] ub(1) k by simp
    have ge: "mg (?ms ! (?k - 1)) \<le> unat g" using ub(2) [of "?k - 1"] k by (simp add: word_le_nat_alt)
    have "(\<forall>i < ?k. me (?ms ! i) \<le> unat g) = (me (?ms ! (?k - 1)) \<le> unat g)"
    proof
      assume le: "me (?ms ! (?k - 1)) \<le> unat g"
      show "\<forall>i < ?k. me (?ms ! i) \<le> unat g"
      proof (intro allI impI)
        fix i assume "i < ?k"
        then have "i = ?k - 1 \<or> i < ?k - 1" by linarith
        moreover have "?k - 1 < length ?ms" using ub(1) k by linarith
        ultimately show "me (?ms ! i) \<le> unat g"
          using le ge sorted_nth [OF ok, of i "?k - 1"] by auto
      qed
    qed (use k in simp)
    then show ?thesis
      unfolding contains_offset [OF last] contains_def using k ge by (simp add: not_le)
  qed simp
  have after: "(?k < length ?ms \<and> mp_guest (?ms ! ?k) - g < sz) =
      (\<not> (\<forall>i. ?k \<le> i \<and> i < length ?ms \<longrightarrow> unat g + unat sz \<le> mg (?ms ! i)))"
  proof (cases "?k < length ?ms")
    case k: True
    have gt: "g < mp_guest (?ms ! ?k)" using ub(3) [of ?k] k by simp
    then have "unat (mp_guest (?ms ! ?k) - g) = mg (?ms ! ?k) - unat g" by (simp add: unat_minus)
    then have lt: "(mp_guest (?ms ! ?k) - g < sz) = (mg (?ms ! ?k) < unat g + unat sz)"
      using gt by (auto simp: word_less_nat_alt)
    have "(\<forall>i. ?k \<le> i \<and> i < length ?ms \<longrightarrow> unat g + unat sz \<le> mg (?ms ! i)) = (unat g + unat sz \<le> mg (?ms ! ?k))"
    proof
      assume le: "unat g + unat sz \<le> mg (?ms ! ?k)"
      show "\<forall>i. ?k \<le> i \<and> i < length ?ms \<longrightarrow> unat g + unat sz \<le> mg (?ms ! i)"
      proof (intro allI impI)
        fix i assume i: "?k \<le> i \<and> i < length ?ms"
        then have "i = ?k \<or> ?k < i" by linarith
        then show "unat g + unat sz \<le> mg (?ms ! i)"
          using le sorted_nth [OF ok, of ?k i] i by auto
      qed
    qed (use k in simp)
    then show ?thesis using k lt by (simp add: not_le)
  qed simp
  show ?thesis
    unfolding x86p_sparse_range_available_def Let_def before after
    using False no_wrap [of sz g] by auto
qed

lemma range_available_iff:
  assumes ok: "sparse_ok sp"
  shows "x86p_sparse_range_available sp g sz \<longleftrightarrow> sz \<noteq> 0 \<and> unat g + unat sz \<le> 2 ^ 32 \<and>
    (\<forall>m \<in> set (sp_mappings sp). me m \<le> unat g \<or> unat g + unat sz \<le> mg m)"
proof -
  let ?k = "upper_bound sp g" and ?ms = "sp_mappings sp"
  note ub = upper_bound_spec [OF ok, where g = g]
  have "(\<forall>i < ?k. me (?ms ! i) \<le> unat g) \<and>
      (\<forall>i. ?k \<le> i \<and> i < length ?ms \<longrightarrow> unat g + unat sz \<le> mg (?ms ! i))"
    if "sz \<noteq> 0" "\<forall>m \<in> set ?ms. me m \<le> unat g \<or> unat g + unat sz \<le> mg m"
  proof (intro conjI allI impI)
    have pos: "0 < unat sz" using that(1) by (simp add: unat_gt_0)
    fix i assume i: "i < ?k"
    then have "?ms ! i \<in> set ?ms" using ub(1) by simp
    then show "me (?ms ! i) \<le> unat g"
      using that(2) ub(2) [OF i] pos by (auto simp: word_le_nat_alt)
  next
    fix i assume i: "?k \<le> i \<and> i < length ?ms"
    then have "?ms ! i \<in> set ?ms" by simp
    moreover have "unat g < mg (?ms ! i)" using ub(3) [of i] i by (simp add: word_less_nat_alt)
    ultimately show "unat g + unat sz \<le> mg (?ms ! i)" using that(2) by fastforce
  qed
  moreover have "\<forall>m \<in> set ?ms. me m \<le> unat g \<or> unat g + unat sz \<le> mg m"
    if "\<forall>i < ?k. me (?ms ! i) \<le> unat g"
      "\<forall>i. ?k \<le> i \<and> i < length ?ms \<longrightarrow> unat g + unat sz \<le> mg (?ms ! i)"
    using that by (metis in_set_conv_nth not_le_imp_less)
  ultimately show ?thesis unfolding range_available_split [OF ok] by blast
qed

text \<open>The range that \<open>x86p_sparse_map_access\<close> inserts.\<close>

definition new_mapping :: "sparse \<Rightarrow> u32 \<Rightarrow> u64 \<Rightarrow> u32 \<Rightarrow> u32 \<Rightarrow> mapping" where
  "new_mapping sp g h sz access = \<lparr>mp_guest = g, mp_size = sz, mp_host = h, mp_access = access,
     mp_allocation = sp_next_allocation sp + 1\<rparr>"

lemma map_access_SomeD:
  assumes "x86p_sparse_map_access heap_ok sp g h sz access = Some sp'"
  shows "mapping_ok (new_mapping sp g h sz access)" "x86p_sparse_range_available sp g sz"
    and "sp_mappings sp' = take (upper_bound sp g) (sp_mappings sp) @
      new_mapping sp g h sz access # drop (upper_bound sp g) (sp_mappings sp)"
proof -
  have g: "h \<noteq> 0" "sz \<noteq> 0" "\<not> bad_access access" "\<not> 0xFFFFFFFF - (sz - 1) < g"
    "\<not> 0xFFFFFFFFFFFFFFFF - (ucast sz - 1) < h" "x86p_sparse_range_available sp g sz"
    using assms by (auto simp: x86p_sparse_map_access_def split: if_splits)
  then show "x86p_sparse_range_available sp g sz" by simp
  show "mapping_ok (new_mapping sp g h sz access)"
    using g no_wrap [OF g(2), of g] no_wrap64 [OF g(2), of h]
    by (simp add: mapping_ok_def new_mapping_def)
  show "sp_mappings sp' = take (upper_bound sp g) (sp_mappings sp) @
      new_mapping sp g h sz access # drop (upper_bound sp g) (sp_mappings sp)"
    using assms by (auto simp: x86p_sparse_map_access_def new_mapping_def Let_def bind_eq_Some_conv split: if_splits)
qed

lemma map_access_ok:
  assumes ok: "sparse_ok sp" and m: "x86p_sparse_map_access heap_ok sp g h sz access = Some sp'"
  shows "sparse_ok sp'"
    and "set (sp_mappings sp') = insert (new_mapping sp g h sz access) (set (sp_mappings sp))"
proof -
  let ?k = "upper_bound sp g" and ?ms = "sp_mappings sp"
  note d = map_access_SomeD [OF m]
  note sp = range_available_split [OF ok, THEN iffD1, OF d(2)]
  show s: "set (sp_mappings sp') = insert (new_mapping sp g h sz access) (set ?ms)"
    unfolding d(3) by (metis append_take_drop_id insert_def list.simps(15) set_append Un_insert_right)
  have t: "me a \<le> unat g" if "a \<in> set (take ?k ?ms)" for a
    using that sp by (auto simp: in_set_conv_nth)
  have dr: "unat g + unat sz \<le> mg a" if "a \<in> set (drop ?k ?ms)" for a
    using that sp upper_bound_spec(1) [OF ok, of g] by (auto simp: in_set_conv_nth)
  have w: "sorted_wrt (\<lambda>a b. me a \<le> mg b) ?ms" using ok by (simp add: sparse_ok_def)
  have "sorted_wrt (\<lambda>a b. me a \<le> mg b) (take ?k ?ms @ drop ?k ?ms)" using w by simp
  then have "sorted_wrt (\<lambda>a b. me a \<le> mg b) (sp_mappings sp')"
    unfolding d(3) sorted_wrt_append using t dr by (auto simp: new_mapping_def)
  then show "sparse_ok sp'" using ok d(1) s by (auto simp: sparse_ok_def)
qed

lemma map_access_bytes:
  assumes ok: "sparse_ok sp" and m: "x86p_sparse_map_access heap_ok sp g h sz access = Some sp'"
  shows "sp_byte sp' a = (if in_range g sz a then Some (h + ucast (a - g), access, sp_next_allocation sp + 1)
      else sp_byte sp a)"
    and "in_range g sz a \<Longrightarrow> sp_byte sp a = None"
proof -
  note k = map_access_ok [OF ok m] and d = map_access_SomeD [OF m]
  have c: "contains (new_mapping sp g h sz access) a = in_range g sz a"
    by (simp add: contains_def in_range_def new_mapping_def)
  have n: "sp_look sp a = None" if "in_range g sz a"
    using range_available_iff [OF ok, THEN iffD1, OF d(2)] that
    unfolding sp_look_None_iff by (fastforce simp: contains_def in_range_def)
  then show "in_range g sz a \<Longrightarrow> sp_byte sp a = None" by (simp add: sp_byte_def)
  have "sp_look sp' a = (if in_range g sz a then Some (new_mapping sp g h sz access) else sp_look sp a)"
  proof (cases "in_range g sz a")
    case True
    then show ?thesis using k c by (simp add: sp_look_iff)
  next
    case False
    then have "sp_look sp' a = Some x \<longleftrightarrow> sp_look sp a = Some x" for x
      using k c by (auto simp: sp_look_iff [OF ok] sp_look_iff [OF k(1)])
    then show ?thesis using False by (metis option.exhaust)
  qed
  then show "sp_byte sp' a = (if in_range g sz a then Some (h + ucast (a - g), access, sp_next_allocation sp + 1)
      else sp_byte sp a)"
    by (simp add: sp_byte_def new_mapping_def)
qed

section \<open>Updating a range\<close>

lemma unat_of_nat32: "n < 2 ^ 32 \<Longrightarrow> unat (of_nat n :: u32) = n"
  by (simp add: unat_of_nat)

text \<open>A part of a mapping: a sub-range with the host addresses and the allocation it had.\<close>

definition part_of :: "mapping \<Rightarrow> mapping \<Rightarrow> bool" where
  "part_of m' m \<longleftrightarrow> mapping_ok m' \<and> mg m \<le> mg m' \<and> me m' \<le> me m \<and> mp_allocation m' = mp_allocation m \<and>
     mp_host m' = mp_host m + ucast (mp_guest m' - mp_guest m)"

definition sub_mapping :: "mapping \<Rightarrow> u32 \<Rightarrow> nat \<Rightarrow> u32 \<Rightarrow> mapping" where
  "sub_mapping m first l access = m\<lparr>mp_guest := first, mp_host := mp_host m + ucast (first - mp_guest m),
      mp_size := of_nat (l - unat first), mp_access := access\<rparr>"

lemma sub_mapping:
  assumes m: "mapping_ok m" and r: "mg m \<le> unat first" "unat first < l" "l \<le> me m" and a: "\<not> bad_access access"
  shows "part_of (sub_mapping m first l access) m"
    and "mg (sub_mapping m first l access) = unat first" "me (sub_mapping m first l access) = l"
    and "mp_access (sub_mapping m first l access) = access"
proof -
  have "l - unat first < 2 ^ 32" using r unat_lt32 [of "mp_size m"] by linarith
  then have sz: "unat (of_nat (l - unat first) :: u32) = l - unat first" by (rule unat_of_nat32)
  show g: "mg (sub_mapping m first l access) = unat first" "mp_access (sub_mapping m first l access) = access"
    by (simp_all add: sub_mapping_def)
  have s: "unat (mp_size (sub_mapping m first l access)) = l - unat first"
    using sz by (simp add: sub_mapping_def del: of_nat_diff)
  show e: "me (sub_mapping m first l access) = l" unfolding s g using r(2) by simp
  have off: "unat (first - mp_guest m) = unat first - mg m"
    using r(1) by (simp add: unat_minus word_le_nat_alt)
  have room: "unat (mp_host m) + unat (mp_size m) \<le> 2 ^ 64" using m by (simp add: mapping_ok_def)
  have lt: "unat (mp_host m) + (unat first - mg m) < 2 ^ 64" using room r by linarith
  have h: "unat (mp_host m + ucast (first - mp_guest m)) = unat (mp_host m) + (unat first - mg m)"
    using lt unat_ucast_64 [of "first - mp_guest m"] off unat_add_lem [of "mp_host m" "ucast (first - mp_guest m)"]
    by simp
  have hh: "mp_host (sub_mapping m first l access) = mp_host m + ucast (first - mp_guest m)"
    "mp_guest (sub_mapping m first l access) = first" "mp_allocation (sub_mapping m first l access) = mp_allocation m"
    by (simp_all add: sub_mapping_def)
  have "mp_host m \<noteq> 0" using m by (simp add: mapping_ok_def)
  then have "0 < unat (mp_host m)" by (simp add: unat_gt_0)
  then have hz: "mp_host m + ucast (first - mp_guest m) \<noteq> 0" using h by (metis add_is_0 less_numeral_extra(3) unat_0)
  have nz: "mp_size (sub_mapping m first l access) \<noteq> 0" using s r(2) by (metis diff_is_0_eq not_le unat_0)
  have "unat (mp_host m) + (unat first - mg m) + (l - unat first) \<le> 2 ^ 64" using room r by linarith
  then have "mapping_ok (sub_mapping m first l access)"
    unfolding mapping_ok_def
  proof (intro conjI)
    show "me (sub_mapping m first l access) \<le> 2 ^ 32" unfolding e using r(3) m by (simp add: mapping_ok_def)
    show "unat (mp_host (sub_mapping m first l access)) + unat (mp_size (sub_mapping m first l access)) \<le> 2 ^ 64"
      if "unat (mp_host m) + (unat first - mg m) + (l - unat first) \<le> 2 ^ 64" unfolding hh(1) h s by (rule that)
    show "mp_host (sub_mapping m first l access) \<noteq> 0" unfolding hh(1) by (rule hz)
    show "\<not> bad_access (mp_access (sub_mapping m first l access))" unfolding g(2) by (rule a)
  qed (rule nz)
  then show "part_of (sub_mapping m first l access) m"
    unfolding part_of_def
  proof (intro conjI)
    show "mg m \<le> mg (sub_mapping m first l access)" unfolding g(1) by (rule r(1))
    show "me (sub_mapping m first l access) \<le> me m" unfolding e by (rule r(3))
  qed (simp_all add: sub_mapping_def)
qed

lemma part_of_self: "mapping_ok m \<Longrightarrow> part_of m m"
  by (simp add: part_of_def)

definition range_piece :: "u32 \<Rightarrow> nat \<Rightarrow> u32 \<Rightarrow> bool \<Rightarrow> mapping \<Rightarrow> mapping \<Rightarrow> bool" where
  "range_piece guest e access remove m m' \<longleftrightarrow> part_of m' m \<and>
     (if me m' \<le> unat guest \<or> e \<le> mg m' then mp_access m' = mp_access m
      else unat guest \<le> mg m' \<and> me m' \<le> e \<and> \<not> remove \<and> mp_access m' = access)"

text \<open>The three pieces, by the bounds they cover.\<close>

lemma change_mapping_pieces:
  assumes m: "mapping_ok m" and a: "\<not> bad_access access" and e: "unat guest < e" "e \<le> 2 ^ 32"
  shows "\<exists>pre mid suf. change_mapping guest e access remove m = pre @ mid @ suf \<and>
    (\<forall>m' \<in> set (pre @ mid @ suf). range_piece guest e access remove m m') \<and>
    sorted_wrt (\<lambda>a b. me a \<le> mg b) (pre @ mid @ suf) \<and>
    (\<forall>b. contains m b \<longrightarrow> (\<exists>m' \<in> set (pre @ mid @ suf). contains m' b) = (\<not> (remove \<and> unat guest \<le> unat b \<and> unat b < e))) \<and>
    length (pre @ mid @ suf) \<le> 1 + (if mg m < unat guest \<and> unat guest < me m then 1 else 0) + (if mg m < e \<and> e < me m then 1 else 0)"
proof (cases "me m \<le> unat guest \<or> e \<le> mg m")
  case True
  then have "change_mapping guest e access remove m = [m]" by (simp add: change_mapping_def Let_def)
  moreover have "range_piece guest e access remove m m"
    using True part_of_self [OF m] by (simp add: range_piece_def)
  moreover have "\<not> (unat guest \<le> unat b \<and> unat b < e)" if "contains m b" for b
    using True that by (auto simp: contains_def)
  ultimately show ?thesis by (intro exI [of _ "[m]"] exI [of _ "[]"]) auto
next
  case False
  then have ov: "unat guest < me m" "mg m < e" by auto
  have macc: "\<not> bad_access (mp_access m)" using m by (simp add: mapping_ok_def)
  define pre where "pre = (if mp_guest m < guest then [m\<lparr>mp_size := guest - mp_guest m\<rparr>] else [])"
  define first where "first = (if mp_guest m < guest then guest else mp_guest m)"
  define l where "l = (if me m < e then me m else e)"
  define p2 where "p2 = sub_mapping m first l access"
  define mid where "mid = (if remove then [] else [p2])"
  define p3 where "p3 = m\<lparr>mp_guest := of_nat e, mp_host := mp_host m + of_nat (e - mg m), mp_size := of_nat (me m - e)\<rparr>"
  define suf where "suf = (if e < me m then [p3] else [])"
  have ch: "change_mapping guest e access remove m = pre @ mid @ suf"
    unfolding change_mapping_def Let_def pre_def mid_def suf_def p2_def p3_def first_def l_def sub_mapping_def
    using ov by (simp del: of_nat_diff)
  have first: "unat first = max (mg m) (unat guest)" by (auto simp: first_def max_def word_less_nat_alt)
  have fl: "mg m \<le> unat first" "unat first < l" "l \<le> me m" "l \<le> e"
    using ov e first unat_gt_0 [of "mp_size m"] m by (auto simp: l_def mapping_ok_def)
  note P2 = sub_mapping [OF m fl(1-3) a, folded p2_def]
  have P1: "part_of p m \<and> mg p = mg m \<and> me p = unat guest \<and> mp_access p = mp_access m \<and> mg m < unat guest"
    if "p \<in> set pre" for p
  proof -
    have lt: "mg m < unat guest" "p = m\<lparr>mp_size := guest - mp_guest m\<rparr>"
      using that by (auto simp: pre_def word_less_nat_alt split: if_splits)
    have u: "unat (guest - mp_guest m) = unat guest - mg m" using lt by (simp add: unat_minus word_le_nat_alt)
    have "of_nat (unat guest - mg m) = guest - mp_guest m" using u by (metis word_of_nat_unat)
    then have "p = sub_mapping m (mp_guest m) (unat guest) (mp_access m)"
      using lt(2) by (simp add: sub_mapping_def del: of_nat_diff)
    then show ?thesis
      using sub_mapping [OF m _ lt(1) _ macc] ov lt(1) by simp
  qed
  have P3: "part_of p m \<and> mg p = e \<and> me p = me m \<and> mp_access p = mp_access m \<and> e < me m" if "p \<in> set suf" for p
  proof -
    have lt: "e < me m" "p = p3" using that by (auto simp: suf_def split: if_splits)
    have e32: "e < 2 ^ 32" using lt m by (simp add: mapping_ok_def)
    have ue: "unat (of_nat e :: u32) = e" by (rule unat_of_nat32 [OF e32])
    have "unat (of_nat e - mp_guest m) = e - mg m" using ue ov by (simp add: unat_minus word_le_nat_alt)
    then have "(ucast (of_nat e - mp_guest m :: u32) :: u64) = of_nat (e - mg m)"
      by (metis unat_ucast_64 word_of_nat_unat)
    then have p: "p = sub_mapping m (of_nat e) (me m) (mp_access m)"
      unfolding lt(2) p3_def sub_mapping_def ue by simp
    show ?thesis
      using sub_mapping [OF m, of "of_nat e" "me m" "mp_access m"] ov(2) lt(1) macc unfolding p ue by simp
  qed
  have pieces: "\<forall>m' \<in> set (pre @ mid @ suf). range_piece guest e access remove m m'"
  proof
    fix p assume "p \<in> set (pre @ mid @ suf)"
    then consider "p \<in> set pre" | "p = p2" "\<not> remove" | "p \<in> set suf" by (auto simp: mid_def split: if_splits)
    then show "range_piece guest e access remove m p"
    proof cases
      case 2
      then show ?thesis using P2 fl first by (auto simp: range_piece_def)
    next
      case 1
      then have "me p \<le> unat guest" using P1 [OF 1] by linarith
      then show ?thesis using P1 [OF 1] by (simp only: range_piece_def if_True simp_thms)
    next
      case 3
      then have "e \<le> mg p" using P3 [OF 3] by linarith
      then show ?thesis using P3 [OF 3] by (simp only: range_piece_def if_True simp_thms)
    qed
  qed
  have sorted: "sorted_wrt (\<lambda>a b. me a \<le> mg b) (pre @ mid @ suf)"
  proof -
    have "sorted_wrt (\<lambda>a b. me a \<le> mg b) pre" "sorted_wrt (\<lambda>a b. me a \<le> mg b) mid" "sorted_wrt (\<lambda>a b. me a \<le> mg b) suf"
      by (simp_all add: pre_def mid_def suf_def)
    moreover have "me x \<le> mg y" if "x \<in> set pre" "y \<in> set mid" for x y
      using P1 [OF that(1)] that(2) P2(2) first by (auto simp: mid_def split: if_splits)
    moreover have "me x \<le> mg y" if "x \<in> set pre" "y \<in> set suf" for x y
      using P1 [OF that(1)] P3 [OF that(2)] e(1) by linarith
    moreover have "me x \<le> mg y" if "x \<in> set mid" "y \<in> set suf" for x y
      using P3 [OF that(2)] that(1) P2(3) fl(4) by (auto simp: mid_def split: if_splits)
    ultimately show ?thesis by (simp add: sorted_wrt_append) blast
  qed
  have cover: "(\<exists>m' \<in> set (pre @ mid @ suf). contains m' b) = (\<not> (remove \<and> unat guest \<le> unat b \<and> unat b < e))"
    if c: "contains m b" for b
  proof -
    have c1: "(\<exists>p \<in> set pre. contains p b) = (unat b < unat guest)"
    proof
      assume "unat b < unat guest"
      then have "mp_guest m < guest" using c by (simp add: contains_def word_less_nat_alt)
      then obtain p where p: "p \<in> set pre" by (simp add: pre_def)
      have "contains p b" using P1 [OF p] \<open>unat b < unat guest\<close> c unfolding contains_def by linarith
      then show "\<exists>p \<in> set pre. contains p b" using p by blast
    next
      assume "\<exists>p \<in> set pre. contains p b"
      then obtain p where p: "p \<in> set pre" "contains p b" by blast
      then show "unat b < unat guest" using P1 [OF p(1)] unfolding contains_def by linarith
    qed
    have c3: "(\<exists>p \<in> set suf. contains p b) = (e \<le> unat b)"
    proof
      assume "e \<le> unat b"
      then have p: "p3 \<in> set suf" using c by (simp add: contains_def suf_def)
      have "contains p3 b" using P3 [OF p] \<open>e \<le> unat b\<close> c unfolding contains_def by linarith
      then show "\<exists>p \<in> set suf. contains p b" using p by blast
    next
      assume "\<exists>p \<in> set suf. contains p b"
      then obtain p where p: "p \<in> set suf" "contains p b" by blast
      then show "e \<le> unat b" using P3 [OF p(1)] unfolding contains_def by linarith
    qed
    have c2: "(\<exists>p \<in> set mid. contains p b) = (\<not> remove \<and> unat guest \<le> unat b \<and> unat b < e)"
      using P2 first c by (auto simp: mid_def contains_def l_def)
    show ?thesis using c1 c2 c3 e(1) by (auto simp: bex_Un)
  qed
  have len: "length (pre @ mid @ suf) \<le> 1 + (if mg m < unat guest \<and> unat guest < me m then 1 else 0) + (if mg m < e \<and> e < me m then 1 else 0)"
    using ov by (simp add: pre_def mid_def suf_def word_less_nat_alt)
  show ?thesis using ch pieces sorted cover len by blast
qed

lemma sorted_concat:
  assumes "sorted_wrt (\<lambda>a b. me a \<le> mg b) ms"
    and "\<And>m. m \<in> set ms \<Longrightarrow> sorted_wrt (\<lambda>a b. me a \<le> mg b) (f m)"
    and "\<And>m m'. m \<in> set ms \<Longrightarrow> m' \<in> set (f m) \<Longrightarrow> mg m \<le> mg m' \<and> me m' \<le> me m"
  shows "sorted_wrt (\<lambda>a b. me a \<le> mg b) (concat (List.map f ms))"
  using assms
proof (induction ms)
  case (Cons m ms)
  have "me x \<le> mg y" if xy: "x \<in> set (f m)" "y \<in> set (concat (List.map f ms))" for x y
  proof -
    obtain n where n: "n \<in> set ms" "y \<in> set (f n)" using xy(2) by auto
    have "me x \<le> me m" "mg n \<le> mg y" using Cons.prems(3) xy(1) n by auto
    moreover have "me m \<le> mg n" using Cons.prems(1) n(1) by simp
    ultimately show ?thesis by linarith
  qed
  moreover have "sorted_wrt (\<lambda>a b. me a \<le> mg b) (concat (List.map f ms))"
  proof (rule Cons.IH)
    show "sorted_wrt (\<lambda>a b. me a \<le> mg b) ms" using Cons.prems(1) by simp
    show "sorted_wrt (\<lambda>a b. me a \<le> mg b) (f n)" if "n \<in> set ms" for n
      using that by (intro Cons.prems(2)) simp
    show "mg n \<le> mg n' \<and> me n' \<le> me n" if "n \<in> set ms" "n' \<in> set (f n)" for n n'
      using that by (intro Cons.prems(3)) simp_all
  qed
  ultimately show ?case using Cons.prems(2) [of m] by (simp add: sorted_wrt_append)
qed simp

lemma straddle_once:
  assumes "sorted_wrt (\<lambda>a b. me a \<le> mg b) ms"
  shows "length (filter (\<lambda>m. mg m < x \<and> x < me m) ms) \<le> 1"
  using assms
proof (induction ms)
  case (Cons m ms)
  have "filter (\<lambda>m. mg m < x \<and> x < me m) ms = []" if "mg m < x \<and> x < me m"
    using that Cons.prems by (fastforce simp: filter_empty_conv)
  then show ?case using Cons by auto
qed simp

lemma change_range_SomeD:
  assumes "change_range heap_ok sp guest sz access remove = Some sp'"
  shows "\<not> bad_access access" "sz \<noteq> 0" "unat guest + unat sz \<le> 2 ^ 32"
    and "\<not> remove \<Longrightarrow> whole_span sp guest sz"
    and "sp_mappings sp' = concat (List.map (change_mapping guest (unat guest + unat sz) access remove) (sp_mappings sp))"
    and "sp_capacity sp' = length (sp_mappings sp) + 2"
  using assms by (auto simp: change_range_def Let_def split: if_splits)

lemma change_range_pieces:
  assumes ok: "sparse_ok sp" and c: "change_range heap_ok sp guest sz access remove = Some sp'"
    and m: "m \<in> set (sp_mappings sp)"
  defines "f \<equiv> change_mapping guest (unat guest + unat sz) access remove"
  shows "m' \<in> set (f m) \<Longrightarrow> range_piece guest (unat guest + unat sz) access remove m m'"
    and "sorted_wrt (\<lambda>a b. me a \<le> mg b) (f m)"
    and "contains m b \<Longrightarrow> (\<exists>m' \<in> set (f m). contains m' b) = (\<not> (remove \<and> in_range guest sz b))"
    and "length (f m) \<le> 1 + (if mg m < unat guest \<and> unat guest < me m then 1 else 0) +
      (if mg m < unat guest + unat sz \<and> unat guest + unat sz < me m then 1 else 0)"
proof -
  note d = change_range_SomeD [OF c]
  have mok: "mapping_ok m" using ok m by (simp add: sparse_ok_def)
  have lt: "unat guest < unat guest + unat sz" using d(2) by (simp add: unat_gt_0)
  obtain pre mid suf where p: "f m = pre @ mid @ suf"
    "\<forall>m' \<in> set (pre @ mid @ suf). range_piece guest (unat guest + unat sz) access remove m m'"
    "sorted_wrt (\<lambda>a b. me a \<le> mg b) (pre @ mid @ suf)"
    "\<forall>b. contains m b \<longrightarrow> (\<exists>m' \<in> set (pre @ mid @ suf). contains m' b) =
      (\<not> (remove \<and> unat guest \<le> unat b \<and> unat b < unat guest + unat sz))"
    "length (pre @ mid @ suf) \<le> 1 + (if mg m < unat guest \<and> unat guest < me m then 1 else 0) +
      (if mg m < unat guest + unat sz \<and> unat guest + unat sz < me m then 1 else 0)"
    using change_mapping_pieces [OF mok d(1) lt d(3), of remove] unfolding f_def by blast
  show "m' \<in> set (f m) \<Longrightarrow> range_piece guest (unat guest + unat sz) access remove m m'"
    using p(2) unfolding p(1) by blast
  show "sorted_wrt (\<lambda>a b. me a \<le> mg b) (f m)" unfolding p(1) by (rule p(3))
  show "contains m b \<Longrightarrow> (\<exists>m' \<in> set (f m). contains m' b) = (\<not> (remove \<and> in_range guest sz b))"
    using p(4) unfolding p(1) in_range_def by blast
  show "length (f m) \<le> 1 + (if mg m < unat guest \<and> unat guest < me m then 1 else 0) +
      (if mg m < unat guest + unat sz \<and> unat guest + unat sz < me m then 1 else 0)"
    unfolding p(1) by (rule p(5))
qed

lemma change_range_ok:
  assumes ok: "sparse_ok sp" and c: "change_range heap_ok sp guest sz access remove = Some sp'"
  shows "sparse_ok sp'"
proof -
  note d = change_range_SomeD [OF c] and p = change_range_pieces [OF ok c]
  have w: "sorted_wrt (\<lambda>a b. me a \<le> mg b) (sp_mappings sp)" using ok by (simp add: sparse_ok_def)
  have b: "mg m \<le> mg m' \<and> me m' \<le> me m" "mapping_ok m'"
    if "m \<in> set (sp_mappings sp)" "m' \<in> set (change_mapping guest (unat guest + unat sz) access remove m)" for m m'
    using p(1) [OF that] by (simp_all only: range_piece_def part_of_def simp_thms)
  show ?thesis
    unfolding sparse_ok_def d(5) using sorted_concat [OF w p(2) b(1)] b(2) by auto
qed

lemma part_byte:
  assumes p: "part_of m' m" and c: "contains m' a"
  shows "mp_host m' + ucast (a - mp_guest m') = mp_host m + ucast (a - mp_guest m)" "contains m a"
proof -
  show "contains m a" using p c by (auto simp: part_of_def contains_def)
  have le: "mp_guest m' \<le> a" "mp_guest m \<le> mp_guest m'"
    using p c by (auto simp: part_of_def contains_def word_le_nat_alt)
  have "unat (mp_guest m' - mp_guest m) + unat (a - mp_guest m') < 2 ^ 32"
    using le unat_lt32 [of a] by (simp add: unat_minus word_le_nat_alt)
  then have "(ucast ((mp_guest m' - mp_guest m) + (a - mp_guest m')) :: u64) =
      ucast (mp_guest m' - mp_guest m) + ucast (a - mp_guest m')"
    by (rule ucast_add_small)
  moreover have "(mp_guest m' - mp_guest m) + (a - mp_guest m') = a - mp_guest m" by simp
  ultimately show "mp_host m' + ucast (a - mp_guest m') = mp_host m + ucast (a - mp_guest m)"
    using p by (simp add: part_of_def add.assoc)
qed

lemma change_range_bytes:
  assumes ok: "sparse_ok sp" and c: "change_range heap_ok sp guest sz access remove = Some sp'"
  shows "sp_byte sp' a = (if in_range guest sz a
      then (if remove then None else map_option (\<lambda>(h, _, al). (h, access, al)) (sp_byte sp a))
      else sp_byte sp a)"
proof -
  note d = change_range_SomeD [OF c] and p = change_range_pieces [OF ok c] and ok' = change_range_ok [OF ok c]
  let ?f = "change_mapping guest (unat guest + unat sz) access remove"
  have mem: "m' \<in> set (sp_mappings sp') \<longleftrightarrow> (\<exists>m \<in> set (sp_mappings sp). m' \<in> set (?f m))" for m'
    unfolding d(5) by auto
  have sub: "contains m a" if "m \<in> set (sp_mappings sp)" "m' \<in> set (?f m)" "contains m' a" for m m'
    using part_byte(2) [OF _ that(3)] p(1) [OF that(1,2)] by (simp add: range_piece_def)
  show ?thesis
  proof (cases "sp_look sp a")
    case None
    then have "sp_look sp' a = None"
      using sub mem unfolding sp_look_None_iff by blast
    then show ?thesis using None by (simp add: sp_byte_def)
  next
    case (Some m)
    then have m: "m \<in> set (sp_mappings sp)" "contains m a" by (simp_all add: sp_look_iff [OF ok])
    show ?thesis
    proof (cases "remove \<and> in_range guest sz a")
      case True
      have "sp_look sp' a = None"
        unfolding sp_look_None_iff
      proof (intro ballI notI)
        fix m' assume "m' \<in> set (sp_mappings sp')" "contains m' a"
        then obtain n where n: "n \<in> set (sp_mappings sp)" "m' \<in> set (?f n)" using mem by blast
        have "n = m" using contains_unique [OF ok n(1) m(1) sub [OF n] m(2)] \<open>contains m' a\<close> by blast
        then show False using p(3) [OF m] n(2) \<open>contains m' a\<close> True by blast
      qed
      then show ?thesis using True by (simp add: sp_byte_def)
    next
      case False
      then obtain m' where m': "m' \<in> set (?f m)" "contains m' a" using p(3) [OF m] by blast
      have l': "sp_look sp' a = Some m'" using m' m mem by (auto simp: sp_look_iff [OF ok'])
      have rp: "range_piece guest (unat guest + unat sz) access remove m m'" by (rule p(1) [OF m(1) m'(1)])
      then have part: "part_of m' m" by (simp add: range_piece_def)
      have acc: "mp_access m' = (if in_range guest sz a then access else mp_access m)"
        using rp m'(2) unfolding range_piece_def in_range_def contains_def by (auto split: if_splits)
      have al: "mp_allocation m' = mp_allocation m" using part by (simp add: part_of_def)
      show ?thesis
        using False l' Some part_byte(1) [OF part m'(2)] acc al by (auto simp: sp_byte_def)
    qed
  qed
qed

lemma change_range_fits:
  assumes ok: "sparse_ok sp" and c: "change_range heap_ok sp guest sz access remove = Some sp'"
  shows "length (sp_mappings sp') \<le> sp_capacity sp'"
proof -
  note d = change_range_SomeD [OF c] and p = change_range_pieces [OF ok c]
  let ?f = "change_mapping guest (unat guest + unat sz) access remove"
  have bound: "length (concat (List.map ?f ms)) \<le> length ms +
      length (filter (\<lambda>m. mg m < unat guest \<and> unat guest < me m) ms) +
      length (filter (\<lambda>m. mg m < unat guest + unat sz \<and> unat guest + unat sz < me m) ms)"
    if "set ms \<subseteq> set (sp_mappings sp)" for ms
    using that
  proof (induction ms)
    case (Cons m ms)
    then show ?case using p(4) [of m] by (simp split: if_splits)
  qed simp
  have w: "sorted_wrt (\<lambda>a b. me a \<le> mg b) (sp_mappings sp)" using ok by (simp add: sparse_ok_def)
  show ?thesis
    unfolding d(5,6)
    using bound [OF subset_refl] straddle_once [OF w, of "unat guest"] straddle_once [OF w, of "unat guest + unat sz"]
    by linarith
qed

section \<open>Unmapping a registered range\<close>

lemma unmap_SomeD:
  assumes ok: "sparse_ok sp" and u: "x86p_sparse_unmap sp g sz = Some sp'"
  shows "sparse_ok sp'" and "sp_byte sp' a = (if in_range g sz a then None else sp_byte sp a)"
    and "\<exists>m \<in> set (sp_mappings sp). mp_guest m = g \<and> mp_size m = sz"
proof -
  let ?k = "upper_bound sp g" and ?ms = "sp_mappings sp"
  let ?m = "?ms ! (?k - 1)"
  have d: "?k \<noteq> 0" "mp_guest ?m = g" "mp_size ?m = sz" "sp_mappings sp' = take (?k - 1) ?ms @ drop ?k ?ms"
    using u by (auto simp: x86p_sparse_unmap_def Let_def split: if_splits)
  have lt: "?k - 1 < length ?ms" using d(1) upper_bound_spec(1) [OF ok, of g] by linarith
  have mem: "?m \<in> set ?ms" using lt by simp
  then show "\<exists>m \<in> set ?ms. mp_guest m = g \<and> mp_size m = sz" using d(2,3) by blast
  have split: "?ms = take (?k - 1) ?ms @ ?m # drop ?k ?ms"
    using lt d(1) id_take_nth_drop [OF lt] by simp
  have set_sub: "set (sp_mappings sp') \<subseteq> set ?ms"
    unfolding d(4) by (auto dest: in_set_takeD in_set_dropD)
  have w: "sorted_wrt (\<lambda>a b. me a \<le> mg b) (take (?k - 1) ?ms @ ?m # drop ?k ?ms)"
    using ok split by (simp add: sparse_ok_def)
  then have "sorted_wrt (\<lambda>a b. me a \<le> mg b) (sp_mappings sp')"
    unfolding d(4) sorted_wrt_append by auto
  then show ok': "sparse_ok sp'" using ok set_sub by (auto simp: sparse_ok_def)
  have c: "contains ?m b = in_range g sz b" for b using d(2,3) by (simp add: contains_def in_range_def)
  have set_eq: "set ?ms = insert ?m (set (sp_mappings sp'))"
    using arg_cong [OF split, of set] unfolding d(4) by auto
  have pos: "mapping_ok ?m" using ok mem by (simp add: sparse_ok_def)
  have gone: "\<not> contains n b" if "n \<in> set (sp_mappings sp')" "in_range g sz b" for n b
  proof
    assume nb: "contains n b"
    have "n = ?m" using contains_unique [OF ok _ mem nb] that c set_sub by blast
    moreover have "mg n + unat (mp_size n) \<le> mg ?m \<or> mg ?m + unat (mp_size ?m) \<le> mg n"
      using that(1) w unfolding d(4) sorted_wrt_append by auto
    ultimately show False using nb by (auto simp: contains_def)
  qed
  have "sp_look sp' a = (if in_range g sz a then None else sp_look sp a)"
  proof (cases "in_range g sz a")
    case True
    then show ?thesis using gone by (auto simp: sp_look_None_iff)
  next
    case False
    then have "sp_look sp' a = Some x \<longleftrightarrow> sp_look sp a = Some x" for x
      using c set_eq by (auto simp: sp_look_iff [OF ok] sp_look_iff [OF ok'])
    then show ?thesis using False by (metis option.exhaust)
  qed
  then show "sp_byte sp' a = (if in_range g sz a then None else sp_byte sp a)" by (simp add: sp_byte_def)
qed

section \<open>Whole spans\<close>

lemma grants_0 [simp]: "grants have 0"
  by (simp add: grants_def)

lemma whole_span_loop_iff:
  assumes ok: "sparse_ok sp"
  shows "c \<le> e \<Longrightarrow> e \<le> 2 ^ 32 \<Longrightarrow> e - c < 2 ^ 32 \<Longrightarrow>
    whole_span_loop sp c e = (\<forall>a. c \<le> unat a \<and> unat a < e \<longrightarrow> sp_byte sp a \<noteq> None)"
proof (induction "e - c" arbitrary: c rule: less_induct)
  case less
  show ?case
  proof (cases "c < e")
    case True
    have uc: "unat (of_nat c :: u32) = c" using True less.prems(2) by (intro unat_of_nat32) simp
    have ul: "unat (of_nat (e - c) :: u32) = e - c" using less.prems(3) by (rule unat_of_nat32)
    show ?thesis
    proof (cases "x86p_sparse_span_access sp (of_nat c) (of_nat (e - c)) 0")
      case None
      have "(of_nat (e - c) :: u32) \<noteq> 0" using ul True by (metis diff_is_0_eq not_le unat_0)
      then have "sp_byte sp (of_nat c) = None"
        using None unfolding span_access_None_iff [OF ok] by (cases "sp_byte sp (of_nat c)") auto
      then have "\<not> (\<forall>a. c \<le> unat a \<and> unat a < e \<longrightarrow> sp_byte sp a \<noteq> None)" using True uc by (metis order_refl)
      then show ?thesis using True None whole_span_loop.simps [of sp c e] by simp
    next
      case (Some nh)
      obtain n h where nh: "nh = (n, h)" by fastforce
      note s = span_access_bytes [OF ok Some [unfolded nh]]
      have n0: "0 < unat n" using s(1) by (simp add: unat_gt_0)
      have nle: "unat n \<le> e - c" using s(2) ul by (simp add: word_le_nat_alt)
      have step: "whole_span_loop sp c e = whole_span_loop sp (c + unat n) e"
        using True Some nh s(1) whole_span_loop.simps [of sp c e] by simp
      have here: "sp_byte sp a \<noteq> None" if "c \<le> unat a" "unat a < c + unat n" for a
      proof -
        have "unat (a - of_nat c) = unat a - c" using that uc by (simp add: unat_minus word_le_nat_alt)
        then have "a - of_nat c < n" using that by (simp add: word_less_nat_alt)
        then show ?thesis using s(4) [of "a - of_nat c"] by auto
      qed
      have rest: "whole_span_loop sp (c + unat n) e = (\<forall>a. c + unat n \<le> unat a \<and> unat a < e \<longrightarrow> sp_byte sp a \<noteq> None)"
        using less.hyps [of "c + unat n"] less.prems n0 nle True by simp
      show ?thesis
        unfolding step rest using here by (metis (no_types, lifting) add_leE not_le_imp_less)
    qed
  next
    case False
    then show ?thesis using whole_span_loop.simps [of sp c e] by auto
  qed
qed

lemma whole_span_iff:
  assumes "sparse_ok sp"
  shows "whole_span sp g sz \<longleftrightarrow> sz \<noteq> 0 \<and> unat g + unat sz \<le> 2 ^ 32 \<and> (\<forall>a. in_range g sz a \<longrightarrow> sp_byte sp a \<noteq> None)"
proof (cases "sz = 0 \<or> 2 ^ 32 < unat g + unat sz")
  case True
  then show ?thesis by (auto simp: whole_span_def Let_def)
next
  case False
  then show ?thesis
    using whole_span_loop_iff [OF assms, of "unat g" "unat g + unat sz"] unat_lt32 [of sz]
    by (simp add: whole_span_def Let_def in_range_def)
qed

section \<open>Resolving\<close>

lemma ucast_of_nat: "(ucast (x :: u32) :: u64) = of_nat (unat x)"
  by (metis unat_ucast_64 word_of_nat_unat)

lemma host_offset:
  assumes "mapping_ok m" "contains m a"
  shows "mp_host m + of_nat (unat a - mg m) \<noteq> 0" "sp_look sp a = Some m \<Longrightarrow>
    sp_byte sp a = Some (mp_host m + of_nat (unat a - mg m), mp_access m, mp_allocation m)"
proof -
  have le: "mp_guest m \<le> a" using assms(2) by (simp add: contains_def word_le_nat_alt)
  show "sp_look sp a = Some m \<Longrightarrow>
    sp_byte sp a = Some (mp_host m + of_nat (unat a - mg m), mp_access m, mp_allocation m)"
    by (simp add: sp_byte_def ucast_of_nat unat_minus [OF le] del: of_nat_diff)
  have b: "unat (mp_host m) + (unat a - mg m) < 2 ^ 64" "0 < unat (mp_host m)"
    using assms by (auto simp: mapping_ok_def contains_def unat_gt_0)
  have "unat (of_nat (unat a - mg m) :: u64) = unat a - mg m"
    using b(1) by (simp add: unat_of_nat del: of_nat_diff)
  then have "unat (mp_host m + of_nat (unat a - mg m)) = unat (mp_host m) + (unat a - mg m)"
    using b(1) unat_add_lem [of "mp_host m" "of_nat (unat a - mg m)"] by simp
  then show "mp_host m + of_nat (unat a - mg m) \<noteq> 0" using b(2) by (metis add_is_0 less_numeral_extra(3) unat_0)
qed

lemma resolve_loop_sound:
  assumes ok: "sparse_ok sp"
  shows "resolve_loop sp g al access c e at st = Some (c', st') \<Longrightarrow> unat g \<le> c \<Longrightarrow> c \<le> e \<Longrightarrow> e \<le> 2 ^ 32 \<Longrightarrow>
    1 \<le> at \<Longrightarrow> (st = 0 \<longrightarrow> c = unat g) \<Longrightarrow>
    (st \<noteq> 0 \<longrightarrow> st' = st) \<and>
    (\<forall>a. c \<le> unat a \<and> unat a < c' \<longrightarrow>
      (\<exists>have. sp_byte sp a = Some (st' + of_nat (unat a - unat g), have, al) \<and> grants have access))"
proof (induction "length (sp_mappings sp) + 1 - at" arbitrary: c at st rule: less_induct)
  case less
  show ?case
  proof (cases "c < e \<and> at \<le> length (sp_mappings sp)")
    case False
    then show ?thesis using less.prems(1) resolve_loop.simps [of sp g al access c e at st] by auto
  next
    case True
    define m where "m = sp_mappings sp ! (at - 1)"
    define off where "off = of_nat c - mp_guest m"
    define st2 where "st2 = (if st = 0 then mp_host m + ucast off else st)"
    define c2 where "c2 = c + min (unat (mp_size m - off)) (e - c)"
    have at: "at - 1 < length (sp_mappings sp)" using True less.prems(5) by linarith
    then have mem: "m \<in> set (sp_mappings sp)" by (simp add: m_def)
    have mok: "mapping_ok m" using ok mem by (simp add: sparse_ok_def)
    have e: "resolve_loop sp g al access c e at st =
        (if c < e \<and> at \<le> length (sp_mappings sp) then
           (if c < mg m \<or> mp_size m \<le> off \<or> mp_allocation m \<noteq> al \<or> \<not> grants (mp_access m) access then None
            else if st \<noteq> 0 \<and> mp_host m + ucast off \<noteq> st + of_nat (c - unat g) then None
            else resolve_loop sp g al access c2 e (at + 1) st2)
         else Some (c, st))"
      by (subst resolve_loop.simps) (simp only: Let_def m_def off_def st2_def c2_def)
    have cond: "\<not> c < mg m" "\<not> mp_size m \<le> off" "mp_allocation m = al" "grants (mp_access m) access"
      "\<not> (st \<noteq> 0 \<and> mp_host m + ucast off \<noteq> st + of_nat (c - unat g))"
      and rest: "resolve_loop sp g al access c2 e (at + 1) st2 = Some (c', st')"
      using less.prems(1) True unfolding e by (simp_all split: if_splits)
    have c32: "c < 2 ^ 32" using True less.prems(4) by linarith
    have uc: "unat (of_nat c :: u32) = c" by (rule unat_of_nat32 [OF c32])
    have uoff: "unat off = c - mg m" unfolding off_def using cond(1) uc by (simp add: unat_minus word_le_nat_alt)
    have cin: "contains m (of_nat c)" using contains_offset [OF mok, of "of_nat c"] cond(2) by (simp add: off_def not_le)
    have "unat (mp_size m - off) = unat (mp_size m) - (c - mg m)"
      using cond(2) uoff by (simp add: unat_minus)
    then have c2: "c2 = min (me m) e" "c < c2" "c2 \<le> e"
      using cin cond(1) True uc by (auto simp: c2_def contains_def)
    have base: "mp_host m + of_nat (c - mg m) = st2 + of_nat (c - unat g)" "st2 \<noteq> 0"
      using cond(5) less.prems(6) host_offset(1) [OF mok cin] uc uoff
      by (auto simp: st2_def ucast_of_nat simp del: of_nat_diff)
    have dec: "length (sp_mappings sp) + 1 - (at + 1) < length (sp_mappings sp) + 1 - at" using True by linarith
    have ih: "(st2 \<noteq> 0 \<longrightarrow> st' = st2) \<and>
      (\<forall>a. c2 \<le> unat a \<and> unat a < c' \<longrightarrow>
        (\<exists>have. sp_byte sp a = Some (st' + of_nat (unat a - unat g), have, al) \<and> grants have access))"
    proof (rule less.hyps [OF dec rest])
      show "unat g \<le> c2" using less.prems(2) c2(2) by linarith
    qed (use less.prems(4) c2(3) base(2) in simp_all)
    have here: "sp_byte sp a = Some (st2 + of_nat (unat a - unat g), mp_access m, al)"
      if "c \<le> unat a" "unat a < c2" for a
    proof -
      have ca: "contains m a" using that c2(1) cond(1) by (auto simp: contains_def)
      have "sp_byte sp a = Some (mp_host m + of_nat (unat a - mg m), mp_access m, al)"
        using host_offset(2) [OF mok ca] mem ca cond(3) by (simp add: sp_look_iff [OF ok])
      moreover have "mp_host m + of_nat (unat a - mg m) = st2 + of_nat (unat a - unat g)"
      proof -
        have "unat a - mg m = (c - mg m) + (unat a - c)" "unat a - unat g = (c - unat g) + (unat a - c)"
          using that(1) cond(1) less.prems(2) by linarith+
        then have "(of_nat (unat a - mg m) :: u64) = of_nat (c - mg m) + of_nat (unat a - c)"
          "(of_nat (unat a - unat g) :: u64) = of_nat (c - unat g) + of_nat (unat a - c)"
          by (simp_all only: of_nat_add)
        then show ?thesis by (simp only: base(1) add.assoc [symmetric])
      qed
      ultimately show ?thesis by simp
    qed
    show ?thesis
    proof (intro conjI impI allI)
      assume "st \<noteq> 0"
      then show "st' = st" using ih base(2) by (simp add: st2_def)
    next
      fix a :: u32 assume a: "c \<le> unat a \<and> unat a < c'"
      show "\<exists>have. sp_byte sp a = Some (st' + of_nat (unat a - unat g), have, al) \<and> grants have access"
      proof (cases "unat a < c2")
        case True
        then show ?thesis using here a ih base(2) cond(4) by auto
      next
        case False
        then show ?thesis using ih a by simp
      qed
    qed
  qed
qed

lemma resolve_sound:
  assumes ok: "sparse_ok sp" and r: "x86p_sparse_resolve sp g sz access = Some st"
  shows "sz \<noteq> 0" "unat g + unat sz \<le> 2 ^ 32"
    and "\<exists>al. \<forall>a. in_range g sz a \<longrightarrow>
      (\<exists>have. sp_byte sp a = Some (st + of_nat (unat a - unat g), have, al) \<and> grants have access)"
proof -
  from r show sz: "sz \<noteq> 0" "unat g + unat sz \<le> 2 ^ 32"
    by (auto simp: x86p_sparse_resolve_def Let_def split: if_splits)
  from r have "upper_bound sp g \<noteq> 0"
    "resolve_loop sp g (mp_allocation (sp_mappings sp ! (upper_bound sp g - 1))) access (unat g) (unat g + unat sz)
      (upper_bound sp g) 0 = Some (unat g + unat sz, st)"
    by (auto simp: x86p_sparse_resolve_def Let_def split: if_splits option.splits)
  from resolve_loop_sound [OF ok this(2)] this(1) sz
  show "\<exists>al. \<forall>a. in_range g sz a \<longrightarrow>
      (\<exists>have. sp_byte sp a = Some (st + of_nat (unat a - unat g), have, al) \<and> grants have access)"
    unfolding in_range_def by auto
qed

end
