(* ===== verification/X86_Sparse_Properties.thy ===== *)
theory X86_Sparse_Properties
  imports X86_Sparse
begin

text \<open>
  The sparse mapping as a state machine and as an abstract map from guest bytes to host
  bytes: what every reachable table satisfies, and what each update does to the bytes.
\<close>

section \<open>Reachable tables\<close>

inductive sparse_step :: "sparse \<Rightarrow> sparse \<Rightarrow> bool" where
  step_map: "x86p_sparse_map_access heap_ok sp g h sz access = Some sp' \<Longrightarrow> sparse_step sp sp'"
| step_unmap: "x86p_sparse_unmap sp g sz = Some sp' \<Longrightarrow> sparse_step sp sp'"
| step_protect: "x86p_sparse_protect heap_ok sp g sz access = Some sp' \<Longrightarrow> sparse_step sp sp'"
| step_unmap_range: "x86p_sparse_unmap_range heap_ok sp g sz = Some sp' \<Longrightarrow> sparse_step sp sp'"

inductive sparse_reachable :: "sparse \<Rightarrow> bool" where
  reach_create: "sparse_reachable x86p_sparse_create"
| reach_step: "sparse_reachable sp \<Longrightarrow> sparse_step sp sp' \<Longrightarrow> sparse_reachable sp'"

inductive_cases sparse_stepE: "sparse_step sp sp'"

definition fits_capacity :: "sparse \<Rightarrow> bool" where
  "fits_capacity sp \<longleftrightarrow> length (sp_mappings sp) \<le> sp_capacity sp"

lemma map_fits:
  assumes ok: "sparse_ok sp" and f: "fits_capacity sp"
    and m: "x86p_sparse_map_access heap_ok sp g h sz access = Some sp'"
  shows "fits_capacity sp'"
proof -
  have len: "length (sp_mappings sp') = length (sp_mappings sp) + 1"
    using map_access_SomeD(3) [OF m] upper_bound_spec(1) [OF ok, of g] by simp
  have cap: "if length (sp_mappings sp) = sp_capacity sp
      then sp_capacity sp' = (if sp_capacity sp \<noteq> 0 then (sp_capacity sp * 2) mod 2 ^ 64 else 16) \<and> sp_capacity sp \<le> sp_capacity sp'
        \<and> sp_capacity sp' \<le> (2 ^ 64 - 1) div sizeof_mapping
      else sp_capacity sp' = sp_capacity sp"
    using m by (auto simp: x86p_sparse_map_access_def Let_def bind_eq_Some_conv split: if_splits)
  show ?thesis
  proof (cases "length (sp_mappings sp) = sp_capacity sp")
    case True
    then have c: "sp_capacity sp' = (if sp_capacity sp \<noteq> 0 then (sp_capacity sp * 2) mod 2 ^ 64 else 16)"
      "sp_capacity sp \<le> sp_capacity sp'" "sp_capacity sp' \<le> (2 ^ 64 - 1) div sizeof_mapping" using cap by auto
    have "sp_capacity sp * 2 < 2 ^ 64" using c(2,3) by (simp add: sizeof_mapping_def)
    then have "sp_capacity sp < sp_capacity sp'" using c(1) by (cases "sp_capacity sp = 0") auto
    then show ?thesis using True len by (simp add: fits_capacity_def)
  next
    case False
    then show ?thesis using cap len f by (simp add: fits_capacity_def)
  qed
qed

lemma unmap_fits:
  assumes "x86p_sparse_unmap sp g sz = Some sp'" "fits_capacity sp"
  shows "fits_capacity sp'"
  using assms by (auto simp: x86p_sparse_unmap_def Let_def fits_capacity_def split: if_splits)

lemma step_preserves:
  assumes "sparse_step sp sp'" "sparse_ok sp" "fits_capacity sp"
  shows "sparse_ok sp' \<and> fits_capacity sp'"
  using assms(1)
proof cases
  case (step_map heap_ok g h sz access)
  then show ?thesis using map_access_ok(1) map_fits assms(2,3) by blast
next
  case (step_unmap g sz)
  then show ?thesis using unmap_SomeD(1) unmap_fits assms(2,3) by blast
next
  case (step_protect heap_ok g sz access)
  then show ?thesis
    using change_range_ok change_range_fits assms(2)
    unfolding x86p_sparse_protect_def fits_capacity_def by blast
next
  case (step_unmap_range heap_ok g sz)
  then show ?thesis
    using change_range_ok change_range_fits assms(2)
    unfolding x86p_sparse_unmap_range_def fits_capacity_def by blast
qed

lemma reachable_inv:
  assumes "sparse_reachable sp"
  shows "sparse_ok sp" "fits_capacity sp"
proof -
  from assms have "sparse_ok sp \<and> fits_capacity sp"
  proof induction
    case reach_create
    then show ?case by (simp add: x86p_sparse_create_def sparse_ok_def fits_capacity_def)
  next
    case (reach_step sp sp')
    then show ?case using step_preserves by blast
  qed
  then show "sparse_ok sp" "fits_capacity sp" by simp_all
qed

text \<open>
  Every table the operations can build holds nonempty ranges that wrap neither address
  space, in ascending order and disjoint, and never more of them than its array has room for
  (so no update writes past the allocation).
\<close>

theorem reachable_sparse_ok:
  assumes "sparse_reachable sp"
  shows "sparse_ok sp \<and> length (sp_mappings sp) \<le> sp_capacity sp"
  using reachable_inv [OF assms] by (simp add: fits_capacity_def)

lemma create_map:
  "\<exists>sp. x86p_sparse_map_access True x86p_sparse_create 0x1000 0x500000 0x2000 3 = Some sp \<and>
    sp_mappings sp = [\<lparr>mp_guest = 0x1000, mp_size = 0x2000, mp_host = 0x500000, mp_access = 3, mp_allocation = 1\<rparr>]"
  by (simp add: x86p_sparse_map_access_def x86p_sparse_create_def x86p_sparse_range_available_def
      upper_bound_def upper_bound_loop.simps bad_access_def kX86pMemRead_def kX86pMemWrite_def sizeof_mapping_def Let_def)

theorem reachable_sparse_ok_witness:
  "\<exists>sp. sp_mappings sp = [\<lparr>mp_guest = 0x1000, mp_size = 0x2000, mp_host = 0x500000, mp_access = 3, mp_allocation = 1\<rparr>] \<and>
     sparse_ok sp \<and> 1 \<le> sp_capacity sp"
proof -
  obtain sp where sp: "x86p_sparse_map_access True x86p_sparse_create 0x1000 0x500000 0x2000 3 = Some sp"
    "sp_mappings sp = [\<lparr>mp_guest = 0x1000, mp_size = 0x2000, mp_host = 0x500000, mp_access = 3, mp_allocation = 1\<rparr>]"
    using create_map by blast
  have "sparse_reachable sp" using reach_create step_map [OF sp(1)] by (rule reach_step)
  from reachable_sparse_ok [OF this] sp(2) show ?thesis by auto
qed

section \<open>The table as a byte map\<close>

text \<open>
  The contract of a store of address ranges: adding a free range defines exactly its bytes,
  removing one undefines exactly them.
\<close>

locale range_map =
  fixes ok :: "'s \<Rightarrow> bool"
    and look :: "'s \<Rightarrow> u32 \<Rightarrow> 'v option"
    and add :: "'s \<Rightarrow> u32 \<Rightarrow> u32 \<Rightarrow> (u32 \<Rightarrow> 'v) \<Rightarrow> 's \<Rightarrow> bool"
    and remove :: "'s \<Rightarrow> u32 \<Rightarrow> u32 \<Rightarrow> 's \<Rightarrow> bool"
  assumes add_ok: "ok s \<Longrightarrow> add s g n v s' \<Longrightarrow> ok s'"
    and add_look: "ok s \<Longrightarrow> add s g n v s' \<Longrightarrow> look s' a = (if in_range g n a then Some (v a) else look s a)"
    and add_free: "ok s \<Longrightarrow> add s g n v s' \<Longrightarrow> in_range g n a \<Longrightarrow> look s a = None"
    and remove_ok: "ok s \<Longrightarrow> remove s g n s' \<Longrightarrow> ok s'"
    and remove_look: "ok s \<Longrightarrow> remove s g n s' \<Longrightarrow> look s' a = (if in_range g n a then None else look s a)"
begin

lemma add_remove:
  assumes "ok s" "add s g n v s'" "remove s' g n s''"
  shows "look s'' = look s"
proof (rule ext)
  fix a
  show "look s'' a = look s a"
    using remove_look [OF add_ok [OF assms(1,2)] assms(3), of a] add_look [OF assms(1,2), of a]
      add_free [OF assms(1,2), of a] by simp
qed

lemma add_add_disjoint:
  "ok s \<Longrightarrow> add s g n v s' \<Longrightarrow> add s' g2 n2 v2 s'' \<Longrightarrow> \<not> (in_range g n a \<and> in_range g2 n2 a)"
  using add_free [of s' g2 n2 v2 s'' a] add_look [of s g n v s' a] add_ok by auto

end

definition sparse_add :: "sparse \<Rightarrow> u32 \<Rightarrow> u32 \<Rightarrow> (u32 \<Rightarrow> u64 \<times> u32 \<times> u64) \<Rightarrow> sparse \<Rightarrow> bool" where
  "sparse_add sp g n v sp' \<longleftrightarrow> (\<exists>heap_ok h access. x86p_sparse_map_access heap_ok sp g h n access = Some sp' \<and>
     v = (\<lambda>a. (h + ucast (a - g), access, sp_next_allocation sp + 1)))"

definition sparse_remove :: "sparse \<Rightarrow> u32 \<Rightarrow> u32 \<Rightarrow> sparse \<Rightarrow> bool" where
  "sparse_remove sp g n sp' \<longleftrightarrow>
     x86p_sparse_unmap sp g n = Some sp' \<or> (\<exists>heap_ok. x86p_sparse_unmap_range heap_ok sp g n = Some sp')"

interpretation smap: range_map sparse_ok sp_byte sparse_add sparse_remove
proof unfold_locales
  fix s g n v s' a
  assume ok: "sparse_ok s"
  show "sparse_ok s'" if "sparse_add s g n v s'"
    using that map_access_ok(1) [OF ok] by (auto simp: sparse_add_def)
  show "sp_byte s' a = (if in_range g n a then Some (v a) else sp_byte s a)" if "sparse_add s g n v s'"
    using that map_access_bytes(1) [OF ok] by (auto simp: sparse_add_def)
  show "sp_byte s a = None" if "sparse_add s g n v s'" "in_range g n a"
    using that map_access_bytes(2) [OF ok] by (auto simp: sparse_add_def)
  show "sparse_ok s'" if "sparse_remove s g n s'"
    using that unmap_SomeD(1) [OF ok] change_range_ok [OF ok]
    by (auto simp: sparse_remove_def x86p_sparse_unmap_range_def)
  show "sp_byte s' a = (if in_range g n a then None else sp_byte s a)" if "sparse_remove s g n s'"
    using that unmap_SomeD(2) [OF ok] change_range_bytes [OF ok]
    by (auto simp: sparse_remove_def x86p_sparse_unmap_range_def)
qed

text \<open>
  C35. Mapping a range is accepted only where no byte was mapped, defines exactly its bytes,
  and unmapping it again, by either call, restores the byte map there was.
\<close>

theorem sparse_map_unmap_roundtrip:
  assumes "sparse_reachable sp" and "x86p_sparse_map_access heap_ok sp g h sz access = Some sp1"
    and "x86p_sparse_unmap sp1 g sz = Some sp2 \<or> x86p_sparse_unmap_range heap_ok' sp1 g sz = Some sp2"
  shows "(\<forall>a. in_range g sz a \<longrightarrow> sp_byte sp a = None) \<and>
    (\<forall>a. sp_byte sp1 a = (if in_range g sz a then Some (h + ucast (a - g), access, sp_next_allocation sp + 1)
        else sp_byte sp a)) \<and>
    sp_byte sp2 = sp_byte sp"
proof -
  note ok = reachable_inv(1) [OF assms(1)]
  have a: "sparse_add sp g sz (\<lambda>a. (h + ucast (a - g), access, sp_next_allocation sp + 1)) sp1"
    using assms(2) by (auto simp: sparse_add_def)
  have r: "sparse_remove sp1 g sz sp2" using assms(3) by (auto simp: sparse_remove_def)
  show ?thesis
    using smap.add_free [OF ok a] smap.add_look [OF ok a] smap.add_remove [OF ok a r] by blast
qed

theorem sparse_map_unmap_roundtrip_witness:
  "\<exists>sp1 sp2. x86p_sparse_map_access True x86p_sparse_create 0x1000 0x500000 0x2000 3 = Some sp1 \<and>
     x86p_sparse_unmap sp1 0x1000 0x2000 = Some sp2 \<and>
     sp_byte sp1 0x1004 = Some (0x500004, 3, 1) \<and> sp_byte sp2 = sp_byte x86p_sparse_create"
proof -
  obtain sp where sp: "x86p_sparse_map_access True x86p_sparse_create 0x1000 0x500000 0x2000 3 = Some sp"
    "sp_mappings sp = [\<lparr>mp_guest = 0x1000, mp_size = 0x2000, mp_host = 0x500000, mp_access = 3, mp_allocation = 1\<rparr>]"
    using create_map by blast
  obtain sp2 where sp2: "x86p_sparse_unmap sp 0x1000 0x2000 = Some sp2"
    using sp(2) by (simp add: x86p_sparse_unmap_def upper_bound_def upper_bound_loop.simps Let_def)
  have r: "in_range 0x1000 0x2000 0x1004" "sp_next_allocation x86p_sparse_create = 0"
    by (simp_all add: in_range_def x86p_sparse_create_def)
  have e: "sp_byte sp 0x1004 = Some (0x500004, 3, 1)" "sp_byte sp2 = sp_byte x86p_sparse_create"
    using sparse_map_unmap_roundtrip [OF reach_create sp(1) disjI1 [OF sp2]] r by (auto simp: r)
  show ?thesis using sp(1) sp2 e by blast
qed

text \<open>
  Changing the permissions of a range needs every byte of it mapped, and then changes the
  access bits of exactly those bytes, splitting ranges at the boundaries without moving a host
  address or an allocation; removing a range leaves every byte outside it as it was.
\<close>

theorem sparse_range_updates:
  assumes "sparse_reachable sp"
  shows "(\<forall>sp'. x86p_sparse_protect heap_ok sp g sz access = Some sp' \<longrightarrow>
      (\<forall>a. in_range g sz a \<longrightarrow> sp_byte sp a \<noteq> None) \<and>
      (\<forall>a. sp_byte sp' a = (if in_range g sz a then map_option (\<lambda>(h, _, al). (h, access, al)) (sp_byte sp a)
        else sp_byte sp a))) \<and>
    (\<forall>sp'. x86p_sparse_unmap_range heap_ok sp g sz = Some sp' \<longrightarrow>
      (\<forall>a. sp_byte sp' a = (if in_range g sz a then None else sp_byte sp a)))"
proof -
  note ok = reachable_inv(1) [OF assms]
  have p: "(\<forall>a. in_range g sz a \<longrightarrow> sp_byte sp a \<noteq> None) \<and>
      (\<forall>a. sp_byte sp' a = (if in_range g sz a then map_option (\<lambda>(h, _, al). (h, access, al)) (sp_byte sp a)
        else sp_byte sp a))"
    if "x86p_sparse_protect heap_ok sp g sz access = Some sp'" for sp'
    using change_range_bytes [OF ok that [unfolded x86p_sparse_protect_def]]
      change_range_SomeD(4) [OF that [unfolded x86p_sparse_protect_def]] whole_span_iff [OF ok]
    by (simp split: if_split)
  have u: "\<forall>a. sp_byte sp' a = (if in_range g sz a then None else sp_byte sp a)"
    if "x86p_sparse_unmap_range heap_ok sp g sz = Some sp'" for sp'
    using change_range_bytes [OF ok that [unfolded x86p_sparse_unmap_range_def]] by (simp split: if_split)
  show ?thesis using p u by blast
qed

theorem sparse_range_updates_witness:
  "\<exists>sp sp'. sparse_reachable sp \<and> x86p_sparse_unmap_range True sp 0x1800 0x400 = Some sp' \<and>
     sp_byte sp 0x1800 \<noteq> None \<and> sp_byte sp' 0x1800 = None \<and> sp_byte sp' 0x1004 = sp_byte sp 0x1004"
proof -
  obtain sp where sp: "x86p_sparse_map_access True x86p_sparse_create 0x1000 0x500000 0x2000 3 = Some sp"
    "sp_mappings sp = [\<lparr>mp_guest = 0x1000, mp_size = 0x2000, mp_host = 0x500000, mp_access = 3, mp_allocation = 1\<rparr>]"
    using create_map by blast
  have r: "sparse_reachable sp" using reach_create step_map [OF sp(1)] by (rule reach_step)
  obtain sp' where u: "x86p_sparse_unmap_range True sp 0x1800 0x400 = Some sp'"
    using sp(2) by (simp add: x86p_sparse_unmap_range_def change_range_def bad_access_def sizeof_mapping_def Let_def)
  have m: "sp_byte sp 0x1800 \<noteq> None" using sp(2) by (simp add: sp_byte_def sp_look_def contains_def)
  have i: "in_range 0x1800 0x400 0x1800" "\<not> in_range 0x1800 0x400 0x1004" by (simp_all add: in_range_def)
  have "sp_byte sp' 0x1800 = None" "sp_byte sp' 0x1004 = sp_byte sp 0x1004"
    using sparse_range_updates [OF r, of True "0x1800" "0x400"] u i by auto
  then show ?thesis using r u m by blast
qed

section \<open>Queries against the byte map\<close>

text \<open>
  A span query answers exactly from the byte map: it refuses when the first byte is not
  mapped with the wanted access, and otherwise returns a nonempty prefix of the request, every
  byte of it mapped with that access at consecutive host addresses.  A whole-span resolution
  only succeeds on bytes of one allocation at consecutive host addresses with that access.
\<close>

theorem sparse_queries_sound:
  assumes "sparse_reachable sp"
  shows "(case x86p_sparse_span_access sp g lim access of
      None \<Rightarrow> lim = 0 \<or> \<not> (\<exists>h have al. sp_byte sp g = Some (h, have, al) \<and> grants have access)
    | Some (n, h) \<Rightarrow> n \<noteq> 0 \<and> n \<le> lim \<and> unat g + unat n \<le> 2 ^ 32 \<and>
        (\<forall>i < n. \<exists>have al. sp_byte sp (g + i) = Some (h + ucast i, have, al) \<and> grants have access)) \<and>
    (\<forall>st. x86p_sparse_resolve sp g lim access = Some st \<longrightarrow> lim \<noteq> 0 \<and> unat g + unat lim \<le> 2 ^ 32 \<and>
      (\<exists>al. \<forall>a. in_range g lim a \<longrightarrow>
        (\<exists>have. sp_byte sp a = Some (st + of_nat (unat a - unat g), have, al) \<and> grants have access)))"
proof
  note ok = reachable_inv(1) [OF assms]
  show "case x86p_sparse_span_access sp g lim access of
      None \<Rightarrow> lim = 0 \<or> \<not> (\<exists>h have al. sp_byte sp g = Some (h, have, al) \<and> grants have access)
    | Some (n, h) \<Rightarrow> n \<noteq> 0 \<and> n \<le> lim \<and> unat g + unat n \<le> 2 ^ 32 \<and>
        (\<forall>i < n. \<exists>have al. sp_byte sp (g + i) = Some (h + ucast i, have, al) \<and> grants have access)"
  proof (cases "x86p_sparse_span_access sp g lim access")
    case None
    from None [unfolded span_access_None_iff [OF ok]] show ?thesis unfolding None option.case .
  next
    case (Some p)
    then show ?thesis using span_access_bytes [OF ok, of g lim access "fst p" "snd p"] by (cases p) simp
  qed
  show "\<forall>st. x86p_sparse_resolve sp g lim access = Some st \<longrightarrow> lim \<noteq> 0 \<and> unat g + unat lim \<le> 2 ^ 32 \<and>
      (\<exists>al. \<forall>a. in_range g lim a \<longrightarrow>
        (\<exists>have. sp_byte sp a = Some (st + of_nat (unat a - unat g), have, al) \<and> grants have access))"
    using resolve_sound [OF ok] by blast
qed

theorem sparse_queries_sound_witness:
  "\<exists>sp n h. sparse_reachable sp \<and> x86p_sparse_span_access sp 0x2FF0 0x40 1 = Some (n, h) \<and> n = 0x10 \<and>
     (\<forall>i < n. \<exists>have al. sp_byte sp (0x2FF0 + i) = Some (h + ucast i, have, al))"
proof -
  obtain sp where sp: "x86p_sparse_map_access True x86p_sparse_create 0x1000 0x500000 0x2000 3 = Some sp"
    "sp_mappings sp = [\<lparr>mp_guest = 0x1000, mp_size = 0x2000, mp_host = 0x500000, mp_access = 3, mp_allocation = 1\<rparr>]"
    using create_map by blast
  have r: "sparse_reachable sp" using reach_create step_map [OF sp(1)] by (rule reach_step)
  have q: "x86p_sparse_span_access sp 0x2FF0 0x40 1 = Some (0x10, 0x501FF0)"
    using sp(2) by (simp add: x86p_sparse_span_access_def upper_bound_def upper_bound_loop.simps Let_def grants_def)
  have "\<forall>i < 0x10. \<exists>have al. sp_byte sp (0x2FF0 + i) = Some (0x501FF0 + ucast i, have, al) \<and> grants have 1"
    using sparse_queries_sound [OF r, where g = "0x2FF0" and lim = "0x40" and access = 1]
    unfolding q option.case prod.case by blast
  then show ?thesis using r q by blast
qed

end
