(* ===== verification/X86_Memory.thy ===== *)
theory X86_Memory
  imports X86_Sparse
begin

text \<open>
  Guest memory, \<open>src/src/x86port/memory.c\<close> and the memory part of \<open>cpu.h\<close>: span queries over the
  contiguous and the sparse mapping, checked reads and writes, and the bulk copy and fill.

  The host's bytes are a total store \<open>u64 \<Rightarrow> u8\<close>; the caller guarantees that the host addresses a
  mapping names are valid.  The write observer, a process-wide hook in the code, is a flag and
  the list of its notifications.  \<open>None\<close> is a returned 0: nothing was changed.
\<close>

section \<open>State\<close>

record mem =
  m_host :: u64
  m_lo :: u32
  m_size :: u32
  m_sparse :: "sparse option"
  m_perms :: "u8 list option"
  m_page_shift :: nat
  m_guard_above :: u32

type_synonym store = "u64 \<Rightarrow> u8"

record host =
  hs_bytes :: store
  hs_observed :: bool
  hs_log :: "(u32 \<times> u32) list"

definition x86p_mem_set_write_observer :: "host \<Rightarrow> bool \<Rightarrow> host" where
  "x86p_mem_set_write_observer s installed = s\<lparr>hs_observed := installed\<rparr>"

definition notify :: "host \<Rightarrow> u32 \<Rightarrow> u32 \<Rightarrow> host" where
  "notify s addr n = (if hs_observed s then s\<lparr>hs_log := hs_log s @ [(addr, n)]\<rparr> else s)"

text \<open>\<open>memcpy\<close> out of and into the host store.\<close>

definition host_read :: "store \<Rightarrow> u64 \<Rightarrow> nat \<Rightarrow> u8 list" where
  "host_read st h n = map (\<lambda>i. st (h + of_nat i)) [0..<n]"

definition host_write :: "store \<Rightarrow> u64 \<Rightarrow> u8 list \<Rightarrow> store" where
  "host_write st h bs = (\<lambda>a. if unat (a - h) < length bs then bs ! unat (a - h) else st a)"

section \<open>Span queries\<close>

text \<open>The permission byte of a page; a page past the table counts as not mapped.\<close>

definition page_perm :: "u8 list \<Rightarrow> nat \<Rightarrow> u8" where
  "page_perm perms page = (if page < length perms then perms ! page else 0)"

definition page_grants :: "u8 list \<Rightarrow> u32 \<Rightarrow> nat \<Rightarrow> bool" where
  "page_grants perms access page \<longleftrightarrow>
     page_perm perms page \<noteq> 0 \<and> grants (ucast (page_perm perms page)) access"

function granted_loop :: "u8 list \<Rightarrow> u32 \<Rightarrow> u32 \<Rightarrow> u32 \<Rightarrow> nat \<Rightarrow> u32 \<Rightarrow> u32" where
  "granted_loop perms page_size access room page granted =
     (if granted < room then
        if \<not> page_grants perms access (page + 1) then granted
        else granted_loop perms page_size access room (page + 1) (granted + page_size)
      else granted)"
  by pat_completeness auto
termination
  by (relation "measure (\<lambda>(perms, page_size, access, room, page, granted). length perms - page)")
    (auto simp: page_grants_def page_perm_def split: if_splits)

declare granted_loop.simps [simp del]

text \<open>The room a contiguous mapping leaves a request: up to its end, the request's and the address space's.\<close>

definition span_room :: "mem \<Rightarrow> u32 \<Rightarrow> u32 \<Rightarrow> u32" where
  "span_room m addr lim =
     (let offset = addr - m_lo m;
          room = m_size m - offset;
          room = (if lim < room then lim else room) in
      if 0xFFFFFFFF - (room - 1) < addr then 0xFFFFFFFF - addr + 1 else room)"

definition contiguous_span :: "mem \<Rightarrow> u32 \<Rightarrow> u32 \<Rightarrow> u32 \<Rightarrow> (u32 \<times> u64) option" where
  "contiguous_span m addr lim access =
     (if m_size m = 0 \<or> addr < m_lo m then None
      else
        let offset = addr - m_lo m in
        if m_size m \<le> offset then None
        else
          let room = span_room m addr lim in
          case m_perms m of
            None \<Rightarrow> Some (room, m_host m + ucast offset)
          | Some perms \<Rightarrow>
              let page_size = push_bit (m_page_shift m) 1;
                  page = unat (drop_bit (m_page_shift m) offset);
                  granted = page_size - (offset AND (page_size - 1)) in
              if \<not> page_grants perms access page then None
              else
                let granted = granted_loop perms page_size access room page granted;
                    room = (if granted < room then granted else room) in
                if room = 0 then None else Some (room, m_host m + ucast offset))"

definition backing_span :: "mem \<Rightarrow> u32 \<Rightarrow> u32 \<Rightarrow> u32 \<Rightarrow> (u32 \<times> u64) option" where
  "backing_span m addr lim access =
     (if lim = 0 \<or> bad_access access then None
      else case m_sparse m of
          Some sp \<Rightarrow> x86p_sparse_span_access sp addr lim access
        | None \<Rightarrow> contiguous_span m addr lim access)"

lemma span_access_le:
  assumes "x86p_sparse_span_access sp addr lim access = Some (n, h)"
  shows "n \<noteq> 0 \<and> n \<le> lim"
  using assms
  by (auto simp: x86p_sparse_span_access_def Let_def split: if_splits)

lemma room_cut:
  fixes addr room :: u32
  assumes "room \<noteq> 0"
  shows "(if 0xFFFFFFFF - (room - 1) < addr then 0xFFFFFFFF - addr + 1 else room) \<noteq> 0"
    and "(if 0xFFFFFFFF - (room - 1) < addr then 0xFFFFFFFF - addr + 1 else room) \<le> room"
    and "unat addr + unat (if 0xFFFFFFFF - (room - 1) < addr then 0xFFFFFFFF - addr + 1 else room) \<le> 2 ^ 32"
proof -
  have w: "(0xFFFFFFFF - (room - 1) < addr) = (2 ^ 32 < unat addr + unat room)"
    by (rule no_wrap [OF assms])
  have t: "unat (0xFFFFFFFF - addr + 1) = 2 ^ 32 - unat addr" if "0 < unat addr"
  proof -
    have "unat (x + 1) = unat x + 1" if "unat x + 1 < 2 ^ 32" for x :: u32
      using that by (simp only: unat_word_ariths(1)) simp
    from this [of "0xFFFFFFFF - addr"] show ?thesis
      unfolding all_ones_minus using that unat_lt32 [of addr] by linarith
  qed
  have pos: "0 < unat addr" if "2 ^ 32 < unat addr + unat room"
    using that unat_lt32 [of room] by linarith
  have r: "0 < unat room" using assms by (simp add: unat_gt_0)
  let ?c = "if 0xFFFFFFFF - (room - 1) < addr then 0xFFFFFFFF - addr + 1 else room"
  have u: "unat ?c = (if 2 ^ 32 < unat addr + unat room then 2 ^ 32 - unat addr else unat room)"
    using t pos w by simp
  show "?c \<noteq> 0" unfolding unat_gt_0 [symmetric] u using r unat_lt32 [of addr] by simp
  show "?c \<le> room" unfolding word_le_nat_alt u using unat_lt32 [of addr] by auto
  show "unat addr + unat ?c \<le> 2 ^ 32" unfolding u using unat_lt32 [of addr] by simp
qed

lemma span_room_bounds:
  assumes "lim \<noteq> 0" and "addr - m_lo m < m_size m"
  shows "span_room m addr lim \<noteq> 0" "span_room m addr lim \<le> lim"
    and "span_room m addr lim \<le> m_size m - (addr - m_lo m)"
    and "unat addr + unat (span_room m addr lim) \<le> 2 ^ 32"
proof -
  let ?r1 = "m_size m - (addr - m_lo m)"
  define r2 where "r2 = (if lim < ?r1 then lim else ?r1)"
  have nz: "r2 \<noteq> 0" using assms by (auto simp: r2_def)
  have s: "span_room m addr lim = (if 0xFFFFFFFF - (r2 - 1) < addr then 0xFFFFFFFF - addr + 1 else r2)"
    by (simp only: span_room_def Let_def r2_def)
  note cut = room_cut [OF nz, of addr, folded s]
  have r: "r2 \<le> lim" "r2 \<le> ?r1" by (auto simp: r2_def)
  show "span_room m addr lim \<noteq> 0" "unat addr + unat (span_room m addr lim) \<le> 2 ^ 32" by (rule cut)+
  show "span_room m addr lim \<le> lim" "span_room m addr lim \<le> ?r1" using cut(2) r by (meson order_trans)+
qed

lemma contiguous_span_le:
  assumes "contiguous_span m addr lim access = Some (n, h)" and "lim \<noteq> 0"
  shows "n \<noteq> 0 \<and> n \<le> lim"
proof -
  have lt: "addr - m_lo m < m_size m"
    using assms(1) by (auto simp: contiguous_span_def Let_def split: if_splits)
  note b = span_room_bounds [OF assms(2) lt]
  have "n \<noteq> 0 \<and> n \<le> span_room m addr lim"
    using assms(1) lt b(1) unfolding contiguous_span_def Let_def
    by (auto split: if_splits option.splits)
  then show ?thesis using b(2) by (meson order_trans)
qed

lemma backing_span_le:
  assumes "backing_span m addr lim access = Some (n, h)"
  shows "n \<noteq> 0 \<and> n \<le> lim"
  using assms span_access_le contiguous_span_le
  by (fastforce simp: backing_span_def split: if_splits option.splits)


lemma less_sub_step: "n \<noteq> 0 \<Longrightarrow> n \<le> a \<Longrightarrow> unat (a - n) < unat (a :: u32)"
  by (metis diff_less unat_gt_0 unat_sub word_le_nat_alt word_gt_0 order_less_le_trans)

function accessible_loop :: "mem \<Rightarrow> u32 \<Rightarrow> u32 \<Rightarrow> u32 \<Rightarrow> u32 \<Rightarrow> u32" where
  "accessible_loop m addr lim access tot =
     (if tot < lim then
        (case backing_span m addr (lim - tot) access of
           None \<Rightarrow> tot
         | Some (n, _) \<Rightarrow>
             if 0xFFFFFFFF - addr < n then tot + n
             else accessible_loop m (addr + n) lim access (tot + n))
      else tot)"
  by pat_completeness auto
termination
proof (relation "measure (\<lambda>(m, addr, lim, access, tot). unat (lim - tot))")
  fix m :: mem and addr lim access tot n :: u32 and p h
  assume "backing_span m addr (lim - tot) access = Some p" "(n, h) = p"
  then have "n \<noteq> 0" "n \<le> lim - tot" using backing_span_le by fastforce+
  from less_sub_step [OF this]
  show "((m, addr + n, lim, access, tot + n), m, addr, lim, access, tot)
      \<in> measure (\<lambda>(m, addr, lim, access, tot). unat (lim - tot))" by (simp add: algebra_simps)
qed auto

declare accessible_loop.simps [simp del]

definition accessible_span :: "mem \<Rightarrow> u32 \<Rightarrow> u32 \<Rightarrow> u32 \<Rightarrow> u32" where
  "accessible_span m addr lim access = accessible_loop m addr lim access 0"

definition x86p_mem_readable_span :: "mem \<Rightarrow> u32 \<Rightarrow> u32 \<Rightarrow> u32" where
  "x86p_mem_readable_span m addr lim = accessible_span m addr lim kX86pMemRead"

definition x86p_mem_accessible :: "mem \<Rightarrow> u32 \<Rightarrow> u32 \<Rightarrow> u32 \<Rightarrow> bool" where
  "x86p_mem_accessible m addr n access \<longleftrightarrow>
     n \<noteq> 0 \<and> addr \<le> 0xFFFFFFFF - (n - 1) \<and> accessible_span m addr n access = n"

definition x86p_mem_resolve :: "mem \<Rightarrow> u32 \<Rightarrow> u32 \<Rightarrow> u64 option" where
  "x86p_mem_resolve m addr n =
     (case m_sparse m of
        Some sp \<Rightarrow> x86p_sparse_resolve sp addr n kX86pMemRead
      | None \<Rightarrow>
          if n = 0 then None
          else case backing_span m addr n kX86pMemRead of
              None \<Rightarrow> None
            | Some (count, h) \<Rightarrow> if count \<noteq> n then None else Some h)"

definition x86p_mem_ok :: "mem \<Rightarrow> u32 \<Rightarrow> nat \<Rightarrow> bool" where
  "x86p_mem_ok m addr w \<longleftrightarrow>
     (w = 1 \<or> w = 2 \<or> w = 4) \<and> x86p_mem_accessible m addr (of_nat w) kX86pMemRead"

definition one_span :: "mem \<Rightarrow> u32 \<Rightarrow> u32 \<Rightarrow> u32 \<Rightarrow> u64 option" where
  "one_span m addr n access =
     (if n = 0 \<or> 0xFFFFFFFF - (n - 1) < addr then None
      else case m_sparse m of
          Some sp \<Rightarrow> x86p_sparse_resolve sp addr n access
        | None \<Rightarrow> (case backing_span m addr n access of
              None \<Rightarrow> None
            | Some (count, h) \<Rightarrow> if count = n then Some h else None))"

section \<open>Reading and writing\<close>

text \<open>
  The span-by-span loops.  A span of 0 bytes would make the C loop spin; it is the value
  \<open>None\<close> here, and the accessibility test in front of each loop excludes it.
\<close>

function read_loop :: "mem \<Rightarrow> store \<Rightarrow> u32 \<Rightarrow> u32 \<Rightarrow> u8 list option" where
  "read_loop m st addr n =
     (if n = 0 then Some []
      else case backing_span m addr n kX86pMemRead of
          None \<Rightarrow> None
        | Some (count, h) \<Rightarrow>
            map_option (\<lambda>rest. host_read st h (unat count) @ rest) (read_loop m st (addr + count) (n - count)))"
  by pat_completeness auto
termination
  by (relation "measure (\<lambda>(m, st, addr, n). unat n)")
    (auto dest!: backing_span_le intro: less_sub_step)

declare read_loop.simps [simp del]

definition x86p_mem_read_bytes :: "mem \<Rightarrow> store \<Rightarrow> u32 \<Rightarrow> u32 \<Rightarrow> u8 list option" where
  "x86p_mem_read_bytes m st addr n =
     (case one_span m addr n kX86pMemRead of
        Some h \<Rightarrow> Some (host_read st h (unat n))
      | None \<Rightarrow>
          if \<not> x86p_mem_accessible m addr n kX86pMemRead then None
          else read_loop m st addr n)"

function write_loop :: "mem \<Rightarrow> store \<Rightarrow> u32 \<Rightarrow> u8 list \<Rightarrow> u32 \<Rightarrow> store option" where
  "write_loop m st addr input n =
     (if n = 0 then Some st
      else case backing_span m addr n kX86pMemWrite of
          None \<Rightarrow> None
        | Some (count, h) \<Rightarrow>
            write_loop m (host_write st h (take (unat count) input)) (addr + count)
              (drop (unat count) input) (n - count))"
  by pat_completeness auto
termination
  by (relation "measure (\<lambda>(m, st, addr, input, n). unat n)")
    (auto dest!: backing_span_le intro: less_sub_step)

declare write_loop.simps [simp del]

text \<open>The source buffer \<open>input\<close> holds the \<open>n\<close> bytes to write.\<close>

definition x86p_mem_write_bytes :: "mem \<Rightarrow> host \<Rightarrow> u32 \<Rightarrow> u8 list \<Rightarrow> u32 \<Rightarrow> host option" where
  "x86p_mem_write_bytes m s addr input n =
     (case one_span m addr n kX86pMemWrite of
        Some h \<Rightarrow>
          let s = notify s addr n in
          Some (s\<lparr>hs_bytes := host_write (hs_bytes s) h (take (unat n) input)\<rparr>)
      | None \<Rightarrow>
          if \<not> x86p_mem_accessible m addr n kX86pMemWrite then None
          else
            let s = notify s addr n in
            map_option (\<lambda>st. s\<lparr>hs_bytes := st\<rparr>) (write_loop m (hs_bytes s) addr input n))"

text \<open>The value a little-endian byte list stands for, and the bytes of a value.\<close>

definition assemble :: "u8 list \<Rightarrow> u32" where
  "assemble bs = foldr (\<lambda>b value. push_bit 8 value OR ucast b) bs 0"

fun split_bytes :: "nat \<Rightarrow> u32 \<Rightarrow> u8 list" where
  "split_bytes 0 value = []"
| "split_bytes (Suc w) value = ucast value # split_bytes w (drop_bit 8 value)"

definition x86p_mem_read :: "mem \<Rightarrow> store \<Rightarrow> u32 \<Rightarrow> nat \<Rightarrow> u32 option" where
  "x86p_mem_read m st addr w =
     (if w \<noteq> 1 \<and> w \<noteq> 2 \<and> w \<noteq> 4 then None
      else map_option assemble (x86p_mem_read_bytes m st addr (of_nat w)))"

definition x86p_mem_write :: "mem \<Rightarrow> host \<Rightarrow> u32 \<Rightarrow> nat \<Rightarrow> u32 \<Rightarrow> host option" where
  "x86p_mem_write m s addr w value =
     (if w \<noteq> 1 \<and> w \<noteq> 2 \<and> w \<noteq> 4 then None
      else x86p_mem_write_bytes m s addr (split_bytes w value) (of_nat w))"

section \<open>Bulk copy and fill\<close>

definition x86p_mem_copy_disjoint :: "mem \<Rightarrow> host \<Rightarrow> u32 \<Rightarrow> u32 \<Rightarrow> u32 \<Rightarrow> host option" where
  "x86p_mem_copy_disjoint m s dst src n =
     (if m_sparse m \<noteq> None \<or> hs_observed s then None
      else case (x86p_mem_resolve m src n, x86p_mem_resolve m dst n) of
          (Some source, Some destination) \<Rightarrow>
            if unat src < unat dst + unat n \<and> unat dst < unat src + unat n then None
            else Some (s\<lparr>hs_bytes := host_write (hs_bytes s) destination (host_read (hs_bytes s) source (unat n))\<rparr>)
        | _ \<Rightarrow> None)"

definition unit_repeats_one_byte :: "u8 list \<Rightarrow> nat \<Rightarrow> bool" where
  "unit_repeats_one_byte unit w \<longleftrightarrow> list_all (\<lambda>i. unit ! i = unit ! 0) [1..<w]"

text \<open>The doubling loop of \<open>x86p_mem_fill\<close>: \<open>filled\<close> bytes are written, and the next chunk copies them.\<close>

function fill_loop :: "store \<Rightarrow> u64 \<Rightarrow> nat \<Rightarrow> nat \<Rightarrow> store" where
  "fill_loop st destination filled bytes =
     (if filled < bytes \<and> 0 < filled then
        let chunk = (if filled < bytes - filled then filled else bytes - filled) in
        fill_loop (host_write st (destination + of_nat filled) (host_read st destination chunk)) destination
          (filled + chunk) bytes
      else st)"
  by pat_completeness auto
termination
  by (relation "measure (\<lambda>(st, destination, filled, bytes). bytes - filled)") auto

declare fill_loop.simps [simp del]

definition x86p_mem_fill :: "mem \<Rightarrow> host \<Rightarrow> u32 \<Rightarrow> u8 list \<Rightarrow> nat \<Rightarrow> u32 \<Rightarrow> host option" where
  "x86p_mem_fill m s addr unit w count =
     (let bytes = w * unat count in
      if count = 0 \<or> (w \<noteq> 1 \<and> w \<noteq> 2 \<and> w \<noteq> 4) \<or> 2 ^ 32 - 1 < bytes then None
      else if m_sparse m \<noteq> None \<or> hs_observed s then None
      else case x86p_mem_resolve m addr (of_nat bytes) of
          None \<Rightarrow> None
        | Some destination \<Rightarrow>
            if unit_repeats_one_byte unit w then
              Some (s\<lparr>hs_bytes := host_write (hs_bytes s) destination (replicate bytes (unit ! 0))\<rparr>)
            else
              Some (s\<lparr>hs_bytes :=
                fill_loop (host_write (hs_bytes s) destination (take w unit)) destination w bytes\<rparr>))"

end
