(* ===== verification/X86_Memory_Spans.thy ===== *)
theory X86_Memory_Spans
  imports X86_Memory
begin

text \<open>
  Guest memory as a map from guest bytes to host bytes, and the span queries of
  \<open>src/src/x86port/memory.c\<close> against it.
\<close>

section \<open>The byte view\<close>

definition contiguous_byte :: "mem \<Rightarrow> u32 \<Rightarrow> (u64 \<times> u32) option" where
  "contiguous_byte m a =
     (if unat (m_lo m) \<le> unat a \<and> unat a < unat (m_lo m) + unat (m_size m) then
        (case m_perms m of
           None \<Rightarrow> Some (m_host m + ucast (a - m_lo m), 3)
         | Some perms \<Rightarrow>
             let have = page_perm perms (unat (a - m_lo m) div 2 ^ m_page_shift m) in
             if have = 0 then None else Some (m_host m + ucast (a - m_lo m), ucast have))
      else None)"

definition mem_byte :: "mem \<Rightarrow> u32 \<Rightarrow> (u64 \<times> u32) option" where
  "mem_byte m a =
     (case m_sparse m of
        Some sp \<Rightarrow> map_option (\<lambda>(h, have, al). (h, have)) (sp_byte sp a)
      | None \<Rightarrow> contiguous_byte m a)"

definition mem_grants :: "mem \<Rightarrow> u32 \<Rightarrow> u32 \<Rightarrow> bool" where
  "mem_grants m access a \<longleftrightarrow> (\<exists>h have. mem_byte m a = Some (h, have) \<and> grants have access)"

definition host_of :: "mem \<Rightarrow> u32 \<Rightarrow> u64" where
  "host_of m a = (case mem_byte m a of None \<Rightarrow> 0 | Some (h, _) \<Rightarrow> h)"

text \<open>
  What the consumer promises: a sparse table its operations built, or a permission table that
  covers the mapping with at least a page to spare below the end of the address space.
\<close>

definition mem_wf :: "mem \<Rightarrow> bool" where
  "mem_wf m \<longleftrightarrow>
     (case m_sparse m of
        Some sp \<Rightarrow> sparse_ok sp
      | None \<Rightarrow> (case m_perms m of
            None \<Rightarrow> True
          | Some perms \<Rightarrow> 1 \<le> m_page_shift m \<and> m_page_shift m < 32 \<and>
              unat (m_size m) + 2 ^ m_page_shift m \<le> 2 ^ 32 \<and>
              unat (m_size m) \<le> length perms * 2 ^ m_page_shift m))"

lemma subset_of_mask:
  assumes "x AND NOT k = (0 :: u32)"
  shows "k AND x = x"
proof (rule bit_word_eqI)
  fix n assume "n < LENGTH(32)"
  moreover have "bit (x AND NOT k) n = False" using assms by simp
  ultimately show "bit (k AND x) n = bit x n" by (auto simp: bit_and_iff bit_not_iff)
qed

lemma grants_rw: "\<not> bad_access access \<Longrightarrow> grants 3 access"
  using subset_of_mask [of access 3]
  by (simp add: bad_access_def kX86pMemRead_def kX86pMemWrite_def grants_def)

section \<open>The permission walk\<close>

lemma granted_loop_spec:
  assumes "unat room + P \<le> 2 ^ 32" "unat page_size = P" "0 < P"
    and "off + unat granted = (page + 1) * P"
    and "\<And>k. off \<le> k \<Longrightarrow> k < off + unat granted \<Longrightarrow> page_grants perms access (k div P)"
  shows "unat granted \<le> unat (granted_loop perms page_size access room page granted) \<and>
    (\<forall>k. off \<le> k \<longrightarrow> k < off + unat (granted_loop perms page_size access room page granted) \<longrightarrow>
      page_grants perms access (k div P))"
  using assms
proof (induction perms page_size access room page granted rule: granted_loop.induct)
  case (1 perms page_size access room page granted)
  show ?case
  proof (cases "granted < room \<and> page_grants perms access (page + 1)")
    case False
    then have "granted_loop perms page_size access room page granted = granted"
      by (subst granted_loop.simps) auto
    then show ?thesis using 1(6) by simp
  next
    case True
    then have r: "granted_loop perms page_size access room page granted =
        granted_loop perms page_size access room (page + 1) (granted + page_size)"
      by (subst granted_loop.simps) auto
    have lt: "unat granted + P < 2 ^ 32" using True 1(2) by (simp add: word_less_nat_alt)
    then have u: "unat (granted + page_size) = unat granted + P"
      using 1(3) by (simp add: unat_word_ariths(1))
    have next_page: "k div P = page + 1" if "\<not> k < off + unat granted" "k < off + (unat granted + P)" for k
    proof -
      have "(page + 1) * P \<le> k" "k < (page + 2) * P" using that 1(5) by (auto simp: algebra_simps)
      then show ?thesis using \<open>0 < P\<close> by (intro div_nat_eqI) (auto simp: algebra_simps)
    qed
    have g: "page_grants perms access (k div P)" if "off \<le> k" "k < off + unat (granted + page_size)" for k
      using 1(6) [OF that(1)] next_page [of k] that(2) True u by metis
    have "off + unat (granted + page_size) = (page + 1 + 1) * P" using 1(5) u by (simp add: algebra_simps)
    from "1.IH" [OF _ _ 1(2,3,4) this g] True have
      "unat (granted + page_size) \<le> unat (granted_loop perms page_size access room page granted) \<and>
       (\<forall>k. off \<le> k \<longrightarrow> k < off + unat (granted_loop perms page_size access room page granted) \<longrightarrow>
         page_grants perms access (k div P))" unfolding r by blast
    then show ?thesis using u by simp
  qed
qed

lemma first_page:
  fixes offset :: u32
  assumes "ps < 32"
  defines "page_size \<equiv> push_bit ps 1 :: u32"
  shows "unat page_size = 2 ^ ps"
    and "unat (drop_bit ps offset) = unat offset div 2 ^ ps"
    and "unat offset + unat (page_size - (offset AND (page_size - 1))) = (unat offset div 2 ^ ps + 1) * 2 ^ ps"
    and "0 < unat (page_size - (offset AND (page_size - 1)))"
proof -
  have p: "page_size = 2 ^ ps" by (simp add: page_size_def push_bit_eq_mult)
  show s: "unat page_size = 2 ^ ps" unfolding p using unat_of_nat [of "2 ^ ps", where ?'a = 32] power_strict_increasing [OF assms(1), of "2 :: nat"] by simp
  show "unat (drop_bit ps offset) = unat offset div 2 ^ ps"
    unfolding unat_drop_bit_eq by (simp add: drop_bit_eq_div)
  have m: "unat (offset AND (page_size - 1)) = unat offset mod 2 ^ ps"
    unfolding p mask_eq_exp_minus_1 [symmetric] take_bit_eq_mask [symmetric] unsigned_take_bit_eq
    by (simp add: take_bit_eq_mod)
  have lt: "unat offset mod 2 ^ ps < 2 ^ ps" by simp
  have d: "unat (page_size - (offset AND (page_size - 1))) = 2 ^ ps - unat offset mod 2 ^ ps"
    using s m lt by (simp add: unat_sub word_le_nat_alt)
  show "0 < unat (page_size - (offset AND (page_size - 1)))" unfolding d using lt by simp
  have "unat offset = (unat offset div 2 ^ ps) * 2 ^ ps + unat offset mod 2 ^ ps"
    by (rule div_mult_mod_eq [symmetric])
  then show "unat offset + unat (page_size - (offset AND (page_size - 1))) = (unat offset div 2 ^ ps + 1) * 2 ^ ps"
    unfolding d using lt by (simp only: add_mult_distrib mult_1)
qed

section \<open>What a span is\<close>

text \<open>A span of \<open>n\<close> bytes from \<open>addr\<close> at consecutive host addresses from \<open>h\<close>, all granted.\<close>

definition is_span :: "mem \<Rightarrow> u32 \<Rightarrow> u32 \<Rightarrow> nat \<Rightarrow> u64 \<Rightarrow> bool" where
  "is_span m access addr n h \<longleftrightarrow> unat addr + n \<le> 2 ^ 32 \<and>
     (\<forall>i < n. \<exists>have. mem_byte m (addr + of_nat i) = Some (h + of_nat i, have) \<and> grants have access)"

lemma unat_plus: "unat a + i < 2 ^ 32 \<Longrightarrow> unat (a + of_nat i :: u32) = unat a + i"
  by (simp add: unat_word_ariths(1) unat_of_nat)

lemma contiguous_byte_at:
  assumes lo: "m_lo m \<le> addr" and i: "unat (addr - m_lo m) + i < unat (m_size m)" "unat addr + i < 2 ^ 32"
  shows "contiguous_byte m (addr + of_nat i) =
    (case m_perms m of
       None \<Rightarrow> Some (m_host m + ucast (addr - m_lo m) + of_nat i, 3)
     | Some perms \<Rightarrow>
         let have = page_perm perms ((unat (addr - m_lo m) + i) div 2 ^ m_page_shift m) in
         if have = 0 then None else Some (m_host m + ucast (addr - m_lo m) + of_nat i, ucast have))"
proof -
  have u: "unat (addr + of_nat i) = unat addr + i" by (rule unat_plus [OF i(2)])
  have l: "unat (m_lo m) \<le> unat addr" using lo by (simp add: word_le_nat_alt)
  have off: "unat (addr - m_lo m) = unat addr - unat (m_lo m)" using lo by (rule unat_minus)
  have e: "addr + of_nat i - m_lo m = addr - m_lo m + of_nat i" by simp
  have lt: "unat (addr - m_lo m) + i < 2 ^ 32" using i(1) unat_lt32 [of "m_size m"] by linarith
  have d: "unat (addr - m_lo m + of_nat i) = unat (addr - m_lo m) + i" by (rule unat_plus [OF lt])
  have c: "(ucast (addr - m_lo m + of_nat i) :: u64) = ucast (addr - m_lo m) + of_nat i"
    unfolding ucast_of_nat [of "addr - m_lo m + of_nat i"] ucast_of_nat [of "addr - m_lo m"] d by simp
  have r: "unat (m_lo m) \<le> unat (addr + of_nat i) \<and> unat (addr + of_nat i) < unat (m_lo m) + unat (m_size m)"
    using i l off u by linarith
  show ?thesis unfolding contiguous_byte_def if_P [OF r] e d c add.assoc by (rule refl)
qed

text \<open>The permission walk of one query, started in the page that holds the first byte.\<close>

definition granted_of :: "mem \<Rightarrow> u8 list \<Rightarrow> u32 \<Rightarrow> u32 \<Rightarrow> u32 \<Rightarrow> u32" where
  "granted_of m perms addr lim access =
     (let page_size = push_bit (m_page_shift m) 1; offset = addr - m_lo m in
      granted_loop perms page_size access (span_room m addr lim) (unat (drop_bit (m_page_shift m) offset))
        (page_size - (offset AND (page_size - 1))))"

lemma contiguous_span_in:
  assumes "m_lo m \<le> addr" "addr - m_lo m < m_size m"
  shows "contiguous_span m addr lim access =
    (case m_perms m of
       None \<Rightarrow> Some (span_room m addr lim, m_host m + ucast (addr - m_lo m))
     | Some perms \<Rightarrow>
         if \<not> page_grants perms access (unat (drop_bit (m_page_shift m) (addr - m_lo m))) then None
         else
           let granted = granted_of m perms addr lim access;
               room = (if granted < span_room m addr lim then granted else span_room m addr lim) in
           if room = 0 then None else Some (room, m_host m + ucast (addr - m_lo m)))"
proof -
  have c: "\<not> (m_size m = 0 \<or> addr < m_lo m)" "\<not> m_size m \<le> addr - m_lo m" using assms by auto
  show ?thesis unfolding contiguous_span_def if_not_P [OF c(1)] if_not_P [OF c(2)] Let_def granted_of_def by (rule refl)
qed

lemma contiguous_span_out:
  "\<not> (m_lo m \<le> addr \<and> addr - m_lo m < m_size m) \<Longrightarrow> contiguous_span m addr lim access = None"
  by (auto simp: contiguous_span_def Let_def)

lemma granted_walk:
  assumes wf: "mem_wf m" "m_sparse m = None" "m_perms m = Some perms"
    and a: "addr - m_lo m < m_size m" "lim \<noteq> 0"
    and pg: "page_grants perms access (unat (drop_bit (m_page_shift m) (addr - m_lo m)))"
  shows "0 < unat (granted_of m perms addr lim access)"
    and "unat (addr - m_lo m) \<le> k \<Longrightarrow> k < unat (addr - m_lo m) + unat (granted_of m perms addr lim access) \<Longrightarrow>
      page_grants perms access (k div 2 ^ m_page_shift m)"
proof -
  let ?off = "addr - m_lo m" and ?ps = "m_page_shift m"
  let ?P = "push_bit ?ps 1 :: u32"
  let ?init = "?P - (?off AND (?P - 1))"
  have ps: "?ps < 32" "unat (m_size m) + 2 ^ ?ps \<le> 2 ^ 32" using wf by (simp_all add: mem_wf_def)
  have "unat (span_room m addr lim) \<le> unat (m_size m) - unat ?off"
    using span_room_bounds(3) [OF a(2,1)] unat_minus [OF less_imp_le [OF a(1)]] by (simp add: word_le_nat_alt)
  then have rP: "unat (span_room m addr lim) + 2 ^ ?ps \<le> 2 ^ 32" using ps(2) by linarith
  have init: "page_grants perms access (k div 2 ^ ?ps)" if "unat ?off \<le> k" "k < unat ?off + unat ?init" for k
  proof -
    have "k div 2 ^ ?ps = unat ?off div 2 ^ ?ps"
    proof (rule div_nat_eqI)
      have "unat ?off div 2 ^ ?ps * 2 ^ ?ps \<le> unat ?off" by (rule div_times_less_eq_dividend)
      from order_trans [OF this that(1)] show "2 ^ ?ps * (unat ?off div 2 ^ ?ps) \<le> k"
        by (simp only: mult.commute)
      show "k < 2 ^ ?ps * Suc (unat ?off div 2 ^ ?ps)"
        using that(2) unfolding first_page(3) [OF ps(1)] by (simp add: mult.commute)
    qed
    then show ?thesis using pg first_page(2) [OF ps(1), of ?off] by simp
  qed
  have e: "unat ?off + unat ?init = (unat (drop_bit ?ps ?off) + 1) * 2 ^ ?ps"
    unfolding first_page(2) [OF ps(1)] by (rule first_page(3) [OF ps(1)])
  have w: "unat ?init \<le> unat (granted_of m perms addr lim access) \<and>
    (\<forall>k. unat ?off \<le> k \<longrightarrow> k < unat ?off + unat (granted_of m perms addr lim access) \<longrightarrow>
      page_grants perms access (k div 2 ^ ?ps))"
    unfolding granted_of_def Let_def
    by (rule granted_loop_spec [OF rP first_page(1) [OF ps(1)] _ e]) (simp, rule init)
  then show "0 < unat (granted_of m perms addr lim access)" using first_page(4) [OF ps(1), of ?off] by linarith
  show "unat (addr - m_lo m) \<le> k \<Longrightarrow> k < unat (addr - m_lo m) + unat (granted_of m perms addr lim access) \<Longrightarrow>
      page_grants perms access (k div 2 ^ m_page_shift m)" using w by blast
qed

lemma contiguous_span_spec:
  assumes wf: "mem_wf m" "m_sparse m = None" and acc: "\<not> bad_access access" and lim: "lim \<noteq> 0"
    and s: "contiguous_span m addr lim access = Some (n, h)"
  shows "is_span m access addr (unat n) h"
proof -
  let ?off = "addr - m_lo m" and ?ps = "m_page_shift m"
  define r3 where "r3 = span_room m addr lim"
  have lo: "m_lo m \<le> addr" and off: "?off < m_size m"
    using s contiguous_span_out [of m addr] by (metis option.distinct(1))+
  note sp = s [unfolded contiguous_span_in [OF lo off] r3_def [symmetric]]
  note cut = span_room_bounds [OF lim off, folded r3_def]
  have r1: "unat (m_size m - ?off) = unat (m_size m) - unat ?off" using off by (simp add: unat_minus)
  have off': "unat ?off < unat (m_size m)" using off by (simp add: word_less_nat_alt)
  have r3s: "unat ?off + unat r3 \<le> unat (m_size m)" using cut(3) r1 off' unfolding word_le_nat_alt by linarith
  have h: "h = m_host m + ucast ?off" and nle: "unat n \<le> unat r3"
    using sp by (auto simp: Let_def word_le_nat_alt word_less_nat_alt split: if_splits option.splits)
  show ?thesis unfolding is_span_def
  proof (intro conjI allI impI)
    show "unat addr + unat n \<le> 2 ^ 32" using cut(4) nle by linarith
    fix i assume i: "i < unat n"
    have b: "unat ?off + i < unat (m_size m)" "unat addr + i < 2 ^ 32"
      using i r3s cut(4) nle by linarith+
    show "\<exists>have. mem_byte m (addr + of_nat i) = Some (h + of_nat i, have) \<and> grants have access"
    proof (cases "m_perms m")
      case None
      then show ?thesis using contiguous_byte_at [OF lo b] wf grants_rw [OF acc] by (simp add: mem_byte_def h)
    next
      case (Some perms)
      have pg: "page_grants perms access (unat (drop_bit ?ps ?off))"
        and ng: "unat n \<le> unat (granted_of m perms addr lim access)"
        using sp Some by (auto simp: Let_def word_le_nat_alt word_less_nat_alt split: if_splits)
      have "page_grants perms access ((unat ?off + i) div 2 ^ ?ps)"
        using granted_walk(2) [OF wf Some off lim pg, of "unat ?off + i"] i ng by simp
      then show ?thesis
        using contiguous_byte_at [OF lo b] Some wf(2) by (simp add: mem_byte_def h page_grants_def Let_def)
    qed
  qed
qed

lemma contiguous_span_None:
  assumes wf: "mem_wf m" "m_sparse m = None" and n: "contiguous_span m addr lim access = None" "lim \<noteq> 0"
  shows "\<not> mem_grants m access addr"
proof
  assume "mem_grants m access addr"
  then obtain h have' where b: "contiguous_byte m addr = Some (h, have')" "grants have' access"
    using wf(2) by (auto simp: mem_grants_def mem_byte_def)
  then have r: "unat (m_lo m) \<le> unat addr" "unat addr < unat (m_lo m) + unat (m_size m)"
    by (auto simp: contiguous_byte_def split: if_splits)
  then have lo: "m_lo m \<le> addr" by (simp add: word_le_nat_alt)
  have off: "addr - m_lo m < m_size m"
    using r unat_minus [OF lo] by (simp add: word_less_nat_alt)
  note sp = n(1) [unfolded contiguous_span_in [OF lo off]]
  obtain perms where p: "m_perms m = Some perms" using sp by (cases "m_perms m") auto
  then have ps: "m_page_shift m < 32" using wf by (simp add: mem_wf_def)
  have pg: "page_grants perms access (unat (drop_bit (m_page_shift m) (addr - m_lo m)))"
    unfolding first_page(2) [OF ps] using b r p
    by (auto simp: contiguous_byte_def page_grants_def Let_def split: if_splits)
  have "granted_of m perms addr lim access \<noteq> 0"
    using granted_walk(1) [OF wf p off n(2) pg] by auto
  then show False using sp p pg span_room_bounds(1) [OF n(2) off] by (auto simp: Let_def split: if_splits)
qed

lemma backing_span_spec:
  assumes wf: "mem_wf m" and s: "backing_span m addr lim access = Some (n, h)"
  shows "is_span m access addr (unat n) h" and "\<not> bad_access access"
proof -
  from s show acc: "\<not> bad_access access" by (auto simp: backing_span_def split: if_splits)
  have lim: "lim \<noteq> 0" using s by (auto simp: backing_span_def split: if_splits)
  show "is_span m access addr (unat n) h"
  proof (cases "m_sparse m")
    case None
    then show ?thesis using contiguous_span_spec [OF wf None acc lim] s by (simp add: backing_span_def split: if_splits)
  next
    case (Some sp)
    then have ok: "sparse_ok sp" using wf by (simp add: mem_wf_def)
    have s': "x86p_sparse_span_access sp addr lim access = Some (n, h)"
      using s Some by (simp add: backing_span_def split: if_splits)
    note b = span_access_bytes [OF ok s']
    show ?thesis unfolding is_span_def
    proof (intro conjI allI impI)
      show "unat addr + unat n \<le> 2 ^ 32" by (rule b(3))
      fix i assume i: "i < unat n"
      then have u: "unat (of_nat i :: u32) = i" using unat_lt32 [of n] by (intro unat_of_nat32) linarith
      then have "of_nat i < n" using i by (simp add: word_less_nat_alt)
      from b(4) [OF this] show "\<exists>have. mem_byte m (addr + of_nat i) = Some (h + of_nat i, have) \<and> grants have access"
        using Some ucast_of_nat [of "of_nat i"] by (auto simp: mem_byte_def u)
    qed
  qed
qed

lemma backing_span_None:
  assumes wf: "mem_wf m" and s: "backing_span m addr lim access = None"
  shows "lim = 0 \<or> bad_access access \<or> \<not> mem_grants m access addr"
proof (cases "m_sparse m")
  case None
  then show ?thesis using contiguous_span_None [OF wf None] s by (auto simp: backing_span_def split: if_splits)
next
  case (Some sp)
  then have ok: "sparse_ok sp" using wf by (simp add: mem_wf_def)
  show ?thesis using s Some span_access_None_iff [OF ok, of addr lim access]
    by (auto simp: backing_span_def mem_grants_def mem_byte_def split: if_splits)
qed

end
