(* ===== verification/X86_Memory_Access.thy ===== *)
theory X86_Memory_Access
  imports X86_Memory_Spans
begin

text \<open>
  The checked accesses of \<open>src/src/x86port/memory.c\<close> against the byte view: which ranges are
  accessible, and what reading and writing them does to single bytes.
\<close>

section \<open>Granted runs\<close>

definition granted_run :: "mem \<Rightarrow> u32 \<Rightarrow> u32 \<Rightarrow> nat \<Rightarrow> bool" where
  "granted_run m access addr n \<longleftrightarrow> unat addr + n \<le> 2 ^ 32 \<and> (\<forall>i < n. mem_grants m access (addr + of_nat i))"

lemma granted_run_0 [simp]: "granted_run m access addr 0"
  using unat_lt32 [of addr] by (simp add: granted_run_def)

lemma is_span_run: "is_span m access addr n h \<Longrightarrow> granted_run m access addr n"
  by (auto simp: is_span_def granted_run_def mem_grants_def)

lemma granted_run_append:
  "granted_run m access addr (j + k) \<longleftrightarrow>
     granted_run m access addr j \<and> unat addr + (j + k) \<le> 2 ^ 32 \<and>
     (\<forall>i < k. mem_grants m access (addr + of_nat j + of_nat i))" (is "?l = ?r")
proof
  assume l: ?l
  have "mem_grants m access (addr + of_nat j + of_nat i)" if "i < k" for i
    using l that unfolding granted_run_def by (auto dest: spec [of _ "j + i"] simp: add.assoc)
  then show ?r using l by (auto simp: granted_run_def)
next
  assume r: ?r
  have "mem_grants m access (addr + of_nat i)" if "i < j + k" for i
  proof (cases "i < j")
    case False
    then have "i - j < k" "of_nat j + of_nat (i - j) = (of_nat i :: u32)"
      using that by (simp_all flip: of_nat_add)
    then show ?thesis using r by (metis add.assoc)
  qed (use r in \<open>simp add: granted_run_def\<close>)
  then show ?l using r by (simp add: granted_run_def)
qed

lemma granted_run_drop:
  assumes "granted_run m access addr n" "j \<le> n"
  shows "granted_run m access (addr + of_nat j) (n - j)"
proof (cases "j = n")
  case False
  then have j: "unat (addr + of_nat j) = unat addr + j"
    using assms by (intro unat_plus) (simp add: granted_run_def)
  show ?thesis using assms granted_run_append [of m access addr j "n - j"] j by (simp add: granted_run_def)
qed simp

lemma granted_run_range:
  "granted_run m access addr (unat n) \<longleftrightarrow>
     unat addr + unat n \<le> 2 ^ 32 \<and> (\<forall>a. in_range addr n a \<longrightarrow> mem_grants m access a)" (is "?l = ?r")
proof
  assume l: ?l
  have "mem_grants m access a" if "in_range addr n a" for a
  proof -
    have le: "addr \<le> a" using that by (simp add: in_range_def word_le_nat_alt)
    have i: "unat (a - addr) < unat n" "addr + of_nat (unat (a - addr)) = a"
      using that unat_minus [OF le] by (auto simp: in_range_def)
    have "mem_grants m access (addr + of_nat (unat (a - addr)))"
      using l i(1) unfolding granted_run_def by blast
    then show ?thesis unfolding i(2) .
  qed
  then show ?r using l by (simp add: granted_run_def)
next
  assume r: ?r
  have "in_range addr n (addr + of_nat i)" if "i < unat n" for i
    using unat_plus [of addr i] r that by (simp add: in_range_def)
  then show ?l using r by (simp add: granted_run_def)
qed

section \<open>Accessibility\<close>

lemma accessible_loop_spec:
  assumes wf: "mem_wf m" and acc: "\<not> bad_access access"
  shows "tot \<le> lim \<Longrightarrow> r = accessible_loop m addr lim access tot \<Longrightarrow>
    \<exists>k. unat r = unat tot + k \<and> unat tot + k \<le> unat lim \<and> granted_run m access addr k \<and>
      (r = lim \<or> unat addr + k = 2 ^ 32 \<or> \<not> mem_grants m access (addr + of_nat k))"
proof (induction "unat (lim - tot)" arbitrary: addr tot rule: less_induct)
  case (less tot addr)
  note le = less.prems(1) and r = less.prems(2) [unfolded accessible_loop.simps [of m addr lim access tot]]
  show ?case
  proof (cases "tot < lim")
    case False
    then show ?thesis using le r by (intro exI [of _ 0]) auto
  next
    case lt: True
    show ?thesis
    proof (cases "backing_span m addr (lim - tot) access")
      case None
      then have "\<not> mem_grants m access addr"
        using backing_span_None [OF wf None] acc lt by auto
      then show ?thesis using lt r None by (intro exI [of _ 0]) (auto simp: word_less_nat_alt)
    next
      case (Some p)
      then obtain n h where s: "backing_span m addr (lim - tot) access = Some (n, h)" by (cases p) simp
      have run: "granted_run m access addr (unat n)"
        using backing_span_spec(1) [OF wf s] by (rule is_span_run)
      have n: "n \<noteq> 0" "n \<le> lim - tot" using backing_span_le [OF s] by auto
      have nl: "unat tot + unat n \<le> unat lim"
        using n(2) unat_minus [OF le] lt unfolding word_le_nat_alt word_less_nat_alt by linarith
      have u: "unat (tot + n) = unat tot + unat n"
        using nl unat_lt32 [of lim] unat_add_lem [of tot n] by simp
      have c: "(0xFFFFFFFF - addr < n) = (unat addr + unat n = 2 ^ 32)"
        using run all_ones_minus [of addr] unat_lt32 [of addr] by (auto simp: word_less_nat_alt granted_run_def)
      show ?thesis
      proof (cases "unat addr + unat n = 2 ^ 32")
        case True
        then have "r = tot + n" using r lt s c by simp
        then show ?thesis using u nl run True by (intro exI [of _ "unat n"]) simp
      next
        case False
        then have lt32: "unat addr + unat n < 2 ^ 32" using run by (simp add: granted_run_def)
        have un: "unat (addr + n) = unat addr + unat n" using unat_plus [OF lt32] by simp
        have r': "r = accessible_loop m (addr + n) lim access (tot + n)" using r lt s c False by simp
        have le': "tot + n \<le> lim" using u nl by (simp add: word_le_nat_alt)
        have "unat (lim - (tot + n)) < unat (lim - tot)"
          using less_sub_step [OF n] by (simp add: algebra_simps)
        from less.hyps [OF this le' r'] obtain k where k: "unat r = unat (tot + n) + k"
          "unat (tot + n) + k \<le> unat lim" "granted_run m access (addr + n) k"
          "r = lim \<or> unat (addr + n) + k = 2 ^ 32 \<or> \<not> mem_grants m access (addr + n + of_nat k)" by blast
        have "granted_run m access addr (unat n + k)"
          unfolding granted_run_append using run k(3) un by (simp add: granted_run_def)
        then show ?thesis using k u un
          by (intro exI [of _ "unat n + k"]) (simp add: add.assoc)
      qed
    qed
  qed
qed

lemma accessible_span_bad: "bad_access access \<Longrightarrow> accessible_span m addr lim access = 0"
  by (simp add: accessible_span_def accessible_loop.simps [of m addr lim access 0] backing_span_def)

lemma accessible_iff:
  assumes wf: "mem_wf m"
  shows "x86p_mem_accessible m addr n access \<longleftrightarrow>
    n \<noteq> 0 \<and> \<not> bad_access access \<and> granted_run m access addr (unat n)"
proof (cases "n = 0 \<or> bad_access access")
  case True
  then show ?thesis using accessible_span_bad [of access m addr n] by (auto simp: x86p_mem_accessible_def)
next
  case False
  then have acc: "\<not> bad_access access" and nz: "n \<noteq> 0" by auto
  obtain k where k: "unat (accessible_span m addr n access) = k" "k \<le> unat n" "granted_run m access addr k"
    "accessible_span m addr n access = n \<or> unat addr + k = 2 ^ 32 \<or> \<not> mem_grants m access (addr + of_nat k)"
    using accessible_loop_spec [OF wf acc, of 0 n "accessible_span m addr n access" addr]
    by (auto simp: accessible_span_def)
  have w: "(addr \<le> 0xFFFFFFFF - (n - 1)) = (unat addr + unat n \<le> 2 ^ 32)"
    using no_wrap [OF nz, of addr] by (auto simp: not_less [symmetric])
  show ?thesis
  proof
    assume "x86p_mem_accessible m addr n access"
    then show "n \<noteq> 0 \<and> \<not> bad_access access \<and> granted_run m access addr (unat n)"
      using nz acc k by (auto simp: x86p_mem_accessible_def)
  next
    assume r: "n \<noteq> 0 \<and> \<not> bad_access access \<and> granted_run m access addr (unat n)"
    have "k = unat n" if ne: "accessible_span m addr n access \<noteq> n"
    proof (rule ccontr)
      assume "k \<noteq> unat n"
      then have lt: "k < unat n" using k(2) by simp
      then have "mem_grants m access (addr + of_nat k)" using r unfolding granted_run_def by blast
      moreover have "unat addr + k \<noteq> 2 ^ 32" using lt r by (simp add: granted_run_def)
      ultimately show False using k(4) ne by blast
    qed
    then have "accessible_span m addr n access = n" using k(1) word_unat_eq_iff by blast
    then show "x86p_mem_accessible m addr n access"
      using r w nz by (simp add: x86p_mem_accessible_def granted_run_def)
  qed
qed

lemma access_kinds: "\<not> bad_access kX86pMemRead" "\<not> bad_access kX86pMemWrite"
  by (simp_all add: bad_access_def kX86pMemRead_def kX86pMemWrite_def)

lemma one_span_spec:
  assumes wf: "mem_wf m" and s: "one_span m addr n access = Some h"
  shows "n \<noteq> 0" "is_span m access addr (unat n) h"
proof -
  from s show nz: "n \<noteq> 0" by (auto simp: one_span_def split: if_splits)
  show "is_span m access addr (unat n) h"
  proof (cases "m_sparse m")
    case None
    then have "backing_span m addr n access = Some (n, h)"
      using s by (auto simp: one_span_def split: if_splits option.splits)
    then show ?thesis by (rule backing_span_spec(1) [OF wf])
  next
    case (Some sp)
    then have ok: "sparse_ok sp" using wf by (simp add: mem_wf_def)
    have "x86p_sparse_resolve sp addr n access = Some h"
      using s Some by (auto simp: one_span_def split: if_splits)
    from resolve_sound [OF ok this] obtain al where
      b: "unat addr + unat n \<le> 2 ^ 32" "\<And>a. in_range addr n a \<Longrightarrow>
        \<exists>have. sp_byte sp a = Some (h + of_nat (unat a - unat addr), have, al) \<and> grants have access" by blast
    have "\<exists>have. mem_byte m (addr + of_nat i) = Some (h + of_nat i, have) \<and> grants have access" if "i < unat n" for i
    proof -
      have u: "unat (addr + of_nat i) = unat addr + i" using that b(1) by (intro unat_plus) linarith
      then have "in_range addr n (addr + of_nat i)" using that by (simp add: in_range_def)
      from b(2) [OF this] show ?thesis using Some u by (auto simp: mem_byte_def)
    qed
    then show ?thesis using b(1) by (simp add: is_span_def)
  qed
qed

section \<open>Bytes\<close>

definition guest_bytes :: "mem \<Rightarrow> store \<Rightarrow> u32 \<Rightarrow> nat \<Rightarrow> u8 list" where
  "guest_bytes m st addr n = map (\<lambda>i. st (host_of m (addr + of_nat i))) [0..<n]"

primrec byte_writes :: "mem \<Rightarrow> u32 \<Rightarrow> u8 list \<Rightarrow> store \<Rightarrow> store" where
  "byte_writes m addr [] st = st"
| "byte_writes m addr (b # bs) st = byte_writes m (addr + 1) bs (st(host_of m addr := b))"

lemma length_guest_bytes [simp]: "length (guest_bytes m st addr n) = n"
  by (simp add: guest_bytes_def)

lemma is_span_host: "is_span m access addr n h \<Longrightarrow> i < n \<Longrightarrow> host_of m (addr + of_nat i) = h + of_nat i"
  by (auto simp: is_span_def host_of_def)

lemma span_read: "is_span m access addr n h \<Longrightarrow> host_read st h n = guest_bytes m st addr n"
  by (simp add: host_read_def guest_bytes_def is_span_host)

lemma guest_bytes_append:
  "guest_bytes m st addr (j + k) = guest_bytes m st addr j @ guest_bytes m st (addr + of_nat j) k"
proof (rule nth_equalityI)
  fix i assume "i < length (guest_bytes m st addr (j + k))"
  then show "guest_bytes m st addr (j + k) ! i = (guest_bytes m st addr j @ guest_bytes m st (addr + of_nat j) k) ! i"
    by (cases "i < j") (auto simp: guest_bytes_def nth_append of_nat_diff algebra_simps)
qed simp

lemma byte_writes_append:
  "byte_writes m addr (bs @ cs) st = byte_writes m (addr + of_nat (length bs)) cs (byte_writes m addr bs st)"
  by (induction bs arbitrary: addr st) (simp_all add: algebra_simps)

lemma host_write_Nil [simp]: "host_write st h [] = st"
  by (simp add: host_write_def)

lemma host_write_Cons:
  assumes "length bs < 2 ^ 64"
  shows "host_write st h (b # bs) = host_write (st(h := b)) (h + 1) bs"
proof (rule ext)
  fix a
  show "host_write st h (b # bs) a = host_write (st(h := b)) (h + 1) bs a"
  proof (cases "a = h")
    case True
    have "unat (h - (h + 1)) = 2 ^ 64 - 1" by (simp add: unsigned_minus_1_eq_mask mask_eq_exp_minus_1)
    then show ?thesis using True assms by (simp add: host_write_def)
  next
    case False
    then have nz: "a - h \<noteq> 0" by simp
    have "a - (h + 1) = (a - h) - 1" by simp
    then have u: "unat (a - (h + 1)) = unat (a - h) - 1" using unat_minus_one [OF nz] by metis
    have "0 < unat (a - h)" using nz by (simp add: unat_gt_0)
    then show ?thesis using False u by (auto simp: host_write_def nth_Cons' simp del: unat_minus_one)
  qed
qed

lemma is_span_Suc:
  assumes "is_span m access addr (Suc n) h"
  shows "host_of m addr = h" "is_span m access (addr + 1) n (h + 1)"
proof -
  show "host_of m addr = h" using is_span_host [OF assms, of 0] by simp
  have l: "unat addr + Suc n \<le> 2 ^ 32" using assms by (simp add: is_span_def)
  have "unat (addr + 1) + n \<le> 2 ^ 32"
  proof (cases "n = 0")
    case True
    then show ?thesis using unat_lt32 [of "addr + 1"] by simp
  next
    case False
    then show ?thesis using unat_plus [of addr 1] l by simp
  qed
  moreover have "\<exists>have. mem_byte m (addr + 1 + of_nat i) = Some (h + 1 + of_nat i, have) \<and> grants have access"
    if "i < n" for i
    using assms that unfolding is_span_def by (auto dest!: spec [of _ "Suc i"] simp: algebra_simps)
  ultimately show "is_span m access (addr + 1) n (h + 1)" by (simp add: is_span_def)
qed

lemma span_write:
  "is_span m access addr (length bs) h \<Longrightarrow> host_write st h bs = byte_writes m addr bs st"
proof (induction bs arbitrary: addr h st)
  case (Cons b bs)
  have "unat addr + Suc (length bs) \<le> 2 ^ 32" using Cons.prems by (simp add: is_span_def)
  then have "length bs < 2 ^ 64" by simp
  then show ?case using Cons is_span_Suc [of m access addr "length bs" h]
    by (simp add: host_write_Cons fun_upd_def)
qed simp

section \<open>Reading and writing ranges\<close>

lemma run_span:
  assumes wf: "mem_wf m" and r: "granted_run m access addr (unat n)" "n \<noteq> 0" "\<not> bad_access access"
  obtains c h where "backing_span m addr n access = Some (c, h)" "is_span m access addr (unat c) h"
    "c \<noteq> 0" "unat c \<le> unat n" "unat (n - c) = unat n - unat c" "granted_run m access (addr + c) (unat (n - c))"
proof (cases "backing_span m addr n access")
  case None
  have "0 < unat n" using r(2) by (simp add: unat_gt_0)
  then have "mem_grants m access addr" using r(1) unfolding granted_run_def by (auto dest: spec [of _ 0])
  then show ?thesis using backing_span_None [OF wf None] r by auto
next
  case (Some p)
  then obtain c h where s: "backing_span m addr n access = Some (c, h)" by (cases p) simp
  note le = backing_span_le [OF s]
  then have u: "unat (n - c) = unat n - unat c" by (simp add: unat_minus)
  have "granted_run m access (addr + of_nat (unat c)) (unat n - unat c)"
    using r(1) le by (intro granted_run_drop) (auto simp: word_le_nat_alt)
  then show ?thesis using that [OF s backing_span_spec(1) [OF wf s]] le u by (simp add: word_le_nat_alt)
qed

lemma read_loop_run:
  assumes wf: "mem_wf m"
  shows "granted_run m kX86pMemRead addr (unat n) \<Longrightarrow> read_loop m st addr n = Some (guest_bytes m st addr (unat n))"
proof (induction "unat n" arbitrary: addr n rule: less_induct)
  case (less n addr)
  show ?case
  proof (cases "n = 0")
    case True
    then show ?thesis by (simp add: read_loop.simps [of m st addr 0] guest_bytes_def)
  next
    case False
    obtain c h where c: "backing_span m addr n kX86pMemRead = Some (c, h)" "is_span m kX86pMemRead addr (unat c) h"
      "c \<noteq> 0" "unat c \<le> unat n" "unat (n - c) = unat n - unat c"
      "granted_run m kX86pMemRead (addr + c) (unat (n - c))"
      by (rule run_span [OF wf less.prems False access_kinds(1)])
    have "unat (n - c) < unat n" using c False by (simp add: unat_gt_0)
    from less.hyps [OF this c(6)] have
      "read_loop m st addr n = Some (guest_bytes m st addr (unat c) @ guest_bytes m st (addr + c) (unat n - unat c))"
      using False c span_read [OF c(2)] by (simp add: read_loop.simps [of m st addr n])
    then show ?thesis using guest_bytes_append [of m st addr "unat c" "unat n - unat c"] c(4) by simp
  qed
qed

lemma write_loop_run:
  assumes wf: "mem_wf m"
  shows "granted_run m kX86pMemWrite addr (unat n) \<Longrightarrow> length bs = unat n \<Longrightarrow>
    write_loop m st addr bs n = Some (byte_writes m addr bs st)"
proof (induction "unat n" arbitrary: addr n bs st rule: less_induct)
  case (less n addr)
  show ?case
  proof (cases "n = 0")
    case True
    then show ?thesis using less.prems by (simp add: write_loop.simps [of m st addr "[]" 0])
  next
    case False
    obtain c h where c: "backing_span m addr n kX86pMemWrite = Some (c, h)" "is_span m kX86pMemWrite addr (unat c) h"
      "c \<noteq> 0" "unat c \<le> unat n" "unat (n - c) = unat n - unat c"
      "granted_run m kX86pMemWrite (addr + c) (unat (n - c))"
      by (rule run_span [OF wf less.prems(1) False access_kinds(2)])
    let ?b = "take (unat c) bs" and ?r = "drop (unat c) bs"
    have l: "length ?b = unat c" "length ?r = unat (n - c)" using less.prems(2) c by simp_all
    have "unat (n - c) < unat n" using c False by (simp add: unat_gt_0)
    from less.hyps [OF this c(6) l(2)] have
      "write_loop m st addr bs n = Some (byte_writes m (addr + c) ?r (host_write st h ?b))"
      using False c by (simp add: write_loop.simps [of m st addr bs n])
    also have "host_write st h ?b = byte_writes m addr ?b st"
      using span_write [of m kX86pMemWrite addr ?b h] c(2) l(1) by simp
    finally show ?thesis using byte_writes_append [of m addr ?b ?r st] l(1) by simp
  qed
qed

lemma read_bytes_eq:
  assumes wf: "mem_wf m"
  shows "x86p_mem_read_bytes m st addr n =
    (if n \<noteq> 0 \<and> granted_run m kX86pMemRead addr (unat n) then Some (guest_bytes m st addr (unat n)) else None)"
proof (cases "one_span m addr n kX86pMemRead")
  case None
  then show ?thesis
    using accessible_iff [OF wf, of addr n kX86pMemRead] access_kinds read_loop_run [OF wf, of addr n st]
    by (auto simp: x86p_mem_read_bytes_def)
next
  case (Some h)
  note s = one_span_spec [OF wf Some]
  show ?thesis using Some s(1) is_span_run [OF s(2)] span_read [OF s(2)] by (simp add: x86p_mem_read_bytes_def)
qed

lemma notify_bytes [simp]: "hs_bytes (notify s addr n) = hs_bytes s" "hs_observed (notify s addr n) = hs_observed s"
  by (simp_all add: notify_def)

lemma write_bytes_eq:
  assumes wf: "mem_wf m" and len: "length bs = unat n"
  shows "x86p_mem_write_bytes m s addr bs n =
    (if n \<noteq> 0 \<and> granted_run m kX86pMemWrite addr (unat n)
     then Some ((notify s addr n)\<lparr>hs_bytes := byte_writes m addr bs (hs_bytes s)\<rparr>) else None)"
proof (cases "one_span m addr n kX86pMemWrite")
  case None
  then show ?thesis
    using accessible_iff [OF wf, of addr n kX86pMemWrite] access_kinds
      write_loop_run [OF wf, of addr n bs "hs_bytes s"] len
    by (auto simp: x86p_mem_write_bytes_def Let_def)
next
  case (Some h)
  note s = one_span_spec [OF wf Some]
  have "host_write (hs_bytes s) h bs = byte_writes m addr bs (hs_bytes s)"
    using span_write [of m kX86pMemWrite addr bs h] s(2) len by simp
  then show ?thesis using Some s(1) is_span_run [OF s(2)] len by (simp add: x86p_mem_write_bytes_def Let_def)
qed

end
