(* ===== verification/X86_Memory_Properties.thy ===== *)
theory X86_Memory_Properties
  imports X86_Memory_Access
begin

text \<open>
  What guest memory promises its clients: exact accesses, the contract of a word memory, and
  the bulk moves as the element-wise writes they replace.
\<close>

section \<open>Exactness\<close>

text \<open>
  C39. A range is accessible exactly when it is not empty, does not wrap, and every byte of it
  is mapped with the requested access; the readable span is the longest readable prefix of
  the request that stays inside the address space.
\<close>

theorem guest_access_exact:
  assumes "mem_wf m"
  shows "(x86p_mem_accessible m addr n access \<longleftrightarrow>
      n \<noteq> 0 \<and> \<not> bad_access access \<and> unat addr + unat n \<le> 2 ^ 32 \<and>
      (\<forall>a. in_range addr n a \<longrightarrow> mem_grants m access a)) \<and>
    (let k = unat (x86p_mem_readable_span m addr n) in
      k \<le> unat n \<and> unat addr + k \<le> 2 ^ 32 \<and>
      (\<forall>i < k. mem_grants m kX86pMemRead (addr + of_nat i)) \<and>
      (k = unat n \<or> unat addr + k = 2 ^ 32 \<or> \<not> mem_grants m kX86pMemRead (addr + of_nat k)))"
proof
  show "x86p_mem_accessible m addr n access \<longleftrightarrow>
      n \<noteq> 0 \<and> \<not> bad_access access \<and> unat addr + unat n \<le> 2 ^ 32 \<and>
      (\<forall>a. in_range addr n a \<longrightarrow> mem_grants m access a)"
    unfolding accessible_iff [OF assms] granted_run_range ..
  obtain k where "unat (x86p_mem_readable_span m addr n) = k" "k \<le> unat n" "granted_run m kX86pMemRead addr k"
    "x86p_mem_readable_span m addr n = n \<or> unat addr + k = 2 ^ 32 \<or> \<not> mem_grants m kX86pMemRead (addr + of_nat k)"
    using accessible_loop_spec [OF assms access_kinds(1), of 0 n "accessible_span m addr n kX86pMemRead" addr]
    by (auto simp: accessible_span_def x86p_mem_readable_span_def)
  then show "let k = unat (x86p_mem_readable_span m addr n) in
      k \<le> unat n \<and> unat addr + k \<le> 2 ^ 32 \<and>
      (\<forall>i < k. mem_grants m kX86pMemRead (addr + of_nat i)) \<and>
      (k = unat n \<or> unat addr + k = 2 ^ 32 \<or> \<not> mem_grants m kX86pMemRead (addr + of_nat k))"
    unfolding granted_run_def Let_def by metis
qed

text \<open>A window of four pages of which the first two are readable and the first is writable.\<close>

definition window :: mem where
  "window = \<lparr>m_host = 0x700000, m_lo = 0x10000, m_size = 0x4000, m_sparse = None,
     m_perms = Some [3, 1, 0, 3], m_page_shift = 12, m_guard_above = 0\<rparr>"

lemma window_wf: "mem_wf window"
  by (simp add: mem_wf_def window_def)

theorem guest_access_exact_witness:
  "x86p_mem_accessible window 0x10FFE 4 1 \<and> mem_grants window 1 0x11000 \<and>
   unat (x86p_mem_readable_span window 0x10FFE 0x8000) \<le> 0x8000"
proof -
  have a: "x86p_mem_accessible window 0x10FFE 4 1" by code_simp
  have "in_range 0x10FFE 4 0x11000" by (simp add: in_range_def)
  then have "mem_grants window 1 0x11000"
    using a guest_access_exact [OF window_wf, of "0x10FFE" 4 1] by blast
  moreover have "unat (x86p_mem_readable_span window 0x10FFE 0x8000) \<le> 0x8000"
    using guest_access_exact [OF window_wf, of "0x10FFE" "0x8000" 1] by (simp add: Let_def)
  ultimately show ?thesis using a by blast
qed

text \<open>
  C40. A bulk read returns the range's bytes when all of it is readable and refuses otherwise;
  a bulk write stores each byte at its own host address, in ascending order, after telling the
  observer once, when all of the range is writable, and otherwise changes nothing.  How the
  range is cut into host spans is not visible.
\<close>

theorem guest_memory_refines_bytes:
  assumes "mem_wf m"
  shows "(x86p_mem_read_bytes m st addr n =
      (if n \<noteq> 0 \<and> granted_run m kX86pMemRead addr (unat n) then Some (guest_bytes m st addr (unat n)) else None)) \<and>
    (length bs = unat n \<longrightarrow> x86p_mem_write_bytes m s addr bs n =
      (if n \<noteq> 0 \<and> granted_run m kX86pMemWrite addr (unat n)
       then Some ((notify s addr n)\<lparr>hs_bytes := byte_writes m addr bs (hs_bytes s)\<rparr>) else None))"
  using read_bytes_eq [OF assms] write_bytes_eq [OF assms] by blast

theorem guest_memory_refines_bytes_witness:
  "x86p_mem_read_bytes window (\<lambda>h. ucast h) 0x10FFE 4 = Some [0xFE, 0xFF, 0, 1] \<and>
   x86p_mem_write_bytes window \<lparr>hs_bytes = \<lambda>_. 0, hs_observed = True, hs_log = []\<rparr> 0x10FFE [1, 2, 3, 4] 4 = None"
proof -
  let ?s = "\<lparr>hs_bytes = \<lambda>_. 0, hs_observed = True, hs_log = []\<rparr> :: host"
  have "\<not> x86p_mem_accessible window 0x10FFE 4 kX86pMemWrite" "x86p_mem_accessible window 0x10FFE 4 kX86pMemRead"
    by code_simp+
  then have g: "\<not> granted_run window kX86pMemWrite 0x10FFE 4" "granted_run window kX86pMemRead 0x10FFE 4"
    unfolding accessible_iff [OF window_wf] using access_kinds by auto
  have b: "guest_bytes window (\<lambda>h. ucast h) 0x10FFE 4 = [0xFE, 0xFF, 0, 1]"
    by (simp add: guest_bytes_def upt_rec host_of_def mem_byte_def contiguous_byte_def window_def page_perm_def)
  have n: "unat (4 :: u32) = 4" "(4 :: u32) \<noteq> 0" "length [1 :: u8, 2, 3, 4] = 4" by simp_all
  note e = guest_memory_refines_bytes [OF window_wf, where addr = "0x10FFE" and n = 4 and st = "\<lambda>h. ucast h"
      and bs = "[1, 2, 3, 4]" and s = ?s, unfolded n(1) b]
  show ?thesis unfolding conjunct1 [OF e] mp [OF conjunct2 [OF e] n(3)]
    by (simp only: g n(2) simp_thms if_True if_False)
qed

section \<open>Integers as bytes\<close>

lemma length_split_bytes [simp]: "length (split_bytes w v) = w"
  by (induction w v rule: split_bytes.induct) simp_all

lemma assemble_split: "8 * w \<le> 32 \<Longrightarrow> assemble (split_bytes w v) = take_bit (8 * w) v"
proof (induction w v rule: split_bytes.induct)
  case (2 w v)
  have "assemble (split_bytes (Suc w) v) = push_bit 8 (take_bit (8 * w) (drop_bit 8 v)) OR ucast (ucast v :: u8)"
    using 2 by (simp add: assemble_def)
  also have "\<dots> = take_bit (8 * Suc w) v"
  proof (rule bit_word_eqI)
    fix n assume "n < LENGTH(32)"
    then show "bit (push_bit 8 (take_bit (8 * w) (drop_bit 8 v)) OR ucast (ucast v :: u8)) n = bit (take_bit (8 * Suc w) v) n"
      by (cases "n < 8") (auto simp: bit_or_iff bit_push_bit_iff bit_take_bit_iff bit_drop_bit_eq bit_ucast_iff dest: bit_imp_le_length)
  qed
  finally show ?case .
qed (simp add: assemble_def)

section \<open>Writes and later reads\<close>

abbreviation at :: "u32 \<Rightarrow> nat \<Rightarrow> u32" where
  "at addr i \<equiv> addr + of_nat i"

lemma byte_writes_other:
  "(\<And>i. i < length bs \<Longrightarrow> h \<noteq> host_of m (at addr i)) \<Longrightarrow> byte_writes m addr bs st h = st h"
proof (induction bs arbitrary: addr st)
  case (Cons b bs)
  have "h \<noteq> host_of m (at (addr + 1) i)" if "i < length bs" for i
    using Cons.prems [of "Suc i"] that by (simp add: algebra_simps)
  moreover have "h \<noteq> host_of m addr" using Cons.prems [of 0] by simp
  ultimately show ?case using Cons.IH by simp
qed simp

definition apart :: "u32 \<Rightarrow> nat \<Rightarrow> u32 \<Rightarrow> nat \<Rightarrow> bool" where
  "apart a w b x \<longleftrightarrow> (\<forall>i < w. \<forall>j < x. at a i \<noteq> at b j)"

text \<open>Every granted guest byte has a host byte of its own, and what can be written can be read.\<close>

definition unaliased :: "mem \<Rightarrow> bool" where
  "unaliased m \<longleftrightarrow>
     (\<forall>a b. mem_grants m kX86pMemRead a \<longrightarrow> mem_grants m kX86pMemRead b \<longrightarrow> host_of m a = host_of m b \<longrightarrow> a = b) \<and>
     (\<forall>a. mem_grants m kX86pMemWrite a \<longrightarrow> mem_grants m kX86pMemRead a)"

lemma unaliased_at:
  assumes "unaliased m" "granted_run m kX86pMemRead a w" "granted_run m kX86pMemRead b x" "i < w" "j < x"
  shows "host_of m (at a i) = host_of m (at b j) \<longleftrightarrow> at a i = at b j"
  using assms by (auto simp: unaliased_def granted_run_def)

lemma at_inj: "granted_run m access a w \<Longrightarrow> i < w \<Longrightarrow> j < w \<Longrightarrow> at a i = at a j \<longleftrightarrow> i = j"
proof -
  assume g: "granted_run m access a w" "i < w" "j < w"
  have "unat (at a i) = unat a + i" "unat (at a j) = unat a + j"
    using g by (auto intro!: unat_plus simp: granted_run_def)
  then show "at a i = at a j \<longleftrightarrow> i = j" by (metis add_left_cancel)
qed

lemma byte_writes_at:
  assumes u: "unaliased m" and r: "granted_run m kX86pMemRead addr (length bs)"
  shows "i < length bs \<Longrightarrow> byte_writes m addr bs st (host_of m (at addr i)) = bs ! i"
  using r
proof (induction bs arbitrary: addr st i)
  case (Cons b bs)
  have run: "granted_run m kX86pMemRead (addr + 1) (length bs)"
    using granted_run_drop [OF Cons.prems(2), of 1] by simp
  have shift: "at addr (Suc j) = at (addr + 1) j" for j by (simp add: algebra_simps)
  show ?case
  proof (cases i)
    case 0
    have "host_of m addr \<noteq> host_of m (at (addr + 1) j)" if "j < length bs" for j
      using unaliased_at [OF u Cons.prems(2) Cons.prems(2), of 0 "Suc j"] at_inj [OF Cons.prems(2), of 0 "Suc j"] that
      by (simp add: shift del: of_nat_Suc)
    then show ?thesis using 0 byte_writes_other [of bs "host_of m addr" m "addr + 1"] by simp
  next
    case (Suc k)
    then show ?thesis using Cons.IH [OF _ run, of k] Cons.prems(1) by (simp add: shift del: of_nat_Suc)
  qed
qed simp

lemma write_grants_read: "unaliased m \<Longrightarrow> granted_run m kX86pMemWrite a w \<Longrightarrow> granted_run m kX86pMemRead a w"
  by (auto simp: granted_run_def unaliased_def)

lemma width_word: "w = 1 \<or> w = 2 \<or> w = 4 \<Longrightarrow> unat (of_nat w :: u32) = w \<and> (of_nat w :: u32) \<noteq> 0"
  by auto

lemma mem_read_eq:
  assumes "mem_wf m"
  shows "x86p_mem_read m st a w =
    (if (w = 1 \<or> w = 2 \<or> w = 4) \<and> granted_run m kX86pMemRead a w then Some (assemble (guest_bytes m st a w)) else None)"
  using width_word [of w] by (auto simp: x86p_mem_read_def read_bytes_eq [OF assms])

lemma mem_write_eq:
  assumes "mem_wf m"
  shows "x86p_mem_write m s a w v =
    (if (w = 1 \<or> w = 2 \<or> w = 4) \<and> granted_run m kX86pMemWrite a w
     then Some ((notify s a (of_nat w))\<lparr>hs_bytes := byte_writes m a (split_bytes w v) (hs_bytes s)\<rparr>) else None)"
  using width_word [of w] write_bytes_eq [OF assms, of "split_bytes w v" "of_nat w" s a]
  by (auto simp: x86p_mem_write_def)

section \<open>The contract of a word memory\<close>

text \<open>
  What the stack and every other client of scalar accesses relies on: a load returns what the
  last store at its address left, a store disturbs no load apart from it, and no store changes
  which addresses can be stored to.
\<close>

locale word_memory =
  fixes ok :: "'s \<Rightarrow> bool"
    and load :: "'s \<Rightarrow> u32 \<Rightarrow> nat \<Rightarrow> u32 option"
    and store :: "'s \<Rightarrow> u32 \<Rightarrow> nat \<Rightarrow> u32 \<Rightarrow> 's option"
  assumes store_ok: "ok s \<Longrightarrow> store s a w v = Some s' \<Longrightarrow> ok s'"
    and load_stored: "ok s \<Longrightarrow> store s a w v = Some s' \<Longrightarrow> load s' a w = Some (take_bit (8 * w) v)"
    and load_apart: "ok s \<Longrightarrow> store s a w v = Some s' \<Longrightarrow> apart a w b x \<Longrightarrow> load s' b x = load s b x"
    and store_faults: "ok s \<Longrightarrow> store s a w v = Some s' \<Longrightarrow> (store s' b x u = None) = (store s b x u' = None)"
begin

text \<open>Storing a list of dwords below an address, each one below the last, as pushes do.\<close>

primrec store_down :: "'s \<Rightarrow> u32 \<Rightarrow> u32 list \<Rightarrow> 's option" where
  "store_down s a [] = Some s"
| "store_down s a (v # vs) = (case store s (a - 4) 4 v of None \<Rightarrow> None | Some s' \<Rightarrow> store_down s' (a - 4) vs)"

lemma store_down_ok: "ok s \<Longrightarrow> store_down s a vs = Some s' \<Longrightarrow> ok s'"
  by (induction vs arbitrary: s a) (auto split: option.splits dest: store_ok)

lemma store_down_apart:
  assumes "ok s" "store_down s a vs = Some s'"
    and "\<And>i. i < length vs \<Longrightarrow> apart (a - 4 * of_nat (Suc i)) 4 b x"
  shows "load s' b x = load s b x"
  using assms
proof (induction vs arbitrary: s a)
  case (Cons v vs)
  then obtain s1 where s1: "store s (a - 4) 4 v = Some s1" "store_down s1 (a - 4) vs = Some s'"
    by (auto split: option.splits)
  have "load s' b x = load s1 b x"
  proof (rule Cons.IH [OF store_ok [OF Cons.prems(1) s1(1)] s1(2)])
    fix i assume "i < length vs"
    then show "apart (a - 4 - 4 * of_nat (Suc i)) 4 b x" using Cons.prems(3) [of "Suc i"] by (simp add: algebra_simps)
  qed
  moreover have "apart (a - 4) 4 b x" using Cons.prems(3) [of 0] by simp
  ultimately show ?case using load_apart [OF Cons.prems(1) s1(1)] by simp
qed simp

end

definition gm_ok :: "mem \<times> host \<Rightarrow> bool" where
  "gm_ok g \<longleftrightarrow> mem_wf (fst g) \<and> unaliased (fst g)"

definition gm_load :: "mem \<times> host \<Rightarrow> u32 \<Rightarrow> nat \<Rightarrow> u32 option" where
  "gm_load g a w = x86p_mem_read (fst g) (hs_bytes (snd g)) a w"

definition gm_store :: "mem \<times> host \<Rightarrow> u32 \<Rightarrow> nat \<Rightarrow> u32 \<Rightarrow> (mem \<times> host) option" where
  "gm_store g a w v = map_option (Pair (fst g)) (x86p_mem_write (fst g) (snd g) a w v)"

lemma gm_store_SomeD:
  assumes "gm_ok g" "gm_store g a w v = Some g'"
  shows "w = 1 \<or> w = 2 \<or> w = 4" "granted_run (fst g) kX86pMemWrite a w"
    "g' = (fst g, (notify (snd g) a (of_nat w))\<lparr>hs_bytes := byte_writes (fst g) a (split_bytes w v) (hs_bytes (snd g))\<rparr>)"
  using assms by (auto simp: gm_store_def gm_ok_def mem_write_eq split: if_splits)

lemma gm_store_None: "gm_ok g \<Longrightarrow> gm_store g a w v = None \<longleftrightarrow>
    \<not> ((w = 1 \<or> w = 2 \<or> w = 4) \<and> granted_run (fst g) kX86pMemWrite a w)"
  by (auto simp: gm_store_def gm_ok_def mem_write_eq)

lemma guest_bytes_cong:
  "(\<And>i. i < n \<Longrightarrow> st' (host_of m (at a i)) = st (host_of m (at a i))) \<Longrightarrow> guest_bytes m st' a n = guest_bytes m st a n"
  by (simp add: guest_bytes_def)

interpretation gm: word_memory gm_ok gm_load gm_store
proof unfold_locales
  fix s s' :: "mem \<times> host" and a b v u u' :: u32 and w x :: nat
  assume ok: "gm_ok s" and st: "gm_store s a w v = Some s'"
  note d = gm_store_SomeD [OF ok st]
  have wf: "mem_wf (fst s)" "unaliased (fst s)" using ok by (simp_all add: gm_ok_def)
  have rd: "granted_run (fst s) kX86pMemRead a w" by (rule write_grants_read [OF wf(2) d(2)])
  show ok': "gm_ok s'" using ok d(3) by (simp add: gm_ok_def)
  show "(gm_store s' b x u = None) = (gm_store s b x u' = None)"
    unfolding gm_store_None [OF ok] gm_store_None [OF ok'] by (simp add: d(3))
  show "gm_load s' a w = Some (take_bit (8 * w) v)"
  proof -
    have "guest_bytes (fst s) (byte_writes (fst s) a (split_bytes w v) (hs_bytes (snd s))) a w = split_bytes w v"
      using byte_writes_at [OF wf(2), of a "split_bytes w v"] rd by (intro nth_equalityI) (simp_all add: guest_bytes_def)
    then show ?thesis using d(1) rd assemble_split [of w v] unfolding d(3) gm_load_def
      by (auto simp: mem_read_eq [OF wf(1)])
  qed
  show "gm_load s' b x = gm_load s b x" if ap: "apart a w b x"
  proof (cases "granted_run (fst s) kX86pMemRead b x")
    case True
    have "guest_bytes (fst s) (byte_writes (fst s) a (split_bytes w v) (hs_bytes (snd s))) b x =
        guest_bytes (fst s) (hs_bytes (snd s)) b x"
    proof (rule guest_bytes_cong, rule byte_writes_other)
      fix i j assume "i < x" "j < length (split_bytes w v)"
      then show "host_of (fst s) (at b i) \<noteq> host_of (fst s) (at a j)"
        using unaliased_at [OF wf(2) True rd, of i j] ap by (simp add: apart_def) metis
    qed
    then show ?thesis unfolding d(3) gm_load_def by (simp add: mem_read_eq [OF wf(1)])
  next
    case False
    then show ?thesis unfolding d(3) gm_load_def by (simp add: mem_read_eq [OF wf(1)])
  qed
qed

text \<open>A contiguous mapping of whole read-write pages aliases nothing.\<close>

lemma contiguous_unaliased:
  assumes "m_sparse m = None" "case m_perms m of None \<Rightarrow> True | Some ps \<Rightarrow> \<forall>p \<in> set ps. p = 0 \<or> p = 1 \<or> p = 3"
  shows "unaliased m"
  unfolding unaliased_def
proof (intro conjI allI impI)
  fix a b assume a: "mem_grants m kX86pMemRead a" and b: "mem_grants m kX86pMemRead b"
    and e: "host_of m a = host_of m b"
  have h: "host_of m c = m_host m + ucast (c - m_lo m)" if "mem_grants m kX86pMemRead c" for c
    using that assms(1)
    by (auto simp: mem_grants_def mem_byte_def host_of_def contiguous_byte_def Let_def split: if_splits option.splits)
  have "(ucast (a - m_lo m) :: u64) = ucast (b - m_lo m)" using e h [OF a] h [OF b] by simp
  then have "unat (a - m_lo m) = unat (b - m_lo m)" by (metis unat_ucast_64)
  then have "a - m_lo m = b - m_lo m" by (rule unsigned_word_eqI)
  then show "a = b" by simp
next
  fix a assume "mem_grants m kX86pMemWrite a"
  then obtain h have' where b: "contiguous_byte m a = Some (h, have')" "grants have' kX86pMemWrite"
    using assms(1) by (auto simp: mem_grants_def mem_byte_def)
  have pg: "page_perm ps k = 0 \<or> page_perm ps k = 1 \<or> page_perm ps k = 3"
    if "m_perms m = Some ps" for ps k
    using assms(2) that by (auto simp: page_perm_def)
  have "have' = 1 \<or> have' = 3"
    using b(1) pg by (fastforce simp: contiguous_byte_def Let_def split: if_splits option.splits)
  then have "grants have' kX86pMemRead"
    using b(2) by (auto simp: grants_def kX86pMemRead_def kX86pMemWrite_def)
  then show "mem_grants m kX86pMemRead a" using b assms(1) by (auto simp: mem_grants_def mem_byte_def)
qed

text \<open>
  On memory that maps no two guest bytes to one host byte, a scalar read after a write of
  the same width returns the value reduced to the width, and every read that does not overlap
  the written bytes returns what it did before, faults included.
\<close>

theorem guest_write_then_read:
  assumes "mem_wf m" and "unaliased m" and "x86p_mem_write m s a w v = Some s'"
  shows "x86p_mem_read m (hs_bytes s') a w = Some (take_bit (8 * w) v) \<and>
    (apart a w b x \<longrightarrow> x86p_mem_read m (hs_bytes s') b x = x86p_mem_read m (hs_bytes s) b x)"
proof -
  have g: "gm_ok (m, s)" "gm_store (m, s) a w v = Some (m, s')"
    using assms by (simp_all add: gm_ok_def gm_store_def)
  show ?thesis using gm.load_stored [OF g] gm.load_apart [OF g] by (simp add: gm_load_def)
qed

theorem guest_write_then_read_witness:
  "\<exists>s'. x86p_mem_write window \<lparr>hs_bytes = \<lambda>_. 0, hs_observed = False, hs_log = []\<rparr> 0x10010 2 0x12345678 = Some s' \<and>
     x86p_mem_read window (hs_bytes s') 0x10010 2 = Some 0x5678"
proof -
  have u: "unaliased window" by (rule contiguous_unaliased) (auto simp: window_def)
  have "x86p_mem_accessible window 0x10010 2 kX86pMemWrite" by code_simp
  then have "granted_run window kX86pMemWrite 0x10010 2" using accessible_iff [OF window_wf] by auto
  then obtain s' where s': "x86p_mem_write window \<lparr>hs_bytes = \<lambda>_. 0, hs_observed = False, hs_log = []\<rparr> 0x10010 2 0x12345678 = Some s'"
    by (auto simp: mem_write_eq [OF window_wf])
  from guest_write_then_read [OF window_wf u s'] s' show ?thesis by simp
qed

section \<open>Bulk moves\<close>

lemma host_write_append:
  "length xs + length ys < 2 ^ 64 \<Longrightarrow>
   host_write (host_write st h xs) (h + of_nat (length xs)) ys = host_write st h (xs @ ys)"
proof (induction xs arbitrary: st h)
  case (Cons x xs)
  have "length xs < 2 ^ 64" "length (xs @ ys) < 2 ^ 64" using Cons.prems by simp_all
  then have e: "host_write st h (x # xs) = host_write (st(h := x)) (h + 1) xs"
    "host_write st h (x # xs @ ys) = host_write (st(h := x)) (h + 1) (xs @ ys)"
    by (simp_all only: host_write_Cons)
  have a: "h + of_nat (length (x # xs)) = h + 1 + of_nat (length xs)" by simp
  show ?case unfolding append_Cons e a using Cons.prems by (intro Cons.IH) simp
qed simp

lemma host_read_write:
  assumes "n \<le> length bs" "length bs < 2 ^ 64"
  shows "host_read (host_write st h bs) h n = take n bs"
proof (rule nth_equalityI)
  fix i assume "i < length (host_read (host_write st h bs) h n)"
  then have i: "i < n" by (simp add: host_read_def)
  then have "unat (of_nat i :: u64) = i" using assms by (simp add: unat_of_nat)
  then show "host_read (host_write st h bs) h n ! i = take n bs ! i"
    using i assms by (simp add: host_read_def host_write_def)
qed (use assms in \<open>simp add: host_read_def\<close>)

lemma fill_loop_spec:
  assumes w: "0 < w" and len: "length pat = bytes" "bytes < 2 ^ 64"
    and pat: "\<And>i. i < bytes \<Longrightarrow> pat ! i = unit ! (i mod w)"
  shows "w dvd filled \<Longrightarrow> 0 < filled \<Longrightarrow> filled \<le> bytes \<Longrightarrow>
    fill_loop (host_write st d (take filled pat)) d filled bytes = host_write st d pat"
proof (induction "bytes - filled" arbitrary: filled rule: less_induct)
  case less
  let ?st = "host_write st d (take filled pat)"
  define ck where "ck = (if filled < bytes - filled then filled else bytes - filled)"
  show ?case
  proof (cases "filled < bytes")
    case False
    then show ?thesis using less.prems len by (simp add: fill_loop.simps [of _ d bytes bytes])
  next
    case True
    have ch: "ck \<le> filled" "filled + ck \<le> bytes" "0 < ck" using True less.prems by (auto simp: ck_def)
    have l: "length (take filled pat) = filled" using True len by simp
    have r: "host_read ?st d ck = take ck pat"
      using host_read_write [of ck "take filled pat" st d] ch(1) l len True by (simp add: min_def)
    have "take ck (drop filled pat) = take ck pat"
    proof (rule nth_equalityI)
      fix i assume "i < length (take ck (drop filled pat))"
      then have i: "i < ck" "filled + i < bytes" using len ch(2) by auto
      have "(filled + i) mod w = i mod w" using less.prems(1) by (metis dvd_eq_mod_eq_0 mod_add_left_eq add_0)
      then show "take ck (drop filled pat) ! i = take ck pat ! i"
        using i pat [of "filled + i"] pat [of i] len by simp
    qed (use len ch(2) in simp)
    then have app: "take filled pat @ take ck pat = take (filled + ck) pat"
      by (simp add: take_add)
    have ll: "length (take filled pat) + length (take ck pat) < 2 ^ 64" using len ch l by simp
    have step: "fill_loop ?st d filled bytes = fill_loop (host_write st d (take (filled + ck) pat)) d (filled + ck) bytes"
      using True less.prems(2) r host_write_append [OF ll, of st d] l app
      by (simp add: fill_loop.simps [of ?st] Let_def flip: ck_def)
    show ?thesis
    proof (cases "filled < bytes - filled")
      case c: True
      have "w dvd filled + ck" using less.prems(1) c by (simp add: ck_def)
      moreover have "bytes - (filled + ck) < bytes - filled" using ch(3) True by linarith
      moreover have "0 < filled + ck" using less.prems(2) by simp
      ultimately show ?thesis unfolding step using less.hyps ch(2) by blast
    next
      case False
      then have "filled + ck = bytes" using True by (simp add: ck_def)
      then show ?thesis unfolding step using len by (simp add: fill_loop.simps)
    qed
  qed
qed

lemma resolve_span:
  assumes wf: "mem_wf m" and c: "m_sparse m = None" and r: "x86p_mem_resolve m addr n = Some h"
  shows "n \<noteq> 0" "is_span m kX86pMemRead addr (unat n) h"
proof -
  have n: "n \<noteq> 0" and "backing_span m addr n kX86pMemRead = Some (n, h)"
    using r c by (auto simp: x86p_mem_resolve_def split: if_splits option.splits)
  then show "n \<noteq> 0" "is_span m kX86pMemRead addr (unat n) h"
    using backing_span_spec(1) [OF wf] by blast+
qed

lemma nth_concat_replicate:
  "length xs = w \<Longrightarrow> i < w * c \<Longrightarrow> concat (replicate c xs) ! i = xs ! (i mod w)"
proof (induction c arbitrary: i)
  case (Suc c)
  then show ?case by (cases "i < w") (auto simp: nth_append le_mod_geq)
qed simp

lemma mem_fill_eq:
  assumes wf: "mem_wf m" and len: "length unit = w" and f: "x86p_mem_fill m s addr unit w count = Some s'"
  shows "w = 1 \<or> w = 2 \<or> w = 4" "count \<noteq> 0" "m_sparse m = None" "\<not> hs_observed s"
    and "granted_run m kX86pMemRead addr (w * unat count)"
    and "s' = s\<lparr>hs_bytes := byte_writes m addr (concat (replicate (unat count) unit)) (hs_bytes s)\<rparr>"
proof -
  let ?bytes = "w * unat count" and ?pat = "concat (replicate (unat count) unit)"
  from f show w: "w = 1 \<or> w = 2 \<or> w = 4" and nz: "count \<noteq> 0" and sp: "m_sparse m = None" and "\<not> hs_observed s"
    by (auto simp: x86p_mem_fill_def Let_def split: if_splits option.splits)
  from f have b: "?bytes \<le> 2 ^ 32 - 1" by (auto simp: x86p_mem_fill_def Let_def split: if_splits)
  from f obtain h where h: "x86p_mem_resolve m addr (of_nat ?bytes) = Some h"
    by (auto simp: x86p_mem_fill_def Let_def split: if_splits option.splits)
  have u: "unat (of_nat ?bytes :: u32) = ?bytes" using b by (intro unat_of_nat32) simp
  have span: "is_span m kX86pMemRead addr ?bytes h" using resolve_span(2) [OF wf sp h] unfolding u .
  then show "granted_run m kX86pMemRead addr ?bytes" by (rule is_span_run)
  have pl: "length ?pat = ?bytes" using len by (simp add: length_concat sum_list_replicate mult.commute)
  have c1: "1 \<le> unat count" using nz by (simp add: unat_gt_0 Suc_leI)
  have wb: "w \<le> ?bytes" using c1 by simp
  have written: "(if unit_repeats_one_byte unit w then host_write (hs_bytes s) h (replicate ?bytes (unit ! 0))
      else fill_loop (host_write (hs_bytes s) h (take w unit)) h w ?bytes) = host_write (hs_bytes s) h ?pat"
  proof (cases "unit_repeats_one_byte unit w")
    case True
    have one: "unit ! j = unit ! 0" if "j < w" for j
      using True that by (cases j) (auto simp: unit_repeats_one_byte_def list_all_iff)
    have "replicate ?bytes (unit ! 0) = ?pat"
    proof (rule nth_equalityI)
      fix i assume i: "i < length (replicate ?bytes (unit ! 0))"
      then have "?pat ! i = unit ! (i mod w)" using nth_concat_replicate [OF len] by simp
      then show "replicate ?bytes (unit ! 0) ! i = ?pat ! i" using i one [of "i mod w"] w by auto
    qed (simp add: pl)
    then show ?thesis using True by simp
  next
    case False
    have "take w ?pat = take w unit"
      using len c1 by (cases "unat count") auto
    then show ?thesis
      using fill_loop_spec [of w ?pat ?bytes unit w "hs_bytes s" h] w pl b wb nth_concat_replicate [OF len] False
      by auto
  qed
  have "s' = s\<lparr>hs_bytes := host_write (hs_bytes s) h ?pat\<rparr>"
    using f h sp nz w b unfolding written [symmetric] by (auto simp: x86p_mem_fill_def Let_def split: if_splits)
  then show "s' = s\<lparr>hs_bytes := byte_writes m addr ?pat (hs_bytes s)\<rparr>"
    using span_write [of m kX86pMemRead addr ?pat h] span pl by simp
qed

text \<open>The element-wise writes a fill stands for.\<close>

primrec repeat_write :: "mem \<Rightarrow> host \<Rightarrow> u32 \<Rightarrow> u8 list \<Rightarrow> nat \<Rightarrow> host option" where
  "repeat_write m s addr unit 0 = Some s"
| "repeat_write m s addr unit (Suc c) =
     (case x86p_mem_write_bytes m s addr unit (of_nat (length unit)) of
        None \<Rightarrow> None
      | Some s' \<Rightarrow> repeat_write m s' (addr + of_nat (length unit)) unit c)"

lemma notify_quiet [simp]: "\<not> hs_observed s \<Longrightarrow> notify s addr n = s"
  by (simp add: notify_def)

lemma repeat_write_run:
  assumes wf: "mem_wf m" and l: "length unit = w" "w = 1 \<or> w = 2 \<or> w = 4"
  shows "\<not> hs_observed s \<Longrightarrow> granted_run m kX86pMemWrite addr (w * c) \<Longrightarrow>
    repeat_write m s addr unit c = Some (s\<lparr>hs_bytes := byte_writes m addr (concat (replicate c unit)) (hs_bytes s)\<rparr>)"
proof (induction c arbitrary: s addr)
  case (Suc c)
  have r: "granted_run m kX86pMemWrite addr w" "granted_run m kX86pMemWrite (addr + of_nat w) (w * c)"
    using granted_run_append [of m kX86pMemWrite addr w "w * c"] Suc.prems(2)
      granted_run_drop [OF Suc.prems(2), of w] by simp_all
  have u: "unat (of_nat w :: u32) = w" "(of_nat w :: u32) \<noteq> 0" using width_word [OF l(2)] by simp_all
  have "x86p_mem_write_bytes m s addr unit (of_nat w) = Some (s\<lparr>hs_bytes := byte_writes m addr unit (hs_bytes s)\<rparr>)"
    using write_bytes_eq [OF wf, of unit "of_nat w" s addr] l u r(1) Suc.prems(1) by simp
  then show ?case using Suc.IH [OF _ r(2)] Suc.prems(1) l(1) by (simp add: byte_writes_append)
qed simp

lemma mem_copy_eq:
  assumes wf: "mem_wf m" and c: "x86p_mem_copy_disjoint m s dst src n = Some s'"
  shows "s' = s\<lparr>hs_bytes := byte_writes m dst (guest_bytes m (hs_bytes s) src (unat n)) (hs_bytes s)\<rparr>"
    and "\<not> (\<exists>a. in_range dst n a \<and> in_range src n a)"
    and "n \<noteq> 0" "m_sparse m = None" "\<not> hs_observed s"
    and "granted_run m kX86pMemRead dst (unat n)" "granted_run m kX86pMemRead src (unat n)"
proof -
  from c obtain hs hd where h: "m_sparse m = None" "x86p_mem_resolve m src n = Some hs" "x86p_mem_resolve m dst n = Some hd"
    "\<not> (unat src < unat dst + unat n \<and> unat dst < unat src + unat n)" "\<not> hs_observed s"
    "s' = s\<lparr>hs_bytes := host_write (hs_bytes s) hd (host_read (hs_bytes s) hs (unat n))\<rparr>"
    by (auto simp: x86p_mem_copy_disjoint_def split: if_splits option.splits)
  note sp = resolve_span [OF wf h(1,2)] resolve_span [OF wf h(1,3)]
  show "s' = s\<lparr>hs_bytes := byte_writes m dst (guest_bytes m (hs_bytes s) src (unat n)) (hs_bytes s)\<rparr>"
    unfolding h(6) span_read [OF sp(2)]
    using span_write [of m kX86pMemRead dst "guest_bytes m (hs_bytes s) src (unat n)" hd] sp(4) by simp
  show "\<not> (\<exists>a. in_range dst n a \<and> in_range src n a)" using h(4) by (auto simp: in_range_def)
  show "n \<noteq> 0" "m_sparse m = None" "\<not> hs_observed s" using sp(1) h by simp_all
  show "granted_run m kX86pMemRead dst (unat n)" "granted_run m kX86pMemRead src (unat n)"
    using is_span_run [OF sp(2)] is_span_run [OF sp(4)] by simp_all
qed

text \<open>
  Where the bulk fill and the bulk copy are accepted they write what the element-wise
  code writes: the fill, on a range that is writable, is its count of unit writes, and the
  copy stores the source's bytes one by one into a range disjoint from it.
\<close>

theorem bulk_moves_are_element_moves:
  assumes "mem_wf m"
  shows "(\<forall>s'. length unit = w \<and> x86p_mem_fill m s addr unit w count = Some s' \<and>
        granted_run m kX86pMemWrite addr (w * unat count) \<longrightarrow> repeat_write m s addr unit (unat count) = Some s') \<and>
    (\<forall>s'. x86p_mem_copy_disjoint m s dst src n = Some s' \<longrightarrow>
      s' = s\<lparr>hs_bytes := byte_writes m dst (guest_bytes m (hs_bytes s) src (unat n)) (hs_bytes s)\<rparr> \<and>
      \<not> (\<exists>a. in_range dst n a \<and> in_range src n a))"
proof (intro conjI allI impI)
  fix s' assume f: "length unit = w \<and> x86p_mem_fill m s addr unit w count = Some s' \<and>
    granted_run m kX86pMemWrite addr (w * unat count)"
  then have l: "length unit = w" and x: "x86p_mem_fill m s addr unit w count = Some s'"
    and r: "granted_run m kX86pMemWrite addr (w * unat count)" by auto
  note d = mem_fill_eq [OF assms l x]
  show "repeat_write m s addr unit (unat count) = Some s'"
    using repeat_write_run [OF assms l d(1) d(4) r] d(6) by simp
next
  fix s' assume c: "x86p_mem_copy_disjoint m s dst src n = Some s'"
  from mem_copy_eq(1,2) [OF assms this]
  show "s' = s\<lparr>hs_bytes := byte_writes m dst (guest_bytes m (hs_bytes s) src (unat n)) (hs_bytes s)\<rparr>"
    and "\<not> (\<exists>a. in_range dst n a \<and> in_range src n a)" by simp_all
qed

definition quiet_host :: host where
  "quiet_host = \<lparr>hs_bytes = \<lambda>_. 0, hs_observed = False, hs_log = []\<rparr>"

theorem bulk_moves_are_element_moves_witness:
  "\<exists>s'. x86p_mem_fill window quiet_host 0x10010 [1, 2] 2 3 = Some s' \<and>
     repeat_write window quiet_host 0x10010 [1, 2] 3 = Some s'"
proof -
  have "x86p_mem_resolve window 0x10010 6 = Some 0x700010" by code_simp
  then have "x86p_mem_fill window quiet_host 0x10010 [1, 2] 2 3 \<noteq> None"
    by (simp add: x86p_mem_fill_def Let_def quiet_host_def window_def)
  then obtain s' where s': "x86p_mem_fill window quiet_host 0x10010 [1, 2] 2 3 = Some s'" by blast
  have "x86p_mem_accessible window 0x10010 6 kX86pMemWrite" by code_simp
  then have r: "granted_run window kX86pMemWrite 0x10010 6" using accessible_iff [OF window_wf] by auto
  from bulk_moves_are_element_moves [OF window_wf, where unit = "[1, 2]" and w = 2 and count = 3] s' r
  show ?thesis by auto
qed

text \<open>
  The bulk fill asks only for read access: on a page that is readable but not writable it
  stores, where the element-wise write it replaces refuses.
\<close>

lemma bulk_fill_ignores_write_permission:
  "x86p_mem_fill window quiet_host 0x11000 [7] 1 4 \<noteq> None \<and>
   x86p_mem_write_bytes window quiet_host 0x11000 [7, 7, 7, 7] 4 = None"
proof
  have "x86p_mem_resolve window 0x11000 4 = Some 0x701000" by code_simp
  then show "x86p_mem_fill window quiet_host 0x11000 [7] 1 4 \<noteq> None"
    by (simp add: x86p_mem_fill_def Let_def quiet_host_def window_def)
  have "\<not> x86p_mem_accessible window 0x11000 4 kX86pMemWrite" by code_simp
  then have "\<not> granted_run window kX86pMemWrite 0x11000 4"
    unfolding accessible_iff [OF window_wf] using access_kinds by auto
  then show "x86p_mem_write_bytes window quiet_host 0x11000 [7, 7, 7, 7] 4 = None"
    by (simp add: write_bytes_eq [OF window_wf])
qed

text \<open>
  The permission walk counts granted bytes in 32 bits: with pages of half the address space
  and every page granted, the count wraps to 0 and a request for the whole mapping is refused.
\<close>

lemma granted_count_wraps:
  "contiguous_span \<lparr>m_host = 0, m_lo = 0, m_size = 0xFFFFFFFF, m_sparse = None, m_perms = Some [3, 3],
     m_page_shift = 31, m_guard_above = 0\<rparr> 0 0xFFFFFFFF kX86pMemRead = None"
  by code_simp

end
