(* ===== verification/X86_X87.thy ===== *)
theory X86_X87
  imports X86_Prelude
begin

text \<open>
  The x87 register file: the state of \<open>src/src/x86port/x87.h\<close>, the rotating stack of
  \<open>x87_stack.h\<close> and \<open>x87_stack.c\<close>, and the parts of \<open>x87.c\<close>, \<open>x87_register.c\<close> and
  \<open>x87_state.c\<close> that move registers without computing on them.

  The configuration modelled is the one whose register storage is the guest's own encoding
  (\<open>X86P_X87_BINARY128\<close>): a 64-bit significand and a 16-bit sign and exponent.  Stack indices
  are natural numbers; the code's refusal of a negative index is not visible.  The armed
  operation census is a flag.  A refused read or pop is \<open>None\<close>.
\<close>

section \<open>State\<close>

record x87_reg =
  xr_signif :: u64
  xr_sign_exp :: u16

record x87 =
  x_reg :: "x87_reg list"
  x_tag :: "u8 list"
  x_top :: u8
  x_control :: u16
  x_status :: u16
  x_double_arith :: u8
  x_op_census :: bool

definition X86P_X87_REGS :: nat where "X86P_X87_REGS = 8"
definition X86P_X87_IE :: u16 where "X86P_X87_IE = 0x0001"
definition X86P_X87_SF :: u16 where "X86P_X87_SF = 0x0040"
definition X86P_X87_C0 :: u16 where "X86P_X87_C0 = 0x0100"
definition X86P_X87_C1 :: u16 where "X86P_X87_C1 = 0x0200"
definition X86P_X87_C2 :: u16 where "X86P_X87_C2 = 0x0400"
definition X86P_X87_C3 :: u16 where "X86P_X87_C3 = 0x4000"
definition X86P_X87_FNCLEX_MASK :: u16 where "X86P_X87_FNCLEX_MASK = 0x80FF"
definition X86P_X87_CW_INIT :: u16 where "X86P_X87_CW_INIT = 0x037F"

definition kX86pX87TagValid :: u8 where "kX86pX87TagValid = 0"
definition kX86pX87TagZero :: u8 where "kX86pX87TagZero = 1"
definition kX86pX87TagSpecial :: u8 where "kX86pX87TagSpecial = 2"
definition kX86pX87TagEmpty :: u8 where "kX86pX87TagEmpty = 3"

lemmas x87_tags = kX86pX87TagValid_def kX86pX87TagZero_def kX86pX87TagSpecial_def kX86pX87TagEmpty_def

section \<open>The rotating stack\<close>

definition x86p_x87_phys :: "x87 \<Rightarrow> nat \<Rightarrow> nat" where
  "x86p_x87_phys f i = (unat (x_top f) + i) mod X86P_X87_REGS"

definition x86p_x87_tag_of_fields :: "u64 \<Rightarrow> u16 \<Rightarrow> u8" where
  "x86p_x87_tag_of_fields significand sign_exponent =
     (let exponent = sign_exponent AND 0x7FFF in
      if exponent = 0x7FFF then kX86pX87TagSpecial
      else if exponent = 0 \<and> significand = 0 then kX86pX87TagZero
      else kX86pX87TagValid)"

definition x86p_x87_tag_of :: "x87_reg \<Rightarrow> u8" where
  "x86p_x87_tag_of v = x86p_x87_tag_of_fields (xr_signif v) (xr_sign_exp v)"

definition x86p_x87_read :: "x87 \<Rightarrow> nat \<Rightarrow> x87_reg option" where
  "x86p_x87_read f i =
     (if X86P_X87_REGS \<le> i then None
      else let p = x86p_x87_phys f i in
        if x_tag f ! p = kX86pX87TagEmpty then None else Some (x_reg f ! p))"

definition x86p_x87_store_slot :: "x87 \<Rightarrow> nat \<Rightarrow> x87_reg \<Rightarrow> x87" where
  "x86p_x87_store_slot f p v = f\<lparr>x_reg := (x_reg f)[p := v]\<rparr>"

definition x86p_x87_write :: "x87 \<Rightarrow> nat \<Rightarrow> x87_reg \<Rightarrow> x87 option" where
  "x86p_x87_write f i v =
     (if X86P_X87_REGS \<le> i then None
      else let p = x86p_x87_phys f i; f = x86p_x87_store_slot f p v in
        Some (f\<lparr>x_tag := (x_tag f)[p := kX86pX87TagValid]\<rparr>))"

text \<open>The result is whether the value was pushed, and the unit afterwards: a refused push records the overflow.\<close>

definition x86p_x87_push_value :: "x87 \<Rightarrow> x87_reg \<Rightarrow> bool \<times> x87" where
  "x86p_x87_push_value f v =
     (let p = unat (x_top f - 1) mod X86P_X87_REGS in
      if x_tag f ! p \<noteq> kX86pX87TagEmpty then
        (False, f\<lparr>x_status := x_status f OR (X86P_X87_IE OR X86P_X87_SF OR X86P_X87_C1)\<rparr>)
      else
        let f = f\<lparr>x_top := of_nat p\<rparr>; f = x86p_x87_store_slot f p v in
        (True, f\<lparr>x_tag := (x_tag f)[p := kX86pX87TagValid]\<rparr>))"

definition x86p_x87_pop_value :: "x87 \<Rightarrow> x87_reg option \<times> x87" where
  "x86p_x87_pop_value f =
     (let p = unat (x_top f) mod X86P_X87_REGS in
      if x_tag f ! p = kX86pX87TagEmpty then
        let st = x_status f OR (X86P_X87_IE OR X86P_X87_SF) in
        (None, f\<lparr>x_status := st AND NOT X86P_X87_C1\<rparr>)
      else
        let out = x_reg f ! p; f = f\<lparr>x_tag := (x_tag f)[p := kX86pX87TagEmpty]\<rparr> in
        (Some out, f\<lparr>x_top := of_nat ((p + 1) mod X86P_X87_REGS)\<rparr>))"

definition x86p_x87_depth :: "x87 \<Rightarrow> nat" where
  "x86p_x87_depth f = length (filter (\<lambda>i. x_tag f ! i \<noteq> kX86pX87TagEmpty) [0..<X86P_X87_REGS])"

definition x86p_x87_free :: "x87 \<Rightarrow> nat \<Rightarrow> x87" where
  "x86p_x87_free f index =
     (if X86P_X87_REGS \<le> index then f
      else f\<lparr>x_tag := (x_tag f)[(unat (x_top f) + index) mod X86P_X87_REGS := kX86pX87TagEmpty]\<rparr>)"

section \<open>Reset, status and MMX\<close>

definition x87_zero :: x87 where
  "x87_zero = \<lparr>x_reg = replicate X86P_X87_REGS \<lparr>xr_signif = 0, xr_sign_exp = 0\<rparr>,
     x_tag = replicate X86P_X87_REGS 0, x_top = 0, x_control = 0, x_status = 0, x_double_arith = 0,
     x_op_census = False\<rparr>"

definition x86p_x87_reset :: "x87 \<Rightarrow> x87" where
  "x86p_x87_reset f =
     x87_zero\<lparr>x_tag := replicate X86P_X87_REGS kX86pX87TagEmpty, x_control := X86P_X87_CW_INIT,
       x_double_arith := x_double_arith f\<rparr>"

definition x86p_x87_status :: "x87 \<Rightarrow> u16" where
  "x86p_x87_status f = (x_status f AND NOT 0x3800) OR push_bit 11 (ucast (x_top f AND 7))"

definition x86p_x87_clear_exceptions :: "x87 \<Rightarrow> x87" where
  "x86p_x87_clear_exceptions f = f\<lparr>x_status := x_status f AND NOT X86P_X87_FNCLEX_MASK\<rparr>"

definition x86p_x87_emms :: "x87 \<Rightarrow> x87" where
  "x86p_x87_emms f = f\<lparr>x_tag := replicate X86P_X87_REGS kX86pX87TagEmpty\<rparr>"

definition x86p_x87_mmx_read :: "x87 \<Rightarrow> nat \<Rightarrow> u64 option" where
  "x86p_x87_mmx_read f n = (if X86P_X87_REGS \<le> n then None else Some (xr_signif (x_reg f ! n)))"

definition x86p_x87_mmx_write :: "x87 \<Rightarrow> nat \<Rightarrow> u64 \<Rightarrow> x87 option" where
  "x86p_x87_mmx_write f n v =
     (if X86P_X87_REGS \<le> n then None
      else Some (f\<lparr>x_reg := (x_reg f)[n := \<lparr>xr_signif = v, xr_sign_exp = 0xFFFF\<rparr>],
                   x_tag := replicate X86P_X87_REGS kX86pX87TagValid\<rparr>))"

definition x86p_x87_set_double_arith :: "x87 \<Rightarrow> bool \<Rightarrow> x87" where
  "x86p_x87_set_double_arith f enabled = f\<lparr>x_double_arith := (if enabled then 1 else 0)\<rparr>"

section \<open>The ten-byte image\<close>

definition x86p_x87_reg_from_f80 :: "u8 list \<Rightarrow> x87_reg" where
  "x86p_x87_reg_from_f80 bytes =
     \<lparr>xr_signif = foldr (\<lambda>b v. push_bit 8 v OR ucast b) (take 8 bytes) 0,
      xr_sign_exp = ucast (bytes ! 8) OR push_bit 8 (ucast (bytes ! 9))\<rparr>"

definition x86p_x87_reg_to_f80 :: "x87_reg \<Rightarrow> u8 list" where
  "x86p_x87_reg_to_f80 v =
     map (\<lambda>i. ucast (drop_bit (8 * i) (xr_signif v))) [0..<8] @
       [ucast (xr_sign_exp v AND 0xFF), ucast (drop_bit 8 (xr_sign_exp v))]"

text \<open>The tag word \<open>FNSAVE\<close> stores and \<open>FRSTOR\<close> reads back, \<open>src/src/x86port/x87_state.c\<close>.\<close>

definition pack_tags :: "x87 \<Rightarrow> u16" where
  "pack_tags f =
     fold (\<lambda>i w. w OR push_bit (2 * i)
        (ucast (if x_tag f ! i = kX86pX87TagEmpty then kX86pX87TagEmpty else x86p_x87_tag_of (x_reg f ! i))))
       [0..<X86P_X87_REGS] 0"

definition unpack_tags :: "x87 \<Rightarrow> u16 \<Rightarrow> x87" where
  "unpack_tags f w =
     f\<lparr>x_tag := map (\<lambda>i. if drop_bit (2 * i) w AND 3 = ucast kX86pX87TagEmpty then kX86pX87TagEmpty
                              else kX86pX87TagValid) [0..<X86P_X87_REGS]\<rparr>"

section \<open>The invariant of the file\<close>

definition x87_ok :: "x87 \<Rightarrow> bool" where
  "x87_ok f \<longleftrightarrow> length (x_reg f) = 8 \<and> length (x_tag f) = 8 \<and> unat (x_top f) < 8 \<and>
     (\<forall>t \<in> set (x_tag f). t = kX86pX87TagEmpty \<or> t = kX86pX87TagValid)"

lemma set_updateD: "t \<in> set (ts[p := v]) \<Longrightarrow> t = v \<or> t \<in> set ts"
  using set_update_subset_insert [of ts p v] by blast

lemma unat_of_nat_mod8: "unat (of_nat (k mod 8) :: u8) = k mod 8"
proof -
  have "k mod 8 < 8" by simp
  then show ?thesis by (simp add: unat_of_nat)
qed

lemma x87_ok_write: "x87_ok f \<Longrightarrow> x86p_x87_write f i v = Some f' \<Longrightarrow> x87_ok f'"
  by (auto simp: x86p_x87_write_def x86p_x87_store_slot_def x87_ok_def Let_def dest!: set_updateD split: if_splits)

lemma x87_ok_push: "x87_ok f \<Longrightarrow> x87_ok (snd (x86p_x87_push_value f v))"
  unfolding x86p_x87_push_value_def Let_def x87_ok_def X86P_X87_REGS_def
  by (auto simp: x86p_x87_store_slot_def unat_of_nat_mod8 dest!: set_updateD)

lemma x87_ok_pop: "x87_ok f \<Longrightarrow> x87_ok (snd (x86p_x87_pop_value f))"
  unfolding x86p_x87_pop_value_def Let_def x87_ok_def X86P_X87_REGS_def
  by (auto simp: unat_of_nat_mod8 dest!: set_updateD)

lemma x87_ok_reset: "x87_ok (x86p_x87_reset f)"
  by (simp add: x87_ok_def x86p_x87_reset_def x87_zero_def X86P_X87_REGS_def)

end
