(* ===== verification/X86_Cpu.thy ===== *)
theory X86_Cpu
  imports X86_Alu X86_Bits X86_Memory X86_X87
begin

text \<open>
  The guest machine state of \<open>src/src/x86port/cpu.h\<close> and the operations of \<open>cpu.c\<close>: the register
  file with its partial writes, the stack, the flag transfers and the helpers translated code
  calls; the CPUID leaves of \<open>cpuid.c\<close> and the multiplies of \<open>multiply.c\<close>.

  Register numbers are natural numbers (the code's refusal of a negative index is not visible).
  A pointer \<open>destination\<close> becomes the value of the cell it points at, returned updated; the
  callers promise that it does not alias the source register.  A host atomic is one step.
  \<open>None\<close> is the diagnostic abort on an operand width outside 1, 2 and 4, unless a comment says
  otherwise.
\<close>

section \<open>State (cpu.h)\<close>

definition kX86pEax :: nat where "kX86pEax = 0"
definition kX86pEcx :: nat where "kX86pEcx = 1"
definition kX86pEdx :: nat where "kX86pEdx = 2"
definition kX86pEbx :: nat where "kX86pEbx = 3"
definition kX86pEsp :: nat where "kX86pEsp = 4"
definition kX86pEbp :: nat where "kX86pEbp = 5"
definition kX86pEsi :: nat where "kX86pEsi = 6"
definition kX86pEdi :: nat where "kX86pEdi = 7"
definition kX86pRegCount :: nat where "kX86pRegCount = 8"

lemmas reg_defs = kX86pEax_def kX86pEcx_def kX86pEdx_def kX86pEbx_def kX86pEsp_def kX86pEbp_def kX86pEsi_def
  kX86pEdi_def kX86pRegCount_def

record cpu =
  c_reg :: "u32 list"
  c_eip :: u32
  c_flags :: flags
  c_x87 :: x87
  c_df :: u8
  c_seg :: "u16 list"
  c_fs_base :: u32
  c_gs_base :: u32
  c_xmm :: "u8 list list"
  c_mxcsr :: u32
  c_ldtr :: u16
  c_trap_vector :: u8
  c_tsc :: u64

abbreviation reg :: "cpu \<Rightarrow> nat \<Rightarrow> u32" where
  "reg cpu r \<equiv> c_reg cpu ! r"

abbreviation set_reg :: "nat \<Rightarrow> u32 \<Rightarrow> cpu \<Rightarrow> cpu" where
  "set_reg r v cpu \<equiv> cpu\<lparr>c_reg := (c_reg cpu)[r := v]\<rparr>"

definition x86p_cpu_reset :: cpu where
  "x86p_cpu_reset =
     \<lparr>c_reg = replicate kX86pRegCount 0, c_eip = 0, c_flags = flags_zero, c_x87 = x86p_x87_reset x87_zero,
      c_df = 0, c_seg = replicate 6 0, c_fs_base = 0, c_gs_base = 0, c_xmm = replicate 8 (replicate 16 0),
      c_mxcsr = 0, c_ldtr = 0, c_trap_vector = 0, c_tsc = 0\<rparr>"

section \<open>Registers\<close>

definition x86p_byte_reg :: "nat \<Rightarrow> nat \<times> nat" where
  "x86p_byte_reg index = (if index < 4 then (index, 0) else (index - 4, 8))"

definition x86p_reg_read :: "cpu \<Rightarrow> nat \<Rightarrow> nat \<Rightarrow> u32 option" where
  "x86p_reg_read cpu index w =
     (if w = 1 then
        if 8 \<le> index then Some 0
        else let (r, shift) = x86p_byte_reg index in Some (drop_bit shift (reg cpu r) AND 0xFF)
      else if kX86pRegCount \<le> index then Some 0
      else if w = 2 then Some (reg cpu index AND 0xFFFF)
      else if w = 4 then Some (reg cpu index)
      else abort)"

definition x86p_reg_write :: "cpu \<Rightarrow> nat \<Rightarrow> nat \<Rightarrow> u32 \<Rightarrow> cpu option" where
  "x86p_reg_write cpu index w value =
     (if w = 1 then
        if 8 \<le> index then Some cpu
        else let (r, shift) = x86p_byte_reg index in
          Some (set_reg r ((reg cpu r AND NOT (push_bit shift 0xFF)) OR push_bit shift (value AND 0xFF)) cpu)
      else if kX86pRegCount \<le> index then Some cpu
      else if w = 2 then Some (set_reg index ((reg cpu index AND 0xFFFF0000) OR (value AND 0xFFFF)) cpu)
      else if w = 4 then Some (set_reg index value cpu)
      else abort)"

definition x86p_reg_name :: "nat \<Rightarrow> nat \<Rightarrow> string" where
  "x86p_reg_name index w =
     (if 8 \<le> index then ''?''
      else if w = 1 then [''AL'', ''CL'', ''DL'', ''BL'', ''AH'', ''CH'', ''DH'', ''BH''] ! index
      else if w = 2 then [''AX'', ''CX'', ''DX'', ''BX'', ''SP'', ''BP'', ''SI'', ''DI''] ! index
      else if w = 4 then [''EAX'', ''ECX'', ''EDX'', ''EBX'', ''ESP'', ''EBP'', ''ESI'', ''EDI''] ! index
      else ''?'')"

section \<open>Stack\<close>

text \<open>\<open>None\<close> is a memory fault, which leaves the machine as it was.\<close>

definition x86p_push32 :: "mem \<Rightarrow> cpu \<Rightarrow> host \<Rightarrow> u32 \<Rightarrow> (cpu \<times> host) option" where
  "x86p_push32 m cpu s value =
     (let esp = reg cpu kX86pEsp - 4 in
      case x86p_mem_write m s esp 4 value of
        None \<Rightarrow> None
      | Some s \<Rightarrow> Some (set_reg kX86pEsp esp cpu, s))"

definition x86p_pop32 :: "mem \<Rightarrow> cpu \<Rightarrow> host \<Rightarrow> (u32 \<times> cpu) option" where
  "x86p_pop32 m cpu s =
     (case x86p_mem_read m (hs_bytes s) (reg cpu kX86pEsp) 4 of
        None \<Rightarrow> None
      | Some v \<Rightarrow> Some (v, set_reg kX86pEsp (reg cpu kX86pEsp + 4) cpu))"

section \<open>Flag transfers\<close>

definition x86p_cpu_sahf :: "cpu \<Rightarrow> cpu option" where
  "x86p_cpu_sahf cpu = do {
     ax \<leftarrow> x86p_reg_read cpu kX86pEax 2;
     let ah = drop_bit 8 ax;
     f \<leftarrow> x86p_eflags (c_flags cpu);
     let keep = f AND NOT 0xFF;
     Some (cpu\<lparr>c_flags := x86p_flags_set_explicit (c_flags cpu) (keep OR (ah AND 0xD5) OR 0x02)\<rparr>)
   }"

definition x86p_cpu_lahf :: "cpu \<Rightarrow> cpu option" where
  "x86p_cpu_lahf cpu = do {
     f \<leftarrow> x86p_eflags (c_flags cpu);
     ax \<leftarrow> x86p_reg_read cpu kX86pEax 2;
     x86p_reg_write cpu kX86pEax 2 ((ax AND 0xFF) OR push_bit 8 ((f AND 0xD5) OR 0x02))
   }"

definition x86p_cpu_eflags :: "cpu \<Rightarrow> u32 option" where
  "x86p_cpu_eflags cpu = do {
     f \<leftarrow> x86p_eflags (c_flags cpu);
     Some (f OR (if c_df cpu \<noteq> 0 then X86P_DF else 0))
   }"

definition x86p_cpu_set_eflags :: "cpu \<Rightarrow> u32 \<Rightarrow> cpu" where
  "x86p_cpu_set_eflags cpu eflags =
     cpu\<lparr>c_flags := x86p_flags_set_explicit (c_flags cpu) eflags,
         c_df := (if eflags AND X86P_DF \<noteq> 0 then 1 else 0)\<rparr>"

section \<open>Helpers of translated code\<close>

definition x86p_cpu_double_shift32 :: "cpu \<Rightarrow> u32 \<Rightarrow> u32 \<Rightarrow> u32 \<Rightarrow> bool \<Rightarrow> (cpu \<times> u32) option" where
  "x86p_cpu_double_shift32 cpu destination source count left = do {
     f \<leftarrow> x86p_eflags (c_flags cpu);
     Some (case snd (x86p_double_shift left destination source count 4 f) of
         None \<Rightarrow> (cpu, destination)
       | Some (result, f') \<Rightarrow> (cpu\<lparr>c_flags := x86p_flags_set_explicit (c_flags cpu) f'\<rparr>, result))
   }"

definition x86p_cpu_bit :: "cpu \<Rightarrow> u32 \<Rightarrow> u32 \<Rightarrow> bit_op \<Rightarrow> nat \<Rightarrow> (cpu \<times> u32) option" where
  "x86p_cpu_bit cpu destination i operation width = do {
     f \<leftarrow> x86p_eflags (c_flags cpu);
     let value = take_bit (8 * width) destination;
     let (result, f') = x86p_bit_apply operation value (i AND (of_nat width * 8 - 1)) f;
     Some (cpu\<lparr>c_flags := x86p_flags_set_explicit (c_flags cpu) f'\<rparr>,
           if operation \<noteq> kX86pBitTest then take_bit (8 * width) result else destination)
   }"

definition x86p_cpu_bit_scan :: "cpu \<Rightarrow> nat \<Rightarrow> u32 \<Rightarrow> bool \<Rightarrow> nat \<Rightarrow> cpu option" where
  "x86p_cpu_bit_scan cpu r source reverse width = do {
     f \<leftarrow> x86p_eflags (c_flags cpu);
     old \<leftarrow> x86p_reg_read cpu r width;
     let (result, f') = x86p_bit_scan reverse source width old f;
     cpu \<leftarrow> x86p_reg_write cpu r width result;
     Some (cpu\<lparr>c_flags := x86p_flags_set_explicit (c_flags cpu) f'\<rparr>)
   }"

text \<open>The host atomics: the cell's value before the operation, and the cell afterwards.\<close>

definition atomic_fetch_add_w :: "u32 \<Rightarrow> u32 \<Rightarrow> nat \<Rightarrow> u32 \<times> u32" where
  "atomic_fetch_add_w destination addend width =
     (if width = 1 then (take_bit 8 destination, take_bit 8 (destination + addend))
      else if width = 2 then (take_bit 16 destination, take_bit 16 (destination + addend))
      else (destination, destination + addend))"

definition atomic_compare_exchange_w :: "u32 \<Rightarrow> u32 \<Rightarrow> u32 \<Rightarrow> nat \<Rightarrow> u32 \<times> u32" where
  "atomic_compare_exchange_w destination expected desired width =
     (let bits = (if width = 1 then 8 else if width = 2 then 16 else 32);
          old = take_bit bits destination in
      (old, if old = take_bit bits expected then take_bit bits desired else old))"

definition x86p_cpu_xadd :: "cpu \<Rightarrow> u32 \<Rightarrow> nat \<Rightarrow> nat \<Rightarrow> (cpu \<times> u32) option" where
  "x86p_cpu_xadd cpu destination source width = do {
     addend \<leftarrow> x86p_reg_read cpu source width;
     let (old, destination) = atomic_fetch_add_w destination addend width;
     (_, f) \<leftarrow> x86p_alu kX86pAluAdd old addend width (c_flags cpu);
     cpu \<leftarrow> x86p_reg_write (cpu\<lparr>c_flags := f\<rparr>) source width old;
     Some (cpu, destination)
   }"

definition x86p_cpu_cmpxchg :: "cpu \<Rightarrow> u32 \<Rightarrow> nat \<Rightarrow> nat \<Rightarrow> (cpu \<times> u32) option" where
  "x86p_cpu_cmpxchg cpu destination source width = do {
     accumulator \<leftarrow> x86p_reg_read cpu kX86pEax width;
     desired \<leftarrow> x86p_reg_read cpu source width;
     let (old, destination) = atomic_compare_exchange_w destination accumulator desired width;
     (_, f) \<leftarrow> x86p_alu kX86pAluCmp accumulator old width (c_flags cpu);
     let cpu = cpu\<lparr>c_flags := f\<rparr>;
     cpu \<leftarrow> (if old \<noteq> accumulator then x86p_reg_write cpu kX86pEax width old else Some cpu);
     Some (cpu, destination)
   }"

definition x86p_cpu_cmpxchg8b :: "cpu \<Rightarrow> u64 \<Rightarrow> (cpu \<times> u64) option" where
  "x86p_cpu_cmpxchg8b cpu destination = do {
     let expected = push_bit 32 (ucast (reg cpu kX86pEdx)) OR ucast (reg cpu kX86pEax);
     let desired = push_bit 32 (ucast (reg cpu kX86pEcx)) OR ucast (reg cpu kX86pEbx);
     let equal = (destination = expected);
     f \<leftarrow> x86p_eflags (c_flags cpu);
     let f = f AND NOT X86P_ZF;
     let (cpu, f) =
       (if equal then (cpu, f OR X86P_ZF)
        else (set_reg kX86pEdx (ucast (drop_bit 32 destination)) (set_reg kX86pEax (ucast destination) cpu), f));
     Some (cpu\<lparr>c_flags := x86p_flags_set_explicit (c_flags cpu) f\<rparr>, if equal then desired else destination)
   }"

definition x86p_cpu_loop :: "cpu \<Rightarrow> nat \<Rightarrow> int \<Rightarrow> bool \<times> cpu" where
  "x86p_cpu_loop cpu width zf_condition =
     (let mask = (if width = 16 then 0xFFFF else 0xFFFFFFFF);
          old = reg cpu kX86pEcx;
          count = (old - 1) AND mask;
          zf = x86p_flag_zf (c_flags cpu) in
      (count \<noteq> 0 \<and> (zf_condition = 0 \<or> (if 0 < zf_condition then zf else \<not> zf)),
       set_reg kX86pEcx ((old AND NOT mask) OR count) cpu))"

section \<open>Multiplication (multiply.c)\<close>

definition x86p_multiply :: "cpu \<Rightarrow> u32 \<Rightarrow> u32 \<Rightarrow> nat \<Rightarrow> bool \<Rightarrow> bool \<Rightarrow> (u32 \<times> cpu) option" where
  "x86p_multiply cpu left right width signed_multiply implicit = do {
     (low, high, f) \<leftarrow>
       (if signed_multiply then x86p_alu_imul left right width (c_flags cpu)
        else x86p_alu_mul left right width (c_flags cpu));
     let cpu = cpu\<lparr>c_flags := f\<rparr>;
     cpu \<leftarrow>
       (if implicit then
          if width = 1 then x86p_reg_write cpu kX86pEax 2 (low OR push_bit 8 high)
          else do { cpu \<leftarrow> x86p_reg_write cpu kX86pEax width low; x86p_reg_write cpu kX86pEdx width high }
        else Some cpu);
     Some (low, cpu)
   }"

definition x86p_multiply_accumulator :: "cpu \<Rightarrow> u32 \<Rightarrow> bool \<Rightarrow> nat \<Rightarrow> cpu option" where
  "x86p_multiply_accumulator cpu operand signed_multiply width = do {
     a \<leftarrow> x86p_reg_read cpu kX86pEax width;
     (_, cpu) \<leftarrow> x86p_multiply cpu a operand width signed_multiply True;
     Some cpu
   }"

definition x86p_imul_to_register :: "cpu \<Rightarrow> u32 \<Rightarrow> u32 \<Rightarrow> nat \<Rightarrow> nat \<Rightarrow> cpu option" where
  "x86p_imul_to_register cpu left right destination width = do {
     (low, cpu) \<leftarrow> x86p_multiply cpu left right width True False;
     x86p_reg_write cpu destination width low
   }"

section \<open>Identification and time (cpuid.c)\<close>

record cpuid_result =
  cr_eax :: u32
  cr_ebx :: u32
  cr_ecx :: u32
  cr_edx :: u32

text \<open>Four characters as the dword \<open>memcpy\<close> makes of them; a character array is zero past its text.\<close>

definition chars4 :: "string \<Rightarrow> nat \<Rightarrow> u32" where
  "chars4 s at = assemble (map (\<lambda>i. if at + i < length s then of_char (s ! (at + i)) else 0) [0..<4])"

definition vendor :: "cpuid_result \<Rightarrow> cpuid_result" where
  "vendor out = out\<lparr>cr_ebx := chars4 ''x86port CPU '' 0, cr_edx := chars4 ''x86port CPU '' 4,
     cr_ecx := chars4 ''x86port CPU '' 8\<rparr>"

definition brand :: "cpuid_result \<Rightarrow> nat \<Rightarrow> cpuid_result" where
  "brand out index =
     (let s = ''x86port dynamic recompiler'' in
      out\<lparr>cr_eax := chars4 s (index * 16), cr_ebx := chars4 s (index * 16 + 4),
          cr_ecx := chars4 s (index * 16 + 8), cr_edx := chars4 s (index * 16 + 12)\<rparr>)"

definition cpuid_features :: u32 where
  "cpuid_features = 2 ^ 0 OR 2 ^ 4 OR 2 ^ 15 OR 2 ^ 23 OR 2 ^ 25 OR 2 ^ 26"

definition x86p_cpuid :: "u32 \<Rightarrow> u32 \<Rightarrow> cpuid_result" where
  "x86p_cpuid leaf subleaf =
     (let out = \<lparr>cr_eax = 0, cr_ebx = 0, cr_ecx = 0, cr_edx = 0\<rparr> in
      if leaf = 0 then vendor (out\<lparr>cr_eax := 1\<rparr>)
      else if leaf = 1 then out\<lparr>cr_eax := 0x00000681, cr_edx := cpuid_features\<rparr>
      else if leaf = 0x80000000 then out\<lparr>cr_eax := 0x80000004\<rparr>
      else if leaf = 0x80000001 then out
      else if leaf = 0x80000002 \<or> leaf = 0x80000003 \<or> leaf = 0x80000004 then
        brand out (unat (leaf - 0x80000002))
      else out)"

definition x86p_rdtsc_next :: "u64 \<Rightarrow> u64" where
  "x86p_rdtsc_next counter = counter + 1000"

definition x86p_cpu_cpuid :: "cpu \<Rightarrow> cpu" where
  "x86p_cpu_cpuid cpu =
     (let r = x86p_cpuid (reg cpu kX86pEax) (reg cpu kX86pEcx) in
      set_reg kX86pEdx (cr_edx r) (set_reg kX86pEcx (cr_ecx r)
        (set_reg kX86pEbx (cr_ebx r) (set_reg kX86pEax (cr_eax r) cpu))))"

definition x86p_cpu_rdtsc :: "cpu \<Rightarrow> cpu" where
  "x86p_cpu_rdtsc cpu =
     (let value = x86p_rdtsc_next (c_tsc cpu); cpu = cpu\<lparr>c_tsc := value\<rparr> in
      set_reg kX86pEdx (ucast (drop_bit 32 value)) (set_reg kX86pEax (ucast value) cpu))"

end
