(* ===== verification/X86_Decode.thy ===== *)
theory X86_Decode
  imports X86_Cpu X86_Bcd
begin

text \<open>
  The decoded instruction of \<open>src/src/x86port/decode.h\<close> as the engines consume it, and the
  privilege test of \<open>privilege.c\<close>.  The decoder itself wraps a third-party disassembler and is
  a parameter of the step function.  Absent base and index registers, -1 in the code, are
  \<open>None\<close>; the tagged bytes of the structure are datatypes.
\<close>

datatype operand_kind =
    kX86pOperandNone | kX86pOperandReg | kX86pOperandMem | kX86pOperandImm | kX86pOperandSt
  | kX86pOperandSeg | kX86pOperandMmx | kX86pOperandXmm | kX86pOperandFarPtr

datatype seg_reg = kX86pSegEs | kX86pSegCs | kX86pSegSs | kX86pSegDs | kX86pSegFs | kX86pSegGs

primrec seg_index :: "seg_reg \<Rightarrow> nat" where
  "seg_index kX86pSegEs = 0"
| "seg_index kX86pSegCs = 1"
| "seg_index kX86pSegSs = 2"
| "seg_index kX86pSegDs = 3"
| "seg_index kX86pSegFs = 4"
| "seg_index kX86pSegGs = 5"

record operand =
  o_seg :: seg_reg
  o_kind :: operand_kind
  o_size :: nat
  o_reg :: nat
  o_base :: "nat option"
  o_index :: "nat option"
  o_scale :: u32
  o_disp :: u32
  o_imm :: u32
  o_selector :: u16
  o_addr16 :: bool
  o_index_low_byte :: bool
  o_relative :: bool

text \<open>
  The 72 values of \<open>X86pInsnOp\<close>, each under its own name, grouped by the part of the execution
  switch that handles them; the end marker of the enumeration is not a value.
\<close>

datatype data_insn =
    kX86pInsnAlu | kX86pInsnAluUnary | kX86pInsnMov | kX86pInsnMovzx | kX86pInsnMovsx | kX86pInsnLea
  | kX86pInsnXchg | kX86pInsnSetcc | kX86pInsnCmovcc | kX86pInsnCdq | kX86pInsnCwde | kX86pInsnBswap

datatype wide_insn =
    kX86pInsnMul | kX86pInsnImul | kX86pInsnDiv | kX86pInsnIdiv | kX86pInsnXadd | kX86pInsnCmpxchg
  | kX86pInsnCmpxchg8b | kX86pInsnBsf | kX86pInsnBsr | kX86pInsnBit | kX86pInsnShld | kX86pInsnShrd
  | kX86pInsnBcd

datatype flow_insn =
    kX86pInsnJmp | kX86pInsnJcc | kX86pInsnCall | kX86pInsnRet | kX86pInsnCallFar | kX86pInsnJmpFar
  | kX86pInsnRetf | kX86pInsnLoop | kX86pInsnLoope | kX86pInsnLoopne | kX86pInsnJecxz | kX86pInsnIretd

datatype stack_insn =
    kX86pInsnPush | kX86pInsnPop | kX86pInsnLeave | kX86pInsnPushfd | kX86pInsnPopfd | kX86pInsnPushad
  | kX86pInsnPopad | kX86pInsnEnter

datatype flag_insn =
    kX86pInsnCld | kX86pInsnStd | kX86pInsnSahf | kX86pInsnLahf | kX86pInsnStc | kX86pInsnClc
  | kX86pInsnCmc | kX86pInsnSalc | kX86pInsnCpuid | kX86pInsnRdtsc

datatype system_insn =
    kX86pInsnInt3 | kX86pInsnInt1 | kX86pInsnInt | kX86pInsnInto | kX86pInsnBound | kX86pInsnArpl
  | kX86pInsnSldt | kX86pInsnLfp | kX86pInsnHlt | kX86pInsnWbinvd | kX86pInsnCli | kX86pInsnSti
  | kX86pInsnPortIo

datatype insn_op =
    kX86pInsnUnsupported | kX86pInsnNop | kX86pInsnX87 | kX86pInsnString | kX86pInsnSimd
  | Data data_insn | Wide wide_insn | Flow flow_insn | Stack stack_insn | Flag flag_insn | System system_insn

datatype string_op = kX86pStringMovs | kX86pStringStos | kX86pStringLods | kX86pStringScas | kX86pStringCmps

datatype rep_kind = kX86pRepNone | kX86pRepRep | kX86pRepRepne

text \<open>The fields of the floating-point and vector families stay with their engines and are not read here.\<close>

record insn =
  i_length :: u32
  i_mnemonic :: string
  i_operands :: nat
  i_op :: insn_op
  i_alu :: alu_op
  i_alu_un :: alu_un_op
  i_cond :: cond
  i_str :: string_op
  i_rep :: rep_kind
  i_address_width :: nat
  i_str_width :: nat
  i_bcd :: bcd_op
  i_bit :: bit_op
  i_seg_dest :: seg_reg
  i_operand :: "operand list"

definition x86p_insn_is_privileged :: "insn \<Rightarrow> bool" where
  "x86p_insn_is_privileged i \<longleftrightarrow>
     (case i_op i of
        System op \<Rightarrow>
          (case op of
             kX86pInsnHlt \<Rightarrow> True | kX86pInsnWbinvd \<Rightarrow> True | kX86pInsnCli \<Rightarrow> True | kX86pInsnSti \<Rightarrow> True
           | kX86pInsnPortIo \<Rightarrow> True | _ \<Rightarrow> False)
      | _ \<Rightarrow> False)"

end
