(* ===== verification/X86_String.thy ===== *)
theory X86_String
  imports X86_Decode
begin

text \<open>
  The string instructions of \<open>src/src/x86port/string_ops.c\<close>: one iteration, the repeat loop and
  the bulk paths of REP MOVS and REP STOS.  The outer \<open>None\<close> is the diagnostic abort of the
  register file on a bad width, which the width check of \<open>x86p_string_is_supported\<close> excludes.
\<close>

datatype string_status = kX86pStringOk | kX86pStringFault u32 | kX86pStringUnsupported

definition rep_is_defined :: "string_op \<Rightarrow> rep_kind \<Rightarrow> bool" where
  "rep_is_defined op rep \<longleftrightarrow>
     (if rep = kX86pRepNone then True
      else if op = kX86pStringScas \<or> op = kX86pStringCmps then True
      else rep = kX86pRepRep)"

definition x86p_string_is_supported :: "string_op \<Rightarrow> rep_kind \<Rightarrow> nat \<Rightarrow> bool" where
  "x86p_string_is_supported op rep width \<longleftrightarrow>
     (width = 1 \<or> width = 2 \<or> width = 4) \<and> rep_is_defined op rep"

text \<open>
  What one iteration does before it moves a pointer: the machine after it, or the address that
  faulted.
\<close>

definition string_access ::
  "mem \<Rightarrow> string_op \<Rightarrow> nat \<Rightarrow> cpu \<Rightarrow> host \<Rightarrow> (u32 + cpu \<times> host) option" where
  "string_access m op w cpu s =
     (let esi = reg cpu kX86pEsi; edi = reg cpu kX86pEdi; st = hs_bytes s in
      case op of
        kX86pStringMovs \<Rightarrow>
          (case x86p_mem_read m st esi w of
             None \<Rightarrow> Some (Inl esi)
           | Some a \<Rightarrow>
               (case x86p_mem_write m s edi w a of
                  None \<Rightarrow> Some (Inl edi)
                | Some s \<Rightarrow> Some (Inr (cpu, s))))
      | kX86pStringStos \<Rightarrow> do {
          a \<leftarrow> x86p_reg_read cpu kX86pEax w;
          (case x86p_mem_write m s edi w a of
             None \<Rightarrow> Some (Inl edi)
           | Some s \<Rightarrow> Some (Inr (cpu, s)))
        }
      | kX86pStringLods \<Rightarrow>
          (case x86p_mem_read m st esi w of
             None \<Rightarrow> Some (Inl esi)
           | Some a \<Rightarrow> do { cpu \<leftarrow> x86p_reg_write cpu kX86pEax w a; Some (Inr (cpu, s)) })
      | kX86pStringScas \<Rightarrow>
          (case x86p_mem_read m st edi w of
             None \<Rightarrow> Some (Inl edi)
           | Some b \<Rightarrow> do {
               a \<leftarrow> x86p_reg_read cpu kX86pEax w;
               (_, f) \<leftarrow> x86p_alu kX86pAluCmp a b w (c_flags cpu);
               Some (Inr (cpu\<lparr>c_flags := f\<rparr>, s))
             })
      | kX86pStringCmps \<Rightarrow>
          (case x86p_mem_read m st esi w of
             None \<Rightarrow> Some (Inl esi)
           | Some a \<Rightarrow>
               (case x86p_mem_read m st edi w of
                  None \<Rightarrow> Some (Inl edi)
                | Some b \<Rightarrow> do {
                    (_, f) \<leftarrow> x86p_alu kX86pAluCmp a b w (c_flags cpu);
                    Some (Inr (cpu\<lparr>c_flags := f\<rparr>, s))
                  })))"

definition step_once ::
  "mem \<Rightarrow> string_op \<Rightarrow> nat \<Rightarrow> u32 \<Rightarrow> cpu \<Rightarrow> host \<Rightarrow> (u32 + cpu \<times> host) option" where
  "step_once m op w delta cpu s = do {
     let esi = reg cpu kX86pEsi;
     let edi = reg cpu kX86pEdi;
     r \<leftarrow> string_access m op w cpu s;
     (case r of
        Inl fault \<Rightarrow> Some (Inl fault)
      | Inr (cpu, s) \<Rightarrow>
          let cpu = (if op = kX86pStringMovs \<or> op = kX86pStringLods \<or> op = kX86pStringCmps
                     then set_reg kX86pEsi (esi + delta) cpu else cpu);
              cpu = (if op \<noteq> kX86pStringLods then set_reg kX86pEdi (edi + delta) cpu else cpu) in
          Some (Inr (cpu, s)))
   }"

definition delta_of :: "cpu \<Rightarrow> nat \<Rightarrow> u32" where
  "delta_of cpu w = (if c_df cpu \<noteq> 0 then - of_nat w else of_nat w)"

definition rep_stops :: "string_op \<Rightarrow> rep_kind \<Rightarrow> cpu \<Rightarrow> bool" where
  "rep_stops op rep cpu \<longleftrightarrow>
     (op = kX86pStringScas \<or> op = kX86pStringCmps) \<and>
     (let zf = x86p_flag_zf (c_flags cpu) in (rep = kX86pRepRep \<and> \<not> zf) \<or> (rep = kX86pRepRepne \<and> zf))"

text \<open>
  The repeat, one turn at a time: \<open>n\<close> bounds the turns, and \<open>unat\<close> of ECX is always enough
  because every turn that goes on takes one off ECX.
\<close>

fun rep_loop ::
  "nat \<Rightarrow> mem \<Rightarrow> string_op \<Rightarrow> rep_kind \<Rightarrow> nat \<Rightarrow> u32 \<Rightarrow> cpu \<Rightarrow> host \<Rightarrow> (string_status \<times> cpu \<times> host) option" where
  "rep_loop n m op rep w delta cpu s =
     (if reg cpu kX86pEcx = 0 then Some (kX86pStringOk, cpu, s)
      else case n of
          0 \<Rightarrow> None
        | Suc n' \<Rightarrow> do {
            r \<leftarrow> step_once m op w delta cpu s;
            (case r of
               Inl fault \<Rightarrow> Some (kX86pStringFault fault, cpu, s)
             | Inr (cpu, s) \<Rightarrow>
                 let cpu = set_reg kX86pEcx (reg cpu kX86pEcx - 1) cpu in
                 if rep_stops op rep cpu then Some (kX86pStringOk, cpu, s)
                 else rep_loop n' m op rep w delta cpu s)
          })"

declare rep_loop.simps [simp del]

definition bulk_movs :: "mem \<Rightarrow> nat \<Rightarrow> cpu \<Rightarrow> host \<Rightarrow> (cpu \<times> host) option" where
  "bulk_movs m w cpu s =
     (let bytes = unat (reg cpu kX86pEcx) * w in
      if 2 ^ 32 - 1 < bytes then None
      else case x86p_mem_copy_disjoint m s (reg cpu kX86pEdi) (reg cpu kX86pEsi) (of_nat bytes) of
          None \<Rightarrow> None
        | Some s \<Rightarrow>
            let cpu = set_reg kX86pEsi (reg cpu kX86pEsi + of_nat bytes) cpu;
                cpu = set_reg kX86pEdi (reg cpu kX86pEdi + of_nat bytes) cpu in
            Some (set_reg kX86pEcx 0 cpu, s))"

definition bulk_stos :: "mem \<Rightarrow> nat \<Rightarrow> u32 \<Rightarrow> cpu \<Rightarrow> host \<Rightarrow> (cpu \<times> host) option" where
  "bulk_stos m w value cpu s =
     (case x86p_mem_fill m s (reg cpu kX86pEdi) (split_bytes w value) w (reg cpu kX86pEcx) of
        None \<Rightarrow> None
      | Some s \<Rightarrow>
          let cpu = set_reg kX86pEdi (reg cpu kX86pEdi + reg cpu kX86pEcx * of_nat w) cpu in
          Some (set_reg kX86pEcx 0 cpu, s))"

definition x86p_string_execute ::
  "mem \<Rightarrow> insn \<Rightarrow> cpu \<Rightarrow> host \<Rightarrow> (string_status \<times> cpu \<times> host) option" where
  "x86p_string_execute m i cpu s =
     (let op = i_str i; rep = i_rep i; w = i_str_width i; delta = delta_of cpu w in
      if \<not> x86p_string_is_supported op rep w then Some (kX86pStringUnsupported, cpu, s)
      else if rep = kX86pRepNone then do {
        r \<leftarrow> step_once m op w delta cpu s;
        (case r of
           Inl fault \<Rightarrow> Some (kX86pStringFault fault, cpu, s)
         | Inr (cpu, s) \<Rightarrow> Some (kX86pStringOk, cpu, s))
      }
      else do {
        bulk \<leftarrow>
          (if op = kX86pStringMovs \<and> c_df cpu = 0 then Some (bulk_movs m w cpu s)
           else if op = kX86pStringStos \<and> c_df cpu = 0 then do {
             value \<leftarrow> x86p_reg_read cpu kX86pEax w;
             Some (bulk_stos m w value cpu s)
           }
           else Some None);
        (case bulk of
           Some (cpu, s) \<Rightarrow> Some (kX86pStringOk, cpu, s)
         | None \<Rightarrow> rep_loop (unat (reg cpu kX86pEcx)) m op rep w delta cpu s)
      })"

end
