(* ===== verification/X86_Stack.thy ===== *)
theory X86_Stack
  imports X86_Cpu
begin

text \<open>
  The multi-access stack instructions of \<open>src/src/x86port/stack_ops.c\<close>: PUSHAD, POPAD and
  ENTER.  Each keeps every access it completed when a later one faults, so a result is the
  fault address, if any, with the machine as it is then.
\<close>

type_synonym stack_result = "u32 option \<times> cpu \<times> host"

definition push :: "mem \<Rightarrow> cpu \<Rightarrow> host \<Rightarrow> u32 \<Rightarrow> stack_result" where
  "push m cpu s value =
     (case x86p_push32 m cpu s value of
        Some (cpu, s) \<Rightarrow> (None, cpu, s)
      | None \<Rightarrow> (Some (reg cpu kX86pEsp - 4), cpu, s))"

fun pushad_loop :: "mem \<Rightarrow> nat list \<Rightarrow> u32 \<Rightarrow> cpu \<Rightarrow> host \<Rightarrow> stack_result" where
  "pushad_loop m [] original_esp cpu s = (None, cpu, s)"
| "pushad_loop m (r # order) original_esp cpu s =
     (let value = (if r = kX86pEsp then original_esp else reg cpu r) in
      case push m cpu s value of
        (Some fault, cpu, s) \<Rightarrow> (Some fault, cpu, s)
      | (None, cpu, s) \<Rightarrow> pushad_loop m order original_esp cpu s)"

definition pushad_order :: "nat list" where
  "pushad_order = [kX86pEax, kX86pEcx, kX86pEdx, kX86pEbx, kX86pEsp, kX86pEbp, kX86pEsi, kX86pEdi]"

definition x86p_stack_pushad :: "mem \<Rightarrow> cpu \<Rightarrow> host \<Rightarrow> stack_result" where
  "x86p_stack_pushad m cpu s = pushad_loop m pushad_order (reg cpu kX86pEsp) cpu s"

fun popad_loop :: "mem \<Rightarrow> nat list \<Rightarrow> cpu \<Rightarrow> host \<Rightarrow> stack_result" where
  "popad_loop m [] cpu s = (None, cpu, s)"
| "popad_loop m (r # order) cpu s =
     (case x86p_pop32 m cpu s of
        None \<Rightarrow> (Some (reg cpu kX86pEsp), cpu, s)
      | Some (value, cpu) \<Rightarrow> popad_loop m order (if r \<noteq> kX86pEsp then set_reg r value cpu else cpu) s)"

definition popad_order :: "nat list" where
  "popad_order = [kX86pEdi, kX86pEsi, kX86pEbp, kX86pEsp, kX86pEbx, kX86pEdx, kX86pEcx, kX86pEax]"

definition x86p_stack_popad :: "mem \<Rightarrow> cpu \<Rightarrow> host \<Rightarrow> stack_result" where
  "x86p_stack_popad m cpu s = popad_loop m popad_order cpu s"

text \<open>The copies of the enclosing frames' pointers; \<open>n\<close> turns are left.\<close>

fun enter_loop :: "mem \<Rightarrow> nat \<Rightarrow> cpu \<Rightarrow> host \<Rightarrow> stack_result" where
  "enter_loop m 0 cpu s = (None, cpu, s)"
| "enter_loop m (Suc n) cpu s =
     (let cpu = set_reg kX86pEbp (reg cpu kX86pEbp - 4) cpu in
      case x86p_mem_read m (hs_bytes s) (reg cpu kX86pEbp) 4 of
        None \<Rightarrow> (Some (reg cpu kX86pEbp), cpu, s)
      | Some value \<Rightarrow>
          (case push m cpu s value of
             (Some fault, cpu, s) \<Rightarrow> (Some fault, cpu, s)
           | (None, cpu, s) \<Rightarrow> enter_loop m n cpu s))"

definition x86p_stack_enter :: "mem \<Rightarrow> cpu \<Rightarrow> host \<Rightarrow> u32 \<Rightarrow> u32 \<Rightarrow> stack_result" where
  "x86p_stack_enter m cpu s allocation level =
     (let level = unat (level AND 31) in
      case push m cpu s (reg cpu kX86pEbp) of
        (Some fault, cpu, s) \<Rightarrow> (Some fault, cpu, s)
      | (None, cpu, s) \<Rightarrow>
          let frame = reg cpu kX86pEsp in
          (case enter_loop m (level - 1) cpu s of
             (Some fault, cpu, s) \<Rightarrow> (Some fault, cpu, s)
           | (None, cpu, s) \<Rightarrow>
               (case (if level \<noteq> 0 then push m cpu s frame else (None, cpu, s)) of
                  (Some fault, cpu, s) \<Rightarrow> (Some fault, cpu, s)
                | (None, cpu, s) \<Rightarrow>
                    let cpu = set_reg kX86pEbp frame cpu in
                    (None, set_reg kX86pEsp (reg cpu kX86pEsp - (allocation AND 0xFFFF)) cpu, s))))"

end
