(* ===== verification/X86_Exec.thy ===== *)
theory X86_Exec
  imports X86_String X86_Stack
begin

text \<open>
  The interpreter of \<open>src/src/x86port/exec.h\<close> and \<open>exec.c\<close>: operands, the execution switch cut
  into one definition per family of instructions, and the step that fetches, decodes and
  executes.  The floating-point and vector engines and the decoder are the fields of
  \<open>engines\<close>.  \<open>None\<close> is the diagnostic abort of the register file and the ALU on an operand
  width outside 1, 2 and 4.
\<close>

section \<open>Outcomes and working state\<close>

datatype step_status =
    kX86pStepOk | kX86pStepDecodeFailed | kX86pStepUnsupported | kX86pStepFetchFault | kX86pStepMemoryFault
  | kX86pStepDivideError | kX86pStepInterrupt | kX86pStepProtectionFault | kX86pStepBoundRange

definition x86p_step_status_name :: "step_status \<Rightarrow> string" where
  "x86p_step_status_name st =
     (case st of
        kX86pStepOk \<Rightarrow> ''ok'' | kX86pStepDecodeFailed \<Rightarrow> ''decode-failed'' | kX86pStepUnsupported \<Rightarrow> ''unsupported''
      | kX86pStepFetchFault \<Rightarrow> ''fetch-fault'' | kX86pStepMemoryFault \<Rightarrow> ''memory-fault''
      | kX86pStepDivideError \<Rightarrow> ''divide-error'' | kX86pStepInterrupt \<Rightarrow> ''interrupt''
      | kX86pStepProtectionFault \<Rightarrow> ''protection-fault'' | kX86pStepBoundRange \<Rightarrow> ''bound-range'')"

text \<open>\<open>cx_fault\<close> is \<open>kX86pStepOk\<close> where the code's \<open>fault\<close> is 0.\<close>

record ctx =
  cx_cpu :: cpu
  cx_host :: host
  cx_next_eip :: u32
  cx_fault :: step_status
  cx_fault_addr :: u32

abbreviation faulted :: "ctx \<Rightarrow> bool" where
  "faulted c \<equiv> cx_fault c \<noteq> kX86pStepOk"

abbreviation with_fault :: "step_status \<Rightarrow> ctx \<Rightarrow> ctx" where
  "with_fault st c \<equiv> c\<lparr>cx_fault := st\<rparr>"

abbreviation mem_fault :: "u32 \<Rightarrow> ctx \<Rightarrow> ctx" where
  "mem_fault addr c \<equiv> c\<lparr>cx_fault := kX86pStepMemoryFault, cx_fault_addr := addr\<rparr>"

abbreviation on_cpu :: "(cpu \<Rightarrow> cpu) \<Rightarrow> ctx \<Rightarrow> ctx" where
  "on_cpu g c \<equiv> c\<lparr>cx_cpu := g (cx_cpu c)\<rparr>"

abbreviation set_flags :: "flags \<Rightarrow> ctx \<Rightarrow> ctx" where
  "set_flags f \<equiv> on_cpu (\<lambda>cpu. cpu\<lparr>c_flags := f\<rparr>)"

section \<open>Operands\<close>

definition effective_address :: "cpu \<Rightarrow> operand \<Rightarrow> u32 option" where
  "effective_address cpu opd = do {
     b \<leftarrow> (case o_base opd of None \<Rightarrow> Some 0 | Some r \<Rightarrow> x86p_reg_read cpu r 4);
     ix \<leftarrow> (case o_index opd of None \<Rightarrow> Some 0
            | Some r \<Rightarrow> x86p_reg_read cpu r (if o_index_low_byte opd then 1 else 4));
     let addr = o_disp opd + b + ix * o_scale opd;
     let addr = (if o_addr16 opd then addr AND 0xFFFF else addr);
     Some (if o_seg opd = kX86pSegFs then addr + c_fs_base cpu
           else if o_seg opd = kX86pSegGs then addr + c_gs_base cpu else addr)
   }"

definition read_operand :: "mem \<Rightarrow> operand \<Rightarrow> ctx \<Rightarrow> (u32 \<times> ctx) option" where
  "read_operand m opd c =
     (case o_kind opd of
        kX86pOperandReg \<Rightarrow> do { v \<leftarrow> x86p_reg_read (cx_cpu c) (o_reg opd) (o_size opd); Some (v, c) }
      | kX86pOperandSeg \<Rightarrow> Some (ucast (c_seg (cx_cpu c) ! o_reg opd), c)
      | kX86pOperandImm \<Rightarrow> Some (o_imm opd, c)
      | kX86pOperandMem \<Rightarrow> do {
          addr \<leftarrow> effective_address (cx_cpu c) opd;
          (case x86p_mem_read m (hs_bytes (cx_host c)) addr (o_size opd) of
             None \<Rightarrow> Some (0, mem_fault addr c)
           | Some v \<Rightarrow> Some (v, c))
        }
      | _ \<Rightarrow> Some (0, with_fault kX86pStepUnsupported c))"

definition write_operand :: "mem \<Rightarrow> operand \<Rightarrow> u32 \<Rightarrow> ctx \<Rightarrow> ctx option" where
  "write_operand m opd value c =
     (case o_kind opd of
        kX86pOperandReg \<Rightarrow> do {
          cpu \<leftarrow> x86p_reg_write (cx_cpu c) (o_reg opd) (o_size opd) value;
          Some (c\<lparr>cx_cpu := cpu\<rparr>)
        }
      | kX86pOperandSeg \<Rightarrow> Some (on_cpu (\<lambda>cpu. cpu\<lparr>c_seg := (c_seg cpu)[o_reg opd := ucast value]\<rparr>) c)
      | kX86pOperandMem \<Rightarrow> do {
          addr \<leftarrow> effective_address (cx_cpu c) opd;
          (case x86p_mem_write m (cx_host c) addr (o_size opd) value of
             None \<Rightarrow> Some (mem_fault addr c)
           | Some s \<Rightarrow> Some (c\<lparr>cx_host := s\<rparr>))
        }
      | _ \<Rightarrow> Some (with_fault kX86pStepUnsupported c))"

text \<open>The offset and selector of a far transfer; the inner \<open>None\<close> comes with a fault set.\<close>

definition far_target :: "mem \<Rightarrow> operand \<Rightarrow> ctx \<Rightarrow> ((u32 \<times> u16) option \<times> ctx) option" where
  "far_target m opd c =
     (if o_kind opd = kX86pOperandFarPtr then Some (Some (o_imm opd, o_selector opd), c)
      else if o_kind opd \<noteq> kX86pOperandMem then Some (None, with_fault kX86pStepUnsupported c)
      else do {
        addr \<leftarrow> effective_address (cx_cpu c) opd;
        let st = hs_bytes (cx_host c);
        (case (x86p_mem_read m st addr 4, x86p_mem_read m st (addr + 4) 2) of
           (Some off, Some sel) \<Rightarrow> Some (Some (off, ucast sel), c)
         | _ \<Rightarrow> Some (None, mem_fault addr c))
      })"

definition branch_target :: "mem \<Rightarrow> operand \<Rightarrow> ctx \<Rightarrow> (u32 \<times> ctx) option" where
  "branch_target m opd c =
     (if o_kind opd = kX86pOperandImm then
        Some (if o_relative opd then cx_next_eip c + o_imm opd else o_imm opd, c)
      else read_operand m opd c)"

text \<open>Pushing and popping with the fault the code reports.\<close>

definition push_or_fault :: "mem \<Rightarrow> u32 \<Rightarrow> ctx \<Rightarrow> ctx" where
  "push_or_fault m value c =
     (case x86p_push32 m (cx_cpu c) (cx_host c) value of
        None \<Rightarrow> mem_fault (reg (cx_cpu c) kX86pEsp - 4) c
      | Some (cpu, s) \<Rightarrow> c\<lparr>cx_cpu := cpu, cx_host := s\<rparr>)"

definition pop_or_fault :: "mem \<Rightarrow> ctx \<Rightarrow> u32 option \<times> ctx" where
  "pop_or_fault m c =
     (case x86p_pop32 m (cx_cpu c) (cx_host c) of
        None \<Rightarrow> (None, mem_fault (reg (cx_cpu c) kX86pEsp) c)
      | Some (v, cpu) \<Rightarrow> (Some v, c\<lparr>cx_cpu := cpu\<rparr>))"

section \<open>Moves and the ALU\<close>

definition exec_alu :: "mem \<Rightarrow> insn \<Rightarrow> ctx \<Rightarrow> ctx option" where
  "exec_alu m i c =
     (let o0 = i_operand i ! 0; o1 = i_operand i ! 1 in do {
        (a, c) \<leftarrow> read_operand m o0 c;
        (b, c) \<leftarrow> read_operand m o1 c;
        if faulted c then Some c
        else do {
          (r, f) \<leftarrow> x86p_alu (i_alu i) a b (o_size o0) (c_flags (cx_cpu c));
          let c = set_flags f c;
          if i_alu i \<noteq> kX86pAluCmp \<and> i_alu i \<noteq> kX86pAluTest then write_operand m o0 r c else Some c
        }
      })"

definition exec_alu_unary :: "mem \<Rightarrow> insn \<Rightarrow> ctx \<Rightarrow> ctx option" where
  "exec_alu_unary m i c =
     (let o0 = i_operand i ! 0 in do {
        (a, c) \<leftarrow> read_operand m o0 c;
        if faulted c then Some c
        else do {
          (r, f) \<leftarrow> x86p_alu_unary (i_alu_un i) a (o_size o0) (c_flags (cx_cpu c));
          write_operand m o0 r (set_flags f c)
        }
      })"

definition exec_mov :: "mem \<Rightarrow> insn \<Rightarrow> ctx \<Rightarrow> ctx option" where
  "exec_mov m i c = do {
     (v, c) \<leftarrow> read_operand m (i_operand i ! 1) c;
     if faulted c then Some c else write_operand m (i_operand i ! 0) v c
   }"

text \<open>MOVZX, and MOVSX when \<open>sx\<close> holds.\<close>

definition exec_movx :: "mem \<Rightarrow> insn \<Rightarrow> bool \<Rightarrow> ctx \<Rightarrow> ctx option" where
  "exec_movx m i sx c =
     (let o1 = i_operand i ! 1 in do {
        (v, c) \<leftarrow> read_operand m o1 c;
        if faulted c then Some c
        else write_operand m (i_operand i ! 0) (if sx then x86p_sign_extend v (o_size o1) else v) c
      })"

definition exec_lea :: "mem \<Rightarrow> insn \<Rightarrow> ctx \<Rightarrow> ctx option" where
  "exec_lea m i c =
     (let o1 = i_operand i ! 1 in
      if o_kind o1 \<noteq> kX86pOperandMem then Some (with_fault kX86pStepUnsupported c)
      else do { addr \<leftarrow> effective_address (cx_cpu c) o1; write_operand m (i_operand i ! 0) addr c })"

definition exec_xchg :: "mem \<Rightarrow> insn \<Rightarrow> ctx \<Rightarrow> ctx option" where
  "exec_xchg m i c =
     (let o0 = i_operand i ! 0; o1 = i_operand i ! 1 in do {
        (a, c) \<leftarrow> read_operand m o0 c;
        (b, c) \<leftarrow> read_operand m o1 c;
        if faulted c then Some c
        else do {
          c \<leftarrow> write_operand m o0 b c;
          if faulted c then Some c else write_operand m o1 a c
        }
      })"

definition exec_setcc :: "mem \<Rightarrow> insn \<Rightarrow> ctx \<Rightarrow> ctx option" where
  "exec_setcc m i c = do {
     t \<leftarrow> x86p_cond (i_cond i) (c_flags (cx_cpu c));
     write_operand m (i_operand i ! 0) (if t then 1 else 0) c
   }"

definition exec_cmovcc :: "mem \<Rightarrow> insn \<Rightarrow> ctx \<Rightarrow> ctx option" where
  "exec_cmovcc m i c = do {
     (v, c) \<leftarrow> read_operand m (i_operand i ! 1) c;
     if faulted c then Some c
     else do {
       t \<leftarrow> x86p_cond (i_cond i) (c_flags (cx_cpu c));
       if t then write_operand m (i_operand i ! 0) v c else Some c
     }
   }"

definition exec_cdq :: "ctx \<Rightarrow> ctx option" where
  "exec_cdq c = do {
     eax \<leftarrow> x86p_reg_read (cx_cpu c) kX86pEax 4;
     cpu \<leftarrow> x86p_reg_write (cx_cpu c) kX86pEdx 4 (if eax AND 0x80000000 \<noteq> 0 then 0xFFFFFFFF else 0);
     Some (c\<lparr>cx_cpu := cpu\<rparr>)
   }"

definition exec_cwde :: "ctx \<Rightarrow> ctx option" where
  "exec_cwde c = do {
     ax \<leftarrow> x86p_reg_read (cx_cpu c) kX86pEax 2;
     cpu \<leftarrow> x86p_reg_write (cx_cpu c) kX86pEax 4 (x86p_sign_extend ax 2);
     Some (c\<lparr>cx_cpu := cpu\<rparr>)
   }"

definition exec_bswap :: "insn \<Rightarrow> ctx \<Rightarrow> ctx option" where
  "exec_bswap i c =
     (let r = o_reg (i_operand i ! 0) in do {
        value \<leftarrow> x86p_reg_read (cx_cpu c) r 4;
        cpu \<leftarrow> x86p_reg_write (cx_cpu c) r 4
          (drop_bit 24 value OR (drop_bit 8 value AND 0xFF00) OR (push_bit 8 value AND 0xFF0000) OR push_bit 24 value);
        Some (c\<lparr>cx_cpu := cpu\<rparr>)
      })"

definition execute_data :: "mem \<Rightarrow> insn \<Rightarrow> data_insn \<Rightarrow> ctx \<Rightarrow> ctx option" where
  "execute_data m i op c =
     (case op of
        kX86pInsnAlu \<Rightarrow> exec_alu m i c
      | kX86pInsnAluUnary \<Rightarrow> exec_alu_unary m i c
      | kX86pInsnMov \<Rightarrow> exec_mov m i c
      | kX86pInsnMovzx \<Rightarrow> exec_movx m i False c
      | kX86pInsnMovsx \<Rightarrow> exec_movx m i True c
      | kX86pInsnLea \<Rightarrow> exec_lea m i c
      | kX86pInsnXchg \<Rightarrow> exec_xchg m i c
      | kX86pInsnSetcc \<Rightarrow> exec_setcc m i c
      | kX86pInsnCmovcc \<Rightarrow> exec_cmovcc m i c
      | kX86pInsnCdq \<Rightarrow> exec_cdq c
      | kX86pInsnCwde \<Rightarrow> exec_cwde c
      | kX86pInsnBswap \<Rightarrow> exec_bswap i c)"

section \<open>Wide arithmetic, atomics and bits\<close>

definition mul_result_store :: "nat \<Rightarrow> u32 \<Rightarrow> u32 \<Rightarrow> cpu \<Rightarrow> cpu option" where
  "mul_result_store w lo hi cpu =
     (if w = 1 then x86p_reg_write cpu kX86pEax 2 ((lo AND 0xFF) OR push_bit 8 (hi AND 0xFF))
      else do { cpu \<leftarrow> x86p_reg_write cpu kX86pEax w lo; x86p_reg_write cpu kX86pEdx w hi })"

definition div_operands :: "nat \<Rightarrow> cpu \<Rightarrow> (u32 \<times> u32) option" where
  "div_operands w cpu =
     (if w = 1 then do {
        ax \<leftarrow> x86p_reg_read cpu kX86pEax 2;
        Some (drop_bit 8 ax AND 0xFF, ax AND 0xFF)
      }
      else do {
        hi \<leftarrow> x86p_reg_read cpu kX86pEdx w;
        lo \<leftarrow> x86p_reg_read cpu kX86pEax w;
        Some (hi, lo)
      })"

definition div_result_store :: "nat \<Rightarrow> u32 \<Rightarrow> u32 \<Rightarrow> cpu \<Rightarrow> cpu option" where
  "div_result_store w quot rem cpu =
     (if w = 1 then x86p_reg_write cpu kX86pEax 2 ((quot AND 0xFF) OR push_bit 8 (rem AND 0xFF))
      else do { cpu \<leftarrow> x86p_reg_write cpu kX86pEax w quot; x86p_reg_write cpu kX86pEdx w rem })"

definition execute_mul :: "mem \<Rightarrow> insn \<Rightarrow> bool \<Rightarrow> ctx \<Rightarrow> ctx option" where
  "execute_mul m i signed_mul c =
     (let o0 = i_operand i ! 0; o1 = i_operand i ! 1; w = o_size o0 in
      if i_operands i = 1 then do {
        a \<leftarrow> x86p_reg_read (cx_cpu c) kX86pEax w;
        (b, c) \<leftarrow> read_operand m o0 c;
        if faulted c then Some c
        else do {
          (lo, hi, f) \<leftarrow> (if signed_mul then x86p_alu_imul a b w (c_flags (cx_cpu c))
                         else x86p_alu_mul a b w (c_flags (cx_cpu c)));
          let c = set_flags f c;
          cpu \<leftarrow> mul_result_store w lo hi (cx_cpu c);
          Some (c\<lparr>cx_cpu := cpu\<rparr>)
        }
      }
      else if \<not> signed_mul then Some (with_fault kX86pStepUnsupported c)
      else do {
        (a, c) \<leftarrow> read_operand m (if i_operands i = 3 then o1 else o0) c;
        (b, c) \<leftarrow> read_operand m (if i_operands i = 3 then i_operand i ! 2 else o1) c;
        if faulted c then Some c
        else do {
          (lo, _, f) \<leftarrow> x86p_alu_imul a b w (c_flags (cx_cpu c));
          write_operand m o0 lo (set_flags f c)
        }
      })"

definition execute_div :: "mem \<Rightarrow> insn \<Rightarrow> bool \<Rightarrow> ctx \<Rightarrow> ctx option" where
  "execute_div m i signed_div c =
     (let o0 = i_operand i ! 0; w = o_size o0 in do {
        (hi, lo) \<leftarrow> div_operands w (cx_cpu c);
        (d, c) \<leftarrow> read_operand m o0 c;
        if faulted c then Some c
        else do {
          r \<leftarrow> (if signed_div then x86p_alu_idiv hi lo d w else x86p_alu_div hi lo d w);
          (case r of
             None \<Rightarrow> Some (with_fault kX86pStepDivideError c)
           | Some (q, rem) \<Rightarrow> do { cpu \<leftarrow> div_result_store w q rem (cx_cpu c); Some (c\<lparr>cx_cpu := cpu\<rparr>) })
        }
      })"

definition execute_xadd :: "mem \<Rightarrow> insn \<Rightarrow> ctx \<Rightarrow> ctx option" where
  "execute_xadd m i c =
     (let o0 = i_operand i ! 0; o1 = i_operand i ! 1; flags = c_flags (cx_cpu c) in do {
        (old, c) \<leftarrow> read_operand m o0 c;
        (b, c) \<leftarrow> read_operand m o1 c;
        (sum, flags) \<leftarrow> x86p_alu kX86pAluAdd old b (o_size o0) flags;
        if faulted c then Some c
        else if o_kind o0 = kX86pOperandMem then do {
          c \<leftarrow> write_operand m o0 sum c;
          if faulted c then Some c
          else do { c \<leftarrow> write_operand m o1 old c; Some (set_flags flags c) }
        }
        else do {
          c \<leftarrow> write_operand m o1 old c;
          c \<leftarrow> write_operand m o0 sum c;
          Some (set_flags flags c)
        }
      })"

definition execute_cmpxchg :: "mem \<Rightarrow> insn \<Rightarrow> ctx \<Rightarrow> ctx option" where
  "execute_cmpxchg m i c =
     (let o0 = i_operand i ! 0; o1 = i_operand i ! 1; w = o_size o0; flags = c_flags (cx_cpu c) in do {
        accumulator \<leftarrow> x86p_reg_read (cx_cpu c) kX86pEax w;
        (old, c) \<leftarrow> read_operand m o0 c;
        (source, c) \<leftarrow> read_operand m o1 c;
        if faulted c then Some c
        else do {
          (_, flags) \<leftarrow> x86p_alu kX86pAluCmp accumulator old w flags;
          let equal = (accumulator = old);
          c \<leftarrow> write_operand m o0 (if equal then source else old) c;
          if faulted c then Some c
          else do {
            cpu \<leftarrow> (if \<not> equal then x86p_reg_write (cx_cpu c) kX86pEax w old else Some (cx_cpu c));
            Some (set_flags flags (c\<lparr>cx_cpu := cpu\<rparr>))
          }
        }
      })"

text \<open>The quadword a byte list stands for on a little-endian host, and its bytes.\<close>

definition quad_of :: "u8 list \<Rightarrow> u64" where
  "quad_of bs = foldr (\<lambda>b v. push_bit 8 v OR ucast b) bs 0"

definition quad_bytes :: "u64 \<Rightarrow> u8 list" where
  "quad_bytes q = map (\<lambda>i. ucast (drop_bit (8 * i) q)) [0..<8]"

definition execute_cmpxchg8b :: "mem \<Rightarrow> insn \<Rightarrow> ctx \<Rightarrow> ctx option" where
  "execute_cmpxchg8b m i c = do {
     addr \<leftarrow> effective_address (cx_cpu c) (i_operand i ! 0);
     let eax = reg (cx_cpu c) kX86pEax;
     let edx = reg (cx_cpu c) kX86pEdx;
     let flags = c_flags (cx_cpu c);
     (case x86p_mem_read_bytes m (hs_bytes (cx_host c)) addr 8 of
        None \<Rightarrow> Some (with_fault kX86pStepMemoryFault c)
      | Some bs \<Rightarrow> do {
          (cpu, quad) \<leftarrow> x86p_cpu_cmpxchg8b (cx_cpu c) (quad_of bs);
          (case x86p_mem_write_bytes m (cx_host c) addr (quad_bytes quad) 8 of
             None \<Rightarrow>
               Some (with_fault kX86pStepMemoryFault
                 (c\<lparr>cx_cpu := (set_reg kX86pEdx edx (set_reg kX86pEax eax cpu))\<lparr>c_flags := flags\<rparr>\<rparr>))
           | Some s \<Rightarrow> Some (c\<lparr>cx_cpu := cpu, cx_host := s\<rparr>))
        })
   }"

text \<open>
  The bit of a bit string: with a register offset and a memory operand the offset is signed and
  may leave the operand; division truncates, and the code moves a negative remainder up.
\<close>

definition bit_string_unit :: "u32 \<Rightarrow> nat \<Rightarrow> int \<times> nat" where
  "bit_string_unit v w =
     (let off = sint v; stride = int w * 8; unit = off sdiv stride; rem = off smod stride in
      if rem < 0 then (unit - 1, nat (rem + stride)) else (unit, nat rem))"

definition execute_bit :: "mem \<Rightarrow> insn \<Rightarrow> ctx \<Rightarrow> ctx option" where
  "execute_bit m i c =
     (let o0 = i_operand i ! 0; o1 = i_operand i ! 1; w = o_size o0 in do {
        f \<leftarrow> x86p_eflags (c_flags (cx_cpu c));
        if o_kind o1 = kX86pOperandImm then do {
          let n = o_imm o1 AND (of_nat w * 8 - 1);
          (value, c) \<leftarrow> read_operand m o0 c;
          if faulted c then Some c
          else do {
            let (updated, f) = x86p_bit_apply (i_bit i) value n f;
            c \<leftarrow> (if i_bit i \<noteq> kX86pBitTest then write_operand m o0 updated c else Some c);
            if faulted c then Some c else Some (set_flags (x86p_flags_set_explicit (c_flags (cx_cpu c)) f) c)
          }
        }
        else if o_kind o0 = kX86pOperandMem then do {
          (v, c) \<leftarrow> read_operand m o1 c;
          let (unit, rem) = bit_string_unit v w;
          let adjusted = o0\<lparr>o_disp := o_disp o0 + of_int (unit * int w)\<rparr>;
          (value, c) \<leftarrow> read_operand m adjusted c;
          if faulted c then Some c
          else do {
            let (updated, f) = x86p_bit_apply (i_bit i) value (of_nat rem) f;
            c \<leftarrow> (if i_bit i \<noteq> kX86pBitTest then write_operand m adjusted updated c else Some c);
            if faulted c then Some c else Some (set_flags (x86p_flags_set_explicit (c_flags (cx_cpu c)) f) c)
          }
        }
        else do {
          (v, c) \<leftarrow> read_operand m o1 c;
          let n = v AND (of_nat w * 8 - 1);
          (value, c) \<leftarrow> read_operand m o0 c;
          let (updated, f) = x86p_bit_apply (i_bit i) value n f;
          c \<leftarrow> (if i_bit i \<noteq> kX86pBitTest then write_operand m o0 updated c else Some c);
          if faulted c then Some c else Some (set_flags (x86p_flags_set_explicit (c_flags (cx_cpu c)) f) c)
        }
      })"

definition execute_double_shift :: "mem \<Rightarrow> insn \<Rightarrow> bool \<Rightarrow> ctx \<Rightarrow> ctx option" where
  "execute_double_shift m i left c =
     (let o0 = i_operand i ! 0 in do {
        f \<leftarrow> x86p_eflags (c_flags (cx_cpu c));
        (dst, c) \<leftarrow> read_operand m o0 c;
        (src, c) \<leftarrow> read_operand m (i_operand i ! 1) c;
        if faulted c then Some c
        else do {
          (count, c) \<leftarrow> read_operand m (i_operand i ! 2) c;
          if faulted c then Some c
          else
            (case x86p_double_shift left dst src count (o_size o0) f of
               (defined, None) \<Rightarrow> Some (if \<not> defined then with_fault kX86pStepUnsupported c else c)
             | (defined, Some (r, f)) \<Rightarrow> do {
                 c \<leftarrow> write_operand m o0 r c;
                 if faulted c then Some c else Some (set_flags (x86p_flags_set_explicit (c_flags (cx_cpu c)) f) c)
               })
        }
      })"

definition execute_bcd :: "insn \<Rightarrow> ctx \<Rightarrow> ctx option" where
  "execute_bcd i c =
     (let o0 = i_operand i ! 0 in do {
        ax \<leftarrow> x86p_reg_read (cx_cpu c) kX86pEax 2;
        f \<leftarrow> x86p_eflags (c_flags (cx_cpu c));
        let imm = (if 0 < i_operands i \<and> o_kind o0 = kX86pOperandImm then ucast (o_imm o0) else 10);
        (case x86p_bcd_apply (i_bcd i) (ucast ax) f imm of
           None \<Rightarrow> Some (with_fault kX86pStepDivideError c)
         | Some (ax, f) \<Rightarrow> do {
             cpu \<leftarrow> x86p_reg_write (cx_cpu c) kX86pEax 2 (ucast ax);
             Some (c\<lparr>cx_cpu := cpu\<lparr>c_flags := x86p_flags_set_explicit (c_flags cpu) f\<rparr>\<rparr>)
           })
      })"

definition execute_bit_scan :: "mem \<Rightarrow> insn \<Rightarrow> bool \<Rightarrow> ctx \<Rightarrow> ctx option" where
  "execute_bit_scan m i reverse c =
     (let o0 = i_operand i ! 0 in do {
        (source, c) \<leftarrow> read_operand m (i_operand i ! 1) c;
        if faulted c then Some c
        else if o_kind o0 \<noteq> kX86pOperandReg then Some (with_fault kX86pStepUnsupported c)
        else do {
          cpu \<leftarrow> x86p_cpu_bit_scan (cx_cpu c) (o_reg o0) source reverse (o_size o0);
          Some (c\<lparr>cx_cpu := cpu\<rparr>)
        }
      })"

definition execute_wide :: "mem \<Rightarrow> insn \<Rightarrow> wide_insn \<Rightarrow> ctx \<Rightarrow> ctx option" where
  "execute_wide m i op c =
     (case op of
        kX86pInsnMul \<Rightarrow> execute_mul m i False c
      | kX86pInsnImul \<Rightarrow> execute_mul m i True c
      | kX86pInsnDiv \<Rightarrow> execute_div m i False c
      | kX86pInsnIdiv \<Rightarrow> execute_div m i True c
      | kX86pInsnXadd \<Rightarrow> execute_xadd m i c
      | kX86pInsnCmpxchg \<Rightarrow> execute_cmpxchg m i c
      | kX86pInsnCmpxchg8b \<Rightarrow> execute_cmpxchg8b m i c
      | kX86pInsnBsf \<Rightarrow> execute_bit_scan m i False c
      | kX86pInsnBsr \<Rightarrow> execute_bit_scan m i True c
      | kX86pInsnBit \<Rightarrow> execute_bit m i c
      | kX86pInsnShld \<Rightarrow> execute_double_shift m i True c
      | kX86pInsnShrd \<Rightarrow> execute_double_shift m i False c
      | kX86pInsnBcd \<Rightarrow> execute_bcd i c)"

section \<open>Control flow\<close>

definition go_to :: "(u32 \<times> ctx) option \<Rightarrow> ctx option" where
  "go_to t = do { (target, c) \<leftarrow> t; Some (if faulted c then c else c\<lparr>cx_next_eip := target\<rparr>) }"

definition exec_jcc :: "mem \<Rightarrow> insn \<Rightarrow> ctx \<Rightarrow> ctx option" where
  "exec_jcc m i c = do {
     (t, c) \<leftarrow> branch_target m (i_operand i ! 0) c;
     if faulted c then Some c
     else do {
       b \<leftarrow> x86p_cond (i_cond i) (c_flags (cx_cpu c));
       Some (if b then c\<lparr>cx_next_eip := t\<rparr> else c)
     }
   }"

definition exec_call :: "mem \<Rightarrow> insn \<Rightarrow> ctx \<Rightarrow> ctx option" where
  "exec_call m i c = do {
     (t, c) \<leftarrow> branch_target m (i_operand i ! 0) c;
     if faulted c then Some c
     else
       let c = push_or_fault m (cx_next_eip c) c in
       Some (if faulted c then c else c\<lparr>cx_next_eip := t\<rparr>)
   }"

text \<open>What RET imm16 and RETF imm16 add to ESP, and the load of CS of the far transfers.\<close>

definition release_arguments :: "insn \<Rightarrow> ctx \<Rightarrow> ctx" where
  "release_arguments i c =
     (let o0 = i_operand i ! 0 in
      if 1 \<le> i_operands i \<and> o_kind o0 = kX86pOperandImm
      then on_cpu (\<lambda>cpu. set_reg kX86pEsp (reg cpu kX86pEsp + o_imm o0) cpu) c else c)"

abbreviation load_cs :: "u16 \<Rightarrow> ctx \<Rightarrow> ctx" where
  "load_cs sel \<equiv> on_cpu (\<lambda>cpu. cpu\<lparr>c_seg := (c_seg cpu)[seg_index kX86pSegCs := sel]\<rparr>)"

definition exec_ret :: "mem \<Rightarrow> insn \<Rightarrow> ctx \<Rightarrow> ctx option" where
  "exec_ret m i c =
     (case pop_or_fault m c of
        (None, c) \<Rightarrow> Some c
      | (Some ra, c) \<Rightarrow> Some ((release_arguments i c)\<lparr>cx_next_eip := ra\<rparr>))"

definition exec_call_far :: "mem \<Rightarrow> insn \<Rightarrow> ctx \<Rightarrow> ctx option" where
  "exec_call_far m i c = do {
     (t, c) \<leftarrow> far_target m (i_operand i ! 0) c;
     (case t of
        None \<Rightarrow> Some c
      | Some (off, sel) \<Rightarrow>
          let c = push_or_fault m (ucast (c_seg (cx_cpu c) ! seg_index kX86pSegCs)) c in
          if faulted c then Some c
          else
            let c = push_or_fault m (cx_next_eip c) c in
            if faulted c then Some c else Some ((load_cs sel c)\<lparr>cx_next_eip := off\<rparr>))
   }"

definition exec_jmp_far :: "mem \<Rightarrow> insn \<Rightarrow> ctx \<Rightarrow> ctx option" where
  "exec_jmp_far m i c = do {
     (t, c) \<leftarrow> far_target m (i_operand i ! 0) c;
     (case t of
        None \<Rightarrow> Some c
      | Some (off, sel) \<Rightarrow> Some ((load_cs sel c)\<lparr>cx_next_eip := off\<rparr>))
   }"

definition exec_retf :: "mem \<Rightarrow> insn \<Rightarrow> ctx \<Rightarrow> ctx option" where
  "exec_retf m i c =
     (case pop_or_fault m c of
        (None, c) \<Rightarrow> Some c
      | (Some ra, c) \<Rightarrow>
          (case pop_or_fault m c of
             (None, c) \<Rightarrow> Some c
           | (Some sel, c) \<Rightarrow> Some ((load_cs (ucast sel) (release_arguments i c))\<lparr>cx_next_eip := ra\<rparr>)))"

text \<open>LOOP, LOOPE and LOOPNE; \<open>condition\<close> is the code's 0, 1 or -1.\<close>

definition exec_loop :: "mem \<Rightarrow> insn \<Rightarrow> int \<Rightarrow> ctx \<Rightarrow> ctx option" where
  "exec_loop m i condition c =
     (let (taken, cpu) = x86p_cpu_loop (cx_cpu c) (i_address_width i) condition; c = c\<lparr>cx_cpu := cpu\<rparr> in
      if taken then go_to (branch_target m (i_operand i ! 0) c) else Some c)"

definition exec_jecxz :: "mem \<Rightarrow> insn \<Rightarrow> ctx \<Rightarrow> ctx option" where
  "exec_jecxz m i c =
     (if reg (cx_cpu c) kX86pEcx = 0 then go_to (branch_target m (i_operand i ! 0) c) else Some c)"

definition exec_iretd :: "mem \<Rightarrow> ctx \<Rightarrow> ctx option" where
  "exec_iretd m c =
     (case pop_or_fault m c of
        (None, c) \<Rightarrow> Some c
      | (Some eip_v, c) \<Rightarrow>
          (case pop_or_fault m c of
             (None, c) \<Rightarrow> Some c
           | (Some cs_v, c) \<Rightarrow>
               (case pop_or_fault m c of
                  (None, c) \<Rightarrow> Some c
                | (Some fl_v, c) \<Rightarrow>
                    Some ((on_cpu (\<lambda>cpu. x86p_cpu_set_eflags cpu fl_v) (load_cs (ucast cs_v) c))\<lparr>cx_next_eip := eip_v\<rparr>))))"

definition execute_flow :: "mem \<Rightarrow> insn \<Rightarrow> flow_insn \<Rightarrow> ctx \<Rightarrow> ctx option" where
  "execute_flow m i op c =
     (case op of
        kX86pInsnJmp \<Rightarrow> go_to (branch_target m (i_operand i ! 0) c)
      | kX86pInsnJcc \<Rightarrow> exec_jcc m i c
      | kX86pInsnCall \<Rightarrow> exec_call m i c
      | kX86pInsnRet \<Rightarrow> exec_ret m i c
      | kX86pInsnCallFar \<Rightarrow> exec_call_far m i c
      | kX86pInsnJmpFar \<Rightarrow> exec_jmp_far m i c
      | kX86pInsnRetf \<Rightarrow> exec_retf m i c
      | kX86pInsnLoop \<Rightarrow> exec_loop m i 0 c
      | kX86pInsnLoope \<Rightarrow> exec_loop m i 1 c
      | kX86pInsnLoopne \<Rightarrow> exec_loop m i (-1) c
      | kX86pInsnJecxz \<Rightarrow> exec_jecxz m i c
      | kX86pInsnIretd \<Rightarrow> exec_iretd m c)"

section \<open>Stack, flags and system instructions\<close>

definition stack_outcome :: "stack_result \<Rightarrow> ctx \<Rightarrow> ctx" where
  "stack_outcome r c =
     (case r of
        (None, cpu, s) \<Rightarrow> c\<lparr>cx_cpu := cpu, cx_host := s\<rparr>
      | (Some fault, cpu, s) \<Rightarrow> mem_fault fault (c\<lparr>cx_cpu := cpu, cx_host := s\<rparr>))"

definition exec_push :: "mem \<Rightarrow> insn \<Rightarrow> ctx \<Rightarrow> ctx option" where
  "exec_push m i c =
     (let o0 = i_operand i ! 0 in do {
        (v, c) \<leftarrow> read_operand m o0 c;
        if faulted c then Some c
        else
          let v = (if o_size o0 = 1 \<or> o_size o0 = 2 then x86p_sign_extend v (o_size o0) else v) in
          Some (push_or_fault m v c)
      })"

definition exec_pop :: "mem \<Rightarrow> insn \<Rightarrow> ctx \<Rightarrow> ctx option" where
  "exec_pop m i c =
     (case pop_or_fault m c of
        (None, c) \<Rightarrow> Some c
      | (Some v, c) \<Rightarrow> write_operand m (i_operand i ! 0) v c)"

definition exec_leave :: "mem \<Rightarrow> ctx \<Rightarrow> ctx option" where
  "exec_leave m c =
     (case pop_or_fault m (on_cpu (\<lambda>cpu. set_reg kX86pEsp (reg cpu kX86pEbp) cpu) c) of
        (None, c) \<Rightarrow> Some c
      | (Some ebp, c) \<Rightarrow> Some (on_cpu (set_reg kX86pEbp ebp) c))"

definition exec_pushfd :: "mem \<Rightarrow> ctx \<Rightarrow> ctx option" where
  "exec_pushfd m c = do { f \<leftarrow> x86p_cpu_eflags (cx_cpu c); Some (push_or_fault m f c) }"

definition exec_popfd :: "mem \<Rightarrow> ctx \<Rightarrow> ctx option" where
  "exec_popfd m c =
     (case pop_or_fault m c of
        (None, c) \<Rightarrow> Some c
      | (Some v, c) \<Rightarrow> Some (on_cpu (\<lambda>cpu. x86p_cpu_set_eflags cpu v) c))"

definition execute_stack :: "mem \<Rightarrow> insn \<Rightarrow> stack_insn \<Rightarrow> ctx \<Rightarrow> ctx option" where
  "execute_stack m i op c =
     (case op of
        kX86pInsnPush \<Rightarrow> exec_push m i c
      | kX86pInsnPop \<Rightarrow> exec_pop m i c
      | kX86pInsnLeave \<Rightarrow> exec_leave m c
      | kX86pInsnPushfd \<Rightarrow> exec_pushfd m c
      | kX86pInsnPopfd \<Rightarrow> exec_popfd m c
      | kX86pInsnPushad \<Rightarrow> Some (stack_outcome (x86p_stack_pushad m (cx_cpu c) (cx_host c)) c)
      | kX86pInsnPopad \<Rightarrow> Some (stack_outcome (x86p_stack_popad m (cx_cpu c) (cx_host c)) c)
      | kX86pInsnEnter \<Rightarrow>
          Some (stack_outcome
            (x86p_stack_enter m (cx_cpu c) (cx_host c) (o_imm (i_operand i ! 0)) (o_imm (i_operand i ! 1))) c))"

definition change_eflags :: "(u32 \<Rightarrow> u32) \<Rightarrow> ctx \<Rightarrow> ctx option" where
  "change_eflags g c = do {
     f \<leftarrow> x86p_eflags (c_flags (cx_cpu c));
     Some (set_flags (x86p_flags_set_explicit (c_flags (cx_cpu c)) (g f)) c)
   }"

definition execute_flag :: "flag_insn \<Rightarrow> ctx \<Rightarrow> ctx option" where
  "execute_flag op c =
     (case op of
        kX86pInsnCld \<Rightarrow> Some (on_cpu (\<lambda>cpu. cpu\<lparr>c_df := 0\<rparr>) c)
      | kX86pInsnStd \<Rightarrow> Some (on_cpu (\<lambda>cpu. cpu\<lparr>c_df := 1\<rparr>) c)
      | kX86pInsnSahf \<Rightarrow> do { cpu \<leftarrow> x86p_cpu_sahf (cx_cpu c); Some (c\<lparr>cx_cpu := cpu\<rparr>) }
      | kX86pInsnLahf \<Rightarrow> do { cpu \<leftarrow> x86p_cpu_lahf (cx_cpu c); Some (c\<lparr>cx_cpu := cpu\<rparr>) }
      | kX86pInsnStc \<Rightarrow> change_eflags (\<lambda>f. f OR X86P_CF) c
      | kX86pInsnClc \<Rightarrow> change_eflags (\<lambda>f. f AND NOT X86P_CF) c
      | kX86pInsnCmc \<Rightarrow> change_eflags (\<lambda>f. f XOR X86P_CF) c
      | kX86pInsnSalc \<Rightarrow> do {
          cpu \<leftarrow> x86p_reg_write (cx_cpu c) kX86pEax 1 (if x86p_flag_cf (c_flags (cx_cpu c)) then 0xFF else 0x00);
          Some (c\<lparr>cx_cpu := cpu\<rparr>)
        }
      | kX86pInsnCpuid \<Rightarrow> Some (on_cpu x86p_cpu_cpuid c)
      | kX86pInsnRdtsc \<Rightarrow> Some (on_cpu x86p_cpu_rdtsc c))"

definition raise_interrupt :: "u8 \<Rightarrow> ctx \<Rightarrow> ctx" where
  "raise_interrupt vector c =
     on_cpu (\<lambda>cpu. cpu\<lparr>c_trap_vector := vector\<rparr>) (with_fault kX86pStepInterrupt c)"

definition execute_bound :: "mem \<Rightarrow> insn \<Rightarrow> ctx \<Rightarrow> ctx option" where
  "execute_bound m i c =
     (let o0 = i_operand i ! 0; o1 = i_operand i ! 1 in do {
        (index, c) \<leftarrow> read_operand m o0 c;
        if faulted c then Some c
        else do {
          let upper = o1\<lparr>o_size := o_size o0\<rparr>;
          (lo, c) \<leftarrow> read_operand m upper c;
          let lo = x86p_sign_extend lo (o_size o0);
          let upper = upper\<lparr>o_disp := o_disp upper + of_nat (o_size o0)\<rparr>;
          (hi, c) \<leftarrow> read_operand m upper c;
          let hi = x86p_sign_extend hi (o_size o0);
          if faulted c then Some c
          else Some (if sint index < sint lo \<or> sint hi < sint index then with_fault kX86pStepBoundRange c else c)
        }
      })"

definition execute_lfp :: "mem \<Rightarrow> insn \<Rightarrow> ctx \<Rightarrow> ctx option" where
  "execute_lfp m i c =
     (let o0 = i_operand i ! 0; o1 = i_operand i ! 1 in do {
        (offset, c) \<leftarrow> read_operand m (o1\<lparr>o_size := o_size o0\<rparr>) c;
        if faulted c then Some c
        else do {
          (selector, c) \<leftarrow> read_operand m (o1\<lparr>o_size := 2, o_disp := o_disp o1 + of_nat (o_size o0)\<rparr>) c;
          if faulted c then Some c
          else do {
            c \<leftarrow> write_operand m o0 offset c;
            Some (on_cpu (\<lambda>cpu. cpu\<lparr>c_seg := (c_seg cpu)[seg_index (i_seg_dest i) := ucast selector]\<rparr>) c)
          }
        }
      })"

definition exec_interrupt :: "insn \<Rightarrow> system_insn \<Rightarrow> ctx \<Rightarrow> ctx option" where
  "exec_interrupt i op c =
     (let vector = (case op of
            kX86pInsnInt \<Rightarrow> ucast (o_imm (i_operand i ! 0))
          | kX86pInsnInt3 \<Rightarrow> 3
          | kX86pInsnInt1 \<Rightarrow> 1
          | _ \<Rightarrow> 4) in
      if op = kX86pInsnInto then do {
        ovf \<leftarrow> x86p_flag_of (c_flags (cx_cpu c));
        Some (if \<not> ovf then c else raise_interrupt vector c)
      }
      else Some (raise_interrupt vector c))"

definition exec_privileged :: "insn \<Rightarrow> ctx \<Rightarrow> ctx option" where
  "exec_privileged i c =
     Some (with_fault (if x86p_insn_is_privileged i then kX86pStepProtectionFault else kX86pStepUnsupported) c)"

definition exec_arpl :: "mem \<Rightarrow> insn \<Rightarrow> ctx \<Rightarrow> ctx option" where
  "exec_arpl m i c =
     (let o0 = i_operand i ! 0 in do {
        (dst, c) \<leftarrow> read_operand m o0 c;
        (src, c) \<leftarrow> read_operand m (i_operand i ! 1) c;
        if faulted c then Some c
        else if dst AND 3 < src AND 3 then do {
          c \<leftarrow> write_operand m o0 ((dst AND NOT 3) OR (src AND 3)) c;
          change_eflags (\<lambda>f. f OR X86P_ZF) c
        }
        else change_eflags (\<lambda>f. f AND NOT X86P_ZF) c
      })"

definition execute_system :: "mem \<Rightarrow> insn \<Rightarrow> system_insn \<Rightarrow> ctx \<Rightarrow> ctx option" where
  "execute_system m i op c =
     (case op of
        kX86pInsnInt3 \<Rightarrow> exec_interrupt i op c
      | kX86pInsnInt1 \<Rightarrow> exec_interrupt i op c
      | kX86pInsnInt \<Rightarrow> exec_interrupt i op c
      | kX86pInsnInto \<Rightarrow> exec_interrupt i op c
      | kX86pInsnHlt \<Rightarrow> exec_privileged i c
      | kX86pInsnWbinvd \<Rightarrow> exec_privileged i c
      | kX86pInsnCli \<Rightarrow> exec_privileged i c
      | kX86pInsnSti \<Rightarrow> exec_privileged i c
      | kX86pInsnPortIo \<Rightarrow> exec_privileged i c
      | kX86pInsnBound \<Rightarrow> execute_bound m i c
      | kX86pInsnArpl \<Rightarrow> exec_arpl m i c
      | kX86pInsnSldt \<Rightarrow> write_operand m (i_operand i ! 0) (ucast (c_ldtr (cx_cpu c))) c
      | kX86pInsnLfp \<Rightarrow> execute_lfp m i c)"

section \<open>The switch and the step\<close>

text \<open>
  The engines next to this file: the floating-point engine, handed the address of a memory
  operand when there is one, and the vector engine; each returns its outcome with the machine.
  The decoder returns the instruction the bytes encode, if any.
\<close>

datatype engine_status = EngineOk | EngineFault u32 | EngineUnsupported

record engines =
  en_x87 :: "mem \<Rightarrow> insn \<Rightarrow> u32 option \<Rightarrow> cpu \<Rightarrow> host \<Rightarrow> engine_status \<times> cpu \<times> host"
  en_simd :: "mem \<Rightarrow> insn \<Rightarrow> cpu \<Rightarrow> host \<Rightarrow> engine_status \<times> cpu \<times> host"
  en_decode :: "u8 list \<Rightarrow> insn option"

definition engine_outcome :: "engine_status \<times> cpu \<times> host \<Rightarrow> ctx \<Rightarrow> ctx" where
  "engine_outcome r c =
     (case r of (st, cpu, s) \<Rightarrow>
        let c = c\<lparr>cx_cpu := cpu, cx_host := s\<rparr> in
        case st of
          EngineOk \<Rightarrow> c
        | EngineFault addr \<Rightarrow> mem_fault addr c
        | EngineUnsupported \<Rightarrow> with_fault kX86pStepUnsupported c)"

definition string_outcome :: "string_status \<times> cpu \<times> host \<Rightarrow> ctx \<Rightarrow> ctx" where
  "string_outcome r c =
     (case r of (st, cpu, s) \<Rightarrow>
        let c = c\<lparr>cx_cpu := cpu, cx_host := s\<rparr> in
        case st of
          kX86pStringOk \<Rightarrow> c
        | kX86pStringFault addr \<Rightarrow> mem_fault addr c
        | kX86pStringUnsupported \<Rightarrow> with_fault kX86pStepUnsupported c)"

definition exec_x87 :: "engines \<Rightarrow> mem \<Rightarrow> insn \<Rightarrow> ctx \<Rightarrow> ctx option" where
  "exec_x87 en m i c = do {
     addr \<leftarrow>
       (case find (\<lambda>opd. o_kind opd = kX86pOperandMem) (take (i_operands i) (i_operand i)) of
          None \<Rightarrow> Some None
        | Some opd \<Rightarrow> do { addr \<leftarrow> effective_address (cx_cpu c) opd; Some (Some addr) });
     Some (engine_outcome (en_x87 en m i addr (cx_cpu c) (cx_host c)) c)
   }"

definition exec_simd :: "engines \<Rightarrow> mem \<Rightarrow> insn \<Rightarrow> ctx \<Rightarrow> ctx option" where
  "exec_simd en m i c = Some (engine_outcome (en_simd en m i (cx_cpu c) (cx_host c)) c)"

definition exec_string :: "mem \<Rightarrow> insn \<Rightarrow> ctx \<Rightarrow> ctx option" where
  "exec_string m i c = do {
     r \<leftarrow> x86p_string_execute m i (cx_cpu c) (cx_host c);
     Some (string_outcome r c)
   }"

definition execute :: "engines \<Rightarrow> mem \<Rightarrow> insn \<Rightarrow> ctx \<Rightarrow> ctx option" where
  "execute en m i c =
     (case i_op i of
        kX86pInsnNop \<Rightarrow> Some c
      | kX86pInsnX87 \<Rightarrow> exec_x87 en m i c
      | kX86pInsnSimd \<Rightarrow> exec_simd en m i c
      | kX86pInsnString \<Rightarrow> exec_string m i c
      | Data op \<Rightarrow> execute_data m i op c
      | Wide op \<Rightarrow> execute_wide m i op c
      | Flow op \<Rightarrow> execute_flow m i op c
      | Stack op \<Rightarrow> execute_stack m i op c
      | Flag op \<Rightarrow> execute_flag op c
      | System op \<Rightarrow> execute_system m i op c
      | kX86pInsnUnsupported \<Rightarrow> Some (with_fault kX86pStepUnsupported c))"

text \<open>The status, the reported fault address and the machine.\<close>

type_synonym step_result = "step_status \<times> u32 \<times> cpu \<times> host"

definition x86p_execute_decoded :: "engines \<Rightarrow> mem \<Rightarrow> insn \<Rightarrow> cpu \<Rightarrow> host \<Rightarrow> step_result option" where
  "x86p_execute_decoded en m i cpu s =
     (if i_op i = kX86pInsnUnsupported then Some (kX86pStepUnsupported, 0, cpu, s)
      else do {
        c \<leftarrow> execute en m i \<lparr>cx_cpu = cpu, cx_host = s, cx_next_eip = c_eip cpu + i_length i,
          cx_fault = kX86pStepOk, cx_fault_addr = 0\<rparr>;
        if faulted c then Some (cx_fault c, cx_fault_addr c, cx_cpu c, cx_host c)
        else Some (kX86pStepOk, 0, (cx_cpu c)\<lparr>c_eip := cx_next_eip c\<rparr>, cx_host c)
      })"

record step_report =
  sr_status :: step_status
  sr_eip :: u32
  sr_length :: u32
  sr_mnemonic :: string
  sr_op :: insn_op
  sr_fault_addr :: u32
  sr_trap_vector :: u8

definition x86p_step :: "engines \<Rightarrow> mem \<Rightarrow> cpu \<Rightarrow> host \<Rightarrow> (step_status \<times> step_report \<times> cpu \<times> host) option" where
  "x86p_step en m cpu s =
     (let report = \<lparr>sr_status = kX86pStepOk, sr_eip = c_eip cpu, sr_length = 0, sr_mnemonic = ''?'',
            sr_op = kX86pInsnUnsupported, sr_fault_addr = 0, sr_trap_vector = 0\<rparr>;
          avail = x86p_mem_readable_span m (c_eip cpu) 15 in
      case (if avail = 0 then None else x86p_mem_read_bytes m (hs_bytes s) (c_eip cpu) avail) of
        None \<Rightarrow>
          Some (kX86pStepFetchFault, report\<lparr>sr_status := kX86pStepFetchFault, sr_fault_addr := c_eip cpu\<rparr>, cpu, s)
      | Some bytes \<Rightarrow>
          (case en_decode en bytes of
             None \<Rightarrow>
               Some (kX86pStepDecodeFailed,
                 report\<lparr>sr_status := kX86pStepDecodeFailed, sr_fault_addr := c_eip cpu\<rparr>, cpu, s)
           | Some i \<Rightarrow>
               let report = report\<lparr>sr_length := i_length i, sr_mnemonic := i_mnemonic i, sr_op := i_op i\<rparr> in
               if i_op i = kX86pInsnUnsupported then
                 Some (kX86pStepUnsupported, report\<lparr>sr_status := kX86pStepUnsupported\<rparr>, cpu, s)
               else do {
                 (st, fault_addr, cpu, s) \<leftarrow> x86p_execute_decoded en m i cpu s;
                 let report = report\<lparr>sr_status := st\<rparr>;
                 Some (st, if st \<noteq> kX86pStepOk then report\<lparr>sr_fault_addr := fault_addr\<rparr> else report, cpu, s)
               }))"

end
