(* ===== verification/X86_Cpu_Properties.thy ===== *)
theory X86_Cpu_Properties
  imports X86_Exec
begin

text \<open>
  The register file and the flag transfers of \<open>src/src/x86port/cpu.c\<close>: the shape every
  operation keeps, what a partial write leaves alone, and the round trips through memory words.
\<close>

section \<open>The shape of the machine\<close>

definition cpu_ok :: "cpu \<Rightarrow> bool" where
  "cpu_ok cpu \<longleftrightarrow> length (c_reg cpu) = 8 \<and> length (c_seg cpu) = 6 \<and> x87_ok (c_x87 cpu) \<and>
     length (c_xmm cpu) = 8 \<and> (\<forall>x \<in> set (c_xmm cpu). length x = 16) \<and> flags_ok (c_flags cpu)"

named_theorems shape \<open>operations that keep the shape of the machine\<close>

lemma cpu_ok_reset: "cpu_ok x86p_cpu_reset"
  by (auto simp: cpu_ok_def x86p_cpu_reset_def kX86pRegCount_def x87_ok_reset)

lemma set_reg_ok [shape, simp]: "cpu_ok (set_reg r v cpu) = cpu_ok cpu"
  by (simp add: cpu_ok_def)

lemma set_flags_ok [shape]: "cpu_ok cpu \<Longrightarrow> flags_ok f \<Longrightarrow> cpu_ok (cpu\<lparr>c_flags := f\<rparr>)"
  by (simp add: cpu_ok_def)

lemma set_explicit_ok [shape]: "cpu_ok cpu \<Longrightarrow> cpu_ok (cpu\<lparr>c_flags := x86p_flags_set_explicit f v\<rparr>)"
  by (simp add: cpu_ok_def)

lemma set_other_ok [shape, simp]:
  "cpu_ok (cpu\<lparr>c_eip := e\<rparr>) = cpu_ok cpu" "cpu_ok (cpu\<lparr>c_df := d\<rparr>) = cpu_ok cpu"
  "cpu_ok (cpu\<lparr>c_trap_vector := v\<rparr>) = cpu_ok cpu" "cpu_ok (cpu\<lparr>c_tsc := t\<rparr>) = cpu_ok cpu"
  "cpu_ok (cpu\<lparr>c_seg := (c_seg cpu)[k := x]\<rparr>) = cpu_ok cpu"
  by (simp_all add: cpu_ok_def)

lemma cpu_okD: "cpu_ok cpu \<Longrightarrow> length (c_reg cpu) = 8" "cpu_ok cpu \<Longrightarrow> length (c_seg cpu) = 6"
  "cpu_ok cpu \<Longrightarrow> flags_ok (c_flags cpu)"
  by (simp_all add: cpu_ok_def)

lemma reg_write_ok [shape]: "x86p_reg_write cpu r w v = Some cpu' \<Longrightarrow> cpu_ok cpu' = cpu_ok cpu"
  by (auto simp: x86p_reg_write_def x86p_byte_reg_def split: if_splits)

lemma reg_write_total: "valid_width w \<Longrightarrow> \<exists>cpu'. x86p_reg_write cpu r w v = Some cpu'"
  by (auto simp: x86p_reg_write_def x86p_byte_reg_def)

lemma reg_read_total: "valid_width w \<Longrightarrow> \<exists>v. x86p_reg_read cpu r w = Some v"
  by (auto simp: x86p_reg_read_def x86p_byte_reg_def)

section \<open>Partial registers\<close>

text \<open>The 32-bit register a name lives in and how far up it sits.\<close>

definition reg_slot :: "nat \<Rightarrow> nat \<Rightarrow> nat \<times> nat" where
  "reg_slot index w = (if w = 1 then x86p_byte_reg index else (index, 0))"

lemma reg_slot_bounds: "index < 8 \<Longrightarrow> valid_width w \<Longrightarrow> fst (reg_slot index w) < 8 \<and> snd (reg_slot index w) + 8 * w \<le> 32"
  by (auto simp: reg_slot_def x86p_byte_reg_def)

lemma reg_read_slot:
  assumes "index < 8" "valid_width w"
  shows "x86p_reg_read cpu index w = Some (take_bit (8 * w) (drop_bit (snd (reg_slot index w)) (reg cpu (fst (reg_slot index w)))))"
proof -
  have "(0xFF :: u32) = mask 8" "(0xFFFF :: u32) = mask 16" by (simp_all add: mask_eq_exp_minus_1)
  moreover have "take_bit 32 (v :: u32) = v" for v by (rule take_bit_length_eq [where 'a = 32, simplified])
  ultimately show ?thesis
    using assms by (auto simp: x86p_reg_read_def reg_slot_def x86p_byte_reg_def take_bit_eq_mask kX86pRegCount_def)
qed

lemma bit_FF: "bit (0xFF :: u32) n = (n < 8)"
  using bit_mask_iff [of 8 n, where 'a = "32 word"] by (auto simp: mask_eq_exp_minus_1)

lemma bit_FFFF: "bit (0xFFFF :: u32) n = (n < 16)"
  using bit_mask_iff [of 16 n, where 'a = "32 word"] by (auto simp: mask_eq_exp_minus_1)

lemma bit_FFFF0000: "bit (0xFFFF0000 :: u32) n = (16 \<le> n \<and> n < 32)"
proof -
  have e: "(0xFFFF0000 :: u32) = push_bit 16 0xFFFF" by simp
  show ?thesis unfolding e bit_push_bit_iff bit_FFFF by auto
qed

lemma reg_write_slot:
  assumes "index < 8" "valid_width w"
  defines "r \<equiv> fst (reg_slot index w)" and "sh \<equiv> snd (reg_slot index w)"
  shows "\<exists>x. x86p_reg_write cpu index w v = Some (set_reg r x cpu) \<and>
    (\<forall>n < 32. bit x n = (if sh \<le> n \<and> n < sh + 8 * w then bit v (n - sh) else bit (reg cpu r) n))"
proof -
  have b: "bit ((x AND NOT (push_bit s 0xFF)) OR push_bit s (v AND 0xFF) :: u32) n =
      (if s \<le> n \<and> n < s + 8 then bit v (n - s) else bit x n)" if "n < 32" "s + 8 \<le> 32" for x s n
    using that unfolding bit_or_iff bit_and_iff bit_not_iff bit_push_bit_iff bit_FF by auto
  have h: "bit ((x AND 0xFFFF0000) OR (v AND 0xFFFF) :: u32) n = (if n < 16 then bit v n else bit x n)" if "n < 32" for x n
    using that unfolding bit_or_iff bit_and_iff bit_FFFF bit_FFFF0000 by auto
  consider "w = 1" | "w = 2" | "w = 4" using assms(2) by blast
  then show ?thesis
  proof cases
    case 1
    then show ?thesis using assms(1) b [of _ sh] unfolding r_def sh_def
      by (auto simp: x86p_reg_write_def reg_slot_def x86p_byte_reg_def)
  next
    case 2
    then show ?thesis using assms(1) h unfolding r_def sh_def
      by (auto simp: x86p_reg_write_def reg_slot_def kX86pRegCount_def)
  next
    case 3
    then show ?thesis using assms(1) unfolding r_def sh_def
      by (auto simp: x86p_reg_write_def reg_slot_def kX86pRegCount_def)
  qed
qed

text \<open>
  Writing a register by its encoded number at a width changes exactly the bits that name
  covers, byte names 4 to 7 being the second bytes of the first four registers, and reading it
  back at that width returns the value reduced to the width; no other bit of the machine moves.
\<close>

theorem partial_register_writes:
  assumes "cpu_ok cpu" and "index < 8" and "valid_width w"
  shows "\<exists>cpu'. x86p_reg_write cpu index w v = Some cpu' \<and> cpu_ok cpu' \<and>
    x86p_reg_read cpu' index w = Some (take_bit (8 * w) v) \<and>
    cpu'\<lparr>c_reg := c_reg cpu\<rparr> = cpu \<and>
    (\<forall>r < 8. \<forall>n < 32. bit (reg cpu' r) n =
      (if r = fst (reg_slot index w) \<and> snd (reg_slot index w) \<le> n \<and> n < snd (reg_slot index w) + 8 * w
       then bit v (n - snd (reg_slot index w)) else bit (reg cpu r) n))"
proof -
  let ?r = "fst (reg_slot index w)" and ?s = "snd (reg_slot index w)"
  obtain x where x: "x86p_reg_write cpu index w v = Some (set_reg ?r x cpu)"
    "\<And>n. n < 32 \<Longrightarrow> bit x n = (if ?s \<le> n \<and> n < ?s + 8 * w then bit v (n - ?s) else bit (reg cpu ?r) n)"
    using reg_write_slot [OF assms(2,3)] by blast
  have b: "?r < 8" "?s + 8 * w \<le> 32" using reg_slot_bounds [OF assms(2,3)] by auto
  have len: "length (c_reg cpu) = 8" using assms(1) by (rule cpu_okD)
  have "take_bit (8 * w) (drop_bit ?s x) = take_bit (8 * w) v"
  proof (rule bit_word_eqI)
    fix n assume "n < LENGTH(32)"
    then show "bit (take_bit (8 * w) (drop_bit ?s x)) n = bit (take_bit (8 * w) v) n"
      using x(2) [of "?s + n"] b(2) by (auto simp: bit_take_bit_iff bit_drop_bit_eq)
  qed
  then have "x86p_reg_read (set_reg ?r x cpu) index w = Some (take_bit (8 * w) v)"
    using b(1) len by (simp add: reg_read_slot [OF assms(2,3)])
  moreover have "bit (reg (set_reg ?r x cpu) q) n =
      (if q = ?r \<and> ?s \<le> n \<and> n < ?s + 8 * w then bit v (n - ?s) else bit (reg cpu q) n)" if "q < 8" "n < 32" for q n
    using x(2) [OF that(2)] len that(1) by (cases "q = ?r") auto
  ultimately show ?thesis using x(1) assms(1) by auto
qed

theorem partial_register_writes_witness:
  "\<exists>cpu'. x86p_reg_write (set_reg 0 0x11223344 x86p_cpu_reset) 4 1 0xAB = Some cpu' \<and>
     x86p_reg_read cpu' 4 1 = Some 0xAB \<and> x86p_reg_read cpu' 0 1 = Some 0x44"
proof -
  have ok: "cpu_ok (set_reg 0 0x11223344 x86p_cpu_reset)" by (simp add: cpu_ok_reset)
  have t: "take_bit (8 * 1) (0xAB :: u32) = 0xAB" by simp
  from partial_register_writes [OF ok, of 4 1 "0xAB"] obtain cpu' where
    c: "x86p_reg_write (set_reg 0 0x11223344 x86p_cpu_reset) 4 1 0xAB = Some cpu'" "x86p_reg_read cpu' 4 1 = Some 0xAB"
    unfolding t by auto
  moreover have "x86p_reg_read cpu' 0 1 = Some 0x44"
    using c(1) by (auto simp: x86p_reg_write_def x86p_byte_reg_def x86p_reg_read_def x86p_cpu_reset_def kX86pRegCount_def)
  ultimately show ?thesis by blast
qed

section \<open>Flags through memory words\<close>

lemma cpu_eflags_total: "cpu_ok cpu \<Longrightarrow> \<exists>v. x86p_cpu_eflags cpu = Some v"
  using eflags_total [of "c_flags cpu"] by (auto simp: x86p_cpu_eflags_def cpu_ok_def)

lemma eflags_shape:
  assumes "x86p_eflags f = Some v"
  shows "(v AND X86P_ARITH_FLAGS) OR X86P_EFLAGS_FIXED = v"
proof (rule bit_word_eqI)
  fix n assume "n < LENGTH(32)"
  show "bit ((v AND X86P_ARITH_FLAGS) OR X86P_EFLAGS_FIXED) n = bit v n"
    using x86p_eflags_other_bits [OF assms, of n] by (auto simp: bit_or_iff bit_and_iff flag_simps)
qed

lemma explicit_same_readers:
  assumes "x86p_eflags f = Some v" and "\<And>n. n \<in> {0, 2, 4, 6, 7, 11} \<Longrightarrow> bit u n = bit v n"
  shows "x86p_cond cc (x86p_flags_set_explicit g u) = x86p_cond cc f"
    and "x86p_flag_af (x86p_flags_set_explicit g u) = x86p_flag_af f"
    and "x86p_eflags (x86p_flags_set_explicit g u) = Some v"
proof -
  note b = x86p_eflags_bits [OF assms(1)]
  show "x86p_flag_af (x86p_flags_set_explicit g u) = x86p_flag_af f"
    using assms(2) b by (simp add: flag_simps)
  have "(u AND X86P_ARITH_FLAGS) OR X86P_EFLAGS_FIXED = (v AND X86P_ARITH_FLAGS) OR X86P_EFLAGS_FIXED"
    using assms(2) by (intro bit_word_eqI) (auto simp: bit_or_iff bit_and_iff flag_simps)
  then show e: "x86p_eflags (x86p_flags_set_explicit g u) = Some v"
    using eflags_shape [OF assms(1)] by (simp add: flag_simps)
  show "x86p_cond cc (x86p_flags_set_explicit g u) = x86p_cond cc f"
    unfolding cond_as_eflags [OF e] cond_as_eflags [OF assms(1)] ..
qed

lemma bit_numerals8: "bit (0xD5 :: u32) n = (n \<in> {0, 2, 4, 6, 7})" "bit (2 :: u32) n = (n = 1)"
proof -
  have "(0xD5 :: u32) = 2 ^ 0 OR 2 ^ 2 OR 2 ^ 4 OR 2 ^ 6 OR 2 ^ 7" by code_simp
  then show "bit (0xD5 :: u32) n = (n \<in> {0, 2, 4, 6, 7})"
    by (simp only: bit_or_iff bit_exp_iff) auto
  show "bit (2 :: u32) n = (n = 1)" using bit_exp_iff [of 1 n, where 'a = "32 word"] by auto
qed

lemma ah_bits:
  assumes "n \<in> {0, 2, 4, 6, 7}"
  shows "bit (drop_bit 8 (((x AND 0xFFFF0000) OR (((a AND 0xFF) OR push_bit 8 ((f AND 0xD5) OR 2)) AND 0xFFFF))
    AND 0xFFFF) :: u32) n = bit f n"
  using assms
  unfolding bit_drop_bit_eq o_def bit_and_iff bit_or_iff bit_push_bit_iff bit_FFFF bit_FF bit_FFFF0000 bit_numerals8
  by auto

lemma sahf_word_bits:
  assumes "n \<in> {0, 2, 4, 6, 7} \<Longrightarrow> bit ah n = bit f n" "n \<in> {0, 2, 4, 6, 7, 11}"
  shows "bit ((f AND NOT 0xFF) OR (ah AND 0xD5) OR 2 :: u32) n = bit f n"
  using assms unfolding bit_or_iff bit_and_iff bit_not_iff bit_FF bit_numerals8 by auto

text \<open>
  A flags word PUSHFD stored and POPFD loads restores every condition, the auxiliary
  carry and the direction flag, and so does LAHF followed by SAHF for the conditions, which
  leaves the overflow flag alone; a word from anywhere else keeps exactly its status and
  direction bits.
\<close>

theorem flags_survive_memory:
  assumes "cpu_ok cpu"
  shows "(\<exists>v. x86p_cpu_eflags cpu = Some v \<and>
      (\<forall>cc. x86p_cond cc (c_flags (x86p_cpu_set_eflags cpu v)) = x86p_cond cc (c_flags cpu)) \<and>
      x86p_flag_af (c_flags (x86p_cpu_set_eflags cpu v)) = x86p_flag_af (c_flags cpu) \<and>
      (c_df (x86p_cpu_set_eflags cpu v) \<noteq> 0) = (c_df cpu \<noteq> 0)) \<and>
    x86p_cpu_eflags (x86p_cpu_set_eflags cpu w) =
      Some (((w AND X86P_ARITH_FLAGS) OR X86P_EFLAGS_FIXED) OR (w AND X86P_DF)) \<and>
    (\<exists>c1 c2. x86p_cpu_lahf cpu = Some c1 \<and> x86p_cpu_sahf c1 = Some c2 \<and>
      (\<forall>cc. x86p_cond cc (c_flags c2) = x86p_cond cc (c_flags cpu)))"
proof (intro conjI)
  obtain f where f: "x86p_eflags (c_flags cpu) = Some f" using eflags_total cpu_okD(3) [OF assms] by blast
  let ?v = "f OR (if c_df cpu \<noteq> 0 then X86P_DF else 0)"
  have df: "bit f 10 = False" using x86p_eflags_other_bits [OF f, of 10] by simp
  have dfb: "(u AND X86P_DF \<noteq> 0) = bit u 10" for u
    using word_and_pow2_neq_0_iff [of u 10] by (simp add: X86P_DF_def)
  have b: "bit ?v n = bit f n" if "n \<in> {0, 2, 4, 6, 7, 11}" for n
    using that by (auto simp: bit_or_iff flag_simps)
  have d: "bit ?v 10 = (c_df cpu \<noteq> 0)" using df by (simp add: bit_or_iff flag_simps)
  have "x86p_cpu_eflags cpu = Some ?v" by (simp add: x86p_cpu_eflags_def f)
  moreover have "\<forall>cc. x86p_cond cc (c_flags (x86p_cpu_set_eflags cpu ?v)) = x86p_cond cc (c_flags cpu)"
    using explicit_same_readers(1) [OF f b] by (simp add: x86p_cpu_set_eflags_def)
  moreover have "x86p_flag_af (c_flags (x86p_cpu_set_eflags cpu ?v)) = x86p_flag_af (c_flags cpu)"
    using explicit_same_readers(2) [OF f b] by (simp add: x86p_cpu_set_eflags_def)
  moreover have "(c_df (x86p_cpu_set_eflags cpu ?v) \<noteq> 0) = (c_df cpu \<noteq> 0)"
    using trans [OF dfb [of ?v] d] by (simp add: x86p_cpu_set_eflags_def)
  ultimately show "\<exists>v. x86p_cpu_eflags cpu = Some v \<and>
      (\<forall>cc. x86p_cond cc (c_flags (x86p_cpu_set_eflags cpu v)) = x86p_cond cc (c_flags cpu)) \<and>
      x86p_flag_af (c_flags (x86p_cpu_set_eflags cpu v)) = x86p_flag_af (c_flags cpu) \<and>
      (c_df (x86p_cpu_set_eflags cpu v) \<noteq> 0) = (c_df cpu \<noteq> 0)" by blast
  have "w AND X86P_DF = (if bit w 10 then X86P_DF else 0)"
    by (rule bit_word_eqI) (auto simp: bit_and_iff flag_simps)
  then show "x86p_cpu_eflags (x86p_cpu_set_eflags cpu w) =
      Some (((w AND X86P_ARITH_FLAGS) OR X86P_EFLAGS_FIXED) OR (w AND X86P_DF))"
    using dfb [of w] by (simp add: x86p_cpu_eflags_def x86p_cpu_set_eflags_def explicit_eflags)
next
  obtain f where f: "x86p_eflags (c_flags cpu) = Some f" using eflags_total cpu_okD(3) [OF assms] by blast
  let ?ax = "reg cpu 0 AND 0xFFFF"
  let ?new = "(?ax AND 0xFF) OR push_bit 8 ((f AND 0xD5) OR 0x02)"
  obtain c1 where c1: "x86p_reg_write cpu 0 2 ?new = Some c1" using reg_write_total by blast
  have l: "x86p_cpu_lahf cpu = Some c1"
    using c1 by (simp add: x86p_cpu_lahf_def f x86p_reg_read_def kX86pEax_def kX86pRegCount_def)
  have c1': "c1 = set_reg 0 ((reg cpu 0 AND 0xFFFF0000) OR (?new AND 0xFFFF)) cpu"
    using c1 by (simp add: x86p_reg_write_def kX86pRegCount_def)
  have len: "length (c_reg cpu) = 8" using assms by (rule cpu_okD)
  let ?ah = "drop_bit 8 (reg c1 0 AND 0xFFFF)"
  have ah: "bit ?ah n = bit f n" if "n \<in> {0, 2, 4, 6, 7}" for n
    using ah_bits [OF that, of "reg cpu 0" ?ax f] len unfolding c1' by simp
  let ?u = "(f AND NOT 0xFF) OR (?ah AND 0xD5) OR 2"
  have u: "bit ?u n = bit f n" if "n \<in> {0, 2, 4, 6, 7, 11}" for n
    by (rule sahf_word_bits [OF ah that])
  have "x86p_cpu_sahf c1 = Some (c1\<lparr>c_flags := x86p_flags_set_explicit (c_flags c1) ?u\<rparr>)"
    using f c1' by (simp add: x86p_cpu_sahf_def x86p_reg_read_def kX86pEax_def kX86pRegCount_def)
  moreover have "\<forall>cc. x86p_cond cc (c_flags (c1\<lparr>c_flags := x86p_flags_set_explicit (c_flags c1) ?u\<rparr>)) = x86p_cond cc (c_flags cpu)"
    using explicit_same_readers(1) [OF f u] by simp
  ultimately show "\<exists>c1 c2. x86p_cpu_lahf cpu = Some c1 \<and> x86p_cpu_sahf c1 = Some c2 \<and>
      (\<forall>cc. x86p_cond cc (c_flags c2) = x86p_cond cc (c_flags cpu))" using l by blast
qed

theorem flags_survive_memory_witness:
  "x86p_cpu_eflags (x86p_cpu_set_eflags x86p_cpu_reset 0xFFFFFFFF) = Some 0xED7 \<and>
   (\<exists>v. x86p_cpu_eflags x86p_cpu_reset = Some v)"
proof -
  have v: "((0xFFFFFFFF AND X86P_ARITH_FLAGS) OR X86P_EFLAGS_FIXED) OR (0xFFFFFFFF AND X86P_DF) = 0xED7" by code_simp
  show ?thesis using flags_survive_memory [OF cpu_ok_reset, of "0xFFFFFFFF"] unfolding v by blast
qed

end
