(* ===== verification/X86_Exec_Wp.thy ===== *)
theory X86_Exec_Wp
  imports X86_Exec X86_Cpu_Properties
begin

text \<open>
  A calculus for the interpreter: \<open>wp r P\<close> says that a computation does not abort and that its
  value satisfies \<open>P\<close>.  The locale \<open>machine_invariant\<close> is the contract between the execution
  switch and any property of the machine that every elementary effect keeps; inside it the whole
  switch is shown to keep the property.
\<close>

section \<open>Computations that return\<close>

definition wp :: "'a option \<Rightarrow> ('a \<Rightarrow> bool) \<Rightarrow> bool" where
  "wp r P \<longleftrightarrow> (\<exists>x. r = Some x \<and> P x)"

named_theorems wp_intros \<open>what operations return\<close>

lemma wp_Some [simp]: "wp (Some x) P = P x"
  by (simp add: wp_def)

lemma wp_bind [simp]: "wp (r \<bind> k) P = wp r (\<lambda>x. wp (k x) P)"
  by (cases r) (simp_all add: wp_def)

lemma wp_mono: "wp r P \<Longrightarrow> (\<And>x. P x \<Longrightarrow> Q x) \<Longrightarrow> wp r Q"
  by (auto simp: wp_def)

lemma wpD: "wp r P \<Longrightarrow> \<exists>x. r = Some x \<and> P x"
  by (simp add: wp_def)

section \<open>The ALU returns\<close>

lemma wp_flags_set:
  assumes "valid_width w" "k = kX86pFlagsShl \<or> k = kX86pFlagsShr \<or> k = kX86pFlagsSar \<Longrightarrow> b \<noteq> 0"
    and "\<And>f'. flags_ok f' \<Longrightarrow> P f'"
  shows "wp (x86p_flags_set f k a b r w) P"
proof -
  have "\<exists>f'. x86p_flags_set f k a b r w = Some f'" using assms(1,2) by (auto simp: x86p_flags_set_def)
  then show ?thesis using assms(3) flags_ok_set by (fastforce simp: wp_def)
qed

lemma wp_eflags: "flags_ok f \<Longrightarrow> (\<And>v. P v) \<Longrightarrow> wp (x86p_eflags f) P"
  using eflags_total [of f] by (auto simp: wp_def)

lemma wp_flag_of: "flags_ok f \<Longrightarrow> (\<And>v. P v) \<Longrightarrow> wp (x86p_flag_of f) P"
  using flag_of_total [of f] by (auto simp: wp_def)

lemma wp_cond: "flags_ok f \<Longrightarrow> (\<And>b. P b) \<Longrightarrow> wp (x86p_cond cc f) P"
  using flag_of_total [of f] by (cases cc) (auto simp: wp_def x86p_cond_def)

lemma wp_set_cf: "flags_ok f \<Longrightarrow> (\<And>f'. flags_ok f' \<Longrightarrow> P f') \<Longrightarrow> wp (set_cf_of_only f c ov) P"
  using eflags_total [of f] by (auto simp: wp_def set_cf_of_only_def)

lemma wp_shift: "valid_width w \<Longrightarrow> flags_ok f \<Longrightarrow> wp (alu_shift op a b w f) (\<lambda>(r, f'). flags_ok f')"
  unfolding alu_shift_def Let_def by (simp add: wp_flags_set del: One_nat_def)

lemma wp_rotate: "flags_ok f \<Longrightarrow> wp (alu_rotate op a b w f) (\<lambda>(r, f'). flags_ok f')"
  unfolding alu_rotate_def Let_def by (simp add: wp_set_cf)

lemma wp_rotate_carry: "flags_ok f \<Longrightarrow> wp (alu_rotate_carry op a b w f) (\<lambda>(r, f'). flags_ok f')"
  unfolding alu_rotate_carry_def Let_def by (simp add: wp_set_cf split: prod.split)


lemma wp_alu_ok:
  "valid_width w \<Longrightarrow> flags_ok f \<Longrightarrow> wp (x86p_alu op a b w f) (\<lambda>(r, f'). flags_ok f')"
  by (cases op; simp add: x86p_alu_def require_width_def alu_add_def alu_sub_def alu_logic_def alu_adc_def
    alu_sbb_def Let_def wp_shift wp_rotate wp_rotate_carry del: One_nat_def; (rule wp_flags_set; simp)?)

lemma wp_alu_unary_ok:
  "valid_width w \<Longrightarrow> flags_ok f \<Longrightarrow> wp (x86p_alu_unary op a w f) (\<lambda>(r, f'). flags_ok f')"
  by (cases op; simp add: x86p_alu_unary_def require_width_def Let_def del: One_nat_def; (rule wp_flags_set; simp)?)

lemma wp_mul_ok: "valid_width w \<Longrightarrow> flags_ok f \<Longrightarrow> wp (x86p_alu_mul a b w f) (\<lambda>(lo, hi, f'). flags_ok f')"
  by (simp add: x86p_alu_mul_def require_width_def Let_def mul_flags_def wp_set_cf)

lemma wp_imul_ok: "valid_width w \<Longrightarrow> flags_ok f \<Longrightarrow> wp (x86p_alu_imul a b w f) (\<lambda>(lo, hi, f'). flags_ok f')"
  by (simp add: x86p_alu_imul_def require_width_def Let_def mul_flags_def wp_set_cf)

lemma wp_div: "valid_width w \<Longrightarrow> (\<And>r. P r) \<Longrightarrow> wp (x86p_alu_div hi lo d w) P"
  by (simp add: x86p_alu_div_def require_width_def Let_def)

lemma wp_idiv: "valid_width w \<Longrightarrow> (\<And>r. P r) \<Longrightarrow> wp (x86p_alu_idiv hi lo d w) P"
  by (simp add: x86p_alu_idiv_def require_width_def Let_def)

lemma wp_reg_read: "valid_width w \<Longrightarrow> (\<And>v. P v) \<Longrightarrow> wp (x86p_reg_read cpu r w) P"
  using reg_read_total [of w cpu r] by (auto simp: wp_def)

end
