(* ===== verification/X86_Exec_Invariant.thy ===== *)
theory X86_Exec_Invariant
  imports X86_Exec_Wp X86_Memory_Properties
begin

text \<open>
  What every elementary effect of the machine keeps, the whole interpreter keeps: the contract
  \<open>machine_invariant\<close> and the proof for the execution switch of \<open>src/src/x86port/exec.c\<close>, with
  the stack and string instructions it calls.
\<close>

section \<open>Well-formed instructions\<close>

text \<open>
  What the decoder promises: registers by valid numbers and at integer widths, and an integer
  width for the first operand of the instructions that compute at that width.
\<close>

definition operand_ok :: "operand \<Rightarrow> bool" where
  "operand_ok opd \<longleftrightarrow>
     (o_kind opd = kX86pOperandReg \<longrightarrow> o_reg opd < 8 \<and> valid_width (o_size opd)) \<and>
     (o_kind opd = kX86pOperandSeg \<longrightarrow> o_reg opd < 6) \<and>
     (\<forall>r. o_base opd = Some r \<or> o_index opd = Some r \<longrightarrow> r < 8)"

definition computes_at_width :: "insn_op \<Rightarrow> bool" where
  "computes_at_width op \<longleftrightarrow>
     (case op of
        Data d \<Rightarrow> d = kX86pInsnAlu \<or> d = kX86pInsnAluUnary
      | Wide d \<Rightarrow> d \<in> {kX86pInsnMul, kX86pInsnImul, kX86pInsnDiv, kX86pInsnIdiv, kX86pInsnXadd, kX86pInsnCmpxchg}
      | System d \<Rightarrow> d = kX86pInsnBound \<or> d = kX86pInsnLfp
      | _ \<Rightarrow> False)"

definition insn_ok :: "insn \<Rightarrow> bool" where
  "insn_ok i \<longleftrightarrow> length (i_operand i) = 3 \<and> (\<forall>opd \<in> set (i_operand i). operand_ok opd) \<and>
     (computes_at_width (i_op i) \<longrightarrow> valid_width (o_size (i_operand i ! 0)))"

lemma insn_operand_ok: "insn_ok i \<Longrightarrow> k < 3 \<Longrightarrow> operand_ok (i_operand i ! k)"
  by (simp add: insn_ok_def)

lemma operand_ok_disp [simp]:
  "operand_ok (opd\<lparr>o_disp := d\<rparr>) = operand_ok opd"
  by (simp add: operand_ok_def)

lemma operand_ok_size: "operand_ok opd \<Longrightarrow> valid_width w \<Longrightarrow> operand_ok (opd\<lparr>o_size := w\<rparr>)"
  by (simp add: operand_ok_def)

section \<open>The repeat counter\<close>

abbreviation count_down :: "cpu \<Rightarrow> cpu" where
  "count_down cpu \<equiv> set_reg kX86pEcx (reg cpu kX86pEcx - 1) cpu"

lemma string_access_ecx:
  "string_access m op w cpu s = Some (Inr (cpu', s')) \<Longrightarrow> valid_width w \<Longrightarrow>
   reg cpu' kX86pEcx = reg cpu kX86pEcx \<and> length (c_reg cpu') = length (c_reg cpu)"
  by (cases op) (auto simp: string_access_def Let_def x86p_reg_write_def x86p_byte_reg_def reg_defs
    split: option.splits bind_splits prod.splits)

lemma step_once_ecx:
  "step_once m op w d cpu s = Some (Inr (cpu', s')) \<Longrightarrow> valid_width w \<Longrightarrow>
   reg cpu' kX86pEcx = reg cpu kX86pEcx \<and> length (c_reg cpu') = length (c_reg cpu)"
  by (auto simp: step_once_def Let_def reg_defs split: bind_splits sum.splits if_splits dest!: string_access_ecx)

lemma count_down_turns: "length (c_reg cpu) = 8 \<Longrightarrow> reg cpu kX86pEcx \<noteq> 0 \<Longrightarrow>
    unat (reg (count_down cpu) kX86pEcx) = unat (reg cpu kX86pEcx) - 1"
  by (simp add: reg_defs unat_minus_one)

section \<open>The contract\<close>

locale machine_invariant =
  fixes m :: mem and I :: "cpu \<Rightarrow> host \<Rightarrow> bool"
  assumes inv_flags_ok: "I cpu s \<Longrightarrow> flags_ok (c_flags cpu)"
    and inv_length: "I cpu s \<Longrightarrow> length (c_reg cpu) = 8"
    and inv_reg: "I cpu s \<Longrightarrow> length rs = length (c_reg cpu) \<Longrightarrow> I (cpu\<lparr>c_reg := rs\<rparr>) s"
    and inv_flags: "I cpu s \<Longrightarrow> flags_ok f \<Longrightarrow> I (cpu\<lparr>c_flags := f\<rparr>) s"
    and inv_df: "I cpu s \<Longrightarrow> I (cpu\<lparr>c_df := d\<rparr>) s"
    and inv_seg: "I cpu s \<Longrightarrow> I (cpu\<lparr>c_seg := (c_seg cpu)[k := sel]\<rparr>) s"
    and inv_trap: "I cpu s \<Longrightarrow> I (cpu\<lparr>c_trap_vector := t\<rparr>) s"
    and inv_tsc: "I cpu s \<Longrightarrow> I (cpu\<lparr>c_tsc := n\<rparr>) s"
    and inv_write: "I cpu s \<Longrightarrow> length bs = unat len \<Longrightarrow> x86p_mem_write_bytes m s a bs len = Some s' \<Longrightarrow> I cpu s'"
begin

lemmas inv_simps [simp] = inv_reg inv_flags inv_df inv_seg inv_trap inv_tsc

abbreviation J :: "ctx \<Rightarrow> bool" where
  "J c \<equiv> I (cx_cpu c) (cx_host c)"

lemma J_fault: "J (c\<lparr>cx_fault := st\<rparr>) = J c" "J (c\<lparr>cx_fault_addr := a\<rparr>) = J c" "J (c\<lparr>cx_next_eip := e\<rparr>) = J c"
  by simp_all

lemma wp_reg_write:
  "valid_width w \<Longrightarrow> (\<And>cpu'. \<forall>s. I cpu s \<longrightarrow> I cpu' s \<Longrightarrow> P cpu') \<Longrightarrow> wp (x86p_reg_write cpu r w v) P"
  by (auto simp: x86p_reg_write_def x86p_byte_reg_def inv_reg)

lemma mem_write_inv:
  assumes "I cpu s" "x86p_mem_write m s a w v = Some s'"
  shows "I cpu s'"
proof -
  have "valid_width w" "x86p_mem_write_bytes m s a (split_bytes w v) (of_nat w) = Some s'"
    using assms(2) by (auto simp: x86p_mem_write_def split: if_splits)
  then show ?thesis using inv_write [OF assms(1)] width_word [of w] by (metis length_split_bytes)
qed

lemma wp_effective_address: "(\<And>a. P a) \<Longrightarrow> wp (effective_address cpu opd) P"
  unfolding effective_address_def Let_def by (auto intro!: wp_reg_read split: option.split)

lemma wp_read_operand:
  "operand_ok opd \<Longrightarrow> J c \<Longrightarrow> (\<And>v c'. J c' \<Longrightarrow> P (v, c')) \<Longrightarrow> wp (read_operand m opd c) P"
  unfolding read_operand_def
  by (auto simp: operand_ok_def J_fault intro!: wp_reg_read wp_effective_address split: operand_kind.split option.split)

lemma wp_write_operand:
  "operand_ok opd \<Longrightarrow> J c \<Longrightarrow> (\<And>c'. J c' \<Longrightarrow> P c') \<Longrightarrow> wp (write_operand m opd v c) P"
  unfolding write_operand_def
  by (auto simp: operand_ok_def J_fault intro!: wp_reg_write wp_effective_address inv_seg
    split: operand_kind.split option.split dest: mem_write_inv)

lemma wp_alu:
  "valid_width w \<Longrightarrow> flags_ok f \<Longrightarrow> (\<And>r f'. flags_ok f' \<Longrightarrow> P (r, f')) \<Longrightarrow> wp (x86p_alu op a b w f) P"
  by (rule wp_mono [OF wp_alu_ok]) auto

lemma wp_mul: "valid_width w \<Longrightarrow> flags_ok f \<Longrightarrow> (\<And>lo hi f'. flags_ok f' \<Longrightarrow> P (lo, hi, f')) \<Longrightarrow> wp (x86p_alu_mul a b w f) P"
  by (rule wp_mono [OF wp_mul_ok]) auto

lemma wp_imul: "valid_width w \<Longrightarrow> flags_ok f \<Longrightarrow> (\<And>lo hi f'. flags_ok f' \<Longrightarrow> P (lo, hi, f')) \<Longrightarrow> wp (x86p_alu_imul a b w f) P"
  by (rule wp_mono [OF wp_imul_ok]) auto

lemma wp_alu_unary:
  "valid_width w \<Longrightarrow> flags_ok f \<Longrightarrow> (\<And>r f'. flags_ok f' \<Longrightarrow> P (r, f')) \<Longrightarrow> wp (x86p_alu_unary op a w f) P"
  by (rule wp_mono [OF wp_alu_unary_ok]) auto

lemmas wp_rules = wp_alu wp_alu_unary wp_mul wp_imul wp_div wp_idiv wp_eflags wp_flag_of wp_cond wp_reg_read
  wp_reg_write wp_effective_address wp_read_operand wp_write_operand

lemma J_flags_ok: "J c \<Longrightarrow> flags_ok (c_flags (cx_cpu c))"
  by (rule inv_flags_ok)

section \<open>Data instructions\<close>

lemma inv_data:
  assumes "J c" "insn_ok i" "i_op i = Data op"
  shows "wp (execute_data m i op c) J"
proof -
  note o = insn_operand_ok [OF assms(2)]
  have w: "op = kX86pInsnAlu \<or> op = kX86pInsnAluUnary \<Longrightarrow> valid_width (o_size (i_operand i ! 0))"
    using assms(2,3) by (auto simp: insn_ok_def computes_at_width_def)
  show ?thesis using assms(1) o w
    by (cases op) (auto simp: execute_data_def exec_alu_def exec_alu_unary_def exec_mov_def exec_movx_def exec_lea_def
      exec_xchg_def exec_setcc_def exec_cmovcc_def exec_cdq_def exec_cwde_def exec_bswap_def Let_def J_flags_ok
      intro!: wp_rules simp del: One_nat_def)
qed

section \<open>Wide arithmetic, atomics and bits\<close>

lemma wp_mul_store:
  "valid_width w \<Longrightarrow> (\<And>cpu'. \<forall>s. I cpu s \<longrightarrow> I cpu' s \<Longrightarrow> P cpu') \<Longrightarrow> wp (mul_result_store w lo hi cpu) P"
  "valid_width w \<Longrightarrow> (\<And>cpu'. \<forall>s. I cpu s \<longrightarrow> I cpu' s \<Longrightarrow> P cpu') \<Longrightarrow> wp (div_result_store w lo hi cpu) P"
  by (auto simp: mul_result_store_def div_result_store_def intro!: wp_reg_write simp del: One_nat_def)

lemma wp_div_operands: "valid_width w \<Longrightarrow> (\<And>hi lo. P (hi, lo)) \<Longrightarrow> wp (div_operands w cpu) P"
  by (auto simp: div_operands_def intro!: wp_reg_read simp del: One_nat_def)

lemma inv_mul:
  assumes "J c" "insn_ok i" "valid_width (o_size (i_operand i ! 0))"
  shows "wp (execute_mul m i signed_mul c) J"
  using assms(1,3) insn_operand_ok [OF assms(2)]
  by (auto simp: execute_mul_def Let_def J_flags_ok intro!: wp_rules wp_mul_store simp del: One_nat_def)

lemma inv_div:
  assumes "J c" "insn_ok i" "valid_width (o_size (i_operand i ! 0))"
  shows "wp (execute_div m i signed_div c) J"
  using assms(1,3) insn_operand_ok [OF assms(2)]
  by (auto simp: execute_div_def Let_def intro!: wp_rules wp_mul_store wp_div_operands split: option.split simp del: One_nat_def)

lemma inv_exchange:
  assumes "J c" "insn_ok i" "valid_width (o_size (i_operand i ! 0))"
  shows "wp (execute_xadd m i c) J" "wp (execute_cmpxchg m i c) J"
  using assms(1,3) insn_operand_ok [OF assms(2)]
  by (auto simp: execute_xadd_def execute_cmpxchg_def Let_def J_flags_ok intro!: wp_rules simp del: One_nat_def)

lemma inv_cmpxchg8b:
  assumes "J c"
  shows "wp (execute_cmpxchg8b m i c) J"
proof -
  have l: "length (quad_bytes q) = unat (8 :: u32)" for q by (simp add: quad_bytes_def)
  show ?thesis using assms
    by (auto simp: execute_cmpxchg8b_def x86p_cpu_cmpxchg8b_def Let_def J_flags_ok split: option.split prod.split
      intro!: wp_effective_address wp_eflags dest: inv_write [OF _ l, rotated])
qed

lemma inv_bits:
  assumes "J c" "insn_ok i"
  shows "wp (execute_bit m i c) J" "wp (execute_double_shift m i left c) J"
    "wp (execute_bcd i c) J"
  using assms(1) insn_operand_ok [OF assms(2)]
  by (auto simp: execute_bit_def execute_double_shift_def execute_bcd_def Let_def J_flags_ok
    intro!: wp_rules split: option.split prod.split simp del: One_nat_def)

lemma inv_bit_scan:
  assumes "J c" "insn_ok i"
  shows "wp (execute_bit_scan m i reverse c) J"
proof -
  note o = insn_operand_ok [OF assms(2)]
  have w: "o_kind (i_operand i ! 0) = kX86pOperandReg \<Longrightarrow> valid_width (o_size (i_operand i ! 0))"
    using o [of 0] by (simp add: operand_ok_def)
  show ?thesis unfolding execute_bit_scan_def x86p_cpu_bit_scan_def Let_def using assms(1) o w
    by (auto simp: J_flags_ok intro!: wp_rules split: prod.split simp del: One_nat_def)
qed

lemma inv_wide:
  assumes "J c" "insn_ok i" "i_op i = Wide op"
  shows "wp (execute_wide m i op c) J"
proof -
  have w: "op \<in> {kX86pInsnMul, kX86pInsnImul, kX86pInsnDiv, kX86pInsnIdiv, kX86pInsnXadd, kX86pInsnCmpxchg} \<Longrightarrow>
      valid_width (o_size (i_operand i ! 0))"
    using assms(2,3) by (auto simp: insn_ok_def computes_at_width_def)
  show ?thesis using w assms(1,2)
    by (cases op) (simp_all add: execute_wide_def inv_mul inv_div inv_exchange inv_cmpxchg8b inv_bits inv_bit_scan)
qed

section \<open>Control flow\<close>

lemma push32_inv: "I cpu s \<Longrightarrow> x86p_push32 m cpu s v = Some (cpu', s') \<Longrightarrow> I cpu' s'"
  by (auto simp: x86p_push32_def Let_def split: option.splits dest: mem_write_inv)

lemma pop32_inv: "I cpu s \<Longrightarrow> x86p_pop32 m cpu s = Some (v, cpu') \<Longrightarrow> I cpu' s"
  by (auto simp: x86p_pop32_def split: option.splits)

lemma push_or_fault_inv [simp]: "J c \<Longrightarrow> J (push_or_fault m v c)"
  by (auto simp: push_or_fault_def split: option.split prod.split dest: push32_inv)

lemma pop_or_fault_inv: "J c \<Longrightarrow> pop_or_fault m c = (r, c') \<Longrightarrow> J c'"
  by (auto simp: pop_or_fault_def split: option.splits prod.splits dest: pop32_inv)

lemma wp_branch_target:
  "operand_ok opd \<Longrightarrow> J c \<Longrightarrow> (\<And>v c'. J c' \<Longrightarrow> P (v, c')) \<Longrightarrow> wp (branch_target m opd c) P"
  unfolding branch_target_def by (simp add: wp_read_operand)

lemma wp_far_target:
  "J c \<Longrightarrow> (\<And>v c'. J c' \<Longrightarrow> P (v, c')) \<Longrightarrow> wp (far_target m opd c) P"
  unfolding far_target_def Let_def by (auto intro!: wp_effective_address split: option.split)

lemma inv_release [simp]: "J c \<Longrightarrow> J (release_arguments i c)"
  by (simp add: release_arguments_def Let_def)

lemma inv_set_eflags [simp]: "I cpu s \<Longrightarrow> I (x86p_cpu_set_eflags cpu v) s"
  by (simp add: x86p_cpu_set_eflags_def)

lemma inv_flow:
  assumes "J c" "insn_ok i"
  shows "wp (execute_flow m i op c) J"
proof -
  note o = insn_operand_ok [OF assms(2), of 0, simplified]
  have pops: "wp (exec_ret m i c) J" "wp (exec_retf m i c) J" "wp (exec_iretd m c) J"
    using assms(1) unfolding exec_ret_def exec_retf_def exec_iretd_def
    by (auto split: prod.split option.split dest!: pop_or_fault_inv [rotated])
  have calls: "wp (exec_call m i c) J" "wp (exec_call_far m i c) J" "wp (exec_jmp_far m i c) J"
    using assms(1) o unfolding exec_call_def exec_call_far_def exec_jmp_far_def Let_def
    by (auto split: prod.split option.split intro!: wp_branch_target wp_far_target)
  have jumps: "wp (go_to (branch_target m (i_operand i ! 0) c')) J" if "J c'" for c'
    using that o unfolding go_to_def by (auto intro!: wp_branch_target)
  have "wp (exec_jcc m i c) J"
    using assms(1) o unfolding exec_jcc_def by (auto simp: J_flags_ok intro!: wp_branch_target wp_cond)
  moreover have "wp (exec_loop m i k c) J" for k
    using assms(1) jumps unfolding exec_loop_def x86p_cpu_loop_def Let_def by simp
  moreover have "wp (exec_jecxz m i c) J" using assms(1) jumps unfolding exec_jecxz_def by simp
  ultimately show ?thesis using pops calls jumps [OF assms(1)] by (cases op) (simp_all add: execute_flow_def)
qed

section \<open>Stack instructions\<close>

abbreviation stack_inv :: "stack_result \<Rightarrow> bool" where
  "stack_inv r \<equiv> I (fst (snd r)) (snd (snd r))"

lemma push_inv: "I cpu s \<Longrightarrow> stack_inv (push m cpu s v)"
  by (auto simp: push_def split: option.split dest: push32_inv)

lemma pushad_inv: "I cpu s \<Longrightarrow> stack_inv (pushad_loop m order e cpu s)"
proof (induction order arbitrary: cpu s)
  case (Cons r order)
  then show ?case using push_inv [OF Cons.prems, of "if r = kX86pEsp then e else reg cpu r"]
    by (auto simp: Let_def split: prod.split option.split)
qed simp

lemma popad_inv: "I cpu s \<Longrightarrow> stack_inv (popad_loop m order cpu s)"
  by (induction order arbitrary: cpu) (auto split: prod.split option.split dest: pop32_inv)

lemma enter_loop_inv: "I cpu s \<Longrightarrow> stack_inv (enter_loop m n cpu s)"
proof (induction n arbitrary: cpu s)
  case (Suc n)
  let ?cpu = "set_reg kX86pEbp (reg cpu kX86pEbp - 4) cpu"
  have "stack_inv (push m ?cpu s v)" for v using push_inv Suc.prems by simp
  then show ?case using Suc by (auto simp: Let_def split: prod.split option.split) (metis fst_conv snd_conv)+
qed simp

lemma enter_inv:
  assumes "I cpu s"
  shows "stack_inv (x86p_stack_enter m cpu s a l)"
proof -
  have p: "I c' s'" if "push m c s v = (r, c', s')" "I c s" for c s v r c' s'
    using push_inv [OF that(2), of v] that(1) by simp
  have e: "I c' s'" if "enter_loop m n c s = (r, c', s')" "I c s" for n c s r c' s'
    using enter_loop_inv [OF that(2), of n] that(1) by simp
  show ?thesis using assms unfolding x86p_stack_enter_def Let_def
    by (auto split: prod.splits option.splits if_splits dest!: p e)
qed

lemma inv_stack:
  assumes "J c" "insn_ok i"
  shows "wp (execute_stack m i op c) J"
proof -
  note o = insn_operand_ok [OF assms(2), of 0, simplified]
  have so: "J (stack_outcome r c)" if "stack_inv r" for r
    using that by (auto simp: stack_outcome_def split: prod.split option.split)
  have pops: "wp (exec_pop m i c) J" "wp (exec_popfd m c) J"
    using assms(1) o unfolding exec_pop_def exec_popfd_def
    by (auto split: prod.split option.split intro!: wp_write_operand dest: pop_or_fault_inv [rotated])
  have "J (on_cpu (\<lambda>cpu. set_reg kX86pEsp (reg cpu kX86pEbp) cpu) c)" using assms(1) by simp
  note l = pop_or_fault_inv [OF this]
  have "wp (exec_leave m c) J"
    unfolding exec_leave_def by (auto split: prod.split option.split dest: l)
  moreover have "wp (exec_push m i c) J" "wp (exec_pushfd m c) J"
    using assms(1) o unfolding exec_push_def exec_pushfd_def x86p_cpu_eflags_def Let_def
    by (auto simp: J_flags_ok intro!: wp_read_operand wp_eflags)
  ultimately show ?thesis using pops so pushad_inv popad_inv enter_inv assms(1)
    by (cases op) (simp_all add: execute_stack_def x86p_stack_pushad_def x86p_stack_popad_def)
qed

section \<open>Flags and system instructions\<close>

lemma wp_change_eflags: "J c \<Longrightarrow> (\<And>c'. J c' \<Longrightarrow> P c') \<Longrightarrow> wp (change_eflags g c) P"
  unfolding change_eflags_def by (auto simp: J_flags_ok intro!: wp_eflags)

lemma inv_flag:
  assumes "J c"
  shows "wp (execute_flag op c) J"
  using assms
  by (cases op) (auto simp: execute_flag_def x86p_cpu_sahf_def x86p_cpu_lahf_def x86p_cpu_cpuid_def x86p_cpu_rdtsc_def
    Let_def J_flags_ok intro!: wp_change_eflags wp_rules simp del: One_nat_def)

lemma inv_system:
  assumes "J c" "insn_ok i" "i_op i = System op"
  shows "wp (execute_system m i op c) J"
proof -
  note o = insn_operand_ok [OF assms(2)]
  have w: "op = kX86pInsnBound \<or> op = kX86pInsnLfp \<Longrightarrow> valid_width (o_size (i_operand i ! 0))"
    using assms(2,3) by (auto simp: insn_ok_def computes_at_width_def)
  have v: "valid_width 2" by simp
  show ?thesis using assms(1) o w v
    by (cases op) (auto simp: execute_system_def exec_interrupt_def raise_interrupt_def exec_privileged_def execute_bound_def
      execute_lfp_def exec_arpl_def Let_def J_flags_ok operand_ok_size intro!: wp_change_eflags wp_rules
      simp del: One_nat_def)
qed

section \<open>String instructions\<close>

lemma wp_string_access:
  "valid_width w \<Longrightarrow> I cpu s \<Longrightarrow>
   wp (string_access m op w cpu s) (\<lambda>r. case r of Inl _ \<Rightarrow> True | Inr (cpu', s') \<Rightarrow> I cpu' s')"
  by (cases op) (auto simp: string_access_def Let_def inv_flags_ok intro!: wp_reg_read wp_reg_write wp_alu
    split: option.split dest: mem_write_inv simp del: One_nat_def)

lemma wp_step_once:
  assumes "valid_width w" "I cpu s"
  shows "wp (step_once m op w d cpu s) (\<lambda>r. case r of Inl _ \<Rightarrow> True | Inr (cpu', s') \<Rightarrow> I cpu' s')"
  unfolding step_once_def Let_def
  by (auto intro!: wp_mono [OF wp_string_access [OF assms]] split: sum.splits)

lemma wp_rep_loop:
  "valid_width w \<Longrightarrow> I cpu s \<Longrightarrow> unat (reg cpu kX86pEcx) \<le> n \<Longrightarrow>
   wp (rep_loop n m op rep w d cpu s) (\<lambda>(st, cpu', s'). I cpu' s')"
proof (induction n arbitrary: cpu s)
  case 0
  then show ?case by (subst rep_loop.simps) (simp add: unat_eq_0)
next
  case (Suc n)
  have turn: "wp (rep_loop n m op rep w d (count_down cpu') s') (\<lambda>(st, cpu', s'). I cpu' s')"
    if "step_once m op w d cpu s = Some (Inr (cpu', s'))" "I cpu' s'" "reg cpu kX86pEcx \<noteq> 0" for cpu' s'
  proof (rule Suc.IH)
    show "I (count_down cpu') s'" using that(2) by simp
    have "reg cpu' kX86pEcx = reg cpu kX86pEcx" using step_once_ecx [OF that(1) Suc.prems(1)] by simp
    then show "unat (reg (count_down cpu') kX86pEcx) \<le> n"
      using count_down_turns [OF inv_length [OF that(2)]] that(3) Suc.prems(3) by simp
  qed (rule Suc.prems)
  obtain r where r: "step_once m op w d cpu s = Some r" "case r of Inl _ \<Rightarrow> True | Inr (cpu', s') \<Rightarrow> I cpu' s'"
    using wpD [OF wp_step_once [OF Suc.prems(1,2)]] by blast
  show ?case using turn r Suc.prems(2) by (subst rep_loop.simps) (auto simp: Let_def split: sum.split)
qed

section \<open>The switch\<close>

text \<open>What an engine beside the interpreter has to keep, for the instructions it gets.\<close>

definition keeps :: "(cpu \<Rightarrow> host \<Rightarrow> engine_status \<times> cpu \<times> host) \<Rightarrow> bool" where
  "keeps g \<longleftrightarrow> (\<forall>cpu s. I cpu s \<longrightarrow> I (fst (snd (g cpu s))) (snd (snd (g cpu s))))"

lemma engine_outcome_inv:
  assumes "J c" "keeps g"
  shows "J (engine_outcome (g (cx_cpu c) (cx_host c)) c)"
  using assms by (cases "g (cx_cpu c) (cx_host c)") (fastforce simp: engine_outcome_def Let_def keeps_def split: engine_status.split)

text \<open>Every instruction but the string instructions, whose bulk paths need more of the property.\<close>

lemma execute_inv:
  assumes "J c" "insn_ok i" "i_op i \<noteq> kX86pInsnString"
    and x87: "\<And>addr. i_op i = kX86pInsnX87 \<Longrightarrow> keeps (en_x87 en m i addr)"
    and simd: "i_op i = kX86pInsnSimd \<Longrightarrow> keeps (en_simd en m i)"
  shows "wp (execute en m i c) J"
proof (cases "i_op i")
  case kX86pInsnX87
  then show ?thesis using engine_outcome_inv [OF assms(1) x87]
    by (auto simp: execute_def exec_x87_def intro!: wp_effective_address split: option.split)
next
  case kX86pInsnSimd
  then show ?thesis using engine_outcome_inv [OF assms(1) simd] by (simp add: execute_def exec_simd_def)
qed (use assms inv_data inv_wide inv_flow inv_stack inv_flag inv_system in \<open>simp_all add: execute_def\<close>)

declare inv_simps [simp del] push_or_fault_inv [simp del] inv_release [simp del] inv_set_eflags [simp del]

end

section \<open>The contract with the bulk moves\<close>

locale bulk_invariant = machine_invariant m I for m :: mem and I :: "cpu \<Rightarrow> host \<Rightarrow> bool" +
  assumes inv_copy: "I cpu s \<Longrightarrow> x86p_mem_copy_disjoint m s a b len = Some s' \<Longrightarrow> I cpu s'"
    and inv_fill: "I cpu s \<Longrightarrow> length bs = w \<Longrightarrow> x86p_mem_fill m s a bs w count = Some s' \<Longrightarrow> I cpu s'"
begin

declare inv_simps [simp]

lemma bulk_inv:
  "I cpu s \<Longrightarrow> bulk_movs m w cpu s = Some (cpu', s') \<Longrightarrow> I cpu' s'"
  "I cpu s \<Longrightarrow> bulk_stos m w v cpu s = Some (cpu', s') \<Longrightarrow> I cpu' s'"
  by (auto simp: bulk_movs_def bulk_stos_def Let_def split: option.splits if_splits dest: inv_copy inv_fill [rotated 2])

lemma inv_string:
  assumes "J c"
  shows "wp (exec_string m i c) J"
proof -
  let ?w = "i_str_width i"
  have so: "J (string_outcome (st, cpu, s) c)" if "I cpu s" for st cpu s
    using that by (simp add: string_outcome_def Let_def split: string_status.split)
  have "wp (x86p_string_execute m i (cx_cpu c) (cx_host c)) (\<lambda>(st, cpu, s). I cpu s)"
  proof (cases "x86p_string_is_supported (i_str i) (i_rep i) ?w")
    case True
    then have w: "valid_width ?w" by (simp add: x86p_string_is_supported_def)
    note once = wp_mono [OF wp_step_once [OF w assms]]
    note loop = wp_rep_loop [OF w assms order_refl]
    show ?thesis using True w assms unfolding x86p_string_execute_def Let_def
      by (auto intro!: once loop wp_reg_read split: sum.splits option.split prod.splits dest: bulk_inv simp del: One_nat_def)
  qed (use assms in \<open>simp add: x86p_string_execute_def Let_def\<close>)
  then show ?thesis unfolding exec_string_def by (auto intro!: so elim: wp_mono)
qed

lemma execute_all_inv:
  assumes "J c" "insn_ok i"
    and "\<And>addr. i_op i = kX86pInsnX87 \<Longrightarrow> keeps (en_x87 en m i addr)"
    and "i_op i = kX86pInsnSimd \<Longrightarrow> keeps (en_simd en m i)"
  shows "wp (execute en m i c) J"
  using execute_inv [OF assms(1,2) _ assms(3,4)] inv_string [OF assms(1)]
  by (cases "i_op i = kX86pInsnString") (simp_all add: execute_def)

declare inv_simps [simp del]

end

end
