(* ===== verification/X86_Exec_Properties.thy ===== *)
theory X86_Exec_Properties
  imports X86_Exec_Invariant
begin

text \<open>
  Properties of whole interpreter steps, obtained by interpreting the contracts of
  \<open>X86_Exec_Invariant\<close> on the model: the shape of the machine, confinement of stores to mapped
  guest memory, the observer's view of every store, and the frame of the integer instructions.
\<close>

section \<open>From the switch to the step\<close>

definition decoder_ok :: "engines \<Rightarrow> bool" where
  "decoder_ok en \<longleftrightarrow> (\<forall>bytes i. en_decode en bytes = Some i \<longrightarrow> insn_ok i)"

text \<open>Stores confined to bytes the mapping grants, and stores the write observer was told of.\<close>

definition confined :: "mem \<Rightarrow> u32 set \<Rightarrow> host \<Rightarrow> host \<Rightarrow> bool" where
  "confined m A s0 s \<longleftrightarrow>
     (\<forall>h. hs_bytes s h \<noteq> hs_bytes s0 h \<longrightarrow> (\<exists>a. \<exists>k \<in> A. mem_grants m k a \<and> host_of m a = h))"

definition announced :: "mem \<Rightarrow> host \<Rightarrow> host \<Rightarrow> bool" where
  "announced m s0 s \<longleftrightarrow> hs_observed s \<and>
     (\<exists>new. hs_log s = hs_log s0 @ new \<and>
       (\<forall>h. hs_bytes s h \<noteq> hs_bytes s0 h \<longrightarrow> (\<exists>(a, n) \<in> set new. \<exists>i < unat n. host_of m (at a i) = h)))"

text \<open>What the floating-point and vector engines promise the interpreter.\<close>

definition engine_sound :: "mem \<Rightarrow> (cpu \<Rightarrow> host \<Rightarrow> engine_status \<times> cpu \<times> host) \<Rightarrow> bool" where
  "engine_sound m g \<longleftrightarrow>
     (\<forall>cpu s. cpu_ok cpu \<longrightarrow> (let cpu' = fst (snd (g cpu s)); s' = snd (snd (g cpu s)) in
        cpu_ok cpu' \<and> c_eip cpu' = c_eip cpu \<and> confined m {kX86pMemWrite} s s' \<and> (hs_observed s \<longrightarrow> announced m s s')))"

definition engines_sound :: "engines \<Rightarrow> mem \<Rightarrow> bool" where
  "engines_sound en m \<longleftrightarrow>
     (\<forall>i. engine_sound m (en_simd en m i) \<and> (\<forall>addr. engine_sound m (en_x87 en m i addr)))"

lemma confined_refl [simp]: "confined m A s s"
  by (simp add: confined_def)

lemma confined_trans: "confined m A s s' \<Longrightarrow> confined m B s' s'' \<Longrightarrow> B \<subseteq> A \<Longrightarrow> confined m A s s''"
  unfolding confined_def by (metis subsetD)

lemma announced_refl: "hs_observed s \<Longrightarrow> announced m s s"
  by (simp add: announced_def)

lemma announced_observed: "announced m s0 s \<Longrightarrow> hs_observed s"
  by (simp add: announced_def)

lemma announced_trans:
  assumes "announced m s s'" "announced m s' s''"
  shows "announced m s s''"
proof -
  obtain n1 n2 where n: "hs_log s' = hs_log s @ n1" "hs_log s'' = hs_log s' @ n2"
    and c: "\<And>h. hs_bytes s' h \<noteq> hs_bytes s h \<Longrightarrow> \<exists>(a, n) \<in> set n1. \<exists>i < unat n. host_of m (at a i) = h"
      "\<And>h. hs_bytes s'' h \<noteq> hs_bytes s' h \<Longrightarrow> \<exists>(a, n) \<in> set n2. \<exists>i < unat n. host_of m (at a i) = h"
    using assms unfolding announced_def by blast
  have "\<exists>(a, n) \<in> set (n1 @ n2). \<exists>i < unat n. host_of m (at a i) = h" if "hs_bytes s'' h \<noteq> hs_bytes s h" for h
  proof (cases "hs_bytes s' h = hs_bytes s h")
    case True
    then show ?thesis using c(2) [of h] that unfolding set_append bex_Un by simp
  next
    case False
    then show ?thesis using c(1) [of h] unfolding set_append bex_Un by simp
  qed
  then show ?thesis using assms(2) n unfolding announced_def by auto
qed

lemma engineD:
  assumes "engine_sound m g" "cpu_ok cpu"
  shows "cpu_ok (fst (snd (g cpu s)))" "c_eip (fst (snd (g cpu s))) = c_eip cpu"
    "confined m {kX86pMemWrite} s (snd (snd (g cpu s)))" "hs_observed s \<Longrightarrow> announced m s (snd (snd (g cpu s)))"
  using assms by (simp_all add: engine_sound_def Let_def)

lemma engines_soundD:
  "engines_sound en m \<Longrightarrow> engine_sound m (en_x87 en m i addr)" "engines_sound en m \<Longrightarrow> engine_sound m (en_simd en m i)"
  by (simp_all add: engines_sound_def)

abbreviation start :: "insn \<Rightarrow> cpu \<Rightarrow> host \<Rightarrow> ctx" where
  "start i cpu s \<equiv> \<lparr>cx_cpu = cpu, cx_host = s, cx_next_eip = c_eip cpu + i_length i,
     cx_fault = kX86pStepOk, cx_fault_addr = 0\<rparr>"

lemma wp_decoded:
  assumes "i_op i \<noteq> kX86pInsnUnsupported \<Longrightarrow> wp (execute en m i (start i cpu s)) (\<lambda>c. I (cx_cpu c) (cx_host c))" "I cpu s"
  shows "wp (x86p_execute_decoded en m i cpu s) (\<lambda>(st, a, cpu', s').
    \<exists>cpu1. I cpu1 s' \<and> (if st = kX86pStepOk then \<exists>e. cpu' = cpu1\<lparr>c_eip := e\<rparr> else cpu' = cpu1))"
  using assms unfolding x86p_execute_decoded_def
  by (cases "i_op i = kX86pInsnUnsupported") (auto elim!: wp_mono intro!: exI [of _ "cx_cpu c" for c])

lemma wp_decoded_host:
  assumes "wp (execute en m i (start i cpu s)) (\<lambda>c. H (cx_host c))" "H s"
  shows "wp (x86p_execute_decoded en m i cpu s) (\<lambda>(st, a, cpu', s'). H s')"
  using assms unfolding x86p_execute_decoded_def
  by (cases "i_op i = kX86pInsnUnsupported") (auto elim!: wp_mono)

text \<open>What holds of every outcome of a decoded instruction holds of every outcome of a step.\<close>

lemma wp_step:
  assumes "\<And>i. insn_ok i \<Longrightarrow> wp (x86p_execute_decoded en m i cpu s) (\<lambda>(st, a, cpu', s'). Q (i_op i) st cpu' s')"
    and "decoder_ok en" "\<And>op st. st \<noteq> kX86pStepOk \<Longrightarrow> Q op st cpu s"
  shows "wp (x86p_step en m cpu s) (\<lambda>(st, rep, cpu', s'). Q (sr_op rep) st cpu' s' \<and> sr_status rep = st \<and> sr_eip rep = c_eip cpu)"
proof -
  have d: "wp (x86p_execute_decoded en m i cpu s) (\<lambda>(st, a, cpu', s'). Q (i_op i) st cpu' s')" if "en_decode en bs = Some i" for bs i
    using assms(1,2) that by (auto simp: decoder_ok_def)
  show ?thesis unfolding x86p_step_def Let_def
    by (auto simp: assms(3) split: option.split elim!: wp_mono dest!: d)
qed

section \<open>The shape of the machine\<close>

interpretation shape: bulk_invariant m "\<lambda>cpu s. cpu_ok cpu \<and> c_eip cpu = e" for m e
  by unfold_locales (simp_all add: cpu_ok_def)

lemma wp_step_shape:
  assumes "cpu_ok cpu" and "decoder_ok en" and "engines_sound en m"
  shows "wp (x86p_step en m cpu s) (\<lambda>(st, rep, cpu', s'). (cpu_ok cpu' \<and> (st \<noteq> kX86pStepOk \<longrightarrow> c_eip cpu' = c_eip cpu)) \<and>
    sr_status rep = st \<and> sr_eip rep = c_eip cpu)"
proof -
  let ?I = "\<lambda>c s. cpu_ok c \<and> c_eip c = c_eip cpu"
  let ?Q = "\<lambda>(op :: insn_op) st cpu' (s' :: host). cpu_ok cpu' \<and> (st \<noteq> kX86pStepOk \<longrightarrow> c_eip cpu' = c_eip cpu)"
  have "wp (x86p_execute_decoded en m i cpu s) (\<lambda>(st, a, cpu', s'). ?Q (i_op i) st cpu' s')" if "insn_ok i" for i
  proof -
    have "shape.keeps (c_eip cpu) g" if "engine_sound m g" for g
      using engineD [OF that] by (simp add: shape.keeps_def)
    then have "wp (execute en m i (start i cpu s)) (\<lambda>c. ?I (cx_cpu c) (cx_host c))"
      using shape.execute_all_inv [where e = "c_eip cpu" and c = "start i cpu s"] engines_soundD [OF assms(3)] assms(1) that
      by simp
    from wp_decoded [where I = ?I, OF this] assms(1) show ?thesis
      by (auto elim!: wp_mono split: if_splits)
  qed
  from wp_step [where Q = ?Q, OF this assms(2)] assms(1) show ?thesis by simp
qed


text \<open>
  C2. A step of a well-formed machine always returns, whatever bytes it fetches: it never
  reaches a diagnostic abort, keeps the machine well formed, reports the status it returns, and
  leaves EIP where it was unless it completed, so that a faulting instruction can be restarted.
\<close>

theorem step_total:
  assumes "cpu_ok cpu" and "decoder_ok en" and "engines_sound en m"
  shows "\<exists>st rep cpu' s'. x86p_step en m cpu s = Some (st, rep, cpu', s') \<and> cpu_ok cpu' \<and>
    sr_status rep = st \<and> sr_eip rep = c_eip cpu \<and> (st \<noteq> kX86pStepOk \<longrightarrow> c_eip cpu' = c_eip cpu)"
  using wp_step_shape [OF assms, of s] by (auto dest!: wpD)

definition inc_eax :: insn where
  "inc_eax =
     (let r = \<lparr>o_seg = kX86pSegDs, o_kind = kX86pOperandReg, o_size = 4, o_reg = 0, o_base = None, o_index = None,
            o_scale = 0, o_disp = 0, o_imm = 0, o_selector = 0, o_addr16 = False, o_index_low_byte = False,
            o_relative = False\<rparr>; z = r\<lparr>o_kind := kX86pOperandNone, o_size := 0\<rparr> in
      \<lparr>i_length = 1, i_mnemonic = ''INC'', i_operands = 1, i_op = Data kX86pInsnAluUnary, i_alu = kX86pAluAdd,
       i_alu_un = kX86pAluInc, i_cond = kX86pCondO, i_str = kX86pStringMovs, i_rep = kX86pRepNone,
       i_address_width = 32, i_str_width = 0, i_bcd = kX86pBcdDaa, i_bit = kX86pBitTest, i_seg_dest = kX86pSegDs,
       i_operand = [r, z, z]\<rparr>)"

text \<open>A decoder of one opcode beside engines that refuse everything.\<close>

definition demo :: engines where
  "demo = \<lparr>en_x87 = \<lambda>m i a cpu s. (EngineUnsupported, cpu, s), en_simd = \<lambda>m i cpu s. (EngineUnsupported, cpu, s),
     en_decode = \<lambda>bs. if bs \<noteq> [] \<and> hd bs = 0x40 then Some inc_eax else None\<rparr>"

lemma demo_ok: "decoder_ok demo" "engines_sound demo m"
  by (auto simp: decoder_ok_def demo_def insn_ok_def inc_eax_def operand_ok_def engines_sound_def engine_sound_def
    announced_refl Let_def)

definition code_host :: host where
  "code_host = \<lparr>hs_bytes = \<lambda>h. 0x40, hs_observed = True, hs_log = []\<rparr>"

abbreviation boot :: cpu where
  "boot \<equiv> x86p_cpu_reset\<lparr>c_eip := 0x10000\<rparr>"

lemma boot_ok: "cpu_ok boot"
  by (simp add: cpu_ok_reset)

lemma demo_steps: "\<exists>st rep cpu' s'. x86p_step demo window boot code_host = Some (st, rep, cpu', s')"
  using wp_step_shape [OF boot_ok demo_ok, of window code_host] by (auto dest!: wpD)

theorem step_total_witness:
  "\<exists>st rep cpu' s'. x86p_step demo window boot code_host = Some (st, rep, cpu', s') \<and> cpu_ok cpu' \<and> sr_eip rep = 0x10000"
  using step_total [OF boot_ok demo_ok, of window code_host] by (auto simp: x86p_cpu_reset_def)

section \<open>Where stores go\<close>

lemma byte_writes_changed:
  assumes "byte_writes m addr bs st h \<noteq> st h"
  shows "\<exists>i < length bs. host_of m (at addr i) = h"
  using byte_writes_other [of bs h m addr st] assms by blast

lemma confined_byte_writes:
  assumes "confined m A s0 s" "k \<in> A" "granted_run m k addr (length bs)"
    and "hs_bytes s' = byte_writes m addr bs (hs_bytes s)"
  shows "confined m A s0 s'"
proof (rule confined_trans [OF assms(1)])
  show "confined m A s s'"
    unfolding confined_def assms(4)
  proof (intro allI impI)
    fix h assume "byte_writes m addr bs (hs_bytes s) h \<noteq> hs_bytes s h"
    then obtain i where i: "i < length bs" "host_of m (at addr i) = h" using byte_writes_changed by blast
    moreover from i(1) have "mem_grants m k (at addr i)" using assms(3) by (simp add: granted_run_def)
    ultimately show "\<exists>a. \<exists>k \<in> A. mem_grants m k a \<and> host_of m a = h" using assms(2) by blast
  qed
qed simp

lemma confined_write:
  assumes "mem_wf m" "confined m A s0 s" "kX86pMemWrite \<in> A" "length bs = unat n" "x86p_mem_write_bytes m s a bs n = Some s'"
  shows "confined m A s0 s'"
  using confined_byte_writes [OF assms(2,3), of a bs s'] assms by (auto simp: write_bytes_eq split: if_splits)

lemma announced_write:
  assumes "mem_wf m" "announced m s0 s" "length bs = unat n" "x86p_mem_write_bytes m s a bs n = Some s'"
  shows "announced m s0 s'"
proof (rule announced_trans [OF assms(2)])
  have o: "hs_observed s" using assms(2) by (simp add: announced_def)
  have s': "s' = (notify s a n)\<lparr>hs_bytes := byte_writes m a bs (hs_bytes s)\<rparr>"
    using assms by (auto simp: write_bytes_eq split: if_splits)
  have "\<exists>i < unat n. host_of m (at a i) = h" if "hs_bytes s' h \<noteq> hs_bytes s h" for h
    using byte_writes_changed [of m a bs "hs_bytes s" h] that assms(3) by (simp add: s')
  then show "announced m s s'" using o by (auto simp: announced_def s' notify_def)
qed

interpretation writable: machine_invariant m "\<lambda>cpu s. mem_wf m \<and> cpu_ok cpu \<and> confined m {kX86pMemWrite} s0 s" for m s0
  by unfold_locales (auto simp: cpu_ok_def intro: confined_write)

interpretation mapped: bulk_invariant m
  "\<lambda>cpu s. mem_wf m \<and> cpu_ok cpu \<and> confined m {kX86pMemRead, kX86pMemWrite} s0 s" for m s0
proof unfold_locales
  fix cpu :: cpu and s s' :: host and a b len count :: u32 and w :: nat and bs :: "u8 list"
  assume I: "mem_wf m \<and> cpu_ok cpu \<and> confined m {kX86pMemRead, kX86pMemWrite} s0 s"
  then have wf: "mem_wf m" and c: "confined m {kX86pMemRead, kX86pMemWrite} s0 s" by simp_all
  note cb = confined_byte_writes [OF c, where k = kX86pMemRead]
  show "mem_wf m \<and> cpu_ok cpu \<and> confined m {kX86pMemRead, kX86pMemWrite} s0 s'"
    if "x86p_mem_copy_disjoint m s a b len = Some s'"
    using cb [of a "guest_bytes m (hs_bytes s) b (unat len)" s'] mem_copy_eq [OF wf that] I by simp
  show "mem_wf m \<and> cpu_ok cpu \<and> confined m {kX86pMemRead, kX86pMemWrite} s0 s'"
    if "length bs = w" "x86p_mem_fill m s a bs w count = Some s'"
    using cb [of a "concat (replicate (unat count) bs)" s'] mem_fill_eq [OF wf that] I that(1)
    by (simp add: length_concat sum_list_replicate mult.commute)
qed (auto simp: cpu_ok_def intro: confined_write)

interpretation observed: bulk_invariant m "\<lambda>cpu s. mem_wf m \<and> cpu_ok cpu \<and> announced m s0 s" for m s0
proof unfold_locales
  fix cpu :: cpu and s s' :: host and a b len count :: u32 and w :: nat and bs :: "u8 list"
  assume I: "mem_wf m \<and> cpu_ok cpu \<and> announced m s0 s"
  then have o: "mem_wf m" "hs_observed s" by (simp_all add: announced_def)
  show "mem_wf m \<and> cpu_ok cpu \<and> announced m s0 s'" if "x86p_mem_copy_disjoint m s a b len = Some s'"
    using mem_copy_eq(5) [OF o(1) that] o(2) by simp
  show "mem_wf m \<and> cpu_ok cpu \<and> announced m s0 s'" if "length bs = w" "x86p_mem_fill m s a bs w count = Some s'"
    using mem_fill_eq(4) [OF o(1) that] o(2) by simp
qed (auto simp: cpu_ok_def intro: announced_write)

lemma engines_keep:
  assumes "engine_sound m g"
  shows "shape.keeps e g" "writable.keeps m s0 g" "mapped.keeps m s0 g" "observed.keeps m s0 g"
proof -
  have c: "confined m A s0 (snd (snd (g cpu s)))" if "cpu_ok cpu" "confined m A s0 s" "kX86pMemWrite \<in> A" for A cpu s
    by (rule confined_trans [OF that(2) engineD(3) [OF assms that(1)]]) (use that(3) in simp)
  have a: "announced m s0 (snd (snd (g cpu s)))" if "cpu_ok cpu" "announced m s0 s" for cpu s
    by (rule announced_trans [OF that(2) engineD(4) [OF assms that(1) announced_observed [OF that(2)]]])
  show "shape.keeps e g" "writable.keeps m s0 g" "mapped.keeps m s0 g" "observed.keeps m s0 g"
    unfolding shape.keeps_def writable.keeps_def mapped.keeps_def observed.keeps_def
    using engineD [OF assms] c a by simp_all
qed

text \<open>
  C5. No guest program writes outside its mapping: every host byte a step changes backs a guest
  byte the mapping grants, and a step of anything but a string instruction changes only bytes
  that are granted for writing.
\<close>

theorem step_confined:
  assumes "mem_wf m" and "cpu_ok cpu" and "decoder_ok en" and "engines_sound en m"
    and "x86p_step en m cpu s = Some (st, rep, cpu', s')"
  shows "confined m {kX86pMemRead, kX86pMemWrite} s s' \<and>
    (sr_op rep \<noteq> kX86pInsnString \<longrightarrow> confined m {kX86pMemWrite} s s')"
proof -
  let ?Q = "\<lambda>op (st :: step_status) (cpu' :: cpu) s'. confined m {kX86pMemRead, kX86pMemWrite} s s' \<and>
    (op \<noteq> kX86pInsnString \<longrightarrow> confined m {kX86pMemWrite} s s')"
  have "wp (x86p_execute_decoded en m i cpu s) (\<lambda>(st, a, cpu', s'). ?Q (i_op i) st cpu' s')" if "insn_ok i" for i
  proof -
    note keep = engines_keep [OF engines_soundD(1) [OF assms(4)]] engines_keep [OF engines_soundD(2) [OF assms(4)]]
    have all: "wp (execute en m i (start i cpu s)) (\<lambda>c. mem_wf m \<and> cpu_ok (cx_cpu c) \<and> confined m {kX86pMemRead, kX86pMemWrite} s (cx_host c))"
      using mapped.execute_all_inv [where c = "start i cpu s" and i = i and ?s0.0 = s] assms(1,2) that keep by simp
    have other: "wp (execute en m i (start i cpu s)) (\<lambda>c. mem_wf m \<and> cpu_ok (cx_cpu c) \<and> confined m {kX86pMemWrite} s (cx_host c))"
      if "i_op i \<noteq> kX86pInsnString"
      using writable.execute_inv [where c = "start i cpu s" and i = i and ?s0.0 = s] assms(1,2) that \<open>insn_ok i\<close> keep by simp
    show ?thesis
      using wp_decoded_host [where H = "confined m {kX86pMemRead, kX86pMemWrite} s", OF wp_mono [OF all]]
        wp_decoded_host [where H = "confined m {kX86pMemWrite} s", OF wp_mono [OF other]]
      by (cases "i_op i = kX86pInsnString") (auto simp: wp_def)
  qed
  from wp_step [where Q = ?Q, OF this assms(3)] assms(5) show ?thesis by (fastforce dest!: wpD)
qed

theorem step_confined_witness:
  "\<exists>st rep cpu' s'. x86p_step demo window boot code_host = Some (st, rep, cpu', s') \<and>
     confined window {kX86pMemRead, kX86pMemWrite} code_host s'"
proof -
  obtain st rep cpu' s' where x: "x86p_step demo window boot code_host = Some (st, rep, cpu', s')"
    using demo_steps by blast
  from step_confined [OF window_wf boot_ok demo_ok x] x show ?thesis by blast
qed

text \<open>
  C15. While a write observer is installed it is told of every store a step makes: the log only
  grows, and every host byte that changed backs a guest byte inside a range the new entries name.
\<close>

theorem step_announced:
  assumes "mem_wf m" and "cpu_ok cpu" and "decoder_ok en" and "engines_sound en m" and "hs_observed s"
    and "x86p_step en m cpu s = Some (st, rep, cpu', s')"
  shows "announced m s s'"
proof -
  have "wp (x86p_execute_decoded en m i cpu s) (\<lambda>(st, a, cpu', s'). announced m s s')" if "insn_ok i" for i
  proof (rule wp_decoded_host)
    note keep = engines_keep [OF engines_soundD(1) [OF assms(4)]] engines_keep [OF engines_soundD(2) [OF assms(4)]]
    have "wp (execute en m i (start i cpu s)) (\<lambda>c. mem_wf m \<and> cpu_ok (cx_cpu c) \<and> announced m s (cx_host c))"
      using observed.execute_all_inv [where c = "start i cpu s" and i = i and ?s0.0 = s]
        assms(1,2) announced_refl [OF assms(5)] that keep by simp
    then show "wp (execute en m i (start i cpu s)) (\<lambda>c. announced m s (cx_host c))" by (rule wp_mono) simp
  qed (rule announced_refl [OF assms(5)])
  from wp_step [where Q = "\<lambda>op st cpu' s'. announced m s s'", OF this assms(3)] announced_refl [OF assms(5)] assms(6)
  show ?thesis by (fastforce dest!: wpD)
qed

theorem step_announced_witness:
  "\<exists>st rep cpu' s'. x86p_step demo window boot code_host = Some (st, rep, cpu', s') \<and> announced window code_host s'"
proof -
  obtain st rep cpu' s' where x: "x86p_step demo window boot code_host = Some (st, rep, cpu', s')"
    using demo_steps by blast
  have "hs_observed code_host" by (simp add: code_host_def)
  from step_announced [OF window_wf boot_ok demo_ok this x] x show ?thesis by blast
qed

section \<open>The frame of the integer instructions\<close>

definition same_frame :: "cpu \<Rightarrow> cpu \<Rightarrow> bool" where
  "same_frame a b \<longleftrightarrow> c_x87 a = c_x87 b \<and> c_xmm a = c_xmm b \<and> c_mxcsr a = c_mxcsr b \<and> c_ldtr a = c_ldtr b \<and>
     c_fs_base a = c_fs_base b \<and> c_gs_base a = c_gs_base b"

interpretation frame: bulk_invariant m "\<lambda>cpu s. cpu_ok cpu \<and> same_frame cpu cpu0" for m cpu0
  by unfold_locales (auto simp: cpu_ok_def same_frame_def)

text \<open>
  An instruction that goes to neither the floating-point nor the vector engine leaves their
  registers and control words, the local descriptor register and the segment bases alone.
\<close>

theorem integer_frame:
  assumes "cpu_ok cpu" and "insn_ok i" and "i_op i \<noteq> kX86pInsnX87" and "i_op i \<noteq> kX86pInsnSimd"
  shows "\<exists>st a cpu' s'. x86p_execute_decoded en m i cpu s = Some (st, a, cpu', s') \<and> same_frame cpu' cpu"
proof -
  have "wp (execute en m i (start i cpu s)) (\<lambda>c. cpu_ok (cx_cpu c) \<and> same_frame (cx_cpu c) cpu)"
    using frame.execute_all_inv [where c = "start i cpu s" and i = i and ?cpu0.0 = cpu] assms
    by (simp add: same_frame_def)
  from wp_decoded [where I = "\<lambda>c s. cpu_ok c \<and> same_frame c cpu", OF this] assms(1) show ?thesis
    by (fastforce simp: same_frame_def dest!: wpD split: if_splits)
qed

theorem integer_frame_witness:
  "\<exists>st a cpu' s'. x86p_execute_decoded demo window inc_eax boot quiet_host = Some (st, a, cpu', s') \<and> same_frame cpu' boot"
proof -
  have "insn_ok inc_eax" "i_op inc_eax = Data kX86pInsnAluUnary" by (simp_all add: insn_ok_def inc_eax_def operand_ok_def Let_def)
  then show ?thesis using integer_frame [OF boot_ok, of inc_eax demo window quiet_host] by simp
qed

end
