(* ===== verification/X86_Stack_Properties.thy ===== *)
theory X86_Stack_Properties
  imports X86_Exec_Properties
begin

text \<open>
  The stack over guest memory: what is pushed is what is popped.  The stack operations are
  clients of the word-memory contract of \<open>X86_Memory_Properties\<close>, through its interpretation
  on the guest memory.
\<close>

section \<open>Slots of the stack\<close>

lemma slots_apart:
  assumes "0 < k" "k < 2 ^ 29"
  shows "apart (a - 4 * of_nat k) 4 a 4"
  unfolding apart_def
proof (intro allI impI notI)
  fix i j :: nat assume i: "i < 4" "j < 4" and e: "at (a - 4 * of_nat k) i = at a j"
  then have "(of_nat i :: u32) = of_nat (j + 4 * k)" by (simp add: algebra_simps)
  moreover have "unat (of_nat i :: u32) = i" "unat (of_nat (j + 4 * k) :: u32) = j + 4 * k"
    using assms i by (intro unat_of_nat32; simp)+
  ultimately have "i = j + 4 * k" by metis
  then show False using i assms(1) by simp
qed

context word_memory
begin

lemma load_down:
  "ok s \<Longrightarrow> store_down s a vs = Some s' \<Longrightarrow> length vs < 2 ^ 29 \<Longrightarrow> i < length vs \<Longrightarrow>
   load s' (a - 4 * of_nat (Suc i)) 4 = Some (vs ! i)"
proof (induction vs arbitrary: s a i)
  case (Cons v vs)
  then obtain s1 where s1: "store s (a - 4) 4 v = Some s1" "store_down s1 (a - 4) vs = Some s'"
    by (auto split: option.splits)
  note ok1 = store_ok [OF Cons.prems(1) s1(1)]
  show ?case
  proof (cases i)
    case 0
    have "load s' (a - 4) 4 = load s1 (a - 4) 4"
    proof (rule store_down_apart [OF ok1 s1(2)])
      fix k assume "k < length vs"
      then show "apart (a - 4 - 4 * of_nat (Suc k)) 4 (a - 4) 4" using Cons.prems(3) by (intro slots_apart) simp_all
    qed
    moreover have "take_bit 32 v = v" by (rule take_bit_length_eq [where 'a = 32, simplified])
    ultimately show ?thesis using load_stored [OF Cons.prems(1) s1(1)] 0 by simp
  next
    case (Suc j)
    then show ?thesis using Cons.IH [OF ok1 s1(2), of j] Cons.prems(3,4) by (simp add: algebra_simps)
  qed
qed simp

end

section \<open>Pushes and pops over the word memory\<close>

lemma push32_gm:
  "x86p_push32 m cpu s v =
     (case gm_store (m, s) (reg cpu kX86pEsp - 4) 4 v of
        None \<Rightarrow> None
      | Some g \<Rightarrow> Some (set_reg kX86pEsp (reg cpu kX86pEsp - 4) cpu, snd g))"
  by (auto simp: x86p_push32_def gm_store_def Let_def split: option.split)

lemma pop32_gm:
  "x86p_pop32 m cpu s = map_option (\<lambda>v. (v, set_reg kX86pEsp (reg cpu kX86pEsp + 4) cpu)) (gm_load (m, s) (reg cpu kX86pEsp) 4)"
  by (auto simp: x86p_pop32_def gm_load_def split: option.split)

lemma gm_store_pair: "gm_store (m, s) a w v = Some g \<Longrightarrow> g = (m, snd g)"
  by (auto simp: gm_store_def)

lemma pushad_store_down:
  "length (c_reg cpu) = 8 \<Longrightarrow> pushad_loop m order e cpu s = (None, cpu', s') \<Longrightarrow>
   gm.store_down (m, s) (reg cpu kX86pEsp) (map (\<lambda>r. if r = kX86pEsp then e else reg cpu r) order) = Some (m, s') \<and>
   cpu' = set_reg kX86pEsp (reg cpu kX86pEsp - 4 * of_nat (length order)) cpu"
proof (induction order arbitrary: cpu s)
  case (Cons r order)
  let ?v = "if r = kX86pEsp then e else reg cpu r"
  from Cons.prems(2) obtain c1 s1 where p: "x86p_push32 m cpu s ?v = Some (c1, s1)" "pushad_loop m order e c1 s1 = (None, cpu', s')"
    by (auto simp: push_def Let_def split: option.splits prod.splits)
  then have c1: "c1 = set_reg kX86pEsp (reg cpu kX86pEsp - 4) cpu" and g: "gm_store (m, s) (reg cpu kX86pEsp - 4) 4 ?v = Some (m, s1)"
    using gm_store_pair by (auto simp: push32_gm split: option.splits)
  have vals: "map (\<lambda>r. if r = kX86pEsp then e else reg c1 r) order = map (\<lambda>r. if r = kX86pEsp then e else reg cpu r) order"
    by (simp add: c1)
  have esp: "reg c1 kX86pEsp = reg cpu kX86pEsp - 4" using Cons.prems(1) by (simp add: c1 reg_defs)
  have "length (c_reg c1) = 8" using Cons.prems(1) by (simp add: c1)
  from Cons.IH [OF this p(2)] have
    h: "gm.store_down (m, s1) (reg cpu kX86pEsp - 4) (map (\<lambda>r. if r = kX86pEsp then e else reg cpu r) order) = Some (m, s')"
      "cpu' = set_reg kX86pEsp (reg cpu kX86pEsp - 4 - 4 * of_nat (length order)) c1"
    unfolding vals esp by simp_all
  show ?case using g h(1) by (simp add: h(2) c1 algebra_simps)
qed simp

lemma popad_loads:
  "length (c_reg cpu) = 8 \<Longrightarrow> distinct order \<Longrightarrow> set order \<subseteq> {..<8} \<Longrightarrow> length vs = length order \<Longrightarrow>
   (\<And>i. i < length order \<Longrightarrow> gm_load (m, s) (reg cpu kX86pEsp + 4 * of_nat i) 4 = Some (vs ! i)) \<Longrightarrow>
   \<exists>cpu'. popad_loop m order cpu s = (None, cpu', s) \<and> length (c_reg cpu') = 8 \<and>
     reg cpu' kX86pEsp = reg cpu kX86pEsp + 4 * of_nat (length order) \<and>
     (\<forall>i < length order. order ! i \<noteq> kX86pEsp \<longrightarrow> reg cpu' (order ! i) = vs ! i) \<and>
     (\<forall>r. r \<notin> set order \<longrightarrow> r \<noteq> kX86pEsp \<longrightarrow> reg cpu' r = reg cpu r) \<and> cpu'\<lparr>c_reg := c_reg cpu\<rparr> = cpu"
proof (induction order arbitrary: cpu vs)
  case (Cons r order)
  obtain v ws where vs: "vs = v # ws" using Cons.prems(4) by (cases vs) auto
  let ?c1 = "set_reg kX86pEsp (reg cpu kX86pEsp + 4) cpu"
  define c2 where "c2 = (if r \<noteq> kX86pEsp then set_reg r v ?c1 else ?c1)"
  have pop: "x86p_pop32 m cpu s = Some (v, ?c1)" using Cons.prems(5) [of 0] by (simp add: pop32_gm vs)
  have c2: "length (c_reg c2) = 8" "reg c2 kX86pEsp = reg cpu kX86pEsp + 4" "r \<noteq> kX86pEsp \<Longrightarrow> reg c2 r = v"
    "\<And>q. q \<noteq> r \<Longrightarrow> q \<noteq> kX86pEsp \<Longrightarrow> reg c2 q = reg cpu q" "\<And>x. c2\<lparr>c_reg := x\<rparr> = cpu\<lparr>c_reg := x\<rparr>"
    using Cons.prems(1,3) by (auto simp: c2_def reg_defs)
  have loads: "gm_load (m, s) (reg c2 kX86pEsp + 4 * of_nat i) 4 = Some (ws ! i)" if "i < length order" for i
    using Cons.prems(5) [of "Suc i"] that unfolding c2 by (simp add: vs algebra_simps)
  have "distinct order" "set order \<subseteq> {..<8}" "length ws = length order" using Cons.prems(2-4) by (simp_all add: vs)
  from Cons.IH [OF c2(1) this loads] obtain cpu' where
    h: "popad_loop m order c2 s = (None, cpu', s)" "length (c_reg cpu') = 8"
      "reg cpu' kX86pEsp = reg c2 kX86pEsp + 4 * of_nat (length order)"
      "\<forall>i < length order. order ! i \<noteq> kX86pEsp \<longrightarrow> reg cpu' (order ! i) = ws ! i"
      "\<forall>q. q \<notin> set order \<longrightarrow> q \<noteq> kX86pEsp \<longrightarrow> reg cpu' q = reg c2 q" "cpu'\<lparr>c_reg := c_reg c2\<rparr> = c2"
    by blast
  have r: "reg cpu' r = v" if "r \<noteq> kX86pEsp" using h(5) that Cons.prems(2) c2(3) by simp
  have "reg cpu' ((r # order) ! i) = vs ! i" if "i < length (r # order)" "(r # order) ! i \<noteq> kX86pEsp" for i
    using that h(4) r by (cases i) (auto simp: vs)
  moreover have "reg cpu' q = reg cpu q" if "q \<notin> set (r # order)" "q \<noteq> kX86pEsp" for q
    using h(5) c2(4) that by simp
  moreover have "cpu'\<lparr>c_reg := c_reg cpu\<rparr> = cpu"
  proof -
    have "cpu'\<lparr>c_reg := c_reg cpu\<rparr> = (cpu'\<lparr>c_reg := c_reg c2\<rparr>)\<lparr>c_reg := c_reg cpu\<rparr>" by simp
    then show ?thesis unfolding h(6) c2(5) by simp
  qed
  moreover have "popad_loop m (r # order) cpu s = (None, cpu', s)" using pop h(1) by (simp add: c2_def)
  ultimately show ?case using h(2,3) c2(2) by (intro exI [of _ cpu']) (simp add: algebra_simps)
qed simp

section \<open>PUSHAD and POPAD\<close>

text \<open>
  After a completed PUSHAD, a POPAD from the same stack pointer restores all eight
  registers and changes nothing else, whatever happened to the registers in between.
\<close>

theorem pushad_popad:
  assumes "mem_wf m" and "unaliased m" and "cpu_ok cpu" and "x86p_stack_pushad m cpu s = (None, cpu1, s1)"
    and "cpu_ok cpu2" and "reg cpu2 kX86pEsp = reg cpu1 kX86pEsp"
  shows "\<exists>cpu3. x86p_stack_popad m cpu2 s1 = (None, cpu3, s1) \<and> c_reg cpu3 = c_reg cpu \<and> cpu3\<lparr>c_reg := c_reg cpu2\<rparr> = cpu2"
proof -
  let ?esp = "reg cpu kX86pEsp"
  define vs where "vs = map (\<lambda>r. if r = kX86pEsp then ?esp else reg cpu r) pushad_order"
  have lv: "length vs = 8" by (simp add: vs_def pushad_order_def)
  have len: "length (c_reg cpu) = 8" "length (c_reg cpu2) = 8" using assms(3,5) cpu_okD by blast+
  have ok: "gm_ok (m, s)" using assms(1,2) by (simp add: gm_ok_def)
  have d: "gm.store_down (m, s) ?esp vs = Some (m, s1)" "cpu1 = set_reg kX86pEsp (?esp - 4 * of_nat 8) cpu"
    using pushad_store_down [OF len(1) assms(4) [unfolded x86p_stack_pushad_def]] by (simp_all add: pushad_order_def vs_def)
  have e2: "reg cpu2 kX86pEsp = ?esp - 32" using assms(6) len(1) by (simp add: d(2) reg_defs)
  have ord: "popad_order = rev pushad_order" by (simp add: popad_order_def pushad_order_def)
  have loads: "gm_load (m, s1) (reg cpu2 kX86pEsp + 4 * of_nat i) 4 = Some (rev vs ! i)" if "i < length popad_order" for i
  proof -
    have i: "i < 8" using that by (simp add: popad_order_def)
    have x: "?esp - 4 * of_nat (Suc (7 - i)) = reg cpu2 kX86pEsp + 4 * of_nat i"
      unfolding e2 using i by (simp add: of_nat_diff)
    have y: "rev vs ! i = vs ! (7 - i)" using i lv by (simp add: rev_nth)
    have "gm_load (m, s1) (?esp - 4 * of_nat (Suc (7 - i))) 4 = Some (vs ! (7 - i))"
      by (rule gm.load_down [OF ok d(1)]) (use lv i in auto)
    then show ?thesis unfolding x y .
  qed
  have "distinct popad_order" "set popad_order \<subseteq> {..<8}" "length (rev vs) = length popad_order"
    using lv by (simp_all add: popad_order_def reg_defs)
  from popad_loads [OF len(2) this loads] obtain cpu3 where
    h: "popad_loop m popad_order cpu2 s1 = (None, cpu3, s1)" "length (c_reg cpu3) = 8"
      "reg cpu3 kX86pEsp = reg cpu2 kX86pEsp + 4 * of_nat (length popad_order)"
      "\<forall>i < length popad_order. popad_order ! i \<noteq> kX86pEsp \<longrightarrow> reg cpu3 (popad_order ! i) = rev vs ! i"
      "cpu3\<lparr>c_reg := c_reg cpu2\<rparr> = cpu2" by blast
  have "reg cpu3 r = reg cpu r" if "r < 8" for r
  proof (cases "r = kX86pEsp")
    case True
    then show ?thesis using h(3) e2 by (simp add: popad_order_def)
  next
    case False
    have "r \<in> set popad_order" using that by (auto simp: popad_order_def reg_defs)
    then obtain i where i: "i < length popad_order" "popad_order ! i = r" by (metis in_set_conv_nth)
    have "rev vs ! i = reg cpu r" using i False by (simp add: vs_def rev_map ord [symmetric])
    then show ?thesis using h(4) i False by metis
  qed
  then have "c_reg cpu3 = c_reg cpu" using h(2) len(1) by (simp add: nth_equalityI)
  then show ?thesis using h(1,5) by (simp add: x86p_stack_popad_def)
qed

lemma window_unaliased: "unaliased window"
  by (rule contiguous_unaliased) (auto simp: window_def)

lemma window_slot:
  assumes "j + 4 \<le> 0x1000"
  shows "granted_run window kX86pMemWrite (0x10000 + of_nat j) 4"
proof -
  have "x86p_mem_accessible window 0x10000 0x1000 kX86pMemWrite" by code_simp
  then have r: "granted_run window kX86pMemWrite 0x10000 (unat (0x1000 :: u32))"
    using accessible_iff [OF window_wf] by blast
  then have "granted_run window kX86pMemWrite (0x10000 + of_nat j) (0x1000 - j)"
    using granted_run_drop [OF r, of j] assms by simp
  then show ?thesis using granted_run_append [of window kX86pMemWrite "0x10000 + of_nat j" 4 "0x1000 - j - 4"] assms by simp
qed

abbreviation stacked :: cpu where
  "stacked \<equiv> set_reg kX86pEsp 0x10100 boot"

lemma stacked_ok: "cpu_ok stacked" "reg stacked kX86pEsp = 0x10100"
  using boot_ok by (simp_all add: cpu_ok_def reg_defs x86p_cpu_reset_def)

lemma window_push:
  assumes "reg cpu kX86pEsp = 0x10000 + of_nat (j + 4)" "j + 4 \<le> 0x1000"
  shows "\<exists>s'. x86p_push32 window cpu s v = Some (set_reg kX86pEsp (0x10000 + of_nat j) cpu, s')"
  using window_slot [OF assms(2)] assms(1) by (simp add: x86p_push32_def Let_def mem_write_eq [OF window_wf])

lemma window_pushad:
  "length (c_reg cpu) = 8 \<Longrightarrow> reg cpu kX86pEsp = 0x10000 + of_nat (j + 4 * length order) \<Longrightarrow> j + 4 * length order \<le> 0x1000 \<Longrightarrow>
   \<exists>cpu' s'. pushad_loop window order e cpu s = (None, cpu', s')"
proof (induction order arbitrary: cpu s)
  case (Cons r order)
  let ?v = "if r = kX86pEsp then e else reg cpu r"
  obtain s1 where "x86p_push32 window cpu s ?v = Some (set_reg kX86pEsp (0x10000 + of_nat (j + 4 * length order)) cpu, s1)"
    using window_push [of cpu "j + 4 * length order" s ?v] Cons.prems by (auto simp: algebra_simps)
  then show ?case using Cons by (simp add: push_def Let_def reg_defs)
qed simp

theorem pushad_popad_witness:
  "\<exists>cpu1 s1 cpu3. x86p_stack_pushad window stacked quiet_host = (None, cpu1, s1) \<and>
     x86p_stack_popad window cpu1 s1 = (None, cpu3, s1) \<and> c_reg cpu3 = c_reg stacked"
proof -
  have esp: "reg stacked kX86pEsp = 0x10000 + of_nat (0xE0 + 4 * length pushad_order)"
    unfolding stacked_ok by (simp add: pushad_order_def)
  obtain cpu1 s1 where p: "x86p_stack_pushad window stacked quiet_host = (None, cpu1, s1)"
    using window_pushad [OF cpu_okD(1) [OF stacked_ok(1)] esp] unfolding x86p_stack_pushad_def by (fastforce simp: pushad_order_def simp del: pushad_loop.simps)
  then have "cpu1 = set_reg kX86pEsp (reg stacked kX86pEsp - 4 * of_nat (length pushad_order)) stacked"
    unfolding x86p_stack_pushad_def using pushad_store_down [OF cpu_okD(1) [OF stacked_ok(1)]] by blast
  then have ok: "cpu_ok cpu1" using stacked_ok(1) by (simp add: cpu_ok_def)
  from pushad_popad [OF window_wf window_unaliased stacked_ok(1) p ok refl] p show ?thesis by blast
qed

section \<open>CALL and RET\<close>

text \<open>
  A completed near CALL leaves the address of the next instruction where a RET with the
  stack pointer it left, and memory as it left it, finds it: the RET continues after the CALL with
  the stack pointer and every register the caller had.
\<close>

theorem call_then_ret:
  assumes "mem_wf m" and "unaliased m" and "cpu_ok cpu" and "i_op i = Flow kX86pInsnCall"
    and "x86p_execute_decoded en m i cpu s = Some (kX86pStepOk, a, cpu1, s1)"
    and "i_op r = Flow kX86pInsnRet" and "i_operands r = 0"
  shows "\<exists>cpu2. x86p_execute_decoded en m r cpu1 s1 = Some (kX86pStepOk, 0, cpu2, s1) \<and>
    cpu2 = cpu\<lparr>c_eip := c_eip cpu + i_length i\<rparr>"
proof -
  have len: "length (c_reg cpu) = 8" using assms(3) by (rule cpu_okD)
  have ok: "gm_ok (m, s)" using assms(1,2) by (simp add: gm_ok_def)
  have bt: "c' = start i cpu s \<or> faulted c'" if "branch_target m opd (start i cpu s) = Some (t, c')" for opd t c'
    using that by (auto simp: branch_target_def read_operand_def split: if_splits operand_kind.splits option.splits bind_splits)
  let ?esp = "reg cpu kX86pEsp" and ?next = "c_eip cpu + i_length i"
  from assms(4,5) obtain t where
    c: "cpu1 = (set_reg kX86pEsp (?esp - 4) cpu)\<lparr>c_eip := t\<rparr>" "gm_store (m, s) (?esp - 4) 4 ?next = Some (m, s1)"
    using gm_store_pair
    by (auto simp: x86p_execute_decoded_def execute_def execute_flow_def exec_call_def push_or_fault_def push32_gm Let_def
      split: if_splits option.splits bind_splits dest!: bt)
  have "take_bit 32 ?next = ?next" by (rule take_bit_length_eq [where 'a = 32, simplified])
  then have "gm_load (m, s1) (?esp - 4) 4 = Some ?next" using gm.load_stored [OF ok c(2)] by simp
  then have "x86p_pop32 m cpu1 s1 = Some (?next, set_reg kX86pEsp ?esp cpu1)" using len by (simp add: pop32_gm c(1) reg_defs)
  moreover have "set_reg kX86pEsp ?esp cpu1 = cpu\<lparr>c_eip := t\<rparr>" by (simp add: c(1))
  ultimately show ?thesis using assms(6,7)
    by (simp add: x86p_execute_decoded_def execute_def execute_flow_def exec_ret_def pop_or_fault_def release_arguments_def Let_def)
qed

definition call_insn :: insn where
  "call_insn = inc_eax\<lparr>i_length := 5, i_mnemonic := ''CALL'', i_op := Flow kX86pInsnCall,
     i_operand := (i_operand inc_eax)[0 := (i_operand inc_eax ! 0)\<lparr>o_kind := kX86pOperandImm, o_imm := 0x20, o_relative := True\<rparr>]\<rparr>"

definition ret_insn :: insn where
  "ret_insn = inc_eax\<lparr>i_mnemonic := ''RET'', i_operands := 0, i_op := Flow kX86pInsnRet\<rparr>"

theorem call_then_ret_witness:
  "\<exists>cpu1 s1. x86p_execute_decoded demo window call_insn stacked quiet_host = Some (kX86pStepOk, 0, cpu1, s1) \<and>
     x86p_execute_decoded demo window ret_insn cpu1 s1 = Some (kX86pStepOk, 0, stacked\<lparr>c_eip := 0x10005\<rparr>, s1)"
proof -
  have op: "i_op call_insn = Flow kX86pInsnCall" "i_op ret_insn = Flow kX86pInsnRet" "i_operands ret_insn = 0" "i_length call_insn = 5"
    by (simp_all add: call_insn_def ret_insn_def)
  have "reg stacked kX86pEsp = 0x10000 + of_nat (0xFC + 4)" unfolding stacked_ok by simp
  from window_push [OF this, of quiet_host] obtain s1 where
    p: "x86p_push32 window stacked quiet_host 0x10005 = Some (set_reg kX86pEsp (0x10000 + of_nat 0xFC) stacked, s1)" by auto
  have "\<exists>cpu1. x86p_execute_decoded demo window call_insn stacked quiet_host = Some (kX86pStepOk, 0, cpu1, s1)"
    using p unfolding x86p_execute_decoded_def execute_def op
    by (simp add: op execute_flow_def exec_call_def branch_target_def push_or_fault_def call_insn_def inc_eax_def Let_def)
  then obtain cpu1 where c: "x86p_execute_decoded demo window call_insn stacked quiet_host = Some (kX86pStepOk, 0, cpu1, s1)" by blast
  have "x86p_execute_decoded demo window ret_insn cpu1 s1 = Some (kX86pStepOk, 0, stacked\<lparr>c_eip := c_eip stacked + i_length call_insn\<rparr>, s1)"
    using call_then_ret [OF window_wf window_unaliased stacked_ok(1) op(1) c op(2,3)] by auto
  moreover have "c_eip stacked + i_length call_insn = 0x10005" by (simp add: op)
  ultimately show ?thesis using c by auto
qed

section \<open>ENTER and LEAVE\<close>

lemma push_gm:
  "push m cpu s v = (None, cpu', s') \<Longrightarrow>
   gm_store (m, s) (reg cpu kX86pEsp - 4) 4 v = Some (m, s') \<and> cpu' = set_reg kX86pEsp (reg cpu kX86pEsp - 4) cpu"
  by (auto simp: push_def push32_gm split: option.splits prod.splits dest: gm_store_pair)

text \<open>Pushing the \<open>k\<close>-th slot below \<open>f\<close> leaves the slot at \<open>f\<close> alone.\<close>

lemma push_below:
  assumes "gm_ok (m, s)" "length (c_reg cpu) = 8" "push m cpu s v = (None, cpu', s')" "reg cpu kX86pEsp = f - 4 * of_nat j" "j < 31"
  shows "gm_ok (m, s')" "gm_load (m, s') f 4 = gm_load (m, s) f 4" "reg cpu' kX86pEsp = f - 4 * of_nat (Suc j)"
    "cpu' = set_reg kX86pEsp (f - 4 * of_nat (Suc j)) cpu"
proof -
  note p = push_gm [OF assms(3)]
  have a: "reg cpu kX86pEsp - 4 = f - 4 * of_nat (Suc j)" by (simp add: assms(4) algebra_simps)
  show "gm_ok (m, s')" using gm.store_ok [OF assms(1)] p by blast
  show "gm_load (m, s') f 4 = gm_load (m, s) f 4"
    using gm.load_apart [OF assms(1) conjunct1 [OF p]] slots_apart [of "Suc j" f] assms(5) unfolding a by simp
  show "cpu' = set_reg kX86pEsp (f - 4 * of_nat (Suc j)) cpu" using p unfolding a by simp
  then show "reg cpu' kX86pEsp = f - 4 * of_nat (Suc j)" using assms(2) by (simp add: reg_defs)
qed

text \<open>Everything ENTER changes beside memory are EBP and ESP.\<close>

definition same_but_frame :: "cpu \<Rightarrow> cpu \<Rightarrow> bool" where
  "same_but_frame a b \<longleftrightarrow> length (c_reg a) = length (c_reg b) \<and> a\<lparr>c_reg := c_reg b\<rparr> = b \<and>
     (\<forall>r. r \<noteq> kX86pEbp \<longrightarrow> r \<noteq> kX86pEsp \<longrightarrow> reg a r = reg b r)"

lemma same_but_frame_sets:
  "same_but_frame a b \<Longrightarrow> r = kX86pEbp \<or> r = kX86pEsp \<Longrightarrow> same_but_frame (set_reg r v a) b"
  by (auto simp: same_but_frame_def)

lemma enter_loop_slots:
  "gm_ok (m, s) \<Longrightarrow> length (c_reg cpu) = 8 \<Longrightarrow> enter_loop m n cpu s = (None, cpu', s') \<Longrightarrow>
   reg cpu kX86pEsp = f - 4 * of_nat j \<Longrightarrow> j + n < 32 \<Longrightarrow> same_but_frame cpu cpu0 \<Longrightarrow>
   gm_ok (m, s') \<and> length (c_reg cpu') = 8 \<and> gm_load (m, s') f 4 = gm_load (m, s) f 4 \<and>
   reg cpu' kX86pEsp = f - 4 * of_nat (j + n) \<and> same_but_frame cpu' cpu0"
proof (induction n arbitrary: cpu s j)
  case (Suc n)
  let ?c = "set_reg kX86pEbp (reg cpu kX86pEbp - 4) cpu"
  from Suc.prems(3) obtain v c1 s1 where p: "push m ?c s v = (None, c1, s1)" "enter_loop m n c1 s1 = (None, cpu', s')"
    by (auto simp: Let_def split: option.splits prod.splits)
  have l: "length (c_reg ?c) = 8" "reg ?c kX86pEsp = f - 4 * of_nat j" using Suc.prems(2,4) by (simp_all add: reg_defs)
  note b = push_below [OF Suc.prems(1) l(1) p(1) l(2)]
  have "same_but_frame c1 cpu0" using same_but_frame_sets [OF same_but_frame_sets [OF Suc.prems(6)]] Suc.prems(5) b(4) by simp
  moreover have "length (c_reg c1) = 8" using Suc.prems(2,5) b(4) by simp
  ultimately show ?case using Suc.IH [OF b(1) _ p(2) b(3), of] Suc.prems(5) b(2) by simp
qed simp

lemma same_but_frame_restore:
  assumes "same_but_frame a b" "length (c_reg b) = 8"
  shows "set_reg kX86pEbp (reg b kX86pEbp) (set_reg kX86pEsp (reg b kX86pEsp) a) = b"
proof -
  have "(c_reg a)[kX86pEsp := reg b kX86pEsp, kX86pEbp := reg b kX86pEbp] = c_reg b"
    using assms by (intro nth_equalityI) (auto simp: same_but_frame_def nth_list_update reg_defs)
  then show ?thesis using assms(1) by (simp add: same_but_frame_def)
qed

lemma enter_frame:
  assumes ok: "gm_ok (m, s)" and len: "length (c_reg cpu) = 8" and e: "x86p_stack_enter m cpu s allocation level = (None, cpu1, s1)"
  shows "gm_load (m, s1) (reg cpu kX86pEsp - 4) 4 = Some (reg cpu kX86pEbp)" "same_but_frame cpu1 cpu"
    "reg cpu1 kX86pEbp = reg cpu kX86pEsp - 4"
proof -
  let ?f = "reg cpu kX86pEsp - 4" and ?l = "unat (level AND 31)"
  have "level AND 31 \<le> 31" by (rule word_and_le1)
  then have l: "?l \<le> 31" by (simp add: word_le_nat_alt)
  obtain c1 t1 where p1: "push m cpu s (reg cpu kX86pEbp) = (None, c1, t1)"
    using e by (auto simp: x86p_stack_enter_def Let_def split: prod.splits option.splits)
  note g1 = push_gm [OF p1]
  have c1: "reg c1 kX86pEsp = ?f - 4 * of_nat 0" "length (c_reg c1) = 8" "same_but_frame c1 cpu"
    using g1 len by (simp_all add: reg_defs same_but_frame_def)
  obtain c2 t2 where p2: "enter_loop m (?l - 1) c1 t1 = (None, c2, t2)"
    using e p1 by (auto simp: x86p_stack_enter_def Let_def split: prod.splits option.splits)
  have ok1: "gm_ok (m, t1)" using gm.store_ok [OF ok] g1 by blast
  have "take_bit 32 v = v" for v :: u32 by (rule take_bit_length_eq [where 'a = 32, simplified])
  then have ld: "gm_load (m, t1) ?f 4 = Some (reg cpu kX86pEbp)" using gm.load_stored [OF ok conjunct1 [OF g1]] by simp
  have "0 + (?l - 1) < 32" using l by simp
  from enter_loop_slots [OF ok1 c1(2) p2 c1(1) this c1(3)]
  have c2: "gm_ok (m, t2)" "length (c_reg c2) = 8" "gm_load (m, t2) ?f 4 = Some (reg cpu kX86pEbp)"
    "reg c2 kX86pEsp = ?f - 4 * of_nat (?l - 1)" "same_but_frame c2 cpu" using ld by simp_all
  obtain c3 where p3: "(if ?l \<noteq> 0 then push m c2 t2 ?f else (None, c2, t2)) = (None, c3, s1)"
    and c: "cpu1 = set_reg kX86pEsp (reg c3 kX86pEsp - (allocation AND 0xFFFF)) (set_reg kX86pEbp ?f c3)"
    using e p1 p2 c1(1) len
    by (auto simp: x86p_stack_enter_def Let_def reg_defs list_update_swap split: prod.splits option.splits if_splits)
  have "gm_load (m, s1) ?f 4 = Some (reg cpu kX86pEbp) \<and> same_but_frame c3 cpu"
  proof (cases "?l = 0")
    case False
    then have p: "push m c2 t2 ?f = (None, c3, s1)" and "?l - 1 < 31" using p3 l by simp_all
    note b = push_below [OF c2(1,2) p c2(4) this(2)]
    show ?thesis using b c2(3) same_but_frame_sets [OF c2(5)] by simp
  qed (use p3 c2 in simp)
  then show "gm_load (m, s1) ?f 4 = Some (reg cpu kX86pEbp)" "same_but_frame cpu1 cpu" "reg cpu1 kX86pEbp = ?f"
    unfolding c using len same_but_frame_sets [OF same_but_frame_sets]
    by (simp_all add: same_but_frame_def reg_defs)
qed

text \<open>
  LEAVE undoes a completed ENTER of any nesting level and allocation: the frame pointer and
  the stack pointer are what they were, and no other register has changed.
\<close>

theorem enter_then_leave:
  assumes "mem_wf m" and "unaliased m" and "cpu_ok cpu" and "x86p_stack_enter m cpu s allocation level = (None, cpu1, s1)"
  shows "exec_leave m \<lparr>cx_cpu = cpu1, cx_host = s1, cx_next_eip = e, cx_fault = kX86pStepOk, cx_fault_addr = 0\<rparr> =
    Some \<lparr>cx_cpu = cpu, cx_host = s1, cx_next_eip = e, cx_fault = kX86pStepOk, cx_fault_addr = 0\<rparr>"
proof -
  have len: "length (c_reg cpu) = 8" using assms(3) by (rule cpu_okD)
  have ok: "gm_ok (m, s)" using assms(1,2) by (simp add: gm_ok_def)
  note f = enter_frame [OF ok len assms(4)]
  have "length (c_reg cpu1) = 8" using f(2) len by (simp add: same_but_frame_def)
  then have "exec_leave m \<lparr>cx_cpu = cpu1, cx_host = s1, cx_next_eip = e, cx_fault = kX86pStepOk, cx_fault_addr = 0\<rparr> =
      Some \<lparr>cx_cpu = set_reg kX86pEbp (reg cpu kX86pEbp) (set_reg kX86pEsp (reg cpu kX86pEsp) cpu1), cx_host = s1,
        cx_next_eip = e, cx_fault = kX86pStepOk, cx_fault_addr = 0\<rparr>"
    using f(1,3) by (simp add: exec_leave_def pop_or_fault_def pop32_gm reg_defs)
  then show ?thesis unfolding same_but_frame_restore [OF f(2) len] .
qed

theorem enter_then_leave_witness:
  "\<exists>cpu1 s1. x86p_stack_enter window stacked quiet_host 8 0 = (None, cpu1, s1) \<and>
     exec_leave window \<lparr>cx_cpu = cpu1, cx_host = s1, cx_next_eip = 0, cx_fault = kX86pStepOk, cx_fault_addr = 0\<rparr> =
       Some \<lparr>cx_cpu = stacked, cx_host = s1, cx_next_eip = 0, cx_fault = kX86pStepOk, cx_fault_addr = 0\<rparr>"
proof -
  have "reg stacked kX86pEsp = 0x10000 + of_nat (0xFC + 4)" unfolding stacked_ok by simp
  from window_push [OF this, of quiet_host "reg stacked kX86pEbp"] obtain c s1 where
    "x86p_push32 window stacked quiet_host (reg stacked kX86pEbp) = Some (c, s1)" by auto
  then have "\<exists>cpu1. x86p_stack_enter window stacked quiet_host 8 0 = (None, cpu1, s1)"
    by (simp add: x86p_stack_enter_def push_def Let_def)
  then obtain cpu1 where e: "x86p_stack_enter window stacked quiet_host 8 0 = (None, cpu1, s1)" by blast
  from enter_then_leave [OF window_wf window_unaliased stacked_ok(1) e] e show ?thesis by blast
qed

end
