(* ===== verification/X86_String_Properties.thy ===== *)
theory X86_String_Properties
  imports X86_Exec_Invariant
begin

text \<open>
  The repeated string instructions: the repeat terminates, stops exactly where the
  architecture says and can be restarted after a fault; where the bulk paths are taken they
  compute what the repeat computes.
\<close>

section \<open>Turns of the repeat\<close>

text \<open>\<open>k\<close> turns that neither fault nor look at the stop condition.\<close>

fun rep_turns :: "nat \<Rightarrow> mem \<Rightarrow> string_op \<Rightarrow> nat \<Rightarrow> u32 \<Rightarrow> cpu \<Rightarrow> host \<Rightarrow> (cpu \<times> host) option" where
  "rep_turns 0 m op w d cpu s = Some (cpu, s)"
| "rep_turns (Suc k) m op w d cpu s =
     (case step_once m op w d cpu s of
        Some (Inr (cpu, s)) \<Rightarrow> rep_turns k m op w d (count_down cpu) s
      | _ \<Rightarrow> None)"

abbreviation runs_on :: "nat \<Rightarrow> mem \<Rightarrow> string_op \<Rightarrow> rep_kind \<Rightarrow> nat \<Rightarrow> u32 \<Rightarrow> cpu \<Rightarrow> host \<Rightarrow> bool" where
  "runs_on k m op rep w d cpu s \<equiv>
     (\<forall>j c t. 0 < j \<longrightarrow> j < k \<longrightarrow> rep_turns j m op w d cpu s = Some (c, t) \<longrightarrow> \<not> rep_stops op rep c)"

interpretation regs: bulk_invariant m "\<lambda>cpu s. cpu_ok cpu" for m
  by unfold_locales (simp_all add: cpu_ok_def)

lemma ecx_of_nat: "unat (reg cpu kX86pEcx) = Suc n \<Longrightarrow> reg cpu kX86pEcx \<noteq> 0"
  by auto

lemma rep_loop_runs:
  "valid_width w \<Longrightarrow> cpu_ok cpu \<Longrightarrow> unat (reg cpu kX86pEcx) \<le> n \<Longrightarrow>
   \<exists>st cpu' s' k. rep_loop n m op rep w d cpu s = Some (st, cpu', s') \<and> k \<le> unat (reg cpu kX86pEcx) \<and>
     rep_turns k m op w d cpu s = Some (cpu', s') \<and> runs_on k m op rep w d cpu s \<and>
     unat (reg cpu' kX86pEcx) = unat (reg cpu kX86pEcx) - k \<and>
     (case st of
        kX86pStringOk \<Rightarrow> k = unat (reg cpu kX86pEcx) \<or> (0 < k \<and> rep_stops op rep cpu')
      | kX86pStringFault a \<Rightarrow> k < unat (reg cpu kX86pEcx) \<and> (0 < k \<longrightarrow> \<not> rep_stops op rep cpu') \<and>
          step_once m op w d cpu' s' = Some (Inl a)
      | kX86pStringUnsupported \<Rightarrow> False)"
proof (induction n arbitrary: cpu s)
  case 0
  then show ?case by (subst rep_loop.simps) (auto simp: unat_eq_0 intro!: exI [of _ 0])
next
  case (Suc n)
  obtain r where r: "step_once m op w d cpu s = Some r" "case r of Inl _ \<Rightarrow> True | Inr (cpu', s') \<Rightarrow> cpu_ok cpu'"
    using wpD [OF regs.wp_step_once [OF Suc.prems(1,2)]] by blast
  show ?case
  proof (cases "reg cpu kX86pEcx = 0")
    case True
    then show ?thesis by (subst rep_loop.simps) (auto intro!: exI [of _ 0])
  next
    case nz: False
    show ?thesis
    proof (cases r)
      case (Inl a)
      then show ?thesis using r nz by (subst rep_loop.simps) (auto simp: unat_gt_0 intro!: exI [of _ 0])
    next
      case (Inr p)
      obtain c1 s1 where p: "p = (c1, s1)" by (cases p)
      let ?c = "count_down c1"
      have st: "step_once m op w d cpu s = Some (Inr (c1, s1))" and ok: "cpu_ok c1" using r Inr p by simp_all
      have ecx: "unat (reg ?c kX86pEcx) = unat (reg cpu kX86pEcx) - 1"
        using count_down_turns [of c1] cpu_okD(1) [OF ok] step_once_ecx [OF st Suc.prems(1)] nz by simp
      have t: "rep_turns (Suc k) m op w d cpu s = rep_turns k m op w d ?c s1" for k using st by simp
      have l: "rep_loop (Suc n) m op rep w d cpu s =
          (if rep_stops op rep ?c then Some (kX86pStringOk, ?c, s1) else rep_loop n m op rep w d ?c s1)"
        using st nz by (subst rep_loop.simps) (simp add: Let_def)
      show ?thesis
      proof (cases "rep_stops op rep ?c")
        case True
        then show ?thesis using l t [of 0] ecx nz by (auto simp: unat_gt_0 Suc_le_eq intro!: exI [of _ "1 :: nat"])
      next
        case False
        have "cpu_ok ?c" "unat (reg ?c kX86pEcx) \<le> n" using ok ecx Suc.prems(3) by simp_all
        from Suc.IH [OF Suc.prems(1) this, of s1] obtain st cpu' s' k where
          h: "rep_loop n m op rep w d ?c s1 = Some (st, cpu', s')" "k \<le> unat (reg ?c kX86pEcx)"
            "rep_turns k m op w d ?c s1 = Some (cpu', s')" "runs_on k m op rep w d ?c s1"
            "unat (reg cpu' kX86pEcx) = unat (reg ?c kX86pEcx) - k"
            "case st of
              kX86pStringOk \<Rightarrow> k = unat (reg ?c kX86pEcx) \<or> (0 < k \<and> rep_stops op rep cpu')
            | kX86pStringFault a \<Rightarrow> k < unat (reg ?c kX86pEcx) \<and> (0 < k \<longrightarrow> \<not> rep_stops op rep cpu') \<and>
                step_once m op w d cpu' s' = Some (Inl a)
            | kX86pStringUnsupported \<Rightarrow> False" by blast
        have first: "0 < k \<or> \<not> rep_stops op rep cpu'" using h(3) False by (cases k) auto
        have pos: "0 < unat (reg cpu kX86pEcx)" using nz by (simp add: unat_gt_0)
        have "runs_on (Suc k) m op rep w d cpu s"
        proof (intro allI impI)
          fix j c u assume j: "0 < j" "j < Suc k" "rep_turns j m op w d cpu s = Some (c, u)"
          then obtain i where i: "j = Suc i" by (cases j) auto
          then have "rep_turns i m op w d ?c s1 = Some (c, u)" using j(3) t by simp
          then show "\<not> rep_stops op rep c" using h(4) False i j(2) by (cases "0 < i") auto
        qed
        then show ?thesis using l False h t [of k] ecx pos first
          by (intro exI [of _ st] exI [of _ cpu'] exI [of _ s'] exI [of _ "Suc k"]) (auto split: string_status.splits)
      qed
    qed
  qed
qed

text \<open>
  C19. Every supported repeat returns, within as many turns as ECX counts: it made some number
  of turns none of which met the stop condition before the last, ECX has fallen by that number,
  and either ECX is zero, or the stop condition of REPE or REPNE holds, or the next element
  faults and the machine stands before it, so that executing the instruction again goes on there.
\<close>

theorem rep_terminates:
  assumes "valid_width w" and "cpu_ok cpu"
  shows "\<exists>st cpu' s' k. rep_loop (unat (reg cpu kX86pEcx)) m op rep w d cpu s = Some (st, cpu', s') \<and>
     k \<le> unat (reg cpu kX86pEcx) \<and> rep_turns k m op w d cpu s = Some (cpu', s') \<and> runs_on k m op rep w d cpu s \<and>
     unat (reg cpu' kX86pEcx) = unat (reg cpu kX86pEcx) - k \<and>
     (case st of
        kX86pStringOk \<Rightarrow> k = unat (reg cpu kX86pEcx) \<or> (0 < k \<and> rep_stops op rep cpu')
      | kX86pStringFault a \<Rightarrow> k < unat (reg cpu kX86pEcx) \<and> (0 < k \<longrightarrow> \<not> rep_stops op rep cpu') \<and>
          step_once m op w d cpu' s' = Some (Inl a)
      | kX86pStringUnsupported \<Rightarrow> False)"
  by (rule rep_loop_runs [OF assms order_refl])

abbreviation three_left :: cpu where
  "three_left \<equiv> set_reg kX86pEdi 0x10FFE (set_reg kX86pEcx 3 x86p_cpu_reset)"

theorem rep_terminates_witness:
  "\<exists>st cpu' s' k. rep_loop 3 window kX86pStringStos kX86pRepRep 1 1 three_left quiet_host = Some (st, cpu', s') \<and>
     k \<le> 3 \<and> unat (reg cpu' kX86pEcx) = 3 - k"
proof -
  have e: "unat (reg three_left kX86pEcx) = 3" by (simp add: reg_defs x86p_cpu_reset_def)
  have "cpu_ok three_left" using cpu_ok_reset by (simp add: cpu_ok_def)
  from rep_terminates [OF disjI1 [OF refl] this, of window kX86pStringStos kX86pRepRep 1 quiet_host]
  show ?thesis unfolding e by blast
qed

section \<open>The bulk paths\<close>

lemma split_assemble:
  "length bs \<le> 4 \<Longrightarrow> split_bytes (length bs) (assemble bs) = bs \<and> (\<forall>n. bit (assemble bs) n \<longrightarrow> n < 8 * length bs)"
proof (induction bs)
  case (Cons b bs)
  let ?v = "assemble bs"
  have v: "n < 8 * length bs" if "bit ?v n" for n using Cons that by simp
  have a: "assemble (b # bs) = push_bit 8 ?v OR ucast b" by (simp add: assemble_def)
  have lo: "ucast (assemble (b # bs)) = b"
    unfolding a by (rule bit_word_eqI) (simp add: bit_ucast_iff bit_or_iff bit_push_bit_iff)
  have hi: "drop_bit 8 (assemble (b # bs)) = ?v"
  proof (rule bit_word_eqI)
    fix n assume n: "n < LENGTH(32)"
    have "n < 24" if "bit ?v n" using v [OF that] Cons.prems by simp
    then show "bit (drop_bit 8 (assemble (b # bs))) n = bit ?v n"
      unfolding a by (auto simp: bit_drop_bit_eq bit_ucast_iff bit_or_iff bit_push_bit_iff dest: bit_imp_le_length)
  qed
  have "n < 8 * length (b # bs)" if "bit (assemble (b # bs)) n" for n
    using that v [of "n - 8"] unfolding a
    by (auto simp: bit_ucast_iff bit_or_iff bit_push_bit_iff dest: bit_imp_le_length)
  then show ?case using Cons lo hi by simp
qed (simp add: assemble_def)

text \<open>STOS: each turn is one write of the element at EDI.\<close>

abbreviation stos_end :: "cpu \<Rightarrow> nat \<Rightarrow> nat \<Rightarrow> cpu" where
  "stos_end cpu w n \<equiv> set_reg kX86pEcx 0 (set_reg kX86pEdi (reg cpu kX86pEdi + of_nat n * of_nat w) cpu)"

lemma stos_loop:
  assumes w: "valid_width w" and a: "x86p_reg_read cpu kX86pEax w = Some a" and n: "reg cpu kX86pEcx = of_nat n" "n < 2 ^ 32"
    and len: "length (c_reg cpu) = 8" and r: "repeat_write m s (reg cpu kX86pEdi) (split_bytes w a) n = Some s'"
  shows "rep_loop n m kX86pStringStos kX86pRepRep w (of_nat w) cpu s = Some (kX86pStringOk, stos_end cpu w n, s')"
  using a n len r
proof (induction n arbitrary: cpu s)
  case 0
  have "(c_reg cpu)[kX86pEcx := 0] = c_reg cpu" using list_update_id [of "c_reg cpu" kX86pEcx] 0(2) by simp
  then show ?case using 0 by (subst rep_loop.simps) simp
next
  case (Suc n)
  obtain s1 where s1: "x86p_mem_write m s (reg cpu kX86pEdi) w a = Some s1"
    "repeat_write m s1 (reg cpu kX86pEdi + of_nat w) (split_bytes w a) n = Some s'"
    using Suc.prems(5) w by (auto simp: x86p_mem_write_def split: option.splits)
  let ?c = "count_down (set_reg kX86pEdi (reg cpu kX86pEdi + of_nat w) cpu)"
  have "unat (of_nat (Suc n) :: u32) = Suc n" using Suc.prems(3) by (rule unat_of_nat32)
  then have nz: "reg cpu kX86pEcx \<noteq> 0" unfolding Suc.prems(2) by auto
  have st: "step_once m kX86pStringStos w (of_nat w) cpu s = Some (Inr (set_reg kX86pEdi (reg cpu kX86pEdi + of_nat w) cpu, s1))"
    using s1(1) Suc.prems(1) by (simp add: step_once_def string_access_def Let_def)
  have "rep_loop n m kX86pStringStos kX86pRepRep w (of_nat w) ?c s1 = Some (kX86pStringOk, stos_end ?c w n, s')"
  proof (rule Suc.IH)
    show "x86p_reg_read ?c kX86pEax w = Some a" using Suc.prems(1) w by (auto simp: x86p_reg_read_def x86p_byte_reg_def reg_defs)
    show "repeat_write m s1 (reg ?c kX86pEdi) (split_bytes w a) n = Some s'" using s1(2) Suc.prems(4) by (simp add: reg_defs)
    show "reg ?c kX86pEcx = of_nat n" using Suc.prems(2,4) by (simp add: reg_defs)
  qed (use Suc.prems in simp_all)
  moreover have "stos_end ?c w n = stos_end cpu w (Suc n)"
    using Suc.prems(4) by (simp add: reg_defs list_update_swap algebra_simps)
  ultimately show ?case using st nz by (subst rep_loop.simps) (simp add: Let_def rep_stops_def)
qed

text \<open>MOVS: each turn copies the element at ESI to EDI; on ranges apart no copied byte is read later.\<close>

abbreviation movs_end :: "cpu \<Rightarrow> nat \<Rightarrow> nat \<Rightarrow> cpu" where
  "movs_end cpu w n \<equiv> set_reg kX86pEcx 0 (set_reg kX86pEdi (reg cpu kX86pEdi + of_nat n * of_nat w)
     (set_reg kX86pEsi (reg cpu kX86pEsi + of_nat n * of_nat w) cpu))"

lemma list_update_cover: "i \<noteq> j \<Longrightarrow> xs[i := a, j := b, i := c] = xs[j := b, i := c]"
  by (metis list_update_overwrite list_update_swap)

lemma guest_bytes_apart:
  assumes u: "unaliased m" and g: "granted_run m kX86pMemRead a x" "granted_run m kX86pMemRead b (length bs)"
    and ap: "apart a x b (length bs)"
  shows "guest_bytes m (byte_writes m b bs st) a x = guest_bytes m st a x"
proof (rule guest_bytes_cong, rule byte_writes_other)
  fix i j assume "i < x" "j < length bs"
  then show "host_of m (at a i) \<noteq> host_of m (at b j)"
    using unaliased_at [OF u g] ap by (simp add: apart_def)
qed

lemma apart_drop:
  assumes "apart a (w + x) b (w + y)"
  shows "apart a w b w" "apart (a + of_nat w) x b w" "apart (a + of_nat w) x (b + of_nat w) y"
proof -
  have s: "at (c + of_nat w) i = at c (w + i)" for c i by (simp add: algebra_simps)
  show "apart a w b w" "apart (a + of_nat w) x b w" "apart (a + of_nat w) x (b + of_nat w) y"
    using assms unfolding apart_def s by (auto simp del: of_nat_add)
qed

lemma movs_loop:
  assumes wf: "mem_wf m" and u: "unaliased m" and w: "valid_width w"
    and q: "\<not> hs_observed s" and n: "reg cpu kX86pEcx = of_nat n" "n < 2 ^ 32" and len: "length (c_reg cpu) = 8"
    and src: "granted_run m kX86pMemRead (reg cpu kX86pEsi) (w * n)"
    and dst: "granted_run m kX86pMemWrite (reg cpu kX86pEdi) (w * n)"
    and ap: "apart (reg cpu kX86pEsi) (w * n) (reg cpu kX86pEdi) (w * n)"
  shows "rep_loop n m kX86pStringMovs kX86pRepRep w (of_nat w) cpu s = Some (kX86pStringOk, movs_end cpu w n,
    s\<lparr>hs_bytes := byte_writes m (reg cpu kX86pEdi) (guest_bytes m (hs_bytes s) (reg cpu kX86pEsi) (w * n)) (hs_bytes s)\<rparr>)"
  using q n len src dst ap
proof (induction n arbitrary: cpu s)
  case 0
  have "(c_reg cpu)[kX86pEcx := 0] = c_reg cpu" using list_update_id [of "c_reg cpu" kX86pEcx] 0(2) by simp
  then show ?case using 0 by (subst rep_loop.simps) (simp add: guest_bytes_def)
next
  case (Suc n)
  let ?si = "reg cpu kX86pEsi" and ?di = "reg cpu kX86pEdi"
  let ?e = "guest_bytes m (hs_bytes s) ?si w"
  let ?s1 = "s\<lparr>hs_bytes := byte_writes m ?di ?e (hs_bytes s)\<rparr>"
  let ?c1 = "set_reg kX86pEdi (?di + of_nat w) (set_reg kX86pEsi (?si + of_nat w) cpu)"
  have wn: "w * Suc n = w + w * n" by simp
  have r: "granted_run m kX86pMemRead ?si w" "granted_run m kX86pMemRead (?si + of_nat w) (w * n)"
    "granted_run m kX86pMemWrite ?di w" "granted_run m kX86pMemWrite (?di + of_nat w) (w * n)"
    using granted_run_append [of m _ _ w "w * n"] granted_run_drop [of m _ _ "w + w * n" w] Suc.prems(5,6)
    unfolding wn by simp_all
  note ap = apart_drop [OF Suc.prems(7) [unfolded wn]]
  have "unat (of_nat (Suc n) :: u32) = Suc n" using Suc.prems(3) by (rule unat_of_nat32)
  then have nz: "reg cpu kX86pEcx \<noteq> 0" unfolding Suc.prems(2) by auto
  have sp: "split_bytes w (assemble ?e) = ?e" using split_assemble [of ?e] w by auto
  have st: "step_once m kX86pStringMovs w (of_nat w) cpu s = Some (Inr (?c1, ?s1))"
    using w r Suc.prems(1) by (auto simp: step_once_def string_access_def Let_def mem_read_eq [OF wf] mem_write_eq [OF wf] sp)
  have keep: "guest_bytes m (hs_bytes ?s1) (?si + of_nat w) (w * n) = guest_bytes m (hs_bytes s) (?si + of_nat w) (w * n)"
    using guest_bytes_apart [OF u r(2), of ?di ?e] write_grants_read [OF u r(3)] ap(2) by simp
  have "rep_loop n m kX86pStringMovs kX86pRepRep w (of_nat w) (count_down ?c1) ?s1 = Some (kX86pStringOk, movs_end (count_down ?c1) w n,
    ?s1\<lparr>hs_bytes := byte_writes m (?di + of_nat w) (guest_bytes m (hs_bytes ?s1) (?si + of_nat w) (w * n)) (hs_bytes ?s1)\<rparr>)"
    using Suc.IH [of ?s1 "count_down ?c1"] Suc.prems(1-4) r ap by (simp add: reg_defs)
  moreover have "movs_end (count_down ?c1) w n = movs_end cpu w (Suc n)"
    using Suc.prems(4) by (simp add: reg_defs list_update_swap list_update_cover algebra_simps)
  moreover have "guest_bytes m (hs_bytes s) ?si (w * Suc n) = ?e @ guest_bytes m (hs_bytes s) (?si + of_nat w) (w * n)"
    unfolding wn by (rule guest_bytes_append)
  ultimately show ?case using st nz keep
    by (subst rep_loop.simps) (simp add: Let_def rep_stops_def byte_writes_append)
qed

lemma ranges_apart:
  assumes "granted_run m k a (unat n)" "granted_run m k' b (unat n)" "\<not> (\<exists>x. in_range b n x \<and> in_range a n x)"
  shows "apart a (unat n) b (unat n)"
  unfolding apart_def
proof (intro allI impI notI)
  fix i j assume i: "i < unat n" "j < unat n" and e: "at a i = at b j"
  have "in_range a n (at a i)" "in_range b n (at b j)"
    using i assms(1,2) unat_plus [of a i] unat_plus [of b j] by (auto simp: granted_run_def in_range_def)
  then show False using assms(3) e by auto
qed

text \<open>
  C20. Where REP STOS and REP MOVS take their bulk path on a destination the guest may write,
  they leave exactly the machine and the memory the element-by-element repeat leaves.
\<close>

theorem bulk_equals_repeat:
  assumes "mem_wf m" and "unaliased m" and "valid_width w" and "cpu_ok cpu" and "c_df cpu = 0"
    and "granted_run m kX86pMemWrite (reg cpu kX86pEdi) (w * unat (reg cpu kX86pEcx))"
  shows "(\<forall>a c s'. x86p_reg_read cpu kX86pEax w = Some a \<longrightarrow> bulk_stos m w a cpu s = Some (c, s') \<longrightarrow>
      rep_loop (unat (reg cpu kX86pEcx)) m kX86pStringStos kX86pRepRep w (delta_of cpu w) cpu s = Some (kX86pStringOk, c, s')) \<and>
    (\<forall>c s'. bulk_movs m w cpu s = Some (c, s') \<longrightarrow>
      rep_loop (unat (reg cpu kX86pEcx)) m kX86pStringMovs kX86pRepRep w (delta_of cpu w) cpu s = Some (kX86pStringOk, c, s'))"
proof (intro conjI allI impI)
  let ?n = "unat (reg cpu kX86pEcx)" and ?di = "reg cpu kX86pEdi" and ?si = "reg cpu kX86pEsi"
  have d: "delta_of cpu w = of_nat w" by (simp add: delta_of_def assms(5))
  have n: "reg cpu kX86pEcx = of_nat ?n" "?n < 2 ^ 32" by (simp, rule unat_lt32)
  note len = cpu_okD(1) [OF assms(4)]
  fix c s'
  {
    fix a assume a: "x86p_reg_read cpu kX86pEax w = Some a" and b: "bulk_stos m w a cpu s = Some (c, s')"
    then have f: "x86p_mem_fill m s ?di (split_bytes w a) w (reg cpu kX86pEcx) = Some s'" and c: "c = stos_end cpu w ?n"
      by (auto simp: bulk_stos_def Let_def reg_defs split: option.splits)
    note e = mem_fill_eq [OF assms(1) length_split_bytes f]
    have "repeat_write m s ?di (split_bytes w a) ?n = Some s'"
      using repeat_write_run [OF assms(1) length_split_bytes assms(3) e(4) assms(6)] e(6) by simp
    from stos_loop [OF assms(3) a n len this]
    show "rep_loop ?n m kX86pStringStos kX86pRepRep w (delta_of cpu w) cpu s = Some (kX86pStringOk, c, s')"
      by (simp add: d c)
  }
  assume b: "bulk_movs m w cpu s = Some (c, s')"
  let ?b = "?n * w"
  have lt: "?b < 2 ^ 32" using b by (auto simp: bulk_movs_def Let_def split: if_splits)
  have u: "unat (of_nat ?b :: u32) = w * ?n" using unat_of_nat32 [OF lt] by (simp add: mult.commute)
  have f: "x86p_mem_copy_disjoint m s ?di ?si (of_nat ?b) = Some s'" and c: "c = movs_end cpu w ?n"
    using b lt by (auto simp: bulk_movs_def Let_def reg_defs list_update_swap split: option.splits)
  note e = mem_copy_eq [OF assms(1) f, unfolded u]
  have "apart ?si (w * ?n) ?di (w * ?n)"
    using ranges_apart [of m kX86pMemRead ?si "of_nat ?b" kX86pMemRead ?di] e(2,6,7) unfolding u by blast
  from movs_loop [OF assms(1,2,3) e(5) n len e(7) assms(6) this]
  show "rep_loop ?n m kX86pStringMovs kX86pRepRep w (delta_of cpu w) cpu s = Some (kX86pStringOk, c, s')"
    by (simp add: d c e(1))
qed

theorem bulk_equals_repeat_witness:
  "\<exists>c s'. bulk_stos window 1 0 (set_reg kX86pEdi 0x10010 three_left) quiet_host = Some (c, s') \<and>
     rep_loop 3 window kX86pStringStos kX86pRepRep 1 1 (set_reg kX86pEdi 0x10010 three_left) quiet_host = Some (kX86pStringOk, c, s')"
proof -
  let ?c = "set_reg kX86pEdi 0x10010 three_left"
  have regs: "reg ?c kX86pEcx = 3" "reg ?c kX86pEdi = 0x10010" "x86p_reg_read ?c kX86pEax 1 = Some 0" "delta_of ?c 1 = 1" "c_df ?c = 0"
    by (simp_all add: reg_defs x86p_cpu_reset_def x86p_reg_read_def x86p_byte_reg_def delta_of_def)
  have ok: "cpu_ok ?c" using cpu_ok_reset by (simp add: cpu_ok_def)
  have u: "unaliased window" by (rule contiguous_unaliased) (auto simp: window_def)
  have "x86p_mem_accessible window 0x10010 3 kX86pMemWrite" by code_simp
  then have r: "granted_run window kX86pMemWrite (reg ?c kX86pEdi) (1 * unat (reg ?c kX86pEcx))"
    using accessible_iff [OF window_wf, of "0x10010" "3"] unfolding regs by auto
  have "x86p_mem_resolve window 0x10010 3 = Some 0x700010" by code_simp
  then have "bulk_stos window 1 0 ?c quiet_host \<noteq> None"
    unfolding bulk_stos_def regs by (simp add: x86p_mem_fill_def Let_def quiet_host_def window_def)
  then obtain c s' where b: "bulk_stos window 1 0 ?c quiet_host = Some (c, s')" by auto
  have "rep_loop (unat (reg ?c kX86pEcx)) window kX86pStringStos kX86pRepRep 1 (delta_of ?c 1) ?c quiet_host = Some (kX86pStringOk, c, s')"
    using bulk_equals_repeat [OF window_wf u disjI1 [OF refl] ok regs(5) r, of quiet_host] regs(3) b by blast
  moreover have "unat (3 :: u32) = 3" by simp
  ultimately show ?thesis using b unfolding regs by metis
qed

end
