(* ===== verification/X86_Exec_Helpers.thy ===== *)
theory X86_Exec_Helpers
  imports X86_Exec_Properties X86_String_Properties
begin

text \<open>
  The helpers translated code calls (\<open>cpu.c\<close>, \<open>multiply.c\<close>) against the interpreter's own cases
  (\<open>exec.c\<close>): the two implementations of XADD, CMPXCHG, MUL and IMUL leave the same machine.
\<close>

section \<open>Values at a width\<close>

lemma reg_read_fits: "index < 8 \<Longrightarrow> valid_width w \<Longrightarrow> x86p_reg_read cpu index w = Some v \<Longrightarrow> take_bit (8 * w) v = v"
  by (auto simp: reg_read_slot)

lemma mem_read_fits:
  assumes "mem_wf m" "x86p_mem_read m st a w = Some v"
  shows "take_bit (8 * w) v = v"
proof -
  have w: "w \<le> 4" and v: "v = assemble (guest_bytes m st a w)"
    using assms(2) unfolding mem_read_eq [OF assms(1)] by (auto split: if_splits)
  show ?thesis unfolding v
    by (rule bit_word_eqI) (use split_assemble [of "guest_bytes m st a w"] w in \<open>auto simp: bit_take_bit_iff\<close>)
qed

lemma masked_sum:
  assumes "valid_width w"
  shows "((a AND x86p_width_mask w) + (b AND x86p_width_mask w)) AND x86p_width_mask w = (a + b) AND x86p_width_mask w"
proof -
  have "uval w ((a AND x86p_width_mask w) + (b AND x86p_width_mask w)) = uval w (a + b)"
    by (simp add: uint_plus_mod [OF assms])
  then show ?thesis by (simp only: uval_def word_uint_eq_iff)
qed

lemma alu_add_result:
  "valid_width w \<Longrightarrow> x86p_alu kX86pAluAdd a b w f = Some (r, f') \<Longrightarrow> r = take_bit (8 * w) (a + b)"
  using masked_sum [of w a b] and_width_mask [of w "a + b"]
  by (auto simp: x86p_alu_def require_width_def alu_add_def Let_def mult.commute split: bind_splits simp del: One_nat_def)

lemma reg_write_flags:
  "x86p_reg_write (cpu\<lparr>c_flags := f\<rparr>) r w v = map_option (\<lambda>c. c\<lparr>c_flags := f\<rparr>) (x86p_reg_write cpu r w v)"
  by (auto simp: x86p_reg_write_def split: prod.split)

section \<open>The interpreter's cases\<close>

text \<open>An operand in memory that reads as \<open>old\<close>, and a register operand of the same width.\<close>

definition mem_reg_operands :: "mem \<Rightarrow> insn \<Rightarrow> ctx \<Rightarrow> u32 \<Rightarrow> u32 \<Rightarrow> bool" where
  "mem_reg_operands m i c addr old \<longleftrightarrow>
     (let o0 = i_operand i ! 0; o1 = i_operand i ! 1 in
      o_kind o0 = kX86pOperandMem \<and> effective_address (cx_cpu c) o0 = Some addr \<and>
      x86p_mem_read m (hs_bytes (cx_host c)) addr (o_size o0) = Some old \<and>
      o_kind o1 = kX86pOperandReg \<and> o_size o1 = o_size o0 \<and> o_reg o1 < 8 \<and> \<not> faulted c)"

lemma mem_reg_width:
  "mem_reg_operands m i c addr old \<Longrightarrow> valid_width (o_size (i_operand i ! 0))"
  by (auto simp: mem_reg_operands_def x86p_mem_read_def Let_def split: if_splits)

lemma xadd_agrees:
  assumes "mem_wf m" "mem_reg_operands m i c addr old"
    and "x86p_cpu_xadd (cx_cpu c) old (o_reg (i_operand i ! 1)) (o_size (i_operand i ! 0)) = Some (cpu', cell)"
    and "x86p_mem_write m (cx_host c) addr (o_size (i_operand i ! 0)) cell = Some s'"
  shows "execute_xadd m i c = Some (c\<lparr>cx_cpu := cpu', cx_host := s'\<rparr>)"
proof -
  let ?w = "o_size (i_operand i ! 0)" and ?r = "o_reg (i_operand i ! 1)"
  note w = mem_reg_width [OF assms(2)]
  note o = assms(2) [unfolded mem_reg_operands_def Let_def]
  have old: "take_bit (8 * ?w) old = old" using mem_read_fits [OF assms(1)] o by blast
  obtain b sum f where b: "x86p_reg_read (cx_cpu c) ?r ?w = Some b" "x86p_alu kX86pAluAdd old b ?w (c_flags (cx_cpu c)) = Some (sum, f)"
    and wr: "x86p_reg_write ((cx_cpu c)\<lparr>c_flags := f\<rparr>) ?r ?w old = Some cpu'" and cell: "cell = take_bit (8 * ?w) (old + b)"
    using assms(3) w old take_bit_length_eq [where 'a = 32, simplified]
    by (auto simp: x86p_cpu_xadd_def atomic_fetch_add_w_def split: bind_splits prod.splits simp del: One_nat_def)
  have sum: "sum = cell" using alu_add_result [OF w b(2)] cell by simp
  show ?thesis using o b wr assms(4)
    by (auto simp: execute_xadd_def read_operand_def write_operand_def Let_def sum reg_write_flags)
qed

lemma cmpxchg_agrees:
  assumes "mem_wf m" "mem_reg_operands m i c addr old"
    and "x86p_cpu_cmpxchg (cx_cpu c) old (o_reg (i_operand i ! 1)) (o_size (i_operand i ! 0)) = Some (cpu', cell)"
    and "x86p_mem_write m (cx_host c) addr (o_size (i_operand i ! 0)) cell = Some s'"
  shows "execute_cmpxchg m i c = Some (c\<lparr>cx_cpu := cpu', cx_host := s'\<rparr>)"
proof -
  let ?w = "o_size (i_operand i ! 0)" and ?r = "o_reg (i_operand i ! 1)"
  note w = mem_reg_width [OF assms(2)]
  note o = assms(2) [unfolded mem_reg_operands_def Let_def]
  have old: "take_bit (8 * ?w) old = old" using mem_read_fits [OF assms(1)] o by blast
  obtain acc des where rd: "x86p_reg_read (cx_cpu c) kX86pEax ?w = Some acc" "x86p_reg_read (cx_cpu c) ?r ?w = Some des"
    using reg_read_total [OF w] by blast
  have fit: "take_bit (8 * ?w) acc = acc" "take_bit (8 * ?w) des = des"
    using reg_read_fits [OF _ w rd(1)] reg_read_fits [OF _ w rd(2)] o by (simp_all add: kX86pEax_def)
  have ex: "atomic_compare_exchange_w old acc des ?w = (old, if old = acc then des else old)"
    using w old fit unfolding atomic_compare_exchange_w_def by (auto simp: Let_def simp del: One_nat_def)
  show ?thesis using o rd assms(3,4) w
    by (auto simp: execute_cmpxchg_def x86p_cpu_cmpxchg_def read_operand_def write_operand_def Let_def ex reg_write_flags
      split: bind_splits prod.splits if_splits)
qed

lemma low_byte: "(ucast (x AND ucast (0xFF :: u32) :: u64) :: u32) AND 0xFF = ucast (x AND ucast (0xFF :: u32))"
proof (rule bit_word_eqI)
  have "(ucast (0xFF :: u32) :: u64) = mask 8" by (simp add: mask_eq_exp_minus_1)
  then have "bit (ucast (0xFF :: u32) :: u64) n = (n < 8)" for n
    using bit_mask_iff [of 8 n, where 'a = "64 word"] by auto
  then show "bit ((ucast (x AND ucast (0xFF :: u32) :: u64) :: u32) AND 0xFF) n = bit (ucast (x AND ucast (0xFF :: u32)) :: u32) n" for n
    by (auto simp: bit_and_iff bit_ucast_iff bit_FF)
qed

lemma mul_byte_fits:
  "x86p_alu_mul a b 1 f = Some (lo, hi, f') \<Longrightarrow> lo AND 0xFF = lo \<and> hi AND 0xFF = hi"
  "x86p_alu_imul a b 1 f = Some (lo, hi, f') \<Longrightarrow> lo AND 0xFF = lo \<and> hi AND 0xFF = hi"
  by (auto simp only: x86p_alu_mul_def x86p_alu_imul_def x86p_width_mask_def Let_def low_byte split: bind_splits if_splits)

lemma multiply_agrees:
  assumes "read_operand m (i_operand i ! 0) c = Some (v, c)" "\<not> faulted c" "i_operands i = 1"
    and "x86p_multiply_accumulator (cx_cpu c) v signed_mul (o_size (i_operand i ! 0)) = Some cpu'"
  shows "execute_mul m i signed_mul c = Some (c\<lparr>cx_cpu := cpu'\<rparr>)"
proof -
  let ?w = "o_size (i_operand i ! 0)" and ?cpu = "cx_cpu c"
  let ?mul = "\<lambda>a. if signed_mul then x86p_alu_imul a v ?w (c_flags ?cpu) else x86p_alu_mul a v ?w (c_flags ?cpu)"
  obtain a lo hi f where a: "x86p_reg_read ?cpu kX86pEax ?w = Some a" and r: "?mul a = Some (lo, hi, f)"
    and st: "(if ?w = 1 then x86p_reg_write (?cpu\<lparr>c_flags := f\<rparr>) kX86pEax 2 (lo OR push_bit 8 hi)
       else do { cpu \<leftarrow> x86p_reg_write (?cpu\<lparr>c_flags := f\<rparr>) kX86pEax ?w lo; x86p_reg_write cpu kX86pEdx ?w hi }) = Some cpu'"
    using assms(4) unfolding x86p_multiply_accumulator_def x86p_multiply_def Let_def
    by (cases signed_mul) (auto split: bind_splits prod.splits if_splits)
  have "?w = 1 \<Longrightarrow> lo AND 0xFF = lo \<and> hi AND 0xFF = hi" using r mul_byte_fits by (auto split: if_splits)
  then have "mul_result_store ?w lo hi (?cpu\<lparr>c_flags := f\<rparr>) = Some cpu'"
    using st unfolding mul_result_store_def by (auto split: if_splits)
  then show ?thesis using assms(1-3) a r unfolding execute_mul_def Let_def by simp
qed

text \<open>
  C21. Translated code and the interpreter agree on the exchanges and multiplies: run on a memory
  operand's value, the helper of XADD or CMPXCHG leaves the register file and flags the
  interpreter leaves and the cell value it stores; the helper of the one-operand multiplies
  leaves the machine the interpreter leaves.
\<close>

theorem helpers_agree:
  assumes "mem_wf m"
  shows "(\<forall>addr old cpu' cell s'. mem_reg_operands m i c addr old \<longrightarrow> x86p_mem_write m (cx_host c) addr (o_size (i_operand i ! 0)) cell = Some s' \<longrightarrow>
      (x86p_cpu_xadd (cx_cpu c) old (o_reg (i_operand i ! 1)) (o_size (i_operand i ! 0)) = Some (cpu', cell) \<longrightarrow>
        execute_xadd m i c = Some (c\<lparr>cx_cpu := cpu', cx_host := s'\<rparr>)) \<and>
      (x86p_cpu_cmpxchg (cx_cpu c) old (o_reg (i_operand i ! 1)) (o_size (i_operand i ! 0)) = Some (cpu', cell) \<longrightarrow>
        execute_cmpxchg m i c = Some (c\<lparr>cx_cpu := cpu', cx_host := s'\<rparr>))) \<and>
    (\<forall>v cpu' sm. read_operand m (i_operand i ! 0) c = Some (v, c) \<longrightarrow> \<not> faulted c \<longrightarrow> i_operands i = 1 \<longrightarrow>
      x86p_multiply_accumulator (cx_cpu c) v sm (o_size (i_operand i ! 0)) = Some cpu' \<longrightarrow>
      execute_mul m i sm c = Some (c\<lparr>cx_cpu := cpu'\<rparr>))"
  using xadd_agrees [OF assms] cmpxchg_agrees [OF assms] multiply_agrees by blast

definition mul_eax :: insn where
  "mul_eax = inc_eax\<lparr>i_mnemonic := ''MUL'', i_op := Wide kX86pInsnMul\<rparr>"

theorem helpers_agree_witness:
  "\<exists>cpu'. x86p_multiply_accumulator (set_reg 0 0x10000 boot) 0x10000 False 4 = Some cpu' \<and>
     execute_mul window mul_eax False (start mul_eax (set_reg 0 0x10000 boot) quiet_host) =
       Some ((start mul_eax (set_reg 0 0x10000 boot) quiet_host)\<lparr>cx_cpu := cpu'\<rparr>)"
proof -
  let ?cpu = "set_reg 0 0x10000 boot"
  have "case x86p_multiply_accumulator ?cpu 0x10000 False 4 of None \<Rightarrow> False | Some _ \<Rightarrow> True" by code_simp
  then obtain cpu' where h: "x86p_multiply_accumulator ?cpu 0x10000 False 4 = Some cpu'" by (auto split: option.splits)
  have rd: "read_operand window (i_operand mul_eax ! 0) (start mul_eax ?cpu quiet_host) = Some (0x10000, start mul_eax ?cpu quiet_host)"
    "o_size (i_operand mul_eax ! 0) = 4" "i_operands mul_eax = 1"
    by (simp_all add: read_operand_def mul_eax_def inc_eax_def x86p_reg_read_def x86p_cpu_reset_def kX86pRegCount_def Let_def)
  have "execute_mul window mul_eax False (start mul_eax ?cpu quiet_host) = Some ((start mul_eax ?cpu quiet_host)\<lparr>cx_cpu := cpu'\<rparr>)"
    using helpers_agree [OF window_wf, of mul_eax "start mul_eax ?cpu quiet_host"] rd h by simp
  then show ?thesis using h by blast
qed

end
