(* ===== verification/X86_Exec_Faults.thy ===== *)
theory X86_Exec_Faults
  imports X86_Exec_Properties
begin

text \<open>
  Precise faults: which instructions leave the machine and memory untouched when they do not
  complete.  Operand reads never change the machine and a faulting operand write changes nothing;
  the instructions listed make every check before their first effect.
\<close>

section \<open>Operands\<close>

definition machine :: "ctx \<Rightarrow> cpu \<times> host" where
  "machine c = (cx_cpu c, cx_host c)"

lemma machine_simps [simp]:
  "machine (c\<lparr>cx_fault := st\<rparr>) = machine c" "machine (c\<lparr>cx_fault_addr := a\<rparr>) = machine c"
  "machine (c\<lparr>cx_next_eip := e\<rparr>) = machine c"
  by (simp_all add: machine_def)

lemma read_operand_machine:
  "read_operand m opd c = Some (v, c') \<Longrightarrow>
   machine c' = machine c \<and> (o_kind opd = kX86pOperandReg \<longrightarrow> cx_fault c' = cx_fault c)"
  by (auto simp: read_operand_def split: operand_kind.splits bind_splits option.splits)

lemma branch_target_machine: "branch_target m opd c = Some (v, c') \<Longrightarrow> machine c' = machine c"
  by (auto simp: branch_target_def split: if_splits dest: read_operand_machine)

lemma write_operand_fault:
  "write_operand m opd v c = Some c' \<Longrightarrow> faulted c' \<Longrightarrow> cx_fault c = kX86pStepOk \<Longrightarrow> machine c' = machine c"
  by (auto simp: write_operand_def split: operand_kind.splits bind_splits option.splits)

lemma write_operand_outcome:
  "write_operand m opd v c = Some c' \<Longrightarrow>
   (cx_fault c = kX86pStepOk \<longrightarrow> cx_fault c' = kX86pStepOk \<or> machine c' = machine c) \<and>
   (o_kind opd = kX86pOperandReg \<longrightarrow> cx_fault c' = cx_fault c)"
  using write_operand_fault [of m opd v c c'] by (auto simp: write_operand_def split: bind_splits)

text \<open>An outcome that is either a completed instruction or the machine as it was.\<close>

definition precise :: "cpu \<times> host \<Rightarrow> ctx option \<Rightarrow> bool" where
  "precise p r \<longleftrightarrow> (\<forall>c. r = Some c \<longrightarrow> faulted c \<longrightarrow> machine c = p)"

lemma precise_Some: "(faulted c \<Longrightarrow> machine c = p) \<Longrightarrow> precise p (Some c)"
  by (auto simp: precise_def)

lemma precise_bind: "(\<And>x. r = Some x \<Longrightarrow> precise p (k x)) \<Longrightarrow> precise p (r \<bind> k)"
  by (cases r) (simp_all add: precise_def)

lemma precise_write: "machine c = p \<Longrightarrow> \<not> faulted c \<Longrightarrow> precise p (write_operand m opd v c)"
  using write_operand_fault unfolding precise_def by blast

lemma precise_if: "(b \<Longrightarrow> precise p x) \<Longrightarrow> (\<not> b \<Longrightarrow> precise p y) \<Longrightarrow> precise p (if b then x else y)"
  by simp

lemma precise_cases:
  "(x = None \<Longrightarrow> precise p a) \<Longrightarrow> (\<And>y. x = Some y \<Longrightarrow> precise p (b y)) \<Longrightarrow> precise p (case x of None \<Rightarrow> a | Some y \<Rightarrow> b y)"
  "(\<And>y z. q = (y, z) \<Longrightarrow> precise p (g y z)) \<Longrightarrow> precise p (case q of (y, z) \<Rightarrow> g y z)"
  by (auto split: option.split prod.split)

lemmas precise_rules = precise_if precise_cases precise_write precise_bind precise_Some
lemmas machine_facts = read_operand_machine branch_target_machine

section \<open>Instructions\<close>

lemma precise_moves:
  assumes "\<not> faulted c"
  shows "precise (machine c) (exec_mov m i c)" "precise (machine c) (exec_movx m i sx c)" "precise (machine c) (exec_lea m i c)"
    "precise (machine c) (exec_setcc m i c)" "precise (machine c) (exec_cmovcc m i c)"
  using assms unfolding exec_mov_def exec_movx_def exec_lea_def exec_setcc_def exec_cmovcc_def Let_def
  by (auto intro!: precise_rules dest!: machine_facts write_operand_outcome)

lemma precise_div: "\<not> faulted c \<Longrightarrow> precise (machine c) (execute_div m i sd c)"
  unfolding execute_div_def Let_def by (auto intro!: precise_rules dest!: machine_facts write_operand_outcome split: option.split)

lemma precise_bits:
  assumes "\<not> faulted c"
  shows "precise (machine c) (execute_double_shift m i left c)" "precise (machine c) (execute_bit_scan m i reverse c)"
  using assms unfolding execute_double_shift_def execute_bit_scan_def Let_def
  by (auto intro!: precise_rules dest!: machine_facts write_operand_outcome split: option.split prod.split)

lemma precise_exchange:
  assumes "\<not> faulted c" "o_kind (i_operand i ! 1) = kX86pOperandReg"
    and "o_kind (i_operand i ! 0) = kX86pOperandMem \<or> o_kind (i_operand i ! 0) = kX86pOperandReg"
  shows "precise (machine c) (execute_xadd m i c)" "precise (machine c) (execute_bit m i c)"
proof -
  show "precise (machine c) (execute_xadd m i c)"
    using assms unfolding execute_xadd_def Let_def
    by (auto intro!: precise_rules dest!: machine_facts write_operand_outcome split: option.split prod.split) 
  show "precise (machine c) (execute_bit m i c)"
    using assms unfolding execute_bit_def Let_def
    by (auto intro!: precise_rules dest!: machine_facts write_operand_outcome split: if_splits) 
qed

lemma precise_cmpxchg8b:
  assumes "\<not> faulted c"
  shows "precise (machine c) (execute_cmpxchg8b m i c)"
proof -
  have "set_reg kX86pEdx (reg (cx_cpu c) kX86pEdx) (set_reg kX86pEax (reg (cx_cpu c) kX86pEax) cpu)\<lparr>c_flags := c_flags (cx_cpu c)\<rparr> = cx_cpu c"
    if "x86p_cpu_cmpxchg8b (cx_cpu c) q = Some (cpu, q')" for cpu q q'
    using that by (auto simp: x86p_cpu_cmpxchg8b_def Let_def reg_defs list_update_swap split: bind_splits if_splits)
  then show ?thesis unfolding execute_cmpxchg8b_def Let_def
    by (auto intro!: precise_rules simp: machine_def assms)
qed

lemma precise_stack:
  assumes "\<not> faulted c"
  shows "precise (machine c) (exec_push m i c)" "precise (machine c) (exec_pushfd m c)" "precise (machine c) (exec_call m i c)"
    "precise (machine c) (exec_ret m i c)" "precise (machine c) (exec_jcc m i c)"
    "precise (machine c) (go_to (branch_target m opd c))"
proof -
  have p: "faulted (push_or_fault m v c') \<Longrightarrow> \<not> faulted c' \<Longrightarrow> machine (push_or_fault m v c') = machine c'" for v c'
    by (auto simp: push_or_fault_def split: option.splits)
  have q: "pop_or_fault m c = (None, c') \<Longrightarrow> machine c' = machine c" "pop_or_fault m c = (Some v, c') \<Longrightarrow> \<not> faulted c'" for v c'
    using assms by (auto simp: pop_or_fault_def split: option.splits)
  show "precise (machine c) (exec_push m i c)" "precise (machine c) (exec_pushfd m c)" "precise (machine c) (exec_call m i c)"
    using assms unfolding exec_push_def exec_pushfd_def exec_call_def Let_def
    by (auto intro!: precise_rules simp: p dest!: machine_facts split: if_splits)
  show "precise (machine c) (exec_jcc m i c)" "precise (machine c) (go_to (branch_target m opd c))"
    using assms unfolding exec_jcc_def go_to_def by (auto intro!: precise_rules dest!: machine_facts split: if_splits)
  have "\<not> faulted (release_arguments i c')" if "\<not> faulted c'" for c'
    using that by (simp add: release_arguments_def Let_def)
  then show "precise (machine c) (exec_ret m i c)"
    using q unfolding exec_ret_def by (auto intro!: precise_rules)
qed

text \<open>The instructions the claim is about.\<close>

definition restartable :: "insn \<Rightarrow> bool" where
  "restartable i \<longleftrightarrow>
     (case i_op i of
        Data d \<Rightarrow> d \<in> {kX86pInsnMov, kX86pInsnMovzx, kX86pInsnMovsx, kX86pInsnLea, kX86pInsnSetcc, kX86pInsnCmovcc}
      | Wide d \<Rightarrow>
          d \<in> {kX86pInsnDiv, kX86pInsnIdiv, kX86pInsnCmpxchg, kX86pInsnCmpxchg8b, kX86pInsnBsf, kX86pInsnBsr,
            kX86pInsnShld, kX86pInsnShrd, kX86pInsnBcd} \<or>
          d \<in> {kX86pInsnXadd, kX86pInsnBit} \<and> o_kind (i_operand i ! 1) = kX86pOperandReg \<and>
            o_kind (i_operand i ! 0) \<in> {kX86pOperandMem, kX86pOperandReg}
      | Flow d \<Rightarrow> d \<in> {kX86pInsnJmp, kX86pInsnJcc, kX86pInsnCall, kX86pInsnRet}
      | Stack d \<Rightarrow> d \<in> {kX86pInsnPush, kX86pInsnPushfd}
      | _ \<Rightarrow> False)"

lemma precise_cmpxchg: "\<not> faulted c \<Longrightarrow> precise (machine c) (execute_cmpxchg m i c)"
  unfolding execute_cmpxchg_def Let_def
  by (auto intro!: precise_rules dest!: machine_facts write_operand_outcome)

lemma precise_bcd: "\<not> faulted c \<Longrightarrow> precise (machine c) (execute_bcd i c)"
  unfolding execute_bcd_def Let_def by (auto intro!: precise_rules)

lemma precise_execute:
  assumes "restartable i" "\<not> faulted c"
  shows "precise (machine c) (execute en m i c)"
proof (cases "i_op i")
  case (Data d)
  then show ?thesis using assms precise_moves [OF assms(2)]
    by (auto simp: restartable_def execute_def execute_data_def)
next
  case (Wide d)
  then show ?thesis using assms precise_div [OF assms(2)] precise_bits [OF assms(2)] precise_cmpxchg [OF assms(2)]
      precise_cmpxchg8b [OF assms(2)] precise_exchange [OF assms(2)] precise_bcd [OF assms(2)]
    by (auto simp: restartable_def execute_def execute_wide_def)
next
  case (Flow d)
  then show ?thesis using assms precise_stack [OF assms(2)]
    by (auto simp: restartable_def execute_def execute_flow_def)
next
  case (Stack d)
  then show ?thesis using assms precise_stack [OF assms(2)]
    by (auto simp: restartable_def execute_def execute_stack_def)
qed (use assms in \<open>simp_all add: restartable_def\<close>)

text \<open>
  C9. Moves, divides, compare-and-exchange, scans, double shifts, decimal adjustments, branches,
  calls and pushes report a fault before their first effect: the machine and memory are those the
  instruction started with, so that it can be run again.
\<close>

theorem faults_are_restartable:
  assumes "restartable i" and "x86p_execute_decoded en m i cpu s = Some (st, a, cpu', s')" and "st \<noteq> kX86pStepOk"
  shows "cpu' = cpu \<and> s' = s"
proof (cases "i_op i = kX86pInsnUnsupported")
  case False
  then obtain c where c: "execute en m i (start i cpu s) = Some c" "faulted c" "cpu' = cx_cpu c" "s' = cx_host c"
    using assms(2,3) by (auto simp: x86p_execute_decoded_def split: bind_splits if_splits)
  have "precise (machine (start i cpu s)) (execute en m i (start i cpu s))"
    by (rule precise_execute [OF assms(1)]) simp
  then have "machine c = machine (start i cpu s)" using c by (simp add: precise_def)
  then show ?thesis using c by (simp add: machine_def)
qed (use assms in \<open>simp add: x86p_execute_decoded_def\<close>)

definition div_by_zero :: insn where
  "div_by_zero = inc_eax\<lparr>i_mnemonic := ''DIV'', i_op := Wide kX86pInsnDiv\<rparr>"

theorem faults_are_restartable_witness:
  "x86p_execute_decoded demo window div_by_zero boot quiet_host = Some (kX86pStepDivideError, 0, boot, quiet_host)"
proof -
  have r: "restartable div_by_zero" by (simp add: restartable_def div_by_zero_def)
  have "\<exists>cpu' s'. x86p_execute_decoded demo window div_by_zero boot quiet_host = Some (kX86pStepDivideError, 0, cpu', s')"
    by (simp add: x86p_execute_decoded_def execute_def execute_wide_def execute_div_def div_operands_def read_operand_def
      div_by_zero_def inc_eax_def x86p_reg_read_def x86p_alu_div_def require_width_def x86p_cpu_reset_def reg_defs Let_def)
  then obtain cpu' s' where x: "x86p_execute_decoded demo window div_by_zero boot quiet_host = Some (kX86pStepDivideError, 0, cpu', s')"
    by blast
  from faults_are_restartable [OF r x] x show ?thesis by simp
qed

text \<open>
  The arithmetic instructions are not in the list: they record their flags before the store that
  can fault.  An ADC to a page that cannot be written faults with the carry it consumed gone.
\<close>

definition adc_mem :: insn where
  "adc_mem = inc_eax\<lparr>i_mnemonic := ''ADC'', i_op := Data kX86pInsnAlu, i_alu := kX86pAluAdc, i_operands := 2,
     i_operand := [(i_operand inc_eax ! 0)\<lparr>o_kind := kX86pOperandMem, o_disp := 0x11000\<rparr>,
       (i_operand inc_eax ! 0)\<lparr>o_kind := kX86pOperandImm, o_imm := 1\<rparr>, i_operand inc_eax ! 2]\<rparr>"

lemma alu_fault_changes_flags:
  "\<exists>cpu'. x86p_execute_decoded demo window adc_mem (boot\<lparr>c_flags := x86p_flags_set_explicit flags_zero X86P_CF\<rparr>) quiet_host =
     Some (kX86pStepMemoryFault, 0x11000, cpu', quiet_host) \<and> \<not> x86p_flag_cf (c_flags cpu')"
proof -
  have "x86p_mem_accessible window 0x11000 4 kX86pMemRead" "\<not> x86p_mem_accessible window 0x11000 4 kX86pMemWrite" by code_simp+
  then have r: "granted_run window kX86pMemRead 0x11000 4" "\<not> granted_run window kX86pMemWrite 0x11000 4"
    unfolding accessible_iff [OF window_wf] using access_kinds by auto
  have "guest_bytes window (hs_bytes quiet_host) 0x11000 4 = [0, 0, 0, 0]"
    by (simp add: guest_bytes_def quiet_host_def upt_rec)
  then have rd: "x86p_mem_read window (hs_bytes quiet_host) 0x11000 4 = Some 0" using r by (simp add: mem_read_eq [OF window_wf] assemble_def)
  have wr: "x86p_mem_write window quiet_host 0x11000 4 v = None" for v using r by (simp add: mem_write_eq [OF window_wf])
  have "case x86p_alu kX86pAluAdc 0 1 4 (x86p_flags_set_explicit flags_zero X86P_CF) of
      Some (r, f) \<Rightarrow> r = 2 \<and> \<not> x86p_flag_cf f | None \<Rightarrow> False" by code_simp
  then obtain f where f: "x86p_alu kX86pAluAdc 0 1 4 (x86p_flags_set_explicit flags_zero X86P_CF) = Some (2, f)" "\<not> x86p_flag_cf f"
    by (auto split: option.splits)
  show ?thesis
    using f rd wr by (simp add: x86p_execute_decoded_def execute_def execute_data_def exec_alu_def read_operand_def write_operand_def
      effective_address_def adc_mem_def inc_eax_def Let_def)
qed

end
