(* ===== verification/X86_Wasm_Emit.thy ===== *)
theory X86_Wasm_Emit
  imports X86_Prelude
begin

text \<open>
  The WebAssembly encoder of \<open>src/src/x86port/emit_wasm.h\<close> and \<open>emit_wasm.c\<close>: a buffer of fixed
  capacity with a sticky overflow flag, the primitives, sections and their size slots, and the
  instructions the backend uses.

  The buffer is the first \<open>cap\<close> bytes of the memory its pointer leads to, a list; positions and
  lengths (\<open>size_t\<close>) are natural numbers, the counters are 32-bit.  A signed immediate is an integer in the range of its type;
  the arithmetic shift is division.  Names are strings without the terminator.
\<close>

section \<open>The encoder's alphabet\<close>

datatype wasm_type = kWasmI32 | kWasmI64 | kWasmF32 | kWasmF64 | kWasmV128 | kWasmVoid

primrec type_code :: "wasm_type \<Rightarrow> u8" where
  "type_code kWasmI32 = 0x7F" | "type_code kWasmI64 = 0x7E" | "type_code kWasmF32 = 0x7D"
| "type_code kWasmF64 = 0x7C" | "type_code kWasmV128 = 0x7B" | "type_code kWasmVoid = 0x40"

datatype wasm_section =
    kWasmSectionType | kWasmSectionImport | kWasmSectionFunction | kWasmSectionTable | kWasmSectionMemory
  | kWasmSectionGlobal | kWasmSectionExport | kWasmSectionStart | kWasmSectionElement | kWasmSectionCode
  | kWasmSectionData

primrec section_code :: "wasm_section \<Rightarrow> u8" where
  "section_code kWasmSectionType = 1" | "section_code kWasmSectionImport = 2" | "section_code kWasmSectionFunction = 3"
| "section_code kWasmSectionTable = 4" | "section_code kWasmSectionMemory = 5" | "section_code kWasmSectionGlobal = 6"
| "section_code kWasmSectionExport = 7" | "section_code kWasmSectionStart = 8" | "section_code kWasmSectionElement = 9"
| "section_code kWasmSectionCode = 10" | "section_code kWasmSectionData = 11"

datatype wasm_external = kWasmExternalFunc | kWasmExternalTable | kWasmExternalMemory | kWasmExternalGlobal

primrec external_code :: "wasm_external \<Rightarrow> u8" where
  "external_code kWasmExternalFunc = 0" | "external_code kWasmExternalTable = 1"
| "external_code kWasmExternalMemory = 2" | "external_code kWasmExternalGlobal = 3"

section \<open>The buffer\<close>

record wasm_emit =
  we_buf :: "u8 list"
  we_cap :: nat
  we_len :: nat
  we_overflow :: bool
  we_sizes_opened :: u32
  we_sizes_closed :: u32
  we_blocks_opened :: u32
  we_blocks_closed :: u32
  we_bodies_opened :: u32
  we_bodies_closed :: u32

definition fits :: "wasm_emit \<Rightarrow> nat \<Rightarrow> bool \<times> wasm_emit" where
  "fits e n =
     (if we_overflow e then (False, e)
      else if we_cap e < we_len e + n then (False, e\<lparr>we_overflow := True\<rparr>)
      else (True, e))"

definition x86p_wasm_init :: "u8 list \<Rightarrow> nat \<Rightarrow> wasm_emit" where
  "x86p_wasm_init buf cap =
     \<lparr>we_buf = buf, we_cap = cap, we_len = 0, we_overflow = False, we_sizes_opened = 0, we_sizes_closed = 0,
      we_blocks_opened = 0, we_blocks_closed = 0, we_bodies_opened = 0, we_bodies_closed = 0\<rparr>"

definition x86p_wasm_ok :: "wasm_emit \<Rightarrow> bool" where
  "x86p_wasm_ok e \<longleftrightarrow> \<not> we_overflow e \<and> we_sizes_opened e = we_sizes_closed e \<and>
     we_blocks_opened e = we_blocks_closed e \<and> we_bodies_opened e = we_bodies_closed e"

definition x86p_wasm_intact :: "wasm_emit \<Rightarrow> bool" where
  "x86p_wasm_intact e \<longleftrightarrow> \<not> we_overflow e"

definition x86p_wasm_here :: "wasm_emit \<Rightarrow> nat" where
  "x86p_wasm_here e = we_len e"

section \<open>Primitives\<close>

definition x86p_wasm_byte :: "u8 \<Rightarrow> wasm_emit \<Rightarrow> wasm_emit" where
  "x86p_wasm_byte b e =
     (case fits e 1 of
        (False, e) \<Rightarrow> e
      | (True, e) \<Rightarrow> e\<lparr>we_buf := (we_buf e)[we_len e := b], we_len := we_len e + 1\<rparr>)"

definition x86p_wasm_bytes :: "u8 list \<Rightarrow> wasm_emit \<Rightarrow> wasm_emit" where
  "x86p_wasm_bytes p e =
     (case fits e (length p) of
        (False, e) \<Rightarrow> e
      | (True, e) \<Rightarrow>
          e\<lparr>we_buf := take (we_len e) (we_buf e) @ p @ drop (we_len e + length p) (we_buf e),
            we_len := we_len e + length p\<rparr>)"

lemma unat_shift7: "unat (drop_bit 7 v) = unat v div 128"
  unfolding unat_drop_bit_eq by (simp only: drop_bit_eq_div) simp

lemma shift7_less: "drop_bit 7 v \<noteq> 0 \<Longrightarrow> unat (drop_bit 7 v) < unat v"
proof -
  assume n: "drop_bit 7 v \<noteq> 0"
  have "unat (drop_bit 7 v) \<noteq> 0" using n by (simp add: unat_eq_zero)
  then show ?thesis unfolding unat_shift7 by (simp add: div_eq_0_iff)
qed

function x86p_wasm_u32 :: "u32 \<Rightarrow> wasm_emit \<Rightarrow> wasm_emit" where
  "x86p_wasm_u32 v e =
     (let byte = ucast (v AND 0x7F) :: u8; v = drop_bit 7 v in
      if v \<noteq> 0 then x86p_wasm_u32 v (x86p_wasm_byte (byte OR 0x80) e)
      else x86p_wasm_byte byte e)"
  by pat_completeness auto
termination
  by (relation "measure (\<lambda>(v, e). unat v)") (use shift7_less in auto)

declare x86p_wasm_u32.simps [simp del]

definition sleb_measure :: "int \<Rightarrow> nat" where
  "sleb_measure v = nat (if v < 0 then - v - 1 else v)"

lemma sleb_measure_less: "v \<noteq> 0 \<Longrightarrow> v \<noteq> -1 \<Longrightarrow> sleb_measure (v div 128) < sleb_measure v"
  by (auto simp: sleb_measure_def)

lemma sleb_stops_at_last: "v = 0 \<or> v = -1 \<Longrightarrow> bit (word_of_int (v mod 128) :: u8) 6 = (v = -1)"
  by (elim disjE; simp)

text \<open>The signed encoding stops where the sign of the last byte agrees with the rest of the value.\<close>

function emit_sleb :: "int \<Rightarrow> wasm_emit \<Rightarrow> wasm_emit" where
  "emit_sleb v e =
     (let byte = word_of_int (v mod 128) :: u8; sign_bit_set = bit byte 6; v = v div 128 in
      if (v = 0 \<and> \<not> sign_bit_set) \<or> (v = -1 \<and> sign_bit_set) then x86p_wasm_byte byte e
      else emit_sleb v (x86p_wasm_byte (byte OR 0x80) e))"
  by pat_completeness auto

termination
proof (relation "measure (\<lambda>(v, e). sleb_measure v)", goal_cases)
  case (2 v e byte sign w)
  have "v \<noteq> 0 \<and> v \<noteq> -1" using 2 sleb_stops_at_last [of v] by auto
  then show ?case using 2 sleb_measure_less [of v] by simp
qed simp

declare emit_sleb.simps [simp del]

definition x86p_wasm_i32 :: "32 word \<Rightarrow> wasm_emit \<Rightarrow> wasm_emit" where
  "x86p_wasm_i32 v = emit_sleb (sint v)"

definition x86p_wasm_i64 :: "64 word \<Rightarrow> wasm_emit \<Rightarrow> wasm_emit" where
  "x86p_wasm_i64 v = emit_sleb (sint v)"

definition x86p_wasm_name :: "string \<Rightarrow> wasm_emit \<Rightarrow> wasm_emit" where
  "x86p_wasm_name name e =
     x86p_wasm_bytes (List.map of_char name) (x86p_wasm_u32 (of_nat (length name)) e)"

section \<open>The module and its sections\<close>

definition x86p_wasm_module_begin :: "wasm_emit \<Rightarrow> wasm_emit" where
  "x86p_wasm_module_begin = x86p_wasm_bytes [0x00, 0x61, 0x73, 0x6D, 0x01, 0x00, 0x00, 0x00]"

definition X86P_WASM_SIZE_WIDTH :: nat where
  "X86P_WASM_SIZE_WIDTH = 5"

record wasm_size =
  ws_at :: nat

definition open_size :: "wasm_emit \<Rightarrow> wasm_size \<times> wasm_emit" where
  "open_size e =
     (\<lparr>ws_at = we_len e\<rparr>,
      (x86p_wasm_byte 0 ^^ X86P_WASM_SIZE_WIDTH) (e\<lparr>we_sizes_opened := we_sizes_opened e + 1\<rparr>))"

definition x86p_wasm_section_begin :: "wasm_section \<Rightarrow> wasm_emit \<Rightarrow> wasm_size \<times> wasm_emit" where
  "x86p_wasm_section_begin i e = open_size (x86p_wasm_byte (section_code i) e)"

text \<open>The patching loop: \<open>n\<close> bytes are left, the last without its continuation bit.\<close>

primrec patch_size :: "nat \<Rightarrow> nat \<Rightarrow> u64 \<Rightarrow> u8 list \<Rightarrow> u8 list" where
  "patch_size 0 p l buf = buf"
| "patch_size (Suc n) p l buf =
     (let byte = ucast (l AND 0x7F) :: u8;
          byte = (if n \<noteq> 0 then byte OR 0x80 else byte)
      in patch_size n (p + 1) (drop_bit 7 l) (buf[p := byte]))"

definition x86p_wasm_size_end :: "wasm_size \<Rightarrow> wasm_emit \<Rightarrow> wasm_emit" where
  "x86p_wasm_size_end sz e =
     (let start = ws_at sz + X86P_WASM_SIZE_WIDTH; e = e\<lparr>we_sizes_closed := we_sizes_closed e + 1\<rparr> in
      if we_overflow e then e
      else if start > we_len e \<or> start > we_cap e then e\<lparr>we_overflow := True\<rparr>
      else if we_len e - start > 0xFFFFFFFF then e\<lparr>we_overflow := True\<rparr>
      else e\<lparr>we_buf := patch_size X86P_WASM_SIZE_WIDTH (ws_at sz) (of_nat (we_len e - start)) (we_buf e)\<rparr>)"

definition x86p_wasm_functype :: "wasm_type list \<Rightarrow> wasm_type list \<Rightarrow> wasm_emit \<Rightarrow> wasm_emit" where
  "x86p_wasm_functype params results e =
     (let e = x86p_wasm_u32 (of_nat (length params)) (x86p_wasm_byte 0x60 e);
          e = fold (\<lambda>t. x86p_wasm_byte (type_code t)) params e;
          e = x86p_wasm_u32 (of_nat (length results)) e
      in fold (\<lambda>t. x86p_wasm_byte (type_code t)) results e)"

definition x86p_wasm_import_func :: "string \<Rightarrow> string \<Rightarrow> u32 \<Rightarrow> wasm_emit \<Rightarrow> wasm_emit" where
  "x86p_wasm_import_func module field ti e =
     x86p_wasm_u32 ti (x86p_wasm_byte (external_code kWasmExternalFunc)
       (x86p_wasm_name field (x86p_wasm_name module e)))"

definition emit_limits :: "u32 \<Rightarrow> u32 option \<Rightarrow> wasm_emit \<Rightarrow> wasm_emit" where
  "emit_limits minimum maximum e =
     (case maximum of
        None \<Rightarrow> x86p_wasm_u32 minimum (x86p_wasm_byte 0x00 e)
      | Some m \<Rightarrow> x86p_wasm_u32 m (x86p_wasm_u32 minimum (x86p_wasm_byte 0x01 e)))"

definition x86p_wasm_import_memory :: "string \<Rightarrow> string \<Rightarrow> u32 \<Rightarrow> u32 option \<Rightarrow> wasm_emit \<Rightarrow> wasm_emit" where
  "x86p_wasm_import_memory module field minimum maximum e =
     emit_limits minimum maximum (x86p_wasm_byte (external_code kWasmExternalMemory)
       (x86p_wasm_name field (x86p_wasm_name module e)))"

definition x86p_wasm_import_shared_memory :: "string \<Rightarrow> string \<Rightarrow> u32 \<Rightarrow> u32 \<Rightarrow> wasm_emit \<Rightarrow> wasm_emit" where
  "x86p_wasm_import_shared_memory module field minimum maximum e =
     x86p_wasm_u32 maximum (x86p_wasm_u32 minimum (x86p_wasm_byte 0x03
       (x86p_wasm_byte (external_code kWasmExternalMemory) (x86p_wasm_name field (x86p_wasm_name module e)))))"

definition x86p_wasm_import_table :: "string \<Rightarrow> string \<Rightarrow> u32 \<Rightarrow> u32 option \<Rightarrow> wasm_emit \<Rightarrow> wasm_emit" where
  "x86p_wasm_import_table module field minimum maximum e =
     emit_limits minimum maximum (x86p_wasm_byte 0x70
       (x86p_wasm_byte (external_code kWasmExternalTable) (x86p_wasm_name field (x86p_wasm_name module e))))"

definition x86p_wasm_export_func :: "string \<Rightarrow> u32 \<Rightarrow> wasm_emit \<Rightarrow> wasm_emit" where
  "x86p_wasm_export_func field fi e =
     x86p_wasm_u32 fi (x86p_wasm_byte (external_code kWasmExternalFunc) (x86p_wasm_name field e))"

definition x86p_wasm_body_begin :: "wasm_emit \<Rightarrow> wasm_size \<times> wasm_emit" where
  "x86p_wasm_body_begin e = open_size (e\<lparr>we_bodies_opened := we_bodies_opened e + 1\<rparr>)"

definition x86p_wasm_locals :: "u32 \<Rightarrow> wasm_emit \<Rightarrow> wasm_emit" where
  "x86p_wasm_locals n e = x86p_wasm_u32 n e"

definition x86p_wasm_local_group :: "u32 \<Rightarrow> wasm_type \<Rightarrow> wasm_emit \<Rightarrow> wasm_emit" where
  "x86p_wasm_local_group n t e = x86p_wasm_byte (type_code t) (x86p_wasm_u32 n e)"

definition x86p_wasm_body_end :: "wasm_size \<Rightarrow> wasm_emit \<Rightarrow> wasm_emit" where
  "x86p_wasm_body_end body e =
     (let e = x86p_wasm_byte 0x0B e
      in x86p_wasm_size_end body (e\<lparr>we_bodies_closed := we_bodies_closed e + 1\<rparr>))"

section \<open>Instructions\<close>

datatype wasm_i32_op =
    kWasmI32Eqz | kWasmI32Eq | kWasmI32Ne | kWasmI32LtS | kWasmI32LtU | kWasmI32GtS
  | kWasmI32GtU | kWasmI32LeS | kWasmI32LeU | kWasmI32GeS | kWasmI32GeU | kWasmI32Clz
  | kWasmI32Ctz | kWasmI32Popcnt | kWasmI32Add | kWasmI32Sub | kWasmI32Mul | kWasmI32DivS
  | kWasmI32DivU | kWasmI32RemS | kWasmI32RemU | kWasmI32And | kWasmI32Or | kWasmI32Xor
  | kWasmI32Shl | kWasmI32ShrS | kWasmI32ShrU | kWasmI32Rotl | kWasmI32Rotr

primrec i32_op_code :: "wasm_i32_op \<Rightarrow> u8" where
  "i32_op_code kWasmI32Eqz = 0x45" | "i32_op_code kWasmI32Eq = 0x46" | "i32_op_code kWasmI32Ne = 0x47" | "i32_op_code kWasmI32LtS = 0x48"
| "i32_op_code kWasmI32LtU = 0x49" | "i32_op_code kWasmI32GtS = 0x4A" | "i32_op_code kWasmI32GtU = 0x4B" | "i32_op_code kWasmI32LeS = 0x4C"
| "i32_op_code kWasmI32LeU = 0x4D" | "i32_op_code kWasmI32GeS = 0x4E" | "i32_op_code kWasmI32GeU = 0x4F" | "i32_op_code kWasmI32Clz = 0x67"
| "i32_op_code kWasmI32Ctz = 0x68" | "i32_op_code kWasmI32Popcnt = 0x69" | "i32_op_code kWasmI32Add = 0x6A" | "i32_op_code kWasmI32Sub = 0x6B"
| "i32_op_code kWasmI32Mul = 0x6C" | "i32_op_code kWasmI32DivS = 0x6D" | "i32_op_code kWasmI32DivU = 0x6E" | "i32_op_code kWasmI32RemS = 0x6F"
| "i32_op_code kWasmI32RemU = 0x70" | "i32_op_code kWasmI32And = 0x71" | "i32_op_code kWasmI32Or = 0x72" | "i32_op_code kWasmI32Xor = 0x73"
| "i32_op_code kWasmI32Shl = 0x74" | "i32_op_code kWasmI32ShrS = 0x75" | "i32_op_code kWasmI32ShrU = 0x76" | "i32_op_code kWasmI32Rotl = 0x77"
| "i32_op_code kWasmI32Rotr = 0x78"

datatype wasm_f64_op =
    kWasmF64Add | kWasmF64Sub | kWasmF64Mul | kWasmF64Div

primrec f64_op_code :: "wasm_f64_op \<Rightarrow> u8" where
  "f64_op_code kWasmF64Add = 0xA0" | "f64_op_code kWasmF64Sub = 0xA1" | "f64_op_code kWasmF64Mul = 0xA2" | "f64_op_code kWasmF64Div = 0xA3"

datatype wasm_simd_op =
    kWasmV128Not | kWasmV128And | kWasmV128AndNot | kWasmV128Or | kWasmV128Xor | kWasmF32x4Add
  | kWasmF32x4Sub | kWasmF32x4Mul | kWasmF32x4Div

primrec simd_op_code :: "wasm_simd_op \<Rightarrow> u32" where
  "simd_op_code kWasmV128Not = 77" | "simd_op_code kWasmV128And = 78" | "simd_op_code kWasmV128AndNot = 79" | "simd_op_code kWasmV128Or = 80"
| "simd_op_code kWasmV128Xor = 81" | "simd_op_code kWasmF32x4Add = 228" | "simd_op_code kWasmF32x4Sub = 229" | "simd_op_code kWasmF32x4Mul = 230"
| "simd_op_code kWasmF32x4Div = 231"

definition x86p_wasm_i32_const :: "32 word \<Rightarrow> wasm_emit \<Rightarrow> wasm_emit" where
  "x86p_wasm_i32_const v e = x86p_wasm_i32 v (x86p_wasm_byte 0x41 e)"

definition x86p_wasm_i64_const :: "64 word \<Rightarrow> wasm_emit \<Rightarrow> wasm_emit" where
  "x86p_wasm_i64_const v e = x86p_wasm_i64 v (x86p_wasm_byte 0x42 e)"

definition emit_index_op :: "u8 \<Rightarrow> u32 \<Rightarrow> wasm_emit \<Rightarrow> wasm_emit" where
  "emit_index_op opcode i e = x86p_wasm_u32 i (x86p_wasm_byte opcode e)"

definition x86p_wasm_local_get :: "u32 \<Rightarrow> wasm_emit \<Rightarrow> wasm_emit" where
  "x86p_wasm_local_get i e = emit_index_op 0x20 i e"

definition x86p_wasm_local_set :: "u32 \<Rightarrow> wasm_emit \<Rightarrow> wasm_emit" where
  "x86p_wasm_local_set i e = emit_index_op 0x21 i e"

definition x86p_wasm_local_tee :: "u32 \<Rightarrow> wasm_emit \<Rightarrow> wasm_emit" where
  "x86p_wasm_local_tee i e = emit_index_op 0x22 i e"

definition x86p_wasm_global_get :: "u32 \<Rightarrow> wasm_emit \<Rightarrow> wasm_emit" where
  "x86p_wasm_global_get i e = emit_index_op 0x23 i e"

definition x86p_wasm_global_set :: "u32 \<Rightarrow> wasm_emit \<Rightarrow> wasm_emit" where
  "x86p_wasm_global_set i e = emit_index_op 0x24 i e"

definition emit_mem_op :: "u8 \<Rightarrow> u32 \<Rightarrow> u32 \<Rightarrow> wasm_emit \<Rightarrow> wasm_emit" where
  "emit_mem_op opcode align offset e = x86p_wasm_u32 offset (x86p_wasm_u32 align (x86p_wasm_byte opcode e))"

definition x86p_wasm_i32_load :: "u32 \<Rightarrow> u32 \<Rightarrow> wasm_emit \<Rightarrow> wasm_emit" where
  "x86p_wasm_i32_load align offset e = emit_mem_op 0x28 align offset e"

definition x86p_wasm_i64_load :: "u32 \<Rightarrow> u32 \<Rightarrow> wasm_emit \<Rightarrow> wasm_emit" where
  "x86p_wasm_i64_load align offset e = emit_mem_op 0x29 align offset e"

definition x86p_wasm_i32_load8_s :: "u32 \<Rightarrow> u32 \<Rightarrow> wasm_emit \<Rightarrow> wasm_emit" where
  "x86p_wasm_i32_load8_s align offset e = emit_mem_op 0x2C align offset e"

definition x86p_wasm_i32_load8_u :: "u32 \<Rightarrow> u32 \<Rightarrow> wasm_emit \<Rightarrow> wasm_emit" where
  "x86p_wasm_i32_load8_u align offset e = emit_mem_op 0x2D align offset e"

definition x86p_wasm_i32_load16_s :: "u32 \<Rightarrow> u32 \<Rightarrow> wasm_emit \<Rightarrow> wasm_emit" where
  "x86p_wasm_i32_load16_s align offset e = emit_mem_op 0x2E align offset e"

definition x86p_wasm_i32_load16_u :: "u32 \<Rightarrow> u32 \<Rightarrow> wasm_emit \<Rightarrow> wasm_emit" where
  "x86p_wasm_i32_load16_u align offset e = emit_mem_op 0x2F align offset e"

definition x86p_wasm_i32_store :: "u32 \<Rightarrow> u32 \<Rightarrow> wasm_emit \<Rightarrow> wasm_emit" where
  "x86p_wasm_i32_store align offset e = emit_mem_op 0x36 align offset e"

definition x86p_wasm_i64_store :: "u32 \<Rightarrow> u32 \<Rightarrow> wasm_emit \<Rightarrow> wasm_emit" where
  "x86p_wasm_i64_store align offset e = emit_mem_op 0x37 align offset e"

definition x86p_wasm_i32_store8 :: "u32 \<Rightarrow> u32 \<Rightarrow> wasm_emit \<Rightarrow> wasm_emit" where
  "x86p_wasm_i32_store8 align offset e = emit_mem_op 0x3A align offset e"

definition x86p_wasm_i32_store16 :: "u32 \<Rightarrow> u32 \<Rightarrow> wasm_emit \<Rightarrow> wasm_emit" where
  "x86p_wasm_i32_store16 align offset e = emit_mem_op 0x3B align offset e"

definition x86p_wasm_i32_op :: "wasm_i32_op \<Rightarrow> wasm_emit \<Rightarrow> wasm_emit" where
  "x86p_wasm_i32_op op e = x86p_wasm_byte (i32_op_code op) e"

definition x86p_wasm_i64_extend_i32_s :: "wasm_emit \<Rightarrow> wasm_emit" where
  "x86p_wasm_i64_extend_i32_s e = x86p_wasm_byte 0xAC e"

definition x86p_wasm_i64_extend_i32_u :: "wasm_emit \<Rightarrow> wasm_emit" where
  "x86p_wasm_i64_extend_i32_u e = x86p_wasm_byte 0xAD e"

definition x86p_wasm_i32_wrap_i64 :: "wasm_emit \<Rightarrow> wasm_emit" where
  "x86p_wasm_i32_wrap_i64 e = x86p_wasm_byte 0xA7 e"

definition x86p_wasm_i64_mul :: "wasm_emit \<Rightarrow> wasm_emit" where
  "x86p_wasm_i64_mul e = x86p_wasm_byte 0x7E e"

definition x86p_wasm_i64_shr_u :: "wasm_emit \<Rightarrow> wasm_emit" where
  "x86p_wasm_i64_shr_u e = x86p_wasm_byte 0x88 e"

definition x86p_wasm_i64_and :: "wasm_emit \<Rightarrow> wasm_emit" where
  "x86p_wasm_i64_and e = x86p_wasm_byte 0x83 e"

definition x86p_wasm_i64_or :: "wasm_emit \<Rightarrow> wasm_emit" where
  "x86p_wasm_i64_or e = x86p_wasm_byte 0x84 e"

definition x86p_wasm_i64_shl :: "wasm_emit \<Rightarrow> wasm_emit" where
  "x86p_wasm_i64_shl e = x86p_wasm_byte 0x86 e"

definition x86p_wasm_i64_add :: "wasm_emit \<Rightarrow> wasm_emit" where
  "x86p_wasm_i64_add e = x86p_wasm_byte 0x7C e"

definition x86p_wasm_i64_eq :: "wasm_emit \<Rightarrow> wasm_emit" where
  "x86p_wasm_i64_eq e = x86p_wasm_byte 0x51 e"

definition x86p_wasm_i64_eqz :: "wasm_emit \<Rightarrow> wasm_emit" where
  "x86p_wasm_i64_eqz e = x86p_wasm_byte 0x50 e"

definition x86p_wasm_i64_lt_u :: "wasm_emit \<Rightarrow> wasm_emit" where
  "x86p_wasm_i64_lt_u e = x86p_wasm_byte 0x54 e"

definition x86p_wasm_i64_gt_u :: "wasm_emit \<Rightarrow> wasm_emit" where
  "x86p_wasm_i64_gt_u e = x86p_wasm_byte 0x56 e"

definition x86p_wasm_f64_convert_i64_u :: "wasm_emit \<Rightarrow> wasm_emit" where
  "x86p_wasm_f64_convert_i64_u e = x86p_wasm_byte 0xBA e"

definition x86p_wasm_f64_promote_f32 :: "wasm_emit \<Rightarrow> wasm_emit" where
  "x86p_wasm_f64_promote_f32 e = x86p_wasm_byte 0xBB e"

definition x86p_wasm_i64_reinterpret_f64 :: "wasm_emit \<Rightarrow> wasm_emit" where
  "x86p_wasm_i64_reinterpret_f64 e = x86p_wasm_byte 0xBD e"

definition x86p_wasm_f32_reinterpret_i32 :: "wasm_emit \<Rightarrow> wasm_emit" where
  "x86p_wasm_f32_reinterpret_i32 e = x86p_wasm_byte 0xBE e"

definition x86p_wasm_f64_reinterpret_i64 :: "wasm_emit \<Rightarrow> wasm_emit" where
  "x86p_wasm_f64_reinterpret_i64 e = x86p_wasm_byte 0xBF e"

definition x86p_wasm_i64_xor :: "wasm_emit \<Rightarrow> wasm_emit" where
  "x86p_wasm_i64_xor e = x86p_wasm_byte 0x85 e"

definition x86p_wasm_f64_op :: "wasm_f64_op \<Rightarrow> wasm_emit \<Rightarrow> wasm_emit" where
  "x86p_wasm_f64_op op e = x86p_wasm_byte (f64_op_code op) e"

definition x86p_wasm_i64_const_shift :: "64 word \<Rightarrow> wasm_emit \<Rightarrow> wasm_emit" where
  "x86p_wasm_i64_const_shift amount e = x86p_wasm_i64_shr_u (x86p_wasm_i64_const amount e)"

text \<open>SIMD: the prefix, then the opcode as an unsigned LEB128.\<close>

definition emit_simd_op :: "u32 \<Rightarrow> wasm_emit \<Rightarrow> wasm_emit" where
  "emit_simd_op opcode e = x86p_wasm_u32 opcode (x86p_wasm_byte 0xFD e)"

definition x86p_wasm_v128_op :: "wasm_simd_op \<Rightarrow> wasm_emit \<Rightarrow> wasm_emit" where
  "x86p_wasm_v128_op op e = emit_simd_op (simd_op_code op) e"

definition x86p_wasm_v128_load :: "u32 \<Rightarrow> u32 \<Rightarrow> wasm_emit \<Rightarrow> wasm_emit" where
  "x86p_wasm_v128_load align offset e = x86p_wasm_u32 offset (x86p_wasm_u32 align (emit_simd_op 0 e))"

definition x86p_wasm_v128_store :: "u32 \<Rightarrow> u32 \<Rightarrow> wasm_emit \<Rightarrow> wasm_emit" where
  "x86p_wasm_v128_store align offset e = x86p_wasm_u32 offset (x86p_wasm_u32 align (emit_simd_op 11 e))"

text \<open>The sixteen lanes are the first sixteen bytes of the array.\<close>

definition x86p_wasm_v128_shuffle :: "u8 list \<Rightarrow> wasm_emit \<Rightarrow> wasm_emit" where
  "x86p_wasm_v128_shuffle lanes e = x86p_wasm_bytes (take 16 lanes) (emit_simd_op 13 e)"

section \<open>Control\<close>

definition open_block :: "u8 \<Rightarrow> wasm_type \<Rightarrow> wasm_emit \<Rightarrow> wasm_emit" where
  "open_block opcode t e = x86p_wasm_byte (type_code t) (x86p_wasm_byte opcode (e\<lparr>we_blocks_opened := we_blocks_opened e + 1\<rparr>))"

definition x86p_wasm_block :: "wasm_type \<Rightarrow> wasm_emit \<Rightarrow> wasm_emit" where
  "x86p_wasm_block t e = open_block 0x02 t e"

definition x86p_wasm_loop :: "wasm_type \<Rightarrow> wasm_emit \<Rightarrow> wasm_emit" where
  "x86p_wasm_loop t e = open_block 0x03 t e"

definition x86p_wasm_if :: "wasm_type \<Rightarrow> wasm_emit \<Rightarrow> wasm_emit" where
  "x86p_wasm_if t e = open_block 0x04 t e"

definition x86p_wasm_else :: "wasm_emit \<Rightarrow> wasm_emit" where
  "x86p_wasm_else e = x86p_wasm_byte 0x05 e"

definition x86p_wasm_end :: "wasm_emit \<Rightarrow> wasm_emit" where
  "x86p_wasm_end e = x86p_wasm_byte 0x0B (e\<lparr>we_blocks_closed := we_blocks_closed e + 1\<rparr>)"

definition x86p_wasm_br :: "u32 \<Rightarrow> wasm_emit \<Rightarrow> wasm_emit" where
  "x86p_wasm_br i e = emit_index_op 0x0C i e"

definition x86p_wasm_br_if :: "u32 \<Rightarrow> wasm_emit \<Rightarrow> wasm_emit" where
  "x86p_wasm_br_if i e = emit_index_op 0x0D i e"

definition x86p_wasm_call :: "u32 \<Rightarrow> wasm_emit \<Rightarrow> wasm_emit" where
  "x86p_wasm_call i e = emit_index_op 0x10 i e"

definition x86p_wasm_return_call :: "u32 \<Rightarrow> wasm_emit \<Rightarrow> wasm_emit" where
  "x86p_wasm_return_call i e = emit_index_op 0x12 i e"

definition x86p_wasm_return :: "wasm_emit \<Rightarrow> wasm_emit" where
  "x86p_wasm_return e = x86p_wasm_byte 0x0F e"

definition x86p_wasm_drop :: "wasm_emit \<Rightarrow> wasm_emit" where
  "x86p_wasm_drop e = x86p_wasm_byte 0x1A e"

definition x86p_wasm_select :: "wasm_emit \<Rightarrow> wasm_emit" where
  "x86p_wasm_select e = x86p_wasm_byte 0x1B e"

definition x86p_wasm_unreachable :: "wasm_emit \<Rightarrow> wasm_emit" where
  "x86p_wasm_unreachable e = x86p_wasm_byte 0x00 e"

definition emit_indirect :: "u8 \<Rightarrow> u32 \<Rightarrow> wasm_emit \<Rightarrow> wasm_emit" where
  "emit_indirect opcode ti e = x86p_wasm_u32 0 (x86p_wasm_u32 ti (x86p_wasm_byte opcode e))"

definition x86p_wasm_call_indirect :: "u32 \<Rightarrow> wasm_emit \<Rightarrow> wasm_emit" where
  "x86p_wasm_call_indirect ti e = emit_indirect 0x11 ti e"

definition x86p_wasm_return_call_indirect :: "u32 \<Rightarrow> wasm_emit \<Rightarrow> wasm_emit" where
  "x86p_wasm_return_call_indirect ti e = emit_indirect 0x13 ti e"

end
