(* ===== verification/X86_Wasm_Emit_Properties.thy ===== *)
theory X86_Wasm_Emit_Properties
  imports X86_Wasm_Emit
begin

text \<open>
  What the WebAssembly encoder promises.  \<open>appends f bs\<close> is the contract of a writer: it appends
  exactly \<open>bs\<close> when they fit, and otherwise raises the sticky overflow flag; the memory behind the
  buffer's capacity is never written.  LEB128 is read back by \<open>decode_uleb\<close> and \<open>decode_sleb\<close>, written from the format rather
  than from the encoder, and \<open>parse_module\<close> reads a module's sections back.
\<close>

section \<open>Writers\<close>

definition emit_wf :: "wasm_emit \<Rightarrow> bool" where
  "emit_wf e \<longleftrightarrow> we_cap e \<le> length (we_buf e) \<and> we_len e \<le> we_cap e"

definition written :: "wasm_emit \<Rightarrow> u8 list" where
  "written e = take (we_len e) (we_buf e)"

lemma written_counters [simp]:
  "written (e\<lparr>we_sizes_opened := n\<rparr>) = written e" "written (e\<lparr>we_sizes_closed := n\<rparr>) = written e"
  "written (e\<lparr>we_blocks_opened := n\<rparr>) = written e" "written (e\<lparr>we_blocks_closed := n\<rparr>) = written e"
  "written (e\<lparr>we_bodies_opened := n\<rparr>) = written e" "written (e\<lparr>we_bodies_closed := n\<rparr>) = written e"
  by (simp_all add: written_def)

text \<open>How many size slots, regions and bodies are open.\<close>

definition sizes_open :: "wasm_emit \<Rightarrow> u32" where
  "sizes_open e = we_sizes_opened e - we_sizes_closed e"

definition blocks_open :: "wasm_emit \<Rightarrow> u32" where
  "blocks_open e = we_blocks_opened e - we_blocks_closed e"

definition bodies_open :: "wasm_emit \<Rightarrow> u32" where
  "bodies_open e = we_bodies_opened e - we_bodies_closed e"

lemma open_body_counters [simp]:
  "bodies_open (e\<lparr>we_bodies_opened := we_bodies_opened e + 1\<rparr>) = bodies_open e + 1"
  "bodies_open (e\<lparr>we_bodies_closed := we_bodies_closed e + 1\<rparr>) = bodies_open e - 1"
  "blocks_open (e\<lparr>we_bodies_opened := n\<rparr>) = blocks_open e" "sizes_open (e\<lparr>we_bodies_opened := n\<rparr>) = sizes_open e"
  "blocks_open (e\<lparr>we_bodies_closed := n\<rparr>) = blocks_open e" "sizes_open (e\<lparr>we_bodies_closed := n\<rparr>) = sizes_open e"
  by (simp_all add: bodies_open_def blocks_open_def sizes_open_def)

lemma ok_iff: "x86p_wasm_ok e \<longleftrightarrow> \<not> we_overflow e \<and> sizes_open e = 0 \<and> blocks_open e = 0 \<and> bodies_open e = 0"
  by (simp add: x86p_wasm_ok_def sizes_open_def blocks_open_def bodies_open_def)

text \<open>One step from \<open>e\<close> to \<open>e'\<close> that wrote \<open>bs\<close>.\<close>

definition appended :: "u8 list \<Rightarrow> wasm_emit \<Rightarrow> wasm_emit \<Rightarrow> bool" where
  "appended bs e e' \<longleftrightarrow>
     emit_wf e' \<and> we_cap e' = we_cap e \<and>
     length (we_buf e') = length (we_buf e) \<and> drop (we_cap e) (we_buf e') = drop (we_cap e) (we_buf e) \<and>
     we_overflow e' = (we_overflow e \<or> we_cap e < we_len e + length bs) \<and>
     (\<not> we_overflow e' \<longrightarrow> written e' = written e @ bs \<and> we_len e' = we_len e + length bs)"

definition appends :: "u32 \<Rightarrow> (wasm_emit \<Rightarrow> wasm_emit) \<Rightarrow> u8 list \<Rightarrow> bool" where
  "appends r f bs \<longleftrightarrow>
     (\<forall>e. emit_wf e \<longrightarrow>
        appended bs e (f e) \<and> sizes_open (f e) = sizes_open e \<and> blocks_open (f e) = blocks_open e + r \<and>
        bodies_open (f e) = bodies_open e)"

lemma appendsD:
  assumes "appends r f bs" "emit_wf e"
  shows "appended bs e (f e)" "sizes_open (f e) = sizes_open e" "blocks_open (f e) = blocks_open e + r"
    "bodies_open (f e) = bodies_open e"
  using assms by (auto simp: appends_def)

lemma appended_wf: "appended bs e e' \<Longrightarrow> emit_wf e'"
  by (simp add: appended_def)

lemma appended_trans:
  assumes "appended a e e1" "appended b e1 e2"
  shows "appended (a @ b) e e2"
  using assms by (auto simp: appended_def)

lemma appends_comp:
  assumes "appends r f a" "appends q g b"
  shows "appends (r + q) (\<lambda>e. g (f e)) (a @ b)"
  unfolding appends_def
proof (intro allI impI)
  fix e assume e: "emit_wf e"
  note f = appendsD [OF assms(1) e]
  note g = appendsD [OF assms(2) appended_wf [OF f(1)]]
  show "appended (a @ b) e (g (f e)) \<and> sizes_open (g (f e)) = sizes_open e \<and>
      blocks_open (g (f e)) = blocks_open e + (r + q) \<and> bodies_open (g (f e)) = bodies_open e"
    using appended_trans [OF f(1) g(1)] f g by simp
qed

lemma appends_id: "appends 0 (\<lambda>e. e) []"
  by (auto simp: appends_def appended_def emit_wf_def)

lemmas open_defs = sizes_open_def blocks_open_def bodies_open_def

lemma appends_bytes: "appends 0 (x86p_wasm_bytes p) p"
  by (auto simp: appends_def appended_def emit_wf_def written_def open_defs x86p_wasm_bytes_def fits_def)

lemma appends_byte: "appends 0 (x86p_wasm_byte b) [b]"
  by (auto simp: appends_def appended_def emit_wf_def written_def open_defs x86p_wasm_byte_def fits_def
      take_Suc_conv_app_nth)

section \<open>LEB128\<close>

fun uleb :: "nat \<Rightarrow> u8 list" where
  "uleb n = (if n < 128 then [of_nat n] else of_nat (n mod 128 + 128) # uleb (n div 128))"

declare uleb.simps [simp del]

fun sleb :: "nat \<Rightarrow> int \<Rightarrow> u8 list" where
  "sleb 0 v = []"
| "sleb (Suc k) v =
     (if -64 \<le> v \<and> v < 64 then [of_int (v mod 128)] else of_int (v mod 128 + 128) # sleb k (v div 128))"

text \<open>The readers: seven bits a byte, the top bit asks for another.\<close>

fun decode_uleb :: "u8 list \<Rightarrow> (nat \<times> u8 list) option" where
  "decode_uleb [] = None"
| "decode_uleb (b # bs) =
     (if unat b < 128 then Some (unat b, bs)
      else map_option (\<lambda>(n, rest). (unat b - 128 + 128 * n, rest)) (decode_uleb bs))"

fun decode_sleb :: "u8 list \<Rightarrow> (int \<times> u8 list) option" where
  "decode_sleb [] = None"
| "decode_sleb (b # bs) =
     (if uint b < 128 then Some (if uint b < 64 then uint b else uint b - 128, bs)
      else map_option (\<lambda>(n, rest). (uint b - 128 + 128 * n, rest)) (decode_sleb bs))"

lemma unat_continued: "unat (of_nat (n mod 128) + 128 :: u8) = n mod 128 + 128"
proof -
  have eq: "(of_nat (n mod 128) + 128 :: u8) = of_nat (n mod 128 + 128)" by simp
  show ?thesis by (simp only: eq unat_of_nat) simp
qed

lemma decode_uleb_uleb: "decode_uleb (uleb n @ rest) = Some (n, rest)"
proof (induction n rule: uleb.induct)
  case (1 n)
  show ?case
    by (subst uleb.simps) (use 1 in \<open>auto simp: unat_of_nat unat_continued\<close>)
qed

lemma length_uleb: "n < 128 ^ Suc k \<Longrightarrow> length (uleb n) \<le> Suc k"
proof (induction k arbitrary: n)
  case (Suc k)
  have "n div 128 < 128 ^ Suc k" using Suc.prems by (simp add: div_less_iff_less_mult)
  then show ?case using Suc.IH by (subst uleb.simps) auto
qed (simp add: uleb.simps)

lemma decode_last:
  assumes "-64 \<le> v" "v < 64"
  shows "decode_sleb (of_int (v mod 128) # bs) = Some (v, bs)"
proof -
  have "v mod 128 = (if v < 0 then v + 128 else v)" using assms by presburger
  then show ?thesis using assms by (auto simp: uint_word_of_int)
qed

lemma decode_more:
  assumes "decode_sleb bs = Some (v div 128, rest)"
  shows "decode_sleb (of_int (v mod 128 + 128) # bs) = Some (v, rest)"
proof -
  have "uint (of_int (v mod 128 + 128) :: u8) = (v mod 128 + 128) mod 256"
    unfolding uint_word_of_int by simp
  then have "uint (of_int (v mod 128 + 128) :: u8) = v mod 128 + 128"
    using pos_mod_bound [of 128 v] pos_mod_sign [of 128 v] by (simp only: mod_pos_pos_trivial)
  moreover have "\<not> v mod 128 < 0" by (simp add: not_less)
  ultimately show ?thesis using assms by (simp del: of_int_add)
qed

lemma decode_sleb_sleb:
  "- (64 * 128 ^ k) \<le> v \<Longrightarrow> v < 64 * 128 ^ k \<Longrightarrow> decode_sleb (sleb (Suc k) v @ rest) = Some (v, rest)"
proof (induction k arbitrary: v)
  case 0
  then have "-64 \<le> v" "v < 64" by simp_all
  then show ?case using decode_last by (simp del: decode_sleb.simps)
next
  case (Suc k)
  have r: "- (64 * 128 ^ k) \<le> v div 128" "v div 128 < 64 * 128 ^ k" using Suc.prems by auto
  show ?case
    unfolding sleb.simps(2) [of "Suc k"]
    using decode_last decode_more [OF Suc.IH [OF r]]
    by (simp del: decode_sleb.simps sleb.simps of_int_add)
qed

lemma length_sleb: "length (sleb k v) \<le> k"
  by (induction k v rule: sleb.induct) auto

lemma low7: "ucast (v AND 0x7F :: 'a::len word) = (of_nat (unat v mod 128) :: u8)" if "7 \<le> LENGTH('a)"
proof -
  have "(0x7F :: 'a word) = mask 7" by (simp add: mask_eq_exp_minus_1)
  then have "v AND 0x7F = take_bit 7 v" by (simp only: take_bit_eq_mask)
  then have "unat (v AND 0x7F) = unat v mod 128"
    by (simp only: unsigned_take_bit_eq) (simp add: take_bit_eq_mod)
  then show ?thesis by (metis of_nat_unat)
qed

lemma continued: "(of_nat (n mod 128) :: u8) OR 0x80 = of_nat (n mod 128 + 128)"
proof -
  have "\<not> bit (n mod 128) 7" using bit_take_bit_iff [of 7 n 7] by (simp add: take_bit_eq_mod)
  then have "\<not> bit (of_nat (n mod 128) :: u8) 7" by (simp add: bit_simps)
  then have "(of_nat (n mod 128) :: u8) AND 2 ^ 7 = 0" by (simp only: and_exp_eq_0_iff_not_bit) simp
  then have "(of_nat (n mod 128) :: u8) AND 0x80 = 0" by simp
  then show ?thesis by (simp add: disjunctive_add_eq_or)
qed

lemma appends_u32: "appends 0 (x86p_wasm_u32 v) (uleb (unat v))"
proof (induction "unat v" arbitrary: v rule: less_induct)
  case less
  have lo: "ucast (v AND 0x7F) = (of_nat (unat v mod 128) :: u8)" by (rule low7) simp
  show ?case
  proof (cases "drop_bit 7 v = 0")
    case True
    then have u: "unat v < 128" using unat_shift7 [of v] by (simp add: div_eq_0_iff)
    have "x86p_wasm_u32 v = x86p_wasm_byte (of_nat (unat v mod 128))"
      by (rule ext, subst x86p_wasm_u32.simps) (simp only: lo True Let_def simp_thms if_False)
    then show ?thesis using u appends_byte by (simp add: uleb.simps [of "unat v"])
  next
    case False
    then have u: "\<not> unat v < 128" using unat_shift7 [of v] by (metis div_less unat_eq_zero)
    have e: "x86p_wasm_u32 v =
        (\<lambda>e. x86p_wasm_u32 (drop_bit 7 v) (x86p_wasm_byte (of_nat (unat v mod 128 + 128)) e))"
      by (rule ext, subst x86p_wasm_u32.simps) (simp only: lo False continued Let_def simp_thms if_True)
    show ?thesis
      unfolding e uleb.simps [of "unat v"] using less [OF shift7_less [OF False]] u
        appends_comp [OF appends_byte] by (fastforce simp: unat_shift7)
  qed
qed

lemma sign7: "bit (of_int (v mod 128) :: u8) 6 \<longleftrightarrow> 64 \<le> v mod 128"
proof -
  have "(v mod 128) div 64 = (if 64 \<le> v mod 128 then 1 else 0)"
    using pos_mod_bound [of 128 v] by (auto simp: div_pos_pos_trivial div_pos_geq)
  then have "bit (v mod 128) 6 \<longleftrightarrow> 64 \<le> v mod 128" unfolding bit_iff_odd by (simp split: if_splits)
  then show ?thesis by (simp add: bit_simps)
qed

lemma sleb_stop: "(v div 128 = 0 \<and> \<not> 64 \<le> v mod 128) \<or> (v div 128 = -1 \<and> 64 \<le> v mod 128) \<longleftrightarrow> -64 \<le> v \<and> v < (64 :: int)"
  using div_mult_mod_eq [of v 128] pos_mod_bound [of 128 v] pos_mod_sign [of 128 v] by linarith

lemma continued_int: "(of_int (v mod 128) :: u8) OR 0x80 = of_int (v mod 128 + 128)"
  using continued [of "nat (v mod 128)"] by (simp add: nat_mod_distrib)

lemma emit_sleb_eq:
  "emit_sleb v e =
     (if -64 \<le> v \<and> v < 64 then x86p_wasm_byte (of_int (v mod 128)) e
      else emit_sleb (v div 128) (x86p_wasm_byte (of_int (v mod 128 + 128)) e))"
  by (subst emit_sleb.simps) (simp only: Let_def sign7 sleb_stop continued_int)

lemma appends_sleb: "- (64 * 128 ^ k) \<le> v \<Longrightarrow> v < 64 * 128 ^ k \<Longrightarrow> appends 0 (emit_sleb v) (sleb (Suc k) v)"
proof (induction k arbitrary: v)
  case 0
  then show ?case using appends_byte by (simp add: emit_sleb_eq [abs_def])
next
  case (Suc k)
  have r: "- (64 * 128 ^ k) \<le> v div 128" "v div 128 < 64 * 128 ^ k" using Suc.prems by auto
  show ?case
  proof (cases "-64 \<le> v \<and> v < 64")
    case True
    then show ?thesis using appends_byte by (simp add: emit_sleb_eq [of v, abs_def])
  next
    case False
    have e: "emit_sleb v = (\<lambda>e. emit_sleb (v div 128) (x86p_wasm_byte (of_int (v mod 128 + 128)) e))"
      by (rule ext, subst emit_sleb_eq) (simp only: False if_False)
    show ?thesis
      unfolding e sleb.simps(2) [of "Suc k"] if_not_P [OF False]
      using appends_comp [OF appends_byte Suc.IH [OF r]] by fastforce
  qed
qed

lemma sint32_bounds: "- (64 * 128 ^ 4) \<le> sint (v :: 32 word)" "sint (v :: 32 word) < 64 * 128 ^ 4"
  using sint_ge [of v] sint_less [of v] by simp_all

lemma sint64_bounds: "- (64 * 128 ^ 9) \<le> sint (v :: 64 word)" "sint (v :: 64 word) < 64 * 128 ^ 9"
  using sint_ge [of v] sint_less [of v] by simp_all

lemma appends_i32: "appends 0 (x86p_wasm_i32 v) (sleb 5 (sint v))"
  using appends_sleb [OF sint32_bounds, of v] by (simp add: x86p_wasm_i32_def numeral_eq_Suc)

lemma appends_i64: "appends 0 (x86p_wasm_i64 v) (sleb 10 (sint v))"
  using appends_sleb [OF sint64_bounds, of v] by (simp add: x86p_wasm_i64_def numeral_eq_Suc)

section \<open>Size slots\<close>

fun padded :: "nat \<Rightarrow> nat \<Rightarrow> u8 list" where
  "padded 0 l = []"
| "padded (Suc n) l = of_nat (if n = 0 then l mod 128 else l mod 128 + 128) # padded n (l div 128)"

lemma length_padded [simp]: "length (padded n l) = n"
  by (induction n arbitrary: l) auto

lemma decode_padded: "l < 128 ^ Suc n \<Longrightarrow> decode_uleb (padded (Suc n) l @ rest) = Some (l, rest)"
proof (induction n arbitrary: l)
  case (Suc n)
  have "l div 128 < 128 ^ Suc n" using Suc.prems by (simp add: div_less_iff_less_mult)
  from Suc.IH [OF this] show ?case by (simp del: padded.simps(2) add: padded.simps(2) [of "Suc n"] unat_continued)
qed (simp add: unat_of_nat)

lemma patch_size_eq:
  "p + n \<le> length buf \<Longrightarrow> patch_size n p l buf = take p buf @ padded n (unat l) @ drop (p + n) buf"
proof (induction n arbitrary: p l buf)
  case (Suc n)
  have lo: "ucast (l AND 0x7F) = (of_nat (unat l mod 128) :: u8)" by (rule low7) simp
  have u: "unat (drop_bit 7 l) = unat l div 128"
    unfolding unat_drop_bit_eq by (simp only: drop_bit_eq_div) simp
  have "patch_size (Suc n) p l buf =
      patch_size n (p + 1) (drop_bit 7 l) (buf[p := of_nat (if n = 0 then unat l mod 128 else unat l mod 128 + 128)])"
    by (simp only: patch_size.simps Let_def lo continued if_distrib [of of_nat]) simp
  then show ?case
    using Suc.prems by (subst (asm) Suc.IH) (auto simp: u take_Suc_conv_app_nth)
qed simp

lemma appends_zeros: "appends 0 (x86p_wasm_byte 0 ^^ n) (replicate n 0)"
proof (induction n)
  case (Suc n)
  show ?case using appends_comp [OF Suc appends_byte [of 0]] by (simp add: comp_def replicate_append_same)
qed (use appends_id in \<open>simp add: id_def\<close>)

lemma open_sizeD:
  assumes "emit_wf e"
  shows "ws_at (fst (open_size e)) = we_len e" "appended (replicate 5 0) e (snd (open_size e))"
    "sizes_open (snd (open_size e)) = sizes_open e + 1" "blocks_open (snd (open_size e)) = blocks_open e"
    "bodies_open (snd (open_size e)) = bodies_open e"
proof -
  let ?e = "e\<lparr>we_sizes_opened := we_sizes_opened e + 1\<rparr>"
  have wf: "emit_wf ?e" using assms by (simp add: emit_wf_def)
  note z = appendsD [OF appends_zeros [of 5] wf]
  show "ws_at (fst (open_size e)) = we_len e" by (simp add: open_size_def)
  show "appended (replicate 5 0) e (snd (open_size e))"
    using z(1) by (simp add: open_size_def X86P_WASM_SIZE_WIDTH_def appended_def)
  show "sizes_open (snd (open_size e)) = sizes_open e + 1" "blocks_open (snd (open_size e)) = blocks_open e"
    "bodies_open (snd (open_size e)) = bodies_open e"
    using z(2-4) by (simp_all add: open_size_def X86P_WASM_SIZE_WIDTH_def open_defs)
qed

lemma size_end_open [simp]:
  "sizes_open (x86p_wasm_size_end s e) = sizes_open e - 1"
  "blocks_open (x86p_wasm_size_end s e) = blocks_open e" "bodies_open (x86p_wasm_size_end s e) = bodies_open e"
  by (simp_all add: x86p_wasm_size_end_def Let_def open_defs)

lemma closed_slot:
  assumes e: "emit_wf e" and o: "open_size e = (s, e1)" and w: "appended bs e1 e2" and l: "length bs < 2 ^ 32"
  shows "appended (padded 5 (length bs) @ bs) e (x86p_wasm_size_end s e2)"
proof -
  have z: "ws_at s = we_len e" "appended (replicate 5 0) e e1" using open_sizeD [OF e] o by simp_all
  have t: "appended (replicate 5 0 @ bs) e e2" by (rule appended_trans [OF z(2) w])
  show ?thesis
  proof (cases "we_overflow e2")
    case True
    then show ?thesis using t by (auto simp: x86p_wasm_size_end_def Let_def appended_def emit_wf_def)
  next
    case False
    let ?p = "we_len e"
    have n: "we_len e2 = ?p + 5 + length bs" "written e2 = written e @ replicate 5 0 @ bs" and wf: "emit_wf e2"
      using t False by (auto simp: appended_def)
    have b: "we_cap e2 \<le> length (we_buf e2)" "we_len e2 \<le> we_cap e2" using wf by (simp_all add: emit_wf_def)
    have u: "unat (of_nat (length bs) :: u64) = length bs" using l by (simp add: unat_of_nat)
    have p: "?p + 5 \<le> length (we_buf e2)" using n b by simp
    let ?b = "patch_size 5 ?p (of_nat (length bs)) (we_buf e2)"
    have pb: "?b = take ?p (we_buf e2) @ padded 5 (length bs) @ drop (?p + 5) (we_buf e2)"
      using patch_size_eq [OF p, of "of_nat (length bs)"] by (simp only: u)
    have r: "x86p_wasm_size_end s e2 = e2\<lparr>we_sizes_closed := we_sizes_closed e2 + 1, we_buf := ?b\<rparr>"
      using False n b l z(1) by (simp add: x86p_wasm_size_end_def Let_def X86P_WASM_SIZE_WIDTH_def)
    have "take ?p (take (we_len e2) (we_buf e2)) = written e" "drop (?p + 5) (take (we_len e2) (we_buf e2)) = bs"
      using n(2) e by (simp_all add: written_def emit_wf_def)
    then have "take ?p (we_buf e2) = written e" "take (length bs) (drop (?p + 5) (we_buf e2)) = bs"
      using n(1) by (simp_all add: drop_take)
    then have "take (we_len e2) ?b = written e @ padded 5 (length bs) @ bs"
      unfolding pb using n(1) b e by (simp add: written_def emit_wf_def)
    moreover have "length ?b = length (we_buf e2)" unfolding pb using p by simp
    moreover have "drop (we_cap e2) ?b = drop (we_cap e2) (we_buf e2)" unfolding pb using n(1) b by simp
    ultimately show ?thesis using t False unfolding r appended_def by (auto simp: written_def emit_wf_def)
  qed
qed

section \<open>Sections, bodies, regions\<close>

lemma appends_region:
  assumes "appends 0 f bs"
  shows "appends 0 (\<lambda>e. x86p_wasm_end (f (open_block opc t e))) ([opc, type_code t] @ bs @ [0x0B])"
proof -
  have "appends 1 (open_block opc t) [opc, type_code t]"
    unfolding appends_def
  proof (intro allI impI)
    fix e assume "emit_wf e"
    then have "emit_wf (e\<lparr>we_blocks_opened := we_blocks_opened e + 1\<rparr>)" by (simp add: emit_wf_def)
    from appendsD [OF appends_comp [OF appends_byte [of opc] appends_byte [of "type_code t"]] this]
    show "appended [opc, type_code t] e (open_block opc t e) \<and> sizes_open (open_block opc t e) = sizes_open e \<and>
        blocks_open (open_block opc t e) = blocks_open e + 1 \<and> bodies_open (open_block opc t e) = bodies_open e"
      by (simp add: open_block_def appended_def open_defs)
  qed
  moreover have "appends (-1) x86p_wasm_end [0x0B]"
    unfolding appends_def
  proof (intro allI impI)
    fix e assume "emit_wf e"
    then have "emit_wf (e\<lparr>we_blocks_closed := we_blocks_closed e + 1\<rparr>)" by (simp add: emit_wf_def)
    from appendsD [OF appends_byte [of "0x0B"] this]
    show "appended [0x0B] e (x86p_wasm_end e) \<and> sizes_open (x86p_wasm_end e) = sizes_open e \<and>
        blocks_open (x86p_wasm_end e) = blocks_open e + -1 \<and> bodies_open (x86p_wasm_end e) = bodies_open e"
      by (simp add: x86p_wasm_end_def appended_def open_defs)
  qed
  ultimately show ?thesis using appends_comp [OF appends_comp [OF _ assms]] by fastforce
qed

definition emit_section :: "wasm_section \<Rightarrow> (wasm_emit \<Rightarrow> wasm_emit) \<Rightarrow> wasm_emit \<Rightarrow> wasm_emit" where
  "emit_section i f e = (let (s, e) = x86p_wasm_section_begin i e in x86p_wasm_size_end s (f e))"

definition emit_body :: "(wasm_emit \<Rightarrow> wasm_emit) \<Rightarrow> wasm_emit \<Rightarrow> wasm_emit" where
  "emit_body f e = (let (s, e) = x86p_wasm_body_begin e in x86p_wasm_body_end s (f e))"

definition emit_module :: "(wasm_section \<times> (wasm_emit \<Rightarrow> wasm_emit)) list \<Rightarrow> wasm_emit \<Rightarrow> wasm_emit" where
  "emit_module parts e = fold (\<lambda>(i, f). emit_section i f) parts (x86p_wasm_module_begin e)"

lemma appends_section:
  assumes f: "appends 0 f bs" and l: "length bs < 2 ^ 32"
  shows "appends 0 (emit_section i f) (section_code i # padded 5 (length bs) @ bs)"
  unfolding appends_def
proof (intro allI impI)
  fix e assume e: "emit_wf e"
  let ?e = "x86p_wasm_byte (section_code i) e"
  note b = appendsD [OF appends_byte [of "section_code i"] e]
  obtain s e1 where o: "open_size ?e = (s, e1)" by (cases "open_size ?e")
  note z = open_sizeD [OF appended_wf [OF b(1)], unfolded o snd_conv]
  note w = appendsD [OF f appended_wf [OF z(2)]]
  have r: "emit_section i f e = x86p_wasm_size_end s (f e1)"
    by (simp add: emit_section_def x86p_wasm_section_begin_def o)
  show "appended (section_code i # padded 5 (length bs) @ bs) e (emit_section i f e) \<and>
      sizes_open (emit_section i f e) = sizes_open e \<and> blocks_open (emit_section i f e) = blocks_open e + 0 \<and>
      bodies_open (emit_section i f e) = bodies_open e"
    using appended_trans [OF b(1) closed_slot [OF appended_wf [OF b(1)] o w(1) l]] b z w by (simp add: r)
qed

lemma appends_body:
  assumes f: "appends 0 f bs" and l: "length bs < 2 ^ 31"
  shows "appends 0 (emit_body f) (padded 5 (length bs + 1) @ bs @ [0x0B])"
  unfolding appends_def
proof (intro allI impI)
  fix e assume e: "emit_wf e"
  let ?e = "e\<lparr>we_bodies_opened := we_bodies_opened e + 1\<rparr>"
  have e': "emit_wf ?e" using e by (simp add: emit_wf_def)
  obtain s e1 where o: "open_size ?e = (s, e1)" by (cases "open_size ?e")
  note z = open_sizeD [OF e', unfolded o snd_conv]
  note w = appendsD [OF appends_comp [OF f appends_byte [of "0x0B"]] appended_wf [OF z(2)]]
  let ?c = "x86p_wasm_byte 0x0B (f e1)"
  let ?d = "?c\<lparr>we_bodies_closed := we_bodies_closed ?c + 1\<rparr>"
  have d: "appended (bs @ [0x0B]) e1 ?d" using w(1) by (simp add: appended_def emit_wf_def)
  have r: "emit_body f e = x86p_wasm_size_end s ?d"
    by (simp add: emit_body_def x86p_wasm_body_begin_def x86p_wasm_body_end_def Let_def o)
  have "length (bs @ [0x0B]) < 2 ^ 32" using l by simp
  from closed_slot [OF e' o d this]
  show "appended (padded 5 (length bs + 1) @ bs @ [0x0B]) e (emit_body f e) \<and>
      sizes_open (emit_body f e) = sizes_open e \<and> blocks_open (emit_body f e) = blocks_open e + 0 \<and>
      bodies_open (emit_body f e) = bodies_open e"
    using z w by (simp add: r appended_def)
qed

section \<open>Reading a module back\<close>

lemma decode_uleb_shorter: "decode_uleb bs = Some (n, rest) \<Longrightarrow> length rest < length bs"
proof (induction bs arbitrary: n)
  case (Cons b bs)
  then show ?case by (cases "unat b < 128") force+
qed simp

text \<open>A section is its id, its length, and that many bytes.\<close>

function parse_sections :: "u8 list \<Rightarrow> (u8 \<times> u8 list) list option" where
  "parse_sections [] = Some []"
| "parse_sections (i # bs) =
     (case decode_uleb bs of
        None \<Rightarrow> None
      | Some (n, rest) \<Rightarrow>
          if length rest < n then None
          else map_option (\<lambda>ps. (i, take n rest) # ps) (parse_sections (drop n rest)))"
  by pat_completeness auto
termination
  by (relation "measure length") (auto dest: decode_uleb_shorter)

definition parse_module :: "u8 list \<Rightarrow> (u8 \<times> u8 list) list option" where
  "parse_module bs =
     (if take 8 bs = [0x00, 0x61, 0x73, 0x6D, 0x01, 0x00, 0x00, 0x00] then parse_sections (drop 8 bs) else None)"

abbreviation section_bytes :: "wasm_section \<Rightarrow> u8 list \<Rightarrow> u8 list" where
  "section_bytes i bs \<equiv> section_code i # padded 5 (length bs) @ bs"

lemma parse_section:
  assumes "length bs < 2 ^ 32"
  shows "parse_sections (section_bytes i bs @ rest) = map_option ((#) (section_code i, bs)) (parse_sections rest)"
proof -
  have "decode_uleb (padded (Suc 4) (length bs) @ bs @ rest) = Some (length bs, bs @ rest)"
    using assms by (intro decode_padded) simp
  moreover have "Suc 4 = (5 :: nat)" by simp
  ultimately have "decode_uleb (padded 5 (length bs) @ bs @ rest) = Some (length bs, bs @ rest)" by metis
  then show ?thesis by simp
qed

text \<open>A part is a section's id, the writer of its contents, and the contents it stands for.\<close>

definition part_ok :: "wasm_section \<times> (wasm_emit \<Rightarrow> wasm_emit) \<times> u8 list \<Rightarrow> bool" where
  "part_ok = (\<lambda>(i, f, bs). appends 0 f bs \<and> length bs < 2 ^ 32)"

definition module_bytes :: "(wasm_section \<times> (wasm_emit \<Rightarrow> wasm_emit) \<times> u8 list) list \<Rightarrow> u8 list" where
  "module_bytes parts = concat (List.map (\<lambda>(i, f, bs). section_bytes i bs) parts)"

lemma appends_sections:
  assumes "\<forall>p \<in> set parts. part_ok p"
  shows "appends 0 (fold (\<lambda>(i, f). emit_section i f) (List.map (\<lambda>(i, f, bs). (i, f)) parts)) (module_bytes parts)"
  using assms
proof (induction parts)
  case Nil
  then show ?case using appends_id by (simp add: module_bytes_def id_def)
next
  case (Cons p parts)
  obtain i f bs where p: "p = (i, f, bs)" by (cases p)
  have s: "appends 0 (emit_section i f) (section_bytes i bs)"
    using Cons.prems by (intro appends_section) (simp_all add: p part_ok_def)
  show ?case
    using appends_comp [OF s Cons.IH] Cons.prems by (simp add: p module_bytes_def comp_def)
qed

lemma parse_module_bytes:
  assumes "\<forall>p \<in> set parts. part_ok p"
  shows "parse_sections (module_bytes parts) = Some (List.map (\<lambda>(i, f, bs). (section_code i, bs)) parts)"
  using assms
proof (induction parts)
  case (Cons p parts)
  obtain i f bs where p: "p = (i, f, bs)" by (cases p)
  have "length bs < 2 ^ 32" using Cons.prems by (simp add: p part_ok_def)
  then show ?case
    using Cons parse_section [of bs i "module_bytes parts"] by (simp add: p module_bytes_def)
qed (simp add: module_bytes_def)

section \<open>The instructions are writers\<close>

lemma appends_fold:
  "(\<And>x. appends 0 (f x) (b x)) \<Longrightarrow> appends 0 (fold f xs) (concat (List.map b xs))"
proof (induction xs)
  case Nil
  then show ?case using appends_id by (simp add: id_def)
next
  case (Cons x xs)
  show ?case using appends_comp [OF Cons.prems Cons.IH [OF Cons.prems], of x] by (simp add: comp_def)
qed

lemma appends_types: "appends 0 (fold (\<lambda>t. x86p_wasm_byte (type_code t)) ts) (List.map type_code ts)"
  using appends_fold [OF appends_byte, of type_code] by simp

lemma appends_functype:
  "appends 0 (x86p_wasm_functype ps rs)
     (0x60 # uleb (unat (of_nat (length ps) :: u32)) @ List.map type_code ps @
      uleb (unat (of_nat (length rs) :: u32)) @ List.map type_code rs)"
  using appends_comp [OF appends_comp [OF appends_comp [OF appends_comp [OF
    appends_byte [of "0x60"] appends_u32 [of "of_nat (length ps)"]] appends_types [of ps]]
    appends_u32 [of "of_nat (length rs)"]] appends_types [of rs]]
  by (simp add: x86p_wasm_functype_def [abs_def] Let_def)

lemma appends_index_op: "appends 0 (emit_index_op opc i) (opc # uleb (unat i))"
  using appends_comp [OF appends_byte [of opc] appends_u32 [of i]] by (simp add: emit_index_op_def [abs_def])

lemma appends_mem_op: "appends 0 (emit_mem_op opc a d) (opc # uleb (unat a) @ uleb (unat d))"
  using appends_comp [OF appends_comp [OF appends_byte [of opc] appends_u32 [of a]] appends_u32 [of d]]
  by (simp add: emit_mem_op_def [abs_def])

lemma appends_i32_const: "appends 0 (x86p_wasm_i32_const v) (0x41 # sleb 5 (sint v))"
  using appends_comp [OF appends_byte [of "0x41"] appends_i32 [of v]] by (simp add: x86p_wasm_i32_const_def [abs_def])

lemma appends_locals: "appends 0 (x86p_wasm_locals n) (uleb (unat n))"
  using appends_u32 by (simp add: x86p_wasm_locals_def [abs_def])

section \<open>The properties\<close>

text \<open>
  C23. LEB128: where the buffer has room for ten more bytes, an unsigned 32-bit value, a signed
  32-bit value and a signed 64-bit value are appended in at most five, five and ten bytes, and a
  reader of the format gets the value back and stops where the encoding does.
\<close>

theorem leb_round_trip:
  assumes "emit_wf e" "\<not> we_overflow e" "we_len e + 10 \<le> we_cap e"
  shows "(\<exists>bs. written (x86p_wasm_u32 u e) = written e @ bs \<and> length bs \<le> 5 \<and>
            decode_uleb (bs @ rest) = Some (unat u, rest)) \<and>
         (\<exists>bs. written (x86p_wasm_i32 v e) = written e @ bs \<and> length bs \<le> 5 \<and>
            decode_sleb (bs @ rest) = Some (sint v, rest)) \<and>
         (\<exists>bs. written (x86p_wasm_i64 w e) = written e @ bs \<and> length bs \<le> 10 \<and>
            decode_sleb (bs @ rest) = Some (sint w, rest))"
proof (intro conjI)
  have app: "written (f e) = written e @ bs" if "appends 0 f bs" "length bs \<le> 10" for f bs
    using appendsD(1) [OF that(1) assms(1)] that(2) assms by (simp add: appended_def)
  have lu: "length (uleb (unat u)) \<le> Suc 4" using unat_lt32 [of u] by (intro length_uleb) simp
  show "\<exists>bs. written (x86p_wasm_u32 u e) = written e @ bs \<and> length bs \<le> 5 \<and>
      decode_uleb (bs @ rest) = Some (unat u, rest)"
    using app [OF appends_u32] lu decode_uleb_uleb by (intro exI [of _ "uleb (unat u)"]) simp
  have lv: "length (sleb 5 (sint v)) \<le> 5" by (rule length_sleb)
  show "\<exists>bs. written (x86p_wasm_i32 v e) = written e @ bs \<and> length bs \<le> 5 \<and>
      decode_sleb (bs @ rest) = Some (sint v, rest)"
    using app [OF appends_i32] lv decode_sleb_sleb [OF sint32_bounds, of v rest]
    by (intro exI [of _ "sleb 5 (sint v)"]) (simp del: sleb.simps add: eval_nat_numeral)
  have lw: "length (sleb 10 (sint w)) \<le> 10" by (rule length_sleb)
  show "\<exists>bs. written (x86p_wasm_i64 w e) = written e @ bs \<and> length bs \<le> 10 \<and>
      decode_sleb (bs @ rest) = Some (sint w, rest)"
    using app [OF appends_i64] lw decode_sleb_sleb [OF sint64_bounds, of w rest]
    by (intro exI [of _ "sleb 10 (sint w)"]) (simp del: sleb.simps add: eval_nat_numeral)
qed

lemma leb_round_trip_witness:
  "(\<exists>bs. written (x86p_wasm_i32 64 (x86p_wasm_init (replicate 10 0) 10)) = bs \<and> length bs \<le> 5 \<and>
     decode_sleb (bs @ [7]) = Some (64, [7]))"
  using leb_round_trip [of "x86p_wasm_init (replicate 10 0) 10" 0 "[7]" 64 0]
  by (simp add: emit_wf_def x86p_wasm_init_def written_def)

text \<open>
  C22. A module written through the encoder is exactly its header and its sections: it is reported
  finished if and only if all of it fits the capacity, no byte behind the capacity is ever written
  whether it fits or not, and a reader of the format then recovers every section's id and contents,
  so each five-byte size slot was patched with the length of what was written after it.
\<close>

theorem module_round_trip:
  assumes "\<forall>p \<in> set parts. part_ok p" and "cap \<le> length buf"
    and "e = emit_module (List.map (\<lambda>(i, f, bs). (i, f)) parts) (x86p_wasm_init buf cap)"
  shows "length (we_buf e) = length buf \<and> drop cap (we_buf e) = drop cap buf \<and>
     x86p_wasm_ok e = (8 + length (module_bytes parts) \<le> cap) \<and>
     (x86p_wasm_ok e \<longrightarrow>
        parse_module (written e) = Some (List.map (\<lambda>(i, f, bs). (section_code i, bs)) parts))"
proof -
  let ?h = "[0x00, 0x61, 0x73, 0x6D, 0x01, 0x00, 0x00, 0x00] :: u8 list"
  have wf: "emit_wf (x86p_wasm_init buf cap)" using assms(2) by (simp add: emit_wf_def x86p_wasm_init_def)
  have h: "appends 0 x86p_wasm_module_begin ?h" unfolding x86p_wasm_module_begin_def by (rule appends_bytes)
  have e: "e = fold (\<lambda>(i, f). emit_section i f) (List.map (\<lambda>(i, f, bs). (i, f)) parts)
      (x86p_wasm_module_begin (x86p_wasm_init buf cap))" using assms(3) by (simp add: emit_module_def)
  note d = appendsD [OF appends_comp [OF h appends_sections [OF assms(1)]] wf, folded e]
  have i: "sizes_open (x86p_wasm_init buf cap) = 0" "blocks_open (x86p_wasm_init buf cap) = 0"
    "bodies_open (x86p_wasm_init buf cap) = 0" "written (x86p_wasm_init buf cap) = []"
    "we_overflow (x86p_wasm_init buf cap) = False"
    by (simp_all add: written_def x86p_wasm_init_def open_defs)
  have a: "appended (?h @ module_bytes parts) (x86p_wasm_init buf cap) e"
    and z: "sizes_open e = 0" "blocks_open e = 0" "bodies_open e = 0"
    using d by (simp_all add: i)
  have ok: "x86p_wasm_ok e \<longleftrightarrow> 8 + length (module_bytes parts) \<le> cap"
    using a z by (auto simp: ok_iff appended_def x86p_wasm_init_def)
  moreover have "length (we_buf e) = length buf \<and> drop cap (we_buf e) = drop cap buf"
    using a by (simp add: appended_def x86p_wasm_init_def)
  moreover have "written e = ?h @ module_bytes parts" if "x86p_wasm_ok e"
    using a that by (simp add: ok_iff appended_def i)
  ultimately show ?thesis using parse_module_bytes [OF assms(1)] by (simp add: parse_module_def)
qed

text \<open>A module with one function type and the function \<open>x + 64\<close>.\<close>

definition add64 :: "wasm_emit \<Rightarrow> wasm_emit" where
  "add64 e = x86p_wasm_i32_op kWasmI32Add (x86p_wasm_i32_const 64 (x86p_wasm_local_get 0 (x86p_wasm_locals 0 e)))"

definition demo_parts :: "(wasm_section \<times> (wasm_emit \<Rightarrow> wasm_emit) \<times> u8 list) list" where
  "demo_parts =
     [(kWasmSectionType, \<lambda>e. x86p_wasm_functype [kWasmI32] [kWasmI32] (x86p_wasm_u32 1 e),
       [1, 0x60, 1, 0x7F, 1, 0x7F]),
      (kWasmSectionCode, \<lambda>e. emit_body add64 (x86p_wasm_u32 1 e),
       1 # padded 5 8 @ [0, 0x20, 0, 0x41, 0xC0, 0, 0x6A, 0x0B])]"

lemma appends_add64: "appends 0 add64 [0, 0x20, 0, 0x41, 0xC0, 0, 0x6A]"
  using appends_comp [OF appends_comp [OF appends_comp [OF appends_locals [of 0] appends_index_op [of "0x20" 0]]
    appends_i32_const [of 64]] appends_byte [of "0x6A"]]
  by (simp add: add64_def [abs_def] x86p_wasm_local_get_def [abs_def] x86p_wasm_i32_op_def [abs_def] uleb.simps
      eval_nat_numeral)

lemma demo_parts_ok: "\<forall>p \<in> set demo_parts. part_ok p"
proof -
  have l: "length [0, 0x20, 0, 0x41, 0xC0, 0, 0x6A :: u8] + 1 = 8" by simp
  have "appends 0 (\<lambda>e. x86p_wasm_functype [kWasmI32] [kWasmI32] (x86p_wasm_u32 1 e)) [1, 0x60, 1, 0x7F, 1, 0x7F]"
    using appends_comp [OF appends_u32 [of 1] appends_functype [of "[kWasmI32]" "[kWasmI32]"]] by (simp add: uleb.simps)
  moreover have "appends 0 (\<lambda>e. emit_body add64 (x86p_wasm_u32 1 e))
      (1 # padded 5 8 @ [0, 0x20, 0, 0x41, 0xC0, 0, 0x6A, 0x0B])"
    using appends_comp [OF appends_u32 [of 1] appends_body [OF appends_add64, unfolded l]]
    by (simp add: uleb.simps del: padded.simps)
  ultimately show ?thesis by (simp add: demo_parts_def part_ok_def)
qed

lemma module_round_trip_witness:
  "x86p_wasm_ok (emit_module (List.map (\<lambda>(i, f, bs). (i, f)) demo_parts) (x86p_wasm_init (replicate 80 1) 64)) \<and>
   drop 64 (we_buf (emit_module (List.map (\<lambda>(i, f, bs). (i, f)) demo_parts) (x86p_wasm_init (replicate 80 1) 64))) = replicate 16 1"
  using module_round_trip [OF demo_parts_ok _ refl, of 64 "replicate 80 1"]
  by (simp add: demo_parts_def module_bytes_def)

end
