(* ===== verification/X86_Wasm_Arena.thy ===== *)
theory X86_Wasm_Arena
  imports X86_Prelude
begin

text \<open>
  The lifetime of instantiated WebAssembly modules: \<open>src/src/x86port/jit_wasm_arena.h\<close> and
  \<open>jit_wasm_arena.c\<close>.  The engine behind the arena is a vtable in the code and a parameter here:
  the four functions over its own state \<open>'h\<close> (what the code's \<open>user\<close> pointer leads to).  An
  arena with no usable host has \<open>None\<close>.  A module handle is the engine's \<open>int\<close>; the slot indices
  and counters are 32-bit.  A refusal is a value; the sentences that explain it are not modelled.
\<close>

datatype arena_refusal =
    NoEngine | EmptyModule | AllSlotsLive | FreeListDisagrees | EngineRejected int

definition kX86pWasmRefusedByEngine :: int where "kX86pWasmRefusedByEngine = -1"
definition kX86pWasmRefusedModule :: int where "kX86pWasmRefusedModule = -2"
definition kX86pWasmCeilingHeadroomDivisor :: u32 where "kX86pWasmCeilingHeadroomDivisor = 16"

record 'h wasm_host =
  wh_instantiate :: "'h \<Rightarrow> u8 list \<Rightarrow> int \<times> 'h"
  wh_resolve :: "'h \<Rightarrow> int \<Rightarrow> string \<Rightarrow> int \<times> 'h"
  wh_adopt :: "('h \<Rightarrow> int \<Rightarrow> string \<Rightarrow> int \<Rightarrow> string \<Rightarrow> int \<Rightarrow> bool \<times> 'h) option"
  wh_release :: "'h \<Rightarrow> int \<Rightarrow> 'h"

record arena_slot =
  sl_live :: bool
  sl_module :: int
  sl_next_free :: u32

record 'h arena =
  wa_host :: "'h wasm_host option"
  wa_user :: 'h
  wa_slot :: "arena_slot list"
  wa_capacity :: u32
  wa_free_head :: u32
  wa_live :: u32
  wa_ceiling :: u32
  wa_headroom :: u32
  wa_published :: u32
  wa_released :: u32
  wa_refusals :: u32
  wa_failures :: u32
  wa_adoptions :: u32
  wa_ceilings_learned :: u32
  wa_ceilings_retired :: u32

text \<open>Reading a slot by index; the code only reads below \<open>capacity\<close>.\<close>

definition thread_free :: "u32 \<Rightarrow> nat \<Rightarrow> arena_slot" where
  "thread_free capacity i =
     \<lparr>sl_live = False, sl_module = 0,
      sl_next_free = (if of_nat i + 1 < capacity then of_nat i + 2 else 0)\<rparr>"

definition x86p_wasm_arena_init :: "bool \<Rightarrow> 'h wasm_host option \<Rightarrow> 'h \<Rightarrow> u32 \<Rightarrow> bool \<times> 'h arena" where
  "x86p_wasm_arena_init heap_ok host user capacity =
     (let a = \<lparr>wa_host = host, wa_user = user, wa_slot = [], wa_capacity = 0, wa_free_head = 0, wa_live = 0,
               wa_ceiling = 0, wa_headroom = 0, wa_published = 0, wa_released = 0, wa_refusals = 0,
               wa_failures = 0, wa_adoptions = 0, wa_ceilings_learned = 0, wa_ceilings_retired = 0\<rparr> in
      if capacity = 0 then (False, a)
      else if \<not> heap_ok then (False, a)
      else (True, a\<lparr>wa_slot := List.map (thread_free capacity) [0..<unat capacity],
                   wa_capacity := capacity, wa_free_head := 1\<rparr>))"

definition learn_ceiling :: "int \<Rightarrow> 'h arena \<Rightarrow> 'h arena" where
  "learn_ceiling module a =
     (if module = kX86pWasmRefusedByEngine \<and> (wa_ceiling a = 0 \<or> wa_live a < wa_ceiling a)
      then a\<lparr>wa_ceiling := wa_live a, wa_headroom := wa_live a div kX86pWasmCeilingHeadroomDivisor,
             wa_ceilings_learned := wa_ceilings_learned a + 1\<rparr>
      else a)"

definition x86p_wasm_arena_publish :: "u8 list \<Rightarrow> 'h arena \<Rightarrow> (arena_refusal + nat) \<times> 'h arena" where
  "x86p_wasm_arena_publish bytes a =
     (case wa_host a of
        None \<Rightarrow> (Inl NoEngine, a\<lparr>wa_refusals := wa_refusals a + 1\<rparr>)
      | Some h \<Rightarrow>
          if bytes = [] then (Inl EmptyModule, a\<lparr>wa_refusals := wa_refusals a + 1\<rparr>)
          else if wa_free_head a = 0 then (Inl AllSlotsLive, a\<lparr>wa_refusals := wa_refusals a + 1\<rparr>)
          else
            let i = unat (wa_free_head a - 1) in
            if unat (wa_capacity a) \<le> i \<or> sl_live (wa_slot a ! i)
            then (Inl FreeListDisagrees, a\<lparr>wa_refusals := wa_refusals a + 1\<rparr>)
            else
              let (module, user) = wh_instantiate h (wa_user a) bytes; a = a\<lparr>wa_user := user\<rparr> in
              if module < 0
              then (Inl (EngineRejected module), learn_ceiling module (a\<lparr>wa_failures := wa_failures a + 1\<rparr>))
              else
                (Inr i,
                 a\<lparr>wa_free_head := sl_next_free (wa_slot a ! i),
                   wa_slot := (wa_slot a)[i := \<lparr>sl_live = True, sl_module = module, sl_next_free = 0\<rparr>],
                   wa_live := wa_live a + 1, wa_published := wa_published a + 1\<rparr>))"

text \<open>\<open>token < 0\<close> and \<open>token >= capacity\<close> are both refused.\<close>

definition slot_of :: "int \<Rightarrow> 'h arena \<Rightarrow> arena_slot option" where
  "slot_of token a =
     (if token < 0 \<or> uint (wa_capacity a) \<le> token then None
      else let s = wa_slot a ! nat token in if sl_live s then Some s else None)"

definition x86p_wasm_arena_entry :: "int \<Rightarrow> string \<Rightarrow> 'h arena \<Rightarrow> u64 \<times> 'h arena" where
  "x86p_wasm_arena_entry token field a =
     (case (slot_of token a, wa_host a) of
        (Some s, Some h) \<Rightarrow>
          let (callable, user) = wh_resolve h (wa_user a) (sl_module s) field; a = a\<lparr>wa_user := user\<rparr> in
          if callable \<le> 0 then (0, a) else (ucast (of_int callable :: u32), a)
      | _ \<Rightarrow> (0, a))"

definition x86p_wasm_arena_can_adopt :: "'h arena \<Rightarrow> bool" where
  "x86p_wasm_arena_can_adopt a = (case wa_host a of None \<Rightarrow> False | Some h \<Rightarrow> wh_adopt h \<noteq> None)"

definition x86p_wasm_arena_adopt ::
  "int \<Rightarrow> string \<Rightarrow> int \<Rightarrow> string \<Rightarrow> u64 \<Rightarrow> 'h arena \<Rightarrow> bool \<times> 'h arena" where
  "x86p_wasm_arena_adopt to to_field source from_field entry a =
     (case Option.bind (wa_host a) wh_adopt of
        None \<Rightarrow> (False, a)
      | Some adopt \<Rightarrow>
          if entry = 0 then (False, a)
          else
            case (slot_of to a, slot_of source a) of
              (Some t, Some s) \<Rightarrow>
                let index = ucast entry :: u32 in
                if index = 0 then (False, a)
                else
                  let (done_it, user) = adopt (wa_user a) (sl_module t) to_field (sl_module s) from_field (sint index);
                      a = a\<lparr>wa_user := user\<rparr>
                  in if done_it then (True, a\<lparr>wa_adoptions := wa_adoptions a + 1\<rparr>) else (False, a)
            | _ \<Rightarrow> (False, a))"

definition retire_ceiling_if_backed_off :: "'h arena \<Rightarrow> 'h arena" where
  "retire_ceiling_if_backed_off a =
     (if wa_ceiling a = 0 \<or> wa_ceiling a \<le> wa_live a + wa_headroom a then a
      else a\<lparr>wa_ceiling := 0, wa_headroom := 0, wa_ceilings_retired := wa_ceilings_retired a + 1\<rparr>)"

definition x86p_wasm_arena_release :: "int \<Rightarrow> 'h arena \<Rightarrow> 'h arena" where
  "x86p_wasm_arena_release token a =
     (case slot_of token a of
        None \<Rightarrow> a
      | Some s \<Rightarrow>
          let a = (case wa_host a of
                     None \<Rightarrow> a
                   | Some h \<Rightarrow> a\<lparr>wa_user := wh_release h (wa_user a) (sl_module s)\<rparr>)
          in retire_ceiling_if_backed_off
               (a\<lparr>wa_slot := (wa_slot a)[nat token := \<lparr>sl_live = False, sl_module = 0, sl_next_free = wa_free_head a\<rparr>],
                  wa_free_head := of_int token + 1, wa_live := wa_live a - 1, wa_released := wa_released a + 1\<rparr>))"

definition x86p_wasm_arena_release_all :: "'h arena \<Rightarrow> 'h arena" where
  "x86p_wasm_arena_release_all a = fold (\<lambda>i. x86p_wasm_arena_release (int i)) [0..<unat (wa_capacity a)] a"

definition x86p_wasm_arena_dispose :: "'h arena \<Rightarrow> 'h arena" where
  "x86p_wasm_arena_dispose a =
     (x86p_wasm_arena_release_all a)\<lparr>wa_slot := [], wa_capacity := 0, wa_free_head := 0\<rparr>"

definition x86p_wasm_arena_has_room :: "'h arena \<Rightarrow> bool" where
  "x86p_wasm_arena_has_room a =
     (if wa_capacity a \<le> wa_live a then False
      else wa_ceiling a = 0 \<or> wa_live a + wa_headroom a < wa_ceiling a)"

end
