(* ===== verification/X86_Wasm_Host.thy ===== *)
theory X86_Wasm_Host
  imports X86_Wasm_Arena "HOL-Library.AList"
begin

text \<open>
  The browser side of the arena's engine: \<open>src/src/x86port/jit_wasm_host.c\<close>, its JavaScript bodies
  included.  A JavaScript \<open>Map\<close> is an association list, the module ids are integers.

  The WebAssembly engine and Emscripten's function table are the parameter \<open>browser\<close>: whether the
  trampoline module instantiates, what compiling bytes gives (the exports that are functions of type
  \<open>'f\<close>, a fault of the module, or any other failure), and what \<open>addFunction\<close> answers for a function
  after the calls made so far, most recent first: a table index, and whether it set the entry there or
  knew the function by that index already.  \<open>hs_calls\<close> is the history of those calls and \<open>hs_table\<close>
  the non-null table entries this host has set.  The import bindings are a flag and a counter; their
  names and addresses are not modelled.

  A number a JavaScript body returns reaches C as an \<open>int\<close>: it is reduced to 32 bits.
\<close>

definition c_int :: "int \<Rightarrow> int" where
  "c_int n = sint (word_of_int n :: 32 word)"

datatype 'f table_call = AddFunction 'f int | SetEntry int "'f option" | RemoveFunction int

record 'f host_module =
  hm_exports :: "string \<Rightarrow> 'f option"
  hm_entries :: "(string \<times> int) list"

record 'f host_state =
  hs_env :: bool
  hs_import_bindings :: nat
  hs_modules :: "(int \<times> 'f host_module) list"
  hs_next :: int
  hs_table :: "(int \<times> 'f) list"
  hs_calls :: "'f table_call list"

datatype 'f compiled = Instance "string \<Rightarrow> 'f option" | ModuleFault | OtherFault

record 'f browser =
  br_trampoline :: bool
  br_compile :: "'f host_state \<Rightarrow> u8 list \<Rightarrow> 'f compiled"
  br_add_function :: "'f table_call list \<Rightarrow> 'f \<Rightarrow> int \<times> bool"

definition host_create :: "'f host_state" where
  "host_create = \<lparr>hs_env = False, hs_import_bindings = 0, hs_modules = [], hs_next = 1, hs_table = [], hs_calls = []\<rparr>"

definition host_instantiate :: "'f browser \<Rightarrow> 'f host_state \<Rightarrow> u8 list \<Rightarrow> int \<times> 'f host_state" where
  "host_instantiate b st bytes =
     (if \<not> hs_env st \<and> \<not> br_trampoline b then (kX86pWasmRefusedModule, st)
      else
        let st = (if hs_env st then st else st\<lparr>hs_env := True, hs_import_bindings := hs_import_bindings st + 1\<rparr>) in
        case br_compile b st bytes of
          ModuleFault \<Rightarrow> (kX86pWasmRefusedModule, st)
        | OtherFault \<Rightarrow> (kX86pWasmRefusedByEngine, st)
        | Instance exports \<Rightarrow>
            (c_int (hs_next st),
             st\<lparr>hs_modules := AList.update (hs_next st) \<lparr>hm_exports = exports, hm_entries = []\<rparr> (hs_modules st),
                hs_next := hs_next st + 1\<rparr>))"

definition host_resolve :: "'f browser \<Rightarrow> 'f host_state \<Rightarrow> int \<Rightarrow> string \<Rightarrow> int \<times> 'f host_state" where
  "host_resolve b st i name =
     (case map_of (hs_modules st) i of
        None \<Rightarrow> (0, st)
      | Some module \<Rightarrow>
          case map_of (hm_entries module) name of
            Some entry \<Rightarrow> (c_int entry, st)
          | None \<Rightarrow>
              case hm_exports module name of
                None \<Rightarrow> (0, st)
              | Some fn \<Rightarrow>
                  let (entry, added) = br_add_function b (hs_calls st) fn in
                  (c_int entry,
                   st\<lparr>hs_table := (if added then AList.update entry fn (hs_table st) else hs_table st),
                      hs_calls := AddFunction fn entry # hs_calls st,
                      hs_modules := AList.update i (module\<lparr>hm_entries := AList.update name entry (hm_entries module)\<rparr>)
                        (hs_modules st)\<rparr>))"

definition setWasmTableEntry :: "int \<Rightarrow> 'f option \<Rightarrow> 'f host_state \<Rightarrow> 'f host_state" where
  "setWasmTableEntry entry fn st =
     st\<lparr>hs_table := (case fn of None \<Rightarrow> AList.delete entry (hs_table st) | Some fn \<Rightarrow> AList.update entry fn (hs_table st)),
        hs_calls := SetEntry entry fn # hs_calls st\<rparr>"

definition removeFunction :: "int \<Rightarrow> 'f host_state \<Rightarrow> 'f host_state" where
  "removeFunction entry st = st\<lparr>hs_calls := RemoveFunction entry # hs_calls st\<rparr>"

text \<open>
  \<open>to.entries.set\<close> and then \<open>from.entries.delete\<close>, in that order on the shared objects: when both
  ids are the same module the second sees the first's change.
\<close>

definition host_adopt ::
  "'f host_state \<Rightarrow> int \<Rightarrow> string \<Rightarrow> int \<Rightarrow> string \<Rightarrow> int \<Rightarrow> bool \<times> 'f host_state" where
  "host_adopt st to_id to_field from_id from_field entry =
     (case (map_of (hs_modules st) to_id, map_of (hs_modules st) from_id) of
        (Some to, Some _) \<Rightarrow>
          (case hm_exports to to_field of
             None \<Rightarrow> (False, st)
           | Some fn \<Rightarrow>
               let ms = AList.update to_id (to\<lparr>hm_entries := AList.update to_field entry (hm_entries to)\<rparr>) (hs_modules st);
                   ms = AList.map_entry from_id
                          (\<lambda>m. m\<lparr>hm_entries := AList.delete from_field (hm_entries m)\<rparr>) ms
               in (True, (setWasmTableEntry entry (Some fn) st)\<lparr>hs_modules := ms\<rparr>))
      | _ \<Rightarrow> (False, st))"

definition clear_entries :: "(string \<times> int) list \<Rightarrow> 'f host_state \<Rightarrow> 'f host_state" where
  "clear_entries entries = fold (\<lambda>(_, entry) st. setWasmTableEntry entry None (removeFunction entry st)) entries"

definition host_release :: "'f host_state \<Rightarrow> int \<Rightarrow> 'f host_state" where
  "host_release st i =
     (case map_of (hs_modules st) i of
        None \<Rightarrow> st
      | Some module \<Rightarrow> (clear_entries (hm_entries module) st)\<lparr>hs_modules := AList.delete i (hs_modules st)\<rparr>)"

definition host_destroy :: "'f host_state \<Rightarrow> 'f host_state" where
  "host_destroy st = (fold (\<lambda>(_, module). clear_entries (hm_entries module)) (hs_modules st) st)\<lparr>hs_modules := []\<rparr>"

text \<open>The vtable, over the browser; the worker test and the trampoline's size decide whether there is one.\<close>

definition browser_host :: "'f browser \<Rightarrow> 'f host_state wasm_host" where
  "browser_host b =
     \<lparr>wh_instantiate = host_instantiate b, wh_resolve = host_resolve b, wh_adopt = Some host_adopt,
      wh_release = host_release\<rparr>"

definition x86p_wasm_host_create ::
  "bool \<Rightarrow> bool \<Rightarrow> nat \<Rightarrow> 'f browser \<Rightarrow> ('f host_state wasm_host \<times> 'f host_state) option" where
  "x86p_wasm_host_create heap_ok worker trampoline_len b =
     (if \<not> heap_ok \<or> \<not> worker then None
      else if trampoline_len = 0 then None
      else Some (browser_host b, host_create))"

end
