(* ===== verification/X86_Wasm_Arena_Properties.thy ===== *)
theory X86_Wasm_Arena_Properties
  imports X86_Wasm_Host "HOL-Library.Multiset"
begin

text \<open>
  The accounting of the module arena.  The free list threaded through the slots names every slot
  that is not live exactly once, the live count is the number of live slots, and the engine holds
  exactly the modules of the live slots.  What an engine promises is the locale \<open>wasm_engine\<close>;
  \<open>counting\<close> is an engine that keeps a list of what it holds.
\<close>

section \<open>The free list\<close>

fun free_chain :: "arena_slot list \<Rightarrow> u32 \<Rightarrow> nat list \<Rightarrow> bool" where
  "free_chain sl h [] = (h = 0)"
| "free_chain sl h (i # is) =
     (h = of_nat i + 1 \<and> i < length sl \<and> \<not> sl_live (sl ! i) \<and> free_chain sl (sl_next_free (sl ! i)) is)"

definition live_slots :: "arena_slot list \<Rightarrow> nat set" where
  "live_slots sl = {i. i < length sl \<and> sl_live (sl ! i)}"

definition arena_ok :: "'h arena \<Rightarrow> bool" where
  "arena_ok a \<longleftrightarrow>
     length (wa_slot a) = unat (wa_capacity a) \<and> unat (wa_capacity a) < 2 ^ 31 \<and>
     unat (wa_live a) = card (live_slots (wa_slot a)) \<and>
     (\<exists>fs. free_chain (wa_slot a) (wa_free_head a) fs \<and> distinct fs \<and>
        set fs = {i. i < length (wa_slot a) \<and> \<not> sl_live (wa_slot a ! i)})"

definition modules :: "arena_slot list \<Rightarrow> int multiset" where
  "modules sl = mset (List.map sl_module (filter sl_live sl))"

lemma free_chain_update:
  "free_chain sl h fs \<Longrightarrow> i \<notin> set fs \<Longrightarrow> free_chain (sl[i := s]) h fs"
  by (induction fs arbitrary: h) auto

lemma live_slots_update:
  assumes "i < length sl"
  shows "live_slots (sl[i := s]) = (if sl_live s then insert i (live_slots sl) else live_slots sl - {i})"
  using assms by (auto simp: live_slots_def nth_list_update split: if_splits)

lemma finite_live_slots [simp]: "finite (live_slots sl)"
  by (simp add: live_slots_def)

lemma card_live_le: "card (live_slots sl) \<le> length sl"
  using card_mono [of "{..<length sl}" "live_slots sl"] by (auto simp: live_slots_def)

lemma arena_ok_length: "arena_ok a \<Longrightarrow> length (wa_slot a) = unat (wa_capacity a)"
  by (simp add: arena_ok_def)

lemma modules_append: "modules (xs @ ys) = modules xs + modules ys"
  by (simp add: modules_def)

lemma modules_split: "i < length sl \<Longrightarrow> modules sl = modules (take i sl) + modules [sl ! i] + modules (drop (Suc i) sl)"
  by (metis append_assoc append_Cons append_Nil id_take_nth_drop modules_append)

lemma modules_update:
  "i < length sl \<Longrightarrow> modules (sl[i := s]) + modules [sl ! i] = modules sl + modules [s]"
  unfolding modules_split [of i sl] upd_conv_take_nth_drop [of i sl]
  by (simp add: modules_append modules_def)

section \<open>Every operation keeps the accounts\<close>

lemma fresh_chain:
  "i < unat c \<Longrightarrow> unat c < 2 ^ 31 \<Longrightarrow>
   free_chain (List.map (thread_free c) [0..<unat c]) (of_nat i + 1) [i..<unat c]"
proof (induction "unat c - i" arbitrary: i)
  case (Suc n)
  have u: "[i..<unat c] = i # [Suc i..<unat c]" using Suc.prems by (intro upt_conv_Cons)
  have e: "of_nat i + 1 = (of_nat (Suc i) :: u32)" by simp
  have ws: "unat (of_nat (Suc i) :: u32) = Suc i" using Suc.prems by (simp only: unat_of_nat) simp
  have lt: "(of_nat i + 1 < c) = (Suc i < unat c)" unfolding e word_less_nat_alt ws ..
  show ?case
  proof (cases "Suc i < unat c")
    case False
    then show ?thesis unfolding u using Suc.prems lt by (simp add: thread_free_def)
  next
    case True
    have "free_chain (List.map (thread_free c) [0..<unat c]) (of_nat (Suc i) + 1) [Suc i..<unat c]"
      using Suc.hyps Suc.prems True by (intro Suc.hyps(1)) simp_all
    then show ?thesis unfolding u using Suc.prems lt True by (simp add: thread_free_def add.commute)
  qed
qed simp

lemma init_ok:
  assumes "unat capacity < 2 ^ 31"
  shows "arena_ok (snd (x86p_wasm_arena_init heap host user capacity))"
proof (cases "capacity = 0 \<or> \<not> heap")
  case True
  have "free_chain [] 0 []" by simp
  then show ?thesis using True
    by (elim disjE) (simp_all add: x86p_wasm_arena_init_def Let_def arena_ok_def live_slots_def exI [of _ "[]"])
next
  case False
  let ?sl = "List.map (thread_free capacity) [0..<unat capacity]"
  have n: "0 < unat capacity" using False by (simp add: unat_gt_0)
  have "free_chain ?sl 1 [0..<unat capacity]" using fresh_chain [OF n assms] by simp
  moreover have "set [0..<unat capacity] = {i. i < length ?sl \<and> \<not> sl_live (?sl ! i)}"
    by (auto simp: thread_free_def)
  ultimately have "\<exists>fs. free_chain ?sl 1 fs \<and> distinct fs \<and> set fs = {i. i < length ?sl \<and> \<not> sl_live (?sl ! i)}"
    by (intro exI [of _ "[0..<unat capacity]"]) simp
  then show ?thesis
    using False assms by (simp add: x86p_wasm_arena_init_def arena_ok_def live_slots_def thread_free_def)
qed

lemma learn_ceiling_frame [simp]:
  "wa_slot (learn_ceiling m a) = wa_slot a" "wa_capacity (learn_ceiling m a) = wa_capacity a"
  "wa_free_head (learn_ceiling m a) = wa_free_head a" "wa_live (learn_ceiling m a) = wa_live a"
  "wa_user (learn_ceiling m a) = wa_user a" "wa_host (learn_ceiling m a) = wa_host a"
  by (simp_all add: learn_ceiling_def)

lemma retire_frame [simp]:
  "wa_slot (retire_ceiling_if_backed_off a) = wa_slot a" "wa_capacity (retire_ceiling_if_backed_off a) = wa_capacity a"
  "wa_free_head (retire_ceiling_if_backed_off a) = wa_free_head a" "wa_live (retire_ceiling_if_backed_off a) = wa_live a"
  "wa_user (retire_ceiling_if_backed_off a) = wa_user a" "wa_host (retire_ceiling_if_backed_off a) = wa_host a"
  by (simp_all add: retire_ceiling_if_backed_off_def)

lemma arena_ok_cong:
  "wa_slot a = wa_slot b \<Longrightarrow> wa_capacity a = wa_capacity b \<Longrightarrow> wa_free_head a = wa_free_head b \<Longrightarrow>
   wa_live a = wa_live b \<Longrightarrow> arena_ok a = arena_ok b"
  by (simp add: arena_ok_def)

lemma free_head_slot:
  assumes "arena_ok a" "wa_free_head a \<noteq> 0" "i = unat (wa_free_head a - 1)"
  obtains fs where "i < length (wa_slot a)" "\<not> sl_live (wa_slot a ! i)"
    "free_chain (wa_slot a) (sl_next_free (wa_slot a ! i)) fs" "distinct (i # fs)"
    "insert i (set fs) = {i. i < length (wa_slot a) \<and> \<not> sl_live (wa_slot a ! i)}"
proof -
  obtain fs where fs: "free_chain (wa_slot a) (wa_free_head a) fs" "distinct fs"
    "set fs = {i. i < length (wa_slot a) \<and> \<not> sl_live (wa_slot a ! i)}" and
    len: "length (wa_slot a) < 2 ^ 31" using assms(1) by (auto simp: arena_ok_def)
  obtain j js where j: "fs = j # js" using fs(1) assms(2) by (cases fs) auto
  have "j < 2 ^ 31" using fs(1) j len by simp
  then have "unat (of_nat j :: u32) = j" by (simp only: unat_of_nat) simp
  then have "i = j" using fs(1) j assms(3) by simp
  then show thesis using fs j by (intro that [of js]) simp_all
qed

lemma publish_step:
  assumes ok: "arena_ok a" and f: "wa_free_head a \<noteq> 0" and i: "i = unat (wa_free_head a - 1)"
    and b: "wa_slot b = (wa_slot a)[i := \<lparr>sl_live = True, sl_module = m, sl_next_free = 0\<rparr>]"
      "wa_free_head b = sl_next_free (wa_slot a ! i)" "wa_live b = wa_live a + 1" "wa_capacity b = wa_capacity a"
  shows "arena_ok b" "modules (wa_slot b) = add_mset m (modules (wa_slot a))" "i \<notin> live_slots (wa_slot a)"
    "live_slots (wa_slot b) = insert i (live_slots (wa_slot a))"
proof -
  obtain fs where fs: "i < length (wa_slot a)" "\<not> sl_live (wa_slot a ! i)"
    "free_chain (wa_slot a) (sl_next_free (wa_slot a ! i)) fs" "distinct (i # fs)"
    "insert i (set fs) = {i. i < length (wa_slot a) \<and> \<not> sl_live (wa_slot a ! i)}"
    using free_head_slot [OF ok f i] .
  show fresh: "i \<notin> live_slots (wa_slot a)" using fs by (simp add: live_slots_def)
  show live: "live_slots (wa_slot b) = insert i (live_slots (wa_slot a))"
    unfolding b using fs(1) by (simp add: live_slots_update)
  show "modules (wa_slot b) = add_mset m (modules (wa_slot a))"
    using modules_update [OF fs(1), of "\<lparr>sl_live = True, sl_module = m, sl_next_free = 0\<rparr>"] fs(2)
    unfolding b by (simp add: modules_def)
  have c: "card (live_slots (wa_slot b)) = Suc (card (live_slots (wa_slot a)))" unfolding live using fresh by simp
  have "Suc (unat (wa_live a)) < 2 ^ 32"
    using ok card_live_le [of "wa_slot b"] b(1) c by (simp add: arena_ok_def)
  then have "unat (wa_live b) = Suc (unat (wa_live a))" unfolding b by (simp add: unat_plus_if_size word_size)
  then have "unat (wa_live b) = card (live_slots (wa_slot b))" using c ok by (simp add: arena_ok_def)
  moreover have "free_chain (wa_slot b) (wa_free_head b) fs"
    unfolding b by (rule free_chain_update) (use fs in simp_all)
  moreover have "set fs = {j. j < length (wa_slot b) \<and> \<not> sl_live (wa_slot b ! j)}"
  proof (rule set_eqI)
    fix j
    have "j \<in> insert i (set fs) \<longleftrightarrow> j < length (wa_slot a) \<and> \<not> sl_live (wa_slot a ! j)" unfolding fs(5) by simp
    then show "j \<in> set fs \<longleftrightarrow> j \<in> {j. j < length (wa_slot b) \<and> \<not> sl_live (wa_slot b ! j)}"
      using fs(1,4) by (cases "j = i") (simp_all add: b(1))
  qed
  ultimately show "arena_ok b" using ok fs(4) unfolding arena_ok_def b(4) by (auto simp: b(1))
qed

lemma release_step:
  assumes ok: "arena_ok a" and s: "slot_of t a = Some s"
    and b: "wa_slot b = (wa_slot a)[nat t := \<lparr>sl_live = False, sl_module = 0, sl_next_free = wa_free_head a\<rparr>]"
      "wa_free_head b = of_int t + 1" "wa_live b = wa_live a - 1" "wa_capacity b = wa_capacity a"
  shows "arena_ok b" "modules (wa_slot a) = add_mset (sl_module s) (modules (wa_slot b))"
    "live_slots (wa_slot b) = live_slots (wa_slot a) - {nat t}" "nat t \<in> live_slots (wa_slot a)"
    "unat (wa_live a) = Suc (unat (wa_live b))"
proof -
  have t: "0 \<le> t" "nat t < length (wa_slot a)" "s = wa_slot a ! nat t" "sl_live s"
  proof -
    from s have n: "0 \<le> t" "t < uint (wa_capacity a)" "s = wa_slot a ! nat t" "sl_live s"
      by (simp_all add: slot_of_def Let_def split: if_splits)
    then have "nat t < unat (wa_capacity a)" by (metis nat_less_eq_zless nat_uint_eq)
    then show "0 \<le> t" "nat t < length (wa_slot a)" "s = wa_slot a ! nat t" "sl_live s"
      using n ok by (simp_all add: arena_ok_def)
  qed
  show live: "live_slots (wa_slot b) = live_slots (wa_slot a) - {nat t}"
    unfolding b using t by (simp add: live_slots_update)
  show mem: "nat t \<in> live_slots (wa_slot a)" using t by (simp add: live_slots_def)
  show "modules (wa_slot a) = add_mset (sl_module s) (modules (wa_slot b))"
    using modules_update [OF t(2), of "\<lparr>sl_live = False, sl_module = 0, sl_next_free = wa_free_head a\<rparr>"] t
    unfolding b by (simp add: modules_def)
  have c: "card (live_slots (wa_slot a)) = Suc (card (live_slots (wa_slot b)))"
    unfolding live by (rule card.remove [OF _ mem]) simp
  then have pos: "0 < unat (wa_live a)" using ok by (simp add: arena_ok_def)
  then have "unat (wa_live b) = unat (wa_live a) - 1" unfolding b by (simp add: unat_minus_one unat_gt_0)
  then show n: "unat (wa_live a) = Suc (unat (wa_live b))" using pos by simp
  obtain fs where fs: "free_chain (wa_slot a) (wa_free_head a) fs" "distinct fs"
    "set fs = {i. i < length (wa_slot a) \<and> \<not> sl_live (wa_slot a ! i)}" using ok by (auto simp: arena_ok_def)
  have nt: "nat t \<notin> set fs" using fs(3) t by simp
  have h: "wa_free_head b = of_nat (nat t) + 1" unfolding b using t(1) by simp
  have "free_chain (wa_slot b) (wa_free_head b) (nat t # fs)"
    using free_chain_update [OF fs(1) nt] t(2) unfolding free_chain.simps h by (simp add: b(1))
  moreover have "set (nat t # fs) = {j. j < length (wa_slot b) \<and> \<not> sl_live (wa_slot b ! j)}"
  proof (rule set_eqI)
    fix j
    have "j \<in> set fs \<longleftrightarrow> j < length (wa_slot a) \<and> \<not> sl_live (wa_slot a ! j)" unfolding fs(3) by simp
    then show "j \<in> set (nat t # fs) \<longleftrightarrow> j \<in> {j. j < length (wa_slot b) \<and> \<not> sl_live (wa_slot b ! j)}"
      using t(2) by (cases "j = nat t") (simp_all add: b(1))
  qed
  moreover have "distinct (nat t # fs)" using fs(2) nt by simp
  moreover have "unat (wa_live b) = card (live_slots (wa_slot b))" using n c ok by (simp add: arena_ok_def)
  ultimately show "arena_ok b" using ok unfolding arena_ok_def b(4) by (metis b(1) length_list_update)
qed

text \<open>Releasing every slot leaves none live.\<close>

lemma release_live:
  assumes "arena_ok a"
  shows "arena_ok (x86p_wasm_arena_release t a)"
    "live_slots (wa_slot (x86p_wasm_arena_release t a)) = live_slots (wa_slot a) - (if 0 \<le> t then {nat t} else {})"
    "wa_capacity (x86p_wasm_arena_release t a) = wa_capacity a"
proof -
  show c: "wa_capacity (x86p_wasm_arena_release t a) = wa_capacity a"
    by (simp add: x86p_wasm_arena_release_def Let_def split: option.splits)
  have "arena_ok (x86p_wasm_arena_release t a) \<and>
      live_slots (wa_slot (x86p_wasm_arena_release t a)) = live_slots (wa_slot a) - (if 0 \<le> t then {nat t} else {})"
  proof (cases "slot_of t a")
    case None
    have "nat t \<notin> live_slots (wa_slot a)" if "0 \<le> t"
    proof
      assume l: "nat t \<in> live_slots (wa_slot a)"
      then have "nat t < unat (wa_capacity a)" using assms by (simp add: live_slots_def arena_ok_def)
      then have "t < uint (wa_capacity a)" by (metis nat_less_eq_zless nat_uint_eq that)
      then show False using None l that by (simp add: slot_of_def live_slots_def Let_def)
    qed
    then show ?thesis using None assms by (cases "0 \<le> t") (simp_all add: x86p_wasm_arena_release_def)
  next
    case (Some s)
    let ?b = "x86p_wasm_arena_release t a"
    have b: "wa_slot ?b = (wa_slot a)[nat t := \<lparr>sl_live = False, sl_module = 0, sl_next_free = wa_free_head a\<rparr>]"
      "wa_free_head ?b = of_int t + 1" "wa_live ?b = wa_live a - 1" "wa_capacity ?b = wa_capacity a"
      using Some by (simp_all add: x86p_wasm_arena_release_def Let_def split: option.splits)
    have "0 \<le> t" using Some by (simp add: slot_of_def split: if_splits)
    then show ?thesis using release_step(1,3) [OF assms Some b] by simp
  qed
  then show "arena_ok (x86p_wasm_arena_release t a)"
    "live_slots (wa_slot (x86p_wasm_arena_release t a)) = live_slots (wa_slot a) - (if 0 \<le> t then {nat t} else {})"
    by simp_all
qed

lemma releases_live:
  assumes "arena_ok a"
  shows "arena_ok (fold (\<lambda>i. x86p_wasm_arena_release (int i)) ks a) \<and>
     live_slots (wa_slot (fold (\<lambda>i. x86p_wasm_arena_release (int i)) ks a)) = live_slots (wa_slot a) - set ks \<and>
     wa_capacity (fold (\<lambda>i. x86p_wasm_arena_release (int i)) ks a) = wa_capacity a"
  using assms
proof (induction ks arbitrary: a)
  case (Cons k ks)
  note r = release_live [OF Cons.prems, of "int k"]
  show ?case using Cons.IH [OF r(1)] r(2,3) by auto
qed simp

lemma release_all_live:
  assumes "arena_ok a"
  shows "arena_ok (x86p_wasm_arena_release_all a)" "live_slots (wa_slot (x86p_wasm_arena_release_all a)) = {}"
proof -
  note r = releases_live [OF assms, of "[0..<unat (wa_capacity a)]", folded x86p_wasm_arena_release_all_def]
  show "arena_ok (x86p_wasm_arena_release_all a)" using r by (rule conjunct1)
  have "live_slots (wa_slot a) \<subseteq> set [0..<unat (wa_capacity a)]"
    unfolding live_slots_def using arena_ok_length [OF assms] by auto
  then show "live_slots (wa_slot (x86p_wasm_arena_release_all a)) = {}" using r by blast
qed

lemma no_live_modules: "live_slots sl = {} \<Longrightarrow> modules sl = {#}"
proof -
  assume "live_slots sl = {}"
  then have "\<forall>s \<in> set sl. \<not> sl_live s" by (auto simp: live_slots_def in_set_conv_nth)
  then have "filter sl_live sl = []" by (simp add: filter_empty_conv)
  then show ?thesis by (simp add: modules_def)
qed

lemma dispose_ok:
  assumes "arena_ok a"
  shows "arena_ok (x86p_wasm_arena_dispose a)"
proof -
  let ?r = "x86p_wasm_arena_release_all a"
  have "unat (wa_live ?r) = 0" using release_all_live [OF assms] by (simp add: arena_ok_def)
  moreover have "free_chain [] 0 []" by simp
  ultimately show ?thesis
    by (simp add: x86p_wasm_arena_dispose_def arena_ok_def live_slots_def exI [of _ "[]"])
qed

text \<open>Every arena the operations can produce on an engine.\<close>

inductive arena_reachable :: "'h wasm_host \<Rightarrow> 'h \<Rightarrow> 'h arena \<Rightarrow> bool" for h u where
  init: "unat c < 2 ^ 31 \<Longrightarrow> arena_reachable h u (snd (x86p_wasm_arena_init heap (Some h) u c))"
| publish: "arena_reachable h u a \<Longrightarrow> arena_reachable h u (snd (x86p_wasm_arena_publish bs a))"
| entry: "arena_reachable h u a \<Longrightarrow> arena_reachable h u (snd (x86p_wasm_arena_entry t f a))"
| adopt: "arena_reachable h u a \<Longrightarrow> arena_reachable h u (snd (x86p_wasm_arena_adopt t tf m mf e a))"
| release: "arena_reachable h u a \<Longrightarrow> arena_reachable h u (x86p_wasm_arena_release t a)"
| release_all: "arena_reachable h u a \<Longrightarrow> arena_reachable h u (x86p_wasm_arena_release_all a)"
| dispose: "arena_reachable h u a \<Longrightarrow> arena_reachable h u (x86p_wasm_arena_dispose a)"

section \<open>Engines\<close>

text \<open>
  What the arena relies on: a handle the engine returns is held from then on, a release gives up
  one hold, and nothing else changes what is held.  An engine may run out of handles an \<open>int\<close> can
  carry (\<open>numbered\<close> no longer holds, and never again), and promises nothing of its books from there.
\<close>

locale wasm_engine =
  fixes h :: "'h wasm_host" and holds :: "'h \<Rightarrow> int multiset" and good :: "'h \<Rightarrow> bool" and numbered :: "'h \<Rightarrow> bool"
  assumes instantiated: "good u \<Longrightarrow> wh_instantiate h u bs = (m, u') \<Longrightarrow>
      good u' \<and> (numbered u' \<longrightarrow> numbered u \<and> holds u' = (if m < 0 then holds u else add_mset m (holds u)))"
    and resolved: "good u \<Longrightarrow> wh_resolve h u m f = (c, u') \<Longrightarrow>
      good u' \<and> numbered u' = numbered u \<and> holds u' = holds u"
    and adopted: "good u \<Longrightarrow> wh_adopt h = Some ad \<Longrightarrow> ad u t tf m mf i = (r, u') \<Longrightarrow>
      good u' \<and> numbered u' = numbered u \<and> holds u' = holds u"
    and given_up: "good u \<Longrightarrow>
      good (wh_release h u m) \<and> numbered (wh_release h u m) = numbered u \<and> holds (wh_release h u m) = holds u - {#m#}"
begin

definition accounts :: "'h arena \<Rightarrow> bool" where
  "accounts a \<longleftrightarrow>
     arena_ok a \<and> wa_host a = Some h \<and> good (wa_user a) \<and>
     (numbered (wa_user a) \<longrightarrow> holds (wa_user a) = modules (wa_slot a))"

lemma accounts_arena_ok: "accounts a \<Longrightarrow> arena_ok a"
  by (simp add: accounts_def)

lemma init_accounts:
  assumes "unat c < 2 ^ 31" "good u" "holds u = {#}"
  shows "accounts (snd (x86p_wasm_arena_init heap (Some h) u c))"
proof -
  have "filter sl_live (List.map (thread_free c) xs) = []" for xs
    by (induction xs) (simp_all add: thread_free_def)
  then have "modules (wa_slot (snd (x86p_wasm_arena_init heap (Some h) u c))) = {#}"
    by (auto simp: x86p_wasm_arena_init_def Let_def modules_def thread_free_def)
  moreover have "wa_host (snd (x86p_wasm_arena_init heap (Some h) u c)) = Some h"
    "wa_user (snd (x86p_wasm_arena_init heap (Some h) u c)) = u"
    by (simp_all add: x86p_wasm_arena_init_def Let_def)
  ultimately show ?thesis using init_ok [OF assms(1)] assms by (simp add: accounts_def)
qed

lemma accounts_same_slots:
  assumes "accounts a" "wa_slot b = wa_slot a" "wa_capacity b = wa_capacity a" "wa_free_head b = wa_free_head a"
    "wa_live b = wa_live a" "wa_host b = wa_host a" "good (wa_user b)"
    "numbered (wa_user b) \<longrightarrow> numbered (wa_user a) \<and> holds (wa_user b) = holds (wa_user a)"
  shows "accounts b"
  using assms arena_ok_cong [of b a] by (simp add: accounts_def)

lemma publish_accounts:
  assumes "accounts a"
  shows "accounts (snd (x86p_wasm_arena_publish bs a))" "fst (x86p_wasm_arena_publish bs a) \<noteq> Inl FreeListDisagrees"
proof -
  have h: "wa_host a = Some h" and ok: "arena_ok a" and g: "good (wa_user a)" "numbered (wa_user a) \<longrightarrow> holds (wa_user a) = modules (wa_slot a)"
    using assms by (simp_all add: accounts_def)
  have "accounts (snd (x86p_wasm_arena_publish bs a)) \<and> fst (x86p_wasm_arena_publish bs a) \<noteq> Inl FreeListDisagrees"
  proof (cases "bs = [] \<or> wa_free_head a = 0")
    case True
    then show ?thesis using assms g
      by (auto simp: x86p_wasm_arena_publish_def h intro: accounts_same_slots [OF assms])
  next
    case False
    let ?i = "unat (wa_free_head a - 1)"
    obtain fs where i: "?i < length (wa_slot a)" "\<not> sl_live (wa_slot a ! ?i)"
      using free_head_slot [OF ok] False by blast
    then have c: "\<not> unat (wa_capacity a) \<le> ?i" using ok by (simp add: arena_ok_def)
    obtain m u where e: "wh_instantiate h (wa_user a) bs = (m, u)" by (cases "wh_instantiate h (wa_user a) bs")
    have gu: "good u" "numbered u \<longrightarrow> numbered (wa_user a) \<and> holds u = (if m < 0 then holds (wa_user a) else add_mset m (holds (wa_user a)))"
      using instantiated [OF g(1) e] by simp_all
    show ?thesis
    proof (cases "m < 0")
      case True
      then show ?thesis using False i c e gu g
        by (auto simp: x86p_wasm_arena_publish_def h Let_def intro!: accounts_same_slots [OF assms])
    next
      case pos: False
      let ?b = "snd (x86p_wasm_arena_publish bs a)"
      have b: "wa_slot ?b = (wa_slot a)[?i := \<lparr>sl_live = True, sl_module = m, sl_next_free = 0\<rparr>]"
        "wa_free_head ?b = sl_next_free (wa_slot a ! ?i)" "wa_live ?b = wa_live a + 1" "wa_capacity ?b = wa_capacity a"
        "wa_host ?b = Some h" "wa_user ?b = u" "fst (x86p_wasm_arena_publish bs a) = Inr ?i"
        using False pos i c e h by (simp_all add: x86p_wasm_arena_publish_def Let_def)
      have f: "wa_free_head a \<noteq> 0" using False by simp
      show ?thesis
        using publish_step(1,2) [OF ok f refl b(1-4)] gu g pos b(5-7) by (simp add: accounts_def)
    qed
  qed
  then show "accounts (snd (x86p_wasm_arena_publish bs a))" "fst (x86p_wasm_arena_publish bs a) \<noteq> Inl FreeListDisagrees"
    by simp_all
qed

lemma entry_accounts:
  assumes "accounts a"
  shows "accounts (snd (x86p_wasm_arena_entry t f a))"
proof (cases "slot_of t a")
  case (Some s)
  obtain c u where e: "wh_resolve h (wa_user a) (sl_module s) f = (c, u)"
    by (cases "wh_resolve h (wa_user a) (sl_module s) f")
  have "good (wa_user a)" "wa_host a = Some h" using assms by (simp_all add: accounts_def)
  then show ?thesis using resolved [OF _ e] Some e assms
    by (auto simp: x86p_wasm_arena_entry_def Let_def intro!: accounts_same_slots [OF assms])
qed (use assms in \<open>simp add: x86p_wasm_arena_entry_def\<close>)

lemma adopt_accounts:
  assumes "accounts a"
  shows "accounts (snd (x86p_wasm_arena_adopt t tf m mf e a))"
proof -
  have g: "good (wa_user a)" "wa_host a = Some h" using assms by (simp_all add: accounts_def)
  have "good u' \<and> numbered u' = numbered (wa_user a) \<and> holds u' = holds (wa_user a)"
    if "wh_adopt h = Some ad" "ad (wa_user a) x xf y yf i = (r, u')" for ad x xf y yf i r u'
    using adopted [OF g(1) that] .
  then show ?thesis using assms g
    by (auto simp: x86p_wasm_arena_adopt_def Let_def split: option.splits prod.splits
        intro!: accounts_same_slots [OF assms])
qed

lemma release_accounts:
  assumes "accounts a"
  shows "accounts (x86p_wasm_arena_release t a)"
proof (cases "slot_of t a")
  case (Some s)
  let ?b = "x86p_wasm_arena_release t a"
  have g: "good (wa_user a)" "wa_host a = Some h" "arena_ok a" "numbered (wa_user a) \<longrightarrow> holds (wa_user a) = modules (wa_slot a)"
    using assms by (simp_all add: accounts_def)
  have b: "wa_slot ?b = (wa_slot a)[nat t := \<lparr>sl_live = False, sl_module = 0, sl_next_free = wa_free_head a\<rparr>]"
    "wa_free_head ?b = of_int t + 1" "wa_live ?b = wa_live a - 1" "wa_capacity ?b = wa_capacity a"
    "wa_host ?b = Some h" "wa_user ?b = wh_release h (wa_user a) (sl_module s)"
    using Some g(2) by (simp_all add: x86p_wasm_arena_release_def Let_def)
  show ?thesis
    using release_step(1,2) [OF g(3) Some b(1-4)] given_up [OF g(1), of "sl_module s"] g(4) b(5,6)
    by (simp add: accounts_def)
qed (use assms in \<open>simp add: x86p_wasm_arena_release_def\<close>)

lemma releases_accounts: "accounts a \<Longrightarrow> accounts (fold (\<lambda>i. x86p_wasm_arena_release (int i)) ks a)"
  by (induction ks arbitrary: a) (simp_all add: release_accounts)

lemma dispose_accounts:
  assumes "accounts a"
  shows "accounts (x86p_wasm_arena_dispose a)"
proof -
  let ?r = "x86p_wasm_arena_release_all a"
  have "accounts ?r" using releases_accounts [OF assms] by (simp add: x86p_wasm_arena_release_all_def)
  moreover have "modules (wa_slot ?r) = {#}"
    using release_all_live(2) [OF accounts_arena_ok [OF assms]] by (rule no_live_modules)
  ultimately show ?thesis
    using dispose_ok [OF accounts_arena_ok [OF assms]]
    by (simp add: accounts_def x86p_wasm_arena_dispose_def modules_def)
qed

lemma reachable_accounts:
  assumes "arena_reachable h u a" "good u" "holds u = {#}"
  shows "accounts a"
  using assms(1)
proof induction
  case (init c heap)
  then show ?case using init_accounts assms(2,3) by blast
next
  case (release_all a)
  then show ?case using releases_accounts by (simp add: x86p_wasm_arena_release_all_def)
qed (simp_all add: publish_accounts entry_accounts adopt_accounts release_accounts dispose_accounts)

end

section \<open>The browser is such an engine\<close>

definition host_keys :: "'f host_state \<Rightarrow> int list" where
  "host_keys st = List.map fst (hs_modules st)"

definition held :: "'f host_state \<Rightarrow> int multiset" where
  "held st = mset (host_keys st)"

definition host_ok :: "'f host_state \<Rightarrow> bool" where
  "host_ok st \<longleftrightarrow> distinct (host_keys st) \<and> 0 < hs_next st \<and> (\<forall>i \<in> set (host_keys st). i < hs_next st)"

lemma map_fst_map_entry: "List.map fst (AList.map_entry k f xs) = List.map fst xs"
  by (induction xs) auto

lemma map_fst_update:
  "List.map fst (AList.update k v xs) = (if map_of xs k = None then List.map fst xs @ [k] else List.map fst xs)"
  by (induction xs) auto

lemma map_fst_delete:
  "distinct (List.map fst xs) \<Longrightarrow> List.map fst (AList.delete k xs) = remove1 k (List.map fst xs)"
proof (induction xs)
  case (Cons x xs)
  have "AList.delete (fst x) xs = xs" using Cons.prems by (auto simp: map_of_eq_None_iff intro: delete_idem)
  then show ?case using Cons by (cases x) auto
qed simp

lemma host_ok_keys:
  "host_keys st' = host_keys st \<Longrightarrow> hs_next st' = hs_next st \<Longrightarrow> host_ok st' = host_ok st"
  "host_keys st' = host_keys st \<Longrightarrow> held st' = held st"
  by (simp_all add: host_ok_def held_def)

text \<open>A module number is what C sees of it as long as it is below \<open>2 ^ 31\<close>.\<close>

definition ids_left :: "'f host_state \<Rightarrow> bool" where
  "ids_left st \<longleftrightarrow> hs_next st \<le> 2 ^ 31"

lemma c_int_id: "- (2 ^ 31) \<le> n \<Longrightarrow> n < 2 ^ 31 \<Longrightarrow> c_int n = n"
  by (simp add: c_int_def signed_of_int signed_take_bit_int_eq_self)

lemma instantiate_keys:
  assumes "host_ok u" "host_instantiate b u bs = (m, u')"
  shows "host_ok u' \<and> (ids_left u' \<longrightarrow> ids_left u \<and> held u' = (if m < 0 then held u else add_mset m (held u)))"
proof (cases "hs_next u' = hs_next u")
  case True
  then have "host_keys u' = host_keys u" "m < 0"
    using assms(2) by (auto simp: host_instantiate_def Let_def host_keys_def kX86pWasmRefusedModule_def
        kX86pWasmRefusedByEngine_def split: if_splits compiled.splits)
  then show ?thesis using True assms(1) host_ok_keys [of u' u] by (simp add: ids_left_def)
next
  case False
  have "map_of (hs_modules u) (hs_next u) = None"
    using assms(1) by (auto simp: map_of_eq_None_iff host_ok_def host_keys_def)
  then have k: "host_keys u' = host_keys u @ [hs_next u] \<and> m = c_int (hs_next u) \<and> hs_next u' = hs_next u + 1"
    using False assms(2)
    by (auto simp: host_instantiate_def Let_def host_keys_def map_fst_update simp del: map_map split: if_splits compiled.splits)
  moreover have "c_int (hs_next u) = hs_next u" if "ids_left u'"
    using that k assms(1) by (intro c_int_id) (auto simp: ids_left_def host_ok_def)
  ultimately show ?thesis using assms(1) by (force simp: host_ok_def held_def ids_left_def)
qed

lemma resolve_keys:
  assumes "host_resolve b u m f = (c, u')"
  shows "host_keys u' = host_keys u \<and> hs_next u' = hs_next u"
  using assms by (auto simp: host_resolve_def Let_def host_keys_def map_fst_update split: option.splits prod.splits)

lemma set_entry_simps [simp]:
  "hs_modules (setWasmTableEntry e f st) = hs_modules st" "hs_next (setWasmTableEntry e f st) = hs_next st"
  "hs_modules (removeFunction e st) = hs_modules st" "hs_next (removeFunction e st) = hs_next st"
  "hs_table (removeFunction e st) = hs_table st" "hs_calls (removeFunction e st) = RemoveFunction e # hs_calls st"
  "hs_calls (setWasmTableEntry e f st) = SetEntry e f # hs_calls st"
  "map_of (hs_table (setWasmTableEntry e f st)) = (map_of (hs_table st))(e := f)"
  by (simp_all add: setWasmTableEntry_def removeFunction_def update_conv' delete_conv' split: option.split)

lemma clear_entries_simps [simp]:
  "hs_modules (clear_entries es st) = hs_modules st" "hs_next (clear_entries es st) = hs_next st"
  unfolding clear_entries_def by (induction es arbitrary: st) auto

lemma adopt_keys:
  assumes "host_adopt u t tf m mf i = (r, u')"
  shows "host_keys u' = host_keys u \<and> hs_next u' = hs_next u"
  using assms
  by (auto simp: host_adopt_def Let_def host_keys_def map_fst_update map_fst_map_entry split: option.splits prod.splits)

lemma release_keys:
  assumes "host_ok u"
  shows "host_ok (host_release u m) \<and> ids_left (host_release u m) = ids_left u \<and> held (host_release u m) = held u - {#m#}"
proof (cases "map_of (hs_modules u) m")
  case None
  then have "m \<notin> set (host_keys u)" by (simp add: map_of_eq_None_iff host_keys_def)
  then show ?thesis using None assms by (simp add: host_release_def held_def diff_single_trivial)
next
  case (Some module)
  then have "host_keys (host_release u m) = remove1 m (host_keys u)" "hs_next (host_release u m) = hs_next u"
    using assms by (simp_all add: host_release_def host_keys_def host_ok_def map_fst_delete)
  then show ?thesis
    using assms notin_set_remove1 by (fastforce simp: host_ok_def held_def ids_left_def)
qed

interpretation browser: wasm_engine "browser_host b" held host_ok ids_left for b
proof (unfold_locales, goal_cases)
  case (1 u bs m u')
  then show ?case using instantiate_keys [of u b bs m u'] by (simp add: browser_host_def)
next
  case (2 u m f c u')
  then show ?case using resolve_keys [of b u m f c u'] host_ok_keys [of u' u] by (simp add: browser_host_def ids_left_def)
next
  case (3 u ad t tf m mf i r u')
  then show ?case using adopt_keys [of u t tf m mf i r u'] host_ok_keys [of u' u] by (simp add: browser_host_def ids_left_def)
next
  case (4 u m)
  then show ?case using release_keys [of u m] by (simp add: browser_host_def)
qed

section \<open>The ceiling\<close>

definition ceiling_ok :: "'h arena \<Rightarrow> bool" where
  "ceiling_ok a \<longleftrightarrow> wa_headroom a = wa_ceiling a div 16 \<and> unat (wa_ceiling a) < 2 ^ 31"

lemma live_bound: "arena_ok a \<Longrightarrow> unat (wa_live a) \<le> unat (wa_capacity a) \<and> unat (wa_live a) < 2 ^ 31"
  using card_live_le [of "wa_slot a"] by (simp add: arena_ok_def)

lemma ceiling_ok_zero: "wa_ceiling a = 0 \<Longrightarrow> wa_headroom a = 0 \<Longrightarrow> ceiling_ok a"
  by (simp add: ceiling_ok_def)

lemma ceiling_ok_same: "wa_ceiling a = wa_ceiling b \<Longrightarrow> wa_headroom a = wa_headroom b \<Longrightarrow> ceiling_ok a = ceiling_ok b"
  by (simp add: ceiling_ok_def)

lemma learn_ceiling_ok: "ceiling_ok a \<Longrightarrow> unat (wa_live a) < 2 ^ 31 \<Longrightarrow> ceiling_ok (learn_ceiling m a)"
  by (simp add: learn_ceiling_def ceiling_ok_def kX86pWasmCeilingHeadroomDivisor_def)

lemma retire_ceiling_ok: "ceiling_ok a \<Longrightarrow> ceiling_ok (retire_ceiling_if_backed_off a)"
  by (simp add: retire_ceiling_if_backed_off_def ceiling_ok_def)

lemma publish_ceiling_ok:
  assumes "ceiling_ok a" "arena_ok a"
  shows "ceiling_ok (snd (x86p_wasm_arena_publish bs a))"
proof -
  have l: "ceiling_ok (learn_ceiling m (a\<lparr>wa_user := u, wa_failures := n\<rparr>))" for m u n
    using assms(1) live_bound [OF assms(2)] by (intro learn_ceiling_ok) (simp_all add: ceiling_ok_def)
  show ?thesis using assms(1) l
    by (simp add: x86p_wasm_arena_publish_def Let_def ceiling_ok_def split: option.splits prod.splits)
qed

lemma release_ceiling_ok: "ceiling_ok a \<Longrightarrow> ceiling_ok (x86p_wasm_arena_release t a)"
  by (simp add: x86p_wasm_arena_release_def retire_ceiling_if_backed_off_def ceiling_ok_def Let_def
      split: option.splits)

lemma releases_ceiling_ok: "ceiling_ok a \<Longrightarrow> ceiling_ok (fold (\<lambda>i. x86p_wasm_arena_release (int i)) ks a)"
  by (induction ks arbitrary: a) (simp_all add: release_ceiling_ok)

lemma reachable_ceiling_ok:
  assumes "arena_reachable (browser_host b) host_create a"
  shows "ceiling_ok a"
  using assms
proof induction
  case (init c heap)
  show ?case by (rule ceiling_ok_zero) (simp_all add: x86p_wasm_arena_init_def Let_def)
next
  case (publish a bs)
  then show ?case
    using browser.reachable_accounts [of b host_create a] browser.accounts_arena_ok
    by (intro publish_ceiling_ok) (auto simp: host_create_def host_ok_def held_def host_keys_def)
next
  case (entry a t f)
  then show ?case
    by (simp add: x86p_wasm_arena_entry_def ceiling_ok_def Let_def split: option.splits prod.splits)
next
  case (adopt a t tf m mf e)
  then show ?case
    by (simp add: x86p_wasm_arena_adopt_def ceiling_ok_def Let_def split: option.splits prod.splits)
next
  case (dispose a)
  then show ?case
    using releases_ceiling_ok [of a]
    by (simp add: x86p_wasm_arena_dispose_def x86p_wasm_arena_release_all_def ceiling_ok_def)
qed (simp_all add: release_ceiling_ok releases_ceiling_ok x86p_wasm_arena_release_all_def)

lemma live_slot_of:
  assumes "arena_ok a" "t \<in> live_slots (wa_slot a)"
  shows "slot_of (int t) a = Some (wa_slot a ! t)"
proof -
  have "t < unat (wa_capacity a)" using assms by (simp add: live_slots_def arena_ok_def)
  then have "int t < uint (wa_capacity a)" by (metis of_nat_less_iff of_nat_unat)
  then show ?thesis using assms(2) by (simp add: slot_of_def live_slots_def)
qed

lemma release_counts:
  assumes "arena_ok a" "ceiling_ok a" "t \<in> live_slots (wa_slot a)"
  defines "b \<equiv> x86p_wasm_arena_release (int t) a"
  shows "unat (wa_live a) = Suc (unat (wa_live b))"
    "wa_ceiling b = (if unat (wa_live b) + unat (wa_headroom a) < unat (wa_ceiling a) then 0 else wa_ceiling a)"
    "wa_headroom b = (if unat (wa_live b) + unat (wa_headroom a) < unat (wa_ceiling a) then 0 else wa_headroom a)"
proof -
  note s = live_slot_of [OF assms(1,3)]
  have f: "wa_slot b = (wa_slot a)[nat (int t) := \<lparr>sl_live = False, sl_module = 0, sl_next_free = wa_free_head a\<rparr>]"
    "wa_free_head b = of_int (int t) + 1" "wa_live b = wa_live a - 1" "wa_capacity b = wa_capacity a"
    using s by (simp_all add: b_def x86p_wasm_arena_release_def Let_def split: option.splits)
  show n: "unat (wa_live a) = Suc (unat (wa_live b))" by (rule release_step(5) [OF assms(1) s f])
  have "unat (wa_headroom a) \<le> unat (wa_ceiling a)" using assms(2) by (simp add: ceiling_ok_def unat_div)
  then have "unat (wa_live b) + unat (wa_headroom a) < 2 ^ 32"
    using live_bound [OF assms(1)] n assms(2) by (simp add: ceiling_ok_def)
  then have u: "unat (wa_live b + wa_headroom a) = unat (wa_live b) + unat (wa_headroom a)"
    by (simp add: unat_plus_if_size word_size)
  have h: "wa_headroom a = 0" if "wa_ceiling a = 0" using that assms(2) by (simp add: ceiling_ok_def)
  show "wa_ceiling b = (if unat (wa_live b) + unat (wa_headroom a) < unat (wa_ceiling a) then 0 else wa_ceiling a)"
    "wa_headroom b = (if unat (wa_live b) + unat (wa_headroom a) < unat (wa_ceiling a) then 0 else wa_headroom a)"
    unfolding u [symmetric] using s h
    by (auto simp: b_def x86p_wasm_arena_release_def retire_ceiling_if_backed_off_def Let_def word_le_nat_alt
        split: option.splits)
qed

lemma releases_make_room:
  assumes "arena_ok a" "ceiling_ok a" "distinct ts" "set ts \<subseteq> live_slots (wa_slot a)" "ts \<noteq> []"
    and "wa_ceiling a = 0 \<or> unat (wa_live a) + unat (wa_headroom a) < unat (wa_ceiling a) + length ts"
  shows "wa_ceiling (fold (\<lambda>t. x86p_wasm_arena_release (int t)) ts a) = 0 \<and>
    unat (wa_live (fold (\<lambda>t. x86p_wasm_arena_release (int t)) ts a)) < unat (wa_capacity a)"
  using assms
proof (induction ts arbitrary: a)
  case (Cons t ts)
  let ?b = "x86p_wasm_arena_release (int t) a"
  have t: "t \<in> live_slots (wa_slot a)" using Cons.prems by simp
  note c = release_counts [OF Cons.prems(1,2) t]
  note l = release_live [OF Cons.prems(1), of "int t"]
  have room: "wa_ceiling ?b = 0 \<or> unat (wa_live ?b) + unat (wa_headroom ?b) < unat (wa_ceiling ?b) + length ts"
    using Cons.prems(6) c by auto
  show ?case
  proof (cases "ts = []")
    case True
    then show ?thesis using room c live_bound [OF Cons.prems(1)] by (auto split: if_splits)
  next
    case False
    have "distinct ts" "set ts \<subseteq> live_slots (wa_slot ?b)" using Cons.prems l(2) by auto
    from Cons.IH [OF l(1) release_ceiling_ok [OF Cons.prems(2)] this False room] show ?thesis
      by (simp add: l(3))
  qed
qed simp

section \<open>The properties\<close>

lemma host_create_good: "host_ok host_create" "held host_create = {#}"
  by (simp_all add: host_create_def host_ok_def held_def host_keys_def)

text \<open>
  C25. The books of the module arena balance on the browser host: in every state its operations can
  reach, the free list names each slot that is not live exactly once and the live count is the number
  of live slots; and until the browser has numbered \<open>2 ^ 31 - 1\<close> modules, the last an \<open>int\<close> can name,
  the modules it holds are exactly those of the live slots, so none is leaked and none is released
  twice.  A publication therefore never finds the free list in disagreement, and a token it returns
  was not live before.
\<close>

theorem arena_accounts_balance:
  assumes "arena_reachable (browser_host b) host_create a"
  shows "arena_ok a \<and> (hs_next (wa_user a) \<le> 2 ^ 31 \<longrightarrow> held (wa_user a) = modules (wa_slot a)) \<and>
     (case fst (x86p_wasm_arena_publish bs a) of
        Inl r \<Rightarrow> r \<noteq> FreeListDisagrees
      | Inr t \<Rightarrow> t \<notin> live_slots (wa_slot a) \<and>
          live_slots (wa_slot (snd (x86p_wasm_arena_publish bs a))) = insert t (live_slots (wa_slot a)))"
proof -
  have acc: "browser.accounts b a" by (rule browser.reachable_accounts [OF assms host_create_good])
  then have ok: "arena_ok a" and h: "wa_host a = Some (browser_host b)" and held: "hs_next (wa_user a) \<le> 2 ^ 31 \<longrightarrow> held (wa_user a) = modules (wa_slot a)"
    by (simp_all add: browser.accounts_def ids_left_def)
  let ?b = "snd (x86p_wasm_arena_publish bs a)" and ?i = "unat (wa_free_head a - 1)"
  show ?thesis
  proof (cases "fst (x86p_wasm_arena_publish bs a)")
    case (Inl r)
    then show ?thesis using browser.publish_accounts(2) [OF acc, of bs] ok held by simp
  next
    case (Inr t)
    have f: "wa_free_head a \<noteq> 0" and t: "t = ?i"
      using Inr by (auto simp: x86p_wasm_arena_publish_def h Let_def split: if_splits prod.splits)
    obtain m where b: "wa_slot ?b = (wa_slot a)[?i := \<lparr>sl_live = True, sl_module = m, sl_next_free = 0\<rparr>]"
      "wa_free_head ?b = sl_next_free (wa_slot a ! ?i)" "wa_live ?b = wa_live a + 1" "wa_capacity ?b = wa_capacity a"
      using Inr by (auto simp: x86p_wasm_arena_publish_def h Let_def split: if_splits prod.splits)
    show ?thesis using publish_step(3,4) [OF ok f refl b] Inr ok held t by simp
  qed
qed

text \<open>
  Past that the number C gets is negative, which the arena takes for a refusal, while the browser keeps
  the module.
\<close>

lemma module_number_wraps:
  assumes "hs_next st = 2 ^ 31" and "hs_env st" and "br_compile b st bs = Instance ex" and "host_ok st"
  shows "fst (host_instantiate b st bs) = - (2 ^ 31) \<and> held (snd (host_instantiate b st bs)) = add_mset (2 ^ 31) (held st)"
proof -
  have "map_of (hs_modules st) (2 ^ 31) = None"
    using assms(1,4) by (auto simp: map_of_eq_None_iff host_ok_def host_keys_def)
  then show ?thesis using assms(1-3)
    by (simp add: host_instantiate_def held_def host_keys_def map_fst_update c_int_def)
qed

text \<open>A browser that takes two modules and refuses a third.\<close>

primrec call_index :: "'f table_call \<Rightarrow> int" where
  "call_index (AddFunction f i) = i" | "call_index (SetEntry i f) = i" | "call_index (RemoveFunction i) = i"

definition demo_browser :: "nat browser" where
  "demo_browser =
     \<lparr>br_trampoline = True,
      br_compile = (\<lambda>st bs. if length (hs_modules st) < 2 then Instance (\<lambda>_. Some (length bs)) else OtherFault),
      br_add_function = (\<lambda>calls fn. (fold max (List.map call_index calls) 0 + 1, True))\<rparr>"

definition demo_arena :: "nat host_state arena" where
  "demo_arena =
     (let a = snd (x86p_wasm_arena_init True (Some (browser_host demo_browser)) host_create 3);
          a = snd (x86p_wasm_arena_publish [1] a); a = snd (x86p_wasm_arena_publish [1, 2] a)
      in snd (x86p_wasm_arena_publish [1, 2, 3] a))"

lemma demo_arena_reachable: "arena_reachable (browser_host demo_browser) host_create demo_arena"
  unfolding demo_arena_def Let_def
  by (intro arena_reachable.publish arena_reachable.init) simp

lemma demo_arena_state:
  "wa_live demo_arena = 2 \<and> wa_ceiling demo_arena = 2 \<and> wa_capacity demo_arena = 3 \<and>
   List.map sl_live (wa_slot demo_arena) = [True, True, False]"
  by code_simp

lemma arena_accounts_balance_witness: "held (wa_user demo_arena) = {#1, 2#}"
proof -
  have "modules (wa_slot demo_arena) = {#1, 2#}" "hs_next (wa_user demo_arena) \<le> 2 ^ 31" by code_simp+
  then show ?thesis using arena_accounts_balance [OF demo_arena_reachable, of "[]"] by simp
qed

text \<open>
  C26. A ceiling the engine has shown is not held forever: from any reachable state in which one is
  in force, releasing enough live modules to fall below it by its headroom, in any order, retires
  the ceiling and makes room for a publication.
\<close>

theorem backing_off_makes_room:
  assumes "arena_reachable (browser_host b) host_create a"
    and "wa_ceiling a \<noteq> 0" "distinct ts" "set ts \<subseteq> live_slots (wa_slot a)" "ts \<noteq> []"
    and "unat (wa_live a) + unat (wa_headroom a) < unat (wa_ceiling a) + length ts"
  shows "x86p_wasm_arena_has_room (fold (\<lambda>t. x86p_wasm_arena_release (int t)) ts a) \<and>
    wa_ceiling (fold (\<lambda>t. x86p_wasm_arena_release (int t)) ts a) = 0"
proof -
  have ok: "arena_ok a"
    using browser.reachable_accounts [OF assms(1) host_create_good] by (rule browser.accounts_arena_ok)
  note r = releases_make_room [OF ok reachable_ceiling_ok [OF assms(1)] assms(3-5) disjI2 [OF assms(6)]]
  have "wa_capacity (fold (\<lambda>t. x86p_wasm_arena_release (int t)) ts a) = wa_capacity a"
    using releases_live [OF ok, of ts] by simp
  then show ?thesis using r by (simp add: x86p_wasm_arena_has_room_def word_le_nat_alt)
qed

lemma backing_off_makes_room_witness:
  "\<not> x86p_wasm_arena_has_room demo_arena \<and> x86p_wasm_arena_has_room (x86p_wasm_arena_release 1 demo_arena)"
proof -
  have "1 \<in> live_slots (wa_slot demo_arena)"
  proof -
    have "1 < length (wa_slot demo_arena) \<and> sl_live (wa_slot demo_arena ! 1)" by code_simp
    then show ?thesis by (simp add: live_slots_def)
  qed
  moreover have "unat (wa_live demo_arena) + unat (wa_headroom demo_arena) < unat (wa_ceiling demo_arena) + length [1 :: nat]"
    by code_simp
  moreover have "wa_ceiling demo_arena \<noteq> 0" by code_simp
  ultimately have "x86p_wasm_arena_has_room (x86p_wasm_arena_release 1 demo_arena)"
    using backing_off_makes_room [OF demo_arena_reachable, of "[1]"] by simp
  moreover have "\<not> x86p_wasm_arena_has_room demo_arena" by code_simp
  ultimately show ?thesis by simp
qed

text \<open>A refusal with nothing live counts as a ceiling learned although none is then in force.\<close>

lemma refusal_when_empty:
  "wa_live a = 0 \<Longrightarrow> wa_ceiling a = 0 \<Longrightarrow>
   wa_ceilings_learned (learn_ceiling kX86pWasmRefusedByEngine a) = wa_ceilings_learned a + 1 \<and>
   wa_ceiling (learn_ceiling kX86pWasmRefusedByEngine a) = 0"
  by (simp add: learn_ceiling_def)

end
