(* ===== verification/X86_Wasm_Host_Properties.thy ===== *)
theory X86_Wasm_Host_Properties
  imports X86_Wasm_Arena_Properties
begin

text \<open>
  Who owns a function-table entry.  \<open>owns st\<close> are the triples of a module, an export name and the
  table index the module holds for it.  \<open>disciplined\<close> is a history of calls that uses Emscripten's table
  as its documentation asks: no function is added a second time, an entry is set only while it is
  allocated and cleared only when it no longer is, and freed once.  The discipline of the compaction
  (an entry is adopted from the export that owns it, onto an export that has none, and an export that
  gave its entry away is not resolved again: the code resolves an export once, when it publishes the
  module) keeps the host's history so; then no index is ever owned twice, and a block keeps its address when the module it came from is released.
\<close>

section \<open>Ownership\<close>

definition owns :: "'f host_state \<Rightarrow> (int \<times> string \<times> int) set" where
  "owns st = {(i, k, e). \<exists>m. map_of (hs_modules st) i = Some m \<and> map_of (hm_entries m) k = Some e}"

text \<open>The indices \<open>addFunction\<close> gave that have not been freed, and the functions it was given.\<close>

fun taken :: "'f table_call list \<Rightarrow> int set" where
  "taken [] = {}"
| "taken (AddFunction f e # cs) = insert e (taken cs)"
| "taken (RemoveFunction e # cs) = taken cs - {e}"
| "taken (SetEntry e f # cs) = taken cs"

definition added :: "'f table_call list \<Rightarrow> 'f set" where
  "added cs = {f. \<exists>e. AddFunction f e \<in> set cs}"

fun disciplined :: "'f table_call list \<Rightarrow> bool" where
  "disciplined [] = True"
| "disciplined (AddFunction f e # cs) = (disciplined cs \<and> f \<notin> added cs)"
| "disciplined (RemoveFunction e # cs) = (disciplined cs \<and> e \<in> taken cs)"
| "disciplined (SetEntry e f # cs) = (disciplined cs \<and> (f \<noteq> None \<longleftrightarrow> e \<in> taken cs))"

text \<open>
  What \<open>addFunction\<close> promises: after such a history, a function it has not been given gets an entry
  of its own.  Of a function it was given before nothing is promised: it may answer the index it
  knows that function by, whatever the entry holds by then.
\<close>

definition add_function_law :: "'f browser \<Rightarrow> bool" where
  "add_function_law b \<longleftrightarrow>
     (\<forall>cs f. disciplined cs \<and> f \<notin> added cs \<longrightarrow>
        (\<exists>e. br_add_function b cs f = (e, True) \<and> 0 < e \<and> e \<notin> taken cs))"

definition ownership_ok :: "'f host_state \<Rightarrow> bool" where
  "ownership_ok st \<longleftrightarrow>
     host_ok st \<and> disciplined (hs_calls st) \<and>
     (\<forall>i m. map_of (hs_modules st) i = Some m \<longrightarrow> distinct (List.map fst (hm_entries m))) \<and>
     (\<forall>i k e i' k'. (i, k, e) \<in> owns st \<longrightarrow> (i', k', e) \<in> owns st \<longrightarrow> i = i' \<and> k = k') \<and>
     (\<forall>e. e \<in> taken (hs_calls st) \<longleftrightarrow> (\<exists>i k. (i, k, e) \<in> owns st))"

text \<open>An export whose function \<open>addFunction\<close> would be given for the first time, if at all.\<close>

definition unresolved :: "'f host_state \<Rightarrow> int \<Rightarrow> string \<Rightarrow> bool" where
  "unresolved st i k \<longleftrightarrow>
     (\<forall>m f. map_of (hs_modules st) i = Some m \<and> map_of (hm_entries m) k = None \<and> hm_exports m k = Some f \<longrightarrow>
        f \<notin> added (hs_calls st))"

text \<open>The states the host reaches when resolution and adoption keep the discipline.\<close>

inductive host_reachable :: "'f browser \<Rightarrow> 'f host_state \<Rightarrow> bool" for b where
  create: "host_reachable b host_create"
| instantiate: "host_reachable b st \<Longrightarrow> host_reachable b (snd (host_instantiate b st bs))"
| resolve: "host_reachable b st \<Longrightarrow> unresolved st i f \<Longrightarrow> host_reachable b (snd (host_resolve b st i f))"
| adopt: "host_reachable b st \<Longrightarrow> (source, ff, e) \<in> owns st \<Longrightarrow> (\<forall>e'. (to, tf, e') \<notin> owns st) \<Longrightarrow>
    host_reachable b (snd (host_adopt st to tf source ff e))"
| release: "host_reachable b st \<Longrightarrow> host_reachable b (host_release st i)"

lemma clear_table:
  "map_of (hs_table (clear_entries es st)) e = (if e \<in> snd ` set es then None else map_of (hs_table st) e)"
  unfolding clear_entries_def by (induction es arbitrary: st) auto

lemma clear_calls:
  "taken (hs_calls (clear_entries es st)) = taken (hs_calls st) - snd ` set es"
  "distinct (List.map snd es) \<Longrightarrow> snd ` set es \<subseteq> taken (hs_calls st) \<Longrightarrow> disciplined (hs_calls st) \<Longrightarrow>
     disciplined (hs_calls (clear_entries es st))"
proof -
  show "taken (hs_calls (clear_entries es st)) = taken (hs_calls st) - snd ` set es"
    unfolding clear_entries_def by (induction es arbitrary: st) auto
  show "distinct (List.map snd es) \<Longrightarrow> snd ` set es \<subseteq> taken (hs_calls st) \<Longrightarrow> disciplined (hs_calls st) \<Longrightarrow>
     disciplined (hs_calls (clear_entries es st))"
    unfolding clear_entries_def
  proof (induction es arbitrary: st)
    case (Cons x es)
    obtain k e where x: "x = (k, e)" by (cases x)
    have "snd ` set es \<subseteq> taken (hs_calls (setWasmTableEntry e None (removeFunction e st)))"
      using Cons.prems x by (auto simp: image_iff)
    then show ?case using Cons.IH Cons.prems x by simp
  qed simp
qed

lemma instantiate_modules:
  assumes "host_ok st"
  shows "owns (snd (host_instantiate b st bs)) = owns st"
    "hs_calls (snd (host_instantiate b st bs)) = hs_calls st"
    "map_of (hs_modules (snd (host_instantiate b st bs))) i = Some m \<Longrightarrow>
       map_of (hs_modules st) i = Some m \<or> hm_entries m = []"
proof -
  have n: "map_of (hs_modules st) (hs_next st) = None"
    using assms by (auto simp: map_of_eq_None_iff host_ok_def host_keys_def)
  show "owns (snd (host_instantiate b st bs)) = owns st"
    using n by (auto simp: host_instantiate_def Let_def owns_def update_conv' split: compiled.splits if_splits)
  show "hs_calls (snd (host_instantiate b st bs)) = hs_calls st"
    by (simp add: host_instantiate_def Let_def split: compiled.splits)
  show "map_of (hs_modules (snd (host_instantiate b st bs))) i = Some m \<Longrightarrow>
       map_of (hs_modules st) i = Some m \<or> hm_entries m = []"
    by (auto simp: host_instantiate_def Let_def update_conv' split: compiled.splits if_splits)
qed

lemma ownsI: "map_of (hs_modules st) i = Some m \<Longrightarrow> map_of (hm_entries m) k = Some e \<Longrightarrow> (i, k, e) \<in> owns st"
  by (auto simp: owns_def)

lemma ownership_okI:
  assumes "host_ok st'" "disciplined (hs_calls st')"
    and "\<And>i m. map_of (hs_modules st') i = Some m \<Longrightarrow> distinct (List.map fst (hm_entries m))"
    and "\<And>i k e i' k'. (i, k, e) \<in> owns st' \<Longrightarrow> (i', k', e) \<in> owns st' \<Longrightarrow> i = i' \<and> k = k'"
    and "\<And>e. e \<in> taken (hs_calls st') \<longleftrightarrow> (\<exists>i k. (i, k, e) \<in> owns st')"
  shows "ownership_ok st'"
  unfolding ownership_ok_def using assms by blast

lemma ownership_okD:
  assumes "ownership_ok st"
  shows "host_ok st" "disciplined (hs_calls st)"
    "map_of (hs_modules st) i = Some m \<Longrightarrow> distinct (List.map fst (hm_entries m))"
    "(i, k, e) \<in> owns st \<Longrightarrow> (i', k', e) \<in> owns st \<Longrightarrow> i = i' \<and> k = k'"
    "e \<in> taken (hs_calls st) \<longleftrightarrow> (\<exists>i k. (i, k, e) \<in> owns st)"
  using assms unfolding ownership_ok_def by blast+

lemma ownership_instantiate:
  assumes "ownership_ok st"
  shows "ownership_ok (snd (host_instantiate b st bs))"
proof (rule ownership_okI)
  note d = ownership_okD [OF assms] and m = instantiate_modules [OF ownership_okD(1) [OF assms], of b bs]
  show "host_ok (snd (host_instantiate b st bs))" using instantiate_keys [OF d(1)] by (metis surjective_pairing)
  show "disciplined (hs_calls (snd (host_instantiate b st bs)))" using d(2) m(2) by simp
  show "distinct (List.map fst (hm_entries q))" if "map_of (hs_modules (snd (host_instantiate b st bs))) i = Some q" for i q
    using m(3) [OF that] d(3) by auto
  show "i = i' \<and> k = k'" if "(i, k, e) \<in> owns (snd (host_instantiate b st bs))" "(i', k', e) \<in> owns (snd (host_instantiate b st bs))"
    for i k e i' k' using that d(4) unfolding m(1) by blast
  show "e \<in> taken (hs_calls (snd (host_instantiate b st bs))) \<longleftrightarrow> (\<exists>i k. (i, k, e) \<in> owns (snd (host_instantiate b st bs)))" for e
    using d(5) unfolding m(1,2) .
qed

text \<open>A resolved export is either one the module already has, or none, or a new entry.\<close>

lemma resolve_cases:
  assumes "host_resolve b st i f = (c, st')"
  obtains "st' = st"
  | m fn e new where "map_of (hs_modules st) i = Some m" "map_of (hm_entries m) f = None" "hm_exports m f = Some fn"
      "br_add_function b (hs_calls st) fn = (e, new)" "hs_calls st' = AddFunction fn e # hs_calls st"
      "map_of (hs_modules st') = (map_of (hs_modules st))(i \<mapsto> m\<lparr>hm_entries := AList.update f e (hm_entries m)\<rparr>)"
      "owns st' = insert (i, f, e) (owns st)"
proof (cases "\<exists>m fn. map_of (hs_modules st) i = Some m \<and> map_of (hm_entries m) f = None \<and> hm_exports m f = Some fn")
  case False
  then have "st' = st" using assms by (auto simp: host_resolve_def split: option.splits)
  then show thesis using that(1) by blast
next
  case True
  then obtain m fn e new where m: "map_of (hs_modules st) i = Some m" "map_of (hm_entries m) f = None"
    "hm_exports m f = Some fn" "br_add_function b (hs_calls st) fn = (e, new)" by (metis surj_pair)
  then have st': "st' = st\<lparr>hs_table := (if new then AList.update e fn (hs_table st) else hs_table st),
        hs_calls := AddFunction fn e # hs_calls st,
        hs_modules := AList.update i (m\<lparr>hm_entries := AList.update f e (hm_entries m)\<rparr>) (hs_modules st)\<rparr>"
    using assms by (simp add: host_resolve_def)
  note m = m st'
  have "owns st' = insert (i, f, e) (owns st)"
    using m(1,2) unfolding m(5) owns_def by (auto simp: update_conv' split: if_splits)
  then show thesis using that(2) [OF m(1-4)] m(5) by (simp add: update_conv')
qed

lemma ownership_resolve:
  assumes "ownership_ok st" "add_function_law b" "unresolved st i f"
  shows "ownership_ok (snd (host_resolve b st i f))"
proof -
  obtain c st' where r: "host_resolve b st i f = (c, st')" by (cases "host_resolve b st i f")
  note d = ownership_okD [OF assms(1)]
  show ?thesis
  using r
  proof (cases rule: resolve_cases)
    case 1
    then show ?thesis using r assms(1) by simp
  next
    case (2 m fn e new)
    have fn: "fn \<notin> added (hs_calls st)" using assms(3) 2(1-3) unfolding unresolved_def by blast
    have e: "e \<notin> taken (hs_calls st)"
      using assms(2) [unfolded add_function_law_def, rule_format, of "hs_calls st" fn] d(2) fn 2(4) by simp
    have "ownership_ok st'"
    proof (rule ownership_okI)
      show "host_ok st'" using resolve_keys [OF r] d(1) host_ok_keys(1) by blast
      show "disciplined (hs_calls st')" using d(2) fn by (simp add: 2(5))
      show "distinct (List.map fst (hm_entries q))" if "map_of (hs_modules st') j = Some q" for j q
        using that d(3) 2(1) unfolding 2(6) by (auto split: if_splits intro!: distinct_update)
      show "j = j' \<and> k = k'" if "(j, k, x) \<in> owns st'" "(j', k', x) \<in> owns st'" for j k x j' k'
        using that d(4) [of j k x j' k'] d(5) [of e] e unfolding 2(7) by blast
      show "x \<in> taken (hs_calls st') \<longleftrightarrow> (\<exists>j k. (j, k, x) \<in> owns st')" for x
        using d(5) [of x] by (auto simp: 2(5,7))
    qed
    then show ?thesis using r by simp
  qed
qed

text \<open>An accepted adoption moves one triple.\<close>

lemma adopt_cases:
  assumes "host_adopt st to tf source ff e = (r, st')"
  obtains "\<not> r" "st' = st"
  | m fn where "r" "map_of (hs_modules st) to = Some m" "hm_exports m tf = Some fn"
      "map_of (hs_table st') = (map_of (hs_table st))(e \<mapsto> fn)" "map_of (hs_modules st) source \<noteq> None"
      "hs_calls st' = SetEntry e (Some fn) # hs_calls st"
      "map_of (hs_modules st') = ((map_of (hs_modules st))
         (to \<mapsto> m\<lparr>hm_entries := AList.update tf e (hm_entries m)\<rparr>))
         (source := map_option (\<lambda>m. m\<lparr>hm_entries := AList.delete ff (hm_entries m)\<rparr>)
            (((map_of (hs_modules st)) (to \<mapsto> m\<lparr>hm_entries := AList.update tf e (hm_entries m)\<rparr>)) source))"
proof (cases r)
  case False
  then have "st' = st" using assms by (auto simp: host_adopt_def Let_def split: option.splits)
  then show thesis using False that(1) by blast
next
  case True
  then obtain m fn where m: "map_of (hs_modules st) to = Some m" "hm_exports m tf = Some fn"
    "map_of (hs_modules st) source \<noteq> None"
    "st' = (setWasmTableEntry e (Some fn) st)\<lparr>
       hs_modules := AList.map_entry source (\<lambda>m. m\<lparr>hm_entries := AList.delete ff (hm_entries m)\<rparr>)
         (AList.update to (m\<lparr>hm_entries := AList.update tf e (hm_entries m)\<rparr>) (hs_modules st))\<rparr>"
    using assms by (auto simp: host_adopt_def Let_def split: option.splits)
  then show thesis using that(2) [OF True m(1,2)]
    by (simp add: map_of_map_entry update_conv' map_option_case)
qed

lemma owns_adopt:
  assumes "host_adopt st to tf source ff e = (True, st')" "(source, ff, e) \<in> owns st" "\<forall>e'. (to, tf, e') \<notin> owns st"
  shows "owns st' = insert (to, tf, e) (owns st - {(source, ff, e)})"
  using assms(1)
proof (cases rule: adopt_cases)
  case (2 m fn)
  obtain q where q: "map_of (hs_modules st) source = Some q" "map_of (hm_entries q) ff = Some e"
    using assms(2) by (auto simp: owns_def)
  have n: "map_of (hm_entries m) tf = None" using assms(3) 2(2) by (auto simp: owns_def)
  have *: "(i, k, x) \<in> owns st' \<longleftrightarrow> (i, k, x) \<in> insert (to, tf, e) (owns st - {(source, ff, e)})" for i k x
  proof (cases "source = to")
    case True
    then have "q = m" using q(1) 2(2) by simp
    then show ?thesis using True q n 2(2) unfolding owns_def 2(7)
      by (auto simp: update_conv' delete_conv' split: if_splits)
  next
    case False
    then show ?thesis using q n 2(2) unfolding owns_def 2(7)
      by (auto simp: update_conv' delete_conv' split: if_splits)
  qed
  show ?thesis by (intro set_eqI) (metis * prod_cases3)
qed simp

lemma ownership_adopt:
  assumes "ownership_ok st" "(source, ff, e) \<in> owns st" "\<forall>e'. (to, tf, e') \<notin> owns st"
  shows "ownership_ok (snd (host_adopt st to tf source ff e))"
proof -
  obtain r st' where r: "host_adopt st to tf source ff e = (r, st')" by (cases "host_adopt st to tf source ff e")
  note d = ownership_okD [OF assms(1)]
  show ?thesis
  using r
  proof (cases rule: adopt_cases)
    case 1
    then show ?thesis using r assms(1) by simp
  next
    case (2 m fn)
    have o: "owns st' = insert (to, tf, e) (owns st - {(source, ff, e)})"
      using owns_adopt [of st to tf source ff e st'] r 2(1) assms(2,3) by simp
    have "ownership_ok st'"
    proof (rule ownership_okI)
      show "host_ok st'" using adopt_keys [OF r] d(1) host_ok_keys(1) by blast
      show "distinct (List.map fst (hm_entries q))" if "map_of (hs_modules st') j = Some q" for j q
        using that d(3) 2(2) unfolding 2(7) by (auto split: if_splits intro!: distinct_update distinct_delete)
      show "j = j' \<and> k = k'" if "(j, k, x) \<in> owns st'" "(j', k', x) \<in> owns st'" for j k x j' k'
        using that d(4) [of j k x j' k'] d(4) [OF assms(2), of j k] d(4) [OF assms(2), of j' k'] unfolding o by auto
      show "disciplined (hs_calls st')" using d(2) d(5) [of e] assms(2) by (auto simp: 2(6))
      show "x \<in> taken (hs_calls st') \<longleftrightarrow> (\<exists>j k. (j, k, x) \<in> owns st')" for x
        using d(5) [of x] assms(2) by (auto simp: 2(6) o)
    qed
    then show ?thesis using r by simp
  qed
qed

lemma owned_entries:
  assumes "ownership_ok st" "map_of (hs_modules st) i = Some m"
  shows "e \<in> snd ` set (hm_entries m) \<longleftrightarrow> (\<exists>k. (i, k, e) \<in> owns st)" "distinct (List.map snd (hm_entries m))"
proof -
  note d = ownership_okD [OF assms(1)]
  have k: "distinct (List.map fst (hm_entries m))" using d(3) assms(2) by blast
  show *: "e \<in> snd ` set (hm_entries m) \<longleftrightarrow> (\<exists>k. (i, k, e) \<in> owns st)" for e
    using k assms(2) by (force simp: owns_def)
  have in_owns: "(k, e) \<in> set (hm_entries m) \<Longrightarrow> (i, k, e) \<in> owns st" for k e
    using k assms(2) by (simp add: owns_def)
  have "inj_on snd (set (hm_entries m))"
  proof (rule inj_onI)
    fix x y assume "x \<in> set (hm_entries m)" "y \<in> set (hm_entries m)" "snd x = snd y"
    then show "x = y" using d(4) in_owns by (metis prod.collapse)
  qed
  then show "distinct (List.map snd (hm_entries m))"
    using k by (simp add: distinct_map)
qed

lemma release_table:
  assumes "ownership_ok st"
  shows "owns (host_release st i) = {(j, k, e) \<in> owns st. j \<noteq> i}"
    "map_of (hs_table (host_release st i)) e =
       (if \<exists>k. (i, k, e) \<in> owns st then None else map_of (hs_table st) e)"
proof -
  show "owns (host_release st i) = {(j, k, e) \<in> owns st. j \<noteq> i}"
    by (auto simp: owns_def host_release_def delete_conv' split: option.splits if_splits)
  show "map_of (hs_table (host_release st i)) e =
       (if \<exists>k. (i, k, e) \<in> owns st then None else map_of (hs_table st) e)"
  proof (cases "map_of (hs_modules st) i")
    case None
    then show ?thesis by (auto simp: owns_def host_release_def)
  next
    case (Some m)
    then show ?thesis by (simp add: host_release_def clear_table owned_entries(1) [OF assms Some])
  qed
qed

lemma release_calls:
  assumes "ownership_ok st"
  shows "disciplined (hs_calls (host_release st i)) \<and>
    taken (hs_calls (host_release st i)) = taken (hs_calls st) - {e. \<exists>k. (i, k, e) \<in> owns st}"
proof (cases "map_of (hs_modules st) i")
  case None
  then show ?thesis using ownership_okD(2) [OF assms] by (auto simp: owns_def host_release_def)
next
  case (Some m)
  have e: "snd ` set (hm_entries m) = {e. \<exists>k. (i, k, e) \<in> owns st}" using owned_entries(1) [OF assms Some] by blast
  then have "snd ` set (hm_entries m) \<subseteq> taken (hs_calls st)" using ownership_okD(5) [OF assms] by blast
  then show ?thesis
    using Some e clear_calls(1) [of "hm_entries m" st] clear_calls(2) [OF owned_entries(2) [OF assms Some]] ownership_okD(2) [OF assms]
    by (simp add: host_release_def)
qed

lemma ownership_release:
  assumes "ownership_ok st"
  shows "ownership_ok (host_release st i)"
proof (rule ownership_okI)
  note d = ownership_okD [OF assms] and t = release_table [OF assms, of i] and c = release_calls [OF assms, of i]
  show "host_ok (host_release st i)" using release_keys [OF d(1)] by blast
  show "disciplined (hs_calls (host_release st i))" using c by blast
  show "distinct (List.map fst (hm_entries q))" if "map_of (hs_modules (host_release st i)) j = Some q" for j q
    using that d(3) by (auto simp: host_release_def delete_conv' split: option.splits if_splits)
  show "j = j' \<and> k = k'" if "(j, k, e) \<in> owns (host_release st i)" "(j', k', e) \<in> owns (host_release st i)" for j k e j' k'
    using that d(4) unfolding t(1) by blast
  show "e \<in> taken (hs_calls (host_release st i)) \<longleftrightarrow> (\<exists>j k. (j, k, e) \<in> owns (host_release st i))" for e
    using d(4,5) c unfolding t(1) by blast
qed

lemma reachable_ownership:
  assumes "host_reachable b st" "add_function_law b"
  shows "ownership_ok st"
  using assms
proof induction
  case create
  show ?case
    by (rule ownership_okI) (simp_all add: host_create_def host_ok_def host_keys_def owns_def)
qed (simp_all add: ownership_instantiate ownership_resolve ownership_adopt ownership_release)

section \<open>The property\<close>

text \<open>
  C24. A block outlives the module it was published in.  In every host state reached by resolving no
  export that gave its entry away, adopting a block's table entry onto an export of another module and
  then releasing the first module leaves the entry in the function table, now leading to the adopting
  module's function; resolving that export gives the same entry and changes nothing, no entry another
  module owns was touched, and \<open>addFunction\<close> gives none of them to a function new to it.
\<close>

theorem block_survives_compaction:
  assumes "host_reachable b st" "add_function_law b"
    and "(source, ff, e) \<in> owns st" "\<forall>e'. (to, tf, e') \<notin> owns st" "source \<noteq> to"
    and "map_of (hs_modules st) to = Some m" "hm_exports m tf = Some fn"
    and "st' = host_release (snd (host_adopt st to tf source ff e)) source"
  shows "map_of (hs_table st') e = Some fn \<and> host_resolve b st' to tf = (c_int e, st') \<and>
    (\<forall>i k x. (i, k, x) \<in> owns st \<and> i \<noteq> source \<longrightarrow> map_of (hs_table st') x = map_of (hs_table st) x) \<and>
    (\<forall>g. g \<notin> added (hs_calls st') \<longrightarrow> (\<forall>i k. (i, k, fst (br_add_function b (hs_calls st') g)) \<notin> owns st'))"
proof -
  note ok = reachable_ownership [OF assms(1,2)]
  obtain s1 where s1: "host_adopt st to tf source ff e = (True, s1)" "map_of (hs_table s1) = (map_of (hs_table st))(e \<mapsto> fn)"
    "owns s1 = insert (to, tf, e) (owns st - {(source, ff, e)})"
  proof -
    obtain q where "map_of (hs_modules st) source = Some q" using assms(3) by (auto simp: owns_def)
    then obtain s1 where *: "host_adopt st to tf source ff e = (True, s1)"
      using assms(6,7) by (simp add: host_adopt_def Let_def)
    from * have "map_of (hs_table s1) = (map_of (hs_table st))(e \<mapsto> fn)"
      by (cases rule: adopt_cases) (use assms(6,7) in simp_all)
    then show thesis using that [OF *] owns_adopt [OF * assms(3,4)] by simp
  qed
  have ok1: "ownership_ok s1" using ownership_adopt [OF ok assms(3,4)] s1(1) by simp
  have st': "st' = host_release s1 source" using assms(8) s1(1) by simp
  have ok': "ownership_ok st'" unfolding st' by (rule ownership_release [OF ok1])
  note t = release_table [OF ok1, of source, folded st']
  have mine: "(source, k, e) \<notin> owns s1" for k
    using ownership_okD(4) [OF ok assms(3), of source k] assms(5) by (auto simp: s1(3))
  have "(to, tf, e) \<in> owns st'" using assms(5) by (simp add: t(1) s1(3))
  then obtain q where "map_of (hs_modules st') to = Some q" "map_of (hm_entries q) tf = Some e"
    by (auto simp: owns_def)
  then have "host_resolve b st' to tf = (c_int e, st')" by (simp add: host_resolve_def)
  moreover have "map_of (hs_table st') e = Some fn" using mine by (simp add: t(2) s1(2))
  moreover have "map_of (hs_table st') x = map_of (hs_table st) x"
    if x: "(i, k, x) \<in> owns st" "i \<noteq> source" for i k x
  proof -
    have "x \<noteq> e" using ownership_okD(4) [OF ok assms(3), of i k] x by auto
    moreover have "(source, k', x) \<notin> owns s1" for k'
      using ownership_okD(4) [OF ok x(1), of source k'] x(2) assms(5) by (auto simp: s1(3))
    ultimately show ?thesis by (simp add: t(2) s1(2))
  qed
  moreover have "(i, k, fst (br_add_function b (hs_calls st') g)) \<notin> owns st'" if "g \<notin> added (hs_calls st')" for g i k
    using assms(2) [unfolded add_function_law_def, rule_format, of "hs_calls st'" g] that ownership_okD(2,5) [OF ok'] by fastforce
  ultimately show ?thesis by blast
qed

text \<open>
  The discipline is needed: an export that gave its entry away, resolved again, is answered with the
  entry another module now owns.
\<close>

lemma resolving_again_takes_it_back:
  assumes "(i, k, e) \<in> owns st" and "map_of (hs_modules st) source = Some m" "map_of (hm_entries m) ff = None"
    "hm_exports m ff = Some f" and "br_add_function b (hs_calls st) f = (e, False)"
  shows "{(i, k, e), (source, ff, e)} \<subseteq> owns (snd (host_resolve b st source ff))"
  using assms by (auto simp: host_resolve_def owns_def update_conv')

text \<open>Two modules; the first one's block moves to the second.\<close>

definition demo_host :: "nat host_state" where
  "demo_host = snd (host_resolve demo_browser (snd (host_instantiate demo_browser
     (snd (host_instantiate demo_browser host_create [1])) [1, 2])) 1 ''b0'')"

lemma largest: "x \<in> set xs \<Longrightarrow> x \<le> fold max xs y" "y \<le> fold max xs (y :: int)"
proof -
  show le: "y \<le> fold max xs (y :: int)" for xs y
  proof (induction xs arbitrary: y)
    case (Cons a xs)
    show ?case using Cons [of "max a y"] by simp
  qed simp
  show "x \<in> set xs \<Longrightarrow> x \<le> fold max xs y"
  proof (induction xs arbitrary: y)
    case (Cons a xs)
    then show ?case using le [of "max a y" xs] by auto
  qed simp
qed

lemma demo_law: "add_function_law demo_browser"
proof -
  have "e \<in> taken cs \<Longrightarrow> e \<in> call_index ` set cs" for e and cs :: "nat table_call list"
    by (induction cs rule: taken.induct) auto
  then have "e \<le> fold max (List.map call_index cs) 0" if "e \<in> taken cs" for e and cs :: "nat table_call list"
    using that largest(1) [of e "List.map call_index cs" 0] by auto
  then have "fold max (List.map call_index cs) 0 + 1 \<notin> taken cs" for cs :: "nat table_call list" by fastforce
  moreover have "0 < fold max xs (0 :: int) + 1" for xs using largest(2) [of 0 xs] by simp
  ultimately show ?thesis by (simp add: add_function_law_def demo_browser_def)
qed

lemma block_survives_compaction_witness:
  "map_of (hs_table (host_release (snd (host_adopt demo_host 2 ''c0'' 1 ''b0'' 1)) 1)) 1 = Some (2 :: nat)"
proof -
  have r: "host_reachable demo_browser demo_host"
    unfolding demo_host_def
    by (intro host_reachable.intros) (simp add: unresolved_def added_def host_instantiate_def host_create_def Let_def
        demo_browser_def split: compiled.split)
  have m: "map_option hm_entries (map_of (hs_modules demo_host) 1) = Some [(''b0'', 1)]"
    "map_option hm_entries (map_of (hs_modules demo_host) 2) = Some []"
    "map_option (\<lambda>m. hm_exports m ''c0'') (map_of (hs_modules demo_host) 2) = Some (Some 2)"
    by code_simp+
  obtain q where q: "map_of (hs_modules demo_host) 2 = Some q" "hm_exports q ''c0'' = Some 2" "hm_entries q = []"
    using m(2,3) by auto
  have o: "(1, ''b0'', 1) \<in> owns demo_host" using m(1) by (auto simp: owns_def)
  have n: "\<forall>e'. (2, ''c0'', e') \<notin> owns demo_host" using q by (simp add: owns_def)
  show ?thesis using block_survives_compaction [OF r demo_law o n _ q(1,2) refl] by simp
qed

end
