(* ===== verification/X86_Jit_Gate.thy ===== *)
theory X86_Jit_Gate
  imports X86_Exec_Helpers X86_Exec_Faults
begin

text \<open>
  Which instructions the native backends translate: the gates \<open>can_emit\<close> of
  \<open>src/src/x86port/jit_x64.c\<close> and \<open>jit_arm64.c\<close> with the shape predicates they use from
  \<open>jit_x64_alu.c\<close>, \<open>jit_arm64_alu.c\<close> and \<open>jit_x64_cond.c\<close>.

  The predicates on the floating-point and vector families read fields of the instruction that
  stay with their engines; they are the parameters \<open>x87\<close> and \<open>simd\<close>.  A register number is a
  natural number, so the tests \<open>reg >= 0\<close> hold by typing, as do the tests of the condition and
  the bit operation against the end of their enumerations.
\<close>

section \<open>Operands\<close>

definition operand_is_reg32 :: "operand \<Rightarrow> bool" where
  "operand_is_reg32 opd \<longleftrightarrow> o_kind opd = kX86pOperandReg \<and> o_size opd = 4"

definition operand_is_imm :: "operand \<Rightarrow> bool" where
  "operand_is_imm opd \<longleftrightarrow> o_kind opd = kX86pOperandImm"

definition operand_is_mem32 :: "operand \<Rightarrow> bool" where
  "operand_is_mem32 opd \<longleftrightarrow> o_kind opd = kX86pOperandMem \<and> o_size opd = 4"

definition operand_writable :: "operand \<Rightarrow> bool" where
  "operand_writable opd \<longleftrightarrow> operand_is_reg32 opd \<or> operand_is_mem32 opd"

definition mov_operand_ok :: "operand \<Rightarrow> nat \<Rightarrow> bool \<Rightarrow> bool" where
  "mov_operand_ok opd w for_write =
     (if o_kind opd = kX86pOperandImm then \<not> for_write
      else if o_kind opd = kX86pOperandMem then o_size opd = w
      else if o_kind opd \<noteq> kX86pOperandReg then False
      else if o_size opd \<noteq> w then False
      else w \<noteq> 1 \<or> o_reg opd < 8)"

section \<open>Shapes\<close>

abbreviation opnd :: "insn \<Rightarrow> nat \<Rightarrow> operand" where
  "opnd i k \<equiv> i_operand i ! k"

definition is_relative_branch :: "insn \<Rightarrow> bool" where
  "is_relative_branch i =
     (if i_op i \<notin> {Flow kX86pInsnJmp, Flow kX86pInsnJcc, Flow kX86pInsnLoop, Flow kX86pInsnLoope, Flow kX86pInsnLoopne}
      then False
      else 1 \<le> i_operands i \<and> o_kind (opnd i 0) = kX86pOperandImm \<and> o_relative (opnd i 0))"

definition is_indirect_branch :: "insn \<Rightarrow> bool" where
  "is_indirect_branch i =
     (if i_op i \<noteq> Flow kX86pInsnJmp then False
      else i_operands i = 1 \<and> o_kind (opnd i 0) \<noteq> kX86pOperandImm)"

definition mov_is_emittable :: "insn \<Rightarrow> bool" where
  "mov_is_emittable i =
     (if i_operands i \<noteq> 2 then False
      else let w = o_size (opnd i 0) in
        if w \<noteq> 1 \<and> w \<noteq> 2 \<and> w \<noteq> 4 then False
        else if o_kind (opnd i 0) = kX86pOperandMem \<and> o_kind (opnd i 1) = kX86pOperandMem then False
        else mov_operand_ok (opnd i 0) w True \<and> mov_operand_ok (opnd i 1) w False)"

definition movx_is_emittable :: "insn \<Rightarrow> bool" where
  "movx_is_emittable i =
     (if i_operands i \<noteq> 2 then False
      else let dst = opnd i 0; src = opnd i 1 in
        if o_kind dst \<noteq> kX86pOperandReg \<or> (o_size dst \<noteq> 2 \<and> o_size dst \<noteq> 4) then False
        else if o_size src \<noteq> 1 \<and> o_size src \<noteq> 2 then False
        else if o_size dst \<le> o_size src then False
        else if o_kind src = kX86pOperandReg then o_size src \<noteq> 1 \<or> o_reg src < 8
        else o_kind src = kX86pOperandMem)"

abbreviation is_gpr :: "operand \<Rightarrow> bool" where
  "is_gpr opd \<equiv> o_kind opd = kX86pOperandReg \<and> o_reg opd < 8"

abbreviation is_mem :: "operand \<Rightarrow> bool" where
  "is_mem opd \<equiv> o_kind opd = kX86pOperandMem \<and> \<not> o_addr16 opd"

definition double_shift_is_emittable :: "insn \<Rightarrow> bool" where
  "double_shift_is_emittable i =
     (let dst = opnd i 0; src = opnd i 1; count = opnd i 2 in
      i_operands i = 3 \<and> o_size dst = 4 \<and> (is_gpr dst \<or> is_mem dst) \<and>
      o_kind src = kX86pOperandReg \<and> o_size src = 4 \<and> o_reg src < 8 \<and>
      (o_kind count = kX86pOperandImm \<or>
       (o_kind count = kX86pOperandReg \<and> o_reg count = kX86pEcx \<and> o_size count = 1)))"

definition bit_is_emittable :: "insn \<Rightarrow> bool" where
  "bit_is_emittable i =
     (let dst = opnd i 0; index = opnd i 1 in
      i_operands i = 2 \<and> (o_size dst = 2 \<or> o_size dst = 4) \<and> (is_gpr dst \<or> is_mem dst) \<and>
      (o_kind index = kX86pOperandImm \<or>
       (is_gpr index \<and> (o_kind dst = kX86pOperandReg \<or> o_size dst = 4))))"

definition bit_scan_is_emittable :: "insn \<Rightarrow> bool" where
  "bit_scan_is_emittable i =
     (let dst = opnd i 0; src = opnd i 1; w = o_size dst in
      i_operands i = 2 \<and> (w = 2 \<or> w = 4) \<and> is_gpr dst \<and> o_size src = w \<and> (is_gpr src \<or> is_mem src))"

definition exchange_rmw_is_emittable :: "insn \<Rightarrow> bool" where
  "exchange_rmw_is_emittable i =
     (let dst = opnd i 0; src = opnd i 1; w = o_size dst in
      i_operands i = 2 \<and> (w = 1 \<or> w = 2 \<or> w = 4) \<and> o_kind src = kX86pOperandReg \<and> o_size src = w \<and>
      o_reg src < 8 \<and>
      (is_mem dst \<or>
       (o_kind dst = kX86pOperandReg \<and> w \<noteq> 1 \<and> o_reg dst < 8 \<and> o_reg dst \<noteq> o_reg src)))"

definition x86p_x64_cmovcc_is_emittable :: "insn \<Rightarrow> bool" where
  "x86p_x64_cmovcc_is_emittable i =
     (let dst = opnd i 0; src = opnd i 1; w = o_size dst in
      i_operands i = 2 \<and> (w = 2 \<or> w = 4) \<and> is_gpr dst \<and> o_size src = w \<and>
      (is_gpr src \<or> o_kind src = kX86pOperandMem))"

section \<open>The two gates\<close>

text \<open>The arms the two gates have in common, one definition per instruction.\<close>

definition xchg_ok :: "insn \<Rightarrow> bool" where
  "xchg_ok i \<longleftrightarrow> i_operands i = 2 \<and> o_size (opnd i 0) = 4 \<and> o_size (opnd i 1) = 4 \<and>
     ((operand_is_reg32 (opnd i 0) \<and> (operand_is_reg32 (opnd i 1) \<or> operand_is_mem32 (opnd i 1))) \<or>
      (operand_is_mem32 (opnd i 0) \<and> operand_is_reg32 (opnd i 1)))"

definition is_shift_or_rotate :: "alu_op \<Rightarrow> bool" where
  "is_shift_or_rotate op \<longleftrightarrow>
     (case op of
        kX86pAluShl \<Rightarrow> True | kX86pAluShr \<Rightarrow> True | kX86pAluSar \<Rightarrow> True | kX86pAluRol \<Rightarrow> True
      | kX86pAluRor \<Rightarrow> True | kX86pAluRcl \<Rightarrow> True | kX86pAluRcr \<Rightarrow> True | _ \<Rightarrow> False)"

text \<open>No operation lies after \<open>kX86pAluTest\<close> but the shifts and rotates.\<close>

definition alu_ok :: "insn \<Rightarrow> bool" where
  "alu_ok i =
     (let o0 = opnd i 0; o1 = opnd i 1 in
      if is_shift_or_rotate (i_alu i) then
        i_operands i = 2 \<and> mov_operand_ok o0 (o_size o0) True \<and>
        (o_kind o1 = kX86pOperandImm \<or> (o_kind o1 = kX86pOperandReg \<and> o_reg o1 = kX86pEcx \<and> o_size o1 = 1))
      else if i_alu i = kX86pAluAdc \<or> i_alu i = kX86pAluSbb then
        i_operands i = 2 \<and> mov_operand_ok o0 (o_size o0) True \<and>
        (o_kind o0 \<noteq> kX86pOperandMem \<or> o_kind o1 \<noteq> kX86pOperandMem) \<and> mov_operand_ok o1 (o_size o0) False
      else mov_is_emittable i)"

definition one_target :: "insn \<Rightarrow> bool" where
  "one_target i \<longleftrightarrow> i_operands i = 1 \<and>
     (operand_is_reg32 (opnd i 0) \<or> operand_is_mem32 (opnd i 0) \<or> operand_is_imm (opnd i 0))"

definition ret_ok :: "insn \<Rightarrow> bool" where
  "ret_ok i \<longleftrightarrow> i_operands i = 0 \<or> (i_operands i = 1 \<and> operand_is_imm (opnd i 0))"

definition imul_ok :: "insn \<Rightarrow> bool" where
  "imul_ok i =
     (let o0 = opnd i 0; o1 = opnd i 1 in
      if i_operands i = 1 then mov_operand_ok o0 (o_size o0) True
      else (i_operands i = 2 \<or> (i_operands i = 3 \<and> operand_is_imm (opnd i 2))) \<and>
        (o_size o0 = 2 \<or> o_size o0 = 4) \<and> o_kind o0 = kX86pOperandReg \<and> mov_operand_ok o0 (o_size o0) True \<and>
        \<not> operand_is_imm o1 \<and> mov_operand_ok o1 (o_size o0) False)"

definition alu_unary_ok :: "insn \<Rightarrow> bool" where
  "alu_unary_ok i \<longleftrightarrow> i_operands i = 1 \<and> o_kind (opnd i 0) \<noteq> kX86pOperandImm \<and>
     mov_operand_ok (opnd i 0) (o_size (opnd i 0)) True"

definition lea_ok :: "insn \<Rightarrow> bool" where
  "lea_ok i \<longleftrightarrow> i_operands i = 2 \<and> operand_is_reg32 (opnd i 0) \<and> o_kind (opnd i 1) = kX86pOperandMem"

definition has_addr16 :: "insn \<Rightarrow> bool" where
  "has_addr16 i \<longleftrightarrow>
     list_ex (\<lambda>opd. o_kind opd = kX86pOperandMem \<and> o_addr16 opd) (take (i_operands i) (i_operand i))"

text \<open>The switch of both gates; \<open>shared_arm\<close> has the arms that are the same text in both files.\<close>

definition shared_arm :: "(insn \<Rightarrow> bool) \<Rightarrow> insn \<Rightarrow> bool" where
  "shared_arm x87 i =
     (case i_op i of
        kX86pInsnNop \<Rightarrow> True
      | kX86pInsnX87 \<Rightarrow> x87 i
      | kX86pInsnString \<Rightarrow> x86p_string_is_supported (i_str i) (i_rep i) (i_str_width i)
      | Data op \<Rightarrow>
          (case op of
             kX86pInsnAlu \<Rightarrow> alu_ok i
           | kX86pInsnAluUnary \<Rightarrow> alu_unary_ok i
           | kX86pInsnMov \<Rightarrow> mov_is_emittable i
           | kX86pInsnMovzx \<Rightarrow> movx_is_emittable i
           | kX86pInsnMovsx \<Rightarrow> movx_is_emittable i
           | kX86pInsnLea \<Rightarrow> lea_ok i
           | kX86pInsnXchg \<Rightarrow> xchg_ok i
           | kX86pInsnSetcc \<Rightarrow> i_operands i = 1 \<and> mov_operand_ok (opnd i 0) 1 True
           | kX86pInsnCdq \<Rightarrow> i_operands i = 0
           | kX86pInsnCwde \<Rightarrow> i_operands i = 0
           | kX86pInsnBswap \<Rightarrow> operand_is_reg32 (opnd i 0)
           | kX86pInsnCmovcc \<Rightarrow> False)
      | Wide op \<Rightarrow>
          (case op of
             kX86pInsnShld \<Rightarrow> double_shift_is_emittable i
           | kX86pInsnShrd \<Rightarrow> double_shift_is_emittable i
           | kX86pInsnDiv \<Rightarrow> i_operands i = 1 \<and> (operand_is_reg32 (opnd i 0) \<or> operand_is_mem32 (opnd i 0))
           | kX86pInsnIdiv \<Rightarrow> i_operands i = 1 \<and> (operand_is_reg32 (opnd i 0) \<or> operand_is_mem32 (opnd i 0))
           | kX86pInsnMul \<Rightarrow> i_operands i = 1 \<and> mov_operand_ok (opnd i 0) (o_size (opnd i 0)) True
           | kX86pInsnImul \<Rightarrow> imul_ok i
           | _ \<Rightarrow> False)
      | Flow op \<Rightarrow>
          (case op of kX86pInsnCall \<Rightarrow> one_target i | kX86pInsnRet \<Rightarrow> ret_ok i | _ \<Rightarrow> False)
      | Stack op \<Rightarrow>
          (case op of
             kX86pInsnPush \<Rightarrow> one_target i
           | kX86pInsnPop \<Rightarrow> i_operands i = 1 \<and> operand_writable (opnd i 0)
           | kX86pInsnLeave \<Rightarrow> i_operands i = 0
           | kX86pInsnPushfd \<Rightarrow> i_operands i = 0
           | kX86pInsnPopfd \<Rightarrow> i_operands i = 0
           | kX86pInsnPushad \<Rightarrow> i_operands i = 0
           | kX86pInsnPopad \<Rightarrow> i_operands i = 0
           | kX86pInsnEnter \<Rightarrow> False)
      | Flag op \<Rightarrow>
          op \<in> {kX86pInsnRdtsc, kX86pInsnCpuid, kX86pInsnCld, kX86pInsnStd, kX86pInsnSahf, kX86pInsnLahf} \<and>
          i_operands i = 0
      | _ \<Rightarrow> False)"

definition x64_can_emit :: "(insn \<Rightarrow> bool) \<Rightarrow> (insn \<Rightarrow> bool) \<Rightarrow> insn \<Rightarrow> bool" where
  "x64_can_emit x87 simd i =
     (if has_addr16 i then False
      else if is_relative_branch i then True
      else if is_indirect_branch i then operand_is_reg32 (opnd i 0) \<or> operand_is_mem32 (opnd i 0)
      else case i_op i of
        kX86pInsnSimd \<Rightarrow> simd i
      | Data kX86pInsnCmovcc \<Rightarrow> x86p_x64_cmovcc_is_emittable i
      | Wide kX86pInsnBit \<Rightarrow> bit_is_emittable i
      | Wide kX86pInsnBsf \<Rightarrow> bit_scan_is_emittable i
      | Wide kX86pInsnBsr \<Rightarrow> bit_scan_is_emittable i
      | Wide kX86pInsnXadd \<Rightarrow> exchange_rmw_is_emittable i
      | Wide kX86pInsnCmpxchg \<Rightarrow> exchange_rmw_is_emittable i
      | Wide kX86pInsnCmpxchg8b \<Rightarrow> i_operands i = 1 \<and> is_mem (opnd i 0)
      | _ \<Rightarrow> shared_arm x87 i)"

definition a64_can_emit :: "(insn \<Rightarrow> bool) \<Rightarrow> (insn \<Rightarrow> bool) \<Rightarrow> insn \<Rightarrow> bool" where
  "a64_can_emit x87 simd i =
     (if has_addr16 i then False
      else if is_relative_branch i then True
      else if is_indirect_branch i then operand_is_reg32 (opnd i 0) \<or> operand_is_mem32 (opnd i 0)
      else if i_op i = kX86pInsnSimd then simd i
      else shared_arm x87 i)"

end
