(* ===== verification/X86_Flag_Liveness.thy ===== *)
theory X86_Flag_Liveness
  imports X86_Jit_Gate
begin

text \<open>
  Dead flag store elimination of the native backends: \<open>src/src/x86port/jit_flag_liveness.h\<close> and
  \<open>jit_flag_liveness.c\<close>.  The decoder is the one the interpreter uses, the emission gate a field
  of the scan as in the code.
\<close>

definition X86P_MAX_INSN_LEN :: nat where "X86P_MAX_INSN_LEN = 15"
definition X86P_JIT_WORST_CASE_INSN_BYTES :: nat where "X86P_JIT_WORST_CASE_INSN_BYTES = 384"
definition X86P_JIT_EPILOGUE_BYTES :: nat where "X86P_JIT_EPILOGUE_BYTES = 640"

record flag_scan =
  fs_eip :: u32
  fs_boundary :: "(u32 \<Rightarrow> bool) option"
  fs_count :: u32
  fs_max_insns :: u32
  fs_code_len :: nat
  fs_code_cap :: nat
  fs_can_emit :: "insn \<Rightarrow> bool"

definition alu_rewrites_all_flags :: "alu_op \<Rightarrow> bool" where
  "alu_rewrites_all_flags op =
     (case op of
        kX86pAluAdd \<Rightarrow> True | kX86pAluSub \<Rightarrow> True | kX86pAluCmp \<Rightarrow> True | kX86pAluOr \<Rightarrow> True
      | kX86pAluAnd \<Rightarrow> True | kX86pAluTest \<Rightarrow> True | kX86pAluXor \<Rightarrow> True | _ \<Rightarrow> False)"

text \<open>The fetch loop: \<open>n\<close> bytes are still wanted.\<close>

primrec scan_fetch :: "nat \<Rightarrow> mem \<Rightarrow> store \<Rightarrow> u32 \<Rightarrow> u8 list" where
  "scan_fetch 0 m st addr = []"
| "scan_fetch (Suc n) m st addr =
     (case x86p_mem_read m st addr 1 of
        None \<Rightarrow> []
      | Some byte \<Rightarrow> ucast byte # scan_fetch n m st (addr + 1))"

text \<open>What one instruction decides: the write is dead, may be seen, or the scan goes on behind it.\<close>

datatype verdict = Dead | Seen | GoOn

definition judge :: "insn \<Rightarrow> verdict" where
  "judge i =
     (let o0 = i_operand i ! 0; o1 = i_operand i ! 1 in
      case i_op i of
        Data kX86pInsnAlu \<Rightarrow>
          (if alu_rewrites_all_flags (i_alu i) \<and> o_kind o0 \<noteq> kX86pOperandMem \<and> o_kind o1 \<noteq> kX86pOperandMem then Dead
           else if x86p_alu_is_shift (i_alu i) \<and> o_kind o0 \<noteq> kX86pOperandMem \<and> o_kind o1 = kX86pOperandImm \<and>
                   (o_imm o1 AND 0x1F) \<noteq> 0 then Dead
           else Seen)
      | Data kX86pInsnAluUnary \<Rightarrow>
          (if i_alu_un i = kX86pAluNeg \<and> o_kind o0 \<noteq> kX86pOperandMem then Dead
           else if i_alu_un i = kX86pAluNot \<and> o_kind o0 \<noteq> kX86pOperandMem then GoOn
           else Seen)
      | kX86pInsnNop \<Rightarrow> GoOn
      | Data kX86pInsnLea \<Rightarrow> GoOn
      | Data kX86pInsnMov \<Rightarrow>
          (if o_kind o0 = kX86pOperandReg \<and> o_kind o1 \<noteq> kX86pOperandMem then GoOn else Seen)
      | _ \<Rightarrow> Seen)"

text \<open>The scan: \<open>n\<close> of its eight turns are left.\<close>

primrec flag_scan_loop :: "nat \<Rightarrow> engines \<Rightarrow> mem \<Rightarrow> store \<Rightarrow> flag_scan \<Rightarrow> u32 \<Rightarrow> bool" where
  "flag_scan_loop 0 en m st scan pc = False"
| "flag_scan_loop (Suc n) en m st scan pc =
     (let turn = 7 - n in
      if fs_max_insns scan \<le> fs_count scan + 1 + of_nat turn then False
      else if fs_code_cap scan <
          fs_code_len scan + (turn + 2) * X86P_JIT_WORST_CASE_INSN_BYTES + X86P_JIT_EPILOGUE_BYTES then False
      else
        let bytes = scan_fetch X86P_MAX_INSN_LEN m st pc in
        case (if bytes = [] then None else en_decode en bytes) of
          None \<Rightarrow> False
        | Some i \<Rightarrow>
            if pc \<noteq> fs_eip scan \<and> (case fs_boundary scan of None \<Rightarrow> False | Some f \<Rightarrow> f pc) then False
            else if \<not> fs_can_emit scan i then False
            else case judge i of
              Dead \<Rightarrow> True
            | Seen \<Rightarrow> False
            | GoOn \<Rightarrow> flag_scan_loop n en m st scan (pc + i_length i))"

definition x86p_jit_flag_write_is_dead :: "engines \<Rightarrow> mem \<Rightarrow> store \<Rightarrow> flag_scan \<Rightarrow> u32 \<Rightarrow> bool" where
  "x86p_jit_flag_write_is_dead = flag_scan_loop 8"

end
