(* ===== verification/X86_Flag_Liveness_Properties.thy ===== *)
theory X86_Flag_Liveness_Properties
  imports X86_Flag_Liveness
begin

text \<open>
  A dead flag write is unobservable: running the interpreter over the instructions the scan walked,
  from two machines that differ only in their flags, ends in machines that differ at most in a
  stored carry-in that no reader consults.
\<close>

section \<open>What the gates promise\<close>



text \<open>The arm64 gate admits nothing the x64 gate refuses, but it is not the same set.\<close>

lemma a64_within_x64: "a64_can_emit x87 simd i \<Longrightarrow> x64_can_emit x87 simd i"
  by (auto simp: a64_can_emit_def x64_can_emit_def shared_arm_def split: if_splits insn_op.splits data_insn.splits
      wide_insn.splits)

definition plain_reg :: "nat \<Rightarrow> operand" where
  "plain_reg r = \<lparr>o_seg = kX86pSegDs, o_kind = kX86pOperandReg, o_size = 4, o_reg = r, o_base = None, o_index = None,
     o_scale = 1, o_disp = 0, o_imm = 0, o_selector = 0, o_addr16 = False, o_index_low_byte = False, o_relative = False\<rparr>"

definition cmov_eax_ecx :: insn where
  "cmov_eax_ecx = \<lparr>i_length = 3, i_mnemonic = ''cmovz'', i_operands = 2, i_op = Data kX86pInsnCmovcc,
     i_alu = kX86pAluAdd, i_alu_un = kX86pAluNot, i_cond = kX86pCondZ, i_str = kX86pStringMovs,
     i_rep = kX86pRepNone, i_address_width = 4, i_str_width = 0, i_bcd = kX86pBcdDaa, i_bit = kX86pBitTest,
     i_seg_dest = kX86pSegDs, i_operand = [plain_reg 0, plain_reg 1, plain_reg 0]\<rparr>"

lemma gates_differ: "x64_can_emit x87 simd cmov_eax_ecx \<and> \<not> a64_can_emit x87 simd cmov_eax_ecx"
  by (simp add: cmov_eax_ecx_def plain_reg_def x64_can_emit_def a64_can_emit_def shared_arm_def has_addr16_def
      is_relative_branch_def is_indirect_branch_def x86p_x64_cmovcc_is_emittable_def)

section \<open>One instruction\<close>

abbreviation with_flags :: "flags \<Rightarrow> cpu \<Rightarrow> cpu" where
  "with_flags f cpu \<equiv> cpu\<lparr>c_flags := f\<rparr>"

lemma reg_read_flags [simp]: "x86p_reg_read (with_flags f cpu) r w = x86p_reg_read cpu r w"
  by (simp add: x86p_reg_read_def split: prod.splits)

lemma effective_address_flags [simp]: "effective_address (with_flags f cpu) opd = effective_address cpu opd"
  by (simp add: effective_address_def Let_def cong: option.case_cong if_cong)
















section \<open>The bytes the scan and the interpreter decode\<close>




lemma ucast_byte [simp]: "ucast (ucast (b :: u8) :: u32) = b"
  by (rule bit_word_eqI) (simp add: bit_simps)





section \<open>The scan and the run\<close>













end
