(* ===== verification/X86_Jit_Chain.thy ===== *)
theory X86_Jit_Chain
  imports X86_Prelude
begin

text \<open>
  Exit slots of chained translations, leaf sites of indirect calls and the machine-code storage:
  \<open>src/src/x86port/jit_chain.h\<close>, \<open>jit_chain.c\<close>, \<open>jit_leaf_sites.h\<close>, \<open>jit_leaf_sites.c\<close> and
  \<open>jit_storage_native.c\<close>.  Host addresses are 64-bit, \<open>size_t\<close> counts natural numbers.  The
  executable memory of the host is a parameter.
\<close>

section \<open>Chained exits\<close>

definition X86P_JIT_CHAIN_UNLINKED :: u64 where "X86P_JIT_CHAIN_UNLINKED = -1"

record chain_slot =
  cs_guest :: u64
  cs_host :: u64

record chain_run =
  cr_budget :: u64
  cr_stop :: u32
  cr_last :: u32
  cr_pending :: u32

record jit_chain =
  ch_run :: chain_run
  ch_front :: u64
  ch_capacity :: nat
  ch_claimed :: nat
  ch_slots :: "chain_slot list"

text \<open>\<open>INT32_MAX / sizeof(X86pJitChainSlot) - 64\<close>.\<close>

definition MAX_SLOTS :: nat where "MAX_SLOTS = (2 ^ 31 - 1) div 16 - 64"

definition unlinked :: chain_slot where
  "unlinked = \<lparr>cs_guest = X86P_JIT_CHAIN_UNLINKED, cs_host = 0\<rparr>"

definition unlink_slots :: "nat \<Rightarrow> jit_chain \<Rightarrow> jit_chain" where
  "unlink_slots count c =
     c\<lparr>ch_slots := replicate count unlinked @ drop count (ch_slots c), ch_run := (ch_run c)\<lparr>cr_pending := 0\<rparr>\<rparr>"

definition x86p_jit_chain_create :: "bool \<Rightarrow> nat \<Rightarrow> jit_chain option" where
  "x86p_jit_chain_create heap_ok slots =
     (if slots = 0 \<or> MAX_SLOTS < slots then None
      else if \<not> heap_ok then None
      else Some \<lparr>ch_run = \<lparr>cr_budget = 0, cr_stop = 0, cr_last = 0, cr_pending = 0\<rparr>, ch_front = 0,
                 ch_capacity = slots, ch_claimed = 0, ch_slots = replicate slots \<lparr>cs_guest = 0, cs_host = 0\<rparr>\<rparr>)"

definition x86p_jit_chain_claim :: "jit_chain \<Rightarrow> int \<times> jit_chain" where
  "x86p_jit_chain_claim c =
     (if ch_capacity c \<le> ch_claimed c then (-1, c)
      else (int (ch_claimed c), c\<lparr>ch_slots := (ch_slots c)[ch_claimed c := unlinked], ch_claimed := ch_claimed c + 1\<rparr>))"

definition x86p_jit_chain_set_front :: "u64 \<Rightarrow> jit_chain \<Rightarrow> jit_chain" where
  "x86p_jit_chain_set_front front c = c\<lparr>ch_front := front\<rparr>"

definition x86p_jit_chain_rewind :: "nat \<Rightarrow> jit_chain \<Rightarrow> jit_chain" where
  "x86p_jit_chain_rewind claimed c = (if claimed < ch_claimed c then c\<lparr>ch_claimed := claimed\<rparr> else c)"

text \<open>The slot's address relative to the header, which takes 48 bytes.\<close>

definition x86p_jit_chain_slot_disp :: "int \<Rightarrow> int" where
  "x86p_jit_chain_slot_disp slot = 48 + 16 * slot"

definition x86p_jit_chain_link :: "nat \<Rightarrow> u32 \<Rightarrow> u64 \<Rightarrow> jit_chain \<Rightarrow> jit_chain" where
  "x86p_jit_chain_link slot guest host c =
     c\<lparr>ch_slots := (ch_slots c)[slot := \<lparr>cs_guest = ucast guest, cs_host = host\<rparr>]\<rparr>"

definition x86p_jit_chain_unlink_all :: "jit_chain \<Rightarrow> jit_chain" where
  "x86p_jit_chain_unlink_all c = unlink_slots (ch_claimed c) c"

definition x86p_jit_chain_reset :: "jit_chain \<Rightarrow> jit_chain" where
  "x86p_jit_chain_reset c = (unlink_slots (ch_claimed c) c)\<lparr>ch_claimed := 0\<rparr>"

section \<open>Leaf sites\<close>

text \<open>A leaf is a host function's address, 0 for none; the pool pointer of a site is the pool itself.\<close>

definition X86P_JIT_LEAF_SITE_REFILLS :: u32 where "X86P_JIT_LEAF_SITE_REFILLS = 4"

record leaf_site =
  ls_target :: u32
  ls_refills :: u32
  ls_leaf :: u64

record leaf_sites =
  lf_site :: "leaf_site list"
  lf_capacity :: nat
  lf_used :: nat
  lf_resolve :: "u32 \<Rightarrow> u64"
  lf_claimed :: u64
  lf_refused :: u64
  lf_fills :: u64
  lf_leaf_fills :: u64
  lf_exhausted :: u64

definition x86p_jit_leaf_sites_create :: "bool \<Rightarrow> nat \<Rightarrow> (u32 \<Rightarrow> u64) option \<Rightarrow> leaf_sites option" where
  "x86p_jit_leaf_sites_create heap_ok capacity resolve =
     (case resolve of
        None \<Rightarrow> None
      | Some f \<Rightarrow>
          if capacity = 0 then None
          else if \<not> heap_ok then None
          else Some \<lparr>lf_site = replicate capacity \<lparr>ls_target = 0, ls_refills = 0, ls_leaf = 0\<rparr>, lf_capacity = capacity,
                 lf_used = 0, lf_resolve = f, lf_claimed = 0, lf_refused = 0, lf_fills = 0, lf_leaf_fills = 0,
                 lf_exhausted = 0\<rparr>)"

definition x86p_jit_leaf_sites_claim :: "leaf_sites \<Rightarrow> nat option \<times> leaf_sites" where
  "x86p_jit_leaf_sites_claim s =
     (if lf_used s = lf_capacity s then (None, s\<lparr>lf_refused := lf_refused s + 1\<rparr>)
      else
        (Some (lf_used s),
         s\<lparr>lf_site := (lf_site s)[lf_used s := \<lparr>ls_target = 0, ls_refills = 0, ls_leaf = 0\<rparr>],
           lf_used := lf_used s + 1, lf_claimed := lf_claimed s + 1\<rparr>))"

definition x86p_jit_leaf_sites_mark :: "leaf_sites option \<Rightarrow> nat" where
  "x86p_jit_leaf_sites_mark s = (case s of None \<Rightarrow> 0 | Some s \<Rightarrow> lf_used s)"

definition x86p_jit_leaf_sites_rewind :: "nat \<Rightarrow> leaf_sites \<Rightarrow> leaf_sites" where
  "x86p_jit_leaf_sites_rewind mark s =
     (if mark \<le> lf_used s
      then s\<lparr>lf_claimed := lf_claimed s - of_nat (lf_used s - mark), lf_used := mark\<rparr> else s)"

definition x86p_jit_leaf_sites_reset :: "leaf_sites \<Rightarrow> leaf_sites" where
  "x86p_jit_leaf_sites_reset s = s\<lparr>lf_used := 0, lf_claimed := 0\<rparr>"

definition x86p_jit_leaf_site_fill :: "nat \<Rightarrow> u32 \<Rightarrow> leaf_sites \<Rightarrow> u64 \<times> leaf_sites" where
  "x86p_jit_leaf_site_fill i target s =
     (let leaf = lf_resolve s target;
          site = (lf_site s ! i)\<lparr>ls_target := target, ls_leaf := leaf\<rparr>;
          site = site\<lparr>ls_refills := ls_refills site + 1\<rparr>;
          s = s\<lparr>lf_site := (lf_site s)[i := site]\<rparr>;
          s = (if ls_refills site = X86P_JIT_LEAF_SITE_REFILLS then s\<lparr>lf_exhausted := lf_exhausted s + 1\<rparr> else s)
      in (leaf, s\<lparr>lf_fills := lf_fills s + 1, lf_leaf_fills := lf_leaf_fills s + (if leaf \<noteq> 0 then 1 else 0)\<rparr>))"

end
