(* ===== verification/X86_Jit_Storage.thy ===== *)
theory X86_Jit_Storage
  imports X86_Jit_Chain
begin

text \<open>
  What a translation is and where its code lives on a machine-code host: the outcomes and the block
  record of \<open>src/src/x86port/jit_x64.h\<close>, their names in \<open>jit_status.c\<close>, and the storage of
  \<open>jit_storage.h\<close> and \<open>jit_storage_native.c\<close>.  The host's executable memory (\<open>code_memory.h\<close>, not in
  the repository) and the translator are parameters: what the translator emits is not modelled, what
  it takes from the engine and gives back is.
\<close>

section \<open>Outcomes and blocks\<close>

datatype jit_exit =
    kX86pJitExitBlockEnd | kX86pJitExitUnsupported | kX86pJitExitMemoryFault | kX86pJitExitDivideError
  | kX86pJitExitInterrupt | kX86pJitExitProtectionFault | kX86pJitExitBoundRange | InvalidExit u32

definition x86p_jit_exit_name :: "jit_exit \<Rightarrow> string" where
  "x86p_jit_exit_name e =
     (case e of
        kX86pJitExitBlockEnd \<Rightarrow> ''block end''
      | kX86pJitExitUnsupported \<Rightarrow> ''unsupported instruction''
      | kX86pJitExitMemoryFault \<Rightarrow> ''guest memory fault''
      | kX86pJitExitDivideError \<Rightarrow> ''divide error''
      | kX86pJitExitInterrupt \<Rightarrow> ''software interrupt''
      | kX86pJitExitProtectionFault \<Rightarrow> ''general-protection fault''
      | kX86pJitExitBoundRange \<Rightarrow> ''bound range exceeded''
      | InvalidExit _ \<Rightarrow> ''?'')"

datatype jit_status =
    kX86pJitOk | kX86pJitFetchFault | kX86pJitDecodeFailed | kX86pJitUnsupportedAtEntry | kX86pJitOutOfSpace

definition x86p_jit_status_name :: "jit_status \<Rightarrow> string" where
  "x86p_jit_status_name s =
     (case s of
        kX86pJitOk \<Rightarrow> ''ok''
      | kX86pJitFetchFault \<Rightarrow> ''fetch fault''
      | kX86pJitDecodeFailed \<Rightarrow> ''decode failed''
      | kX86pJitUnsupportedAtEntry \<Rightarrow> ''unsupported at entry''
      | kX86pJitOutOfSpace \<Rightarrow> ''out of space'')"

definition X86P_JIT_MIN_BLOCK_BYTES :: nat where
  "X86P_JIT_MIN_BLOCK_BYTES = 32 + 384 + 640"

text \<open>A block; the number of static targets is the length of their list.\<close>

record jit_block =
  jb_entry :: u64
  jb_guest_eip :: u32
  jb_guest_len :: u32
  jb_insns :: u32
  jb_host_bytes :: nat
  jb_ends_in_branch :: bool
  jb_stopper :: "string option"
  jb_flag_helper_calls :: u32
  jb_conds :: u32
  jb_cond_helper_calls :: u32
  jb_cond_inline :: u32
  jb_cond_proven :: u32
  jb_cond_unknown_kind :: u32
  jb_x87_loads :: u32
  jb_x87_loads_inline :: u32
  jb_x87_stores :: u32
  jb_x87_stores_inline :: u32
  jb_x87_compares :: u32
  jb_x87_compares_inline :: u32
  jb_simd_ops :: u32
  jb_simd_inline :: u32
  jb_exits :: u32
  jb_exits_static :: u32
  jb_static_targets :: "u32 list"
  jb_static_targets_overflowed :: u32
  jb_exits_backward :: u32
  jb_exits_loop :: u32
  jb_exits_self :: u32
  jb_host_state :: u32
  jb_chain_exits :: u32
  jb_chain_exits_unslotted :: u32
  jb_chain_exits_direct :: u32
  jb_chain_first_slot :: int
  jb_leaf_calls :: u32
  jb_leaf_sites :: u32
  jb_leaf_site :: "nat option"

text \<open>What a translation may use of the engine, and the translator itself.\<close>

record translate_env =
  te_boundary :: "(u32 \<Rightarrow> bool) option"
  te_leaf :: "(u32 \<Rightarrow> u64) option"

text \<open>
  The translator sees guest memory \<open>'w\<close>, the address, the room for code and its environment; it
  answers with a status and a block and says how many chain slots and leaf sites it claimed on the
  way.  The claims themselves are the pools' own operations.
\<close>

type_synonym 'w translator =
  "'w \<Rightarrow> u32 \<Rightarrow> nat \<Rightarrow> translate_env \<Rightarrow> jit_chain option \<Rightarrow> leaf_sites option \<Rightarrow> jit_status \<times> jit_block \<times> nat \<times> nat"

definition claim_slots :: "nat \<Rightarrow> jit_chain option \<Rightarrow> jit_chain option" where
  "claim_slots n = map_option (\<lambda>c. ((snd \<circ> x86p_jit_chain_claim) ^^ n) c)"

definition claim_sites :: "nat \<Rightarrow> leaf_sites option \<Rightarrow> leaf_sites option" where
  "claim_sites n = map_option (\<lambda>s. ((snd \<circ> x86p_jit_leaf_sites_claim) ^^ n) s)"

section \<open>Code memory\<close>

record code_region =
  rg_exec :: u64
  rg_size :: nat

text \<open>Creating a region, opening a write window and publishing a range of it; each may be refused.\<close>

record 'm code_memory =
  cm_create :: "'m \<Rightarrow> nat \<Rightarrow> code_region option \<times> 'm"
  cm_begin_write :: "'m \<Rightarrow> code_region \<Rightarrow> bool \<times> 'm"
  cm_publish :: "'m \<Rightarrow> code_region \<Rightarrow> nat \<Rightarrow> nat \<Rightarrow> bool \<times> 'm"

section \<open>The storage\<close>

definition kChunkMaxBytes :: nat where "kChunkMaxBytes = 32 * 2 ^ 20"
definition kChunksPerCapacity :: nat where "kChunksPerCapacity = 16"
definition kChunkMaxSlack :: nat where "kChunkMaxSlack = 64 * 2 ^ 10"

record storage =
  st_chunks :: "code_region list"
  st_chunk_limit :: nat
  st_chunk_bytes :: nat
  st_chunk_slack :: nat
  st_current :: nat
  st_used :: nat
  st_retired_bytes :: nat
  st_capacity :: nat

definition chunk_bytes_for :: "nat \<Rightarrow> nat" where
  "chunk_bytes_for capacity =
     (let b = capacity div kChunksPerCapacity;
          b = (if b < X86P_JIT_MIN_BLOCK_BYTES
               then (if capacity < X86P_JIT_MIN_BLOCK_BYTES then capacity else X86P_JIT_MIN_BLOCK_BYTES) else b)
      in if b > kChunkMaxBytes then kChunkMaxBytes else b)"

definition chunk_slack_for :: "nat \<Rightarrow> nat" where
  "chunk_slack_for chunk_bytes =
     (let s = (if chunk_bytes div 8 < kChunkMaxSlack then chunk_bytes div 8 else kChunkMaxSlack)
      in if s < X86P_JIT_MIN_BLOCK_BYTES then X86P_JIT_MIN_BLOCK_BYTES else s)"

definition x86p_jit_storage_create :: "'m code_memory \<Rightarrow> bool \<Rightarrow> nat \<Rightarrow> 'm \<Rightarrow> storage option \<times> 'm" where
  "x86p_jit_storage_create cm heap_ok capacity h =
     (if \<not> heap_ok then (None, h)
      else
        let b = chunk_bytes_for capacity; limit = (if b \<noteq> 0 then (capacity + b - 1) div b else 0) in
        case cm_create cm h b of
          (None, h) \<Rightarrow> (None, h)
        | (Some r, h) \<Rightarrow>
            (Some \<lparr>st_chunks = [r], st_chunk_limit = limit, st_chunk_bytes = b, st_chunk_slack = chunk_slack_for b,
                   st_current = 0, st_used = 0, st_retired_bytes = 0, st_capacity = capacity\<rparr>, h))"

definition chunk_left :: "storage \<Rightarrow> nat" where
  "chunk_left st = rg_size (st_chunks st ! st_current st) - st_used st"

datatype storage_room =
    kX86pJitStorageRoom | kX86pJitStorageOutOfBytes | kX86pJitStorageOutOfSlots | kX86pJitStorageAtEngineLimit

definition x86p_jit_storage_room :: "storage \<Rightarrow> storage_room" where
  "x86p_jit_storage_room st =
     (if X86P_JIT_MIN_BLOCK_BYTES \<le> chunk_left st \<or> st_current st + 1 < st_chunk_limit st
      then kX86pJitStorageRoom else kX86pJitStorageOutOfBytes)"

definition x86p_jit_storage_has_room :: "storage \<Rightarrow> bool" where
  "x86p_jit_storage_has_room st \<longleftrightarrow> x86p_jit_storage_room st = kX86pJitStorageRoom"

definition x86p_jit_storage_used :: "storage \<Rightarrow> nat" where
  "x86p_jit_storage_used st = st_retired_bytes st + st_used st"

text \<open>What a report reads; machine code has no block records, modules or compactions.\<close>

definition x86p_jit_storage_chunks :: "storage \<Rightarrow> nat" where
  "x86p_jit_storage_chunks st = length (st_chunks st)"

definition x86p_jit_storage_block_records :: "storage \<Rightarrow> u32" where
  "x86p_jit_storage_block_records st = 0"

definition x86p_jit_storage_compactions :: "storage \<Rightarrow> u32" where
  "x86p_jit_storage_compactions st = 0"

definition x86p_jit_storage_direct_exits :: "storage \<Rightarrow> u64" where
  "x86p_jit_storage_direct_exits st = 0"

definition x86p_jit_storage_compaction_refusals :: "storage \<Rightarrow> u32" where
  "x86p_jit_storage_compaction_refusals st = 0"

definition x86p_jit_storage_compaction_pending :: "storage \<Rightarrow> u32" where
  "x86p_jit_storage_compaction_pending st = 0"

definition x86p_jit_storage_compaction_stopped :: "storage \<Rightarrow> bool" where
  "x86p_jit_storage_compaction_stopped st = False"

definition x86p_jit_storage_ceilings_learned :: "storage \<Rightarrow> u32" where
  "x86p_jit_storage_ceilings_learned st = 0"

definition x86p_jit_storage_ceilings_retired :: "storage \<Rightarrow> u32" where
  "x86p_jit_storage_ceilings_retired st = 0"

text \<open>Machine code is not handed back one block at a time: nothing is dropped, and no range reported.\<close>

definition x86p_jit_storage_evict :: "storage \<Rightarrow> nat \<times> (u32 \<times> u32) list \<times> storage" where
  "x86p_jit_storage_evict st = (0, [], st)"

definition x86p_jit_storage_reset :: "storage \<Rightarrow> storage" where
  "x86p_jit_storage_reset st = st\<lparr>st_current := 0, st_used := 0, st_retired_bytes := 0\<rparr>"

definition x86p_jit_storage_invalidate :: "u32 \<Rightarrow> u32 \<Rightarrow> storage \<Rightarrow> storage" where
  "x86p_jit_storage_invalidate lo hi st = st"

definition next_chunk :: "storage \<Rightarrow> storage" where
  "next_chunk st =
     st\<lparr>st_retired_bytes := st_retired_bytes st + st_used st, st_current := st_current st + 1, st_used := 0\<rparr>"

definition ensure_chunk :: "'m code_memory \<Rightarrow> 'm \<Rightarrow> storage \<Rightarrow> jit_status \<times> 'm \<times> storage" where
  "ensure_chunk cm h st =
     (if st_chunk_slack st \<le> chunk_left st \<or> st_chunk_limit st \<le> st_current st + 1 then (kX86pJitOk, h, st)
      else if st_current st + 1 = length (st_chunks st) then
        (case cm_create cm h (st_chunk_bytes st) of
           (None, h) \<Rightarrow> (kX86pJitOutOfSpace, h, st)
         | (Some r, h) \<Rightarrow> (kX86pJitOk, h, next_chunk (st\<lparr>st_chunks := st_chunks st @ [r]\<rparr>)))
      else (kX86pJitOk, h, next_chunk st))"

text \<open>
  Before the translator runs nothing is claimed; the block the code returns on a failure is whatever
  it was, which no caller reads.
\<close>

definition x86p_jit_storage_translate ::
  "'m code_memory \<Rightarrow> 'w translator \<Rightarrow> 'w \<Rightarrow> u32 \<Rightarrow> translate_env \<Rightarrow> jit_block \<Rightarrow> 'm \<Rightarrow> storage \<Rightarrow> jit_chain option \<Rightarrow>
     leaf_sites option \<Rightarrow> jit_status \<times> jit_block \<times> 'm \<times> storage \<times> jit_chain option \<times> leaf_sites option" where
  "x86p_jit_storage_translate cm tr w eip env blk h st links sites =
     (case ensure_chunk cm h st of
        (status, h, st) \<Rightarrow>
          if status \<noteq> kX86pJitOk then (status, blk, h, st, links, sites)
          else
            let code = st_chunks st ! st_current st in
            case cm_begin_write cm h code of
              (False, h) \<Rightarrow> (kX86pJitOutOfSpace, blk, h, st, links, sites)
            | (True, h) \<Rightarrow>
                (case tr w eip (rg_size code - st_used st) env links sites of
                   (status, blk, slots, claimed_sites) \<Rightarrow>
                     let links = claim_slots slots links; sites = claim_sites claimed_sites sites in
                     (case cm_publish cm h code (st_used st) (if status = kX86pJitOk then jb_host_bytes blk else 0) of
                        (False, h) \<Rightarrow> (kX86pJitOutOfSpace, blk, h, st, links, sites)
                      | (True, h) \<Rightarrow>
                          if status = kX86pJitOk
                          then (status, blk\<lparr>jb_entry := rg_exec code + of_nat (st_used st)\<rparr>, h,
                                st\<lparr>st_used := st_used st + jb_host_bytes blk\<rparr>, links, sites)
                          else (status, blk, h, st, links, sites))))"

end
