(* ===== verification/X86_Jit_Probe.thy ===== *)
theory X86_Jit_Probe
  imports X86_Prelude
begin

text \<open>
  The fixed-capacity open-addressed tables of the engine's diagnostics: the block-entry histogram
  (\<open>src/src/x86port/jit_profile.h\<close>, \<open>jit_profile.c\<close>) and the chain census
  (\<open>jit_chain_census.h\<close>, \<open>jit_chain_census.c\<close>).  Both probe their keys the same way; the loop is
  \<open>probe\<close> here, with as many turns as the table has slots, which \<open>X86_Jit_Probe_Properties\<close> shows to
  be enough.  \<open>None\<close> is a loop that did not end, or a read outside an array.
\<close>

section \<open>The probe\<close>

definition PROF_EMPTY :: u32 where "PROF_EMPTY = 0xFFFFFFFF"

definition mix32 :: "u32 \<Rightarrow> u32" where
  "mix32 x = (let x = x * 0x9E3779B9 in x XOR drop_bit 15 x)"

text \<open>The doubling loop; \<open>p\<close> reaches its bound within thirty turns.\<close>

primrec round_up_loop :: "nat \<Rightarrow> u32 \<Rightarrow> u32 \<Rightarrow> u32" where
  "round_up_loop 0 v p = p"
| "round_up_loop (Suc n) v p = (if p < v \<and> p < 0x40000000 then round_up_loop n v (push_bit 1 p) else p)"

definition round_up_pow2 :: "u32 \<Rightarrow> u32" where
  "round_up_pow2 v = round_up_loop 30 v 1"

fun probe :: "nat \<Rightarrow> u32 list \<Rightarrow> u32 \<Rightarrow> u32 \<Rightarrow> u32 \<Rightarrow> nat option" where
  "probe n keys msk k i =
     (if keys ! unat i = k \<or> keys ! unat i = PROF_EMPTY then Some (unat i)
      else case n of 0 \<Rightarrow> None | Suc n \<Rightarrow> probe n keys msk k ((i + 1) AND msk))"

declare probe.simps [simp del]

definition find_slot :: "u32 list \<Rightarrow> u32 \<Rightarrow> u32 \<Rightarrow> nat option" where
  "find_slot keys msk k = probe (length keys) keys msk k (mix32 k AND msk)"

section \<open>The histogram\<close>

record profile =
  pf_keys :: "u32 list"
  pf_counts :: "u64 list"
  pf_mask :: u32
  pf_capacity :: u32
  pf_distinct :: u32
  pf_total :: u64
  pf_dropped :: u64

definition slot_hint_capacity :: "u32 \<Rightarrow> u32" where
  "slot_hint_capacity slot_hint = round_up_pow2 ((if slot_hint < 64 then 64 else slot_hint) * 2)"

definition x86p_jit_profile_create :: "bool \<Rightarrow> u32 \<Rightarrow> profile option" where
  "x86p_jit_profile_create heap_ok slot_hint =
     (let cap = slot_hint_capacity slot_hint in
      if \<not> heap_ok then None
      else Some \<lparr>pf_keys = replicate (unat cap) PROF_EMPTY, pf_counts = replicate (unat cap) 0, pf_mask = cap - 1,
             pf_capacity = cap div 2, pf_distinct = 0, pf_total = 0, pf_dropped = 0\<rparr>)"

definition x86p_jit_profile_hit :: "u32 \<Rightarrow> profile \<Rightarrow> profile option" where
  "x86p_jit_profile_hit guest_eip p =
     (let p = p\<lparr>pf_total := pf_total p + 1\<rparr> in
      if guest_eip = PROF_EMPTY then Some (p\<lparr>pf_dropped := pf_dropped p + 1\<rparr>)
      else
        case find_slot (pf_keys p) (pf_mask p) guest_eip of
          None \<Rightarrow> None
        | Some i \<Rightarrow>
            if pf_keys p ! i = guest_eip then
              Some (if pf_counts p ! i \<noteq> -1 then p\<lparr>pf_counts := (pf_counts p)[i := pf_counts p ! i + 1]\<rparr> else p)
            else if pf_capacity p \<le> pf_distinct p then Some (p\<lparr>pf_dropped := pf_dropped p + 1\<rparr>)
            else Some (p\<lparr>pf_keys := (pf_keys p)[i := guest_eip], pf_counts := (pf_counts p)[i := 1],
                         pf_distinct := pf_distinct p + 1\<rparr>))"

text \<open>The comparison \<open>qsort\<close> is given: most entries first, then the lower address.\<close>

definition entry_key :: "u32 \<times> u64 \<Rightarrow> nat" where
  "entry_key = (\<lambda>(e, c). (2 ^ 64 - 1 - unat c) * 2 ^ 32 + unat e)"

definition x86p_jit_profile_top :: "bool \<Rightarrow> nat \<Rightarrow> profile \<Rightarrow> (u32 \<times> u64) list" where
  "x86p_jit_profile_top heap_ok n p =
     (if n = 0 \<or> pf_distinct p = 0 then []
      else if \<not> heap_ok then []
      else take n (sort_key entry_key (filter (\<lambda>(k, _). k \<noteq> PROF_EMPTY) (zip (pf_keys p) (pf_counts p)))))"

section \<open>The chain census\<close>

definition X86P_JIT_CHAIN_TARGETS :: nat where "X86P_JIT_CHAIN_TARGETS = 6"

record census_slot =
  ce_entry :: u32
  ce_targets :: "u32 list"
  ce_count :: u32

record census =
  cn_slots :: "census_slot list"
  cn_mask :: u32
  cn_capacity :: u32
  cn_blocks :: u32
  cn_entries :: u64
  cn_chainable :: u64
  cn_unrecorded :: u64
  cn_overflowed :: u64
  cn_dropped :: u64

text \<open>The table is filled with 0xFF bytes: a free slot's count is 0xFFFFFFFF as well.\<close>

definition free_census_slot :: census_slot where
  "free_census_slot = \<lparr>ce_entry = PROF_EMPTY, ce_targets = replicate X86P_JIT_CHAIN_TARGETS 0xFFFFFFFF, ce_count = 0xFFFFFFFF\<rparr>"

definition x86p_jit_chain_census_create :: "bool \<Rightarrow> u32 \<Rightarrow> census option" where
  "x86p_jit_chain_census_create heap_ok slot_hint =
     (let cap = slot_hint_capacity slot_hint in
      if \<not> heap_ok then None
      else Some \<lparr>cn_slots = replicate (unat cap) free_census_slot, cn_mask = cap - 1, cn_capacity = cap div 2,
             cn_blocks = 0, cn_entries = 0, cn_chainable = 0, cn_unrecorded = 0, cn_overflowed = 0, cn_dropped = 0\<rparr>)"

abbreviation cn_keys :: "census \<Rightarrow> u32 list" where
  "cn_keys c \<equiv> List.map ce_entry (cn_slots c)"

text \<open>The record of a block; targets beyond the sixth are cut off, the rest of the array stays.\<close>

definition record_targets :: "u32 list \<Rightarrow> census_slot \<Rightarrow> census_slot" where
  "record_targets targets s =
     (let kept = take X86P_JIT_CHAIN_TARGETS targets in
      s\<lparr>ce_targets := kept @ drop (length kept) (ce_targets s), ce_count := of_nat (length kept)\<rparr>)"

definition x86p_jit_chain_census_note_block :: "u32 \<Rightarrow> u32 list \<Rightarrow> u32 \<Rightarrow> census \<Rightarrow> census option" where
  "x86p_jit_chain_census_note_block entry targets overflowed c =
     (if entry = PROF_EMPTY then Some c
      else
        let c = c\<lparr>cn_overflowed := cn_overflowed c + ucast overflowed\<rparr> in
        case find_slot (cn_keys c) (cn_mask c) entry of
          None \<Rightarrow> None
        | Some i \<Rightarrow>
            if ce_entry (cn_slots c ! i) = entry
            then Some (c\<lparr>cn_slots := (cn_slots c)[i := record_targets targets (cn_slots c ! i)]\<rparr>)
            else if cn_capacity c \<le> cn_blocks c then Some (c\<lparr>cn_dropped := cn_dropped c + 1\<rparr>)
            else Some (c\<lparr>cn_slots := (cn_slots c)[i := record_targets targets ((cn_slots c ! i)\<lparr>ce_entry := entry\<rparr>)],
                         cn_blocks := cn_blocks c + 1\<rparr>))"

text \<open>
  \<open>census_find\<close> returns a slot that holds the address; asked for the free-slot mark it returns a free
  slot, as the code does.  The comparison loop of the entry reads the first \<open>count\<close> targets.
\<close>

definition census_find :: "u32 \<Rightarrow> census \<Rightarrow> census_slot option option" where
  "census_find entry c =
     (case find_slot (cn_keys c) (cn_mask c) entry of
        None \<Rightarrow> None
      | Some i \<Rightarrow> Some (if ce_entry (cn_slots c ! i) = entry then Some (cn_slots c ! i) else None))"

fun names_target :: "u32 list \<Rightarrow> nat \<Rightarrow> u32 \<Rightarrow> bool option" where
  "names_target ts 0 entry = Some False"
| "names_target [] (Suc n) entry = None"
| "names_target (t # ts) (Suc n) entry = (if t = entry then Some True else names_target ts n entry)"

definition x86p_jit_chain_census_note_entry :: "u32 \<Rightarrow> u32 \<Rightarrow> bool \<Rightarrow> census \<Rightarrow> census option" where
  "x86p_jit_chain_census_note_entry previous entry have_previous c =
     (let c = c\<lparr>cn_entries := cn_entries c + 1\<rparr> in
      if \<not> have_previous then Some (c\<lparr>cn_unrecorded := cn_unrecorded c + 1\<rparr>)
      else do {
        slot \<leftarrow> census_find previous c;
        (case slot of
           None \<Rightarrow> Some (c\<lparr>cn_unrecorded := cn_unrecorded c + 1\<rparr>)
         | Some s \<Rightarrow>
             if ce_count s = 0 then Some (c\<lparr>cn_unrecorded := cn_unrecorded c + 1\<rparr>)
             else do {
               known \<leftarrow> names_target (ce_targets s) (unat (ce_count s)) entry;
               Some (if known then c\<lparr>cn_chainable := cn_chainable c + 1\<rparr> else c)
             })
      })"

end
