(* ===== verification/X86_Jit_Engine.thy ===== *)
theory X86_Jit_Engine
  imports X86_Jit_Storage X86_Jit_Probe X86_Cpu
begin

text \<open>
  The dispatcher: \<open>src/src/x86port/jit_engine.h\<close> and \<open>jit_engine.c\<close>, on a machine-code host.

  Parameters are what the code calls and the repository does not hold, or does not run as C: the
  block cache (\<open>block_cache.h\<close>) over its own state \<open>'c\<close>, code memory over \<open>'m\<close>, and the world \<open>'w\<close>
  of guest memory and the embedder, which the translator reads and the callbacks and translated
  blocks change.  A host address of 0 is the null pointer.  While a callback or a block runs it may
  call back into the engine to invalidate code or fill a leaf site; it answers with the list of
  those calls, which are the engine's own operations.  Callbacks do not reconfigure the engine.
\<close>

section \<open>What the engine runs on\<close>

record cache_stats =
  cc_lookups :: u64
  cc_hits :: u64
  cc_front_hits :: u64
  cc_probe_length_total :: u64
  cc_refused :: u64

record 'c block_cache =
  bc_create :: "nat \<Rightarrow> 'c option"
  bc_front :: "'c \<Rightarrow> u64"
  bc_lookup :: "'c \<Rightarrow> u32 \<Rightarrow> u64 \<times> 'c"
  bc_lookup_refusing :: "'c \<Rightarrow> u32 \<Rightarrow> u64 \<times> 'c"
  bc_insert :: "'c \<Rightarrow> u32 \<Rightarrow> u64 \<Rightarrow> u32 \<Rightarrow> bool \<times> 'c"
  bc_guard :: "'c \<Rightarrow> u32 \<Rightarrow> 'c"
  bc_flush :: "'c \<Rightarrow> 'c"
  bc_count :: "'c \<Rightarrow> nat"
  bc_invalidate_range :: "'c \<Rightarrow> u32 \<Rightarrow> u32 \<Rightarrow> nat \<times> 'c"
  bc_stats :: "'c \<Rightarrow> cache_stats"

datatype event = Invalidate u32 u32 | InvalidateAll | LeafFill nat u32

record 'w call_result =
  cl_exit :: jit_exit
  cl_cpu :: cpu
  cl_world :: 'w
  cl_events :: "event list"
  cl_run :: chain_run

record ('c, 'm, 'w) jit_host =
  jh_cache :: "'c block_cache"
  jh_code :: "'m code_memory"
  jh_translate :: "'w translator"
  jh_call :: "u64 \<Rightarrow> 'w \<Rightarrow> cpu \<Rightarrow> 'c \<Rightarrow> jit_chain option \<Rightarrow> leaf_sites option \<Rightarrow> 'w call_result"
  jh_host_state :: "'w \<Rightarrow> u32"
  jh_chain_slots_per_block :: nat
  jh_chain_entry_offset :: nat
  jh_chain_transfer_limit :: u64

section \<open>The engine\<close>

datatype run_status =
    kX86pRunBudget | kX86pRunDecodeFailed | kX86pRunUnsupported | kX86pRunFetchFault | kX86pRunMemoryFault
  | kX86pRunDivideError | kX86pRunInterrupt | kX86pRunProtectionFault | kX86pRunBoundRange
  | kX86pRunTranslateFailed | kX86pRunOutOfCode | kX86pRunIntercept

definition x86p_jit_run_status_name :: "run_status \<Rightarrow> string" where
  "x86p_jit_run_status_name s =
     (case s of
        kX86pRunBudget \<Rightarrow> ''budget exhausted''
      | kX86pRunDecodeFailed \<Rightarrow> ''decode failed''
      | kX86pRunUnsupported \<Rightarrow> ''unsupported instruction''
      | kX86pRunFetchFault \<Rightarrow> ''fetch fault''
      | kX86pRunMemoryFault \<Rightarrow> ''memory fault''
      | kX86pRunDivideError \<Rightarrow> ''divide error''
      | kX86pRunInterrupt \<Rightarrow> ''software interrupt''
      | kX86pRunProtectionFault \<Rightarrow> ''general-protection fault (a ring-3 process may not do that)''
      | kX86pRunBoundRange \<Rightarrow> ''bound range exceeded''
      | kX86pRunTranslateFailed \<Rightarrow> ''translation failed''
      | kX86pRunOutOfCode \<Rightarrow> ''out of code memory''
      | kX86pRunIntercept \<Rightarrow> ''intercepted by consumer'')"

text \<open>
  Every field of the statistics is a 64-bit total.  The fields from \<open>CodeBytesUsed\<close> on are filled in
  by a report, from the storage, the leaf sites and the block cache.
\<close>

datatype stat =
    BlocksEntered | BlocksReentered | BlocksTranslated | GuestInsnsTranslated | CondsTranslated | CondsInline
  | CondsUnknownKind | X87LoadsTranslated | X87LoadsInline | X87StoresTranslated | X87StoresInline
  | X87ComparesTranslated | X87ComparesInline | SimdTranslated | SimdInline | Exits | ExitsStatic | ExitsBackward
  | ExitsSelf | TranslateRefusals | Invalidations | InvalidationBytes | InvalidationBlocksDropped | Evictions
  | EvictionBlocksDropped | CacheFlushes | EvictionsOutOfBytes | EvictionsOutOfSlots | EvictionsAtEngineLimit
  | InterceptCalls | BlocksGuarded | BlocksChained | ChainLinks | ChainExits | ChainExitsUnslotted | LeafCalls
  | LeafSites
  | CodeBytesUsed | CodeChunks | Compactions | CompactionRefusals | ChainExitsDirect | CompactionPending
  | CompactionStopped | CodeBytesLimit | BlockRecords | CeilingsLearned | CeilingsRetired | LeafSiteFills
  | LeafSiteLeafFills | LeafSitesExhausted | LeafSitesRefused | CacheLookups | CacheHits | CacheFrontHits
  | CacheTableProbes | CacheRefused

type_synonym stats = "stat \<Rightarrow> u64"

definition x86p_jit_engine_stats_add :: "stats \<Rightarrow> stats \<Rightarrow> stats" where
  "x86p_jit_engine_stats_add dst src = (\<lambda>k. dst k + src k)"

record ('c, 'm, 'w) engine =
  en_memory :: 'm
  en_storage :: storage
  en_cache :: 'c
  en_stats :: stats
  en_intercept :: "('w \<Rightarrow> cpu \<Rightarrow> bool \<times> 'w \<times> event list) option"
  en_dispatch :: "('w \<Rightarrow> cpu \<Rightarrow> bool \<times> cpu \<times> 'w \<times> event list) option"
  en_boundary :: "(u32 \<Rightarrow> bool) option"
  en_leaf :: "(u32 \<Rightarrow> u64) option"
  en_leaf_sites :: "leaf_sites option"
  en_cache_blocks :: nat
  en_run_stop :: "('w \<Rightarrow> u32) option"
  en_host_state :: u32
  en_links :: "jit_chain option"
  en_chain_entry :: nat
  en_cache_disabled :: bool
  en_profile :: "profile option"
  en_chain :: "census option"
  en_last_entry :: u32
  en_watch :: "u32 \<Rightarrow> u32 \<Rightarrow> bool \<Rightarrow> cpu \<Rightarrow> 'w \<Rightarrow> 'w"
  en_watch_addr :: u32
  en_watch_left :: u64
  en_translate_watch :: "(u32 \<Rightarrow> u64 \<Rightarrow> nat \<Rightarrow> 'w \<Rightarrow> 'w) option"

definition add_stats :: "(stat \<times> u64) list \<Rightarrow> ('c, 'm, 'w) engine \<Rightarrow> ('c, 'm, 'w) engine" where
  "add_stats l e = e\<lparr>en_stats := fold (\<lambda>(k, n) s. s(k := s k + n)) l (en_stats e)\<rparr>"

datatype create_refusal = SparseMemory | RegionTooSmall | OutOfMemory | CodeMemoryRefused | NoCache | NoChain

definition x86p_jit_engine_create ::
  "('c, 'm, 'w) jit_host \<Rightarrow> bool \<Rightarrow> bool \<Rightarrow> nat \<Rightarrow> nat \<Rightarrow> 'w \<Rightarrow> 'm \<Rightarrow> (create_refusal + ('c, 'm, 'w) engine)" where
  "x86p_jit_engine_create jh heap_ok is_sparse code_bytes cache_blocks w h =
     (if is_sparse then Inl SparseMemory
      else if code_bytes < X86P_JIT_MIN_BLOCK_BYTES then Inl RegionTooSmall
      else if \<not> heap_ok then Inl OutOfMemory
      else
        case x86p_jit_storage_create (jh_code jh) True code_bytes h of
          (None, h) \<Rightarrow> Inl CodeMemoryRefused
        | (Some st, h) \<Rightarrow>
            (case bc_create (jh_cache jh) cache_blocks of
               None \<Rightarrow> Inl NoCache
             | Some cache \<Rightarrow>
                 let e = \<lparr>en_memory = h, en_storage = st, en_cache = cache, en_stats = (\<lambda>_. 0), en_intercept = None,
                          en_dispatch = None, en_boundary = None, en_leaf = None, en_leaf_sites = None,
                          en_cache_blocks = cache_blocks, en_run_stop = None, en_host_state = jh_host_state jh w,
                          en_links = None, en_chain_entry = jh_chain_entry_offset jh, en_cache_disabled = False,
                          en_profile = None, en_chain = None, en_last_entry = 0, en_watch = (\<lambda>_ _ _ _ w. w),
                          en_watch_addr = 0, en_watch_left = 0, en_translate_watch = None\<rparr> in
                 if jh_chain_slots_per_block jh = 0 then Inr e
                 else
                   case x86p_jit_chain_create True (cache_blocks * jh_chain_slots_per_block jh) of
                     None \<Rightarrow> Inl NoChain
                   | Some links \<Rightarrow>
                       Inr (e\<lparr>en_links := Some (x86p_jit_chain_set_front (bc_front (jh_cache jh) cache) links)\<rparr>)))"

section \<open>Dropping translations\<close>

definition unlink_all :: "('c, 'm, 'w) engine \<Rightarrow> ('c, 'm, 'w) engine" where
  "unlink_all e = e\<lparr>en_links := map_option x86p_jit_chain_unlink_all (en_links e)\<rparr>"

definition drop_range ::
  "('c, 'm, 'w) jit_host \<Rightarrow> u32 \<Rightarrow> u32 \<Rightarrow> ('c, 'm, 'w) engine \<Rightarrow> nat \<times> ('c, 'm, 'w) engine" where
  "drop_range jh lo hi e =
     (let (dropped, cache) = bc_invalidate_range (jh_cache jh) (en_cache e) lo hi;
          e = e\<lparr>en_cache := cache, en_storage := x86p_jit_storage_invalidate lo hi (en_storage e)\<rparr>
      in (dropped, if dropped \<noteq> 0 then unlink_all e else e))"

definition x86p_jit_engine_invalidate ::
  "('c, 'm, 'w) jit_host \<Rightarrow> u32 \<Rightarrow> u32 \<Rightarrow> ('c, 'm, 'w) engine \<Rightarrow> ('c, 'm, 'w) engine" where
  "x86p_jit_engine_invalidate jh lo hi e =
     (let e = add_stats [(Invalidations, 1), (InvalidationBytes, ucast (hi - lo))] e;
          (dropped, e) = drop_range jh lo hi e
      in add_stats [(InvalidationBlocksDropped, of_nat dropped)] e)"

definition x86p_jit_engine_invalidate_all ::
  "('c, 'm, 'w) jit_host \<Rightarrow> ('c, 'm, 'w) engine \<Rightarrow> bool \<times> ('c, 'm, 'w) engine" where
  "x86p_jit_engine_invalidate_all jh e =
     (let e = e\<lparr>en_cache := bc_flush (jh_cache jh) (en_cache e),
                en_links := map_option x86p_jit_chain_reset (en_links e),
                en_leaf_sites := map_option x86p_jit_leaf_sites_reset (en_leaf_sites e)\<rparr> in
      if bc_count (jh_cache jh) (en_cache e) \<noteq> 0 then (False, e)
      else (True, add_stats [(CacheFlushes, 1)] (e\<lparr>en_storage := x86p_jit_storage_reset (en_storage e)\<rparr>)))"

definition forget_evicted ::
  "('c, 'm, 'w) jit_host \<Rightarrow> u32 \<times> u32 \<Rightarrow> ('c, 'm, 'w) engine \<Rightarrow> ('c, 'm, 'w) engine" where
  "forget_evicted jh rng e =
     (let (dropped, cache) = bc_invalidate_range (jh_cache jh) (en_cache e) (fst rng) (snd rng)
      in unlink_all (add_stats [(EvictionBlocksDropped, of_nat dropped)] (e\<lparr>en_cache := cache\<rparr>)))"

text \<open>The loop that makes room; it is not structural, and \<open>None\<close> would be a loop that never ends.\<close>

definition evicted_stat :: "storage_room \<Rightarrow> stat" where
  "evicted_stat room =
     (case room of
        kX86pJitStorageOutOfBytes \<Rightarrow> EvictionsOutOfBytes
      | kX86pJitStorageOutOfSlots \<Rightarrow> EvictionsOutOfSlots
      | _ \<Rightarrow> EvictionsAtEngineLimit)"

definition room_turn ::
  "('c, 'm, 'w) jit_host \<Rightarrow> ('c, 'm, 'w) engine \<Rightarrow> (bool \<times> ('c, 'm, 'w) engine) + ('c, 'm, 'w) engine" where
  "room_turn jh e =
     (let room = x86p_jit_storage_room (en_storage e) in
      if room = kX86pJitStorageRoom then Inl (True, e)
      else
        let used_before = x86p_jit_storage_used (en_storage e);
            (n, ranges, st) = x86p_jit_storage_evict (en_storage e);
            e = fold (forget_evicted jh) ranges (e\<lparr>en_storage := st\<rparr>);
            e = (if n > 0 then add_stats [(Evictions, 1), (evicted_stat room, 1)] e else e) in
        if n > 0 \<and> x86p_jit_storage_used (en_storage e) < used_before then Inr e
        else
          case x86p_jit_engine_invalidate_all jh e of
            (False, e) \<Rightarrow> Inl (False, e)
          | (True, e) \<Rightarrow> Inr e)"

partial_function (option) room_loop ::
  "('c, 'm, 'w) jit_host \<Rightarrow> ('c, 'm, 'w) engine \<Rightarrow> (bool \<times> ('c, 'm, 'w) engine) option" where
  "room_loop jh e = (case room_turn jh e of Inl r \<Rightarrow> Some r | Inr e \<Rightarrow> room_loop jh e)"

declare room_loop.simps [code]

definition evict_for_room ::
  "('c, 'm, 'w) jit_host \<Rightarrow> ('c, 'm, 'w) engine \<Rightarrow> (bool \<times> ('c, 'm, 'w) engine) option" where
  "evict_for_room jh e =
     (case en_links e of
        None \<Rightarrow> room_loop jh e
      | Some links \<Rightarrow>
          if ch_claimed links + jh_chain_slots_per_block jh > ch_capacity links then
            (case x86p_jit_engine_invalidate_all jh e of
               (False, e) \<Rightarrow> Some (False, e)
             | (True, e) \<Rightarrow> room_loop jh e)
          else room_loop jh e)"


section \<open>Reporting\<close>

definition x86p_jit_engine_stats :: "('c, 'm, 'w) jit_host \<Rightarrow> ('c, 'm, 'w) engine \<Rightarrow> stats" where
  "x86p_jit_engine_stats jh e =
     (let st = en_storage e; c = bc_stats (jh_cache jh) (en_cache e);
          s = (en_stats e)
            (CodeBytesUsed := of_nat (x86p_jit_storage_used st), CodeChunks := of_nat (x86p_jit_storage_chunks st),
             Compactions := ucast (x86p_jit_storage_compactions st),
             CompactionRefusals := ucast (x86p_jit_storage_compaction_refusals st),
             ChainExitsDirect := x86p_jit_storage_direct_exits st,
             CompactionPending := ucast (x86p_jit_storage_compaction_pending st),
             CompactionStopped := (if x86p_jit_storage_compaction_stopped st then 1 else 0),
             CodeBytesLimit := of_nat (st_capacity st), BlockRecords := ucast (x86p_jit_storage_block_records st),
             CeilingsLearned := ucast (x86p_jit_storage_ceilings_learned st),
             CeilingsRetired := ucast (x86p_jit_storage_ceilings_retired st));
          s = (case en_leaf_sites e of
                 None \<Rightarrow> s(LeafSiteFills := 0, LeafSiteLeafFills := 0, LeafSitesExhausted := 0, LeafSitesRefused := 0)
               | Some l \<Rightarrow>
                   s(LeafSiteFills := lf_fills l, LeafSiteLeafFills := lf_leaf_fills l,
                     LeafSitesExhausted := lf_exhausted l, LeafSitesRefused := lf_refused l))
      in s(CacheLookups := cc_lookups c, CacheHits := cc_hits c, CacheFrontHits := cc_front_hits c,
           CacheTableProbes := cc_probe_length_total c, CacheRefused := cc_refused c))"

definition x86p_jit_engine_last_block_entry :: "('c, 'm, 'w) engine \<Rightarrow> u32" where
  "x86p_jit_engine_last_block_entry e = en_last_entry e"

section \<open>Configuration\<close>

definition x86p_jit_engine_set_intercept ::
  "('w \<Rightarrow> cpu \<Rightarrow> bool \<times> 'w \<times> event list) option \<Rightarrow> ('c, 'm, 'w) engine \<Rightarrow> ('c, 'm, 'w) engine" where
  "x86p_jit_engine_set_intercept fn e = e\<lparr>en_intercept := fn\<rparr>"

definition x86p_jit_engine_set_dispatch ::
  "('w \<Rightarrow> cpu \<Rightarrow> bool \<times> cpu \<times> 'w \<times> event list) option \<Rightarrow> ('c, 'm, 'w) engine \<Rightarrow> ('c, 'm, 'w) engine" where
  "x86p_jit_engine_set_dispatch fn e = e\<lparr>en_dispatch := fn\<rparr>"

definition x86p_jit_engine_set_run_stop ::
  "('c, 'm, 'w) jit_host \<Rightarrow> ('w \<Rightarrow> u32) option \<Rightarrow> ('c, 'm, 'w) engine \<Rightarrow> bool \<times> ('c, 'm, 'w) engine" where
  "x86p_jit_engine_set_run_stop jh fn e =
     (if fn \<noteq> None \<and> en_intercept e \<noteq> None \<and> en_boundary e = None then (False, e)
      else if fn \<noteq> None \<and> bc_count (jh_cache jh) (en_cache e) \<noteq> 0 then (False, e)
      else (True, e\<lparr>en_run_stop := fn\<rparr>))"

definition x86p_jit_engine_set_boundary :: "(u32 \<Rightarrow> bool) option \<Rightarrow> ('c, 'm, 'w) engine \<Rightarrow> ('c, 'm, 'w) engine" where
  "x86p_jit_engine_set_boundary fn e = e\<lparr>en_boundary := fn\<rparr>"

definition x86p_jit_engine_set_leaves ::
  "('c, 'm, 'w) jit_host \<Rightarrow> bool \<Rightarrow> (u32 \<Rightarrow> u64) option \<Rightarrow> ('c, 'm, 'w) engine \<Rightarrow> bool \<times> ('c, 'm, 'w) engine" where
  "x86p_jit_engine_set_leaves jh heap_ok fn e =
     (if bc_count (jh_cache jh) (en_cache e) \<noteq> 0 then (False, e)
      else
        case fn of
          None \<Rightarrow> (True, e\<lparr>en_leaf_sites := None, en_leaf := None\<rparr>)
        | Some _ \<Rightarrow>
            (case x86p_jit_leaf_sites_create heap_ok (en_cache_blocks e * 2) fn of
               None \<Rightarrow> (False, e)
             | Some sites \<Rightarrow> (True, e\<lparr>en_leaf_sites := Some sites, en_leaf := fn\<rparr>)))"

definition x86p_jit_engine_set_cache :: "bool \<Rightarrow> ('c, 'm, 'w) engine \<Rightarrow> ('c, 'm, 'w) engine" where
  "x86p_jit_engine_set_cache enabled e = e\<lparr>en_cache_disabled := \<not> enabled\<rparr>"

definition x86p_jit_engine_set_profile ::
  "bool \<Rightarrow> bool \<Rightarrow> u32 \<Rightarrow> ('c, 'm, 'w) engine \<Rightarrow> bool \<times> ('c, 'm, 'w) engine" where
  "x86p_jit_engine_set_profile heap_ok enabled slot_hint e =
     (if \<not> enabled then (True, e\<lparr>en_profile := None\<rparr>)
      else case en_profile e of
          Some _ \<Rightarrow> (True, e)
        | None \<Rightarrow>
            (case x86p_jit_profile_create heap_ok slot_hint of
               None \<Rightarrow> (False, e)
             | Some p \<Rightarrow> (True, e\<lparr>en_profile := Some p\<rparr>)))"

definition x86p_jit_engine_set_chain_census ::
  "bool \<Rightarrow> bool \<Rightarrow> u32 \<Rightarrow> ('c, 'm, 'w) engine \<Rightarrow> bool \<times> ('c, 'm, 'w) engine" where
  "x86p_jit_engine_set_chain_census heap_ok enabled slot_hint e =
     (if \<not> enabled then (True, e\<lparr>en_chain := None\<rparr>)
      else case en_chain e of
          Some _ \<Rightarrow> (True, e)
        | None \<Rightarrow>
            (case x86p_jit_chain_census_create heap_ok slot_hint of
               None \<Rightarrow> (False, e)
             | Some c \<Rightarrow> (True, e\<lparr>en_chain := Some c\<rparr>)))"

definition x86p_jit_engine_set_translate_watch ::
  "(u32 \<Rightarrow> u64 \<Rightarrow> nat \<Rightarrow> 'w \<Rightarrow> 'w) option \<Rightarrow> ('c, 'm, 'w) engine \<Rightarrow> ('c, 'm, 'w) engine" where
  "x86p_jit_engine_set_translate_watch fn e = e\<lparr>en_translate_watch := fn\<rparr>"

text \<open>A null callback is the function that changes nothing, which is never asked with a count of zero.\<close>

definition x86p_jit_engine_set_entry_watch ::
  "u32 \<Rightarrow> u64 \<Rightarrow> (u32 \<Rightarrow> u32 \<Rightarrow> bool \<Rightarrow> cpu \<Rightarrow> 'w \<Rightarrow> 'w) option \<Rightarrow> ('c, 'm, 'w) engine \<Rightarrow> ('c, 'm, 'w) engine" where
  "x86p_jit_engine_set_entry_watch guest_addr reports fn e =
     (case fn of
        None \<Rightarrow> e\<lparr>en_watch_left := 0, en_watch := (\<lambda>_ _ _ _ w. w)\<rparr>
      | Some f \<Rightarrow>
          if reports = 0 then e\<lparr>en_watch_left := 0, en_watch := (\<lambda>_ _ _ _ w. w)\<rparr>
          else e\<lparr>en_watch := f, en_watch_addr := guest_addr, en_watch_left := reports\<rparr>)"

section \<open>Translation on demand\<close>

definition block_stats :: "jit_block \<Rightarrow> (stat \<times> u64) list" where
  "block_stats b =
     [(BlocksTranslated, 1), (GuestInsnsTranslated, ucast (jb_insns b)), (CondsTranslated, ucast (jb_conds b)),
      (CondsInline, ucast (jb_cond_inline b)), (CondsUnknownKind, ucast (jb_cond_unknown_kind b)),
      (X87LoadsTranslated, ucast (jb_x87_loads b)), (X87LoadsInline, ucast (jb_x87_loads_inline b)),
      (X87StoresTranslated, ucast (jb_x87_stores b)), (X87StoresInline, ucast (jb_x87_stores_inline b)),
      (X87ComparesTranslated, ucast (jb_x87_compares b)), (X87ComparesInline, ucast (jb_x87_compares_inline b)),
      (SimdTranslated, ucast (jb_simd_ops b)), (SimdInline, ucast (jb_simd_inline b)), (Exits, ucast (jb_exits b)),
      (ExitsStatic, ucast (jb_exits_static b)), (ExitsBackward, ucast (jb_exits_backward b)),
      (ExitsSelf, ucast (jb_exits_self b)), (ChainExits, ucast (jb_chain_exits b)),
      (ChainExitsUnslotted, ucast (jb_chain_exits_unslotted b)), (LeafCalls, ucast (jb_leaf_calls b)),
      (LeafSites, ucast (jb_leaf_sites b))]"

definition no_block :: jit_block where
  "no_block =
     \<lparr>jb_entry = 0, jb_guest_eip = 0, jb_guest_len = 0, jb_insns = 0, jb_host_bytes = 0, jb_ends_in_branch = False,
      jb_stopper = None, jb_flag_helper_calls = 0, jb_conds = 0, jb_cond_helper_calls = 0, jb_cond_inline = 0,
      jb_cond_proven = 0, jb_cond_unknown_kind = 0, jb_x87_loads = 0, jb_x87_loads_inline = 0, jb_x87_stores = 0,
      jb_x87_stores_inline = 0, jb_x87_compares = 0, jb_x87_compares_inline = 0, jb_simd_ops = 0,
      jb_simd_inline = 0, jb_exits = 0, jb_exits_static = 0, jb_static_targets = [],
      jb_static_targets_overflowed = 0, jb_exits_backward = 0, jb_exits_loop = 0, jb_exits_self = 0,
      jb_host_state = 0, jb_chain_exits = 0, jb_chain_exits_unslotted = 0, jb_chain_exits_direct = 0,
      jb_chain_first_slot = 0, jb_leaf_calls = 0, jb_leaf_sites = 0, jb_leaf_site = None\<rparr>"

text \<open>What happens to a translation once the storage has published it.\<close>

definition record_block ::
  "('c, 'm, 'w) jit_host \<Rightarrow> u32 \<Rightarrow> jit_block \<Rightarrow> ('c, 'm, 'w) engine \<Rightarrow> 'w \<Rightarrow>
     (jit_status \<times> u64 \<times> ('c, 'm, 'w) engine \<times> 'w) option" where
  "record_block jh eip blk e w =
     (let (inserted, cache) = bc_insert (jh_cache jh) (en_cache e) eip (jb_entry blk) (jb_guest_len blk);
          e = e\<lparr>en_cache := cache\<rparr> in
      if \<not> inserted then
        (case x86p_jit_engine_invalidate_all jh e of
           (False, e) \<Rightarrow> Some (kX86pJitOutOfSpace, 0, e, w)
         | (True, e) \<Rightarrow> Some (kX86pJitOk, 0, e, w))
      else do {
        let e = (if en_run_stop e \<noteq> None \<and> (case en_boundary e of None \<Rightarrow> False | Some f \<Rightarrow> f eip)
                 then add_stats [(BlocksGuarded, 1)] (e\<lparr>en_cache := bc_guard (jh_cache jh) (en_cache e) eip\<rparr>) else e);
        let w = (case en_translate_watch e of None \<Rightarrow> w | Some f \<Rightarrow> f eip (jb_entry blk) (jb_host_bytes blk) w);
        let e = add_stats (block_stats blk) e;
        chain \<leftarrow> (case en_chain e of
                    None \<Rightarrow> Some None
                  | Some c \<Rightarrow>
                      map_option Some (x86p_jit_chain_census_note_block eip (jb_static_targets blk)
                        (jb_static_targets_overflowed blk) c));
        Some (kX86pJitOk, jb_entry blk, e\<lparr>en_chain := chain\<rparr>, w)
      })"

definition translate_at ::
  "('c, 'm, 'w) jit_host \<Rightarrow> u32 \<Rightarrow> ('c, 'm, 'w) engine \<Rightarrow> 'w \<Rightarrow> (jit_status \<times> u64 \<times> ('c, 'm, 'w) engine \<times> 'w) option" where
  "translate_at jh eip e w = do {
     (roomy, e) \<leftarrow> evict_for_room jh e;
     if \<not> roomy then Some (kX86pJitOutOfSpace, 0, e, w)
     else
       let claimed = (case en_links e of None \<Rightarrow> 0 | Some c \<Rightarrow> ch_claimed c);
           sites_claimed = x86p_jit_leaf_sites_mark (en_leaf_sites e);
           env = \<lparr>te_boundary = en_boundary e, te_leaf = en_leaf e\<rparr>;
           (st, blk, h, storage, links, sites) =
             x86p_jit_storage_translate (jh_code jh) (jh_translate jh) w eip env no_block (en_memory e)
               (en_storage e) (en_links e) (en_leaf_sites e);
           e = e\<lparr>en_memory := h, en_storage := storage, en_links := links, en_leaf_sites := sites\<rparr> in
       if st \<noteq> kX86pJitOk then
         Some (st, 0, e\<lparr>en_links := map_option (x86p_jit_chain_rewind claimed) (en_links e),
                 en_leaf_sites := map_option (x86p_jit_leaf_sites_rewind sites_claimed) (en_leaf_sites e)\<rparr>, w)
       else record_block jh eip blk e w
   }"

section \<open>Running\<close>

definition apply_event :: "('c, 'm, 'w) jit_host \<Rightarrow> event \<Rightarrow> ('c, 'm, 'w) engine \<Rightarrow> ('c, 'm, 'w) engine" where
  "apply_event jh ev e =
     (case ev of
        Invalidate lo hi \<Rightarrow> x86p_jit_engine_invalidate jh lo hi e
      | InvalidateAll \<Rightarrow> snd (x86p_jit_engine_invalidate_all jh e)
      | LeafFill i target \<Rightarrow>
          e\<lparr>en_leaf_sites := map_option (\<lambda>s. snd (x86p_jit_leaf_site_fill i target s)) (en_leaf_sites e)\<rparr>)"

definition apply_events :: "('c, 'm, 'w) jit_host \<Rightarrow> event list \<Rightarrow> ('c, 'm, 'w) engine \<Rightarrow> ('c, 'm, 'w) engine" where
  "apply_events jh = fold (apply_event jh)"

record chain_pending =
  pd_slot :: u32
  pd_flushes :: u64

definition chained_transfers :: "chain_run \<Rightarrow> u64 \<Rightarrow> u64" where
  "chained_transfers run allowed = allowed - cr_budget run - (if cr_budget run = 0 then 1 else 0)"

definition link_pending ::
  "chain_pending \<Rightarrow> u32 \<Rightarrow> u64 \<Rightarrow> ('c, 'm, 'w) engine \<Rightarrow> ('c, 'm, 'w) engine" where
  "link_pending pending guest host e =
     (case en_links e of
        None \<Rightarrow> e
      | Some c \<Rightarrow>
          if pd_slot pending = 0 \<or> pd_flushes pending \<noteq> en_stats e CacheFlushes \<or> ch_claimed c < unat (pd_slot pending) then e
          else add_stats [(ChainLinks, 1)]
            (e\<lparr>en_links := Some (x86p_jit_chain_link (unat (pd_slot pending) - 1) guest (host + of_nat (en_chain_entry e)) c)\<rparr>))"

text \<open>The variables of the run loop, and those fixed for the run.\<close>

record ('c, 'm, 'w) run =
  rn_engine :: "('c, 'm, 'w) engine"
  rn_cpu :: cpu
  rn_world :: 'w
  rn_steps :: u64
  rn_retries :: u32
  rn_previous :: u32
  rn_have_previous :: bool
  rn_pending :: chain_pending

definition status_of_exit :: "jit_exit \<Rightarrow> run_status" where
  "status_of_exit x =
     (case x of
        kX86pJitExitMemoryFault \<Rightarrow> kX86pRunMemoryFault
      | kX86pJitExitUnsupported \<Rightarrow> kX86pRunUnsupported
      | kX86pJitExitDivideError \<Rightarrow> kX86pRunDivideError
      | kX86pJitExitInterrupt \<Rightarrow> kX86pRunInterrupt
      | kX86pJitExitProtectionFault \<Rightarrow> kX86pRunProtectionFault
      | kX86pJitExitBoundRange \<Rightarrow> kX86pRunBoundRange
      | _ \<Rightarrow> kX86pRunTranslateFailed)"

text \<open>A turn of the loop either returns, goes round again, or goes on to enter a block.\<close>

datatype flow = Return run_status | Continue | Enter u64

text \<open>The block the fast path finds under the intercept contract, and the link it completes.\<close>

definition fast_path ::
  "('c, 'm, 'w) jit_host \<Rightarrow> bool \<Rightarrow> bool \<Rightarrow> u32 \<Rightarrow> ('c, 'm, 'w) run \<Rightarrow> u64 \<times> ('c, 'm, 'w) run" where
  "fast_path jh contract linking stop r =
     (let e = rn_engine r; eip = c_eip (rn_cpu r);
          (host, e) = (if contract \<and> eip \<noteq> stop
                       then (let (host, cache) = bc_lookup_refusing (jh_cache jh) (en_cache e) eip in (host, e\<lparr>en_cache := cache\<rparr>))
                       else (0, e));
          e = (if linking \<and> host \<noteq> 0 then link_pending (rn_pending r) eip host e else e)
      in (host, r\<lparr>rn_engine := e, rn_pending := (rn_pending r)\<lparr>pd_slot := 0\<rparr>\<rparr>))"

definition ask_intercept :: "('c, 'm, 'w) jit_host \<Rightarrow> ('c, 'm, 'w) run \<Rightarrow> flow \<times> ('c, 'm, 'w) run" where
  "ask_intercept jh r =
     (case en_intercept (rn_engine r) of
        None \<Rightarrow> (Enter 0, r)
      | Some f \<Rightarrow>
          let e = add_stats [(InterceptCalls, 1)] (rn_engine r);
              (taken, w, evs) = f (rn_world r) (rn_cpu r);
              r = r\<lparr>rn_engine := apply_events jh evs e, rn_world := w\<rparr> in
          if \<not> taken then (Enter 0, r)
          else
            case en_dispatch (rn_engine r) of
              None \<Rightarrow> (Return kX86pRunIntercept, r)
            | Some d \<Rightarrow>
                let (continue, cpu, w, evs) = d (rn_world r) (rn_cpu r);
                    r = r\<lparr>rn_engine := apply_events jh evs (rn_engine r), rn_cpu := cpu, rn_world := w\<rparr>
                in if continue then (Continue, r\<lparr>rn_steps := rn_steps r + 1\<rparr>) else (Return kX86pRunIntercept, r))"

definition look_up :: "('c, 'm, 'w) jit_host \<Rightarrow> ('c, 'm, 'w) run \<Rightarrow> u64 \<times> ('c, 'm, 'w) run" where
  "look_up jh r =
     (let e = rn_engine r in
      if en_cache_disabled e then (0, r)
      else
        let (host, cache) = bc_lookup (jh_cache jh) (en_cache e) (c_eip (rn_cpu r))
        in (host, r\<lparr>rn_engine := e\<lparr>en_cache := cache\<rparr>\<rparr>))"

definition retry :: "('c, 'm, 'w) run \<Rightarrow> flow \<times> ('c, 'm, 'w) run" where
  "retry r =
     (let r = r\<lparr>rn_retries := rn_retries r + 1\<rparr>
      in (if rn_retries r \<le> 1 then Continue else Return kX86pRunOutOfCode, r))"

definition translate_now ::
  "('c, 'm, 'w) jit_host \<Rightarrow> ('c, 'm, 'w) run \<Rightarrow> (flow \<times> ('c, 'm, 'w) run) option" where
  "translate_now jh r = do {
     (st, host, e, w) \<leftarrow> translate_at jh (c_eip (rn_cpu r)) (rn_engine r) (rn_world r);
     let r = r\<lparr>rn_engine := e, rn_world := w\<rparr>;
     Some
       (if host \<noteq> 0 then (Enter host, r)
        else case st of
            kX86pJitOutOfSpace \<Rightarrow> retry r
          | kX86pJitOk \<Rightarrow> retry r
          | kX86pJitUnsupportedAtEntry \<Rightarrow>
              (Return kX86pRunUnsupported, r\<lparr>rn_engine := add_stats [(TranslateRefusals, 1)] e\<rparr>)
          | kX86pJitFetchFault \<Rightarrow> (Return kX86pRunFetchFault, r)
          | kX86pJitDecodeFailed \<Rightarrow> (Return kX86pRunDecodeFailed, r))
   }"

definition find_host ::
  "('c, 'm, 'w) jit_host \<Rightarrow> bool \<Rightarrow> bool \<Rightarrow> u32 \<Rightarrow> ('c, 'm, 'w) run \<Rightarrow> (flow \<times> ('c, 'm, 'w) run) option" where
  "find_host jh contract linking stop r =
     (let (host, r) = fast_path jh contract linking stop r in
      if host \<noteq> 0 then Some (Enter host, r)
      else
        case ask_intercept jh r of
          (Enter _, r) \<Rightarrow>
            let (host, r) = look_up jh r in
            if host \<noteq> 0 then Some (Enter host, r) else translate_now jh r
        | (f, r) \<Rightarrow> Some (f, r))"

definition entry_watch :: "('c, 'm, 'w) run \<Rightarrow> ('c, 'm, 'w) run" where
  "entry_watch r =
     (let e = rn_engine r; eip = c_eip (rn_cpu r); entered = en_stats e BlocksEntered \<noteq> 0 in
      if en_watch_left e \<noteq> 0 \<and> eip = en_watch_addr e
      then r\<lparr>rn_engine := e\<lparr>en_watch_left := en_watch_left e - 1\<rparr>,
             rn_world := en_watch e eip (if entered then en_last_entry e else 0) entered (rn_cpu r) (rn_world r)\<rparr>
      else r)"

definition transfers_allowed :: "('c, 'm, 'w) jit_host \<Rightarrow> bool \<Rightarrow> u64 \<Rightarrow> ('c, 'm, 'w) run \<Rightarrow> u64" where
  "transfers_allowed jh linking max_steps r =
     (let left = max_steps - rn_steps r; limit = jh_chain_transfer_limit jh
      in if linking then (if left < limit then left else limit) else 1)"

text \<open>The call of the block at \<open>host\<close>: the header written before it and read after it.\<close>

definition call_block ::
  "('c, 'm, 'w) jit_host \<Rightarrow> bool \<Rightarrow> u32 \<Rightarrow> u64 \<Rightarrow> u64 \<Rightarrow> ('c, 'm, 'w) run \<Rightarrow> jit_exit \<times> u64 \<times> ('c, 'm, 'w) run" where
  "call_block jh linking stop max_steps host r =
     (let e = rn_engine r; before_eip = c_eip (rn_cpu r);
          allowed = transfers_allowed jh linking max_steps r;
          links = map_option (\<lambda>c. c\<lparr>ch_run := \<lparr>cr_budget = allowed, cr_stop = stop, cr_last = before_eip, cr_pending = 0\<rparr>\<rparr>) (en_links e);
          res = jh_call jh host (rn_world r) (rn_cpu r) (en_cache e) links (en_leaf_sites e);
          e = apply_events jh (cl_events res) (e\<lparr>en_links := links\<rparr>);
          e = e\<lparr>en_links := map_option (\<lambda>c. c\<lparr>ch_run := cl_run res\<rparr>) (en_links e)\<rparr>;
          transfers = (case en_links e of None \<Rightarrow> 0 | Some c \<Rightarrow> chained_transfers (ch_run c) allowed);
          e = (if en_stats e BlocksEntered \<noteq> 0 \<and> before_eip = en_last_entry e
               then add_stats [(BlocksReentered, 1)] e else e);
          e = e\<lparr>en_last_entry := (if transfers \<noteq> 0 then cr_last (cl_run res) else before_eip)\<rparr>;
          e = add_stats [(BlocksEntered, 1 + transfers), (BlocksChained, transfers)] e;
          pending = (if en_links e \<noteq> None \<and> cr_pending (cl_run res) \<noteq> 0
                     then \<lparr>pd_slot = cr_pending (cl_run res), pd_flushes = en_stats e CacheFlushes\<rparr> else rn_pending r)
      in (cl_exit res, transfers,
          r\<lparr>rn_engine := e, rn_cpu := cl_cpu res, rn_world := cl_world res, rn_pending := pending\<rparr>))"

definition note_entry :: "u32 \<Rightarrow> ('c, 'm, 'w) run \<Rightarrow> ('c, 'm, 'w) run option" where
  "note_entry before_eip r = do {
     let e = rn_engine r;
     profile \<leftarrow> (case en_profile e of None \<Rightarrow> Some None | Some p \<Rightarrow> map_option Some (x86p_jit_profile_hit before_eip p));
     (case en_chain e of
        None \<Rightarrow> Some (r\<lparr>rn_engine := e\<lparr>en_profile := profile\<rparr>\<rparr>)
      | Some c \<Rightarrow> do {
          c \<leftarrow> x86p_jit_chain_census_note_entry (rn_previous r) before_eip (rn_have_previous r) c;
          Some (r\<lparr>rn_engine := e\<lparr>en_profile := profile, en_chain := Some c\<rparr>, rn_previous := before_eip,
                  rn_have_previous := True\<rparr>)
        })
   }"

definition enter_block ::
  "('c, 'm, 'w) jit_host \<Rightarrow> bool \<Rightarrow> u32 \<Rightarrow> u64 \<Rightarrow> u64 \<Rightarrow> ('c, 'm, 'w) run \<Rightarrow> (flow \<times> ('c, 'm, 'w) run) option" where
  "enter_block jh linking stop max_steps host r =
     (let before_eip = c_eip (rn_cpu r);
          r = entry_watch (r\<lparr>rn_retries := 0\<rparr>);
          (exit, transfers, r) = call_block jh linking stop max_steps host r
      in do {
        r \<leftarrow> note_entry before_eip r;
        let r = r\<lparr>rn_steps := rn_steps r + (1 + transfers)\<rparr>;
        let (flushed, e) = (if en_cache_disabled (rn_engine r) then x86p_jit_engine_invalidate_all jh (rn_engine r)
                            else (True, rn_engine r));
        let r = r\<lparr>rn_engine := e\<rparr>;
        Some
          (if \<not> flushed then (Return kX86pRunOutOfCode, r)
           else if exit = kX86pJitExitBlockEnd then (Continue, r)
           else if exit = kX86pJitExitUnsupported
           then (Return kX86pRunUnsupported, r\<lparr>rn_engine := add_stats [(TranslateRefusals, 1)] e\<rparr>)
           else (Return (status_of_exit exit), r))
      })"

definition run_turn ::
  "('c, 'm, 'w) jit_host \<Rightarrow> bool \<Rightarrow> bool \<Rightarrow> u32 \<Rightarrow> u64 \<Rightarrow> ('c, 'm, 'w) run \<Rightarrow> (flow \<times> ('c, 'm, 'w) run) option" where
  "run_turn jh contract linking stop max_steps r = do {
     (f, r) \<leftarrow> find_host jh contract linking stop r;
     (case f of
        Enter host \<Rightarrow> enter_block jh linking stop max_steps host r
      | _ \<Rightarrow> Some (f, r))
   }"

partial_function (option) run_loop ::
  "('c, 'm, 'w) jit_host \<Rightarrow> bool \<Rightarrow> bool \<Rightarrow> u32 \<Rightarrow> u64 \<Rightarrow> ('c, 'm, 'w) run \<Rightarrow> (run_status \<times> ('c, 'm, 'w) run) option" where
  "run_loop jh contract linking stop max_steps r =
     (if rn_steps r < max_steps then do {
        (f, r) \<leftarrow> run_turn jh contract linking stop max_steps r;
        (case f of
           Return s \<Rightarrow> Some (s, r)
         | _ \<Rightarrow> run_loop jh contract linking stop max_steps r)
      }
      else Some (kX86pRunBudget, r))"

declare run_loop.simps [code]

definition x86p_jit_engine_run ::
  "('c, 'm, 'w) jit_host \<Rightarrow> ('c, 'm, 'w) engine \<Rightarrow> cpu \<Rightarrow> 'w \<Rightarrow> u64 \<Rightarrow> (run_status \<times> ('c, 'm, 'w) run) option" where
  "x86p_jit_engine_run jh e cpu w max_steps =
     (let state = jh_host_state jh w;
          (flushed, e) = (if state \<noteq> en_host_state e then x86p_jit_engine_invalidate_all jh e else (True, e));
          r = \<lparr>rn_engine = e, rn_cpu = cpu, rn_world = w, rn_steps = 0, rn_retries = 0, rn_previous = 0,
               rn_have_previous = False, rn_pending = \<lparr>pd_slot = 0, pd_flushes = 0\<rparr>\<rparr> in
      if \<not> flushed then Some (kX86pRunOutOfCode, r)
      else
        let e = e\<lparr>en_host_state := state\<rparr>;
            contract = (en_run_stop e \<noteq> None \<and> \<not> en_cache_disabled e);
            stop = (case en_run_stop e of Some f \<Rightarrow> if contract then f w else 0 | None \<Rightarrow> 0);
            linking = (contract \<and> en_links e \<noteq> None \<and> en_profile e = None \<and> en_chain e = None \<and> en_watch_left e = 0)
        in run_loop jh contract linking stop max_steps (r\<lparr>rn_engine := e\<rparr>))"

end
