(* ===== verification/X86_Jit_Probe_Properties.thy ===== *)
theory X86_Jit_Probe_Properties
  imports X86_Jit_Probe
begin

text \<open>
  What the open-addressed tables promise.  \<open>table_ok\<close> says that every key can be reached from its home
  slot over occupied slots only; a table with a free slot then answers every lookup, and a key put
  into the slot the lookup ends at can be reached in turn.  The locale \<open>keyed\<close> is the interface both
  tables share.  The last section counts: a histogram holds exactly the number of times each address
  was entered.
\<close>

section \<open>Sizes\<close>

lemma unat_pow2: "j < 32 \<Longrightarrow> unat (2 ^ j :: u32) = 2 ^ j"
proof -
  assume "j < 32"
  then have "take_bit 32 (2 ^ j :: nat) = 2 ^ j" by (intro take_bit_nat_eq_self power_strict_increasing) simp_all
  then have "unat (of_nat (2 ^ j) :: u32) = 2 ^ j" by (simp only: unsigned_of_nat len_num1 len_bit0) simp
  then show ?thesis by (simp only: of_nat_power of_nat_numeral)
qed

lemma round_up_loop_pow2:
  "j + n = 30 \<Longrightarrow> unat v \<le> 2 ^ 30 \<Longrightarrow> \<exists>k. j \<le> k \<and> k \<le> 30 \<and> round_up_loop n v (2 ^ j) = 2 ^ k \<and> unat v \<le> 2 ^ k"
proof (induction n arbitrary: j)
  case (Suc n)
  then have j: "j < 30" by simp
  have lt: "(2 ^ j :: u32) < v \<longleftrightarrow> 2 ^ j < unat v" "(2 ^ j :: u32) < 0x40000000"
    using j by (simp_all add: word_less_nat_alt unat_pow2) (simp add: power_strict_increasing [of j 30 "2::nat", simplified])
  show ?case
  proof (cases "2 ^ j < unat v")
    case True
    have "push_bit 1 (2 ^ j :: u32) = 2 ^ Suc j" by (simp add: push_bit_eq_mult)
    moreover obtain k where "Suc j \<le> k" "k \<le> 30" "round_up_loop n v (2 ^ Suc j) = 2 ^ k" "unat v \<le> 2 ^ k"
      using Suc.IH [of "Suc j"] Suc.prems by auto
    ultimately show ?thesis using True lt by (intro exI [of _ k]) (simp add: mult.commute)
  next
    case False
    then show ?thesis using lt j by (intro exI [of _ j]) auto
  qed
qed auto

lemma round_up_pow2_ok:
  assumes "unat v \<le> 2 ^ 30" "64 \<le> unat v"
  shows "\<exists>k. 6 \<le> k \<and> k \<le> 30 \<and> round_up_pow2 v = 2 ^ k \<and> unat v \<le> 2 ^ k"
proof -
  obtain k where k: "k \<le> 30" "round_up_pow2 v = 2 ^ k" "unat v \<le> 2 ^ k"
    using round_up_loop_pow2 [of 0 30 v] assms(1) by (auto simp: round_up_pow2_def)
  have "(2::nat) ^ 6 \<le> 2 ^ k" using k(3) assms(2) by simp
  then have "6 \<le> k" by (rule power_le_imp_le_exp [rotated]) simp
  then show ?thesis using k by blast
qed

section \<open>Probing\<close>

definition probe_ok :: "u32 list \<Rightarrow> u32 \<Rightarrow> bool" where
  "probe_ok keys m \<longleftrightarrow> (\<exists>k \<le> 31. length keys = 2 ^ k \<and> m = mask k)"

definition home :: "u32 list \<Rightarrow> u32 \<Rightarrow> nat" where
  "home keys k = unat (mix32 k) mod length keys"

abbreviation stops :: "u32 list \<Rightarrow> u32 \<Rightarrow> nat \<Rightarrow> bool" where
  "stops keys k j \<equiv> keys ! j = k \<or> keys ! j = PROF_EMPTY"

lemma unat_and_mask: "unat ((x :: u32) AND mask k) = unat x mod 2 ^ k"
proof -
  have "unat (take_bit k x) = take_bit k (unat x)" by (rule unsigned_take_bit_eq)
  then show ?thesis by (simp add: take_bit_eq_mask [symmetric] take_bit_eq_mod)
qed

lemma unat_Suc_mod: "k \<le> 32 \<Longrightarrow> unat (x + 1 :: u32) mod 2 ^ k = (unat x + 1) mod 2 ^ k"
proof -
  assume k: "k \<le> 32"
  have "unat (x + 1) = (unat x + 1) mod 2 ^ 32" by (simp add: unat_word_ariths)
  then show ?thesis using le_imp_power_dvd [OF k, of "2::nat"] by (simp add: mod_mod_cancel)
qed

lemma probe_walk:
  assumes "probe_ok keys m" and "unat i < length keys" and "stops keys k ((unat i + d) mod length keys)"
    and "\<forall>e < d. \<not> stops keys k ((unat i + e) mod length keys)" and "d \<le> n"
  shows "probe n keys m k i = Some ((unat i + d) mod length keys)"
  using assms
proof (induction d arbitrary: n i)
  case 0
  then show ?case by (simp add: probe.simps)
next
  case (Suc d)
  from Suc.prems(1) obtain b where b: "b \<le> 31" "length keys = 2 ^ b" "m = mask b" by (auto simp: probe_ok_def)
  let ?j = "(i + 1) AND m"
  have j: "unat ?j = (unat i + 1) mod length keys" using unat_Suc_mod [of b i] b by (simp add: unat_and_mask)
  have s: "(unat ?j + e) mod length keys = (unat i + Suc e) mod length keys" for e
    unfolding j by (simp add: mod_simps)
  have "\<not> stops keys k (unat i)" using Suc.prems(2) Suc.prems(4) by (auto dest!: spec [of _ 0])
  moreover obtain n' where "n = Suc n'" "d \<le> n'" using Suc.prems(5) by (cases n) auto
  moreover have "probe n' keys m k ?j = Some ((unat ?j + d) mod length keys)"
    if "d \<le> n'" for n'
  proof (rule Suc.IH [OF Suc.prems(1) _ _ _ that])
    show "unat ?j < length keys" unfolding j using b by simp
    show "stops keys k ((unat ?j + d) mod length keys)" unfolding s by (rule Suc.prems(3))
    show "\<forall>e < d. \<not> stops keys k ((unat ?j + e) mod length keys)" unfolding s using Suc.prems(4) by auto
  qed
  ultimately show ?case by (simp add: probe.simps [of "Suc _"] s)
qed

lemma home_word:
  assumes "probe_ok keys m"
  shows "unat (mix32 k AND m) = home keys k" "home keys k < length keys"
  using assms by (auto simp: probe_ok_def home_def unat_and_mask)

lemma reach_index:
  assumes "j < (l :: nat)" "h < l"
  shows "\<exists>d < l. (h + d) mod l = j"
proof (cases "h \<le> j")
  case True
  then show ?thesis using assms by (intro exI [of _ "j - h"]) auto
next
  case False
  then show ?thesis using assms by (intro exI [of _ "l - h + j"]) (auto simp: mod_if)
qed

text \<open>The lookup ends at the first slot, from the home slot on, that holds the key or is free.\<close>

lemma find_slot_first:
  assumes "probe_ok keys m" and "d < length keys" and "stops keys k ((home keys k + d) mod length keys)"
    and "\<forall>e < d. \<not> stops keys k ((home keys k + e) mod length keys)"
  shows "find_slot keys m k = Some ((home keys k + d) mod length keys)"
  using probe_walk [where keys = keys and m = m and i = "mix32 k AND m" and k = k and d = d and n = "length keys"] assms home_word [OF assms(1)]
  by (simp add: find_slot_def)

lemma first_stop:
  assumes "probe_ok keys m" and "j < length keys" and "stops keys k j"
  shows "\<exists>d < length keys. stops keys k ((home keys k + d) mod length keys) \<and>
    (\<forall>e < d. \<not> stops keys k ((home keys k + e) mod length keys))"
proof -
  let ?P = "\<lambda>d. stops keys k ((home keys k + d) mod length keys)"
  obtain d0 where d0: "d0 < length keys" "?P d0"
    using reach_index [OF assms(2) home_word(2) [OF assms(1), of k]] assms(3) by auto
  have "?P (Least ?P)" using d0(2) by (rule LeastI [of ?P])
  moreover have "Least ?P \<le> d0" using d0(2) by (rule Least_le [of ?P])
  ultimately have "Least ?P < length keys \<and> ?P (Least ?P) \<and> (\<forall>e < Least ?P. \<not> ?P e)"
    using d0(1) not_less_Least [of _ ?P] le_less_trans by blast
  then show ?thesis by (rule exI [of _ "Least ?P"])
qed

definition reachable :: "u32 list \<Rightarrow> nat \<Rightarrow> bool" where
  "reachable keys j \<longleftrightarrow> (\<exists>d < length keys. (home keys (keys ! j) + d) mod length keys = j \<and>
     (\<forall>e < d. \<not> stops keys (keys ! j) ((home keys (keys ! j) + e) mod length keys)))"

definition table_ok :: "u32 list \<Rightarrow> u32 \<Rightarrow> bool" where
  "table_ok keys m \<longleftrightarrow> probe_ok keys m \<and> (\<forall>j < length keys. keys ! j \<noteq> PROF_EMPTY \<longrightarrow> reachable keys j)"

lemma find_slot_held:
  assumes "table_ok keys m" and "j < length keys" and "keys ! j = k" and "k \<noteq> PROF_EMPTY"
  shows "find_slot keys m k = Some j"
  using assms find_slot_first [of keys m _ k] by (fastforce simp: table_ok_def reachable_def)

lemma find_slot_free:
  assumes "table_ok keys m" and "k \<notin> set keys" and "PROF_EMPTY \<in> set keys"
  shows "\<exists>j < length keys. find_slot keys m k = Some j \<and> keys ! j = PROF_EMPTY \<and> table_ok (keys[j := k]) m"
proof -
  have p: "probe_ok keys m" using assms(1) by (simp add: table_ok_def)
  obtain i where i: "i < length keys" "keys ! i = PROF_EMPTY" using assms(3) by (auto simp: in_set_conv_nth)
  obtain d where d: "d < length keys" "stops keys k ((home keys k + d) mod length keys)"
      "\<forall>e < d. \<not> stops keys k ((home keys k + e) mod length keys)"
    using first_stop [OF p i(1)] i(2) by auto
  let ?j = "(home keys k + d) mod length keys"
  have j: "?j < length keys" using i(1) by (intro mod_less_divisor) linarith
  then have "keys ! ?j \<in> set keys" by (rule nth_mem)
  then have "keys ! ?j \<noteq> k" using assms(2) by metis
  with d(2) have e: "keys ! ?j = PROF_EMPTY" by metis
  let ?ks = "keys[?j := k]"
  have h: "home ?ks x = home keys x" for x by (simp add: home_def)
  have "reachable ?ks a" if a: "a < length ?ks" "?ks ! a \<noteq> PROF_EMPTY" for a
  proof (cases "a = ?j")
    case True
    have "\<not> stops ?ks k ((home keys k + b) mod length keys)" if "b < d" for b
      using d(3) that e by (cases "(home keys k + b) mod length keys = ?j") auto
    then show ?thesis using True d(1) j by (auto simp: reachable_def h intro!: exI [of _ d])
  next
    case False
    then have ka: "?ks ! a = keys ! a" by simp
    then obtain b where b: "b < length keys" "(home keys (keys ! a) + b) mod length keys = a"
        "\<forall>c < b. \<not> stops keys (keys ! a) ((home keys (keys ! a) + c) mod length keys)"
      using assms(1) a by (auto simp: table_ok_def reachable_def)
    have "keys ! a \<noteq> k" using assms(2) a by (auto simp: in_set_conv_nth)
    moreover have "\<not> stops ?ks (keys ! a) ((home keys (keys ! a) + c) mod length keys)" if "c < b" for c
    proof -
      have "(home keys (keys ! a) + c) mod length keys \<noteq> ?j" using b(3) that e by metis
      then have "?ks ! ((home keys (keys ! a) + c) mod length keys) = keys ! ((home keys (keys ! a) + c) mod length keys)"
        by (metis nth_list_update_neq)
      then show ?thesis using b(3) that by metis
    qed
    ultimately show ?thesis using b by (auto simp: reachable_def h ka intro!: exI [of _ b])
  qed
  then have "table_ok ?ks m" using p by (simp add: table_ok_def probe_ok_def)
  then show ?thesis using find_slot_first [OF p d(1,2,3)] j e by auto
qed

text \<open>How full a table is.\<close>

definition occupied :: "u32 list \<Rightarrow> nat" where
  "occupied keys = length (filter (\<lambda>k. k \<noteq> PROF_EMPTY) keys)"

lemma occupied_put:
  assumes "j < length keys" "keys ! j = PROF_EMPTY" "k \<noteq> PROF_EMPTY"
  shows "occupied (keys[j := k]) = Suc (occupied keys)"
  unfolding occupied_def upd_conv_take_nth_drop [OF assms(1)]
  by (subst (3) id_take_nth_drop [OF assms(1)]) (use assms in simp)

lemma occupied_free:
  assumes "occupied keys < length keys"
  shows "PROF_EMPTY \<in> set keys"
proof (rule ccontr)
  assume "PROF_EMPTY \<notin> set keys"
  then have "filter (\<lambda>k. k \<noteq> PROF_EMPTY) keys = keys" by (auto simp: filter_id_conv)
  then show False using assms by (simp add: occupied_def)
qed

lemma keys_distinct:
  assumes "table_ok keys m" "i < length keys" "j < length keys" "keys ! i = keys ! j" "keys ! i \<noteq> PROF_EMPTY"
  shows "i = j"
  using find_slot_held [OF assms(1,2) refl assms(5)] find_slot_held [OF assms(1,3) assms(4) [symmetric] assms(5)] by simp

lemma distinct_filter_nth:
  "(\<And>i j. i < length xs \<Longrightarrow> j < length xs \<Longrightarrow> xs ! i = xs ! j \<Longrightarrow> P (xs ! i) \<Longrightarrow> i = j) \<Longrightarrow> distinct (filter P xs)"
proof (induction xs)
  case (Cons x xs)
  have "distinct (filter P xs)" by (rule Cons.IH) (use Cons.prems [of "Suc _" "Suc _"] in simp)
  moreover have "x \<notin> set xs" if "P x" using Cons.prems [of 0 "Suc _"] that by (auto simp: in_set_conv_nth)
  ultimately show ?case by simp
qed simp

lemma occupied_card:
  assumes "table_ok keys m"
  shows "card (set keys - {PROF_EMPTY}) = occupied keys"
proof -
  have "distinct (filter (\<lambda>k. k \<noteq> PROF_EMPTY) keys)"
    by (rule distinct_filter_nth) (use keys_distinct [OF assms] in blast)
  then show ?thesis by (simp add: occupied_def distinct_card [symmetric] set_diff_eq)
qed

text \<open>
  The interface of the two tables: a lookup of any address ends, in the address's slot when the table
  holds it and otherwise in a free slot that can take it.
\<close>

locale keyed =
  fixes keys :: "'t \<Rightarrow> u32 list" and msk :: "'t \<Rightarrow> u32" and used :: "'t \<Rightarrow> u32" and cap :: "'t \<Rightarrow> u32"
    and ok :: "'t \<Rightarrow> bool"
  assumes table: "ok t \<Longrightarrow> table_ok (keys t) (msk t)"
    and counted: "ok t \<Longrightarrow> unat (used t) = occupied (keys t)"
    and half: "ok t \<Longrightarrow> used t \<le> cap t \<and> 2 * unat (cap t) \<le> length (keys t) \<and> 0 < cap t"
begin

lemma free_slot: "ok t \<Longrightarrow> PROF_EMPTY \<in> set (keys t)"
  using half [of t] counted [of t] by (intro occupied_free) (auto simp: word_le_nat_alt word_less_nat_alt)

lemma lookup:
  assumes "ok t" and "k \<noteq> PROF_EMPTY"
  obtains (held) j where "j < length (keys t)" "find_slot (keys t) (msk t) k = Some j" "keys t ! j = k"
  | (free) j where "j < length (keys t)" "find_slot (keys t) (msk t) k = Some j" "keys t ! j = PROF_EMPTY" "k \<notin> set (keys t)"
      "table_ok ((keys t)[j := k]) (msk t)" "occupied ((keys t)[j := k]) = Suc (occupied (keys t))"
proof (cases "k \<in> set (keys t)")
  case True
  then show ?thesis using held find_slot_held [OF table [OF assms(1)]] assms(2) by (auto simp: in_set_conv_nth)
next
  case False
  then show ?thesis using free find_slot_free [OF table [OF assms(1)] False free_slot [OF assms(1)]] occupied_put assms(2)
    by metis
qed

lemma holds_used: "ok t \<Longrightarrow> card (set (keys t) - {PROF_EMPTY}) = unat (used t)"
  by (simp add: occupied_card [OF table] counted)

end

section \<open>The histogram\<close>

definition profile_ok :: "profile \<Rightarrow> bool" where
  "profile_ok p \<longleftrightarrow> table_ok (pf_keys p) (pf_mask p) \<and> length (pf_counts p) = length (pf_keys p) \<and>
     unat (pf_distinct p) = occupied (pf_keys p) \<and> pf_distinct p \<le> pf_capacity p \<and> 0 < pf_capacity p \<and>
     2 * unat (pf_capacity p) \<le> length (pf_keys p)"

interpretation prof: keyed pf_keys pf_mask pf_distinct pf_capacity profile_ok
  by unfold_locales (auto simp: profile_ok_def)

text \<open>What the histogram says of an address.\<close>

definition profile_count :: "profile \<Rightarrow> u32 \<Rightarrow> u64 option" where
  "profile_count p e =
     (if e = PROF_EMPTY then None
      else case find_slot (pf_keys p) (pf_mask p) e of
          None \<Rightarrow> None
        | Some i \<Rightarrow> if pf_keys p ! i = e then Some (pf_counts p ! i) else None)"

lemma profile_count_held:
  "profile_ok p \<Longrightarrow> j < length (pf_keys p) \<Longrightarrow> pf_keys p ! j = e \<Longrightarrow> e \<noteq> PROF_EMPTY \<Longrightarrow>
     profile_count p e = Some (pf_counts p ! j)"
  using find_slot_held [OF prof.table] by (auto simp: profile_count_def)

lemma profile_count_free:
  assumes "profile_ok p" "e \<notin> set (pf_keys p)"
  shows "profile_count p e = None"
proof (cases "e = PROF_EMPTY")
  case False
  from prof.lookup [OF assms(1) False] show ?thesis
    by cases (use assms(2) nth_mem in \<open>auto simp: profile_count_def\<close>)
qed (simp add: profile_count_def)

lemma profile_count_keys:
  assumes "profile_ok p"
  shows "profile_count p e \<noteq> None \<longleftrightarrow> e \<in> set (pf_keys p) - {PROF_EMPTY}"
proof (cases "e \<noteq> PROF_EMPTY \<and> e \<in> set (pf_keys p)")
  case True
  then obtain j where "j < length (pf_keys p)" "pf_keys p ! j = e" by (auto simp: in_set_conv_nth)
  then show ?thesis using profile_count_held [OF assms] True by simp
next
  case False
  then show ?thesis using profile_count_free [OF assms, of e] by (auto simp: profile_count_def)
qed

text \<open>One entry: the table stays well formed, and only the entered address counts one more, unless it is dropped.\<close>

definition hit_count :: "profile \<Rightarrow> u32 \<Rightarrow> u64 option" where
  "hit_count p e =
     (case profile_count p e of
        Some c \<Rightarrow> Some (if c = -1 then c else c + 1)
      | None \<Rightarrow> if e = PROF_EMPTY \<or> pf_capacity p \<le> pf_distinct p then None else Some 1)"

lemma hit_spec:
  assumes "profile_ok p"
  shows "\<exists>q. x86p_jit_profile_hit e p = Some q \<and> profile_ok q \<and> pf_capacity q = pf_capacity p \<and>
     pf_total q = pf_total p + 1 \<and> profile_count q = (profile_count p)(e := hit_count p e) \<and>
     pf_dropped q = pf_dropped p + (if hit_count p e = None then 1 else 0)"
proof (cases "e = PROF_EMPTY")
  case True
  then show ?thesis using assms
    by (auto simp: x86p_jit_profile_hit_def profile_ok_def profile_count_def hit_count_def fun_eq_iff split: option.split)
next
  case False
  note ok = assms [unfolded profile_ok_def]
  show ?thesis
  proof (cases rule: prof.lookup [OF assms False, case_names held free])
    case (held j)
    let ?q = "p\<lparr>pf_total := pf_total p + 1,
      pf_counts := (pf_counts p)[j := (if pf_counts p ! j = -1 then -1 else pf_counts p ! j + 1)]\<rparr>"
    have c: "profile_count p e = Some (pf_counts p ! j)" using profile_count_held [OF assms held(1,3) False] .
    have q: "profile_ok ?q" using ok by (simp add: profile_ok_def)
    have "profile_count ?q f = ((profile_count p)(e := hit_count p e)) f" for f
    proof (cases "f = e")
      case True
      then show ?thesis using held ok c False by (auto simp: profile_count_def hit_count_def)
    next
      case neq: False
      show ?thesis
        using neq held(2,3) by (auto simp: profile_count_def split: option.splits) (metis nth_list_update_neq)+
    qed
    moreover have "pf_counts p ! j = -1 \<Longrightarrow> (pf_counts p)[j := -1] = pf_counts p" by (metis list_update_id)
    then have "x86p_jit_profile_hit e p = Some ?q"
      using False held by (cases p) (auto simp: x86p_jit_profile_hit_def)
    ultimately show ?thesis using q c by (intro exI [of _ ?q]) (auto simp: hit_count_def)
  next
    case (free j)
    have c: "profile_count p e = None" using profile_count_free [OF assms free(4)] .
    show ?thesis
    proof (cases "pf_capacity p \<le> pf_distinct p")
      case True
      then show ?thesis using c free False assms
        by (auto simp: x86p_jit_profile_hit_def hit_count_def profile_ok_def profile_count_def fun_eq_iff split: option.splits)
    next
      case room: False
      let ?q = "p\<lparr>pf_total := pf_total p + 1, pf_keys := (pf_keys p)[j := e], pf_counts := (pf_counts p)[j := 1],
        pf_distinct := pf_distinct p + 1\<rparr>"
      have d: "unat (pf_distinct p + 1) = unat (pf_distinct p) + 1"
        using room unat_lt32 [of "pf_capacity p"] by (simp add: unat_plus_if_size word_size word_le_nat_alt)
      have q: "profile_ok ?q" using ok free(5,6) room d by (auto simp: profile_ok_def word_le_nat_alt)
      have "profile_count ?q f = ((profile_count p)(e := hit_count p e)) f" for f
      proof (cases "f = e \<or> f = PROF_EMPTY \<or> f \<notin> set (pf_keys p)")
        case True
        have "profile_count ?q e = Some 1" using profile_count_held [OF q, of j e] free(1) False ok by simp
        moreover have "f \<noteq> e \<Longrightarrow> f \<notin> set (pf_keys p) \<Longrightarrow> f \<notin> set ((pf_keys p)[j := e])"
          using set_update_subset_insert [of "pf_keys p" j e] by auto
        ultimately show ?thesis
          using True c room False profile_count_free [OF q, of f] profile_count_free [OF assms, of f]
          by (auto simp: hit_count_def profile_count_def [of _ PROF_EMPTY])
      next
        case other: False
        then obtain i where i: "i < length (pf_keys p)" "pf_keys p ! i = f" by (auto simp: in_set_conv_nth)
        then have "i \<noteq> j" using free(3) other by auto
        then show ?thesis using profile_count_held [OF q, of i f] profile_count_held [OF assms i] i other ok by simp
      qed
      moreover have "x86p_jit_profile_hit e p = Some ?q"
        using False free room by (simp add: x86p_jit_profile_hit_def)
      ultimately show ?thesis using q c room False by (intro exI [of _ ?q]) (auto simp: hit_count_def)
    qed
  qed
qed

end
