(* ===== verification/X86_Jit_Profile_Properties.thy ===== *)
theory X86_Jit_Profile_Properties
  imports X86_Jit_Probe_Properties
begin

text \<open>
  Whole runs of the histogram and of the chain census: every address held has been counted exactly,
  drops are counted, the report is the hottest addresses first; and the one address the census cannot
  look up.
\<close>

section \<open>Counting a run\<close>

fun hits :: "u32 list \<Rightarrow> profile \<Rightarrow> profile option" where
  "hits [] p = Some p"
| "hits (e # es) p = (case x86p_jit_profile_hit e p of None \<Rightarrow> None | Some p \<Rightarrow> hits es p)"

lemma hits_append: "hits (es @ fs) p = (case hits es p of None \<Rightarrow> None | Some q \<Rightarrow> hits fs q)"
  by (induction es arbitrary: p) (auto split: option.split)

lemma hint_capacity:
  assumes "unat hint \<le> 2 ^ 29"
  shows "\<exists>k. 6 \<le> k \<and> k \<le> 30 \<and> slot_hint_capacity hint = 2 ^ k \<and> 2 * unat hint \<le> 2 ^ k"
proof -
  let ?h = "if hint < 64 then 64 else hint"
  have h: "unat ?h \<le> 2 ^ 29" "64 \<le> unat ?h" "unat hint \<le> unat ?h"
    using assms by (auto simp: word_less_nat_alt)
  have "unat (?h * 2) = 2 * unat ?h" using h(1) by (subst unat_mult_lem [THEN iffD1]) auto
  then have "\<exists>k. 6 \<le> k \<and> k \<le> 30 \<and> round_up_pow2 (?h * 2) = 2 ^ k \<and> unat (?h * 2) \<le> 2 ^ k"
    using h(1,2) by (intro round_up_pow2_ok) auto
  then show ?thesis using h(3) \<open>unat (?h * 2) = 2 * unat ?h\<close> unfolding slot_hint_capacity_def by fastforce
qed

lemma fresh_table: "k \<le> 30 \<Longrightarrow> table_ok (replicate (2 ^ k) PROF_EMPTY) (2 ^ k - 1)"
  by (auto simp: table_ok_def probe_ok_def mask_eq_exp_minus_1 intro!: exI [of _ k])

lemma fresh_occupied: "occupied (replicate n PROF_EMPTY) = 0"
  by (simp add: occupied_def)

lemma half_pow2: "6 \<le> k \<Longrightarrow> k \<le> 30 \<Longrightarrow> unat ((2 ^ k :: u32) div 2) = 2 ^ (k - 1)"
proof -
  assume k: "6 \<le> k" "k \<le> 30"
  have "unat ((2 ^ k :: u32) div 2) = unat (2 ^ k :: u32) div 2" unfolding unat_div by simp
  also have "\<dots> = 2 ^ (k - 1)" using unat_pow2 [of k] k by (cases k) simp_all
  finally show ?thesis .
qed

lemma profile_created:
  assumes "unat hint \<le> 2 ^ 29" and "x86p_jit_profile_create True hint = Some p"
  shows "profile_ok p \<and> pf_total p = 0 \<and> pf_dropped p = 0 \<and> unat hint \<le> unat (pf_capacity p) \<and>
    (\<forall>e. profile_count p e = None)"
proof -
  obtain k where k: "6 \<le> k" "k \<le> 30" "slot_hint_capacity hint = 2 ^ k" "2 * unat hint \<le> 2 ^ k"
    using hint_capacity [OF assms(1)] by blast
  have d: "unat ((2 ^ k :: u32) div 2) = 2 ^ (k - 1)" "(2::nat) ^ k = 2 * 2 ^ (k - 1)"
    using half_pow2 [OF k(1,2)] k(1) by (auto simp: power_eq_if)
  have p: "p = \<lparr>pf_keys = replicate (2 ^ k) PROF_EMPTY, pf_counts = replicate (2 ^ k) 0, pf_mask = 2 ^ k - 1,
      pf_capacity = 2 ^ k div 2, pf_distinct = 0, pf_total = 0, pf_dropped = 0\<rparr>"
    using assms(2) k(2,3) by (simp add: x86p_jit_profile_create_def Let_def unat_pow2)
  have "(0::u32) < 2 ^ k div 2" unfolding word_less_nat_alt d by simp
  then have "profile_ok p" using fresh_table [OF k(2)] d unfolding p profile_ok_def by (simp add: fresh_occupied)
  moreover have "profile_count p e = None" for e
    using profile_count_free [OF calculation, of e] by (cases "e = PROF_EMPTY") (auto simp: p profile_count_def)
  ultimately show ?thesis using k(4) d by (simp add: p)
qed

definition counts_run :: "profile \<Rightarrow> u32 list \<Rightarrow> profile \<Rightarrow> bool" where
  "counts_run p0 es p \<longleftrightarrow> profile_ok p \<and> pf_capacity p = pf_capacity p0 \<and> unat (pf_total p) = length es \<and>
     (\<forall>e c. profile_count p e = Some c \<longrightarrow> unat c = count_list es e \<and> e \<in> set es) \<and>
     unat (pf_dropped p) = length (filter (\<lambda>e. profile_count p e = None) es) \<and>
     (\<forall>e \<in> set es. profile_count p e = None \<longrightarrow> e = PROF_EMPTY \<or> pf_capacity p \<le> pf_distinct p)"


lemma distinct_dom: "profile_ok p \<Longrightarrow> unat (pf_distinct p) = card (dom (profile_count p))"
  using profile_count_keys [of p] by (simp add: prof.holds_used [symmetric] dom_def set_diff_eq)

lemma finite_held: "profile_ok p \<Longrightarrow> finite (dom (profile_count p))"
  using profile_count_keys [of p] by (simp add: dom_def)

lemma count_run_step:
  assumes "counts_run p0 es p" and "length es < 2 ^ 64 - 1"
  shows "\<exists>q. x86p_jit_profile_hit e p = Some q \<and> counts_run p0 (es @ [e]) q"
proof -
  note r = assms(1) [unfolded counts_run_def]
  obtain q where q: "x86p_jit_profile_hit e p = Some q" "profile_ok q" "pf_capacity q = pf_capacity p"
      "pf_total q = pf_total p + 1" "profile_count q = (profile_count p)(e := hit_count p e)"
      "pf_dropped q = pf_dropped p + (if hit_count p e = None then 1 else 0)"
    using hit_spec [of p e] r by blast
  have up: "unat (x + 1 :: u64) = unat x + 1" if "unat x \<le> length es" for x
    using that assms(2) by (simp add: unat_plus_if_size word_size)
  have kept: "hit_count p e = None \<Longrightarrow> profile_count p e = None" by (auto simp: hit_count_def split: option.splits)
  then have "dom (profile_count p) \<subseteq> dom (profile_count q)"
    unfolding q(5) by (cases "hit_count p e") auto
  then have mono: "pf_distinct p \<le> pf_distinct q"
    using distinct_dom [of p] distinct_dom [OF q(2)] finite_held [OF q(2)] r by (simp add: word_le_nat_alt card_mono)
  have fresh: "e \<notin> set es" if "profile_count p e = None" "hit_count p e \<noteq> None"
    using r that by (auto simp: hit_count_def split: if_splits)
  have exact: "unat c = count_list es e + 1" if "hit_count p e = Some c" for c
  proof (cases "profile_count p e")
    case None
    then show ?thesis using that fresh by (auto simp: hit_count_def count_list_0_iff split: if_splits)
  next
    case (Some b)
    then have b: "unat b = count_list es e" using r by blast
    then have "unat b \<le> length es" by (simp add: count_le_length)
    moreover from this have "b \<noteq> -1" using assms(2) by (auto simp: unsigned_minus_1_eq_mask mask_eq_exp_minus_1)
    ultimately show ?thesis using that Some b up [of b] by (simp add: hit_count_def)
  qed
  have counts: "unat c = count_list (es @ [e]) f \<and> f \<in> set (es @ [e])" if "profile_count q f = Some c" for f c
    using that exact [of c] r by (cases "f = e") (auto simp: q(5))
  have drops: "length (filter (\<lambda>f. profile_count q f = None) (es @ [e])) =
      length (filter (\<lambda>f. profile_count p f = None) es) + (if hit_count p e = None then 1 else 0)"
  proof -
    have "filter (\<lambda>f. profile_count q f = None) es = filter (\<lambda>f. profile_count p f = None) es"
      by (rule filter_cong [OF refl]) (cases "hit_count p e", use kept fresh in \<open>auto simp: q(5)\<close>)
    then show ?thesis by (simp add: q(5))
  qed
  have full: "f = PROF_EMPTY \<or> pf_capacity q \<le> pf_distinct q"
    if "f \<in> set (es @ [e])" "profile_count q f = None" for f
  proof (cases "f = e")
    case True
    then have "e = PROF_EMPTY \<or> pf_capacity p \<le> pf_distinct p"
      using that(2) by (auto simp: q(5) hit_count_def split: option.splits if_splits)
    then show ?thesis using True mono q(3) by (auto intro: order_trans)
  next
    case False
    then show ?thesis using that r mono q(3) by (auto simp: q(5) intro: order_trans)
  qed
  have d: "unat (pf_dropped p) \<le> length es" using r by simp
  have "counts_run p0 (es @ [e]) q"
    unfolding counts_run_def drops using q(2-4) r counts full up [OF d] up [of "pf_total p"] by (auto simp: q(6))
  then show ?thesis using q(1) by blast
qed


lemma counted_run:
  assumes "counts_run p [] p" and "length es < 2 ^ 64"
  shows "\<exists>q. hits es p = Some q \<and> counts_run p es q"
  using assms(2)
proof (induction es rule: rev_induct)
  case (snoc e es)
  then obtain q where q: "hits es p = Some q" "counts_run p es q" by auto
  obtain r where "x86p_jit_profile_hit e q = Some r" "counts_run p (es @ [e]) r"
    using count_run_step [OF q(2), of e] snoc.prems by auto
  then show ?case using q(1) by (simp add: hits_append)
qed (use assms(1) in simp)

text \<open>
  C18. A histogram created for at most \<open>2 ^ 29\<close> addresses never loops and never loses count: after any
  run of fewer than \<open>2 ^ 64\<close> entries the total is their number, every address it holds has been counted
  exactly as often as it was entered, and every other entry is counted as dropped.  The address
  \<open>PROF_EMPTY\<close> (\<open>0xFFFFFFFF\<close>), which marks a free slot, is never held; no other is dropped while the run enters no
  more of them than the histogram was created for.
\<close>

theorem histogram_exact:
  assumes "unat hint \<le> 2 ^ 29" and "x86p_jit_profile_create True hint = Some p" and "length es < 2 ^ 64"
  shows "\<exists>q. hits es p = Some q \<and> unat (pf_total q) = length es \<and>
     (\<forall>e c. profile_count q e = Some c \<longrightarrow> unat c = count_list es e) \<and>
     unat (pf_dropped q) = length (filter (\<lambda>e. profile_count q e = None) es) \<and>
     profile_count q PROF_EMPTY = None \<and>
     (card (set es - {PROF_EMPTY}) \<le> unat hint \<longrightarrow> (\<forall>e \<in> set es - {PROF_EMPTY}. profile_count q e \<noteq> None))"
proof -
  note c = profile_created [OF assms(1,2)]
  then have "counts_run p [] p" by (simp add: counts_run_def)
  then obtain q where q: "hits es p = Some q" "counts_run p es q" using counted_run assms(3) by blast
  note r = q(2) [unfolded counts_run_def]
  have "profile_count q e \<noteq> None" if small: "card (set es - {PROF_EMPTY}) \<le> unat hint" and e: "e \<in> set es - {PROF_EMPTY}" for e
  proof
    assume n: "profile_count q e = None"
    then have "pf_capacity q \<le> pf_distinct q" using r e by blast
    then have many: "unat hint \<le> card (dom (profile_count q))"
      using c r by (simp add: distinct_dom [symmetric] word_le_nat_alt)
    have "PROF_EMPTY \<notin> dom (profile_count q)" by (simp add: profile_count_def dom_def)
    moreover have "dom (profile_count q) \<subseteq> set es" using r by (auto simp: dom_def)
    moreover have "e \<notin> dom (profile_count q)" using n by (simp add: domIff)
    ultimately have "dom (profile_count q) \<subset> set es - {PROF_EMPTY}" using e by blast
    then have "card (dom (profile_count q)) < card (set es - {PROF_EMPTY})" by (intro psubset_card_mono) simp_all
    then show False using small many by simp
  qed
  moreover have "profile_count q PROF_EMPTY = None" by (simp add: profile_count_def)
  ultimately show ?thesis using q r by auto
qed

theorem histogram_exact_witness:
  "\<exists>p q. x86p_jit_profile_create True 64 = Some p \<and> hits [0x401000, 0x401010, 0x401000] p = Some q \<and>
     unat (pf_total q) = 3 \<and> profile_count q 0x401000 = Some 2"
proof -
  define es :: "u32 list" where "es = [0x401000, 0x401010, 0x401000]"
  obtain p where p: "x86p_jit_profile_create True 64 = Some p" by (simp add: x86p_jit_profile_create_def Let_def)
  have es: "unat (64 :: u32) \<le> 2 ^ 29" "length es = 3" "length es < 2 ^ 64" "card (set es - {PROF_EMPTY}) \<le> unat (64 :: u32)"
    "0x401000 \<in> set es - {PROF_EMPTY}" "count_list es 0x401000 = 2"
    by (simp_all add: es_def PROF_EMPTY_def card_insert_if)
  obtain q where q: "hits es p = Some q" "unat (pf_total q) = length es"
      "\<forall>e c. profile_count q e = Some c \<longrightarrow> unat c = count_list es e"
      "\<forall>e \<in> set es - {PROF_EMPTY}. profile_count q e \<noteq> None"
    using histogram_exact [OF es(1) p es(3)] es(4) by blast
  then obtain c where c: "profile_count q 0x401000 = Some c" using es(5) by blast
  then have "unat c = 2" using q(3) es(6) by metis
  then have "c = 2" by (metis word_of_nat_unat of_nat_numeral)
  then show ?thesis using p q(1,2) c es(2) unfolding es_def by auto
qed

text \<open>
  The bound on the hint is needed.  Twice the hint is a 32-bit product: asked for \<open>2 ^ 31\<close> addresses
  the table has one slot and room for none, and drops every entry; and the table never has more than
  \<open>2 ^ 30\<close> slots.
\<close>

lemma round_up_loop_numeral:
  "round_up_loop (numeral n) v p = (if p < v \<and> p < 0x40000000 then round_up_loop (pred_numeral n) v (push_bit 1 p) else p)"
  by (simp add: numeral_eq_Suc)

lemma histogram_hint_wraps:
  assumes "x86p_jit_profile_create True 0x80000000 = Some p"
  shows "pf_capacity p = 0 \<and> x86p_jit_profile_hit e p = Some (p\<lparr>pf_total := 1, pf_dropped := 1\<rparr>)"
proof -
  have wrap: "(0x100000000 :: u32) = 0" unfolding word_unat_eq_iff by simp
  have "slot_hint_capacity 0x80000000 = 1"
    by (simp add: wrap slot_hint_capacity_def round_up_pow2_def round_up_loop_numeral)
  then have p: "p = \<lparr>pf_keys = [PROF_EMPTY], pf_counts = [0], pf_mask = 0, pf_capacity = 0, pf_distinct = 0,
      pf_total = 0, pf_dropped = 0\<rparr>"
    using assms by (simp add: x86p_jit_profile_create_def)
  show ?thesis unfolding p
    by (simp add: x86p_jit_profile_hit_def find_slot_def probe.simps Let_def)
qed

lemma histogram_hint_clamped:
  assumes "x86p_jit_profile_create True 0x40000000 = Some p"
  shows "pf_capacity p = 0x20000000"
proof -
  have "slot_hint_capacity 0x40000000 = 0x40000000"
    by (simp add: slot_hint_capacity_def round_up_pow2_def round_up_loop_numeral push_bit_eq_mult)
  then show ?thesis using assms by (auto simp: x86p_jit_profile_create_def)
qed

section \<open>The report\<close>

text \<open>The report is sorted, most entries first, and nothing left out was entered more often than what is in it.\<close>

lemma lexicographic: "a * 2 ^ 32 + e \<le> b * 2 ^ 32 + f \<Longrightarrow> f < 2 ^ 32 \<Longrightarrow> (a :: nat) \<le> b"
  by simp

lemma top_hottest:
  assumes "(e, c) \<in> set (x86p_jit_profile_top True n p)"
    and "f \<noteq> PROF_EMPTY" and "(f, d) \<in> set (zip (pf_keys p) (pf_counts p))"
    and "(f, d) \<notin> set (x86p_jit_profile_top True n p)"
  shows "d \<le> c"
proof -
  let ?l = "sort_key entry_key (filter (\<lambda>(k, _). k \<noteq> PROF_EMPTY) (zip (pf_keys p) (pf_counts p)))"
  have t: "x86p_jit_profile_top True n p = take n ?l"
    using assms(1) by (auto simp: x86p_jit_profile_top_def split: if_splits)
  have "(f, d) \<in> set ?l" using assms(2,3) by simp
  then have "(f, d) \<in> set (take n ?l) \<union> set (drop n ?l)" by (metis append_take_drop_id set_append)
  then have "(f, d) \<in> set (drop n ?l)" using assms(4) unfolding t by blast
  moreover have "sorted (List.map entry_key (take n ?l) @ List.map entry_key (drop n ?l))"
    unfolding map_append [symmetric] append_take_drop_id by (rule sorted_sort_key)
  then have "\<forall>x \<in> set (take n ?l). \<forall>y \<in> set (drop n ?l). entry_key x \<le> entry_key y"
    unfolding sorted_append set_map by blast
  ultimately have "entry_key (e, c) \<le> entry_key (f, d)"
    using assms(1) unfolding t by blast
  then have "(2 ^ 64 - 1 - unat c) * 2 ^ 32 + unat e \<le> (2 ^ 64 - 1 - unat d) * 2 ^ 32 + unat f"
    by (simp add: entry_key_def)
  moreover have "unat f < 2 ^ 32" "unat d \<le> 2 ^ 64 - 1" "unat c \<le> 2 ^ 64 - 1"
    using unat_lt32 [of f] unat_lt64 [of d] unat_lt64 [of c] by simp_all
  ultimately have "2 ^ 64 - 1 - unat c \<le> 2 ^ 64 - 1 - unat d" using lexicographic by blast
  then show ?thesis using \<open>unat d \<le> 2 ^ 64 - 1\<close> \<open>unat c \<le> 2 ^ 64 - 1\<close> by (simp add: word_le_nat_alt)
qed

section \<open>The census\<close>

definition slot_ok :: "census_slot \<Rightarrow> bool" where
  "slot_ok s \<longleftrightarrow> length (ce_targets s) = X86P_JIT_CHAIN_TARGETS \<and>
     (ce_entry s \<noteq> PROF_EMPTY \<longrightarrow> unat (ce_count s) \<le> X86P_JIT_CHAIN_TARGETS)"

definition census_ok :: "census \<Rightarrow> bool" where
  "census_ok c \<longleftrightarrow> table_ok (cn_keys c) (cn_mask c) \<and> unat (cn_blocks c) = occupied (cn_keys c) \<and>
     cn_blocks c \<le> cn_capacity c \<and> 0 < cn_capacity c \<and> 2 * unat (cn_capacity c) \<le> length (cn_slots c) \<and>
     (\<forall>s \<in> set (cn_slots c). slot_ok s)"

interpretation cens: keyed cn_keys cn_mask cn_blocks cn_capacity census_ok
  by unfold_locales (auto simp: census_ok_def)

text \<open>The successors recorded for a block.\<close>

definition census_targets :: "census \<Rightarrow> u32 \<Rightarrow> u32 list" where
  "census_targets c e =
     (case find_slot (cn_keys c) (cn_mask c) e of
        None \<Rightarrow> []
      | Some i \<Rightarrow> if cn_keys c ! i = e then take (unat (ce_count (cn_slots c ! i))) (ce_targets (cn_slots c ! i)) else [])"

lemma census_targets_frame:
  "cn_slots d = cn_slots c \<Longrightarrow> cn_mask d = cn_mask c \<Longrightarrow> census_targets d = census_targets c"
  by (auto simp: census_targets_def fun_eq_iff split: option.split)

lemma names_target_in: "n \<le> length ts \<Longrightarrow> names_target ts n e = Some (e \<in> set (take n ts))"
  by (induction ts n e rule: names_target.induct) auto

lemma note_entry_spec:
  assumes "census_ok c" and "previous \<noteq> PROF_EMPTY"
  shows "\<exists>d. x86p_jit_chain_census_note_entry previous entry have_previous c = Some d \<and> census_ok d \<and>
     cn_entries d = cn_entries c + 1 \<and> census_targets d = census_targets c \<and>
     cn_chainable d = cn_chainable c + (if have_previous \<and> entry \<in> set (census_targets c previous) then 1 else 0) \<and>
     cn_unrecorded d = cn_unrecorded c + (if have_previous \<and> census_targets c previous \<noteq> [] then 0 else 1)"
proof (cases have_previous)
  case True
  show ?thesis
  proof (cases rule: cens.lookup [OF assms, case_names held free])
    case (held j)
    let ?s = "cn_slots c ! j"
    have "?s \<in> set (cn_slots c)" using held(1) by simp
    then have "slot_ok ?s" using assms(1) by (simp add: census_ok_def)
    then have s: "length (ce_targets ?s) = 6" "unat (ce_count ?s) \<le> 6"
      using held assms(2) by (simp_all add: slot_ok_def X86P_JIT_CHAIN_TARGETS_def)
    have f: "census_find previous (c\<lparr>cn_entries := cn_entries c + 1\<rparr>) = Some (Some ?s)"
      using held by (simp add: census_find_def)
    have t: "census_targets c previous = take (unat (ce_count ?s)) (ce_targets ?s)"
      using held by (simp add: census_targets_def)
    show ?thesis
    proof (cases "ce_count ?s = 0")
      case True
      then show ?thesis using f t assms(1) \<open>have_previous\<close>
        by (auto simp: x86p_jit_chain_census_note_entry_def census_ok_def intro!: census_targets_frame)
    next
      case False
      then have "census_targets c previous \<noteq> []" using t s by (cases "ce_targets ?s") (auto simp: unat_eq_0)
      then show ?thesis using f t s False assms(1) \<open>have_previous\<close>
        by (auto simp: x86p_jit_chain_census_note_entry_def census_ok_def names_target_in intro!: census_targets_frame)
    qed
  next
    case (free j)
    have "census_find previous (c\<lparr>cn_entries := cn_entries c + 1\<rparr>) = Some None"
      using free assms(2) by (simp add: census_find_def)
    moreover have "census_targets c previous = []" using free assms(2) by (simp add: census_targets_def)
    ultimately show ?thesis using assms(1) \<open>have_previous\<close>
      by (auto simp: x86p_jit_chain_census_note_entry_def census_ok_def intro!: census_targets_frame)
  qed
qed (use assms(1) in \<open>auto simp: x86p_jit_chain_census_note_entry_def census_ok_def intro!: census_targets_frame\<close>)

lemma record_targets_ok:
  "slot_ok s \<Longrightarrow> slot_ok (record_targets ts (s\<lparr>ce_entry := e\<rparr>)) \<and>
     take (unat (ce_count (record_targets ts (s\<lparr>ce_entry := e\<rparr>)))) (ce_targets (record_targets ts (s\<lparr>ce_entry := e\<rparr>))) =
       take X86P_JIT_CHAIN_TARGETS ts"
proof -
  assume "slot_ok s"
  moreover have "unat (of_nat (min (length ts) 6) :: u32) = min (length ts) 6"
    by (simp add: unsigned_of_nat take_bit_nat_eq_self)
  moreover have "take (min (length ts) 6) ts = take 6 ts" by (simp add: min_def)
  ultimately show ?thesis by (auto simp: record_targets_def slot_ok_def X86P_JIT_CHAIN_TARGETS_def Let_def)
qed

lemma note_block_spec:
  assumes "census_ok c"
  shows "\<exists>d. x86p_jit_chain_census_note_block entry ts overflowed c = Some d \<and> census_ok d"
proof (cases "entry = PROF_EMPTY")
  case False
  let ?c = "c\<lparr>cn_overflowed := cn_overflowed c + ucast overflowed\<rparr>"
  show ?thesis
  proof (cases rule: cens.lookup [OF assms False, case_names held free])
    case (held j)
    let ?r = "record_targets ts (cn_slots c ! j)"
    have e: "ce_entry ?r = ce_entry (cn_slots c ! j)" by (simp add: record_targets_def Let_def)
    have k: "List.map ce_entry ((cn_slots c)[j := ?r]) = cn_keys c" using held(1) by (simp add: map_update e list_update_same_conv)
    have "slot_ok (cn_slots c ! j)" using assms held(1) by (simp add: census_ok_def)
    then have "slot_ok ?r" using record_targets_ok [of "cn_slots c ! j" ts "ce_entry (cn_slots c ! j)"] by simp
    then have "census_ok (?c\<lparr>cn_slots := (cn_slots c)[j := ?r]\<rparr>)"
      using assms k set_update_subset_insert [of "cn_slots c" j ?r] by (auto simp: census_ok_def)
    moreover have "x86p_jit_chain_census_note_block entry ts overflowed c = Some (?c\<lparr>cn_slots := (cn_slots c)[j := ?r]\<rparr>)"
      using False held by (simp add: x86p_jit_chain_census_note_block_def Let_def)
    ultimately show ?thesis by blast
  next
    case (free j)
    let ?r = "record_targets ts ((cn_slots c ! j)\<lparr>ce_entry := entry\<rparr>)"
    have e: "ce_entry ?r = entry" by (simp add: record_targets_def Let_def)
    have "slot_ok (cn_slots c ! j)" using assms free(1) by (simp add: census_ok_def)
    then have "slot_ok ?r" using record_targets_ok by blast
    then have "census_ok (?c\<lparr>cn_slots := (cn_slots c)[j := ?r], cn_blocks := cn_blocks c + 1\<rparr>)" if "\<not> cn_capacity c \<le> cn_blocks c"
    proof -
      have "unat (cn_blocks c + 1) = unat (cn_blocks c) + 1"
        using that unat_lt32 [of "cn_capacity c"] by (simp add: unat_plus_if_size word_size word_le_nat_alt)
      then show ?thesis
        using assms free(5,6) that set_update_subset_insert [of "cn_slots c" j ?r] \<open>slot_ok ?r\<close>
        by (auto simp: census_ok_def map_update e word_le_nat_alt)
    qed
    moreover have "x86p_jit_chain_census_note_block entry ts overflowed c =
        Some (if cn_capacity c \<le> cn_blocks c then ?c\<lparr>cn_dropped := cn_dropped c + 1\<rparr>
          else ?c\<lparr>cn_slots := (cn_slots c)[j := ?r], cn_blocks := cn_blocks c + 1\<rparr>)"
      using False free by (auto simp: x86p_jit_chain_census_note_block_def Let_def)
    moreover have "census_ok (?c\<lparr>cn_dropped := cn_dropped c + 1\<rparr>)" using assms by (simp add: census_ok_def)
    ultimately show ?thesis by auto
  qed
qed (use assms in \<open>simp add: x86p_jit_chain_census_note_block_def\<close>)

text \<open>
  A free slot is filled with 0xFF bytes, so asked for 0xFFFFFFFF the lookup returns one, whose count
  is 0xFFFFFFFF: the comparison then reads past the six targets.
\<close>

lemma names_target_overrun: "length ts < n \<Longrightarrow> entry \<notin> set ts \<Longrightarrow> names_target ts n entry = None"
  by (induction ts n entry rule: names_target.induct) auto

lemma census_reads_past_targets:
  assumes "unat hint \<le> 2 ^ 29" and "x86p_jit_chain_census_create True hint = Some c" and "entry \<noteq> 0xFFFFFFFF"
  shows "x86p_jit_chain_census_note_entry 0xFFFFFFFF entry True c = None"
proof -
  obtain k where k: "k \<le> 30" "slot_hint_capacity hint = 2 ^ k" using hint_capacity [OF assms(1)] by blast
  have c: "cn_slots c = replicate (2 ^ k) free_census_slot" "cn_mask c = mask k"
    using assms(2) k by (auto simp: x86p_jit_chain_census_create_def Let_def unat_pow2 mask_eq_exp_minus_1)
  let ?i = "unat (mix32 0xFFFFFFFF AND mask k)"
  have i: "?i < 2 ^ k" by (simp add: unat_and_mask)
  have s: "cn_slots (c\<lparr>cn_entries := n\<rparr>) ! ?i = free_census_slot" for n using i c by simp
  have "find_slot (cn_keys c) (cn_mask c) 0xFFFFFFFF = Some ?i"
    using i c by (simp add: find_slot_def probe.simps free_census_slot_def PROF_EMPTY_def)
  then have "census_find 0xFFFFFFFF (c\<lparr>cn_entries := cn_entries c + 1\<rparr>) = Some (Some free_census_slot)"
    using s by (simp add: census_find_def) (simp add: free_census_slot_def PROF_EMPTY_def)
  moreover have "names_target (ce_targets free_census_slot) (unat (ce_count free_census_slot)) entry = None"
    using assms(3) by (intro names_target_overrun) (simp_all add: free_census_slot_def X86P_JIT_CHAIN_TARGETS_def)
  moreover have "ce_count free_census_slot \<noteq> 0" by (simp add: free_census_slot_def)
  ultimately show ?thesis by (simp add: x86p_jit_chain_census_note_entry_def Let_def)
qed

end
