(* ===== verification/X86_Jit_Engine_Invariant.thy ===== *)
theory X86_Jit_Engine_Invariant
  imports X86_Jit_Engine X86_Jit_Profile_Properties
begin

text \<open>
  What every reachable engine keeps.  The block cache, code memory, the translator and the emitted
  code are parameters of the model; the laws they are documented to keep are the predicates of the
  first section.  The invariant says that every cached block starts in code written since the last
  reset, that every linked exit slot leads to a cached, unguarded block, and that under the intercept
  contract no unguarded block starts at an address the embedder may take over.
\<close>

section \<open>The parameters' laws\<close>

text \<open>What a cache knows: the host address, the guest length and the guard of the block at an address.\<close>

type_synonym 'c cache_view = "'c \<Rightarrow> u32 \<Rightarrow> (u64 \<times> u32 \<times> bool) option"

definition outside :: "u32 \<Rightarrow> u32 \<Rightarrow> u32 \<Rightarrow> u32 \<Rightarrow> bool" where
  "outside a l lo hi \<longleftrightarrow> uint a + uint l \<le> uint lo \<or> uint hi \<le> uint a"

definition cache_laws :: "'c block_cache \<Rightarrow> 'c cache_view \<Rightarrow> bool" where
  "cache_laws bc view \<longleftrightarrow>
     (\<forall>n c. bc_create bc n = Some c \<longrightarrow> view c = Map.empty) \<and>
     (\<forall>c a. view (snd (bc_lookup bc c a)) = view c \<and>
        fst (bc_lookup bc c a) = (case view c a of None \<Rightarrow> 0 | Some (h, l, g) \<Rightarrow> h)) \<and>
     (\<forall>c a. view (snd (bc_lookup_refusing bc c a)) = view c \<and>
        (fst (bc_lookup_refusing bc c a) \<noteq> 0 \<longrightarrow> (\<exists>l. view c a = Some (fst (bc_lookup_refusing bc c a), l, False)))) \<and>
     (\<forall>c a h l. view (snd (bc_insert bc c a h l)) =
        (if fst (bc_insert bc c a h l) then (view c)(a \<mapsto> (h, l, False)) else view c)) \<and>
     (\<forall>c a. view (bc_guard bc c a) = (view c)(a := map_option (\<lambda>(h, l, g). (h, l, True)) (view c a))) \<and>
     (\<forall>c. view (bc_flush bc c) = Map.empty) \<and>
     (\<forall>c. bc_count bc c = 0 \<longleftrightarrow> view c = Map.empty) \<and>
     (\<forall>c lo hi. view (snd (bc_invalidate_range bc c lo hi)) \<subseteq>\<^sub>m view c \<and>
        (fst (bc_invalidate_range bc c lo hi) = 0 \<longrightarrow> view (snd (bc_invalidate_range bc c lo hi)) = view c) \<and>
        (\<forall>a h l g. view (snd (bc_invalidate_range bc c lo hi)) a = Some (h, l, g) \<longrightarrow> outside a l lo hi))"

text \<open>A region of code memory has the size asked for and does not wrap around the host's address space.\<close>

definition code_laws :: "'m code_memory \<Rightarrow> bool" where
  "code_laws cm \<longleftrightarrow> (\<forall>h n r h'. cm_create cm h n = (Some r, h') \<longrightarrow>
     n \<le> rg_size r \<and> rg_exec r \<noteq> 0 \<and> unat (rg_exec r) + rg_size r < 2 ^ 64)"

definition translator_laws :: "'w translator \<Rightarrow> bool" where
  "translator_laws tr \<longleftrightarrow> (\<forall>w eip room env links sites blk n k.
     tr w eip room env links sites = (kX86pJitOk, blk, n, k) \<longrightarrow> 0 < jb_host_bytes blk \<and> jb_host_bytes blk \<le> room)"

lemma code_lawsD:
  "code_laws cm \<Longrightarrow> cm_create cm h n = (Some r, h') \<Longrightarrow> n \<le> rg_size r \<and> rg_exec r \<noteq> 0 \<and> unat (rg_exec r) + rg_size r < 2 ^ 64"
  unfolding code_laws_def by blast

text \<open>Emitted code only steps the budget down, and a backend that chains allows at least the entry itself.\<close>

definition call_laws :: "('c, 'm, 'w) jit_host \<Rightarrow> bool" where
  "call_laws jh \<longleftrightarrow> (\<forall>host w cpu c links sites.
     cr_budget (cl_run (jh_call jh host w cpu c (Some links) sites)) \<le> cr_budget (ch_run links)) \<and>
     jh_chain_transfer_limit jh \<noteq> 0"

definition host_laws :: "('c, 'm, 'w) jit_host \<Rightarrow> 'c cache_view \<Rightarrow> bool" where
  "host_laws jh view \<longleftrightarrow> cache_laws (jh_cache jh) view \<and> code_laws (jh_code jh) \<and> translator_laws (jh_translate jh) \<and>
     call_laws jh"

lemma cache_lawsD:
  assumes "cache_laws bc view"
  shows "bc_create bc n = Some c \<Longrightarrow> view c = Map.empty"
    and "bc_lookup bc c a = (h, c') \<Longrightarrow> view c' = view c"
    and "bc_lookup bc c a = (h, c') \<Longrightarrow> h = (case view c a of None \<Rightarrow> 0 | Some (h, l, g) \<Rightarrow> h)"
    and "bc_lookup_refusing bc c a = (h, c') \<Longrightarrow> view c' = view c"
    and "bc_lookup_refusing bc c a = (h, c') \<Longrightarrow> h \<noteq> 0 \<Longrightarrow> \<exists>l. view c a = Some (h, l, False)"
    and "bc_insert bc c a h l = (i, c') \<Longrightarrow> view c' = (if i then (view c)(a \<mapsto> (h, l, False)) else view c)"
    and "view (bc_guard bc c a) = (view c)(a := map_option (\<lambda>(h, l, g). (h, l, True)) (view c a))"
    and "view (bc_flush bc c) = Map.empty"
    and "bc_count bc c = 0 \<longleftrightarrow> view c = Map.empty"
    and "bc_invalidate_range bc c lo hi = (n, c') \<Longrightarrow> view c' \<subseteq>\<^sub>m view c"
    and "bc_invalidate_range bc c lo hi = (n, c') \<Longrightarrow> n = 0 \<Longrightarrow> view c' = view c"
    and "bc_invalidate_range bc c lo hi = (n, c') \<Longrightarrow> view c' x = Some (hh, ll, g) \<Longrightarrow> outside x ll lo hi"
proof -
  note l = assms [unfolded cache_laws_def]
  note l1 = l [THEN conjunct1] and m1 = l [THEN conjunct2]
  note l2 = m1 [THEN conjunct1, rule_format] and m2 = m1 [THEN conjunct2]
  note l3 = m2 [THEN conjunct1, rule_format] and m3 = m2 [THEN conjunct2]
  note l4 = m3 [THEN conjunct1, rule_format] and m4 = m3 [THEN conjunct2]
  note l5 = m4 [THEN conjunct1, rule_format] and m5 = m4 [THEN conjunct2]
  note l6 = m5 [THEN conjunct1, rule_format] and m6 = m5 [THEN conjunct2]
  note l7 = m6 [THEN conjunct1, rule_format] and l8 = m6 [THEN conjunct2, rule_format]
  show "bc_create bc n = Some c \<Longrightarrow> view c = Map.empty" using l1 by blast
  show "bc_lookup bc c a = (h, c') \<Longrightarrow> view c' = view c" using l2 [of c a] by simp
  show "bc_lookup bc c a = (h, c') \<Longrightarrow> h = (case view c a of None \<Rightarrow> 0 | Some (h, l, g) \<Rightarrow> h)" using l2 [of c a] by simp
  show "bc_lookup_refusing bc c a = (h, c') \<Longrightarrow> view c' = view c" using l3 [of c a] by simp
  show "bc_lookup_refusing bc c a = (h, c') \<Longrightarrow> h \<noteq> 0 \<Longrightarrow> \<exists>l. view c a = Some (h, l, False)" using l3 [of c a] by simp
  show "bc_insert bc c a h l = (i, c') \<Longrightarrow> view c' = (if i then (view c)(a \<mapsto> (h, l, False)) else view c)"
    using l4 [of c a h l] by simp
  show "view (bc_guard bc c a) = (view c)(a := map_option (\<lambda>(h, l, g). (h, l, True)) (view c a))" by (rule l5)
  show "view (bc_flush bc c) = Map.empty" by (rule l6)
  show "bc_count bc c = 0 \<longleftrightarrow> view c = Map.empty" by (rule l7)
  show "bc_invalidate_range bc c lo hi = (n, c') \<Longrightarrow> view c' \<subseteq>\<^sub>m view c" using l8 [of c lo hi] by simp
  show "bc_invalidate_range bc c lo hi = (n, c') \<Longrightarrow> n = 0 \<Longrightarrow> view c' = view c" using l8 [of c lo hi] by simp
  show "bc_invalidate_range bc c lo hi = (n, c') \<Longrightarrow> view c' x = Some (hh, ll, g) \<Longrightarrow> outside x ll lo hi"
    using l8 [of c lo hi] by simp
qed

section \<open>Storage\<close>

definition storage_ok :: "storage \<Rightarrow> bool" where
  "storage_ok st \<longleftrightarrow> st_current st < length (st_chunks st) \<and> X86P_JIT_MIN_BLOCK_BYTES \<le> st_chunk_bytes st \<and>
     st_used st \<le> rg_size (st_chunks st ! st_current st) \<and>
     (\<forall>r \<in> set (st_chunks st). st_chunk_bytes st \<le> rg_size r \<and> rg_exec r \<noteq> 0 \<and> unat (rg_exec r) + rg_size r < 2 ^ 64)"

text \<open>Code written since the last reset.\<close>

definition live_code :: "storage \<Rightarrow> u64 \<Rightarrow> bool" where
  "live_code st h \<longleftrightarrow> (\<exists>i off. i \<le> st_current st \<and> h = rg_exec (st_chunks st ! i) + of_nat off \<and>
     off < (if i = st_current st then st_used st else rg_size (st_chunks st ! i)))"

lemma live_codeE:
  assumes "live_code st h"
  obtains i off where "i \<le> st_current st" "h = rg_exec (st_chunks st ! i) + of_nat off"
    "off < (if i = st_current st then st_used st else rg_size (st_chunks st ! i))"
  using assms unfolding live_code_def by (elim exE conjE) (rule that)

lemma live_codeI:
  "i \<le> st_current st \<Longrightarrow> h = rg_exec (st_chunks st ! i) + of_nat off \<Longrightarrow>
     off < (if i = st_current st then st_used st else rg_size (st_chunks st ! i)) \<Longrightarrow> live_code st h"
  unfolding live_code_def by (intro exI conjI)

lemma live_code_not_null:
  assumes "storage_ok st" "live_code st h"
  shows "h \<noteq> 0"
proof -
  from assms(2) obtain i off where i: "i \<le> st_current st" "h = rg_exec (st_chunks st ! i) + of_nat off"
      "off < (if i = st_current st then st_used st else rg_size (st_chunks st ! i))"
    by (rule live_codeE)
  have "i < length (st_chunks st)" using i(1) assms(1) by (simp add: storage_ok_def)
  then have r: "rg_exec (st_chunks st ! i) \<noteq> 0" "unat (rg_exec (st_chunks st ! i)) + rg_size (st_chunks st ! i) < 2 ^ 64"
    using assms(1) by (auto simp: storage_ok_def)
  have "off < rg_size (st_chunks st ! i)" using i(3) assms(1) by (auto simp: storage_ok_def split: if_splits)
  then have "unat (rg_exec (st_chunks st ! i)) + off < 2 ^ 64" using r(2) by simp
  then have "unat h = unat (rg_exec (st_chunks st ! i)) + off"
    unfolding i(2) by (simp add: unat_plus_if_size word_size unsigned_of_nat take_bit_nat_eq_self)
  then show ?thesis using r(1) by (auto simp: unat_eq_0)
qed

lemma storage_created:
  assumes "code_laws cm" and "x86p_jit_storage_create cm True capacity h = (Some st, h')"
    and "X86P_JIT_MIN_BLOCK_BYTES \<le> capacity"
  shows "storage_ok st"
proof -
  have "X86P_JIT_MIN_BLOCK_BYTES \<le> chunk_bytes_for capacity"
    using assms(3) by (auto simp: chunk_bytes_for_def X86P_JIT_MIN_BLOCK_BYTES_def kChunkMaxBytes_def Let_def)
  then show ?thesis using assms(2) code_lawsD [OF assms(1)]
    by (auto simp: x86p_jit_storage_create_def storage_ok_def Let_def split: prod.splits option.splits)
qed

lemma storage_reset:
  assumes "storage_ok st"
  shows "storage_ok (x86p_jit_storage_reset st)"
    and "x86p_jit_storage_room (x86p_jit_storage_reset st) = kX86pJitStorageRoom"
proof -
  have "st_chunks st \<noteq> []" using assms by (auto simp: storage_ok_def)
  then have "st_chunks st ! 0 \<in> set (st_chunks st)" by simp
  then show "storage_ok (x86p_jit_storage_reset st)"
    "x86p_jit_storage_room (x86p_jit_storage_reset st) = kX86pJitStorageRoom"
    using assms by (auto simp: storage_ok_def x86p_jit_storage_reset_def x86p_jit_storage_room_def chunk_left_def)
qed

lemma storage_next_chunk:
  assumes "storage_ok st" and "st_current st + 1 < length (st_chunks st)"
  shows "storage_ok (next_chunk st)" "live_code st h \<Longrightarrow> live_code (next_chunk st) h"
proof -
  show "storage_ok (next_chunk st)" using assms by (auto simp: storage_ok_def next_chunk_def)
  show "live_code (next_chunk st) h" if "live_code st h"
    using that
  proof (rule live_codeE)
    fix i off assume "i \<le> st_current st" "h = rg_exec (st_chunks st ! i) + of_nat off"
      "off < (if i = st_current st then st_used st else rg_size (st_chunks st ! i))"
    then show ?thesis using assms(1)
      by (intro live_codeI [of i _ _ off]) (auto simp: storage_ok_def next_chunk_def split: if_splits)
  qed
qed

lemma storage_more_chunks:
  assumes "storage_ok st" and "st_chunk_bytes st \<le> rg_size r" "rg_exec r \<noteq> 0" "unat (rg_exec r) + rg_size r < 2 ^ 64"
  shows "storage_ok (st\<lparr>st_chunks := st_chunks st @ [r]\<rparr>)"
    "live_code st h \<Longrightarrow> live_code (st\<lparr>st_chunks := st_chunks st @ [r]\<rparr>) h"
proof -
  let ?s = "st\<lparr>st_chunks := st_chunks st @ [r]\<rparr>"
  have n: "i \<le> st_current st \<Longrightarrow> (st_chunks st @ [r]) ! i = st_chunks st ! i" for i
    using assms(1) by (simp add: storage_ok_def nth_append)
  show "storage_ok ?s" using assms n [of "st_current st"] by (auto simp: storage_ok_def)
  show "live_code ?s h" if "live_code st h"
  proof (rule live_codeE [OF that])
    fix i off assume "i \<le> st_current st" "h = rg_exec (st_chunks st ! i) + of_nat off"
      "off < (if i = st_current st then st_used st else rg_size (st_chunks st ! i))"
    then show ?thesis by (intro live_codeI [of i _ _ off]) (auto simp: n split: if_splits)
  qed
qed

lemma ensure_chunk_ok:
  assumes "code_laws cm" "storage_ok st" "ensure_chunk cm h st = (status, h', st')"
  shows "storage_ok st' \<and> (\<forall>x. live_code st x \<longrightarrow> live_code st' x)"
proof -
  consider "st' = st" | "st_current st + 1 < length (st_chunks st)" "st' = next_chunk st"
    | r where "st' = next_chunk (st\<lparr>st_chunks := st_chunks st @ [r]\<rparr>)" "cm_create cm h (st_chunk_bytes st) = (Some r, h')"
        "st_current st + 1 = length (st_chunks st)"
  proof (cases "st_chunk_slack st \<le> chunk_left st \<or> st_chunk_limit st \<le> st_current st + 1")
    case False
    show ?thesis
    proof (cases "st_current st + 1 = length (st_chunks st)")
      case True
      obtain o1 h1 where c: "cm_create cm h (st_chunk_bytes st) = (o1, h1)" by fastforce
      have "(status, h', st') = (case o1 of None \<Rightarrow> (kX86pJitOutOfSpace, h1, st)
          | Some r \<Rightarrow> (kX86pJitOk, h1, next_chunk (st\<lparr>st_chunks := st_chunks st @ [r]\<rparr>)))"
        using assms(3) unfolding ensure_chunk_def if_not_P [OF False] if_P [OF True] c prod.case by (rule sym)
      then show ?thesis using that(1) that(3) c True by (cases o1) simp_all
    next
      case neq: False
      then have "st_current st + 1 < length (st_chunks st)" using assms(2) by (simp add: storage_ok_def)
      moreover have "st' = next_chunk st"
        using assms(3) unfolding ensure_chunk_def by (simp only: False neq if_False prod.inject)
      ultimately show ?thesis by (rule that(2))
    qed
  next
    case True
    then have "st' = st" using assms(3) unfolding ensure_chunk_def by (simp only: if_True prod.inject)
    then show ?thesis by (rule that(1))
  qed
  then show ?thesis
  proof cases
    case (3 r)
    let ?s = "st\<lparr>st_chunks := st_chunks st @ [r]\<rparr>"
    note r = code_lawsD [OF assms(1) 3(2)]
    have "storage_ok ?s" "\<And>x. live_code st x \<Longrightarrow> live_code ?s x" using storage_more_chunks assms(2) r by blast+
    then show ?thesis using storage_next_chunk [of ?s] 3 by simp
  next
    case 2
    then show ?thesis using storage_next_chunk [OF assms(2) 2(1)] by simp
  qed (use assms(2) in simp)
qed

lemma storage_translate_ok:
  assumes "code_laws cm" "translator_laws tr" "storage_ok st"
    and "x86p_jit_storage_translate cm tr w eip env blk0 h st links sites = (status, blk, h', st', links', sites')"
  shows "storage_ok st' \<and> (\<forall>x. live_code st x \<longrightarrow> live_code st' x) \<and> (status = kX86pJitOk \<longrightarrow> live_code st' (jb_entry blk)) \<and>
    (\<exists>n k. links' = claim_slots n links \<and> sites' = claim_sites k sites)"
proof -
  obtain s1 h1 st1 where e: "ensure_chunk cm h st = (s1, h1, st1)" by (metis prod_cases3)
  note ok = ensure_chunk_ok [OF assms(1,3) e]
  have zero: "links = claim_slots 0 links" "sites = claim_sites 0 sites" by (simp_all add: claim_slots_def claim_sites_def option.map_ident)
  show ?thesis
  proof (cases "s1 = kX86pJitOk")
    case False
    then show ?thesis using assms(4) e ok zero by (auto simp: x86p_jit_storage_translate_def)
  next
    case True
    let ?code = "st_chunks st1 ! st_current st1"
    obtain b h2 where w: "cm_begin_write cm h1 ?code = (b, h2)" by fastforce
    obtain s2 bl n k where t: "tr w eip (rg_size ?code - st_used st1) env links sites = (s2, bl, n, k)" by (metis prod_cases4)
    let ?len = "if s2 = kX86pJitOk then jb_host_bytes bl else 0"
    obtain p h3 where p: "cm_publish cm h2 ?code (st_used st1) ?len = (p, h3)" by fastforce
    let ?st = "st1\<lparr>st_used := st_used st1 + jb_host_bytes bl\<rparr>"
    have new: "storage_ok ?st \<and> (\<forall>x. live_code st1 x \<longrightarrow> live_code ?st x) \<and>
        live_code ?st (rg_exec ?code + of_nat (st_used st1))" if "s2 = kX86pJitOk"
    proof -
      have b: "0 < jb_host_bytes bl" "jb_host_bytes bl \<le> rg_size ?code - st_used st1"
        using assms(2) t that unfolding translator_laws_def by blast+
      have "storage_ok ?st" using b ok by (auto simp: storage_ok_def)
      moreover have "live_code ?st x" if "live_code st1 x" for x
      proof (rule live_codeE [OF that])
        fix i off assume "i \<le> st_current st1" "x = rg_exec (st_chunks st1 ! i) + of_nat off"
          "off < (if i = st_current st1 then st_used st1 else rg_size (st_chunks st1 ! i))"
        then show ?thesis by (intro live_codeI [of i _ _ off]) (auto split: if_splits)
      qed
      moreover have "live_code ?st (rg_exec ?code + of_nat (st_used st1))"
        using b by (intro live_codeI [of "st_current st1" _ _ "st_used st1"]) simp_all
      ultimately show ?thesis by blast
    qed
    show ?thesis
    proof (cases b)
      case False
      then show ?thesis using assms(4) e ok zero True w by (auto simp: x86p_jit_storage_translate_def Let_def)
    next
      case b: True
      have "(status, blk, h', st', links', sites') =
          (if \<not> p then (kX86pJitOutOfSpace, bl, h3, st1, claim_slots n links, claim_sites k sites)
           else if s2 = kX86pJitOk
           then (s2, bl\<lparr>jb_entry := rg_exec ?code + of_nat (st_used st1)\<rparr>, h3, ?st, claim_slots n links, claim_sites k sites)
           else (s2, bl, h3, st1, claim_slots n links, claim_sites k sites))"
        using assms(4) e True w b t p by (auto simp: x86p_jit_storage_translate_def Let_def split: if_splits)
      then show ?thesis using ok new by (auto split: if_splits)
    qed
  qed
qed


section \<open>Exit slots\<close>

definition chain_ok :: "jit_chain \<Rightarrow> bool" where
  "chain_ok c \<longleftrightarrow> ch_claimed c \<le> ch_capacity c \<and> length (ch_slots c) = ch_capacity c"

definition leads :: "(u32 \<Rightarrow> (u64 \<times> u32 \<times> bool) option) \<Rightarrow> nat \<Rightarrow> chain_slot \<Rightarrow> bool" where
  "leads v entry s \<longleftrightarrow> cs_guest s = X86P_JIT_CHAIN_UNLINKED \<or>
     (\<exists>a h l. cs_guest s = ucast a \<and> v a = Some (h, l, False) \<and> cs_host s = h + of_nat entry)"

definition slots_lead :: "(u32 \<Rightarrow> (u64 \<times> u32 \<times> bool) option) \<Rightarrow> nat \<Rightarrow> jit_chain \<Rightarrow> bool" where
  "slots_lead v entry c \<longleftrightarrow> (\<forall>i < ch_claimed c. leads v entry (ch_slots c ! i))"

lemma leads_unlinked: "leads v entry unlinked"
  by (simp add: leads_def unlinked_def)

lemma chain_created: "x86p_jit_chain_create ok n = Some c \<Longrightarrow> chain_ok c \<and> ch_claimed c = 0"
  by (auto simp: x86p_jit_chain_create_def chain_ok_def split: if_splits)

lemma chain_unlink_all:
  assumes "chain_ok c"
  shows "chain_ok (x86p_jit_chain_unlink_all c)" "slots_lead v entry (x86p_jit_chain_unlink_all c)"
    "ch_claimed (x86p_jit_chain_unlink_all c) = ch_claimed c"
    "ch_capacity (x86p_jit_chain_unlink_all c) = ch_capacity c"
  using assms
  by (auto simp: chain_ok_def x86p_jit_chain_unlink_all_def unlink_slots_def slots_lead_def nth_append leads_unlinked)

lemma chain_reset:
  assumes "chain_ok c"
  shows "chain_ok (x86p_jit_chain_reset c)" "slots_lead v entry (x86p_jit_chain_reset c)"
    "ch_claimed (x86p_jit_chain_reset c) = 0" "ch_capacity (x86p_jit_chain_reset c) = ch_capacity c"
  using assms by (auto simp: chain_ok_def x86p_jit_chain_reset_def unlink_slots_def slots_lead_def)

lemma chain_claim:
  assumes "chain_ok c"
  shows "chain_ok (snd (x86p_jit_chain_claim c))"
    "slots_lead v entry c \<Longrightarrow> slots_lead v entry (snd (x86p_jit_chain_claim c))"
  using assms
  by (auto simp: chain_ok_def x86p_jit_chain_claim_def slots_lead_def less_Suc_eq nth_list_update leads_unlinked)

lemma chain_claims:
  assumes "chain_ok c"
  shows "chain_ok (((snd \<circ> x86p_jit_chain_claim) ^^ n) c) \<and>
    (slots_lead v entry c \<longrightarrow> slots_lead v entry (((snd \<circ> x86p_jit_chain_claim) ^^ n) c))"
  using assms by (induction n) (auto simp: chain_claim)

lemma chain_rewind:
  assumes "chain_ok c"
  shows "chain_ok (x86p_jit_chain_rewind n c)" "slots_lead v entry c \<Longrightarrow> slots_lead v entry (x86p_jit_chain_rewind n c)"
  using assms by (auto simp: chain_ok_def x86p_jit_chain_rewind_def slots_lead_def)

lemma chain_link:
  assumes "chain_ok c" and "v guest = Some (h, l, False)" and "slots_lead v entry c"
  shows "chain_ok (x86p_jit_chain_link n guest (h + of_nat entry) c) \<and>
    slots_lead v entry (x86p_jit_chain_link n guest (h + of_nat entry) c)"
proof -
  have new: "leads v entry \<lparr>cs_guest = ucast guest, cs_host = h + of_nat entry\<rparr>"
    unfolding leads_def using assms(2) by (intro disjI2 exI [of _ guest] exI [of _ h] exI [of _ l]) simp
  have "leads v entry (((ch_slots c)[n := \<lparr>cs_guest = ucast guest, cs_host = h + of_nat entry\<rparr>]) ! i)"
    if "i < ch_claimed c" for i
    using new that assms(1,3) by (cases "i = n") (auto simp: slots_lead_def chain_ok_def)
  then show ?thesis using assms(1) by (simp add: slots_lead_def chain_ok_def x86p_jit_chain_link_def)
qed

lemma chain_run_update:
  "chain_ok (c\<lparr>ch_run := x\<rparr>) = chain_ok c" "slots_lead v entry (c\<lparr>ch_run := x\<rparr>) = slots_lead v entry c"
  by (simp_all add: chain_ok_def slots_lead_def)

lemma slots_lead_mono:
  "slots_lead v entry c \<Longrightarrow> (\<And>a h l. v a = Some (h, l, False) \<Longrightarrow> v' a = Some (h, l, False)) \<Longrightarrow> slots_lead v' entry c"
  unfolding slots_lead_def leads_def by blast

section \<open>The invariant\<close>

definition guarded :: "('c, 'm, 'w) engine \<Rightarrow> (u32 \<Rightarrow> (u64 \<times> u32 \<times> bool) option) \<Rightarrow> bool" where
  "guarded e v \<longleftrightarrow> (en_run_stop e \<noteq> None \<longrightarrow>
     (\<forall>f a h l. en_boundary e = Some f \<longrightarrow> v a = Some (h, l, False) \<longrightarrow> \<not> f a))"

definition engine_base :: "'c cache_view \<Rightarrow> ('c, 'm, 'w) engine \<Rightarrow> bool" where
  "engine_base view e \<longleftrightarrow> storage_ok (en_storage e) \<and>
     (\<forall>a h l g. view (en_cache e) a = Some (h, l, g) \<longrightarrow> live_code (en_storage e) h) \<and>
     (\<forall>c. en_links e = Some c \<longrightarrow> chain_ok c) \<and> (\<forall>p. en_profile e = Some p \<longrightarrow> profile_ok p) \<and>
     (\<forall>c. en_chain e = Some c \<longrightarrow> census_ok c) \<and> guarded e (view (en_cache e))"

definition links_lead :: "'c cache_view \<Rightarrow> ('c, 'm, 'w) engine \<Rightarrow> bool" where
  "links_lead view e \<longleftrightarrow> (\<forall>c. en_links e = Some c \<longrightarrow> slots_lead (view (en_cache e)) (en_chain_entry e) c)"

definition engine_ok :: "'c cache_view \<Rightarrow> ('c, 'm, 'w) engine \<Rightarrow> bool" where
  "engine_ok view e \<longleftrightarrow> engine_base view e \<and> links_lead view e"

text \<open>What no operation of a run changes.\<close>

definition same_config :: "('c, 'm, 'w) engine \<Rightarrow> ('c, 'm, 'w) engine \<Rightarrow> bool" where
  "same_config e e' \<longleftrightarrow> en_intercept e' = en_intercept e \<and> en_dispatch e' = en_dispatch e \<and> en_boundary e' = en_boundary e \<and>
     en_run_stop e' = en_run_stop e \<and> en_cache_disabled e' = en_cache_disabled e \<and> en_chain_entry e' = en_chain_entry e \<and>
     (en_links e' = None \<longleftrightarrow> en_links e = None) \<and> (en_chain e' = None \<longleftrightarrow> en_chain e = None) \<and>
     (en_profile e' = None \<longleftrightarrow> en_profile e = None)"

lemma same_config_refl: "same_config e e"
  by (simp add: same_config_def)

lemma same_config_trans: "same_config a b \<Longrightarrow> same_config b c \<Longrightarrow> same_config a c"
  by (simp add: same_config_def)

lemma add_stats_keeps:
  "engine_base view (add_stats l e) = engine_base view e" "links_lead view (add_stats l e) = links_lead view e"
  "same_config x (add_stats l e) = same_config x e" "en_links (add_stats l e) = en_links e"
  "en_cache (add_stats l e) = en_cache e" "en_storage (add_stats l e) = en_storage e"
  by (simp_all add: add_stats_def engine_base_def links_lead_def same_config_def guarded_def)

lemmas engine_defs = engine_ok_def engine_base_def links_lead_def same_config_def guarded_def

end
