(* ===== verification/X86_Jit_Engine_Steps.thy ===== *)
theory X86_Jit_Engine_Steps
  imports X86_Jit_Engine_Invariant
begin

text \<open>
  Every step of the dispatcher keeps the engine's invariant and its configuration: dropping and
  flushing code, making room, translating, linking, the embedder's callbacks and the call of a block.
\<close>

lemma host_lawsD:
  assumes "host_laws jh view"
  shows "cache_laws (jh_cache jh) view" "code_laws (jh_code jh)" "translator_laws (jh_translate jh)" "call_laws jh"
  using assms by (simp_all add: host_laws_def)

lemma map_le_None: "m \<subseteq>\<^sub>m n \<Longrightarrow> n x = None \<Longrightarrow> m x = None"
  by (metis domIff map_le_def)

lemma cache_same_view:
  "view c = view (en_cache e) \<Longrightarrow> engine_ok view (e\<lparr>en_cache := c\<rparr>) = engine_ok view e"
  "same_config x (e\<lparr>en_cache := c\<rparr>) = same_config x e"
  by (simp_all add: engine_ok_def engine_base_def links_lead_def guarded_def same_config_def)

lemma engine_frame:
  assumes "en_storage e' = en_storage e" "en_cache e' = en_cache e" "en_links e' = en_links e" "en_profile e' = en_profile e"
    "en_chain e' = en_chain e" "en_run_stop e' = en_run_stop e" "en_boundary e' = en_boundary e"
    "en_chain_entry e' = en_chain_entry e"
  shows "engine_base view e' = engine_base view e" "links_lead view e' = links_lead view e"
    "engine_ok view e' = engine_ok view e"
  unfolding engine_base_def links_lead_def engine_ok_def guarded_def assms by (rule refl)+

section \<open>Dropping code\<close>

lemma invalidate_all_ok:
  assumes "host_laws jh view" and "engine_base view e"
  obtains e' where "x86p_jit_engine_invalidate_all jh e = (True, e')" "engine_ok view e'" "same_config e e'"
    "view (en_cache e') = Map.empty" "x86p_jit_storage_room (en_storage e') = kX86pJitStorageRoom"
    "\<And>c. en_links e' = Some c \<Longrightarrow> ch_claimed c = 0"
proof -
  let ?e = "e\<lparr>en_cache := bc_flush (jh_cache jh) (en_cache e), en_links := map_option x86p_jit_chain_reset (en_links e),
      en_leaf_sites := map_option x86p_jit_leaf_sites_reset (en_leaf_sites e)\<rparr>"
  let ?f = "add_stats [(CacheFlushes, 1)] (?e\<lparr>en_storage := x86p_jit_storage_reset (en_storage e)\<rparr>)"
  note c = cache_lawsD [OF host_lawsD(1) [OF assms(1)]]
  have "bc_count (jh_cache jh) (bc_flush (jh_cache jh) (en_cache e)) = 0" using c(8,9) by simp
  then have i: "x86p_jit_engine_invalidate_all jh e = (True, ?f)"
    by (simp add: x86p_jit_engine_invalidate_all_def Let_def)
  have l: "chain_ok (x86p_jit_chain_reset x)" "ch_claimed (x86p_jit_chain_reset x) = 0"
    "slots_lead v n (x86p_jit_chain_reset x)" if "en_links e = Some x" for x v n
    using chain_reset [of x] assms(2) that by (simp_all add: engine_base_def)
  have "engine_ok view ?f" unfolding engine_ok_def add_stats_keeps
    using assms(2) storage_reset(1) l by (auto simp: engine_base_def links_lead_def guarded_def c(8))
  moreover have "same_config e ?f" unfolding add_stats_keeps by (auto simp: same_config_def)
  moreover have "x86p_jit_storage_room (en_storage ?f) = kX86pJitStorageRoom"
    unfolding add_stats_keeps using assms(2) storage_reset(2) by (simp add: engine_base_def)
  moreover have "ch_claimed x = 0" if "en_links ?f = Some x" for x
    using that l unfolding add_stats_keeps by auto
  ultimately show ?thesis using that [OF i] c(8) by (simp add: add_stats_keeps)
qed

lemma unlink_all_ok:
  assumes "engine_base view e"
  shows "engine_ok view (unlink_all e)" "same_config e (unlink_all e)"
proof -
  have "chain_ok (x86p_jit_chain_unlink_all x) \<and> slots_lead v n (x86p_jit_chain_unlink_all x)" if "en_links e = Some x" for x v n
    using chain_unlink_all [of x] assms that by (simp add: engine_base_def)
  then show "engine_ok view (unlink_all e)" using assms
    by (auto simp: unlink_all_def engine_ok_def engine_base_def links_lead_def guarded_def)
  show "same_config e (unlink_all e)" by (auto simp: unlink_all_def same_config_def)
qed

lemma cache_shrinks:
  assumes "engine_base view e" and "view c' \<subseteq>\<^sub>m view (en_cache e)"
  shows "engine_base view (e\<lparr>en_cache := c'\<rparr>)"
proof -
  have "view (en_cache e) a = x" if "view c' a = x" "x \<noteq> None" for a x
    using assms(2) that by (auto simp: map_le_def dom_def)
  then show ?thesis using assms(1) by (fastforce simp: engine_base_def guarded_def)
qed

lemma drop_range_ok:
  assumes "host_laws jh view" and "engine_base view e" and "drop_range jh lo hi e = (n, e')"
  shows "engine_base view e' \<and> same_config e e' \<and> (engine_ok view e \<longrightarrow> engine_ok view e') \<and>
    (\<forall>a h l g. view (en_cache e') a = Some (h, l, g) \<longrightarrow> outside a l lo hi)"
proof -
  obtain c where i: "bc_invalidate_range (jh_cache jh) (en_cache e) lo hi = (n, c)"
    using assms(3) by (auto simp: drop_range_def Let_def split: prod.splits)
  note l = cache_lawsD(10-12) [OF host_lawsD(1) [OF assms(1)] i]
  let ?e = "e\<lparr>en_cache := c\<rparr>"
  have b: "engine_base view ?e" by (rule cache_shrinks [OF assms(2) l(1)])
  have s: "e\<lparr>en_cache := c, en_storage := x86p_jit_storage_invalidate lo hi (en_storage e)\<rparr> = ?e"
    by (cases e) (simp add: x86p_jit_storage_invalidate_def)
  have e': "e' = (if n \<noteq> 0 then unlink_all ?e else ?e)" using assms(3) i s by (auto simp: drop_range_def Let_def)
  have u: "engine_ok view (unlink_all ?e)" "same_config ?e (unlink_all ?e)" "en_cache (unlink_all ?e) = c"
    using unlink_all_ok [OF b] by (simp_all add: unlink_all_def)
  have k: "same_config e ?e" by (simp add: same_config_def)
  have "engine_ok view ?e" if "engine_ok view e" "n = 0"
    using that l(2) b by (simp add: engine_ok_def links_lead_def)
  then show ?thesis using u b k l(3) same_config_trans [OF k u(2)] unfolding e' by (auto simp: engine_ok_def)
qed

lemma invalidate_ok:
  assumes "host_laws jh view" and "engine_base view e"
  shows "engine_base view (x86p_jit_engine_invalidate jh lo hi e)" "same_config e (x86p_jit_engine_invalidate jh lo hi e)"
    "engine_ok view e \<Longrightarrow> engine_ok view (x86p_jit_engine_invalidate jh lo hi e)"
    "view (en_cache (x86p_jit_engine_invalidate jh lo hi e)) a = Some (h, l, g) \<Longrightarrow> outside a l lo hi"
proof -
  let ?e = "add_stats [(Invalidations, 1), (InvalidationBytes, ucast (hi - lo))] e"
  obtain n e' where d: "drop_range jh lo hi ?e = (n, e')" by fastforce
  have i: "x86p_jit_engine_invalidate jh lo hi e = add_stats [(InvalidationBlocksDropped, of_nat n)] e'"
    using d by (simp add: x86p_jit_engine_invalidate_def Let_def)
  have "engine_base view ?e" using assms(2) by (simp add: add_stats_keeps)
  note o = drop_range_ok [OF assms(1) this d]
  have s: "same_config e ?e" unfolding add_stats_keeps by (rule same_config_refl)
  show "engine_base view (x86p_jit_engine_invalidate jh lo hi e)" using o unfolding i add_stats_keeps by blast
  show "same_config e (x86p_jit_engine_invalidate jh lo hi e)"
    using o same_config_trans [OF s] unfolding i add_stats_keeps by blast
  show "engine_ok view e \<Longrightarrow> engine_ok view (x86p_jit_engine_invalidate jh lo hi e)"
    using o unfolding i engine_ok_def add_stats_keeps by blast
  show "view (en_cache (x86p_jit_engine_invalidate jh lo hi e)) a = Some (h, l, g) \<Longrightarrow> outside a l lo hi"
    using o unfolding i add_stats_keeps by blast
qed

lemma apply_event_ok:
  assumes "host_laws jh view" and "engine_base view e"
  shows "engine_base view (apply_event jh ev e) \<and> same_config e (apply_event jh ev e) \<and>
    (engine_ok view e \<longrightarrow> engine_ok view (apply_event jh ev e))"
proof (cases ev)
  case (Invalidate lo hi)
  then show ?thesis using invalidate_ok [OF assms] by (simp add: apply_event_def)
next
  case InvalidateAll
  obtain e' where "x86p_jit_engine_invalidate_all jh e = (True, e')" "engine_ok view e'" "same_config e e'"
    using invalidate_all_ok [OF assms] by metis
  then show ?thesis using InvalidateAll by (simp add: apply_event_def engine_ok_def)
next
  case (LeafFill i t)
  let ?e = "e\<lparr>en_leaf_sites := map_option (\<lambda>s. snd (x86p_jit_leaf_site_fill i t s)) (en_leaf_sites e)\<rparr>"
  have "engine_base view ?e = engine_base view e" "engine_ok view ?e = engine_ok view e" by (rule engine_frame; simp)+
  moreover have "same_config e ?e" by (simp add: same_config_def)
  ultimately show ?thesis using assms(2) LeafFill by (simp add: apply_event_def)
qed

lemma apply_events_ok:
  assumes "host_laws jh view" and "engine_base view e"
  shows "engine_base view (apply_events jh evs e) \<and> same_config e (apply_events jh evs e) \<and>
    (engine_ok view e \<longrightarrow> engine_ok view (apply_events jh evs e))"
  unfolding apply_events_def using assms(2)
proof (induction evs arbitrary: e)
  case (Cons ev evs)
  then show ?case using apply_event_ok [OF assms(1) Cons.prems, of ev] same_config_trans by fastforce
qed (simp add: same_config_refl)

section \<open>Room\<close>

lemma room_loop_ok:
  assumes "host_laws jh view" and "engine_base view e"
  obtains e' where "room_loop jh e = Some (True, e')" "engine_base view e'" "same_config e e'"
    "engine_ok view e \<longrightarrow> engine_ok view e'"
    "view (en_cache e') \<subseteq>\<^sub>m view (en_cache e)"
proof (cases "x86p_jit_storage_room (en_storage e) = kX86pJitStorageRoom")
  case True
  then have "room_loop jh e = Some (True, e)" by (subst room_loop.simps) (simp add: room_turn_def)
  then show ?thesis by (rule that [OF _ assms(2) same_config_refl]) simp_all
next
  case False
  obtain e' where i: "x86p_jit_engine_invalidate_all jh e = (True, e')" "engine_ok view e'" "same_config e e'"
      "view (en_cache e') = Map.empty" "x86p_jit_storage_room (en_storage e') = kX86pJitStorageRoom"
    using invalidate_all_ok [OF assms] by metis
  have "room_turn jh e = Inr e'"
    using False i(1) by (simp add: room_turn_def x86p_jit_storage_evict_def Let_def)
  moreover have "room_loop jh e' = Some (True, e')" using i(5) by (subst room_loop.simps) (simp add: room_turn_def)
  ultimately have "room_loop jh e = Some (True, e')" by (subst room_loop.simps) simp
  then show ?thesis by (rule that) (use i in \<open>simp_all add: engine_ok_def\<close>)
qed

lemma evict_for_room_ok:
  assumes "host_laws jh view" and "engine_base view e"
  obtains e' where "evict_for_room jh e = Some (True, e')" "engine_base view e'" "same_config e e'"
    "engine_ok view e \<longrightarrow> engine_ok view e'"
    "view (en_cache e') \<subseteq>\<^sub>m view (en_cache e)"
proof (cases "\<exists>c. en_links e = Some c \<and> ch_claimed c + jh_chain_slots_per_block jh > ch_capacity c")
  case True
  obtain e1 where i: "x86p_jit_engine_invalidate_all jh e = (True, e1)" "engine_ok view e1" "same_config e e1"
      "view (en_cache e1) = Map.empty"
    using invalidate_all_ok [OF assms] by metis
  then have "engine_base view e1" by (simp add: engine_ok_def)
  from room_loop_ok [OF assms(1) this] obtain e2 where r: "room_loop jh e1 = Some (True, e2)" "engine_base view e2"
      "same_config e1 e2" "engine_ok view e1 \<longrightarrow> engine_ok view e2" "view (en_cache e2) \<subseteq>\<^sub>m view (en_cache e1)" .
  have "evict_for_room jh e = Some (True, e2)" using True i(1) r(1) by (auto simp: evict_for_room_def)
  moreover have "view (en_cache e2) \<subseteq>\<^sub>m view (en_cache e)" using map_le_trans [OF r(5)] i(4) by simp
  ultimately show ?thesis by (intro that [of e2]) (use r i same_config_trans in blast)+
next
  case False
  from room_loop_ok [OF assms] obtain e1 where r: "room_loop jh e = Some (True, e1)" "engine_base view e1"
      "same_config e e1" "engine_ok view e \<longrightarrow> engine_ok view e1" "view (en_cache e1) \<subseteq>\<^sub>m view (en_cache e)" .
  then have "evict_for_room jh e = Some (True, e1)" using False by (auto simp: evict_for_room_def split: option.split)
  then show ?thesis by (rule that) (use r in blast)+
qed

section \<open>Translating\<close>

lemma claims_ok:
  assumes "\<forall>c. links = Some c \<longrightarrow> chain_ok c"
  shows "(\<forall>c. claim_slots n links = Some c \<longrightarrow> chain_ok c)"
    "(\<forall>c. links = Some c \<longrightarrow> slots_lead v entry c) \<Longrightarrow> (\<forall>c. claim_slots n links = Some c \<longrightarrow> slots_lead v entry c)"
    "claim_slots n links = None \<longleftrightarrow> links = None"
  using assms chain_claims by (auto simp: claim_slots_def)

lemma add_stats_append: "add_stats k (add_stats l e) = add_stats (l @ k) e"
  by (simp add: add_stats_def)

text \<open>A translation is recorded at an address that is free, or is dropped again when the block has run.\<close>

lemma record_block_ok:
  assumes "host_laws jh view" and "engine_base view e" and "live_code (en_storage e) (jb_entry blk)"
  obtains st host e' w' where "record_block jh eip blk e w = Some (st, host, e', w')" "engine_base view e'" "same_config e e'"
    "engine_ok view e \<and> (view (en_cache e) eip = None \<or> host = 0) \<longrightarrow> engine_ok view e'" "st = kX86pJitOk"
proof -
  note c = cache_lawsD [OF host_lawsD(1) [OF assms(1)]]
  obtain ins cache where i: "bc_insert (jh_cache jh) (en_cache e) eip (jb_entry blk) (jb_guest_len blk) = (ins, cache)" by fastforce
  note v = c(6) [OF i]
  show ?thesis
  proof (cases ins)
    case False
    have "engine_base view (e\<lparr>en_cache := cache\<rparr>)" using cache_shrinks [OF assms(2)] v False by simp
    from invalidate_all_ok [OF assms(1) this] obtain e' where
      e': "x86p_jit_engine_invalidate_all jh (e\<lparr>en_cache := cache\<rparr>) = (True, e')" "engine_ok view e'"
        "same_config (e\<lparr>en_cache := cache\<rparr>) e'" by metis
    have "record_block jh eip blk e w = Some (kX86pJitOk, 0, e', w)"
      using i False e'(1) by (simp add: record_block_def)
    moreover have "same_config e e'" using e'(3) by (simp add: same_config_def)
    ultimately show ?thesis using that e'(2) by (simp add: engine_ok_def)
  next
    case True
    let ?b = "en_run_stop e \<noteq> None \<and> (case en_boundary e of None \<Rightarrow> False | Some f \<Rightarrow> f eip)"
    let ?g = "if ?b then bc_guard (jh_cache jh) cache eip else cache"
    have vg: "view ?g = (view (en_cache e))(eip \<mapsto> (jb_entry blk, jb_guest_len blk, ?b))"
      using v True c(7) [of cache eip] by auto
    obtain ch where ch: "(case en_chain e of None \<Rightarrow> Some None
        | Some c \<Rightarrow> map_option Some (x86p_jit_chain_census_note_block eip (jb_static_targets blk)
            (jb_static_targets_overflowed blk) c)) = Some ch" "\<forall>c. ch = Some c \<longrightarrow> census_ok c" "ch = None \<longleftrightarrow> en_chain e = None"
    proof (cases "en_chain e")
      case (Some c)
      then have "census_ok c" using assms(2) by (simp add: engine_base_def)
      then show ?thesis using that note_block_spec Some by fastforce
    qed (use that in simp)
    define l where "l = (if ?b then [(BlocksGuarded, 1)] else []) @ block_stats blk"
    let ?e = "(add_stats l (e\<lparr>en_cache := ?g\<rparr>))\<lparr>en_chain := ch\<rparr>"
    let ?w = "case en_translate_watch e of None \<Rightarrow> w | Some f \<Rightarrow> f eip (jb_entry blk) (jb_host_bytes blk) w"
    have f: "en_cache ?e = ?g" "en_storage ?e = en_storage e" "en_links ?e = en_links e" "en_profile ?e = en_profile e"
      "en_run_stop ?e = en_run_stop e" "en_boundary ?e = en_boundary e" "en_chain_entry ?e = en_chain_entry e"
      "en_chain ?e = ch"
      by (simp_all add: add_stats_def)
    have r: "record_block jh eip blk e w = Some (kX86pJitOk, jb_entry blk, ?e, ?w)"
    proof (cases ?b)
      case b: True
      have "record_block jh eip blk e w =
          (case en_chain e of None \<Rightarrow> Some None
           | Some c \<Rightarrow> map_option Some (x86p_jit_chain_census_note_block eip (jb_static_targets blk)
               (jb_static_targets_overflowed blk) c)) \<bind>
          (\<lambda>ch. Some (kX86pJitOk, jb_entry blk, (add_stats l (e\<lparr>en_cache := bc_guard (jh_cache jh) cache eip\<rparr>))\<lparr>en_chain := ch\<rparr>, ?w))"
        using i True b unfolding record_block_def l_def
        by (auto simp: Let_def add_stats_def)
      then show ?thesis unfolding ch(1) if_P [OF b] by simp
    next
      case b: False
      have "record_block jh eip blk e w =
          (case en_chain e of None \<Rightarrow> Some None
           | Some c \<Rightarrow> map_option Some (x86p_jit_chain_census_note_block eip (jb_static_targets blk)
               (jb_static_targets_overflowed blk) c)) \<bind>
          (\<lambda>ch. Some (kX86pJitOk, jb_entry blk, (add_stats l (e\<lparr>en_cache := cache\<rparr>))\<lparr>en_chain := ch\<rparr>, ?w))"
        using i True b unfolding record_block_def l_def by (auto simp: Let_def add_stats_def)
      then show ?thesis unfolding ch(1) if_not_P [OF b] by simp
    qed
    have base: "engine_base view ?e"
      unfolding engine_base_def guarded_def f vg
      using assms(2,3) ch(2) by (auto simp: engine_base_def guarded_def split: if_splits)
    have conf: "same_config e ?e" using ch(3) by (simp add: same_config_def add_stats_def)
    have "engine_ok view ?e" if "engine_ok view e" "view (en_cache e) eip = None"
    proof -
      have "slots_lead (view ?g) (en_chain_entry e) c" if c: "en_links e = Some c" for c
      proof (rule slots_lead_mono)
        show "slots_lead (view (en_cache e)) (en_chain_entry e) c"
          using \<open>engine_ok view e\<close> c by (simp add: engine_ok_def links_lead_def)
        show "view ?g a = Some (h, l, False)" if "view (en_cache e) a = Some (h, l, False)" for a h l
          unfolding vg using that \<open>view (en_cache e) eip = None\<close> by auto
      qed
      then show ?thesis using base unfolding engine_ok_def links_lead_def f by blast
    qed
    moreover have "jb_entry blk \<noteq> 0" using live_code_not_null [OF _ assms(3)] assms(2) by (simp add: engine_base_def)
    ultimately show ?thesis by (intro that [OF r base conf]) auto
  qed
qed


lemma storage_grown:
  assumes "engine_base view e" "storage_ok st" "\<forall>x. live_code (en_storage e) x \<longrightarrow> live_code st x"
    and "\<forall>c. links = Some c \<longrightarrow> chain_ok c"
  shows "engine_base view (e\<lparr>en_memory := h, en_storage := st, en_links := links, en_leaf_sites := sites\<rparr>)"
  using assms by (auto simp: engine_base_def guarded_def)

lemma translate_at_ok:
  assumes "host_laws jh view" and "engine_base view e"
  obtains st host e' w' where "translate_at jh eip e w = Some (st, host, e', w')" "engine_base view e'" "same_config e e'"
    "engine_ok view e \<and> (view (en_cache e) eip = None \<or> host = 0) \<longrightarrow> engine_ok view e'" "host \<noteq> 0 \<longrightarrow> st = kX86pJitOk"
proof -
  from evict_for_room_ok [OF assms] obtain e1 where r: "evict_for_room jh e = Some (True, e1)" "engine_base view e1"
      "same_config e e1" "engine_ok view e \<longrightarrow> engine_ok view e1" "view (en_cache e1) \<subseteq>\<^sub>m view (en_cache e)" by metis
  let ?env = "\<lparr>te_boundary = en_boundary e1, te_leaf = en_leaf e1\<rparr>"
  obtain st blk h storage links sites where t:
      "x86p_jit_storage_translate (jh_code jh) (jh_translate jh) w eip ?env no_block (en_memory e1) (en_storage e1)
         (en_links e1) (en_leaf_sites e1) = (st, blk, h, storage, links, sites)" by (metis prod_cases6)
  have sok: "storage_ok (en_storage e1)" using r(2) by (simp add: engine_base_def)
  note t' = storage_translate_ok [OF host_lawsD(2,3) [OF assms(1)] sok t]
  have chains: "\<forall>c. en_links e1 = Some c \<longrightarrow> chain_ok c" using r(2) by (simp add: engine_base_def)
  obtain n where nk: "links = claim_slots n (en_links e1)"
    using t' [THEN conjunct2, THEN conjunct2, THEN conjunct2] by blast
  let ?e = "e1\<lparr>en_memory := h, en_storage := storage, en_links := links, en_leaf_sites := sites\<rparr>"
  have l1: "\<forall>c. links = Some c \<longrightarrow> chain_ok c" and l3: "links = None \<longleftrightarrow> en_links e1 = None"
    unfolding nk using claims_ok(1,3) [OF chains] by blast+
  have l2: "slots_lead v en c" if "\<forall>c. en_links e1 = Some c \<longrightarrow> slots_lead v en c" "links = Some c" for v en c
    using claims_ok(2) [OF chains that(1), of n] that(2) unfolding nk by blast
  have b: "engine_base view ?e"
    by (rule storage_grown [OF r(2) t' [THEN conjunct1] t' [THEN conjunct2, THEN conjunct1] l1])
  have c: "same_config e ?e" using r(3) l3 by (simp add: same_config_def)
  have o: "engine_ok view ?e" if "engine_ok view e"
  proof -
    have "links_lead view e1" using r(4) that by (simp add: engine_ok_def)
    then have "\<forall>c. en_links e1 = Some c \<longrightarrow> slots_lead (view (en_cache e1)) (en_chain_entry e1) c" by (simp add: links_lead_def)
    from l2 [OF this] have "links_lead view ?e" by (simp add: links_lead_def)
    then show ?thesis using b by (simp add: engine_ok_def)
  qed
  show ?thesis
  proof (cases "st = kX86pJitOk")
    case False
    let ?claimed = "case en_links e1 of None \<Rightarrow> 0 | Some c \<Rightarrow> ch_claimed c"
    let ?f = "?e\<lparr>en_links := map_option (x86p_jit_chain_rewind ?claimed) links,
        en_leaf_sites := map_option (x86p_jit_leaf_sites_rewind (x86p_jit_leaf_sites_mark (en_leaf_sites e1))) sites\<rparr>"
    have "translate_at jh eip e w = Some (st, 0, ?f, w)"
      using False t by (simp add: translate_at_def r(1) Let_def)
    moreover have "engine_base view ?f" using b chain_rewind(1) by (auto simp: engine_base_def guarded_def)
    moreover have "same_config e ?f" using c by (simp add: same_config_def)
    moreover have "engine_ok view ?f" if "engine_ok view e"
      using o [OF that] \<open>engine_base view ?f\<close> b chain_rewind(2) by (auto simp: engine_ok_def links_lead_def engine_base_def)
    ultimately show ?thesis by (intro that) auto
  next
    case True
    have "live_code (en_storage ?e) (jb_entry blk)" using t' True by simp
    from record_block_ok [OF assms(1) b this] obtain s host e' w' where
      rb: "record_block jh eip blk ?e w = Some (s, host, e', w')" "engine_base view e'" "same_config ?e e'"
        "engine_ok view ?e \<and> (view (en_cache ?e) eip = None \<or> host = 0) \<longrightarrow> engine_ok view e'" "s = kX86pJitOk" by metis
    have "translate_at jh eip e w = Some (s, host, e', w')"
      using True t rb(1) by (simp add: translate_at_def r(1) Let_def)
    moreover have "view (en_cache e) eip = None \<Longrightarrow> view (en_cache ?e) eip = None"
      using map_le_None [OF r(5), of eip] by simp
    ultimately show ?thesis using rb o same_config_trans [OF c] by (intro that) auto
  qed
qed


section \<open>One turn\<close>

text \<open>The states between turns, and those of one run.\<close>

definition run_ok :: "'c cache_view \<Rightarrow> ('c, 'm, 'w) engine \<Rightarrow> ('c, 'm, 'w) run \<Rightarrow> bool" where
  "run_ok view e r \<longleftrightarrow> engine_ok view (rn_engine r) \<and> same_config e (rn_engine r)"

lemma link_pending_ok:
  assumes "engine_ok view e" and "view (en_cache e) guest = Some (host, l, False)"
  shows "engine_ok view (link_pending p guest host e)" "same_config e (link_pending p guest host e)"
    "en_cache (link_pending p guest host e) = en_cache e"
proof -
  have "chain_ok (x86p_jit_chain_link n guest (host + of_nat (en_chain_entry e)) c) \<and>
      slots_lead (view (en_cache e)) (en_chain_entry e) (x86p_jit_chain_link n guest (host + of_nat (en_chain_entry e)) c)"
    if "en_links e = Some c" for c n
    using chain_link [of c "view (en_cache e)" guest host l "en_chain_entry e" n] assms that
    by (simp add: engine_ok_def engine_base_def links_lead_def)
  then show "engine_ok view (link_pending p guest host e)" using assms(1)
    unfolding link_pending_def by (cases "en_links e") (auto simp: add_stats_def engine_defs)
qed (auto simp: link_pending_def add_stats_def same_config_def split: option.split)

lemma fast_path_ok:
  assumes "host_laws jh view" and "run_ok view e r" and "fast_path jh contract linking stop r = (host, r')"
  shows "run_ok view e r'" "rn_cpu r' = rn_cpu r" "rn_world r' = rn_world r" "rn_steps r' = rn_steps r"
    "rn_retries r' = rn_retries r"
    "host \<noteq> 0 \<longrightarrow> contract \<and> c_eip (rn_cpu r) \<noteq> stop \<and> (\<exists>l. view (en_cache (rn_engine r)) (c_eip (rn_cpu r)) = Some (host, l, False))"
proof -
  let ?eip = "c_eip (rn_cpu r)"
  obtain h c where b: "bc_lookup_refusing (jh_cache jh) (en_cache (rn_engine r)) ?eip = (h, c)" by fastforce
  note l = cache_lawsD(4,5) [OF host_lawsD(1) [OF assms(1)] b]
  let ?e = "(rn_engine r)\<lparr>en_cache := c\<rparr>"
  have e: "engine_ok view ?e" using assms(2) cache_same_view(1) [OF l(1)] by (simp add: run_ok_def)
  have s: "same_config e ?e" using assms(2) by (simp add: run_ok_def cache_same_view(2))
  have k: "engine_ok view (link_pending p ?eip h ?e) \<and> same_config ?e (link_pending p ?eip h ?e)" if "h \<noteq> 0" for p
    using link_pending_ok [OF e, of ?eip h] l that by auto
  show "run_ok view e r'"
    using assms(2,3) b e s k same_config_trans [OF s] by (auto simp: fast_path_def Let_def run_ok_def split: if_splits)
  show "rn_cpu r' = rn_cpu r" "rn_world r' = rn_world r" "rn_steps r' = rn_steps r" "rn_retries r' = rn_retries r"
    using assms(3) b by (auto simp: fast_path_def Let_def split: if_splits)
  show "host \<noteq> 0 \<longrightarrow> contract \<and> ?eip \<noteq> stop \<and> (\<exists>l. view (en_cache (rn_engine r)) ?eip = Some (host, l, False))"
    using assms(3) b l(2) by (auto simp: fast_path_def Let_def split: if_splits)
qed

lemma ask_intercept_ok:
  assumes "host_laws jh view" and "run_ok view e r" and "ask_intercept jh r = (f, r')"
  shows "run_ok view e r'"
    "f = Enter h \<Longrightarrow> rn_cpu r' = rn_cpu r \<and> rn_steps r' = rn_steps r \<and> rn_retries r' = rn_retries r"
    "f = Continue \<Longrightarrow> rn_steps r' = rn_steps r + 1 \<and> rn_retries r' = rn_retries r"
    "f = Return s \<Longrightarrow> s \<noteq> kX86pRunBudget \<and> rn_steps r' = rn_steps r"
    "f = Enter h \<Longrightarrow> en_intercept e = Some g \<Longrightarrow> \<not> fst (g (rn_world r) (rn_cpu r))"
proof -
  let ?i = "en_intercept (rn_engine r)"
  have i: "?i = en_intercept e" using assms(2) by (simp add: run_ok_def same_config_def)
  have ev: "run_ok view e (x\<lparr>rn_engine := apply_events jh evs (rn_engine x)\<rparr>)" if "run_ok view e x" for x evs
    using that apply_events_ok [OF assms(1), of "rn_engine x" evs] same_config_trans by (auto simp: run_ok_def engine_ok_def)
  have world: "run_ok view e (x\<lparr>rn_world := w\<rparr>) = run_ok view e x" "run_ok view e (x\<lparr>rn_cpu := c\<rparr>) = run_ok view e x"
      "run_ok view e (x\<lparr>rn_steps := n\<rparr>) = run_ok view e x" for x w c n
    by (simp_all add: run_ok_def)
  have "run_ok view e (r\<lparr>rn_engine := add_stats [(InterceptCalls, 1)] (rn_engine r)\<rparr>)"
    using assms(2) by (simp add: run_ok_def engine_ok_def add_stats_keeps)
  note ev1 = ev [OF this]
  show "run_ok view e r'"
  proof (cases ?i)
    case None
    then show ?thesis using assms(2,3) by (simp add: ask_intercept_def)
  next
    case (Some g)
    obtain t w evs where g: "g (rn_world r) (rn_cpu r) = (t, w, evs)" by (metis prod_cases3)
    let ?r = "r\<lparr>rn_engine := apply_events jh evs (add_stats [(InterceptCalls, 1)] (rn_engine r)), rn_world := w\<rparr>"
    have r1: "run_ok view e ?r" using ev1 [of evs] by (simp add: run_ok_def)
    show ?thesis
    proof (cases "t \<and> en_dispatch (rn_engine ?r) \<noteq> None")
      case False
      then show ?thesis using assms(3) Some g r1 by (auto simp: ask_intercept_def Let_def split: if_splits)
    next
      case True
      then obtain d where d: "en_dispatch (rn_engine ?r) = Some d" by blast
      obtain c cpu v evs' where x: "d (rn_world ?r) (rn_cpu ?r) = (c, cpu, v, evs')" by (metis prod_cases4)
      have "run_ok view e (?r\<lparr>rn_engine := apply_events jh evs' (rn_engine ?r), rn_cpu := cpu, rn_world := v\<rparr>)"
        using ev [OF r1, of evs'] by (simp add: run_ok_def)
      then show ?thesis using assms(3) Some g True d x by (auto simp: ask_intercept_def Let_def run_ok_def split: if_splits)
    qed
  qed
  show "f = Enter h \<Longrightarrow> rn_cpu r' = rn_cpu r \<and> rn_steps r' = rn_steps r \<and> rn_retries r' = rn_retries r"
    "f = Continue \<Longrightarrow> rn_steps r' = rn_steps r + 1 \<and> rn_retries r' = rn_retries r"
    "f = Return s \<Longrightarrow> s \<noteq> kX86pRunBudget \<and> rn_steps r' = rn_steps r"
    "f = Enter h \<Longrightarrow> en_intercept e = Some g \<Longrightarrow> \<not> fst (g (rn_world r) (rn_cpu r))"
    using assms(3) i by (auto simp: ask_intercept_def Let_def split: option.splits prod.splits if_splits)
qed


definition run_base :: "'c cache_view \<Rightarrow> ('c, 'm, 'w) engine \<Rightarrow> ('c, 'm, 'w) run \<Rightarrow> bool" where
  "run_base view e r \<longleftrightarrow> engine_base view (rn_engine r) \<and> same_config e (rn_engine r) \<and>
     (\<not> en_cache_disabled e \<longrightarrow> engine_ok view (rn_engine r))"

lemma run_ok_base: "run_ok view e r \<Longrightarrow> run_base view e r"
  by (simp add: run_ok_def run_base_def engine_ok_def)

lemma look_up_ok:
  assumes "host_laws jh view" and "run_ok view e r" and "look_up jh r = (host, r')"
  shows "run_ok view e r'" "rn_cpu r' = rn_cpu r" "rn_steps r' = rn_steps r" "rn_retries r' = rn_retries r"
    "host = 0 \<longrightarrow> en_cache_disabled e \<or> view (en_cache (rn_engine r')) (c_eip (rn_cpu r')) = None"
proof -
  obtain h c where b: "bc_lookup (jh_cache jh) (en_cache (rn_engine r)) (c_eip (rn_cpu r)) = (h, c)" by fastforce
  note l = cache_lawsD(2,3) [OF host_lawsD(1) [OF assms(1)] b]
  have d: "en_cache_disabled (rn_engine r) = en_cache_disabled e" using assms(2) by (simp add: run_ok_def same_config_def)
  show "run_ok view e r'" using assms(2,3) b cache_same_view(1) [OF l(1)]
    by (auto simp: look_up_def run_ok_def Let_def cache_same_view(2) split: if_splits)
  show "rn_cpu r' = rn_cpu r" "rn_steps r' = rn_steps r" "rn_retries r' = rn_retries r"
    using assms(3) b by (auto simp: look_up_def Let_def split: if_splits)
  show "host = 0 \<longrightarrow> en_cache_disabled e \<or> view (en_cache (rn_engine r')) (c_eip (rn_cpu r')) = None"
  proof (intro impI disjCI)
    assume h: "host = 0" and n: "view (en_cache (rn_engine r')) (c_eip (rn_cpu r')) \<noteq> None"
    show "en_cache_disabled e"
    proof (rule ccontr)
      assume e: "\<not> en_cache_disabled e"
      then have r': "host = h" "en_cache (rn_engine r') = c" "rn_cpu r' = rn_cpu r"
        using assms(3) b d by (auto simp: look_up_def Let_def)
      then obtain x y z where v: "view (en_cache (rn_engine r)) (c_eip (rn_cpu r)) = Some (x, y, z)" using n l(1) by auto
      then have "live_code (en_storage (rn_engine r)) x" using assms(2) by (auto simp: run_ok_def engine_ok_def engine_base_def)
      then have "x \<noteq> 0" using live_code_not_null assms(2) by (auto simp: run_ok_def engine_ok_def engine_base_def)
      then show False using l(2) v h r'(1) by simp
    qed
  qed
qed

lemma translate_now_ok:
  assumes "host_laws jh view" and "run_ok view e r"
    and "en_cache_disabled e \<or> view (en_cache (rn_engine r)) (c_eip (rn_cpu r)) = None"
  obtains f r' where "translate_now jh r = Some (f, r')" "run_base view e r'"
    "\<And>h. f = Enter h \<Longrightarrow> rn_cpu r' = rn_cpu r \<and> rn_steps r' = rn_steps r"
    "\<And>s. f = Return s \<Longrightarrow> s \<noteq> kX86pRunBudget \<and> rn_steps r' = rn_steps r"
    "f = Continue \<Longrightarrow> rn_steps r' = rn_steps r \<and> rn_retries r' = rn_retries r + 1 \<and> rn_retries r' \<le> 1"
    "\<forall>h. f \<noteq> Enter h \<Longrightarrow> run_ok view e r'"
proof -
  have base: "engine_base view (rn_engine r)" using assms(2) by (simp add: run_ok_def engine_ok_def)
  from translate_at_ok [OF assms(1) base, of "c_eip (rn_cpu r)" "rn_world r"] obtain st host e' w' where
    t: "translate_at jh (c_eip (rn_cpu r)) (rn_engine r) (rn_world r) = Some (st, host, e', w')" "engine_base view e'"
      "same_config (rn_engine r) e'"
      "engine_ok view (rn_engine r) \<and> (view (en_cache (rn_engine r)) (c_eip (rn_cpu r)) = None \<or> host = 0) \<longrightarrow> engine_ok view e'"
      "host \<noteq> 0 \<longrightarrow> st = kX86pJitOk" .
  let ?r = "r\<lparr>rn_engine := e', rn_world := w'\<rparr>"
  have c: "same_config e e'" using t(3) assms(2) same_config_trans by (auto simp: run_ok_def)
  have b: "run_base view e ?r" using t(2,4) c assms(2,3) by (auto simp: run_base_def run_ok_def)
  have o: "run_ok view e ?r" if "host = 0" using t(4) that assms(2) c by (simp add: run_ok_def)
  have "\<exists>f r'. translate_now jh r = Some (f, r') \<and> run_base view e r' \<and>
      (\<forall>h. f = Enter h \<longrightarrow> rn_cpu r' = rn_cpu r \<and> rn_steps r' = rn_steps r) \<and>
      (\<forall>s. f = Return s \<longrightarrow> s \<noteq> kX86pRunBudget \<and> rn_steps r' = rn_steps r) \<and>
      (f = Continue \<longrightarrow> rn_steps r' = rn_steps r \<and> rn_retries r' = rn_retries r + 1 \<and> rn_retries r' \<le> 1) \<and>
      ((\<forall>h. f \<noteq> Enter h) \<longrightarrow> run_ok view e r')"
  proof (cases "host = 0")
    case False
    then show ?thesis using t(1) b by (simp add: translate_now_def)
  next
    case True
    have k: "run_ok view e (?r\<lparr>rn_retries := n\<rparr>)" "run_base view e (?r\<lparr>rn_retries := n\<rparr>)"
      "run_ok view e (?r\<lparr>rn_engine := add_stats l e'\<rparr>)" "run_base view e (?r\<lparr>rn_engine := add_stats l e'\<rparr>)" for n l
      using o [OF True] by (simp_all add: run_ok_def run_base_def engine_ok_def add_stats_keeps)
    show ?thesis using t(1) True k o b
      by (cases st) (auto simp: translate_now_def retry_def Let_def simp del: split_paired_Ex)
  qed
  then show ?thesis by (elim exE conjE) (rule that, blast+)
qed

end
