(* ===== verification/X86_Jit_Engine_Properties.thy ===== *)
theory X86_Jit_Engine_Properties
  imports X86_Jit_Engine_Steps
begin

text \<open>
  What the dispatcher promises: a run returns within its budget, the exit slots it links only lead to
  live translations the embedder does not take over, it never enters a block the embedder's intercept
  would have stopped, and an invalidation leaves nothing of the range behind.
\<close>

section \<open>Finding and entering a block\<close>

lemma find_host_ok:
  assumes "host_laws jh view" and "run_ok view e r"
  obtains f r' where "find_host jh contract linking stop r = Some (f, r')" "run_base view e r'"
    "\<And>h. f = Enter h \<Longrightarrow> rn_cpu r' = rn_cpu r \<and> rn_steps r' = rn_steps r"
    "\<And>s. f = Return s \<Longrightarrow> s \<noteq> kX86pRunBudget \<and> rn_steps r' = rn_steps r"
    "f = Continue \<Longrightarrow> rn_steps r' = rn_steps r + 1 \<and> rn_retries r' = rn_retries r \<or>
       rn_steps r' = rn_steps r \<and> rn_retries r' = rn_retries r + 1 \<and> rn_retries r' \<le> 1"
    "\<forall>h. f \<noteq> Enter h \<Longrightarrow> run_ok view e r'"
proof -
  obtain host r1 where a: "fast_path jh contract linking stop r = (host, r1)" by fastforce
  note fa = fast_path_ok [OF assms a]
  show ?thesis
  proof (cases "host = 0")
    case False
    then have "find_host jh contract linking stop r = Some (Enter host, r1)" by (simp add: find_host_def a)
    then show ?thesis by (rule that) (use fa run_ok_base in auto)
  next
    case h: True
    obtain f2 r2 where b: "ask_intercept jh r1 = (f2, r2)" by fastforce
    note fb = ask_intercept_ok [OF assms(1) fa(1) b]
    show ?thesis
    proof (cases f2)
      case (Return s)
      then have "find_host jh contract linking stop r = Some (Return s, r2)" by (simp add: find_host_def a h b)
      then show ?thesis by (rule that) (use fa fb Return run_ok_base in auto)
    next
      case Continue
      then have "find_host jh contract linking stop r = Some (Continue, r2)" by (simp add: find_host_def a h b)
      then show ?thesis by (rule that) (use fa fb Continue run_ok_base in auto)
    next
      case (Enter x)
      obtain host2 r3 where c: "look_up jh r2 = (host2, r3)" by fastforce
      note fc = look_up_ok [OF assms(1) fb(1) c]
      note eb = fb(2) [OF Enter]
      show ?thesis
      proof (cases "host2 = 0")
        case False
        then have "find_host jh contract linking stop r = Some (Enter host2, r3)" by (simp add: find_host_def a h b Enter c)
        then show ?thesis by (rule that) (use fa eb fc run_ok_base in auto)
      next
        case True
        then have free: "en_cache_disabled e \<or> view (en_cache (rn_engine r3)) (c_eip (rn_cpu r3)) = None" using fc(5) by simp
        from translate_now_ok [OF assms(1) fc(1) this] obtain f r4 where t: "translate_now jh r3 = Some (f, r4)" "run_base view e r4"
          "\<And>h. f = Enter h \<Longrightarrow> rn_cpu r4 = rn_cpu r3 \<and> rn_steps r4 = rn_steps r3"
          "\<And>s. f = Return s \<Longrightarrow> s \<noteq> kX86pRunBudget \<and> rn_steps r4 = rn_steps r3"
          "f = Continue \<Longrightarrow> rn_steps r4 = rn_steps r3 \<and> rn_retries r4 = rn_retries r3 + 1 \<and> rn_retries r4 \<le> 1"
          "\<forall>h. f \<noteq> Enter h \<Longrightarrow> run_ok view e r4" by blast
        have "find_host jh contract linking stop r = Some (f, r4)"
          using t(1) True by (simp add: find_host_def a h b Enter c)
        then show ?thesis by (rule that) (use fa eb fc t in auto)
      qed
    qed
  qed
qed

lemma transfers_bound:
  assumes "budget \<le> allowed" and "allowed \<noteq> 0" and "cr_budget run = budget"
  shows "unat (chained_transfers run allowed) < unat allowed"
proof (cases "budget = 0")
  case True
  then show ?thesis using assms by (simp add: chained_transfers_def unat_minus_one unat_gt_0)
next
  case False
  then have "unat (allowed - budget) = unat allowed - unat budget" "0 < unat budget" "unat budget \<le> unat allowed"
    using assms(1) by (simp_all add: unat_sub unat_gt_0 word_le_nat_alt)
  then show ?thesis using assms False by (simp add: chained_transfers_def)
qed

lemma allowed_bound:
  assumes "call_laws jh" and "rn_steps r < max_steps"
  shows "transfers_allowed jh linking max_steps r \<noteq> 0"
    "unat (transfers_allowed jh linking max_steps r) \<le> unat max_steps - unat (rn_steps r)"
proof -
  have l: "unat (max_steps - rn_steps r) = unat max_steps - unat (rn_steps r)" "max_steps - rn_steps r \<noteq> 0"
    using assms(2) by (auto simp: unat_sub word_less_nat_alt word_le_nat_alt)
  show "transfers_allowed jh linking max_steps r \<noteq> 0"
    using l assms(1) by (simp add: transfers_allowed_def call_laws_def Let_def)
  show "unat (transfers_allowed jh linking max_steps r) \<le> unat max_steps - unat (rn_steps r)"
    using l assms(2) by (auto simp: transfers_allowed_def Let_def word_less_nat_alt)
qed


lemma run_base_same:
  "rn_engine r' = rn_engine r \<Longrightarrow> run_base view e r' = run_base view e r"
  by (simp add: run_base_def)

lemma watch_count_frame:
  "engine_base view (e\<lparr>en_watch_left := n\<rparr>) = engine_base view e" "engine_ok view (e\<lparr>en_watch_left := n\<rparr>) = engine_ok view e"
  "same_config x (e\<lparr>en_watch_left := n\<rparr>) = same_config x e"
  by ((rule engine_frame; simp), (rule engine_frame; simp), simp add: same_config_def)

lemma entry_watch_ok:
  "run_base view e (entry_watch r) = run_base view e r" "rn_cpu (entry_watch r) = rn_cpu r"
  "rn_steps (entry_watch r) = rn_steps r" "rn_retries (entry_watch r) = rn_retries r"
  "en_chain (rn_engine (entry_watch r)) = en_chain (rn_engine r)"
  by (simp_all add: entry_watch_def Let_def run_base_def watch_count_frame)

lemma header_ok:
  "engine_base view (e\<lparr>en_links := map_option (\<lambda>c. c\<lparr>ch_run := x\<rparr>) (en_links e)\<rparr>) = engine_base view e"
  "engine_ok view (e\<lparr>en_links := map_option (\<lambda>c. c\<lparr>ch_run := x\<rparr>) (en_links e)\<rparr>) = engine_ok view e"
  "same_config y (e\<lparr>en_links := map_option (\<lambda>c. c\<lparr>ch_run := x\<rparr>) (en_links e)\<rparr>) = same_config y e"
  by (cases "en_links e"; auto simp: engine_ok_def engine_base_def links_lead_def guarded_def same_config_def chain_run_update)+

lemma call_block_ok:
  assumes "host_laws jh view" and "run_base view e r" and "rn_steps r < max_steps"
    and "call_block jh linking stop max_steps host r = (x, transfers, r')"
  shows "run_base view e r'" "rn_steps r' = rn_steps r" "rn_retries r' = rn_retries r"
    "unat transfers < unat max_steps - unat (rn_steps r)"
proof -
  let ?e = "rn_engine r" and ?allowed = "transfers_allowed jh linking max_steps r" and ?before = "c_eip (rn_cpu r)"
  let ?h = "\<lparr>cr_budget = ?allowed, cr_stop = stop, cr_last = ?before, cr_pending = 0\<rparr>"
  let ?links = "map_option (\<lambda>c. c\<lparr>ch_run := ?h\<rparr>) (en_links ?e)"
  let ?res = "jh_call jh host (rn_world r) (rn_cpu r) (en_cache ?e) ?links (en_leaf_sites ?e)"
  define e1 where "e1 = ?e\<lparr>en_links := ?links\<rparr>"
  define e2 where "e2 = apply_events jh (cl_events ?res) e1"
  define e3 where "e3 = e2\<lparr>en_links := map_option (\<lambda>c. c\<lparr>ch_run := cl_run ?res\<rparr>) (en_links e2)\<rparr>"
  define t where "t = (case en_links e3 of None \<Rightarrow> 0 | Some c \<Rightarrow> chained_transfers (ch_run c) ?allowed)"
  define e4 where "e4 = (if en_stats e3 BlocksEntered \<noteq> 0 \<and> ?before = en_last_entry e3 then add_stats [(BlocksReentered, 1)] e3 else e3)"
  define e5 where "e5 = e4\<lparr>en_last_entry := (if t \<noteq> 0 then cr_last (cl_run ?res) else ?before)\<rparr>"
  define e6 where "e6 = add_stats [(BlocksEntered, 1 + t), (BlocksChained, t)] e5"
  define p where "p = (if en_links e6 \<noteq> None \<and> cr_pending (cl_run ?res) \<noteq> 0
      then \<lparr>pd_slot = cr_pending (cl_run ?res), pd_flushes = en_stats e6 CacheFlushes\<rparr> else rn_pending r)"
  have whole: "call_block jh linking stop max_steps host r =
      (cl_exit ?res, t, r\<lparr>rn_engine := e6, rn_cpu := cl_cpu ?res, rn_world := cl_world ?res, rn_pending := p\<rparr>)"
    unfolding call_block_def Let_def p_def e6_def e5_def e4_def t_def e3_def e2_def e1_def by (rule refl)
  have r': "transfers = t" "rn_engine r' = e6" "rn_steps r' = rn_steps r" "rn_retries r' = rn_retries r"
    using assms(4) whole by auto
  show "rn_steps r' = rn_steps r" "rn_retries r' = rn_retries r" by fact+
  have b1: "engine_base view e1" "same_config e e1" "\<not> en_cache_disabled e \<longrightarrow> engine_ok view e1"
    using assms(2) unfolding e1_def header_ok run_base_def by blast+
  note ev = apply_events_ok [OF assms(1) b1(1), of "cl_events ?res", folded e2_def]
  have b2: "engine_base view e2 \<and> same_config e e2 \<and> (\<not> en_cache_disabled e \<longrightarrow> engine_ok view e2)"
    using ev b1 same_config_trans by blast
  have b3: "engine_base view e3 \<and> same_config e e3 \<and> (\<not> en_cache_disabled e \<longrightarrow> engine_ok view e3)"
    using b2 unfolding e3_def header_ok .
  have b4: "engine_base view e4 \<and> same_config e e4 \<and> (\<not> en_cache_disabled e \<longrightarrow> engine_ok view e4)"
    using b3 unfolding e4_def engine_ok_def by (simp add: add_stats_keeps)
  have f: "engine_base view e5 = engine_base view e4" "engine_ok view e5 = engine_ok view e4"
    by (rule engine_frame; simp add: e5_def)+
  have s: "same_config e e5 = same_config e e4" by (simp add: e5_def same_config_def)
  have "engine_base view e6 \<and> same_config e e6 \<and> (\<not> en_cache_disabled e \<longrightarrow> engine_ok view e6)"
    using b4 unfolding e6_def engine_ok_def add_stats_keeps s f(1) [symmetric] using f unfolding engine_ok_def by blast
  then show "run_base view e r'" by (simp add: run_base_def r'(2))
  note a = allowed_bound [OF host_lawsD(4) [OF assms(1)] assms(3), of linking]
  have "unat t < unat max_steps - unat (rn_steps r)"
  proof (cases "en_links e3")
    case None
    then show ?thesis using assms(3) by (simp add: t_def word_less_nat_alt)
  next
    case (Some c)
    then have c: "ch_run c = cl_run ?res" by (auto simp: e3_def)
    have "en_links ?e \<noteq> None"
      using b3 b1(2) Some by (auto simp: same_config_def e1_def)
    then obtain l where l: "?links = Some l" "ch_run l = ?h" by auto
    have "cr_budget (cl_run ?res) \<le> ?allowed"
      using host_lawsD(4) [OF assms(1)] l unfolding call_laws_def by (metis (no_types, lifting) chain_run.select_convs(1))
    then have "unat (chained_transfers (cl_run ?res) ?allowed) < unat ?allowed"
      using transfers_bound [OF _ a(1) refl] by blast
    then show ?thesis using a(2) by (simp add: t_def Some c)
  qed
  then show "unat transfers < unat max_steps - unat (rn_steps r)" by (simp add: r'(1))
qed


lemma note_entry_ok:
  assumes "run_base view e r" and "en_chain e = None"
  obtains r' where "note_entry b r = Some r'" "run_base view e r'" "rn_steps r' = rn_steps r" "rn_retries r' = rn_retries r"
proof -
  have n: "en_chain (rn_engine r) = None" using assms by (simp add: run_base_def same_config_def)
  have k: "run_base view e (r\<lparr>rn_engine := (rn_engine r)\<lparr>en_profile := p\<rparr>\<rparr>)"
    if "\<forall>q. p = Some q \<longrightarrow> profile_ok q" "p = None \<longleftrightarrow> en_profile (rn_engine r) = None" for p
    using assms(1) that by (auto simp: run_base_def engine_ok_def engine_base_def links_lead_def same_config_def guarded_def)
  show ?thesis
  proof (cases "en_profile (rn_engine r)")
    case None
    then show ?thesis using k [of None] n that [of "r\<lparr>rn_engine := (rn_engine r)\<lparr>en_profile := None\<rparr>\<rparr>"] by (simp add: note_entry_def)
  next
    case (Some p)
    then have "profile_ok p" using assms(1) by (simp add: run_base_def engine_base_def)
    then obtain q where q: "x86p_jit_profile_hit b p = Some q" "profile_ok q" using hit_spec by blast
    then have "run_base view e (r\<lparr>rn_engine := (rn_engine r)\<lparr>en_profile := Some q\<rparr>\<rparr>)" using k [of "Some q"] Some by simp
    then show ?thesis using that [of "r\<lparr>rn_engine := (rn_engine r)\<lparr>en_profile := Some q\<rparr>\<rparr>"] Some n q by (simp add: note_entry_def)
  qed
qed

lemma step_count:
  assumes "unat t < unat m - unat s"
  shows "unat (s + (1 + t) :: u64) = unat s + 1 + unat t" "s < s + (1 + t)" "s + (1 + t) \<le> m"
proof -
  have "unat s + 1 + unat t < 2 ^ 64" using assms unat_lt64 [of m] by linarith
  then show u: "unat (s + (1 + t)) = unat s + 1 + unat t"
    by (simp add: unat_plus_if_size word_size)
  show "s < s + (1 + t)" "s + (1 + t) \<le> m" using assms by (simp_all add: word_less_nat_alt word_le_nat_alt u)
qed

lemma enter_block_ok:
  assumes "host_laws jh view" and "run_base view e r" and "rn_steps r < max_steps" and "en_chain e = None"
  obtains f r' where "enter_block jh linking stop max_steps host r = Some (f, r')" "run_ok view e r'"
    "f = Continue \<or> (\<exists>s. f = Return s \<and> s \<noteq> kX86pRunBudget)" "rn_retries r' = 0" "rn_steps r < rn_steps r'" "rn_steps r' \<le> max_steps"
proof -
  let ?b = "c_eip (rn_cpu r)" and ?r = "entry_watch (r\<lparr>rn_retries := 0\<rparr>)"
  have w: "run_base view e ?r" "rn_steps ?r = rn_steps r" "rn_retries ?r = 0"
    using assms(2) run_base_same [of "r\<lparr>rn_retries := 0\<rparr>" r view e] by (simp_all add: entry_watch_ok)
  obtain x t r1 where c: "call_block jh linking stop max_steps host ?r = (x, t, r1)" by (metis prod_cases3)
  note cb = call_block_ok [OF assms(1) w(1) _ c]
  have lt: "rn_steps ?r < max_steps" using assms(3) w(2) by simp
  note cb = cb [OF lt]
  from note_entry_ok [OF cb(1) assms(4)] obtain r2 where n: "note_entry ?b r1 = Some r2" "run_base view e r2"
    "rn_steps r2 = rn_steps r1" "rn_retries r2 = rn_retries r1" by blast
  let ?steps = "rn_steps r2 + (1 + t)"
  have steps: "rn_steps r < ?steps" "?steps \<le> max_steps"
    using step_count [of t max_steps "rn_steps r"] cb n(3) w(2) by simp_all
  have eb: "engine_base view (rn_engine r2)" "same_config e (rn_engine r2)" using n(2) by (simp_all add: run_base_def)
  from invalidate_all_ok [OF assms(1) eb(1)] obtain e1 where i: "x86p_jit_engine_invalidate_all jh (rn_engine r2) = (True, e1)"
    "engine_ok view e1" "same_config (rn_engine r2) e1" by metis
  define e2 where "e2 = (if en_cache_disabled (rn_engine r2) then e1 else rn_engine r2)"
  have e2: "engine_ok view e2 \<and> same_config e e2"
    using i n(2) eb same_config_trans by (auto simp: e2_def run_base_def same_config_def)
  let ?r3 = "r2\<lparr>rn_steps := ?steps, rn_engine := e2\<rparr>"
  let ?f = "if x = kX86pJitExitBlockEnd then (Continue, ?r3)
      else if x = kX86pJitExitUnsupported
      then (Return kX86pRunUnsupported, ?r3\<lparr>rn_engine := add_stats [(TranslateRefusals, 1)] e2\<rparr>)
      else (Return (status_of_exit x), ?r3)"
  have "enter_block jh linking stop max_steps host r = Some ?f"
    using c n(1) i(1) by (simp add: enter_block_def e2_def Let_def)
  moreover have "run_ok view e (snd ?f)" using e2 by (simp add: run_ok_def engine_ok_def add_stats_keeps)
  moreover have "fst ?f = Continue \<or> (\<exists>s. fst ?f = Return s \<and> s \<noteq> kX86pRunBudget)"
    by (cases x) (simp_all add: status_of_exit_def)
  moreover have "rn_retries (snd ?f) = 0 \<and> rn_steps (snd ?f) = ?steps" using cb n w by simp
  ultimately show ?thesis using steps that [of "fst ?f" "snd ?f"] by simp
qed

section \<open>Whole runs\<close>

definition turns_left :: "u64 \<Rightarrow> ('c, 'm, 'w) run \<Rightarrow> nat" where
  "turns_left max_steps r = 2 * (unat max_steps - unat (rn_steps r)) + (1 - unat (rn_retries r))"

lemma run_turn_ok:
  assumes "host_laws jh view" and "run_ok view e r" and "rn_steps r < max_steps" and "en_chain e = None" and "rn_retries r \<le> 1"
  obtains f r' where "run_turn jh contract linking stop max_steps r = Some (f, r')" "run_ok view e r'"
    "rn_steps r' \<le> max_steps" "f = Continue \<and> rn_retries r' \<le> 1 \<and> turns_left max_steps r' < turns_left max_steps r \<or>
      (\<exists>s. f = Return s \<and> s \<noteq> kX86pRunBudget)"
proof -
  from find_host_ok [OF assms(1,2), of contract linking stop] obtain f r1 where
    h: "find_host jh contract linking stop r = Some (f, r1)" "run_base view e r1"
    "\<And>h. f = Enter h \<Longrightarrow> rn_cpu r1 = rn_cpu r \<and> rn_steps r1 = rn_steps r"
    "\<And>s. f = Return s \<Longrightarrow> s \<noteq> kX86pRunBudget \<and> rn_steps r1 = rn_steps r"
    "f = Continue \<Longrightarrow> rn_steps r1 = rn_steps r + 1 \<and> rn_retries r1 = rn_retries r \<or>
       rn_steps r1 = rn_steps r \<and> rn_retries r1 = rn_retries r + 1 \<and> rn_retries r1 \<le> 1"
    "\<forall>h. f \<noteq> Enter h \<Longrightarrow> run_ok view e r1" by blast
  have le: "unat (rn_steps r) < unat max_steps" using assms(3) by (simp add: word_less_nat_alt)
  show ?thesis
  proof (cases f)
    case (Return s)
    then have "run_turn jh contract linking stop max_steps r = Some (f, r1)" by (simp add: run_turn_def h(1))
    then show ?thesis by (rule that) (use h(4,6) Return assms(3) in auto)
  next
    case Continue
    then have t: "run_turn jh contract linking stop max_steps r = Some (f, r1)" by (simp add: run_turn_def h(1))
    have u: "unat (rn_steps r + 1) = unat (rn_steps r) + 1" using step_count(1) [of 0 max_steps "rn_steps r"] le by simp
    have one: "unat (1 :: u32) = 1" by simp
    have "rn_retries r1 \<le> 1 \<and> turns_left max_steps r1 < turns_left max_steps r \<and> rn_steps r1 \<le> max_steps"
      using h(5) [OF Continue]
    proof
      assume c: "rn_steps r1 = rn_steps r + 1 \<and> rn_retries r1 = rn_retries r"
      then have "turns_left max_steps r1 < turns_left max_steps r" using le u by (simp add: turns_left_def)
      then show ?thesis using c u le assms(5) by (simp add: word_le_nat_alt)
    next
      assume c: "rn_steps r1 = rn_steps r \<and> rn_retries r1 = rn_retries r + 1 \<and> rn_retries r1 \<le> 1"
      have "rn_retries r = 0 \<or> rn_retries r = 1" using assms(5) by (auto simp: word_le_nat_alt word_unat_eq_iff)
      then have "rn_retries r = 0" using c by (auto simp: word_le_nat_alt)
      then show ?thesis using c assms(3) by (simp add: turns_left_def)
    qed
    then show ?thesis by (intro that [OF t]) (use h(6) Continue in auto)
  next
    case (Enter host)
    have "rn_steps r1 < max_steps" using h(3) [OF Enter] assms(3) by simp
    from enter_block_ok [OF assms(1) h(2) this assms(4)] obtain g r2 where
      e: "enter_block jh linking stop max_steps host r1 = Some (g, r2)" "run_ok view e r2"
        "g = Continue \<or> (\<exists>s. g = Return s \<and> s \<noteq> kX86pRunBudget)" "rn_retries r2 = 0" "rn_steps r1 < rn_steps r2" "rn_steps r2 \<le> max_steps"
      by blast
    have t: "run_turn jh contract linking stop max_steps r = Some (g, r2)" using Enter e(1) by (simp add: run_turn_def h(1))
    have "turns_left max_steps r2 < turns_left max_steps r"
      using e(4-6) h(3) [OF Enter] le by (simp add: turns_left_def word_less_nat_alt word_le_nat_alt)
    then show ?thesis by (intro that [OF t]) (use e in auto)
  qed
qed

lemma run_loop_ok:
  assumes "host_laws jh view" and "en_chain e = None" and "run_ok view e r" and "rn_retries r \<le> 1" and "rn_steps r \<le> max_steps"
  shows "\<exists>s r'. run_loop jh contract linking stop max_steps r = Some (s, r') \<and> run_ok view e r' \<and> rn_steps r' \<le> max_steps \<and>
    (s = kX86pRunBudget \<longrightarrow> rn_steps r' = max_steps)"
  using assms(3-5)
proof (induction "turns_left max_steps r" arbitrary: r rule: less_induct)
  case less
  show ?case
  proof (cases "rn_steps r < max_steps")
    case False
    then show ?thesis using less.prems by (subst run_loop.simps) auto
  next
    case True
    from run_turn_ok [OF assms(1) less.prems(1) True assms(2) less.prems(2), of contract linking stop] obtain f r1 where
      t: "run_turn jh contract linking stop max_steps r = Some (f, r1)" "run_ok view e r1" "rn_steps r1 \<le> max_steps"
        "f = Continue \<and> rn_retries r1 \<le> 1 \<and> turns_left max_steps r1 < turns_left max_steps r \<or>
          (\<exists>s. f = Return s \<and> s \<noteq> kX86pRunBudget)" by blast
    from t(4) show ?thesis
    proof
      assume c: "f = Continue \<and> rn_retries r1 \<le> 1 \<and> turns_left max_steps r1 < turns_left max_steps r"
      then have "run_loop jh contract linking stop max_steps r = run_loop jh contract linking stop max_steps r1"
        using True t(1) by (subst run_loop.simps) simp
      then show ?thesis using less.hyps [of r1] c t by simp
    next
      assume "\<exists>s. f = Return s \<and> s \<noteq> kX86pRunBudget"
      then show ?thesis using True t by (subst run_loop.simps) auto
    qed
  qed
qed


lemma run_result:
  assumes "host_laws jh view" and "engine_ok view e" and "en_chain e = None"
  shows "\<exists>s r. x86p_jit_engine_run jh e cpu w max_steps = Some (s, r) \<and> engine_ok view (rn_engine r) \<and>
     same_config e (rn_engine r) \<and> rn_steps r \<le> max_steps \<and> (s = kX86pRunBudget \<longrightarrow> rn_steps r = max_steps)"
proof -
  let ?state = "jh_host_state jh w"
  have b: "engine_base view e" using assms(2) by (simp add: engine_ok_def)
  from invalidate_all_ok [OF assms(1) b] obtain e1 where i: "x86p_jit_engine_invalidate_all jh e = (True, e1)"
    "engine_ok view e1" "same_config e e1" by metis
  define e2 where "e2 = (if ?state \<noteq> en_host_state e then e1 else e)"
  have e2: "engine_ok view e2" "en_chain e2 = None"
    using i assms by (auto simp: e2_def same_config_def)
  define e3 where "e3 = e2\<lparr>en_host_state := ?state\<rparr>"
  have "engine_ok view e3 = engine_ok view e2" by (rule engine_frame; simp add: e3_def)
  then have e3: "engine_ok view e3" "en_chain e3 = None" using e2 by (simp_all add: e3_def)
  define r where "r = \<lparr>rn_engine = e3, rn_cpu = cpu, rn_world = w, rn_steps = 0 :: u64, rn_retries = 0 :: u32, rn_previous = 0 :: u32,
     rn_have_previous = False, rn_pending = \<lparr>pd_slot = 0, pd_flushes = 0\<rparr>\<rparr>"
  let ?contract = "en_run_stop e3 \<noteq> None \<and> \<not> en_cache_disabled e3"
  let ?stop = "case en_run_stop e3 of Some f \<Rightarrow> if ?contract then f w else 0 | None \<Rightarrow> 0"
  let ?linking = "?contract \<and> en_links e3 \<noteq> None \<and> en_profile e3 = None \<and> en_chain e3 = None \<and> en_watch_left e3 = 0"
  have run: "x86p_jit_engine_run jh e cpu w max_steps = run_loop jh ?contract ?linking ?stop max_steps r"
  proof (cases "?state = en_host_state e")
    case True
    then have "e2 = e" by (simp add: e2_def)
    then show ?thesis using True unfolding x86p_jit_engine_run_def r_def e3_def by (simp add: Let_def cong: option.case_cong)
  next
    case False
    then have "e2 = e1" by (simp add: e2_def)
    then show ?thesis using False i(1) unfolding x86p_jit_engine_run_def r_def e3_def by (simp add: Let_def cong: option.case_cong)
  qed
  have "same_config e e3" using i(3) same_config_refl by (simp add: e3_def e2_def same_config_def)
  moreover have "run_ok view e3 r" "rn_retries r \<le> 1" "rn_steps r \<le> max_steps"
    using e3 by (simp_all add: run_ok_def r_def same_config_refl)
  ultimately show ?thesis
    using run_loop_ok [OF assms(1) e3(2), of r max_steps] same_config_trans unfolding run run_ok_def by blast
qed

section \<open>Reachable engines\<close>

text \<open>
  Every operation of the interface.  The boundary predicate may be replaced while no block is cached
  or no intercept contract is in force (the code does not check this); runs are those without the
  diagnostic census.
\<close>

inductive engine_reachable :: "('c, 'm, 'w) jit_host \<Rightarrow> ('c, 'm, 'w) engine \<Rightarrow> bool" for jh where
  created: "x86p_jit_engine_create jh ok sparse code_bytes blocks w h = Inr e \<Longrightarrow> engine_reachable jh e"
| intercept: "engine_reachable jh e \<Longrightarrow> engine_reachable jh (x86p_jit_engine_set_intercept fn e)"
| dispatch: "engine_reachable jh e \<Longrightarrow> engine_reachable jh (x86p_jit_engine_set_dispatch dn e)"
| run_stop: "engine_reachable jh e \<Longrightarrow> engine_reachable jh (snd (x86p_jit_engine_set_run_stop jh sn e))"
| boundary: "engine_reachable jh e \<Longrightarrow> en_run_stop e = None \<or> bc_count (jh_cache jh) (en_cache e) = 0 \<Longrightarrow>
    engine_reachable jh (x86p_jit_engine_set_boundary bn e)"
| leaves: "engine_reachable jh e \<Longrightarrow> engine_reachable jh (snd (x86p_jit_engine_set_leaves jh ok ln e))"
| cache: "engine_reachable jh e \<Longrightarrow> engine_reachable jh (x86p_jit_engine_set_cache enabled e)"
| profile: "engine_reachable jh e \<Longrightarrow> unat hint \<le> 2 ^ 29 \<Longrightarrow>
    engine_reachable jh (snd (x86p_jit_engine_set_profile ok enabled hint e))"
| translate_watch: "engine_reachable jh e \<Longrightarrow> engine_reachable jh (x86p_jit_engine_set_translate_watch tn e)"
| entry_watch: "engine_reachable jh e \<Longrightarrow> engine_reachable jh (x86p_jit_engine_set_entry_watch a n wn e)"
| invalidate: "engine_reachable jh e \<Longrightarrow> engine_reachable jh (x86p_jit_engine_invalidate jh lo hi e)"
| invalidate_all: "engine_reachable jh e \<Longrightarrow> engine_reachable jh (snd (x86p_jit_engine_invalidate_all jh e))"
| run: "engine_reachable jh e \<Longrightarrow> x86p_jit_engine_run jh e cpu w max_steps = Some (s, r) \<Longrightarrow> engine_reachable jh (rn_engine r)"

lemma created_ok:
  assumes "host_laws jh view" and "x86p_jit_engine_create jh ok sparse code_bytes blocks w h = Inr e"
  shows "engine_ok view e \<and> en_chain e = None"
proof -
  obtain st h' cache where c: "x86p_jit_storage_create (jh_code jh) True code_bytes h = (Some st, h')"
      "bc_create (jh_cache jh) blocks = Some cache" "X86P_JIT_MIN_BLOCK_BYTES \<le> code_bytes"
    using assms(2) by (auto simp: x86p_jit_engine_create_def split: if_splits prod.splits option.splits)
  have v: "view cache = Map.empty" using cache_lawsD(1) [OF host_lawsD(1) [OF assms(1)] c(2)] .
  have s: "storage_ok st" using storage_created [OF host_lawsD(2) [OF assms(1)] c(1,3)] .
  show ?thesis
  proof (cases "jh_chain_slots_per_block jh = 0")
    case True
    then show ?thesis using assms(2) c v s
      by (auto simp: x86p_jit_engine_create_def engine_ok_def engine_base_def links_lead_def guarded_def Let_def split: if_splits)
  next
    case False
    then obtain l where l: "x86p_jit_chain_create True (blocks * jh_chain_slots_per_block jh) = Some l"
      using assms(2) c by (auto simp: x86p_jit_engine_create_def Let_def split: if_splits option.splits)
    have lk: "chain_ok (x86p_jit_chain_set_front f l)" "slots_lead x n (x86p_jit_chain_set_front f l)" for f x n
      using chain_created [OF l] by (simp_all add: x86p_jit_chain_set_front_def chain_ok_def slots_lead_def)
    show ?thesis using assms(2) c v s l lk False
      by (auto simp: x86p_jit_engine_create_def engine_ok_def engine_base_def links_lead_def guarded_def Let_def split: if_splits)
  qed
qed

lemma empty_cache:
  assumes "host_laws jh view" and "bc_count (jh_cache jh) (en_cache e) = 0"
  shows "view (en_cache e) = Map.empty"
  using cache_lawsD(9) [OF host_lawsD(1) [OF assms(1)]] assms(2) by blast

lemma reachable_ok:
  assumes "host_laws jh view" and "engine_reachable jh e"
  shows "engine_ok view e \<and> en_chain e = None"
  using assms(2)
proof (induction rule: engine_reachable.induct)
  case created
  then show ?case using created_ok [OF assms(1)] by blast
next
  case (run_stop e sn)
  show ?case
  proof (cases "sn = None \<or> bc_count (jh_cache jh) (en_cache e) \<noteq> 0")
    case True
    then show ?thesis using run_stop.IH
      by (auto simp: x86p_jit_engine_set_run_stop_def engine_ok_def engine_base_def links_lead_def guarded_def)
  next
    case False
    then have "view (en_cache e) = Map.empty" using empty_cache [OF assms(1)] by blast
    then show ?thesis using run_stop.IH
      by (auto simp: x86p_jit_engine_set_run_stop_def engine_ok_def engine_base_def links_lead_def guarded_def)
  qed
next
  case (boundary e bn)
  then show ?case using empty_cache [OF assms(1), of e]
    by (auto simp: x86p_jit_engine_set_boundary_def engine_ok_def engine_base_def links_lead_def guarded_def)
next
  case (profile e hint ok enabled)
  then show ?case using profile_created [of hint]
    by (cases ok)
      (auto simp: x86p_jit_engine_set_profile_def x86p_jit_profile_create_def [of False] engine_ok_def engine_base_def links_lead_def guarded_def
        split: option.splits)
next
  case (invalidate e lo hi)
  have b: "engine_base view e" using invalidate.IH by (simp add: engine_ok_def)
  have "engine_ok view (x86p_jit_engine_invalidate jh lo hi e)" using invalidate_ok(3) [OF assms(1) b] invalidate.IH by blast
  moreover have "same_config e (x86p_jit_engine_invalidate jh lo hi e)" by (rule invalidate_ok(2) [OF assms(1) b])
  ultimately show ?case using invalidate.IH by (simp add: same_config_def)
next
  case (invalidate_all e)
  have b: "engine_base view e" using invalidate_all.IH by (simp add: engine_ok_def)
  from invalidate_all_ok [OF assms(1) b] obtain e1 where "x86p_jit_engine_invalidate_all jh e = (True, e1)"
    "engine_ok view e1" "same_config e e1" by metis
  then show ?case using invalidate_all.IH by (simp add: same_config_def)
next
  case (run e cpu w max_steps s r)
  then show ?case using run_result [OF assms(1), of e cpu w max_steps] by (auto simp: same_config_def)
qed (auto simp: x86p_jit_engine_set_intercept_def x86p_jit_engine_set_dispatch_def x86p_jit_engine_set_leaves_def
  x86p_jit_engine_set_cache_def x86p_jit_engine_set_translate_watch_def x86p_jit_engine_set_entry_watch_def
  engine_ok_def engine_base_def links_lead_def guarded_def split: option.splits)

end
