(* ===== verification/X86_Jit_Engine_Contract.thy ===== *)
theory X86_Jit_Engine_Contract
  imports X86_Jit_Engine_Properties
begin

text \<open>
  The promises of the dispatcher to the embedder, and a concrete host on which its laws hold: a block
  cache over an association list, one region of code memory and a translator of one-instruction
  blocks.
\<close>

section \<open>A host\<close>

definition demo_cache :: "(u32 \<times> u64 \<times> u32 \<times> bool) list block_cache" where
  "demo_cache =
     \<lparr>bc_create = (\<lambda>n. Some []), bc_front = (\<lambda>c. 0),
      bc_lookup = (\<lambda>c a. (case map_of c a of None \<Rightarrow> 0 | Some (h, l, g) \<Rightarrow> h, c)),
      bc_lookup_refusing = (\<lambda>c a. (case map_of c a of None \<Rightarrow> 0 | Some (h, l, g) \<Rightarrow> if g then 0 else h, c)),
      bc_insert = (\<lambda>c a h l. (True, (a, h, l, False) # c)),
      bc_guard = (\<lambda>c a. case map_of c a of None \<Rightarrow> c | Some (h, l, g) \<Rightarrow> (a, h, l, True) # c),
      bc_flush = (\<lambda>c. []), bc_count = length, bc_invalidate_range = (\<lambda>c lo hi. (length c, [])),
      bc_stats = (\<lambda>c. \<lparr>cc_lookups = 0, cc_hits = 0, cc_front_hits = 0, cc_probe_length_total = 0, cc_refused = 0\<rparr>)\<rparr>"

definition demo_host :: "((u32 \<times> u64 \<times> u32 \<times> bool) list, unit, u32) jit_host" where
  "demo_host =
     \<lparr>jh_cache = demo_cache,
      jh_code =
        \<lparr>cm_create = (\<lambda>h n. (if n < 2 ^ 63 then Some \<lparr>rg_exec = 0x10000, rg_size = n\<rparr> else None, h)),
         cm_begin_write = (\<lambda>h r. (True, h)), cm_publish = (\<lambda>h r off n. (True, h))\<rparr>,
      jh_translate = (\<lambda>w eip room env links sites.
        if room < 16 then (kX86pJitOutOfSpace, no_block, 0, 0)
        else (kX86pJitOk, no_block\<lparr>jb_host_bytes := 16, jb_guest_len := 4, jb_insns := 1\<rparr>, 1, 0)),
      jh_call = (\<lambda>host w cpu c links sites.
        \<lparr>cl_exit = kX86pJitExitBlockEnd, cl_cpu = cpu\<lparr>c_eip := c_eip cpu XOR 0x10\<rparr>, cl_world = w, cl_events = [],
         cl_run = (case links of None \<Rightarrow> \<lparr>cr_budget = 0, cr_stop = 0, cr_last = 0, cr_pending = 0\<rparr>
                   | Some l \<Rightarrow> (ch_run l)\<lparr>cr_pending := 1\<rparr>)\<rparr>),
      jh_host_state = (\<lambda>w. 0), jh_chain_slots_per_block = 2, jh_chain_entry_offset = 8, jh_chain_transfer_limit = -1\<rparr>"

lemma demo_cache_laws: "cache_laws demo_cache map_of"
  unfolding cache_laws_def
  by (intro conjI allI) (auto simp: demo_cache_def fun_eq_iff map_le_def map_of_eq_empty_iff [unfolded fun_eq_iff] split: option.splits)

lemma demo_laws: "host_laws demo_host map_of"
  unfolding host_laws_def
proof (intro conjI)
  show "cache_laws (jh_cache demo_host) map_of" using demo_cache_laws by (simp add: demo_host_def)
  show "code_laws (jh_code demo_host)" by (auto simp: code_laws_def demo_host_def split: if_splits)
  show "translator_laws (jh_translate demo_host)" by (auto simp: translator_laws_def demo_host_def split: if_splits)
  show "call_laws demo_host" by (auto simp: call_laws_def demo_host_def)
qed

lemma demo_created: "\<exists>e. x86p_jit_engine_create demo_host True False 65536 64 0 () = Inr e"
proof -
  have "x86p_jit_chain_create True 128 \<noteq> None" by (simp add: x86p_jit_chain_create_def MAX_SLOTS_def)
  then show ?thesis
    by (auto simp: x86p_jit_engine_create_def x86p_jit_storage_create_def demo_host_def demo_cache_def chunk_bytes_for_def
      X86P_JIT_MIN_BLOCK_BYTES_def kChunksPerCapacity_def kChunkMaxBytes_def Let_def)
qed


section \<open>Every run returns\<close>

text \<open>
  C1. A run of the dispatcher always returns, whatever the guest, the embedder's callbacks and the
  translator do: evicting, retranslating, chaining and intercepting never loop; it charges no more
  than its budget, and reports an exhausted budget only when it has spent exactly that; and it leaves
  the engine well formed.
\<close>

theorem run_returns:
  assumes "host_laws jh view" and "engine_ok view e" and "en_chain e = None"
  shows "\<exists>s r. x86p_jit_engine_run jh e cpu w max_steps = Some (s, r) \<and> engine_ok view (rn_engine r) \<and>
     rn_steps r \<le> max_steps \<and> (s = kX86pRunBudget \<longrightarrow> rn_steps r = max_steps)"
  using run_result [OF assms] by blast

theorem run_returns_witness:
  "\<exists>e s r. x86p_jit_engine_create demo_host True False 65536 64 0 () = Inr e \<and>
     x86p_jit_engine_run demo_host e x86p_cpu_reset 0 4 = Some (s, r) \<and> rn_steps r \<le> 4"
proof -
  obtain e where e: "x86p_jit_engine_create demo_host True False 65536 64 0 () = Inr e" using demo_created by blast
  have "engine_ok map_of e" "en_chain e = None" using reachable_ok [OF demo_laws engine_reachable.intros(1) [OF e]] by blast+
  from run_returns [OF demo_laws this, of x86p_cpu_reset 0 4] show ?thesis using e by blast
qed

section \<open>Where linked exits lead\<close>

text \<open>
  Every exit slot handed to a translation is unlinked, or names a guest address with a cached block,
  that block's entry past its prologue in code written since the last reset, and, under the intercept
  contract, an address the embedder does not take over.
\<close>

definition exits_lead :: "'c cache_view \<Rightarrow> ('c, 'm, 'w) engine \<Rightarrow> bool" where
  "exits_lead view e \<longleftrightarrow>
     (\<forall>c i. en_links e = Some c \<longrightarrow> i < ch_claimed c \<longrightarrow>
        i < length (ch_slots c) \<and>
        (cs_guest (ch_slots c ! i) = X86P_JIT_CHAIN_UNLINKED \<or>
         (\<exists>a h l. cs_guest (ch_slots c ! i) = ucast a \<and> view (en_cache e) a = Some (h, l, False) \<and>
            cs_host (ch_slots c ! i) = h + of_nat (en_chain_entry e) \<and> live_code (en_storage e) h \<and>
            (\<forall>f. en_run_stop e \<noteq> None \<longrightarrow> en_boundary e = Some f \<longrightarrow> \<not> f a))))"

lemma ok_exits_lead:
  assumes "engine_ok view e"
  shows "exits_lead view e"
  unfolding exits_lead_def
proof (intro allI impI conjI)
  fix c i assume c: "en_links e = Some c" "i < ch_claimed c"
  have "chain_ok c" using assms c(1) by (simp add: engine_ok_def engine_base_def)
  then show "i < length (ch_slots c)" using c(2) by (simp add: chain_ok_def)
  have "leads (view (en_cache e)) (en_chain_entry e) (ch_slots c ! i)"
    using assms c by (simp add: engine_ok_def links_lead_def slots_lead_def)
  then show "cs_guest (ch_slots c ! i) = X86P_JIT_CHAIN_UNLINKED \<or>
     (\<exists>a h l. cs_guest (ch_slots c ! i) = ucast a \<and> view (en_cache e) a = Some (h, l, False) \<and>
        cs_host (ch_slots c ! i) = h + of_nat (en_chain_entry e) \<and> live_code (en_storage e) h \<and>
        (\<forall>f. en_run_stop e \<noteq> None \<longrightarrow> en_boundary e = Some f \<longrightarrow> \<not> f a))"
    unfolding leads_def
  proof
    assume "\<exists>a h l. cs_guest (ch_slots c ! i) = ucast a \<and> view (en_cache e) a = Some (h, l, False) \<and>
      cs_host (ch_slots c ! i) = h + of_nat (en_chain_entry e)"
    then obtain a h l where x: "cs_guest (ch_slots c ! i) = ucast a" "view (en_cache e) a = Some (h, l, False)"
      "cs_host (ch_slots c ! i) = h + of_nat (en_chain_entry e)" by blast
    have "live_code (en_storage e) h" using assms x(2) unfolding engine_ok_def engine_base_def by blast
    moreover have "\<forall>f. en_run_stop e \<noteq> None \<longrightarrow> en_boundary e = Some f \<longrightarrow> \<not> f a"
      using assms x(2) unfolding engine_ok_def engine_base_def guarded_def by blast
    ultimately show ?thesis using x by blast
  qed blast
qed

text \<open>
  C4. In every engine the interface can reach, a chained exit can only jump to a live translation of
  the address it names: no operation leaves a link to code that was dropped, flushed or rewound, to a
  slot that was not handed out, or to a block the embedder has to be asked about first.
\<close>

theorem links_reach_live_code:
  assumes "host_laws jh view" and "engine_reachable jh e"
  shows "exits_lead view e"
  using ok_exits_lead reachable_ok [OF assms] by blast

theorem links_reach_live_code_witness:
  "\<exists>e s r. x86p_jit_engine_create demo_host True False 65536 64 0 () = Inr e \<and>
     x86p_jit_engine_run demo_host (snd (x86p_jit_engine_set_run_stop demo_host (Some (\<lambda>w. w)) e)) x86p_cpu_reset 0 4 = Some (s, r) \<and>
     exits_lead map_of (rn_engine r)"
proof -
  obtain e where e: "x86p_jit_engine_create demo_host True False 65536 64 0 () = Inr e" using demo_created by blast
  let ?e = "snd (x86p_jit_engine_set_run_stop demo_host (Some (\<lambda>w. w)) e)"
  have r: "engine_reachable demo_host ?e" by (intro engine_reachable.intros(4) engine_reachable.intros(1) [OF e])
  obtain s x where x: "x86p_jit_engine_run demo_host ?e x86p_cpu_reset 0 4 = Some (s, x)"
    using run_result [OF demo_laws] reachable_ok [OF demo_laws r] by blast
  have "exits_lead map_of (rn_engine x)"
    by (rule links_reach_live_code [OF demo_laws engine_reachable.intros(13) [OF r x]])
  then show ?thesis using e x by blast
qed

section \<open>The intercept\<close>

text \<open>
  C13. Under the intercept contract the dispatcher asks the embedder only where it must, and still
  never enters a block the embedder would take over: if the intercept answers yes in the state a turn
  starts from, the turn enters nothing, whatever the cache's fast path holds.
\<close>

theorem intercept_never_skipped:
  assumes "host_laws jh view" and "engine_ok view (rn_engine r)"
    and "en_intercept (rn_engine r) = Some g" and "en_run_stop (rn_engine r) \<noteq> None" and "en_boundary (rn_engine r) = Some b"
    and "\<And>w cpu. fst (g w cpu) \<Longrightarrow> b (c_eip cpu) \<or> c_eip cpu = stop"
    and "fst (g (rn_world r) (rn_cpu r))"
    and "run_turn jh contract linking stop max_steps r = Some (f, r')"
  shows "f = Return kX86pRunIntercept \<or> (f = Continue \<and> rn_steps r' = rn_steps r + 1)"
proof -
  have ok: "run_ok view (rn_engine r) r" using assms(2) by (simp add: run_ok_def same_config_refl)
  obtain host r1 where a: "fast_path jh contract linking stop r = (host, r1)" by fastforce
  note fa = fast_path_ok [OF assms(1) ok a]
  have "host = 0"
  proof (rule ccontr)
    assume "host \<noteq> 0"
    then obtain l where "c_eip (rn_cpu r) \<noteq> stop" "view (en_cache (rn_engine r)) (c_eip (rn_cpu r)) = Some (host, l, False)"
      using fa(6) by blast
    then have "\<not> b (c_eip (rn_cpu r))"
      using assms(2,4,5) unfolding engine_ok_def engine_base_def guarded_def by blast
    then show False using assms(6) [OF assms(7)] \<open>c_eip (rn_cpu r) \<noteq> stop\<close> by blast
  qed
  obtain f2 r2 where b: "ask_intercept jh r1 = (f2, r2)" by fastforce
  note fb = ask_intercept_ok [OF assms(1) fa(1) b]
  have no: "f2 \<noteq> Enter h" for h using fb(5) [of h g] assms(3,7) fa(2,3) by auto
  have x: "run_turn jh contract linking stop max_steps r = Some (f2, r2)"
    using \<open>host = 0\<close> a b no [of undefined] by (cases f2) (use no in \<open>auto simp: run_turn_def find_host_def\<close>)
  show ?thesis
  proof (cases f2)
    case (Return s)
    then have "s = kX86pRunIntercept" using b
      by (auto simp: ask_intercept_def Let_def split: option.splits prod.splits if_splits)
    then show ?thesis using x assms(8) Return by simp
  next
    case Continue
    then show ?thesis using x assms(8) fb(3) fa(4) by simp
  qed (use no in blast)
qed

definition takes_over :: "u32 \<Rightarrow> cpu \<Rightarrow> bool \<times> u32 \<times> event list" where
  "takes_over w cpu = (c_eip cpu = 0x2000 \<or> c_eip cpu = 0, w, [])"

definition at_boundary ::
  "((u32 \<times> u64 \<times> u32 \<times> bool) list, unit, u32) engine \<Rightarrow> ((u32 \<times> u64 \<times> u32 \<times> bool) list, unit, u32) run" where
  "at_boundary e =
     \<lparr>rn_engine = e\<lparr>en_intercept := Some takes_over, en_boundary := Some (\<lambda>a. a = 0x2000), en_run_stop := Some (\<lambda>w. 0)\<rparr>,
      rn_cpu = x86p_cpu_reset\<lparr>c_eip := 0x2000\<rparr>, rn_world = 0, rn_steps = 0, rn_retries = 0, rn_previous = 0,
      rn_have_previous = False, rn_pending = \<lparr>pd_slot = 0, pd_flushes = 0\<rparr>\<rparr>"

theorem intercept_never_skipped_witness:
  "\<exists>e f r'. x86p_jit_engine_create demo_host True False 65536 64 0 () = Inr e \<and>
     run_turn demo_host True True 0 8 (at_boundary e) = Some (f, r') \<and>
     (f = Return kX86pRunIntercept \<or> (f = Continue \<and> rn_steps r' = 1))"
proof -
  obtain e where e: "x86p_jit_engine_create demo_host True False 65536 64 0 () = Inr e" using demo_created by blast
  let ?r = "at_boundary e"
  have "engine_reachable demo_host (rn_engine ?r)"
  proof -
    have "engine_reachable demo_host e" by (rule engine_reachable.intros(1) [OF e])
    moreover have "en_run_stop e = None" "bc_count (jh_cache demo_host) (en_cache e) = 0"
      using e by (auto simp: x86p_jit_engine_create_def demo_host_def demo_cache_def Let_def split: if_splits prod.splits option.splits)
    ultimately have "engine_reachable demo_host (snd (x86p_jit_engine_set_run_stop demo_host (Some (\<lambda>w. 0))
        (x86p_jit_engine_set_boundary (Some (\<lambda>a. a = 0x2000)) (x86p_jit_engine_set_intercept (Some takes_over) e))))"
      by (intro engine_reachable.run_stop engine_reachable.boundary engine_reachable.intercept)
        (simp_all add: x86p_jit_engine_set_intercept_def)
    moreover have "snd (x86p_jit_engine_set_run_stop demo_host (Some (\<lambda>w. 0))
        (x86p_jit_engine_set_boundary (Some (\<lambda>a. a = 0x2000)) (x86p_jit_engine_set_intercept (Some takes_over) e))) =
        rn_engine ?r"
      using \<open>bc_count (jh_cache demo_host) (en_cache e) = 0\<close>
      by (simp add: x86p_jit_engine_set_run_stop_def x86p_jit_engine_set_boundary_def x86p_jit_engine_set_intercept_def at_boundary_def)
    ultimately show ?thesis by simp
  qed
  then have ok: "engine_ok map_of (rn_engine ?r)" "en_chain (rn_engine ?r) = None"
    using reachable_ok [OF demo_laws] by blast+
  have "run_ok map_of (rn_engine ?r) ?r" using ok by (simp add: run_ok_def same_config_refl)
  moreover have "rn_steps ?r < 8" "rn_retries ?r \<le> 1" by (simp_all add: at_boundary_def)
  ultimately obtain f r' where t: "run_turn demo_host True True 0 8 ?r = Some (f, r')"
    using run_turn_ok [OF demo_laws _ _ ok(2)] by metis
  have "f = Return kX86pRunIntercept \<or> (f = Continue \<and> rn_steps r' = rn_steps ?r + 1)"
    by (rule intercept_never_skipped [OF demo_laws ok(1) _ _ _ _ _ t])
      (auto simp: at_boundary_def takes_over_def)
  then show ?thesis using e t by (auto simp: at_boundary_def)
qed

text \<open>
  The contract needs the boundary predicate, and installing a stop function without one is refused
  when an intercept is present.  In the other order nothing is checked: the stop function first and
  the intercept after it leaves a contract under which the intercept is asked only on a miss.
\<close>

lemma contract_without_boundary:
  assumes "en_intercept e = None" and "en_boundary e = None" and "bc_count (jh_cache jh) (en_cache e) = 0"
  shows "fst (x86p_jit_engine_set_run_stop jh (Some f) e) \<and>
     (let e = x86p_jit_engine_set_intercept (Some g) (snd (x86p_jit_engine_set_run_stop jh (Some f) e))
      in en_run_stop e = Some f \<and> en_intercept e = Some g \<and> en_boundary e = None)"
  using assms by (simp add: x86p_jit_engine_set_run_stop_def x86p_jit_engine_set_intercept_def)

section \<open>Invalidation\<close>

definition nothing_left :: "'c cache_view \<Rightarrow> u32 \<Rightarrow> u32 \<Rightarrow> ('c, 'm, 'w) engine \<Rightarrow> bool" where
  "nothing_left view lo hi e \<longleftrightarrow>
     (\<forall>a h l g. view (en_cache e) a = Some (h, l, g) \<longrightarrow> outside a l lo hi) \<and>
     (\<forall>c i a. en_links e = Some c \<longrightarrow> i < ch_claimed c \<longrightarrow> cs_guest (ch_slots c ! i) = ucast a \<longrightarrow>
        (\<exists>h l. view (en_cache e) a = Some (h, l, False) \<and> outside a l lo hi))"

text \<open>
  C14. After an invalidation no cached block overlaps the range, and no exit slot leads to a block
  that does, whichever blocks were cached and linked before.
\<close>

theorem invalidate_leaves_nothing:
  assumes "host_laws jh view" and "engine_reachable jh e"
  shows "nothing_left view lo hi (x86p_jit_engine_invalidate jh lo hi e)"
proof -
  let ?e = "x86p_jit_engine_invalidate jh lo hi e"
  have b: "engine_base view e" "engine_ok view e" using reachable_ok [OF assms] by (simp_all add: engine_ok_def)
  note o = invalidate_ok [OF assms(1) b(1), of lo hi]
  have "\<exists>h l. view (en_cache ?e) a = Some (h, l, False) \<and> outside a l lo hi"
    if c: "en_links ?e = Some c" "i < ch_claimed c" "cs_guest (ch_slots c ! i) = ucast a" for c i and a :: u32
  proof -
    have "cs_guest (ch_slots c ! i) \<noteq> X86P_JIT_CHAIN_UNLINKED"
    proof
      assume "cs_guest (ch_slots c ! i) = X86P_JIT_CHAIN_UNLINKED"
      then have "unat (ucast a :: u64) = unat (X86P_JIT_CHAIN_UNLINKED)" using c(3) by simp
      then show False using unat_lt32 [of a]
        by (simp add: unat_ucast_64 X86P_JIT_CHAIN_UNLINKED_def unsigned_minus_1_eq_mask mask_eq_exp_minus_1)
    qed
    moreover have "leads (view (en_cache ?e)) (en_chain_entry ?e) (ch_slots c ! i)"
      using o(3) [OF b(2)] c by (simp add: engine_ok_def links_lead_def slots_lead_def)
    ultimately obtain a' h l where x: "cs_guest (ch_slots c ! i) = ucast a'" "view (en_cache ?e) a' = Some (h, l, False)"
      unfolding leads_def by blast
    have "unat (ucast a' :: u64) = unat (ucast a :: u64)" using x(1) c(3) by simp
    then have "a' = a" by (simp add: unat_ucast_64 word_unat_eq_iff)
    then show ?thesis using x(2) o(4) by blast
  qed
  then show ?thesis using o(4) unfolding nothing_left_def by blast
qed

theorem invalidate_leaves_nothing_witness:
  "\<exists>e s r. x86p_jit_engine_create demo_host True False 65536 64 0 () = Inr e \<and>
     x86p_jit_engine_run demo_host e x86p_cpu_reset 0 4 = Some (s, r) \<and>
     nothing_left map_of 0 0x1000 (x86p_jit_engine_invalidate demo_host 0 0x1000 (rn_engine r))"
proof -
  obtain e where e: "x86p_jit_engine_create demo_host True False 65536 64 0 () = Inr e" using demo_created by blast
  have r: "engine_reachable demo_host e" by (rule engine_reachable.intros(1) [OF e])
  obtain s x where x: "x86p_jit_engine_run demo_host e x86p_cpu_reset 0 4 = Some (s, x)"
    using run_result [OF demo_laws] reachable_ok [OF demo_laws r] by blast
  have "nothing_left map_of 0 0x1000 (x86p_jit_engine_invalidate demo_host 0 0x1000 (rn_engine x))"
    by (rule invalidate_leaves_nothing [OF demo_laws engine_reachable.intros(13) [OF r x]])
  then show ?thesis using e x by blast
qed

end
