(* ===== verification/X86_Ext80.thy ===== *)
theory X86_Ext80
  imports X86_X87
begin

text \<open>
  Arithmetic on the ten-byte extended format as integer operations: \<open>x87_ext80_widen.h\<close>,
  \<open>x87_ext80_widen.c\<close>, \<open>x87_ext80_narrow.c\<close>, \<open>x87_ext80_arith.c\<close> and \<open>x87_integer.c\<close> under
  \<open>src/src/x86port\<close>.  Machine words keep their width, the signed exponents are integers, and a
  refusal, which leaves the outputs unwritten, is \<open>None\<close>.  The loops that normalise a significand
  have fuel; \<open>None\<close> would be a loop still running, and the conversion theories show that none is.
\<close>

section \<open>The encoding\<close>

record ext80 =
  e8_signif :: u64
  e8_sign_exp :: u16

definition X86P_EXT80_BIAS :: int where "X86P_EXT80_BIAS = 16383"
definition EXT80_EXP_MAX :: u16 where "EXT80_EXP_MAX = 0x7FFF"
definition EXT80_INTEGER_BIT :: u64 where "EXT80_INTEGER_BIT = 0x8000000000000000"
definition EXT80_QUIET_BIT :: u64 where "EXT80_QUIET_BIT = 0x4000000000000000"
definition EXT80_SIGN_BIT :: u16 where "EXT80_SIGN_BIT = 0x8000"

definition X86P_X87_RC_MASK :: u16 where "X86P_X87_RC_MASK = 0x0C00"
definition X86P_X87_RC_NEAREST :: u16 where "X86P_X87_RC_NEAREST = 0x0000"
definition X86P_X87_RC_DOWN :: u16 where "X86P_X87_RC_DOWN = 0x0400"
definition X86P_X87_RC_UP :: u16 where "X86P_X87_RC_UP = 0x0800"
definition X86P_X87_RC_TRUNCATE :: u16 where "X86P_X87_RC_TRUNCATE = 0x0C00"
definition X86P_X87_PC_MASK :: u16 where "X86P_X87_PC_MASK = 0x0300"
definition X86P_X87_PC_SINGLE :: u16 where "X86P_X87_PC_SINGLE = 0x0000"
definition X86P_X87_PC_EXTENDED :: u16 where "X86P_X87_PC_EXTENDED = 0x0300"

section \<open>Widening\<close>

record ext80_source =
  es_field :: nat
  es_exp_max :: u32
  es_bias :: u32

definition x86p_ext80_source :: "nat \<Rightarrow> ext80_source" where
  "x86p_ext80_source width =
     (if width = 4 then \<lparr>es_field = 23, es_exp_max = 0xFF, es_bias = 127\<rparr>
      else if width = 8 then \<lparr>es_field = 52, es_exp_max = 0x7FF, es_bias = 1023\<rparr>
      else \<lparr>es_field = 0, es_exp_max = 0, es_bias = 0\<rparr>)"

primrec normalise_loop :: "nat \<Rightarrow> nat \<Rightarrow> u64 \<Rightarrow> int \<Rightarrow> (u64 \<times> int) option" where
  "normalise_loop 0 field mant biased = (if mant AND push_bit field 1 = 0 then None else Some (mant, biased))"
| "normalise_loop (Suc n) field mant biased =
     (if mant AND push_bit field 1 = 0 then normalise_loop n field (push_bit 1 mant) (biased - 1) else Some (mant, biased))"

definition widen :: "u64 \<Rightarrow> u32 \<Rightarrow> u64 \<Rightarrow> nat \<Rightarrow> u32 \<Rightarrow> u32 \<Rightarrow> ext80 option" where
  "widen sign exp mant field exp_max bias =
     (let shift = 63 - field; out = \<lparr>e8_signif = 0, e8_sign_exp = ucast (push_bit 15 sign)\<rparr> in
      if exp = exp_max then
        Some \<lparr>e8_signif = (if mant \<noteq> 0 then EXT80_INTEGER_BIT OR (push_bit shift mant OR EXT80_QUIET_BIT) else EXT80_INTEGER_BIT),
              e8_sign_exp = e8_sign_exp out OR EXT80_EXP_MAX\<rparr>
      else if exp \<noteq> 0 then
        Some \<lparr>e8_signif = push_bit shift (mant OR push_bit field 1),
              e8_sign_exp = e8_sign_exp out OR ucast (exp - bias + word_of_int X86P_EXT80_BIAS)\<rparr>
      else if mant = 0 then Some out
      else do {
        (mant, biased) \<leftarrow> normalise_loop 64 field mant (X86P_EXT80_BIAS + 1 - int (unat bias));
        Some \<lparr>e8_signif = push_bit shift mant, e8_sign_exp = e8_sign_exp out OR word_of_int biased\<rparr>
      })"

definition widen_bits :: "u64 \<Rightarrow> nat \<Rightarrow> ext80 option" where
  "widen_bits bits width =
     (let s = x86p_ext80_source width;
          sign = drop_bit (width * 8 - 1) bits;
          exp = ucast (drop_bit (es_field s) bits AND ucast (es_exp_max s));
          mant = bits AND (push_bit (es_field s) 1 - 1)
      in widen sign exp mant (es_field s) (es_exp_max s) (es_bias s))"

definition x86p_ext80_from_f32_bits :: "u32 \<Rightarrow> ext80 option" where
  "x86p_ext80_from_f32_bits bits = widen_bits (ucast bits) 4"

definition x86p_ext80_from_f64_bits :: "u64 \<Rightarrow> ext80 option" where
  "x86p_ext80_from_f64_bits bits = widen_bits bits 8"

section \<open>Narrowing\<close>

definition x86p_ext80_narrow_nearest :: "ext80 \<Rightarrow> nat \<Rightarrow> u64 option" where
  "x86p_ext80_narrow_nearest value width =
     (let target = x86p_ext80_source width;
          exp = e8_sign_exp value AND EXT80_EXP_MAX;
          sign = ucast (drop_bit 15 (e8_sign_exp value)) AND 1;
          drop = 63 - es_field target;
          half = push_bit (drop - 1) 1;
          below = push_bit drop 1 - 1 in
      if es_field target = 0 then None
      else if exp = 0 \<and> e8_signif value = 0 then Some (push_bit (width * 8 - 1) sign)
      else if exp = 0 \<or> exp = EXT80_EXP_MAX \<or> e8_signif value AND EXT80_INTEGER_BIT = 0 then None
      else
        let biased = int (unat exp) - X86P_EXT80_BIAS + int (unat (es_bias target)) in
        if biased < 1 \<or> biased > int (unat (es_exp_max target)) - 1 then None
        else
          let remainder = e8_signif value AND below;
              rounded = e8_signif value + half;
              carried = rounded < e8_signif value;
              signif = (if remainder = half then rounded AND NOT (push_bit drop 1) else rounded);
              biased = (if carried then biased + 1 else biased);
              signif = (if carried then EXT80_INTEGER_BIT else signif) in
          if carried \<and> biased > int (unat (es_exp_max target)) - 1 then None
          else Some (push_bit (width * 8 - 1) sign OR push_bit (es_field target) (word_of_int biased) OR
                 (drop_bit drop signif AND (push_bit (es_field target) 1 - 1))))"

section \<open>Integers\<close>

primrec integer_loop :: "nat \<Rightarrow> u64 \<Rightarrow> nat \<Rightarrow> (u64 \<times> nat) option" where
  "integer_loop 0 magnitude shift = (if magnitude AND EXT80_INTEGER_BIT = 0 then None else Some (magnitude, shift))"
| "integer_loop (Suc n) magnitude shift =
     (if magnitude AND EXT80_INTEGER_BIT = 0 then integer_loop n (push_bit 1 magnitude) (shift + 1) else Some (magnitude, shift))"

definition x86p_ext80_from_int :: "u64 \<Rightarrow> ext80 option" where
  "x86p_ext80_from_int value =
     (if value = 0 then Some \<lparr>e8_signif = 0, e8_sign_exp = 0\<rparr>
      else do {
        let negative = sint value < 0;
        (magnitude, shift) \<leftarrow> integer_loop 64 (if negative then 0 - value else value) 0;
        Some \<lparr>e8_signif = magnitude,
              e8_sign_exp = word_of_int (X86P_EXT80_BIAS + 63 - int shift) OR (if negative then EXT80_SIGN_BIT else 0)\<rparr>
      })"

definition rounds_up :: "u16 \<Rightarrow> bool \<Rightarrow> u64 \<Rightarrow> u64 \<Rightarrow> u64 \<Rightarrow> bool" where
  "rounds_up control negative integer below half =
     (if below = 0 then False
      else let rc = control AND X86P_X87_RC_MASK in
        if rc = X86P_X87_RC_DOWN then negative
        else if rc = X86P_X87_RC_UP then \<not> negative
        else if rc = X86P_X87_RC_TRUNCATE then False
        else half < below \<or> (below = half \<and> integer AND 1 \<noteq> 0))"

definition x86p_ext80_to_int :: "u16 \<Rightarrow> ext80 \<Rightarrow> nat \<Rightarrow> u64 option" where
  "x86p_ext80_to_int control value width =
     (let negative = e8_sign_exp value AND EXT80_SIGN_BIT \<noteq> 0;
          exponent = int (unat (e8_sign_exp value AND EXT80_EXP_MAX));
          unbiased = exponent - X86P_EXT80_BIAS in
      if width \<noteq> 2 \<and> width \<noteq> 4 \<and> width \<noteq> 8 then None
      else if exponent = 0x7FFF then None
      else if exponent \<noteq> 0 \<and> e8_signif value AND EXT80_INTEGER_BIT = 0 then None
      else if e8_signif value \<noteq> 0 \<and> 63 \<le> unbiased then
        (if negative \<and> width = 8 \<and> unbiased = 63 \<and> e8_signif value = EXT80_INTEGER_BIT
         then Some 0x8000000000000000 else None)
      else
        let magnitude =
              (if e8_signif value = 0 then 0
               else if unbiased < 0 then
                 (let below = (if unbiased = -1 then e8_signif value else 1);
                      half = (if unbiased = -1 then EXT80_INTEGER_BIT else -1)
                  in of_bool (rounds_up control negative 0 below half))
               else
                 (let shift = 63 - nat unbiased;
                      integer = drop_bit shift (e8_signif value);
                      below = (if shift \<noteq> 0 then e8_signif value AND (push_bit shift 1 - 1) else 0);
                      half = (if shift \<noteq> 0 then push_bit (shift - 1) 1 else 0)
                  in integer + of_bool (rounds_up control negative integer below half)));
            limit = push_bit (8 * width - 1) 1 - (if negative then 0 else 1) in
        if limit < magnitude then None
        else Some (if negative then 0 - magnitude else magnitude))"

section \<open>Multiplication\<close>

definition kInexact :: u16 where "kInexact = 0x20"
definition kRoundedUp :: u16 where "kRoundedUp = 0x200"

definition x86p_ext80_is_normal :: "ext80 \<Rightarrow> bool" where
  "x86p_ext80_is_normal v \<longleftrightarrow>
     (ucast (e8_sign_exp v AND 0x7FFF) - 1 :: u32) < 0x7FFE \<and> drop_bit 63 (e8_signif v) \<noteq> 0"

definition x86p_ext80_is_zero :: "ext80 \<Rightarrow> bool" where
  "x86p_ext80_is_zero v \<longleftrightarrow> e8_sign_exp v AND 0x7FFF = 0 \<and> e8_signif v = 0"

definition x86p_ext80_is_normal_or_zero :: "ext80 \<Rightarrow> bool" where
  "x86p_ext80_is_normal_or_zero v \<longleftrightarrow> x86p_ext80_is_normal v \<or> x86p_ext80_is_zero v"

definition x86p_ext80_control_is_ordinary :: "u16 \<Rightarrow> bool" where
  "x86p_ext80_control_is_ordinary control \<longleftrightarrow>
     control AND X86P_X87_RC_MASK = X86P_X87_RC_NEAREST \<and> control AND X86P_X87_PC_MASK = X86P_X87_PC_EXTENDED"

definition mul64_to_128 :: "u64 \<Rightarrow> u64 \<Rightarrow> u64 \<times> u64" where
  "mul64_to_128 a b =
     (let a0 = a AND 0xFFFFFFFF; a1 = drop_bit 32 a; b0 = b AND 0xFFFFFFFF; b1 = drop_bit 32 b;
          p00 = a0 * b0; p01 = a0 * b1; p10 = a1 * b0; p11 = a1 * b1;
          middle = p10 + drop_bit 32 p00 + (p01 AND 0xFFFFFFFF);
          lo = push_bit 32 middle OR (p00 AND 0xFFFFFFFF);
          hi = p11 + drop_bit 32 middle + drop_bit 32 p01
      in (hi, lo))"

text \<open>The rounding and the packing both operations end with.\<close>

definition exponent_in_range :: "int \<Rightarrow> bool" where
  "exponent_in_range exponent \<longleftrightarrow> 0 < exponent \<and> exponent < 0x7FFF"

definition x86p_ext80_mul_ordinary :: "u16 \<Rightarrow> ext80 \<Rightarrow> ext80 \<Rightarrow> u16 \<Rightarrow> (ext80 \<times> u16) option" where
  "x86p_ext80_mul_ordinary control x y flags =
     (let sign = (e8_sign_exp x XOR e8_sign_exp y) AND 0x8000 in
      if \<not> x86p_ext80_control_is_ordinary control then None
      else if x86p_ext80_is_zero x \<or> x86p_ext80_is_zero y then
        (if \<not> x86p_ext80_is_normal_or_zero x \<or> \<not> x86p_ext80_is_normal_or_zero y then None
         else Some (\<lparr>e8_signif = 0, e8_sign_exp = sign\<rparr>, flags))
      else if \<not> x86p_ext80_is_normal x \<or> \<not> x86p_ext80_is_normal y then None
      else
        let exponent = int (unat (e8_sign_exp x AND 0x7FFF)) + int (unat (e8_sign_exp y AND 0x7FFF)) - (X86P_EXT80_BIAS - 1);
            (hi, lo) = mul64_to_128 (e8_signif x) (e8_signif y);
            small = drop_bit 63 hi = 0;
            hi' = (if small then push_bit 1 hi OR drop_bit 63 lo else hi);
            lo' = (if small then push_bit 1 lo else lo);
            exponent = (if small then exponent - 1 else exponent);
            up = lo' > 0x8000000000000000 \<or> (lo' = 0x8000000000000000 \<and> hi' AND 1 \<noteq> 0);
            hi'' = (if up then hi' + 1 else hi');
            carried = up \<and> hi'' = 0;
            hi'' = (if carried then 0x8000000000000000 else hi'');
            exponent = (if carried then exponent + 1 else exponent);
            raised = (if up then kRoundedUp else 0) OR (if lo' \<noteq> 0 then kInexact else 0) in
        if \<not> exponent_in_range exponent then None
        else Some (\<lparr>e8_signif = hi'', e8_sign_exp = sign OR word_of_int exponent\<rparr>, flags OR raised))"

section \<open>Addition\<close>

primrec clz64_loop :: "nat \<Rightarrow> u64 \<Rightarrow> nat \<Rightarrow> nat option" where
  "clz64_loop 0 v n = (if drop_bit 63 v = 0 then None else Some n)"
| "clz64_loop (Suc k) v n = (if drop_bit 63 v = 0 then clz64_loop k (push_bit 1 v) (n + 1) else Some n)"

definition clz64 :: "u64 \<Rightarrow> nat option" where
  "clz64 v = clz64_loop 63 v 0"

definition align_smaller :: "u64 \<Rightarrow> nat \<Rightarrow> u64 \<times> u64 \<times> bool" where
  "align_smaller signif shift =
     (if shift = 0 then (signif, 0, False)
      else if shift < 64 then (drop_bit shift signif, push_bit (64 - shift) signif, False)
      else if shift = 64 then (0, signif, False)
      else if shift < 128 then (0, drop_bit (shift - 64) signif, push_bit (128 - shift) signif \<noteq> 0)
      else (0, 0, True))"

text \<open>The magnitudes of two operands of the same sign, and of opposite signs, as a pair and a sticky bit.\<close>

definition add_magnitudes :: "u64 \<Rightarrow> u64 \<Rightarrow> u64 \<Rightarrow> bool \<Rightarrow> int \<Rightarrow> u64 \<times> u64 \<times> bool \<times> int" where
  "add_magnitudes big shi slo sticky exponent =
     (let lo = slo; hi = big + shi in
      if hi < big then
        (drop_bit 1 hi OR 0x8000000000000000, drop_bit 1 lo OR push_bit 63 hi, sticky \<or> lo AND 1 \<noteq> 0, exponent + 1)
      else (hi, lo, sticky, exponent))"

definition sub_pair :: "u64 \<Rightarrow> u64 \<Rightarrow> u64 \<Rightarrow> bool \<Rightarrow> u64 \<times> u64" where
  "sub_pair big shi slo sticky =
     (let lo = 0 - slo; hi = big - shi - (if slo \<noteq> 0 then 1 else 0) in
      if sticky then (if lo = 0 then (hi - 1, -1) else (hi, lo - 1)) else (hi, lo))"

definition normalise_pair :: "u64 \<Rightarrow> u64 \<Rightarrow> int \<Rightarrow> (u64 \<times> u64 \<times> int) option" where
  "normalise_pair hi lo exponent =
     (if drop_bit 63 hi = 0 then
        let (hi, lo, exponent) = (if hi = 0 then (lo, 0, exponent - 64) else (hi, lo, exponent)) in
        do {
          shift \<leftarrow> clz64 hi;
          Some (if shift \<noteq> 0
            then (push_bit shift hi OR drop_bit (64 - shift) lo, push_bit shift lo, exponent - int shift)
            else (hi, lo, exponent))
        }
      else Some (hi, lo, exponent))"

text \<open>\<open>Some None\<close> is a refusal, as an exact cancellation is.\<close>

definition add_aligned :: "u64 \<Rightarrow> u64 \<Rightarrow> nat \<Rightarrow> bool \<Rightarrow> int \<Rightarrow> (u64 \<times> u64 \<times> bool \<times> int) option option" where
  "add_aligned big small shift same_sign exponent =
     (let (shi, slo, sticky) = align_smaller small shift in
      if same_sign then Some (Some (add_magnitudes big shi slo sticky exponent))
      else
        let (hi, lo) = sub_pair big shi slo sticky in
        if hi = 0 \<and> lo = 0 then Some None
        else do {
          (hi, lo, exponent) \<leftarrow> normalise_pair hi lo exponent;
          Some (Some (hi, lo, sticky, exponent))
        })"

definition round_sum :: "u16 \<Rightarrow> u16 \<Rightarrow> u64 \<times> u64 \<times> bool \<times> int \<Rightarrow> (ext80 \<times> u16) option" where
  "round_sum sign flags = (\<lambda>(hi, lo, sticky, exponent).
     (let half = 0x8000000000000000;
          inexact = lo \<noteq> 0 \<or> sticky;
          up = lo > half \<or> (lo = half \<and> (sticky \<or> hi AND 1 \<noteq> 0));
          hi' = (if up then hi + 1 else hi);
          carried = up \<and> hi' = 0;
          hi' = (if carried then half else hi');
          exponent = (if carried then exponent + 1 else exponent);
          raised = (if inexact then kInexact else 0) OR (if up then kRoundedUp else 0) in
      if \<not> exponent_in_range exponent then None
      else Some (\<lparr>e8_signif = hi', e8_sign_exp = sign OR word_of_int exponent\<rparr>, flags OR raised)))"

text \<open>The operand of larger magnitude with the sign it enters with, and the other one.\<close>

definition larger_first :: "ext80 \<Rightarrow> ext80 \<Rightarrow> u16 \<Rightarrow> (ext80 \<times> u16) \<times> (ext80 \<times> u16)" where
  "larger_first x y y_sign =
     (let ex = e8_sign_exp x AND 0x7FFF; ey = e8_sign_exp y AND 0x7FFF; x_sign = e8_sign_exp x AND 0x8000 in
      if ey > ex \<or> (ey = ex \<and> e8_signif y > e8_signif x) then ((y, y_sign), (x, x_sign)) else ((x, x_sign), (y, y_sign)))"

definition x86p_ext80_add_ordinary :: "u16 \<Rightarrow> ext80 \<Rightarrow> ext80 \<Rightarrow> bool \<Rightarrow> u16 \<Rightarrow> (ext80 \<times> u16) option option" where
  "x86p_ext80_add_ordinary control x y subtract flags =
     (if \<not> x86p_ext80_control_is_ordinary control then Some None
      else if \<not> x86p_ext80_is_normal_or_zero x \<or> \<not> x86p_ext80_is_normal_or_zero y then Some None
      else
        let y_sign = (e8_sign_exp y AND 0x8000) XOR (if subtract then 0x8000 else 0) in
        if x86p_ext80_is_zero x \<or> x86p_ext80_is_zero y then
          Some (Some
            (if \<not> x86p_ext80_is_zero y then (\<lparr>e8_signif = e8_signif y, e8_sign_exp = (e8_sign_exp y AND 0x7FFF) OR y_sign\<rparr>, flags)
             else if \<not> x86p_ext80_is_zero x then (x, flags)
             else (\<lparr>e8_signif = 0, e8_sign_exp = (if e8_sign_exp x AND 0x8000 = y_sign then y_sign else 0)\<rparr>, flags)))
        else
          let ((big, sign), (small, small_sign)) = larger_first x y y_sign;
              big_exp = e8_sign_exp big AND 0x7FFF;
              shift = unat (big_exp - (e8_sign_exp small AND 0x7FFF)) in
          do {
            r \<leftarrow> add_aligned (e8_signif big) (e8_signif small) shift (sign = small_sign) (int (unat big_exp));
            Some (case r of None \<Rightarrow> None | Some s \<Rightarrow> round_sum sign flags s)
          })"

end
