(* ===== verification/X86_F128.thy ===== *)
theory X86_F128
  imports X86_Ext80
begin

text \<open>
  The host's \<open>long double\<close> in the configuration modelled, IEEE binary128, as its two halves: the
  bit-level operations of \<open>src/src/x86port/x87_binary128.c\<close>, the exact reassembly to and from the
  extended format of \<open>x87_f128_ext80.cpp\<close>, and the tests C makes on a \<open>long double\<close>.
\<close>

section \<open>The value and its classes\<close>

record f128 =
  f_lo :: u64
  f_hi :: u64

definition F128_EXP_MASK :: u32 where "F128_EXP_MASK = 0x7FFF"
definition F128_SIGN_BIT :: u64 where "F128_SIGN_BIT = 0x8000000000000000"
definition F128_HI_MANT_MASK :: u64 where "F128_HI_MANT_MASK = 0x0000FFFFFFFFFFFF"

definition f128_exponent :: "f128 \<Rightarrow> u32" where
  "f128_exponent v = ucast (drop_bit 48 (f_hi v) AND ucast F128_EXP_MASK)"

definition f128_mantissa_is_zero :: "f128 \<Rightarrow> bool" where
  "f128_mantissa_is_zero v \<longleftrightarrow> f_lo v = 0 \<and> f_hi v AND F128_HI_MANT_MASK = 0"

definition x86p_f128_is_zero :: "f128 \<Rightarrow> bool" where
  "x86p_f128_is_zero v \<longleftrightarrow> f128_exponent v = 0 \<and> f128_mantissa_is_zero v"

definition x86p_f128_is_nan :: "f128 \<Rightarrow> bool" where
  "x86p_f128_is_nan v \<longleftrightarrow> f128_exponent v = F128_EXP_MASK \<and> \<not> f128_mantissa_is_zero v"

definition x86p_f128_is_inf :: "f128 \<Rightarrow> bool" where
  "x86p_f128_is_inf v \<longleftrightarrow> f128_exponent v = F128_EXP_MASK \<and> f128_mantissa_is_zero v"

section \<open>Widening\<close>

definition f128_make :: "u64 \<Rightarrow> u32 \<Rightarrow> u64 \<Rightarrow> u64 \<Rightarrow> f128" where
  "f128_make sign biased_exp mant_hi mant_lo =
     \<lparr>f_lo = mant_lo,
      f_hi = sign OR push_bit 48 (ucast (biased_exp AND F128_EXP_MASK)) OR (mant_hi AND F128_HI_MANT_MASK)\<rparr>"

text \<open>The loop has the fuel of the one in \<open>X86_Ext80\<close>, which it is but for what it counts.\<close>

definition widen128 :: "u64 \<Rightarrow> u32 \<Rightarrow> u64 \<Rightarrow> nat \<Rightarrow> u32 \<Rightarrow> int \<Rightarrow> f128 option" where
  "widen128 sign expo mant precision exp_max bias =
     (let field = precision - 1; shift = 112 - field; implicit = push_bit field 1;
          assemble = (\<lambda>mant biased :: int.
            let hi = (if 64 \<le> shift then push_bit (shift - 64) mant else drop_bit (64 - shift) mant);
                lo = (if 64 \<le> shift then 0 else push_bit shift mant)
            in f128_make sign (word_of_int biased) hi lo) in
      if expo = 0 \<and> mant = 0 then Some (f128_make sign 0 0 0)
      else if expo = exp_max then
        Some (assemble (if mant \<noteq> 0 then mant OR drop_bit 1 implicit else mant) 0x7FFF)
      else if expo = 0 then do {
        (mant, biased) \<leftarrow> normalise_loop 64 field mant (16383 + 1 - bias);
        Some (assemble (mant AND (implicit - 1)) biased)
      }
      else Some (assemble mant (int (unat expo) - bias + 16383)))"

definition x86p_f128_from_f32 :: "u32 \<Rightarrow> f128 option" where
  "x86p_f128_from_f32 bits =
     widen128 (push_bit 63 (ucast (drop_bit 31 bits))) (drop_bit 23 bits AND 0xFF) (ucast (bits AND 0x7FFFFF)) 24 0xFF 127"

definition x86p_f128_from_f64 :: "u64 \<Rightarrow> f128 option" where
  "x86p_f128_from_f64 bits =
     widen128 (bits AND F128_SIGN_BIT) (ucast (drop_bit 52 bits AND 0x7FF)) (bits AND 0xFFFFFFFFFFFFF) 53 0x7FF 1023"

section \<open>Order\<close>

definition x86p_f128_compare :: "f128 \<Rightarrow> f128 \<Rightarrow> int" where
  "x86p_f128_compare a b =
     (let a_neg = f_hi a AND F128_SIGN_BIT \<noteq> 0; b_neg = f_hi b AND F128_SIGN_BIT \<noteq> 0 in
      if x86p_f128_is_zero a \<and> x86p_f128_is_zero b then 0
      else if a_neg \<noteq> b_neg then (if a_neg then -1 else 1)
      else if f_hi a \<noteq> f_hi b then (if (f_hi a > f_hi b) \<noteq> a_neg then 1 else -1)
      else if f_lo a = f_lo b then 0
      else (if (f_lo a > f_lo b) \<noteq> a_neg then 1 else -1))"

text \<open>
  What C's operators and classification macros say of a \<open>long double\<close>: comparisons are false on a NaN,
  and negation and absolute value act on the sign bit.
\<close>

definition ld_zero :: f128 where
  "ld_zero = \<lparr>f_lo = 0, f_hi = 0\<rparr>"

definition ld_less :: "f128 \<Rightarrow> f128 \<Rightarrow> bool" where
  "ld_less a b \<longleftrightarrow> \<not> x86p_f128_is_nan a \<and> \<not> x86p_f128_is_nan b \<and> x86p_f128_compare a b < 0"

definition ld_equal :: "f128 \<Rightarrow> f128 \<Rightarrow> bool" where
  "ld_equal a b \<longleftrightarrow> \<not> x86p_f128_is_nan a \<and> \<not> x86p_f128_is_nan b \<and> x86p_f128_compare a b = 0"

definition ld_signbit :: "f128 \<Rightarrow> bool" where
  "ld_signbit a \<longleftrightarrow> f_hi a AND F128_SIGN_BIT \<noteq> 0"

definition ld_neg :: "f128 \<Rightarrow> f128" where
  "ld_neg a = a\<lparr>f_hi := f_hi a XOR F128_SIGN_BIT\<rparr>"

definition ld_abs :: "f128 \<Rightarrow> f128" where
  "ld_abs a = a\<lparr>f_hi := f_hi a AND NOT F128_SIGN_BIT\<rparr>"

definition ld_subnormal :: "f128 \<Rightarrow> bool" where
  "ld_subnormal a \<longleftrightarrow> f128_exponent a = 0 \<and> \<not> f128_mantissa_is_zero a"

section \<open>The exact reassembly\<close>

definition kExponentMask :: u16 where "kExponentMask = 0x7FFF"
definition kFractionHighMask :: u64 where "kFractionHighMask = 0x0000FFFFFFFFFFFF"
definition kInexactLowMask :: u64 where "kInexactLowMask = 0x0001FFFFFFFFFFFF"
definition kLowFractionBits :: nat where "kLowFractionBits = 49"
definition kHighFractionShift :: nat where "kHighFractionShift = 15"

definition is_finite_normal :: "u16 \<Rightarrow> bool" where
  "is_finite_normal sign_exponent \<longleftrightarrow>
     sign_exponent AND kExponentMask \<noteq> 0 \<and> sign_exponent AND kExponentMask \<noteq> kExponentMask"

definition x86p_x87_f128_to_ext80_exact :: "f128 \<Rightarrow> ext80 option" where
  "x86p_x87_f128_to_ext80_exact v =
     (let sign_exponent = ucast (drop_bit 48 (f_hi v)) in
      if \<not> is_finite_normal sign_exponent \<or> f_lo v AND kInexactLowMask \<noteq> 0 then None
      else Some \<lparr>e8_signif = EXT80_INTEGER_BIT OR push_bit kHighFractionShift (f_hi v AND kFractionHighMask) OR
                   drop_bit kLowFractionBits (f_lo v),
                 e8_sign_exp = sign_exponent\<rparr>)"

definition x86p_x87_ext80_to_f128_exact :: "ext80 \<Rightarrow> f128 option" where
  "x86p_x87_ext80_to_f128_exact value =
     (if \<not> is_finite_normal (e8_sign_exp value) \<or> e8_signif value AND EXT80_INTEGER_BIT = 0 then None
      else Some \<lparr>f_lo = push_bit kLowFractionBits (e8_signif value),
                 f_hi = push_bit 48 (ucast (e8_sign_exp value)) OR
                   (drop_bit kHighFractionShift (e8_signif value) AND kFractionHighMask)\<rparr>)"

end
