(* ===== verification/X86_X87_Arith.thy ===== *)
theory X86_X87_Arith
  imports X86_F128
begin

text \<open>
  The arithmetic of the x87 unit, \<open>src/src/x86port/x87.c\<close>, with the edges to \<open>long double\<close> and to the
  software library of \<open>x87_softfloat.cpp\<close>, the double-precision mode of \<open>x87_double_arith.c\<close>, the
  operation census of \<open>x87_op_census.c\<close> and the integer conversions of \<open>x87_integer.c\<close>, in the
  configuration whose registers are the guest's encoding and whose \<open>long double\<close> is binary128.

  The software library is fetched, not part of the repository: its operations are the fields of a
  record, as the host's own double arithmetic is.  The armed census, a pointer in the unit, is the
  unit's flag; its counters are a value that is passed along.  A loop of the conversions that had
  not ended would yield the zero encoding; \<open>X86_X87_Properties\<close> shows that all end.
\<close>

section \<open>What the library and the host provide\<close>

datatype x87_op = kX86pX87Add | kX86pX87Sub | kX86pX87Mul | kX86pX87Div | kX86pX87OpCount

datatype x87_fn =
    kX86pX87FnSqrt | kX86pX87FnSin | kX86pX87FnCos | kX86pX87FnSinCos | kX86pX87FnPtan | kX86pX87FnPatan
  | kX86pX87FnYl2x | kX86pX87FnYl2xp1 | kX86pX87Fn2xm1 | kX86pX87FnScale | kX86pX87FnRndint | kX86pX87FnXtract
  | kX86pX87FnPrem | kX86pX87FnPrem1 | kX86pX87FnAbs | kX86pX87FnChs | kX86pX87FnCount

record sf_status =
  sf_rounding :: u16
  sf_precision :: nat

text \<open>A library function leaves its operand replaced, a second result, a code, a quotient and flags.\<close>

record sf_outcome =
  so_x :: ext80
  so_second :: ext80
  so_incomplete :: int
  so_quotient :: u64
  so_flags :: u16

datatype double_fn = DoubleSqrt | DoubleSin | DoubleCos | DoubleTan | DoubleAtan2

record softfloat =
  sf_arith :: "x87_op \<Rightarrow> sf_status \<Rightarrow> ext80 \<Rightarrow> ext80 \<Rightarrow> ext80 \<times> u16"
  sf_to_f32 :: "sf_status \<Rightarrow> ext80 \<Rightarrow> u32"
  sf_to_f64 :: "sf_status \<Rightarrow> ext80 \<Rightarrow> u64"
  sf_of_f128 :: "sf_status \<Rightarrow> f128 \<Rightarrow> ext80"
  sf_to_f128 :: "sf_status \<Rightarrow> ext80 \<Rightarrow> f128"
  sf_fn :: "x87_fn \<Rightarrow> sf_status \<Rightarrow> ext80 \<Rightarrow> ext80 \<Rightarrow> sf_outcome"
  hd_arith :: "x87_op \<Rightarrow> u64 \<Rightarrow> u64 \<Rightarrow> u64"
  hd_fn :: "double_fn \<Rightarrow> u64 \<Rightarrow> u64 \<Rightarrow> u64"

section \<open>The edges of the register file\<close>

definition X86P_X87_DE :: u16 where "X86P_X87_DE = 0x0002"
definition X86P_X87_ZE :: u16 where "X86P_X87_ZE = 0x0004"
definition X86P_X87_OE :: u16 where "X86P_X87_OE = 0x0008"
definition X86P_X87_UE :: u16 where "X86P_X87_UE = 0x0010"
definition X86P_X87_PE :: u16 where "X86P_X87_PE = 0x0020"
definition X86P_X87_PC_DOUBLE :: u16 where "X86P_X87_PC_DOUBLE = 0x0200"

definition environment :: "u16 \<Rightarrow> sf_status" where
  "environment control =
     \<lparr>sf_rounding = drop_bit 10 control AND 3,
      sf_precision =
        (let pc = control AND X86P_X87_PC_MASK in
         if pc = X86P_X87_PC_SINGLE then 32 else if pc = X86P_X87_PC_DOUBLE then 64 else 80)\<rparr>"

definition reg_of_ext80 :: "ext80 \<Rightarrow> x87_reg" where
  "reg_of_ext80 wide = \<lparr>xr_signif = e8_signif wide, xr_sign_exp = e8_sign_exp wide\<rparr>"

definition ext80_of_reg :: "x87_reg \<Rightarrow> ext80" where
  "ext80_of_reg value = \<lparr>e8_signif = xr_signif value, e8_sign_exp = xr_sign_exp value\<rparr>"

definition widen_ld :: "softfloat \<Rightarrow> f128 \<Rightarrow> ext80" where
  "widen_ld S value =
     (case x86p_x87_f128_to_ext80_exact value of
        Some exact \<Rightarrow> exact
      | None \<Rightarrow> sf_of_f128 S (environment X86P_X87_CW_INIT) value)"

definition narrow_ld :: "softfloat \<Rightarrow> ext80 \<Rightarrow> f128" where
  "narrow_ld S value =
     (case x86p_x87_ext80_to_f128_exact value of
        Some exact \<Rightarrow> exact
      | None \<Rightarrow> sf_to_f128 S (environment X86P_X87_CW_INIT) value)"

definition x86p_x87_reg_from_long_double :: "softfloat \<Rightarrow> f128 \<Rightarrow> x87_reg" where
  "x86p_x87_reg_from_long_double S v = reg_of_ext80 (widen_ld S v)"

definition x86p_x87_reg_to_long_double :: "softfloat \<Rightarrow> x87_reg \<Rightarrow> f128" where
  "x86p_x87_reg_to_long_double S v = narrow_ld S (ext80_of_reg v)"

definition x86p_x87_software_arith_raw :: "softfloat \<Rightarrow> u16 \<Rightarrow> x87_op \<Rightarrow> x87_reg \<Rightarrow> x87_reg \<Rightarrow> x87_reg \<times> u16" where
  "x86p_x87_software_arith_raw S control op a b =
     (if op = kX86pX87OpCount then (\<lparr>xr_signif = 0, xr_sign_exp = 0\<rparr>, 0)
      else let (r, flags) = sf_arith S op (environment control) (ext80_of_reg a) (ext80_of_reg b) in (reg_of_ext80 r, flags))"

definition x86p_x87_software_narrow_raw :: "softfloat \<Rightarrow> u16 \<Rightarrow> x87_reg \<Rightarrow> bool \<Rightarrow> u64" where
  "x86p_x87_software_narrow_raw S control value is64 =
     (if is64 then sf_to_f64 S (environment control) (ext80_of_reg value)
      else ucast (sf_to_f32 S (environment control) (ext80_of_reg value)))"

definition x86p_x87_software_constant :: "softfloat \<Rightarrow> u16 \<Rightarrow> f128 \<Rightarrow> f128" where
  "x86p_x87_software_constant S control value = narrow_ld S (sf_of_f128 S (environment control) value)"

definition x86p_x87_get :: "softfloat \<Rightarrow> x87 \<Rightarrow> nat \<Rightarrow> f128 option" where
  "x86p_x87_get S f i = map_option (x86p_x87_reg_to_long_double S) (x86p_x87_read f i)"

definition x86p_x87_set :: "softfloat \<Rightarrow> x87 \<Rightarrow> nat \<Rightarrow> f128 \<Rightarrow> x87" where
  "x86p_x87_set S f i v =
     (case x86p_x87_write f i (x86p_x87_reg_from_long_double S v) of None \<Rightarrow> f | Some f' \<Rightarrow> f')"

definition x86p_x87_push :: "softfloat \<Rightarrow> x87 \<Rightarrow> f128 \<Rightarrow> bool \<times> x87" where
  "x86p_x87_push S f v = x86p_x87_push_value f (x86p_x87_reg_from_long_double S v)"

definition x86p_x87_pop :: "x87 \<Rightarrow> x87" where
  "x86p_x87_pop f = snd (x86p_x87_pop_value f)"

section \<open>Constants\<close>

definition x86p_x87_push_constant :: "softfloat \<Rightarrow> x87 \<Rightarrow> f128 \<Rightarrow> bool \<times> x87" where
  "x86p_x87_push_constant S f value = x86p_x87_push S f (x86p_x87_software_constant S (x_control f) value)"

section \<open>Double precision\<close>

definition x86p_x87_double_control_applies :: "u16 \<Rightarrow> bool" where
  "x86p_x87_double_control_applies control \<longleftrightarrow>
     control AND X86P_X87_RC_MASK = X86P_X87_RC_NEAREST \<and> control AND X86P_X87_PC_MASK \<noteq> X86P_X87_PC_SINGLE"

definition x86p_ext80_to_double :: "ext80 \<Rightarrow> u64 option" where
  "x86p_ext80_to_double v = x86p_ext80_narrow_nearest v 8"

definition ended :: "ext80 option \<Rightarrow> ext80" where
  "ended r = (case r of Some e \<Rightarrow> e | None \<Rightarrow> \<lparr>e8_signif = 0, e8_sign_exp = 0\<rparr>)"

definition x86p_ext80_of_double :: "u64 \<Rightarrow> ext80 option" where
  "x86p_ext80_of_double bits =
     (let exponent = drop_bit 52 bits AND 0x7FF in
      if exponent = 0x7FF \<or> (exponent = 0 \<and> push_bit 1 bits \<noteq> 0) then None
      else if exponent = 0 then Some \<lparr>e8_signif = 0, e8_sign_exp = ucast (push_bit 15 (drop_bit 63 bits))\<rparr>
      else Some (ended (x86p_ext80_from_f64_bits bits)))"

definition x86p_ext80_double_arith :: "softfloat \<Rightarrow> u16 \<Rightarrow> x87_op \<Rightarrow> ext80 \<Rightarrow> ext80 \<Rightarrow> ext80 option" where
  "x86p_ext80_double_arith S control op x y =
     (if \<not> x86p_x87_double_control_applies control then None
      else do {
        a \<leftarrow> x86p_ext80_to_double x;
        b \<leftarrow> x86p_ext80_to_double y;
        if op = kX86pX87OpCount then None else x86p_ext80_of_double (hd_arith S op a b)
      })"

section \<open>The census\<close>

record op_census =
  cn_total :: "nat \<Rightarrow> u64"
  cn_taken :: "nat \<Rightarrow> u64"
  cn_refused_control :: "nat \<Rightarrow> u64"
  cn_refused_other :: "nat \<Rightarrow> u64"
  cn_by_precision :: "nat \<Rightarrow> u64"
  cn_by_rounding :: "nat \<Rightarrow> u64"
  cn_ordinary_measured :: bool

primrec op_index :: "x87_op \<Rightarrow> nat" where
  "op_index kX86pX87Add = 0"
| "op_index kX86pX87Sub = 1"
| "op_index kX86pX87Mul = 2"
| "op_index kX86pX87Div = 3"
| "op_index kX86pX87OpCount = 4"

definition counted :: "nat \<Rightarrow> (nat \<Rightarrow> u64) \<Rightarrow> nat \<Rightarrow> u64" where
  "counted i counters = counters(i := counters i + 1)"

definition note_mode :: "u16 \<Rightarrow> op_census \<Rightarrow> op_census" where
  "note_mode control c =
     c\<lparr>cn_by_precision := counted (unat (drop_bit 8 control AND 3)) (cn_by_precision c),
       cn_by_rounding := counted (unat (drop_bit 10 control AND 3)) (cn_by_rounding c)\<rparr>"

text \<open>The addition's inner loop has fuel; a loop that had not ended would count as a refusal.\<close>

definition add_answer :: "u16 \<Rightarrow> ext80 \<Rightarrow> ext80 \<Rightarrow> bool \<Rightarrow> u16 \<Rightarrow> (ext80 \<times> u16) option" where
  "add_answer control x y subtract flags =
     (case x86p_ext80_add_ordinary control x y subtract flags of None \<Rightarrow> None | Some answer \<Rightarrow> answer)"

definition x86p_x87_census_note_ext80 :: "u16 \<Rightarrow> x87_op \<Rightarrow> ext80 \<Rightarrow> ext80 \<Rightarrow> op_census \<Rightarrow> op_census" where
  "x86p_x87_census_note_ext80 control op ex ey c =
     (let i = op_index op; c = note_mode control c;
          c = c\<lparr>cn_ordinary_measured := True, cn_total := counted i (cn_total c)\<rparr>;
          taken = c\<lparr>cn_taken := counted i (cn_taken c)\<rparr> in
      if \<not> x86p_ext80_control_is_ordinary control then c\<lparr>cn_refused_control := counted i (cn_refused_control c)\<rparr>
      else if \<not> x86p_ext80_is_normal_or_zero ex \<or> \<not> x86p_ext80_is_normal_or_zero ey then
        c\<lparr>cn_refused_other := counted i (cn_refused_other c)\<rparr>
      else if op = kX86pX87Mul then (if x86p_ext80_mul_ordinary control ex ey 0 \<noteq> None then taken else c)
      else if op = kX86pX87Add \<or> op = kX86pX87Sub then
        (if add_answer control ex ey (op = kX86pX87Sub) 0 \<noteq> None then taken else c)
      else c)"

definition x86p_x87_census_note_reg :: "u16 \<Rightarrow> x87_op \<Rightarrow> x87_reg \<Rightarrow> x87_reg \<Rightarrow> op_census \<Rightarrow> op_census" where
  "x86p_x87_census_note_reg control op x y = x86p_x87_census_note_ext80 control op (ext80_of_reg x) (ext80_of_reg y)"

section \<open>Arithmetic\<close>

definition x86p_x87_ext80_of_st :: "x87 \<Rightarrow> nat \<Rightarrow> ext80 option" where
  "x86p_x87_ext80_of_st f i =
     (if X86P_X87_REGS \<le> i then None
      else let p = x86p_x87_phys f i in
        if x_tag f ! p = kX86pX87TagEmpty then None
        else Some \<lparr>e8_signif = xr_signif (x_reg f ! p), e8_sign_exp = xr_sign_exp (x_reg f ! p)\<rparr>)"

text \<open>What the encoding-level rules answer: the result and the status bits raised.\<close>

definition encoded_answer :: "softfloat \<Rightarrow> x87 \<Rightarrow> x87_op \<Rightarrow> ext80 \<Rightarrow> ext80 \<Rightarrow> (ext80 \<times> u16) option" where
  "encoded_answer S f op x y =
     (case (if x_double_arith f \<noteq> 0 then x86p_ext80_double_arith S (x_control f) op x y else None) of
        Some r \<Rightarrow> Some (r, 0)
      | None \<Rightarrow>
          if op = kX86pX87Mul then x86p_ext80_mul_ordinary (x_control f) x y 0
          else if op = kX86pX87Add \<or> op = kX86pX87Sub then add_answer (x_control f) x y (op = kX86pX87Sub) 0
          else None)"

definition x86p_x87_arith_ext80_fast ::
    "softfloat \<Rightarrow> x87 \<Rightarrow> op_census \<Rightarrow> x87_op \<Rightarrow> nat \<Rightarrow> ext80 \<Rightarrow> bool \<Rightarrow> bool \<times> x87 \<times> op_census" where
  "x86p_x87_arith_ext80_fast S f c op dst src reverse =
     (case x86p_x87_ext80_of_st f dst of
        None \<Rightarrow> (False, f, c)
      | Some a \<Rightarrow>
          let x = (if reverse then src else a); y = (if reverse then a else src);
              c = (if x_op_census f then x86p_x87_census_note_ext80 (x_control f) op x y c else c) in
          case encoded_answer S f op x y of
            None \<Rightarrow> (False, f, c)
          | Some (r, raised) \<Rightarrow>
              let p = x86p_x87_phys f dst; f = x86p_x87_store_slot f p (reg_of_ext80 r);
                  f = f\<lparr>x_tag := (x_tag f)[p := kX86pX87TagValid]\<rparr> in
              (True, f\<lparr>x_status := x_status f OR raised\<rparr>, c))"

definition reg_is_zero :: "x87_reg \<Rightarrow> bool" where
  "reg_is_zero v \<longleftrightarrow> xr_sign_exp v AND 0x7FFF = 0 \<and> xr_signif v = 0"

definition reg_is_nan :: "x87_reg \<Rightarrow> bool" where
  "reg_is_nan v \<longleftrightarrow> xr_sign_exp v AND 0x7FFF = 0x7FFF \<and> push_bit 1 (xr_signif v) \<noteq> 0"

definition x86p_x87_arith_raw ::
    "softfloat \<Rightarrow> x87 \<Rightarrow> op_census \<Rightarrow> x87_op \<Rightarrow> nat \<Rightarrow> x87_reg \<Rightarrow> bool \<Rightarrow> bool \<times> x87 \<times> op_census" where
  "x86p_x87_arith_raw S f c op dst src reverse =
     (case x86p_x87_read f dst of
        None \<Rightarrow> (False, f\<lparr>x_status := x_status f OR (X86P_X87_IE OR X86P_X87_SF)\<rparr>, c)
      | Some a \<Rightarrow>
          let x = (if reverse then src else a); y = (if reverse then a else src) in
          if op = kX86pX87OpCount then (False, f, c)
          else
            let c = (if x_op_census f then x86p_x87_census_note_reg (x_control f) op x y c else c);
                divide_by_zero = (op = kX86pX87Div \<and> reg_is_zero y \<and> \<not> reg_is_zero x \<and> \<not> reg_is_nan x);
                f = (if divide_by_zero then f\<lparr>x_status := x_status f OR X86P_X87_ZE\<rparr> else f);
                (r, raised) =
                  (case (if divide_by_zero then None else encoded_answer S f op (ext80_of_reg x) (ext80_of_reg y)) of
                     Some (er, raised) \<Rightarrow> (reg_of_ext80 er, raised)
                   | None \<Rightarrow> x86p_x87_software_arith_raw S (x_control f) op x y);
                f = f\<lparr>x_status := x_status f OR raised\<rparr> in
            case x86p_x87_write f dst r of
              None \<Rightarrow> (False, f, c)
            | Some f \<Rightarrow> (True, f, c))"

section \<open>Comparison\<close>

definition x86p_x87_compare :: "softfloat \<Rightarrow> x87 \<Rightarrow> f128 \<Rightarrow> bool \<times> x87" where
  "x86p_x87_compare S f other =
     (case x86p_x87_get S f 0 of
        None \<Rightarrow> (False, f\<lparr>x_status := x_status f OR (X86P_X87_IE OR X86P_X87_SF)\<rparr>)
      | Some a \<Rightarrow>
          let st = x_status f AND NOT (X86P_X87_C0 OR X86P_X87_C1 OR X86P_X87_C2 OR X86P_X87_C3) in
          if x86p_f128_is_nan a \<or> x86p_f128_is_nan other then
            (True, f\<lparr>x_status := st OR (X86P_X87_C0 OR X86P_X87_C2 OR X86P_X87_C3) OR X86P_X87_IE\<rparr>)
          else
            let order = x86p_f128_compare a other in
            (True, f\<lparr>x_status := (if order < 0 then st OR X86P_X87_C0 else if order = 0 then st OR X86P_X87_C3 else st)\<rparr>))"

section \<open>Formats\<close>

definition x86p_x87_reg_from_f32_bits :: "u32 \<Rightarrow> x87_reg" where
  "x86p_x87_reg_from_f32_bits bits = reg_of_ext80 (ended (x86p_ext80_from_f32_bits bits))"

definition x86p_x87_reg_from_f64_bits :: "u64 \<Rightarrow> x87_reg" where
  "x86p_x87_reg_from_f64_bits bits = reg_of_ext80 (ended (x86p_ext80_from_f64_bits bits))"

definition narrow_ordinary :: "u16 \<Rightarrow> x87_reg \<Rightarrow> nat \<Rightarrow> u64 option" where
  "narrow_ordinary control v width =
     (if control AND X86P_X87_RC_MASK \<noteq> X86P_X87_RC_NEAREST then None
      else x86p_ext80_narrow_nearest (ext80_of_reg v) width)"

definition x86p_x87_reg_to_f32_bits :: "softfloat \<Rightarrow> u16 \<Rightarrow> x87_reg \<Rightarrow> u64" where
  "x86p_x87_reg_to_f32_bits S control v =
     (case narrow_ordinary control v 4 of Some bits \<Rightarrow> bits | None \<Rightarrow> x86p_x87_software_narrow_raw S control v False)"

definition x86p_x87_reg_to_f64_bits :: "softfloat \<Rightarrow> u16 \<Rightarrow> x87_reg \<Rightarrow> u64" where
  "x86p_x87_reg_to_f64_bits S control v =
     (case narrow_ordinary control v 8 of Some bits \<Rightarrow> bits | None \<Rightarrow> x86p_x87_software_narrow_raw S control v True)"

definition integer_of_bits :: "u64 \<Rightarrow> nat \<Rightarrow> u64" where
  "integer_of_bits bits width =
     (if width = 2 then scast (ucast bits :: u16) else if width = 4 then scast (ucast bits :: u32) else bits)"

definition x86p_x87_reg_from_integer_bits :: "u64 \<Rightarrow> nat \<Rightarrow> x87_reg" where
  "x86p_x87_reg_from_integer_bits bits width = reg_of_ext80 (ended (x86p_ext80_from_int (integer_of_bits bits width)))"

definition x86p_x87_reg_to_int :: "u16 \<Rightarrow> x87_reg \<Rightarrow> nat \<Rightarrow> u64 option" where
  "x86p_x87_reg_to_int control value width = x86p_ext80_to_int control (ext80_of_reg value) width"

definition x86p_x87_reg_to_integer_bits :: "x87 \<Rightarrow> x87_reg \<Rightarrow> nat \<Rightarrow> u64 \<times> x87" where
  "x86p_x87_reg_to_integer_bits f value width =
     (case x86p_x87_reg_to_int (x_control f) value width of
        Some result \<Rightarrow> (result, f)
      | None \<Rightarrow>
          (if width = 2 then - (2 ^ 15) else if width = 4 then - (2 ^ 31) else - (2 ^ 63),
           f\<lparr>x_status := x_status f OR X86P_X87_IE\<rparr>))"

end
