(* ===== verification/X86_X87_Registers.thy ===== *)
theory X86_X87_Registers
  imports X86_X87_Arith X86_Exec
begin

text \<open>
  The operations of the x87 unit on its registers and on guest memory: \<open>x87_register.c\<close>,
  \<open>x87_memory.c\<close> and \<open>x87_state.c\<close> under \<open>src/src/x86port\<close>.  An operation whose result the code ignores returns
  the unit alone.
\<close>

section \<open>Registers\<close>

definition x87_cc :: u16 where
  "x87_cc = X86P_X87_C0 OR X86P_X87_C1 OR X86P_X87_C2 OR X86P_X87_C3"

definition pops :: "nat \<Rightarrow> x87 \<Rightarrow> x87" where
  "pops n f = (x86p_x87_pop ^^ n) f"

definition x86p_x87_compare_register :: "softfloat \<Rightarrow> x87 \<Rightarrow> nat \<Rightarrow> nat \<Rightarrow> x87" where
  "x86p_x87_compare_register S f index n =
     (case x86p_x87_get S f index of
        None \<Rightarrow> f
      | Some other \<Rightarrow> pops n (snd (x86p_x87_compare S f other)))"

definition x86p_x87_exchange :: "softfloat \<Rightarrow> x87 \<Rightarrow> nat \<Rightarrow> x87" where
  "x86p_x87_exchange S f index =
     (case (x86p_x87_get S f 0, x86p_x87_get S f index) of
        (Some a, Some b) \<Rightarrow> x86p_x87_set S (x86p_x87_set S f 0 b) index a
      | _ \<Rightarrow> f)"

definition x86p_x87_sign :: "softfloat \<Rightarrow> x87 \<Rightarrow> bool \<Rightarrow> x87" where
  "x86p_x87_sign S f absolute =
     (case x86p_x87_get S f 0 of
        None \<Rightarrow> f
      | Some v \<Rightarrow> x86p_x87_set S f 0 (if absolute then ld_abs v else ld_neg v))"

definition x86p_x87_test :: "softfloat \<Rightarrow> x87 \<Rightarrow> x87" where
  "x86p_x87_test S f =
     (case x86p_x87_get S f 0 of
        None \<Rightarrow> f
      | Some v \<Rightarrow>
          let st = x_status f AND NOT x87_cc in
          f\<lparr>x_status :=
            (if ld_less v ld_zero then st OR X86P_X87_C0
             else if ld_equal v ld_zero then st OR X86P_X87_C3
             else if \<not> ld_less ld_zero v then st OR (X86P_X87_C0 OR X86P_X87_C2 OR X86P_X87_C3)
             else st)\<rparr>)"

definition x86p_x87_examine :: "softfloat \<Rightarrow> x87 \<Rightarrow> x87" where
  "x86p_x87_examine S f =
     (let f = f\<lparr>x_status := x_status f AND NOT x87_cc\<rparr> in
      case x86p_x87_get S f 0 of
        None \<Rightarrow> f\<lparr>x_status := x_status f OR (X86P_X87_C3 OR X86P_X87_C0)\<rparr>
      | Some v \<Rightarrow>
          let st = x_status f OR (if ld_signbit v then X86P_X87_C1 else 0) in
          f\<lparr>x_status := st OR
            (if x86p_f128_is_nan v then X86P_X87_C0
             else if x86p_f128_is_inf v then X86P_X87_C2 OR X86P_X87_C0
             else if x86p_f128_is_zero v then X86P_X87_C3
             else if ld_subnormal v then X86P_X87_C3 OR X86P_X87_C2
             else X86P_X87_C2)\<rparr>)"

definition x86p_x87_compare_flags :: "softfloat \<Rightarrow> x87 \<Rightarrow> flags \<Rightarrow> nat \<Rightarrow> (x87 \<times> flags) option" where
  "x86p_x87_compare_flags S f fl index =
     (case (x86p_x87_get S f 0, x86p_x87_get S f index) of
        (Some x, Some y) \<Rightarrow>
          let result = X86P_EFLAGS_FIXED OR
                (if x86p_f128_is_nan x \<or> x86p_f128_is_nan y then X86P_ZF OR X86P_PF OR X86P_CF
                 else if ld_less x y then X86P_CF
                 else if ld_equal x y then X86P_ZF
                 else 0) in
          Some (f\<lparr>x_status := x_status f AND NOT X86P_X87_C1\<rparr>, x86p_flags_set_explicit fl result)
      | _ \<Rightarrow> None)"

definition x86p_x87_compare_flags_pop :: "softfloat \<Rightarrow> x87 \<Rightarrow> flags \<Rightarrow> nat \<Rightarrow> nat \<Rightarrow> x87 \<times> flags" where
  "x86p_x87_compare_flags_pop S f fl index n =
     (case x86p_x87_compare_flags S f fl index of
        None \<Rightarrow> (f, fl)
      | Some (f, fl) \<Rightarrow> (pops n f, fl))"

section \<open>Memory operands\<close>

datatype 'a memory_result = kX86pX87MemoryOk 'a | kX86pX87MemoryFault | kX86pX87MemoryUnsupported

definition bits_width_supported :: "nat \<Rightarrow> bool \<Rightarrow> bool" where
  "bits_width_supported width integer =
     (if integer then width = 2 \<or> width = 4 \<or> width = 8 else width = 4 \<or> width = 8)"

definition width_supported :: "nat \<Rightarrow> bool \<Rightarrow> bool" where
  "width_supported width integer \<longleftrightarrow> bits_width_supported width integer \<or> (\<not> integer \<and> width = 10)"

definition x86p_x87_reg_from_operand_bits :: "u64 \<Rightarrow> nat \<Rightarrow> bool \<Rightarrow> x87_reg memory_result" where
  "x86p_x87_reg_from_operand_bits bits width integer =
     (if \<not> bits_width_supported width integer then kX86pX87MemoryUnsupported
      else kX86pX87MemoryOk
        (if integer then x86p_x87_reg_from_integer_bits bits width
         else if width = 4 then x86p_x87_reg_from_f32_bits (ucast bits)
         else x86p_x87_reg_from_f64_bits bits))"

definition operand_value :: "u8 list \<Rightarrow> u64" where
  "operand_value bytes = foldr (\<lambda>b value. push_bit 8 value OR ucast b) bytes 0"

definition x86p_x87_read_value_raw :: "mem \<Rightarrow> store \<Rightarrow> u32 \<Rightarrow> nat \<Rightarrow> bool \<Rightarrow> x87_reg memory_result" where
  "x86p_x87_read_value_raw m st address width integer =
     (if \<not> width_supported width integer then kX86pX87MemoryUnsupported
      else case x86p_mem_read_bytes m st address (of_nat width) of
          None \<Rightarrow> kX86pX87MemoryFault
        | Some bytes \<Rightarrow>
            if width = 10 then kX86pX87MemoryOk (x86p_x87_reg_from_f80 bytes)
            else x86p_x87_reg_from_operand_bits (operand_value bytes) width integer)"

definition x86p_x87_operand_bytes_from_reg ::
    "softfloat \<Rightarrow> x87 \<Rightarrow> x87_reg \<Rightarrow> nat \<Rightarrow> bool \<Rightarrow> u8 list memory_result \<times> x87" where
  "x86p_x87_operand_bytes_from_reg S f value width integer =
     (if \<not> width_supported width integer then (kX86pX87MemoryUnsupported, f)
      else if width = 10 then (kX86pX87MemoryOk (x86p_x87_reg_to_f80 value), f)
      else
        let (bits, f) =
              (if integer then x86p_x87_reg_to_integer_bits f value width
               else if width = 4 then (x86p_x87_reg_to_f32_bits S (x_control f) value, f)
               else (x86p_x87_reg_to_f64_bits S (x_control f) value, f))
        in (kX86pX87MemoryOk (map (\<lambda>i. ucast (drop_bit (8 * i) bits)) [0..<width]), f))"

definition x86p_x87_write_value_raw ::
    "softfloat \<Rightarrow> x87 \<Rightarrow> mem \<Rightarrow> host \<Rightarrow> u32 \<Rightarrow> nat \<Rightarrow> bool \<Rightarrow> x87_reg \<Rightarrow> host memory_result \<times> x87" where
  "x86p_x87_write_value_raw S f m s address width integer value =
     (case x86p_x87_operand_bytes_from_reg S f value width integer of
        (kX86pX87MemoryOk bytes, f) \<Rightarrow>
          (case x86p_mem_write_bytes m s address bytes (of_nat width) of
             None \<Rightarrow> (kX86pX87MemoryFault, f)
           | Some s \<Rightarrow> (kX86pX87MemoryOk s, f))
      | (kX86pX87MemoryFault, f) \<Rightarrow> (kX86pX87MemoryFault, f)
      | (kX86pX87MemoryUnsupported, f) \<Rightarrow> (kX86pX87MemoryUnsupported, f))"

definition x86p_x87_read_value :: "softfloat \<Rightarrow> mem \<Rightarrow> store \<Rightarrow> u32 \<Rightarrow> nat \<Rightarrow> bool \<Rightarrow> f128 memory_result" where
  "x86p_x87_read_value S m st address width integer =
     map_memory_result (x86p_x87_reg_to_long_double S) (x86p_x87_read_value_raw m st address width integer)"

definition x86p_x87_write_value ::
    "softfloat \<Rightarrow> x87 \<Rightarrow> mem \<Rightarrow> host \<Rightarrow> u32 \<Rightarrow> nat \<Rightarrow> bool \<Rightarrow> f128 \<Rightarrow> host memory_result \<times> x87" where
  "x86p_x87_write_value S f m s address width integer value =
     x86p_x87_write_value_raw S f m s address width integer (x86p_x87_reg_from_long_double S value)"

section \<open>The saved state\<close>

definition x87_environment :: "x87 \<Rightarrow> u32 list" where
  "x87_environment f = [ucast (x_control f), ucast (x86p_x87_status f), ucast (pack_tags f), 0, 0, 0, 0]"

primrec write_dwords :: "mem \<Rightarrow> u32 \<Rightarrow> u32 list \<Rightarrow> host \<Rightarrow> bool \<times> host" where
  "write_dwords m addr [] s = (True, s)"
| "write_dwords m addr (v # vs) s =
     (case x86p_mem_write m s addr 4 v of None \<Rightarrow> (False, s) | Some s \<Rightarrow> write_dwords m (addr + 4) vs s)"

definition write_env :: "x87 \<Rightarrow> mem \<Rightarrow> host \<Rightarrow> u32 \<Rightarrow> bool \<times> host" where
  "write_env f m s addr = write_dwords m addr (x87_environment f) s"

primrec write_bytes_each :: "mem \<Rightarrow> u32 \<Rightarrow> u8 list \<Rightarrow> host \<Rightarrow> bool \<times> host" where
  "write_bytes_each m addr [] s = (True, s)"
| "write_bytes_each m addr (b # bs) s =
     (case x86p_mem_write m s addr 1 (ucast b) of None \<Rightarrow> (False, s) | Some s \<Rightarrow> write_bytes_each m (addr + 1) bs s)"

definition X86P_X87_STATE_BYTES :: nat where "X86P_X87_STATE_BYTES = 108"

text \<open>The registers' images follow one another, so the ten-byte stores walk one run of addresses.\<close>

definition x86p_x87_save_state :: "x87 \<Rightarrow> mem \<Rightarrow> host \<Rightarrow> u32 \<Rightarrow> bool \<times> x87 \<times> host" where
  "x86p_x87_save_state f m s addr =
     (if \<exists>i \<in> set [0..<X86P_X87_STATE_BYTES]. x86p_mem_read m (hs_bytes s) (addr + of_nat i) 1 = None then (False, f, s)
      else
        let (ok, s) = write_env f m s addr in
        if \<not> ok then (False, f, s)
        else
          let (ok, s) = write_bytes_each m (addr + 28) (concat (map x86p_x87_reg_to_f80 (x_reg f))) s in
          if \<not> ok then (False, f, s) else (True, x86p_x87_reset f, s))"

definition read_dwords :: "mem \<Rightarrow> store \<Rightarrow> u32 \<Rightarrow> nat \<Rightarrow> u32 list option" where
  "read_dwords m st addr n = those (map (\<lambda>i. x86p_mem_read m st (addr + of_nat i * 4) 4) [0..<n])"

definition read_bytes_each :: "mem \<Rightarrow> store \<Rightarrow> u32 \<Rightarrow> nat \<Rightarrow> u8 list option" where
  "read_bytes_each m st addr n =
     map_option (map ucast) (those (map (\<lambda>i. x86p_mem_read m st (addr + of_nat i) 1) [0..<n]))"

definition x86p_x87_restore_state :: "x87 \<Rightarrow> mem \<Rightarrow> store \<Rightarrow> u32 \<Rightarrow> x87 option" where
  "x86p_x87_restore_state f m st addr = do {
     env \<leftarrow> read_dwords m st addr 7;
     regs \<leftarrow> read_bytes_each m st (addr + 28) (X86P_X87_REGS * 10);
     let f = f\<lparr>x_control := ucast (env ! 0), x_status := ucast (env ! 1) AND NOT 0x3800,
               x_top := ucast (drop_bit 11 (env ! 1) AND 7)\<rparr>;
     let f = unpack_tags f (ucast (env ! 2));
     Some (fold (\<lambda>i f. x86p_x87_store_slot f i (x86p_x87_reg_from_f80 (take 10 (drop (i * 10) regs)))) [0..<X86P_X87_REGS] f)
   }"

end
