(* ===== verification/X86_X87_Exec.thy ===== *)
theory X86_X87_Exec
  imports X86_X87_Registers
begin

text \<open>
  The x87 instructions: the evaluated functions of \<open>x87_fn_stack.c\<close>, \<open>x87_double_fn.c\<close> and
  \<open>x87_softfloat.cpp\<close>, and the execution of \<open>x87_exec.c\<close> under \<open>src/src/x86port\<close>, which is an instance of
  the floating-point engine the interpreter takes.

  What the decoder classified of an instruction is a record beside it.  An address of no memory
  operand is 0, as the interpreter passes it.  A flag record on which a condition would abort
  counts as a condition that does not hold.
\<close>

section \<open>Double-precision functions\<close>

definition fn_operand :: "x87 \<Rightarrow> nat \<Rightarrow> u64 option" where
  "fn_operand f i = do { wide \<leftarrow> x86p_x87_ext80_of_st f i; x86p_ext80_to_double wide }"

definition fn_result :: "u64 \<Rightarrow> x87_reg option" where
  "fn_result v = map_option reg_of_ext80 (x86p_ext80_of_double v)"

definition kTrigRange :: u64 where "kTrigRange = 0x43E0000000000000"

definition double_values :: "softfloat \<Rightarrow> x87 \<Rightarrow> x87_fn \<Rightarrow> u64 \<Rightarrow> (x87_reg \<times> x87_reg option) option" where
  "double_values S f fn a =
     (let in_range = a AND 0x7FFFFFFFFFFFFFFF < kTrigRange in
      case fn of
        kX86pX87FnSqrt \<Rightarrow>
          if drop_bit 63 a \<noteq> 0 \<and> push_bit 1 a \<noteq> 0 then None
          else do { r0 \<leftarrow> fn_result (hd_fn S DoubleSqrt a 0); Some (r0, None) }
      | kX86pX87FnSin \<Rightarrow>
          if \<not> in_range then None else do { r0 \<leftarrow> fn_result (hd_fn S DoubleSin a 0); Some (r0, None) }
      | kX86pX87FnCos \<Rightarrow>
          if \<not> in_range then None else do { r0 \<leftarrow> fn_result (hd_fn S DoubleCos a 0); Some (r0, None) }
      | kX86pX87FnSinCos \<Rightarrow>
          if \<not> in_range then None
          else do { r0 \<leftarrow> fn_result (hd_fn S DoubleSin a 0); r1 \<leftarrow> fn_result (hd_fn S DoubleCos a 0); Some (r0, Some r1) }
      | kX86pX87FnPtan \<Rightarrow>
          if \<not> in_range then None
          else do { r0 \<leftarrow> fn_result (hd_fn S DoubleTan a 0); r1 \<leftarrow> fn_result 0x3FF0000000000000; Some (r0, Some r1) }
      | kX86pX87FnPatan \<Rightarrow> do {
          b \<leftarrow> fn_operand f 1;
          r0 \<leftarrow> fn_result (hd_fn S DoubleAtan2 b a);
          Some (r0, None)
        }
      | _ \<Rightarrow> None)"

definition write_or_same :: "x87 \<Rightarrow> nat \<Rightarrow> x87_reg \<Rightarrow> x87" where
  "write_or_same f i v = (case x86p_x87_write f i v of None \<Rightarrow> f | Some f' \<Rightarrow> f')"

definition x86p_x87_double_fn :: "softfloat \<Rightarrow> x87 \<Rightarrow> x87_fn \<Rightarrow> x87 option" where
  "x86p_x87_double_fn S f fn =
     (let pushes = fn = kX86pX87FnSinCos \<or> fn = kX86pX87FnPtan in
      if \<not> x86p_x87_double_control_applies (x_control f) then None
      else do {
        a \<leftarrow> fn_operand f 0;
        if pushes \<and> x_tag f ! (unat (x_top f - 1) mod X86P_X87_REGS) \<noteq> kX86pX87TagEmpty then None
        else do {
          (r0, r1) \<leftarrow> double_values S f fn a;
          let f = f\<lparr>x_status := x_status f AND NOT (if fn = kX86pX87FnSqrt then X86P_X87_C1 else x87_cc)\<rparr>;
          let f = (if fn = kX86pX87FnPatan then x86p_x87_pop f else f);
          let f = write_or_same f 0 r0;
          Some (case r1 of None \<Rightarrow> f | Some r1 \<Rightarrow> snd (x86p_x87_push_value f r1))
        }
      })"

section \<open>The library's functions\<close>

definition prem_condition :: "u64 \<Rightarrow> u16" where
  "prem_condition q =
     (if q AND 4 \<noteq> 0 then 0x100 else 0) OR (if q AND 2 \<noteq> 0 then 0x4000 else 0) OR (if q AND 1 \<noteq> 0 then 0x200 else 0)"

text \<open>
  The results, whether the second one is pushed, and the status bits.  The 1.0 that \<open>FPTAN\<close> pushes is a
  conversion of the library, and so its second result.
\<close>

definition x86p_x87_fn_software_control ::
    "softfloat \<Rightarrow> x87_fn \<Rightarrow> u16 \<Rightarrow> f128 \<Rightarrow> f128 \<Rightarrow> (f128 \<times> f128 \<times> bool \<times> u16) option" where
  "x86p_x87_fn_software_control S fn control a b =
     (let status = environment control;
          status = (if fn = kX86pX87FnSqrt then status else status\<lparr>sf_precision := 80\<rparr>);
          x = widen_ld S a; y = widen_ld S b; out = sf_fn S fn status x y;
          answer = (\<lambda>x incomplete more condition flags.
            Some (narrow_ld S x, if more then narrow_ld S (so_second out) else ld_zero, more,
              condition OR (if incomplete then X86P_X87_C2 else 0) OR flags)) in
      case fn of
        kX86pX87FnAbs \<Rightarrow> answer (x\<lparr>e8_sign_exp := e8_sign_exp x AND 0x7FFF\<rparr>) False False 0 0
      | kX86pX87FnChs \<Rightarrow> answer (x\<lparr>e8_sign_exp := e8_sign_exp x XOR 0x8000\<rparr>) False False 0 0
      | kX86pX87FnSin \<Rightarrow> answer (so_x out) (so_incomplete out \<noteq> 0) False 0 (so_flags out)
      | kX86pX87FnCos \<Rightarrow> answer (so_x out) (so_incomplete out \<noteq> 0) False 0 (so_flags out)
      | kX86pX87FnSinCos \<Rightarrow> answer (so_x out) (so_incomplete out \<noteq> 0) (so_incomplete out \<noteq> -1) 0 (so_flags out)
      | kX86pX87FnPtan \<Rightarrow> answer (so_x out) (so_incomplete out \<noteq> 0) (so_incomplete out \<noteq> -1) 0 (so_flags out)
      | kX86pX87FnXtract \<Rightarrow> answer (so_x out) False True 0 (so_flags out)
      | kX86pX87FnPrem \<Rightarrow> answer (so_x out) (so_incomplete out \<noteq> 0) False (prem_condition (so_quotient out)) (so_flags out)
      | kX86pX87FnPrem1 \<Rightarrow> answer (so_x out) (so_incomplete out \<noteq> 0) False (prem_condition (so_quotient out)) (so_flags out)
      | kX86pX87FnCount \<Rightarrow> None
      | _ \<Rightarrow> answer (so_x out) False False 0 (so_flags out))"

definition two_operand :: "x87_fn \<Rightarrow> bool" where
  "two_operand fn \<longleftrightarrow>
     fn = kX86pX87FnPatan \<or> fn = kX86pX87FnYl2x \<or> fn = kX86pX87FnYl2xp1 \<or> fn = kX86pX87FnScale \<or>
     fn = kX86pX87FnPrem \<or> fn = kX86pX87FnPrem1"

definition x87_exceptions :: u16 where
  "x87_exceptions =
     X86P_X87_IE OR X86P_X87_DE OR X86P_X87_ZE OR X86P_X87_OE OR X86P_X87_UE OR X86P_X87_PE"

definition fn_store :: "softfloat \<Rightarrow> x87 \<Rightarrow> x87_fn \<Rightarrow> f128 \<times> f128 \<times> bool \<times> u16 \<Rightarrow> x87" where
  "fn_store S f fn = (\<lambda>(r0, r1, pushed, sw).
     (let written = (if fn = kX86pX87FnSqrt then X86P_X87_C1 else x87_cc);
          f = f\<lparr>x_status := ((x_status f AND NOT written) OR (sw AND written)) OR (sw AND x87_exceptions)\<rparr> in
      if fn = kX86pX87FnPatan \<or> fn = kX86pX87FnYl2x \<or> fn = kX86pX87FnYl2xp1 then x86p_x87_set S (x86p_x87_pop f) 0 r0
      else
        let f = x86p_x87_set S f 0 r0 in
        if pushed then snd (x86p_x87_push S f r1) else f))"

definition x86p_x87_apply_fn :: "softfloat \<Rightarrow> x87 \<Rightarrow> x87_fn \<Rightarrow> bool \<times> x87" where
  "x86p_x87_apply_fn S f fn =
     (case (if x_double_arith f \<noteq> 0 then x86p_x87_double_fn S f fn else None) of
        Some f \<Rightarrow> (True, f)
      | None \<Rightarrow>
          (case x86p_x87_get S f 0 of
             None \<Rightarrow> (True, f)
           | Some a \<Rightarrow>
               (case (if two_operand fn then x86p_x87_get S f 1 else Some ld_zero) of
                  None \<Rightarrow> (True, f)
                | Some b \<Rightarrow>
                    (case x86p_x87_fn_software_control S fn (x_control f) a b of
                       None \<Rightarrow> (False, f)
                     | Some r \<Rightarrow> (True, fn_store S f fn r)))))"

section \<open>The instruction\<close>

datatype x87_insn =
    kX86pX87InsnLoad | kX86pX87InsnLoadInt | kX86pX87InsnStore | kX86pX87InsnStoreInt | kX86pX87InsnArith
  | kX86pX87InsnCompare | kX86pX87InsnExchange | kX86pX87InsnChangeSign | kX86pX87InsnAbs
  | kX86pX87InsnConstZero | kX86pX87InsnConstOne | kX86pX87InsnConstPi | kX86pX87InsnStoreStatus
  | kX86pX87InsnLoadControl | kX86pX87InsnStoreControl | kX86pX87InsnFree | kX86pX87InsnInit | kX86pX87InsnFn
  | kX86pX87InsnWait | kX86pX87InsnClearExc | kX86pX87InsnTest | kX86pX87InsnCompareInt
  | kX86pX87InsnConstLog2E | kX86pX87InsnConstLog2T | kX86pX87InsnConstLn2 | kX86pX87InsnConstLog102
  | kX86pX87InsnCmov | kX86pX87InsnSaveState | kX86pX87InsnRestoreState | kX86pX87InsnExamine
  | kX86pX87InsnCount

record x87_fields =
  xf_insn :: x87_insn
  xf_op :: x87_op
  xf_fn :: x87_fn
  xf_pops :: nat
  xf_reverse :: bool
  xf_mem_int :: bool

text \<open>The literals of the code, rounded to binary128 as a compiler rounds them.\<close>

definition constant_value :: "x87_insn \<Rightarrow> f128 option" where
  "constant_value insn =
     (case insn of
        kX86pX87InsnConstZero \<Rightarrow> Some ld_zero
      | kX86pX87InsnConstOne \<Rightarrow> Some \<lparr>f_lo = 0, f_hi = 0x3FFF000000000000\<rparr>
      | kX86pX87InsnConstPi \<Rightarrow> Some \<lparr>f_lo = 0x8469898CC51701B8, f_hi = 0x4000921FB54442D1\<rparr>
      | kX86pX87InsnConstLog2E \<Rightarrow> Some \<lparr>f_lo = 0xE1777D0FFDA0D23B, f_hi = 0x3FFF71547652B82F\<rparr>
      | kX86pX87InsnConstLog2T \<Rightarrow> Some \<lparr>f_lo = 0x15FC9257EDFE9B60, f_hi = 0x4000A934F0979A37\<rparr>
      | kX86pX87InsnConstLn2 \<Rightarrow> Some \<lparr>f_lo = 0xF35793C7673007E6, f_hi = 0x3FFE62E42FEFA39E\<rparr>
      | kX86pX87InsnConstLog102 \<Rightarrow> Some \<lparr>f_lo = 0xEF311F12B35816F9, f_hi = 0x3FFD34413509F79F\<rparr>
      | _ \<Rightarrow> None)"

section \<open>Execution\<close>

text \<open>The working state of one instruction: the machine, the census and the outcome so far.\<close>

record x87_ctx =
  xc_cpu :: cpu
  xc_host :: host
  xc_census :: op_census
  xc_status :: engine_status

abbreviation xc_fpu :: "x87_ctx \<Rightarrow> x87" where
  "xc_fpu c \<equiv> c_x87 (xc_cpu c)"

definition with_fpu :: "x87 \<Rightarrow> x87_ctx \<Rightarrow> x87_ctx" where
  "with_fpu f c = c\<lparr>xc_cpu := (xc_cpu c)\<lparr>c_x87 := f\<rparr>\<rparr>"

definition unsupported :: "x87_ctx \<Rightarrow> x87_ctx" where
  "unsupported c = c\<lparr>xc_status := EngineUnsupported\<rparr>"

definition x87_fault :: "u32 \<Rightarrow> x87_ctx \<Rightarrow> x87_ctx" where
  "x87_fault addr c = c\<lparr>xc_status := EngineFault addr\<rparr>"

definition do_pops :: "nat \<Rightarrow> x87_ctx \<Rightarrow> x87_ctx" where
  "do_pops n c = with_fpu (pops n (xc_fpu c)) c"

text \<open>A memory operand read, and what follows when it could be.\<close>

definition read_value :: "softfloat \<Rightarrow> mem \<Rightarrow> u32 \<Rightarrow> nat \<Rightarrow> bool \<Rightarrow> (f128 \<Rightarrow> x87_ctx \<Rightarrow> x87_ctx) \<Rightarrow> x87_ctx \<Rightarrow> x87_ctx" where
  "read_value S m addr width integer use c =
     (case x86p_x87_read_value S m (hs_bytes (xc_host c)) addr width integer of
        kX86pX87MemoryOk v \<Rightarrow> use v c
      | kX86pX87MemoryFault \<Rightarrow> x87_fault addr c
      | kX86pX87MemoryUnsupported \<Rightarrow> unsupported c)"

definition write_value :: "softfloat \<Rightarrow> mem \<Rightarrow> u32 \<Rightarrow> nat \<Rightarrow> bool \<Rightarrow> f128 \<Rightarrow> (x87_ctx \<Rightarrow> x87_ctx) \<Rightarrow> x87_ctx \<Rightarrow> x87_ctx" where
  "write_value S m addr width integer v continue c =
     (case x86p_x87_write_value S (xc_fpu c) m (xc_host c) addr width integer v of
        (kX86pX87MemoryOk s, f) \<Rightarrow> continue (with_fpu f (c\<lparr>xc_host := s\<rparr>))
      | (kX86pX87MemoryFault, f) \<Rightarrow> x87_fault addr (with_fpu f c)
      | (kX86pX87MemoryUnsupported, f) \<Rightarrow> unsupported (with_fpu f c))"

definition exec_load :: "softfloat \<Rightarrow> mem \<Rightarrow> insn \<Rightarrow> bool \<Rightarrow> u32 \<Rightarrow> x87_ctx \<Rightarrow> x87_ctx" where
  "exec_load S m i has_mem addr c =
     (let o0 = i_operand i ! 0; push = (\<lambda>v c. with_fpu (snd (x86p_x87_push S (xc_fpu c) v)) c) in
      if has_mem then read_value S m addr (o_size o0) False push c
      else if o_kind o0 = kX86pOperandSt then
        (case x86p_x87_get S (xc_fpu c) (o_reg o0) of None \<Rightarrow> c | Some v \<Rightarrow> push v c)
      else unsupported c)"

definition exec_load_int :: "softfloat \<Rightarrow> mem \<Rightarrow> insn \<Rightarrow> bool \<Rightarrow> u32 \<Rightarrow> x87_ctx \<Rightarrow> x87_ctx" where
  "exec_load_int S m i has_mem addr c =
     (if \<not> has_mem then unsupported c
      else read_value S m addr (o_size (i_operand i ! 0)) True
        (\<lambda>v c. with_fpu (snd (x86p_x87_push S (xc_fpu c) v)) c) c)"

definition exec_store :: "softfloat \<Rightarrow> mem \<Rightarrow> insn \<Rightarrow> x87_fields \<Rightarrow> bool \<Rightarrow> u32 \<Rightarrow> x87_ctx \<Rightarrow> x87_ctx" where
  "exec_store S m i x has_mem addr c =
     (let o0 = i_operand i ! 0 in
      case x86p_x87_get S (xc_fpu c) 0 of
        None \<Rightarrow> c
      | Some v \<Rightarrow>
          if has_mem then write_value S m addr (o_size o0) False v (do_pops (xf_pops x)) c
          else if o_kind o0 = kX86pOperandSt then
            do_pops (xf_pops x) (with_fpu (x86p_x87_set S (xc_fpu c) (o_reg o0) v) c)
          else unsupported c)"

definition exec_store_int :: "softfloat \<Rightarrow> mem \<Rightarrow> insn \<Rightarrow> x87_fields \<Rightarrow> bool \<Rightarrow> u32 \<Rightarrow> x87_ctx \<Rightarrow> x87_ctx" where
  "exec_store_int S m i x has_mem addr c =
     (if \<not> has_mem then unsupported c
      else case x86p_x87_get S (xc_fpu c) 0 of
          None \<Rightarrow> c
        | Some v \<Rightarrow> write_value S m addr (o_size (i_operand i ! 0)) True v (do_pops (xf_pops x)) c)"

text \<open>The destination's position, its source and the state after reading it, or the state the instruction ends in.\<close>

definition arith_operands ::
    "softfloat \<Rightarrow> mem \<Rightarrow> insn \<Rightarrow> x87_fields \<Rightarrow> bool \<Rightarrow> u32 \<Rightarrow> (nat \<Rightarrow> x87_reg \<Rightarrow> x87_ctx \<Rightarrow> x87_ctx) \<Rightarrow> x87_ctx \<Rightarrow> x87_ctx" where
  "arith_operands S m i x has_mem addr use c =
     (let o0 = i_operand i ! 0; o1 = i_operand i ! 1;
          register = (\<lambda>dst src. case x86p_x87_read (xc_fpu c) src of None \<Rightarrow> c | Some v \<Rightarrow> use dst v c) in
      if has_mem then
        read_value S m addr (o_size o0) (xf_mem_int x) (\<lambda>v. use 0 (x86p_x87_reg_from_long_double S v)) c
      else if i_operands i = 2 \<and> o_kind o0 = kX86pOperandSt \<and> o_kind o1 = kX86pOperandSt then
        register (o_reg o0) (o_reg o1)
      else if i_operands i = 1 \<and> o_kind o0 = kX86pOperandSt then register 0 (o_reg o0)
      else unsupported c)"

definition exec_arith :: "softfloat \<Rightarrow> mem \<Rightarrow> insn \<Rightarrow> x87_fields \<Rightarrow> bool \<Rightarrow> u32 \<Rightarrow> x87_ctx \<Rightarrow> x87_ctx" where
  "exec_arith S m i x has_mem addr =
     arith_operands S m i x has_mem addr
       (\<lambda>dst src c.
          let (_, f, cn) = x86p_x87_arith_raw S (xc_fpu c) (xc_census c) (xf_op x) dst src (xf_reverse x) in
          do_pops (xf_pops x) (with_fpu f (c\<lparr>xc_census := cn\<rparr>)))"

definition exec_compare :: "softfloat \<Rightarrow> mem \<Rightarrow> insn \<Rightarrow> x87_fields \<Rightarrow> bool \<Rightarrow> u32 \<Rightarrow> x87_ctx \<Rightarrow> x87_ctx" where
  "exec_compare S m i x has_mem addr c =
     (let o0 = i_operand i ! 0 in
      if has_mem then
        read_value S m addr (o_size o0) (xf_mem_int x)
          (\<lambda>v c. do_pops (xf_pops x) (with_fpu (snd (x86p_x87_compare S (xc_fpu c) v)) c)) c
      else if 1 \<le> i_operands i \<and> o_kind o0 = kX86pOperandSt then
        with_fpu (x86p_x87_compare_register S (xc_fpu c) (o_reg o0) (xf_pops x)) c
      else if i_operands i = 0 then with_fpu (x86p_x87_compare_register S (xc_fpu c) 1 (xf_pops x)) c
      else unsupported c)"

definition exec_store_status :: "mem \<Rightarrow> insn \<Rightarrow> bool \<Rightarrow> u32 \<Rightarrow> x87_ctx \<Rightarrow> x87_ctx" where
  "exec_store_status m i has_mem addr c =
     (let sw = ucast (x86p_x87_status (xc_fpu c)); o0 = i_operand i ! 0;
          reg_of = (if 1 \<le> i_operands i \<and> o_kind o0 = kX86pOperandReg then o_reg o0 else kX86pEax) in
      if has_mem then
        (case x86p_mem_write m (xc_host c) addr 2 sw of
           None \<Rightarrow> x87_fault addr c
         | Some s \<Rightarrow> c\<lparr>xc_host := s\<rparr>)
      else
        (case x86p_reg_write (xc_cpu c) reg_of 2 sw of None \<Rightarrow> c | Some cpu \<Rightarrow> c\<lparr>xc_cpu := cpu\<rparr>))"

definition exec_load_control :: "mem \<Rightarrow> bool \<Rightarrow> u32 \<Rightarrow> x87_ctx \<Rightarrow> x87_ctx" where
  "exec_load_control m has_mem addr c =
     (if \<not> has_mem then unsupported c
      else case x86p_mem_read m (hs_bytes (xc_host c)) addr 2 of
          None \<Rightarrow> x87_fault addr c
        | Some v \<Rightarrow> with_fpu ((xc_fpu c)\<lparr>x_control := ucast v\<rparr>) c)"

definition exec_store_control :: "mem \<Rightarrow> bool \<Rightarrow> u32 \<Rightarrow> x87_ctx \<Rightarrow> x87_ctx" where
  "exec_store_control m has_mem addr c =
     (if \<not> has_mem then unsupported c
      else case x86p_mem_write m (xc_host c) addr 2 (ucast (x_control (xc_fpu c))) of
          None \<Rightarrow> x87_fault addr c
        | Some s \<Rightarrow> c\<lparr>xc_host := s\<rparr>)"

definition exec_fcmov :: "softfloat \<Rightarrow> insn \<Rightarrow> x87_ctx \<Rightarrow> x87_ctx" where
  "exec_fcmov S i c =
     (if x86p_cond (i_cond i) (c_flags (xc_cpu c)) \<noteq> Some True then c
      else case x86p_x87_get S (xc_fpu c) (o_reg (i_operand i ! 1)) of
          None \<Rightarrow> c
        | Some v \<Rightarrow> with_fpu (x86p_x87_set S (xc_fpu c) 0 v) c)"

definition exec_compare_int :: "softfloat \<Rightarrow> insn \<Rightarrow> x87_fields \<Rightarrow> x87_ctx \<Rightarrow> x87_ctx" where
  "exec_compare_int S i x c =
     (let o0 = i_operand i ! 0;
          index = (if i_operands i = 2 then o_reg (i_operand i ! 1)
                   else if i_operands i = 1 \<and> o_kind o0 = kX86pOperandSt then o_reg o0 else 1);
          (f, fl) = x86p_x87_compare_flags_pop S (xc_fpu c) (c_flags (xc_cpu c)) index (xf_pops x) in
      c\<lparr>xc_cpu := (xc_cpu c)\<lparr>c_x87 := f, c_flags := fl\<rparr>\<rparr>)"

definition exec_save :: "mem \<Rightarrow> u32 \<Rightarrow> x87_ctx \<Rightarrow> x87_ctx" where
  "exec_save m addr c =
     (let (ok, f, s) = x86p_x87_save_state (xc_fpu c) m (xc_host c) addr;
          c = with_fpu f (c\<lparr>xc_host := s\<rparr>) in
      if ok then c else x87_fault addr c)"

definition exec_restore :: "mem \<Rightarrow> u32 \<Rightarrow> x87_ctx \<Rightarrow> x87_ctx" where
  "exec_restore m addr c =
     (case x86p_x87_restore_state (xc_fpu c) m (hs_bytes (xc_host c)) addr of
        None \<Rightarrow> x87_fault addr c
      | Some f \<Rightarrow> with_fpu f c)"

definition x87_execute :: "softfloat \<Rightarrow> mem \<Rightarrow> insn \<Rightarrow> x87_fields \<Rightarrow> bool \<Rightarrow> u32 \<Rightarrow> x87_ctx \<Rightarrow> x87_ctx" where
  "x87_execute S m i x has_mem addr c =
     (let o0 = i_operand i ! 0; f = xc_fpu c in
      case xf_insn x of
        kX86pX87InsnLoad \<Rightarrow> exec_load S m i has_mem addr c
      | kX86pX87InsnLoadInt \<Rightarrow> exec_load_int S m i has_mem addr c
      | kX86pX87InsnStore \<Rightarrow> exec_store S m i x has_mem addr c
      | kX86pX87InsnStoreInt \<Rightarrow> exec_store_int S m i x has_mem addr c
      | kX86pX87InsnArith \<Rightarrow> exec_arith S m i x has_mem addr c
      | kX86pX87InsnCompare \<Rightarrow> exec_compare S m i x has_mem addr c
      | kX86pX87InsnExchange \<Rightarrow>
          with_fpu (x86p_x87_exchange S f (if 1 \<le> i_operands i \<and> o_kind o0 = kX86pOperandSt then o_reg o0 else 1)) c
      | kX86pX87InsnChangeSign \<Rightarrow> with_fpu (x86p_x87_sign S f False) c
      | kX86pX87InsnAbs \<Rightarrow> with_fpu (x86p_x87_sign S f True) c
      | kX86pX87InsnStoreStatus \<Rightarrow> exec_store_status m i has_mem addr c
      | kX86pX87InsnLoadControl \<Rightarrow> exec_load_control m has_mem addr c
      | kX86pX87InsnStoreControl \<Rightarrow> exec_store_control m has_mem addr c
      | kX86pX87InsnFree \<Rightarrow>
          if 1 \<le> i_operands i \<and> o_kind o0 = kX86pOperandSt then with_fpu (x86p_x87_free f (o_reg o0)) c else c
      | kX86pX87InsnInit \<Rightarrow> with_fpu (x86p_x87_reset f) c
      | kX86pX87InsnFn \<Rightarrow>
          (case x86p_x87_apply_fn S f (xf_fn x) of
             (True, f) \<Rightarrow> with_fpu f c
           | (False, f) \<Rightarrow> unsupported (with_fpu f c))
      | kX86pX87InsnWait \<Rightarrow> c
      | kX86pX87InsnClearExc \<Rightarrow> with_fpu (x86p_x87_clear_exceptions f) c
      | kX86pX87InsnTest \<Rightarrow> with_fpu (x86p_x87_test S f) c
      | kX86pX87InsnExamine \<Rightarrow> with_fpu (x86p_x87_examine S f) c
      | kX86pX87InsnCompareInt \<Rightarrow> exec_compare_int S i x c
      | kX86pX87InsnCmov \<Rightarrow> exec_fcmov S i c
      | kX86pX87InsnSaveState \<Rightarrow> exec_save m addr c
      | kX86pX87InsnRestoreState \<Rightarrow> exec_restore m addr c
      | kX86pX87InsnCount \<Rightarrow> unsupported c
      | _ \<Rightarrow>
          (case constant_value (xf_insn x) of
             None \<Rightarrow> unsupported c
           | Some v \<Rightarrow> with_fpu (snd (x86p_x87_push_constant S f v)) c))"

text \<open>
  The engine the interpreter calls.  The census, which nothing of the library reads back, starts
  from the counters given and is dropped with the working state.
\<close>

definition x86p_x87_execute ::
    "softfloat \<Rightarrow> (insn \<Rightarrow> x87_fields) \<Rightarrow> op_census \<Rightarrow> mem \<Rightarrow> insn \<Rightarrow> u32 option \<Rightarrow> cpu \<Rightarrow> host \<Rightarrow> engine_status \<times> cpu \<times> host" where
  "x86p_x87_execute S classify cn m i addr cpu s =
     (if i_op i \<noteq> kX86pInsnX87 then (EngineUnsupported, cpu, s)
      else
        let c = x87_execute S m i (classify i) (addr \<noteq> None) (case addr of None \<Rightarrow> 0 | Some a \<Rightarrow> a)
                  \<lparr>xc_cpu = cpu, xc_host = s, xc_census = cn, xc_status = EngineOk\<rparr>
        in (xc_status c, xc_cpu c, xc_host c))"

end
