(* ===== verification/X86_X87_Engine.thy ===== *)
theory X86_X87_Engine
  imports X86_X87_Exec X86_Exec_Properties
begin

text \<open>
  The modelled x87 engine meets the contract under which the interpreter is proved: every
  instruction keeps the machine well formed and EIP where it was, and stores only what the mapping
  lets a program write, announcing it.
\<close>

section \<open>The shape of the unit\<close>

named_theorems unit_ok \<open>operations that keep the x87 unit well formed\<close>

lemma x87_ok_status [unit_ok, simp]: "x87_ok (f\<lparr>x_status := w\<rparr>) = x87_ok f" "x87_ok (f\<lparr>x_control := w\<rparr>) = x87_ok f"
  by (simp_all add: x87_ok_def)

lemma x87_ok_slot [unit_ok, simp]: "x87_ok (x86p_x87_store_slot f p v) = x87_ok f"
  by (simp add: x87_ok_def x86p_x87_store_slot_def)

lemma x87_ok_tag [unit_ok]:
  "x87_ok f \<Longrightarrow> x87_ok (f\<lparr>x_tag := (x_tag f)[p := kX86pX87TagValid]\<rparr>)"
  "x87_ok f \<Longrightarrow> x87_ok (f\<lparr>x_tag := (x_tag f)[p := kX86pX87TagEmpty]\<rparr>)"
  by (auto simp: x87_ok_def dest!: set_updateD)

lemma x87_ok_set [unit_ok]: "x87_ok f \<Longrightarrow> x87_ok (x86p_x87_set S f i v)"
  by (auto simp: x86p_x87_set_def split: option.split dest: x87_ok_write)

lemma x87_ok_push_ld [unit_ok]: "x87_ok f \<Longrightarrow> x87_ok (snd (x86p_x87_push S f v))"
  by (simp add: x86p_x87_push_def x87_ok_push)

lemma x87_ok_push_constant [unit_ok]: "x87_ok f \<Longrightarrow> x87_ok (snd (x86p_x87_push_constant S f v))"
  by (simp add: x86p_x87_push_constant_def x87_ok_push_ld)

lemma x87_ok_pop_ld [unit_ok]: "x87_ok f \<Longrightarrow> x87_ok (x86p_x87_pop f)"
  by (simp add: x86p_x87_pop_def x87_ok_pop)

lemma x87_ok_pops [unit_ok]: "x87_ok f \<Longrightarrow> x87_ok (pops n f)"
  unfolding pops_def by (induction n) (simp_all add: x87_ok_pop_ld)

lemma x87_ok_compare [unit_ok]: "x87_ok f \<Longrightarrow> x87_ok (snd (x86p_x87_compare S f v))"
  by (simp add: x86p_x87_compare_def Let_def split: option.split)

lemma x87_ok_compare_register [unit_ok]: "x87_ok f \<Longrightarrow> x87_ok (x86p_x87_compare_register S f i n)"
  by (simp add: x86p_x87_compare_register_def unit_ok split: option.split)

lemma x87_ok_exchange [unit_ok]: "x87_ok f \<Longrightarrow> x87_ok (x86p_x87_exchange S f i)"
  by (simp add: x86p_x87_exchange_def unit_ok split: option.split)

lemma x87_ok_sign [unit_ok]: "x87_ok f \<Longrightarrow> x87_ok (x86p_x87_sign S f a)"
  by (simp add: x86p_x87_sign_def unit_ok split: option.split)

lemma x87_ok_test [unit_ok]: "x87_ok f \<Longrightarrow> x87_ok (x86p_x87_test S f)"
  by (simp add: x86p_x87_test_def Let_def split: option.split)

lemma x87_ok_examine [unit_ok]: "x87_ok f \<Longrightarrow> x87_ok (x86p_x87_examine S f)"
  by (simp add: x86p_x87_examine_def Let_def split: option.split)

lemma x87_ok_free [unit_ok]: "x87_ok f \<Longrightarrow> x87_ok (x86p_x87_free f i)"
  by (simp add: x86p_x87_free_def unit_ok)

lemma x87_ok_clear [unit_ok]: "x87_ok f \<Longrightarrow> x87_ok (x86p_x87_clear_exceptions f)"
  by (simp add: x86p_x87_clear_exceptions_def)

lemma x87_ok_written: "x87_ok f \<Longrightarrow> x87_ok (fst (snd (case x86p_x87_write f i v of None \<Rightarrow> (b, f, c) | Some f' \<Rightarrow> (b', f', c))))"
  by (cases "x86p_x87_write f i v") (simp_all add: x87_ok_write [of f i v])

lemma x87_ok_arith [unit_ok]: "x87_ok f \<Longrightarrow> x87_ok (fst (snd (x86p_x87_arith_raw S f c op dst src r)))"
  by (cases "x86p_x87_read f dst") (simp_all add: x86p_x87_arith_raw_def Let_def case_prod_beta x87_ok_written)

lemma x87_ok_fast [unit_ok]: "x87_ok f \<Longrightarrow> x87_ok (fst (snd (x86p_x87_arith_ext80_fast S f c op dst src r)))"
  by (auto simp: x86p_x87_arith_ext80_fast_def Let_def split: option.split intro: x87_ok_tag(1))

lemma x87_ok_write_or_same [unit_ok]: "x87_ok f \<Longrightarrow> x87_ok (write_or_same f i v)"
  by (auto simp: write_or_same_def split: option.split dest: x87_ok_write)

lemma x87_ok_double_fn: "x87_ok f \<Longrightarrow> x86p_x87_double_fn S f fn = Some f' \<Longrightarrow> x87_ok f'"
  unfolding x86p_x87_double_fn_def Let_def
  by (auto split: option.splits if_splits bind_splits simp: unit_ok x87_ok_push)

lemma x87_ok_fn_store [unit_ok]: "x87_ok f \<Longrightarrow> x87_ok (fn_store S f fn r)"
  by (simp add: fn_store_def Let_def unit_ok split: prod.split)

lemma x87_ok_apply_fn [unit_ok]: "x87_ok f \<Longrightarrow> x87_ok (snd (x86p_x87_apply_fn S f fn))"
  unfolding x86p_x87_apply_fn_def by (auto simp: unit_ok split: option.split if_splits dest: x87_ok_double_fn)

lemma x87_ok_operand_bytes [unit_ok]: "x87_ok f \<Longrightarrow> x87_ok (snd (x86p_x87_operand_bytes_from_reg S f v w n))"
  by (auto simp: x86p_x87_operand_bytes_from_reg_def x86p_x87_reg_to_integer_bits_def Let_def split: prod.split option.split)

lemma x87_ok_unpack: "x87_ok f \<Longrightarrow> x87_ok (unpack_tags f w)"
  by (auto simp: unpack_tags_def x87_ok_def X86P_X87_REGS_def)

lemma x87_ok_restore: "x87_ok f \<Longrightarrow> x86p_x87_restore_state f m st a = Some f' \<Longrightarrow> x87_ok f'"
proof -
  assume f: "x87_ok f" and r: "x86p_x87_restore_state f m st a = Some f'"
  have t: "unat (ucast (w AND 7 :: u32) :: u8) < 8" for w
  proof -
    have "w AND 7 \<le> 7" by (rule word_and_le1)
    then show ?thesis by (simp add: unsigned_ucast_eq word_le_nat_alt take_bit_nat_eq_self)
  qed
  have fold_ok: "x87_ok g \<Longrightarrow> x87_ok (fold (\<lambda>i f. x86p_x87_store_slot f i (h i)) is g)" for g h "is"
    by (induction "is" arbitrary: g) simp_all
  have s: "x87_ok (g\<lparr>x_control := c, x_status := st, x_top := ucast (w AND 7)\<rparr>)" if "x87_ok g" for g c st and w :: u32
    using that t [of w] by (simp add: x87_ok_def)
  show ?thesis using r f s unfolding x86p_x87_restore_state_def
    by (auto simp: Let_def split: bind_splits intro!: fold_ok x87_ok_unpack)
qed

section \<open>What an instruction keeps\<close>

definition sound_ctx :: "mem \<Rightarrow> host \<Rightarrow> u32 \<Rightarrow> x87_ctx \<Rightarrow> bool" where
  "sound_ctx m s0 e c \<longleftrightarrow> mem_wf m \<and> cpu_ok (xc_cpu c) \<and> c_eip (xc_cpu c) = e \<and> confined m {kX86pMemWrite} s0 (xc_host c) \<and>
     (hs_observed s0 \<longrightarrow> announced m s0 (xc_host c))"

lemma sound_with_fpu: "sound_ctx m s0 e c \<Longrightarrow> x87_ok f \<Longrightarrow> sound_ctx m s0 e (with_fpu f c)"
  by (simp add: sound_ctx_def with_fpu_def cpu_ok_def)

lemma sound_fpu: "sound_ctx m s0 e c \<Longrightarrow> x87_ok (xc_fpu c)"
  by (simp add: sound_ctx_def cpu_ok_def)

lemma sound_other [simp]:
  "sound_ctx m s0 e (c\<lparr>xc_census := n\<rparr>) = sound_ctx m s0 e c" "sound_ctx m s0 e (unsupported c) = sound_ctx m s0 e c"
  "sound_ctx m s0 e (x87_fault a c) = sound_ctx m s0 e c"
  by (simp_all add: sound_ctx_def unsupported_def x87_fault_def)

lemma sound_unit [intro]:
  assumes "sound_ctx m s0 e c" "\<And>f. x87_ok f \<Longrightarrow> x87_ok (g f)"
  shows "sound_ctx m s0 e (with_fpu (g (xc_fpu c)) c)"
  by (rule sound_with_fpu [OF assms(1) assms(2) [OF sound_fpu [OF assms(1)]]])

lemma sound_host:
  "sound_ctx m s0 e c \<Longrightarrow> length bs = unat n \<Longrightarrow> x86p_mem_write_bytes m (xc_host c) a bs n = Some s \<Longrightarrow> sound_ctx m s0 e (c\<lparr>xc_host := s\<rparr>)"
  unfolding sound_ctx_def by (auto intro: confined_write announced_write)

lemma sound_write:
  "sound_ctx m s0 e c \<Longrightarrow> x86p_mem_write m (xc_host c) a w v = Some s \<Longrightarrow> sound_ctx m s0 e (c\<lparr>xc_host := s\<rparr>)"
  by (erule sound_host) (auto simp: x86p_mem_write_def split: if_splits)

lemma sound_read_value:
  "sound_ctx m s0 e c \<Longrightarrow> (\<And>v. sound_ctx m s0 e (use v c)) \<Longrightarrow> sound_ctx m s0 e (read_value S m a w n use c)"
  by (simp add: read_value_def split: memory_result.split)

lemma operand_bytes_length:
  "x86p_x87_operand_bytes_from_reg S f v w n = (kX86pX87MemoryOk bytes, f') \<Longrightarrow> length bytes = unat (of_nat w :: u32)"
  by (auto simp: x86p_x87_operand_bytes_from_reg_def width_supported_def bits_width_supported_def x86p_x87_reg_to_f80_def
      split: if_splits prod.splits)

lemma sound_write_value:
  assumes "sound_ctx m s0 e c" "\<And>c. sound_ctx m s0 e c \<Longrightarrow> sound_ctx m s0 e (continue c)"
  shows "sound_ctx m s0 e (write_value S m a w n v continue c)"
proof -
  obtain r f where o: "x86p_x87_operand_bytes_from_reg S (xc_fpu c) (x86p_x87_reg_from_long_double S v) w n = (r, f)"
    by (cases "x86p_x87_operand_bytes_from_reg S (xc_fpu c) (x86p_x87_reg_from_long_double S v) w n")
  have f: "x87_ok f" using x87_ok_operand_bytes [OF sound_fpu [OF assms(1)], of S "x86p_x87_reg_from_long_double S v" w n] o by simp
  show ?thesis
  proof (cases r)
    case (kX86pX87MemoryOk bytes)
    note h = sound_host [OF assms(1) operand_bytes_length, of S "xc_fpu c" "x86p_x87_reg_from_long_double S v" w n bytes f]
    have "sound_ctx m s0 e (continue (with_fpu f (c\<lparr>xc_host := s\<rparr>)))"
      if "x86p_mem_write_bytes m (xc_host c) a bytes (of_nat w) = Some s" for s
      using h [OF _ that] o kX86pX87MemoryOk f assms(2) by (simp add: sound_with_fpu)
    then show ?thesis using o kX86pX87MemoryOk f assms(1)
      by (simp add: write_value_def x86p_x87_write_value_def x86p_x87_write_value_raw_def sound_with_fpu split: option.split)
  qed (use o f assms(1) in \<open>simp_all add: write_value_def x86p_x87_write_value_def x86p_x87_write_value_raw_def sound_with_fpu\<close>)
qed

lemma sound_do_pops: "sound_ctx m s0 e c \<Longrightarrow> sound_ctx m s0 e (do_pops n c)"
  unfolding do_pops_def by (erule sound_unit) (rule x87_ok_pops)

lemma sound_arith_operands:
  assumes "sound_ctx m s0 e c" "\<And>dst v c. sound_ctx m s0 e c \<Longrightarrow> sound_ctx m s0 e (use dst v c)"
  shows "sound_ctx m s0 e (arith_operands S m i x has_mem a use c)"
  using assms by (auto simp: arith_operands_def Let_def split: option.split intro!: sound_read_value)

lemma sound_arith: "sound_ctx m s0 e c \<Longrightarrow> sound_ctx m s0 e (exec_arith S m i x has_mem a c)"
  unfolding exec_arith_def
proof (erule sound_arith_operands)
  fix dst v and c :: x87_ctx
  assume c: "sound_ctx m s0 e c"
  have "x87_ok (fst (snd (x86p_x87_arith_raw S (xc_fpu c) (xc_census c) (xf_op x) dst v (xf_reverse x))))"
    by (rule x87_ok_arith [OF sound_fpu [OF c]])
  then show "sound_ctx m s0 e (let (_, f, cn) = x86p_x87_arith_raw S (xc_fpu c) (xc_census c) (xf_op x) dst v (xf_reverse x)
      in do_pops (xf_pops x) (with_fpu f (c\<lparr>xc_census := cn\<rparr>)))"
    using c by (auto intro!: sound_do_pops sound_with_fpu split: prod.split)
qed

lemma sound_load: "sound_ctx m s0 e c \<Longrightarrow> sound_ctx m s0 e (exec_load S m i has_mem a c)"
  by (auto simp: exec_load_def Let_def intro!: sound_read_value sound_with_fpu x87_ok_push_ld dest: sound_fpu split: option.split)

lemma sound_load_int: "sound_ctx m s0 e c \<Longrightarrow> sound_ctx m s0 e (exec_load_int S m i has_mem a c)"
  by (auto simp: exec_load_int_def intro!: sound_read_value sound_with_fpu x87_ok_push_ld dest: sound_fpu)

lemma sound_store: "sound_ctx m s0 e c \<Longrightarrow> sound_ctx m s0 e (exec_store S m i x has_mem a c)"
  by (auto simp: exec_store_def Let_def intro!: sound_write_value sound_do_pops sound_with_fpu x87_ok_set dest: sound_fpu split: option.split)

lemma sound_store_int: "sound_ctx m s0 e c \<Longrightarrow> sound_ctx m s0 e (exec_store_int S m i x has_mem a c)"
  by (auto simp: exec_store_int_def intro!: sound_write_value sound_do_pops split: option.split)

lemma sound_compare: "sound_ctx m s0 e c \<Longrightarrow> sound_ctx m s0 e (exec_compare S m i x has_mem a c)"
  by (auto simp: exec_compare_def Let_def intro!: sound_read_value sound_do_pops sound_with_fpu x87_ok_compare
      x87_ok_compare_register dest: sound_fpu)

lemma reg_write_eip: "x86p_reg_write cpu r w v = Some cpu' \<Longrightarrow> c_eip cpu' = c_eip cpu"
  by (auto simp: x86p_reg_write_def split: if_splits prod.splits)

lemma sound_reg_write: "sound_ctx m s0 e c \<Longrightarrow> x86p_reg_write (xc_cpu c) r w v = Some cpu \<Longrightarrow> sound_ctx m s0 e (c\<lparr>xc_cpu := cpu\<rparr>)"
  by (simp add: sound_ctx_def reg_write_ok reg_write_eip)

lemma sound_store_status: "sound_ctx m s0 e c \<Longrightarrow> sound_ctx m s0 e (exec_store_status m i has_mem a c)"
  by (simp add: exec_store_status_def Let_def sound_reg_write sound_write split: option.split)

lemma sound_load_control: "sound_ctx m s0 e c \<Longrightarrow> sound_ctx m s0 e (exec_load_control m has_mem a c)"
  by (auto simp: exec_load_control_def intro!: sound_with_fpu dest: sound_fpu split: option.split)

lemma sound_store_control: "sound_ctx m s0 e c \<Longrightarrow> sound_ctx m s0 e (exec_store_control m has_mem a c)"
  by (auto simp: exec_store_control_def intro: sound_write split: option.split)

lemma sound_fcmov: "sound_ctx m s0 e c \<Longrightarrow> sound_ctx m s0 e (exec_fcmov S i c)"
  by (auto simp: exec_fcmov_def intro!: sound_with_fpu x87_ok_set dest: sound_fpu split: option.split)

lemma compare_flags_ok:
  "x87_ok f \<Longrightarrow> flags_ok fl \<Longrightarrow> x86p_x87_compare_flags_pop S f fl index n = (f', fl') \<Longrightarrow> x87_ok f' \<and> flags_ok fl'"
  by (auto simp: x86p_x87_compare_flags_pop_def x86p_x87_compare_flags_def Let_def split: option.splits intro!: x87_ok_pops)

lemma sound_compare_int: "sound_ctx m s0 e c \<Longrightarrow> sound_ctx m s0 e (exec_compare_int S i x c)"
  unfolding exec_compare_int_def Let_def
  by (auto simp: sound_ctx_def cpu_ok_def split: prod.split dest!: compare_flags_ok [rotated 2])

lemma sound_dwords: "sound_ctx m s0 e (c\<lparr>xc_host := s\<rparr>) \<Longrightarrow> write_dwords m a vs s = (ok, s') \<Longrightarrow> sound_ctx m s0 e (c\<lparr>xc_host := s'\<rparr>)"
proof (induction vs arbitrary: a s)
  case (Cons v vs)
  show ?case
  proof (cases "x86p_mem_write m s a 4 v")
    case None
    then show ?thesis using Cons.prems by simp
  next
    case (Some t)
    have "sound_ctx m s0 e (c\<lparr>xc_host := t\<rparr>)" using sound_write [OF Cons.prems(1), of a 4 v t] Some by simp
    from Cons.IH [OF this] show ?thesis using Cons.prems(2) Some by simp
  qed
qed simp

lemma sound_bytes: "sound_ctx m s0 e (c\<lparr>xc_host := s\<rparr>) \<Longrightarrow> write_bytes_each m a bs s = (ok, s') \<Longrightarrow> sound_ctx m s0 e (c\<lparr>xc_host := s'\<rparr>)"
proof (induction bs arbitrary: a s)
  case (Cons b bs)
  show ?case
  proof (cases "x86p_mem_write m s a 1 (ucast b)")
    case None
    then show ?thesis using Cons.prems by simp
  next
    case (Some t)
    have "sound_ctx m s0 e (c\<lparr>xc_host := t\<rparr>)" using sound_write [OF Cons.prems(1), of a 1 "ucast b" t] Some by simp
    from Cons.IH [OF this] show ?thesis using Cons.prems(2) Some by simp
  qed
qed simp

lemma sound_save: "sound_ctx m s0 e c \<Longrightarrow> sound_ctx m s0 e (exec_save m a c)"
proof -
  assume c: "sound_ctx m s0 e c"
  obtain ok f s where r: "x86p_x87_save_state (xc_fpu c) m (xc_host c) a = (ok, f, s)" by (cases "x86p_x87_save_state (xc_fpu c) m (xc_host c) a")
  obtain k1 s1 where w: "write_dwords m a (x87_environment (xc_fpu c)) (xc_host c) = (k1, s1)"
    by (cases "write_dwords m a (x87_environment (xc_fpu c)) (xc_host c)")
  obtain k2 s2 where b: "write_bytes_each m (a + 28) (concat (map x86p_x87_reg_to_f80 (x_reg (xc_fpu c)))) s1 = (k2, s2)"
    by (cases "write_bytes_each m (a + 28) (concat (map x86p_x87_reg_to_f80 (x_reg (xc_fpu c)))) s1")
  have s1: "sound_ctx m s0 e (c\<lparr>xc_host := s1\<rparr>)" by (rule sound_dwords [OF _ w]) (use c in simp)
  have s2: "sound_ctx m s0 e (c\<lparr>xc_host := s2\<rparr>)" by (rule sound_bytes [OF s1 b])
  have "x87_ok f \<and> sound_ctx m s0 e (c\<lparr>xc_host := s\<rparr>)"
    using r c s1 s2 sound_fpu [OF c] unfolding x86p_x87_save_state_def write_env_def Let_def
    by (simp add: w b split: if_splits) (auto simp: x87_ok_reset)
  then show ?thesis by (simp add: exec_save_def r Let_def sound_with_fpu)
qed

lemma sound_restore: "sound_ctx m s0 e c \<Longrightarrow> sound_ctx m s0 e (exec_restore m a c)"
  by (auto simp: exec_restore_def intro!: sound_with_fpu dest: sound_fpu x87_ok_restore [rotated] split: option.split)

lemma sound_fn: "sound_ctx m s0 e c \<Longrightarrow> sound_ctx m s0 e
    (case x86p_x87_apply_fn S (xc_fpu c) fn of (True, f) \<Rightarrow> with_fpu f c | (False, f) \<Rightarrow> unsupported (with_fpu f c))"
  using x87_ok_apply_fn [OF sound_fpu, of m s0 e c S fn] by (auto intro!: sound_with_fpu split: prod.split bool.split)

lemmas sound_instructions = sound_load sound_load_int sound_store sound_store_int sound_arith sound_compare sound_store_status
  sound_load_control sound_store_control sound_fcmov sound_compare_int sound_save sound_restore sound_fn

lemma sound_execute:
  assumes "sound_ctx m s0 e c"
  shows "sound_ctx m s0 e (x87_execute S m i x has_mem a c)"
proof -
  note f = sound_fpu [OF assms]
  show ?thesis unfolding x87_execute_def Let_def
    by (cases "xf_insn x")
      (simp_all add: assms sound_instructions [OF assms] sound_with_fpu [OF assms] f unit_ok x87_ok_reset split: option.split)
qed

lemma x87_sound:
  assumes "mem_wf m"
  shows "engine_sound m (x86p_x87_execute S classify cn m i addr)"
  unfolding engine_sound_def Let_def
proof (intro allI impI)
  fix cpu s assume k: "cpu_ok cpu"
  let ?c = "\<lparr>xc_cpu = cpu, xc_host = s, xc_census = cn, xc_status = EngineOk\<rparr>"
  let ?r = "x86p_x87_execute S classify cn m i addr cpu s"
  have "sound_ctx m s (c_eip cpu) ?c" using assms k by (simp add: sound_ctx_def announced_refl)
  then have "sound_ctx m s (c_eip cpu) (x87_execute S m i (classify i) (addr \<noteq> None) (case addr of None \<Rightarrow> 0 | Some a \<Rightarrow> a) ?c)"
    by (rule sound_execute)
  then show "cpu_ok (fst (snd ?r)) \<and> c_eip (fst (snd ?r)) = c_eip cpu \<and> confined m {kX86pMemWrite} s (snd (snd ?r)) \<and>
      (hs_observed s \<longrightarrow> announced m s (snd (snd ?r)))"
    using k by (simp add: x86p_x87_execute_def Let_def sound_ctx_def announced_refl)
qed

text \<open>
  C7. The x87 engine keeps the contract under which every interpreter step is proved: from a
  well-formed machine each of its instructions, whatever the software library computes, leaves a
  well-formed machine with EIP in place, and its stores go only to guest memory the program may
  write and are all announced to the write observer.
\<close>

theorem x87_engine_sound:
  assumes "mem_wf m"
  shows "engine_sound m (x86p_x87_execute S classify cn m i addr)"
  by (rule x87_sound [OF assms])

theorem x87_engine_sound_witness:
  "\<forall>S classify cn i addr. engine_sound window (x86p_x87_execute S classify cn window i addr)"
  using x87_engine_sound [OF window_wf] by blast

end
