(* ===== verification/X86_Ext80_Words.thy ===== *)
theory X86_Ext80_Words
  imports X86_Ext80
begin

text \<open>
  What the word operations of the extended-format arithmetic compute, over the natural numbers: the
  128-bit product, the alignment of a significand, the sum and difference of pairs, the
  normalisation.  A pair \<open>(hi, lo)\<close> stands for \<open>hi * 2 ^ 64 + lo\<close>.
\<close>

section \<open>Words\<close>

lemma unat_drop: "unat (drop_bit n (x :: 'a::len word)) = unat x div 2 ^ n"
  using unsigned_less [of x, where ?'a = nat] by (simp only: unsigned_drop_bit_eq) (simp add: drop_bit_eq_div take_bit_nat_eq_self)

lemma unat_push: "unat (push_bit n (x :: u64)) = unat x * 2 ^ n mod 2 ^ 64"
  by (simp only: unsigned_push_bit_eq) (simp add: take_bit_eq_mod push_bit_eq_mult)

lemma unat_low: "unat (x AND (push_bit n 1 - 1 :: u64)) = unat x mod 2 ^ n"
proof -
  have e: "x AND (push_bit n 1 - 1) = take_bit n x" by (simp add: take_bit_eq_mask mask_eq_exp_minus_1)
  show ?thesis unfolding e by (simp only: unsigned_take_bit_eq) (simp add: take_bit_eq_mod)
qed

lemma unat_low32: "unat (x AND 0xFFFFFFFF :: u64) = unat x mod 2 ^ 32"
  using unat_low [of x 32] by simp

lemma unat_add64: "unat (x + y :: u64) = (unat x + unat y) mod 2 ^ 64"
  using unat_word_ariths(1) [of x y] by simp

lemma unat_mult64: "unat (x * y :: u64) = unat x * unat y mod 2 ^ 64"
  using unat_word_ariths(2) [of x y] by simp

lemma unat_or_low:
  assumes "unat lo < 2 ^ n"
  shows "unat (push_bit n hi OR lo :: u64) = unat hi * 2 ^ n mod 2 ^ 64 + unat lo"
proof -
  have lo: "take_bit n lo = lo"
  proof -
    have "unat (take_bit n lo) = unat lo" using assms by (simp add: unsigned_take_bit_eq take_bit_nat_eq_self)
    then show ?thesis by (simp add: word_unat_eq_iff)
  qed
  have z: "push_bit n hi AND lo = 0"
  proof (rule bit_eqI)
    fix k
    have "bit (take_bit n lo) k \<longleftrightarrow> k < n \<and> bit lo k" by (simp add: bit_take_bit_iff)
    then show "bit (push_bit n hi AND lo) k \<longleftrightarrow> bit (0 :: u64) k" using lo by (auto simp: bit_simps)
  qed
  have "unat hi * 2 ^ n mod 2 ^ 64 + unat lo < 2 ^ 64"
  proof (cases "n \<le> 64")
    case True
    then have "unat hi * 2 ^ n mod 2 ^ 64 = 2 ^ n * (unat hi mod 2 ^ (64 - n))"
      by (metis le_add_diff_inverse mult.commute mult_mod_right power_add)
    moreover have "unat hi mod 2 ^ (64 - n) + 1 \<le> 2 ^ (64 - n)" by (simp add: Suc_leI)
    then have "2 ^ n * (unat hi mod 2 ^ (64 - n) + 1) \<le> 2 ^ n * 2 ^ (64 - n)" by (rule mult_le_mono2)
    then have "2 ^ n * (unat hi mod 2 ^ (64 - n)) + 2 ^ n \<le> 2 ^ 64" using True by (simp flip: power_add)
    ultimately show ?thesis using assms by simp
  next
    case False
    then have "2 ^ n = 2 ^ 64 * (2 :: nat) ^ (n - 64)" by (simp only: power_add [symmetric]) simp
    then have "unat hi * 2 ^ n mod 2 ^ 64 = 0" by simp
    then show ?thesis using unat_lt64 [of lo] by simp
  qed
  then show ?thesis using z by (simp add: unat_add64 unat_push flip: disjunctive_add_eq_or)
qed

lemma half_eq: "0x8000000000000000 = (2 ^ 63 :: u64)" by simp

lemma unat_half: "unat (0x8000000000000000 :: u64) = 2 ^ 63" by simp

lemma top_bit: "drop_bit 63 (x :: u64) = 0 \<longleftrightarrow> unat x < 2 ^ 63"
  by (simp add: word_unat_eq_iff unat_drop div_eq_0_iff)

lemma integer_bit: "x AND 0x8000000000000000 = 0 \<longleftrightarrow> unat (x :: u64) < 2 ^ 63"
proof -
  have "x AND 0x8000000000000000 = 0 \<longleftrightarrow> \<not> bit x 63" using and_exp_eq_0_iff_not_bit [of x 63] by simp
  also have "bit x 63 \<longleftrightarrow> bit (unat x) 63" by (simp only: bit_unsigned_iff) simp
  also have "\<dots> \<longleftrightarrow> odd (unat x div 2 ^ 63)" by (simp only: bit_iff_odd)
  also have "unat x div 2 ^ 63 = (if unat x < 2 ^ 63 then 0 else 1)"
    using unat_lt64 [of x] by (simp add: div_eq_0_iff) (simp add: div_nat_eqI)
  finally show ?thesis by simp
qed

lemma odd_word: "x AND 1 \<noteq> 0 \<longleftrightarrow> odd (unat (x :: u64))"
proof -
  have "x AND 1 \<noteq> 0 \<longleftrightarrow> bit x 0" using and_exp_eq_0_iff_not_bit [of x 0] by simp
  also have "\<dots> \<longleftrightarrow> bit (unat x) 0" by (simp only: bit_unsigned_iff) simp
  finally show ?thesis by (simp only: bit_0)
qed

section \<open>The product\<close>

lemma product_pieces:
  fixes K :: nat
  assumes "a0 * b1 = q * K + r" and "a0 * b0 = q0 * K + r0" and "a1 * b0 + q0 + r = M * K + m"
  shows "(a1 * b1 + M + q) * (K * K) + (m * K + r0) = (a1 * K + a0) * (b1 * K + b0)"
proof -
  have "(a1 * K + a0) * (b1 * K + b0) = a1 * b1 * (K * K) + a1 * b0 * K + a0 * b1 * K + a0 * b0"
    by (simp only: distrib_left distrib_right ac_simps)
  also have "\<dots> = a1 * b1 * (K * K) + q * (K * K) + (a1 * b0 + q0 + r) * K + r0"
    unfolding assms(1,2) by (simp only: distrib_left distrib_right ac_simps)
  also have "\<dots> = (a1 * b1 + M + q) * (K * K) + (m * K + r0)"
    unfolding assms(3) by (simp only: distrib_left distrib_right ac_simps)
  finally show ?thesis by simp
qed

lemma mul64_exact:
  assumes "mul64_to_128 a b = (hi, lo)"
  shows "unat hi * 2 ^ 64 + unat lo = unat a * unat b"
proof -
  define a0 a1 b0 b1 where d: "a0 = unat a mod 2 ^ 32" "a1 = unat a div 2 ^ 32" "b0 = unat b mod 2 ^ 32" "b1 = unat b div 2 ^ 32"
  have s: "a0 < 2 ^ 32" "a1 < 2 ^ 32" "b0 < 2 ^ 32" "b1 < 2 ^ 32"
    using unat_lt64 [of a] unat_lt64 [of b] by (simp_all add: d less_mult_imp_div_less)
  have p: "x * y \<le> (2 ^ 32 - 1) * (2 ^ 32 - 1)" if "x < 2 ^ 32" "y < 2 ^ 32" for x y :: nat
    using that by (intro mult_le_mono) simp_all
  note ps = p [OF s(1,3)] p [OF s(1,4)] p [OF s(2,3)] p [OF s(2,4)]
  define p00 where "p00 = (a AND 0xFFFFFFFF) * (b AND 0xFFFFFFFF)"
  define p01 where "p01 = (a AND 0xFFFFFFFF) * drop_bit 32 b"
  define p10 where "p10 = drop_bit 32 a * (b AND 0xFFFFFFFF)"
  define p11 where "p11 = drop_bit 32 a * drop_bit 32 b"
  have u: "unat p00 = a0 * b0" "unat p01 = a0 * b1" "unat p10 = a1 * b0" "unat p11 = a1 * b1"
    unfolding p00_def p01_def p10_def p11_def
    using ps by (simp_all add: unat_mult64 unat_low32 unat_drop d)
  define middle where "middle = p10 + drop_bit 32 p00 + (p01 AND 0xFFFFFFFF)"
  have q: "a0 * b0 div 2 ^ 32 \<le> 2 ^ 32 - 2" "a0 * b1 div 2 ^ 32 \<le> 2 ^ 32 - 2"
    using ps(1,2) by (auto intro: order_trans [OF div_le_mono])
  have m: "unat middle = a1 * b0 + a0 * b0 div 2 ^ 32 + a0 * b1 mod 2 ^ 32"
  proof -
    have "a0 * b1 mod 2 ^ 32 < 2 ^ 32" by simp
    then have "a1 * b0 + a0 * b0 div 2 ^ 32 + a0 * b1 mod 2 ^ 32 < 2 ^ 64" using q(1) ps(3) by simp
    then show ?thesis using u by (simp add: middle_def unat_add64 unat_drop unat_low32)
  qed
  have hl: "hi = p11 + drop_bit 32 middle + drop_bit 32 p01" "lo = push_bit 32 middle OR (p00 AND 0xFFFFFFFF)"
    using assms by (simp_all add: mul64_to_128_def Let_def p00_def p01_def p10_def p11_def middle_def)
  define mid where "mid = a1 * b0 + a0 * b0 div 2 ^ 32 + a0 * b1 mod 2 ^ 32"
  have lo: "unat lo = mid * 2 ^ 32 mod 2 ^ 64 + a0 * b0 mod 2 ^ 32"
    unfolding hl(2) by (subst unat_or_low) (simp_all add: unat_low32 u m mid_def)
  have "a1 * b1 + mid div 2 ^ 32 + a0 * b1 div 2 ^ 32 < 2 ^ 64"
  proof -
    have "mid \<le> (2 ^ 32 - 1) * (2 ^ 32 - 1) + (2 ^ 32 - 2) + (2 ^ 32 - 1)"
    proof -
      have "a0 * b1 mod 2 ^ 32 < 2 ^ 32" by simp
      then show ?thesis using ps(3) q(1) unfolding mid_def by linarith
    qed
    then have "mid div 2 ^ 32 \<le> ((2 ^ 32 - 1) * (2 ^ 32 - 1) + (2 ^ 32 - 2) + (2 ^ 32 - 1)) div 2 ^ 32" by (rule div_le_mono)
    then show ?thesis using ps(4) q(2) by simp
  qed
  then have hi: "unat hi = a1 * b1 + mid div 2 ^ 32 + a0 * b1 div 2 ^ 32"
    unfolding hl(1) by (simp add: unat_add64 unat_drop u m mid_def)
  have ab: "unat a = a1 * 2 ^ 32 + a0" "unat b = b1 * 2 ^ 32 + b0" by (simp_all only: d div_mult_mod_eq)
  have "mid * 2 ^ 32 mod (2 ^ 32 * 2 ^ 32) = mid mod 2 ^ 32 * 2 ^ 32" by (simp only: mult_mod_left)
  then have "unat hi * 2 ^ 64 + unat lo =
      (a1 * b1 + mid div 2 ^ 32 + a0 * b1 div 2 ^ 32) * (2 ^ 32 * 2 ^ 32) + (mid mod 2 ^ 32 * 2 ^ 32 + a0 * b0 mod 2 ^ 32)"
    unfolding hi lo by simp
  also have "\<dots> = (a1 * 2 ^ 32 + a0) * (b1 * 2 ^ 32 + b0)"
    by (rule product_pieces [where q = "a0 * b1 div 2 ^ 32" and r = "a0 * b1 mod 2 ^ 32" and ?q0.0 = "a0 * b0 div 2 ^ 32"
        and ?r0.0 = "a0 * b0 mod 2 ^ 32"]) (simp_all only: div_mult_mod_eq mid_def)
  finally show ?thesis by (simp only: ab)
qed

end
