(* ===== verification/X86_Ext80_Rounding.thy ===== *)
theory X86_Ext80_Rounding
  imports X86_Ext80_Words Complex_Main
begin

text \<open>
  The specification the extended-format operations are held to: the real number an encoding stands
  for, and correct rounding to a number of significant bits.  A correctly rounded number is unique
  and no number of that precision is closer.
\<close>

section \<open>Correct rounding\<close>

text \<open>
  \<open>rounds_to p x y\<close>: \<open>y\<close> is the multiple of the unit in the last place of \<open>x\<close>, for \<open>p\<close> significant
  bits, that is nearest to \<open>x\<close>, and the even one of two.
\<close>

definition rounds_to :: "nat \<Rightarrow> real \<Rightarrow> real \<Rightarrow> bool" where
  "rounds_to p x y \<longleftrightarrow>
     (\<exists>e m :: int. 2 ^ (p - 1) * 2 powi e \<le> \<bar>x\<bar> \<and> \<bar>x\<bar> < 2 ^ p * 2 powi e \<and> y = of_int m * 2 powi e \<and>
        2 * \<bar>y - x\<bar> \<le> 2 powi e \<and> (2 * \<bar>y - x\<bar> = 2 powi e \<longrightarrow> even m))"

lemma powi_le_cancel: "(2 :: real) powi a < 2 powi b \<longleftrightarrow> a < b"
  using power_int_strict_increasing [of a b "2 :: real"] power_int_increasing [of b a "2 :: real"] by force

lemma powi_sum: "(2 :: real) powi (a + b) = 2 powi a * 2 powi b"
  by (simp add: power_int_add)

lemma binade_unique:
  assumes "2 ^ (p - 1) * 2 powi e \<le> (x :: real)" "x < 2 ^ p * 2 powi e"
    and "2 ^ (p - 1) * 2 powi f \<le> x" "x < 2 ^ p * 2 powi f" and "0 < p"
  shows "e = f"
proof -
  have w: "(2 :: real) ^ n * 2 powi e = 2 powi (int n + e)" for n e by (simp add: power_int_add)
  have "int (p - 1) + e < int p + f" "int (p - 1) + f < int p + e"
    using assms(1-4) unfolding w by (meson le_less_trans powi_le_cancel)+
  then show ?thesis using assms(5) by simp
qed

lemma halves: "(1 :: real) \<le> c \<Longrightarrow> c \<le> a + b \<Longrightarrow> 2 * a \<le> 1 \<Longrightarrow> 2 * b \<le> 1 \<Longrightarrow> 2 * a = 1 \<and> 2 * b = 1 \<and> c = 1"
  by linarith

lemma nearer_half: "u \<le> b + a \<Longrightarrow> 2 * a \<le> u \<Longrightarrow> (a :: real) \<le> b"
  by linarith

lemma even_nearest:
  fixes t :: real and m n :: int
  assumes "2 * \<bar>of_int m - t\<bar> \<le> 1" "2 * \<bar>of_int m - t\<bar> = 1 \<longrightarrow> even m"
    and "2 * \<bar>of_int n - t\<bar> \<le> 1" "2 * \<bar>of_int n - t\<bar> = 1 \<longrightarrow> even n"
  shows "m = n"
proof (rule ccontr)
  assume "m \<noteq> n"
  then have "1 \<le> \<bar>m - n\<bar>" by simp
  then have "(1 :: real) \<le> \<bar>of_int m - of_int n\<bar>" by (metis of_int_1_le_iff of_int_abs of_int_diff)
  moreover have "\<bar>of_int m - of_int n\<bar> \<le> \<bar>of_int m - t\<bar> + \<bar>of_int n - t\<bar>" by linarith
  ultimately have t: "2 * \<bar>of_int m - t\<bar> = 1" "2 * \<bar>of_int n - t\<bar> = 1" "\<bar>of_int m - of_int n :: real\<bar> = 1"
    using halves [OF _ _ assms(1,3)] by blast+
  then have "even m" "even n" using assms(2,4) by simp_all
  then have "even (m - n)" by simp
  moreover have "\<bar>m - n\<bar> = 1" using t(3) by (metis of_int_abs of_int_diff of_int_eq_1_iff)
  ultimately show False by presburger
qed

text \<open>Scaled by the unit, the error is that of rounding to an integer.\<close>

lemma scaled_error: "\<bar>of_int m * u - x\<bar> = \<bar>of_int m - x / u\<bar> * u" if "0 < u" for u x :: real
proof -
  have "of_int m * u - x = (of_int m - x / u) * u" using that by (simp add: left_diff_distrib)
  then show ?thesis using that by (simp add: abs_mult)
qed

lemma rounds_to_unique:
  assumes "rounds_to p x y" and "rounds_to p x z" and "0 < p"
  shows "y = z"
proof -
  obtain e m where y: "2 ^ (p - 1) * 2 powi e \<le> \<bar>x\<bar>" "\<bar>x\<bar> < 2 ^ p * 2 powi e" "y = of_int m * 2 powi e"
      "2 * \<bar>y - x\<bar> \<le> 2 powi e" "2 * \<bar>y - x\<bar> = 2 powi e \<longrightarrow> even m"
    using assms(1) unfolding rounds_to_def by blast
  obtain f n where z: "2 ^ (p - 1) * 2 powi f \<le> \<bar>x\<bar>" "\<bar>x\<bar> < 2 ^ p * 2 powi f" "z = of_int n * 2 powi f"
      "2 * \<bar>z - x\<bar> \<le> 2 powi f" "2 * \<bar>z - x\<bar> = 2 powi f \<longrightarrow> even n"
    using assms(2) unfolding rounds_to_def by blast
  have "e = f" by (rule binade_unique [OF y(1,2) z(1,2) assms(3)])
  define u :: real where "u = 2 powi e"
  have u: "0 < u" "2 powi e = u" "2 powi f = u" using \<open>e = f\<close> by (simp_all add: u_def)
  have "m = n"
  proof (rule even_nearest)
    show "2 * \<bar>of_int m - x / u\<bar> \<le> 1" "2 * \<bar>of_int m - x / u\<bar> = 1 \<longrightarrow> even m"
      using y(3-5) u scaled_error [OF u(1), of m x] by simp_all
    show "2 * \<bar>of_int n - x / u\<bar> \<le> 1" "2 * \<bar>of_int n - x / u\<bar> = 1 \<longrightarrow> even n"
      using z(3-5) u scaled_error [OF u(1), of n x] by simp_all
  qed
  then show ?thesis using y(3) z(3) \<open>e = f\<close> by simp
qed

lemma rounds_to_nonzero: "rounds_to p x y \<Longrightarrow> x \<noteq> 0"
  unfolding rounds_to_def by (metis abs_0 mult_pos_pos not_le zero_less_power zero_less_power_int zero_less_numeral)

text \<open>A magnitude rounded, with either sign.\<close>

lemma rounds_to_neg: "rounds_to p x y \<Longrightarrow> rounds_to p (- x) (- y)"
  unfolding rounds_to_def
proof (elim exE conjE)
  fix e m :: int
  assume a: "2 ^ (p - 1) * 2 powi e \<le> \<bar>x\<bar>" "\<bar>x\<bar> < 2 ^ p * 2 powi e" "y = of_int m * 2 powi e"
    "2 * \<bar>y - x\<bar> \<le> 2 powi e" "2 * \<bar>y - x\<bar> = 2 powi e \<longrightarrow> even m"
  have d: "\<bar>- y - - x\<bar> = \<bar>y - x\<bar>" by linarith
  show "\<exists>e m. 2 ^ (p - 1) * 2 powi e \<le> \<bar>- x\<bar> \<and> \<bar>- x\<bar> < 2 ^ p * 2 powi e \<and> - y = of_int m * 2 powi e \<and>
      2 * \<bar>- y - - x\<bar> \<le> 2 powi e \<and> (2 * \<bar>- y - - x\<bar> = 2 powi e \<longrightarrow> even m)"
    unfolding d abs_minus_cancel using a by (intro exI [where x = e] exI [where x = "- m"]) simp
qed

text \<open>No number of the precision is closer than the rounded one.\<close>

lemma rounds_to_closest:
  assumes "rounds_to p x y" and "\<bar>k\<bar> < (2 :: int) ^ p" and "0 < p"
  shows "\<bar>y - x\<bar> \<le> \<bar>of_int k * 2 powi f - x\<bar>"
proof -
  obtain e m where y: "2 ^ (p - 1) * 2 powi e \<le> \<bar>x\<bar>" "\<bar>x\<bar> < 2 ^ p * 2 powi e" "y = of_int m * 2 powi e"
      "2 * \<bar>y - x\<bar> \<le> 2 powi e"
    using assms(1) unfolding rounds_to_def by blast
  have u: "(0 :: real) < 2 powi e" by simp
  show ?thesis
  proof (cases "e \<le> f")
    case True
    define q where "q = k * 2 ^ nat (f - e)"
    have q: "of_int k * 2 powi f = (of_int q * 2 powi e :: real)"
    proof -
      have "f = int (nat (f - e)) + e" using True by simp
      then have "(2 :: real) powi f = 2 ^ nat (f - e) * 2 powi e" by (metis powi_sum power_int_of_nat)
      then show ?thesis by (simp add: q_def)
    qed
    show ?thesis
    proof (cases "q = m")
      case False
      then have "1 \<le> \<bar>q - m\<bar>" by simp
      then have "(1 :: real) \<le> \<bar>of_int q - of_int m\<bar>" by (metis of_int_1_le_iff of_int_abs of_int_diff)
      then have "2 powi e \<le> \<bar>of_int q - of_int m\<bar> * (2 powi e :: real)" using u by simp
      also have "\<dots> = \<bar>of_int q * 2 powi e - y\<bar>" using u by (simp add: y(3) abs_mult flip: left_diff_distrib)
      finally have "2 powi e \<le> \<bar>of_int q * 2 powi e - x\<bar> + \<bar>y - x\<bar>" by linarith
      then show ?thesis using nearer_half [OF _ y(4)] unfolding q by blast
    qed (simp add: q y(3))
  next
    case False
    \<comment> \<open>a finer exponent: the number lies below the binade of \<open>x\<close>\<close>
    have "\<bar>of_int k\<bar> \<le> (2 ^ p - 1 :: real)"
    proof -
      have "\<bar>k\<bar> \<le> 2 ^ p - 1" using assms(2) by simp
      then have "real_of_int \<bar>k\<bar> \<le> of_int (2 ^ p - 1)" by (simp only: of_int_le_iff)
      then show ?thesis by simp
    qed
    then have "\<bar>of_int k * 2 powi f\<bar> \<le> (2 ^ p - 1) * (2 powi f :: real)" by (simp add: abs_mult)
    define h where "h = (2 :: real) powi (e - 1)"
    have eh: "(2 :: real) powi e = 2 * h" using powi_sum [of 1 "e - 1"] by (simp add: h_def)
    have fh: "(2 :: real) powi f \<le> h" using False by (simp add: h_def power_int_increasing)
    have h0: "0 < h" by (simp add: h_def)
    have "\<bar>of_int k * 2 powi f\<bar> \<le> (2 ^ p - 1) * h"
      using \<open>\<bar>of_int k * 2 powi f\<bar> \<le> _\<close> fh mult_left_mono [of "2 powi f" h "2 ^ p - 1"] by fastforce
    moreover have "2 ^ p * h \<le> \<bar>x\<bar>"
    proof -
      have "(2 :: real) ^ p = 2 ^ (p - 1) * 2" using assms(3) by (cases p) simp_all
      then show ?thesis using y(1) by (simp add: eh mult_ac)
    qed
    ultimately have "h \<le> \<bar>x\<bar> - \<bar>of_int k * 2 powi f\<bar>" by (simp add: algebra_simps)
    then have "h \<le> \<bar>of_int k * 2 powi f - x\<bar>" by linarith
    moreover have "\<bar>y - x\<bar> \<le> h" using y(4) unfolding eh by simp
    ultimately show ?thesis by (rule order_trans [rotated])
  qed
qed

section \<open>The value of an encoding\<close>

definition ext80_sign :: "ext80 \<Rightarrow> real" where
  "ext80_sign v = (if e8_sign_exp v AND 0x8000 = 0 then 1 else -1)"

definition ext80_exponent :: "ext80 \<Rightarrow> int" where
  "ext80_exponent v = int (unat (e8_sign_exp v AND 0x7FFF))"

text \<open>An exponent of 0 scales as an exponent of 1 does, in the subnormals.\<close>

definition ext80_value :: "ext80 \<Rightarrow> real" where
  "ext80_value v = ext80_sign v * real (unat (e8_signif v)) * 2 powi (max 1 (ext80_exponent v) - 16446)"

lemma abs_sign [simp]: "\<bar>ext80_sign v\<bar> = 1" "ext80_sign v * ext80_sign v = 1" "ext80_sign v \<noteq> 0"
  by (simp_all add: ext80_sign_def)

lemma exponent_mask: "unat (e AND 0x7FFF :: u16) < 0x8000"
proof -
  have "e AND 0x7FFF \<le> (0x7FFF :: u16)" by (rule word_and_le1)
  then show ?thesis by (simp add: word_le_nat_alt)
qed

lemma normal_iff:
  "x86p_ext80_is_normal v \<longleftrightarrow> 0 < ext80_exponent v \<and> ext80_exponent v < 0x7FFF \<and> 2 ^ 63 \<le> unat (e8_signif v)"
proof -
  let ?e = "e8_sign_exp v AND 0x7FFF"
  have u: "unat (ucast ?e :: u32) = unat ?e" using exponent_mask [of "e8_sign_exp v"] by (simp add: unsigned_ucast_eq take_bit_nat_eq_self)
  have "(ucast ?e - 1 :: u32) < 0x7FFE \<longleftrightarrow> 0 < unat ?e \<and> unat ?e < 0x7FFF"
  proof (cases "unat ?e = 0")
    case True
    then have "(ucast ?e :: u32) = 0" using u by (simp add: unat_eq_0)
    then show ?thesis using True by (simp add: word_less_nat_alt unsigned_minus_1_eq_mask mask_eq_exp_minus_1)
  next
    case False
    then have "1 \<le> (ucast ?e :: u32)" using u by (simp add: word_le_nat_alt)
    then have "unat (ucast ?e - 1 :: u32) = unat ?e - 1" using u by (simp add: unat_sub)
    then show ?thesis using False by (auto simp: word_less_nat_alt)
  qed
  moreover have "0 < ext80_exponent v \<longleftrightarrow> 0 < unat ?e" "ext80_exponent v < 0x7FFF \<longleftrightarrow> unat ?e < 0x7FFF"
    unfolding ext80_exponent_def by linarith+
  ultimately show ?thesis unfolding x86p_ext80_is_normal_def top_bit not_less by blast
qed

lemma zero_value: "x86p_ext80_is_zero v \<Longrightarrow> ext80_value v = 0"
  by (simp add: x86p_ext80_is_zero_def ext80_value_def)

lemma normal_value:
  "x86p_ext80_is_normal v \<Longrightarrow> ext80_value v = ext80_sign v * real (unat (e8_signif v)) * 2 powi (ext80_exponent v - 16446)"
  by (simp add: normal_iff ext80_value_def)

lemma normal_not_zero: "x86p_ext80_is_normal v \<Longrightarrow> \<not> x86p_ext80_is_zero v"
  by (auto simp: normal_iff x86p_ext80_is_zero_def ext80_exponent_def)

text \<open>A sign and an exponent put together.\<close>

lemma packed:
  assumes "sign = 0 \<or> sign = 0x8000" and "0 \<le> e" and "e \<le> 0x7FFF"
  shows "(sign OR word_of_int e :: u16) AND 0x8000 = sign" "unat ((sign OR word_of_int e :: u16) AND 0x7FFF) = nat e"
proof -
  let ?w = "word_of_int e :: u16"
  have u: "unat ?w = nat e"
    using assms(2,3) by (simp add: unat_eq_nat_uint uint_word_of_int_eq take_bit_int_eq_self)
  have "unat (take_bit 15 ?w) = nat e"
    using u assms(3) by (simp only: unsigned_take_bit_eq) (simp add: take_bit_nat_eq_self)
  then have "take_bit 15 ?w = ?w" using u by (simp add: word_unat_eq_iff)
  moreover have "0x7FFF = (mask 15 :: u16)" by (simp add: mask_eq_exp_minus_1)
  ultimately have l: "?w AND 0x7FFF = ?w" by (simp add: take_bit_eq_mask)
  then have h: "?w AND 0x8000 = 0"
  proof -
    have "?w AND 0x8000 = ?w AND (0x7FFF AND 0x8000)" using l by (metis and.assoc)
    then show ?thesis by simp
  qed
  show "(sign OR ?w) AND 0x8000 = sign" using assms(1) h by (auto simp: bit.conj_disj_distrib2)
  have "(sign OR ?w) AND 0x7FFF = ?w" using assms(1) l by (auto simp: bit.conj_disj_distrib2)
  then show "unat ((sign OR ?w) AND 0x7FFF) = nat e" using u by simp
qed

end
