(* ===== verification/X86_Ext80_Arith_Properties.thy ===== *)
theory X86_Ext80_Arith_Properties
  imports X86_Ext80_Rounding
begin

text \<open>
  The fast arithmetic of the extended format is correctly rounded: multiplication, addition and
  subtraction answer with the 64-bit number nearest to the exact real result, report exactly whether
  it differs and on which side, and refuse only what has no normal result.
\<close>

section \<open>The rounding step\<close>

definition correctly_rounded :: "real \<Rightarrow> u16 \<Rightarrow> ext80 \<Rightarrow> u16 \<Rightarrow> bool" where
  "correctly_rounded x flags out flags' \<longleftrightarrow>
     x86p_ext80_is_normal out \<and> rounds_to 64 x (ext80_value out) \<and>
     flags' = flags OR ((if ext80_value out \<noteq> x then kInexact else 0) OR (if \<bar>ext80_value out\<bar> > \<bar>x\<bar> then kRoundedUp else 0))"

definition sign_of :: "u16 \<Rightarrow> real" where
  "sign_of s = (if s = 0 then 1 else -1)"

text \<open>
  What the pair and the sticky bit stand for: a magnitude in units of the pair's last place.  A pair
  doubled after bits were lost is even and the magnitude lies below the pair plus two.
\<close>

definition stands_for :: "u64 \<times> u64 \<times> bool \<times> int \<Rightarrow> real \<Rightarrow> int \<Rightarrow> bool" where
  "stands_for = (\<lambda>(hi, lo, sticky, exponent) x e.
     2 ^ 63 \<le> unat hi \<and> exponent = e \<and>
     real (unat hi * 2 ^ 64 + unat lo) \<le> x \<and>
     (x < real (unat hi * 2 ^ 64 + unat lo) + 1 \<or> even (unat lo) \<and> x < real (unat hi * 2 ^ 64 + unat lo) + 2) \<and>
     (sticky \<longleftrightarrow> x \<noteq> real (unat hi * 2 ^ 64 + unat lo)))"

definition rounds_up_pair :: "u64 \<Rightarrow> u64 \<Rightarrow> bool \<Rightarrow> bool" where
  "rounds_up_pair hi lo sticky \<longleftrightarrow>
     lo > 0x8000000000000000 \<or> (lo = 0x8000000000000000 \<and> (sticky \<or> hi AND 1 \<noteq> 0))"

lemma rounds_up_pair_iff:
  "rounds_up_pair hi lo sticky \<longleftrightarrow> 2 ^ 63 < unat lo \<or> (unat lo = 2 ^ 63 \<and> (sticky \<or> odd (unat hi)))"
  unfolding rounds_up_pair_def odd_word by (simp add: word_less_nat_alt word_unat_eq_iff)

lemma nearest_multiple:
  fixes x :: real and H L :: nat
  assumes "real (H * 2 ^ 64 + L) \<le> x" "x < real (H * 2 ^ 64 + L) + 1 \<or> even L \<and> x < real (H * 2 ^ 64 + L) + 2" "sticky \<longleftrightarrow> x \<noteq> real (H * 2 ^ 64 + L)" "L < 2 ^ 64"
    and up: "up \<longleftrightarrow> 2 ^ 63 < L \<or> (L = 2 ^ 63 \<and> (sticky \<or> odd H))"
  shows "2 * \<bar>real (H + of_bool up) * 2 ^ 64 - x\<bar> \<le> 2 ^ 64"
    "2 * \<bar>real (H + of_bool up) * 2 ^ 64 - x\<bar> = 2 ^ 64 \<Longrightarrow> even (H + of_bool up)"
    "real (H + of_bool up) * 2 ^ 64 > x \<longleftrightarrow> up"
    "real (H + of_bool up) * 2 ^ 64 \<noteq> x \<longleftrightarrow> L \<noteq> 0 \<or> sticky"
proof -
  define d where "d = x - real H * 2 ^ 64"
  have d: "real L \<le> d" "d < real L + 1 \<or> even L \<and> d < real L + 2" "sticky \<longleftrightarrow> d \<noteq> real L"
    using assms(1-3) by (auto simp: d_def)
  have x: "x = real H * 2 ^ 64 + d" by (simp add: d_def)
  have bound: "d < 2 ^ Suc n" if "L < 2 ^ Suc n" for n
  proof (cases "even L \<and> d < real L + 2")
    case True
    then obtain k where k: "L = 2 * k" by (auto elim: evenE)
    then have "real k + 1 \<le> 2 ^ n" using that nat_less_real_le [of k "2 ^ n"] by simp
    then show ?thesis using True k by simp
  next
    case False
    then have "d < real L + 1" using d(2) by blast
    moreover have "real L + 1 \<le> 2 ^ Suc n" using that nat_less_real_le [of L "2 ^ Suc n"] by simp
    ultimately show ?thesis by linarith
  qed
  have l: "L < 2 ^ 63 \<Longrightarrow> d < 2 ^ 63" "2 ^ 63 < L \<Longrightarrow> 2 ^ 63 + 1 \<le> real L" "d < 2 ^ 64"
    using assms(4) bound [of 62] nat_less_real_le [of "2 ^ 63" L] bound [of 63] by simp_all
  have all: "2 * \<bar>real (H + of_bool up) * 2 ^ 64 - x\<bar> \<le> 2 ^ 64 \<and>
    (2 * \<bar>real (H + of_bool up) * 2 ^ 64 - x\<bar> = 2 ^ 64 \<longrightarrow> even (H + of_bool up)) \<and>
    (real (H + of_bool up) * 2 ^ 64 > x \<longleftrightarrow> up) \<and> (real (H + of_bool up) * 2 ^ 64 \<noteq> x \<longleftrightarrow> L \<noteq> 0 \<or> sticky)"
  proof (cases up)
    case True
    then have e: "real (H + of_bool up) * 2 ^ 64 - x = 2 ^ 64 - d" by (simp add: x distrib_right)
    have g: "0 < 2 ^ 64 - d" using l(3) by linarith
    have h: "2 ^ 63 \<le> d" "d = 2 ^ 63 \<Longrightarrow> odd H"
    proof -
      show "2 ^ 63 \<le> d" using True up d l(2) by fastforce
      assume "d = 2 ^ 63"
      then show "odd H" using True up d l(2) by fastforce
    qed
    have "L \<noteq> 0" using True up by auto
    moreover have "real (H + of_bool up) * 2 ^ 64 > x" using e g by linarith
    moreover have "\<bar>real (H + of_bool up) * 2 ^ 64 - x\<bar> = 2 ^ 64 - d" unfolding e using g by simp
    moreover have "2 * (2 ^ 64 - d) = 2 ^ 64 \<longleftrightarrow> d = 2 ^ 63" by auto
    ultimately show ?thesis using h True by auto
  next
    case False
    then have e: "real (H + of_bool up) * 2 ^ 64 - x = - d" by (simp add: x)
    have h: "d \<le> 2 ^ 63" "d = 2 ^ 63 \<Longrightarrow> even H"
    proof -
      show "d \<le> 2 ^ 63" using False up d l(1) by (cases "L < 2 ^ 63") (auto simp: not_less)
      assume "d = 2 ^ 63"
      then show "even H" using False up d l(1) by (cases "L < 2 ^ 63") (auto simp: not_less)
    qed
    have d0: "0 \<le> d" using d(1) by linarith
    have "\<not> real (H + of_bool up) * 2 ^ 64 > x" using e d0 by linarith
    moreover have "real (H + of_bool up) * 2 ^ 64 = x \<longleftrightarrow> d = 0" using e by auto
    moreover have "d \<noteq> 0 \<longleftrightarrow> L \<noteq> 0 \<or> sticky" using d by auto
    moreover have "\<bar>real (H + of_bool up) * 2 ^ 64 - x\<bar> = d" unfolding e using d0 by simp
    moreover have "2 * d = 2 ^ 64 \<longleftrightarrow> d = 2 ^ 63" by auto
    ultimately show ?thesis using h False by auto
  qed
  then show "2 * \<bar>real (H + of_bool up) * 2 ^ 64 - x\<bar> \<le> 2 ^ 64"
    "2 * \<bar>real (H + of_bool up) * 2 ^ 64 - x\<bar> = 2 ^ 64 \<Longrightarrow> even (H + of_bool up)"
    "real (H + of_bool up) * 2 ^ 64 > x \<longleftrightarrow> up" "real (H + of_bool up) * 2 ^ 64 \<noteq> x \<longleftrightarrow> L \<noteq> 0 \<or> sticky"
    by blast+
qed

text \<open>The rounded significand, renormalised when the increment carried out of it.\<close>

lemma incremented:
  assumes "2 ^ 63 \<le> unat hi" and "hi' = (if up then hi + 1 else hi)" and "carried \<longleftrightarrow> up \<and> hi' = 0"
  defines "s \<equiv> unat (if carried then 0x8000000000000000 else hi' :: u64)"
  shows "2 ^ 63 \<le> s" "real s * 2 powi (if carried then e + 1 else e) = real (unat hi + of_bool up) * 2 powi e"
proof -
  have c: "unat (hi + 1) = (if unat hi + 1 = 2 ^ 64 then 0 else unat hi + 1)"
    using unat_lt64 [of hi] by (simp add: unat_add64)
  have z: "hi + 1 = 0 \<longleftrightarrow> unat hi + 1 = 2 ^ 64" using c by (auto simp: word_unat_eq_iff)
  show "2 ^ 63 \<le> s" using assms(1) c z by (auto simp: s_def assms(2,3))
  show "real s * 2 powi (if carried then e + 1 else e) = real (unat hi + of_bool up) * 2 powi e"
  proof (cases carried)
    case True
    then have u: "up" "hi + 1 = 0" using assms(2,3) by auto
    have "real (unat hi + 1) = real (2 ^ 64)" using u(2) unfolding z by (rule arg_cong)
    then have n: "real (unat hi + of_bool up) = 2 ^ 64" using u(1) by simp
    show ?thesis unfolding n using True by (simp add: s_def powi_sum)
  next
    case False
    then have "s = unat hi + of_bool up" using assms(2,3) c z by (auto simp: s_def)
    then show ?thesis using False by (simp only: if_False)
  qed
qed

text \<open>The number the rounding makes before the exponent is looked at.\<close>

lemma rounded_magnitude:
  assumes "stands_for (hi, lo, sticky, e0) x e" and "\<sigma> = 1 \<or> \<sigma> = -1"
  defines "y \<equiv> \<sigma> * (real (unat hi + of_bool (rounds_up_pair hi lo sticky)) * 2 powi (e - 16446))"
  shows "rounds_to 64 (\<sigma> * (x * 2 powi (e - 16510))) y"
    "y \<noteq> \<sigma> * (x * 2 powi (e - 16510)) \<longleftrightarrow> lo \<noteq> 0 \<or> sticky"
    "\<bar>y\<bar> > \<bar>\<sigma> * (x * 2 powi (e - 16510))\<bar> \<longleftrightarrow> rounds_up_pair hi lo sticky"
proof -
  define n where "n = unat hi + of_bool (rounds_up_pair hi lo sticky)"
  define u where "u = (2 :: real) powi (e - 16510)"
  have u: "0 < u" by (simp add: u_def)
  have s: "2 ^ 63 \<le> unat hi" "real (unat hi * 2 ^ 64 + unat lo) \<le> x" "x < real (unat hi * 2 ^ 64 + unat lo) + 1 \<or> even (unat lo) \<and> x < real (unat hi * 2 ^ 64 + unat lo) + 2"
    "sticky \<longleftrightarrow> x \<noteq> real (unat hi * 2 ^ 64 + unat lo)"
    using assms(1) by (simp_all add: stands_for_def)
  note r = nearest_multiple [OF s(2-4) unat_lt64 rounds_up_pair_iff, folded n_def]
  have uu: "(2 :: real) powi (e - 16446) = 2 ^ 64 * u"
    using powi_sum [of 64 "e - 16510"] by (simp add: u_def)
  have y: "y = \<sigma> * (real n * 2 ^ 64 * u)" by (simp add: y_def n_def uu)
  have x0: "0 < x"
  proof -
    have "0 < unat hi * 2 ^ 64 + unat lo" using s(1) by (intro add_pos_nonneg) simp_all
    then show ?thesis using s(2) by linarith
  qed
  have diff: "\<bar>\<sigma> * (a * u) - \<sigma> * (x * u)\<bar> = \<bar>a - x\<bar> * u" for a
    using u assms(2) by (auto simp: abs_mult simp flip: left_diff_distrib)
  have mag: "\<bar>\<sigma> * (a * u)\<bar> = a * u" if "0 \<le> a" for a using u assms(2) that by (auto simp: abs_mult)
  have bounds: "2 ^ 63 * 2 ^ 64 \<le> x" "x < 2 ^ 64 * 2 ^ 64"
  proof -
    have "2 ^ 63 * 2 ^ 64 \<le> unat hi * 2 ^ 64 + unat lo" using mult_le_mono1 [OF s(1), of "2 ^ 64"] by linarith
    then have "real (2 ^ 63 * 2 ^ 64) \<le> real (unat hi * 2 ^ 64 + unat lo)" by (simp only: of_nat_le_iff)
    then show "2 ^ 63 * 2 ^ 64 \<le> x" using s(2) by simp
    have "unat lo + 2 \<le> 2 ^ 64" if "even (unat lo)" using that unat_lt64 [of lo] by (auto elim!: evenE)
    then have "real (unat lo) + 2 \<le> 2 ^ 64" if "even (unat lo)"
      using that of_nat_le_iff [of "unat lo + 2" "2 ^ 64", where ?'a = real] by simp
    moreover have "real (unat lo) + 1 \<le> 2 ^ 64" using unat_lt64 [of lo] nat_less_real_le [of "unat lo" "2 ^ 64"] by simp
    moreover have "real (unat hi) + 1 \<le> 2 ^ 64" using unat_lt64 [of hi] nat_less_real_le [of "unat hi" "2 ^ 64"] by simp
    ultimately show "x < 2 ^ 64 * 2 ^ 64" using s(3) by auto
  qed
  show "y \<noteq> \<sigma> * (x * 2 powi (e - 16510)) \<longleftrightarrow> lo \<noteq> 0 \<or> sticky"
    using r(4) u assms(2) by (auto simp: y u_def [symmetric] word_unat_eq_iff)
  show "\<bar>y\<bar> > \<bar>\<sigma> * (x * 2 powi (e - 16510))\<bar> \<longleftrightarrow> rounds_up_pair hi lo sticky"
    using r(3) u x0 by (simp add: y u_def [symmetric] mag)
  show "rounds_to 64 (\<sigma> * (x * 2 powi (e - 16510))) y"
    unfolding rounds_to_def
  proof (intro exI conjI impI)
    let ?m = "(if \<sigma> = 1 then int n else - int n)"
    show "y = of_int ?m * 2 powi (e - 16446)" using assms(2) by (auto simp: y uu)
    show "2 ^ (64 - 1) * 2 powi (e - 16446) \<le> \<bar>\<sigma> * (x * 2 powi (e - 16510))\<bar>"
      using bounds(1) u x0 by (simp add: uu u_def [symmetric] mag)
    show "\<bar>\<sigma> * (x * 2 powi (e - 16510))\<bar> < 2 ^ 64 * 2 powi (e - 16446)"
      using bounds(2) u x0 by (simp add: uu u_def [symmetric] mag)
    have d: "\<bar>y - \<sigma> * (x * 2 powi (e - 16510))\<bar> = \<bar>real n * 2 ^ 64 - x\<bar> * u"
      using diff [of "real n * 2 ^ 64"] by (simp add: y u_def [symmetric])
    show "2 * \<bar>y - \<sigma> * (x * 2 powi (e - 16510))\<bar> \<le> 2 powi (e - 16446)"
      using r(1) u mult_right_mono [OF r(1), of u] unfolding d uu by simp
    assume "2 * \<bar>y - \<sigma> * (x * 2 powi (e - 16510))\<bar> = 2 powi (e - 16446)"
    then have "2 * \<bar>real n * 2 ^ 64 - x\<bar> * u = 2 ^ 64 * u" unfolding d uu by simp
    then have "even n" using r(2) u by simp
    then show "even ?m" by simp
  qed
qed

lemma sign_of_cases: "sign_of s = 1 \<or> sign_of s = -1"
  by (simp add: sign_of_def)

lemma signed_magnitude: "\<sigma> = 1 \<or> \<sigma> = -1 \<Longrightarrow> 0 \<le> a \<Longrightarrow> \<bar>\<sigma> * a\<bar> = (a :: real)"
  by auto

lemma packed_value:
  assumes "sign = 0 \<or> sign = 0x8000" and "0 < e" and "e < 0x7FFF" and "2 ^ 63 \<le> unat s"
  defines "v \<equiv> \<lparr>e8_signif = s, e8_sign_exp = sign OR word_of_int e\<rparr>"
  shows "x86p_ext80_is_normal v" "ext80_value v = sign_of sign * (real (unat s) * 2 powi (e - 16446))"
proof -
  have e: "ext80_exponent v = e" using packed(2) [OF assms(1), of e] assms(2,3) by (simp add: v_def ext80_exponent_def)
  show n: "x86p_ext80_is_normal v" using assms(2-4) by (simp add: normal_iff e) (simp add: v_def)
  have "ext80_sign v = sign_of sign"
    using packed(1) [OF assms(1), of e] assms(1-3) by (auto simp: v_def ext80_sign_def sign_of_def)
  then show "ext80_value v = sign_of sign * (real (unat s) * 2 powi (e - 16446))"
    by (simp add: normal_value [OF n] e mult.assoc) (simp add: v_def)
qed

text \<open>The significand and exponent the rounding leaves, whatever they are packed into.\<close>

definition rounded_pair :: "u64 \<Rightarrow> u64 \<Rightarrow> bool \<Rightarrow> int \<Rightarrow> u64 \<times> int" where
  "rounded_pair hi lo sticky e =
     (let up = rounds_up_pair hi lo sticky; hi' = (if up then hi + 1 else hi); carried = up \<and> hi' = 0
      in (if carried then 0x8000000000000000 else hi', if carried then e + 1 else e))"

lemma round_sum_alt:
  "round_sum sign flags (hi, lo, sticky, e) =
     (case rounded_pair hi lo sticky e of (s, e') \<Rightarrow>
        if \<not> exponent_in_range e' then None
        else Some (\<lparr>e8_signif = s, e8_sign_exp = sign OR word_of_int e'\<rparr>,
          flags OR ((if lo \<noteq> 0 \<or> sticky then kInexact else 0) OR (if rounds_up_pair hi lo sticky then kRoundedUp else 0))))"
  by (simp add: round_sum_def rounded_pair_def rounds_up_pair_def Let_def)

lemma rounded_pair_value:
  assumes "stands_for (hi, lo, sticky, e) x e" and "rounded_pair hi lo sticky e = (s, e')"
  shows "2 ^ 63 \<le> unat s"
    "real (unat s) * 2 powi (e' - 16446) = real (unat hi + of_bool (rounds_up_pair hi lo sticky)) * 2 powi (e - 16446)"
proof -
  have h: "2 ^ 63 \<le> unat hi" using assms(1) by (simp add: stands_for_def)
  have r: "s = (if rounds_up_pair hi lo sticky \<and> (if rounds_up_pair hi lo sticky then hi + 1 else hi) = 0
       then 0x8000000000000000 else if rounds_up_pair hi lo sticky then hi + 1 else hi)"
    "e' - 16446 = (if rounds_up_pair hi lo sticky \<and> (if rounds_up_pair hi lo sticky then hi + 1 else hi) = 0
       then (e - 16446) + 1 else e - 16446)"
    using assms(2) by (auto simp: rounded_pair_def Let_def)
  note i = incremented(1) [OF h refl refl, where up = "rounds_up_pair hi lo sticky", folded r]
    incremented(2) [OF h refl refl, where up = "rounds_up_pair hi lo sticky" and e = "e - 16446", folded r]
  show "2 ^ 63 \<le> unat s" by (rule i(1))
  show "real (unat s) * 2 powi (e' - 16446) = real (unat hi + of_bool (rounds_up_pair hi lo sticky)) * 2 powi (e - 16446)"
    by (rule i(2))
qed

lemma round_sum_correct:
  assumes "round_sum sign flags (hi, lo, sticky, e) = Some (out, flags')" and "stands_for (hi, lo, sticky, e) x e"
    and "sign = 0 \<or> sign = 0x8000"
  shows "correctly_rounded (sign_of sign * (x * 2 powi (e - 16510))) flags out flags'"
proof -
  obtain s e' where p: "rounded_pair hi lo sticky e = (s, e')" by fastforce
  then have o: "0 < e'" "e' < 0x7FFF" "out = \<lparr>e8_signif = s, e8_sign_exp = sign OR word_of_int e'\<rparr>"
    "flags' = flags OR ((if lo \<noteq> 0 \<or> sticky then kInexact else 0) OR (if rounds_up_pair hi lo sticky then kRoundedUp else 0))"
    using assms(1) by (auto simp: round_sum_alt exponent_in_range_def split: if_splits)
  note v = packed_value [OF assms(3) o(1,2) rounded_pair_value(1) [OF assms(2) p], folded o(3),
      unfolded rounded_pair_value(2) [OF assms(2) p]]
  note r = rounded_magnitude [OF assms(2) sign_of_cases [of sign], folded v(2)]
  show ?thesis unfolding correctly_rounded_def o(4) r(2,3) using v(1) r(1) by simp
qed

lemma round_sum_refuses:
  assumes "round_sum sign flags (hi, lo, sticky, e) = None" and "stands_for (hi, lo, sticky, e) x e"
    and "x86p_ext80_is_normal v"
  shows "\<not> rounds_to 64 (sign_of sign * (x * 2 powi (e - 16510))) (ext80_value v)"
proof
  assume a: "rounds_to 64 (sign_of sign * (x * 2 powi (e - 16510))) (ext80_value v)"
  obtain s e' where p: "rounded_pair hi lo sticky e = (s, e')" by fastforce
  note q = rounded_pair_value [OF assms(2) p]
  have out: "\<not> (0 < e' \<and> e' < 0x7FFF)"
    using assms(1) p by (auto simp: round_sum_alt exponent_in_range_def split: if_splits)
  have "ext80_value v = sign_of sign * (real (unat s) * 2 powi (e' - 16446))"
    unfolding q(2) by (rule rounds_to_unique [OF a rounded_magnitude(1) [OF assms(2) sign_of_cases [of sign]]]) simp
  then have "\<bar>ext80_value v\<bar> = real (unat s) * 2 powi (e' - 16446)"
    by (simp only: signed_magnitude [OF sign_of_cases] of_nat_0_le_iff mult_nonneg_nonneg zero_le_power_int zero_le_numeral)
  moreover have "\<bar>ext80_value v\<bar> = real (unat (e8_signif v)) * 2 powi (ext80_exponent v - 16446)"
  proof -
    have "ext80_sign v = 1 \<or> ext80_sign v = -1" by (simp add: ext80_sign_def)
    then show ?thesis
      by (simp only: normal_value [OF assms(3)] mult.assoc signed_magnitude of_nat_0_le_iff mult_nonneg_nonneg
          zero_le_power_int zero_le_numeral)
  qed
  moreover have range: "2 ^ (64 - 1) * 2 powi f \<le> real (unat (w :: u64)) * 2 powi f \<and> real (unat w) * 2 powi f < 2 ^ 64 * 2 powi f"
    if "2 ^ 63 \<le> unat w" for w f
  proof -
    have "real (2 ^ 63) \<le> real (unat w)" "real (unat w) < real (2 ^ 64)"
      using that unat_lt64 [of w] by (simp_all only: of_nat_le_iff of_nat_less_iff)
    then show ?thesis by simp
  qed
  ultimately have "e' - 16446 = ext80_exponent v - 16446"
    using range [OF q(1), of "e' - 16446"] range [of "e8_signif v" "ext80_exponent v - 16446"] assms(3)
    by (intro binade_unique [of 64 _ "\<bar>ext80_value v\<bar>"]) (simp_all add: normal_iff)
  then show False using out assms(3) by (simp add: normal_iff)
qed

end
