(* ===== verification/X86_Ext80_Convert.thy ===== *)
theory X86_Ext80_Convert
  imports X86_Ext80_Arith_Properties
begin

text \<open>
  Between the IEEE formats of four and eight bytes and the extended one: widening is exact for every
  number, and narrowing, where it answers, is the correctly rounded number of the target.
\<close>

section \<open>The IEEE formats\<close>

text \<open>The sign, the exponent field and the fraction of a \<open>width\<close>-byte number.\<close>

definition ieee_sign :: "nat \<Rightarrow> u64 \<Rightarrow> nat" where
  "ieee_sign width bits = unat bits div 2 ^ (8 * width - 1)"

definition ieee_exponent :: "nat \<Rightarrow> u64 \<Rightarrow> nat" where
  "ieee_exponent width bits =
     (let F = es_field (x86p_ext80_source width) in unat bits div 2 ^ F mod 2 ^ (8 * width - 1 - F))"

definition ieee_fraction :: "nat \<Rightarrow> u64 \<Rightarrow> nat" where
  "ieee_fraction width bits = unat bits mod 2 ^ es_field (x86p_ext80_source width)"

definition ieee_value :: "nat \<Rightarrow> u64 \<Rightarrow> real" where
  "ieee_value width bits =
     (let s = x86p_ext80_source width; F = es_field s; B = int (unat (es_bias s)); e = ieee_exponent width bits in
      (if ieee_sign width bits = 0 then 1 else -1) *
      (if e = 0 then real (ieee_fraction width bits) * 2 powi (1 - B - int F)
       else real (2 ^ F + ieee_fraction width bits) * 2 powi (int e - B - int F)))"

definition ieee_finite :: "nat \<Rightarrow> u64 \<Rightarrow> bool" where
  "ieee_finite width bits \<longleftrightarrow> ieee_exponent width bits \<noteq> unat (es_exp_max (x86p_ext80_source width))"

lemma source4: "x86p_ext80_source 4 = \<lparr>es_field = 23, es_exp_max = 0xFF, es_bias = 127\<rparr>"
  and source8: "x86p_ext80_source 8 = \<lparr>es_field = 52, es_exp_max = 0x7FF, es_bias = 1023\<rparr>"
  by (simp_all add: x86p_ext80_source_def)

section \<open>Widening\<close>

lemma below_field:
  assumes "unat v < 2 ^ (n + 1)" "n < 64"
  shows "v AND push_bit n 1 = (0 :: u64) \<longleftrightarrow> unat v < 2 ^ n"
proof -
  have "v AND push_bit n 1 = 0 \<longleftrightarrow> \<not> bit v n" using and_exp_eq_0_iff_not_bit [of v n] by simp
  also have "bit v n \<longleftrightarrow> bit (unat v) n" using assms(2) by (simp only: bit_unsigned_iff) simp
  also have "bit (unat v) n \<longleftrightarrow> odd (unat v div 2 ^ n)" by (rule bit_iff_odd)
  also have "\<dots> \<longleftrightarrow> \<not> unat v < 2 ^ n"
  proof -
    have "unat v div 2 ^ n < 2" using assms(1) by (simp add: less_mult_imp_div_less mult.commute)
    then have "unat v div 2 ^ n = 0 \<or> unat v div 2 ^ n = 1" by linarith
    then have "odd (unat v div 2 ^ n) \<longleftrightarrow> unat v div 2 ^ n \<noteq> 0" by auto
    then show ?thesis by (simp add: div_eq_0_iff)
  qed
  finally show ?thesis by simp
qed

lemma normalise_loop_some:
  assumes "2 ^ F \<le> unat v * 2 ^ k" "v \<noteq> 0" "unat v < 2 ^ (F + 1)" "F < 63"
  shows "\<exists>j. normalise_loop k F v b = Some (push_bit j v, b - int j) \<and> j \<le> k \<and> 2 ^ F \<le> unat v * 2 ^ j \<and> unat v * 2 ^ j < 2 ^ (F + 1)"
  using assms
proof (induction k arbitrary: v b)
  case 0
  then show ?case using below_field [of v F] by simp
next
  case (Suc k)
  show ?case
  proof (cases "unat v < 2 ^ F")
    case True
    have "(2 :: nat) ^ F \<le> 2 ^ 62" using Suc.prems(4) by (intro power_increasing) simp_all
    then have "unat v * 2 < 2 ^ 64" using True by simp
    then have u: "unat (push_bit 1 v) = unat v * 2" by (simp only: unat_push) simp
    moreover have "push_bit 1 v \<noteq> 0" using Suc.prems(2) u by (auto simp: unat_eq_0 [symmetric])
    ultimately obtain j where "normalise_loop k F (push_bit 1 v) (b - 1) = Some (push_bit j (push_bit 1 v), b - 1 - int j)" "j \<le> k"
        "2 ^ F \<le> unat v * 2 * 2 ^ j" "unat v * 2 * 2 ^ j < 2 ^ (F + 1)"
      using Suc.IH [of "push_bit 1 v" "b - 1"] Suc.prems(1,4) True by (auto simp: mult.assoc)
    then show ?thesis using True below_field [of v F] Suc.prems(3,4)
      by (intro exI [of _ "Suc j"]) (simp add: mult.assoc push_bit_push_bit)
  next
    case False
    then show ?thesis using Suc.prems(3,4) below_field [of v F] by (intro exI [of _ 0]) simp
  qed
qed

lemma ucast_of_int:
  assumes "0 \<le> k" "k < 2 ^ 32"
  shows "ucast (word_of_int k :: u32) = (word_of_int k :: u16)"
  using take_bit_int_eq_self [OF assms] assms(1) by (simp only: unsigned_of_int) (simp add: of_nat_nat)

lemma rebias:
  assumes "unat (b :: u32) \<le> 1023" "unat e \<le> 0x7FF"
  shows "(ucast (e - b + word_of_int X86P_EXT80_BIAS) :: u16) = word_of_int (int (unat e) - int (unat b) + 16383)"
proof -
  have "int (unat e) - int (unat b) + 16383 \<le> 18430" using assms by linarith
  then have "int (unat e) - int (unat b) + 16383 < 2 ^ 32" by (rule le_less_trans) simp
  moreover have "0 \<le> int (unat e) - int (unat b) + 16383" using assms by linarith
  moreover have "e - b + word_of_int X86P_EXT80_BIAS = word_of_int (int (unat e) - int (unat b) + 16383)"
    by (simp add: X86P_EXT80_BIAS_def)
  ultimately show ?thesis by (simp only: ucast_of_int)
qed

lemma scaled_back: "real (a * 2 ^ j) * 2 powi (c - int j) = real a * 2 powi c"
  by (simp add: power_int_diff)

text \<open>What the three fields of an operand widen to.\<close>

lemma widen_exact:
  assumes s: "s = x86p_ext80_source width" "width = 4 \<or> width = 8"
    and f: "sign = 0 \<or> sign = 1" "unat mant < 2 ^ es_field s" "unat expo < unat (es_exp_max s)"
  defines "F \<equiv> es_field s" and "B \<equiv> int (unat (es_bias s))"
  shows "\<exists>e. widen sign expo mant (es_field s) (es_exp_max s) (es_bias s) = Some e \<and>
     x86p_ext80_is_normal_or_zero e \<and> ext80_sign e = (if sign = 0 then 1 else -1) \<and>
     ext80_value e = (if sign = 0 then 1 else -1) *
       (if expo = 0 then real (unat mant) * 2 powi (1 - B - int F) else real (2 ^ F + unat mant) * 2 powi (int (unat expo) - B - int F))"
proof -
  have F: "1 \<le> F" "F \<le> 52" and B: "127 \<le> B" "B \<le> 1023" and M: "unat (es_exp_max s) \<le> 2047"
    using s by (auto simp: F_def B_def x86p_ext80_source_def)
  define g where "g = (if sign = 0 then 0 else 0x8000 :: u16)"
  have g: "(ucast (push_bit 15 sign) :: u16) = g" "g = 0 \<or> g = 0x8000" using f(1) by (auto simp: g_def)
  have gs: "ext80_sign \<lparr>e8_signif = v, e8_sign_exp = g OR word_of_int x\<rparr> = (if sign = 0 then 1 else -1)" if "0 \<le> x" "x \<le> 0x7FFF" for v x
    using packed(1) [OF g(2) that] f(1) by (simp add: ext80_sign_def g_def)
  have ge: "ext80_exponent \<lparr>e8_signif = v, e8_sign_exp = g OR word_of_int x\<rparr> = x" if "0 \<le> x" "x \<le> 0x7FFF" for v x
    unfolding ext80_exponent_def ext80.select_convs packed(2) [OF g(2) that] using that by simp
  have shifted: "unat (push_bit (63 - F) w) = unat w * 2 ^ (63 - F)" "2 ^ 63 \<le> unat (push_bit (63 - F) w)"
    if "2 ^ F \<le> unat w" "unat w < 2 ^ (F + 1)" for w :: u64
  proof -
    have p: "(2 :: nat) ^ F * 2 ^ (63 - F) = 2 ^ 63" using F by (simp flip: power_add)
    have "unat w * 2 ^ (63 - F) < 2 ^ (F + 1) * 2 ^ (63 - F)" using that(2) by (rule mult_strict_right_mono) simp
    also have "\<dots> = 2 ^ 64" using p by simp
    finally show a: "unat (push_bit (63 - F) w) = unat w * 2 ^ (63 - F)" by (simp only: unat_push) simp
    show "2 ^ 63 \<le> unat (push_bit (63 - F) w)" unfolding a p [symmetric] using that(1) by (rule mult_le_mono1)
  qed
  have result: "x86p_ext80_is_normal_or_zero e \<and> ext80_sign e = (if sign = 0 then 1 else -1) \<and>
      ext80_value e = (if sign = 0 then 1 else -1) * (real (unat w) * 2 powi (x - 16383 - int F))"
    if "e = \<lparr>e8_signif = push_bit (63 - F) w, e8_sign_exp = g OR word_of_int x\<rparr>" "2 ^ F \<le> unat w" "unat w < 2 ^ (F + 1)"
      "0 < x" "x < 0x7FFF" for e w x
  proof -
    have x: "0 \<le> x" "x \<le> 0x7FFF" "max 1 x = x" using that by simp_all
    note sh = shifted [OF that(2,3)]
    have n: "x86p_ext80_is_normal e" unfolding that(1) normal_iff ge [OF x(1,2)] using sh(2) that(4,5) by simp
    have "real (unat w * 2 ^ (63 - F)) * 2 powi (x - 16446) = real (unat w) * (2 powi int (63 - F) * 2 powi (x - 16446))"
      by simp
    also have "2 powi int (63 - F) * 2 powi (x - 16446) = (2 :: real) powi (x - 16383 - int F)"
    proof -
      have "int (63 - F) + (x - 16446) = x - 16383 - int F" using F by simp
      then show ?thesis by (simp only: powi_sum [symmetric])
    qed
    finally have "ext80_value e = (if sign = 0 then 1 else -1) * (real (unat w) * 2 powi (x - 16383 - int F))"
      unfolding ext80_value_def that(1) ge [OF x(1,2)] gs [OF x(1,2)] ext80.select_convs sh(1) x(3) by (simp only: mult.assoc)
    then show ?thesis using n gs [OF x(1,2)] that(1) by (simp add: x86p_ext80_is_normal_or_zero_def)
  qed
  consider "expo \<noteq> 0" | "expo = 0" "mant = 0" | "expo = 0" "mant \<noteq> 0" by blast
  then show ?thesis
  proof cases
    case 1
    have e0: "0 < unat expo" using 1 by (simp add: unat_gt_0)
    have m: "unat (mant OR push_bit F 1) = 2 ^ F + unat mant"
    proof -
      have "(2 :: nat) ^ F < 2 ^ 64" using F by (intro power_strict_increasing) simp_all
      then show ?thesis using unat_or_low [of mant F 1] f(2) by (simp add: F_def or.commute)
    qed
    define x where "x = int (unat expo) - B + 16383"
    have x: "0 < x" "x < 0x7FFF" using e0 f(3) M B unfolding x_def by linarith+
    have "unat (es_bias s) \<le> 1023" "unat expo \<le> 0x7FF" using B f(3) M unfolding B_def by linarith+
    then have r: "ucast (expo - es_bias s + word_of_int X86P_EXT80_BIAS) = (word_of_int x :: u16)" unfolding x_def B_def by (rule rebias)
    define e where "e = \<lparr>e8_signif = push_bit (63 - F) (mant OR push_bit F 1), e8_sign_exp = g OR word_of_int x\<rparr>"
    have "expo \<noteq> es_exp_max s" using f(3) by auto
    then have w: "widen sign expo mant (es_field s) (es_exp_max s) (es_bias s) = Some e"
      using 1 unfolding widen_def Let_def r g(1) e_def F_def by simp
    have "x - 16383 - int F = int (unat expo) - B - int F" by (simp add: x_def)
    then show ?thesis using result [OF e_def _ _ x] f(2) w 1 unfolding m F_def [symmetric] by auto
  next
    case 2
    define e where "e = \<lparr>e8_signif = 0, e8_sign_exp = g OR word_of_int 0\<rparr>"
    have "es_exp_max s \<noteq> 0" using f(3) by auto
    then have w: "widen sign expo mant (es_field s) (es_exp_max s) (es_bias s) = Some e"
      using 2 unfolding widen_def Let_def g(1) e_def by simp
    have z: "x86p_ext80_is_zero e" unfolding x86p_ext80_is_zero_def e_def using g(2) by auto
    show ?thesis using w z zero_value [OF z] gs [of 0 0] 2 by (auto simp: e_def x86p_ext80_is_normal_or_zero_def)
  next
    case 3
    have m0: "0 < unat mant" using 3 by (simp add: unat_gt_0)
    have "(2 :: nat) ^ F \<le> 2 ^ 64" using F by (intro power_increasing) simp_all
    also have "\<dots> \<le> unat mant * 2 ^ 64" using m0 by simp
    finally obtain j where j: "normalise_loop 64 F mant (X86P_EXT80_BIAS + 1 - B) = Some (push_bit j mant, X86P_EXT80_BIAS + 1 - B - int j)"
        "2 ^ F \<le> unat mant * 2 ^ j" "unat mant * 2 ^ j < 2 ^ (F + 1)"
      using normalise_loop_some [of F mant 64 "X86P_EXT80_BIAS + 1 - B"] 3(2) f(2) F by (auto simp: F_def)
    have jF: "j \<le> F"
    proof (rule ccontr)
      assume "\<not> j \<le> F"
      then have "1 * 2 ^ (F + 1) \<le> unat mant * 2 ^ j" using m0 by (intro mult_le_mono power_increasing) simp_all
      then show False using j(3) by simp
    qed
    have "(2 :: nat) ^ (F + 1) \<le> 2 ^ 64" using F by (intro power_increasing) simp_all
    then have u: "unat (push_bit j mant) = unat mant * 2 ^ j" using j(3) by (simp only: unat_push) simp
    define x where "x = X86P_EXT80_BIAS + 1 - B - int j"
    have x: "0 < x" "x < 0x7FFF" using B F jF unfolding x_def X86P_EXT80_BIAS_def by linarith+
    define e where "e = \<lparr>e8_signif = push_bit (63 - F) (push_bit j mant), e8_sign_exp = g OR word_of_int x\<rparr>"
    have "es_exp_max s \<noteq> 0" using f(3) by auto
    then have w: "widen sign expo mant (es_field s) (es_exp_max s) (es_bias s) = Some e"
      using 3 j(1) unfolding widen_def Let_def g(1) e_def F_def x_def B_def by simp
    have "x - 16383 - int F = (1 - B - int F) - int j" by (simp add: x_def X86P_EXT80_BIAS_def)
    then have v: "real (unat (push_bit j mant)) * 2 powi (x - 16383 - int F) = real (unat mant) * 2 powi (1 - B - int F)"
      unfolding u by (simp only: scaled_back)
    show ?thesis using result [OF e_def _ _ x] j(2,3) w 3 unfolding u [symmetric] v by auto
  qed
qed

text \<open>The three extractions are the fields of the operand.\<close>

definition ieee_operand :: "nat \<Rightarrow> u64 \<Rightarrow> bool" where
  "ieee_operand width bits \<longleftrightarrow> width = 8 \<or> width = 4 \<and> unat bits < 2 ^ 32"

lemma ieee_extracted:
  assumes "ieee_operand width bits" and s: "s = x86p_ext80_source width"
  shows "unat (drop_bit (width * 8 - 1) bits) = ieee_sign width bits" "ieee_sign width bits < 2"
    "unat (ucast (drop_bit (es_field s) bits AND ucast (es_exp_max s)) :: u32) = ieee_exponent width bits"
    "ieee_exponent width bits \<le> unat (es_exp_max s)"
    "unat (bits AND (push_bit (es_field s) 1 - 1)) = ieee_fraction width bits" "ieee_fraction width bits < 2 ^ es_field s"
proof -
  show "unat (drop_bit (width * 8 - 1) bits) = ieee_sign width bits"
    by (simp add: ieee_sign_def unat_drop mult.commute)
  show "ieee_sign width bits < 2"
    using assms(1) unat_lt64 [of bits] by (auto simp: ieee_operand_def ieee_sign_def less_mult_imp_div_less)
  have m: "ucast (es_exp_max s) = (push_bit (8 * width - 1 - es_field s) 1 - 1 :: u64)"
      "unat (es_exp_max s) = 2 ^ (8 * width - 1 - es_field s) - 1" "8 * width - 1 - es_field s \<le> 11"
    using assms by (auto simp: ieee_operand_def source4 source8)
  have x: "unat (drop_bit (es_field s) bits AND ucast (es_exp_max s)) = ieee_exponent width bits"
    unfolding m(1) unat_low unat_drop by (simp only: ieee_exponent_def Let_def s)
  have "ieee_exponent width bits < 2 ^ (8 * width - 1 - es_field s)"
    unfolding ieee_exponent_def Let_def s by (rule mod_less_divisor) simp
  then show l: "ieee_exponent width bits \<le> unat (es_exp_max s)" unfolding m(2) by simp
  have "(2 :: nat) ^ (8 * width - 1 - es_field s) \<le> 2 ^ 11" using m(3) by (rule power_increasing) simp
  then have "unat (es_exp_max s) < 2 ^ 32" unfolding m(2) by simp
  then have "unat (drop_bit (es_field s) bits AND ucast (es_exp_max s)) < 2 ^ 32" using l unfolding x by (rule le_less_trans [rotated])
  then show "unat (ucast (drop_bit (es_field s) bits AND ucast (es_exp_max s)) :: u32) = ieee_exponent width bits"
    unfolding x [symmetric] by (simp only: unsigned_ucast_eq) (simp add: take_bit_nat_eq_self)
  show "unat (bits AND (push_bit (es_field s) 1 - 1)) = ieee_fraction width bits"
    unfolding unat_low by (simp only: ieee_fraction_def s)
  show "ieee_fraction width bits < 2 ^ es_field s" unfolding ieee_fraction_def s by (rule mod_less_divisor) simp
qed

lemma widen_bits_exact:
  assumes "ieee_operand width bits" and "ieee_finite width bits"
  shows "\<exists>e. widen_bits bits width = Some e \<and> x86p_ext80_is_normal_or_zero e \<and>
     ext80_sign e = (if ieee_sign width bits = 0 then 1 else -1) \<and> ext80_value e = ieee_value width bits"
proof -
  define s where "s = x86p_ext80_source width"
  note x = ieee_extracted [OF assms(1) s_def]
  define sg where "sg = drop_bit (width * 8 - 1) bits"
  define ex where "ex = (ucast (drop_bit (es_field s) bits AND ucast (es_exp_max s)) :: u32)"
  define mt where "mt = bits AND (push_bit (es_field s) 1 - 1)"
  note x = x [folded sg_def ex_def mt_def]
  have w: "width = 4 \<or> width = 8" using assms(1) by (auto simp: ieee_operand_def)
  have g: "sg = 0 \<longleftrightarrow> ieee_sign width bits = 0" "sg = 0 \<or> sg = 1"
    using x(1,2) by (auto simp: word_unat_eq_iff less_2_cases_iff)
  have e: "ex = 0 \<longleftrightarrow> ieee_exponent width bits = 0" using x(3) by (auto simp: word_unat_eq_iff)
  have l: "unat ex < unat (es_exp_max s)" using assms(2) x(3,4) unfolding ieee_finite_def s_def by linarith
  have d: "widen_bits bits width = widen sg ex mt (es_field s) (es_exp_max s) (es_bias s)"
    unfolding widen_bits_def Let_def s_def [symmetric] sg_def ex_def mt_def ..
  show ?thesis
    using widen_exact [OF s_def w g(2) _ l, of mt] x(6) unfolding x(5) d g(1) e x(3) ieee_value_def Let_def s_def [symmetric] by simp
qed

end
