(* ===== verification/X86_Ext80_Narrow.thy ===== *)
theory X86_Ext80_Narrow
  imports X86_Ext80_Convert
begin

text \<open>
  Narrowing to the IEEE formats: the rounding of \<open>x86p_ext80_narrow_nearest\<close> is to the nearest number of
  the target's precision, ties to even, and what was widened narrows back to itself.
\<close>

section \<open>The rounded significand\<close>

text \<open>The significand \<open>s\<close> rounded at its last \<open>k\<close> bits, as an integer of the target's precision.\<close>

definition narrowed :: "nat \<Rightarrow> nat \<Rightarrow> nat" where
  "narrowed k s =
     (let q = s div 2 ^ k; r = s mod 2 ^ k; h = 2 ^ (k - 1) in if h < r \<or> (r = h \<and> odd q) then q + 1 else q)"

lemma narrowed_near:
  assumes "0 < k"
  shows "2 * \<bar>real (narrowed k s) * 2 ^ k - real s\<bar> \<le> 2 ^ k"
    "2 * \<bar>real (narrowed k s) * 2 ^ k - real s\<bar> = 2 ^ k \<Longrightarrow> even (narrowed k s)"
proof -
  define q r h where "q = s div 2 ^ k" and "r = s mod 2 ^ k" and "h = (2 :: nat) ^ (k - 1)"
  have D: "(2 :: nat) ^ k = 2 * h" "(2 :: real) ^ k = 2 * real h" using assms by (cases k; simp add: h_def)+
  have s: "real s = real q * (2 * real h) + real r"
  proof -
    have "s = q * (2 * h) + r" unfolding q_def r_def D(1) [symmetric] by (rule div_mult_mod_eq [symmetric])
    then show ?thesis by simp
  qed
  have r: "r < 2 * h" unfolding r_def D(1) [symmetric] by simp
  have m: "narrowed k s = (if h < r \<or> (r = h \<and> odd q) then q + 1 else q)"
    by (simp add: narrowed_def Let_def q_def r_def h_def)
  have rr: "real r < 2 * real h" using r by linarith
  show "2 * \<bar>real (narrowed k s) * 2 ^ k - real s\<bar> \<le> 2 ^ k"
    unfolding m s D(2) using rr by (auto simp: algebra_simps not_less)
  assume a: "2 * \<bar>real (narrowed k s) * 2 ^ k - real s\<bar> = 2 ^ k"
  show "even (narrowed k s)"
  proof (cases "h < r \<or> (r = h \<and> odd q)")
    case True
    then have "real (narrowed k s) * 2 ^ k - real s = 2 * real h - real r" unfolding m s D(2) by (simp add: algebra_simps)
    then have "r = h" using a rr unfolding D(2) by simp
    then show ?thesis using True m by simp
  next
    case False
    then have "real (narrowed k s) * 2 ^ k - real s = - real r" unfolding m if_not_P [OF False] s D(2) by simp
    then have "r = h" using a unfolding D(2) by simp
    then show ?thesis using False m by simp
  qed
qed

text \<open>How the code computes it: add half a unit, and clear the last bit kept when exactly half was dropped.\<close>

lemma carried_nat:
  fixes s :: nat
  assumes "0 < k" "k < 63" "2 ^ 63 \<le> s" "s < 2 ^ 64"
  shows "2 ^ 64 \<le> s + 2 ^ (k - 1) \<longleftrightarrow> narrowed k s = 2 ^ (64 - k)"
    "2 ^ (63 - k) \<le> narrowed k s" "narrowed k s \<le> 2 ^ (64 - k)"
    "narrowed k s = (let n = (s + 2 ^ (k - 1)) div 2 ^ k in if s mod 2 ^ k = 2 ^ (k - 1) then 2 * (n div 2) else n)"
proof -
  define q r h P where "q = s div 2 ^ k" and "r = s mod 2 ^ k" and "h = (2 :: nat) ^ (k - 1)" and "P = (2 :: nat) ^ (63 - k)"
  have D: "(2 :: nat) ^ k = 2 * h" using assms(1) by (cases k) (simp_all add: h_def)
  have h0: "0 < h" by (simp add: h_def)
  have p63: "(2 :: nat) ^ 63 = P * (2 * h)" unfolding P_def D [symmetric] using assms(2) by (simp flip: power_add)
  have p64: "(2 :: nat) ^ 64 = 2 * P * (2 * h)" using p63 by simp
  have P2: "(2 :: nat) ^ (64 - k) = 2 * P" using assms(2) by (simp add: P_def Suc_diff_le flip: power_Suc)
  have Pe: "even P" using assms(2) by (simp add: P_def)
  have s: "s = q * (2 * h) + r" unfolding q_def r_def D [symmetric] by (rule div_mult_mod_eq [symmetric])
  have r: "r < 2 * h" unfolding r_def D [symmetric] by simp
  have m: "narrowed k s = (if h < r \<or> (r = h \<and> odd q) then q + 1 else q)"
    by (simp add: narrowed_def Let_def q_def r_def h_def)
  have q1: "P \<le> q"
  proof -
    have "P = 2 ^ 63 div 2 ^ k" unfolding p63 D using h0 by simp
    also have "\<dots> \<le> q" unfolding q_def using assms(3) by (rule div_le_mono)
    finally show ?thesis .
  qed
  have q2: "q < 2 * P"
  proof -
    have "s < 2 * P * 2 ^ k" using assms(4) unfolding p64 D .
    then show ?thesis unfolding q_def by (rule less_mult_imp_div_less)
  qed
  show "2 ^ (63 - k) \<le> narrowed k s" using q1 unfolding m P_def [symmetric] by auto
  show "narrowed k s \<le> 2 ^ (64 - k)" using q2 unfolding m P2 by auto
  show "2 ^ 64 \<le> s + 2 ^ (k - 1) \<longleftrightarrow> narrowed k s = 2 ^ (64 - k)"
  proof (cases "q + 1 = 2 * P")
    case True
    then have "odd q" by presburger
    have "2 ^ 64 = q * (2 * h) + 2 * h" unfolding p64 True [symmetric] by simp
    then have "2 ^ 64 \<le> s + h \<longleftrightarrow> h \<le> r" using s by linarith
    moreover have "narrowed k s = 2 * P \<longleftrightarrow> h \<le> r" unfolding m using \<open>odd q\<close> True by auto
    ultimately show ?thesis unfolding P2 h_def by blast
  next
    case False
    then have "q + 2 \<le> 2 * P" using q2 by linarith
    then have "(q + 2) * (2 * h) \<le> 2 ^ 64" unfolding p64 by (rule mult_le_mono1)
    then have "\<not> 2 ^ 64 \<le> s + h" using s r by (simp add: algebra_simps)
    moreover have "narrowed k s \<noteq> 2 * P" unfolding m using \<open>q + 2 \<le> 2 * P\<close> by auto
    ultimately show ?thesis unfolding P2 h_def by blast
  qed
  have n: "(s + h) div 2 ^ k = (if h \<le> r then q + 1 else q)"
  proof (cases "h \<le> r")
    case True
    have "s + h = (r - h) + (q + 1) * (2 * h)" using True s by simp
    also have "\<dots> div (2 * h) = (q + 1) + (r - h) div (2 * h)" using h0 by (intro div_mult_self1) simp
    finally show ?thesis using True r unfolding D by simp
  next
    case False
    have "s + h = (r + h) + q * (2 * h)" using s by simp
    also have "\<dots> div (2 * h) = q + (r + h) div (2 * h)" using h0 by (intro div_mult_self1) simp
    finally show ?thesis using False unfolding D by simp
  qed
  show "narrowed k s = (let n = (s + 2 ^ (k - 1)) div 2 ^ k in if s mod 2 ^ k = 2 ^ (k - 1) then 2 * (n div 2) else n)"
    unfolding h_def [symmetric] n r_def [symmetric] Let_def m by (auto elim!: oddE evenE)
qed

lemma clear_low: "unat (w AND NOT 1 :: u64) = 2 * (unat w div 2)"
proof -
  have "w AND NOT (mask n) = push_bit n (drop_bit n w)" for n by (rule bit_eqI) (auto simp: bit_simps)
  moreover have "mask 1 = (1 :: u64)" by simp
  ultimately have "w AND NOT 1 = push_bit 1 (drop_bit 1 w)" by metis
  then have "unat (w AND NOT 1) = unat w div 2 ^ 1 * 2 ^ 1 mod 2 ^ 64" by (simp only: unat_push unat_drop)
  moreover have "unat w div 2 * 2 < 2 ^ 64" using unat_lt64 [of w] by linarith
  ultimately show ?thesis by simp
qed

lemma wrapped: "m \<le> x + p \<Longrightarrow> p < m \<Longrightarrow> x < m \<Longrightarrow> (x + p) mod m < (x :: nat)"
  using le_mod_geq [of m "x + p"] mod_less [of "x + p - m" m] by linarith

lemma narrowed_word:
  fixes v :: u64
  assumes "0 < k" "k < 63" "2 ^ 63 \<le> unat v"
  defines "rounded \<equiv> v + push_bit (k - 1) 1"
  defines "signif \<equiv> (if v AND (push_bit k 1 - 1) = push_bit (k - 1) 1 then rounded AND NOT (push_bit k 1) else rounded)"
  shows "rounded < v \<longleftrightarrow> narrowed k (unat v) = 2 ^ (64 - k)"
    "\<not> rounded < v \<Longrightarrow> unat (drop_bit k signif) = narrowed k (unat v)"
proof -
  note c = carried_nat [OF assms(1-3) unat_lt64]
  have h: "unat (push_bit (k - 1) 1 :: u64) = 2 ^ (k - 1)" "(2 :: nat) ^ (k - 1) < 2 ^ 63"
  proof -
    show l: "(2 :: nat) ^ (k - 1) < 2 ^ 63" using assms(1,2) by (intro power_strict_increasing) simp_all
    then show "unat (push_bit (k - 1) 1 :: u64) = 2 ^ (k - 1)" by (simp only: unat_push) simp
  qed
  have r: "unat rounded = (unat v + 2 ^ (k - 1)) mod 2 ^ 64" unfolding rounded_def unat_add64 h(1) ..
  have w: "rounded < v \<longleftrightarrow> 2 ^ 64 \<le> unat v + 2 ^ (k - 1)"
  proof (cases "2 ^ 64 \<le> unat v + 2 ^ (k - 1)")
    case True
    have "(2 :: nat) ^ (k - 1) < 2 ^ 64" using h(2) by simp
    then have "unat rounded < unat v" using wrapped [OF True _ unat_lt64] r by simp
    then show ?thesis using True by (simp add: word_less_nat_alt)
  next
    case False
    then show ?thesis using r by (simp add: word_less_nat_alt)
  qed
  then show "rounded < v \<longleftrightarrow> narrowed k (unat v) = 2 ^ (64 - k)" using c(1) by blast
  assume "\<not> rounded < v"
  then have r: "unat rounded = unat v + 2 ^ (k - 1)" using w r by (simp add: not_le)
  have "drop_bit k (rounded AND NOT (push_bit k 1)) = drop_bit k rounded AND NOT 1"
    using assms(2) by (intro bit_eqI) (auto simp: bit_simps dest: bit_imp_le_length)
  then have "unat (drop_bit k (rounded AND NOT (push_bit k 1))) = 2 * ((unat v + 2 ^ (k - 1)) div 2 ^ k div 2)"
    by (simp only: clear_low unat_drop r)
  moreover have "unat (drop_bit k rounded) = (unat v + 2 ^ (k - 1)) div 2 ^ k" by (simp only: unat_drop r)
  moreover have "v AND (push_bit k 1 - 1) = push_bit (k - 1) 1 \<longleftrightarrow> unat v mod 2 ^ k = 2 ^ (k - 1)"
    unfolding word_unat_eq_iff unat_low h(1) ..
  ultimately show "unat (drop_bit k signif) = narrowed k (unat v)" unfolding c(4) signif_def Let_def by (simp only: if_distrib split: if_split) simp
qed

section \<open>The packed result\<close>

lemma packed_nat:
  fixes sg ex fr F E :: nat
  assumes "sg < 2" "ex < 2 ^ E" "fr < 2 ^ F"
  defines "n \<equiv> (sg * 2 ^ E + ex) * 2 ^ F + fr"
  shows "n mod 2 ^ F = fr" "n div 2 ^ F mod 2 ^ E = ex" "n div 2 ^ (F + E) = sg" "n < 2 ^ (F + E + 1)"
proof -
  show "n mod 2 ^ F = fr" using assms(3) by (simp add: n_def)
  have d: "n div 2 ^ F = sg * 2 ^ E + ex" using assms(3) by (simp add: n_def)
  show "n div 2 ^ F mod 2 ^ E = ex" unfolding d using assms(2) by simp
  show "n div 2 ^ (F + E) = sg" unfolding power_add div_mult2_eq d using assms(2) by simp
  then have "n div 2 ^ (F + E) < 2" using assms(1) by simp
  then have "n < 2 * 2 ^ (F + E)" by (simp add: div_less_iff_less_mult)
  then show "n < 2 ^ (F + E + 1)" by simp
qed

lemma ieee_packed:
  fixes sg ex fr :: u64
  assumes w: "width = 4 \<or> width = 8" and s: "s = x86p_ext80_source width"
    and f: "unat sg < 2" "unat ex < 2 ^ (8 * width - 1 - es_field s)" "unat fr < 2 ^ es_field s"
  defines "bits \<equiv> push_bit (width * 8 - 1) sg OR push_bit (es_field s) ex OR fr"
  shows "ieee_operand width bits" "ieee_sign width bits = unat sg" "ieee_exponent width bits = unat ex"
    "ieee_fraction width bits = unat fr"
proof -
  define F E where "F = es_field s" and "E = 8 * width - 1 - F"
  have FE: "F + E = 8 * width - 1" "F + E + 1 \<le> 64" "width = 4 \<Longrightarrow> F + E + 1 = 32"
    using w by (auto simp: F_def E_def s source4 source8)
  have f: "unat sg < 2" "unat ex < 2 ^ E" "unat fr < 2 ^ F" using f by (simp_all add: E_def F_def)
  note n = packed_nat [OF f]
  let ?n = "(unat sg * 2 ^ E + unat ex) * 2 ^ F + unat fr"
  have n64: "?n < 2 ^ 64"
  proof -
    have "(2 :: nat) ^ (F + E + 1) \<le> 2 ^ 64" using FE(2) by (rule power_increasing) simp
    then show ?thesis using n(4) by linarith
  qed
  have i: "unat sg * 2 ^ E + unat ex < 2 ^ 64" "unat sg * 2 ^ E < 2 ^ 64" "(unat sg * 2 ^ E + unat ex) * 2 ^ F < 2 ^ 64"
  proof -
    show a: "(unat sg * 2 ^ E + unat ex) * 2 ^ F < 2 ^ 64" using n64 by linarith
    have "(unat sg * 2 ^ E + unat ex) * 1 \<le> (unat sg * 2 ^ E + unat ex) * 2 ^ F" by (rule mult_le_mono2) simp
    from le_less_trans [OF this a] show b: "unat sg * 2 ^ E + unat ex < 2 ^ 64" by simp
    then show "unat sg * 2 ^ E < 2 ^ 64" by linarith
  qed
  have "bits = push_bit F (push_bit E sg OR ex) OR fr"
    using FE(1) unfolding bits_def F_def [symmetric] by (simp add: push_bit_or push_bit_push_bit mult.commute or.assoc)
  moreover have "unat (push_bit E sg OR ex) = unat sg * 2 ^ E + unat ex"
    unfolding unat_or_low [OF f(2)] using i(2) by simp
  ultimately have u: "unat bits = ?n" using unat_or_low [OF f(3), of "push_bit E sg OR ex"] i(3) by simp
  show "ieee_fraction width bits = unat fr" unfolding ieee_fraction_def s [symmetric] F_def [symmetric] u by (rule n(1))
  show "ieee_exponent width bits = unat ex" unfolding ieee_exponent_def Let_def s [symmetric] F_def [symmetric] E_def [symmetric] u by (rule n(2))
  show "ieee_sign width bits = unat sg" unfolding ieee_sign_def FE(1) [symmetric] u by (rule n(3))
  show "ieee_operand width bits" using w n(4) FE(3) unfolding ieee_operand_def u by auto
qed

section \<open>The conversion\<close>

lemma sign_word:
  "unat (ucast (drop_bit 15 (w :: u16)) AND 1 :: u64) = (if w AND 0x8000 = 0 then 0 else 1)"
proof -
  have "w AND 0x8000 = 0 \<longleftrightarrow> \<not> bit w 15" using and_exp_eq_0_iff_not_bit [of w 15] by simp
  moreover have "ucast (drop_bit 15 w) AND 1 = (if bit w 15 then 1 else 0 :: u64)"
  proof (rule bit_eqI)
    fix n
    show "bit (ucast (drop_bit 15 w) AND 1 :: u64) n \<longleftrightarrow> bit (if bit w 15 then 1 else 0 :: u64) n"
      by (cases n) (auto simp: bit_simps)
  qed
  ultimately show ?thesis by simp
qed

definition narrow_exponent :: "nat \<Rightarrow> ext80 \<Rightarrow> int" where
  "narrow_exponent width v = ext80_exponent v - 16383 + int (unat (es_bias (x86p_ext80_source width)))"

lemma int_is: "int n = 0 \<longleftrightarrow> n = 0" "int n = 0x7FFF \<longleftrightarrow> n = 0x7FFF"
  by auto

lemma exponent_range: "0 \<le> ext80_exponent v" "ext80_exponent v \<le> 0x7FFF"
  using exponent_mask [of "e8_sign_exp v"] unfolding ext80_exponent_def by linarith+

text \<open>The answer for a number whose exponent is a normal one of the target.\<close>

lemma narrow_alt:
  assumes "width = 4 \<or> width = 8" and s: "s = x86p_ext80_source width" and "\<not> x86p_ext80_is_zero v"
  defines "k \<equiv> 63 - es_field s"
  defines "rounded \<equiv> e8_signif v + push_bit (k - 1) 1"
  defines "signif \<equiv> (if e8_signif v AND (push_bit k 1 - 1) = push_bit (k - 1) 1 then rounded AND NOT (push_bit k 1) else rounded)"
  defines "carried \<equiv> rounded < e8_signif v"
  shows "x86p_ext80_narrow_nearest v width =
     (let biased = narrow_exponent width v in
      if x86p_ext80_is_normal v \<and> 1 \<le> biased \<and> biased \<le> int (unat (es_exp_max s)) - 1 \<and>
         \<not> (carried \<and> int (unat (es_exp_max s)) - 1 < biased + 1)
      then Some (push_bit (width * 8 - 1) (ucast (drop_bit 15 (e8_sign_exp v)) AND 1) OR
             push_bit (es_field s) (word_of_int (if carried then biased + 1 else biased)) OR
             (drop_bit k (if carried then EXT80_INTEGER_BIT else signif) AND (push_bit (es_field s) 1 - 1)))
      else None)"
proof -
  have F: "es_field s \<noteq> 0" using assms(1) by (auto simp: s source4 source8)
  have e: "e8_sign_exp v AND EXT80_EXP_MAX = 0 \<longleftrightarrow> ext80_exponent v = 0" "e8_sign_exp v AND EXT80_EXP_MAX = EXT80_EXP_MAX \<longleftrightarrow> ext80_exponent v = 0x7FFF"
    unfolding ext80_exponent_def EXT80_EXP_MAX_def word_unat_eq_iff int_is by simp_all
  have z: "\<not> (ext80_exponent v = 0 \<and> e8_signif v = 0)"
    using assms(3) unfolding ext80_exponent_def int_is x86p_ext80_is_zero_def word_unat_eq_iff by simp
  have n: "ext80_exponent v = 0 \<or> ext80_exponent v = 0x7FFF \<or> e8_signif v AND EXT80_INTEGER_BIT = 0 \<longleftrightarrow> \<not> x86p_ext80_is_normal v"
    using exponent_range [of v] unfolding normal_iff EXT80_INTEGER_BIT_def integer_bit by auto
  have b: "int (unat (e8_sign_exp v AND EXT80_EXP_MAX)) - X86P_EXT80_BIAS + int (unat (es_bias s)) = narrow_exponent width v"
    by (simp add: narrow_exponent_def s ext80_exponent_def X86P_EXT80_BIAS_def EXT80_EXP_MAX_def)
  show ?thesis
    unfolding x86p_ext80_narrow_nearest_def Let_def s [symmetric] e b n k_def [symmetric]
      rounded_def [symmetric] signif_def [symmetric] carried_def [symmetric]
    using F z by (auto simp: not_less)
qed

lemma fraction_part: "2 ^ F \<le> m \<Longrightarrow> m < 2 ^ (F + 1) \<Longrightarrow> m mod 2 ^ F = m - 2 ^ F" for m :: nat
  by (simp add: le_mod_geq)

lemma small_word: "0 \<le> x \<Longrightarrow> x \<le> 0x7FF \<Longrightarrow> unat (word_of_int x :: u64) = nat x"
  by (simp add: unat_eq_nat_uint uint_word_of_int_eq take_bit_int_eq_self)

lemma narrow_normal:
  assumes "width = 4 \<or> width = 8" and s: "s = x86p_ext80_source width" and "\<not> x86p_ext80_is_zero v"
    and "x86p_ext80_narrow_nearest v width = Some bits"
  defines "F \<equiv> es_field s"
  shows "x86p_ext80_is_normal v" "ieee_operand width bits" "ieee_sign width bits = (if e8_sign_exp v AND 0x8000 = 0 then 0 else 1)"
    "0 < ieee_exponent width bits" "ieee_exponent width bits < unat (es_exp_max s)"
    "real (2 ^ F + ieee_fraction width bits) * 2 powi (int (ieee_exponent width bits) - int (unat (es_bias s)) - int F) =
     real (narrowed (63 - F) (unat (e8_signif v))) * 2 powi (ext80_exponent v - 16383 - int F)"
proof -
  define k where "k = 63 - F"
  define rounded where "rounded = e8_signif v + push_bit (k - 1) 1"
  define carried where "carried = (rounded < e8_signif v)"
  define signif where "signif = (if carried then EXT80_INTEGER_BIT
     else if e8_signif v AND (push_bit k 1 - 1) = push_bit (k - 1) 1 then rounded AND NOT (push_bit k 1) else rounded)"
  define biased where "biased = (if carried then narrow_exponent width v + 1 else narrow_exponent width v)"
  define M where "M = int (unat (es_exp_max s))"
  have F: "1 \<le> F" "F \<le> 52" "k + F = 63" "0 < k" "k < 63" and M: "M \<le> 2047" "unat (es_exp_max s) < 2 ^ (8 * width - 1 - F)"
    using assms(1) by (auto simp: F_def k_def M_def s source4 source8)
  note alt = narrow_alt [OF assms(1-3), folded F_def, folded k_def, folded rounded_def, folded carried_def M_def]
  show n: "x86p_ext80_is_normal v" using assms(4) unfolding alt Let_def by (simp split: if_splits)
  have b: "1 \<le> biased" "biased \<le> M - 1" using assms(4) unfolding alt Let_def biased_def by (auto split: if_splits)
  have o: "bits = push_bit (width * 8 - 1) (ucast (drop_bit 15 (e8_sign_exp v)) AND 1) OR
      push_bit F (word_of_int biased) OR (drop_bit k signif AND (push_bit F 1 - 1))"
    using assms(4) unfolding alt Let_def biased_def signif_def by (auto split: if_splits)
  have u: "unat (word_of_int biased :: u64) = nat biased" using b M(1) by (intro small_word) linarith+
  have f1: "unat (ucast (drop_bit 15 (e8_sign_exp v)) AND 1 :: u64) < 2" unfolding sign_word by simp
  have f2: "unat (word_of_int biased :: u64) < 2 ^ (8 * width - 1 - es_field s)"
    unfolding u F_def [symmetric] using b M(2) unfolding M_def by linarith
  have f3: "unat (drop_bit k signif AND (push_bit F 1 - 1)) < 2 ^ es_field s" unfolding unat_low F_def by simp
  note p = ieee_packed [OF assms(1) s f1 f2 f3, folded F_def, folded o]
  show "ieee_operand width bits" by (rule p(1))
  show "ieee_sign width bits = (if e8_sign_exp v AND 0x8000 = 0 then 0 else 1)" unfolding p(2) by (rule sign_word)
  show "0 < ieee_exponent width bits" unfolding p(3) u using b(1) by simp
  show "ieee_exponent width bits < unat (es_exp_max s)" unfolding p(3) u using b unfolding M_def by linarith
  have s63: "2 ^ 63 \<le> unat (e8_signif v)" using n by (simp add: normal_iff)
  note nw = narrowed_word [OF F(4,5) s63, folded rounded_def, folded carried_def]
  note c = carried_nat [OF F(4,5) s63 unat_lt64]
  have Fk: "63 - k = F" "64 - k = F + 1" using F(3) by linarith+
  define m where "m = unat (drop_bit k signif)"
  have x: "int (nat biased) - int (unat (es_bias s)) - int F = (if carried then 1 + (ext80_exponent v - 16383 - int F) else ext80_exponent v - 16383 - int F)"
    using b(1) by (simp add: biased_def narrow_exponent_def s)
  have m: "2 ^ F \<le> m" "m < 2 ^ (F + 1)"
    "real m * 2 powi (int (nat biased) - int (unat (es_bias s)) - int F) = real (narrowed k (unat (e8_signif v))) * 2 powi (ext80_exponent v - 16383 - int F)"
  proof -
    have all: "2 ^ F \<le> m \<and> m < 2 ^ (F + 1) \<and> real m * 2 powi (int (nat biased) - int (unat (es_bias s)) - int F) =
        real (narrowed k (unat (e8_signif v))) * 2 powi (ext80_exponent v - 16383 - int F)"
    proof (cases carried)
      case True
      have "m = 2 ^ 63 div 2 ^ k" unfolding m_def signif_def unat_drop if_P [OF True] EXT80_INTEGER_BIT_def by simp
      also have "\<dots> = 2 ^ F"
      proof -
        have t: "(2 :: nat) ^ 63 = 2 ^ F * 2 ^ k" unfolding F(3) [symmetric] by (simp add: power_add)
        show ?thesis unfolding t by (rule nonzero_mult_div_cancel_right) simp
      qed
      finally have m: "m = 2 ^ F" .
      have "real (narrowed k (unat (e8_signif v))) = 2 ^ F * 2" using nw(1) True unfolding Fk by simp
      then show ?thesis unfolding x if_P [OF True] powi_sum m by simp
    next
      case False
      have m: "m = narrowed k (unat (e8_signif v))"
        using nw(2) [OF False] unfolding m_def signif_def if_not_P [OF False] .
      have "m \<noteq> 2 ^ (F + 1)" using nw(1) False unfolding m Fk by simp
      then show ?thesis using c(2,3) unfolding x if_not_P [OF False] Fk m by linarith
    qed
    then show "2 ^ F \<le> m" "m < 2 ^ (F + 1)"
      "real m * 2 powi (int (nat biased) - int (unat (es_bias s)) - int F) = real (narrowed k (unat (e8_signif v))) * 2 powi (ext80_exponent v - 16383 - int F)"
      by blast+
  qed
  have "2 ^ F + ieee_fraction width bits = m"
    unfolding p(4) unat_low m_def [symmetric] fraction_part [OF m(1,2)] using m(1) by simp
  then show "real (2 ^ F + ieee_fraction width bits) * 2 powi (int (ieee_exponent width bits) - int (unat (es_bias s)) - int F) =
     real (narrowed (63 - F) (unat (e8_signif v))) * 2 powi (ext80_exponent v - 16383 - int F)"
    unfolding p(3) u using m(3) unfolding k_def by simp
qed

end
