(* ===== verification/X86_Ext80_Formats.thy ===== *)
theory X86_Ext80_Formats
  imports X86_Ext80_Narrow
begin

text \<open>
  What a program sees of the conversions: a load is exact, a store is correctly rounded, and a
  number that was loaded is stored unchanged.
\<close>

section \<open>A load\<close>

text \<open>
  C30. Every finite four- or eight-byte number, subnormals and zeros included, widens to the extended
  number of the same value and sign: no information is lost and the normalising loop always ends.
\<close>

theorem widening_is_exact:
  assumes "ieee_operand width bits" and "ieee_finite width bits"
  shows "\<exists>e. widen_bits bits width = Some e \<and> x86p_ext80_is_normal_or_zero e \<and>
     ext80_sign e = (if ieee_sign width bits = 0 then 1 else -1) \<and> ext80_value e = ieee_value width bits"
  using assms by (rule widen_bits_exact)

text \<open>1.5 in four bytes.\<close>

lemma one_and_a_half_fields:
  "ieee_sign 4 0x3FC00000 = 0" "ieee_exponent 4 0x3FC00000 = 127" "ieee_fraction 4 0x3FC00000 = 0x400000"
  by (simp_all add: ieee_sign_def ieee_exponent_def ieee_fraction_def source4)

lemma one_and_a_half: "ieee_value 4 0x3FC00000 = 3 / 2"
proof -
  have "(2 :: real) powi (- int 23) = 1 / 2 ^ 23" by (simp only: power_int_minus power_int_of_nat divide_inverse mult_1_left)
  then show ?thesis unfolding ieee_value_def Let_def one_and_a_half_fields source4 by simp
qed

theorem widening_is_exact_witness:
  "\<exists>e. widen_bits 0x3FC00000 4 = Some e \<and> ext80_value e = 3 / 2"
proof -
  have "ieee_operand 4 0x3FC00000" "ieee_finite 4 0x3FC00000"
    unfolding ieee_operand_def ieee_finite_def one_and_a_half_fields source4 by simp_all
  from widening_is_exact [OF this] show ?thesis unfolding one_and_a_half by blast
qed

section \<open>A store\<close>

lemma narrow_rounds:
  assumes "width = 4 \<or> width = 8" and "\<not> x86p_ext80_is_zero v" and "x86p_ext80_narrow_nearest v width = Some bits"
  shows "rounds_to (es_field (x86p_ext80_source width) + 1) (ext80_value v) (ieee_value width bits)"
proof -
  define s where "s = x86p_ext80_source width"
  define F where "F = es_field s"
  define k where "k = 63 - F"
  note n = narrow_normal [OF assms(1) s_def assms(2,3), folded F_def, folded k_def]
  have k: "0 < k" "k < 63" "k + F = 63" using assms(1) by (auto simp: k_def F_def s_def source4 source8)
  define \<sigma> where "\<sigma> = (if e8_sign_exp v AND 0x8000 = 0 then 1 else -1 :: real)"
  define e where "e = ext80_exponent v - 16383 - int F"
  define u where "u = (2 :: real) powi e"
  define a where "a = unat (e8_signif v)"
  define m where "m = narrowed k a"
  have u0: "0 < u" by (simp add: u_def)
  have a63: "2 ^ 63 \<le> a" "a < 2 ^ 64" using n(1) unat_lt64 by (simp_all add: normal_iff a_def)
  have x: "ext80_value v = \<sigma> * (real a / 2 ^ k * u)"
  proof -
    have "ext80_exponent v - 16446 = e - int k" using k(3) by (simp add: e_def)
    then have "(2 :: real) powi (ext80_exponent v - 16446) = u / 2 ^ k" unfolding u_def by (simp add: power_int_diff)
    then show ?thesis unfolding normal_value [OF n(1)] by (simp add: \<sigma>_def ext80_sign_def a_def)
  qed
  have y: "ieee_value width bits = \<sigma> * (real m * u)"
    using n(3,4,6) unfolding ieee_value_def Let_def s_def [symmetric] F_def [symmetric] \<sigma>_def m_def a_def u_def e_def by simp
  have mag: "\<bar>\<sigma> * z\<bar> = \<bar>z\<bar>" for z by (simp add: \<sigma>_def)
  have d: "\<bar>\<sigma> * (real m * u) - \<sigma> * (real a / 2 ^ k * u)\<bar> = \<bar>real m * 2 ^ k - real a\<bar> / 2 ^ k * u"
  proof -
    have "\<sigma> * (real m * u) - \<sigma> * (real a / 2 ^ k * u) = \<sigma> * ((real m * 2 ^ k - real a) / 2 ^ k * u)" by (simp add: field_simps)
    moreover have "\<bar>\<sigma>\<bar> = 1" by (simp add: \<sigma>_def)
    ultimately show ?thesis using u0 by (simp add: abs_mult)
  qed
  note near = narrowed_near [OF k(1), of a, folded m_def]
  have r: "2 ^ F \<le> real a / 2 ^ k" "real a / 2 ^ k < 2 ^ (F + 1)"
  proof -
    have p: "(2 :: nat) ^ 63 = 2 ^ F * 2 ^ k" "(2 :: nat) ^ 64 = 2 ^ (F + 1) * 2 ^ k" unfolding power_add [symmetric] using k(3) by (simp_all add: add.commute)
    have "real (2 ^ F * 2 ^ k) \<le> real a" "real a < real (2 ^ (F + 1) * 2 ^ k)" using a63 unfolding p by (simp_all only: of_nat_le_iff of_nat_less_iff)
    then show "2 ^ F \<le> real a / 2 ^ k" "real a / 2 ^ k < 2 ^ (F + 1)" by (simp_all add: field_simps)
  qed
  show ?thesis
    unfolding rounds_to_def s_def [symmetric] F_def [symmetric]
  proof (intro exI conjI impI)
    let ?m = "(if \<sigma> = 1 then int m else - int m)"
    show "2 ^ (F + 1 - 1) * 2 powi e \<le> \<bar>ext80_value v\<bar>" "\<bar>ext80_value v\<bar> < 2 ^ (F + 1) * 2 powi e"
      using mult_right_mono [OF r(1), of u] mult_strict_right_mono [OF r(2) u0] u0 unfolding x mag u_def [symmetric] by simp_all
    show "ieee_value width bits = of_int ?m * 2 powi e" unfolding y u_def [symmetric] by (simp add: \<sigma>_def)
    show "2 * \<bar>ieee_value width bits - ext80_value v\<bar> \<le> 2 powi e"
      using near(1) u0 mult_right_mono [OF near(1), of "u / 2 ^ k"] unfolding x y d u_def [symmetric] by simp
    assume "2 * \<bar>ieee_value width bits - ext80_value v\<bar> = 2 powi e"
    then have "2 * \<bar>real m * 2 ^ k - real a\<bar> = 2 ^ k" using u0 unfolding x y d u_def [symmetric] by (simp add: field_simps)
    then show "even ?m" using near(2) by simp
  qed
qed

text \<open>
  C31. A store of four or eight bytes that takes the fast path is the number of the target's
  precision nearest to the register, the even one of two, with a normal exponent; no other number of
  that precision is closer.
\<close>

theorem narrowing_correctly_rounded:
  assumes "width = 4 \<or> width = 8" and "\<not> x86p_ext80_is_zero v" and "x86p_ext80_narrow_nearest v width = Some bits"
  shows "ieee_operand width bits \<and> 0 < ieee_exponent width bits \<and>
     ieee_exponent width bits < unat (es_exp_max (x86p_ext80_source width)) \<and>
     rounds_to (es_field (x86p_ext80_source width) + 1) (ext80_value v) (ieee_value width bits)"
  using narrow_normal [OF assms(1) refl assms(2,3)] narrow_rounds [OF assms] by blast

text \<open>One and an ulp of the extended format, in four bytes.\<close>

lemma near_one_narrowed:
  "x86p_ext80_narrow_nearest \<lparr>e8_signif = 0x8000000000000001, e8_sign_exp = 0x3FFF\<rparr> 4 = Some 0x3F800000"
  by (simp add: x86p_ext80_narrow_nearest_def x86p_ext80_source_def Let_def EXT80_EXP_MAX_def EXT80_INTEGER_BIT_def
      X86P_EXT80_BIAS_def)

theorem narrowing_correctly_rounded_witness:
  "rounds_to 24 (ext80_value \<lparr>e8_signif = 0x8000000000000001, e8_sign_exp = 0x3FFF\<rparr>) (ieee_value 4 0x3F800000)"
proof -
  have z: "\<not> x86p_ext80_is_zero \<lparr>e8_signif = 0x8000000000000001, e8_sign_exp = 0x3FFF\<rparr>" by (simp add: x86p_ext80_is_zero_def)
  have "(4 :: nat) = 4 \<or> (4 :: nat) = 8" by simp
  from narrowing_correctly_rounded [OF this z near_one_narrowed] show ?thesis by (simp add: source4)
qed

section \<open>A load and a store\<close>

lemma ieee_fields_unique:
  assumes "ieee_sign width a = ieee_sign width b" "ieee_exponent width a = ieee_exponent width b"
    and "ieee_fraction width a = ieee_fraction width b" and "width = 4 \<or> width = 8"
  shows "a = b"
proof -
  define F E where "F = es_field (x86p_ext80_source width)" and "E = 8 * width - 1 - F"
  have w: "8 * width - 1 = F + E" using assms(4) by (auto simp: F_def E_def source4 source8)
  have n: "n = (n div 2 ^ (F + E) * 2 ^ E + n div 2 ^ F mod 2 ^ E) * 2 ^ F + n mod 2 ^ F" for n :: nat
    unfolding power_add div_mult2_eq by (simp only: div_mult_mod_eq)
  have "unat a = unat b"
    using assms(1-3) unfolding ieee_sign_def ieee_exponent_def ieee_fraction_def Let_def F_def [symmetric] E_def [symmetric] w
    by (subst n [of "unat a"], subst n [of "unat b"]) simp
  then show ?thesis by (simp add: word_unat_eq_iff)
qed

lemma cancel_powi: "a * 2 powi q = b * 2 powi q \<Longrightarrow> a = (b :: real)"
  by simp

text \<open>The exponent and the significand a number has, from its value.\<close>

lemma normal_parts:
  assumes "x86p_ext80_is_normal e" and "\<bar>ext80_value e\<bar> = real n * 2 powi x" and "2 ^ 63 \<le> n * 2 ^ j" "n * 2 ^ j < 2 ^ 64"
  shows "ext80_exponent e - 16446 = x - int j" "unat (e8_signif e) = n * 2 ^ j"
proof -
  let ?s = "unat (e8_signif e)"
  have v: "\<bar>ext80_value e\<bar> = real ?s * 2 powi (ext80_exponent e - 16446)"
  proof -
    have "0 \<le> real ?s * 2 powi (ext80_exponent e - 16446)" by (intro mult_nonneg_nonneg of_nat_0_le_iff) simp
    then show ?thesis unfolding normal_value [OF assms(1)] mult.assoc by (simp only: abs_mult [of "ext80_sign e"] abs_sign abs_of_nonneg mult_1_left)
  qed
  have s: "2 ^ 63 \<le> ?s" "?s < 2 ^ 64" using assms(1) unat_lt64 by (simp_all add: normal_iff)
  have w: "\<bar>ext80_value e\<bar> = real (n * 2 ^ j) * 2 powi (x - int j)" unfolding assms(2) by (rule scaled_back [symmetric])
  have le: "2 ^ (64 - 1) * 2 powi y \<le> real t * 2 powi y" "real t * 2 powi y < 2 ^ 64 * 2 powi y" if "2 ^ 63 \<le> t" "t < 2 ^ 64" for t y
    using of_nat_le_iff [of "2 ^ 63" t, where ?'a = real] of_nat_less_iff [of t "2 ^ 64", where ?'a = real] that by simp_all
  show x: "ext80_exponent e - 16446 = x - int j"
    by (rule binade_unique [OF le [OF s, of "ext80_exponent e - 16446", folded v] le [OF assms(3,4), of "x - int j", folded w]]) simp
  have "real ?s * 2 powi (x - int j) = real (n * 2 ^ j) * 2 powi (x - int j)" using v w x by simp
  then have "real ?s = real (n * 2 ^ j)" by (rule cancel_powi)
  then show "?s = n * 2 ^ j" by (simp only: of_nat_eq_iff)
qed

text \<open>A normal number of the source is answered, with its own fields.\<close>

lemma representable_narrowed:
  assumes "0 < k"
  shows "narrowed k (n * 2 ^ k) = n"
  using assms by (simp add: narrowed_def)

lemma widened_narrows:
  assumes "ieee_operand width bits" and "0 < ieee_exponent width bits" and "ieee_finite width bits"
  shows "\<exists>e. widen_bits bits width = Some e \<and> x86p_ext80_narrow_nearest e width = Some bits"
proof -
  define s where "s = x86p_ext80_source width"
  define F where "F = es_field s"
  define k where "k = 63 - F"
  define B where "B = int (unat (es_bias s))"
  have w: "width = 4 \<or> width = 8" using assms(1) by (auto simp: ieee_operand_def)
  have k: "0 < k" "k < 63" "k + F = 63" and B: "B \<le> 1023" using w by (auto simp: k_def F_def s_def B_def source4 source8)
  note x = ieee_extracted [OF assms(1) s_def, folded F_def]
  define n where "n = 2 ^ F + ieee_fraction width bits"
  have n: "2 ^ F \<le> n" "n < 2 ^ (F + 1)" using x(6) by (simp_all add: n_def)
  obtain e where e: "widen_bits bits width = Some e" "x86p_ext80_is_normal_or_zero e"
      "ext80_sign e = (if ieee_sign width bits = 0 then 1 else -1)" "ext80_value e = ieee_value width bits"
    using widen_bits_exact [OF assms(1,3)] by blast
  define y where "y = int (ieee_exponent width bits) - B - int F"
  have v: "ieee_value width bits = ext80_sign e * (real n * 2 powi y)"
    using assms(2) unfolding ieee_value_def Let_def s_def [symmetric] F_def [symmetric] B_def [symmetric] n_def y_def e(3) by simp
  have pos: "0 < real n * 2 powi y"
  proof (intro mult_pos_pos)
    have "0 < n" using n(1) by (rule less_le_trans [rotated]) simp
    then show "0 < real n" by simp
  qed simp
  have ab: "\<bar>ext80_value e\<bar> = real n * 2 powi y" unfolding e(4) v using pos by (simp only: abs_mult [of "ext80_sign e"] abs_sign abs_of_pos mult_1_left)
  have nz: "\<not> x86p_ext80_is_zero e" using zero_value [of e] ab pos by auto
  then have nm: "x86p_ext80_is_normal e" using e(2) by (simp add: x86p_ext80_is_normal_or_zero_def)
  have sc: "2 ^ 63 \<le> n * 2 ^ k" "n * 2 ^ k < 2 ^ 64"
  proof -
    have p: "(2 :: nat) ^ 63 = 2 ^ F * 2 ^ k" "(2 :: nat) ^ 64 = 2 ^ (F + 1) * 2 ^ k" unfolding power_add [symmetric] using k(3) by (simp_all add: add.commute)
    show "2 ^ 63 \<le> n * 2 ^ k" unfolding p using n(1) by (rule mult_le_mono1)
    show "n * 2 ^ k < 2 ^ 64" unfolding p using n(2) by (rule mult_strict_right_mono) simp
  qed
  note pt = normal_parts [OF nm ab sc]
  have nar: "narrowed k (unat (e8_signif e)) = n" unfolding pt(2) by (rule representable_narrowed [OF k(1)])
  have s63: "2 ^ 63 \<le> unat (e8_signif e)" using sc(1) unfolding pt(2) .
  have nc: "\<not> e8_signif e + push_bit (k - 1) 1 < e8_signif e"
  proof -
    have "64 - k = F + 1" using k(3) by linarith
    then show ?thesis using narrowed_word(1) [OF k(1,2) s63] n(2) unfolding nar by simp
  qed
  have b: "narrow_exponent width e = int (ieee_exponent width bits)"
    using pt(1) k(3) unfolding narrow_exponent_def s_def [symmetric] B_def [symmetric] y_def by linarith
  have l: "1 \<le> int (ieee_exponent width bits)" "int (ieee_exponent width bits) \<le> int (unat (es_exp_max s)) - 1"
    using assms(2,3) x(4) unfolding ieee_finite_def s_def [symmetric] by linarith+
  obtain out where o: "x86p_ext80_narrow_nearest e width = Some out"
    unfolding narrow_alt [OF w s_def nz, folded F_def, folded k_def] Let_def b using nm nc l by simp
  note r = narrow_normal [OF w s_def nz o, folded F_def, folded k_def B_def]
  have oo: "ieee_fraction width out < 2 ^ F" using ieee_extracted(6) [OF r(2) s_def] by (simp add: F_def)
  define m where "m = 2 ^ F + ieee_fraction width out"
  define z where "z = int (ieee_exponent width out) - B - int F"
  have mz: "real m * 2 powi z = real n * 2 powi y"
  proof -
    have q: "ext80_exponent e - 16383 - int F = y" using b unfolding narrow_exponent_def s_def [symmetric] B_def [symmetric] y_def by linarith
    show ?thesis using r(6) unfolding nar q m_def [symmetric] z_def [symmetric] .
  qed
  have bin: "2 ^ (F + 1 - 1) * 2 powi q \<le> real t * 2 powi q" "real t * 2 powi q < 2 ^ (F + 1) * 2 powi q" if "2 ^ F \<le> t" "t < 2 ^ (F + 1)" for t q
    using of_nat_le_iff [of "2 ^ F" t, where ?'a = real] of_nat_less_iff [of t "2 ^ (F + 1)", where ?'a = real] that by simp_all
  have m: "2 ^ F \<le> m" "m < 2 ^ (F + 1)" using oo by (simp_all add: m_def)
  have "z = y" by (rule binade_unique [OF bin [OF m, of z, unfolded mz] bin [OF n, of y]]) simp
  then have "ieee_exponent width out = ieee_exponent width bits" unfolding z_def y_def by linarith
  moreover have "real m = real n" using mz unfolding \<open>z = y\<close> by (rule cancel_powi)
  then have "ieee_fraction width out = ieee_fraction width bits" unfolding m_def n_def of_nat_eq_iff by simp
  moreover have "ieee_sign width out = ieee_sign width bits"
    using r(3) e(3) x(2) unfolding ext80_sign_def by (auto split: if_splits)
  ultimately have "out = bits" by (intro ieee_fields_unique [OF _ _ _ w]) simp_all
  then show ?thesis using e(1) o by blast
qed

end
