(* ===== verification/X86_F128_Properties.thy ===== *)
theory X86_F128_Properties
  imports X86_F128 X86_Ext80_Formats
begin

text \<open>
  The reassembly between the extended format and the host's \<open>long double\<close> loses nothing: a normal
  register that crosses the edge comes back as it was.
\<close>

section \<open>The reassembly\<close>

lemma top_bit_or: "bit w n \<Longrightarrow> push_bit n 1 OR take_bit n w = take_bit (Suc n) (w :: u64)"
  by (rule bit_eqI) (auto simp: bit_simps less_Suc_eq)

lemma integer_bit_or:
  assumes "2 ^ 63 \<le> unat w"
  shows "EXT80_INTEGER_BIT OR take_bit 63 w = w"
proof -
  have "w AND EXT80_INTEGER_BIT \<noteq> 0" using assms unfolding EXT80_INTEGER_BIT_def integer_bit by simp
  moreover have i: "EXT80_INTEGER_BIT = push_bit 63 1" by (simp add: EXT80_INTEGER_BIT_def)
  ultimately have "bit w 63" using and_exp_eq_0_iff_not_bit [of w 63] by simp
  from top_bit_or [OF this] show ?thesis unfolding i by (simp add: take_bit_word_eq_self)
qed

lemma split_halves:
  fixes x :: u16 and s :: u64
  defines "hi \<equiv> push_bit 48 (ucast x) OR (drop_bit 15 s AND mask 48)"
  shows "ucast (drop_bit 48 hi) = x" "push_bit 15 (hi AND mask 48) OR drop_bit 49 (push_bit 49 s) = take_bit 63 s"
    "push_bit 49 s AND mask 49 = 0"
proof -
  show "ucast (drop_bit 48 hi) = x"
    by (rule bit_eqI) (auto simp: hi_def bit_simps)
  show "push_bit 15 (hi AND mask 48) OR drop_bit 49 (push_bit 49 s) = take_bit 63 s"
  proof (rule bit_eqI)
    fix n assume "possible_bit TYPE(64 word) n"
    then show "bit (push_bit 15 (hi AND mask 48) OR drop_bit 49 (push_bit 49 s)) n \<longleftrightarrow> bit (take_bit 63 s) n"
      by (cases "n < 15") (auto simp: hi_def bit_simps)
  qed
  show "push_bit 49 s AND mask 49 = 0" by (rule bit_eqI) (auto simp: bit_simps)
qed

lemma masks: "kFractionHighMask = mask 48" "kInexactLowMask = mask 49"
  by (simp_all add: kFractionHighMask_def kInexactLowMask_def mask_eq_exp_minus_1)

lemma int_between: "0 < int n \<longleftrightarrow> n \<noteq> 0" "int n < 0x7FFF \<longleftrightarrow> n < 0x7FFF"
  by auto

lemma finite_normal_iff: "is_finite_normal (e8_sign_exp v) \<longleftrightarrow> 0 < ext80_exponent v \<and> ext80_exponent v < 0x7FFF"
  using exponent_mask [of "e8_sign_exp v"]
  unfolding is_finite_normal_def kExponentMask_def ext80_exponent_def word_unat_eq_iff int_between by auto

lemma reassembled:
  assumes "x86p_ext80_is_normal v"
  shows "\<exists>w. x86p_x87_ext80_to_f128_exact v = Some w \<and> x86p_x87_f128_to_ext80_exact w = Some v"
proof -
  have n: "is_finite_normal (e8_sign_exp v)" "2 ^ 63 \<le> unat (e8_signif v)"
    using assms by (simp_all add: finite_normal_iff normal_iff)
  note h = split_halves(1,2) [where x = "e8_sign_exp v" and s = "e8_signif v"]
  define w where "w = \<lparr>f_lo = push_bit 49 (e8_signif v), f_hi = push_bit 48 (ucast (e8_sign_exp v)) OR (drop_bit 15 (e8_signif v) AND mask 48)\<rparr>"
  have "x86p_x87_ext80_to_f128_exact v = Some w"
    using n unfolding x86p_x87_ext80_to_f128_exact_def EXT80_INTEGER_BIT_def integer_bit w_def kLowFractionBits_def
      kHighFractionShift_def masks by simp
  moreover have "x86p_x87_f128_to_ext80_exact w = Some v"
    using n(1) split_halves(3) [where s = "e8_signif v"] integer_bit_or [OF n(2)] unfolding x86p_x87_f128_to_ext80_exact_def Let_def w_def f128.select_convs h(1) masks
      kLowFractionBits_def kHighFractionShift_def or.assoc h(2) by simp
  ultimately show ?thesis by blast
qed

end
