(* ===== verification/X86_F128_Order.thy ===== *)
theory X86_F128_Order
  imports X86_F128_Properties
begin

text \<open>The bit-level comparison of two \<open>long double\<close> values is the comparison of the numbers.\<close>

section \<open>The value\<close>

text \<open>The magnitude as one integer; an infinity stands where the next binade would.\<close>

definition f128_magnitude :: "f128 \<Rightarrow> nat" where
  "f128_magnitude v = unat (f_hi v) mod 2 ^ 63 * 2 ^ 64 + unat (f_lo v)"

definition f128_number :: "nat \<Rightarrow> real" where
  "f128_number m =
     (let e = m div 2 ^ 112; f = m mod 2 ^ 112 in
      real (if e = 0 then f else 2 ^ 112 + f) * 2 powi (int (max 1 e) - 16495))"

definition f128_value :: "f128 \<Rightarrow> real" where
  "f128_value v = (if f_hi v AND F128_SIGN_BIT = 0 then 1 else -1) * f128_number (f128_magnitude v)"

lemma f128_number_mono:
  assumes "m < n"
  shows "f128_number m < f128_number n"
proof -
  define K where "K = (2 :: nat) ^ 112"
  have K: "0 < K" "(2 :: nat) ^ 112 = K" by (simp_all add: K_def)
  define e f e' f' where "e = m div K" and "f = m mod K" and "e' = n div K" and "f' = n mod K"
  have m: "m = e * K + f" "n = e' * K + f'" "f < K" "f' < K" using K by (simp_all add: e_def f_def e'_def f'_def)
  define S where "S = (if e = 0 then f else K + f)"
  define S' where "S' = (if e' = 0 then f' else K + f')"
  have v: "f128_number m = real S * 2 powi (int (max 1 e) - 16495)" "f128_number n = real S' * 2 powi (int (max 1 e') - 16495)"
    unfolding f128_number_def Let_def K e_def [symmetric] f_def [symmetric] e'_def [symmetric] f'_def [symmetric] S_def S'_def by simp_all
  have le: "e \<le> e'" unfolding e_def e'_def using assms by (intro div_le_mono) simp
  show ?thesis
  proof (cases "max 1 e = max 1 e'")
    case True
    have "S < S'"
    proof (cases "e = e'")
      case True
      then have "f < f'" using assms m by simp
      then show ?thesis using True by (simp add: S_def S'_def)
    next
      case False
      then have "e = 0" "e' = 1" using True le by auto
      then show ?thesis using m(3) by (simp add: S_def S'_def)
    qed
    then show ?thesis unfolding v True by simp
  next
    case False
    then have x: "max 1 e < max 1 e'" "e' \<noteq> 0" using le by auto
    have S: "real S < 2 * real K" "real K \<le> real S'" using m(3) x(2) by (simp_all add: S_def S'_def)
    define u where "u = (2 :: real) powi (int (max 1 e) - 16495)"
    have u: "0 < u" by (simp add: u_def)
    have "1 + (int (max 1 e) - 16495) \<le> int (max 1 e') - 16495" using x(1) by linarith
    then have "(2 :: real) powi (1 + (int (max 1 e) - 16495)) \<le> 2 powi (int (max 1 e') - 16495)"
      by (rule power_int_increasing) simp
    then have p: "2 * u \<le> 2 powi (int (max 1 e') - 16495)" unfolding powi_sum u_def by simp
    have "real S * u < 2 * real K * u" using S(1) u by (rule mult_strict_right_mono)
    also have "\<dots> = real K * (2 * u)" by simp
    also have "\<dots> \<le> real S' * 2 powi (int (max 1 e') - 16495)" using S(2) p u by (intro mult_mono) simp_all
    finally show ?thesis unfolding v u_def .
  qed
qed

lemma f128_number_order: "f128_number m < f128_number n \<longleftrightarrow> m < n" "f128_number m = f128_number n \<longleftrightarrow> m = n"
  using f128_number_mono [of m n] f128_number_mono [of n m] by (cases m n rule: linorder_cases; simp)+

lemma f128_number_zero: "f128_number 0 = 0"
  by (simp add: f128_number_def)

lemma f128_number_nonneg: "0 \<le> f128_number m"
  using f128_number_mono [of 0 m] f128_number_zero by (cases "m = 0") auto

section \<open>The comparison\<close>

lemma sign_part:
  fixes w :: u64
  shows "w AND F128_SIGN_BIT = 0 \<longleftrightarrow> unat w < 2 ^ 63"
  unfolding F128_SIGN_BIT_def by (rule integer_bit)

lemma high_part:
  fixes w :: u64
  shows "unat w mod 2 ^ 63 = (if w AND F128_SIGN_BIT = 0 then unat w else unat w - 2 ^ 63)"
  unfolding sign_part using unat_lt64 [of w] by (simp add: mod_if)

lemma magnitude_order:
  assumes "(f_hi a AND F128_SIGN_BIT = 0) = (f_hi b AND F128_SIGN_BIT = 0)"
  shows "f128_magnitude a < f128_magnitude b \<longleftrightarrow> f_hi a < f_hi b \<or> f_hi a = f_hi b \<and> f_lo a < f_lo b"
    "f128_magnitude a = f128_magnitude b \<longleftrightarrow> f_hi a = f_hi b \<and> f_lo a = f_lo b"
proof -
  define M where "M = (2 :: nat) ^ 64"
  let ?x = "unat (f_hi a) mod 2 ^ 63" and ?y = "unat (f_hi b) mod 2 ^ 63"
  have M: "unat (f_lo a) < M" "unat (f_lo b) < M" by (simp_all only: M_def unat_lt64)
  have h: "?x < ?y \<longleftrightarrow> f_hi a < f_hi b" "?x = ?y \<longleftrightarrow> f_hi a = f_hi b"
  proof -
    have "?x < ?y \<longleftrightarrow> unat (f_hi a) < unat (f_hi b)" "?x = ?y \<longleftrightarrow> unat (f_hi a) = unat (f_hi b)"
      using assms unfolding high_part sign_part by (auto simp: not_less)
    then show "?x < ?y \<longleftrightarrow> f_hi a < f_hi b" "?x = ?y \<longleftrightarrow> f_hi a = f_hi b"
      by (simp_all only: word_less_nat_alt word_unat_eq_iff)
  qed
  have mul: "p * M + r < q * M + s \<longleftrightarrow> p < q \<or> p = q \<and> r < s" "p * M + r = q * M + s \<longleftrightarrow> p = q \<and> r = s" if "r < M" "s < M" for p q r s :: nat
  proof -
    have l: "p * M + r < q * M" if "p < q" for p q :: nat
    proof -
      have "(p + 1) * M \<le> q * M" using that by (intro mult_le_mono1) simp
      then show ?thesis using \<open>r < M\<close> by simp
    qed
    have l': "q * M + s < p * M" if "q < p" for p q :: nat
    proof -
      have "(q + 1) * M \<le> p * M" using that by (intro mult_le_mono1) simp
      then show ?thesis using \<open>s < M\<close> by simp
    qed
    show "p * M + r < q * M + s \<longleftrightarrow> p < q \<or> p = q \<and> r < s" "p * M + r = q * M + s \<longleftrightarrow> p = q \<and> r = s"
      using l [of p q] l' [of q p] by (cases p q rule: linorder_cases; simp)+
  qed
  show "f128_magnitude a < f128_magnitude b \<longleftrightarrow> f_hi a < f_hi b \<or> f_hi a = f_hi b \<and> f_lo a < f_lo b"
    unfolding f128_magnitude_def M_def [symmetric] mul(1) [OF M] h by (simp add: word_less_nat_alt)
  show "f128_magnitude a = f128_magnitude b \<longleftrightarrow> f_hi a = f_hi b \<and> f_lo a = f_lo b"
    unfolding f128_magnitude_def M_def [symmetric] mul(2) [OF M] h by (simp add: word_unat_eq_iff)
qed

lemma magnitude_zero: "x86p_f128_is_zero v \<longleftrightarrow> f128_magnitude v = 0"
proof -
  have e: "f128_exponent v = 0 \<longleftrightarrow> drop_bit 48 (f_hi v) AND 0x7FFF = 0"
  proof -
    have "drop_bit 48 (f_hi v) AND 0x7FFF \<le> (0x7FFF :: u64)" by (rule word_and_le1)
    then have "unat (drop_bit 48 (f_hi v) AND 0x7FFF) < 2 ^ 32" by (simp add: word_le_nat_alt)
    then have "unat (ucast (drop_bit 48 (f_hi v) AND 0x7FFF) :: u32) = unat (drop_bit 48 (f_hi v) AND 0x7FFF)"
      by (simp only: unsigned_ucast_eq) (simp add: take_bit_nat_eq_self)
    then show ?thesis unfolding f128_exponent_def F128_EXP_MASK_def word_unat_eq_iff by simp
  qed
  have k: "0x7FFF = (push_bit 15 1 - 1 :: u64)" "F128_HI_MANT_MASK = (push_bit 48 1 - 1 :: u64)"
    by (simp_all add: F128_HI_MANT_MASK_def)
  have h: "unat (f_hi v) mod 2 ^ 63 = unat (f_hi v) div 2 ^ 48 mod 2 ^ 15 * 2 ^ 48 + unat (f_hi v) mod 2 ^ 48"
    using mod_mult2_eq [of "unat (f_hi v)" "2 ^ 48" "2 ^ 15"] by (simp add: mult.commute)
  have "x86p_f128_is_zero v \<longleftrightarrow> unat (f_hi v) div 2 ^ 48 mod 2 ^ 15 = 0 \<and> f_lo v = 0 \<and> unat (f_hi v) mod 2 ^ 48 = 0"
  proof -
    have "drop_bit 48 (f_hi v) AND 0x7FFF = 0 \<longleftrightarrow> unat (f_hi v) div 2 ^ 48 mod 2 ^ 15 = 0"
      unfolding k(1) word_unat_eq_iff unat_low unat_drop by simp
    moreover have "f_hi v AND F128_HI_MANT_MASK = 0 \<longleftrightarrow> unat (f_hi v) mod 2 ^ 48 = 0"
      unfolding k(2) word_unat_eq_iff unat_low by simp
    ultimately show ?thesis unfolding x86p_f128_is_zero_def e f128_mantissa_is_zero_def by simp
  qed
  also have "\<dots> \<longleftrightarrow> unat (f_hi v) mod 2 ^ 63 = 0 \<and> unat (f_lo v) = 0" unfolding h by (simp add: word_unat_eq_iff) blast
  finally show ?thesis unfolding f128_magnitude_def by simp
qed

lemma f128_order:
  "x86p_f128_compare a b = (if f128_value a < f128_value b then -1 else if f128_value a = f128_value b then 0 else 1)"
proof -
  define m n where "m = f128_magnitude a" and "n = f128_magnitude b"
  have z: "x86p_f128_is_zero a \<longleftrightarrow> m = 0" "x86p_f128_is_zero b \<longleftrightarrow> n = 0" by (simp_all add: magnitude_zero m_def n_def)
  have v: "f128_value a = (if f_hi a AND F128_SIGN_BIT = 0 then f128_number m else - f128_number m)"
    "f128_value b = (if f_hi b AND F128_SIGN_BIT = 0 then f128_number n else - f128_number n)"
    by (simp_all add: f128_value_def m_def n_def)
  note o = f128_number_order [of m n] f128_number_order [of n m]
  have p: "0 \<le> f128_number m" "0 \<le> f128_number n" "f128_number m = 0 \<longleftrightarrow> m = 0" "f128_number n = 0 \<longleftrightarrow> n = 0"
    using f128_number_nonneg f128_number_order(2) [of _ 0] f128_number_zero by metis+
  show ?thesis
  proof (cases "(f_hi a AND F128_SIGN_BIT = 0) = (f_hi b AND F128_SIGN_BIT = 0)")
    case True
    note g = magnitude_order [OF True, folded m_def n_def] magnitude_order(1) [OF True [symmetric], folded m_def n_def]
    have c: "x86p_f128_compare a b =
        (if m = n then 0 else if (m < n) = (f_hi a AND F128_SIGN_BIT = 0) then -1 else 1)"
    proof (cases m n rule: linorder_cases)
      case less
      then have "f_hi a \<noteq> f_hi b \<and> \<not> f_hi b < f_hi a \<or> f_hi a = f_hi b \<and> f_lo a \<noteq> f_lo b \<and> \<not> f_lo b < f_lo a"
        unfolding g(1) by auto
      then show ?thesis using less True unfolding x86p_f128_compare_def Let_def z by auto
    next
      case equal
      then show ?thesis using g(2) True unfolding x86p_f128_compare_def Let_def z by simp
    next
      case greater
      then have "f_hi a \<noteq> f_hi b \<and> f_hi b < f_hi a \<or> f_hi a = f_hi b \<and> f_lo a \<noteq> f_lo b \<and> f_lo b < f_lo a"
        unfolding g(3) by auto
      then show ?thesis using greater True unfolding x86p_f128_compare_def Let_def z by auto
    qed
    show ?thesis
      unfolding c v using True o by (cases m n rule: linorder_cases) auto
  next
    case False
    then show ?thesis using p unfolding v x86p_f128_compare_def Let_def z by auto
  qed
qed

text \<open>
  C33. The comparison made on the two halves of a \<open>long double\<close> is the comparison of the real numbers
  they stand for, the two zeros equal and an infinity beyond every finite number.
\<close>

theorem f128_compare_is_the_order:
  "x86p_f128_compare a b = (if f128_value a < f128_value b then -1 else if f128_value a = f128_value b then 0 else 1)"
  by (rule f128_order)

end
