(* ===== verification/X86_Ext80_Integer.thy ===== *)
theory X86_Ext80_Integer
  imports X86_Ext80_Rounding
begin

text \<open>
  Integers to and from the extended format: the conversion of \<open>FILD\<close> is exact, and that of \<open>FIST\<close> is
  the rounding of the real number the control word asks for, with a result exactly when it fits.
\<close>

section \<open>Rounding to an integer\<close>

definition nearest_even :: "real \<Rightarrow> int" where
  "nearest_even x =
     (let n = \<lfloor>x\<rfloor>; f = x - of_int n in if f > 1 / 2 \<or> (f = 1 / 2 \<and> odd n) then n + 1 else n)"

definition rounded_integer :: "u16 \<Rightarrow> real \<Rightarrow> int" where
  "rounded_integer control x =
     (let rc = control AND X86P_X87_RC_MASK in
      if rc = X86P_X87_RC_DOWN then \<lfloor>x\<rfloor>
      else if rc = X86P_X87_RC_UP then \<lceil>x\<rceil>
      else if rc = X86P_X87_RC_TRUNCATE then (if x < 0 then \<lceil>x\<rceil> else \<lfloor>x\<rfloor>)
      else nearest_even x)"

text \<open>The decision on a magnitude, from its fraction.\<close>

definition magnitude_up :: "u16 \<Rightarrow> bool \<Rightarrow> nat \<Rightarrow> real \<Rightarrow> bool" where
  "magnitude_up control negative n f \<longleftrightarrow>
     f \<noteq> 0 \<and>
     (let rc = control AND X86P_X87_RC_MASK in
      if rc = X86P_X87_RC_DOWN then negative
      else if rc = X86P_X87_RC_UP then \<not> negative
      else if rc = X86P_X87_RC_TRUNCATE then False
      else 1 / 2 < f \<or> (f = 1 / 2 \<and> odd n))"

lemma floor_magnitude: "0 \<le> f \<Longrightarrow> f < 1 \<Longrightarrow> \<lfloor>real n + f\<rfloor> = int n"
  by (simp add: floor_unique)

lemma ceiling_magnitude: "0 \<le> f \<Longrightarrow> f < 1 \<Longrightarrow> \<lceil>real n + f\<rceil> = (if f = 0 then int n else int n + 1)"
  by (auto intro: ceiling_unique)

lemma floor_negative: "0 \<le> f \<Longrightarrow> f < 1 \<Longrightarrow> \<lfloor>- (real n + f)\<rfloor> = (if f = 0 then - int n else - int n - 1)"
  by (auto intro: floor_unique)

lemma nearest_even_negative:
  assumes "0 \<le> f" "f < 1"
  shows "nearest_even (- (real n + f)) = - (if 1 / 2 < f \<or> (f = 1 / 2 \<and> odd n) then int n + 1 else int n)"
proof (cases "f = 0")
  case True
  then show ?thesis using floor_negative [of 0 n] by (simp add: nearest_even_def)
next
  case False
  have fl: "\<lfloor>- (real n + f)\<rfloor> = - int n - 1" using floor_negative [OF assms, of n] False by simp
  have d: "- (real n + f) - of_int (- int n - 1) = 1 - f" by simp
  show ?thesis unfolding nearest_even_def Let_def fl d using assms by auto
qed

lemma rounded_magnitude_integer:
  assumes "0 \<le> f" "f < 1"
  shows "rounded_integer control (if negative then - (real n + f) else real n + f) =
     (if negative then - int (n + of_bool (magnitude_up control negative n f)) else int (n + of_bool (magnitude_up control negative n f)))"
proof (cases negative)
  case False
  have "nearest_even (real n + f) = (if 1 / 2 < f \<or> (f = 1 / 2 \<and> odd n) then int n + 1 else int n)"
    unfolding nearest_even_def Let_def floor_magnitude [OF assms] by simp
  moreover have "\<not> real n + f < 0" using assms by simp
  ultimately show ?thesis using False assms floor_magnitude [OF assms, of n] ceiling_magnitude [OF assms, of n]
    by (auto simp: rounded_integer_def magnitude_up_def Let_def)
next
  case True
  have "\<lceil>- (real n + f)\<rceil> = - int n" using floor_magnitude [OF assms, of n] by (simp add: ceiling_def)
  moreover have "- (real n + f) < 0 \<or> f = 0 \<and> n = 0" using assms by auto
  ultimately show ?thesis using True assms floor_negative [OF assms, of n] nearest_even_negative [OF assms, of n]
    by (auto simp: rounded_integer_def magnitude_up_def Let_def)
qed

section \<open>FIST\<close>

text \<open>The fraction as the code has it, in units of which one half is \<open>half\<close>.\<close>

lemma rounds_up_magnitude:
  assumes "below = 0 \<longleftrightarrow> f = 0" "half < below \<longleftrightarrow> 1 / 2 < f" "below = half \<longleftrightarrow> f = 1 / 2"
  shows "rounds_up control negative integer below half \<longleftrightarrow> magnitude_up control negative (unat integer) f"
  using assms unfolding rounds_up_def magnitude_up_def odd_word Let_def by auto

lemma abs_value: "\<bar>ext80_value v\<bar> = real (unat (e8_signif v)) * 2 powi (max 1 (ext80_exponent v) - 16446)"
  and sign_value: "ext80_value v = (if e8_sign_exp v AND EXT80_SIGN_BIT \<noteq> 0 then - \<bar>ext80_value v\<bar> else \<bar>ext80_value v\<bar>)"
proof -
  define a where "a = real (unat (e8_signif v)) * 2 powi (max 1 (ext80_exponent v) - 16446)"
  have a0: "0 \<le> a" unfolding a_def by (intro mult_nonneg_nonneg of_nat_0_le_iff) simp
  have v: "ext80_value v = ext80_sign v * a" unfolding ext80_value_def a_def by (rule mult.assoc)
  show "\<bar>ext80_value v\<bar> = real (unat (e8_signif v)) * 2 powi (max 1 (ext80_exponent v) - 16446)"
    unfolding v a_def [symmetric] using a0 by (simp add: abs_mult)
  show "ext80_value v = (if e8_sign_exp v AND EXT80_SIGN_BIT \<noteq> 0 then - \<bar>ext80_value v\<bar> else \<bar>ext80_value v\<bar>)"
    unfolding v using a0 by (simp add: abs_mult ext80_sign_def EXT80_SIGN_BIT_def)
qed

text \<open>The magnitude the code computes, and the rounded real number.\<close>

definition integer_magnitude :: "u16 \<Rightarrow> ext80 \<Rightarrow> u64" where
  "integer_magnitude control value =
     (let negative = e8_sign_exp value AND EXT80_SIGN_BIT \<noteq> 0; unbiased = ext80_exponent value - 16383 in
      if e8_signif value = 0 then 0
      else if unbiased < 0 then
        (let below = (if unbiased = -1 then e8_signif value else 1); half = (if unbiased = -1 then EXT80_INTEGER_BIT else -1)
         in of_bool (rounds_up control negative 0 below half))
      else
        (let shift = 63 - nat unbiased; integer = drop_bit shift (e8_signif value);
             below = (if shift \<noteq> 0 then e8_signif value AND (push_bit shift 1 - 1) else 0);
             half = (if shift \<noteq> 0 then push_bit (shift - 1) 1 else 0)
         in integer + of_bool (rounds_up control negative integer below half)))"

lemma to_int_alt:
  assumes "width = 2 \<or> width = 4 \<or> width = 8" "ext80_exponent v \<noteq> 0x7FFF"
    "ext80_exponent v \<noteq> 0 \<longrightarrow> 2 ^ 63 \<le> unat (e8_signif v)"
  shows "x86p_ext80_to_int control v width =
     (let negative = e8_sign_exp v AND EXT80_SIGN_BIT \<noteq> 0; unbiased = ext80_exponent v - 16383 in
      if e8_signif v \<noteq> 0 \<and> 63 \<le> unbiased then
        (if negative \<and> width = 8 \<and> unbiased = 63 \<and> e8_signif v = EXT80_INTEGER_BIT then Some 0x8000000000000000 else None)
      else if push_bit (8 * width - 1) 1 - (if negative then 0 else 1) < integer_magnitude control v then None
      else Some (if negative then 0 - integer_magnitude control v else integer_magnitude control v))"
proof -
  have i: "\<not> (ext80_exponent v \<noteq> 0 \<and> e8_signif v AND EXT80_INTEGER_BIT = 0)"
    using assms(3) unfolding EXT80_INTEGER_BIT_def integer_bit by auto
  have w: "\<not> (width \<noteq> 2 \<and> width \<noteq> 4 \<and> width \<noteq> 8)" using assms(1) by blast
  show ?thesis
    unfolding x86p_ext80_to_int_def EXT80_EXP_MAX_def ext80_exponent_def [symmetric] X86P_EXT80_BIAS_def Let_def
      integer_magnitude_def
    using w i assms(2) by (simp only: if_False simp_thms)
qed

lemma neg_powi: "(2 :: real) powi (- int k) = 1 / 2 ^ k"
  by (simp add: power_int_minus divide_inverse)

lemma unat_integer_bit: "unat EXT80_INTEGER_BIT = 2 ^ 63"
  unfolding EXT80_INTEGER_BIT_def by simp

lemma half_of: "2 ^ 63 < x \<longleftrightarrow> 1 / 2 < x / 2 ^ 64" "x = 2 ^ 63 \<longleftrightarrow> x / 2 ^ 64 = 1 / 2" for x :: real
  by (auto simp: field_simps)

lemma magnitude_exact:
  assumes "ext80_exponent v \<noteq> 0 \<longrightarrow> 2 ^ 63 \<le> unat (e8_signif v)" "ext80_exponent v - 16383 < 63"
  shows "\<exists>n f. 0 \<le> f \<and> f < 1 \<and> \<bar>ext80_value v\<bar> = real n + f \<and>
     unat (integer_magnitude control v) = n + of_bool (magnitude_up control (e8_sign_exp v AND EXT80_SIGN_BIT \<noteq> 0) n f)"
proof -
  let ?s = "unat (e8_signif v)" and ?neg = "e8_sign_exp v AND EXT80_SIGN_BIT \<noteq> 0" and ?u = "ext80_exponent v - 16383"
  have slt: "real ?s < 2 ^ 64" using unat_lt64 [of "e8_signif v"] of_nat_less_iff [of ?s "2 ^ 64", where ?'a = real] by simp
  consider "e8_signif v = 0" | "e8_signif v \<noteq> 0" "?u < -1" | "e8_signif v \<noteq> 0" "?u = -1" | "e8_signif v \<noteq> 0" "0 \<le> ?u"
    by linarith
  then show ?thesis
  proof cases
    case 1
    then show ?thesis
      by (intro exI [of _ 0] exI [of _ "0 :: real"]) (simp add: abs_value integer_magnitude_def magnitude_up_def)
  next
    case 2
    let ?f = "\<bar>ext80_value v\<bar>"
    have s0: "0 < real ?s" using 2(1) by (simp only: of_nat_0_less_iff) (simp add: unat_gt_0)
    have "max 1 (ext80_exponent v) - 16446 \<le> -65" using 2(2) by simp
    then have "(2 :: real) powi (max 1 (ext80_exponent v) - 16446) \<le> 2 powi (-65)" by (intro power_int_increasing) simp_all
    also have "(2 :: real) powi (-65) = 1 / 2 ^ 65" using neg_powi [of 65] by (simp only: of_nat_numeral)
    finally have "?f \<le> real ?s * (1 / 2 ^ 65)" unfolding abs_value by (rule mult_left_mono [OF _ of_nat_0_le_iff])
    then have f: "?f < 1 / 2" using slt by simp
    have f0: "0 < ?f" unfolding abs_value using s0 by (simp only: mult_pos_pos zero_less_power_int zero_less_numeral)
    have "rounds_up control ?neg 0 1 (-1) \<longleftrightarrow> magnitude_up control ?neg (unat (0 :: u64)) ?f"
      by (rule rounds_up_magnitude) (use f f0 in \<open>auto simp: word_less_nat_alt unsigned_minus_1_eq_mask mask_eq_exp_minus_1\<close>)
    then show ?thesis using f f0 2
      by (intro exI [of _ 0] exI [of _ ?f]) (auto simp: integer_magnitude_def)
  next
    case 3
    let ?f = "real ?s / 2 ^ 64"
    have e: "ext80_exponent v = 16382" using 3(2) by simp
    then have s: "2 ^ 63 \<le> ?s" using assms(1) by simp
    have "max 1 (ext80_exponent v) - 16446 = - int 64" using e by simp
    then have v: "\<bar>ext80_value v\<bar> = ?f" unfolding abs_value by (simp only: neg_powi times_divide_eq_right mult_1_right)
    have sr: "2 ^ 63 \<le> real ?s" using s of_nat_le_iff [of "2 ^ 63" ?s, where ?'a = real] by simp
    have eq: "?s = 2 ^ 63 \<longleftrightarrow> real ?s = 2 ^ 63" using of_nat_eq_iff [of ?s "2 ^ 63", where ?'a = real] by simp
    have lt: "2 ^ 63 < ?s \<longleftrightarrow> 2 ^ 63 < real ?s" using of_nat_less_iff [of "2 ^ 63" ?s, where ?'a = real] by simp
    have "rounds_up control ?neg 0 (e8_signif v) EXT80_INTEGER_BIT \<longleftrightarrow> magnitude_up control ?neg (unat (0 :: u64)) ?f"
    proof (rule rounds_up_magnitude)
      show "e8_signif v = 0 \<longleftrightarrow> ?f = 0" using 3(1) sr by auto
      show "EXT80_INTEGER_BIT < e8_signif v \<longleftrightarrow> 1 / 2 < ?f"
        unfolding word_less_nat_alt unat_integer_bit lt by (rule half_of)
      show "e8_signif v = EXT80_INTEGER_BIT \<longleftrightarrow> ?f = 1 / 2"
        unfolding word_unat_eq_iff unat_integer_bit eq by (rule half_of)
    qed
    then show ?thesis using 3 slt v
      by (intro exI [of _ 0] exI [of _ ?f]) (auto simp: integer_magnitude_def)
  next
    case 4
    define k where "k = 63 - nat ?u"
    have k: "0 < k" "k \<le> 63" "ext80_exponent v = 16446 - int k" using 4(2) assms(2) by (auto simp: k_def)
    let ?n = "?s div 2 ^ k" and ?r = "?s mod 2 ^ k"
    let ?f = "real ?r / 2 ^ k"
    have d: "real ?s = real ?n * 2 ^ k + real ?r"
      using of_nat_add [of "?n * 2 ^ k" ?r, where ?'a = real] by (simp only: div_mult_mod_eq of_nat_mult of_nat_power of_nat_numeral)
    have "max 1 (ext80_exponent v) - 16446 = - int k" using k by simp
    then have "\<bar>ext80_value v\<bar> = real ?s / 2 ^ k"
      unfolding abs_value by (simp only: neg_powi times_divide_eq_right mult_1_right)
    then have v: "\<bar>ext80_value v\<bar> = real ?n + ?f" unfolding d by (simp add: add_divide_distrib)
    have r: "real ?r < 2 ^ k" using of_nat_less_iff [of ?r "2 ^ k", where ?'a = real] by simp
    have p: "(2 :: nat) ^ k = 2 * 2 ^ (k - 1)" "(2 :: real) ^ k = 2 * 2 ^ (k - 1)" using k(1) by (cases k; simp)+
    have h: "unat (push_bit (k - 1) 1 :: u64) = 2 ^ (k - 1)"
    proof -
      have "(2 :: nat) ^ (k - 1) < 2 ^ 64" using k by (intro power_strict_increasing) simp_all
      then show ?thesis by (simp only: unat_push) simp
    qed
    have low: "unat (e8_signif v AND (push_bit k 1 - 1)) = ?r" by (rule unat_low)
    have "rounds_up control ?neg (drop_bit k (e8_signif v)) (e8_signif v AND (push_bit k 1 - 1)) (push_bit (k - 1) 1) \<longleftrightarrow>
        magnitude_up control ?neg (unat (drop_bit k (e8_signif v))) ?f"
    proof (rule rounds_up_magnitude)
      show "e8_signif v AND (push_bit k 1 - 1) = 0 \<longleftrightarrow> ?f = 0" using low by (metis divide_eq_0_iff of_nat_eq_0_iff power_not_zero unat_eq_0 zero_neq_numeral)
      have "real (2 ^ (k - 1)) < real ?r \<longleftrightarrow> 2 ^ (k - 1) < ?r" by (rule of_nat_less_iff)
      then show "push_bit (k - 1) 1 < e8_signif v AND (push_bit k 1 - 1) \<longleftrightarrow> 1 / 2 < ?f"
        unfolding word_less_nat_alt low h p(2) by (simp add: field_simps)
      have "real ?r = real (2 ^ (k - 1)) \<longleftrightarrow> ?r = 2 ^ (k - 1)" by (rule of_nat_eq_iff)
      then show "e8_signif v AND (push_bit k 1 - 1) = push_bit (k - 1) 1 \<longleftrightarrow> ?f = 1 / 2"
        unfolding word_unat_eq_iff low h p(2) by (auto simp: field_simps)
    qed
    moreover have "integer_magnitude control v = drop_bit k (e8_signif v) +
        of_bool (rounds_up control ?neg (drop_bit k (e8_signif v)) (e8_signif v AND (push_bit k 1 - 1)) (push_bit (k - 1) 1))"
      using 4 k(1) by (simp add: integer_magnitude_def Let_def k_def)
    moreover have "?n + 1 < 2 ^ 64"
    proof -
      have "?n \<le> ?s div 2" using k(1) p(1) by (metis div_le_mono2 le_add1 mult_2 pos2 power_gt_expt power_increasing_iff div_mult2_eq div_le_dividend)
      then show ?thesis using unat_lt64 [of "e8_signif v"] by simp
    qed
    ultimately show ?thesis using v r
      by (intro exI [of _ ?n] exI [of _ ?f]) (simp add: unat_add64 unat_drop)
  qed
qed

lemma rounded_whole:
  "rounded_integer control (of_int n) = n"
  by (simp add: rounded_integer_def nearest_even_def Let_def)

lemma signed_word:
  "word_of_int (int (unat m)) = m" "word_of_int (- int (unat m)) = 0 - (m :: u64)"
  by simp_all

text \<open>A number of 2^63 or more is whole already.\<close>

lemma large_value:
  assumes "2 ^ 63 \<le> unat (e8_signif v)" "63 \<le> ext80_exponent v - 16383"
  defines "n \<equiv> unat (e8_signif v) * 2 ^ nat (ext80_exponent v - 16446)"
  shows "\<bar>ext80_value v\<bar> = real n" "2 ^ 63 \<le> n"
    "n = 2 ^ 63 \<longleftrightarrow> ext80_exponent v - 16383 = 63 \<and> e8_signif v = EXT80_INTEGER_BIT"
proof -
  define k where "k = nat (ext80_exponent v - 16446)"
  have k: "max 1 (ext80_exponent v) - 16446 = int k" using assms(2) by (simp add: k_def)
  show "\<bar>ext80_value v\<bar> = real n" unfolding abs_value k n_def k_def [symmetric] by simp
  have "unat (e8_signif v) * 1 \<le> n" unfolding n_def by (rule mult_le_mono2) simp
  then show n63: "2 ^ 63 \<le> n" using assms(1) by linarith
  show "n = 2 ^ 63 \<longleftrightarrow> ext80_exponent v - 16383 = 63 \<and> e8_signif v = EXT80_INTEGER_BIT"
  proof
    assume n: "n = 2 ^ 63"
    have "k = 0"
    proof (rule ccontr)
      assume "k \<noteq> 0"
      then have "(2 :: nat) ^ 1 \<le> 2 ^ k" by (intro power_increasing) simp_all
      then have "2 ^ 63 * 2 ^ 1 \<le> unat (e8_signif v) * 2 ^ k" using assms(1) by (intro mult_le_mono)
      then show False using n unfolding n_def k_def [symmetric] by simp
    qed
    then show "ext80_exponent v - 16383 = 63 \<and> e8_signif v = EXT80_INTEGER_BIT"
      using n assms(2) unfolding n_def k_def by (simp add: EXT80_INTEGER_BIT_def word_unat_eq_iff)
  next
    assume "ext80_exponent v - 16383 = 63 \<and> e8_signif v = EXT80_INTEGER_BIT"
    then show "n = 2 ^ 63" by (simp add: n_def EXT80_INTEGER_BIT_def)
  qed
qed

lemma signed_limit:
  assumes "width = 2 \<or> width = 4 \<or> width = 8"
  shows "unat (push_bit (8 * width - 1) 1 - (if negative then 0 else 1) :: u64) = 2 ^ (8 * width - 1) - (if negative then 0 else 1)"
  using assms by auto

lemma limit_signed:
  "2 ^ b - (if neg then 0 else 1) < m \<longleftrightarrow>
     \<not> (- (2 ^ b) \<le> (if neg then - int m else int m) \<and> (if neg then - int m else int m) < 2 ^ b)"
proof -
  define c where "c = (2 :: nat) ^ b"
  have p: "(2 :: int) ^ b = int c" "1 \<le> c" by (simp_all add: c_def)
  show ?thesis unfolding p(1) c_def [symmetric] using p(2) by auto
qed

lemma to_int_rounds:
  assumes "width = 2 \<or> width = 4 \<or> width = 8" and "ext80_exponent v \<noteq> 0x7FFF"
    and "ext80_exponent v \<noteq> 0 \<longrightarrow> 2 ^ 63 \<le> unat (e8_signif v)"
  shows "x86p_ext80_to_int control v width =
     (let n = rounded_integer control (ext80_value v) in
      if - (2 ^ (8 * width - 1)) \<le> n \<and> n < 2 ^ (8 * width - 1) then Some (word_of_int n) else None)"
proof -
  let ?neg = "e8_sign_exp v AND EXT80_SIGN_BIT \<noteq> 0"
  define b where "b = 8 * width - 1"
  have b: "b \<le> 63" "b = 63 \<longleftrightarrow> width = 8" using assms(1) by (auto simp: b_def)
  note alt = to_int_alt [OF assms, of control, unfolded Let_def, folded b_def]
  show ?thesis
  proof (cases "e8_signif v \<noteq> 0 \<and> 63 \<le> ext80_exponent v - 16383")
    case True
    then have s: "2 ^ 63 \<le> unat (e8_signif v)" using assms(3) by auto
    define n where "n = unat (e8_signif v) * 2 ^ nat (ext80_exponent v - 16446)"
    note l = large_value [OF s conjunct2 [OF True], folded n_def]
    have r: "rounded_integer control (ext80_value v) = (if ?neg then - int n else int n)"
      using rounded_whole [of control "int n"] rounded_whole [of control "- int n"] sign_value [of v] l(1) by auto
    have p: "(2 :: nat) ^ b \<le> 2 ^ 63" "b \<noteq> 63 \<Longrightarrow> (2 :: nat) ^ b < 2 ^ 63"
      using b(1) power_increasing [of b 63 "2 :: nat"] power_strict_increasing [of b 63 "2 :: nat"] by simp_all
    have "- (2 ^ b) \<le> (if ?neg then - int n else int n) \<and> (if ?neg then - int n else int n) < 2 ^ b \<longleftrightarrow> ?neg \<and> n \<le> 2 ^ b"
    proof (cases ?neg)
      case True
      have "- (2 ^ b) \<le> - int n \<longleftrightarrow> n \<le> 2 ^ b" by (metis neg_le_iff_le of_nat_le_iff of_nat_numeral of_nat_power)
      moreover have "- int n < 2 ^ b" using l(2) by (smt (verit) of_nat_0_le_iff zero_less_power)
      ultimately show ?thesis using True by simp
    next
      case False
      have "int n < 2 ^ b \<longleftrightarrow> n < 2 ^ b" by (metis of_nat_less_iff of_nat_numeral of_nat_power)
      then show ?thesis using False l(2) p(1) by simp
    qed
    moreover have "n \<le> 2 ^ b \<longleftrightarrow> width = 8 \<and> n = 2 ^ 63" using l(2) p b by (cases "b = 63") auto
    moreover have "word_of_int (- int n) = (0x8000000000000000 :: u64)" if "n = 2 ^ 63" unfolding that by simp
    ultimately show ?thesis using True l(3) unfolding alt r Let_def b_def [symmetric] by auto
  next
    case False
    have u: "ext80_exponent v - 16383 < 63"
    proof (cases "e8_signif v = 0")
      case True
      then have "ext80_exponent v = 0" using assms(3) by auto
      then show ?thesis by simp
    qed (use False in auto)
    obtain n f where m: "0 \<le> f" "f < 1" "\<bar>ext80_value v\<bar> = real n + f"
        "unat (integer_magnitude control v) = n + of_bool (magnitude_up control ?neg n f)"
      using magnitude_exact [OF assms(3) u, of control] by blast
    let ?m = "unat (integer_magnitude control v)"
    have r: "rounded_integer control (ext80_value v) = (if ?neg then - int ?m else int ?m)"
      using rounded_magnitude_integer [OF m(1,2), of control ?neg n] sign_value [of v] unfolding m(3,4) by (auto split: if_splits)
    have "push_bit b 1 - (if ?neg then 0 else 1) < integer_magnitude control v \<longleftrightarrow> 2 ^ b - (if ?neg then 0 else 1) < ?m"
      unfolding word_less_nat_alt b_def signed_limit [OF assms(1)] ..
    moreover note limit_signed [of b ?neg ?m]
    ultimately show ?thesis using False unfolding alt r Let_def b_def [symmetric] by (simp only: if_False if_cancel signed_word split: if_split) auto
  qed
qed

text \<open>
  C28. FIST rounds the real number as the control word says, in all four modes, and answers exactly
  when the rounded integer fits the destination's width; infinities, NaNs and unnormals, which are
  refused, are not in the theorem.
\<close>

theorem fist_rounds:
  assumes "width = 2 \<or> width = 4 \<or> width = 8" and "ext80_exponent v \<noteq> 0x7FFF"
    and "ext80_exponent v \<noteq> 0 \<longrightarrow> 2 ^ 63 \<le> unat (e8_signif v)"
  shows "x86p_ext80_to_int control v width =
     (let n = rounded_integer control (ext80_value v) in
      if - (2 ^ (8 * width - 1)) \<le> n \<and> n < 2 ^ (8 * width - 1) then Some (word_of_int n) else None)"
  using assms by (rule to_int_rounds)

text \<open>2.5 rounds to 2, and -2.5 rounded down to -3, in two bytes.\<close>

lemma two_and_a_half:
  "ext80_value \<lparr>e8_signif = 0xA000000000000000, e8_sign_exp = 0x4000\<rparr> = 5 / 2"
  "ext80_value \<lparr>e8_signif = 0xA000000000000000, e8_sign_exp = 0xC000\<rparr> = - (5 / 2)"
proof -
  have "(2 :: real) powi (- 62) = 1 / 2 ^ 62" using neg_powi [of 62] by (simp only: of_nat_numeral)
  then show "ext80_value \<lparr>e8_signif = 0xA000000000000000, e8_sign_exp = 0x4000\<rparr> = 5 / 2"
    "ext80_value \<lparr>e8_signif = 0xA000000000000000, e8_sign_exp = 0xC000\<rparr> = - (5 / 2)"
    by (simp_all add: ext80_value_def ext80_sign_def ext80_exponent_def)
qed

lemma halves_rounded:
  "rounded_integer 0x037F (5 / 2) = 2" "rounded_integer 0x077F (- (5 / 2)) = -3"
  by (simp_all add: rounded_integer_def nearest_even_def Let_def X86P_X87_RC_MASK_def X86P_X87_RC_DOWN_def
      X86P_X87_RC_UP_def X86P_X87_RC_TRUNCATE_def floor_unique ceiling_unique)

theorem fist_rounds_witness:
  "x86p_ext80_to_int 0x037F \<lparr>e8_signif = 0xA000000000000000, e8_sign_exp = 0x4000\<rparr> 2 = Some 2 \<and>
   x86p_ext80_to_int 0x077F \<lparr>e8_signif = 0xA000000000000000, e8_sign_exp = 0xC000\<rparr> 2 = Some (-3)"
  using fist_rounds [where width = 2 and v = "\<lparr>e8_signif = 0xA000000000000000, e8_sign_exp = 0x4000\<rparr>" and control = "0x037F"]
    fist_rounds [where width = 2 and v = "\<lparr>e8_signif = 0xA000000000000000, e8_sign_exp = 0xC000\<rparr>" and control = "0x077F"]
  by (simp add: two_and_a_half halves_rounded ext80_exponent_def)

section \<open>FILD\<close>

lemma integer_loop_some:
  assumes "2 ^ 63 \<le> unat v * 2 ^ k" and "v \<noteq> 0"
  shows "\<exists>j. integer_loop k v n = Some (push_bit j v, n + j) \<and> j \<le> k \<and> 2 ^ 63 \<le> unat v * 2 ^ j \<and> unat v * 2 ^ j < 2 ^ 64"
  using assms
proof (induction k arbitrary: v n)
  case 0
  then show ?case using unat_lt64 [of v] by (auto simp: EXT80_INTEGER_BIT_def integer_bit)
next
  case (Suc k)
  show ?case
  proof (cases "unat v < 2 ^ 63")
    case True
    then have u: "unat (push_bit 1 v) = unat v * 2" by (simp only: unat_push) simp
    moreover have "push_bit 1 v \<noteq> 0" using Suc.prems(2) u by (auto simp: unat_eq_0 [symmetric])
    ultimately obtain j where "integer_loop k (push_bit 1 v) (n + 1) = Some (push_bit j (push_bit 1 v), n + 1 + j)" "j \<le> k"
        "2 ^ 63 \<le> unat v * 2 * 2 ^ j" "unat v * 2 * 2 ^ j < 2 ^ 64"
      using Suc.IH [of "push_bit 1 v" "n + 1"] Suc.prems(1) by (auto simp: mult.assoc)
    then show ?thesis using True
      by (intro exI [of _ "Suc j"]) (simp add: EXT80_INTEGER_BIT_def integer_bit mult.assoc push_bit_push_bit)
  next
    case False
    then show ?thesis using unat_lt64 [of v] by (intro exI [of _ 0]) (simp add: EXT80_INTEGER_BIT_def integer_bit)
  qed
qed

lemma magnitude_word:
  "unat (if sint v < 0 then 0 - v else v :: u64) = nat \<bar>sint v\<bar>"
proof (cases "sint v < 0")
  case True
  have "uint (- v) = (- sint v) mod 2 ^ 64"
    using uint_word_of_int [of "- sint v", where ?'a = 64] by simp
  moreover have "- (2 ^ 63) \<le> sint v" using sint_greater_eq [of v] by simp
  ultimately have "uint (- v) = - sint v" using True by simp
  then show ?thesis using True by (simp add: unat_eq_nat_uint)
next
  case False
  have "uint v = sint v mod 2 ^ 64" using uint_word_of_int [of "sint v", where ?'a = 64] by simp
  then have "uint v = sint v" using False sint_less [of v] by simp
  then show ?thesis using False by (simp add: unat_eq_nat_uint)
qed

lemma integer_with_sign: "(if i < 0 then -1 else 1) * real (nat \<bar>i\<bar>) = of_int i"
  by simp

lemma from_int_value:
  "\<exists>e. x86p_ext80_from_int v = Some e \<and> ext80_value e = of_int (sint v) \<and> ext80_exponent e \<noteq> 0x7FFF \<and>
     (ext80_exponent e \<noteq> 0 \<longrightarrow> 2 ^ 63 \<le> unat (e8_signif e))"
proof (cases "v = 0")
  case True
  then show ?thesis by (simp add: x86p_ext80_from_int_def ext80_value_def ext80_exponent_def)
next
  case False
  define m where "m = (if sint v < 0 then 0 - v else v)"
  have m: "unat m = nat \<bar>sint v\<bar>" unfolding m_def by (rule magnitude_word)
  have v0: "sint v \<noteq> 0" using False by (simp only: signed_eq_0_iff not_False_eq_True)
  then have u0: "0 < unat m" by (simp add: m)
  then have m0: "m \<noteq> 0" by auto
  have "2 ^ 63 \<le> unat m * 2 ^ 64" using u0 by simp
  then obtain j where j: "integer_loop 64 m 0 = Some (push_bit j m, j)" "2 ^ 63 \<le> unat m * 2 ^ j" "unat m * 2 ^ j < 2 ^ 64"
    using integer_loop_some [of m 64 0] m0 by auto
  have j63: "j \<le> 63"
  proof (rule ccontr)
    assume "\<not> j \<le> 63"
    then have "1 * 2 ^ 64 \<le> unat m * 2 ^ j" using u0 power_increasing [of 64 j "2 :: nat"] by (intro mult_le_mono) simp_all
    then show False using j(3) by simp
  qed
  have p: "unat (push_bit j m) = unat m * 2 ^ j" using j(3) by (simp only: unat_push) (simp add: mult.commute)
  define e where "e = \<lparr>e8_signif = push_bit j m, e8_sign_exp = (if sint v < 0 then EXT80_SIGN_BIT else 0) OR word_of_int (16446 - int j)\<rparr>"
  have f: "x86p_ext80_from_int v = Some e"
    using False j(1) unfolding x86p_ext80_from_int_def Let_def m_def [symmetric] e_def X86P_EXT80_BIAS_def
    by (simp add: or.commute)
  have k: "(if sint v < 0 then EXT80_SIGN_BIT else 0) = 0 \<or> (if sint v < 0 then EXT80_SIGN_BIT else 0) = 0x8000"
    by (simp add: EXT80_SIGN_BIT_def)
  have r: "0 \<le> 16446 - int j" "16446 - int j \<le> 0x7FFF" using j63 by simp_all
  note pk = packed [OF k r]
  have x: "ext80_exponent e = 16446 - int j" 
    unfolding ext80_exponent_def e_def ext80.select_convs pk(2) using r(1) by (rule int_nat_eq [THEN trans, OF if_P])
  have s: "ext80_sign e = (if sint v < 0 then -1 else 1)" 
    unfolding ext80_sign_def e_def ext80.select_convs pk(1) by (simp add: EXT80_SIGN_BIT_def)
  have g: "e8_signif e = push_bit j m" by (simp add: e_def)
  have "max 1 (16446 - int j) - 16446 = - int j" using j63 by simp
  then have "ext80_value e = ext80_sign e * real (unat m * 2 ^ j) * (1 / 2 ^ j)"
    unfolding ext80_value_def x g p by (simp only: neg_powi)
  also have "\<dots> = ext80_sign e * real (nat \<bar>sint v\<bar>)" unfolding m by simp
  also have "\<dots> = of_int (sint v)" unfolding s by (rule integer_with_sign)
  finally show ?thesis by (intro exI [of _ e]) (use f x j63 j(2) g p in simp)
qed

text \<open>
  C29. Every 64-bit integer that FILD loads is stored unchanged by a 64-bit FIST, whatever rounding
  the control word asks for: the load always ends and loses nothing.
\<close>

theorem fild_fist_roundtrip:
  "\<exists>e. x86p_ext80_from_int v = Some e \<and> ext80_value e = of_int (sint v) \<and> (\<forall>control. x86p_ext80_to_int control e 8 = Some v)"
proof -
  obtain e where e: "x86p_ext80_from_int v = Some e" "ext80_value e = of_int (sint v)" "ext80_exponent e \<noteq> 0x7FFF"
      "ext80_exponent e \<noteq> 0 \<longrightarrow> 2 ^ 63 \<le> unat (e8_signif e)"
    using from_int_value [of v] by blast
  have "x86p_ext80_to_int control e 8 = Some v" for control
    using to_int_rounds [of 8 e control] e(3,4) sint_greater_eq [of v] sint_less [of v]
    unfolding e(2) rounded_whole by simp
  then show ?thesis using e(1,2) by blast
qed

end
