(* ===== verification/X86_Ext80_Multiply.thy ===== *)
theory X86_Ext80_Multiply
  imports X86_Ext80_Arith_Properties
begin

text \<open>
  Multiplication in the extended format is correctly rounded.
\<close>

section \<open>The normalised product\<close>

definition mul_normalised :: "u64 \<Rightarrow> u64 \<Rightarrow> int \<Rightarrow> u64 \<times> u64 \<times> bool \<times> int" where
  "mul_normalised a b e =
     (case mul64_to_128 a b of (hi, lo) \<Rightarrow>
        if drop_bit 63 hi = 0 then (push_bit 1 hi OR drop_bit 63 lo, push_bit 1 lo, False, e - 1) else (hi, lo, False, e))"

lemma double_pair:
  assumes "unat hi < 2 ^ 63"
  shows "unat (push_bit 1 hi OR drop_bit 63 lo) * 2 ^ 64 + unat (push_bit 1 lo) = 2 * (unat hi * 2 ^ 64 + unat (lo :: u64))"
    "unat (push_bit 1 hi OR drop_bit 63 lo) = 2 * unat hi + unat lo div 2 ^ 63"
proof -
  have l: "unat lo div 2 ^ 63 < 2" using unat_lt64 [of lo] by (simp add: less_mult_imp_div_less)
  have h: "unat (push_bit 1 hi OR drop_bit 63 lo) = unat hi * 2 ^ 1 mod 2 ^ 64 + unat lo div 2 ^ 63"
    using l by (subst unat_or_low) (simp_all add: unat_drop)
  then show u: "unat (push_bit 1 hi OR drop_bit 63 lo) = 2 * unat hi + unat lo div 2 ^ 63" using assms by simp
  have "2 * unat lo = (2 * unat lo) div 2 ^ 64 * 2 ^ 64 + (2 * unat lo) mod 2 ^ 64" by (simp only: div_mult_mod_eq)
  moreover have "(2 * unat lo) div 2 ^ 64 = unat lo div 2 ^ 63" by simp
  ultimately show "unat (push_bit 1 hi OR drop_bit 63 lo) * 2 ^ 64 + unat (push_bit 1 lo) = 2 * (unat hi * 2 ^ 64 + unat lo)"
    unfolding u unat_push by (simp add: mult.commute)
qed

lemma mul_stands_for:
  assumes "2 ^ 63 \<le> unat a" "2 ^ 63 \<le> unat b"
  shows "\<exists>hi lo e' x. mul_normalised a b e = (hi, lo, False, e') \<and> stands_for (hi, lo, False, e') x e' \<and>
     x * 2 powi (e' - 16510) = real (unat a) * real (unat b) * 2 powi (e - 16510)"
proof -
  obtain hi lo where m: "mul64_to_128 a b = (hi, lo)" by fastforce
  note p = mul64_exact [OF m]
  have pr: "real (unat hi * 2 ^ 64 + unat lo) = real (unat a) * real (unat b)" unfolding p by simp
  show ?thesis
  proof (cases "unat hi < 2 ^ 63")
    case True
    let ?h = "push_bit 1 hi OR drop_bit 63 lo" and ?l = "push_bit 1 lo"
    note d = double_pair [OF True, of lo]
    have "2 ^ 63 * 2 ^ 63 \<le> unat hi * 2 ^ 64 + unat lo" unfolding p using assms by (rule mult_le_mono)
    then have "2 ^ 126 \<le> unat hi * 2 ^ 64 + unat lo" by simp
    then have "2 ^ 62 \<le> unat hi"
      using unat_lt64 [of lo] by (cases "2 ^ 62 \<le> unat hi") simp_all
    then have "2 ^ 63 \<le> unat ?h" unfolding d(2) by simp
    then have "stands_for (?h, ?l, False, e - 1) (real (unat ?h * 2 ^ 64 + unat ?l)) (e - 1)" by (simp add: stands_for_def)
    moreover have "real (unat ?h * 2 ^ 64 + unat ?l) * 2 powi (e - 1 - 16510) = real (unat a) * real (unat b) * 2 powi (e - 16510)"
      unfolding d(1) using pr powi_sum [of 1 "e - 1 - 16510"] by simp
    ultimately show ?thesis using True by (auto simp: mul_normalised_def m top_bit)
  next
    case False
    then have "stands_for (hi, lo, False, e) (real (unat hi * 2 ^ 64 + unat lo)) e" by (simp add: stands_for_def)
    then show ?thesis using False pr by (auto simp: mul_normalised_def m top_bit)
  qed
qed

lemma mul_alt:
  assumes "x86p_ext80_control_is_ordinary control" "x86p_ext80_is_normal x" "x86p_ext80_is_normal y"
  shows "x86p_ext80_mul_ordinary control x y flags =
     round_sum ((e8_sign_exp x XOR e8_sign_exp y) AND 0x8000) flags
       (mul_normalised (e8_signif x) (e8_signif y) (ext80_exponent x + ext80_exponent y - 16382))"
proof -
  obtain hi lo where m: "mul64_to_128 (e8_signif x) (e8_signif y) = (hi, lo)" by fastforce
  note z = normal_not_zero [OF assms(2)] normal_not_zero [OF assms(3)]
  have e: "ext80_exponent x + ext80_exponent y - 16382 =
      int (unat (e8_sign_exp x AND 0x7FFF)) + int (unat (e8_sign_exp y AND 0x7FFF)) - (X86P_EXT80_BIAS - 1)"
    unfolding ext80_exponent_def X86P_EXT80_BIAS_def by simp
  show ?thesis
    unfolding x86p_ext80_mul_ordinary_def mul_normalised_def round_sum_def e Let_def m prod.case
    by (cases "drop_bit 63 hi = 0")
      (simp_all only: assms z if_True if_False simp_thms prod.case or.commute [of "if _ \<noteq> _ then _ else _"])
qed

lemma and_single_bit: "w AND 2 ^ n = (if bit w n then 2 ^ n else 0 :: 'a::len word)"
  by (rule bit_eqI) (auto simp: bit_simps)

lemma xor_sign:
  "sign_of ((e8_sign_exp x XOR e8_sign_exp y) AND 0x8000) = ext80_sign x * ext80_sign y"
  "(e8_sign_exp x XOR e8_sign_exp y) AND 0x8000 = 0 \<or> (e8_sign_exp x XOR e8_sign_exp y) AND 0x8000 = 0x8000"
proof -
  have b: "w AND 0x8000 = (if bit w 15 then 0x8000 else 0)" for w :: u16
    using and_single_bit [of w 15] by simp
  show "(e8_sign_exp x XOR e8_sign_exp y) AND 0x8000 = 0 \<or> (e8_sign_exp x XOR e8_sign_exp y) AND 0x8000 = 0x8000"
    by (simp add: b)
  show "sign_of ((e8_sign_exp x XOR e8_sign_exp y) AND 0x8000) = ext80_sign x * ext80_sign y"
    by (simp add: b sign_of_def ext80_sign_def bit_xor_iff)
qed

section \<open>The theorem\<close>

lemma zero_or_normal_value:
  "x86p_ext80_is_normal_or_zero v \<Longrightarrow> ext80_value v = 0 \<longleftrightarrow> x86p_ext80_is_zero v"
proof -
  assume "x86p_ext80_is_normal_or_zero v"
  then consider "x86p_ext80_is_zero v" | "x86p_ext80_is_normal v" by (auto simp: x86p_ext80_is_normal_or_zero_def)
  then show ?thesis
  proof cases
    case 1
    then show ?thesis by (simp add: zero_value)
  next
    case 2
    then have "real (unat (e8_signif v)) \<noteq> 0" unfolding of_nat_eq_0_iff by (auto simp: normal_iff)
    then show ?thesis using normal_not_zero [OF 2] unfolding normal_value [OF 2] by simp
  qed
qed

lemma product_value:
  assumes "x86p_ext80_is_normal x" "x86p_ext80_is_normal y"
  shows "ext80_value x * ext80_value y =
     (ext80_sign x * ext80_sign y) * (real (unat (e8_signif x)) * real (unat (e8_signif y)) *
       2 powi (ext80_exponent x + ext80_exponent y - 16382 - 16510))"
  using powi_sum [of "ext80_exponent x - 16446" "ext80_exponent y - 16446"]
  by (simp add: normal_value [OF assms(1)] normal_value [OF assms(2)] mult_ac)

text \<open>
  C6. Multiplication of normals and zeros under the ordinary control word: an answer is the exact
  product of the two real numbers rounded to 64 bits, nearest, ties to even, with the inexact and
  rounded-up bits set exactly when they should be; a product of zero has the sign the signs make and
  raises nothing; and an operation is refused only when no normal number is the rounded product.
\<close>

theorem multiply_correctly_rounded:
  assumes "x86p_ext80_control_is_ordinary control" and "x86p_ext80_is_normal_or_zero x" and "x86p_ext80_is_normal_or_zero y"
  shows "case x86p_ext80_mul_ordinary control x y flags of
      None \<Rightarrow> ext80_value x * ext80_value y \<noteq> 0 \<and>
        (\<forall>v. x86p_ext80_is_normal v \<longrightarrow> \<not> rounds_to 64 (ext80_value x * ext80_value y) (ext80_value v))
    | Some (out, flags') \<Rightarrow>
        if ext80_value x * ext80_value y = 0
        then x86p_ext80_is_zero out \<and> ext80_sign out = ext80_sign x * ext80_sign y \<and> flags' = flags
        else correctly_rounded (ext80_value x * ext80_value y) flags out flags'"
proof (cases "x86p_ext80_is_zero x \<or> x86p_ext80_is_zero y")
  case True
  let ?out = "\<lparr>e8_signif = 0, e8_sign_exp = (e8_sign_exp x XOR e8_sign_exp y) AND 0x8000\<rparr>"
  have "x86p_ext80_mul_ordinary control x y flags = Some (?out, flags)"
    using assms True by (simp add: x86p_ext80_mul_ordinary_def)
  moreover have "ext80_sign ?out = ext80_sign x * ext80_sign y"
    using xor_sign [of x y] by (auto simp: ext80_sign_def [of ?out] sign_of_def and.assoc)
  moreover have "x86p_ext80_is_zero ?out" by (simp add: x86p_ext80_is_zero_def and.assoc)
  moreover have "ext80_value x * ext80_value y = 0"
    using True zero_or_normal_value [OF assms(2)] zero_or_normal_value [OF assms(3)] by auto
  ultimately show ?thesis by simp
next
  case False
  then have n: "x86p_ext80_is_normal x" "x86p_ext80_is_normal y"
    using assms(2,3) by (simp_all add: x86p_ext80_is_normal_or_zero_def)
  have nz: "ext80_value x * ext80_value y \<noteq> 0"
    using False zero_or_normal_value [OF assms(2)] zero_or_normal_value [OF assms(3)] by simp
  obtain hi lo e r where m: "mul_normalised (e8_signif x) (e8_signif y) (ext80_exponent x + ext80_exponent y - 16382) = (hi, lo, False, e)"
      "stands_for (hi, lo, False, e) r e"
      "r * 2 powi (e - 16510) = real (unat (e8_signif x)) * real (unat (e8_signif y)) *
        2 powi (ext80_exponent x + ext80_exponent y - 16382 - 16510)"
    using mul_stands_for n [unfolded normal_iff] by metis
  note a = mul_alt [OF assms(1) n, of flags, unfolded m(1)]
  have v: "ext80_value x * ext80_value y = sign_of ((e8_sign_exp x XOR e8_sign_exp y) AND 0x8000) * (r * 2 powi (e - 16510))"
    unfolding m(3) xor_sign(1) by (rule product_value [OF n])
  show ?thesis
  proof (cases "x86p_ext80_mul_ordinary control x y flags")
    case None
    then show ?thesis using round_sum_refuses [OF None [unfolded a] m(2)] nz unfolding v by simp
  next
    case (Some p)
    obtain out flags' where p: "p = (out, flags')" by fastforce
    show ?thesis using round_sum_correct [OF Some [unfolded a p] m(2) xor_sign(2)] Some p nz unfolding v by simp
  qed
qed

text \<open>For evaluating an operation on given operands.\<close>

lemmas ext80_eval = x86p_ext80_control_is_ordinary_def x86p_ext80_is_zero_def x86p_ext80_is_normal_def
  x86p_ext80_is_normal_or_zero_def X86P_X87_RC_MASK_def X86P_X87_RC_NEAREST_def X86P_X87_PC_MASK_def X86P_X87_PC_EXTENDED_def
  X86P_EXT80_BIAS_def exponent_in_range_def kRoundedUp_def kInexact_def EXT80_EXP_MAX_def EXT80_INTEGER_BIT_def
  EXT80_SIGN_BIT_def EXT80_QUIET_BIT_def

text \<open>1.5 times the number after 1, which rounds down to an even significand.\<close>

theorem multiply_correctly_rounded_witness:
  "let x = \<lparr>e8_signif = 0xC000000000000000, e8_sign_exp = 0x3FFF\<rparr>; y = \<lparr>e8_signif = 0x8000000000000001, e8_sign_exp = 0x3FFF\<rparr>;
       out = \<lparr>e8_signif = 0xC000000000000002, e8_sign_exp = 0x3FFF\<rparr>
   in x86p_ext80_mul_ordinary 0x037F x y 0 = Some (out, 0x220) \<and> correctly_rounded (ext80_value x * ext80_value y) 0 out 0x220"
proof -
  let ?x = "\<lparr>e8_signif = 0xC000000000000000, e8_sign_exp = 0x3FFF\<rparr>" and ?y = "\<lparr>e8_signif = 0x8000000000000001, e8_sign_exp = 0x3FFF\<rparr>"
    and ?out = "\<lparr>e8_signif = 0xC000000000000002, e8_sign_exp = 0x3FFF\<rparr>"
  have c: "x86p_ext80_control_is_ordinary 0x037F" by (simp add: ext80_eval)
  have n: "x86p_ext80_is_normal_or_zero ?x" "x86p_ext80_is_normal_or_zero ?y" by (simp_all add: ext80_eval)
  have m: "mul64_to_128 0xC000000000000000 0x8000000000000001 = (0x6000000000000000, 0xC000000000000000)"
    by (simp add: mul64_to_128_def Let_def)
  have r: "x86p_ext80_mul_ordinary 0x037F ?x ?y 0 = Some (?out, 0x220)"
    unfolding x86p_ext80_mul_ordinary_def ext80.simps m prod.case by (simp add: ext80_eval)
  have "ext80_value ?x * ext80_value ?y \<noteq> 0"
    using zero_or_normal_value [OF n(1)] zero_or_normal_value [OF n(2)] by (simp add: x86p_ext80_is_zero_def)
  then show ?thesis using multiply_correctly_rounded [OF c n, of 0] r by (simp add: Let_def)
qed

end
