(* ===== verification/X86_Ext80_Add.thy ===== *)
theory X86_Ext80_Add
  imports X86_Ext80_Multiply
begin

text \<open>
  Addition and subtraction in the extended format are correctly rounded, with operands whose
  exponents are any distance apart.
\<close>

section \<open>Alignment\<close>

lemma floor_parts:
  fixes a b :: nat
  assumes "0 < b"
  shows "real (a div b) \<le> real a / real b" "real a / real b < real (a div b) + 1"
    "real a / real b \<noteq> real (a div b) \<longleftrightarrow> a mod b \<noteq> 0"
proof -
  have e: "real a = real (a div b) * real b + real (a mod b)"
    by (simp only: of_nat_mult [symmetric] of_nat_add [symmetric] div_mult_mod_eq)
  have b: "0 < real b" using assms by simp
  have q: "real a / real b = real (a div b) + real (a mod b) / real b" using b by (simp add: e add_divide_distrib)
  have m: "real (a mod b) < real b" using assms by simp
  show "real (a div b) \<le> real a / real b" "real a / real b < real (a div b) + 1"
    "real a / real b \<noteq> real (a div b) \<longleftrightarrow> a mod b \<noteq> 0"
    unfolding q using b m by (simp_all add: field_simps)
qed

lemma align_parts:
  assumes "align_smaller s d = (shi, slo, sticky)" and "s \<noteq> 0"
  shows "unat shi * 2 ^ 64 + unat slo = unat s * 2 ^ 64 div 2 ^ d" "sticky \<longleftrightarrow> unat s * 2 ^ 64 mod 2 ^ d \<noteq> 0"
    "sticky \<Longrightarrow> 64 < d"
proof -
  consider "d = 0" | "0 < d" "d < 64" | "d = 64" | "64 < d" "d < 128" | "128 \<le> d" by linarith
  then have "unat shi * 2 ^ 64 + unat slo = unat s * 2 ^ 64 div 2 ^ d \<and> (sticky \<longleftrightarrow> unat s * 2 ^ 64 mod 2 ^ d \<noteq> 0) \<and>
      (sticky \<longrightarrow> 64 < d)"
  proof cases
    case 1
    then show ?thesis using assms by (auto simp: align_smaller_def)
  next
    case 2
    have p: "(2 :: nat) ^ 64 = 2 ^ d * 2 ^ (64 - d)" using 2 by (simp only: power_add [symmetric]) simp
    have s: "unat s * 2 ^ 64 = unat s * 2 ^ (64 - d) * 2 ^ d" by (simp only: p ac_simps)
    have q: "unat s * 2 ^ 64 div 2 ^ d = unat s * 2 ^ (64 - d)" "unat s * 2 ^ 64 mod 2 ^ d = 0" unfolding s by simp_all
    have "unat s * 2 ^ (64 - d) div 2 ^ 64 = unat s div 2 ^ d" unfolding p by simp
    moreover have "unat shi = unat s div 2 ^ d" "unat slo = unat s * 2 ^ (64 - d) mod 2 ^ 64"
      using assms(1) 2 unat_drop [of d s] unat_push [of "64 - d" s] by (auto simp: align_smaller_def)
    ultimately have "unat shi * 2 ^ 64 + unat slo = unat s * 2 ^ (64 - d)" by (metis div_mult_mod_eq)
    moreover have "\<not> sticky" using assms(1) 2 by (auto simp: align_smaller_def)
    ultimately show ?thesis unfolding q by simp
  next
    case 3
    then show ?thesis using assms by (auto simp: align_smaller_def)
  next
    case 4
    have p: "(2 :: nat) ^ d = 2 ^ (d - 64) * 2 ^ 64" "(2 :: nat) ^ 64 = 2 ^ (d - 64) * 2 ^ (128 - d)"
      using 4 by (simp_all only: power_add [symmetric]) simp_all
    have q: "unat s * 2 ^ 64 div 2 ^ d = unat s div 2 ^ (d - 64)" unfolding p(1) by simp
    have r: "unat s * 2 ^ 64 mod 2 ^ d = unat s mod 2 ^ (d - 64) * 2 ^ 64" unfolding p(1) by (rule mult_mod_left [symmetric])
    have "unat (push_bit (128 - d) s) = unat s mod 2 ^ (d - 64) * 2 ^ (128 - d)"
      unfolding unat_push p(2) by (rule mult_mod_left [symmetric])
    then have "push_bit (128 - d) s \<noteq> 0 \<longleftrightarrow> unat s mod 2 ^ (d - 64) \<noteq> 0"
      by (metis mult_eq_0_iff power_not_zero unat_eq_0 unat_0 zero_neq_numeral)
    then show ?thesis using assms(1) 4 q r by (auto simp: align_smaller_def unat_drop)
  next
    case 5
    have "unat s * 2 ^ 64 < 2 ^ 128" using unat_lt64 [of s] by simp
    also have "(2 :: nat) ^ 128 \<le> 2 ^ d" using 5 by (intro power_increasing) simp_all
    finally have l: "unat s * 2 ^ 64 < 2 ^ d" .
    have "unat s \<noteq> 0" using assms(2) by (simp add: unat_eq_0)
    then show ?thesis using assms(1) 5 l by (auto simp: align_smaller_def)
  qed
  then show "unat shi * 2 ^ 64 + unat slo = unat s * 2 ^ 64 div 2 ^ d" "sticky \<longleftrightarrow> unat s * 2 ^ 64 mod 2 ^ d \<noteq> 0"
    "sticky \<Longrightarrow> 64 < d" by blast+
qed

text \<open>The aligned operand in units of the pair, with what fell below it.\<close>

definition aligned :: "u64 \<Rightarrow> nat \<Rightarrow> real" where
  "aligned s d = real (unat s * 2 ^ 64) / real ((2 :: nat) ^ d)"

definition approximates :: "nat \<Rightarrow> bool \<Rightarrow> real \<Rightarrow> bool" where
  "approximates n sticky x \<longleftrightarrow> real n \<le> x \<and> x < real n + 1 \<and> (sticky \<longleftrightarrow> x \<noteq> real n)"

lemma align_approximates:
  assumes "align_smaller s d = (shi, slo, sticky)" and "s \<noteq> 0"
  shows "approximates (unat shi * 2 ^ 64 + unat slo) sticky (aligned s d)"
  unfolding approximates_def aligned_def align_parts(1,2) [OF assms]
  using floor_parts [of "2 ^ d" "unat s * 2 ^ 64"] by simp

section \<open>The same sign\<close>

lemma unat_sum:
  "unat (b + c :: u64) = (if unat b + unat c < 2 ^ 64 then unat b + unat c else unat b + unat c - 2 ^ 64)"
  using unat_lt64 [of b] unat_lt64 [of c] by (auto simp: unat_add64 le_mod_geq)

lemma add_magnitudes_stands_for:
  assumes "add_magnitudes b shi slo sticky e = (hi, lo, sticky', e')" and "2 ^ 63 \<le> unat b"
    and "approximates (unat shi * 2 ^ 64 + unat slo) sticky t"
  shows "\<exists>x. stands_for (hi, lo, sticky', e') x e' \<and> x * 2 powi (e' - 16510) = (real (unat b) * 2 ^ 64 + t) * 2 powi (e - 16510)"
proof (cases "b + shi < b")
  case False
  then have "unat b + unat shi < 2 ^ 64"
    using unat_lt64 [of shi] by (cases "unat b + unat shi < 2 ^ 64") (simp_all add: word_less_nat_alt unat_sum)
  then have h: "unat (b + shi) = unat b + unat shi" by (simp add: unat_add64)
  have r: "hi = b + shi" "lo = slo" "sticky' = sticky" "e' = e" using assms(1) False by (auto simp: add_magnitudes_def Let_def)
  define k where "k = real (unat shi * 2 ^ 64 + unat slo)"
  have hr: "real (unat (b + shi) * 2 ^ 64 + unat slo) = real (unat b) * 2 ^ 64 + k"
    unfolding h k_def by (simp add: algebra_simps)
  have "stands_for (hi, lo, sticky', e') (real (unat b) * 2 ^ 64 + t) e'"
    using assms(2,3) unfolding stands_for_def approximates_def prod.case r hr k_def [symmetric] by (auto simp: h)
  then show ?thesis unfolding r by blast
next
  case True
  then have c: "2 ^ 64 \<le> unat b + unat shi"
    by (cases "unat b + unat shi < 2 ^ 64") (simp_all add: word_less_nat_alt unat_sum)
  define s where "s = unat b + unat shi - 2 ^ 64"
  have s: "unat b + unat shi = 2 ^ 64 + s" "s < 2 ^ 64" using c unat_lt64 [of b] unat_lt64 [of shi] by (simp_all add: s_def)
  have h: "unat (b + shi) = s" using s by (simp add: unat_add64)
  have r: "hi = drop_bit 1 (b + shi) OR 0x8000000000000000" "lo = drop_bit 1 slo OR push_bit 63 (b + shi)"
    "sticky' = (sticky \<or> slo AND 1 \<noteq> 0)" "e' = e + 1"
    using assms(1) True by (auto simp: add_magnitudes_def Let_def)
  have hi: "unat hi = 2 ^ 63 + s div 2"
    using unat_or_low [of "drop_bit 1 (b + shi)" 63 1] s(2) by (simp add: r(1) or.commute unat_drop h)
  have lo: "unat lo = s mod 2 * 2 ^ 63 + unat slo div 2"
  proof -
    have "unat slo div 2 < 2 ^ 63" using unat_lt64 [of slo] by simp
    then have "unat lo = s * 2 ^ 63 mod 2 ^ 64 + unat slo div 2"
      using unat_or_low [of "drop_bit 1 slo" 63 "b + shi"] by (simp add: r(2) or.commute unat_drop h)
    moreover have "s * 2 ^ 63 mod (2 * 2 ^ 63) = s mod 2 * 2 ^ 63" by (rule mult_mod_left [symmetric])
    ultimately show ?thesis by simp
  qed
  let ?n = "unat hi * 2 ^ 64 + unat lo"
  define n where "n = (2 ^ 64 + s) * 2 ^ 64 + unat slo"
  have n2: "n = 2 * ?n + unat slo mod 2"
  proof -
    have "s * 2 ^ 64 = (2 * (s div 2) + s mod 2) * 2 ^ 64" "unat slo = 2 * (unat slo div 2) + unat slo mod 2" by simp_all
    then show ?thesis unfolding n_def hi lo add_mult_distrib add_mult_distrib2 by simp
  qed
  have t: "real (unat b) * 2 ^ 64 + t = real n + (t - real (unat shi * 2 ^ 64 + unat slo))"
  proof -
    have "real ((unat b + unat shi) * 2 ^ 64 + unat slo) = real n" unfolding n_def s(1) ..
    then show ?thesis by (simp add: algebra_simps)
  qed
  define f where "f = t - real (unat shi * 2 ^ 64 + unat slo)"
  have f: "0 \<le> f" "f < 1" "sticky \<longleftrightarrow> f \<noteq> 0" using assms(3) by (auto simp: approximates_def f_def)
  define m where "m = real (unat slo mod 2)"
  have m: "m = 0 \<or> m = 1" "slo AND 1 \<noteq> 0 \<longleftrightarrow> m \<noteq> 0" unfolding m_def odd_word by (auto simp: odd_iff_mod_2_eq_one)
  have x: "(real (unat b) * 2 ^ 64 + t) / 2 = real ?n + (m + f) / 2"
    unfolding t f_def [symmetric] n2 m_def by (simp add: add_divide_distrib)
  have "stands_for (hi, lo, sticky', e') ((real (unat b) * 2 ^ 64 + t) / 2) e'"
    unfolding stands_for_def x prod.case using f m hi by (auto simp: r(3))
  moreover have "((real (unat b) * 2 ^ 64 + t) / 2) * 2 powi (e' - 16510) = (real (unat b) * 2 ^ 64 + t) * 2 powi (e - 16510)"
    unfolding r(4) using powi_sum [of 1 "e - 16510"] by (simp add: algebra_simps)
  ultimately show ?thesis by blast
qed

end
