(* ===== verification/X86_Ext80_Subtract.thy ===== *)
theory X86_Ext80_Subtract
  imports X86_Ext80_Add
begin

text \<open>
  Opposite signs and the normalisation that follows a cancellation.
\<close>

section \<open>Opposite signs\<close>

lemma unat_neg: "slo \<noteq> 0 \<Longrightarrow> unat (0 - slo :: u64) = 2 ^ 64 - unat slo"
proof -
  assume "slo \<noteq> 0"
  then have "0 < unat slo" by (simp add: unat_gt_0)
  moreover have "(0 - slo) + slo = 0" by simp
  then have "unat ((0 - slo) + slo) = 0" by (simp only: unat_0)
  ultimately show ?thesis unfolding unat_sum by (simp split: if_splits)
qed

lemma sub_pair_exact:
  assumes "unat shi * 2 ^ 64 + unat slo \<le> unat b * 2 ^ 64"
  shows "unat (b - shi - (if slo \<noteq> 0 then 1 else 0)) * 2 ^ 64 + unat (0 - slo :: u64) =
     unat b * 2 ^ 64 - (unat shi * 2 ^ 64 + unat slo)"
proof (cases "slo = 0")
  case True
  then have "shi \<le> b" using assms by (simp add: word_le_nat_alt)
  then show ?thesis using True by (simp add: unat_sub diff_mult_distrib)
next
  case False
  then have z: "0 < unat slo" by (simp add: unat_gt_0)
  have lt: "unat shi < unat b"
  proof (rule ccontr)
    assume "\<not> unat shi < unat b"
    then have "unat b * 2 ^ 64 \<le> unat shi * 2 ^ 64" by simp
    then show False using assms z by linarith
  qed
  then have "shi \<le> b" "1 \<le> b - shi" by (simp_all add: word_le_nat_alt unat_sub)
  then have "unat (b - shi - 1) = unat b - unat shi - 1" by (simp add: unat_sub)
  moreover have "unat b = unat shi + 1 + (unat b - unat shi - 1)" using lt by simp
  then have "unat b * 2 ^ 64 = (unat shi + 1 + (unat b - unat shi - 1)) * 2 ^ 64" by simp
  ultimately show ?thesis using False unat_neg [OF False] unat_lt64 [of slo] by (simp add: add_mult_distrib)
qed

lemma sub_pair_approximates:
  assumes "sub_pair b shi slo sticky = (hi, lo)" and "approximates (unat shi * 2 ^ 64 + unat slo) sticky t"
    and "t \<le> real (unat b * 2 ^ 64)"
  shows "approximates (unat hi * 2 ^ 64 + unat lo) sticky (real (unat b * 2 ^ 64) - t)"
proof -
  define n where "n = unat shi * 2 ^ 64 + unat slo"
  define B where "B = unat b * 2 ^ 64"
  have t: "real n \<le> t" "t < real n + 1" "sticky \<longleftrightarrow> t \<noteq> real n" "t \<le> real B"
    using assms(2,3) by (simp_all add: approximates_def n_def B_def)
  have "real n \<le> real B" using t(1,4) by linarith
  then have nb: "n \<le> B" by simp
  define h l where hl: "h = b - shi - (if slo \<noteq> 0 then 1 else 0)" "l = 0 - slo"
  have m: "unat h * 2 ^ 64 + unat l = B - n"
    using sub_pair_exact [of shi slo b] nb by (simp add: hl n_def B_def)
  show ?thesis
  proof (cases sticky)
    case False
    then have "hi = h" "lo = l" using assms(1) by (simp_all add: sub_pair_def Let_def hl)
    moreover have "real (B - n) = real B - real n" using nb by simp
    ultimately show ?thesis using False t m unfolding approximates_def B_def [symmetric] by auto
  next
    case True
    then have "real n < real B" using t by linarith
    then have p: "n < B" by simp
    have r: "(hi, lo) = (if l = 0 then (h - 1, -1) else (h, l - 1))"
      using assms(1) True by (auto simp: sub_pair_def Let_def hl split: if_splits)
    have "unat hi * 2 ^ 64 + unat lo = B - n - 1"
    proof (cases "l = 0")
      case l: True
      then have "unat h * 2 ^ 64 = B - n" using m by simp
      then have h: "0 < unat h" using p by (cases "unat h") simp_all
      then have "unat (h - 1) = unat h - 1" by (simp add: unat_sub word_le_nat_alt)
      moreover have "unat (-1 :: u64) = 2 ^ 64 - 1" by (simp add: unsigned_minus_1_eq_mask mask_eq_exp_minus_1)
      ultimately show ?thesis using r l m h by (cases "unat h") simp_all
    next
      case l: False
      then have "0 < unat l" by (simp add: unat_gt_0)
      then have "unat (l - 1) = unat l - 1" by (simp add: unat_sub word_le_nat_alt)
      then show ?thesis using r l m \<open>0 < unat l\<close> by simp
    qed
    moreover have "real (B - n - 1) = real B - real n - 1" using p by simp
    ultimately show ?thesis using True t unfolding approximates_def B_def [symmetric] by auto
  qed
qed

section \<open>Normalisation\<close>

lemma clz_loop_some:
  assumes "2 ^ 63 \<le> unat v * 2 ^ k" and "v \<noteq> 0"
  shows "\<exists>j. clz64_loop k v n = Some (n + j) \<and> j \<le> k \<and> 2 ^ 63 \<le> unat v * 2 ^ j \<and> unat v * 2 ^ j < 2 ^ 64"
  using assms
proof (induction k arbitrary: v n)
  case 0
  then show ?case using unat_lt64 [of v] by (auto simp: top_bit)
next
  case (Suc k)
  show ?case
  proof (cases "unat v < 2 ^ 63")
    case True
    then have u: "unat (push_bit 1 v) = unat v * 2" by (simp only: unat_push) simp
    moreover have "push_bit 1 v \<noteq> 0" using Suc.prems(2) u by (auto simp: unat_eq_0 [symmetric])
    ultimately obtain j where "clz64_loop k (push_bit 1 v) (n + 1) = Some (n + 1 + j)" "j \<le> k"
        "2 ^ 63 \<le> unat v * 2 * 2 ^ j" "unat v * 2 * 2 ^ j < 2 ^ 64"
      using Suc.IH [of "push_bit 1 v" "n + 1"] Suc.prems(1) by (auto simp: mult.assoc)
    then show ?thesis using True by (intro exI [of _ "Suc j"]) (simp add: top_bit mult.assoc)
  next
    case False
    then show ?thesis using unat_lt64 [of v] by (intro exI [of _ 0]) (simp add: top_bit)
  qed
qed

lemma clz_some:
  assumes "v \<noteq> 0"
  shows "\<exists>j. clz64 v = Some j \<and> j \<le> 63 \<and> 2 ^ 63 \<le> unat v * 2 ^ j \<and> unat v * 2 ^ j < 2 ^ 64"
proof -
  have "1 \<le> unat v" using assms by (simp add: Suc_leI unat_gt_0)
  then have "2 ^ 63 \<le> unat v * 2 ^ 63" by simp
  then show ?thesis using clz_loop_some [OF _ assms, of 63 0] by (simp add: clz64_def)
qed

lemma shift_pair:
  assumes "unat hi * 2 ^ j < 2 ^ 64" and "0 < j" and "j < 64"
  shows "unat (push_bit j hi OR drop_bit (64 - j) lo) * 2 ^ 64 + unat (push_bit j lo) = (unat hi * 2 ^ 64 + unat (lo :: u64)) * 2 ^ j"
    "unat hi * 2 ^ j \<le> unat (push_bit j hi OR drop_bit (64 - j) lo)"
proof -
  have p: "(2 :: nat) ^ 64 = 2 ^ (64 - j) * 2 ^ j" using assms(2,3) by (simp only: power_add [symmetric]) simp
  have "unat lo < 2 ^ (64 - j) * 2 ^ j" using unat_lt64 [of lo] unfolding p .
  then have d: "unat (drop_bit (64 - j) lo) < 2 ^ j" unfolding unat_drop by (simp add: less_mult_imp_div_less mult.commute)
  have h: "unat (push_bit j hi OR drop_bit (64 - j) lo) = unat hi * 2 ^ j + unat lo div 2 ^ (64 - j)"
    using unat_or_low [OF d, of hi] assms(1) unfolding unat_drop by simp
  have "unat lo * 2 ^ j div 2 ^ 64 = unat lo div 2 ^ (64 - j)" unfolding p by simp
  then have l: "unat lo div 2 ^ (64 - j) * 2 ^ 64 + unat (push_bit j lo) = unat lo * 2 ^ j"
    unfolding unat_push by (metis div_mult_mod_eq)
  show "unat (push_bit j hi OR drop_bit (64 - j) lo) * 2 ^ 64 + unat (push_bit j lo) = (unat hi * 2 ^ 64 + unat lo) * 2 ^ j"
    unfolding h add_mult_distrib using l by (simp add: mult_ac)
  show "unat hi * 2 ^ j \<le> unat (push_bit j hi OR drop_bit (64 - j) lo)" unfolding h by simp
qed

lemma exact_stands_for:
  assumes "2 ^ 63 \<le> unat hi"
  shows "stands_for (hi, lo, False, e) (real (unat hi * 2 ^ 64 + unat lo)) e"
  using assms by (simp add: stands_for_def)

lemma scaled_value:
  "x * 2 ^ k * 2 powi (e - int k - 16510) = (x :: real) * 2 powi (e - 16510)"
  using powi_sum [of "int k" "e - int k - 16510"] by simp

lemma normalise_pair_stands_for:
  assumes "approximates (unat hi * 2 ^ 64 + unat lo) sticky x" and "\<not> (hi = 0 \<and> lo = 0)"
    and "sticky \<Longrightarrow> 2 ^ 62 \<le> unat hi"
  shows "\<exists>hi' lo' e' x'. normalise_pair hi lo e = Some (hi', lo', e') \<and> stands_for (hi', lo', sticky, e') x' e' \<and>
     x' * 2 powi (e' - 16510) = x * 2 powi (e - 16510)"
proof (cases "unat hi < 2 ^ 63")
  case False
  then have "stands_for (hi, lo, sticky, e) x e" using assms(1) by (simp add: stands_for_def approximates_def)
  then show ?thesis using False by (auto simp: normalise_pair_def top_bit)
next
  case small: True
  show ?thesis
  proof (cases sticky)
    case True
    then have h: "2 ^ 62 \<le> unat hi" by (rule assms(3))
    then have "hi \<noteq> 0" by auto
    then obtain j where j: "clz64 hi = Some j" "2 ^ 63 \<le> unat hi * 2 ^ j" "unat hi * 2 ^ j < 2 ^ 64" "j \<le> 63"
      using clz_some by blast
    have "j = 1"
    proof -
      have "j \<noteq> 0" using j(2) small by (cases j) simp_all
      moreover have "\<not> 2 \<le> j"
      proof
        assume "2 \<le> j"
        then have "(2 :: nat) ^ 2 \<le> 2 ^ j" by (intro power_increasing) simp_all
        then have "2 ^ 62 * 2 ^ 2 \<le> unat hi * 2 ^ j" using h by (intro mult_le_mono)
        then show False using j(3) by simp
      qed
      ultimately show ?thesis by simp
    qed
    let ?h = "push_bit 1 hi OR drop_bit 63 lo" and ?l = "push_bit 1 lo"
    have n: "normalise_pair hi lo e = Some (?h, ?l, e - 1)"
      using small \<open>hi \<noteq> 0\<close> j(1) \<open>j = 1\<close> by (simp add: normalise_pair_def top_bit)
    have "even (unat ?l)" unfolding unat_push by (rule dvd_mod) simp_all
    moreover have "2 ^ 63 \<le> unat ?h" using shift_pair(2) [of hi 1 lo] j(2,3) \<open>j = 1\<close> by simp
    moreover note p = double_pair(1) [OF small, of lo]
    have "real (unat ?h * 2 ^ 64 + unat ?l) = 2 * real (unat hi * 2 ^ 64 + unat lo)" unfolding p by simp
    ultimately have "stands_for (?h, ?l, sticky, e - 1) (2 * x) (e - 1)"
      using assms(1) unfolding stands_for_def approximates_def prod.case by auto
    moreover have "2 * x * 2 powi (e - 1 - 16510) = x * 2 powi (e - 16510)" using scaled_value [of x 1 e] by simp
    ultimately show ?thesis using n by blast
  next
    case False
    then have x: "x = real (unat hi * 2 ^ 64 + unat lo)" using assms(1) by (simp add: approximates_def)
    define h l b where hlb: "h = (if hi = 0 then lo else hi)" "l = (if hi = 0 then 0 else lo)" "b = (if hi = 0 then 64 else 0 :: nat)"
    have "h \<noteq> 0" using assms(2) by (auto simp: hlb)
    then obtain j where j: "clz64 h = Some j" "2 ^ 63 \<le> unat h * 2 ^ j" "unat h * 2 ^ j < 2 ^ 64" "j \<le> 63"
      using clz_some by blast
    have w: "(unat hi * 2 ^ 64 + unat lo) * 2 ^ b = unat h * 2 ^ 64 + unat l" by (simp add: hlb)
    let ?h = "if j \<noteq> 0 then push_bit j h OR drop_bit (64 - j) l else h" and ?l = "if j \<noteq> 0 then push_bit j l else l"
    have n: "normalise_pair hi lo e = Some (?h, ?l, e - int (b + j))"
      using small j(1) by (auto simp: normalise_pair_def top_bit hlb Let_def)
    have v: "unat ?h * 2 ^ 64 + unat ?l = (unat hi * 2 ^ 64 + unat lo) * 2 ^ (b + j)"
      using shift_pair(1) [OF j(3), of l] j(4) unfolding power_add mult.assoc [symmetric] w by (cases "j = 0") simp_all
    have "2 ^ 63 \<le> unat ?h" using shift_pair(2) [OF j(3), of l] j(2,4) by (cases "j = 0") simp_all
    then have "stands_for (?h, ?l, sticky, e - int (b + j)) (real (unat ?h * 2 ^ 64 + unat ?l)) (e - int (b + j))"
      using exact_stands_for False by simp
    moreover have "real (unat ?h * 2 ^ 64 + unat ?l) * 2 powi (e - int (b + j) - 16510) = x * 2 powi (e - 16510)"
      unfolding v x using scaled_value [of "real (unat hi * 2 ^ 64 + unat lo)" "b + j" e] by simp
    ultimately show ?thesis using n by blast
  qed
qed

section \<open>The theorem\<close>

text \<open>The magnitudes of two normals, larger first: what the pair, sticky bit and exponent stand for.\<close>

lemma aligned_bounds:
  assumes "d = 0 \<longrightarrow> unat s \<le> unat b" and "2 ^ 63 \<le> unat b"
  shows "0 \<le> aligned s d" "aligned s d \<le> real (unat b * 2 ^ 64)" "64 < d \<Longrightarrow> aligned s d \<le> 2 ^ 64"
proof -
  have s: "real (unat s * 2 ^ 64) \<le> 2 ^ 64 * 2 ^ 64"
  proof -
    have "unat s * 2 ^ 64 \<le> 2 ^ 64 * 2 ^ 64" using unat_lt64 [of s] by simp
    then have "real (unat s * 2 ^ 64) \<le> real (2 ^ 64 * 2 ^ 64)" by (simp only: of_nat_le_iff)
    then show ?thesis by simp
  qed
  show "0 \<le> aligned s d" unfolding aligned_def by (intro divide_nonneg_nonneg of_nat_0_le_iff)
  have le: "aligned s d \<le> 2 ^ 64 * 2 ^ 64 / 2 ^ n" if "n \<le> d" for n
  proof -
    have "(2 :: real) ^ n \<le> 2 ^ d" using that by (intro power_increasing) simp_all
    then have "real (unat s * 2 ^ 64) / 2 ^ d \<le> 2 ^ 64 * 2 ^ 64 / 2 ^ n" using s by (intro frac_le) simp_all
    then show ?thesis by (simp add: aligned_def)
  qed
  show "aligned s d \<le> 2 ^ 64" if "64 < d" using le [of 64] that by simp
  show "aligned s d \<le> real (unat b * 2 ^ 64)"
  proof (cases "d = 0")
    case True
    then have "unat s * 2 ^ 64 \<le> unat b * 2 ^ 64" using assms(1) by simp
    then show ?thesis using True unfolding aligned_def by (simp only: power_0 of_nat_1 div_by_1 of_nat_le_iff)
  next
    case False
    have "2 ^ 63 * 2 ^ 64 \<le> unat b * 2 ^ 64" using assms(2) by simp
    then have "real (2 ^ 63 * 2 ^ 64) \<le> real (unat b * 2 ^ 64)" by (simp only: of_nat_le_iff)
    then show ?thesis using le [of 1] False by simp
  qed
qed

lemma add_aligned_result:
  fixes same :: bool
  assumes "2 ^ 63 \<le> unat b" "2 ^ 63 \<le> unat s" "d = 0 \<longrightarrow> unat s \<le> unat b"
  defines "x \<equiv> (if same then real (unat b * 2 ^ 64) + aligned s d else real (unat b * 2 ^ 64) - aligned s d)"
  shows "(x = 0 \<and> add_aligned b s d same e = Some None) \<or>
     (\<exists>hi lo sticky e' x'. x \<noteq> 0 \<and> add_aligned b s d same e = Some (Some (hi, lo, sticky, e')) \<and>
        stands_for (hi, lo, sticky, e') x' e' \<and> x' * 2 powi (e' - 16510) = x * 2 powi (e - 16510))"
proof -
  obtain shi slo sticky where a: "align_smaller s d = (shi, slo, sticky)" using prod_cases3 by blast
  have s0: "s \<noteq> 0" using assms(2) by auto
  note ap = align_approximates [OF a s0] and ab = aligned_bounds [OF assms(3,1)]
  have b: "0 < real (unat b * 2 ^ 64)" using assms(1) by (simp only: of_nat_0_less_iff) simp
  show ?thesis
  proof (cases same)
    case True
    obtain hi lo sticky' e' where m: "add_magnitudes b shi slo sticky e = (hi, lo, sticky', e')" using prod_cases4 by blast
    have "x = real (unat b) * 2 ^ 64 + aligned s d" using True by (simp add: x_def)
    then have "\<exists>x'. stands_for (hi, lo, sticky', e') x' e' \<and> x' * 2 powi (e' - 16510) = x * 2 powi (e - 16510)"
      using add_magnitudes_stands_for [OF m assms(1) ap] by simp
    moreover have "x \<noteq> 0" using True ab(1) b by (simp add: x_def)
    moreover have "add_aligned b s d same e = Some (Some (hi, lo, sticky', e'))"
      using True by (simp add: add_aligned_def a m)
    ultimately show ?thesis by blast
  next
    case False
    obtain hi lo where p: "sub_pair b shi slo sticky = (hi, lo)" by fastforce
    have x: "x = real (unat b * 2 ^ 64) - aligned s d" using False by (simp add: x_def)
    note q = sub_pair_approximates [OF p ap ab(2), folded x]
    have big: "2 ^ 62 \<le> unat hi" if sticky
    proof (rule ccontr)
      assume "\<not> 2 ^ 62 \<le> unat hi"
      then have "unat hi + 1 \<le> 2 ^ 62" by simp
      then have "(unat hi + 1) * 2 ^ 64 \<le> 2 ^ 62 * 2 ^ 64" by (rule mult_le_mono1)
      then have "unat hi * 2 ^ 64 + unat lo + 1 \<le> 2 ^ 62 * 2 ^ 64" using unat_lt64 [of lo] by simp
      then have "real (unat hi * 2 ^ 64 + unat lo + 1) \<le> real (2 ^ 62 * 2 ^ 64)" by (simp only: of_nat_le_iff)
      then have "x < 2 ^ 62 * 2 ^ 64" using q by (simp add: approximates_def)
      moreover have "2 ^ 63 * 2 ^ 64 \<le> unat b * 2 ^ 64" using assms(1) by simp
      then have "real (2 ^ 63 * 2 ^ 64) \<le> real (unat b * 2 ^ 64)" by (simp only: of_nat_le_iff)
      then have "2 ^ 63 * 2 ^ 64 - 2 ^ 64 \<le> x" using ab(3) align_parts(3) [OF a s0 that] unfolding x by simp
      ultimately show False by simp
    qed
    show ?thesis
    proof (cases "hi = 0 \<and> lo = 0")
      case True
      then have "\<not> sticky" using big by auto
      then have "x = 0" using q True by (simp add: approximates_def)
      then show ?thesis using False True by (simp add: add_aligned_def a p)
    next
      case nz: False
      then have "0 < unat hi * 2 ^ 64 + unat lo" by (auto simp: unat_gt_0)
      then have "0 < real (unat hi * 2 ^ 64 + unat lo)" by (simp only: of_nat_0_less_iff)
      then have "x \<noteq> 0" using q unfolding approximates_def by linarith
      moreover obtain hi' lo' e' x' where n: "normalise_pair hi lo e = Some (hi', lo', e')" "stands_for (hi', lo', sticky, e') x' e'"
          "x' * 2 powi (e' - 16510) = x * 2 powi (e - 16510)"
        using normalise_pair_stands_for [OF q nz big, of e] by blast
      moreover have "add_aligned b s d same e = Some (Some (hi', lo', sticky, e'))"
        using False nz n(1) by (auto simp: add_aligned_def a p)
      ultimately show ?thesis by blast
    qed
  qed
qed

lemma magnitudes:
  assumes "x86p_ext80_is_normal b" "x86p_ext80_is_normal s" "ext80_exponent s \<le> ext80_exponent b"
  defines "d \<equiv> unat ((e8_sign_exp b AND 0x7FFF) - (e8_sign_exp s AND 0x7FFF))"
  shows "int d = ext80_exponent b - ext80_exponent s"
    "real (unat (e8_signif b) * 2 ^ 64) * 2 powi (ext80_exponent b - 16510) = \<bar>ext80_value b\<bar>"
    "aligned (e8_signif s) d * 2 powi (ext80_exponent b - 16510) = \<bar>ext80_value s\<bar>"
proof -
  have "(e8_sign_exp s AND 0x7FFF) \<le> (e8_sign_exp b AND 0x7FFF)"
    using assms(3) unfolding ext80_exponent_def word_le_nat_alt of_nat_le_iff .
  then have "d = unat (e8_sign_exp b AND 0x7FFF) - unat (e8_sign_exp s AND 0x7FFF)" by (simp add: d_def unat_sub)
  then show d: "int d = ext80_exponent b - ext80_exponent s" using assms(3) unfolding ext80_exponent_def by linarith
  have mag: "\<bar>ext80_value v\<bar> = real (unat (e8_signif v)) * 2 powi (ext80_exponent v - 16446)" if "x86p_ext80_is_normal v" for v
  proof -
    have "ext80_sign v = 1 \<or> ext80_sign v = -1" by (simp add: ext80_sign_def)
    then show ?thesis
      by (simp only: normal_value [OF that] mult.assoc signed_magnitude of_nat_0_le_iff mult_nonneg_nonneg
          zero_le_power_int zero_le_numeral)
  qed
  have "(2 :: real) powi (ext80_exponent b - 16446) = 2 ^ 64 * 2 powi (ext80_exponent b - 16510)"
    using powi_sum [of 64 "ext80_exponent b - 16510"] by simp
  then show "real (unat (e8_signif b) * 2 ^ 64) * 2 powi (ext80_exponent b - 16510) = \<bar>ext80_value b\<bar>"
    by (simp add: mag [OF assms(1)])
  have e: "ext80_exponent b - 16510 = int d + (ext80_exponent s - 16510)" using d by linarith
  have "(2 :: real) powi (ext80_exponent b - 16510) = 2 ^ d * 2 powi (ext80_exponent s - 16510)"
    unfolding e powi_sum by simp
  moreover have "(2 :: real) powi (ext80_exponent s - 16446) = 2 ^ 64 * 2 powi (ext80_exponent s - 16510)"
    using powi_sum [of 64 "ext80_exponent s - 16510"] by simp
  ultimately show "aligned (e8_signif s) d * 2 powi (ext80_exponent b - 16510) = \<bar>ext80_value s\<bar>"
    by (simp add: mag [OF assms(2)] aligned_def)
qed

text \<open>The sign \<open>y\<close> enters with: its own, or the opposite one for a subtraction.\<close>

definition entry_sign :: "ext80 \<Rightarrow> bool \<Rightarrow> u16" where
  "entry_sign y subtract = (e8_sign_exp y AND 0x8000) XOR (if subtract then 0x8000 else 0)"

definition entering :: "ext80 \<Rightarrow> bool \<Rightarrow> real" where
  "entering y subtract = (if subtract then - ext80_value y else ext80_value y)"

lemma top16: "w AND 0x8000 = (if bit w 15 then 0x8000 else 0 :: u16)"
  using and_single_bit [of w 15] by simp

lemma entry_sign_facts:
  "entry_sign y subtract = 0 \<or> entry_sign y subtract = 0x8000"
  "entry_sign y False = e8_sign_exp y AND 0x8000"
  "sign_of (entry_sign y subtract) = (if subtract then - ext80_sign y else ext80_sign y)"
  by (auto simp: entry_sign_def top16 sign_of_def ext80_sign_def)

lemma signed_value: "ext80_value v = ext80_sign v * \<bar>ext80_value v\<bar>"
proof -
  define a where "a = real (unat (e8_signif v)) * 2 powi (max 1 (ext80_exponent v) - 16446)"
  have "0 \<le> a" unfolding a_def by (intro mult_nonneg_nonneg of_nat_0_le_iff) simp
  moreover have "ext80_value v = ext80_sign v * a" unfolding ext80_value_def a_def by (rule mult.assoc)
  moreover have "ext80_sign v = 1 \<or> ext80_sign v = -1" by (simp add: ext80_sign_def)
  ultimately show ?thesis by auto
qed

lemma entering_signed: "entering y subtract = sign_of (entry_sign y subtract) * \<bar>ext80_value y\<bar>"
  unfolding entry_sign_facts(3) entering_def using signed_value [of y] by simp

lemma larger_first_facts:
  assumes "larger_first x y ys = ((b, bs), (s, ss))" and "x86p_ext80_is_normal x" "x86p_ext80_is_normal y"
  shows "x86p_ext80_is_normal b" "x86p_ext80_is_normal s" "ext80_exponent s \<le> ext80_exponent b"
    "ext80_exponent s = ext80_exponent b \<Longrightarrow> unat (e8_signif s) \<le> unat (e8_signif b)"
    "sign_of (e8_sign_exp x AND 0x8000) * \<bar>ext80_value x\<bar> + sign_of ys * \<bar>ext80_value y\<bar> =
       sign_of bs * \<bar>ext80_value b\<bar> + sign_of ss * \<bar>ext80_value s\<bar>"
    "bs = ys \<or> bs = e8_sign_exp x AND 0x8000" "ss = ys \<or> ss = e8_sign_exp x AND 0x8000"
proof -
  let ?ex = "e8_sign_exp x AND 0x7FFF" and ?ey = "e8_sign_exp y AND 0x7FFF"
  have "x86p_ext80_is_normal b \<and> x86p_ext80_is_normal s \<and> ext80_exponent s \<le> ext80_exponent b \<and>
    (ext80_exponent s = ext80_exponent b \<longrightarrow> unat (e8_signif s) \<le> unat (e8_signif b)) \<and>
    sign_of (e8_sign_exp x AND 0x8000) * \<bar>ext80_value x\<bar> + sign_of ys * \<bar>ext80_value y\<bar> =
       sign_of bs * \<bar>ext80_value b\<bar> + sign_of ss * \<bar>ext80_value s\<bar> \<and>
    (bs = ys \<or> bs = e8_sign_exp x AND 0x8000) \<and> (ss = ys \<or> ss = e8_sign_exp x AND 0x8000)"
  proof (cases "?ey > ?ex \<or> (?ey = ?ex \<and> e8_signif y > e8_signif x)")
    case True
    then have "b = y" "bs = ys" "s = x" "ss = e8_sign_exp x AND 0x8000"
      using assms(1) by (auto simp: larger_first_def Let_def)
    moreover have "unat ?ex \<le> unat ?ey" "unat ?ex = unat ?ey \<Longrightarrow> unat (e8_signif x) \<le> unat (e8_signif y)"
      using True by (auto simp: word_less_nat_alt)
    ultimately show ?thesis using assms(2,3) unfolding ext80_exponent_def of_nat_le_iff of_nat_eq_iff by simp
  next
    case False
    then have "b = x" "bs = e8_sign_exp x AND 0x8000" "s = y" "ss = ys"
      using assms(1) by (auto simp: larger_first_def Let_def)
    moreover have "unat ?ey \<le> unat ?ex" "unat ?ey = unat ?ex \<Longrightarrow> unat (e8_signif y) \<le> unat (e8_signif x)"
      using False by (auto simp: word_less_nat_alt word_unat_eq_iff)
    ultimately show ?thesis using assms(2,3) unfolding ext80_exponent_def of_nat_le_iff of_nat_eq_iff by simp
  qed
  then show "x86p_ext80_is_normal b" "x86p_ext80_is_normal s" "ext80_exponent s \<le> ext80_exponent b"
    "ext80_exponent s = ext80_exponent b \<Longrightarrow> unat (e8_signif s) \<le> unat (e8_signif b)"
    "sign_of (e8_sign_exp x AND 0x8000) * \<bar>ext80_value x\<bar> + sign_of ys * \<bar>ext80_value y\<bar> =
       sign_of bs * \<bar>ext80_value b\<bar> + sign_of ss * \<bar>ext80_value s\<bar>"
    "bs = ys \<or> bs = e8_sign_exp x AND 0x8000" "ss = ys \<or> ss = e8_sign_exp x AND 0x8000" by blast+
qed

end
