(* ===== verification/X86_Ext80_Sum.thy ===== *)
theory X86_Ext80_Sum
  imports X86_Ext80_Subtract
begin

text \<open>
  The theorem for addition and subtraction in the extended format.
\<close>

lemma exact_rounding:
  assumes "x86p_ext80_is_normal v"
  shows "rounds_to 64 (ext80_value v) (ext80_value v)"
  unfolding rounds_to_def
proof (intro exI conjI impI)
  let ?s = "unat (e8_signif v)" and ?u = "(2 :: real) powi (ext80_exponent v - 16446)"
  have sg: "ext80_sign v = 1 \<or> ext80_sign v = -1" by (simp add: ext80_sign_def)
  let ?m = "if ext80_sign v = 1 then int ?s else - int ?s"
  have v: "ext80_value v = ext80_sign v * (real ?s * ?u)" by (simp only: normal_value [OF assms] mult.assoc)
  have a: "\<bar>ext80_value v\<bar> = real ?s * ?u"
    unfolding v by (simp only: signed_magnitude [OF sg] of_nat_0_le_iff mult_nonneg_nonneg zero_le_power_int zero_le_numeral)
  show "ext80_value v = of_int ?m * ?u" using sg by (auto simp: v)
  have b: "real (2 ^ 63) \<le> real ?s" "real ?s < real (2 ^ 64)"
    unfolding of_nat_le_iff of_nat_less_iff using assms unat_lt64 [of "e8_signif v"] by (simp_all add: normal_iff)
  show "2 ^ (64 - 1) * ?u \<le> \<bar>ext80_value v\<bar>" "\<bar>ext80_value v\<bar> < 2 ^ 64 * ?u" unfolding a using b by simp_all
  show "2 * \<bar>ext80_value v - ext80_value v\<bar> \<le> ?u" by simp
  assume "2 * \<bar>ext80_value v - ext80_value v\<bar> = ?u"
  then show "even ?m" by simp
qed

lemma exact_result:
  assumes "x86p_ext80_is_normal v" and "ext80_value v = x"
  shows "correctly_rounded x flags v flags"
  using assms exact_rounding [OF assms(1)] by (auto simp: correctly_rounded_def)

lemma bind_some_map: "Option.bind m (\<lambda>r. Some (f r)) = map_option f m"
  by (cases m) simp_all

lemma add_zero:
  assumes "x86p_ext80_control_is_ordinary control" "x86p_ext80_is_normal_or_zero x" "x86p_ext80_is_normal_or_zero y"
    and "x86p_ext80_is_zero x \<or> x86p_ext80_is_zero y"
  shows "\<exists>out. x86p_ext80_add_ordinary control x y subtract flags = Some (Some (out, flags)) \<and>
     (if ext80_value x + entering y subtract = 0
      then x86p_ext80_is_zero out \<and>
        ext80_sign out = (if ext80_sign x = sign_of (entry_sign y subtract) then ext80_sign x else 1)
      else correctly_rounded (ext80_value x + entering y subtract) flags out flags)"
proof -
  let ?ys = "entry_sign y subtract"
  note op = x86p_ext80_add_ordinary_def entry_sign_def [symmetric] Let_def
  consider "\<not> x86p_ext80_is_zero y" "x86p_ext80_is_zero x" | "x86p_ext80_is_zero y" "\<not> x86p_ext80_is_zero x"
    | "x86p_ext80_is_zero y" "x86p_ext80_is_zero x" using assms(4) by blast
  then show ?thesis
  proof cases
    case 1
    let ?out = "\<lparr>e8_signif = e8_signif y, e8_sign_exp = (e8_sign_exp y AND 0x7FFF) OR ?ys\<rparr>"
    have n: "x86p_ext80_is_normal y" using 1 assms(3) by (simp add: x86p_ext80_is_normal_or_zero_def)
    have e: "e8_sign_exp y AND 0x7FFF = word_of_int (ext80_exponent y)"
      by (simp add: ext80_exponent_def)
    have o: "?out = \<lparr>e8_signif = e8_signif y, e8_sign_exp = ?ys OR word_of_int (ext80_exponent y)\<rparr>"
      by (simp add: e or.commute)
    note p = packed_value [OF entry_sign_facts(1) [of y subtract], of "ext80_exponent y" "e8_signif y", folded o]
    have b: "0 < ext80_exponent y" "ext80_exponent y < 0x7FFF" "2 ^ 63 \<le> unat (e8_signif y)" using n by (simp_all add: normal_iff)
    have "\<bar>ext80_value y\<bar> = real (unat (e8_signif y)) * 2 powi (ext80_exponent y - 16446)"
    proof -
      have "ext80_sign y = 1 \<or> ext80_sign y = -1" by (simp add: ext80_sign_def)
      then show ?thesis
        by (simp only: normal_value [OF n] mult.assoc signed_magnitude of_nat_0_le_iff mult_nonneg_nonneg
            zero_le_power_int zero_le_numeral)
    qed
    then have "ext80_value ?out = ext80_value x + entering y subtract"
      unfolding p(2) [OF b] entering_signed using zero_value [OF 1(2)] by simp
    moreover have "ext80_value ?out \<noteq> 0"
      using zero_or_normal_value [of ?out] p(1) [OF b] normal_not_zero [OF p(1) [OF b]] by (simp add: x86p_ext80_is_normal_or_zero_def)
    ultimately show ?thesis
      using 1 assms(1-3) exact_result [OF p(1) [OF b]] by (intro exI [of _ ?out]) (simp add: op)
  next
    case 2
    then have n: "x86p_ext80_is_normal x" using assms(2) by (simp add: x86p_ext80_is_normal_or_zero_def)
    have "entering y subtract = 0" using zero_value [OF 2(1)] by (simp add: entering_def)
    moreover have "ext80_value x \<noteq> 0" using zero_or_normal_value [OF assms(2)] 2(2) by simp
    ultimately show ?thesis using 2 assms(1-3) exact_result [OF n] by (intro exI [of _ x]) (simp add: op)
  next
    case 3
    let ?out = "\<lparr>e8_signif = 0, e8_sign_exp = if e8_sign_exp x AND 0x8000 = ?ys then ?ys else 0\<rparr>"
    have "ext80_value x + entering y subtract = 0" using zero_value 3 by (simp add: entering_def)
    moreover have "x86p_ext80_is_zero ?out"
      using entry_sign_facts(1) [of y subtract] by (auto simp: x86p_ext80_is_zero_def)
    moreover have "ext80_sign ?out = (if ext80_sign x = sign_of ?ys then ext80_sign x else 1)"
      using entry_sign_facts(1) [of y subtract] top16 [of "e8_sign_exp x"]
      by (auto simp: ext80_sign_def sign_of_def split: if_splits)
    ultimately show ?thesis using 3 assms(1-3) by (intro exI [of _ ?out]) (simp add: op)
  qed
qed

text \<open>
  C3. Addition and subtraction of normals and zeros under the ordinary control word always return; an
  answer is the exact sum of the two real numbers rounded to 64 bits, nearest, ties to even, with the
  inexact and rounded-up bits set exactly when they should be, however far apart the exponents are; a
  sum of zeros has their common sign or is positive; and an operation is refused only for an exact
  cancellation or when no normal number is the rounded sum.
\<close>

theorem add_correctly_rounded:
  assumes "x86p_ext80_control_is_ordinary control" and "x86p_ext80_is_normal_or_zero x" and "x86p_ext80_is_normal_or_zero y"
  shows "\<exists>r. x86p_ext80_add_ordinary control x y subtract flags = Some r \<and>
     (let total = ext80_value x + (if subtract then - ext80_value y else ext80_value y) in
      case r of
        None \<Rightarrow> total = 0 \<or> (\<forall>v. x86p_ext80_is_normal v \<longrightarrow> \<not> rounds_to 64 total (ext80_value v))
      | Some (out, flags') \<Rightarrow>
          if total = 0
          then flags' = flags \<and> x86p_ext80_is_zero out \<and>
            ext80_sign out = (if ext80_sign x = (if subtract then - ext80_sign y else ext80_sign y) then ext80_sign x else 1)
          else correctly_rounded total flags out flags')"
proof (cases "x86p_ext80_is_zero x \<or> x86p_ext80_is_zero y")
  case True
  show ?thesis
    using add_zero [OF assms True, of subtract flags] unfolding entry_sign_facts(3) entering_def by (auto simp: Let_def)
next
  case False
  then have n: "x86p_ext80_is_normal x" "x86p_ext80_is_normal y"
    using assms(2,3) by (simp_all add: x86p_ext80_is_normal_or_zero_def)
  let ?ys = "entry_sign y subtract" and ?t = "ext80_value x + entering y subtract"
  obtain b bs s ss where l: "larger_first x y ?ys = ((b, bs), (s, ss))" by (metis surj_pair)
  note f = larger_first_facts [OF l n]
  define d where "d = unat ((e8_sign_exp b AND 0x7FFF) - (e8_sign_exp s AND 0x7FFF))"
  note m = magnitudes [OF f(1-3), folded d_def]
  have signs: "bs = 0 \<or> bs = 0x8000" "ss = 0 \<or> ss = 0x8000"
    using f(6,7) entry_sign_facts(1) [of y subtract] entry_sign_facts(1) [of x False] unfolding entry_sign_facts(2) by blast+
  have zs: "\<not> x86p_ext80_is_zero x" "\<not> x86p_ext80_is_zero y" using False by simp_all
  have op: "x86p_ext80_add_ordinary control x y subtract flags =
      map_option (\<lambda>r. case r of None \<Rightarrow> None | Some q \<Rightarrow> round_sum bs flags q)
        (add_aligned (e8_signif b) (e8_signif s) d (bs = ss) (ext80_exponent b))"
    using assms zs unfolding x86p_ext80_add_ordinary_def entry_sign_def [symmetric] Let_def l d_def ext80_exponent_def
    by (simp add: bind_some_map)
  define g where "g = (if bs = ss then real (unat (e8_signif b) * 2 ^ 64) + aligned (e8_signif s) d
      else real (unat (e8_signif b) * 2 ^ 64) - aligned (e8_signif s) d)"
  have total: "?t = sign_of bs * (g * 2 powi (ext80_exponent b - 16510))"
  proof -
    have "?t = sign_of (e8_sign_exp x AND 0x8000) * \<bar>ext80_value x\<bar> + sign_of ?ys * \<bar>ext80_value y\<bar>"
      unfolding entering_signed using entering_signed [of x False] by (simp add: entering_def entry_sign_facts(2))
    also have "\<dots> = sign_of bs * \<bar>ext80_value b\<bar> + sign_of ss * \<bar>ext80_value s\<bar>" by (rule f(5))
    also have "\<dots> = sign_of bs * (g * 2 powi (ext80_exponent b - 16510))"
      unfolding m(2,3) [symmetric] g_def using signs by (auto simp: sign_of_def algebra_simps)
    finally show ?thesis .
  qed
  have sig: "2 ^ 63 \<le> unat (e8_signif b)" "2 ^ 63 \<le> unat (e8_signif s)" "d = 0 \<longrightarrow> unat (e8_signif s) \<le> unat (e8_signif b)"
    using f(1,2,4) m(1) by (auto simp: normal_iff)
  from add_aligned_result [OF sig, of "bs = ss" "ext80_exponent b", folded g_def]
  show ?thesis
  proof (elim disjE exE conjE)
    assume "g = 0" "add_aligned (e8_signif b) (e8_signif s) d (bs = ss) (ext80_exponent b) = Some None"
    then show ?thesis using total unfolding op entering_def by (simp add: Let_def)
  next
    fix hi lo sticky e' x'
    assume a: "g \<noteq> 0" "add_aligned (e8_signif b) (e8_signif s) d (bs = ss) (ext80_exponent b) = Some (Some (hi, lo, sticky, e'))"
      "stands_for (hi, lo, sticky, e') x' e'" "x' * 2 powi (e' - 16510) = g * 2 powi (ext80_exponent b - 16510)"
    have t: "?t = sign_of bs * (x' * 2 powi (e' - 16510))" unfolding a(4) by (rule total)
    have "?t \<noteq> 0" unfolding total using a(1) sign_of_cases [of bs] by auto
    moreover have "x86p_ext80_add_ordinary control x y subtract flags = Some (round_sum bs flags (hi, lo, sticky, e'))"
      unfolding op a(2) by simp
    moreover have "case round_sum bs flags (hi, lo, sticky, e') of
        None \<Rightarrow> \<forall>v. x86p_ext80_is_normal v \<longrightarrow> \<not> rounds_to 64 ?t (ext80_value v)
      | Some (out, flags') \<Rightarrow> correctly_rounded ?t flags out flags'"
      unfolding t using round_sum_refuses [OF _ a(3)] round_sum_correct [OF _ a(3) signs(1)]
      by (auto split: option.splits)
    ultimately show ?thesis unfolding entering_def by (auto simp: Let_def split: option.splits)
  qed
qed

lemma clz_step:
  "clz64_loop k v n = (if drop_bit 63 v \<noteq> 0 then Some n else case k of 0 \<Rightarrow> None | Suc k \<Rightarrow> clz64_loop k (push_bit 1 v) (n + 1))"
  by (cases k) simp_all

text \<open>One less a number below it by a hundred binades: the sticky bit decides the rounding.\<close>

theorem add_correctly_rounded_witness:
  "let x = \<lparr>e8_signif = 0x8000000000000000, e8_sign_exp = 0x3FFF\<rparr>; y = \<lparr>e8_signif = 0x8000000000000001, e8_sign_exp = 0x3F9B\<rparr>
   in x86p_ext80_add_ordinary 0x037F x y True 0 = Some (Some (x, 0x220)) \<and>
      correctly_rounded (ext80_value x - ext80_value y) 0 x 0x220"
proof -
  let ?x = "\<lparr>e8_signif = 0x8000000000000000, e8_sign_exp = 0x3FFF\<rparr>" and ?y = "\<lparr>e8_signif = 0x8000000000000001, e8_sign_exp = 0x3F9B\<rparr>"
  have c: "x86p_ext80_control_is_ordinary 0x037F" by (simp add: ext80_eval)
  have n: "x86p_ext80_is_normal_or_zero ?x" "x86p_ext80_is_normal_or_zero ?y" by (simp_all add: ext80_eval)
  have l: "larger_first ?x ?y 0x8000 = ((?x, 0), (?y, 0x8000))" by (simp add: larger_first_def)
  have z: "clz64 0x7FFFFFFFFFFFFFFF = Some 1"
    unfolding clz64_def by (simp add: clz_step [of 63] clz_step [of 62])
  have a: "add_aligned 0x8000000000000000 0x8000000000000001 100 False 0x3FFF = Some (Some (-1, 0xFFFFFFFFEFFFFFFE, True, 0x3FFE))"
    by (simp add: add_aligned_def align_smaller_def sub_pair_def normalise_pair_def z)
  have r: "x86p_ext80_add_ordinary 0x037F ?x ?y True 0 = Some (Some (?x, 0x220))"
    unfolding x86p_ext80_add_ordinary_def using l a by (simp add: ext80_eval round_sum_def)
  have s: "ext80_sign ?x = 1" "ext80_exponent ?x = 0x3FFF" "ext80_sign ?y = 1" "ext80_exponent ?y = 0x3F9B"
    by (simp_all add: ext80_sign_def ext80_exponent_def)
  have "ext80_value ?y < ext80_value ?x"
  proof -
    have "(2 :: real) powi (0x3F9B - 16446) * 2 ^ 100 = 2 powi (0x3FFF - 16446)"
      using powi_sum [of 100 "0x3F9B - 16446"] by simp
    then show ?thesis by (simp add: ext80_value_def s)
  qed
  then show ?thesis using add_correctly_rounded [OF c n, of True 0] r by (simp add: Let_def)
qed

end
