(* ===== verification/X86_X87_Properties.thy ===== *)
theory X86_X87_Properties
  imports X86_X87_Engine X86_F128_Order X86_Ext80_Integer X86_Ext80_Sum
begin

text \<open>
  What a program sees of the x87 unit: the encoding-level fast path is the long path, a value loaded
  is stored unchanged, and a fault leaves the machine as it was.
\<close>

section \<open>Loops that end\<close>

lemma special_width: "width = 4 \<or> width = 8 \<Longrightarrow> \<not> ieee_finite width bits \<Longrightarrow> ieee_operand width bits \<Longrightarrow> widen_bits bits width \<noteq> None"
proof -
  assume w: "width = 4 \<or> width = 8" and n: "\<not> ieee_finite width bits" and o: "ieee_operand width bits"
  have "ucast (drop_bit (es_field (x86p_ext80_source width)) bits AND ucast (es_exp_max (x86p_ext80_source width))) = es_exp_max (x86p_ext80_source width)"
    unfolding word_unat_eq_iff ieee_extracted(3) [OF o refl] using n by (simp add: ieee_finite_def)
  then show ?thesis unfolding widen_bits_def widen_def Let_def by simp
qed

lemma widen_bits_total:
  assumes "ieee_operand width bits"
  shows "widen_bits bits width \<noteq> None"
proof (cases "ieee_finite width bits")
  case True
  from widen_bits_exact [OF assms True] show ?thesis by blast
next
  case False
  have "width = 4 \<or> width = 8" using assms by (auto simp: ieee_operand_def)
  from special_width [OF this False assms] show ?thesis .
qed

lemma operands_total:
  "x86p_ext80_from_f64_bits b \<noteq> None" "x86p_ext80_from_f32_bits c \<noteq> None" "x86p_ext80_from_int v \<noteq> None"
proof -
  show "x86p_ext80_from_f64_bits b \<noteq> None"
    unfolding x86p_ext80_from_f64_bits_def by (rule widen_bits_total) (simp add: ieee_operand_def)
  have "unat (ucast c :: u64) < 2 ^ 32" using unsigned_less [of c, where ?'a = nat] by (simp add: unsigned_ucast_eq take_bit_nat_eq_self)
  then show "x86p_ext80_from_f32_bits c \<noteq> None"
    unfolding x86p_ext80_from_f32_bits_def by (intro widen_bits_total) (simp add: ieee_operand_def)
  show "x86p_ext80_from_int v \<noteq> None" using from_int_value [of v] by auto
qed

section \<open>The fast path\<close>

lemma reg_ext80 [simp]: "reg_of_ext80 (ext80_of_reg v) = v" "ext80_of_reg (reg_of_ext80 e) = e"
  by (simp_all add: reg_of_ext80_def ext80_of_reg_def)

lemma ext80_of_st_read: "x86p_x87_ext80_of_st f i = map_option ext80_of_reg (x86p_x87_read f i)"
  by (simp add: x86p_x87_ext80_of_st_def x86p_x87_read_def ext80_of_reg_def Let_def)

lemma double_exponent: "drop_bit 52 b AND 0x7FF = (0x7FF :: u64) \<longleftrightarrow> ieee_exponent 8 b = 0x7FF"
proof -
  have "(0x7FF :: u64) = push_bit 11 1 - 1" by simp
  then have "unat (drop_bit 52 b AND 0x7FF) = unat b div 2 ^ 52 mod 2 ^ 11" by (simp only: unat_low unat_drop)
  then show ?thesis by (simp add: ieee_exponent_def source8 word_unat_eq_iff)
qed

text \<open>The rule of IEEE division the host's doubles follow: a nonzero number over a zero is an infinity.\<close>

definition double_division :: "softfloat \<Rightarrow> bool" where
  "double_division S \<longleftrightarrow>
     (\<forall>a b. 0 < ieee_exponent 8 a \<and> ieee_exponent 8 a < 0x7FF \<and> push_bit 1 b = 0 \<longrightarrow>
        ieee_exponent 8 (hd_arith S kX86pX87Div a b) = 0x7FF)"

lemma zero_to_double: "x86p_ext80_is_zero y \<Longrightarrow> x86p_ext80_to_double y = Some b \<Longrightarrow> push_bit 1 b = 0"
proof -
  assume z: "x86p_ext80_is_zero y" and b: "x86p_ext80_to_double y = Some b"
  have "b = push_bit 63 (ucast (drop_bit 15 (e8_sign_exp y)) AND 1)"
    using b z by (simp add: x86p_ext80_to_double_def x86p_ext80_narrow_nearest_def x86p_ext80_source_def Let_def
        x86p_ext80_is_zero_def EXT80_EXP_MAX_def)
  then have "push_bit 1 b = push_bit 64 (ucast (drop_bit 15 (e8_sign_exp y)) AND 1)" by (simp only: push_bit_push_bit) simp
  also have "\<dots> = 0" by (rule bit_eqI) (auto simp: bit_simps)
  finally show ?thesis .
qed

lemma no_double_division_by_zero:
  assumes "double_division S" "x86p_ext80_is_zero y" "\<not> x86p_ext80_is_zero x"
  shows "x86p_ext80_double_arith S control kX86pX87Div x y = None"
proof (cases "x86p_ext80_to_double x")
  case (Some a)
  note n = narrow_normal [OF _ refl assms(3) Some [unfolded x86p_ext80_to_double_def]]
  have a: "0 < ieee_exponent 8 a" "ieee_exponent 8 a < 0x7FF" using n(4,5) by (simp_all add: source8)
  show ?thesis
  proof (cases "x86p_ext80_to_double y")
    case (Some b)
    have "ieee_exponent 8 (hd_arith S kX86pX87Div a b) = 0x7FF"
      using assms(1) a zero_to_double [OF assms(2) Some] by (simp add: double_division_def)
    then have "x86p_ext80_of_double (hd_arith S kX86pX87Div a b) = None"
      by (simp add: x86p_ext80_of_double_def Let_def double_exponent)
    then show ?thesis using Some \<open>x86p_ext80_to_double x = Some a\<close> by (simp add: x86p_ext80_double_arith_def)
  qed (simp add: x86p_ext80_double_arith_def)
qed (simp add: x86p_ext80_double_arith_def)

lemma zero_encoding: "reg_is_zero v \<longleftrightarrow> x86p_ext80_is_zero (ext80_of_reg v)"
  by (simp add: reg_is_zero_def x86p_ext80_is_zero_def ext80_of_reg_def)

lemma encoded_answer_operation: "encoded_answer S f op x y = Some r \<Longrightarrow> op \<noteq> kX86pX87OpCount"
  by (auto simp: encoded_answer_def x86p_ext80_double_arith_def split: option.splits if_splits bind_splits)

lemma status_first: "f\<lparr>x_status := s, x_reg := g, x_tag := t\<rparr> = f\<lparr>x_reg := g, x_tag := t, x_status := s\<rparr>"
  by simp

lemma long_path_agrees:
  assumes fast: "x86p_x87_arith_ext80_fast S f c op dst src reverse = (True, f', c')" and div: "double_division S"
  shows "x86p_x87_arith_raw S f c op dst (reg_of_ext80 src) reverse = (True, f', c')"
proof -
  obtain a where a: "x86p_x87_read f dst = Some a"
    using fast by (auto simp: x86p_x87_arith_ext80_fast_def ext80_of_st_read split: option.splits)
  define x where "x = (if reverse then reg_of_ext80 src else a)"
  define y where "y = (if reverse then a else reg_of_ext80 src)"
  have xy: "(if reverse then src else ext80_of_reg a) = ext80_of_reg x" "(if reverse then ext80_of_reg a else src) = ext80_of_reg y"
    by (simp_all add: x_def y_def)
  obtain r raised where e: "encoded_answer S f op (ext80_of_reg x) (ext80_of_reg y) = Some (r, raised)"
    using fast a by (auto simp: x86p_x87_arith_ext80_fast_def ext80_of_st_read Let_def xy split: option.splits)
  have dz: "\<not> (op = kX86pX87Div \<and> reg_is_zero y \<and> \<not> reg_is_zero x \<and> \<not> reg_is_nan x)"
  proof
    assume z: "op = kX86pX87Div \<and> reg_is_zero y \<and> \<not> reg_is_zero x \<and> \<not> reg_is_nan x"
    then have "x86p_ext80_double_arith S (x_control f) kX86pX87Div (ext80_of_reg x) (ext80_of_reg y) = None"
      by (intro no_double_division_by_zero [OF div]) (simp_all add: zero_encoding)
    then show False using e z by (simp add: encoded_answer_def split: if_splits)
  qed
  have d: "dst < X86P_X87_REGS" using a by (auto simp: x86p_x87_read_def split: if_splits)
  have r: "f' = f\<lparr>x_status := x_status f OR raised, x_reg := (x_reg f)[x86p_x87_phys f dst := reg_of_ext80 r],
      x_tag := (x_tag f)[x86p_x87_phys f dst := kX86pX87TagValid]\<rparr>"
    "c' = (if x_op_census f then x86p_x87_census_note_ext80 (x_control f) op (ext80_of_reg x) (ext80_of_reg y) c else c)"
    using fast by (auto simp: x86p_x87_arith_ext80_fast_def ext80_of_st_read a Let_def xy e x86p_x87_store_slot_def status_first)
  have o: "\<not> op = kX86pX87OpCount" using encoded_answer_operation [OF e] .
  have w: "x86p_x87_write (f\<lparr>x_status := s\<rparr>) dst v = Some (f\<lparr>x_status := s, x_reg := (x_reg f)[x86p_x87_phys f dst := v],
      x_tag := (x_tag f)[x86p_x87_phys f dst := kX86pX87TagValid]\<rparr>)" for s v
    using d by (simp add: x86p_x87_write_def x86p_x87_store_slot_def x86p_x87_phys_def Let_def not_le)
  show ?thesis
    unfolding x86p_x87_arith_raw_def a option.case Let_def x_def [symmetric] y_def [symmetric] if_not_P [OF o] if_not_P [OF dz]
      e prod.case w x86p_x87_census_note_reg_def r ..
qed

text \<open>
  C16. The shortcut of the arithmetic is the arithmetic: whenever the encoding-level path answers, the
  path that every other case takes would have left the same registers, tags, status word and census,
  provided the host's doubles divide by zero as IEEE doubles do.
\<close>

theorem fast_path_is_the_long_path:
  assumes "x86p_x87_arith_ext80_fast S f c op dst src reverse = (True, f', c')" and "double_division S"
  shows "x86p_x87_arith_raw S f c op dst (reg_of_ext80 src) reverse = (True, f', c')"
  using assms by (rule long_path_agrees)

text \<open>1.5 times 1.5 on a unit whose host divides as it should.\<close>

definition plain_host :: softfloat where
  "plain_host = \<lparr>sf_arith = \<lambda>op st x y. (x, 0), sf_to_f32 = \<lambda>st x. 0, sf_to_f64 = \<lambda>st x. 0,
     sf_of_f128 = \<lambda>st v. \<lparr>e8_signif = 0, e8_sign_exp = 0\<rparr>, sf_to_f128 = \<lambda>st x. ld_zero,
     sf_fn = \<lambda>fn st x y. \<lparr>so_x = x, so_second = x, so_incomplete = 0, so_quotient = 0, so_flags = 0\<rparr>,
     hd_arith = \<lambda>op a b. 0x7FF0000000000000, hd_fn = \<lambda>fn a b. a\<rparr>"

definition no_counts :: op_census where
  "no_counts = \<lparr>cn_total = \<lambda>i. 0, cn_taken = \<lambda>i. 0, cn_refused_control = \<lambda>i. 0, cn_refused_other = \<lambda>i. 0,
     cn_by_precision = \<lambda>i. 0, cn_by_rounding = \<lambda>i. 0, cn_ordinary_measured = False\<rparr>"

definition one_and_a_half_reg :: ext80 where
  "one_and_a_half_reg = \<lparr>e8_signif = 0xC000000000000000, e8_sign_exp = 0x3FFF\<rparr>"

definition unit_of_1_5 :: x87 where
  "unit_of_1_5 = snd (x86p_x87_push_value (x86p_x87_reset x87_zero) (reg_of_ext80 one_and_a_half_reg))"

lemma plain_host_divides: "double_division plain_host"
  by (simp add: double_division_def plain_host_def ieee_exponent_def source8)

lemma product_of_halves:
  "x86p_ext80_mul_ordinary 0x037F one_and_a_half_reg one_and_a_half_reg 0 = Some (\<lparr>e8_signif = 0x9000000000000000, e8_sign_exp = 0x4000\<rparr>, 0)"
proof -
  have m: "mul64_to_128 0xC000000000000000 0xC000000000000000 = (0x9000000000000000, 0)"
    by (simp add: mul64_to_128_def Let_def)
  show ?thesis
    unfolding one_and_a_half_reg_def x86p_ext80_mul_ordinary_def ext80.simps m prod.case by (simp add: ext80_eval)
qed

lemma top_below: "unat (- 1 :: u8) = 255"
  by (simp add: unsigned_minus_1_eq_mask mask_eq_exp_minus_1)

lemma unit_read:
  "x86p_x87_read unit_of_1_5 0 = Some (reg_of_ext80 one_and_a_half_reg)" "x_control unit_of_1_5 = 0x037F"
  "x_double_arith unit_of_1_5 = 0" "x_op_census unit_of_1_5 = False" "x86p_x87_phys unit_of_1_5 0 = 7"
  by (simp_all add: unit_of_1_5_def x86p_x87_push_value_def x86p_x87_reset_def x87_zero_def X86P_X87_REGS_def
      x86p_x87_read_def x86p_x87_phys_def x86p_x87_store_slot_def x87_tags X86P_X87_CW_INIT_def Let_def
      top_below)

theorem fast_path_is_the_long_path_witness:
  "x_reg (fst (snd (x86p_x87_arith_raw plain_host unit_of_1_5 no_counts kX86pX87Mul 0 (reg_of_ext80 one_and_a_half_reg) False))) ! 7 =
     \<lparr>xr_signif = 0x9000000000000000, xr_sign_exp = 0x4000\<rparr>"
proof -
  let ?r = "x86p_x87_arith_ext80_fast plain_host unit_of_1_5 no_counts kX86pX87Mul 0 one_and_a_half_reg False"
  have l: "length (x_reg unit_of_1_5) = 8"
    by (simp add: unit_of_1_5_def x86p_x87_push_value_def x86p_x87_reset_def x87_zero_def X86P_X87_REGS_def
        x86p_x87_store_slot_def x87_tags Let_def)
  have f: "fst ?r" "x_reg (fst (snd ?r)) ! 7 = reg_of_ext80 \<lparr>e8_signif = 0x9000000000000000, e8_sign_exp = 0x4000\<rparr>"
    by (simp_all add: x86p_x87_arith_ext80_fast_def ext80_of_st_read unit_read encoded_answer_def product_of_halves l
        x86p_x87_store_slot_def Let_def)
  then show ?thesis
    using fast_path_is_the_long_path [OF _ plain_host_divides, of unit_of_1_5 no_counts kX86pX87Mul 0 one_and_a_half_reg False
        "fst (snd ?r)" "snd (snd ?r)"]
    by (cases ?r) (auto simp: reg_of_ext80_def [of "\<lparr>e8_signif = 0x9000000000000000, e8_sign_exp = 0x4000\<rparr>"])
qed

section \<open>A load and a store\<close>

lemma double_operand: "ieee_operand 8 bits" by (simp add: ieee_operand_def)

lemma operand_bytes_value:
  "operand_value (map (\<lambda>i. ucast (drop_bit (8 * i) (v :: u64))) [k..<k + n]) = take_bit (8 * n) (drop_bit (8 * k) v)"
proof (induction n arbitrary: k)
  case 0
  then show ?case by (simp add: operand_value_def)
next
  case (Suc n)
  have u: "[k..<k + Suc n] = k # [Suc k..<Suc k + n]" by (simp add: upt_conv_Cons)
  have "operand_value (map (\<lambda>i. ucast (drop_bit (8 * i) v)) [k..<k + Suc n]) =
      push_bit 8 (take_bit (8 * n) (drop_bit (8 * Suc k) v)) OR ucast (ucast (drop_bit (8 * k) v) :: u8)"
    unfolding u list.map using Suc.IH [of "Suc k"] by (simp add: operand_value_def)
  also have "\<dots> = take_bit (8 * Suc n) (drop_bit (8 * k) v)"
  proof (rule bit_eqI)
    fix i assume "possible_bit TYPE(64 word) i"
    then show "bit (push_bit 8 (take_bit (8 * n) (drop_bit (8 * Suc k) v)) OR ucast (ucast (drop_bit (8 * k) v) :: u8)) i \<longleftrightarrow>
        bit (take_bit (8 * Suc n) (drop_bit (8 * k) v)) i"
      by (cases "i < 8") (auto simp: bit_simps)
  qed
  finally show ?case .
qed

lemma loaded_stored:
  assumes "x_control f AND X86P_X87_RC_MASK = X86P_X87_RC_NEAREST"
    and "ieee_operand width bits" "0 < ieee_exponent width bits" "ieee_finite width bits"
  shows "\<exists>r bytes. x86p_x87_reg_from_operand_bits bits width False = kX86pX87MemoryOk r \<and>
     x86p_x87_operand_bytes_from_reg S f r width False = (kX86pX87MemoryOk bytes, f) \<and> length bytes = width \<and> operand_value bytes = bits"
proof -
  obtain e where e: "widen_bits bits width = Some e" "x86p_ext80_narrow_nearest e width = Some bits"
    using widened_narrows [OF assms(2-4)] by blast
  have w: "width = 4 \<or> width = 8" using assms(2) by (auto simp: ieee_operand_def)
  have small: "(ucast (ucast bits :: u32) :: u64) = bits" if "width = 4"
  proof -
    have "unat bits < 2 ^ 32" using assms(2) that by (simp add: ieee_operand_def)
    then have "unat (ucast (ucast bits :: u32) :: u64) = unat bits"
      by (simp add: unsigned_ucast_eq unsigned_take_bit_eq take_bit_nat_eq_self)
    then show ?thesis by (simp add: word_unat_eq_iff)
  qed
  have l: "x86p_x87_reg_from_operand_bits bits width False = kX86pX87MemoryOk (reg_of_ext80 e)"
    using w e(1) small by (auto simp: x86p_x87_reg_from_operand_bits_def bits_width_supported_def x86p_x87_reg_from_f32_bits_def
        x86p_x87_reg_from_f64_bits_def x86p_ext80_from_f32_bits_def x86p_ext80_from_f64_bits_def ended_def)
  have n: "narrow_ordinary (x_control f) (reg_of_ext80 e) width = Some bits"
    using assms(1) e(2) by (simp add: narrow_ordinary_def)
  define bytes :: "u8 list" where "bytes = map (\<lambda>i. ucast (drop_bit (8 * i) bits)) [0..<width]"
  have s: "x86p_x87_operand_bytes_from_reg S f (reg_of_ext80 e) width False = (kX86pX87MemoryOk bytes, f)"
    using w n by (auto simp: x86p_x87_operand_bytes_from_reg_def width_supported_def bits_width_supported_def
        x86p_x87_reg_to_f32_bits_def x86p_x87_reg_to_f64_bits_def bytes_def)
  have "operand_value bytes = take_bit (8 * width) bits"
    using operand_bytes_value [of bits 0 width] by (simp add: bytes_def)
  also have "\<dots> = bits"
  proof -
    have "unat bits < 2 ^ (8 * width)" using assms(2) unat_lt64 [of bits] by (auto simp: ieee_operand_def)
    then have "unat (take_bit (8 * width) bits) = unat bits" by (simp only: unsigned_take_bit_eq) (simp add: take_bit_nat_eq_self)
    then show ?thesis by (simp add: word_unat_eq_iff)
  qed
  finally show ?thesis using l s by (auto simp: bytes_def)
qed

text \<open>
  C32. What a load reads from four or eight bytes a store writes back, byte for byte: under
  round-to-nearest a normal number survives the trip through the register unchanged, whatever the
  precision control and without the software library.
\<close>

theorem loaded_value_is_stored_unchanged:
  assumes "x_control f AND X86P_X87_RC_MASK = X86P_X87_RC_NEAREST"
    and "ieee_operand width bits" and "0 < ieee_exponent width bits" and "ieee_finite width bits"
  shows "\<exists>r bytes. x86p_x87_reg_from_operand_bits bits width False = kX86pX87MemoryOk r \<and>
     x86p_x87_operand_bytes_from_reg S f r width False = (kX86pX87MemoryOk bytes, f) \<and> length bytes = width \<and> operand_value bytes = bits"
  using assms by (rule loaded_stored)

theorem loaded_value_is_stored_unchanged_witness:
  "\<exists>r bytes. x86p_x87_reg_from_operand_bits 0x3FC00000 4 False = kX86pX87MemoryOk r \<and>
     x86p_x87_operand_bytes_from_reg plain_host (x86p_x87_reset x87_zero) r 4 False = (kX86pX87MemoryOk bytes, x86p_x87_reset x87_zero) \<and>
     length bytes = 4 \<and> operand_value bytes = 0x3FC00000"
  by (rule loaded_value_is_stored_unchanged)
    (simp_all add: x86p_x87_reset_def X86P_X87_CW_INIT_def X86P_X87_RC_MASK_def X86P_X87_RC_NEAREST_def ieee_operand_def
      one_and_a_half_fields ieee_finite_def source4)

section \<open>Faults\<close>

lemma read_value_fault:
  "(\<And>v c. xc_status (use v c) = xc_status c) \<Longrightarrow> xc_status c = EngineOk \<Longrightarrow> xc_status (read_value S m a w n use c) \<noteq> EngineOk \<Longrightarrow>
   xc_cpu (read_value S m a w n use c) = xc_cpu c \<and> xc_host (read_value S m a w n use c) = xc_host c"
  by (auto simp: read_value_def x87_fault_def unsupported_def split: memory_result.split)

lemma status_kept [simp]:
  "xc_status (with_fpu f c) = xc_status c" "xc_status (do_pops n c) = xc_status c"
  by (simp_all add: with_fpu_def do_pops_def)

lemma operand_bytes_float:
  "x86p_x87_operand_bytes_from_reg S f v w False = (r, f') \<Longrightarrow> f' = f"
  by (auto simp: x86p_x87_operand_bytes_from_reg_def split: if_splits)

lemma write_value_fault:
  assumes "xc_status c = EngineOk" "\<And>c. xc_status (continue c) = xc_status c" "xc_status (write_value S m a w False v continue c) \<noteq> EngineOk"
  shows "xc_cpu (write_value S m a w False v continue c) = xc_cpu c" "xc_host (write_value S m a w False v continue c) = xc_host c"
proof -
  obtain r f where o: "x86p_x87_operand_bytes_from_reg S (xc_fpu c) (x86p_x87_reg_from_long_double S v) w False = (r, f)"
    by (cases "x86p_x87_operand_bytes_from_reg S (xc_fpu c) (x86p_x87_reg_from_long_double S v) w False")
  have f: "f = xc_fpu c" by (rule operand_bytes_float [OF o])
  have same: "with_fpu (xc_fpu c) c = c" by (simp add: with_fpu_def)
  have all: "xc_cpu (write_value S m a w False v continue c) = xc_cpu c \<and> xc_host (write_value S m a w False v continue c) = xc_host c"
    using assms o unfolding write_value_def x86p_x87_write_value_def x86p_x87_write_value_raw_def f
    by (cases r) (auto simp: same x87_fault_def unsupported_def split: option.splits)
  then show "xc_cpu (write_value S m a w False v continue c) = xc_cpu c" "xc_host (write_value S m a w False v continue c) = xc_host c" by blast+
qed

lemma arith_operands_fault:
  assumes "xc_status c = EngineOk" "\<And>d v c. xc_status (use d v c) = xc_status c" "xc_status (arith_operands S m i x h a use c) \<noteq> EngineOk"
  shows "xc_cpu (arith_operands S m i x h a use c) = xc_cpu c \<and> xc_host (arith_operands S m i x h a use c) = xc_host c"
  using assms read_value_fault [of "\<lambda>v. use 0 (x86p_x87_reg_from_long_double S v)" c]
  by (auto simp: arith_operands_def Let_def unsupported_def split: option.splits if_splits)

lemma fn_refused: "x86p_x87_apply_fn S f fn = (False, f') \<Longrightarrow> f' = f"
  by (auto simp: x86p_x87_apply_fn_def split: option.splits if_splits)

lemma fault_precise:
  assumes "xc_status c = EngineOk" "xc_status (x87_execute S m i x h a c) \<noteq> EngineOk"
    and "xf_insn x \<noteq> kX86pX87InsnStoreInt" "xf_insn x \<noteq> kX86pX87InsnSaveState"
  shows "xc_cpu (x87_execute S m i x h a c) = xc_cpu c \<and> xc_host (x87_execute S m i x h a c) = xc_host c"
proof -
  have same: "with_fpu (xc_fpu c) c = c" by (simp add: with_fpu_def)
  note r = read_value_fault [OF _ assms(1)] and w = write_value_fault [OF assms(1)]
  have load: "xc_status (exec_load S m i h a c) \<noteq> EngineOk \<Longrightarrow> xc_cpu (exec_load S m i h a c) = xc_cpu c \<and> xc_host (exec_load S m i h a c) = xc_host c"
    using assms(1) by (auto simp: exec_load_def Let_def unsupported_def split: option.splits if_splits intro!: r)
  have load_int: "xc_status (exec_load_int S m i h a c) \<noteq> EngineOk \<Longrightarrow> xc_cpu (exec_load_int S m i h a c) = xc_cpu c \<and> xc_host (exec_load_int S m i h a c) = xc_host c"
    using assms(1) r [of "\<lambda>v c. with_fpu (snd (x86p_x87_push S (xc_fpu c) v)) c"] by (simp add: exec_load_int_def unsupported_def split: if_splits)
  have store: "xc_status (exec_store S m i x h a c) \<noteq> EngineOk \<Longrightarrow> xc_cpu (exec_store S m i x h a c) = xc_cpu c \<and> xc_host (exec_store S m i x h a c) = xc_host c"
    using assms(1) by (auto simp: exec_store_def Let_def unsupported_def split: option.splits if_splits intro!: w)
  have arith: "xc_status (exec_arith S m i x h a c) \<noteq> EngineOk \<Longrightarrow> xc_cpu (exec_arith S m i x h a c) = xc_cpu c \<and> xc_host (exec_arith S m i x h a c) = xc_host c"
    unfolding exec_arith_def by (rule arith_operands_fault [OF assms(1)]) (simp_all split: prod.split)
  have compare: "xc_status (exec_compare S m i x h a c) \<noteq> EngineOk \<Longrightarrow> xc_cpu (exec_compare S m i x h a c) = xc_cpu c \<and> xc_host (exec_compare S m i x h a c) = xc_host c"
    using assms(1) r [of "\<lambda>v c. do_pops (xf_pops x) (with_fpu (snd (x86p_x87_compare S (xc_fpu c) v)) c)"]
    by (simp add: exec_compare_def Let_def unsupported_def split: if_splits)
  have others: "xc_status (exec_store_status m i h a c) \<noteq> EngineOk \<Longrightarrow> xc_cpu (exec_store_status m i h a c) = xc_cpu c \<and> xc_host (exec_store_status m i h a c) = xc_host c"
    "xc_status (exec_load_control m h a c) \<noteq> EngineOk \<Longrightarrow> xc_cpu (exec_load_control m h a c) = xc_cpu c \<and> xc_host (exec_load_control m h a c) = xc_host c"
    "xc_status (exec_store_control m h a c) \<noteq> EngineOk \<Longrightarrow> xc_cpu (exec_store_control m h a c) = xc_cpu c \<and> xc_host (exec_store_control m h a c) = xc_host c"
    "xc_status (exec_restore m a c) \<noteq> EngineOk \<Longrightarrow> xc_cpu (exec_restore m a c) = xc_cpu c \<and> xc_host (exec_restore m a c) = xc_host c"
    "xc_status (exec_fcmov S i c) = EngineOk" "xc_status (exec_compare_int S i x c) = EngineOk"
    using assms(1)
    by (auto simp: exec_store_status_def exec_load_control_def exec_store_control_def exec_restore_def exec_fcmov_def
        exec_compare_int_def Let_def x87_fault_def unsupported_def split: option.splits if_splits prod.split)
  show ?thesis
    using assms load load_int store arith compare others fn_refused [of S "xc_fpu c" "xf_fn x"]
    unfolding x87_execute_def Let_def
    by (cases "xf_insn x") (auto simp: same unsupported_def constant_value_def split: prod.splits bool.splits)
qed

text \<open>
  C12. A floating-point instruction that faults or is refused has changed nothing: no register,
  flag, stack position or byte of memory, so nothing is popped by a store that could not be made.
  The integer stores, which record an invalid conversion first, and FNSAVE are the two exceptions.
\<close>

theorem x87_fault_is_precise:
  assumes "x86p_x87_execute S classify cn m i addr cpu s = (st, cpu', s')" and "st \<noteq> EngineOk"
    and "xf_insn (classify i) \<noteq> kX86pX87InsnStoreInt" and "xf_insn (classify i) \<noteq> kX86pX87InsnSaveState"
  shows "cpu' = cpu \<and> s' = s"
proof (cases "i_op i = kX86pInsnX87")
  case True
  let ?c = "\<lparr>xc_cpu = cpu, xc_host = s, xc_census = cn, xc_status = EngineOk\<rparr>"
  show ?thesis
    using fault_precise [of ?c S m i "classify i" "addr \<noteq> None" "case addr of None \<Rightarrow> 0 | Some a \<Rightarrow> a"] assms True
    by (auto simp: x86p_x87_execute_def Let_def)
qed (use assms in \<open>simp add: x86p_x87_execute_def\<close>)

text \<open>A load from an address that is not mapped.\<close>

definition fld_m32 :: insn where
  "fld_m32 =
     (let z = \<lparr>o_seg = kX86pSegDs, o_kind = kX86pOperandNone, o_size = 0, o_reg = 0, o_base = None, o_index = None,
            o_scale = 0, o_disp = 0, o_imm = 0, o_selector = 0, o_addr16 = False, o_index_low_byte = False,
            o_relative = False\<rparr> in
      inc_eax\<lparr>i_op := kX86pInsnX87, i_operand := [z\<lparr>o_kind := kX86pOperandMem, o_size := 4\<rparr>, z, z]\<rparr>)"

definition as_load :: "insn \<Rightarrow> x87_fields" where
  "as_load i = \<lparr>xf_insn = kX86pX87InsnLoad, xf_op = kX86pX87Add, xf_fn = kX86pX87FnCount, xf_pops = 0, xf_reverse = False,
     xf_mem_int = False\<rparr>"

lemma unmapped_read: "x86p_mem_read_bytes window st 0 4 = None"
proof -
  have "one_span window 0 4 kX86pMemRead = None" "\<not> x86p_mem_accessible window 0 4 kX86pMemRead" by code_simp+
  then show ?thesis by (simp add: x86p_mem_read_bytes_def)
qed

theorem x87_fault_is_precise_witness:
  "\<forall>s0. x86p_x87_execute plain_host as_load no_counts window fld_m32 (Some 0) x86p_cpu_reset s0 = (EngineFault 0, x86p_cpu_reset, s0)"
proof
  fix s0
  obtain st cpu' s' where r: "x86p_x87_execute plain_host as_load no_counts window fld_m32 (Some 0) x86p_cpu_reset s0 = (st, cpu', s')"
    by (cases "x86p_x87_execute plain_host as_load no_counts window fld_m32 (Some 0) x86p_cpu_reset s0")
  have f: "st = EngineFault 0"
    using r by (simp add: x86p_x87_execute_def fld_m32_def as_load_def x87_execute_def exec_load_def read_value_def
        x86p_x87_read_value_def x86p_x87_read_value_raw_def width_supported_def bits_width_supported_def unmapped_read
        x87_fault_def Let_def inc_eax_def)
  then show "x86p_x87_execute plain_host as_load no_counts window fld_m32 (Some 0) x86p_cpu_reset s0 = (EngineFault 0, x86p_cpu_reset, s0)"
    using x87_fault_is_precise [OF r] r by (simp add: as_load_def)
qed

section \<open>Comparison\<close>

text \<open>The \<open>long double\<close> a normal register becomes has the register's value.\<close>

lemma exact_value:
  assumes "x86p_ext80_is_normal v" "x86p_x87_ext80_to_f128_exact v = Some w"
  shows "f128_value w = ext80_value v"
proof -
  define s where "s = unat (e8_signif v)"
  define t where "t = s - 2 ^ 63"
  define e where "e = unat (e8_sign_exp v AND 0x7FFF)"
  have s: "s = 2 ^ 63 + t" "t < 2 ^ 63"
    using assms(1) unat_lt64 [of "e8_signif v"] by (simp_all add: s_def t_def normal_iff)
  have e: "0 < e" "e < 0x7FFF" using assms(1) unfolding normal_iff ext80_exponent_def e_def by linarith+
  have w: "f_lo w = push_bit 49 (e8_signif v)" "f_hi w = push_bit 48 (ucast (e8_sign_exp v)) OR (drop_bit 15 (e8_signif v) AND (push_bit 48 1 - 1))"
    using assms(2) by (auto simp: x86p_x87_ext80_to_f128_exact_def kLowFractionBits_def kHighFractionShift_def kFractionHighMask_def split: if_splits)
  have x: "unat (ucast (e8_sign_exp v) :: u64) = unat (e8_sign_exp v)"
    using unsigned_less [of "e8_sign_exp v", where ?'a = nat] by (simp add: unsigned_ucast_eq take_bit_nat_eq_self)
  have x16: "unat (e8_sign_exp v) < 2 ^ 16" using unsigned_less [of "e8_sign_exp v", where ?'a = nat] by simp
  have low: "unat (drop_bit 15 (e8_signif v) AND (push_bit 48 1 - 1)) < 2 ^ 48" unfolding unat_low by simp
  have hi: "unat (f_hi w) = unat (e8_sign_exp v) * 2 ^ 48 + s div 2 ^ 15 mod 2 ^ 48"
    unfolding w(2) unat_or_low [OF low] x unat_low unat_drop s_def using x16 by simp
  have lo: "unat (f_lo w) = s * 2 ^ 49 mod 2 ^ 64" unfolding w(1) unat_push s_def ..
  have em: "e = unat (e8_sign_exp v) mod 2 ^ 15"
  proof -
    have "0x7FFF = (mask 15 :: u16)" by (simp add: mask_eq_exp_minus_1)
    then have "e8_sign_exp v AND 0x7FFF = take_bit 15 (e8_sign_exp v)" by (simp only: take_bit_eq_mask)
    then show ?thesis unfolding e_def by (simp only: unsigned_take_bit_eq) (simp add: take_bit_eq_mod)
  qed
  have q: "s div 2 ^ 15 mod 2 ^ 48 = t div 2 ^ 15"
  proof -
    have "t div 2 ^ 15 < 2 ^ 48" using s(2) by (intro less_mult_imp_div_less) simp
    moreover have "s div 2 ^ 15 = 2 ^ 48 + t div 2 ^ 15" unfolding s(1) by simp
    ultimately show ?thesis by simp
  qed
  have l: "s * 2 ^ 49 mod 2 ^ 64 = t mod 2 ^ 15 * 2 ^ 49"
  proof -
    have "s * 2 ^ 49 mod (2 ^ 15 * 2 ^ 49) = s mod 2 ^ 15 * 2 ^ 49" by (rule mult_mod_left [symmetric])
    moreover have "s mod 2 ^ 15 = t mod 2 ^ 15"
    proof -
      have "s = t + 2 ^ 48 * 2 ^ 15" unfolding s(1) by simp
      then show ?thesis by (simp only: mod_mult_self1)
    qed
    ultimately show ?thesis by (simp flip: power_add)
  qed
  have h: "unat (f_hi w) mod 2 ^ 63 = e * 2 ^ 48 + t div 2 ^ 15"
  proof -
    have "t div 2 ^ 15 < 2 ^ 48" using s(2) by (intro less_mult_imp_div_less) simp
    then show ?thesis unfolding hi q em using mod_mult2_eq [of "unat (e8_sign_exp v) * 2 ^ 48 + t div 2 ^ 15" "2 ^ 48" "2 ^ 15"]
      by simp
  qed
  have mag: "f128_magnitude w = e * 2 ^ 112 + t * 2 ^ 49"
  proof -
    have "(2 :: nat) ^ 112 = 2 ^ 48 * 2 ^ 64" "(2 :: nat) ^ 64 = 2 ^ 15 * 2 ^ 49" by (simp_all only: power_add [symmetric]) simp_all
    then have "f128_magnitude w = e * 2 ^ 112 + (t div 2 ^ 15 * 2 ^ 15 + t mod 2 ^ 15) * 2 ^ 49"
      unfolding f128_magnitude_def h lo l by (simp only: distrib_right mult.assoc)
    then show ?thesis by (simp only: div_mult_mod_eq)
  qed
  have frac: "t * 2 ^ 49 < 2 ^ 112"
  proof -
    have "t * 2 ^ 49 < 2 ^ 63 * 2 ^ 49" using s(2) by (rule mult_strict_right_mono) simp
    then show ?thesis by (simp only: power_add [symmetric]) simp
  qed
  have num: "f128_number (f128_magnitude w) = real s * 2 powi (int e - 16446)"
  proof -
    have d: "(e * 2 ^ 112 + t * 2 ^ 49) div 2 ^ 112 = e" "(e * 2 ^ 112 + t * 2 ^ 49) mod 2 ^ 112 = t * 2 ^ 49"
      using frac by simp_all
    have "2 ^ 112 + t * 2 ^ 49 = s * 2 ^ 49" unfolding s(1) distrib_right by (simp only: power_add [symmetric]) simp
    moreover have "max 1 e = e" using e(1) by simp
    ultimately have "f128_number (f128_magnitude w) = real (s * 2 ^ 49) * 2 powi (int e - 16495)"
      using e(1) unfolding mag f128_number_def Let_def d by simp
    also have "int e - 16495 = (int e - 16446) - int 49" by simp
    finally show ?thesis by (simp only: scaled_back)
  qed
  have sign: "f_hi w AND F128_SIGN_BIT = 0 \<longleftrightarrow> e8_sign_exp v AND 0x8000 = 0"
  proof -
    have "e8_sign_exp v AND 0x8000 = 0 \<longleftrightarrow> \<not> bit (e8_sign_exp v) 15" using and_exp_eq_0_iff_not_bit [of "e8_sign_exp v" 15] by simp
    also have "bit (e8_sign_exp v) 15 \<longleftrightarrow> bit (f_hi w) 63"
      unfolding w(2) by (auto simp: bit_simps dest: bit_imp_le_length)
    also have "\<not> bit (f_hi w) 63 \<longleftrightarrow> f_hi w AND F128_SIGN_BIT = 0"
      using and_exp_eq_0_iff_not_bit [of "f_hi w" 63] by (simp add: F128_SIGN_BIT_def)
    finally show ?thesis by simp
  qed
  have "int e = ext80_exponent v" by (simp only: e_def ext80_exponent_def)
  then show ?thesis
    unfolding f128_value_def num sign normal_value [OF assms(1)] ext80_sign_def s_def [symmetric] by simp
qed

lemma exponent_field:
  fixes w :: u64
  shows "(ucast (drop_bit 48 w AND ucast F128_EXP_MASK) :: u32) = F128_EXP_MASK \<longleftrightarrow> ucast (drop_bit 48 w) AND kExponentMask = kExponentMask"
proof -
  have k: "F128_EXP_MASK = (mask 15 :: u32)" "kExponentMask = (mask 15 :: u16)"
    by (simp_all add: F128_EXP_MASK_def kExponentMask_def mask_eq_exp_minus_1)
  have n: "n < 15 \<Longrightarrow> n < 16 \<and> n < 32" for n :: nat by simp
  show ?thesis unfolding k bit_eq_iff by (auto simp: bit_simps dest: n)
qed

lemma exact_number:
  assumes "x86p_ext80_is_normal v" "x86p_x87_ext80_to_f128_exact v = Some w"
  shows "\<not> x86p_f128_is_nan w"
proof -
  have "x86p_x87_f128_to_ext80_exact w = Some v" using reassembled [OF assms(1)] assms(2) by auto
  then have "ucast (drop_bit 48 (f_hi w)) AND kExponentMask \<noteq> kExponentMask"
    by (auto simp: x86p_x87_f128_to_ext80_exact_def is_finite_normal_def Let_def split: if_splits)
  then show ?thesis by (simp add: x86p_f128_is_nan_def f128_exponent_def exponent_field)
qed

lemma crossed:
  assumes "x86p_ext80_is_normal (ext80_of_reg v)"
  shows "f128_value (x86p_x87_reg_to_long_double S v) = ext80_value (ext80_of_reg v)" "\<not> x86p_f128_is_nan (x86p_x87_reg_to_long_double S v)"
proof -
  obtain w where w: "x86p_x87_ext80_to_f128_exact (ext80_of_reg v) = Some w" using reassembled [OF assms] by blast
  then have "x86p_x87_reg_to_long_double S v = w" by (simp add: x86p_x87_reg_to_long_double_def narrow_ld_def)
  then show "f128_value (x86p_x87_reg_to_long_double S v) = ext80_value (ext80_of_reg v)" "\<not> x86p_f128_is_nan (x86p_x87_reg_to_long_double S v)"
    using exact_value [OF assms w] exact_number [OF assms w] by simp_all
qed

text \<open>
  C27. FCOM orders what the registers hold: of two normal numbers the comparison sets C0 exactly when
  ST(0) is the smaller, C3 exactly when they are equal, clears the other condition bits, and touches
  nothing else of the unit, for values of any magnitude and sign.
\<close>

theorem comparison_orders_the_values:
  assumes "x86p_x87_read f 0 = Some a" and "x86p_ext80_is_normal (ext80_of_reg a)" "x86p_ext80_is_normal (ext80_of_reg b)"
  shows "x86p_x87_compare S f (x86p_x87_reg_to_long_double S b) =
     (True, f\<lparr>x_status := (x_status f AND NOT (X86P_X87_C0 OR X86P_X87_C1 OR X86P_X87_C2 OR X86P_X87_C3)) OR
        (if ext80_value (ext80_of_reg a) < ext80_value (ext80_of_reg b) then X86P_X87_C0
         else if ext80_value (ext80_of_reg a) = ext80_value (ext80_of_reg b) then X86P_X87_C3 else 0)\<rparr>)"
  using assms crossed [OF assms(2), of S] crossed [OF assms(3), of S]
  by (simp add: x86p_x87_compare_def x86p_x87_get_def Let_def f128_order)

theorem comparison_orders_the_values_witness:
  "\<forall>S. snd (x86p_x87_compare S unit_of_1_5 (x86p_x87_reg_to_long_double S (reg_of_ext80 one_and_a_half_reg))) =
     unit_of_1_5\<lparr>x_status := (x_status unit_of_1_5 AND NOT (X86P_X87_C0 OR X86P_X87_C1 OR X86P_X87_C2 OR X86P_X87_C3)) OR X86P_X87_C3\<rparr>"
proof -
  have "x86p_ext80_is_normal (ext80_of_reg (reg_of_ext80 one_and_a_half_reg))"
    unfolding reg_ext80 one_and_a_half_reg_def by (simp add: normal_iff ext80_exponent_def)
  from comparison_orders_the_values [OF unit_read(1) this this] show ?thesis by simp
qed

end
