(* ===== verification/X86_Decode_Cache.thy ===== *)
theory X86_Decode_Cache
  imports X86_Exec_Properties
begin

text \<open>
  The decode cache of the interpreter: \<open>src/src/x86port/decode_cache.h\<close>, \<open>decode_cache.c\<close>, and the
  step through it, \<open>x86p_step_cached\<close> of \<open>exec.c\<close>.  The decoder stays a parameter.  A cached step and
  an uncached one are shown to be the same step, for any run from an empty cache, code that rewrites
  itself included.
\<close>

section \<open>The cache\<close>

definition X86P_DECODE_CACHE_SLOTS :: nat where "X86P_DECODE_CACHE_SLOTS = 16384"

record decode_cache_entry =
  de_eip :: u32
  de_valid :: bool
  de_length :: nat
  de_bytes :: "u8 list"
  de_insn :: insn

record decode_cache =
  dc_slot :: "decode_cache_entry list"
  dc_hits :: u64
  dc_cold :: u64
  dc_collisions :: u64
  dc_rewritten :: u64

definition cache_slot_of :: "u32 \<Rightarrow> nat" where
  "cache_slot_of eip = unat (drop_bit 15 (eip * 2654435761) AND 0x3FFF)"

text \<open>The outcome of looking at a slot, one of the four counters.\<close>

definition entry_matches :: "decode_cache_entry \<Rightarrow> u8 list \<Rightarrow> bool" where
  "entry_matches e bytes \<longleftrightarrow> de_length e \<le> length bytes \<and> take (de_length e) (de_bytes e) = take (de_length e) bytes"

definition x86p_decode_cached ::
  "(u8 list \<Rightarrow> insn option) \<Rightarrow> decode_cache option \<Rightarrow> u32 \<Rightarrow> u8 list \<Rightarrow> insn option \<times> decode_cache option" where
  "x86p_decode_cached dec cache eip bytes =
     (case cache of
        None \<Rightarrow> (dec bytes, None)
      | Some c \<Rightarrow>
          let k = cache_slot_of eip; e = dc_slot c ! k in
          if de_valid e \<and> de_eip e = eip \<and> entry_matches e bytes
          then (Some (de_insn e), Some (c\<lparr>dc_hits := dc_hits c + 1\<rparr>))
          else
            let c = (if \<not> de_valid e then c\<lparr>dc_cold := dc_cold c + 1\<rparr>
                     else if de_eip e \<noteq> eip then c\<lparr>dc_collisions := dc_collisions c + 1\<rparr>
                     else c\<lparr>dc_rewritten := dc_rewritten c + 1\<rparr>) in
            case dec bytes of
              None \<Rightarrow> (None, Some (c\<lparr>dc_slot := (dc_slot c)[k := e\<lparr>de_valid := False\<rparr>]\<rparr>))
            | Some i \<Rightarrow>
                let n = (if i_length i \<le> 15 then unat (i_length i) else 15) in
                (Some i,
                 Some (c\<lparr>dc_slot := (dc_slot c)[k := \<lparr>de_eip = eip, de_valid = True, de_length = n,
                   de_bytes = take n bytes @ drop n (de_bytes e), de_insn = i\<rparr>]\<rparr>)))"

text \<open>An all-zero instruction record is never read; the slot is not valid.\<close>

definition x86p_decode_cache_reset :: "insn \<Rightarrow> decode_cache" where
  "x86p_decode_cache_reset zero =
     \<lparr>dc_slot = replicate X86P_DECODE_CACHE_SLOTS
        \<lparr>de_eip = 0, de_valid = False, de_length = 0, de_bytes = replicate 15 0, de_insn = zero\<rparr>,
      dc_hits = 0, dc_cold = 0, dc_collisions = 0, dc_rewritten = 0\<rparr>"

definition x86p_decode_cache_lookups :: "decode_cache \<Rightarrow> u64" where
  "x86p_decode_cache_lookups c = dc_hits c + dc_cold c + dc_collisions c + dc_rewritten c"

section \<open>The step through the cache\<close>

definition x86p_step_cached ::
  "engines \<Rightarrow> mem \<Rightarrow> decode_cache option \<Rightarrow> cpu \<Rightarrow> host \<Rightarrow>
     ((step_status \<times> step_report \<times> cpu \<times> host) \<times> decode_cache option) option" where
  "x86p_step_cached en m cache cpu s =
     (let report = \<lparr>sr_status = kX86pStepOk, sr_eip = c_eip cpu, sr_length = 0, sr_mnemonic = ''?'',
            sr_op = kX86pInsnUnsupported, sr_fault_addr = 0, sr_trap_vector = 0\<rparr>;
          avail = x86p_mem_readable_span m (c_eip cpu) 15 in
      case (if avail = 0 then None else x86p_mem_read_bytes m (hs_bytes s) (c_eip cpu) avail) of
        None \<Rightarrow>
          Some ((kX86pStepFetchFault, report\<lparr>sr_status := kX86pStepFetchFault, sr_fault_addr := c_eip cpu\<rparr>, cpu, s), cache)
      | Some bytes \<Rightarrow>
          (case x86p_decode_cached (en_decode en) cache (c_eip cpu) bytes of
             (None, cache) \<Rightarrow>
               Some ((kX86pStepDecodeFailed,
                 report\<lparr>sr_status := kX86pStepDecodeFailed, sr_fault_addr := c_eip cpu\<rparr>, cpu, s), cache)
           | (Some i, cache) \<Rightarrow>
               let report = report\<lparr>sr_length := i_length i, sr_mnemonic := i_mnemonic i, sr_op := i_op i\<rparr> in
               if i_op i = kX86pInsnUnsupported then
                 Some ((kX86pStepUnsupported, report\<lparr>sr_status := kX86pStepUnsupported\<rparr>, cpu, s), cache)
               else do {
                 (st, fault_addr, cpu, s) \<leftarrow> x86p_execute_decoded en m i cpu s;
                 let report = report\<lparr>sr_status := st\<rparr>;
                 Some ((st, if st \<noteq> kX86pStepOk then report\<lparr>sr_fault_addr := fault_addr\<rparr> else report, cpu, s), cache)
               }))"

section \<open>What a cache may hold\<close>

text \<open>
  The decoder's contract: an instruction lies inside the bytes it was decoded from, is at most fifteen
  bytes long, and depends on no byte behind it.
\<close>

definition decoder_laws :: "(u8 list \<Rightarrow> insn option) \<Rightarrow> bool" where
  "decoder_laws dec \<longleftrightarrow>
     (\<forall>bytes i. dec bytes = Some i \<longrightarrow>
        unat (i_length i) \<le> length bytes \<and> i_length i \<le> 15 \<and>
        (\<forall>tail. dec (take (unat (i_length i)) bytes @ tail) = Some i))"

definition entry_ok :: "(u8 list \<Rightarrow> insn option) \<Rightarrow> decode_cache_entry \<Rightarrow> bool" where
  "entry_ok dec e \<longleftrightarrow>
     (de_valid e \<longrightarrow> de_length e \<le> length (de_bytes e) \<and>
        (\<forall>tail. dec (take (de_length e) (de_bytes e) @ tail) = Some (de_insn e)))"

definition cache_ok :: "(u8 list \<Rightarrow> insn option) \<Rightarrow> decode_cache \<Rightarrow> bool" where
  "cache_ok dec c \<longleftrightarrow> length (dc_slot c) = X86P_DECODE_CACHE_SLOTS \<and> (\<forall>e \<in> set (dc_slot c). entry_ok dec e)"

lemma slot_bound: "cache_slot_of eip < X86P_DECODE_CACHE_SLOTS"
proof -
  have "drop_bit 15 (eip * 2654435761) AND 0x3FFF \<le> (0x3FFF :: u32)" by (rule word_and_le1)
  then show ?thesis
    unfolding cache_slot_of_def X86P_DECODE_CACHE_SLOTS_def by (simp add: word_le_nat_alt)
qed

lemma reset_ok: "cache_ok dec (x86p_decode_cache_reset zero)"
  by (simp add: cache_ok_def x86p_decode_cache_reset_def entry_ok_def)

lemma matching_entry:
  assumes "entry_ok dec e" and "de_valid e" and "entry_matches e bytes"
  shows "dec bytes = Some (de_insn e)"
proof -
  have "bytes = take (de_length e) (de_bytes e) @ drop (de_length e) bytes"
    using assms(3) unfolding entry_matches_def by (metis append_take_drop_id)
  then show ?thesis using assms(1,2) unfolding entry_ok_def by metis
qed

lemma replaced_ok:
  assumes "cache_ok dec c" and "dc_slot c' = (dc_slot c)[k := e]" and "entry_ok dec e"
  shows "cache_ok dec c'"
  using assms set_update_subset_insert [of "dc_slot c" k e] unfolding cache_ok_def by auto

lemma decode_cached_ok:
  assumes "decoder_laws dec" and "cache_ok dec c"
  shows "\<exists>c'. x86p_decode_cached dec (Some c) eip bytes = (dec bytes, Some c') \<and> cache_ok dec c' \<and>
     x86p_decode_cache_lookups c' = x86p_decode_cache_lookups c + 1"
proof -
  let ?k = "cache_slot_of eip" and ?e = "dc_slot c ! cache_slot_of eip"
  have e: "entry_ok dec ?e" using assms(2) slot_bound [of eip] by (simp add: cache_ok_def)
  show ?thesis
  proof (cases "de_valid ?e \<and> de_eip ?e = eip \<and> entry_matches ?e bytes")
    case True
    then show ?thesis
      using matching_entry [OF e, of bytes] assms(2)
      by (simp add: x86p_decode_cached_def Let_def cache_ok_def x86p_decode_cache_lookups_def)
  next
    case False
    show ?thesis
    proof (cases "dec bytes")
      case None
      have "entry_ok dec (?e\<lparr>de_valid := False\<rparr>)" by (simp add: entry_ok_def)
      then show ?thesis using False None
        by (auto simp: x86p_decode_cached_def Let_def x86p_decode_cache_lookups_def intro!: replaced_ok [OF assms(2)])
    next
      case (Some i)
      then have i: "unat (i_length i) \<le> length bytes" "i_length i \<le> 15" "\<And>tail. dec (take (unat (i_length i)) bytes @ tail) = Some i"
        using assms(1) unfolding decoder_laws_def by blast+
      have "entry_ok dec \<lparr>de_eip = eip, de_valid = True, de_length = unat (i_length i),
          de_bytes = take (unat (i_length i)) bytes @ drop (unat (i_length i)) (de_bytes ?e), de_insn = i\<rparr>"
        using i by (simp add: entry_ok_def)
      then show ?thesis using False Some i(2)
        by (auto simp: x86p_decode_cached_def Let_def x86p_decode_cache_lookups_def intro!: replaced_ok [OF assms(2)])
    qed
  qed
qed

lemma step_cached_ok:
  assumes "decoder_laws (en_decode en)" and "cache_ok (en_decode en) c"
  shows "\<exists>c'. cache_ok (en_decode en) c' \<and>
     x86p_step_cached en m (Some c) cpu s = map_option (\<lambda>r. (r, Some c')) (x86p_step en m cpu s)"
proof (cases "if x86p_mem_readable_span m (c_eip cpu) 15 = 0 then None
    else x86p_mem_read_bytes m (hs_bytes s) (c_eip cpu) (x86p_mem_readable_span m (c_eip cpu) 15)")
  case None
  then show ?thesis using assms(2) by (auto simp: x86p_step_cached_def x86p_step_def Let_def)
next
  case (Some bytes)
  obtain c' where c': "x86p_decode_cached (en_decode en) (Some c) (c_eip cpu) bytes = (en_decode en bytes, Some c')"
      "cache_ok (en_decode en) c'"
    using decode_cached_ok [OF assms] by blast
  show ?thesis
  proof (intro exI conjI)
    show "cache_ok (en_decode en) c'" by (rule c'(2))
    show "x86p_step_cached en m (Some c) cpu s = map_option (\<lambda>r. (r, Some c')) (x86p_step en m cpu s)"
    proof (cases "en_decode en bytes")
      case None
      then show ?thesis using Some c'(1) unfolding x86p_step_cached_def x86p_step_def Let_def by simp
    next
      case i: (Some i)
      then show ?thesis using Some c'(1) unfolding x86p_step_cached_def x86p_step_def Let_def
        by (cases "x86p_execute_decoded en m i cpu s") (auto split: prod.splits)
    qed
  qed
qed

section \<open>Runs\<close>

text \<open>A run of \<open>n\<close> steps, whatever each step's status, with the cache and without.\<close>

fun cached_run :: "nat \<Rightarrow> engines \<Rightarrow> mem \<Rightarrow> decode_cache \<Rightarrow> cpu \<Rightarrow> host \<Rightarrow> ((step_status \<times> step_report) list \<times> cpu \<times> host) option" where
  "cached_run 0 en m c cpu s = Some ([], cpu, s)"
| "cached_run (Suc n) en m c cpu s = do {
     ((st, report, cpu, s), c) \<leftarrow> x86p_step_cached en m (Some c) cpu s;
     (log, cpu, s) \<leftarrow> cached_run n en m (the c) cpu s;
     Some ((st, report) # log, cpu, s)
   }"

fun uncached_run :: "nat \<Rightarrow> engines \<Rightarrow> mem \<Rightarrow> cpu \<Rightarrow> host \<Rightarrow> ((step_status \<times> step_report) list \<times> cpu \<times> host) option" where
  "uncached_run 0 en m cpu s = Some ([], cpu, s)"
| "uncached_run (Suc n) en m cpu s = do {
     (st, report, cpu, s) \<leftarrow> x86p_step en m cpu s;
     (log, cpu, s) \<leftarrow> uncached_run n en m cpu s;
     Some ((st, report) # log, cpu, s)
   }"

lemma cached_run_ok:
  assumes "decoder_laws (en_decode en)" and "cache_ok (en_decode en) c"
  shows "cached_run n en m c cpu s = uncached_run n en m cpu s"
  using assms(2)
proof (induction n arbitrary: c cpu s)
  case (Suc n)
  obtain c' where c': "cache_ok (en_decode en) c'"
      "x86p_step_cached en m (Some c) cpu s = map_option (\<lambda>r. (r, Some c')) (x86p_step en m cpu s)"
    using step_cached_ok [OF assms(1) Suc.prems] by blast
  show ?case
    by (cases "x86p_step en m cpu s") (auto simp: c'(2) Suc.IH [OF c'(1)] split: prod.splits)
qed simp

text \<open>
  C11. Executing through the decode cache is executing without it: from an empty cache, a run of any
  length gives the same reports, the same machine and the same memory, step by step, also where the
  program overwrites instructions the cache holds and where two addresses share a slot.
\<close>

theorem cached_execution_exact:
  assumes "decoder_laws (en_decode en)"
  shows "cached_run n en m (x86p_decode_cache_reset zero) cpu s = uncached_run n en m cpu s"
  by (rule cached_run_ok [OF assms reset_ok])

lemma demo_decodes: "decoder_laws (en_decode demo)"
proof -
  have "i_length inc_eax = 1" by (simp add: inc_eax_def Let_def)
  then show ?thesis by (auto simp: decoder_laws_def demo_def Suc_le_eq hd_append hd_take split: if_splits)
qed

theorem cached_execution_exact_witness:
  "\<forall>n cpu s. cached_run n demo window (x86p_decode_cache_reset inc_eax) cpu s = uncached_run n demo window cpu s"
  using cached_execution_exact [OF demo_decodes] by blast

end
