(* ===== verification/X86_Simd_Int.thy ===== *)
theory X86_Simd_Int
  imports X86_Prelude
begin

text \<open>
  The packed-integer lanes of MMX and SSE2: the vectors of \<open>src/src/x86port/simd_internal.h\<close>, the
  operations of \<open>simd.h\<close> and \<open>simd_int.c\<close>.

  A vector is sixteen bytes and the number of them that are live; the bytes are a function of their
  index.  The operations are grouped as the switches of the code group them, each under its own
  name; the end marker of the enumeration is not a value.  An operation another module implements
  is \<open>None\<close>.
\<close>

section \<open>Vectors\<close>

record vec =
  v_b :: "nat \<Rightarrow> u8"
  v_bytes :: nat

definition vec_zero :: "nat \<Rightarrow> vec" where
  "vec_zero n = \<lparr>v_b = \<lambda>k. 0, v_bytes = n\<rparr>"

text \<open>Element \<open>i\<close> of \<open>n\<close> bytes, the least significant byte first.\<close>

definition vec_get :: "nat \<Rightarrow> vec \<Rightarrow> nat \<Rightarrow> 'a::len word" where
  "vec_get n v i = foldr (\<lambda>k x. push_bit 8 x OR ucast (v_b v (n * i + k))) [0..<n] 0"

definition vec_put :: "nat \<Rightarrow> vec \<Rightarrow> nat \<Rightarrow> 'a::len word \<Rightarrow> vec" where
  "vec_put n v i x =
     v\<lparr>v_b := \<lambda>k. if n * i \<le> k \<and> k < n * i + n then ucast (drop_bit (8 * (k - n * i)) x) else v_b v k\<rparr>"

definition vec_u8 :: "vec \<Rightarrow> nat \<Rightarrow> u8" where "vec_u8 v i = v_b v i"
definition vec_u16 :: "vec \<Rightarrow> nat \<Rightarrow> u16" where "vec_u16 = vec_get 2"
definition vec_u32 :: "vec \<Rightarrow> nat \<Rightarrow> u32" where "vec_u32 = vec_get 4"
definition vec_u64 :: "vec \<Rightarrow> nat \<Rightarrow> u64" where "vec_u64 = vec_get 8"

definition vec_set_u8 :: "vec \<Rightarrow> nat \<Rightarrow> u8 \<Rightarrow> vec" where "vec_set_u8 = vec_put 1"
definition vec_set_u16 :: "vec \<Rightarrow> nat \<Rightarrow> u16 \<Rightarrow> vec" where "vec_set_u16 = vec_put 2"
definition vec_set_u32 :: "vec \<Rightarrow> nat \<Rightarrow> u32 \<Rightarrow> vec" where "vec_set_u32 = vec_put 4"
definition vec_set_u64 :: "vec \<Rightarrow> nat \<Rightarrow> u64 \<Rightarrow> vec" where "vec_set_u64 = vec_put 8"

text \<open>\<open>memcpy\<close> of \<open>n\<close> bytes between two vectors.\<close>

definition copy_bytes :: "vec \<Rightarrow> nat \<Rightarrow> vec \<Rightarrow> nat \<Rightarrow> nat \<Rightarrow> vec" where
  "copy_bytes r to src from n =
     r\<lparr>v_b := \<lambda>k. if to \<le> k \<and> k < to + n then v_b src (from + (k - to)) else v_b r k\<rparr>"

text \<open>The loop that sets the elements \<open>0\<close> to \<open>n - 1\<close>.\<close>

definition lanes :: "(vec \<Rightarrow> nat \<Rightarrow> 'a \<Rightarrow> vec) \<Rightarrow> nat \<Rightarrow> (nat \<Rightarrow> 'a) \<Rightarrow> vec \<Rightarrow> vec" where
  "lanes set_lane n f r = fold (\<lambda>i r. set_lane r i (f i)) [0..<n] r"

section \<open>Operations\<close>

datatype bitwise_op = kX86pSimdPand | kX86pSimdPandn | kX86pSimdPor | kX86pSimdPxor

datatype byte_op =
    kX86pSimdPaddb | kX86pSimdPsubb | kX86pSimdPaddsb | kX86pSimdPsubsb | kX86pSimdPaddusb | kX86pSimdPsubusb
  | kX86pSimdPcmpeqb | kX86pSimdPcmpgtb | kX86pSimdPavgb | kX86pSimdPminub | kX86pSimdPmaxub

datatype word_op =
    kX86pSimdPaddw | kX86pSimdPsubw | kX86pSimdPaddsw | kX86pSimdPsubsw | kX86pSimdPaddusw | kX86pSimdPsubusw
  | kX86pSimdPcmpeqw | kX86pSimdPcmpgtw | kX86pSimdPavgw | kX86pSimdPminsw | kX86pSimdPmaxsw
  | kX86pSimdPmullw | kX86pSimdPmulhw | kX86pSimdPmulhuw

datatype dword_op = kX86pSimdPaddd | kX86pSimdPsubd | kX86pSimdPcmpeqd | kX86pSimdPcmpgtd

datatype qword_op = kX86pSimdPaddq | kX86pSimdPsubq

datatype unpack_op =
    kX86pSimdPunpcklbw | kX86pSimdPunpcklwd | kX86pSimdPunpckldq
  | kX86pSimdPunpckhbw | kX86pSimdPunpckhwd | kX86pSimdPunpckhdq

datatype pack_op = kX86pSimdPackuswb | kX86pSimdPacksswb | kX86pSimdPackssdw

datatype shift_op =
    kX86pSimdPsllw | kX86pSimdPsrlw | kX86pSimdPsraw | kX86pSimdPslld | kX86pSimdPsrld | kX86pSimdPsrad
  | kX86pSimdPsllq | kX86pSimdPsrlq

datatype shuffle_op =
    kX86pSimdPmaddwd | kX86pSimdPsadbw | kX86pSimdPshufw | kX86pSimdPshufd | kX86pSimdPshuflw | kX86pSimdPshufhw
  | kX86pSimdPslldq | kX86pSimdPsrldq | kX86pSimdPunpcklqdq | kX86pSimdPunpckhqdq | kX86pSimdPmuludq

datatype int_op =
    Bitwise bitwise_op | Bytes byte_op | Words word_op | Dwords dword_op | Qwords qword_op
  | Unpack unpack_op | Pack pack_op | Shift shift_op | Shuffle shuffle_op

section \<open>Lanes\<close>

definition sat_u8 :: "int \<Rightarrow> u8" where
  "sat_u8 v = word_of_int (if v < 0 then 0 else if v > 255 then 255 else v)"

definition sat_s8 :: "int \<Rightarrow> u8" where
  "sat_s8 v = word_of_int (if v < -128 then -128 else if v > 127 then 127 else v)"

definition sat_u16 :: "int \<Rightarrow> u16" where
  "sat_u16 v = word_of_int (if v < 0 then 0 else if v > 65535 then 65535 else v)"

definition sat_s16 :: "int \<Rightarrow> u16" where
  "sat_s16 v = word_of_int (if v < -32768 then -32768 else if v > 32767 then 32767 else v)"

definition shift_count :: "vec \<Rightarrow> nat" where
  "shift_count b = (let c = vec_u64 b 0 in if c > 255 then 256 else unat c)"

definition bitwise :: "bitwise_op \<Rightarrow> u8 \<Rightarrow> u8 \<Rightarrow> u8" where
  "bitwise op x y =
     (case op of
        kX86pSimdPand \<Rightarrow> x AND y
      | kX86pSimdPandn \<Rightarrow> NOT x AND y
      | kX86pSimdPor \<Rightarrow> x OR y
      | kX86pSimdPxor \<Rightarrow> x XOR y)"

definition byte_lane :: "byte_op \<Rightarrow> u8 \<Rightarrow> u8 \<Rightarrow> u8" where
  "byte_lane op a b =
     (let x = uint a; y = uint b; sx = sint a; sy = sint b in
      case op of
        kX86pSimdPaddb \<Rightarrow> word_of_int (x + y)
      | kX86pSimdPsubb \<Rightarrow> word_of_int (x - y)
      | kX86pSimdPaddsb \<Rightarrow> sat_s8 (sx + sy)
      | kX86pSimdPsubsb \<Rightarrow> sat_s8 (sx - sy)
      | kX86pSimdPaddusb \<Rightarrow> sat_u8 (x + y)
      | kX86pSimdPsubusb \<Rightarrow> sat_u8 (x - y)
      | kX86pSimdPcmpeqb \<Rightarrow> (if x = y then 0xFF else 0)
      | kX86pSimdPcmpgtb \<Rightarrow> (if sx > sy then 0xFF else 0)
      | kX86pSimdPavgb \<Rightarrow> word_of_int (drop_bit 1 (x + y + 1))
      | kX86pSimdPminub \<Rightarrow> word_of_int (if x < y then x else y)
      | kX86pSimdPmaxub \<Rightarrow> word_of_int (if x > y then x else y))"

definition word_lane :: "word_op \<Rightarrow> u16 \<Rightarrow> u16 \<Rightarrow> u16" where
  "word_lane op a b =
     (let x = uint a; y = uint b; sx = sint a; sy = sint b in
      case op of
        kX86pSimdPaddw \<Rightarrow> word_of_int (x + y)
      | kX86pSimdPsubw \<Rightarrow> word_of_int (x - y)
      | kX86pSimdPaddsw \<Rightarrow> sat_s16 (sx + sy)
      | kX86pSimdPsubsw \<Rightarrow> sat_s16 (sx - sy)
      | kX86pSimdPaddusw \<Rightarrow> sat_u16 (x + y)
      | kX86pSimdPsubusw \<Rightarrow> sat_u16 (x - y)
      | kX86pSimdPcmpeqw \<Rightarrow> (if x = y then 0xFFFF else 0)
      | kX86pSimdPcmpgtw \<Rightarrow> (if sx > sy then 0xFFFF else 0)
      | kX86pSimdPavgw \<Rightarrow> word_of_int (drop_bit 1 (x + y + 1))
      | kX86pSimdPminsw \<Rightarrow> word_of_int (if sx < sy then sx else sy)
      | kX86pSimdPmaxsw \<Rightarrow> word_of_int (if sx > sy then sx else sy)
      | kX86pSimdPmullw \<Rightarrow> word_of_int (sx * sy)
      | kX86pSimdPmulhw \<Rightarrow> word_of_int (drop_bit 16 (sx * sy))
      | kX86pSimdPmulhuw \<Rightarrow> word_of_int (drop_bit 16 (x * y)))"

definition dword_lane :: "dword_op \<Rightarrow> u32 \<Rightarrow> u32 \<Rightarrow> u32" where
  "dword_lane op x y =
     (case op of
        kX86pSimdPaddd \<Rightarrow> x + y
      | kX86pSimdPsubd \<Rightarrow> x - y
      | kX86pSimdPcmpeqd \<Rightarrow> (if x = y then 0xFFFFFFFF else 0)
      | kX86pSimdPcmpgtd \<Rightarrow> (if sint x > sint y then 0xFFFFFFFF else 0))"

definition qword_lane :: "qword_op \<Rightarrow> u64 \<Rightarrow> u64 \<Rightarrow> u64" where
  "qword_lane op x y = (case op of kX86pSimdPaddq \<Rightarrow> x + y | kX86pSimdPsubq \<Rightarrow> x - y)"

section \<open>Interleaving, packing and shifting\<close>

definition unpack_lane :: "vec \<Rightarrow> vec \<Rightarrow> nat \<Rightarrow> bool \<Rightarrow> nat \<Rightarrow> vec \<Rightarrow> vec" where
  "unpack_lane a b elem high lane r =
     (let per = 8 div elem; base = lane * 8 in
      fold (\<lambda>i r.
          let from = base + (if high then per div 2 else 0) * elem + i * elem; to = base + i * 2 * elem in
          copy_bytes (copy_bytes r to a from elem) (to + elem) b from elem)
        [0..<per div 2] r)"

definition unpack :: "vec \<Rightarrow> vec \<Rightarrow> nat \<Rightarrow> bool \<Rightarrow> vec" where
  "unpack a b elem high = fold (unpack_lane a b elem high) [0..<v_bytes a div 8] (vec_zero (v_bytes a))"

definition unpack_lanes :: "unpack_op \<Rightarrow> vec \<Rightarrow> vec \<Rightarrow> vec" where
  "unpack_lanes op a b =
     (case op of
        kX86pSimdPunpcklbw \<Rightarrow> unpack a b 1 False
      | kX86pSimdPunpcklwd \<Rightarrow> unpack a b 2 False
      | kX86pSimdPunpckldq \<Rightarrow> unpack a b 4 False
      | kX86pSimdPunpckhbw \<Rightarrow> unpack a b 1 True
      | kX86pSimdPunpckhwd \<Rightarrow> unpack a b 2 True
      | kX86pSimdPunpckhdq \<Rightarrow> unpack a b 4 True)"

definition pack_lanes :: "pack_op \<Rightarrow> vec \<Rightarrow> vec \<Rightarrow> vec" where
  "pack_lanes op a b =
     (let r = vec_zero (v_bytes a);
          bytes = (\<lambda>sat.
            let n = v_bytes a div 2 in
            fold (\<lambda>i r. vec_set_u8 (vec_set_u8 r i (sat (sint (vec_u16 a i)))) (n + i) (sat (sint (vec_u16 b i)))) [0..<n] r) in
      case op of
        kX86pSimdPackuswb \<Rightarrow> bytes sat_u8
      | kX86pSimdPacksswb \<Rightarrow> bytes sat_s8
      | kX86pSimdPackssdw \<Rightarrow>
          let n = v_bytes a div 4 in
          fold (\<lambda>i r. vec_set_u16 (vec_set_u16 r i (sat_s16 (sint (vec_u32 a i)))) (n + i) (sat_s16 (sint (vec_u32 b i))))
            [0..<n] r)"

text \<open>The bits beyond a lane's width shift in zeros, or the sign; the count is not reduced.\<close>

definition shift_lane :: "bool \<Rightarrow> bool \<Rightarrow> nat \<Rightarrow> 'a::len word \<Rightarrow> 'a word" where
  "shift_lane left arithmetic c x =
     (let width = LENGTH('a) in
      if arithmetic then word_of_int (drop_bit (if c > width - 1 then width - 1 else c) (sint x))
      else if c > width - 1 then 0
      else if left then push_bit c x else drop_bit c x)"

definition shift_lanes :: "shift_op \<Rightarrow> vec \<Rightarrow> vec \<Rightarrow> vec" where
  "shift_lanes op a b =
     (let c = shift_count b; r = vec_zero (v_bytes a);
          words = (\<lambda>left arithmetic. lanes vec_set_u16 (v_bytes a div 2) (\<lambda>i. shift_lane left arithmetic c (vec_u16 a i)) r);
          dwords = (\<lambda>left arithmetic. lanes vec_set_u32 (v_bytes a div 4) (\<lambda>i. shift_lane left arithmetic c (vec_u32 a i)) r);
          qwords = (\<lambda>left. lanes vec_set_u64 (v_bytes a div 8) (\<lambda>i. shift_lane left False c (vec_u64 a i)) r) in
      case op of
        kX86pSimdPsllw \<Rightarrow> words True False
      | kX86pSimdPsrlw \<Rightarrow> words False False
      | kX86pSimdPsraw \<Rightarrow> words False True
      | kX86pSimdPslld \<Rightarrow> dwords True False
      | kX86pSimdPsrld \<Rightarrow> dwords False False
      | kX86pSimdPsrad \<Rightarrow> dwords False True
      | kX86pSimdPsllq \<Rightarrow> qwords True
      | kX86pSimdPsrlq \<Rightarrow> qwords False)"

definition selector :: "u8 \<Rightarrow> nat \<Rightarrow> nat" where
  "selector imm i = unat (drop_bit (i * 2) imm AND 3)"

text \<open>
  The sum of two products of words is the host's \<open>int\<close>; the one pair of products it cannot hold,
  where the code's addition is undefined, wraps.
\<close>

definition shuffle_lanes :: "shuffle_op \<Rightarrow> vec \<Rightarrow> vec \<Rightarrow> u8 \<Rightarrow> vec" where
  "shuffle_lanes op a b imm =
     (let r = vec_zero (v_bytes a);
          half_words = (\<lambda>half.
            lanes (\<lambda>r i. vec_set_u16 r (half + i)) 4 (\<lambda>i. vec_u16 b (half + selector imm i)) (b\<lparr>v_bytes := 16\<rparr>)) in
      case op of
        kX86pSimdPmaddwd \<Rightarrow>
          lanes vec_set_u32 (v_bytes a div 4)
            (\<lambda>i. word_of_int (sint (vec_u16 a (i * 2)) * sint (vec_u16 b (i * 2)) +
                   sint (vec_u16 a (i * 2 + 1)) * sint (vec_u16 b (i * 2 + 1)))) r
      | kX86pSimdPsadbw \<Rightarrow>
          lanes vec_set_u64 (v_bytes a div 8)
            (\<lambda>i. ucast (fold (\<lambda>k s. s + word_of_int \<bar>uint (vec_u8 a (i * 8 + k)) - uint (vec_u8 b (i * 8 + k))\<bar>) [0..<8] 0 :: u32)) r
      | kX86pSimdPshufw \<Rightarrow> (lanes vec_set_u16 4 (\<lambda>i. vec_u16 b (selector imm i)) r)\<lparr>v_bytes := 8\<rparr>
      | kX86pSimdPshufd \<Rightarrow> (lanes vec_set_u32 4 (\<lambda>i. vec_u32 b (selector imm i)) r)\<lparr>v_bytes := 16\<rparr>
      | kX86pSimdPshuflw \<Rightarrow> half_words 0
      | kX86pSimdPshufhw \<Rightarrow> half_words 4
      | kX86pSimdPslldq \<Rightarrow>
          let c = unat (vec_u8 b 0) in
          fold (\<lambda>i r. if c \<le> i then vec_set_u8 r i (v_b a (i - c)) else r) [0..<if c < 16 then 16 else 0] (r\<lparr>v_bytes := 16\<rparr>)
      | kX86pSimdPsrldq \<Rightarrow>
          let c = unat (vec_u8 b 0) in
          fold (\<lambda>i r. if i + c < 16 then vec_set_u8 r i (v_b a (i + c)) else r) [0..<if c < 16 then 16 else 0] (r\<lparr>v_bytes := 16\<rparr>)
      | kX86pSimdPunpcklqdq \<Rightarrow> (vec_set_u64 (vec_set_u64 r 0 (vec_u64 a 0)) 1 (vec_u64 b 0))\<lparr>v_bytes := 16\<rparr>
      | kX86pSimdPunpckhqdq \<Rightarrow> (vec_set_u64 (vec_set_u64 r 0 (vec_u64 a 1)) 1 (vec_u64 b 1))\<lparr>v_bytes := 16\<rparr>
      | kX86pSimdPmuludq \<Rightarrow>
          lanes vec_set_u64 (v_bytes a div 8) (\<lambda>i. ucast (vec_u32 a (i * 2)) * ucast (vec_u32 b (i * 2))) r)"

section \<open>The operation\<close>

definition simd_int_result :: "int_op \<Rightarrow> vec \<Rightarrow> vec \<Rightarrow> u8 \<Rightarrow> vec" where
  "simd_int_result op a b imm =
     (let r = vec_zero (v_bytes a) in
      case op of
        Bitwise op \<Rightarrow> lanes vec_set_u8 (v_bytes a) (\<lambda>i. bitwise op (v_b a i) (v_b b i)) r
      | Bytes op \<Rightarrow> lanes vec_set_u8 (v_bytes a) (\<lambda>i. byte_lane op (vec_u8 a i) (vec_u8 b i)) r
      | Words op \<Rightarrow> lanes vec_set_u16 (v_bytes a div 2) (\<lambda>i. word_lane op (vec_u16 a i) (vec_u16 b i)) r
      | Dwords op \<Rightarrow> lanes vec_set_u32 (v_bytes a div 4) (\<lambda>i. dword_lane op (vec_u32 a i) (vec_u32 b i)) r
      | Qwords op \<Rightarrow> lanes vec_set_u64 (v_bytes a div 8) (\<lambda>i. qword_lane op (vec_u64 a i) (vec_u64 b i)) r
      | Unpack op \<Rightarrow> unpack_lanes op a b
      | Pack op \<Rightarrow> pack_lanes op a b
      | Shift op \<Rightarrow> shift_lanes op a b
      | Shuffle op \<Rightarrow> shuffle_lanes op a b imm)"

end
