(* ===== verification/X86_Simd_Float.thy ===== *)
theory X86_Simd_Float
  imports X86_Simd_Int X86_Flags
begin

text \<open>
  The floating-point lanes of the vector unit: \<open>simd_packed.c\<close>, \<open>simd_float.c\<close>, \<open>simd_double.c\<close>, the
  inline functions of \<open>simd_internal.h\<close> and \<open>three_dnow.c\<close> under \<open>src/src/x86port\<close>.

  A \<open>float\<close> and a \<open>double\<close> are their encodings.  What the host computes on them is a record, its
  approximation instructions, which not every host has, included; classification and comparison are
  defined on the encodings.
\<close>

section \<open>The host's numbers\<close>

record host_float =
  hf_add :: "u32 \<Rightarrow> u32 \<Rightarrow> u32"
  hf_sub :: "u32 \<Rightarrow> u32 \<Rightarrow> u32"
  hf_mul :: "u32 \<Rightarrow> u32 \<Rightarrow> u32"
  hf_div :: "u32 \<Rightarrow> u32 \<Rightarrow> u32"
  hf_sqrt :: "u32 \<Rightarrow> u32"
  hf_trunc :: "u32 \<Rightarrow> u32"
  hf_nearby :: "u32 \<Rightarrow> u32"
  hf_of_int :: "u32 \<Rightarrow> u32"
  hf_to_int :: "u32 \<Rightarrow> u32"
  hf_widen :: "u32 \<Rightarrow> u64"
  hf_narrow :: "u64 \<Rightarrow> u32"
  hf_rcp :: "u32 \<Rightarrow> u32"
  hf_rsqrt :: "u32 \<Rightarrow> u32"
  hf_approx :: bool
  hq_add :: "u64 \<Rightarrow> u64 \<Rightarrow> u64"
  hq_sub :: "u64 \<Rightarrow> u64 \<Rightarrow> u64"
  hq_mul :: "u64 \<Rightarrow> u64 \<Rightarrow> u64"
  hq_div :: "u64 \<Rightarrow> u64 \<Rightarrow> u64"
  hq_sqrt :: "u64 \<Rightarrow> u64"
  hq_trunc :: "u64 \<Rightarrow> u64"
  hq_nearby :: "u64 \<Rightarrow> u64"
  hq_of_int :: "u32 \<Rightarrow> u64"
  hq_to_int :: "u64 \<Rightarrow> u32"

text \<open>\<open>isnan\<close>, \<open>isfinite\<close> and the operators \<open><\<close> and \<open>==\<close>, false on a NaN, the two zeros equal.\<close>

definition is_nan32 :: "u32 \<Rightarrow> bool" where
  "is_nan32 v \<longleftrightarrow> v AND 0x7FFFFFFF > 0x7F800000"

definition is_nan64 :: "u64 \<Rightarrow> bool" where
  "is_nan64 v \<longleftrightarrow> v AND 0x7FFFFFFFFFFFFFFF > 0x7FF0000000000000"

definition is_finite64 :: "u64 \<Rightarrow> bool" where
  "is_finite64 v \<longleftrightarrow> v AND 0x7FFFFFFFFFFFFFFF < 0x7FF0000000000000"

definition order32 :: "u32 \<Rightarrow> int" where
  "order32 v = (let magnitude = uint (v AND 0x7FFFFFFF) in if v AND 0x80000000 = 0 then magnitude else - magnitude)"

definition order64 :: "u64 \<Rightarrow> int" where
  "order64 v = (let magnitude = uint (v AND 0x7FFFFFFFFFFFFFFF) in if v AND 0x8000000000000000 = 0 then magnitude else - magnitude)"

definition less32 :: "u32 \<Rightarrow> u32 \<Rightarrow> bool" where
  "less32 a b \<longleftrightarrow> \<not> is_nan32 a \<and> \<not> is_nan32 b \<and> order32 a < order32 b"

definition equal32 :: "u32 \<Rightarrow> u32 \<Rightarrow> bool" where
  "equal32 a b \<longleftrightarrow> \<not> is_nan32 a \<and> \<not> is_nan32 b \<and> order32 a = order32 b"

definition less64 :: "u64 \<Rightarrow> u64 \<Rightarrow> bool" where
  "less64 a b \<longleftrightarrow> \<not> is_nan64 a \<and> \<not> is_nan64 b \<and> order64 a < order64 b"

definition equal64 :: "u64 \<Rightarrow> u64 \<Rightarrow> bool" where
  "equal64 a b \<longleftrightarrow> \<not> is_nan64 a \<and> \<not> is_nan64 b \<and> order64 a = order64 b"

section \<open>NaNs, comparisons and conversions\<close>

definition x86p_sse_nan_result :: "u32 \<Rightarrow> u32 \<Rightarrow> u32 \<Rightarrow> u32" where
  "x86p_sse_nan_result a b computed =
     (if is_nan32 a then a OR 0x00400000
      else if is_nan32 b then b OR 0x00400000
      else if is_nan32 computed then 0xFFC00000 OR 0x00400000
      else computed)"

definition x86p_sse_nan_result_f64 :: "u64 \<Rightarrow> u64 \<Rightarrow> u64 \<Rightarrow> u64" where
  "x86p_sse_nan_result_f64 a b computed =
     (if is_nan64 a then a OR 0x0008000000000000
      else if is_nan64 b then b OR 0x0008000000000000
      else if is_nan64 computed then 0xFFF8000000000000 OR 0x0008000000000000
      else computed)"

definition x86p_sse_compare :: "u8 \<Rightarrow> u64 \<Rightarrow> u64 \<Rightarrow> bool" where
  "x86p_sse_compare imm a b =
     (let unordered = is_nan64 a \<or> is_nan64 b; k = imm AND 7 in
      if k = 0 then \<not> unordered \<and> equal64 a b
      else if k = 1 then \<not> unordered \<and> less64 a b
      else if k = 2 then \<not> unordered \<and> (less64 a b \<or> equal64 a b)
      else if k = 3 then unordered
      else if k = 4 then \<not> (\<not> unordered \<and> equal64 a b)
      else if k = 5 then \<not> (\<not> unordered \<and> less64 a b)
      else if k = 6 then \<not> (\<not> unordered \<and> (less64 a b \<or> equal64 a b))
      else \<not> unordered)"

definition x86p_sse_compare_flags :: "u64 \<Rightarrow> u64 \<Rightarrow> flags \<Rightarrow> flags" where
  "x86p_sse_compare_flags a b f =
     x86p_flags_set_explicit f
       (X86P_EFLAGS_FIXED OR
        (if is_nan64 a \<or> is_nan64 b then X86P_ZF OR X86P_PF OR X86P_CF
         else if less64 a b then X86P_CF
         else if equal64 a b then X86P_ZF
         else 0))"

text \<open>The bounds are the encodings of the two ends of \<open>int32_t\<close>.\<close>

definition x86p_sse_integer :: "host_float \<Rightarrow> u64 \<Rightarrow> u32" where
  "x86p_sse_integer H rounded =
     (if \<not> is_finite64 rounded \<or> less64 rounded 0xC1E0000000000000 \<or> less64 0x41DFFFFFFFC00000 rounded then 0x80000000
      else hq_to_int H rounded)"

section \<open>Single precision\<close>

datatype packed_arith = kX86pSimdAddps | kX86pSimdSubps | kX86pSimdMulps | kX86pSimdDivps

datatype scalar_single =
    kX86pSimdAddss | kX86pSimdSubss | kX86pSimdMulss | kX86pSimdDivss | kX86pSimdMinss | kX86pSimdMaxss | kX86pSimdSqrtss

datatype single_op =
    PackedArith packed_arith | kX86pSimdMinps | kX86pSimdMaxps | kX86pSimdSqrtps
  | kX86pSimdRcpps | kX86pSimdRsqrtps | kX86pSimdRcpss | kX86pSimdRsqrtss
  | ScalarSingle scalar_single
  | kX86pSimdAndps | kX86pSimdAndnps | kX86pSimdOrps | kX86pSimdXorps
  | kX86pSimdCmpps | kX86pSimdCmpss | kX86pSimdComiss | kX86pSimdUcomiss
  | kX86pSimdShufps | kX86pSimdUnpcklps | kX86pSimdUnpckhps
  | kX86pSimdCvtpi2ps | kX86pSimdCvtps2pi | kX86pSimdCvttps2pi
  | kX86pSimdCvtsi2ss | kX86pSimdCvtss2si | kX86pSimdCvttss2si
  | kX86pSimdCvtdq2ps | kX86pSimdCvtps2dq | kX86pSimdCvttps2dq

definition packed_lane :: "host_float \<Rightarrow> packed_arith \<Rightarrow> u32 \<Rightarrow> u32 \<Rightarrow> u32" where
  "packed_lane H op a b =
     x86p_sse_nan_result a b
       (case op of
          kX86pSimdAddps \<Rightarrow> hf_add H a b
        | kX86pSimdSubps \<Rightarrow> hf_sub H a b
        | kX86pSimdMulps \<Rightarrow> hf_mul H a b
        | kX86pSimdDivps \<Rightarrow> hf_div H a b)"

definition min_ss :: "u32 \<Rightarrow> u32 \<Rightarrow> u32" where "min_ss a b = (if less32 a b then a else b)"
definition max_ss :: "u32 \<Rightarrow> u32 \<Rightarrow> u32" where "max_ss a b = (if less32 b a then a else b)"

definition scalar_lane :: "host_float \<Rightarrow> scalar_single \<Rightarrow> u32 \<Rightarrow> u32 \<Rightarrow> u32" where
  "scalar_lane H op x y =
     (case op of
        kX86pSimdAddss \<Rightarrow> x86p_sse_nan_result x y (hf_add H x y)
      | kX86pSimdSubss \<Rightarrow> x86p_sse_nan_result x y (hf_sub H x y)
      | kX86pSimdMulss \<Rightarrow> x86p_sse_nan_result x y (hf_mul H x y)
      | kX86pSimdDivss \<Rightarrow> x86p_sse_nan_result x y (hf_div H x y)
      | kX86pSimdMinss \<Rightarrow> min_ss x y
      | kX86pSimdMaxss \<Rightarrow> max_ss x y
      | kX86pSimdSqrtss \<Rightarrow> x86p_sse_nan_result y y (hf_sqrt H y))"

definition single_to_int :: "host_float \<Rightarrow> bool \<Rightarrow> u32 \<Rightarrow> u32" where
  "single_to_int H chop x = x86p_sse_integer H (hf_widen H (if chop then hf_trunc H x else hf_nearby H x))"

text \<open>The result and the flags, which only the two comparisons of lane 0 write.\<close>

definition x86p_simd_float :: "host_float \<Rightarrow> single_op \<Rightarrow> vec \<Rightarrow> vec \<Rightarrow> u8 \<Rightarrow> flags \<Rightarrow> vec \<times> flags" where
  "x86p_simd_float H op a b imm f =
     (let n = v_bytes a div 4; zero = vec_zero (v_bytes a);
          bits = (\<lambda>g. lanes vec_set_u8 (v_bytes a) (\<lambda>i. g (v_b a i) (v_b b i)) a);
          to_ints = (\<lambda>k chop. lanes vec_set_u32 k (\<lambda>i. single_to_int H chop (vec_u32 b i)));
          compare = (\<lambda>i. if x86p_sse_compare imm (hf_widen H (vec_u32 a i)) (hf_widen H (vec_u32 b i)) then 0xFFFFFFFF else 0) in
      case op of
        PackedArith op \<Rightarrow> (lanes vec_set_u32 4 (\<lambda>i. packed_lane H op (vec_u32 a i) (vec_u32 b i)) a, f)
      | kX86pSimdMinps \<Rightarrow> (lanes vec_set_u32 n (\<lambda>i. min_ss (vec_u32 a i) (vec_u32 b i)) a, f)
      | kX86pSimdMaxps \<Rightarrow> (lanes vec_set_u32 n (\<lambda>i. max_ss (vec_u32 a i) (vec_u32 b i)) a, f)
      | kX86pSimdSqrtps \<Rightarrow>
          (lanes vec_set_u32 n (\<lambda>i. x86p_sse_nan_result (vec_u32 b i) (vec_u32 b i) (hf_sqrt H (vec_u32 b i))) a, f)
      | kX86pSimdRcpps \<Rightarrow> (lanes vec_set_u32 4 (\<lambda>i. hf_rcp H (vec_u32 b i)) a, f)
      | kX86pSimdRsqrtps \<Rightarrow> (lanes vec_set_u32 4 (\<lambda>i. hf_rsqrt H (vec_u32 b i)) a, f)
      | kX86pSimdRcpss \<Rightarrow> (vec_set_u32 a 0 (hf_rcp H (vec_u32 b 0)), f)
      | kX86pSimdRsqrtss \<Rightarrow> (vec_set_u32 a 0 (hf_rsqrt H (vec_u32 b 0)), f)
      | ScalarSingle op \<Rightarrow> (vec_set_u32 a 0 (scalar_lane H op (vec_u32 a 0) (vec_u32 b 0)), f)
      | kX86pSimdAndps \<Rightarrow> (bits (\<lambda>x y. x AND y), f)
      | kX86pSimdAndnps \<Rightarrow> (bits (\<lambda>x y. NOT x AND y), f)
      | kX86pSimdOrps \<Rightarrow> (bits (\<lambda>x y. x OR y), f)
      | kX86pSimdXorps \<Rightarrow> (bits (\<lambda>x y. x XOR y), f)
      | kX86pSimdCmpps \<Rightarrow> (lanes vec_set_u32 n compare a, f)
      | kX86pSimdCmpss \<Rightarrow> (vec_set_u32 a 0 (compare 0), f)
      | kX86pSimdComiss \<Rightarrow> (a, x86p_sse_compare_flags (hf_widen H (vec_u32 a 0)) (hf_widen H (vec_u32 b 0)) f)
      | kX86pSimdUcomiss \<Rightarrow> (a, x86p_sse_compare_flags (hf_widen H (vec_u32 a 0)) (hf_widen H (vec_u32 b 0)) f)
      | kX86pSimdShufps \<Rightarrow>
          (lanes vec_set_u32 4 (\<lambda>i. vec_u32 (if i < 2 then a else b) (selector imm i)) a, f)
      | kX86pSimdUnpcklps \<Rightarrow>
          (vec_set_u32 (vec_set_u32 (vec_set_u32 (vec_set_u32 a 0 (vec_u32 a 0)) 1 (vec_u32 b 0)) 2 (vec_u32 a 1)) 3 (vec_u32 b 1), f)
      | kX86pSimdUnpckhps \<Rightarrow>
          (vec_set_u32 (vec_set_u32 (vec_set_u32 (vec_set_u32 a 0 (vec_u32 a 2)) 1 (vec_u32 b 2)) 2 (vec_u32 a 3)) 3 (vec_u32 b 3), f)
      | kX86pSimdCvtpi2ps \<Rightarrow> (lanes vec_set_u32 2 (\<lambda>i. hf_of_int H (vec_u32 b i)) a, f)
      | kX86pSimdCvtps2pi \<Rightarrow> (to_ints 2 False (a\<lparr>v_bytes := 8\<rparr>), f)
      | kX86pSimdCvttps2pi \<Rightarrow> (to_ints 2 True (a\<lparr>v_bytes := 8\<rparr>), f)
      | kX86pSimdCvtsi2ss \<Rightarrow> (vec_set_u32 a 0 (hf_of_int H (vec_u32 b 0)), f)
      | kX86pSimdCvtss2si \<Rightarrow> (vec_set_u32 (vec_zero 4) 0 (single_to_int H False (vec_u32 b 0)), f)
      | kX86pSimdCvttss2si \<Rightarrow> (vec_set_u32 (vec_zero 4) 0 (single_to_int H True (vec_u32 b 0)), f)
      | kX86pSimdCvtdq2ps \<Rightarrow> (lanes vec_set_u32 4 (\<lambda>i. hf_of_int H (vec_u32 b i)) a, f)
      | kX86pSimdCvtps2dq \<Rightarrow> (to_ints 4 False a, f)
      | kX86pSimdCvttps2dq \<Rightarrow> (to_ints 4 True a, f))"

section \<open>Double precision\<close>

datatype double_arith =
    kX86pSimdAddpd | kX86pSimdAddsd | kX86pSimdSubpd | kX86pSimdSubsd | kX86pSimdMulpd | kX86pSimdMulsd
  | kX86pSimdDivpd | kX86pSimdDivsd | kX86pSimdMinpd | kX86pSimdMinsd | kX86pSimdMaxpd | kX86pSimdMaxsd
  | kX86pSimdSqrtpd | kX86pSimdSqrtsd

datatype double_op =
    DoubleArith double_arith
  | kX86pSimdCmppd | kX86pSimdCmpsd | kX86pSimdComisd | kX86pSimdUcomisd | kX86pSimdShufpd
  | kX86pSimdCvtps2pd | kX86pSimdCvtpd2ps | kX86pSimdCvtss2sd | kX86pSimdCvtsd2ss
  | kX86pSimdCvtdq2pd | kX86pSimdCvtpd2dq | kX86pSimdCvttpd2dq
  | kX86pSimdCvtsi2sd | kX86pSimdCvtsd2si | kX86pSimdCvttsd2si
  | kX86pSimdCvtpi2pd | kX86pSimdCvtpd2pi | kX86pSimdCvttpd2pi

definition min_sd :: "u64 \<Rightarrow> u64 \<Rightarrow> u64" where "min_sd a b = (if less64 a b then a else b)"
definition max_sd :: "u64 \<Rightarrow> u64 \<Rightarrow> u64" where "max_sd a b = (if less64 b a then a else b)"

definition arithmetic :: "host_float \<Rightarrow> double_arith \<Rightarrow> u64 \<Rightarrow> u64 \<Rightarrow> u64" where
  "arithmetic H op x y =
     (if op = kX86pSimdAddpd \<or> op = kX86pSimdAddsd then x86p_sse_nan_result_f64 x y (hq_add H x y)
      else if op = kX86pSimdSubpd \<or> op = kX86pSimdSubsd then x86p_sse_nan_result_f64 x y (hq_sub H x y)
      else if op = kX86pSimdMulpd \<or> op = kX86pSimdMulsd then x86p_sse_nan_result_f64 x y (hq_mul H x y)
      else if op = kX86pSimdDivpd \<or> op = kX86pSimdDivsd then x86p_sse_nan_result_f64 x y (hq_div H x y)
      else if op = kX86pSimdMinpd \<or> op = kX86pSimdMinsd then min_sd x y
      else if op = kX86pSimdMaxpd \<or> op = kX86pSimdMaxsd then max_sd x y
      else x86p_sse_nan_result_f64 y y (hq_sqrt H y))"

definition packed_double :: "double_arith \<Rightarrow> bool" where
  "packed_double op \<longleftrightarrow>
     op = kX86pSimdAddpd \<or> op = kX86pSimdSubpd \<or> op = kX86pSimdMulpd \<or> op = kX86pSimdDivpd \<or>
     op = kX86pSimdMinpd \<or> op = kX86pSimdMaxpd \<or> op = kX86pSimdSqrtpd"

definition to_integer :: "host_float \<Rightarrow> u64 \<Rightarrow> bool \<Rightarrow> u32" where
  "to_integer H x chop = x86p_sse_integer H (if chop then hq_trunc H x else hq_nearby H x)"

definition x86p_simd_double :: "host_float \<Rightarrow> double_op \<Rightarrow> vec \<Rightarrow> vec \<Rightarrow> u8 \<Rightarrow> flags \<Rightarrow> vec \<times> flags" where
  "x86p_simd_double H op a b imm f =
     (let compare = (\<lambda>i. if x86p_sse_compare imm (vec_u64 a i) (vec_u64 b i) then -1 else 0);
          to_ints = (\<lambda>n chop. lanes vec_set_u32 2 (\<lambda>i. to_integer H (vec_u64 b i) chop) (vec_zero n));
          of_ints = lanes vec_set_u64 2 (\<lambda>i. hq_of_int H (vec_u32 b i)) (a\<lparr>v_bytes := 16\<rparr>);
          scalar_int = (\<lambda>chop. vec_set_u32 (vec_zero 4) 0 (to_integer H (vec_u64 b 0) chop)) in
      case op of
        DoubleArith op \<Rightarrow>
          (lanes vec_set_u64 (if packed_double op then 2 else 1) (\<lambda>i. arithmetic H op (vec_u64 a i) (vec_u64 b i)) a, f)
      | kX86pSimdCmppd \<Rightarrow> (lanes vec_set_u64 2 compare a, f)
      | kX86pSimdCmpsd \<Rightarrow> (vec_set_u64 a 0 (compare 0), f)
      | kX86pSimdComisd \<Rightarrow> (a, x86p_sse_compare_flags (vec_u64 a 0) (vec_u64 b 0) f)
      | kX86pSimdUcomisd \<Rightarrow> (a, x86p_sse_compare_flags (vec_u64 a 0) (vec_u64 b 0) f)
      | kX86pSimdShufpd \<Rightarrow>
          (vec_set_u64 (vec_set_u64 a 0 (vec_u64 a (unat (imm AND 1)))) 1 (vec_u64 b (unat (drop_bit 1 imm AND 1))), f)
      | kX86pSimdCvtps2pd \<Rightarrow> (lanes vec_set_u64 2 (\<lambda>i. hf_widen H (vec_u32 b i)) (a\<lparr>v_bytes := 16\<rparr>), f)
      | kX86pSimdCvtpd2ps \<Rightarrow> (lanes vec_set_u32 2 (\<lambda>i. hf_narrow H (vec_u64 b i)) (vec_zero 16), f)
      | kX86pSimdCvtss2sd \<Rightarrow> (vec_set_u64 a 0 (hf_widen H (vec_u32 b 0)), f)
      | kX86pSimdCvtsd2ss \<Rightarrow> (vec_set_u32 a 0 (hf_narrow H (vec_u64 b 0)), f)
      | kX86pSimdCvtdq2pd \<Rightarrow> (of_ints, f)
      | kX86pSimdCvtpi2pd \<Rightarrow> (of_ints, f)
      | kX86pSimdCvtpd2dq \<Rightarrow> (to_ints 16 False, f)
      | kX86pSimdCvttpd2dq \<Rightarrow> (to_ints 16 True, f)
      | kX86pSimdCvtpd2pi \<Rightarrow> (to_ints 8 False, f)
      | kX86pSimdCvttpd2pi \<Rightarrow> (to_ints 8 True, f)
      | kX86pSimdCvtsi2sd \<Rightarrow> (vec_set_u64 a 0 (hq_of_int H (vec_u32 b 0)), f)
      | kX86pSimdCvtsd2si \<Rightarrow> (scalar_int False, f)
      | kX86pSimdCvttsd2si \<Rightarrow> (scalar_int True, f))"

section \<open>3DNow\<close>

datatype pf_op =
    kX86pPfAdd | kX86pPfSub | kX86pPfSubR | kX86pPfMul | kX86pPfAcc | kX86pPfNAcc | kX86pPfPNAcc | kX86pPfMax
  | kX86pPfMin | kX86pPfCmpEq | kX86pPfCmpGe | kX86pPfCmpGt | kX86pPi2Fd | kX86pPf2Id | kX86pPi2Fw | kX86pPf2Iw
  | kX86pPSwapD | kX86pPAvgUsb | kX86pPMulHrw
  | kX86pPfRcp | kX86pPfRsqrt | kX86pPfRcpIt1 | kX86pPfRcpIt2 | kX86pPfRsqIt1

definition x86p_3dnow_implemented :: "pf_op \<Rightarrow> bool" where
  "x86p_3dnow_implemented op \<longleftrightarrow>
     op \<noteq> kX86pPfRcp \<and> op \<noteq> kX86pPfRsqrt \<and> op \<noteq> kX86pPfRcpIt1 \<and> op \<noteq> kX86pPfRcpIt2 \<and> op \<noteq> kX86pPfRsqIt1"

text \<open>The register as two dwords; the quadword is read and written by lanes of bytes and words.\<close>

definition mm_lane :: "u64 \<Rightarrow> nat \<Rightarrow> u32" where
  "mm_lane q i = ucast (drop_bit (32 * i) q)"

definition mm_of :: "(nat \<Rightarrow> u32) \<Rightarrow> u64" where
  "mm_of f = ucast (f 0) OR push_bit 32 (ucast (f 1))"

definition x86p_pf_daz :: "u32 \<Rightarrow> u32" where
  "x86p_pf_daz v = (if v AND 0x7F800000 = 0 then v AND 0x80000000 else v)"

definition mask_of :: "bool \<Rightarrow> u32" where
  "mask_of predicate = (if predicate then 0xFFFFFFFF else 0)"

definition f_to_i32_trunc :: "host_float \<Rightarrow> u32 \<Rightarrow> u32" where
  "f_to_i32_trunc H v =
     (if \<not> equal32 v v then 0
      else if \<not> less32 v 0x4F000000 then 0x7FFFFFFF
      else if \<not> less32 0xCF000000 v then 0x80000000
      else hf_to_int H v)"

definition sat_to_i16 :: "u32 \<Rightarrow> u32" where
  "sat_to_i16 v = (if sint v > 32767 then 32767 else if sint v < -32768 then word_of_int (-32768) else v)"

definition flushes :: "pf_op \<Rightarrow> bool" where
  "flushes op \<longleftrightarrow>
     op = kX86pPfAdd \<or> op = kX86pPfSub \<or> op = kX86pPfSubR \<or> op = kX86pPfMul \<or> op = kX86pPfAcc \<or> op = kX86pPfNAcc \<or>
     op = kX86pPfPNAcc \<or> op = kX86pPfMax \<or> op = kX86pPfMin \<or> op = kX86pPfCmpEq \<or> op = kX86pPfCmpGe \<or>
     op = kX86pPfCmpGt \<or> op = kX86pPf2Id \<or> op = kX86pPf2Iw"

definition x86p_3dnow_eval :: "host_float \<Rightarrow> pf_op \<Rightarrow> u64 \<Rightarrow> u64 \<Rightarrow> u64 option" where
  "x86p_3dnow_eval H op qa qb =
     (let daz = (if flushes op then x86p_pf_daz else (\<lambda>v. v)); a = (\<lambda>i. daz (mm_lane qa i)); b = (\<lambda>i. daz (mm_lane qb i)) in
      if \<not> x86p_3dnow_implemented op then None
      else case op of
          kX86pPfAdd \<Rightarrow> Some (mm_of (\<lambda>i. hf_add H (a i) (b i)))
        | kX86pPfSub \<Rightarrow> Some (mm_of (\<lambda>i. hf_sub H (a i) (b i)))
        | kX86pPfSubR \<Rightarrow> Some (mm_of (\<lambda>i. hf_sub H (b i) (a i)))
        | kX86pPfMul \<Rightarrow> Some (mm_of (\<lambda>i. hf_mul H (a i) (b i)))
        | kX86pPfAcc \<Rightarrow> Some (mm_of (\<lambda>i. if i = 0 then hf_add H (a 0) (a 1) else hf_add H (b 0) (b 1)))
        | kX86pPfNAcc \<Rightarrow> Some (mm_of (\<lambda>i. if i = 0 then hf_sub H (a 0) (a 1) else hf_sub H (b 0) (b 1)))
        | kX86pPfPNAcc \<Rightarrow> Some (mm_of (\<lambda>i. if i = 0 then hf_sub H (a 0) (a 1) else hf_add H (b 0) (b 1)))
        | kX86pPfMax \<Rightarrow> Some (mm_of (\<lambda>i. if less32 (b i) (a i) then a i else b i))
        | kX86pPfMin \<Rightarrow> Some (mm_of (\<lambda>i. if less32 (a i) (b i) then a i else b i))
        | kX86pPfCmpEq \<Rightarrow> Some (mm_of (\<lambda>i. mask_of (equal32 (a i) (b i))))
        | kX86pPfCmpGe \<Rightarrow> Some (mm_of (\<lambda>i. mask_of (less32 (b i) (a i) \<or> equal32 (a i) (b i))))
        | kX86pPfCmpGt \<Rightarrow> Some (mm_of (\<lambda>i. mask_of (less32 (b i) (a i))))
        | kX86pPi2Fd \<Rightarrow> Some (mm_of (\<lambda>i. hf_of_int H (b i)))
        | kX86pPf2Id \<Rightarrow> Some (mm_of (\<lambda>i. f_to_i32_trunc H (b i)))
        | kX86pPi2Fw \<Rightarrow> Some (mm_of (\<lambda>i. hf_of_int H (scast (ucast (b i) :: u16))))
        | kX86pPf2Iw \<Rightarrow> Some (mm_of (\<lambda>i. sat_to_i16 (f_to_i32_trunc H (b i))))
        | kX86pPSwapD \<Rightarrow> Some (mm_of (\<lambda>i. if i = 0 then b 1 else b 0))
        | kX86pPAvgUsb \<Rightarrow>
            Some (fold (\<lambda>i r. r OR push_bit (i * 8)
              (drop_bit 1 ((drop_bit (i * 8) qa AND 0xFF) + (drop_bit (i * 8) qb AND 0xFF) + 1))) [0..<8] 0)
        | kX86pPMulHrw \<Rightarrow>
            Some (fold (\<lambda>i r. r OR push_bit (i * 16)
              (ucast (word_of_int (drop_bit 16 (sint (ucast (drop_bit (i * 16) qa) :: u16) *
                 sint (ucast (drop_bit (i * 16) qb) :: u16) + 0x8000)) :: u16))) [0..<4] 0)
        | _ \<Rightarrow> None)"

end
