(* ===== verification/X86_Simd.thy ===== *)
theory X86_Simd
  imports X86_Simd_Float X86_Exec
begin

text \<open>
  Operand access and dispatch of the vector instructions: \<open>src/src/x86port/simd.c\<close>, an instance of the
  vector engine the interpreter takes, and its form for translated code, which runs on the bytes a
  block has already checked.

  What the decoder classified of an instruction is a record beside it.  A general register read at
  a width that is not one of the three would abort in the code; here it reads as zero, and such a
  write does nothing.
\<close>

section \<open>Operations and their names\<close>

datatype move_op =
    kX86pSimdMovq | kX86pSimdMovd | kX86pSimdMovaps | kX86pSimdMovss | kX86pSimdMovsd | kX86pSimdMaskmovdqu
  | kX86pSimdMovlps | kX86pSimdMovhps | kX86pSimdMovhlps | kX86pSimdMovlhps
  | kX86pSimdMovmskps | kX86pSimdMovmskpd | kX86pSimdPmovmskb | kX86pSimdPextrw | kX86pSimdPinsrw

datatype state_op = kX86pSimdEmms | kX86pSimdLdmxcsr | kX86pSimdStmxcsr | kX86pSimdFence | kX86pSimdPrefetch

datatype simd_op =
  Move move_op | Packed int_op | Single single_op | Double double_op | kX86pSimdPf | State state_op

definition kSimdNames :: "(simd_op \<times> string) list" where
  "kSimdNames =
    [(Move kX86pSimdMovq, ''MOVQ''), (Move kX86pSimdMovq, ''MOVQ2DQ''), (Move kX86pSimdMovq, ''MOVDQ2Q''),
     (Move kX86pSimdMovd, ''MOVD''), (Move kX86pSimdMovaps, ''MOVAPS''), (Move kX86pSimdMovaps, ''MOVUPS''),
     (Move kX86pSimdMovaps, ''MOVDQA''), (Move kX86pSimdMovaps, ''MOVDQU''), (Move kX86pSimdMovaps, ''MOVAPD''),
     (Move kX86pSimdMovaps, ''MOVUPD''), (Move kX86pSimdMovaps, ''MOVNTPS''), (Move kX86pSimdMovaps, ''MOVNTPD''),
     (Move kX86pSimdMovaps, ''MOVNTDQ''), (Move kX86pSimdMovss, ''MOVSS''), (Move kX86pSimdMovlps, ''MOVLPS''),
     (Move kX86pSimdMovlps, ''MOVLPD''), (Move kX86pSimdMovhps, ''MOVHPS''), (Move kX86pSimdMovhps, ''MOVHPD''),
     (Move kX86pSimdMovhlps, ''MOVHLPS''), (Move kX86pSimdMovlhps, ''MOVLHPS''),
     (Move kX86pSimdMovmskps, ''MOVMSKPS''), (Move kX86pSimdMovmskpd, ''MOVMSKPD''),
     (Move kX86pSimdMovsd, ''MOVSD''), (Move kX86pSimdMaskmovdqu, ''MASKMOVDQU''),
     (Move kX86pSimdPmovmskb, ''PMOVMSKB''), (Packed (Bitwise kX86pSimdPand), ''PAND''),
     (Packed (Bitwise kX86pSimdPandn), ''PANDN''), (Packed (Bitwise kX86pSimdPor), ''POR''),
     (Packed (Bitwise kX86pSimdPxor), ''PXOR''), (Packed (Bytes kX86pSimdPaddb), ''PADDB''),
     (Packed (Words kX86pSimdPaddw), ''PADDW''), (Packed (Dwords kX86pSimdPaddd), ''PADDD''),
     (Packed (Qwords kX86pSimdPaddq), ''PADDQ''), (Packed (Bytes kX86pSimdPaddsb), ''PADDSB''),
     (Packed (Words kX86pSimdPaddsw), ''PADDSW''), (Packed (Bytes kX86pSimdPaddusb), ''PADDUSB''),
     (Packed (Words kX86pSimdPaddusw), ''PADDUSW''), (Packed (Bytes kX86pSimdPsubb), ''PSUBB''),
     (Packed (Words kX86pSimdPsubw), ''PSUBW''), (Packed (Dwords kX86pSimdPsubd), ''PSUBD''),
     (Packed (Qwords kX86pSimdPsubq), ''PSUBQ''), (Packed (Bytes kX86pSimdPsubsb), ''PSUBSB''),
     (Packed (Words kX86pSimdPsubsw), ''PSUBSW''), (Packed (Bytes kX86pSimdPsubusb), ''PSUBUSB''),
     (Packed (Words kX86pSimdPsubusw), ''PSUBUSW''), (Packed (Bytes kX86pSimdPcmpeqb), ''PCMPEQB''),
     (Packed (Words kX86pSimdPcmpeqw), ''PCMPEQW''), (Packed (Dwords kX86pSimdPcmpeqd), ''PCMPEQD''),
     (Packed (Bytes kX86pSimdPcmpgtb), ''PCMPGTB''), (Packed (Words kX86pSimdPcmpgtw), ''PCMPGTW''),
     (Packed (Dwords kX86pSimdPcmpgtd), ''PCMPGTD''), (Packed (Unpack kX86pSimdPunpcklbw), ''PUNPCKLBW''),
     (Packed (Unpack kX86pSimdPunpcklwd), ''PUNPCKLWD''), (Packed (Unpack kX86pSimdPunpckldq), ''PUNPCKLDQ''),
     (Packed (Unpack kX86pSimdPunpckhbw), ''PUNPCKHBW''), (Packed (Unpack kX86pSimdPunpckhwd), ''PUNPCKHWD''),
     (Packed (Unpack kX86pSimdPunpckhdq), ''PUNPCKHDQ''), (Packed (Pack kX86pSimdPackuswb), ''PACKUSWB''),
     (Packed (Pack kX86pSimdPacksswb), ''PACKSSWB''), (Packed (Pack kX86pSimdPackssdw), ''PACKSSDW''),
     (Packed (Shift kX86pSimdPsllw), ''PSLLW''), (Packed (Shift kX86pSimdPslld), ''PSLLD''),
     (Packed (Shift kX86pSimdPsllq), ''PSLLQ''), (Packed (Shift kX86pSimdPsrlw), ''PSRLW''),
     (Packed (Shift kX86pSimdPsrld), ''PSRLD''), (Packed (Shift kX86pSimdPsrlq), ''PSRLQ''),
     (Packed (Shift kX86pSimdPsraw), ''PSRAW''), (Packed (Shift kX86pSimdPsrad), ''PSRAD''),
     (Packed (Words kX86pSimdPmullw), ''PMULLW''), (Packed (Words kX86pSimdPmulhw), ''PMULHW''),
     (Packed (Words kX86pSimdPmulhuw), ''PMULHUW''), (Packed (Shuffle kX86pSimdPmaddwd), ''PMADDWD''),
     (Packed (Bytes kX86pSimdPavgb), ''PAVGB''), (Packed (Words kX86pSimdPavgw), ''PAVGW''),
     (Packed (Bytes kX86pSimdPminub), ''PMINUB''), (Packed (Bytes kX86pSimdPmaxub), ''PMAXUB''),
     (Packed (Words kX86pSimdPminsw), ''PMINSW''), (Packed (Words kX86pSimdPmaxsw), ''PMAXSW''),
     (Packed (Shuffle kX86pSimdPsadbw), ''PSADBW''), (Move kX86pSimdPextrw, ''PEXTRW''),
     (Move kX86pSimdPinsrw, ''PINSRW''), (Packed (Shuffle kX86pSimdPshufw), ''PSHUFW''),
     (Packed (Shuffle kX86pSimdPshufd), ''PSHUFD''), (Packed (Shuffle kX86pSimdPshuflw), ''PSHUFLW''),
     (Packed (Shuffle kX86pSimdPshufhw), ''PSHUFHW''), (Packed (Shuffle kX86pSimdPslldq), ''PSLLDQ''),
     (Packed (Shuffle kX86pSimdPsrldq), ''PSRLDQ''), (Packed (Shuffle kX86pSimdPunpcklqdq), ''PUNPCKLQDQ''),
     (Packed (Shuffle kX86pSimdPunpcklqdq), ''UNPCKLPD''), (Packed (Shuffle kX86pSimdPunpckhqdq), ''PUNPCKHQDQ''),
     (Packed (Shuffle kX86pSimdPunpckhqdq), ''UNPCKHPD''), (Packed (Shuffle kX86pSimdPmuludq), ''PMULUDQ''),
     (Single (PackedArith kX86pSimdAddps), ''ADDPS''), (Single (PackedArith kX86pSimdSubps), ''SUBPS''),
     (Single (PackedArith kX86pSimdMulps), ''MULPS''), (Single (PackedArith kX86pSimdDivps), ''DIVPS''),
     (Single kX86pSimdMinps, ''MINPS''), (Single kX86pSimdMaxps, ''MAXPS''), (Single kX86pSimdSqrtps, ''SQRTPS''),
     (Single (ScalarSingle kX86pSimdAddss), ''ADDSS''), (Single (ScalarSingle kX86pSimdSubss), ''SUBSS''),
     (Single (ScalarSingle kX86pSimdMulss), ''MULSS''), (Single (ScalarSingle kX86pSimdDivss), ''DIVSS''),
     (Single (ScalarSingle kX86pSimdMinss), ''MINSS''), (Single (ScalarSingle kX86pSimdMaxss), ''MAXSS''),
     (Single (ScalarSingle kX86pSimdSqrtss), ''SQRTSS''), (Single kX86pSimdAndps, ''ANDPS''),
     (Single kX86pSimdAndnps, ''ANDNPS''), (Single kX86pSimdOrps, ''ORPS''), (Single kX86pSimdXorps, ''XORPS''),
     (Single kX86pSimdAndps, ''ANDPD''), (Single kX86pSimdAndnps, ''ANDNPD''), (Single kX86pSimdOrps, ''ORPD''),
     (Single kX86pSimdXorps, ''XORPD''), (Single kX86pSimdCmpps, ''CMPPS''), (Single kX86pSimdCmpss, ''CMPSS''),
     (Single kX86pSimdComiss, ''COMISS''), (Single kX86pSimdUcomiss, ''UCOMISS''),
     (Single kX86pSimdShufps, ''SHUFPS''), (Single kX86pSimdUnpcklps, ''UNPCKLPS''),
     (Single kX86pSimdUnpckhps, ''UNPCKHPS''), (Single kX86pSimdCvtsi2ss, ''CVTSI2SS''),
     (Single kX86pSimdCvtss2si, ''CVTSS2SI''), (Single kX86pSimdCvttss2si, ''CVTTSS2SI''),
     (Single kX86pSimdCvtpi2ps, ''CVTPI2PS''), (Single kX86pSimdCvtps2pi, ''CVTPS2PI''),
     (Single kX86pSimdCvttps2pi, ''CVTTPS2PI''), (Single kX86pSimdCvtdq2ps, ''CVTDQ2PS''),
     (Single kX86pSimdCvtps2dq, ''CVTPS2DQ''), (Single kX86pSimdCvttps2dq, ''CVTTPS2DQ''),
     (Double (DoubleArith kX86pSimdAddpd), ''ADDPD''), (Double (DoubleArith kX86pSimdSubpd), ''SUBPD''),
     (Double (DoubleArith kX86pSimdMulpd), ''MULPD''), (Double (DoubleArith kX86pSimdDivpd), ''DIVPD''),
     (Double (DoubleArith kX86pSimdMinpd), ''MINPD''), (Double (DoubleArith kX86pSimdMaxpd), ''MAXPD''),
     (Double (DoubleArith kX86pSimdSqrtpd), ''SQRTPD''), (Double (DoubleArith kX86pSimdAddsd), ''ADDSD''),
     (Double (DoubleArith kX86pSimdSubsd), ''SUBSD''), (Double (DoubleArith kX86pSimdMulsd), ''MULSD''),
     (Double (DoubleArith kX86pSimdDivsd), ''DIVSD''), (Double (DoubleArith kX86pSimdMinsd), ''MINSD''),
     (Double (DoubleArith kX86pSimdMaxsd), ''MAXSD''), (Double (DoubleArith kX86pSimdSqrtsd), ''SQRTSD''),
     (Double kX86pSimdCmppd, ''CMPPD''), (Double kX86pSimdCmpsd, ''CMPSD''), (Double kX86pSimdComisd, ''COMISD''),
     (Double kX86pSimdUcomisd, ''UCOMISD''), (Double kX86pSimdShufpd, ''SHUFPD''),
     (Double kX86pSimdCvtps2pd, ''CVTPS2PD''), (Double kX86pSimdCvtpd2ps, ''CVTPD2PS''),
     (Double kX86pSimdCvtss2sd, ''CVTSS2SD''), (Double kX86pSimdCvtsd2ss, ''CVTSD2SS''),
     (Double kX86pSimdCvtdq2pd, ''CVTDQ2PD''), (Double kX86pSimdCvtpd2dq, ''CVTPD2DQ''),
     (Double kX86pSimdCvttpd2dq, ''CVTTPD2DQ''), (Double kX86pSimdCvtsi2sd, ''CVTSI2SD''),
     (Double kX86pSimdCvtsd2si, ''CVTSD2SI''), (Double kX86pSimdCvttsd2si, ''CVTTSD2SI''),
     (Double kX86pSimdCvtpi2pd, ''CVTPI2PD''), (Double kX86pSimdCvtpd2pi, ''CVTPD2PI''),
     (Double kX86pSimdCvttpd2pi, ''CVTTPD2PI''), (State kX86pSimdEmms, ''EMMS''), (State kX86pSimdEmms, ''FEMMS''),
     (State kX86pSimdLdmxcsr, ''LDMXCSR''), (State kX86pSimdStmxcsr, ''STMXCSR''),
     (State kX86pSimdFence, ''SFENCE''), (State kX86pSimdFence, ''LFENCE''), (State kX86pSimdFence, ''MFENCE''),
     (State kX86pSimdPrefetch, ''PREFETCH''), (State kX86pSimdPrefetch, ''PREFETCHNTA''),
     (State kX86pSimdPrefetch, ''PREFETCHT0''), (State kX86pSimdPrefetch, ''PREFETCHT1''),
     (State kX86pSimdPrefetch, ''PREFETCHT2''), (State kX86pSimdPrefetch, ''PREFETCHW''),
     (Single kX86pSimdRcpps, ''RCPPS''), (Single kX86pSimdRcpss, ''RCPSS''), (Single kX86pSimdRsqrtps, ''RSQRTPS''),
     (Single kX86pSimdRsqrtss, ''RSQRTSS'')]"

definition x86p_simd_op_name :: "simd_op \<Rightarrow> string" where
  "x86p_simd_op_name op = (case find (\<lambda>(o', n). o' = op) kSimdNames of Some (_, n) \<Rightarrow> n | None \<Rightarrow> ''?'')"

definition x86p_simd_parse :: "string \<Rightarrow> simd_op option" where
  "x86p_simd_parse mnemonic = map_option fst (find (\<lambda>(_, n). n = mnemonic) kSimdNames)"

definition is_refused :: "host_float \<Rightarrow> simd_op \<Rightarrow> bool" where
  "is_refused H op \<longleftrightarrow>
     \<not> hf_approx H \<and> (op = Single kX86pSimdRcpps \<or> op = Single kX86pSimdRcpss \<or> op = Single kX86pSimdRsqrtps \<or> op = Single kX86pSimdRsqrtss)"

definition x86p_simd_is_implemented :: "host_float \<Rightarrow> simd_op \<Rightarrow> bool" where
  "x86p_simd_is_implemented H op \<longleftrightarrow> \<not> is_refused H op"

definition x86p_simd_writes_flags :: "simd_op \<Rightarrow> bool" where
  "x86p_simd_writes_flags op \<longleftrightarrow>
     op = Single kX86pSimdComiss \<or> op = Single kX86pSimdUcomiss \<or> op = Double kX86pSimdComisd \<or> op = Double kX86pSimdUcomisd"

record simd_fields =
  sd_op :: simd_op
  sd_pf :: pf_op

section \<open>Operands\<close>

text \<open>The memory operand is guest memory, or the bytes a translated block has already guarded.\<close>

datatype simd_memory = GuestMemory mem host | GuardedBytes "u8 list"

record simd_ctx =
  sc_cpu :: cpu
  sc_memory :: simd_memory
  sc_status :: engine_status

definition address_of :: "cpu \<Rightarrow> operand \<Rightarrow> u32" where
  "address_of cpu opd =
     (let addr = o_disp opd;
          addr = (case o_base opd of None \<Rightarrow> addr | Some r \<Rightarrow> addr + reg cpu r);
          addr = (case o_index opd of None \<Rightarrow> addr | Some r \<Rightarrow> addr + reg cpu r * o_scale opd) in
      if o_seg opd = kX86pSegFs then addr + c_fs_base cpu
      else if o_seg opd = kX86pSegGs then addr + c_gs_base cpu else addr)"

definition vec_of_list :: "nat \<Rightarrow> u8 list \<Rightarrow> vec" where
  "vec_of_list n bs = (vec_zero n)\<lparr>v_b := \<lambda>k. if k < length bs then bs ! k else 0\<rparr>"

definition xmm_vec :: "cpu \<Rightarrow> nat \<Rightarrow> vec" where
  "xmm_vec cpu r = (vec_zero 16)\<lparr>v_b := \<lambda>k. if k < 16 then c_xmm cpu ! r ! k else 0\<rparr>"

definition vec_list :: "nat \<Rightarrow> vec \<Rightarrow> u8 list" where
  "vec_list n v = map (v_b v) [0..<n]"

definition read_vec :: "operand \<Rightarrow> nat \<Rightarrow> simd_ctx \<Rightarrow> engine_status + vec" where
  "read_vec opd n c =
     (let cpu = sc_cpu c; out = vec_zero n in
      case o_kind opd of
        kX86pOperandMmx \<Rightarrow>
          (case x86p_x87_mmx_read (c_x87 cpu) (o_reg opd) of
             None \<Rightarrow> Inl EngineUnsupported
           | Some q \<Rightarrow> Inr (vec_set_u64 out 0 q))
      | kX86pOperandXmm \<Rightarrow> Inr ((xmm_vec cpu (o_reg opd))\<lparr>v_bytes := n\<rparr>)
      | kX86pOperandReg \<Rightarrow>
          Inr (vec_set_u32 out 0 (case x86p_reg_read cpu (o_reg opd) (o_size opd) of None \<Rightarrow> 0 | Some v \<Rightarrow> v))
      | kX86pOperandImm \<Rightarrow> Inr (vec_set_u32 out 0 (o_imm opd))
      | kX86pOperandMem \<Rightarrow>
          (case sc_memory c of
             GuardedBytes bs \<Rightarrow> if n > length bs then Inl EngineUnsupported else Inr (vec_of_list n (take n bs))
           | GuestMemory m s \<Rightarrow>
               (case x86p_mem_read_bytes m (hs_bytes s) (address_of cpu opd) (of_nat n) of
                  None \<Rightarrow> Inl (EngineFault (address_of cpu opd))
                | Some bs \<Rightarrow> Inr (vec_of_list n bs)))
      | _ \<Rightarrow> Inl EngineUnsupported)"

definition ends :: "engine_status \<Rightarrow> simd_ctx \<Rightarrow> simd_ctx" where
  "ends st c = c\<lparr>sc_status := st\<rparr>"

definition write_vec :: "operand \<Rightarrow> nat \<Rightarrow> vec \<Rightarrow> simd_ctx \<Rightarrow> simd_ctx" where
  "write_vec opd n v c =
     (let cpu = sc_cpu c in
      case o_kind opd of
        kX86pOperandMmx \<Rightarrow>
          (case x86p_x87_mmx_write (c_x87 cpu) (o_reg opd) (vec_u64 v 0) of
             None \<Rightarrow> ends EngineUnsupported c
           | Some f \<Rightarrow> c\<lparr>sc_cpu := cpu\<lparr>c_x87 := f\<rparr>\<rparr>)
      | kX86pOperandXmm \<Rightarrow>
          c\<lparr>sc_cpu := cpu\<lparr>c_xmm := (c_xmm cpu)[o_reg opd :=
             map (\<lambda>k. if k < n then v_b v k else c_xmm cpu ! o_reg opd ! k) [0..<16]]\<rparr>\<rparr>
      | kX86pOperandReg \<Rightarrow>
          (case x86p_reg_write cpu (o_reg opd) (o_size opd) (vec_u32 v 0) of None \<Rightarrow> c | Some cpu \<Rightarrow> c\<lparr>sc_cpu := cpu\<rparr>)
      | kX86pOperandMem \<Rightarrow>
          (case sc_memory c of
             GuardedBytes bs \<Rightarrow>
               if n > length bs then ends EngineUnsupported c
               else c\<lparr>sc_memory := GuardedBytes (vec_list n v @ drop n bs)\<rparr>
           | GuestMemory m s \<Rightarrow>
               (case x86p_mem_write_bytes m s (address_of cpu opd) (vec_list n v) (of_nat n) of
                  None \<Rightarrow> ends (EngineFault (address_of cpu opd)) c
                | Some s \<Rightarrow> c\<lparr>sc_memory := GuestMemory m s\<rparr>))
      | _ \<Rightarrow> ends EngineUnsupported c)"

text \<open>An operand read, and what follows when it could be.\<close>

definition with_vec :: "operand \<Rightarrow> nat \<Rightarrow> (vec \<Rightarrow> simd_ctx \<Rightarrow> simd_ctx) \<Rightarrow> simd_ctx \<Rightarrow> simd_ctx" where
  "with_vec opd n use c = (case read_vec opd n c of Inl st \<Rightarrow> ends st c | Inr v \<Rightarrow> use v c)"

definition reg_width :: "insn \<Rightarrow> nat" where
  "reg_width i = (if \<exists>opd \<in> set (take (i_operands i) (i_operand i)). o_kind opd = kX86pOperandXmm then 16 else 8)"

section \<open>Widths\<close>

definition generic_widths :: "simd_op \<Rightarrow> bool \<Rightarrow> nat \<Rightarrow> nat \<times> nat" where
  "generic_widths op from_memory w =
     (let scalar4 = (if from_memory then 4 else w, w); scalar8 = (if from_memory then 8 else w, w) in
      case op of
        Single op \<Rightarrow>
          (case op of
             kX86pSimdCvtsi2ss \<Rightarrow> (4, 16)
           | kX86pSimdCvtss2si \<Rightarrow> (4, 4) | kX86pSimdCvttss2si \<Rightarrow> (4, 4)
           | kX86pSimdCvtpi2ps \<Rightarrow> (8, 16)
           | kX86pSimdCvtps2pi \<Rightarrow> (if from_memory then 8 else 16, 8)
           | kX86pSimdCvttps2pi \<Rightarrow> (if from_memory then 8 else 16, 8)
           | ScalarSingle _ \<Rightarrow> scalar4
           | kX86pSimdRcpss \<Rightarrow> scalar4 | kX86pSimdRsqrtss \<Rightarrow> scalar4 | kX86pSimdCmpss \<Rightarrow> scalar4
           | kX86pSimdComiss \<Rightarrow> scalar4 | kX86pSimdUcomiss \<Rightarrow> scalar4
           | _ \<Rightarrow> (w, w))
      | Double op \<Rightarrow>
          (case op of
             kX86pSimdCvtsi2sd \<Rightarrow> (4, 16)
           | kX86pSimdCvtsd2si \<Rightarrow> (8, 4) | kX86pSimdCvttsd2si \<Rightarrow> (8, 4)
           | kX86pSimdCvtpi2pd \<Rightarrow> (8, 16)
           | kX86pSimdCvtpd2pi \<Rightarrow> (16, 8) | kX86pSimdCvttpd2pi \<Rightarrow> (16, 8)
           | kX86pSimdCvtps2pd \<Rightarrow> scalar8 | kX86pSimdCvtdq2pd \<Rightarrow> scalar8
           | DoubleArith op \<Rightarrow> if packed_double op then (w, w) else scalar8
           | kX86pSimdCmpsd \<Rightarrow> scalar8 | kX86pSimdComisd \<Rightarrow> scalar8 | kX86pSimdUcomisd \<Rightarrow> scalar8
           | kX86pSimdCvtsd2ss \<Rightarrow> scalar8
           | kX86pSimdCvtss2sd \<Rightarrow> scalar4
           | _ \<Rightarrow> (w, w))
      | _ \<Rightarrow> (w, w))"

definition x86p_simd_memory_bytes :: "simd_fields \<Rightarrow> insn \<Rightarrow> nat" where
  "x86p_simd_memory_bytes x i =
     (let generic = fst (generic_widths (sd_op x) (o_kind (i_operand i ! 1) = kX86pOperandMem) (reg_width i)) in
      case sd_op x of
        Move op \<Rightarrow>
          (case op of
             kX86pSimdMovq \<Rightarrow> 8 | kX86pSimdMovlps \<Rightarrow> 8 | kX86pSimdMovhps \<Rightarrow> 8 | kX86pSimdMovsd \<Rightarrow> 8
           | kX86pSimdMovd \<Rightarrow> 4 | kX86pSimdMovss \<Rightarrow> 4
           | kX86pSimdMovaps \<Rightarrow> 16
           | kX86pSimdPinsrw \<Rightarrow> 2
           | kX86pSimdMaskmovdqu \<Rightarrow> 0
           | _ \<Rightarrow> generic)
      | State op \<Rightarrow>
          (case op of kX86pSimdLdmxcsr \<Rightarrow> 4 | kX86pSimdStmxcsr \<Rightarrow> 4 | _ \<Rightarrow> 0)
      | kX86pSimdPf \<Rightarrow> 8
      | _ \<Rightarrow> generic)"

section \<open>Execution\<close>

definition exec_state :: "state_op \<Rightarrow> insn \<Rightarrow> simd_ctx \<Rightarrow> simd_ctx" where
  "exec_state op i c =
     (let cpu = sc_cpu c; d = i_operand i ! 0 in
      case op of
        kX86pSimdEmms \<Rightarrow> c\<lparr>sc_cpu := cpu\<lparr>c_x87 := x86p_x87_emms (c_x87 cpu)\<rparr>\<rparr>
      | kX86pSimdFence \<Rightarrow> c
      | kX86pSimdPrefetch \<Rightarrow> c
      | kX86pSimdStmxcsr \<Rightarrow> write_vec d 4 (vec_set_u32 (vec_zero 4) 0 (c_mxcsr cpu)) c
      | kX86pSimdLdmxcsr \<Rightarrow> with_vec d 4 (\<lambda>a c. c\<lparr>sc_cpu := (sc_cpu c)\<lparr>c_mxcsr := vec_u32 a 0\<rparr>\<rparr>) c)"

fun mask_store :: "mem \<Rightarrow> u32 \<Rightarrow> (u8 \<times> u8) list \<Rightarrow> host \<Rightarrow> engine_status \<times> host" where
  "mask_store m addr [] s = (EngineOk, s)"
| "mask_store m addr ((k, b) # bs) s =
     (if k AND 0x80 \<noteq> 0 then
        (case x86p_mem_write_bytes m s addr [b] 1 of
           None \<Rightarrow> (EngineFault addr, s)
         | Some s \<Rightarrow> mask_store m (addr + 1) bs s)
      else mask_store m (addr + 1) bs s)"

definition sign_mask :: "nat \<Rightarrow> (nat \<Rightarrow> bool) \<Rightarrow> u32" where
  "sign_mask n sign = fold (\<lambda>i mask. mask OR push_bit i (of_bool (sign i))) [0..<n] 0"

definition write_general :: "nat \<Rightarrow> u32 \<Rightarrow> simd_ctx \<Rightarrow> simd_ctx" where
  "write_general r v c = (case x86p_reg_write (sc_cpu c) r 4 v of None \<Rightarrow> c | Some cpu \<Rightarrow> c\<lparr>sc_cpu := cpu\<rparr>)"

definition exec_move :: "move_op \<Rightarrow> insn \<Rightarrow> u8 \<Rightarrow> simd_ctx \<Rightarrow> simd_ctx" where
  "exec_move op i imm c =
     (let cpu = sc_cpu c; d = i_operand i ! 0; s = i_operand i ! 1; w = reg_width i;
          to_xmm = (o_kind d = kX86pOperandXmm); from_xmm = (o_kind s = kX86pOperandXmm); source_bytes = (if from_xmm then 16 else 8);
          scalar = (\<lambda>n. with_vec s n (\<lambda>b c.
            if to_xmm \<and> o_kind s = kX86pOperandMem then write_vec d 16 (copy_bytes (vec_zero 16) 0 b 0 n) c
            else if to_xmm then write_vec d 16 (copy_bytes (xmm_vec cpu (o_reg d)) 0 b 0 n) c
            else write_vec d n (b\<lparr>v_bytes := n\<rparr>) c));
          half_move = (\<lambda>half.
            if o_kind d = kX86pOperandMem then write_vec d 8 (copy_bytes (vec_zero 8) 0 (xmm_vec cpu (o_reg s)) half 8)
            else with_vec s 8 (\<lambda>b. write_vec d 16 (copy_bytes (xmm_vec cpu (o_reg d)) half b 0 8))) in
      case op of
        kX86pSimdMovq \<Rightarrow>
          with_vec s 8 (\<lambda>b. if to_xmm then write_vec d 16 (copy_bytes (vec_zero 16) 0 b 0 8) else write_vec d 8 (b\<lparr>v_bytes := 8\<rparr>)) c
      | kX86pSimdMovd \<Rightarrow>
          with_vec s 4 (\<lambda>b.
            let n = (if o_kind d = kX86pOperandReg \<or> o_kind d = kX86pOperandMem then 4 else if to_xmm then 16 else 8)
            in write_vec d n (vec_set_u32 (vec_zero n) 0 (vec_u32 b 0))) c
      | kX86pSimdMovaps \<Rightarrow>
          let bytes = (if to_xmm \<or> from_xmm then 16 else 8) in with_vec s bytes (\<lambda>b. write_vec d bytes (b\<lparr>v_bytes := bytes\<rparr>)) c
      | kX86pSimdMovss \<Rightarrow> scalar 4 c
      | kX86pSimdMovsd \<Rightarrow> scalar 8 c
      | kX86pSimdMaskmovdqu \<Rightarrow>
          if \<not> to_xmm \<or> \<not> from_xmm then ends EngineUnsupported c
          else (case sc_memory c of
              GuardedBytes bs \<Rightarrow> ends EngineUnsupported c
            | GuestMemory m st \<Rightarrow>
                (case mask_store m (reg cpu kX86pEdi) (zip (vec_list 16 (xmm_vec cpu (o_reg s))) (vec_list 16 (xmm_vec cpu (o_reg d)))) st of
                   (r, st) \<Rightarrow> ends r (c\<lparr>sc_memory := GuestMemory m st\<rparr>)))
      | kX86pSimdMovlps \<Rightarrow> half_move 0 c
      | kX86pSimdMovhps \<Rightarrow> half_move 8 c
      | kX86pSimdMovhlps \<Rightarrow>
          if \<not> to_xmm \<or> \<not> from_xmm then ends EngineUnsupported c
          else write_vec d 16 (copy_bytes (xmm_vec cpu (o_reg d)) 0 (xmm_vec cpu (o_reg s)) 8 8) c
      | kX86pSimdMovlhps \<Rightarrow>
          if \<not> to_xmm \<or> \<not> from_xmm then ends EngineUnsupported c
          else write_vec d 16 (copy_bytes (xmm_vec cpu (o_reg d)) 8 (xmm_vec cpu (o_reg s)) 0 8) c
      | kX86pSimdMovmskps \<Rightarrow>
          with_vec s source_bytes (\<lambda>b. write_general (o_reg d) (sign_mask (source_bytes div 4) (\<lambda>k. drop_bit 31 (vec_u32 b k) \<noteq> 0))) c
      | kX86pSimdMovmskpd \<Rightarrow>
          with_vec s source_bytes (\<lambda>b. write_general (o_reg d) (sign_mask 2 (\<lambda>k. drop_bit 63 (vec_u64 b k) \<noteq> 0))) c
      | kX86pSimdPmovmskb \<Rightarrow>
          with_vec s source_bytes (\<lambda>b. write_general (o_reg d) (sign_mask source_bytes (\<lambda>k. drop_bit 7 (vec_u8 b k) \<noteq> 0))) c
      | kX86pSimdPextrw \<Rightarrow>
          with_vec s source_bytes (\<lambda>b. write_general (o_reg d) (ucast (vec_u16 b (unat (imm AND (if source_bytes = 16 then 7 else 3)))))) c
      | kX86pSimdPinsrw \<Rightarrow>
          with_vec d w (\<lambda>a. with_vec s 2 (\<lambda>b.
            write_vec d w (vec_set_u16 a (unat (imm AND (if w = 16 then 7 else 3))) (ucast (vec_u32 b 0))))) c)"

definition exec_pf :: "host_float \<Rightarrow> pf_op \<Rightarrow> insn \<Rightarrow> simd_ctx \<Rightarrow> simd_ctx" where
  "exec_pf H op i =
     (let d = i_operand i ! 0; s = i_operand i ! 1 in
      with_vec d 8 (\<lambda>a. with_vec s 8 (\<lambda>b c.
        case x86p_3dnow_eval H op (vec_u64 a 0) (vec_u64 b 0) of
          None \<Rightarrow> ends EngineUnsupported c
        | Some r \<Rightarrow> write_vec d 8 (vec_set_u64 (vec_zero 8) 0 r) c)))"

text \<open>The three lane modules, and what they are applied to by the regular shape.\<close>

definition lane_result :: "host_float \<Rightarrow> simd_op \<Rightarrow> vec \<Rightarrow> vec \<Rightarrow> u8 \<Rightarrow> flags \<Rightarrow> (vec \<times> flags) option" where
  "lane_result H op a b imm f =
     (case op of
        Packed op \<Rightarrow> Some (simd_int_result op a b imm, f)
      | Single op \<Rightarrow> Some (x86p_simd_float H op a b imm f)
      | Double op \<Rightarrow> Some (x86p_simd_double H op a b imm f)
      | _ \<Rightarrow> None)"

definition exec_lanes :: "host_float \<Rightarrow> simd_op \<Rightarrow> insn \<Rightarrow> u8 \<Rightarrow> simd_ctx \<Rightarrow> simd_ctx" where
  "exec_lanes H op i imm =
     (let d = i_operand i ! 0; s = i_operand i ! 1;
          (src_bytes, dst_bytes) = generic_widths op (o_kind s = kX86pOperandMem) (reg_width i) in
      with_vec d dst_bytes (\<lambda>a. with_vec s src_bytes (\<lambda>b c.
        case lane_result H op (a\<lparr>v_bytes := dst_bytes\<rparr>) (b\<lparr>v_bytes := max src_bytes dst_bytes\<rparr>) imm (c_flags (sc_cpu c)) of
          None \<Rightarrow> ends EngineUnsupported c
        | Some (r, f) \<Rightarrow>
            if x86p_simd_writes_flags op then c\<lparr>sc_cpu := (sc_cpu c)\<lparr>c_flags := f\<rparr>\<rparr>
            else write_vec d (v_bytes r) r c)))"

definition simd_execute :: "host_float \<Rightarrow> simd_fields \<Rightarrow> insn \<Rightarrow> simd_ctx \<Rightarrow> simd_ctx" where
  "simd_execute H x i c =
     (let imm = (if 3 \<le> i_operands i \<and> o_kind (i_operand i ! 2) = kX86pOperandImm then ucast (o_imm (i_operand i ! 2)) else 0) in
      if is_refused H (sd_op x) then ends EngineUnsupported c
      else case sd_op x of
          State op \<Rightarrow> exec_state op i c
        | Move op \<Rightarrow> exec_move op i imm c
        | kX86pSimdPf \<Rightarrow> exec_pf H (sd_pf x) i c
        | op \<Rightarrow> exec_lanes H op i imm c)"

text \<open>The engine the interpreter calls.\<close>

definition x86p_simd_execute ::
    "host_float \<Rightarrow> (insn \<Rightarrow> simd_fields) \<Rightarrow> mem \<Rightarrow> insn \<Rightarrow> cpu \<Rightarrow> host \<Rightarrow> engine_status \<times> cpu \<times> host" where
  "x86p_simd_execute H classify m i cpu s =
     (let c = simd_execute H (classify i) i \<lparr>sc_cpu = cpu, sc_memory = GuestMemory m s, sc_status = EngineOk\<rparr> in
      (sc_status c, sc_cpu c, case sc_memory c of GuestMemory _ s \<Rightarrow> s | GuardedBytes _ \<Rightarrow> s))"

text \<open>The form translated code calls, on the bytes of the memory operand it has checked.\<close>

definition x86p_simd_execute_host ::
    "host_float \<Rightarrow> (insn \<Rightarrow> simd_fields) \<Rightarrow> insn \<Rightarrow> cpu \<Rightarrow> u8 list \<Rightarrow> engine_status \<times> cpu \<times> u8 list" where
  "x86p_simd_execute_host H classify i cpu memory =
     (if sd_op (classify i) = Move kX86pSimdMaskmovdqu then (EngineUnsupported, cpu, memory)
      else
        let n = x86p_simd_memory_bytes (classify i) i;
            c = simd_execute H (classify i) i \<lparr>sc_cpu = cpu, sc_memory = GuardedBytes (take n memory), sc_status = EngineOk\<rparr> in
        (sc_status c, sc_cpu c, (case sc_memory c of GuardedBytes bs \<Rightarrow> bs | GuestMemory _ _ \<Rightarrow> []) @ drop n memory))"

end
