(* ===== verification/X86_Simd_Engine.thy ===== *)
theory X86_Simd_Engine
  imports X86_Simd X86_X87_Engine
begin

text \<open>
  The modelled vector engine meets the contract under which the interpreter is proved, so that the
  interpreter with both engines of this development has no parameter but its decoder and the host's
  arithmetic.  An instruction that does not complete leaves the machine as it found it.
\<close>

section \<open>The width of a result\<close>

named_theorems vec_width \<open>what an operation on a vector does to the number of its live bytes\<close>

lemma vec_put_bytes [vec_width, simp]:
  "v_bytes (vec_zero n) = n" "v_bytes (vec_put n v i x) = v_bytes v" "v_bytes (copy_bytes v k w j n) = v_bytes v"
  by (simp_all add: vec_zero_def vec_put_def copy_bytes_def)

lemma vec_set_bytes [vec_width, simp]:
  "v_bytes (vec_set_u8 v i b) = v_bytes v" "v_bytes (vec_set_u16 v i h) = v_bytes v"
  "v_bytes (vec_set_u32 v i d) = v_bytes v" "v_bytes (vec_set_u64 v i q) = v_bytes v"
  by (simp_all add: vec_set_u8_def vec_set_u16_def vec_set_u32_def vec_set_u64_def)

lemma fold_bytes: "(\<And>i r. v_bytes (g i r) = v_bytes r) \<Longrightarrow> v_bytes (fold g is r) = v_bytes r"
  by (induction "is" arbitrary: r) simp_all

lemma lanes_bytes [vec_width]: "(\<And>r i x. v_bytes (set_lane r i x) = v_bytes r) \<Longrightarrow> v_bytes (lanes set_lane n f r) = v_bytes r"
  unfolding lanes_def by (rule fold_bytes)

lemma lanes_set_bytes [vec_width, simp]:
  "v_bytes (lanes vec_set_u8 n f8 r) = v_bytes r" "v_bytes (lanes vec_set_u16 n f16 r) = v_bytes r"
  "v_bytes (lanes vec_set_u32 n f32 r) = v_bytes r" "v_bytes (lanes vec_set_u64 n f64 r) = v_bytes r"
  "v_bytes (lanes (\<lambda>r i. vec_set_u16 r (k + i)) n f16 r) = v_bytes r"
  by (rule lanes_bytes, simp)+

lemma unpack_bytes [vec_width, simp]: "v_bytes (unpack a b e h) = v_bytes a"
proof -
  have l: "v_bytes (unpack_lane a b e h k r) = v_bytes r" for k r
    unfolding unpack_lane_def Let_def by (rule fold_bytes) simp
  show ?thesis unfolding unpack_def using fold_bytes [of "unpack_lane a b e h", OF l] by simp
qed

lemma pack_bytes [vec_width, simp]: "v_bytes (pack_lanes op a b) = v_bytes a"
  unfolding pack_lanes_def Let_def by (cases op; simp; subst fold_bytes; simp)

lemma shuffle_bytes: "v_bytes a \<le> 16 \<Longrightarrow> v_bytes (shuffle_lanes op a b imm) \<le> 16"
  unfolding shuffle_lanes_def Let_def by (cases op; simp; (subst fold_bytes; simp)?)

lemma int_bytes: "v_bytes a \<le> 16 \<Longrightarrow> v_bytes (simd_int_result op a b imm) \<le> 16"
  by (cases op) (simp_all add: simd_int_result_def Let_def shuffle_bytes unpack_lanes_def shift_lanes_def
      split: unpack_op.split shift_op.split)

lemma float_bytes: "v_bytes a \<le> 16 \<Longrightarrow> v_bytes (fst (x86p_simd_float H op a b imm f)) \<le> 16"
  by (cases op) (simp_all add: x86p_simd_float_def Let_def)

lemma double_bytes: "v_bytes a \<le> 16 \<Longrightarrow> v_bytes (fst (x86p_simd_double H op a b imm f)) \<le> 16"
  by (cases op) (simp_all add: x86p_simd_double_def Let_def)

lemma lane_result_bytes:
  assumes "lane_result H op a b imm f = Some (r, f')" "v_bytes a \<le> 16"
  shows "v_bytes r \<le> 16"
  using assms int_bytes [OF assms(2)] float_bytes [OF assms(2), of H _ b imm f] double_bytes [OF assms(2), of H _ b imm f]
  by (cases op) (auto simp: lane_result_def dest!: arg_cong [where f = fst])

lemma compare_flags_explicit: "flags_ok (x86p_sse_compare_flags a b f)"
  by (simp add: x86p_sse_compare_flags_def)

lemma lane_result_flags:
  "lane_result H op a b imm f = Some (r, f') \<Longrightarrow> flags_ok f \<Longrightarrow> flags_ok f'"
  by (cases op)
    (auto simp: lane_result_def x86p_simd_float_def x86p_simd_double_def Let_def compare_flags_explicit
       split: single_op.splits double_op.splits)

section \<open>What an instruction keeps\<close>

definition vec_sound :: "mem \<Rightarrow> host \<Rightarrow> u32 \<Rightarrow> simd_ctx \<Rightarrow> bool" where
  "vec_sound m s0 e c \<longleftrightarrow> mem_wf m \<and> cpu_ok (sc_cpu c) \<and> c_eip (sc_cpu c) = e \<and>
     (\<exists>s. sc_memory c = GuestMemory m s \<and> confined m {kX86pMemWrite} s0 s \<and> (hs_observed s0 \<longrightarrow> announced m s0 s))"

lemma vec_sound_ends [simp]: "vec_sound m s0 e (ends st c) = vec_sound m s0 e c"
  by (simp add: vec_sound_def ends_def)

lemma vec_sound_cpu:
  "vec_sound m s0 e c \<Longrightarrow> cpu_ok cpu \<Longrightarrow> c_eip cpu = e \<Longrightarrow> vec_sound m s0 e (c\<lparr>sc_cpu := cpu\<rparr>)"
  by (simp add: vec_sound_def)

lemma vec_soundD: "vec_sound m s0 e c \<Longrightarrow> cpu_ok (sc_cpu c)" "vec_sound m s0 e c \<Longrightarrow> c_eip (sc_cpu c) = e"
  by (simp_all add: vec_sound_def)

lemma vec_sound_store:
  assumes "vec_sound m s0 e c" "sc_memory c = GuestMemory m s" "length bs = unat n" "x86p_mem_write_bytes m s a bs n = Some s'"
  shows "vec_sound m s0 e (c\<lparr>sc_memory := GuestMemory m s'\<rparr>)"
  using assms unfolding vec_sound_def by (auto intro: confined_write announced_write)

lemma vec_sound_xmm:
  assumes "vec_sound m s0 e c"
  shows "vec_sound m s0 e (c\<lparr>sc_cpu := (sc_cpu c)\<lparr>c_xmm := (c_xmm (sc_cpu c))[r := map g [0..<16]]\<rparr>\<rparr>)"
proof (rule vec_sound_cpu [OF assms])
  show "cpu_ok ((sc_cpu c)\<lparr>c_xmm := (c_xmm (sc_cpu c))[r := map g [0..<16]]\<rparr>)"
    using vec_soundD(1) [OF assms] by (auto simp: cpu_ok_def dest!: set_update_subset_insert [THEN subsetD])
qed (use vec_soundD(2) [OF assms] in simp)

lemma mmx_write_ok: "x86p_x87_mmx_write f n v = Some f' \<Longrightarrow> x87_ok f \<Longrightarrow> x87_ok f'"
  by (auto simp: x86p_x87_mmx_write_def x87_ok_def X86P_X87_REGS_def Let_def split: if_splits)

lemma emms_ok: "x87_ok f \<Longrightarrow> x87_ok (x86p_x87_emms f)"
  by (simp add: x86p_x87_emms_def x87_ok_def X86P_X87_REGS_def)

lemma vec_sound_fpu: "vec_sound m s0 e c \<Longrightarrow> x87_ok f \<Longrightarrow> vec_sound m s0 e (c\<lparr>sc_cpu := (sc_cpu c)\<lparr>c_x87 := f\<rparr>\<rparr>)"
  by (simp add: vec_sound_def cpu_ok_def)

lemma vec_sound_x87: "vec_sound m s0 e c \<Longrightarrow> x87_ok (c_x87 (sc_cpu c))"
  by (simp add: vec_sound_def cpu_ok_def)

lemma vec_sound_reg:
  "vec_sound m s0 e c \<Longrightarrow> x86p_reg_write (sc_cpu c) r w v = Some cpu \<Longrightarrow> vec_sound m s0 e (c\<lparr>sc_cpu := cpu\<rparr>)"
  by (rule vec_sound_cpu) (simp_all add: vec_soundD reg_write_ok reg_write_eip)

lemma vec_sound_general: "vec_sound m s0 e c \<Longrightarrow> vec_sound m s0 e (write_general r v c)"
  by (simp add: write_general_def vec_sound_reg split: option.split)

lemma vec_list_length [simp]: "length (vec_list n v) = n"
  by (simp add: vec_list_def)

lemma vec_sound_write:
  assumes c: "vec_sound m s0 e c" and n: "n \<le> 16"
  shows "vec_sound m s0 e (write_vec opd n v c)"
proof -
  have u: "length (vec_list n v) = unat (of_nat n :: u32)"
    using n by (simp add: unsigned_of_nat take_bit_nat_eq_self)
  obtain s where s: "sc_memory c = GuestMemory m s" using c unfolding vec_sound_def by blast
  show ?thesis
    using c vec_sound_x87 [OF c] vec_sound_xmm [OF c] vec_sound_store [OF c s u] s
    by (auto simp: write_vec_def Let_def vec_sound_fpu vec_sound_reg mmx_write_ok split: operand_kind.split option.split)
qed

lemma vec_sound_with:
  "vec_sound m s0 e c \<Longrightarrow> (\<And>v. vec_sound m s0 e (use v c)) \<Longrightarrow> vec_sound m s0 e (with_vec opd n use c)"
  by (simp add: with_vec_def split: sum.split)

lemma vec_sound_masked:
  assumes "vec_sound m s0 e c" "sc_memory c = GuestMemory m s" "mask_store m a bs s = (r, s')"
  shows "vec_sound m s0 e (c\<lparr>sc_memory := GuestMemory m s'\<rparr>)"
  using assms
proof (induction m a bs s arbitrary: c rule: mask_store.induct)
  case (1 m addr s)
  then show ?case by (cases c) simp
next
  case (2 m addr k b bs s)
  show ?case
  proof (cases "k AND 0x80 \<noteq> 0 \<and> x86p_mem_write_bytes m s addr [b] 1 \<noteq> None")
    case True
    then obtain t where t: "x86p_mem_write_bytes m s addr [b] 1 = Some t" by blast
    have "vec_sound m s0 e (c\<lparr>sc_memory := GuestMemory m t\<rparr>)" by (rule vec_sound_store [OF 2(3,4) _ t]) simp
    from 2(1) [OF _ t this] 2(5) True t show ?thesis by simp
  next
    case False
    moreover have "vec_sound m s0 e (c\<lparr>sc_memory := GuestMemory m s\<rparr>)" using 2(3,4) by (cases c) simp
    ultimately show ?thesis using 2 by (auto split: if_splits)
  qed
qed

lemma vec_sound_state: "vec_sound m s0 e c \<Longrightarrow> vec_sound m s0 e (exec_state op i c)"
proof -
  assume c: "vec_sound m s0 e c"
  have mxcsr: "vec_sound m s0 e (c\<lparr>sc_cpu := (sc_cpu c)\<lparr>c_mxcsr := v\<rparr>\<rparr>)" for v
    using c by (simp add: vec_sound_def cpu_ok_def)
  show ?thesis
    using c mxcsr vec_sound_fpu [OF c emms_ok [OF vec_sound_x87 [OF c]]] unfolding exec_state_def Let_def
    by (cases op) (auto intro!: vec_sound_with vec_sound_write)
qed

lemma vec_sound_move: "vec_sound m s0 e c \<Longrightarrow> vec_sound m s0 e (exec_move op i imm c)"
proof -
  assume c: "vec_sound m s0 e c"
  obtain s where s: "sc_memory c = GuestMemory m s" using c unfolding vec_sound_def by blast
  have w: "reg_width i \<le> 16" by (simp add: reg_width_def)
  show ?thesis
    using c s w unfolding exec_move_def Let_def
    by (cases op) (auto intro!: vec_sound_with vec_sound_write vec_sound_general dest: vec_sound_masked split: prod.split)
qed

lemma generic_widths_le: "generic_widths op mem (reg_width i) = (src, dst) \<Longrightarrow> src \<le> 16 \<and> dst \<le> 16"
  by (auto simp: generic_widths_def reg_width_def Let_def split: simd_op.splits single_op.splits double_op.splits if_splits)

lemma vec_sound_lanes: "vec_sound m s0 e c \<Longrightarrow> vec_sound m s0 e (exec_lanes H op i imm c)"
proof -
  assume c: "vec_sound m s0 e c"
  obtain src dst where g: "generic_widths op (o_kind (i_operand i ! 1) = kX86pOperandMem) (reg_width i) = (src, dst)"
    by (cases "generic_widths op (o_kind (i_operand i ! 1) = kX86pOperandMem) (reg_width i)")
  have dst: "dst \<le> 16" using generic_widths_le [OF g] by simp
  have fl: "flags_ok (c_flags (sc_cpu c))" using c by (simp add: vec_sound_def cpu_ok_def)
  have set: "vec_sound m s0 e (c\<lparr>sc_cpu := (sc_cpu c)\<lparr>c_flags := f\<rparr>\<rparr>)" if "flags_ok f" for f
    using c that by (simp add: vec_sound_def cpu_ok_def)
  have "vec_sound m s0 e (if x86p_simd_writes_flags op then c\<lparr>sc_cpu := (sc_cpu c)\<lparr>c_flags := f\<rparr>\<rparr> else write_vec opd (v_bytes r) r c)"
    if "lane_result H op (a\<lparr>v_bytes := dst\<rparr>) b imm (c_flags (sc_cpu c)) = Some (r, f)" for opd a b r f
    using set [OF lane_result_flags [OF that fl]] vec_sound_write [OF c lane_result_bytes [OF that]] dst by simp
  then show ?thesis
    using c unfolding exec_lanes_def Let_def g
    by (auto intro!: vec_sound_with split: option.split)
qed

lemma vec_sound_execute: "vec_sound m s0 e c \<Longrightarrow> vec_sound m s0 e (simd_execute H x i c)"
  by (auto simp: simd_execute_def exec_pf_def Let_def vec_sound_state vec_sound_move vec_sound_lanes
      intro!: vec_sound_with vec_sound_write split: simd_op.split option.split)

lemma simd_engine_sound:
  assumes "mem_wf m"
  shows "engine_sound m (x86p_simd_execute H classify m i)"
  unfolding engine_sound_def Let_def
proof (intro allI impI)
  fix cpu s assume k: "cpu_ok cpu"
  let ?c = "\<lparr>sc_cpu = cpu, sc_memory = GuestMemory m s, sc_status = EngineOk\<rparr>"
  let ?r = "x86p_simd_execute H classify m i cpu s"
  have "vec_sound m s (c_eip cpu) ?c" using assms k by (simp add: vec_sound_def announced_refl)
  then have "vec_sound m s (c_eip cpu) (simd_execute H (classify i) i ?c)" by (rule vec_sound_execute)
  then show "cpu_ok (fst (snd ?r)) \<and> c_eip (fst (snd ?r)) = c_eip cpu \<and> confined m {kX86pMemWrite} s (snd (snd ?r)) \<and>
      (hs_observed s \<longrightarrow> announced m s (snd (snd ?r)))"
    by (auto simp: x86p_simd_execute_def Let_def vec_sound_def)
qed

section \<open>The interpreter with its engines\<close>

definition modelled_engines ::
    "softfloat \<Rightarrow> (insn \<Rightarrow> x87_fields) \<Rightarrow> op_census \<Rightarrow> host_float \<Rightarrow> (insn \<Rightarrow> simd_fields) \<Rightarrow> (u8 list \<Rightarrow> insn option) \<Rightarrow> engines" where
  "modelled_engines S x87_of cn H simd_of decode =
     \<lparr>en_x87 = x86p_x87_execute S x87_of cn, en_simd = x86p_simd_execute H simd_of, en_decode = decode\<rparr>"

end
