(* ===== verification/X86_Simd_Properties.thy ===== *)
theory X86_Simd_Properties
  imports X86_Simd_Engine
begin

text \<open>
  What the vector engine promises: it is sound for the interpreter and all or nothing, and the form
  translated code calls, on the bytes of a memory operand a block has checked, computes what the
  interpreter computes on guest memory.
\<close>

section \<open>All or nothing\<close>

text \<open>An instruction that ends in anything but success has changed neither registers nor memory.\<close>

definition unchanged_unless_ok :: "cpu \<Rightarrow> simd_memory \<Rightarrow> simd_ctx \<Rightarrow> bool" where
  "unchanged_unless_ok cpu mm c \<longleftrightarrow> sc_status c = EngineOk \<or> (sc_cpu c = cpu \<and> sc_memory c = mm)"

lemma unchanged_status: "sc_status c = EngineOk \<Longrightarrow> unchanged_unless_ok cpu mm c"
  by (simp add: unchanged_unless_ok_def)

lemma unchanged_update [simp]: "sc_status c = EngineOk \<Longrightarrow> unchanged_unless_ok cpu mm (c\<lparr>sc_cpu := cpu'\<rparr>)"
  by (simp add: unchanged_unless_ok_def)

lemma unchanged_ends: "sc_cpu c = cpu \<Longrightarrow> sc_memory c = mm \<Longrightarrow> unchanged_unless_ok cpu mm (ends st c)"
  by (simp add: unchanged_unless_ok_def ends_def)

lemma unchanged_write:
  "sc_cpu c = cpu \<Longrightarrow> sc_memory c = mm \<Longrightarrow> sc_status c = EngineOk \<Longrightarrow> unchanged_unless_ok cpu mm (write_vec opd n v c)"
  by (auto simp: write_vec_def Let_def ends_def unchanged_unless_ok_def split: operand_kind.split option.split simd_memory.split)

lemma unchanged_with:
  assumes "sc_cpu c = cpu" "sc_memory c = mm" "\<And>v. unchanged_unless_ok cpu mm (use v c)"
  shows "unchanged_unless_ok cpu mm (with_vec opd n use c)"
  using assms by (simp add: with_vec_def unchanged_ends split: sum.split)

lemma general_status [simp]: "sc_status (write_general r v c) = sc_status c"
  by (simp add: write_general_def split: option.split)

lemmas unchanged_rules = unchanged_with unchanged_write unchanged_ends

lemma unchanged_execute:
  assumes "sc_cpu c = cpu" "sc_memory c = mm" "sc_status c = EngineOk" "sd_op x \<noteq> Move kX86pSimdMaskmovdqu"
  shows "unchanged_unless_ok cpu mm (simd_execute H x i c)"
proof -
  have state: "unchanged_unless_ok cpu mm (exec_state op i c)" for op
    using assms unfolding exec_state_def Let_def by (cases op) (auto intro!: unchanged_rules intro: unchanged_status)
  have move: "unchanged_unless_ok cpu mm (exec_move op i imm c)" if "op \<noteq> kX86pSimdMaskmovdqu" for op imm
    using assms that unfolding exec_move_def Let_def by (cases op) (auto intro!: unchanged_rules intro: unchanged_status)
  have lanes: "unchanged_unless_ok cpu mm (exec_lanes H op i imm c)" for op imm
    using assms unfolding exec_lanes_def Let_def by (auto split: prod.split option.split intro!: unchanged_rules intro: unchanged_status)
  have pf: "unchanged_unless_ok cpu mm (exec_pf H op i c)" for op
    using assms unfolding exec_pf_def Let_def by (auto split: option.split intro!: unchanged_rules intro: unchanged_status)
  show ?thesis
    using assms state move lanes pf unfolding simd_execute_def Let_def by (auto split: simd_op.split intro!: unchanged_ends)
qed

text \<open>
  C8. The vector engine keeps the contract under which every interpreter step is proved: from a
  well-formed machine each of its instructions, whatever the host's floating-point computes, leaves a
  well-formed machine with EIP in place, and its stores go only to guest memory the program may write
  and are all announced to the write observer.  An instruction that faults or is refused has moreover
  changed nothing at all, except MASKMOVDQU, which stores its bytes one at a time.
\<close>

theorem simd_engine_is_sound:
  assumes "mem_wf m"
  shows "engine_sound m (x86p_simd_execute H classify m i) \<and>
    (\<forall>cpu s. fst (x86p_simd_execute H classify m i cpu s) \<noteq> EngineOk \<and> sd_op (classify i) \<noteq> Move kX86pSimdMaskmovdqu \<longrightarrow>
       snd (x86p_simd_execute H classify m i cpu s) = (cpu, s))"
proof (intro conjI allI impI)
  show "engine_sound m (x86p_simd_execute H classify m i)" by (rule simd_engine_sound [OF assms])
next
  fix cpu s
  let ?c = "\<lparr>sc_cpu = cpu, sc_memory = GuestMemory m s, sc_status = EngineOk\<rparr>"
  assume "fst (x86p_simd_execute H classify m i cpu s) \<noteq> EngineOk \<and> sd_op (classify i) \<noteq> Move kX86pSimdMaskmovdqu"
  then show "snd (x86p_simd_execute H classify m i cpu s) = (cpu, s)"
    using unchanged_execute [of ?c cpu "GuestMemory m s" "classify i" H i]
    by (simp add: x86p_simd_execute_def Let_def unchanged_unless_ok_def)
qed

theorem simd_engine_is_sound_witness:
  "\<forall>H classify i. engine_sound window (x86p_simd_execute H classify window i)"
  using simd_engine_is_sound [OF window_wf] by blast

text \<open>With both engines the interpreter relies on its decoder alone.\<close>

lemma modelled_engines_sound:
  "mem_wf m \<Longrightarrow> engines_sound (modelled_engines S x87_of cn H simd_of decode) m"
  by (simp add: engines_sound_def modelled_engines_def simd_engine_sound x87_sound)

lemma modelled_step_returns:
  assumes "mem_wf m" "cpu_ok cpu" "decoder_ok (modelled_engines S x87_of cn H simd_of decode)"
  shows "\<exists>st rep cpu' s'. x86p_step (modelled_engines S x87_of cn H simd_of decode) m cpu s = Some (st, rep, cpu', s') \<and> cpu_ok cpu'"
  using wp_step_shape [OF assms(2,3) modelled_engines_sound [OF assms(1)], of s] by (auto dest!: wpD)

section \<open>The form translated code calls\<close>

lemma write_back_read: "byte_writes m addr (guest_bytes m st addr n) st = st"
proof (induction n)
  case (Suc n)
  have "guest_bytes m st addr (Suc n) = guest_bytes m st addr n @ [st (host_of m (addr + of_nat n))]"
    by (simp add: guest_bytes_def)
  then show ?case using Suc by (simp add: byte_writes_append)
qed (simp add: guest_bytes_def)

text \<open>A context on guest memory beside one on the bytes at \<open>addr\<close>, before and after.\<close>

definition paired :: "mem \<Rightarrow> host \<Rightarrow> u32 \<Rightarrow> nat \<Rightarrow> simd_ctx \<Rightarrow> simd_ctx \<Rightarrow> bool" where
  "paired m s addr n c d \<longleftrightarrow> sc_cpu d = sc_cpu c \<and> sc_status c = EngineOk \<and> sc_status d = EngineOk \<and>
     sc_memory c = GuestMemory m s \<and> sc_memory d = GuardedBytes (guest_bytes m (hs_bytes s) addr n)"

definition agrees :: "mem \<Rightarrow> host \<Rightarrow> u32 \<Rightarrow> nat \<Rightarrow> simd_ctx \<Rightarrow> simd_ctx \<Rightarrow> bool" where
  "agrees m s addr n c d \<longleftrightarrow> sc_cpu d = sc_cpu c \<and> sc_status d = sc_status c \<and>
     (\<exists>s' bs. sc_memory c = GuestMemory m s' \<and> sc_memory d = GuardedBytes bs \<and> length bs = n \<and>
        hs_bytes s' = byte_writes m addr bs (hs_bytes s))"

text \<open>The operand is no memory, or all of it is at \<open>addr\<close> and may be accessed.\<close>

definition guarded :: "mem \<Rightarrow> u32 \<Rightarrow> cpu \<Rightarrow> u32 \<Rightarrow> nat \<Rightarrow> operand \<Rightarrow> bool" where
  "guarded m access cpu addr n opd \<longleftrightarrow>
     (o_kind opd = kX86pOperandMem \<longrightarrow> address_of cpu opd = addr \<and> granted_run m access addr n)"

lemma paired_agrees:
  assumes "paired m s addr n c d"
  shows "agrees m s addr n c d" "agrees m s addr n (ends st c) (ends st d)"
    "agrees m s addr n (c\<lparr>sc_cpu := cpu\<rparr>) (d\<lparr>sc_cpu := cpu\<rparr>)"
  using assms write_back_read [of m addr "hs_bytes s" n]
  by (auto simp: paired_def agrees_def ends_def)

lemma paired_general: "paired m s addr n c d \<Longrightarrow> agrees m s addr n (write_general r v c) (write_general r v d)"
  using paired_agrees [of m s addr n c d] by (auto simp: write_general_def paired_def split: option.split)

lemma granted_prefix: "granted_run m access addr n \<Longrightarrow> k \<le> n \<Longrightarrow> granted_run m access addr k"
  by (simp add: granted_run_def)

lemma paired_read:
  assumes p: "paired m s addr n c d" and wf: "mem_wf m" and g: "guarded m kX86pMemRead (sc_cpu c) addr n opd"
    and k: "o_kind opd = kX86pOperandMem \<longrightarrow> 0 < k \<and> k \<le> n \<and> n \<le> 16"
  shows "read_vec opd k d = read_vec opd k c"
proof (cases "o_kind opd = kX86pOperandMem")
  case True
  have u: "unat (of_nat k :: u32) = k" using k True by (simp add: unsigned_of_nat take_bit_nat_eq_self)
  then have "(of_nat k :: u32) \<noteq> 0" using k True by (metis less_numeral_extra(3) unsigned_0)
  moreover have "granted_run m kX86pMemRead addr k" using g True k by (auto simp: guarded_def intro: granted_prefix)
  ultimately have "x86p_mem_read_bytes m (hs_bytes s) addr (of_nat k) = Some (guest_bytes m (hs_bytes s) addr k)"
    by (simp add: read_bytes_eq [OF wf] u)
  moreover have "take k (guest_bytes m (hs_bytes s) addr n) = guest_bytes m (hs_bytes s) addr k"
    using k True by (simp add: guest_bytes_def take_map)
  ultimately show ?thesis
    using p True k g by (simp add: read_vec_def Let_def paired_def guarded_def)
qed (use p in \<open>simp add: read_vec_def Let_def paired_def split: operand_kind.split\<close>)

lemma paired_with:
  assumes "paired m s addr n c d" "mem_wf m" "guarded m kX86pMemRead (sc_cpu c) addr n opd"
    "o_kind opd = kX86pOperandMem \<longrightarrow> 0 < k \<and> k \<le> n \<and> n \<le> 16"
    "\<And>v. agrees m s addr n (use v c) (use' v d)"
  shows "agrees m s addr n (with_vec opd k use c) (with_vec opd k use' d)"
  using assms(5) paired_agrees [OF assms(1)]
  by (simp add: with_vec_def paired_read [OF assms(1-4)] split: sum.split)

lemma paired_write:
  assumes p: "paired m s addr n c d" and wf: "mem_wf m" and g: "guarded m kX86pMemWrite (sc_cpu c) addr n opd"
    and k: "o_kind opd = kX86pOperandMem \<longrightarrow> k = n \<and> 0 < n \<and> n \<le> 16"
  shows "agrees m s addr n (write_vec opd k v c) (write_vec opd k v d)"
proof (cases "o_kind opd = kX86pOperandMem")
  case True
  have u: "unat (of_nat n :: u32) = n" using k True by (simp add: unsigned_of_nat take_bit_nat_eq_self)
  then have "(of_nat n :: u32) \<noteq> 0" using k True by (metis less_numeral_extra(3) unsigned_0)
  moreover have len: "length (vec_list n v) = unat (of_nat n :: u32)" by (simp add: u)
  ultimately have "x86p_mem_write_bytes m s addr (vec_list n v) (of_nat n) =
      Some ((notify s addr (of_nat n))\<lparr>hs_bytes := byte_writes m addr (vec_list n v) (hs_bytes s)\<rparr>)"
    using g True by (simp add: write_bytes_eq [OF wf len] u guarded_def)
  then show ?thesis using p True k g by (simp add: write_vec_def Let_def paired_def agrees_def guarded_def)
next
  case False
  then show ?thesis using p paired_agrees [OF p]
    by (auto simp: write_vec_def Let_def paired_def split: operand_kind.split option.split)
qed

text \<open>The operands a translated block passes on: a memory destination is only ever stored to.\<close>

definition block_form :: "simd_fields \<Rightarrow> insn \<Rightarrow> bool" where
  "block_form x i \<longleftrightarrow>
     sd_op x \<noteq> Move kX86pSimdMaskmovdqu \<and>
     (o_kind (i_operand i ! 0) = kX86pOperandMem \<longrightarrow> (case sd_op x of Move op \<Rightarrow> op \<noteq> kX86pSimdPinsrw | State _ \<Rightarrow> True | _ \<Rightarrow> False)) \<and>
     (sd_op x = Move kX86pSimdMovaps \<longrightarrow>
        o_kind (i_operand i ! 0) = kX86pOperandXmm \<or> o_kind (i_operand i ! 1) = kX86pOperandXmm)"

lemma memory_bytes_le: "x86p_simd_memory_bytes x i \<le> 16"
proof -
  have "fst (generic_widths op mem (reg_width i)) \<le> 16" for op mem
    using generic_widths_le by (metis prod.collapse)
  then show ?thesis by (simp add: x86p_simd_memory_bytes_def Let_def split: simd_op.split move_op.split state_op.split)
qed

lemma generic_widths_pos: "0 < fst (generic_widths op mem (reg_width i))"
  by (simp add: generic_widths_def reg_width_def Let_def split: simd_op.split single_op.split double_op.split)

lemma reg_width_ge: "8 \<le> reg_width i" by (simp add: reg_width_def)

lemmas paired_rules = paired_with paired_write paired_agrees(2,3) paired_general

lemma state_agrees:
  assumes p: "paired m s addr n c d" and wf: "mem_wf m" and n: "n = x86p_simd_memory_bytes x i" and x: "sd_op x = State op"
    and g: "guarded m (if op = kX86pSimdLdmxcsr then kX86pMemRead else kX86pMemWrite) (sc_cpu c) addr n (i_operand i ! 0)"
  shows "agrees m s addr n (exec_state op i c) (exec_state op i d)"
proof -
  have cpu: "sc_cpu d = sc_cpu c" using p by (simp add: paired_def)
  show ?thesis
    using p wf n g x unfolding exec_state_def Let_def cpu
    by (cases op) (auto simp: x86p_simd_memory_bytes_def cpu intro!: paired_rules intro: paired_agrees(1))
qed

lemma move_agrees:
  assumes p: "paired m s addr n c d" and wf: "mem_wf m" and n: "n = x86p_simd_memory_bytes x i" and x: "sd_op x = Move op"
    and b: "block_form x i"
    and g: "guarded m kX86pMemWrite (sc_cpu c) addr n (i_operand i ! 0)" "guarded m kX86pMemRead (sc_cpu c) addr n (i_operand i ! 1)"
  shows "agrees m s addr n (exec_move op i imm c) (exec_move op i imm d)"
proof -
  have cpu: "sc_cpu d = sc_cpu c" using p by (simp add: paired_def)
  have ge: "8 \<le> x86p_simd_memory_bytes x i"
    if "op = kX86pSimdMovmskps \<or> op = kX86pSimdMovmskpd \<or> op = kX86pSimdPmovmskb \<or> op = kX86pSimdPextrw"
    using that reg_width_ge [of i] x by (auto simp: x86p_simd_memory_bytes_def generic_widths_def)
  have nomem: "guarded m kX86pMemRead (sc_cpu c) addr n (i_operand i ! 0)" if "op = kX86pSimdPinsrw"
    using that b x by (auto simp: block_form_def guarded_def)
  show ?thesis
    using p wf n g x b ge nomem memory_bytes_le [of x i] unfolding exec_move_def Let_def cpu
    by (cases op) (auto simp: x86p_simd_memory_bytes_def block_form_def intro!: paired_rules intro: paired_agrees(1))
qed

lemma lanes_agree:
  assumes p: "paired m s addr n c d" and wf: "mem_wf m" and n: "n = fst (generic_widths op (o_kind (i_operand i ! 1) = kX86pOperandMem) (reg_width i))"
    and d: "o_kind (i_operand i ! 0) \<noteq> kX86pOperandMem" and g: "guarded m kX86pMemRead (sc_cpu c) addr n (i_operand i ! 1)"
  shows "agrees m s addr n (exec_lanes H op i imm c) (exec_lanes H op i imm d)"
proof -
  have cpu: "sc_cpu d = sc_cpu c" using p by (simp add: paired_def)
  obtain src dst where w: "generic_widths op (o_kind (i_operand i ! 1) = kX86pOperandMem) (reg_width i) = (src, dst)"
    by (cases "generic_widths op (o_kind (i_operand i ! 1) = kX86pOperandMem) (reg_width i)")
  have b: "0 < n" "n \<le> 16" "n = src"
    using generic_widths_le [OF w] generic_widths_pos [of op "o_kind (i_operand i ! 1) = kX86pOperandMem" i] n w by simp_all
  have no: "guarded m access (sc_cpu c) addr n (i_operand i ! 0)" for access using d by (simp add: guarded_def)
  show ?thesis
    using p wf b d no g unfolding exec_lanes_def Let_def w
    by (auto simp: cpu intro!: paired_rules intro: paired_agrees(1) split: option.split)
qed

lemma pf_agrees:
  assumes p: "paired m s addr n c d" and wf: "mem_wf m" and n: "n = 8"
    and d: "o_kind (i_operand i ! 0) \<noteq> kX86pOperandMem" and g: "guarded m kX86pMemRead (sc_cpu c) addr n (i_operand i ! 1)"
  shows "agrees m s addr n (exec_pf H op i c) (exec_pf H op i d)"
  using p wf n d g unfolding exec_pf_def Let_def
  by (auto simp: guarded_def intro!: paired_rules intro: paired_agrees(1) split: option.split)

text \<open>
  C17. Translated code computes what the interpreter computes.  For a vector instruction whose memory
  operand is at an address a block has checked, with the access rights the instruction needs, the form
  that works on the operand's bytes ends in the same status with the same registers as the form that
  works on guest memory, and writing its bytes back gives the same guest memory.
\<close>

theorem simd_host_form_agrees:
  assumes "mem_wf m" and "block_form (classify i) i" and "n = x86p_simd_memory_bytes (classify i) i"
    and "guarded m (if sd_op (classify i) = State kX86pSimdLdmxcsr then kX86pMemRead else kX86pMemWrite) cpu addr n (i_operand i ! 0)"
    and "guarded m kX86pMemRead cpu addr n (i_operand i ! 1)"
    and "x86p_simd_execute_host H classify i cpu (guest_bytes m (hs_bytes s) addr n) = (st, cpu', bs)"
  shows "length bs = n \<and>
    (\<exists>s'. x86p_simd_execute H classify m i cpu s = (st, cpu', s') \<and> hs_bytes s' = byte_writes m addr bs (hs_bytes s))"
proof -
  let ?x = "classify i"
  let ?c = "\<lparr>sc_cpu = cpu, sc_memory = GuestMemory m s, sc_status = EngineOk\<rparr>"
  let ?d = "\<lparr>sc_cpu = cpu, sc_memory = GuardedBytes (guest_bytes m (hs_bytes s) addr n), sc_status = EngineOk\<rparr>"
  have p: "paired m s addr n ?c ?d" by (simp add: paired_def)
  have "agrees m s addr n (simd_execute H ?x i ?c) (simd_execute H ?x i ?d)"
  proof (cases "is_refused H (sd_op ?x)")
    case True
    then show ?thesis using paired_agrees(2) [OF p] by (simp add: simd_execute_def)
  next
    case refused: False
    show ?thesis
    proof (cases "sd_op ?x")
      case (Move op)
      then have "guarded m kX86pMemWrite cpu addr n (i_operand i ! 0)" using assms(4) by simp
      then show ?thesis using move_agrees [OF p assms(1,3) Move assms(2)] assms(5) refused Move by (simp add: simd_execute_def)
    next
      case (State op)
      then show ?thesis using state_agrees [OF p assms(1,3) State] assms(4) refused by (simp add: simd_execute_def)
    next
      case kX86pSimdPf
      then show ?thesis using pf_agrees [OF p assms(1)] assms(2,3,5) refused
        by (simp add: simd_execute_def x86p_simd_memory_bytes_def block_form_def)
    qed (use lanes_agree [OF p assms(1)] assms(2,3,5) refused in
        \<open>simp_all add: simd_execute_def x86p_simd_memory_bytes_def block_form_def\<close>)
  qed
  moreover have "sd_op ?x \<noteq> Move kX86pSimdMaskmovdqu" using assms(2) by (simp add: block_form_def)
  ultimately show ?thesis
    using assms(6) by (auto simp: x86p_simd_execute_host_def x86p_simd_execute_def Let_def assms(3) [symmetric] agrees_def guest_bytes_def)
qed

text \<open>PADDB of the sixteen bytes at \<open>0x10000\<close> to XMM0.\<close>

definition paddb_insn :: insn where
  "paddb_insn =
     inc_eax\<lparr>i_mnemonic := ''PADDB'', i_operands := 2,
       i_operand := (let z = hd (i_operand inc_eax) in
         [z\<lparr>o_kind := kX86pOperandXmm, o_size := 16\<rparr>, z\<lparr>o_kind := kX86pOperandMem, o_size := 16, o_disp := 0x10000\<rparr>,
          z\<lparr>o_kind := kX86pOperandNone\<rparr>])\<rparr>"

definition paddb_fields :: simd_fields where
  "paddb_fields = \<lparr>sd_op = Packed (Bytes kX86pSimdPaddb), sd_pf = kX86pPfAdd\<rparr>"

lemma paddb_operands:
  "o_kind (i_operand paddb_insn ! 0) = kX86pOperandXmm" "o_kind (i_operand paddb_insn ! 1) = kX86pOperandMem"
  "address_of cpu (i_operand paddb_insn ! 1) = 0x10000"
  by (simp_all add: paddb_insn_def inc_eax_def address_of_def Let_def)

lemma paddb_width: "x86p_simd_memory_bytes paddb_fields paddb_insn = 16"
  by (simp add: x86p_simd_memory_bytes_def generic_widths_def reg_width_def paddb_fields_def paddb_insn_def inc_eax_def Let_def)

theorem simd_host_form_agrees_witness:
  "\<forall>H. \<exists>st cpu' bs s'. length bs = 16 \<and>
     x86p_simd_execute_host H (\<lambda>_. paddb_fields) paddb_insn boot (guest_bytes window (hs_bytes code_host) 0x10000 16) = (st, cpu', bs) \<and>
     x86p_simd_execute H (\<lambda>_. paddb_fields) window paddb_insn boot code_host = (st, cpu', s')"
proof
  fix H
  have "x86p_mem_accessible window 0x10000 16 kX86pMemRead" by code_simp
  then have g: "granted_run window kX86pMemRead 0x10000 16" by (simp add: accessible_iff [OF window_wf])
  obtain st cpu' bs where r: "x86p_simd_execute_host H (\<lambda>_. paddb_fields) paddb_insn boot
      (guest_bytes window (hs_bytes code_host) 0x10000 16) = (st, cpu', bs)" by (metis prod_cases3)
  have "block_form paddb_fields paddb_insn"
    by (simp add: block_form_def paddb_operands) (simp add: paddb_fields_def)
  from simd_host_form_agrees [where classify = "\<lambda>_. paddb_fields", OF window_wf this paddb_width [symmetric] _ _ r]
  show "\<exists>st cpu' bs s'. length bs = 16 \<and>
     x86p_simd_execute_host H (\<lambda>_. paddb_fields) paddb_insn boot (guest_bytes window (hs_bytes code_host) 0x10000 16) = (st, cpu', bs) \<and>
     x86p_simd_execute H (\<lambda>_. paddb_fields) window paddb_insn boot code_host = (st, cpu', s')"
    using r g by (auto simp: guarded_def paddb_operands simp del: One_nat_def)
qed

section \<open>Where the code departs from the architecture\<close>

text \<open>
  On sixteen bytes PUNPCKLBW interleaves the low half of each quadword; byte 8 of the result is byte 8
  of the destination, where the instruction interleaves the low quadwords and byte 8 is byte 4.
\<close>

lemma unpack_interleaves_each_quadword:
  assumes "v_bytes a = 16"
  shows "v_b (unpack_lanes kX86pSimdPunpcklbw a b) 8 = v_b a 8"
proof -
  have u: "[0..<2] = [0, 1 :: nat]" "[0..<4] = [0, 1, 2, 3 :: nat]" by code_simp+
  show ?thesis using assms
    by (simp add: unpack_lanes_def unpack_def unpack_lane_def copy_bytes_def vec_zero_def Let_def u)
qed

text \<open>A vector instruction does not reduce the address of its memory operand to 16 bits, as every other does.\<close>

lemma vector_address_is_not_reduced:
  assumes "o_addr16 opd" "o_base opd = None" "o_index opd = None" "o_seg opd = kX86pSegDs" "o_disp opd = 0x12345"
  shows "address_of cpu opd = 0x12345 \<and> effective_address cpu opd = Some 0x2345"
  using assms by (simp add: address_of_def effective_address_def Let_def)

end
