(* ===== verification/Spec2Isabelle.thy ===== *)
theory Spec2Isabelle
  imports X86_Alu_Properties X86_Bits X86_Bcd X86_Sparse_Properties X86_Memory_Properties X86_Stack_Properties
    X86_Exec_Helpers X86_Exec_Faults X86_Wasm_Emit_Properties
    X86_Wasm_Host_Properties X86_Flag_Liveness_Properties X86_Jit_Engine_Contract
    X86_X87_Properties X86_Ext80_Formats X86_Decode_Cache X86_Simd_Properties
begin

text \<open>
  x86port: a verification library for the x86 execution engine under \<open>src/src/x86port\<close>.

  The program runs 32-bit x86 code on a foreign host.  Guest memory (\<open>memory.c\<close> over the sparse
  mapping \<open>memory_sparse.c\<close>) and the machine record (\<open>cpu.h\<close>) are shared by two ways of executing: an
  interpreter (\<open>exec.c\<close>, with the integer helpers, the string and stack instructions, the x87 unit and
  the vector unit it calls), and a dispatcher of translated blocks (\<open>jit_engine.c\<close>, with the code
  storage, the exit slots of chained blocks, the flag liveness scan and its diagnostics).  On the web a
  translation is a WebAssembly module, which an encoder (\<open>emit_wasm.c\<close>) writes and an arena
  (\<open>jit_wasm_arena.c\<close>) keeps alive in the browser (\<open>jit_wasm_host.c\<close>).

  C integers are words of their width, a C \<open>int\<close> that counts or measures is a \<open>nat\<close> or an \<open>int\<close>, an
  operand width is a number of bytes.  A pointer the code writes through is a value returned updated,
  an error is a value, and a diagnostic abort is \<open>None\<close>.
\<close>

section \<open>The parts and their theories\<close>

text \<open>
  Integer operations.  \<open>X86_Flags\<close> (\<open>flags.c\<close>: the flags are the last operation, evaluated on demand),
  \<open>X86_Cond\<close> (\<open>cond.c\<close>), \<open>X86_Alu\<close> (\<open>alu.c\<close>), \<open>X86_Bits\<close> (\<open>bit_ops.c\<close>) and \<open>X86_Bcd\<close> (\<open>bcd.c\<close>) define the
  operations.  \<open>X86_Arith\<close> and \<open>X86_Alu_Spec\<close> specify them over the integers; \<open>X86_Alu_Shift\<close>,
  \<open>X86_Alu_Rotate\<close>, \<open>X86_Alu_Mul\<close> and \<open>X86_Alu_Properties\<close> show results, all flags, the divide error and
  that the flags materialised in memory are those of the lazy form.

  Memory.  \<open>X86_Sparse\<close> is the ordered table of ranges, \<open>X86_Sparse_Properties\<close> its invariant over all
  reachable tables and its map from guest to host bytes.  \<open>X86_Memory\<close> has every access over a store of
  host bytes, the write observer being a flag and its log; \<open>X86_Memory_Spans\<close>, \<open>X86_Memory_Access\<close> and
  \<open>X86_Memory_Properties\<close> show exactly which accesses succeed and that they read and write bytes.

  Machine and interpreter.  \<open>X86_Cpu\<close> (\<open>cpu.c\<close>, \<open>multiply.c\<close>, \<open>cpuid.c\<close>), \<open>X86_Decode\<close> (the decoded
  instruction of \<open>decode.h\<close>), \<open>X86_Stack\<close> (\<open>stack_ops.c\<close>), \<open>X86_String\<close> (\<open>string_ops.c\<close>) and \<open>X86_Exec\<close>
  (\<open>exec.c\<close>, one definition per case of its switch) are the model; \<open>X86_Decode_Cache\<close> adds
  \<open>decode_cache.c\<close> and the step through it.  \<open>X86_Exec_Wp\<close> is a calculus for computations that may
  abort, \<open>X86_Exec_Invariant\<close> proves once that the switch keeps whatever its elementary effects keep, and
  \<open>X86_Exec_Properties\<close> instantiates that: a step always returns, stores only where it may and announces
  what it stores.  \<open>X86_Exec_Faults\<close> shows which instructions can be restarted, \<open>X86_Exec_Helpers\<close> that
  the helpers of translated code agree with the interpreter, \<open>X86_Cpu_Properties\<close>,
  \<open>X86_Stack_Properties\<close> and \<open>X86_String_Properties\<close> the registers, the stack and the repeats.

  The x87 unit.  \<open>X86_X87\<close> is the register file, \<open>X86_Ext80\<close> the arithmetic on the ten-byte format as
  integer operations, \<open>X86_F128\<close> the host's \<open>long double\<close>, \<open>X86_X87_Arith\<close> the two paths of the arithmetic
  (\<open>x87.c\<close>), \<open>X86_X87_Registers\<close> and \<open>X86_X87_Exec\<close> the instructions.  The theories \<open>X86_Ext80_Words\<close>
  through \<open>X86_Ext80_Integer\<close> specify rounding over the reals and prove addition, subtraction,
  multiplication and the conversions correctly rounded; \<open>X86_F128_Order\<close> and \<open>X86_F128_Properties\<close> treat
  the long double; \<open>X86_X87_Engine\<close> and \<open>X86_X87_Properties\<close> the instructions as a program sees them.

  The vector unit.  \<open>X86_Simd_Int\<close> and \<open>X86_Simd_Float\<close> are the lanes (\<open>simd_int.c\<close>, \<open>simd_packed.c\<close>,
  \<open>simd_float.c\<close>, \<open>simd_double.c\<close>, \<open>three_dnow.c\<close>), \<open>X86_Simd\<close> the operands and the dispatch of \<open>simd.c\<close>.
  \<open>X86_Simd_Engine\<close> discharges the interpreter's contract for it, so that with \<open>modelled_engines\<close> the
  interpreter has no engine left as a parameter; \<open>X86_Simd_Properties\<close> compares the two forms.

  Dispatcher.  \<open>X86_Jit_Chain\<close> (\<open>jit_chain.c\<close>, \<open>jit_leaf_sites.c\<close>), \<open>X86_Jit_Storage\<close>
  (\<open>jit_storage_native.c\<close>, \<open>jit_status.c\<close>), \<open>X86_Jit_Probe\<close> (\<open>jit_profile.c\<close>, \<open>jit_chain_census.c\<close>) and
  \<open>X86_Jit_Engine\<close> (\<open>jit_engine.c\<close>) are the model.  \<open>X86_Jit_Engine_Invariant\<close> and \<open>X86_Jit_Engine_Steps\<close>
  prove the invariant of every reachable engine, \<open>X86_Jit_Engine_Properties\<close> and
  \<open>X86_Jit_Engine_Contract\<close> what the embedder is promised, \<open>X86_Jit_Probe_Properties\<close> and
  \<open>X86_Jit_Profile_Properties\<close> the two tables.  \<open>X86_Jit_Gate\<close> are the gates of the native backends and
  \<open>X86_Flag_Liveness\<close>, \<open>X86_Flag_Liveness_Properties\<close> the scan that drops flag writes, proved against
  runs of the interpreter.

  WebAssembly.  \<open>X86_Wasm_Emit\<close> is the encoder and its buffer, \<open>X86_Wasm_Arena\<close> the arena and
  \<open>X86_Wasm_Host\<close> the browser side; each has a theory of properties.
\<close>

section \<open>Parameters and what is assumed of them\<close>

text \<open>
  Code outside the repository is a parameter.  The decoder is one: it is built on a disassembler that is
  not part of the sources.  \<open>decoder_ok\<close> says that the registers and widths of what it returns are valid
  ones, \<open>decoder_laws\<close> that the instruction depends on its own bytes only and is at most 15 long.  The
  block cache, code memory, the translator with the code it emits, and the embedder's callbacks are the
  record \<open>jit_host\<close> with the laws \<open>host_laws\<close>; \<open>X86_Jit_Engine_Contract\<close> has a host on which they hold.
  The software floating-point library is the record \<open>softfloat\<close> and the host's floats and doubles
  \<open>host_float\<close>; the only thing assumed of either is that division of doubles is that of the IEEE
  standard, for the agreement of the two x87 paths.  Of the WebAssembly engine nothing is assumed; of
  \<open>addFunction\<close>, \<open>add_function_law\<close>: a function it has not been given before gets an index that is not in
  use, while for one it knows it may answer any index.  Each law is met by a concrete instance in a witness.

  Interfaces between the components are locales: \<open>undoing\<close> (rotation steps), \<open>range_map\<close> (the sparse
  mapping), \<open>word_memory\<close> (guest memory, on which the stack rests), \<open>machine_invariant\<close> and
  \<open>bulk_invariant\<close> (what the interpreter keeps), \<open>keyed\<close> (the open-addressed tables) and \<open>wasm_engine\<close>
  (what the arena needs of the browser); each is interpreted on the model.
\<close>

section \<open>Bounds and termination\<close>

text \<open>
  Loops over a list or a counter recurse on it.  The repeat of a string instruction has as fuel the
  value of ECX it starts with, and \<open>X86_String_Properties\<close> shows that it never needs more; a probe has
  the length of its table, which \<open>X86_Jit_Probe_Properties\<close> shows to hold a free slot; the loops that
  normalise a significand have its 64 bits.  The two loops of the dispatcher whose end depends on its
  callers, \<open>room_loop\<close> and \<open>run_loop\<close>, are partial functions, for which not returning is \<open>None\<close>, and are
  proved to return in every reachable engine.

  Where the code's own arithmetic has a limit the theorems say so: a histogram is exact for hints up to
  \<open>2 ^ 29\<close> (beyond \<open>2 ^ 31\<close> the doubled hint wraps, \<open>histogram_hint_wraps\<close>) and never holds the address
  \<open>0xFFFFFFFF\<close>, its mark of a free slot; the browser holds exactly the live modules as long as their
  number fits the \<open>int\<close> that carries it (\<open>module_number_wraps\<close>).
\<close>

section \<open>What is not modelled\<close>

text \<open>
  The decoder table over the disassembler; the encoders of x86-64 and arm64 and all translations of
  guest instructions, native and WebAssembly, whose meaning is that of another machine; the wrappers and
  gates of translated x87 code; the WebAssembly storage, chaining and compaction above the arena (the
  storage contract is modelled on the native host); the branches of the x87 unit for hosts with a long
  double other than binary128, the host assembly that evaluates transcendental functions and the host's
  reciprocal approximations; reading executable files; reports, name tables of statuses and the tests.
\<close>

end
